(* ===== verification/Prelude.thy ===== *)
theory Prelude
  imports Main "HOL-Library.Word" "HOL-Library.Product_Lexorder"
begin

text \<open>
  The vocabulary every component shares: the identifiers and numbers of the program, the
  result type of a fallible operation and its sequencing, and the few shapes of SQL statement
  the store issues, as functions on lists of rows, with the lemmas that carry the component
  proofs.
\<close>

named_theorems result_simps \<open>equations that run the result monad\<close>
named_theorems row_simps \<open>facts about updates, counts and queries on lists of rows\<close>

section \<open>Identifiers and numbers\<close>

text \<open>
  A \<open>[u8; 16]\<close> identifier is read big-endian as a 128-bit word, so that the derived order of
  the Rust type (lexicographic on bytes) and PostgreSQL's order on \<open>uuid\<close> are the order of the
  word. Digests and lease tokens are \<open>[u8; 32]\<close>.
\<close>

type_synonym uuid = "128 word"
type_synonym digest = "256 word"
type_synonym lease_token = "256 word"
type_synonym byte = "8 word"
type_synonym micros = int  \<comment> \<open>\<open>UnixMicros(i64)\<close> and every \<open>bigint\<close> column\<close>

text \<open>\<open>JsonPayload(Vec<u8>)\<close>: opaque bytes, parsed only by \<open>serde_json\<close>.\<close>

type_synonym json_payload = string

abbreviation i64_max :: int where "i64_max \<equiv> 9223372036854775807"
abbreviation i64_min :: int where "i64_min \<equiv> - 9223372036854775808"
abbreviation u64_max :: nat where "u64_max \<equiv> 18446744073709551615"
abbreviation u32_max :: nat where "u32_max \<equiv> 4294967295"

text \<open>\<open>i64::checked_add\<close>, \<open>i64::try_from(u64)\<close> and \<open>u64::try_from(i64)\<close> of the standard library.\<close>

definition checked_add_i64 :: "int \<Rightarrow> int \<Rightarrow> int option" where
  "checked_add_i64 a b = (if i64_min \<le> a + b \<and> a + b \<le> i64_max then Some (a + b) else None)"

definition i64_try_from :: "nat \<Rightarrow> int option" where
  "i64_try_from n = (if int n \<le> i64_max then Some (int n) else None)"

definition u64_try_from :: "int \<Rightarrow> nat option" where
  "u64_try_from i = (if 0 \<le> i then Some (nat i) else None)"

definition u64_checked_add :: "nat \<Rightarrow> nat \<Rightarrow> nat option" where
  "u64_checked_add a b = (if a + b \<le> u64_max then Some (a + b) else None)"

lemma checked_add_i64_Some [simp]:
  "checked_add_i64 a b = Some c \<longleftrightarrow> c = a + b \<and> i64_min \<le> c \<and> c \<le> i64_max"
  by (auto simp: checked_add_i64_def)

lemma i64_try_from_Some [simp]: "i64_try_from n = Some i \<longleftrightarrow> i = int n \<and> i \<le> i64_max"
  by (auto simp: i64_try_from_def)

lemma u64_try_from_Some [simp]: "u64_try_from i = Some n \<longleftrightarrow> 0 \<le> i \<and> i = int n"
  by (auto simp: u64_try_from_def)

section \<open>JSON values\<close>

text \<open>
  The data model of \<open>serde_json::Value\<close>; an object is the list of its members, in the order
  of its map. Parsing and printing are external functions (record \<open>externals\<close> below).
\<close>

datatype json =
    JNull
  | JBool bool
  | JInt int
  | JFloat string  \<comment> \<open>any other number, by its decimal text\<close>
  | JString string
  | JArray "json list"
  | JObject "(string \<times> json) list"

fun as_object :: "json \<Rightarrow> (string \<times> json) list option" where
  "as_object (JObject ms) = Some ms"
| "as_object _ = None"

fun as_array :: "json \<Rightarrow> json list option" where
  "as_array (JArray xs) = Some xs"
| "as_array _ = None"

text \<open>\<open>Map::get\<close> on the members of an object.\<close>

definition json_get :: "(string \<times> json) list \<Rightarrow> string \<Rightarrow> json option" where
  "json_get ms k = map_of ms k"

fun as_str :: "json \<Rightarrow> string option" where
  "as_str (JString s) = Some s"
| "as_str _ = None"

text \<open>
  Functions of third-party crates: SHA-256 of the \<open>sha2\<close> crate on bytes, and \<open>from_slice\<close>,
  \<open>to_vec\<close> and \<open>Value::pointer\<close> of \<open>serde_json\<close>. Every operation that calls one takes this
  record; no theorem assumes anything about its fields unless it says so.
\<close>

record externals =
  ext_sha256 :: "byte list \<Rightarrow> digest"
  ext_from_slice :: "json_payload \<Rightarrow> json option"
  ext_to_vec :: "json \<Rightarrow> json_payload"
  ext_pointer :: "json \<Rightarrow> string \<Rightarrow> json option"

section \<open>Results\<close>

text \<open>\<open>Result<T, E>\<close> is \<open>'e + 'a\<close>; \<open>bindR\<close> is the \<open>?\<close> operator, \<open>ok_or\<close> is \<open>Option::ok_or\<close>.\<close>

definition bindR :: "'e + 'a \<Rightarrow> ('a \<Rightarrow> 'e + 'b) \<Rightarrow> 'e + 'b" where
  "bindR m f = (case m of Inl e \<Rightarrow> Inl e | Inr x \<Rightarrow> f x)"

definition ok_or :: "'a option \<Rightarrow> 'e \<Rightarrow> 'e + 'a" where
  "ok_or x e = (case x of None \<Rightarrow> Inl e | Some y \<Rightarrow> Inr y)"

definition guardR :: "bool \<Rightarrow> 'e \<Rightarrow> 'e + unit" where
  "guardR b e = (if b then Inr () else Inl e)"

lemma bindR_simps [simp, result_simps]:
  "bindR (Inl e) f = Inl e" "bindR (Inr x) f = f x"
  by (simp_all add: bindR_def)

lemma ok_or_simps [simp, result_simps]: "ok_or None e = Inl e" "ok_or (Some x) e = Inr x"
  by (simp_all add: ok_or_def)

lemma guardR_simps [simp, result_simps]: "guardR True e = Inr ()" "guardR False e = Inl e"
  by (simp_all add: guardR_def)

lemma bindR_Inr_iff: "bindR m f = Inr y \<longleftrightarrow> (\<exists>x. m = Inr x \<and> f x = Inr y)"
  by (cases m) auto

lemma bindR_Inl_iff: "bindR m f = Inl e \<longleftrightarrow> m = Inl e \<or> (\<exists>x. m = Inr x \<and> f x = Inl e)"
  by (cases m) auto

lemma ok_or_Inr_iff: "ok_or x e = Inr y \<longleftrightarrow> x = Some y"
  by (cases x) auto

lemma guardR_Inr_iff: "guardR b e = Inr u \<longleftrightarrow> b"
  by (cases b) auto

lemmas result_iffs = bindR_Inr_iff ok_or_Inr_iff guardR_Inr_iff

text \<open>A \<open>for\<close> loop whose body may return early with an error, threading a state.\<close>

fun foldR :: "('a \<Rightarrow> 's \<Rightarrow> 'e + 's) \<Rightarrow> 'a list \<Rightarrow> 's \<Rightarrow> 'e + 's" where
  "foldR f [] s = Inr s"
| "foldR f (x # xs) s = bindR (f x s) (foldR f xs)"

text \<open>What every step of the loop keeps, the loop keeps.\<close>

lemma foldR_invariant:
  assumes "foldR f xs s = Inr s'" and "I s"
    and "\<And>x s s'. x \<in> set xs \<Longrightarrow> f x s = Inr s' \<Longrightarrow> I s \<Longrightarrow> I s'"
  shows "I s'"
  using assms
proof (induction xs arbitrary: s)
  case (Cons x xs)
  from Cons.prems(1) obtain s1 where "f x s = Inr s1" and "foldR f xs s1 = Inr s'"
    by (auto simp: bindR_Inr_iff)
  with Cons.prems Cons.IH [of s1] show ?case by auto
qed simp

section \<open>SQL statements on lists of rows\<close>

text \<open>
  A table is the list of its rows. \<open>UPDATE t SET .. WHERE ..\<close> is \<open>sql_update\<close>, and the row
  count the driver returns is \<open>sql_count\<close> of the same condition; \<open>query_opt\<close> on a unique key
  is \<open>find\<close>.
\<close>

definition sql_update :: "('r \<Rightarrow> bool) \<Rightarrow> ('r \<Rightarrow> 'r) \<Rightarrow> 'r list \<Rightarrow> 'r list" where
  "sql_update P f rows = map (\<lambda>r. if P r then f r else r) rows"

definition sql_count :: "('r \<Rightarrow> bool) \<Rightarrow> 'r list \<Rightarrow> nat" where
  "sql_count P rows = length (filter P rows)"

definition sql_exists :: "('r \<Rightarrow> bool) \<Rightarrow> 'r list \<Rightarrow> bool" where
  "sql_exists P rows = list_ex P rows"

lemma sql_update_Nil [simp]: "sql_update P f [] = []"
  by (simp add: sql_update_def)

lemma sql_update_Cons [simp]:
  "sql_update P f (r # rs) = (if P r then f r else r) # sql_update P f rs"
  by (simp add: sql_update_def)

lemma length_sql_update [simp, row_simps]: "length (sql_update P f rows) = length rows"
  by (simp add: sql_update_def)

lemma set_sql_update: "set (sql_update P f rows) = (\<lambda>r. if P r then f r else r) ` set rows"
  by (simp add: sql_update_def)

lemma find_sql_update:
  assumes "\<And>r. P r \<Longrightarrow> Q (f r) = Q r"
  shows "find Q (sql_update P f rows) = map_option (\<lambda>r. if P r then f r else r) (find Q rows)"
  using assms by (induction rows) (auto simp: sql_update_def)

lemma filter_sql_update_other:
  assumes "\<And>v. P v \<Longrightarrow> Q v \<and> Q (f v)"
  shows "filter (\<lambda>v. \<not> Q v) (sql_update P f rows) = filter (\<lambda>v. \<not> Q v) rows"
  using assms by (induction rows) (auto simp: sql_update_def)

lemma all_sql_update:
  "(\<forall>r \<in> set (sql_update P f rows). Q r) \<longleftrightarrow> (\<forall>r \<in> set rows. Q (if P r then f r else r))"
  by (induction rows) (simp_all add: sql_update_def)

lemma in_sql_updateE:
  assumes "r' \<in> set (sql_update P f rows)"
  obtains r where "r \<in> set rows" and "r' = (if P r then f r else r)"
  using assms by (auto simp: set_sql_update)

lemma map_sql_update_same [row_simps]:
  assumes "\<And>r. P r \<Longrightarrow> g (f r) = g r"
  shows "map g (sql_update P f rows) = map g rows"
  using assms by (simp add: sql_update_def)

lemma sql_update_id: "(\<And>r. r \<in> set rows \<Longrightarrow> \<not> P r) \<Longrightarrow> sql_update P f rows = rows"
  by (simp add: sql_update_def map_idI)

lemma sql_count_0_iff [row_simps]: "sql_count P rows = 0 \<longleftrightarrow> (\<forall>r \<in> set rows. \<not> P r)"
  by (auto simp: sql_count_def filter_empty_conv)

lemma sql_count_pos: "sql_count P rows \<noteq> 0 \<longleftrightarrow> (\<exists>r \<in> set rows. P r)"
  by (auto simp: sql_count_def filter_empty_conv)

lemma sql_count_1E:
  assumes "sql_count P rows = 1"
  obtains r where "r \<in> set rows" and "P r"
  using assms sql_count_pos [of P rows] by auto

lemma sql_exists_iff [row_simps]: "sql_exists P rows \<longleftrightarrow> (\<exists>r \<in> set rows. P r)"
  by (simp add: sql_exists_def list_ex_iff)

text \<open>A predicate on rows that the update keeps holds for every row afterwards.\<close>

lemma ball_sql_update:
  assumes "\<forall>r \<in> set rows. Q r" and "\<And>r. r \<in> set rows \<Longrightarrow> P r \<Longrightarrow> Q r \<Longrightarrow> Q (f r)"
  shows "\<forall>r \<in> set (sql_update P f rows). Q r"
  using assms by (auto simp: set_sql_update)

lemma find_Some_in: "find P xs = Some x \<Longrightarrow> x \<in> set xs \<and> P x"
  by (auto simp: find_Some_iff)

lemma find_None_ball: "find P xs = None \<longleftrightarrow> (\<forall>x \<in> set xs. \<not> P x)"
  by (auto simp: find_None_iff)

text \<open>With a unique key, \<open>find\<close> on the key finds the row itself.\<close>

lemma find_unique:
  assumes "distinct (map k xs)" and "x \<in> set xs"
  shows "find (\<lambda>y. k y = k x) xs = Some x"
  using assms by (induction xs) (auto simp: image_iff)

lemma distinct_map_inj:
  "distinct (map k xs) \<Longrightarrow> x \<in> set xs \<Longrightarrow> y \<in> set xs \<Longrightarrow> k x = k y \<Longrightarrow> x = y"
  by (auto simp: distinct_map inj_on_def)

text \<open>Filtering commutes with an update that keeps the filter's value.\<close>

lemma filter_sql_update:
  assumes "\<And>r. P r \<Longrightarrow> Q (f r) = Q r"
  shows "filter Q (sql_update P f rows) = sql_update P f (filter Q rows)"
  using assms by (induction rows) auto

section \<open>Rows found by their key\<close>

lemma find_by_id:
  assumes "x \<in> set xs" and "P x" and "distinct (map k xs)" and "\<And>y. P y \<Longrightarrow> k y = k x"
  shows "find P xs = Some x"
proof (cases "find P xs")
  case None
  then show ?thesis using assms(1,2) by (simp add: find_None_ball)
next
  case (Some y)
  then show ?thesis using find_Some_in [OF Some] assms by (auto dest: distinct_map_inj)
qed

lemma same_key_at_most_one: "distinct (map k ys) \<Longrightarrow> \<forall>y \<in> set ys. k y = v \<Longrightarrow> length ys \<le> 1"
  by (cases ys; cases "tl ys") auto

lemma filter_at_most_one:
  "distinct (map k xs) \<Longrightarrow> (\<And>x. P x \<Longrightarrow> k x = v) \<Longrightarrow> length (filter P xs) \<le> 1"
  by (rule same_key_at_most_one [OF distinct_map_filter]) auto

lemma one_row_by_id:
  assumes "x \<in> set xs" and "P x" and "distinct (map k xs)" and "\<And>y. P y \<Longrightarrow> k y = k x"
  shows "sql_count P xs = 1"
proof -
  have "length (filter P xs) \<le> 1" using assms(3,4) by (rule filter_at_most_one)
  moreover have "filter P xs \<noteq> []" using assms(1,2) by (auto simp: filter_empty_conv)
  ultimately show ?thesis by (cases "filter P xs") (simp_all add: sql_count_def)
qed

lemma list_all2_mono_on:
  "list_all2 P xs ys \<Longrightarrow> (\<And>x y. y \<in> set ys \<Longrightarrow> P x y \<Longrightarrow> Q x y) \<Longrightarrow> list_all2 Q xs ys"
  by (auto simp: list_all2_conv_all_nth)

section \<open>White space\<close>

text \<open>
  \<open>str::trim\<close> leaves nothing of a string of white space: U+0009 to U+000D, U+0020, U+0085, U+00A0,
  U+1680, U+2000 to U+200A, U+2028, U+2029, U+202F, U+205F and U+3000, in their UTF-8 bytes.
\<close>

fun blank_bytes :: "nat list \<Rightarrow> bool" where
  "blank_bytes [] \<longleftrightarrow> True"
| "blank_bytes (b # bs) \<longleftrightarrow>
     (if 9 \<le> b \<and> b \<le> 13 \<or> b = 32 then blank_bytes bs
      else case bs of
          [] \<Rightarrow> False
        | c # cs \<Rightarrow>
            (if b = 194 \<and> (c = 133 \<or> c = 160) then blank_bytes cs
             else case cs of
                 [] \<Rightarrow> False
               | d # ds \<Rightarrow>
                   (b = 225 \<and> c = 154 \<and> d = 128
                    \<or> b = 226 \<and> c = 128 \<and> (128 \<le> d \<and> d \<le> 138 \<or> d = 168 \<or> d = 169 \<or> d = 175)
                    \<or> b = 226 \<and> c = 129 \<and> d = 159
                    \<or> b = 227 \<and> c = 128 \<and> d = 128) \<and> blank_bytes ds))"

definition blank_text :: "string \<Rightarrow> bool" where
  "blank_text s \<longleftrightarrow> blank_bytes (map of_char s)"

end
