(* ===== verification/Migrations.thy ===== *)
theory Migrations
  imports Prelude "HOL-Library.Char_ord" "HOL-Library.List_Lexorder" "HOL-Library.Multiset"
begin

text \<open>
  The manifest of embedded migrations and the assessment of a journal against it:
  \<open>durable-store/src/migration.rs\<close> and \<open>durable-store/src/migration_runner.rs\<close>. Proved: the assessment
  accepts a journal exactly when it holds, once each and in any order, the applied entries of a prefix
  of the manifest, and then the pending migrations are the rest of it. The embedded manifest of
  \<open>store-postgres/src/lib.rs\<close> is valid.
\<close>

section \<open>The manifest\<close>

record embedded_migration =
  em_logical_id :: string
  em_logical_model_version :: nat
  em_created_tables :: "string list"
  em_sql :: string

datatype migration_manifest_error =
    ManifestEmpty
  | InvalidLogicalId nat
  | NonIncreasingLogicalId nat
  | DecreasingModelVersion nat
  | EmptySql nat
  | EmptyTableName nat
  | DuplicateTable nat

text \<open>\<open>is_ascii_digit\<close> and \<open>is_ascii_lowercase\<close> on a byte.\<close>

definition ascii_digit :: "char \<Rightarrow> bool" where
  "ascii_digit c \<longleftrightarrow> CHR ''0'' \<le> c \<and> c \<le> CHR ''9''"

definition ascii_lowercase :: "char \<Rightarrow> bool" where
  "ascii_lowercase c \<longleftrightarrow> CHR ''a'' \<le> c \<and> c \<le> CHR ''z''"

definition valid_logical_id :: "string \<Rightarrow> bool" where
  "valid_logical_id v \<longleftrightarrow> 5 < length v \<and> list_all ascii_digit (take 4 v) \<and> v ! 4 = CHR ''_''
     \<and> list_all (\<lambda>c. ascii_lowercase c \<or> ascii_digit c \<or> c = CHR ''_'') (drop 5 v)"

text \<open>The loop over the tables of migration \<open>i\<close>: \<open>migrations[..=i]\<close> may name a table once.\<close>

definition check_table ::
  "embedded_migration list \<Rightarrow> nat \<Rightarrow> string \<Rightarrow> unit \<Rightarrow> migration_manifest_error + unit" where
  "check_table ms i table u =
    (if table = [] then Inl (EmptyTableName i)
     else if 1 < count_list (concat (map em_created_tables (take (i + 1) ms))) table
     then Inl (DuplicateTable i) else Inr u)"

definition check_migration :: "embedded_migration list \<Rightarrow> nat \<Rightarrow> unit \<Rightarrow> migration_manifest_error + unit" where
  "check_migration ms i u =
    (if \<not> valid_logical_id (em_logical_id (ms ! i)) then Inl (InvalidLogicalId i)
     else if blank_text (em_sql (ms ! i)) then Inl (EmptySql i)
     else if 0 < i \<and> em_logical_id (ms ! i) \<le> em_logical_id (ms ! (i - 1)) then Inl (NonIncreasingLogicalId i)
     else if 0 < i \<and> em_logical_model_version (ms ! i) < em_logical_model_version (ms ! (i - 1))
     then Inl (DecreasingModelVersion i)
     else foldR (check_table ms i) (em_created_tables (ms ! i)) u)"

definition validate_migration_manifest :: "embedded_migration list \<Rightarrow> migration_manifest_error + unit" where
  "validate_migration_manifest ms =
    (if ms = [] then Inl ManifestEmpty else foldR (check_migration ms) [0..<length ms] ())"

section \<open>The assessment of a journal\<close>

datatype migration_state = MigrationApplying | MigrationApplied | MigrationFailed

record migration_candidate =
  mc_descriptor :: embedded_migration
  mc_physical_checksum :: digest

record migration_journal_entry =
  mj_logical_id :: string
  mj_provider_kind :: string
  mj_physical_checksum :: digest
  mj_logical_model_version :: nat
  mj_state :: migration_state

record migration_plan =
  mp_current_model_version :: nat
  mp_target_model_version :: nat
  mp_pending :: "migration_candidate list"

definition plan_is_ready :: "migration_plan \<Rightarrow> bool" where
  "plan_is_ready plan \<longleftrightarrow> mp_pending plan = []"

datatype migration_assessment_error =
    ManifestError migration_manifest_error
  | EmptyProviderKind
  | DuplicateHistory string
  | UnknownMigration string
  | ProviderMismatch string
  | DirtyMigration string migration_state
  | ChecksumMismatch string
  | ModelVersionMismatch string
  | HistoryGap string string

abbreviation candidate_id :: "migration_candidate \<Rightarrow> string" where
  "candidate_id c \<equiv> em_logical_id (mc_descriptor c)"

abbreviation candidate_version :: "migration_candidate \<Rightarrow> nat" where
  "candidate_version c \<equiv> em_logical_model_version (mc_descriptor c)"

text \<open>The body of the loop over the history; \<open>seen\<close> holds the entries before this one.\<close>

definition check_entry ::
  "string \<Rightarrow> migration_candidate list \<Rightarrow> migration_journal_entry \<Rightarrow> migration_journal_entry list
   \<Rightarrow> migration_assessment_error + migration_journal_entry list" where
  "check_entry provider_kind available entry seen =
    (if list_ex (\<lambda>p. mj_logical_id p = mj_logical_id entry) seen
     then Inl (DuplicateHistory (mj_logical_id entry))
     else (case find (\<lambda>c. candidate_id c = mj_logical_id entry) available of
         None \<Rightarrow> Inl (UnknownMigration (mj_logical_id entry))
       | Some candidate \<Rightarrow>
           if mj_provider_kind entry \<noteq> provider_kind then Inl (ProviderMismatch (mj_logical_id entry))
           else if mj_state entry \<noteq> MigrationApplied
           then Inl (DirtyMigration (mj_logical_id entry) (mj_state entry))
           else if mj_physical_checksum entry \<noteq> mc_physical_checksum candidate
           then Inl (ChecksumMismatch (mj_logical_id entry))
           else if mj_logical_model_version entry \<noteq> candidate_version candidate
           then Inl (ModelVersionMismatch (mj_logical_id entry))
           else Inr (seen @ [entry])))"

text \<open>
  The body of the loop over the candidates: \<open>first_missing\<close> is the first one without an entry, with
  those after it, and \<open>current\<close> the model version of the last one before it.
\<close>

fun scan_available ::
  "migration_journal_entry list \<Rightarrow> migration_candidate list \<Rightarrow> migration_candidate list option \<Rightarrow> nat
   \<Rightarrow> migration_assessment_error + migration_candidate list option \<times> nat" where
  "scan_available history [] first_missing current = Inr (first_missing, current)"
| "scan_available history (c # cs) first_missing current =
    (let applied = list_ex (\<lambda>entry. mj_logical_id entry = candidate_id c) history in
     case first_missing of
       None \<Rightarrow> if applied then scan_available history cs None (candidate_version c)
               else scan_available history cs (Some (c # cs)) current
     | Some missing \<Rightarrow> if applied then Inl (HistoryGap (candidate_id (hd missing)) (candidate_id c))
               else scan_available history cs (Some missing) current)"

definition assess_migrations ::
  "string \<Rightarrow> migration_candidate list \<Rightarrow> migration_journal_entry list
   \<Rightarrow> migration_assessment_error + migration_plan" where
  "assess_migrations provider_kind available history =
    (if provider_kind = [] then Inl EmptyProviderKind
     else case validate_migration_manifest (map mc_descriptor available) of
       Inl err \<Rightarrow> Inl (ManifestError err)
     | Inr _ \<Rightarrow>
       bindR (foldR (check_entry provider_kind available) history []) (\<lambda>_.
       bindR (scan_available history available None 0) (\<lambda>(first_missing, current).
       Inr \<lparr> mp_current_model_version = current,
         mp_target_model_version = (if available = [] then 0 else candidate_version (last available)),
         mp_pending = (case first_missing of None \<Rightarrow> [] | Some pending \<Rightarrow> pending) \<rparr>)))"

section \<open>What the checks say\<close>

lemma foldR_unit_Inr:
  "foldR f xs () = Inr () \<longleftrightarrow> (\<forall>x \<in> set xs. f x () = Inr ())"
  by (induction xs) (auto simp: bindR_Inr_iff)

definition manifest_valid :: "embedded_migration list \<Rightarrow> bool" where
  "manifest_valid ms \<longleftrightarrow> validate_migration_manifest ms = Inr ()"

lemma manifest_step:
  assumes "manifest_valid ms" and "i < length ms"
  shows "check_migration ms i () = Inr ()"
  using assms by (auto simp: manifest_valid_def validate_migration_manifest_def foldR_unit_Inr split: if_splits)

lemma manifest_increases:
  assumes "manifest_valid ms" and "Suc i < length ms"
  shows "em_logical_id (ms ! i) < em_logical_id (ms ! Suc i)"
  using manifest_step [OF assms] by (auto simp: check_migration_def split: if_splits)

lemma manifest_sorted:
  assumes "manifest_valid ms" shows "sorted_wrt (<) (map em_logical_id ms)"
  using manifest_increases [OF assms] by (auto simp: sorted_wrt_iff_nth_Suc_transp)

lemma manifest_distinct:
  assumes "manifest_valid (map mc_descriptor cs)" shows "distinct (map candidate_id cs)"
  using manifest_sorted [OF assms] by (auto simp: strict_sorted_iff comp_def)

text \<open>The entry that the journal holds for an applied migration.\<close>

definition applied_entry :: "string \<Rightarrow> migration_candidate \<Rightarrow> migration_journal_entry" where
  "applied_entry provider_kind c = \<lparr> mj_logical_id = candidate_id c, mj_provider_kind = provider_kind,
     mj_physical_checksum = mc_physical_checksum c, mj_logical_model_version = candidate_version c,
     mj_state = MigrationApplied \<rparr>"

lemma applied_entry_id [simp]: "mj_logical_id (applied_entry kind c) = candidate_id c"
  by (simp add: applied_entry_def)

lemma applied_entry_iff:
  "entry = applied_entry kind c \<longleftrightarrow> mj_logical_id entry = candidate_id c \<and> mj_provider_kind entry = kind
    \<and> mj_physical_checksum entry = mc_physical_checksum c
    \<and> mj_logical_model_version entry = candidate_version c \<and> mj_state entry = MigrationApplied"
  by (cases entry) (auto simp: applied_entry_def)

lemma history_names: "list_ex (\<lambda>e. mj_logical_id e = x) history \<longleftrightarrow> x \<in> mj_logical_id ` set history"
  by (auto simp: list_ex_iff)

lemma check_entry_Inr:
  assumes "distinct (map candidate_id cs)"
  shows "check_entry kind cs entry seen = Inr seen' \<longleftrightarrow>
    (mj_logical_id entry \<notin> mj_logical_id ` set seen \<and> (\<exists>c \<in> set cs. entry = applied_entry kind c)
     \<and> seen' = seen @ [entry])"
proof -
  have unique: "find (\<lambda>c. candidate_id c = mj_logical_id entry) cs = Some c \<longleftrightarrow>
      c \<in> set cs \<and> candidate_id c = mj_logical_id entry" for c
    using find_unique [OF assms, of c] find_Some_in [of "\<lambda>c. candidate_id c = mj_logical_id entry" cs c] by auto
  show ?thesis
  proof (cases "find (\<lambda>c. candidate_id c = mj_logical_id entry) cs")
    case None
    then have "\<not> (\<exists>c \<in> set cs. entry = applied_entry kind c)" by (auto simp: find_None_ball)
    with None show ?thesis by (simp add: check_entry_def)
  next
    case (Some c)
    then have c: "c \<in> set cs" "candidate_id c = mj_logical_id entry" using unique by auto
    have only: "(\<exists>d \<in> set cs. entry = applied_entry kind d) \<longleftrightarrow> entry = applied_entry kind c"
      using c distinct_map_inj [OF assms] by (metis applied_entry_id)
    show ?thesis unfolding only unfolding applied_entry_iff check_entry_def history_names Some option.case
      using c(2) by (auto split: if_splits)
  qed
qed

lemma check_history_Inr:
  assumes "distinct (map candidate_id cs)"
  shows "foldR (check_entry kind cs) history seen = Inr seen' \<longleftrightarrow>
    (seen' = seen @ history \<and> distinct (map mj_logical_id history)
     \<and> mj_logical_id ` set history \<inter> mj_logical_id ` set seen = {}
     \<and> set history \<subseteq> applied_entry kind ` set cs)"
proof (induction history arbitrary: seen)
  case (Cons entry history)
  show ?case by (simp add: bindR_Inr_iff check_entry_Inr [OF assms] Cons.IH) auto
qed auto

lemma scan_missing:
  "scan_available history cs (Some missing) current = Inr r \<longleftrightarrow>
    r = (Some missing, current) \<and> (\<forall>c \<in> set cs. candidate_id c \<notin> mj_logical_id ` set history)"
  by (induction cs) (auto simp: history_names Let_def)

text \<open>The scan accepts a history whose entries are those of a prefix of the candidates.\<close>

definition last_version :: "nat \<Rightarrow> migration_candidate list \<Rightarrow> nat" where
  "last_version current cs = (if cs = [] then current else candidate_version (last cs))"

lemma exists_prefix_length:
  "(\<exists>n \<le> length (x # xs). P n) \<longleftrightarrow> P 0 \<or> (\<exists>n \<le> length xs. P (Suc n))"
  by (metis Suc_le_mono length_Cons not0_implies_Suc le0)

lemma scan_Inr:
  "scan_available history cs None current = Inr (missing, v) \<longleftrightarrow>
    (\<exists>n \<le> length cs. (\<forall>c \<in> set (take n cs). candidate_id c \<in> mj_logical_id ` set history)
       \<and> (\<forall>c \<in> set (drop n cs). candidate_id c \<notin> mj_logical_id ` set history)
       \<and> v = last_version current (take n cs)
       \<and> missing = (if n = length cs then None else Some (drop n cs)))"
  (is "?scan cs current \<longleftrightarrow> (\<exists>n \<le> length cs. ?P cs current n)")
proof (induction cs arbitrary: current)
  case Nil show ?case by (auto simp: last_version_def)
next
  case (Cons c cs)
  show ?case
  proof (cases "candidate_id c \<in> mj_logical_id ` set history")
    case True
    then have no: "\<not> ?P (c # cs) current 0" by simp
    have suc: "?P (c # cs) current (Suc n) \<longleftrightarrow> ?P cs (candidate_version c) n" for n
      using True by (simp add: last_version_def)
    have "(\<exists>n \<le> length (c # cs). ?P (c # cs) current n) \<longleftrightarrow>
        ?P (c # cs) current 0 \<or> (\<exists>n \<le> length cs. ?P (c # cs) current (Suc n))"
      by (rule exists_prefix_length)
    also have "\<dots> \<longleftrightarrow> (\<exists>n \<le> length cs. ?P cs (candidate_version c) n)" using no by (simp only: suc simp_thms)
    finally show ?thesis using Cons.IH [of "candidate_version c"] True by (simp only: scan_available.simps Let_def history_names option.case if_True)
  next
    case False
    have no: "\<not> ?P (c # cs) current (Suc n)" for n using False by simp
    have "(\<exists>n \<le> length (c # cs). ?P (c # cs) current n) \<longleftrightarrow>
        ?P (c # cs) current 0 \<or> (\<exists>n \<le> length cs. ?P (c # cs) current (Suc n))"
      by (rule exists_prefix_length)
    also have "\<dots> \<longleftrightarrow> ?P (c # cs) current 0" using no by (simp only: simp_thms)
    finally show ?thesis using False
      by (simp only: scan_available.simps Let_def history_names option.case if_False scan_missing)
        (auto simp: last_version_def)
  qed
qed

text \<open>A duplicate-free history of applied entries is a permutation of those of its candidates.\<close>

lemma history_is_prefix:
  assumes "distinct (map candidate_id cs)" and "n \<le> length cs"
  shows "(distinct (map mj_logical_id history) \<and> set history \<subseteq> applied_entry kind ` set cs
     \<and> (\<forall>c \<in> set (take n cs). candidate_id c \<in> mj_logical_id ` set history)
     \<and> (\<forall>c \<in> set (drop n cs). candidate_id c \<notin> mj_logical_id ` set history))
    \<longleftrightarrow> mset history = mset (map (applied_entry kind) (take n cs))"
proof
  have split: "set cs = set (take n cs) \<union> set (drop n cs)" by (metis append_take_drop_id set_append)
  have ids: "distinct (map candidate_id (take n cs))"
    using assms(1) by (simp add: take_map [symmetric] distinct_take)
  then have entries: "distinct (map (applied_entry kind) (take n cs))"
    unfolding distinct_map inj_on_def by (metis applied_entry_id)
  {
    assume l: "distinct (map mj_logical_id history) \<and> set history \<subseteq> applied_entry kind ` set cs
     \<and> (\<forall>c \<in> set (take n cs). candidate_id c \<in> mj_logical_id ` set history)
     \<and> (\<forall>c \<in> set (drop n cs). candidate_id c \<notin> mj_logical_id ` set history)"
    have "set history = applied_entry kind ` set (take n cs)"
    proof (intro equalityI subsetI)
      fix e assume e: "e \<in> set history"
      then obtain c where "c \<in> set cs" "e = applied_entry kind c" using l by blast
      with e l split show "e \<in> applied_entry kind ` set (take n cs)" by (auto simp: image_iff) (metis applied_entry_id)
    next
      fix e assume "e \<in> applied_entry kind ` set (take n cs)"
      then obtain c where c: "c \<in> set (take n cs)" "e = applied_entry kind c" by blast
      with l obtain h where h: "h \<in> set history" "mj_logical_id h = candidate_id c" by auto
      with l obtain d where d: "d \<in> set cs" "h = applied_entry kind d" by blast
      with h c split have "d = c" using distinct_map_inj [OF assms(1)] by auto
      with h d c show "e \<in> set history" by simp
    qed
    with l entries show "mset history = mset (map (applied_entry kind) (take n cs))"
      by (intro set_eq_iff_mset_eq_distinct [THEN iffD1]) (auto simp: distinct_map)
  }
  {
    assume r: "mset history = mset (map (applied_entry kind) (take n cs))"
    then have s: "set history = applied_entry kind ` set (take n cs)" by (metis list.set_map mset_eq_setD)
    have "mset (map mj_logical_id history) = mset (map candidate_id (take n cs))"
      using arg_cong [OF r, of "image_mset mj_logical_id"] by (simp add: image_mset.compositionality comp_def)
    then have "distinct (map mj_logical_id history)" using ids by (metis mset_eq_imp_distinct_iff)
    moreover have "candidate_id c \<notin> candidate_id ` set (take n cs)" if "c \<in> set (drop n cs)" for c
      using assms(1) that by (subst (asm) append_take_drop_id [of n cs, symmetric]) (auto simp del: append_take_drop_id)
    ultimately show "distinct (map mj_logical_id history) \<and> set history \<subseteq> applied_entry kind ` set cs
     \<and> (\<forall>c \<in> set (take n cs). candidate_id c \<in> mj_logical_id ` set history)
     \<and> (\<forall>c \<in> set (drop n cs). candidate_id c \<notin> mj_logical_id ` set history)"
      using split by (simp add: s image_image) auto
  }
qed

text \<open>The plan that is left when the first \<open>n\<close> migrations are applied.\<close>

definition plan_after :: "migration_candidate list \<Rightarrow> nat \<Rightarrow> migration_plan" where
  "plan_after cs n = \<lparr> mp_current_model_version = last_version 0 (take n cs),
     mp_target_model_version = last_version 0 cs, mp_pending = drop n cs \<rparr>"

lemma assess_Inr:
  "assess_migrations kind cs history = Inr plan \<longleftrightarrow>
    kind \<noteq> [] \<and> manifest_valid (map mc_descriptor cs)
    \<and> (\<exists>n \<le> length cs. mset history = mset (map (applied_entry kind) (take n cs)) \<and> plan = plan_after cs n)"
proof (cases "kind \<noteq> [] \<and> manifest_valid (map mc_descriptor cs)")
  case True
  then have ids: "distinct (map candidate_id cs)" and u: "validate_migration_manifest (map mc_descriptor cs) = Inr ()"
    by (simp_all add: manifest_distinct manifest_valid_def)
  have rest: "\<lparr> mp_current_model_version = last_version 0 (take n cs), mp_target_model_version = last_version 0 cs,
      mp_pending = (case (if n = length cs then None else Some (drop n cs)) of None \<Rightarrow> [] | Some pending \<Rightarrow> pending) \<rparr>
    = plan_after cs n" for n by (simp add: plan_after_def)
  have "assess_migrations kind cs history = Inr plan \<longleftrightarrow>
      distinct (map mj_logical_id history) \<and> set history \<subseteq> applied_entry kind ` set cs
      \<and> (\<exists>missing v. scan_available history cs None 0 = Inr (missing, v)
         \<and> plan = \<lparr> mp_current_model_version = v, mp_target_model_version = last_version 0 cs,
           mp_pending = (case missing of None \<Rightarrow> [] | Some pending \<Rightarrow> pending) \<rparr>)"
    using True u by (auto simp: assess_migrations_def bindR_Inr_iff check_history_Inr [OF ids] last_version_def split: prod.splits)
  also have "\<dots> \<longleftrightarrow> (\<exists>n \<le> length cs. (distinct (map mj_logical_id history) \<and> set history \<subseteq> applied_entry kind ` set cs
       \<and> (\<forall>c \<in> set (take n cs). candidate_id c \<in> mj_logical_id ` set history)
       \<and> (\<forall>c \<in> set (drop n cs). candidate_id c \<notin> mj_logical_id ` set history)) \<and> plan = plan_after cs n)"
    unfolding scan_Inr rest [symmetric] by blast
  finally show ?thesis using True history_is_prefix [OF ids] by (simp cong: conj_cong) 
next
  case False
  then show ?thesis
    by (auto simp: assess_migrations_def manifest_valid_def split: sum.splits)
qed

section \<open>The embedded manifest\<close>

text \<open>\<open>include_str!("../migrations/<id>.sql")\<close> is the argument \<open>sql\<close>.\<close>

definition embedded :: "(string \<Rightarrow> string) \<Rightarrow> string \<Rightarrow> nat \<Rightarrow> string list \<Rightarrow> embedded_migration" where
  "embedded sql i v tables = \<lparr> em_logical_id = i, em_logical_model_version = v, em_created_tables = tables,
     em_sql = sql i \<rparr>"

definition MIGRATIONS :: "(string \<Rightarrow> string) \<Rightarrow> embedded_migration list" where
  "MIGRATIONS sql = [
     embedded sql ''0000_migration_meta'' 1 [''schema_migrations''],
     embedded sql ''0001_identity_definitions'' 2 [''tenants'', ''workflow_definitions'',
       ''workflow_definition_versions'', ''agent_definitions'', ''agent_definition_versions''],
     embedded sql ''0002_agent_endpoints'' 3 [''agent_endpoints''],
     embedded sql ''0003_run_event_idempotency'' 4 [''runs'', ''events'', ''command_receipts''],
     embedded sql ''0004_stage_task_checkpoint'' 5 [''stage_executions'', ''tasks'', ''task_attempts'',
       ''checkpoints''],
     embedded sql ''0005_wait_artifact'' 6 [''wait_subscriptions'', ''artifact_refs''],
     embedded sql ''0006_external_executions'' 7 [''tool_executions'', ''tool_execution_attempts'',
       ''agent_executions'', ''agent_event_receipts''],
     embedded sql ''0007_wait_resume_plan'' 8 [],
     embedded sql ''0008_tool_retry_schedule'' 9 [],
     embedded sql ''0009_agent_retry_schedule'' 10 [],
     embedded sql ''0010_agent_invocation_envelope'' 11 [],
     embedded sql ''0011_agent_remote_protocol'' 12 [],
     embedded sql ''0012_agent_status_poll'' 13 [],
     embedded sql ''0013_agent_event_poll'' 14 [],
     embedded sql ''0014_transactional_outbox'' 15 [''outbox_messages''],
     embedded sql ''0015_plan_revisions'' 16 [''plan_revisions''],
     embedded sql ''0016_task_dependencies'' 17 [''task_dependencies''],
     embedded sql ''0017_context_snapshots'' 18 [''context_snapshots'', ''context_patches''],
     embedded sql ''0018_task_context_references'' 19 [''task_context_references''],
     embedded sql ''0019_task_skipped_status'' 20 [],
     embedded sql ''0020_schedules'' 21 [''schedules''],
     embedded sql ''0021_schedule_dispatch'' 22 [],
     embedded sql ''0022_schedule_concurrency'' 23 [],
     embedded sql ''0023_run_replay'' 24 []]"

definition migration_candidates :: "(string \<Rightarrow> digest) \<Rightarrow> embedded_migration list \<Rightarrow> migration_candidate list" where
  "migration_candidates sha ms = map (\<lambda>m. \<lparr> mc_descriptor = m, mc_physical_checksum = sha (em_sql m) \<rparr>) ms"

lemma check_migration_ok:
  assumes "valid_logical_id (em_logical_id (ms ! i))" and "\<not> blank_text (em_sql (ms ! i))"
    and "0 < i \<Longrightarrow> em_logical_id (ms ! (i - 1)) < em_logical_id (ms ! i)"
    and "0 < i \<Longrightarrow> em_logical_model_version (ms ! (i - 1)) \<le> em_logical_model_version (ms ! i)"
    and "[] \<notin> set (em_created_tables (ms ! i))" and "distinct (concat (map em_created_tables ms))"
  shows "check_migration ms i () = Inr ()"
proof -
  have "distinct (concat (map em_created_tables (take (i + 1) ms)))"
    using assms(6) by (metis append_take_drop_id concat_append distinct_append map_append)
  then have "\<not> 1 < count_list (concat (map em_created_tables (take (i + 1) ms))) t" for t
    by (metis distinct_count_atmost_1 count_mset not_less less_or_eq_imp_le zero_le_one)
  with assms(5) have "foldR (check_table ms i) (em_created_tables (ms ! i)) () = Inr ()"
    by (auto simp: foldR_unit_Inr check_table_def)
  with assms(1-4) show ?thesis by (auto simp: check_migration_def not_less)
qed

lemma manifest_validI:
  assumes "ms \<noteq> []" and "list_all valid_logical_id (map em_logical_id ms)"
    and "\<forall>m \<in> set ms. \<not> blank_text (em_sql m)"
    and "sorted_wrt (<) (map em_logical_id ms)" and "sorted (map em_logical_model_version ms)"
    and "[] \<notin> set (concat (map em_created_tables ms))" and "distinct (concat (map em_created_tables ms))"
  shows "manifest_valid ms"
proof -
  have "check_migration ms i () = Inr ()" if i: "i < length ms" for i
  proof (rule check_migration_ok)
    have m: "ms ! i \<in> set ms" using i by simp
    show "valid_logical_id (em_logical_id (ms ! i))" "\<not> blank_text (em_sql (ms ! i))"
      "[] \<notin> set (em_created_tables (ms ! i))"
      using m assms(2,3,6) by (auto simp: list_all_iff)
    show "em_logical_id (ms ! (i - 1)) < em_logical_id (ms ! i)" if "0 < i"
      using sorted_wrt_nth_less [OF assms(4), of "i - 1" i] that i by simp
    show "em_logical_model_version (ms ! (i - 1)) \<le> em_logical_model_version (ms ! i)" if "0 < i"
      using sorted_nth_mono [OF assms(5), of "i - 1" i] i by simp
  qed (rule assms(7))
  with assms(1) show ?thesis by (simp add: manifest_valid_def validate_migration_manifest_def foldR_unit_Inr)
qed

lemma embedded_manifest_valid:
  assumes "\<And>i. \<not> blank_text (sql i)"
  shows "manifest_valid (MIGRATIONS sql)"
proof (rule manifest_validI)
  let ?ids = "map em_logical_id (MIGRATIONS (\<lambda>i. i))" and ?tables = "concat (map em_created_tables (MIGRATIONS (\<lambda>i. i)))"
  have same: "map em_logical_id (MIGRATIONS sql) = ?ids" "map em_created_tables (MIGRATIONS sql) =
      map em_created_tables (MIGRATIONS (\<lambda>i. i))" "map em_logical_model_version (MIGRATIONS sql) = [1..<25]"
    by (simp_all add: MIGRATIONS_def embedded_def upt_rec)
  have "list_all valid_logical_id ?ids" by code_simp
  then show "list_all valid_logical_id (map em_logical_id (MIGRATIONS sql))" unfolding same .
  have "sorted_wrt (<) ?ids" by code_simp
  then show "sorted_wrt (<) (map em_logical_id (MIGRATIONS sql))" unfolding same .
  show "sorted (map em_logical_model_version (MIGRATIONS sql))" unfolding same by (rule sorted_upt)
  have "[] \<notin> set ?tables" by code_simp
  then show "[] \<notin> set (concat (map em_created_tables (MIGRATIONS sql)))" unfolding same .
  have "distinct ?tables" by code_simp
  then show "distinct (concat (map em_created_tables (MIGRATIONS sql)))" unfolding same .
  show "MIGRATIONS sql \<noteq> []" by (simp add: MIGRATIONS_def)
  show "\<forall>m \<in> set (MIGRATIONS sql). \<not> blank_text (em_sql m)" by (simp add: MIGRATIONS_def embedded_def assms)
qed

text \<open>
  The assessment accepts a journal exactly when the provider is named, the manifest is valid and
  the journal holds, in any order, the applied entries of the first \<open>n\<close> migrations, each once and with
  the provider, checksum and model version of its migration. The plan then continues after them: its
  current version is that of the last applied one and its pending migrations are all the others. So a
  gap, a repeated, unknown, foreign, edited or unfinished entry is always an error.
\<close>

theorem assessment_accepts_applied_prefixes:
  "assess_migrations kind cs history = Inr plan \<longleftrightarrow>
    kind \<noteq> [] \<and> validate_migration_manifest (map mc_descriptor cs) = Inr ()
    \<and> (\<exists>n. n \<le> length cs \<and> mset history = mset (map (applied_entry kind) (take n cs))
         \<and> plan = plan_after cs n)"
  by (auto simp: assess_Inr manifest_valid_def)

end
