(* ===== verification/MigrationRun.thy ===== *)
theory MigrationRun
  imports Migrations
begin

text \<open>
  The execution of migrations: the machine of \<open>durable-store/src/migration_executor.rs\<close> and the
  PostgreSQL executor of \<open>store-postgres/src/migration_executor.rs\<close>. What PostgreSQL does with the text
  of a migration is an argument; any call to the database may fail before or after it took effect.
  Proved in \<open>MigrationSafety\<close> and \<open>MigrationProgress\<close>: a run ends without a panic; whatever fails,
  however often it is run, every migration takes effect at most once and in order; a run that succeeds
  has applied all of them; one that meets an unfinished migration changes nothing; one without faults
  succeeds.
\<close>

section \<open>The machine\<close>

datatype migration_execution_step =
    StepAcquireLock | StepStartJournal | StepExecuteSql | StepVerifySchema | StepMarkApplied | StepMarkFailed
  | StepReleaseLock

datatype migration_execution_action =
    ActAcquireLock
  | ActStartJournal migration_candidate
  | ActExecuteSql migration_candidate
  | ActVerifySchema migration_candidate
  | ActMarkApplied migration_candidate
  | ActMarkFailed migration_candidate
  | ActReleaseLock

definition action_step :: "migration_execution_action \<Rightarrow> migration_execution_step" where
  "action_step a = (case a of
      ActAcquireLock \<Rightarrow> StepAcquireLock | ActStartJournal _ \<Rightarrow> StepStartJournal
    | ActExecuteSql _ \<Rightarrow> StepExecuteSql | ActVerifySchema _ \<Rightarrow> StepVerifySchema
    | ActMarkApplied _ \<Rightarrow> StepMarkApplied | ActMarkFailed _ \<Rightarrow> StepMarkFailed
    | ActReleaseLock \<Rightarrow> StepReleaseLock)"

record migration_execution_failure =
  mf_logical_id :: "string option"
  mf_failed_step :: migration_execution_step
  mf_error_code :: string
  mf_mark_failed_error :: "string option"
  mf_release_lock_error :: "string option"

text \<open>\<open>IndexPanic\<close> stands for the panic of \<open>self.pending[self.current_index]\<close> out of range.\<close>

datatype migration_machine_error = AlreadyFinished | IndexPanic

datatype phase =
    PhAcquireLock | PhStartJournal | PhExecuteSql | PhVerifySchema | PhMarkApplied | PhMarkFailed | PhReleaseLock
  | PhSucceeded | PhFailed

record migration_machine =
  mm_pending :: "migration_candidate list"
  mm_current_index :: nat
  mm_phase :: phase
  mm_failure :: "migration_execution_failure option"

definition new_machine :: "migration_plan \<Rightarrow> migration_machine" where
  "new_machine plan = \<lparr> mm_pending = mp_pending plan, mm_current_index = 0,
     mm_phase = (if mp_pending plan = [] then PhSucceeded else PhAcquireLock), mm_failure = None \<rparr>"

definition candidate_action ::
  "migration_machine \<Rightarrow> (migration_candidate \<Rightarrow> migration_execution_action)
   \<Rightarrow> migration_machine_error + migration_execution_action option" where
  "candidate_action m act =
    (if mm_current_index m < length (mm_pending m) then Inr (Some (act (mm_pending m ! mm_current_index m)))
     else Inl IndexPanic)"

definition next_action :: "migration_machine \<Rightarrow> migration_machine_error + migration_execution_action option" where
  "next_action m = (case mm_phase m of
      PhAcquireLock \<Rightarrow> Inr (Some ActAcquireLock)
    | PhStartJournal \<Rightarrow> candidate_action m ActStartJournal
    | PhExecuteSql \<Rightarrow> candidate_action m ActExecuteSql
    | PhVerifySchema \<Rightarrow> candidate_action m ActVerifySchema
    | PhMarkApplied \<Rightarrow> candidate_action m ActMarkApplied
    | PhMarkFailed \<Rightarrow> candidate_action m ActMarkFailed
    | PhReleaseLock \<Rightarrow> Inr (Some ActReleaseLock)
    | PhSucceeded \<Rightarrow> Inr None
    | PhFailed \<Rightarrow> Inr None)"

definition report_success :: "migration_machine \<Rightarrow> migration_machine_error + migration_machine" where
  "report_success m = (case mm_phase m of
      PhAcquireLock \<Rightarrow> Inr (m\<lparr>mm_phase := PhStartJournal\<rparr>)
    | PhStartJournal \<Rightarrow> Inr (m\<lparr>mm_phase := PhExecuteSql\<rparr>)
    | PhExecuteSql \<Rightarrow> Inr (m\<lparr>mm_phase := PhVerifySchema\<rparr>)
    | PhVerifySchema \<Rightarrow> Inr (m\<lparr>mm_phase := PhMarkApplied\<rparr>)
    | PhMarkApplied \<Rightarrow> Inr (m\<lparr>mm_current_index := mm_current_index m + 1,
        mm_phase := (if mm_current_index m + 1 = length (mm_pending m) then PhReleaseLock else PhStartJournal)\<rparr>)
    | PhMarkFailed \<Rightarrow> Inr (m\<lparr>mm_phase := PhReleaseLock\<rparr>)
    | PhReleaseLock \<Rightarrow> Inr (m\<lparr>mm_phase := (if mm_failure m \<noteq> None then PhFailed else PhSucceeded)\<rparr>)
    | PhSucceeded \<Rightarrow> Inl AlreadyFinished
    | PhFailed \<Rightarrow> Inl AlreadyFinished)"

definition execution_failure ::
  "string option \<Rightarrow> migration_execution_step \<Rightarrow> string \<Rightarrow> migration_execution_failure" where
  "execution_failure logical_id step code = \<lparr> mf_logical_id = logical_id, mf_failed_step = step,
     mf_error_code = code, mf_mark_failed_error = None, mf_release_lock_error = None \<rparr>"

definition failed_candidate ::
  "migration_machine \<Rightarrow> migration_execution_action \<Rightarrow> migration_candidate \<Rightarrow> string \<Rightarrow> migration_machine" where
  "failed_candidate m action c code =
    m\<lparr>mm_failure := Some (execution_failure (Some (candidate_id c)) (action_step action) code),
      mm_phase := PhMarkFailed\<rparr>"

definition report_failure :: "string \<Rightarrow> migration_machine \<Rightarrow> migration_machine_error + migration_machine" where
  "report_failure code m = bindR (next_action m) (\<lambda>next. case next of
      None \<Rightarrow> Inl AlreadyFinished
    | Some action \<Rightarrow> Inr (case action of
        ActAcquireLock \<Rightarrow> m\<lparr>mm_failure := Some (execution_failure None StepAcquireLock code), mm_phase := PhFailed\<rparr>
      | ActMarkFailed _ \<Rightarrow> m\<lparr>mm_failure := map_option (\<lambda>f. f\<lparr>mf_mark_failed_error := Some code\<rparr>) (mm_failure m),
          mm_phase := PhReleaseLock\<rparr>
      | ActReleaseLock \<Rightarrow> m\<lparr>mm_failure := (case mm_failure m of
            Some f \<Rightarrow> Some (f\<lparr>mf_release_lock_error := Some code\<rparr>)
          | None \<Rightarrow> Some (execution_failure None StepReleaseLock code)),
          mm_phase := PhFailed\<rparr>
      | ActStartJournal c \<Rightarrow> failed_candidate m action c code
      | ActExecuteSql c \<Rightarrow> failed_candidate m action c code
      | ActVerifySchema c \<Rightarrow> failed_candidate m action c code
      | ActMarkApplied c \<Rightarrow> failed_candidate m action c code))"

section \<open>The database\<close>

datatype migration_error =
    UnsupportedSchema string
  | Database string "string option"  \<comment> \<open>the operation and the SQLSTATE, if the server sent one\<close>
  | Assessment migration_assessment_error
  | Execution migration_execution_failure
  | BootstrapHistoryMissing
  | BootstrapCandidateMissing
  | InvalidJournalValue string
  | SchemaVerification string string
  | LockNotHeld
  | MigrationPanic

definition stable_error_code :: "migration_error \<Rightarrow> string" where
  "stable_error_code err = (case err of
      Database _ sqlstate \<Rightarrow> (case sqlstate of None \<Rightarrow> ''PG_CONNECTION'' | Some code \<Rightarrow> ''PG_'' @ code)
    | SchemaVerification _ _ \<Rightarrow> ''SCHEMA_VERIFICATION''
    | LockNotHeld \<Rightarrow> ''MIGRATION_LOCK_NOT_HELD''
    | _ \<Rightarrow> ''MIGRATION_INVALID'')"

text \<open>
  A row of \<open>schema_migrations\<close>, without its times and runner version; of \<open>details_json\<close> the error code.
  The schema is the list of the texts that were committed. \<open>md_faults\<close> says which of the next calls fail,
  with which SQLSTATE if any, and whether the server had executed the call.
\<close>

record migration_row =
  mr_logical_id :: string
  mr_provider_kind :: string
  mr_physical_checksum :: digest
  mr_logical_model_version :: int
  mr_state :: string
  mr_error_code :: "string option"

datatype fault = FailsBefore "string option" | FailsAfter "string option"

record migration_db =
  md_journal :: "migration_row list"
  md_ddl :: "string list"
  md_lock :: nat  \<comment> \<open>how often this session holds the advisory lock\<close>
  md_faults :: "fault option list"

text \<open>
  PostgreSQL: whether a table of the schema exists after these texts, and the SQLSTATE with which a
  text is rejected after them.
\<close>

record postgres =
  pg_table :: "string list \<Rightarrow> string \<Rightarrow> bool"
  pg_reject :: "string list \<Rightarrow> string \<Rightarrow> string option"

type_synonym 'a migration_step = "migration_db \<Rightarrow> (migration_error + 'a) \<times> migration_db"

definition returnM :: "'a \<Rightarrow> 'a migration_step" where
  "returnM x s = (Inr x, s)"

definition failM :: "migration_error \<Rightarrow> 'a migration_step" where
  "failM err s = (Inl err, s)"

definition bindM :: "'a migration_step \<Rightarrow> ('a \<Rightarrow> 'b migration_step) \<Rightarrow> 'b migration_step" where
  "bindM m f s = (case m s of (Inl err, s') \<Rightarrow> (Inl err, s') | (Inr x, s') \<Rightarrow> f x s')"

definition next_fault :: "migration_db \<Rightarrow> fault option" where
  "next_fault s = (case md_faults s of [] \<Rightarrow> None | f # _ \<Rightarrow> f)"

definition spent :: "migration_db \<Rightarrow> migration_db" where
  "spent s = s\<lparr>md_faults := tl (md_faults s)\<rparr>"

definition db_call :: "string \<Rightarrow> (migration_db \<Rightarrow> string + 'a \<times> migration_db) \<Rightarrow> 'a migration_step" where
  "db_call operation f s = (case next_fault s of
      Some (FailsBefore code) \<Rightarrow> (Inl (Database operation code), spent s)
    | Some (FailsAfter code) \<Rightarrow> (case f (spent s) of
          Inl sqlstate \<Rightarrow> (Inl (Database operation (Some sqlstate)), spent s)
        | Inr (_, s') \<Rightarrow> (Inl (Database operation code), s'))
    | None \<Rightarrow> (case f (spent s) of
          Inl sqlstate \<Rightarrow> (Inl (Database operation (Some sqlstate)), spent s)
        | Inr (x, s') \<Rightarrow> (Inr x, s')))"

definition query :: "string \<Rightarrow> (migration_db \<Rightarrow> string + 'a) \<Rightarrow> 'a migration_step" where
  "query operation f = db_call operation (\<lambda>s. bindR (f s) (\<lambda>x. Inr (x, s)))"

text \<open>A transaction: dropped on an error, so that only the failures that were met remain.\<close>

definition db_transaction :: "string \<Rightarrow> string \<Rightarrow> 'a migration_step \<Rightarrow> 'a migration_step" where
  "db_transaction begin_operation commit_operation body =
    bindM (query begin_operation (\<lambda>_. Inr ())) (\<lambda>_ s. case body s of
      (Inl err, s') \<Rightarrow> (Inl err, s\<lparr>md_faults := md_faults s'\<rparr>)
    | (Inr x, s') \<Rightarrow> (case next_fault s' of
          None \<Rightarrow> (Inr x, spent s')
        | Some (FailsBefore code) \<Rightarrow> (Inl (Database commit_operation code), s\<lparr>md_faults := md_faults (spent s')\<rparr>)
        | Some (FailsAfter code) \<Rightarrow> (Inl (Database commit_operation code), spent s')))"

definition batch_execute :: "postgres \<Rightarrow> string \<Rightarrow> migration_db \<Rightarrow> string + unit \<times> migration_db" where
  "batch_execute pg sql s = (case pg_reject pg (md_ddl s) sql of
      Some sqlstate \<Rightarrow> Inl sqlstate
    | None \<Rightarrow> Inr ((), s\<lparr>md_ddl := md_ddl s @ [sql]\<rparr>))"

definition JOURNAL_TABLE :: string where
  "JOURNAL_TABLE = ''schema_migrations''"

text \<open>A statement on the journal fails with \<open>42P01\<close>, undefined table, where there is none.\<close>

definition on_journal :: "postgres \<Rightarrow> (migration_row list \<Rightarrow> string + 'a) \<Rightarrow> migration_db \<Rightarrow> string + 'a" where
  "on_journal pg f s = (if pg_table pg (md_ddl s) JOURNAL_TABLE then f (md_journal s) else Inl ''42P01'')"

definition insert_journal :: "postgres \<Rightarrow> migration_row \<Rightarrow> migration_db \<Rightarrow> string + unit \<times> migration_db" where
  "insert_journal pg row s = bindR (on_journal pg (\<lambda>rows.
      if mr_logical_model_version row < 1 then Inl ''23514''
      else if list_ex (\<lambda>r. mr_logical_id r = mr_logical_id row) rows then Inl ''23505''
      else Inr (rows @ [row])) s) (\<lambda>rows. Inr ((), s\<lparr>md_journal := rows\<rparr>))"

definition applying :: "string \<Rightarrow> migration_row \<Rightarrow> bool" where
  "applying logical_id r \<longleftrightarrow> mr_logical_id r = logical_id \<and> mr_state r = ''applying''"

definition end_applying ::
  "postgres \<Rightarrow> string \<Rightarrow> string \<Rightarrow> string option \<Rightarrow> migration_db \<Rightarrow> string + nat \<times> migration_db" where
  "end_applying pg logical_id state code s = bindR (on_journal pg Inr s) (\<lambda>rows.
      Inr (sql_count (applying logical_id) rows,
        s\<lparr>md_journal := sql_update (applying logical_id) (\<lambda>r. r\<lparr>mr_state := state, mr_error_code := code\<rparr>) rows\<rparr>))"

section \<open>The executor\<close>

definition PROVIDER_KIND :: string where
  "PROVIDER_KIND = ''postgres''"

definition DEFAULT_SCHEMA :: string where
  "DEFAULT_SCHEMA = ''agent_loom''"

definition BOOTSTRAP_LOGICAL_ID :: string where
  "BOOTSTRAP_LOGICAL_ID = ''0000_migration_meta''"

record migration_report =
  rp_previous_model_version :: nat
  rp_target_model_version :: nat
  rp_applied_logical_ids :: "string list"

definition report_changed :: "migration_report \<Rightarrow> bool" where
  "report_changed report \<longleftrightarrow> rp_applied_logical_ids report \<noteq> []"

definition validate_config :: "string \<Rightarrow> unit migration_step" where
  "validate_config schema = (if schema \<noteq> DEFAULT_SCHEMA then failM (UnsupportedSchema schema) else returnM ())"

definition configure_session :: "unit migration_step" where
  "configure_session = query ''configure_session'' (\<lambda>_. Inr ())"

definition acquire_lock :: "unit migration_step" where
  "acquire_lock = db_call ''acquire_advisory_lock'' (\<lambda>s. Inr ((), s\<lparr>md_lock := md_lock s + 1\<rparr>))"

definition release_lock :: "unit migration_step" where
  "release_lock = bindM (db_call ''release_advisory_lock'' (\<lambda>s. Inr (0 < md_lock s, s\<lparr>md_lock := md_lock s - 1\<rparr>)))
     (\<lambda>held. if held then returnM () else failM LockNotHeld)"

fun verify_tables :: "postgres \<Rightarrow> string \<Rightarrow> string list \<Rightarrow> unit migration_step" where
  "verify_tables pg logical_id [] = returnM ()"
| "verify_tables pg logical_id (table # tables) =
    bindM (query ''verify_migration_schema'' (\<lambda>s. Inr (pg_table pg (md_ddl s) table))) (\<lambda>exists.
    if \<not> exists then failM (SchemaVerification logical_id table) else verify_tables pg logical_id tables)"

text \<open>\<open>i64::try_from(..).expect(..)\<close>.\<close>

definition model_version :: "migration_candidate \<Rightarrow> int migration_step" where
  "model_version c = (case i64_try_from (candidate_version c) of
      None \<Rightarrow> failM MigrationPanic | Some v \<Rightarrow> returnM v)"

definition journal_row :: "migration_candidate \<Rightarrow> int \<Rightarrow> string \<Rightarrow> migration_row" where
  "journal_row c v state = \<lparr> mr_logical_id = candidate_id c, mr_provider_kind = PROVIDER_KIND,
     mr_physical_checksum = mc_physical_checksum c, mr_logical_model_version = v, mr_state = state,
     mr_error_code = None \<rparr>"

definition bootstrap_journal :: "postgres \<Rightarrow> migration_candidate list \<Rightarrow> bool migration_step" where
  "bootstrap_journal pg candidates =
    bindM (query ''probe_migration_journal'' (\<lambda>s. Inr (pg_table pg (md_ddl s) JOURNAL_TABLE))) (\<lambda>exists.
    if exists then
      bindM (query ''probe_bootstrap_history'' (on_journal pg
          (\<lambda>rows. Inr (list_ex (\<lambda>r. mr_logical_id r = BOOTSTRAP_LOGICAL_ID) rows)))) (\<lambda>has_bootstrap.
      if has_bootstrap then returnM False else failM BootstrapHistoryMissing)
    else (case find (\<lambda>c. candidate_id c = BOOTSTRAP_LOGICAL_ID) candidates of
        None \<Rightarrow> failM BootstrapCandidateMissing
      | Some c \<Rightarrow> db_transaction ''begin_bootstrap'' ''commit_bootstrap''
          (bindM (db_call ''execute_bootstrap'' (batch_execute pg (em_sql (mc_descriptor c)))) (\<lambda>_.
           bindM (verify_tables pg (candidate_id c) (em_created_tables (mc_descriptor c))) (\<lambda>_.
           bindM (model_version c) (\<lambda>v.
           bindM (db_call ''journal_bootstrap'' (insert_journal pg (journal_row c v ''applied''))) (\<lambda>_.
           returnM True)))))))"

definition journal_entry_of :: "migration_row \<Rightarrow> migration_error + migration_journal_entry" where
  "journal_entry_of r =
    bindR (if mr_state r = ''applying'' then Inr MigrationApplying
           else if mr_state r = ''applied'' then Inr MigrationApplied
           else if mr_state r = ''failed'' then Inr MigrationFailed
           else Inl (InvalidJournalValue ''state'')) (\<lambda>state.
    bindR (ok_or (u64_try_from (mr_logical_model_version r)) (InvalidJournalValue ''logical_model_version'')) (\<lambda>v.
    Inr \<lparr> mj_logical_id = mr_logical_id r, mj_provider_kind = mr_provider_kind r,
      mj_physical_checksum = mr_physical_checksum r, mj_logical_model_version = v, mj_state = state \<rparr>))"

definition load_history :: "postgres \<Rightarrow> migration_journal_entry list migration_step" where
  "load_history pg = bindM (query ''load_migration_history'' (on_journal pg (\<lambda>rows. Inr (sort_key mr_logical_id rows))))
    (\<lambda>rows. case foldR (\<lambda>r entries. bindR (journal_entry_of r) (\<lambda>e. Inr (entries @ [e]))) rows [] of
       Inl err \<Rightarrow> failM err | Inr history \<Rightarrow> returnM history)"

definition start_journal :: "postgres \<Rightarrow> migration_candidate \<Rightarrow> unit migration_step" where
  "start_journal pg c = bindM (model_version c) (\<lambda>v.
     db_call ''start_migration_journal'' (insert_journal pg (journal_row c v ''applying'')))"

definition execute_sql :: "postgres \<Rightarrow> migration_candidate \<Rightarrow> unit migration_step" where
  "execute_sql pg c = db_transaction ''begin_migration_ddl'' ''commit_migration_ddl''
     (db_call ''execute_migration_ddl'' (batch_execute pg (em_sql (mc_descriptor c))))"

definition verify_schema :: "postgres \<Rightarrow> migration_candidate \<Rightarrow> unit migration_step" where
  "verify_schema pg c = verify_tables pg (candidate_id c) (em_created_tables (mc_descriptor c))"

definition mark_applied :: "postgres \<Rightarrow> migration_candidate \<Rightarrow> unit migration_step" where
  "mark_applied pg c = bindM (db_call ''mark_migration_applied'' (end_applying pg (candidate_id c) ''applied'' None))
     (\<lambda>updated. if updated \<noteq> 1 then failM (InvalidJournalValue ''applying row count'') else returnM ())"

definition mark_failed :: "postgres \<Rightarrow> migration_candidate \<Rightarrow> string \<Rightarrow> unit migration_step" where
  "mark_failed pg c code = bindM (db_call ''mark_migration_failed'' (end_applying pg (candidate_id c) ''failed'' (Some code)))
     (\<lambda>updated. if updated \<noteq> 1 then failM (InvalidJournalValue ''failed row count'') else returnM ())"

definition perform_action ::
  "postgres \<Rightarrow> migration_machine \<Rightarrow> migration_execution_action \<Rightarrow> unit migration_step" where
  "perform_action pg m action = (case action of
      ActAcquireLock \<Rightarrow> returnM ()
    | ActReleaseLock \<Rightarrow> returnM ()
    | ActStartJournal c \<Rightarrow> start_journal pg c
    | ActExecuteSql c \<Rightarrow> execute_sql pg c
    | ActVerifySchema c \<Rightarrow> verify_schema pg c
    | ActMarkApplied c \<Rightarrow> mark_applied pg c
    | ActMarkFailed c \<Rightarrow> mark_failed pg c
        (case mm_failure m of None \<Rightarrow> ''MIGRATION_FAILED'' | Some failure \<Rightarrow> mf_error_code failure))"

text \<open>How many reports a machine may still receive.\<close>

definition machine_rank :: "migration_machine \<Rightarrow> nat" where
  "machine_rank m = (let left = 4 * (length (mm_pending m) - mm_current_index m) in case mm_phase m of
      PhAcquireLock \<Rightarrow> left + 3 | PhStartJournal \<Rightarrow> left + 2 | PhExecuteSql \<Rightarrow> left + 1 | PhVerifySchema \<Rightarrow> left
    | PhMarkApplied \<Rightarrow> left - 1 | PhMarkFailed \<Rightarrow> 2 | PhReleaseLock \<Rightarrow> 1 | PhSucceeded \<Rightarrow> 0 | PhFailed \<Rightarrow> 0)"

lemma machine_rank_report:
  assumes "next_action m = Inr (Some action)"
  shows "report_success m = Inr m' \<Longrightarrow> machine_rank m' < machine_rank m"
    and "report_failure code m = Inr m' \<Longrightarrow> machine_rank m' < machine_rank m"
  using assms
  by (auto simp: next_action_def candidate_action_def report_success_def report_failure_def failed_candidate_def
      machine_rank_def Let_def split: phase.splits if_splits option.splits)

text \<open>\<open>while let Some(action) = machine.next_action()\<close> of \<open>migrate_locked\<close>.\<close>

function (sequential) run_machine ::
  "(migration_machine \<Rightarrow> migration_execution_action \<Rightarrow> unit migration_step) \<Rightarrow> migration_machine
   \<Rightarrow> migration_machine migration_step" where
  "run_machine perform m s = (case next_action m of
      Inl _ \<Rightarrow> (Inl MigrationPanic, s)
    | Inr None \<Rightarrow> (Inr m, s)
    | Inr (Some action) \<Rightarrow> (case perform m action s of
          (Inr _, s') \<Rightarrow> (case report_success m of
              Inl _ \<Rightarrow> (Inl MigrationPanic, s') | Inr m' \<Rightarrow> run_machine perform m' s')
        | (Inl MigrationPanic, s') \<Rightarrow> (Inl MigrationPanic, s')
        | (Inl err, s') \<Rightarrow> (case report_failure (stable_error_code err) m of
              Inl _ \<Rightarrow> (Inl MigrationPanic, s') | Inr m' \<Rightarrow> run_machine perform m' s')))"
  by pat_completeness auto
termination
  by (relation "measure (\<lambda>(_, m, _). machine_rank m)") (auto simp: machine_rank_report)

declare run_machine.simps [simp del]

lemma run_machine_steps:
  "next_action m = Inr None \<Longrightarrow> run_machine perform m s = (Inr m, s)"
  "next_action m = Inr (Some action) \<Longrightarrow> perform m action s = (Inr u, s') \<Longrightarrow> report_success m = Inr m'
    \<Longrightarrow> run_machine perform m s = run_machine perform m' s'"
  "next_action m = Inr (Some action) \<Longrightarrow> perform m action s = (Inl err, s') \<Longrightarrow> err \<noteq> MigrationPanic
    \<Longrightarrow> report_failure (stable_error_code err) m = Inr m' \<Longrightarrow> run_machine perform m s = run_machine perform m' s'"
  by (simp_all add: run_machine.simps [of perform m]) (cases err; simp)

definition migrate_locked ::
  "postgres \<Rightarrow> migration_candidate list \<Rightarrow> migration_report migration_step" where
  "migrate_locked pg candidates =
    bindM (bootstrap_journal pg candidates) (\<lambda>bootstrapped.
    bindM (load_history pg) (\<lambda>history.
    case assess_migrations PROVIDER_KIND candidates history of
      Inl err \<Rightarrow> failM (Assessment err)
    | Inr plan \<Rightarrow>
      let report = \<lparr> rp_previous_model_version = (if bootstrapped then 0 else mp_current_model_version plan),
            rp_target_model_version = mp_target_model_version plan,
            rp_applied_logical_ids = (if bootstrapped then [BOOTSTRAP_LOGICAL_ID] else []) \<rparr> in
      if mp_pending plan = [] then returnM report
      else bindM (run_machine (perform_action pg) (new_machine plan)) (\<lambda>m.
        case mm_failure m of
          Some failure \<Rightarrow> failM (Execution failure)
        | None \<Rightarrow> returnM (report\<lparr>rp_applied_logical_ids :=
            rp_applied_logical_ids report @ map candidate_id (mp_pending plan)\<rparr>))))"

text \<open>\<open>migrate\<close>; a panic unwinds past the release of the lock.\<close>

definition migrate :: "postgres \<Rightarrow> migration_candidate list \<Rightarrow> string \<Rightarrow> migration_report migration_step" where
  "migrate pg candidates schema =
    bindM (validate_config schema) (\<lambda>_.
    bindM configure_session (\<lambda>_.
    bindM acquire_lock (\<lambda>_ s. case migrate_locked pg candidates s of
      (Inl MigrationPanic, s') \<Rightarrow> (Inl MigrationPanic, s')
    | (Inl err, s') \<Rightarrow> (Inl err, snd (release_lock s'))
    | (Inr report, s') \<Rightarrow> (case release_lock s' of
          (Inl err, s'') \<Rightarrow> (Inl err, s'')
        | (Inr _, s'') \<Rightarrow> (Inr report, s'')))))"

end
