(* ===== verification/MigrationHistory.thy ===== *)
theory MigrationHistory
  imports MigrationRun
begin

text \<open>
  What runs of the migrations leave behind. The states of the journal and the schema between runs, the
  effect of every action on them whatever fails, and the properties of \<open>migrate\<close>.
\<close>

section \<open>Calls that may fail\<close>

lemma spent_tables [simp]: "md_journal (spent s) = md_journal s" "md_ddl (spent s) = md_ddl s"
  by (simp_all add: spent_def)

lemma db_callE:
  assumes "db_call op f s = (r, s')"
  obtains (unchanged) code where "r = Inl (Database op code)" and "s' = spent s"
  | (lost) code x where "r = Inl (Database op code)" and "f (spent s) = Inr (x, s')"
  | (completed) x where "r = Inr x" and "f (spent s) = Inr (x, s')"
  using assms by (auto simp: db_call_def split: option.splits fault.splits sum.splits prod.splits)

definition same_tables :: "migration_db \<Rightarrow> migration_db \<Rightarrow> bool" where
  "same_tables s s' \<longleftrightarrow> md_journal s' = md_journal s \<and> md_ddl s' = md_ddl s"

lemma queryE:
  assumes "query op f s = (r, s')"
  obtains (failed) code where "r = Inl (Database op code)" and "same_tables s s'"
  | (completed) x where "r = Inr x" and "f (spent s) = Inr x" and "same_tables s s'"
  using assms unfolding query_def
  by (elim db_callE) (auto simp: same_tables_def bindR_Inr_iff)

lemma bindM_eq:
  "bindM m f s = (r, s') \<longleftrightarrow>
    (\<exists>err. m s = (Inl err, s') \<and> r = Inl err) \<or> (\<exists>x s1. m s = (Inr x, s1) \<and> f x s1 = (r, s'))"
  by (auto simp: bindM_def split: prod.splits sum.splits)

lemma returnM_eq [simp]: "returnM x s = (r, s') \<longleftrightarrow> r = Inr x \<and> s' = s"
  by (auto simp: returnM_def)

lemma failM_eq [simp]: "failM err s = (r, s') \<longleftrightarrow> r = Inl err \<and> s' = s"
  by (auto simp: failM_def)

section \<open>The states between the actions\<close>

abbreviation candidate_sql :: "migration_candidate \<Rightarrow> string" where
  "candidate_sql c \<equiv> em_sql (mc_descriptor c)"

definition applied_row :: "migration_candidate \<Rightarrow> migration_row" where
  "applied_row c = journal_row c (int (candidate_version c)) ''applied''"

definition opened_row :: "migration_candidate \<Rightarrow> migration_row" where
  "opened_row c = journal_row c (int (candidate_version c)) ''applying''"

text \<open>The first \<open>n\<close> migrations are applied.\<close>

definition clean :: "migration_candidate list \<Rightarrow> nat \<Rightarrow> migration_db \<Rightarrow> bool" where
  "clean cs n s \<longleftrightarrow> n \<le> length cs \<and> md_journal s = map applied_row (take n cs)
     \<and> md_ddl s = map candidate_sql (take n cs)"

text \<open>The next one is being applied; the first \<open>k\<close> texts are in the schema.\<close>

definition opened :: "migration_candidate list \<Rightarrow> nat \<Rightarrow> nat \<Rightarrow> migration_db \<Rightarrow> bool" where
  "opened cs n k s \<longleftrightarrow> 0 < n \<and> n < length cs \<and> k \<in> {n, Suc n}
     \<and> md_journal s = map applied_row (take n cs) @ [opened_row (cs ! n)]
     \<and> md_ddl s = map candidate_sql (take k cs)"

text \<open>Its row was left behind.\<close>

definition unfinished :: "migration_candidate list \<Rightarrow> nat \<Rightarrow> nat \<Rightarrow> migration_db \<Rightarrow> bool" where
  "unfinished cs n k s \<longleftrightarrow> 0 < n \<and> n < length cs \<and> k \<in> {n, Suc n}
     \<and> (\<exists>state code. state \<in> {''applying'', ''failed''}
         \<and> md_journal s = map applied_row (take n cs)
             @ [(opened_row (cs ! n))\<lparr>mr_state := state, mr_error_code := code\<rparr>])
     \<and> md_ddl s = map candidate_sql (take k cs)"

definition settled :: "migration_candidate list \<Rightarrow> migration_db \<Rightarrow> bool" where
  "settled cs s \<longleftrightarrow> (\<exists>n. clean cs n s) \<or> (\<exists>n k. unfinished cs n k s)"

text \<open>
  What is asked of the migrations: a valid manifest whose first migration is the one that creates the
  journal, which no other one drops; model versions are positive and fit a \<open>bigint\<close>.
\<close>

definition manifest_ok :: "postgres \<Rightarrow> migration_candidate list \<Rightarrow> bool" where
  "manifest_ok pg cs \<longleftrightarrow> cs \<noteq> [] \<and> candidate_id (hd cs) = BOOTSTRAP_LOGICAL_ID
     \<and> validate_migration_manifest (map mc_descriptor cs) = Inr ()
     \<and> list_all (\<lambda>c. 1 \<le> candidate_version c \<and> int (candidate_version c) \<le> i64_max) cs
     \<and> list_all (\<lambda>n. pg_table pg (map candidate_sql (take n cs)) JOURNAL_TABLE \<longleftrightarrow> 0 < n) [0..<Suc (length cs)]"

lemma same_tables_states:
  assumes "same_tables s s'"
  shows "clean cs n s' = clean cs n s" "opened cs n k s' = opened cs n k s"
    "unfinished cs n k s' = unfinished cs n k s" "settled cs s' = settled cs s"
  using assms by (auto simp: same_tables_def clean_def opened_def unfinished_def settled_def)

lemma opened_unfinished: "opened cs n k s \<Longrightarrow> unfinished cs n k s"
  unfolding opened_def unfinished_def
  by (auto intro!: exI [of _ "''applying''"] exI [of _ "None"] simp: opened_row_def journal_row_def)

lemma clean_settled: "clean cs n s \<Longrightarrow> settled cs s" by (auto simp: settled_def)
lemma opened_settled: "opened cs n k s \<Longrightarrow> settled cs s" unfolding settled_def using opened_unfinished by blast

lemma row_fields [simp]:
  "mr_logical_id (applied_row c) = candidate_id c" "mr_state (applied_row c) = ''applied''"
  "mr_logical_model_version (applied_row c) = int (candidate_version c)"
  "mr_logical_id (opened_row c) = candidate_id c" "mr_state (opened_row c) = ''applying''"
  "mr_logical_model_version (opened_row c) = int (candidate_version c)"
  by (simp_all add: applied_row_def opened_row_def journal_row_def)

section \<open>What the manifest gives\<close>

lemma manifest_facts:
  assumes "manifest_ok pg cs"
  shows "distinct (map candidate_id cs)" and "0 < length cs" and "candidate_id (cs ! 0) = BOOTSTRAP_LOGICAL_ID"
    and "c \<in> set cs \<Longrightarrow> 1 \<le> candidate_version c \<and> int (candidate_version c) \<le> i64_max"
    and "n \<le> length cs \<Longrightarrow> pg_table pg (map candidate_sql (take n cs)) JOURNAL_TABLE = (0 < n)"
  using assms by (auto simp: manifest_ok_def manifest_valid_def list_all_iff hd_conv_nth manifest_distinct)

lemma journal_exists:
  assumes "manifest_ok pg cs"
  shows "clean cs n s \<Longrightarrow> pg_table pg (md_ddl s) JOURNAL_TABLE = (0 < n)"
    and "opened cs n k s \<Longrightarrow> pg_table pg (md_ddl s) JOURNAL_TABLE"
    and "unfinished cs n k s \<Longrightarrow> pg_table pg (md_ddl s) JOURNAL_TABLE"
  using manifest_facts(5) [OF assms] by (auto simp: clean_def opened_def unfinished_def)

lemma new_id:
  assumes "manifest_ok pg cs" and "n < length cs"
  shows "candidate_id (cs ! n) \<notin> candidate_id ` set (take n cs)"
proof -
  have "distinct (map candidate_id (take n cs @ [cs ! n]))"
    using manifest_facts(1) [OF assms(1)] assms(2)
    by (metis distinct_take take_Suc_conv_app_nth take_map)
  then show ?thesis by auto
qed

lemma model_version_ok:
  assumes "manifest_ok pg cs" and "c \<in> set cs"
  shows "model_version c = returnM (int (candidate_version c))"
  using manifest_facts(4) [OF assms] by (simp add: model_version_def i64_try_from_def)

section \<open>The actions\<close>

lemma insert_journal_Inr:
  assumes "insert_journal pg row s = Inr (u, s')"
  shows "s' = s\<lparr>md_journal := md_journal s @ [row]\<rparr>" and "pg_table pg (md_ddl s) JOURNAL_TABLE"
  using assms by (auto simp: insert_journal_def on_journal_def bindR_Inr_iff split: if_splits)

lemma start_journal_step:
  assumes "manifest_ok pg cs" and "clean cs n s" and "0 < n" and "n < length cs"
    and "start_journal pg (cs ! n) s = (r, s')"
  shows "r \<noteq> Inl MigrationPanic" and "r = Inr () \<Longrightarrow> opened cs n n s'"
    and "clean cs n s' \<or> opened cs n n s'"
proof -
  have inserted: "opened cs n n s1" if "insert_journal pg (opened_row (cs ! n)) (spent s) = Inr (u, s1)" for u s1
    using insert_journal_Inr [OF that] assms(2-4) by (simp add: clean_def opened_def)
  have "db_call ''start_migration_journal'' (insert_journal pg (opened_row (cs ! n))) s = (r, s')"
    using assms(5) unfolding start_journal_def model_version_ok [OF assms(1) nth_mem [OF assms(4)]]
    by (simp add: bindM_eq opened_row_def)
  then have "r \<noteq> Inl MigrationPanic \<and> (r = Inr () \<longrightarrow> opened cs n n s') \<and> (clean cs n s' \<or> opened cs n n s')"
    by (cases rule: db_callE) (use assms(2) inserted in \<open>auto simp: clean_def\<close>)
  then show "r \<noteq> Inl MigrationPanic" "r = Inr () \<Longrightarrow> opened cs n n s'" "clean cs n s' \<or> opened cs n n s'"
    by auto
qed

lemma batch_execute_Inr:
  "batch_execute pg sql s = Inr (u, s') \<longleftrightarrow> pg_reject pg (md_ddl s) sql = None \<and> s' = s\<lparr>md_ddl := md_ddl s @ [sql]\<rparr>"
  by (auto simp: batch_execute_def split: option.splits)

text \<open>A transaction takes effect as a whole or not at all.\<close>

lemma db_transactionE:
  assumes "db_transaction b c body s = (r, s')"
  obtains (unchanged) err where "r = Inl err" and "same_tables s s'"
      and "err = MigrationPanic \<Longrightarrow> \<exists>s1 s2. same_tables s s1 \<and> body s1 = (Inl MigrationPanic, s2)"
  | (committed) s1 x s2 where "same_tables s s1" and "body s1 = (Inr x, s2)" and "same_tables s2 s'"
      and "r = Inr x \<or> (\<exists>code. r = Inl (Database c code))"
proof -
  obtain qr s1 where query: "query b (\<lambda>_. Inr ()) s = (qr, s1)" by force
  show thesis
  proof (cases qr)
    case (Inl err)
    with assms query have "r = Inl err" "s' = s1" by (simp_all add: db_transaction_def bindM_def)
    with query Inl unchanged show thesis by (auto elim!: queryE)
  next
    case (Inr u)
    with query have q: "query b (\<lambda>_. Inr ()) s = (Inr (), s1)" by simp
    have same: "same_tables s s1" using q by (auto elim!: queryE)
    obtain br s2 where body: "body s1 = (br, s2)" by force
    show thesis
    proof (cases br)
      case (Inl err)
      with assms q body have "r = Inl err" "s' = s1\<lparr>md_faults := md_faults s2\<rparr>"
        by (simp_all add: db_transaction_def bindM_def)
      with same body Inl unchanged show thesis by (auto simp: same_tables_def)
    next
      case (Inr x)
      show thesis
      proof (cases "next_fault s2")
        case None
        with assms q body Inr have "r = Inr x" "s' = spent s2" by (simp_all add: db_transaction_def bindM_def)
        with same body Inr committed show thesis by (auto simp: same_tables_def)
      next
        case (Some f)
        show thesis
        proof (cases f)
          case (FailsBefore code)
          with assms q body Inr Some have "r = Inl (Database c code)" "s' = s1\<lparr>md_faults := md_faults (spent s2)\<rparr>"
            by (simp_all add: db_transaction_def bindM_def)
          with same unchanged show thesis by (auto simp: same_tables_def)
        next
          case (FailsAfter code)
          with assms q body Inr Some have "r = Inl (Database c code)" "s' = spent s2"
            by (simp_all add: db_transaction_def bindM_def)
          with same body Inr committed show thesis by (auto simp: same_tables_def)
        qed
      qed
    qed
  qed
qed

lemma execute_sql_step:
  assumes "opened cs n n s" and "execute_sql pg (cs ! n) s = (r, s')"
  shows "r \<noteq> Inl MigrationPanic" and "r = Inr () \<Longrightarrow> opened cs n (Suc n) s'"
    and "opened cs n n s' \<or> opened cs n (Suc n) s'"
proof -
  have call: "rr \<noteq> Inl MigrationPanic \<and> (rr = Inr () \<longrightarrow> opened cs n (Suc n) s2)"
    if "db_call op (batch_execute pg (candidate_sql (cs ! n))) s1 = (rr, s2)" "same_tables s s1" for op rr s1 s2
    using that(1) by (cases rule: db_callE)
      (use assms(1) that(2) in \<open>auto simp: batch_execute_Inr same_tables_def opened_def take_Suc_conv_app_nth\<close>)
  have "r \<noteq> Inl MigrationPanic \<and> (r = Inr () \<longrightarrow> opened cs n (Suc n) s') \<and> (opened cs n n s' \<or> opened cs n (Suc n) s')"
    using assms(2) unfolding execute_sql_def
  proof (cases rule: db_transactionE)
    case (unchanged err)
    then show ?thesis using call assms(1) same_tables_states(2) by blast
  next
    case (committed s1 x s2)
    then show ?thesis using call [of _ s1 "Inr x" s2] same_tables_states(2) [of s2 s'] by auto
  qed
  then show "r \<noteq> Inl MigrationPanic" "r = Inr () \<Longrightarrow> opened cs n (Suc n) s'"
    "opened cs n n s' \<or> opened cs n (Suc n) s'" by auto
qed

lemma verify_tables_step:
  assumes "verify_tables pg logical_id tables s = (r, s')"
  shows "same_tables s s' \<and> r \<noteq> Inl MigrationPanic"
  using assms
proof (induction tables arbitrary: s)
  case (Cons table tables)
  then show ?case
    by (auto simp: bindM_eq elim!: queryE split: if_splits) (auto simp: same_tables_def)
qed (simp add: same_tables_def)

text \<open>The update that ends the row of a migration that is being applied.\<close>

lemma update_closed:
  assumes "\<And>r. r \<in> set rows \<Longrightarrow> mr_state r = ''applied''"
  shows "sql_update (applying i) f (rows @ rest) = rows @ sql_update (applying i) f rest"
    and "sql_count (applying i) (rows @ rest) = sql_count (applying i) rest"
  using assms by (induction rows) (auto simp: applying_def sql_count_def sql_update_def)

lemma end_applying_Inr:
  assumes "end_applying pg (candidate_id (cs ! n)) state code s = Inr (updated, s')"
  shows "clean cs k s \<Longrightarrow> updated = 0 \<and> s' = s"
    and "opened cs n k s \<Longrightarrow> updated = 1 \<and> s' = s\<lparr>md_journal := map applied_row (take n cs)
           @ [(opened_row (cs ! n))\<lparr>mr_state := state, mr_error_code := code\<rparr>]\<rparr>"
proof -
  have closed: "sql_update (applying i) f (map applied_row (take j cs) @ rest) = map applied_row (take j cs) @ sql_update (applying i) f rest"
    "sql_count (applying i) (map applied_row (take j cs) @ rest) = sql_count (applying i) rest" for i f j rest
    by (rule update_closed; auto)+
  have s': "updated = sql_count (applying (candidate_id (cs ! n))) (md_journal s)"
    "s' = s\<lparr>md_journal := sql_update (applying (candidate_id (cs ! n)))
        (\<lambda>r. r\<lparr>mr_state := state, mr_error_code := code\<rparr>) (md_journal s)\<rparr>"
    using assms by (auto simp: end_applying_def on_journal_def bindR_Inr_iff split: if_splits)
  show "updated = 0 \<and> s' = s" if "clean cs k s"
    using that s' closed [where j = k and rest = "[]"] by (simp add: clean_def sql_count_def)
  show "updated = 1 \<and> s' = s\<lparr>md_journal := map applied_row (take n cs)
           @ [(opened_row (cs ! n))\<lparr>mr_state := state, mr_error_code := code\<rparr>]\<rparr>" if "opened cs n k s"
    using that s' closed [where j = n]
    by (simp add: opened_def sql_count_def applying_def)
qed

lemma mark_applied_step:
  assumes "opened cs n (Suc n) s" and "mark_applied pg (cs ! n) s = (r, s')"
  shows "r \<noteq> Inl MigrationPanic" and "r = Inr () \<Longrightarrow> clean cs (Suc n) s'"
    and "clean cs (Suc n) s' \<or> opened cs n (Suc n) s'"
proof -
  have row: "(opened_row c)\<lparr>mr_state := ''applied'', mr_error_code := None\<rparr> = applied_row c" for c
    by (simp add: opened_row_def applied_row_def journal_row_def)
  have ended: "u = 1 \<and> clean cs (Suc n) s1"
    if "end_applying pg (candidate_id (cs ! n)) ''applied'' None (spent s) = Inr (u, s1)" for u s1
  proof -
    have "opened cs n (Suc n) (spent s)" using assms(1) by (simp add: opened_def)
    from end_applying_Inr(2) [OF that this] assms(1) show ?thesis
      by (simp add: clean_def opened_def row take_Suc_conv_app_nth)
  qed
  have "r \<noteq> Inl MigrationPanic \<and> (r = Inr () \<longrightarrow> clean cs (Suc n) s') \<and> (clean cs (Suc n) s' \<or> opened cs n (Suc n) s')"
    using assms(2) unfolding mark_applied_def bindM_eq
    by (elim disjE exE conjE db_callE) (use assms(1) ended in \<open>auto simp: opened_def\<close>)
  then show "r \<noteq> Inl MigrationPanic" "r = Inr () \<Longrightarrow> clean cs (Suc n) s'"
    "clean cs (Suc n) s' \<or> opened cs n (Suc n) s'" by auto
qed

lemma mark_failed_step:
  assumes "clean cs n s \<or> clean cs (Suc n) s \<or> (\<exists>k. opened cs n k s)" and "mark_failed pg (cs ! n) code s = (r, s')"
  shows "r \<noteq> Inl MigrationPanic" and "settled cs s'"
proof -
  have before: "clean cs n (spent s) \<or> clean cs (Suc n) (spent s) \<or> (\<exists>k. opened cs n k (spent s))"
    using assms(1) by (simp add: clean_def opened_def)
  then have kept: "settled cs (spent s)" using clean_settled opened_settled by blast
  have ended: "settled cs s1" if e: "end_applying pg (candidate_id (cs ! n)) ''failed'' c (spent s) = Inr (u, s1)" for u s1 c
    using before
  proof (elim disjE exE)
    fix k assume o: "opened cs n k (spent s)"
    have "unfinished cs n k s1" using end_applying_Inr(2) [OF e o] o by (auto simp: unfinished_def opened_def)
    then show ?thesis by (auto simp: settled_def)
  qed (use end_applying_Inr(1) [OF e] kept in auto)
  have "r \<noteq> Inl MigrationPanic \<and> settled cs s'"
    using assms(2) unfolding mark_failed_def bindM_eq
    by (elim disjE exE conjE db_callE) (use kept ended in \<open>auto split: if_splits\<close>)
  then show "r \<noteq> Inl MigrationPanic" "settled cs s'" by auto
qed

section \<open>The machine keeps the states\<close>

text \<open>What holds in each phase of a machine that continues after \<open>n\<close> applied migrations.\<close>

definition machine_ok :: "migration_candidate list \<Rightarrow> nat \<Rightarrow> migration_machine \<Rightarrow> migration_db \<Rightarrow> bool" where
  "machine_ok cs n m s \<longleftrightarrow> 0 < n \<and> mm_pending m = drop n cs
     \<and> (let i = n + mm_current_index m in case mm_phase m of
        PhAcquireLock \<Rightarrow> mm_failure m = None \<and> i < length cs \<and> clean cs i s
      | PhStartJournal \<Rightarrow> mm_failure m = None \<and> i < length cs \<and> clean cs i s
      | PhExecuteSql \<Rightarrow> mm_failure m = None \<and> opened cs i i s
      | PhVerifySchema \<Rightarrow> mm_failure m = None \<and> opened cs i (Suc i) s
      | PhMarkApplied \<Rightarrow> mm_failure m = None \<and> opened cs i (Suc i) s
      | PhMarkFailed \<Rightarrow> mm_failure m \<noteq> None \<and> i < length cs
          \<and> (clean cs i s \<or> clean cs (Suc i) s \<or> (\<exists>k. opened cs i k s))
      | PhReleaseLock \<Rightarrow> (if mm_failure m = None then clean cs (length cs) s else settled cs s)
      | PhSucceeded \<Rightarrow> mm_failure m = None \<and> clean cs (length cs) s
      | PhFailed \<Rightarrow> mm_failure m \<noteq> None \<and> settled cs s)"

text \<open>An action whose result is reported leads to the next phase.\<close>

definition step_ok ::
  "migration_candidate list \<Rightarrow> nat \<Rightarrow> migration_machine \<Rightarrow> (migration_error + unit) \<times> migration_db \<Rightarrow> bool" where
  "step_ok cs n m p \<longleftrightarrow> (case p of
      (Inr _, s') \<Rightarrow> (\<exists>m'. report_success m = Inr m' \<and> machine_ok cs n m' s')
    | (Inl err, s') \<Rightarrow> err \<noteq> MigrationPanic
        \<and> (\<forall>code. \<exists>m'. report_failure code m = Inr m' \<and> machine_ok cs n m' s'))"

lemma opened_lt: "opened cs n k s \<Longrightarrow> n < length cs" by (simp add: opened_def)

lemmas machine_simps = machine_ok_def step_ok_def report_success_def report_failure_def next_action_def
  candidate_action_def failed_candidate_def execution_failure_def Let_def

lemma perform_step:
  assumes "manifest_ok pg cs" and "machine_ok cs n m s" and "next_action m = Inr (Some action)"
  shows "step_ok cs n m (perform_action pg m action s)"
proof -
  let ?i = "n + mm_current_index m"
  have at: "mm_pending m ! mm_current_index m = cs ! ?i" "mm_current_index m < length (mm_pending m)"
    if "?i < length cs"
    using assms(2) that by (auto simp: machine_ok_def)
  have n: "0 < n" "0 < ?i" "mm_pending m = drop n cs" using assms(2) by (auto simp: machine_ok_def)
  obtain r s' where p: "perform_action pg m action s = (r, s')" by force
  show ?thesis
  proof (cases "mm_phase m")
    case PhAcquireLock
    with assms(2,3) p at show ?thesis
      by (auto simp: machine_simps perform_action_def returnM_def clean_settled)
  next
    case PhStartJournal
    with assms(2) have i: "?i < length cs" "clean cs ?i s" "mm_failure m = None" by (auto simp: machine_ok_def Let_def)
    have "action = ActStartJournal (cs ! ?i)" using assms(3) PhStartJournal at [OF i(1)] by (simp add: next_action_def candidate_action_def)
    with p have "start_journal pg (cs ! ?i) s = (r, s')" by (simp add: perform_action_def)
    from start_journal_step [OF assms(1) i(2) n(2) i(1) this] show ?thesis unfolding p
      using PhStartJournal i at [OF i(1)] n by (auto simp: machine_simps split: sum.splits)
  next
    case PhExecuteSql
    with assms(2) have i: "opened cs ?i ?i s" "mm_failure m = None" by (auto simp: machine_ok_def Let_def)
    have "action = ActExecuteSql (cs ! ?i)" using assms(3) PhExecuteSql at [OF opened_lt [OF i(1)]] by (simp add: next_action_def candidate_action_def)
    with p have "execute_sql pg (cs ! ?i) s = (r, s')" by (simp add: perform_action_def)
    from execute_sql_step [OF i(1) this] show ?thesis unfolding p
      using PhExecuteSql i opened_lt [OF i(1)] at [OF opened_lt [OF i(1)]] n by (auto simp: machine_simps split: sum.splits)
  next
    case PhVerifySchema
    with assms(2) have i: "opened cs ?i (Suc ?i) s" "mm_failure m = None" by (auto simp: machine_ok_def Let_def)
    have "action = ActVerifySchema (cs ! ?i)" using assms(3) PhVerifySchema at [OF opened_lt [OF i(1)]] by (simp add: next_action_def candidate_action_def)
    with p have "verify_schema pg (cs ! ?i) s = (r, s')" by (simp add: perform_action_def)
    from verify_tables_step [OF this [unfolded verify_schema_def]]
    have same: "same_tables s s'" and "r \<noteq> Inl MigrationPanic" by simp_all
    with same_tables_states(2) [OF same] i have "opened cs ?i (Suc ?i) s'" "r \<noteq> Inl MigrationPanic" by simp_all
    then show ?thesis unfolding p
      using PhVerifySchema i opened_lt [OF i(1)] at [OF opened_lt [OF i(1)]] n by (auto simp: machine_simps split: sum.splits)
  next
    case PhMarkApplied
    with assms(2) have i: "opened cs ?i (Suc ?i) s" "mm_failure m = None" by (auto simp: machine_ok_def Let_def)
    have "action = ActMarkApplied (cs ! ?i)" using assms(3) PhMarkApplied at [OF opened_lt [OF i(1)]] by (simp add: next_action_def candidate_action_def)
    with p have "mark_applied pg (cs ! ?i) s = (r, s')" by (simp add: perform_action_def)
    have last: "clean cs (length cs) s''" if "Suc (mm_current_index m) = length cs - n" "clean cs (Suc ?i) s''" for s''
      using that opened_lt [OF i(1)] by (metis add_Suc_right le_add_diff_inverse less_imp_le_nat trans_less_add1 nat_less_le add_lessD1)
    from mark_applied_step [OF i(1) \<open>mark_applied pg (cs ! ?i) s = (r, s')\<close>] last [of s'] show ?thesis unfolding p
      using PhMarkApplied i opened_lt [OF i(1)] at [OF opened_lt [OF i(1)]] n
      by (auto simp: machine_simps split: sum.splits)
  next
    case PhMarkFailed
    with assms(2) have i: "?i < length cs" "mm_failure m \<noteq> None"
      "clean cs ?i s \<or> clean cs (Suc ?i) s \<or> (\<exists>k. opened cs ?i k s)" by (auto simp: machine_ok_def Let_def)
    have "action = ActMarkFailed (cs ! ?i)" using assms(3) PhMarkFailed at [OF i(1)] by (simp add: next_action_def candidate_action_def)
    with p i(2) obtain code where "mark_failed pg (cs ! ?i) code s = (r, s')" by (auto simp: perform_action_def)
    from mark_failed_step [OF i(3) this] show ?thesis unfolding p
      using PhMarkFailed i at [OF i(1)] n by (auto simp: machine_simps split: sum.splits)
  next
    case PhReleaseLock
    with assms(2,3) p show ?thesis
      by (auto simp: machine_simps perform_action_def returnM_def split: if_splits option.splits)
  qed (use assms(3) in \<open>simp_all add: next_action_def\<close>)
qed

text \<open>The loop ends, does not panic, and tells by its failure whether all migrations are applied.\<close>

lemma run_machine_ends:
  assumes "manifest_ok pg cs" and "machine_ok cs n m s" and "run_machine (perform_action pg) m s = (r, s')"
  shows "\<exists>m'. r = Inr m' \<and> (if mm_failure m' = None then clean cs (length cs) s' else settled cs s')"
  using assms(2,3)
proof (induction m arbitrary: s rule: measure_induct_rule [of machine_rank])
  case (less m)
  have "\<exists>next. next_action m = Inr next" using less.prems(1)
    by (auto simp: next_action_def candidate_action_def machine_ok_def Let_def opened_def split: phase.splits)
  then consider (over) "next_action m = Inr None" | (act) action where "next_action m = Inr (Some action)"
    by (metis option.exhaust)
  then show ?case
  proof cases
    case over
    with less.prems show ?thesis
      by (auto simp: run_machine_steps next_action_def candidate_action_def machine_ok_def Let_def
          split: phase.splits if_splits)
  next
    case act
    obtain pr ps where p: "perform_action pg m action s = (pr, ps)" by force
    note step = perform_step [OF assms(1) less.prems(1) act, unfolded p step_ok_def prod.case]
    obtain m' where m': "machine_rank m' < machine_rank m" "machine_ok cs n m' ps"
      "run_machine (perform_action pg) m s = run_machine (perform_action pg) m' ps"
    proof (cases pr)
      case (Inr u)
      with step obtain m' where "report_success m = Inr m'" "machine_ok cs n m' ps" by auto
      with that [of m'] act p Inr show thesis
        by (simp add: machine_rank_report(1) run_machine_steps(2))
    next
      case (Inl err)
      with step obtain m' where "err \<noteq> MigrationPanic" "report_failure (stable_error_code err) m = Inr m'"
        "machine_ok cs n m' ps" by auto
      with that [of m'] act p Inl show thesis
        by (simp add: machine_rank_report(2) run_machine_steps(3))
    qed
    with less.IH [OF m'(1,2)] less.prems(2) show ?thesis by simp
  qed
qed

end
