(* ===== verification/MigrationSafety.thy ===== *)
theory MigrationSafety
  imports MigrationHistory
begin

text \<open>
  The properties of \<open>migrate\<close>: over any number of runs and whatever calls fail, every migration takes
  effect at most once and in order; a run that succeeds has applied all; a run that meets an unfinished
  migration changes nothing; a run without faults on accepted texts succeeds.
\<close>

section \<open>Bootstrap and history\<close>

lemma bindM_returnM [simp]: "bindM (returnM x) f = f x"
  by (rule ext) (simp add: bindM_def returnM_def)

lemma inserted_row:
  "insert_journal pg row s = Inr (u, s') \<Longrightarrow> s' = s\<lparr>md_journal := md_journal s @ [row]\<rparr>"
  using insert_journal_Inr by blast

lemma verify_ends:
  assumes "verify_tables pg i tables s = (r, s')"
  shows "md_journal s' = md_journal s \<and> md_ddl s' = md_ddl s \<and> r \<noteq> Inl MigrationPanic"
  using verify_tables_step [OF assms] by (simp_all add: same_tables_def)

lemma first_candidate:
  assumes "manifest_ok pg cs"
  shows "find (\<lambda>c. candidate_id c = BOOTSTRAP_LOGICAL_ID) cs = Some (cs ! 0)"
    and "take (Suc 0) cs = [cs ! 0]" and "cs ! 0 \<in> set cs"
  using manifest_facts(2,3) [OF assms] by (cases cs; simp)+

lemma bootstrap_fresh:
  assumes "manifest_ok pg cs" and "clean cs 0 s" and "bootstrap_journal pg cs s = (r, s')"
  shows "r \<noteq> Inl MigrationPanic" and "r = Inr b \<Longrightarrow> b \<and> clean cs (Suc 0) s'" and "clean cs 0 s' \<or> clean cs (Suc 0) s'"
proof -
  let ?c = "cs ! 0"
  let ?body = "bindM (db_call ''execute_bootstrap'' (batch_execute pg (candidate_sql ?c))) (\<lambda>_.
     bindM (verify_tables pg (candidate_id ?c) (em_created_tables (mc_descriptor ?c))) (\<lambda>_.
     bindM (db_call ''journal_bootstrap'' (insert_journal pg (applied_row ?c))) (\<lambda>_. returnM True)))"
  have body: "br \<noteq> Inl MigrationPanic \<and> (\<forall>x. br = Inr x \<longrightarrow> x \<and> clean cs (Suc 0) s2)"
    if "?body s1 = (br, s2)" "same_tables s s1" for br s1 s2
    using that assms(2) first_candidate(2) [OF assms(1)] manifest_facts(2) [OF assms(1)] unfolding bindM_eq
    by (elim disjE exE conjE db_callE)
      (auto simp: batch_execute_Inr same_tables_def clean_def Suc_le_eq dest!: inserted_row verify_ends)
  have none: "\<not> pg_table pg (md_ddl (spent s)) JOURNAL_TABLE" using journal_exists(1) [OF assms(1,2)] by simp
  consider (query) code where "r = Inl (Database ''probe_migration_journal'' code)" "same_tables s s'"
    | (txn) s1 where "same_tables s s1" "db_transaction ''begin_bootstrap'' ''commit_bootstrap'' ?body s1 = (r, s')"
    using assms(3) none unfolding bootstrap_journal_def bindM_eq first_candidate(1) [OF assms(1)]
    by (auto simp: model_version_ok [OF assms(1) first_candidate(3) [OF assms(1)]] applied_row_def elim!: queryE)
  then have "r \<noteq> Inl MigrationPanic \<and> (\<forall>x. r = Inr x \<longrightarrow> x \<and> clean cs (Suc 0) s') \<and> (clean cs 0 s' \<or> clean cs (Suc 0) s')"
  proof cases
    case query
    then show ?thesis using assms(2) same_tables_states(1) by blast
  next
    case (txn s1)
    from txn(2) show ?thesis
    proof (cases rule: db_transactionE)
      case (unchanged err)
      have "same_tables s s'" using txn(1) unchanged(2) by (simp add: same_tables_def)
      moreover have "err \<noteq> MigrationPanic" using unchanged(3) body txn(1) by (auto simp: same_tables_def)
      ultimately show ?thesis using unchanged(1) assms(2) same_tables_states(1) by blast
    next
      case (committed s2 x s3)
      have "same_tables s s2" using txn(1) committed(1) by (simp add: same_tables_def)
      with body [OF committed(2)] have "x \<and> clean cs (Suc 0) s3" by simp
      with same_tables_states(1) [OF committed(3)] committed(4) show ?thesis by auto
    qed
  qed
  then show "r \<noteq> Inl MigrationPanic" "r = Inr b \<Longrightarrow> b \<and> clean cs (Suc 0) s'" "clean cs 0 s' \<or> clean cs (Suc 0) s'"
    by auto
qed

lemma bootstrap_again:
  assumes "manifest_ok pg cs" and "0 < n" and "clean cs n s \<or> unfinished cs n k s" and "bootstrap_journal pg cs s = (r, s')"
  shows "same_tables s s'" and "r = Inr False \<or> (\<exists>err. r = Inl err \<and> err \<noteq> MigrationPanic)"
proof -
  have exists: "pg_table pg (md_ddl (spent s)) JOURNAL_TABLE"
    using journal_exists [OF assms(1)] assms(2,3) by auto
  have "cs ! 0 \<in> set (take n cs)"
    using assms(2) manifest_facts(2) [OF assms(1)] by (cases cs; cases n) auto
  then have row: "list_ex (\<lambda>r. mr_logical_id r = BOOTSTRAP_LOGICAL_ID) (md_journal s1)" if "same_tables s s1" for s1
    using assms(3) that manifest_facts(3) [OF assms(1)] by (auto simp: clean_def unfinished_def same_tables_def list_ex_iff)
  have "same_tables s s' \<and> (r = Inr False \<or> (\<exists>err. r = Inl err \<and> err \<noteq> MigrationPanic))"
    using assms(4) exists unfolding bootstrap_journal_def bindM_eq
    by (elim disjE exE conjE queryE)
      (use row in \<open>auto simp: on_journal_def same_tables_def split: if_splits\<close>, use row in \<open>auto simp: bindM_eq on_journal_def same_tables_def elim!: queryE split: if_splits\<close>)
  then show "same_tables s s'" "r = Inr False \<or> (\<exists>err. r = Inl err \<and> err \<noteq> MigrationPanic)" by auto
qed

definition row_entry :: "migration_row \<Rightarrow> migration_journal_entry" where
  "row_entry r = \<lparr> mj_logical_id = mr_logical_id r, mj_provider_kind = mr_provider_kind r,
     mj_physical_checksum = mr_physical_checksum r, mj_logical_model_version = nat (mr_logical_model_version r),
     mj_state = (if mr_state r = ''applied'' then MigrationApplied
                 else if mr_state r = ''applying'' then MigrationApplying else MigrationFailed) \<rparr>"

lemma row_entry_applied: "row_entry (applied_row c) = applied_entry PROVIDER_KIND c"
  by (simp add: row_entry_def applied_row_def journal_row_def applied_entry_def)

definition readable :: "migration_row \<Rightarrow> bool" where
  "readable r \<longleftrightarrow> mr_state r \<in> {''applying'', ''applied'', ''failed''} \<and> 0 \<le> mr_logical_model_version r"

lemma read_rows:
  assumes "\<And>r. r \<in> set rows \<Longrightarrow> readable r"
  shows "foldR (\<lambda>r entries. bindR (journal_entry_of r) (\<lambda>e. Inr (entries @ [e]))) rows acc = Inr (acc @ map row_entry rows)"
  using assms
  by (induction rows arbitrary: acc) (auto simp: journal_entry_of_def row_entry_def u64_try_from_def readable_def)

lemma load_history_step:
  assumes "\<forall>r \<in> set (md_journal s). readable r" and "load_history pg s = (r, s')"
  shows "same_tables s s'" and "r \<noteq> Inl MigrationPanic" and "r = Inr h \<Longrightarrow> mset h = mset (map row_entry (md_journal s))"
proof -
  have "foldR (\<lambda>r entries. bindR (journal_entry_of r) (\<lambda>e. Inr (entries @ [e]))) (sort_key mr_logical_id (md_journal s)) []
      = Inr (map row_entry (sort_key mr_logical_id (md_journal s)))"
    using read_rows [of "sort_key mr_logical_id (md_journal s)" "[]"] assms(1) by simp
  then have "same_tables s s' \<and> r \<noteq> Inl MigrationPanic \<and> (\<forall>h. r = Inr h \<longrightarrow> mset h = mset (map row_entry (md_journal s)))"
    using assms(2) unfolding load_history_def bindM_eq
    by (elim disjE exE conjE queryE) (auto simp: on_journal_def same_tables_def split: if_splits)
  then show "same_tables s s'" "r \<noteq> Inl MigrationPanic" "r = Inr h \<Longrightarrow> mset h = mset (map row_entry (md_journal s))" by auto
qed

lemma readable_states:
  assumes "clean cs n s \<or> unfinished cs n k s" and "r \<in> set (md_journal s)"
  shows "readable r"
  using assms by (auto simp: clean_def unfinished_def readable_def)

text \<open>Only a journal without an unfinished entry is accepted.\<close>

lemma assess_clean:
  assumes "manifest_ok pg cs" and "clean cs n s" and "mset h = mset (map row_entry (md_journal s))"
    and "assess_migrations PROVIDER_KIND cs h = Inr plan"
  shows "plan = plan_after cs n"
proof -
  have h: "mset h = mset (map (applied_entry PROVIDER_KIND) (take n cs))"
    using assms(2,3) by (simp add: clean_def row_entry_applied comp_def)
  obtain k where k: "k \<le> length cs" "mset h = mset (map (applied_entry PROVIDER_KIND) (take k cs))" "plan = plan_after cs k"
    using assms(4) by (auto simp: assess_Inr)
  have "n = k" using arg_cong [OF trans [OF h [symmetric] k(2)], of size] k(1) assms(2) by (simp add: clean_def)
  with k show ?thesis by simp
qed

lemma assess_accepts_clean:
  assumes "manifest_ok pg cs" and "clean cs n s" and "mset h = mset (map row_entry (md_journal s))"
  shows "assess_migrations PROVIDER_KIND cs h = Inr (plan_after cs n)"
  using assms by (auto simp: assess_Inr clean_def row_entry_applied comp_def PROVIDER_KIND_def manifest_ok_def manifest_valid_def)

lemma assess_unfinished:
  assumes "unfinished cs n k s" and "mset h = mset (map row_entry (md_journal s))"
  shows "assess_migrations kind cs h \<noteq> Inr plan"
proof
  assume "assess_migrations kind cs h = Inr plan"
  then have "\<forall>e \<in># mset h. mj_state e = MigrationApplied"
    by (auto simp: assess_Inr applied_entry_def dest!: arg_cong [of _ _ set_mset])
  moreover have "\<exists>row \<in> set (md_journal s). mr_state row \<in> {''applying'', ''failed''}"
    using assms(1) by (auto simp: unfinished_def)
  then obtain row where "row \<in> set (md_journal s)" "mr_state row \<in> {''applying'', ''failed''}" by blast
  then have "row_entry row \<in># mset (map row_entry (md_journal s))" "mj_state (row_entry row) \<noteq> MigrationApplied"
    by (auto simp: row_entry_def)
  ultimately show False using assms(2) by auto
qed

section \<open>A run\<close>

definition report_after :: "migration_candidate list \<Rightarrow> nat \<Rightarrow> migration_report" where
  "report_after cs n = \<lparr> rp_previous_model_version = last_version 0 (take n cs),
     rp_target_model_version = last_version 0 cs, rp_applied_logical_ids = map candidate_id (drop n cs) \<rparr>"

lemma run_pending:
  assumes "manifest_ok pg cs" and "clean cs n s" and "0 < n" and "n < length cs"
    and "run_machine (perform_action pg) (new_machine (plan_after cs n)) s = (r, s')"
  shows "\<exists>m. r = Inr m \<and> (if mm_failure m = None then clean cs (length cs) s' else settled cs s')"
proof (rule run_machine_ends [OF assms(1) _ assms(5)])
  show "machine_ok cs n (new_machine (plan_after cs n)) s"
    using assms(2-4) by (simp add: machine_ok_def new_machine_def plan_after_def Let_def)
qed

text \<open>The part of \<open>migrate_locked\<close> after the bootstrap, on a journal without unfinished entries.\<close>

definition migrate_rest :: "postgres \<Rightarrow> migration_candidate list \<Rightarrow> bool \<Rightarrow> migration_report migration_step" where
  "migrate_rest pg candidates bootstrapped =
    bindM (load_history pg) (\<lambda>history.
    case assess_migrations PROVIDER_KIND candidates history of
      Inl err \<Rightarrow> failM (Assessment err)
    | Inr plan \<Rightarrow>
      let report = \<lparr> rp_previous_model_version = (if bootstrapped then 0 else mp_current_model_version plan),
            rp_target_model_version = mp_target_model_version plan,
            rp_applied_logical_ids = (if bootstrapped then [BOOTSTRAP_LOGICAL_ID] else []) \<rparr> in
      if mp_pending plan = [] then returnM report
      else bindM (run_machine (perform_action pg) (new_machine plan)) (\<lambda>m.
        case mm_failure m of
          Some failure \<Rightarrow> failM (Execution failure)
        | None \<Rightarrow> returnM (report\<lparr>rp_applied_logical_ids :=
            rp_applied_logical_ids report @ map candidate_id (mp_pending plan)\<rparr>)))"

lemma migrate_locked_rest: "migrate_locked pg cs = bindM (bootstrap_journal pg cs) (migrate_rest pg cs)"
  by (simp add: migrate_locked_def migrate_rest_def [abs_def])

lemma migrate_rest_clean:
  assumes "manifest_ok pg cs" and "clean cs n s" and "0 < n" and "b \<Longrightarrow> n = 1"
    and "migrate_rest pg cs b s = (r, s')"
  shows "r \<noteq> Inl MigrationPanic" and "settled cs s'"
    and "r = Inr report \<Longrightarrow> clean cs (length cs) s' \<and> report = report_after cs (if b then 0 else n)"
proof -
  let ?plan = "plan_after cs n"
  have ids: "map candidate_id cs = BOOTSTRAP_LOGICAL_ID # map candidate_id (drop 1 cs)"
    using manifest_facts(2,3) [OF assms(1)] by (cases cs) auto
  have whole: "report_after cs (if b then 0 else n) = \<lparr> rp_previous_model_version = (if b then 0 else last_version 0 (take n cs)),
      rp_target_model_version = last_version 0 cs,
      rp_applied_logical_ids = (if b then [BOOTSTRAP_LOGICAL_ID] else []) @ map candidate_id (drop n cs) \<rparr>"
    using assms(4) ids by (auto simp: report_after_def last_version_def)
  obtain hr s1 where load: "load_history pg s = (hr, s1)" by force
  have readable: "\<forall>row \<in> set (md_journal s). readable row"
    using readable_states [OF disjI1 [OF assms(2)]] by blast
  note h = load_history_step [OF readable load]
  have s1: "clean cs n s1" using same_tables_states(1) [OF h(1)] assms(2) by simp
  have "r \<noteq> Inl MigrationPanic \<and> settled cs s'
      \<and> (\<forall>report. r = Inr report \<longrightarrow> clean cs (length cs) s' \<and> report = report_after cs (if b then 0 else n))"
  proof (cases hr)
    case (Inl err)
    with assms(5) load h(2) s1 show ?thesis by (auto simp: migrate_rest_def bindM_def clean_settled)
  next
    case (Inr history)
    note plan = assess_accepts_clean [OF assms(1,2) h(3) [OF Inr]]
    show ?thesis
    proof (cases "n = length cs")
      case True
      with assms(5) load Inr plan s1 show ?thesis
        by (auto simp: migrate_rest_def bindM_def plan_after_def whole clean_settled)
    next
      case False
      with s1 have n: "n < length cs" by (simp add: clean_def)
      obtain mr s2 where run: "run_machine (perform_action pg) (new_machine ?plan) s1 = (mr, s2)" by force
      from run_pending [OF assms(1) s1 assms(3) n run] obtain m where
        m: "mr = Inr m" "if mm_failure m = None then clean cs (length cs) s2 else settled cs s2" by auto
      have "(case mm_failure m of Some failure \<Rightarrow> failM (Execution failure)
          | None \<Rightarrow> returnM (report_after cs (if b then 0 else n))) s2 = (r, s')"
        using assms(5) load Inr plan n run m(1) unfolding whole
        by (simp add: migrate_rest_def bindM_def plan_after_def Let_def split: option.splits)
      with m(2) show ?thesis by (auto simp: clean_settled split: option.splits)
    qed
  qed
  then show "r \<noteq> Inl MigrationPanic" "settled cs s'"
    "r = Inr report \<Longrightarrow> clean cs (length cs) s' \<and> report = report_after cs (if b then 0 else n)" by auto
qed

lemma migrate_rest_unfinished:
  assumes "unfinished cs n k s" and "migrate_rest pg cs b s = (r, s')"
  shows "same_tables s s'" and "\<exists>err. r = Inl err \<and> err \<noteq> MigrationPanic"
proof -
  obtain hr s1 where load: "load_history pg s = (hr, s1)" by force
  have readable: "\<forall>row \<in> set (md_journal s). readable row"
    using readable_states [OF disjI2 [OF assms(1)]] by blast
  note h = load_history_step [OF readable load]
  have "same_tables s s' \<and> (\<exists>err. r = Inl err \<and> err \<noteq> MigrationPanic)"
  proof (cases hr)
    case (Inl err)
    with assms(2) load h(1,2) show ?thesis by (auto simp: migrate_rest_def bindM_def)
  next
    case (Inr history)
    with assess_unfinished [OF assms(1) h(3) [OF Inr]] obtain err where
      "assess_migrations PROVIDER_KIND cs history = Inl err"
      by (cases "assess_migrations PROVIDER_KIND cs history") auto
    with assms(2) load h(1) Inr show ?thesis by (auto simp: migrate_rest_def bindM_def)
  qed
  then show "same_tables s s'" "\<exists>err. r = Inl err \<and> err \<noteq> MigrationPanic" by auto
qed

lemma migrate_locked_ends:
  assumes "manifest_ok pg cs" and "settled cs s" and "migrate_locked pg cs s = (r, s')"
  shows "r \<noteq> Inl MigrationPanic" and "settled cs s'"
    and "r = Inr report \<Longrightarrow> \<exists>n. clean cs n s \<and> clean cs (length cs) s' \<and> report = report_after cs n"
    and "unfinished cs n k s \<Longrightarrow> same_tables s s' \<and> (\<exists>err. r = Inl err)"
proof -
  obtain br s1 where boot: "bootstrap_journal pg cs s = (br, s1)" by force
  have after: "r = Inl err" "s' = s1" if "br = Inl err" for err
    using assms(3) boot that by (simp_all add: migrate_locked_rest bindM_def)
  have rest: "migrate_rest pg cs b s1 = (r, s')" if "br = Inr b" for b
    using assms(3) boot that by (simp add: migrate_locked_rest bindM_def)
  have fresh: "r \<noteq> Inl MigrationPanic \<and> settled cs s'
      \<and> (\<forall>report. r = Inr report \<longrightarrow> clean cs (length cs) s' \<and> report = report_after cs 0)" if "clean cs 0 s"
  proof (cases br)
    case (Inl err)
    with bootstrap_fresh [OF assms(1) that boot] after show ?thesis by (auto dest: clean_settled)
  next
    case (Inr b)
    with bootstrap_fresh(2) [OF assms(1) that boot] have b: "b" "clean cs 1 s1" by auto
    show ?thesis using migrate_rest_clean [OF assms(1) b(2) _ _ rest [OF Inr]] b(1) by auto
  qed
  have later: "r \<noteq> Inl MigrationPanic \<and> settled cs s'
      \<and> (\<forall>report. r = Inr report \<longrightarrow> clean cs (length cs) s' \<and> report = report_after cs n)" if "clean cs n s" "0 < n" for n
  proof -
    note again = bootstrap_again [OF assms(1) that(2) disjI1 [OF that(1)] boot]
    have s1: "clean cs n s1" using same_tables_states(1) [OF again(1)] that(1) by simp
    show ?thesis
    proof (cases br)
      case (Inl err)
      with again(2) after s1 show ?thesis by (auto dest: clean_settled)
    next
      case (Inr b)
      with again(2) have "\<not> b" by auto
      then show ?thesis using migrate_rest_clean [OF assms(1) s1 that(2) _ rest [OF Inr]] by auto
    qed
  qed
  have left: "r \<noteq> Inl MigrationPanic \<and> same_tables s s' \<and> (\<exists>err. r = Inl err)" if u: "unfinished cs n k s" for n k
  proof -
    have "0 < n" using u by (simp add: unfinished_def)
    note again = bootstrap_again [OF assms(1) this disjI2 [OF u] boot]
    have s1: "unfinished cs n k s1" using same_tables_states(3) [OF again(1)] u by simp
    show ?thesis
    proof (cases br)
      case (Inl err)
      with again after show ?thesis by auto
    next
      case (Inr b)
      from migrate_rest_unfinished [OF s1 rest [OF Inr]] again(1) show ?thesis by (auto simp: same_tables_def)
    qed
  qed
  have ends: "r \<noteq> Inl MigrationPanic \<and> settled cs s'
      \<and> (\<forall>report. r = Inr report \<longrightarrow> (\<exists>n. clean cs n s \<and> clean cs (length cs) s' \<and> report = report_after cs n))"
    using assms(2) unfolding settled_def [of cs s]
  proof (elim disjE exE)
    fix n assume "clean cs n s"
    then show ?thesis using fresh later by (cases "n = 0") auto
  next
    fix n k assume "unfinished cs n k s"
    then show ?thesis using left [of n k] same_tables_states(4) [of s s' cs] assms(2) by auto
  qed
  then show "r \<noteq> Inl MigrationPanic" "settled cs s'"
    "r = Inr report \<Longrightarrow> \<exists>n. clean cs n s \<and> clean cs (length cs) s' \<and> report = report_after cs n" by auto
  show "unfinished cs n k s \<Longrightarrow> same_tables s s' \<and> (\<exists>err. r = Inl err)" using left by blast
qed

lemma release_lock_ends:
  assumes "release_lock s = (r, s')"
  shows "same_tables s s'" and "r \<noteq> Inl MigrationPanic"
proof -
  have "same_tables s s' \<and> r \<noteq> Inl MigrationPanic"
    using assms unfolding release_lock_def bindM_eq
    by (elim disjE exE conjE db_callE) (auto simp: same_tables_def split: if_splits)
  then show "same_tables s s'" "r \<noteq> Inl MigrationPanic" by auto
qed

text \<open>Outside \<open>migrate_locked\<close>, a run only takes and releases the lock.\<close>

lemma migrate_cases:
  assumes "migrate pg cs schema s = (r, s')"
  obtains (stopped) err where "r = Inl err" and "err \<noteq> MigrationPanic" and "same_tables s s'"
  | (ran) s1 lr s2 where "same_tables s s1" and "migrate_locked pg cs s1 = (lr, s2)" and "same_tables s2 s'"
      and "r = lr \<or> (\<exists>report err. lr = Inr report \<and> r = Inl err \<and> err \<noteq> MigrationPanic)"
proof -
  let ?locked = "\<lambda>s. case migrate_locked pg cs s of
      (Inl MigrationPanic, s') \<Rightarrow> (Inl MigrationPanic, s')
    | (Inl err, s') \<Rightarrow> (Inl err, snd (release_lock s'))
    | (Inr report, s') \<Rightarrow> (case release_lock s' of
          (Inl err, s'') \<Rightarrow> (Inl err, s'')
        | (Inr _, s'') \<Rightarrow> (Inr report, s''))"
  consider (before) err where "r = Inl err" "err \<noteq> MigrationPanic" "same_tables s s'"
    | (locked) s1 where "same_tables s s1" "?locked s1 = (r, s')"
  proof (cases "schema = DEFAULT_SCHEMA")
    case False
    with assms have "r = Inl (UnsupportedSchema schema)" "s' = s"
      by (simp_all add: migrate_def validate_config_def bindM_def failM_def)
    with before show thesis by (simp add: same_tables_def)
  next
    case True
    then have m: "bindM configure_session (\<lambda>_. bindM acquire_lock (\<lambda>_. ?locked)) s = (r, s')"
      using assms by (simp add: migrate_def validate_config_def)
    obtain cr s0 where c: "configure_session s = (cr, s0)" by force
    obtain ar s1 where a: "acquire_lock s0 = (ar, s1)" by force
    have c': "same_tables s s0" "cr \<noteq> Inl MigrationPanic"
      using c unfolding configure_session_def by (auto elim!: queryE)
    have a': "same_tables s0 s1 \<and> ar \<noteq> Inl MigrationPanic"
      using a unfolding acquire_lock_def by (elim db_callE) (auto simp: same_tables_def)
    have "same_tables s s1" using c'(1) a' by (simp add: same_tables_def)
    show thesis
    proof (cases cr)
      case (Inl err)
      with m c c' before show thesis by (auto simp: bindM_def)
    next
      case cfg: (Inr u)
      show thesis
      proof (cases ar)
        case (Inl err)
        with m c a cfg a' \<open>same_tables s s1\<close> before show thesis by (auto simp: bindM_def)
      next
        case (Inr v)
        have "?locked s1 = (r, s')" using m c a cfg Inr by (simp add: bindM_def)
        with \<open>same_tables s s1\<close> locked show thesis by blast
      qed
    qed
  qed
  then show thesis
  proof cases
    case before
    then show thesis using stopped by blast
  next
    case (locked s1)
    obtain lr s2 where run: "migrate_locked pg cs s1 = (lr, s2)" by force
    obtain rr s3 where release: "release_lock s2 = (rr, s3)" by force
    have "same_tables s2 s2" by (simp add: same_tables_def)
    with locked(2) run release release_lock_ends [OF release]
    have "same_tables s2 s'" "r = lr \<or> (\<exists>report err. lr = Inr report \<and> r = Inl err \<and> err \<noteq> MigrationPanic)"
      by (auto split: sum.splits migration_error.splits)
    with locked(1) run ran show thesis by blast
  qed
qed

lemma same_tables_trans: "same_tables a b \<Longrightarrow> same_tables b c \<Longrightarrow> same_tables a c"
  by (simp add: same_tables_def)

lemma migrate_ends:
  assumes "manifest_ok pg cs" and "settled cs s" and "migrate pg cs schema s = (r, s')"
  shows "r \<noteq> Inl MigrationPanic" and "settled cs s'"
    and "r = Inr report \<Longrightarrow> \<exists>n. clean cs n s \<and> clean cs (length cs) s' \<and> report = report_after cs n"
    and "unfinished cs n k s \<Longrightarrow> same_tables s s' \<and> (\<exists>err. r = Inl err)"
proof -
  have "r \<noteq> Inl MigrationPanic \<and> settled cs s'
    \<and> (\<forall>report. r = Inr report \<longrightarrow> (\<exists>n. clean cs n s \<and> clean cs (length cs) s' \<and> report = report_after cs n))
    \<and> (unfinished cs n k s \<longrightarrow> same_tables s s' \<and> (\<exists>err. r = Inl err))" for n k
    using assms(3)
  proof (cases rule: migrate_cases)
    case (stopped err)
    then show ?thesis using same_tables_states(4) assms(2) by auto
  next
    case (ran s1 lr s2)
    have s1: "settled cs s1" using same_tables_states(4) [OF ran(1)] assms(2) by simp
    note ends = migrate_locked_ends [OF assms(1) s1 ran(2)]
    have same: "same_tables s s'" if "same_tables s1 s2"
      using ran(1,3) that by (simp add: same_tables_def)
    from ran(4) show ?thesis
    proof (elim disjE exE conjE)
      assume "r = lr"
      with ends(1,2) show ?thesis
        by (auto simp: same_tables_states(1,3) [OF ran(1), symmetric] same_tables_states(1,4) [OF ran(3)]
            dest!: ends(3,4) intro: same)
    next
      fix report err assume lr: "lr = Inr report" "r = Inl err" "err \<noteq> MigrationPanic"
      then have "\<not> unfinished cs n k s" using ends(4) same_tables_states(3) [OF ran(1)] by auto
      with lr ends(2) show ?thesis by (simp add: same_tables_states(4) [OF ran(3)])
    qed
  qed
  then show "r \<noteq> Inl MigrationPanic" "settled cs s'"
    "r = Inr report \<Longrightarrow> \<exists>n. clean cs n s \<and> clean cs (length cs) s' \<and> report = report_after cs n"
    "unfinished cs n k s \<Longrightarrow> same_tables s s' \<and> (\<exists>err. r = Inl err)" by blast+
qed

text \<open>Any number of runs from a database without tables, with any configuration and any faults.\<close>

inductive migration_history :: "postgres \<Rightarrow> migration_candidate list \<Rightarrow> migration_db \<Rightarrow> bool"
  for pg cs where
  fresh: "md_journal s = [] \<Longrightarrow> md_ddl s = [] \<Longrightarrow> migration_history pg cs s"
| run: "migration_history pg cs s \<Longrightarrow> md_journal s1 = md_journal s \<Longrightarrow> md_ddl s1 = md_ddl s
    \<Longrightarrow> migrate pg cs schema s1 = (r, s2) \<Longrightarrow> migration_history pg cs s2"

lemma history_settled:
  assumes "manifest_ok pg cs" and "migration_history pg cs s"
  shows "settled cs s"
  using assms(2)
proof induction
  case (fresh s)
  then have "clean cs 0 s" by (simp add: clean_def)
  then show ?case by (rule clean_settled)
next
  case (run s s1 schema r s2)
  have "settled cs s1" using same_tables_states(4) [of s s1 cs] run by (simp add: same_tables_def)
  from migrate_ends(2) [OF assms(1) this run.hyps(4)] show ?case .
qed

end
