(* ===== verification/MigrationProgress.thy ===== *)
theory MigrationProgress
  imports MigrationSafety
begin

text \<open>
  The properties of \<open>migrate\<close>: over any number of runs and whatever calls fail, every migration takes
  effect at most once and in order; a run that succeeds has applied all; a run that meets an unfinished
  migration changes nothing; a run without faults on accepted texts succeeds.
\<close>

section \<open>Without faults\<close>

definition calm :: "migration_db \<Rightarrow> bool" where
  "calm s \<longleftrightarrow> md_faults s = [] \<and> 0 < md_lock s"

lemma calm_call:
  assumes "md_faults s = []"
  shows "db_call op f s = (case f s of Inl sqlstate \<Rightarrow> (Inl (Database op (Some sqlstate)), s) | Inr (x, s') \<Rightarrow> (Inr x, s'))"
    and "query op g s = (case g s of Inl sqlstate \<Rightarrow> (Inl (Database op (Some sqlstate)), s) | Inr x \<Rightarrow> (Inr x, s))"
proof -
  have "spent s = s" using assms by (cases s) (simp add: spent_def)
  with assms show "db_call op f s = (case f s of Inl sqlstate \<Rightarrow> (Inl (Database op (Some sqlstate)), s) | Inr (x, s') \<Rightarrow> (Inr x, s'))"
    "query op g s = (case g s of Inl sqlstate \<Rightarrow> (Inl (Database op (Some sqlstate)), s) | Inr x \<Rightarrow> (Inr x, s))"
    by (simp_all add: db_call_def query_def next_fault_def bindR_def split: sum.splits)
qed

lemma calm_transaction:
  assumes "md_faults s = []" and "body s = (Inr x, s')" and "md_faults s' = []"
  shows "db_transaction b c body s = (Inr x, s')"
proof -
  have "spent s' = s'" using assms by (cases s') (simp add: spent_def)
  with assms show ?thesis by (simp add: db_transaction_def bindM_def calm_call next_fault_def)
qed

text \<open>Every text is accepted after those before it and creates its tables.\<close>

definition texts_accepted :: "postgres \<Rightarrow> migration_candidate list \<Rightarrow> bool" where
  "texts_accepted pg cs \<longleftrightarrow> list_all (\<lambda>n. pg_reject pg (map candidate_sql (take n cs)) (candidate_sql (cs ! n)) = None
     \<and> list_all (pg_table pg (map candidate_sql (take (Suc n) cs))) (em_created_tables (mc_descriptor (cs ! n))))
     [0..<length cs]"

lemma accepted:
  assumes "texts_accepted pg cs" and "n < length cs"
  shows "pg_reject pg (map candidate_sql (take n cs)) (candidate_sql (cs ! n)) = None"
    and "list_all (pg_table pg (map candidate_sql (take (Suc n) cs))) (em_created_tables (mc_descriptor (cs ! n)))"
  using assms by (auto simp: texts_accepted_def list_all_iff)

lemma calm_verify:
  assumes "md_faults s = []" and "list_all (pg_table pg (md_ddl s)) tables"
  shows "verify_tables pg i tables s = (Inr (), s)"
  using assms by (induction tables) (simp_all add: returnM_def bindM_def calm_call)

lemma calm_insert:
  assumes "manifest_ok pg cs" and "n < length cs" and "pg_table pg (md_ddl s) JOURNAL_TABLE"
    and "md_journal s = map applied_row (take n cs)"
    and "mr_logical_id row = candidate_id (cs ! n)" and "mr_logical_model_version row = int (candidate_version (cs ! n))"
  shows "insert_journal pg row s = Inr ((), s\<lparr>md_journal := md_journal s @ [row]\<rparr>)"
  using assms(3-6) new_id [OF assms(1,2)] manifest_facts(4) [OF assms(1) nth_mem [OF assms(2)]]
  by (auto simp: insert_journal_def on_journal_def list_ex_iff image_iff)

lemma calm_end:
  assumes "opened cs n k s" and "pg_table pg (md_ddl s) JOURNAL_TABLE"
  shows "\<exists>s'. end_applying pg (candidate_id (cs ! n)) state code s = Inr (1, s')
    \<and> md_faults s' = md_faults s \<and> md_lock s' = md_lock s"
proof -
  obtain u s' where e: "end_applying pg (candidate_id (cs ! n)) state code s = Inr (u, s')"
    using assms(2) by (simp add: end_applying_def on_journal_def)
  from end_applying_Inr(2) [OF e assms(1)] e show ?thesis by auto
qed

text \<open>An action before a failure succeeds.\<close>

lemma calm_action:
  assumes "manifest_ok pg cs" and "texts_accepted pg cs" and "machine_ok cs n m s" and "calm s"
    and "mm_failure m = None" and "next_action m = Inr (Some action)"
  shows "\<exists>s'. perform_action pg m action s = (Inr (), s') \<and> calm s' \<and> md_lock s' = md_lock s"
proof -
  let ?i = "n + mm_current_index m"
  have faults: "md_faults s = []" using assms(4) by (simp add: calm_def)
  have at: "mm_pending m ! mm_current_index m = cs ! ?i" if "?i < length cs"
    using assms(3) that by (auto simp: machine_ok_def)
  show ?thesis
  proof (cases "mm_phase m")
    case PhStartJournal
    with assms(3) have i: "?i < length cs" "clean cs ?i s" "0 < ?i" by (auto simp: machine_ok_def Let_def)
    have "insert_journal pg (opened_row (cs ! ?i)) s = Inr ((), s\<lparr>md_journal := md_journal s @ [opened_row (cs ! ?i)]\<rparr>)"
      using i by (intro calm_insert [OF assms(1) i(1)]) (simp_all add: journal_exists(1) [OF assms(1) i(2)], simp add: clean_def)
    with assms(4,6) PhStartJournal at [OF i(1)] show ?thesis
      by (auto simp: next_action_def candidate_action_def perform_action_def start_journal_def calm_def
          model_version_ok [OF assms(1) nth_mem [OF i(1)]] calm_call [OF faults] opened_row_def split: if_splits)
  next
    case PhExecuteSql
    with assms(3) have i: "opened cs ?i ?i s" by (auto simp: machine_ok_def Let_def)
    note lt = opened_lt [OF i]
    have "db_call ''execute_migration_ddl'' (batch_execute pg (candidate_sql (cs ! ?i))) s
        = (Inr (), s\<lparr>md_ddl := md_ddl s @ [candidate_sql (cs ! ?i)]\<rparr>)"
      using accepted(1) [OF assms(2) lt] i by (simp add: calm_call [OF faults] batch_execute_def opened_def)
    from calm_transaction [where body = "db_call ''execute_migration_ddl'' (batch_execute pg (candidate_sql (cs ! ?i)))", OF faults this] have "execute_sql pg (cs ! ?i) s = (Inr (), s\<lparr>md_ddl := md_ddl s @ [candidate_sql (cs ! ?i)]\<rparr>)"
      using faults by (simp add: execute_sql_def)
    with assms(4,6) PhExecuteSql at [OF lt] show ?thesis
      by (auto simp: next_action_def candidate_action_def perform_action_def calm_def split: if_splits)
  next
    case PhVerifySchema
    with assms(3) have i: "opened cs ?i (Suc ?i) s" by (auto simp: machine_ok_def Let_def)
    note lt = opened_lt [OF i]
    have "list_all (pg_table pg (md_ddl s)) (em_created_tables (mc_descriptor (cs ! ?i)))"
      using accepted(2) [OF assms(2) lt] i by (simp add: opened_def)
    from calm_verify [OF faults this] have "verify_schema pg (cs ! ?i) s = (Inr (), s)" by (simp add: verify_schema_def)
    with assms(4,6) PhVerifySchema at [OF lt] show ?thesis
      by (auto simp: next_action_def candidate_action_def perform_action_def split: if_splits)
  next
    case PhMarkApplied
    with assms(3) have i: "opened cs ?i (Suc ?i) s" by (auto simp: machine_ok_def Let_def)
    note lt = opened_lt [OF i]
    from calm_end [OF i journal_exists(2) [OF assms(1) i]] obtain s' where
      "end_applying pg (candidate_id (cs ! ?i)) ''applied'' None s = Inr (1, s')" "md_faults s' = md_faults s" "md_lock s' = md_lock s"
      by blast
    then have "mark_applied pg (cs ! ?i) s = (Inr (), s')" "calm s'" "md_lock s' = md_lock s"
      using assms(4) by (simp_all add: mark_applied_def bindM_def calm_call [OF faults] calm_def returnM_def)
    with assms(6) PhMarkApplied at [OF lt] show ?thesis
      by (auto simp: next_action_def candidate_action_def perform_action_def split: if_splits)
  next
    case PhMarkFailed
    with assms(3,5) show ?thesis by (simp add: machine_ok_def Let_def)
  qed (use assms(4,6) in \<open>auto simp: next_action_def perform_action_def\<close>)
qed

lemma success_keeps_failure: "report_success m = Inr m' \<Longrightarrow> mm_failure m' = mm_failure m"
  by (auto simp: report_success_def split: phase.splits)

lemma calm_machine:
  assumes "manifest_ok pg cs" and "texts_accepted pg cs" and "machine_ok cs n m s" and "calm s" and "mm_failure m = None"
  shows "\<exists>m' s'. run_machine (perform_action pg) m s = (Inr m', s') \<and> mm_failure m' = None \<and> calm s' \<and> md_lock s' = md_lock s"
  using assms(3-5)
proof (induction m arbitrary: s rule: measure_induct_rule [of machine_rank])
  case (less m)
  have "\<exists>next. next_action m = Inr next" using less.prems(1)
    by (auto simp: next_action_def candidate_action_def machine_ok_def Let_def opened_def split: phase.splits)
  then consider (over) "next_action m = Inr None" | (act) action where "next_action m = Inr (Some action)"
    by (metis option.exhaust)
  then show ?case
  proof cases
    case over
    with less.prems show ?thesis by (simp add: run_machine_steps(1))
  next
    case act
    from calm_action [OF assms(1,2) less.prems act] obtain s1 where
      p: "perform_action pg m action s = (Inr (), s1)" "calm s1" "md_lock s1 = md_lock s" by blast
    from perform_step [OF assms(1) less.prems(1) act] p(1) obtain m' where
      m': "report_success m = Inr m'" "machine_ok cs n m' s1" by (auto simp: step_ok_def)
    have "mm_failure m' = None" using success_keeps_failure [OF m'(1)] less.prems(3) by simp
    from less.IH [OF machine_rank_report(1) [OF act m'(1)] m'(2) p(2) this] p(3)
      run_machine_steps(2) [where perform = "perform_action pg", OF act p(1) m'(1)]
    show ?thesis by simp
  qed
qed

lemma calm_bootstrap:
  assumes "manifest_ok pg cs" and "texts_accepted pg cs" and "clean cs n s" and "calm s"
  shows "\<exists>s'. bootstrap_journal pg cs s = (Inr (n = 0), s') \<and> clean cs (max 1 n) s' \<and> calm s' \<and> md_lock s' = md_lock s"
proof (cases "n = 0")
  case True
  have faults: "md_faults s = []" using assms(4) by (simp add: calm_def)
  let ?c = "cs ! 0" and ?s = "s\<lparr>md_ddl := [candidate_sql (cs ! 0)]\<rparr>"
  have one: "0 < length cs" using manifest_facts(2) [OF assms(1)] .
  have s: "md_journal s = []" "md_ddl s = []" using assms(3) True by (simp_all add: clean_def)
  have table: "pg_table pg [candidate_sql ?c] JOURNAL_TABLE" "\<not> pg_table pg [] JOURNAL_TABLE"
    using manifest_facts(5) [OF assms(1), of 1] manifest_facts(5) [OF assms(1), of 0] one first_candidate(2) [OF assms(1)] by auto
  let ?body = "bindM (db_call ''execute_bootstrap'' (batch_execute pg (candidate_sql ?c))) (\<lambda>_.
     bindM (verify_tables pg (candidate_id ?c) (em_created_tables (mc_descriptor ?c))) (\<lambda>_.
     bindM (model_version ?c) (\<lambda>v.
     bindM (db_call ''journal_bootstrap'' (insert_journal pg (journal_row ?c v ''applied''))) (\<lambda>_. returnM True))))"
  have "batch_execute pg (candidate_sql ?c) s = Inr ((), ?s)"
    using accepted(1) [OF assms(2) one] s by (simp add: batch_execute_def)
  moreover have "verify_tables pg (candidate_id ?c) (em_created_tables (mc_descriptor ?c)) ?s = (Inr (), ?s)"
    using accepted(2) [OF assms(2) one] faults first_candidate(2) [OF assms(1)] by (intro calm_verify) simp_all
  moreover have "insert_journal pg (applied_row ?c) ?s = Inr ((), ?s\<lparr>md_journal := [applied_row ?c]\<rparr>)"
    using calm_insert [OF assms(1) one, of ?s "applied_row ?c"] table(1) s by simp
  ultimately have "?body s = (Inr True, ?s\<lparr>md_journal := [applied_row ?c]\<rparr>)"
    using faults model_version_ok [OF assms(1) nth_mem [OF one]]
    by (simp add: bindM_def calm_call returnM_def applied_row_def)
  from calm_transaction [where body = ?body, OF faults this] faults
  have "bootstrap_journal pg cs s = (Inr True, ?s\<lparr>md_journal := [applied_row ?c]\<rparr>)"
    using s table(2) first_candidate(1) [OF assms(1)] by (simp add: bootstrap_journal_def bindM_def [of "query _ _"] calm_call)
  with True assms(4) one first_candidate(2) [OF assms(1)] show ?thesis by (simp add: clean_def calm_def Suc_le_eq)
next
  case False
  have faults: "md_faults s = []" using assms(4) by (simp add: calm_def)
  have "cs ! 0 \<in> set (take n cs)" using False manifest_facts(2) [OF assms(1)] by (cases cs; cases n) auto
  then have "list_ex (\<lambda>r. mr_logical_id r = BOOTSTRAP_LOGICAL_ID) (md_journal s)"
    using assms(3) manifest_facts(3) [OF assms(1)] by (auto simp: clean_def list_ex_iff)
  then have "bootstrap_journal pg cs s = (Inr False, s)"
    using False journal_exists(1) [OF assms(1,3)] faults
    by (simp add: bootstrap_journal_def bindM_def calm_call on_journal_def returnM_def)
  with False assms(3,4) show ?thesis by (simp add: max_def)
qed

lemma calm_rest:
  assumes "manifest_ok pg cs" and "texts_accepted pg cs" and "clean cs n s" and "0 < n" and "calm s" and "b \<Longrightarrow> n = 1"
  shows "\<exists>report s'. migrate_rest pg cs b s = (Inr report, s') \<and> calm s' \<and> md_lock s' = md_lock s"
proof -
  have faults: "md_faults s = []" using assms(5) by (simp add: calm_def)
  have readable: "\<forall>row \<in> set (md_journal s). readable row" using readable_states [OF disjI1 [OF assms(3)]] by blast
  have "pg_table pg (md_ddl s) JOURNAL_TABLE" using journal_exists(1) [OF assms(1,3)] assms(4) by simp
  then have load: "load_history pg s = (Inr (map row_entry (sort_key mr_logical_id (md_journal s))), s)"
    using readable read_rows [of "sort_key mr_logical_id (md_journal s)" "[]"]
    by (simp add: load_history_def bindM_def calm_call [OF faults] on_journal_def returnM_def)
  have plan: "assess_migrations PROVIDER_KIND cs (map row_entry (sort_key mr_logical_id (md_journal s))) = Inr (plan_after cs n)"
    using assess_accepts_clean [OF assms(1,3)] by simp
  show ?thesis
  proof (cases "n = length cs")
    case True
    with load plan assms(5) show ?thesis by (simp add: migrate_rest_def bindM_def plan_after_def returnM_def)
  next
    case False
    with assms(3) have n: "n < length cs" by (simp add: clean_def)
    have "machine_ok cs n (new_machine (plan_after cs n)) s" "mm_failure (new_machine (plan_after cs n)) = None"
      using assms(3,4) n by (simp_all add: machine_ok_def new_machine_def plan_after_def Let_def)
    from calm_machine [OF assms(1,2) this(1) assms(5) this(2)] obtain m' s' where
      "run_machine (perform_action pg) (new_machine (plan_after cs n)) s = (Inr m', s')" "mm_failure m' = None"
      "calm s'" "md_lock s' = md_lock s" by blast
    with load plan n show ?thesis
      by (simp add: migrate_rest_def bindM_def plan_after_def returnM_def Let_def)
  qed
qed

lemma calm_migrate:
  assumes "manifest_ok pg cs" and "texts_accepted pg cs" and "clean cs n s" and "md_faults s = []"
  shows "\<exists>report s'. migrate pg cs DEFAULT_SCHEMA s = (Inr report, s') \<and> md_lock s' = md_lock s"
proof -
  let ?s = "s\<lparr>md_lock := md_lock s + 1\<rparr>"
  have s: "clean cs n ?s" "calm ?s" using assms(3,4) by (simp_all add: clean_def calm_def)
  from calm_bootstrap [OF assms(1,2) s] obtain s1 where
    boot: "bootstrap_journal pg cs ?s = (Inr (n = 0), s1)" "clean cs (max 1 n) s1" "calm s1" "md_lock s1 = md_lock s + 1"
    by auto
  have "\<exists>report s'. migrate_rest pg cs (n = 0) s1 = (Inr report, s') \<and> calm s' \<and> md_lock s' = md_lock s1"
    by (rule calm_rest [OF assms(1,2) boot(2) _ boot(3)]) auto
  then obtain report s2 where
    rest: "migrate_rest pg cs (n = 0) s1 = (Inr report, s2)" "calm s2" "md_lock s2 = md_lock s + 1"
    using boot(4) by auto
  have locked: "migrate_locked pg cs ?s = (Inr report, s2)" using boot rest by (simp add: migrate_locked_rest bindM_def)
  have release: "release_lock s2 = (Inr (), s2\<lparr>md_lock := md_lock s\<rparr>)"
    using rest by (simp add: release_lock_def bindM_def calm_def calm_call returnM_def)
  have "migrate pg cs DEFAULT_SCHEMA s = (Inr report, s2\<lparr>md_lock := md_lock s\<rparr>)"
    using assms(4) locked release
    by (simp add: migrate_def validate_config_def configure_session_def acquire_lock_def bindM_def [of "query _ _"]
        bindM_def [of "db_call _ _"] calm_call)
  then show ?thesis by simp
qed

section \<open>Examples\<close>

text \<open>
  Two migrations, each creating the table that its text names, on an empty database, and the state after
  a run in which the thirteenth call, the commit of the second migration, fails.
\<close>

definition sample_pg :: postgres where
  "sample_pg = \<lparr> pg_table = (\<lambda>ddl t. t \<in> set ddl), pg_reject = (\<lambda>ddl sql. None) \<rparr>"

definition sample_text :: "string \<Rightarrow> string" where
  "sample_text i = (if i = BOOTSTRAP_LOGICAL_ID then JOURNAL_TABLE else ''runs'')"

definition sample_migrations :: "migration_candidate list" where
  "sample_migrations = migration_candidates (\<lambda>_. 7)
     [embedded sample_text ''0000_migration_meta'' 1 [''schema_migrations''], embedded sample_text ''0001_core'' 2 [''runs'']]"

definition empty_schema :: "fault option list \<Rightarrow> migration_db" where
  "empty_schema faults = \<lparr> md_journal = [], md_ddl = [], md_lock = 0, md_faults = faults \<rparr>"

definition sample_left :: migration_db where
  "sample_left = snd (migrate sample_pg sample_migrations DEFAULT_SCHEMA
     (empty_schema (replicate 12 None @ [Some (FailsBefore (Some ''53100''))])))"

lemma sample_manifest: "manifest_ok sample_pg sample_migrations" "texts_accepted sample_pg sample_migrations"
  by code_simp+

lemma sample_history:
  "migration_history sample_pg sample_migrations (empty_schema faults)"
  "migration_history sample_pg sample_migrations sample_left"
proof -
  show fresh: "migration_history sample_pg sample_migrations (empty_schema faults)" for faults
    by (rule migration_history.fresh) (simp_all add: empty_schema_def)
  show "migration_history sample_pg sample_migrations sample_left"
    unfolding sample_left_def by (rule migration_history.run [OF fresh refl refl]) (simp add: prod_eq_iff)
qed

lemma sample_left_state:
  "map mr_state (md_journal sample_left) = [''applied'', ''failed'']" "md_ddl sample_left = [JOURNAL_TABLE]"
  "md_faults sample_left = []"
  by code_simp+

section \<open>The properties\<close>

text \<open>
  C32: start from a database without tables and run the migrations any number of times, with any
  configuration and any calls failing before or after they took effect. Then the texts the schema was
  built from are those of a prefix of the manifest, each once and in order, and the journal names every
  one of them and at most the next migration; when all its entries are applied it names exactly these.
\<close>

theorem migrations_take_effect_once:
  assumes "manifest_ok pg cs" and "migration_history pg cs s"
  shows "\<exists>n m. n \<le> m \<and> m \<le> Suc n \<and> m \<le> length cs \<and> md_ddl s = map candidate_sql (take n cs)
    \<and> map mr_logical_id (md_journal s) = map candidate_id (take m cs)
    \<and> (list_all (\<lambda>r. mr_state r = ''applied'') (md_journal s) \<longrightarrow> n = m)"
  using history_settled [OF assms] unfolding settled_def
proof (elim disjE exE)
  fix n assume "clean cs n s"
  then show ?thesis by (intro exI [of _ n]) (simp add: clean_def comp_def)
next
  fix n k assume u: "unfinished cs n k s"
  then have ids: "map mr_logical_id (md_journal s) = map candidate_id (take (Suc n) cs)"
    by (auto simp: unfinished_def take_Suc_conv_app_nth comp_def)
  have "\<not> list_all (\<lambda>r. mr_state r = ''applied'') (md_journal s)" using u by (auto simp: unfinished_def)
  with ids u show ?thesis by (intro exI [of _ k] exI [of _ "Suc n"]) (auto simp: unfinished_def)
qed

theorem migrations_take_effect_once_witness:
  "\<exists>n m. n \<le> m \<and> m \<le> Suc n \<and> m \<le> length sample_migrations \<and> md_ddl sample_left = map candidate_sql (take n sample_migrations)
    \<and> map mr_logical_id (md_journal sample_left) = map candidate_id (take m sample_migrations)
    \<and> (list_all (\<lambda>r. mr_state r = ''applied'') (md_journal sample_left) \<longrightarrow> n = m)"
  by (rule migrations_take_effect_once [OF sample_manifest(1) sample_history(2)])

text \<open>
  C33: what a run does in any state that earlier runs leave behind, whatever calls of it fail. It never
  panics. When it reports success, all migrations are applied: the schema was built from all texts in
  order, the journal holds their applied entries, and the report names exactly those that were missing.
  When the journal has an entry that is not applied, the run fails and changes neither the journal nor
  the schema. And when it has none, no call fails, PostgreSQL accepts every text, its tables exist
  afterwards and the schema is the default one, the run succeeds and leaves the lock as it found it.
\<close>

theorem migrate_outcome:
  assumes "manifest_ok pg cs" and "migration_history pg cs s" and "migrate pg cs schema s = (res, s')"
  shows "res \<noteq> Inl MigrationPanic
    \<and> (\<forall>report. res = Inr report \<longrightarrow> md_ddl s' = map candidate_sql cs \<and> md_journal s' = map applied_row cs
         \<and> report = report_after cs (length (md_ddl s)))
    \<and> (\<not> list_all (\<lambda>r. mr_state r = ''applied'') (md_journal s) \<longrightarrow>
         (\<exists>err. res = Inl err) \<and> md_journal s' = md_journal s \<and> md_ddl s' = md_ddl s)
    \<and> (list_all (\<lambda>r. mr_state r = ''applied'') (md_journal s) \<and> md_faults s = [] \<and> texts_accepted pg cs
         \<and> schema = DEFAULT_SCHEMA \<longrightarrow> (\<exists>report. res = Inr report) \<and> md_lock s' = md_lock s)"
proof -
  note settled = history_settled [OF assms(1,2)]
  note ends = migrate_ends [OF assms(1) settled assms(3)]
  have all: "md_ddl s' = map candidate_sql cs \<and> md_journal s' = map applied_row cs
      \<and> report = report_after cs (length (md_ddl s))" if "res = Inr report" for report
    using ends(3) [OF that] by (auto simp: clean_def min_def)
  have left: "(\<exists>err. res = Inl err) \<and> md_journal s' = md_journal s \<and> md_ddl s' = md_ddl s"
    if left: "\<not> list_all (\<lambda>r. mr_state r = ''applied'') (md_journal s)"
  proof -
    have "\<not> clean cs n s" for n using left by (auto simp: clean_def list_all_iff)
    with settled obtain n k where "unfinished cs n k s" by (auto simp: settled_def)
    from ends(4) [OF this] show ?thesis by (simp add: same_tables_def)
  qed
  have "(\<exists>report. res = Inr report) \<and> md_lock s' = md_lock s"
    if applied: "list_all (\<lambda>r. mr_state r = ''applied'') (md_journal s)" and calm: "md_faults s = []"
      and accepted: "texts_accepted pg cs" and "schema = DEFAULT_SCHEMA"
  proof -
    have "\<not> unfinished cs n k s" for n k using applied by (auto simp: unfinished_def)
    with settled obtain n where n: "clean cs n s" by (auto simp: settled_def)
    from calm_migrate [OF assms(1) accepted n calm] obtain report s1 where
      "migrate pg cs DEFAULT_SCHEMA s = (Inr report, s1)" "md_lock s1 = md_lock s" by blast
    with assms(3) that(4) show ?thesis by auto
  qed
  with ends(1) all left show ?thesis by blast
qed

theorem migrate_outcome_witness:
  "(\<exists>err. fst (migrate sample_pg sample_migrations DEFAULT_SCHEMA sample_left) = Inl err)
    \<and> md_ddl (snd (migrate sample_pg sample_migrations DEFAULT_SCHEMA sample_left)) = [JOURNAL_TABLE]
    \<and> (\<exists>s'. migrate sample_pg sample_migrations DEFAULT_SCHEMA (empty_schema [])
        = (Inr (report_after sample_migrations 0), s') \<and> md_ddl s' = [JOURNAL_TABLE, ''runs''])"
proof -
  have "\<not> list_all (\<lambda>r. mr_state r = ''applied'') (md_journal sample_left)"
    using sample_left_state(1) by (auto simp: map_eq_Cons_conv)
  with migrate_outcome [OF sample_manifest(1) sample_history(2) prod.collapse [symmetric]] sample_left_state(2)
  have "(\<exists>err. fst (migrate sample_pg sample_migrations DEFAULT_SCHEMA sample_left) = Inl err)
    \<and> md_ddl (snd (migrate sample_pg sample_migrations DEFAULT_SCHEMA sample_left)) = [JOURNAL_TABLE]"
    by simp
  moreover have "\<exists>s'. migrate sample_pg sample_migrations DEFAULT_SCHEMA (empty_schema [])
        = (Inr (report_after sample_migrations 0), s') \<and> md_ddl s' = [JOURNAL_TABLE, ''runs'']"
  proof -
    obtain res s' where run: "migrate sample_pg sample_migrations DEFAULT_SCHEMA (empty_schema []) = (res, s')"
      by fastforce
    have texts: "map candidate_sql sample_migrations = [JOURNAL_TABLE, ''runs'']" by code_simp
    have start: "md_journal (empty_schema []) = []" "md_faults (empty_schema []) = []" "md_ddl (empty_schema []) = []"
      by (simp_all add: empty_schema_def)
    from migrate_outcome [OF sample_manifest(1) sample_history(1) [of "[]"] run] sample_manifest(2) start
    show ?thesis by (auto simp: run texts)
  qed
  ultimately show ?thesis by blast
qed

end
