(* ===== verification/Domain.thy ===== *)
theory Domain
  imports Prelude "HOL-Library.Char_ord"
begin

text \<open>
  The provider-independent domain types: the status enumerations with their terminal and
  reconciliation sets (\<open>crates/domain/src/status.rs\<close>), bounded keys (\<open>value.rs\<close>), identifiers
  (\<open>id.rs\<close>), and the snapshots with their invariants (\<open>model.rs\<close>). The text of each status in
  the database and its parser (\<open>transaction_executor.rs\<close>) are here too, with their round trips.
\<close>

section \<open>Statuses\<close>

datatype run_status =
    RunQueued | RunRunning | RunWaiting | RunApprovalRequired | RunRetrying | RunPaused
  | RunCompleted | RunFailed | RunCancelled | RunTimedOut

datatype stage_status =
    StagePlanned | StageActive | StageWaitingApproval | StageReworkRequired
  | StageSucceeded | StageFailed | StageSkipped | StageCancelled

datatype task_status =
    TaskScheduled | TaskQueued | TaskLeased | TaskRetryScheduled | TaskSucceeded
  | TaskFailed | TaskDeadLettered | TaskSkipped | TaskCancelled

datatype wait_status = WaitOpen | WaitConsumed | WaitExpired | WaitCancelled

datatype tool_status =
    ToolPlanned | ToolExecuting | ToolRetryScheduled | ToolSucceeded | ToolFailed
  | ToolOutcomeUnknown | ToolReconciling | ToolCompensated | ToolManualReview

datatype agent_status =
    AgentPlanned | AgentSubmitting | AgentRunning | AgentStopping | AgentSucceeded
  | AgentFailed | AgentCancelled | AgentOutcomeUnknown | AgentReconciling | AgentManualReview

datatype task_kind =
    KModel | KTool | KAgentServer | KArtifactCheck | KTimerWakeup | KReconcile
  | KStopExternalExecution

definition run_terminal :: "run_status \<Rightarrow> bool" where
  "run_terminal s \<longleftrightarrow> s \<in> {RunCompleted, RunFailed, RunCancelled, RunTimedOut}"

definition accepts_task_claim :: "run_status \<Rightarrow> bool" where
  "accepts_task_claim s \<longleftrightarrow> s \<in> {RunQueued, RunRunning, RunRetrying}"

definition stage_terminal :: "stage_status \<Rightarrow> bool" where
  "stage_terminal s \<longleftrightarrow> s \<in> {StageSucceeded, StageFailed, StageSkipped, StageCancelled}"

definition task_terminal :: "task_status \<Rightarrow> bool" where
  "task_terminal s \<longleftrightarrow>
     s \<in> {TaskSucceeded, TaskFailed, TaskDeadLettered, TaskSkipped, TaskCancelled}"

definition tool_terminal :: "tool_status \<Rightarrow> bool" where
  "tool_terminal s \<longleftrightarrow> s \<in> {ToolSucceeded, ToolFailed, ToolCompensated}"

definition tool_requires_reconciliation :: "tool_status \<Rightarrow> bool" where
  "tool_requires_reconciliation s \<longleftrightarrow> s \<in> {ToolOutcomeUnknown, ToolReconciling}"

definition agent_terminal :: "agent_status \<Rightarrow> bool" where
  "agent_terminal s \<longleftrightarrow> s \<in> {AgentSucceeded, AgentFailed, AgentCancelled}"

definition agent_requires_reconciliation :: "agent_status \<Rightarrow> bool" where
  "agent_requires_reconciliation s \<longleftrightarrow> s \<in> {AgentOutcomeUnknown, AgentReconciling}"

lemmas status_sets =
  run_terminal_def accepts_task_claim_def stage_terminal_def task_terminal_def
  tool_terminal_def tool_requires_reconciliation_def agent_terminal_def
  agent_requires_reconciliation_def

text \<open>A terminal run accepts no claim.\<close>

lemma claim_not_terminal: "accepts_task_claim s \<Longrightarrow> \<not> run_terminal s"
  by (auto simp: status_sets)

section \<open>Store errors\<close>

datatype store_error_code =
    NotFound | TenantMismatch | InvalidTransition | VersionConflict | TerminalRun | LeaseLost
  | LeaseExpired | IdempotencyKeyReused | WaitMismatch | WaitAlreadyConsumed
  | WaitExpiredError | DeadlineExceeded | OutcomeUnknown | PauseRecoveryRequired
  | AdapterCapabilityMissing | InconsistentProjection | ConstraintViolation
  | SerializationConflict | StoreUnavailable | MigrationRequired

datatype retry_class = RetryNever | RetryReloadState | RetryBackoff | RetryReconcile

datatype store_error = StoreError (se_code: store_error_code) (se_retry: retry_class)
  (safe_message: string)

type_synonym 'a store_result = "store_error + 'a"

text \<open>The three constructors of a store error in \<open>transaction_executor.rs\<close>.\<close>

definition store_error_of :: "store_error_code \<Rightarrow> string \<Rightarrow> store_error" where
  "store_error_of code message =
     StoreError code
       (if code = VersionConflict \<or> code = LeaseLost then RetryReloadState else RetryNever)
       message"

definition invalid_command :: "string \<Rightarrow> store_error" where
  "invalid_command message = store_error_of ConstraintViolation message"

definition inconsistent :: "string \<Rightarrow> store_error" where
  "inconsistent message = store_error_of InconsistentProjection message"

lemma store_error_sel [simp]:
  "se_code (store_error_of c m) = c" "safe_message (store_error_of c m) = m"
  "se_code (invalid_command m) = ConstraintViolation"
  "se_code (inconsistent m) = InconsistentProjection"
  by (simp_all add: store_error_of_def invalid_command_def inconsistent_def)

section \<open>The database text of a status\<close>

definition run_status_text :: "run_status \<Rightarrow> string" where
  "run_status_text s = (case s of
      RunQueued \<Rightarrow> ''queued'' | RunRunning \<Rightarrow> ''running'' | RunWaiting \<Rightarrow> ''waiting''
    | RunApprovalRequired \<Rightarrow> ''approval_required'' | RunRetrying \<Rightarrow> ''retrying''
    | RunPaused \<Rightarrow> ''paused'' | RunCompleted \<Rightarrow> ''completed'' | RunFailed \<Rightarrow> ''failed''
    | RunCancelled \<Rightarrow> ''cancelled'' | RunTimedOut \<Rightarrow> ''timed_out'')"

definition parse_run_status :: "string \<Rightarrow> run_status store_result" where
  "parse_run_status v =
    (if v = ''queued'' then Inr RunQueued
     else if v = ''running'' then Inr RunRunning
     else if v = ''waiting'' then Inr RunWaiting
     else if v = ''approval_required'' then Inr RunApprovalRequired
     else if v = ''retrying'' then Inr RunRetrying
     else if v = ''paused'' then Inr RunPaused
     else if v = ''completed'' then Inr RunCompleted
     else if v = ''failed'' then Inr RunFailed
     else if v = ''cancelled'' then Inr RunCancelled
     else if v = ''timed_out'' then Inr RunTimedOut
     else Inl (inconsistent ''database contains an unknown run status''))"

definition task_kind_text :: "task_kind \<Rightarrow> string" where
  "task_kind_text k = (case k of
      KModel \<Rightarrow> ''model'' | KTool \<Rightarrow> ''tool'' | KAgentServer \<Rightarrow> ''agent_server''
    | KArtifactCheck \<Rightarrow> ''artifact_check'' | KTimerWakeup \<Rightarrow> ''timer_wakeup''
    | KReconcile \<Rightarrow> ''reconcile'' | KStopExternalExecution \<Rightarrow> ''stop_external_execution'')"

definition parse_task_kind :: "string \<Rightarrow> task_kind store_result" where
  "parse_task_kind v =
    (if v = ''model'' then Inr KModel
     else if v = ''tool'' then Inr KTool
     else if v = ''agent_server'' then Inr KAgentServer
     else if v = ''artifact_check'' then Inr KArtifactCheck
     else if v = ''timer_wakeup'' then Inr KTimerWakeup
     else if v = ''reconcile'' then Inr KReconcile
     else if v = ''stop_external_execution'' then Inr KStopExternalExecution
     else Inl (inconsistent ''database contains an unknown task kind''))"

definition tool_status_text :: "tool_status \<Rightarrow> string" where
  "tool_status_text s = (case s of
      ToolPlanned \<Rightarrow> ''planned'' | ToolExecuting \<Rightarrow> ''executing''
    | ToolRetryScheduled \<Rightarrow> ''retry_scheduled'' | ToolSucceeded \<Rightarrow> ''succeeded''
    | ToolFailed \<Rightarrow> ''failed'' | ToolOutcomeUnknown \<Rightarrow> ''outcome_unknown''
    | ToolReconciling \<Rightarrow> ''reconciling'' | ToolCompensated \<Rightarrow> ''compensated''
    | ToolManualReview \<Rightarrow> ''manual_review'')"

definition parse_tool_status :: "string \<Rightarrow> tool_status store_result" where
  "parse_tool_status v =
    (if v = ''planned'' then Inr ToolPlanned
     else if v = ''executing'' then Inr ToolExecuting
     else if v = ''retry_scheduled'' then Inr ToolRetryScheduled
     else if v = ''succeeded'' then Inr ToolSucceeded
     else if v = ''failed'' then Inr ToolFailed
     else if v = ''outcome_unknown'' then Inr ToolOutcomeUnknown
     else if v = ''reconciling'' then Inr ToolReconciling
     else if v = ''compensated'' then Inr ToolCompensated
     else if v = ''manual_review'' then Inr ToolManualReview
     else Inl (inconsistent ''database contains an unknown tool execution status''))"

definition agent_status_text :: "agent_status \<Rightarrow> string" where
  "agent_status_text s = (case s of
      AgentPlanned \<Rightarrow> ''planned'' | AgentSubmitting \<Rightarrow> ''submitting''
    | AgentRunning \<Rightarrow> ''running'' | AgentStopping \<Rightarrow> ''stopping''
    | AgentSucceeded \<Rightarrow> ''succeeded'' | AgentFailed \<Rightarrow> ''failed''
    | AgentCancelled \<Rightarrow> ''cancelled'' | AgentOutcomeUnknown \<Rightarrow> ''outcome_unknown''
    | AgentReconciling \<Rightarrow> ''reconciling'' | AgentManualReview \<Rightarrow> ''manual_review'')"

definition parse_agent_status :: "string \<Rightarrow> agent_status store_result" where
  "parse_agent_status v =
    (if v = ''planned'' then Inr AgentPlanned
     else if v = ''submitting'' then Inr AgentSubmitting
     else if v = ''running'' then Inr AgentRunning
     else if v = ''stopping'' then Inr AgentStopping
     else if v = ''succeeded'' then Inr AgentSucceeded
     else if v = ''failed'' then Inr AgentFailed
     else if v = ''cancelled'' then Inr AgentCancelled
     else if v = ''outcome_unknown'' then Inr AgentOutcomeUnknown
     else if v = ''reconciling'' then Inr AgentReconciling
     else if v = ''manual_review'' then Inr AgentManualReview
     else Inl (inconsistent ''database contains an unknown Agent execution status''))"

definition stage_status_text :: "stage_status \<Rightarrow> string" where
  "stage_status_text s = (case s of
      StagePlanned \<Rightarrow> ''planned'' | StageActive \<Rightarrow> ''active''
    | StageWaitingApproval \<Rightarrow> ''waiting_approval'' | StageReworkRequired \<Rightarrow> ''rework_required''
    | StageSucceeded \<Rightarrow> ''succeeded'' | StageFailed \<Rightarrow> ''failed''
    | StageSkipped \<Rightarrow> ''skipped'' | StageCancelled \<Rightarrow> ''cancelled'')"

text \<open>The text of a task status, as the SQL statements write it.\<close>

definition task_status_text :: "task_status \<Rightarrow> string" where
  "task_status_text s = (case s of
      TaskScheduled \<Rightarrow> ''scheduled'' | TaskQueued \<Rightarrow> ''queued'' | TaskLeased \<Rightarrow> ''leased''
    | TaskRetryScheduled \<Rightarrow> ''retry_scheduled'' | TaskSucceeded \<Rightarrow> ''succeeded''
    | TaskFailed \<Rightarrow> ''failed'' | TaskDeadLettered \<Rightarrow> ''dead_lettered''
    | TaskSkipped \<Rightarrow> ''skipped'' | TaskCancelled \<Rightarrow> ''cancelled'')"

lemmas status_codecs =
  run_status_text_def parse_run_status_def task_kind_text_def parse_task_kind_def tool_status_text_def
  parse_tool_status_def agent_status_text_def parse_agent_status_def

lemma parse_run_status_text [simp]: "parse_run_status (run_status_text s) = Inr s"
  by (cases s) (simp_all add: status_codecs)

lemma parse_task_kind_text [simp]: "parse_task_kind (task_kind_text k) = Inr k"
  by (cases k) (simp_all add: status_codecs)

lemma parse_tool_status_text [simp]: "parse_tool_status (tool_status_text s) = Inr s"
  by (cases s) (simp_all add: status_codecs)

lemma parse_agent_status_text [simp]: "parse_agent_status (agent_status_text s) = Inr s"
  by (cases s) (simp_all add: status_codecs)

text \<open>A parser accepts only the text its printer writes.\<close>

lemma parse_run_status_only: "parse_run_status v = Inr s \<Longrightarrow> v = run_status_text s"
  by (auto simp: status_codecs split: if_splits)

lemma parse_task_kind_only: "parse_task_kind v = Inr k \<Longrightarrow> v = task_kind_text k"
  by (auto simp: status_codecs split: if_splits)

lemma parse_tool_status_only: "parse_tool_status v = Inr s \<Longrightarrow> v = tool_status_text s"
  by (auto simp: status_codecs split: if_splits)

lemma parse_agent_status_only: "parse_agent_status v = Inr s \<Longrightarrow> v = agent_status_text s"
  by (auto simp: status_codecs split: if_splits)

text \<open>
  Each status and task kind is written to the database as a text that is read back as the
  same value, and the parser reads back no other text: any other column value is reported as an
  inconsistent projection.
\<close>

theorem status_text_roundtrip:
  "(parse_run_status v = Inr s \<longleftrightarrow> v = run_status_text s)
   \<and> (parse_task_kind v = Inr k \<longleftrightarrow> v = task_kind_text k)
   \<and> (parse_tool_status v = Inr t \<longleftrightarrow> v = tool_status_text t)
   \<and> (parse_agent_status v = Inr a \<longleftrightarrow> v = agent_status_text a)"
  by (auto dest: parse_run_status_only parse_task_kind_only parse_tool_status_only
      parse_agent_status_only)

section \<open>Keys\<close>

datatype key_validation_error =
    KeyEmpty
  | KeyTooLong (key_actual: nat) (key_maximum: nat)
  | KeyContainsControlCharacter

text \<open>
  A \<open>String\<close> is its UTF-8 bytes. \<open>char::is_control\<close> is the category Cc: U+0000 to U+001F and
  U+007F are one byte, U+0080 to U+009F are the byte C2 followed by the byte of their number.
\<close>

fun has_control :: "string \<Rightarrow> bool" where
  "has_control [] \<longleftrightarrow> False"
| "has_control (c # cs) \<longleftrightarrow>
     of_char c < (32 :: nat) \<or> of_char c = (127 :: nat)
     \<or> (of_char c = (194 :: nat)
        \<and> (case cs of [] \<Rightarrow> False | d # _ \<Rightarrow> 128 \<le> (of_char d :: nat) \<and> of_char d \<le> (159 :: nat)))
     \<or> has_control cs"

definition key_parse :: "nat \<Rightarrow> string \<Rightarrow> key_validation_error + string" where
  "key_parse max_len value =
    (if value = [] then Inl KeyEmpty
     else if length value > max_len then Inl (KeyTooLong (length value) max_len)
     else if has_control value then Inl KeyContainsControlCharacter
     else Inr value)"

type_synonym logical_key = string
type_synonym tenant_key = string
type_synonym idempotency_key = string
type_synonym scope_key = string

definition parse_logical_key :: "string \<Rightarrow> key_validation_error + logical_key" where
  "parse_logical_key = key_parse 255"

definition parse_scope_key :: "string \<Rightarrow> key_validation_error + scope_key" where
  "parse_scope_key = key_parse 64"

lemma key_parse_Inr_iff:
  "key_parse n v = Inr k \<longleftrightarrow> k = v \<and> v \<noteq> [] \<and> length v \<le> n \<and> \<not> has_control v"
  by (auto simp: key_parse_def)

section \<open>Snapshots\<close>

record run_snapshot =
  rs_tenant_id :: uuid
  rs_run_id :: uuid
  rs_workflow_version_id :: "uuid option"
  rs_status :: run_status
  rs_suspended_from_status :: "run_status option"
  rs_version :: nat
  rs_execution_generation :: nat
  rs_next_event_sequence :: nat
  rs_current_checkpoint_id :: "uuid option"
  rs_terminal_event_id :: "uuid option"
  rs_deadline :: "micros option"
  rs_updated_at :: micros

definition terminal_invariant_holds :: "run_snapshot \<Rightarrow> bool" where
  "terminal_invariant_holds s \<longleftrightarrow>
     run_terminal (rs_status s) = (rs_terminal_event_id s \<noteq> None)"

record task_snapshot =
  ts_tenant_id :: uuid
  ts_task_id :: uuid
  ts_run_id :: uuid
  ts_stage_execution_id :: "uuid option"
  ts_logical_key :: logical_key
  ts_kind :: task_kind
  ts_status :: task_status
  ts_generation :: nat
  ts_attempt :: nat
  ts_max_attempts :: nat
  ts_available_at :: micros
  ts_input :: json_payload

record claimed_task =
  ct_task :: task_snapshot
  ct_run_version :: nat
  ct_lease_expires_at :: micros

datatype schedule_status = ScheduleActive | SchedulePaused
datatype schedule_misfire_policy = MisfireSkip | MisfireFireOnce | MisfireCatchUp
datatype schedule_concurrency_policy = ConcurrencyAllow | ConcurrencyForbid

record schedule_snapshot =
  ss_tenant_id :: uuid
  ss_schedule_id :: uuid
  ss_workflow_version_id :: uuid
  ss_cron_expression :: string
  ss_timezone :: string
  ss_input :: json_payload
  ss_status :: schedule_status
  ss_misfire_policy :: schedule_misfire_policy
  ss_concurrency_policy :: schedule_concurrency_policy
  ss_catch_up_limit :: nat
  ss_next_fire_at :: micros
  ss_last_fire_at :: "micros option"
  ss_version :: nat
  ss_created_at :: micros
  ss_updated_at :: micros

record tool_execution_snapshot =
  tes_tenant_id :: uuid
  tes_tool_execution_id :: uuid
  tes_run_id :: uuid
  tes_stage_execution_id :: "uuid option"
  tes_task_id :: uuid
  tes_tool_call_id :: string
  tes_tool_name :: string
  tes_status :: tool_status
  tes_attempt_count :: nat
  tes_external_ref :: "string option"
  tes_recovery_action :: "string option"
  tes_retry_at :: "micros option"
  tes_updated_at :: micros

record agent_execution_snapshot =
  aes_tenant_id :: uuid
  aes_agent_execution_id :: uuid
  aes_run_id :: uuid
  aes_stage_execution_id :: "uuid option"
  aes_task_id :: uuid
  aes_endpoint_id :: uuid
  aes_agent_version_id :: uuid
  aes_status :: agent_status
  aes_version :: nat
  aes_remote_run_ref :: "string option"
  aes_remote_session_ref :: "string option"
  aes_remote_protocol_version :: "string option"
  aes_status_poll_at :: "micros option"
  aes_event_cursor :: "string option"
  aes_cursor_version :: nat
  aes_retry_at :: "micros option"
  aes_updated_at :: micros

text \<open>The columns of a wait, and the invariant of \<open>WaitSnapshot\<close> on them.\<close>

definition active_slot_invariant_holds ::
  "wait_status \<Rightarrow> int option \<Rightarrow> uuid option \<Rightarrow> bool" where
  "active_slot_invariant_holds status active_slot consumed_by = (case status of
      WaitOpen \<Rightarrow> active_slot = Some 1 \<and> consumed_by = None
    | WaitConsumed \<Rightarrow> active_slot = None \<and> consumed_by \<noteq> None
    | WaitExpired \<Rightarrow> active_slot = None \<and> consumed_by = None
    | WaitCancelled \<Rightarrow> active_slot = None \<and> consumed_by = None)"

text \<open>The recovery columns of a tool execution, and the invariant of \<open>ToolExecutionSnapshot\<close>.\<close>

definition recovery_invariant_holds ::
  "tool_status \<Rightarrow> string option \<Rightarrow> micros option \<Rightarrow> bool" where
  "recovery_invariant_holds status recovery_action retry_at \<longleftrightarrow>
     (status \<noteq> ToolOutcomeUnknown \<or> recovery_action \<noteq> None)
     \<and> ((status = ToolRetryScheduled) = (retry_at \<noteq> None))"

section \<open>Outcome of a command\<close>

datatype command_disposition = Applied | Duplicate | NoOp

datatype durable_follow_up =
    FollowTask uuid
  | FollowReconcileAgent uuid
  | FollowStopAgent uuid
  | FollowReconcileTool uuid
  | FollowCompensateTool uuid
  | FollowScanDueWork micros

datatype post_commit_hint =
    WakeWorkers
  | WakeScheduler
  | RunEventsAvailable uuid
  | InvalidateRunCache uuid

record 'a committed =
  disposition :: command_disposition
  committed_value :: 'a
  event_ids :: "uuid list"
  durable_follow_ups :: "durable_follow_up list"
  post_commit_hints :: "post_commit_hint list"

text \<open>The text of a UUID as \<open>serde\<close> writes it: 32 hexadecimal digits in groups of 8-4-4-4-12.\<close>

definition hex_digit :: "nat \<Rightarrow> char" where
  "hex_digit n = ''0123456789abcdef'' ! (n mod 16)"

definition uuid_text :: "uuid \<Rightarrow> string" where
  "uuid_text u =
    (let hex = map (\<lambda>i. hex_digit (unat (drop_bit (4 * (31 - i)) u) mod 16)) [0..<32]
     in take 8 hex @ ''-'' @ take 4 (drop 8 hex) @ ''-'' @ take 4 (drop 12 hex) @ ''-''
        @ take 4 (drop 16 hex) @ ''-'' @ drop 20 hex)"

definition json_uuid :: "uuid \<Rightarrow> json" where
  "json_uuid u = JString (uuid_text u)"

definition json_opt_int :: "int option \<Rightarrow> json" where
  "json_opt_int x = (case x of None \<Rightarrow> JNull | Some i \<Rightarrow> JInt i)"

end
