(* ===== verification/ExecutionPlan.thy ===== *)
theory ExecutionPlan
  imports Domain
begin

text \<open>
  The versioned plan that materialises a run (\<open>crates/domain/src/plan.rs\<close>): its data, the shape
  check every plan producer relies on, and the cycle search on task dependencies. The check is
  proved equivalent to a declarative well-formedness predicate, and the cycle search to the
  transitive closure of the dependency relation.
\<close>

section \<open>Data\<close>

definition EXECUTION_PLAN_SCHEMA_VERSION :: nat where
  "EXECUTION_PLAN_SCHEMA_VERSION = 1"

datatype join_policy = JoinAll | JoinAny

record task_dependency_spec =
  dep_task_key :: logical_key
  dep_condition :: json_payload

record execution_stage_spec =
  ess_logical_key :: logical_key
  ess_initial_status :: stage_status
  ess_assignee_kind :: "string option"
  ess_assignee_ref :: "string option"
  ess_input_contract :: json_payload
  ess_output_contract :: json_payload
  ess_policy :: json_payload

record execution_task_spec =
  ets_logical_key :: logical_key
  ets_stage_key :: "logical_key option"
  ets_handler_key :: logical_key
  ets_kind :: task_kind
  ets_priority :: int
  ets_max_attempts :: nat
  ets_input :: json_payload
  ets_dependencies :: "task_dependency_spec list"
  ets_join_policy :: join_policy
  ets_context_projection :: "string list"

record execution_plan =
  plan_schema_version :: nat
  plan_key :: logical_key
  plan_stages :: "execution_stage_spec list"
  plan_initial_tasks :: "execution_task_spec list"
  plan_extension :: json_payload

datatype execution_plan_shape_error =
    UnsupportedSchemaVersion | NoInitialTasks | InvalidInitialStageStatus
  | IncompleteStageAssignee | DuplicateStageKey | ZeroTaskAttempts | DuplicateTaskKey
  | UnknownTaskStage | TaskStageNotActive | UnknownDependency | SelfDependency
  | DuplicateDependency | DependencyCycle | InvalidContextProjection

section \<open>The cycle search\<close>

definition plan_keys :: "execution_plan \<Rightarrow> logical_key set" where
  "plan_keys plan = ets_logical_key ` set (plan_initial_tasks plan)"

definition plan_task :: "execution_plan \<Rightarrow> logical_key \<Rightarrow> execution_task_spec option" where
  "plan_task plan k = find (\<lambda>task. ets_logical_key task = k) (plan_initial_tasks plan)"

lemma plan_task_Some: "plan_task plan k = Some t \<Longrightarrow>
    t \<in> set (plan_initial_tasks plan) \<and> ets_logical_key t = k"
  unfolding plan_task_def by (auto dest: find_Some_in)

lemma finite_plan_keys [simp]: "finite (plan_keys plan)"
  by (simp add: plan_keys_def)

text \<open>
  The stack \<open>visited\<close> is pushed before the calls and popped after them, so that a call sees the
  keys on the path from the root: an argument of the recursion.
\<close>

function dependency_reaches ::
  "execution_plan \<Rightarrow> logical_key \<Rightarrow> logical_key \<Rightarrow> logical_key list \<Rightarrow> bool" where
  "dependency_reaches plan current target visited =
    (if List.member visited current then False
     else case plan_task plan current of
         None \<Rightarrow> False
       | Some task \<Rightarrow> list_ex (\<lambda>dependency.
             dep_task_key dependency = target
             \<or> dependency_reaches plan (dep_task_key dependency) target (current # visited))
           (ets_dependencies task))"
  by pat_completeness auto
termination
proof (relation "measure (\<lambda>(plan, current, target, visited). card (plan_keys plan - set visited))")
  fix plan current and target :: logical_key and visited task dependency
  assume unvisited: "\<not> List.member visited current" and task: "plan_task plan current = Some task"
  have "current \<in> plan_keys plan"
    using plan_task_Some [OF task] by (auto simp: plan_keys_def)
  then have "plan_keys plan - set (current # visited) \<subset> plan_keys plan - set visited"
    using unvisited by auto
  then show "((plan, dep_task_key dependency, target, current # visited),
              (plan, current, target, visited))
             \<in> measure (\<lambda>(plan, current, target, visited). card (plan_keys plan - set visited))"
    by (simp add: psubset_card_mono)
qed simp

declare dependency_reaches.simps [simp del]

text \<open>\<open>(a, b)\<close>: the task of key \<open>a\<close> waits for the task of key \<open>b\<close>.\<close>

definition depends_on :: "execution_plan \<Rightarrow> (logical_key \<times> logical_key) set" where
  "depends_on plan = {(a, b). \<exists>task. plan_task plan a = Some task
                               \<and> b \<in> dep_task_key ` set (ets_dependencies task)}"

lemma dependency_reaches_unfold:
  "dependency_reaches plan current target visited \<longleftrightarrow>
     current \<notin> set visited
     \<and> (\<exists>d. (current, d) \<in> depends_on plan
           \<and> (d = target \<or> dependency_reaches plan d target (current # visited)))"
  by (subst dependency_reaches.simps)
     (auto simp: depends_on_def list_ex_iff split: option.splits)

text \<open>A path may be shortened so that it leaves its first node once.\<close>

lemma trancl_leave_once:
  assumes "(x, y) \<in> R\<^sup>+"
  shows "\<exists>z. (x, z) \<in> R \<and> (z = y \<or> (z, y) \<in> (R - {x} \<times> UNIV)\<^sup>+)"
  using assms
proof (induction rule: trancl_induct)
  case (base y)
  then show ?case by blast
next
  case (step y w)
  show ?case
  proof (cases "y = x")
    case True
    then show ?thesis using step.hyps(2) by blast
  next
    case False
    then have "(y, w) \<in> R - {x} \<times> UNIV" using step.hyps(2) by blast
    then show ?thesis using step.IH by (meson r_into_trancl' trancl_into_trancl)
  qed
qed

lemma depends_on_restrict:
  "depends_on plan - set (c # visited) \<times> UNIV
   = (depends_on plan - set visited \<times> UNIV) - {c} \<times> UNIV"
  by auto

lemma dependency_reaches_iff_avoiding:
  "dependency_reaches plan current target visited
   \<longleftrightarrow> (current, target) \<in> (depends_on plan - set visited \<times> UNIV)\<^sup>+"
proof (induction plan current target visited rule: dependency_reaches.induct)
  case (1 plan current target visited)
  let ?R = "depends_on plan - set visited \<times> UNIV"
  have rec: "dependency_reaches plan d target (current # visited)
             \<longleftrightarrow> (d, target) \<in> (?R - {current} \<times> UNIV)\<^sup>+"
    if "current \<notin> set visited" and "(current, d) \<in> depends_on plan" for d
  proof -
    from that(2) obtain task dep where "plan_task plan current = Some task"
      and "dep \<in> set (ets_dependencies task)" and "d = dep_task_key dep"
      by (auto simp: depends_on_def)
    with that(1) have "dependency_reaches plan d target (current # visited)
      \<longleftrightarrow> (d, target) \<in> (depends_on plan - set (current # visited) \<times> UNIV)\<^sup>+"
      using 1 by simp
    then show ?thesis unfolding depends_on_restrict .
  qed
  have mono: "(?R - {current} \<times> UNIV)\<^sup>+ \<subseteq> ?R\<^sup>+"
    by (intro trancl_mono_subset) blast
  show ?case
  proof
    assume "dependency_reaches plan current target visited"
    then obtain d where d: "current \<notin> set visited" "(current, d) \<in> depends_on plan"
      "d = target \<or> dependency_reaches plan d target (current # visited)"
      using dependency_reaches_unfold [of plan current target visited] by blast
    then have "(current, d) \<in> ?R" and "d = target \<or> (d, target) \<in> ?R\<^sup>+"
      using rec mono by blast+
    then show "(current, target) \<in> ?R\<^sup>+"
      by (metis r_into_trancl' trancl_into_trancl2)
  next
    assume "(current, target) \<in> ?R\<^sup>+"
    from trancl_leave_once [OF this] obtain d where
      d: "(current, d) \<in> ?R" "d = target \<or> (d, target) \<in> (?R - {current} \<times> UNIV)\<^sup>+"
      by blast
    then show "dependency_reaches plan current target visited"
      using rec [of d] dependency_reaches_unfold [of plan current target visited] by blast
  qed
qed

lemma dependency_reaches_iff:
  "dependency_reaches plan current target [] \<longleftrightarrow> (current, target) \<in> (depends_on plan)\<^sup>+"
  by (simp add: dependency_reaches_iff_avoiding)

section \<open>The shape check\<close>

text \<open>
  Each \<open>for\<close> loop is a recursion on the list; \<open>self.stages[index + 1..]\<close> is the tail.
\<close>

fun check_stages ::
  "execution_stage_spec list \<Rightarrow> execution_plan_shape_error + unit" where
  "check_stages [] = Inr ()"
| "check_stages (stage # others) =
    (if ess_initial_status stage \<notin> {StagePlanned, StageActive} then Inl InvalidInitialStageStatus
     else if (ess_assignee_kind stage \<noteq> None) \<noteq> (ess_assignee_ref stage \<noteq> None)
       then Inl IncompleteStageAssignee
     else if list_ex (\<lambda>other. ess_logical_key other = ess_logical_key stage) others
       then Inl DuplicateStageKey
     else check_stages others)"

fun check_dependencies ::
  "execution_plan \<Rightarrow> logical_key \<Rightarrow> task_dependency_spec list
   \<Rightarrow> execution_plan_shape_error + unit" where
  "check_dependencies plan key [] = Inr ()"
| "check_dependencies plan key (dependency # others) =
    (if dep_task_key dependency = key then Inl SelfDependency
     else if \<not> list_ex (\<lambda>candidate. ets_logical_key candidate = dep_task_key dependency)
                 (plan_initial_tasks plan)
       then Inl UnknownDependency
     else if list_ex (\<lambda>other. dep_task_key other = dep_task_key dependency) others
       then Inl DuplicateDependency
     else check_dependencies plan key others)"

fun check_projection :: "string list \<Rightarrow> execution_plan_shape_error + unit" where
  "check_projection [] = Inr ()"
| "check_projection (pointer # others) =
    (if \<not> (pointer \<noteq> [] \<and> hd pointer = CHR ''/'') \<or> List.member others pointer
       then Inl InvalidContextProjection
     else check_projection others)"

definition check_task_stage ::
  "execution_plan \<Rightarrow> execution_task_spec \<Rightarrow> execution_plan_shape_error + unit" where
  "check_task_stage plan task = (case ets_stage_key task of
      None \<Rightarrow> Inr ()
    | Some stage_key \<Rightarrow>
        bindR (ok_or (find (\<lambda>stage. ess_logical_key stage = stage_key) (plan_stages plan))
                 UnknownTaskStage)
          (\<lambda>stage. if ess_initial_status stage \<noteq> StageActive then Inl TaskStageNotActive
                   else Inr ()))"

fun check_tasks ::
  "execution_plan \<Rightarrow> execution_task_spec list \<Rightarrow> execution_plan_shape_error + unit" where
  "check_tasks plan [] = Inr ()"
| "check_tasks plan (task # others) =
    (if ets_max_attempts task = 0 then Inl ZeroTaskAttempts
     else if list_ex (\<lambda>other. ets_logical_key other = ets_logical_key task) others
       then Inl DuplicateTaskKey
     else bindR (check_task_stage plan task) (\<lambda>_.
          bindR (check_dependencies plan (ets_logical_key task) (ets_dependencies task)) (\<lambda>_.
          bindR (check_projection (ets_context_projection task)) (\<lambda>_.
          check_tasks plan others))))"

definition validate_shape :: "execution_plan \<Rightarrow> execution_plan_shape_error + unit" where
  "validate_shape plan =
    (if plan_schema_version plan \<noteq> EXECUTION_PLAN_SCHEMA_VERSION then Inl UnsupportedSchemaVersion
     else if plan_initial_tasks plan = [] then Inl NoInitialTasks
     else bindR (check_stages (plan_stages plan)) (\<lambda>_.
          bindR (check_tasks plan (plan_initial_tasks plan)) (\<lambda>_.
          if list_ex (\<lambda>task. dependency_reaches plan (ets_logical_key task)
                        (ets_logical_key task) []) (plan_initial_tasks plan)
          then Inl DependencyCycle
          else Inr ())))"

section \<open>What a valid plan is\<close>

definition stage_ok :: "execution_stage_spec \<Rightarrow> bool" where
  "stage_ok stage \<longleftrightarrow> ess_initial_status stage \<in> {StagePlanned, StageActive}
     \<and> (ess_assignee_kind stage = None \<longleftrightarrow> ess_assignee_ref stage = None)"

definition task_ok :: "execution_plan \<Rightarrow> execution_task_spec \<Rightarrow> bool" where
  "task_ok plan task \<longleftrightarrow>
     ets_max_attempts task \<ge> 1
     \<and> (\<forall>k. ets_stage_key task = Some k \<longrightarrow>
           (\<exists>stage \<in> set (plan_stages plan).
               ess_logical_key stage = k \<and> ess_initial_status stage = StageActive))
     \<and> distinct (map dep_task_key (ets_dependencies task))
     \<and> dep_task_key ` set (ets_dependencies task) \<subseteq> plan_keys plan - {ets_logical_key task}
     \<and> distinct (ets_context_projection task)
     \<and> (\<forall>p \<in> set (ets_context_projection task). p \<noteq> [] \<and> hd p = CHR ''/'')"

definition plan_ok :: "execution_plan \<Rightarrow> bool" where
  "plan_ok plan \<longleftrightarrow>
     plan_schema_version plan = 1 \<and> plan_initial_tasks plan \<noteq> []
     \<and> distinct (map ess_logical_key (plan_stages plan))
     \<and> (\<forall>stage \<in> set (plan_stages plan). stage_ok stage)
     \<and> distinct (map ets_logical_key (plan_initial_tasks plan))
     \<and> (\<forall>task \<in> set (plan_initial_tasks plan). task_ok plan task)
     \<and> acyclic (depends_on plan)"

lemma list_ex_key: "list_ex (\<lambda>y. f y = v) xs \<longleftrightarrow> v \<in> f ` set xs"
  by (auto simp: list_ex_iff)

lemma check_stages_ok:
  "check_stages stages = Inr () \<longleftrightarrow>
     distinct (map ess_logical_key stages) \<and> (\<forall>stage \<in> set stages. stage_ok stage)"
proof (induction stages)
  case (Cons stage stages)
  then show ?case
    by (cases "ess_assignee_kind stage"; cases "ess_assignee_ref stage")
       (auto simp: list_ex_key stage_ok_def [of stage])
qed simp

lemma check_dependencies_ok:
  "check_dependencies plan key ds = Inr () \<longleftrightarrow>
     distinct (map dep_task_key ds) \<and> dep_task_key ` set ds \<subseteq> plan_keys plan - {key}"
  by (induction ds)
     (simp_all only: check_dependencies.simps list_ex_key plan_keys_def [symmetric], simp_all)

lemma check_projection_ok:
  "check_projection ps = Inr () \<longleftrightarrow> distinct ps \<and> (\<forall>p \<in> set ps. p \<noteq> [] \<and> hd p = CHR ''/'')"
  by (induction ps) auto

lemma check_task_stage_ok:
  assumes "distinct (map ess_logical_key (plan_stages plan))"
  shows "check_task_stage plan task = Inr () \<longleftrightarrow>
    (\<forall>k. ets_stage_key task = Some k \<longrightarrow>
       (\<exists>stage \<in> set (plan_stages plan).
           ess_logical_key stage = k \<and> ess_initial_status stage = StageActive))"
proof (cases "ets_stage_key task")
  case (Some k)
  have "find (\<lambda>stage. ess_logical_key stage = k) (plan_stages plan) = Some stage
        \<longleftrightarrow> stage \<in> set (plan_stages plan) \<and> ess_logical_key stage = k" for stage
    using find_unique [OF assms, of stage] by (auto dest: find_Some_in)
  then show ?thesis
    using Some by (auto simp: check_task_stage_def result_iffs)
qed (simp add: check_task_stage_def)

lemma check_tasks_ok:
  assumes "distinct (map ess_logical_key (plan_stages plan))"
  shows "check_tasks plan tasks = Inr () \<longleftrightarrow>
    distinct (map ets_logical_key tasks) \<and> (\<forall>task \<in> set tasks. task_ok plan task)"
proof (induction tasks)
  case (Cons task tasks)
  then show ?case
    by (simp only: check_tasks.simps list_ex_key)
       (simp add: result_iffs task_ok_def check_task_stage_ok [OF assms] check_dependencies_ok
        check_projection_ok conj_ac Suc_le_eq)
qed simp

lemma no_cycle_iff:
  "list_ex (\<lambda>task. dependency_reaches plan (ets_logical_key task) (ets_logical_key task) [])
     (plan_initial_tasks plan) \<longleftrightarrow> \<not> acyclic (depends_on plan)"
proof -
  have "a \<in> plan_keys plan" if "(a, b) \<in> (depends_on plan)\<^sup>+" for a b
    using tranclD [OF that] by (auto simp: depends_on_def plan_keys_def dest!: plan_task_Some)
  then show ?thesis
    by (auto simp: list_ex_iff dependency_reaches_iff acyclic_def plan_keys_def image_iff)
qed

lemma validate_shape_ok: "validate_shape plan = Inr () \<longleftrightarrow> plan_ok plan"
proof (cases "distinct (map ess_logical_key (plan_stages plan))")
  case True
  have "validate_shape plan = Inr () \<longleftrightarrow>
      plan_schema_version plan = 1 \<and> plan_initial_tasks plan \<noteq> []
      \<and> check_stages (plan_stages plan) = Inr ()
      \<and> check_tasks plan (plan_initial_tasks plan) = Inr ()
      \<and> acyclic (depends_on plan)"
    by (simp add: validate_shape_def EXECUTION_PLAN_SCHEMA_VERSION_def bindR_Inr_iff
        no_cycle_iff)
  then show ?thesis
    using True by (auto simp: plan_ok_def check_stages_ok check_tasks_ok [OF True])
next
  case False
  then show ?thesis
    by (auto simp: plan_ok_def validate_shape_def result_iffs check_stages_ok split: if_splits)
qed

text \<open>
  C38: the shape check accepts exactly the well-formed plans: the supported version, at least one
  task, distinct stage and task keys, every task with attempts, an active stage if any, distinct
  known dependencies, distinct absolute JSON pointers, and no dependency cycle.
\<close>

theorem validate_shape_iff_plan_ok: "validate_shape plan = Inr () \<longleftrightarrow> plan_ok plan"
  by (rule validate_shape_ok)

text \<open>A set of keys with no cycle has a member none of whose prerequisites are in the set.\<close>

lemma acyclic_minimal:
  assumes "acyclic R" and "finite K" and "K \<noteq> {}"
  shows "\<exists>k \<in> K. \<forall>d. (k, d) \<in> R \<longrightarrow> d \<notin> K"
proof -
  let ?S = "(R \<inter> K \<times> K)\<inverse>"
  have "finite ?S" using assms(2) by (simp add: finite_subset [of _ "K \<times> K"])
  moreover have "acyclic ?S"
    using assms(1) acyclic_subset [of R "R \<inter> K \<times> K"] by (simp add: acyclic_converse)
  ultimately have "wf ?S" by (simp add: finite_acyclic_wf)
  then obtain k where "k \<in> K" and "\<And>d. (d, k) \<in> ?S \<Longrightarrow> d \<notin> K"
    using assms(3) by (meson wf_eq_minimal ex_in_conv)
  then show ?thesis by blast
qed

text \<open>
  C39: a plan that passes the shape check cannot be stuck on its dependencies: whichever tasks
  are done, if one is not, some task that is not done waits only for tasks that are.
\<close>

theorem validated_plan_not_stuck:
  assumes "validate_shape plan = Inr ()" and "\<not> plan_keys plan \<subseteq> completed"
  shows "\<exists>task \<in> set (plan_initial_tasks plan). ets_logical_key task \<notin> completed
           \<and> (\<forall>d \<in> set (ets_dependencies task). dep_task_key d \<in> completed)"
proof -
  have ok: "plan_ok plan" using assms(1) validate_shape_ok by blast
  then have "acyclic (depends_on plan)" by (simp add: plan_ok_def)
  moreover have "finite (plan_keys plan - completed)" by simp
  ultimately obtain k where k: "k \<in> plan_keys plan - completed"
      "\<And>d. (k, d) \<in> depends_on plan \<Longrightarrow> d \<notin> plan_keys plan - completed"
    using acyclic_minimal [of "depends_on plan" "plan_keys plan - completed"] assms(2) by blast
  from k(1) obtain task where task: "task \<in> set (plan_initial_tasks plan)"
    "ets_logical_key task = k" by (auto simp: plan_keys_def)
  then have found: "plan_task plan k = Some task"
    using find_unique [of ets_logical_key "plan_initial_tasks plan" task] ok
    by (auto simp: plan_task_def plan_ok_def)
  have "dep_task_key d \<in> completed" if "d \<in> set (ets_dependencies task)" for d
  proof -
    have "(k, dep_task_key d) \<in> depends_on plan"
      using that found by (auto simp: depends_on_def)
    moreover have "dep_task_key d \<in> plan_keys plan"
    proof -
      have "task_ok plan task" using task ok by (simp add: plan_ok_def)
      then show ?thesis using that by (auto simp: task_ok_def)
    qed
    ultimately show ?thesis using k(2) by blast
  qed
  then show ?thesis using task k(1) by blast
qed

section \<open>Example\<close>

definition example_task :: "string \<Rightarrow> string list \<Rightarrow> execution_task_spec" where
  "example_task key deps = \<lparr> ets_logical_key = key, ets_stage_key = None,
     ets_handler_key = ''research-agent'', ets_kind = KAgentServer, ets_priority = 0,
     ets_max_attempts = 3, ets_input = ''{}'',
     ets_dependencies = map (\<lambda>d. \<lparr> dep_task_key = d, dep_condition = ''{}'' \<rparr>) deps,
     ets_join_policy = JoinAll, ets_context_projection = [] \<rparr>"

definition example_plan :: "execution_task_spec list \<Rightarrow> execution_plan" where
  "example_plan tasks = \<lparr> plan_schema_version = 1, plan_key = ''research'', plan_stages = [],
     plan_initial_tasks = tasks, plan_extension = ''{}'' \<rparr>"

theorem validated_plan_not_stuck_witness:
  "\<exists>task \<in> set [example_task ''a'' [''b''], example_task ''b'' []].
     ets_logical_key task \<notin> {''c''}
     \<and> (\<forall>d \<in> set (ets_dependencies task). dep_task_key d \<in> {''c''})"
proof -
  let ?plan = "example_plan [example_task ''a'' [''b''], example_task ''b'' []]"
  have "validate_shape ?plan = Inr ()" by code_simp
  moreover have "\<not> plan_keys ?plan \<subseteq> {''c''}"
    by (simp add: plan_keys_def example_plan_def example_task_def)
  ultimately show ?thesis
    using validated_plan_not_stuck [of ?plan "{''c''}"] by (simp add: example_plan_def)
qed

lemma cyclic_plan_rejected:
  "validate_shape (example_plan [example_task ''first'' [''second''],
     example_task ''second'' [''first'']]) = Inl DependencyCycle"
  by code_simp

end
