(* ===== verification/ReceiptCodec.thy ===== *)
theory ReceiptCodec
  imports Domain
begin

text \<open>
  The outcome a command receipt stores, and the functions that write and read it
  (\<open>transaction_executor.rs\<close>, from \<open>ScheduleReceipt\<close> to \<open>decode_claim_receipt\<close>). The derived
  \<open>serde\<close> conversion between a receipt struct and its JSON object is the datatype
  \<open>stored_outcome\<close>, one constructor per struct: a value of another struct lacks fields and is
  refused by \<open>from_value\<close>.
\<close>

section \<open>Outcome types\<close>

datatype lease_expiry_action = LeaseRetryScheduled | LeaseDeadLettered

record lease_reclaim_outcome =
  lro_tenant_id :: uuid
  lro_run_id :: uuid
  lro_task_id :: uuid
  lro_attempt :: nat
  lro_action :: lease_expiry_action
  lro_reclaimed_at :: micros

datatype due_work_target = DueTool uuid | DueAgent uuid

record due_work_outcome =
  dwo_tenant_id :: uuid
  dwo_run_id :: uuid
  dwo_target :: due_work_target
  dwo_recovery_task_id :: uuid
  dwo_run_status :: run_status
  dwo_execution_revision :: nat
  dwo_applied_at :: micros

record agent_event_batch_outcome =
  abo_tenant_id :: uuid
  abo_agent_execution_id :: uuid
  abo_run_id :: uuid
  abo_accepted_receipts :: "uuid list"
  abo_duplicate_receipts :: "uuid list"
  abo_cursor_version :: nat
  abo_run_status :: run_status

section \<open>Receipt structs\<close>

record schedule_receipt =
  sr_type :: string
  sr_schedule_id :: uuid
  sr_workflow_version_id :: uuid
  sr_cron_expression :: string
  sr_timezone :: string
  sr_input :: json
  sr_status :: string
  sr_misfire_policy :: string
  sr_concurrency_policy :: string
  sr_catch_up_limit :: nat
  sr_next_fire_at :: micros
  sr_last_fire_at :: "micros option"
  sr_version :: nat
  sr_created_at :: micros
  sr_updated_at :: micros

record run_receipt =
  rr_type :: string
  rr_run_id :: uuid
  rr_workflow_version_id :: "uuid option"
  rr_status :: string
  rr_suspended_from_status :: "string option"
  rr_version :: nat
  rr_execution_generation :: nat
  rr_next_event_sequence :: nat
  rr_current_checkpoint_id :: "uuid option"
  rr_terminal_event_id :: "uuid option"
  rr_deadline :: "micros option"
  rr_updated_at :: micros

record tool_receipt =
  tr_type :: string
  tr_tool_execution_id :: uuid
  tr_run_id :: uuid
  tr_stage_execution_id :: "uuid option"
  tr_task_id :: uuid
  tr_tool_call_id :: string
  tr_tool_name :: string
  tr_status :: string
  tr_attempt_count :: nat
  tr_external_ref :: "string option"
  tr_recovery_action :: "string option"
  tr_retry_at :: "micros option"
  tr_updated_at :: micros

record agent_receipt =
  ar_type :: string
  ar_agent_execution_id :: uuid
  ar_run_id :: uuid
  ar_stage_execution_id :: "uuid option"
  ar_task_id :: uuid
  ar_endpoint_id :: uuid
  ar_agent_version_id :: uuid
  ar_status :: string
  ar_version :: nat
  ar_remote_run_ref :: "string option"
  ar_remote_session_ref :: "string option"
  ar_remote_protocol_version :: "string option"
  ar_status_poll_at :: "micros option"
  ar_event_cursor :: "string option"
  ar_cursor_version :: nat
  ar_retry_at :: "micros option"
  ar_updated_at :: micros

record agent_batch_receipt =
  br_type :: string
  br_agent_execution_id :: uuid
  br_run_id :: uuid
  br_accepted_receipts :: "uuid list"
  br_duplicate_receipts :: "uuid list"
  br_cursor_version :: nat
  br_run_status :: string
  br_event_ids :: "uuid list"

record due_work_receipt =
  dr_type :: string
  dr_run_id :: uuid
  dr_target_kind :: string
  dr_execution_id :: uuid
  dr_recovery_task_id :: uuid
  dr_run_status :: string
  dr_execution_revision :: nat
  dr_applied_at :: micros

record lease_reclaim_receipt =
  lr_type :: string
  lr_run_id :: "uuid option"
  lr_task_id :: "uuid option"
  lr_attempt :: "nat option"
  lr_action :: "string option"
  lr_reclaimed_at :: "micros option"

record claim_receipt =
  cr_type :: string
  cr_task_id :: uuid
  cr_run_id :: uuid
  cr_stage_execution_id :: "uuid option"
  cr_logical_key :: string
  cr_kind :: string
  cr_generation :: nat
  cr_attempt :: nat
  cr_max_attempts :: nat
  cr_available_at :: micros
  cr_input :: json
  cr_run_version :: nat
  cr_lease_expires_at :: micros

text \<open>\<open>StoredEmpty\<close> is the placeholder \<open>{}\<close> of a receipt that is not finished.\<close>

datatype stored_outcome =
    StoredEmpty
  | StoredSchedule schedule_receipt
  | StoredRun run_receipt
  | StoredTool tool_receipt
  | StoredAgent agent_receipt
  | StoredAgentBatch agent_batch_receipt
  | StoredDueWork due_work_receipt
  | StoredLeaseReclaim lease_reclaim_receipt
  | StoredClaimNone
  | StoredClaim claim_receipt

definition json_value :: "externals \<Rightarrow> json_payload \<Rightarrow> json store_result" where
  "json_value ext payload =
     ok_or (ext_from_slice ext payload) (invalid_command ''payload is not valid JSON'')"

section \<open>Schedules\<close>

definition misfire_policy_value :: "schedule_misfire_policy \<Rightarrow> string" where
  "misfire_policy_value p = (case p of MisfireSkip \<Rightarrow> ''skip'' | MisfireFireOnce \<Rightarrow> ''fire_once''
     | MisfireCatchUp \<Rightarrow> ''catch_up'')"

definition parse_misfire_policy :: "string \<Rightarrow> schedule_misfire_policy store_result" where
  "parse_misfire_policy v =
    (if v = ''skip'' then Inr MisfireSkip
     else if v = ''fire_once'' then Inr MisfireFireOnce
     else if v = ''catch_up'' then Inr MisfireCatchUp
     else Inl (inconsistent ''stored Schedule misfire policy is invalid''))"

definition concurrency_policy_value :: "schedule_concurrency_policy \<Rightarrow> string" where
  "concurrency_policy_value p =
     (case p of ConcurrencyAllow \<Rightarrow> ''allow'' | ConcurrencyForbid \<Rightarrow> ''forbid'')"

definition parse_concurrency_policy :: "string \<Rightarrow> schedule_concurrency_policy store_result" where
  "parse_concurrency_policy v =
    (if v = ''allow'' then Inr ConcurrencyAllow
     else if v = ''forbid'' then Inr ConcurrencyForbid
     else Inl (inconsistent ''stored Schedule concurrency policy is invalid''))"

definition encode_schedule_receipt ::
  "externals \<Rightarrow> schedule_snapshot \<Rightarrow> stored_outcome store_result" where
  "encode_schedule_receipt ext s =
    bindR (json_value ext (ss_input s)) (\<lambda>input.
    Inr (StoredSchedule
     \<lparr> sr_type = ''schedule'', sr_schedule_id = ss_schedule_id s,
       sr_workflow_version_id = ss_workflow_version_id s,
       sr_cron_expression = ss_cron_expression s, sr_timezone = ss_timezone s,
       sr_input = input,
       sr_status = (case ss_status s of ScheduleActive \<Rightarrow> ''active'' | SchedulePaused \<Rightarrow> ''paused''),
       sr_misfire_policy = misfire_policy_value (ss_misfire_policy s),
       sr_concurrency_policy = concurrency_policy_value (ss_concurrency_policy s),
       sr_catch_up_limit = ss_catch_up_limit s, sr_next_fire_at = ss_next_fire_at s,
       sr_last_fire_at = ss_last_fire_at s, sr_version = ss_version s,
       sr_created_at = ss_created_at s, sr_updated_at = ss_updated_at s \<rparr>))"

definition decode_schedule_receipt ::
  "externals \<Rightarrow> uuid \<Rightarrow> stored_outcome \<Rightarrow> schedule_snapshot store_result" where
  "decode_schedule_receipt ext tenant v = (case v of
      StoredSchedule r \<Rightarrow>
        if sr_type r \<noteq> ''schedule''
        then Inl (inconsistent ''stored command receipt has the wrong outcome type'')
        else bindR (if sr_status r = ''active'' then Inr ScheduleActive
                    else if sr_status r = ''paused'' then Inr SchedulePaused
                    else Inl (inconsistent ''stored Schedule status is invalid'')) (\<lambda>status.
             bindR (parse_misfire_policy (sr_misfire_policy r)) (\<lambda>misfire.
             bindR (parse_concurrency_policy (sr_concurrency_policy r)) (\<lambda>concurrency.
             Inr \<lparr> ss_tenant_id = tenant, ss_schedule_id = sr_schedule_id r,
               ss_workflow_version_id = sr_workflow_version_id r,
               ss_cron_expression = sr_cron_expression r, ss_timezone = sr_timezone r,
               ss_input = ext_to_vec ext (sr_input r), ss_status = status,
               ss_misfire_policy = misfire, ss_concurrency_policy = concurrency,
               ss_catch_up_limit = sr_catch_up_limit r, ss_next_fire_at = sr_next_fire_at r,
               ss_last_fire_at = sr_last_fire_at r, ss_version = sr_version r,
               ss_created_at = sr_created_at r, ss_updated_at = sr_updated_at r \<rparr>)))
    | _ \<Rightarrow> Inl (inconsistent ''stored command receipt is not a Schedule outcome''))"

section \<open>Runs\<close>

definition encode_run_receipt :: "run_snapshot \<Rightarrow> stored_outcome" where
  "encode_run_receipt s = StoredRun
     \<lparr> rr_type = ''run'', rr_run_id = rs_run_id s,
       rr_workflow_version_id = rs_workflow_version_id s, rr_status = run_status_text (rs_status s),
       rr_suspended_from_status = map_option run_status_text (rs_suspended_from_status s),
       rr_version = rs_version s, rr_execution_generation = rs_execution_generation s,
       rr_next_event_sequence = rs_next_event_sequence s,
       rr_current_checkpoint_id = rs_current_checkpoint_id s,
       rr_terminal_event_id = rs_terminal_event_id s, rr_deadline = rs_deadline s,
       rr_updated_at = rs_updated_at s \<rparr>"

text \<open>\<open>Option::transpose\<close> of an optional parse.\<close>

definition parse_opt_run_status :: "string option \<Rightarrow> run_status option store_result" where
  "parse_opt_run_status v = (case v of None \<Rightarrow> Inr None
     | Some t \<Rightarrow> bindR (parse_run_status t) (\<lambda>s. Inr (Some s)))"

definition decode_run_receipt :: "uuid \<Rightarrow> stored_outcome \<Rightarrow> run_snapshot store_result" where
  "decode_run_receipt tenant v = (case v of
      StoredRun r \<Rightarrow>
        if rr_type r \<noteq> ''run''
        then Inl (inconsistent ''stored command receipt has the wrong outcome type'')
        else bindR (parse_run_status (rr_status r)) (\<lambda>status.
             bindR (parse_opt_run_status (rr_suspended_from_status r)) (\<lambda>suspended.
             Inr \<lparr> rs_tenant_id = tenant, rs_run_id = rr_run_id r,
               rs_workflow_version_id = rr_workflow_version_id r, rs_status = status,
               rs_suspended_from_status = suspended, rs_version = rr_version r,
               rs_execution_generation = rr_execution_generation r,
               rs_next_event_sequence = rr_next_event_sequence r,
               rs_current_checkpoint_id = rr_current_checkpoint_id r,
               rs_terminal_event_id = rr_terminal_event_id r, rs_deadline = rr_deadline r,
               rs_updated_at = rr_updated_at r \<rparr>))
    | _ \<Rightarrow> Inl (inconsistent ''stored command receipt is not a Run outcome''))"

section \<open>Tool and agent executions\<close>

definition encode_tool_receipt :: "tool_execution_snapshot \<Rightarrow> stored_outcome" where
  "encode_tool_receipt s = StoredTool
     \<lparr> tr_type = ''tool_execution'', tr_tool_execution_id = tes_tool_execution_id s,
       tr_run_id = tes_run_id s, tr_stage_execution_id = tes_stage_execution_id s,
       tr_task_id = tes_task_id s, tr_tool_call_id = tes_tool_call_id s,
       tr_tool_name = tes_tool_name s, tr_status = tool_status_text (tes_status s),
       tr_attempt_count = tes_attempt_count s, tr_external_ref = tes_external_ref s,
       tr_recovery_action = tes_recovery_action s, tr_retry_at = tes_retry_at s,
       tr_updated_at = tes_updated_at s \<rparr>"

definition decode_tool_receipt ::
  "uuid \<Rightarrow> stored_outcome \<Rightarrow> tool_execution_snapshot store_result" where
  "decode_tool_receipt tenant v = (case v of
      StoredTool r \<Rightarrow>
        if tr_type r \<noteq> ''tool_execution''
        then Inl (inconsistent ''stored command receipt has the wrong outcome type'')
        else bindR (parse_tool_status (tr_status r)) (\<lambda>status.
             Inr \<lparr> tes_tenant_id = tenant, tes_tool_execution_id = tr_tool_execution_id r,
               tes_run_id = tr_run_id r, tes_stage_execution_id = tr_stage_execution_id r,
               tes_task_id = tr_task_id r, tes_tool_call_id = tr_tool_call_id r,
               tes_tool_name = tr_tool_name r, tes_status = status,
               tes_attempt_count = tr_attempt_count r, tes_external_ref = tr_external_ref r,
               tes_recovery_action = tr_recovery_action r, tes_retry_at = tr_retry_at r,
               tes_updated_at = tr_updated_at r \<rparr>)
    | _ \<Rightarrow> Inl (inconsistent ''stored command receipt is not a ToolExecution outcome''))"

definition encode_agent_receipt :: "agent_execution_snapshot \<Rightarrow> stored_outcome" where
  "encode_agent_receipt s = StoredAgent
     \<lparr> ar_type = ''agent_execution'', ar_agent_execution_id = aes_agent_execution_id s,
       ar_run_id = aes_run_id s, ar_stage_execution_id = aes_stage_execution_id s,
       ar_task_id = aes_task_id s, ar_endpoint_id = aes_endpoint_id s,
       ar_agent_version_id = aes_agent_version_id s, ar_status = agent_status_text (aes_status s),
       ar_version = aes_version s, ar_remote_run_ref = aes_remote_run_ref s,
       ar_remote_session_ref = aes_remote_session_ref s,
       ar_remote_protocol_version = aes_remote_protocol_version s,
       ar_status_poll_at = aes_status_poll_at s, ar_event_cursor = aes_event_cursor s,
       ar_cursor_version = aes_cursor_version s, ar_retry_at = aes_retry_at s,
       ar_updated_at = aes_updated_at s \<rparr>"

definition decode_agent_receipt ::
  "uuid \<Rightarrow> stored_outcome \<Rightarrow> agent_execution_snapshot store_result" where
  "decode_agent_receipt tenant v = (case v of
      StoredAgent r \<Rightarrow>
        if ar_type r \<noteq> ''agent_execution''
        then Inl (inconsistent ''stored command receipt has the wrong outcome type'')
        else bindR (parse_agent_status (ar_status r)) (\<lambda>status.
             Inr \<lparr> aes_tenant_id = tenant, aes_agent_execution_id = ar_agent_execution_id r,
               aes_run_id = ar_run_id r, aes_stage_execution_id = ar_stage_execution_id r,
               aes_task_id = ar_task_id r, aes_endpoint_id = ar_endpoint_id r,
               aes_agent_version_id = ar_agent_version_id r, aes_status = status,
               aes_version = ar_version r, aes_remote_run_ref = ar_remote_run_ref r,
               aes_remote_session_ref = ar_remote_session_ref r,
               aes_remote_protocol_version = ar_remote_protocol_version r,
               aes_status_poll_at = ar_status_poll_at r, aes_event_cursor = ar_event_cursor r,
               aes_cursor_version = ar_cursor_version r, aes_retry_at = ar_retry_at r,
               aes_updated_at = ar_updated_at r \<rparr>)
    | _ \<Rightarrow> Inl (inconsistent ''stored receipt is not an AgentExecution outcome''))"

section \<open>Lease reclamation, due work and event batches\<close>

definition encode_lease_reclaim_receipt :: "lease_reclaim_outcome option \<Rightarrow> stored_outcome" where
  "encode_lease_reclaim_receipt outcome = StoredLeaseReclaim (case outcome of
      Some o' \<Rightarrow> \<lparr> lr_type = ''lease_reclaimed'', lr_run_id = Some (lro_run_id o'),
        lr_task_id = Some (lro_task_id o'), lr_attempt = Some (lro_attempt o'),
        lr_action = Some (case lro_action o' of LeaseRetryScheduled \<Rightarrow> ''retry_scheduled''
                            | LeaseDeadLettered \<Rightarrow> ''dead_lettered''),
        lr_reclaimed_at = Some (lro_reclaimed_at o') \<rparr>
    | None \<Rightarrow> \<lparr> lr_type = ''lease_reclaim_none'', lr_run_id = None, lr_task_id = None,
        lr_attempt = None, lr_action = None, lr_reclaimed_at = None \<rparr>)"

definition decode_lease_reclaim_receipt ::
  "uuid \<Rightarrow> stored_outcome \<Rightarrow> lease_reclaim_outcome option store_result" where
  "decode_lease_reclaim_receipt tenant v = (case v of
      StoredLeaseReclaim r \<Rightarrow>
        if lr_type r = ''lease_reclaim_none'' then
          (if lr_run_id r \<noteq> None \<or> lr_task_id r \<noteq> None \<or> lr_attempt r \<noteq> None
              \<or> lr_action r \<noteq> None \<or> lr_reclaimed_at r \<noteq> None
           then Inl (inconsistent ''empty Lease reclaim receipt has outcome data'')
           else Inr None)
        else if lr_type r \<noteq> ''lease_reclaimed''
        then Inl (inconsistent ''stored command receipt has the wrong Lease reclaim type'')
        else
          bindR (if lr_action r = Some ''retry_scheduled'' then Inr LeaseRetryScheduled
                 else if lr_action r = Some ''dead_lettered'' then Inr LeaseDeadLettered
                 else Inl (inconsistent ''Lease reclaim receipt has an invalid action'')) (\<lambda>action.
          bindR (ok_or (lr_run_id r) (inconsistent ''Lease reclaim receipt has no Run ID'')) (\<lambda>run.
          bindR (ok_or (lr_task_id r) (inconsistent ''Lease reclaim receipt has no Task ID'')) (\<lambda>task.
          bindR (ok_or (lr_attempt r) (inconsistent ''Lease reclaim receipt has no attempt'')) (\<lambda>attempt.
          bindR (ok_or (lr_reclaimed_at r)
                  (inconsistent ''Lease reclaim receipt has no timestamp'')) (\<lambda>at.
          Inr (Some \<lparr> lro_tenant_id = tenant, lro_run_id = run, lro_task_id = task,
            lro_attempt = attempt, lro_action = action, lro_reclaimed_at = at \<rparr>))))))
    | _ \<Rightarrow> Inl (inconsistent ''stored receipt is not a Lease reclaim outcome''))"

definition encode_due_work_receipt :: "due_work_outcome \<Rightarrow> stored_outcome" where
  "encode_due_work_receipt w = StoredDueWork
     \<lparr> dr_type = ''external_due_work'', dr_run_id = dwo_run_id w,
       dr_target_kind = (case dwo_target w of DueTool _ \<Rightarrow> ''tool'' | DueAgent _ \<Rightarrow> ''agent''),
       dr_execution_id = (case dwo_target w of DueTool i \<Rightarrow> i | DueAgent i \<Rightarrow> i),
       dr_recovery_task_id = dwo_recovery_task_id w,
       dr_run_status = run_status_text (dwo_run_status w),
       dr_execution_revision = dwo_execution_revision w,
       dr_applied_at = dwo_applied_at w \<rparr>"

definition decode_due_work_receipt ::
  "uuid \<Rightarrow> stored_outcome \<Rightarrow> due_work_outcome store_result" where
  "decode_due_work_receipt tenant v = (case v of
      StoredDueWork r \<Rightarrow>
        if dr_type r \<noteq> ''external_due_work''
        then Inl (inconsistent ''stored command receipt has the wrong outcome type'')
        else
          bindR (if dr_target_kind r = ''tool'' then Inr (DueTool (dr_execution_id r))
                 else if dr_target_kind r = ''agent'' then Inr (DueAgent (dr_execution_id r))
                 else Inl (inconsistent ''stored due-work receipt has an unknown target''))
            (\<lambda>target.
          bindR (parse_run_status (dr_run_status r)) (\<lambda>status.
          Inr \<lparr> dwo_tenant_id = tenant, dwo_run_id = dr_run_id r, dwo_target = target,
            dwo_recovery_task_id = dr_recovery_task_id r, dwo_run_status = status,
            dwo_execution_revision = dr_execution_revision r,
            dwo_applied_at = dr_applied_at r \<rparr>))
    | _ \<Rightarrow> Inl (inconsistent ''stored receipt is not a due-work outcome''))"

definition encode_agent_batch_receipt ::
  "agent_event_batch_outcome \<Rightarrow> uuid list \<Rightarrow> stored_outcome" where
  "encode_agent_batch_receipt b events = StoredAgentBatch
     \<lparr> br_type = ''agent_event_batch'', br_agent_execution_id = abo_agent_execution_id b,
       br_run_id = abo_run_id b, br_accepted_receipts = abo_accepted_receipts b,
       br_duplicate_receipts = abo_duplicate_receipts b,
       br_cursor_version = abo_cursor_version b, br_run_status = run_status_text (abo_run_status b),
       br_event_ids = events \<rparr>"

definition decode_agent_batch_receipt ::
  "uuid \<Rightarrow> stored_outcome \<Rightarrow> (agent_event_batch_outcome \<times> uuid list) store_result" where
  "decode_agent_batch_receipt tenant v = (case v of
      StoredAgentBatch r \<Rightarrow>
        if br_type r \<noteq> ''agent_event_batch''
        then Inl (inconsistent ''stored command receipt has the wrong outcome type'')
        else bindR (parse_run_status (br_run_status r)) (\<lambda>status.
             Inr (\<lparr> abo_tenant_id = tenant, abo_agent_execution_id = br_agent_execution_id r,
               abo_run_id = br_run_id r, abo_accepted_receipts = br_accepted_receipts r,
               abo_duplicate_receipts = br_duplicate_receipts r,
               abo_cursor_version = br_cursor_version r, abo_run_status = status \<rparr>,
               br_event_ids r))
    | _ \<Rightarrow> Inl (inconsistent ''stored receipt is not an Agent event batch outcome''))"

section \<open>Claims\<close>

definition encode_claim_receipt ::
  "externals \<Rightarrow> claimed_task option \<Rightarrow> stored_outcome store_result" where
  "encode_claim_receipt ext value = (case value of
      None \<Rightarrow> Inr StoredClaimNone
    | Some c \<Rightarrow>
        bindR (json_value ext (ts_input (ct_task c))) (\<lambda>input.
        Inr (StoredClaim
         \<lparr> cr_type = ''claim'', cr_task_id = ts_task_id (ct_task c),
           cr_run_id = ts_run_id (ct_task c),
           cr_stage_execution_id = ts_stage_execution_id (ct_task c),
           cr_logical_key = ts_logical_key (ct_task c), cr_kind = task_kind_text (ts_kind (ct_task c)),
           cr_generation = ts_generation (ct_task c), cr_attempt = ts_attempt (ct_task c),
           cr_max_attempts = ts_max_attempts (ct_task c),
           cr_available_at = ts_available_at (ct_task c), cr_input = input,
           cr_run_version = ct_run_version c, cr_lease_expires_at = ct_lease_expires_at c \<rparr>)))"

definition decode_claim_receipt ::
  "externals \<Rightarrow> uuid \<Rightarrow> stored_outcome \<Rightarrow> claimed_task option store_result" where
  "decode_claim_receipt ext tenant v = (case v of
      StoredClaimNone \<Rightarrow> Inr None
    | StoredClaim r \<Rightarrow>
        if cr_type r \<noteq> ''claim''
        then Inl (inconsistent ''stored command receipt has the wrong outcome type'')
        else
          bindR (case parse_logical_key (cr_logical_key r) of
                   Inl _ \<Rightarrow> Inl (inconsistent ''claim receipt contains an invalid logical key'')
                 | Inr k \<Rightarrow> Inr k) (\<lambda>key.
          bindR (parse_task_kind (cr_kind r)) (\<lambda>kind.
          Inr (Some \<lparr> ct_task = \<lparr> ts_tenant_id = tenant, ts_task_id = cr_task_id r,
              ts_run_id = cr_run_id r, ts_stage_execution_id = cr_stage_execution_id r,
              ts_logical_key = key, ts_kind = kind, ts_status = TaskLeased,
              ts_generation = cr_generation r, ts_attempt = cr_attempt r,
              ts_max_attempts = cr_max_attempts r, ts_available_at = cr_available_at r,
              ts_input = ext_to_vec ext (cr_input r) \<rparr>,
            ct_run_version = cr_run_version r, ct_lease_expires_at = cr_lease_expires_at r \<rparr>)))
    | _ \<Rightarrow> Inl (inconsistent ''stored command receipt is not a claim outcome''))"

section \<open>Round trips\<close>

named_theorems receipt_roundtrips \<open>a decoder reads back what its encoder wrote\<close>

lemma decode_encode_run [simp, receipt_roundtrips]:
  "decode_run_receipt (rs_tenant_id s) (encode_run_receipt s) = Inr s"
  by (cases "rs_suspended_from_status s")
     (simp_all add: decode_run_receipt_def encode_run_receipt_def parse_opt_run_status_def)

lemma decode_encode_tool [simp, receipt_roundtrips]:
  "decode_tool_receipt (tes_tenant_id s) (encode_tool_receipt s) = Inr s"
  by (simp add: decode_tool_receipt_def encode_tool_receipt_def)

lemma decode_encode_agent [simp, receipt_roundtrips]:
  "decode_agent_receipt (aes_tenant_id s) (encode_agent_receipt s) = Inr s"
  by (simp add: decode_agent_receipt_def encode_agent_receipt_def)

lemma decode_encode_lease_reclaim [simp, receipt_roundtrips]:
  "decode_lease_reclaim_receipt tenant (encode_lease_reclaim_receipt None) = Inr None"
  "decode_lease_reclaim_receipt (lro_tenant_id o') (encode_lease_reclaim_receipt (Some o'))
   = Inr (Some o')"
  by (cases "lro_action o'";
      simp add: decode_lease_reclaim_receipt_def encode_lease_reclaim_receipt_def)+

lemma decode_encode_due_work [simp, receipt_roundtrips]:
  "decode_due_work_receipt (dwo_tenant_id w) (encode_due_work_receipt w) = Inr w"
  by (cases "dwo_target w")
     (simp_all add: decode_due_work_receipt_def encode_due_work_receipt_def)

lemma decode_encode_agent_batch [simp, receipt_roundtrips]:
  "decode_agent_batch_receipt (abo_tenant_id b) (encode_agent_batch_receipt b es) = Inr (b, es)"
  by (simp add: decode_agent_batch_receipt_def encode_agent_batch_receipt_def)

text \<open>
  A claim stores the task's input as a JSON value and writes it out again: the claim read back is
  the one stored when the input is the text \<open>serde_json\<close> writes for its own value, as it is for a
  claim made from the database.
\<close>

lemma decode_encode_claim [receipt_roundtrips]:
  assumes "encode_claim_receipt ext (Some c) = Inr v"
    and "ts_status (ct_task c) = TaskLeased"
    and "parse_logical_key (ts_logical_key (ct_task c)) = Inr k"
    and "\<And>j. ext_from_slice ext (ts_input (ct_task c)) = Some j
              \<Longrightarrow> ext_to_vec ext j = ts_input (ct_task c)"
  shows "decode_claim_receipt ext (ts_tenant_id (ct_task c)) v = Inr (Some c)"
proof -
  have "k = ts_logical_key (ct_task c)"
    using assms(3) by (simp add: parse_logical_key_def key_parse_Inr_iff)
  with assms show ?thesis
    by (cases c; cases "ct_task c")
       (auto simp: encode_claim_receipt_def decode_claim_receipt_def json_value_def bindR_Inr_iff
          ok_or_Inr_iff)
qed

lemma decode_encode_claim_none [simp]:
  "encode_claim_receipt ext None = Inr StoredClaimNone"
  "decode_claim_receipt ext tenant StoredClaimNone = Inr None"
  by (simp_all add: encode_claim_receipt_def decode_claim_receipt_def)

lemma decode_encode_schedule [receipt_roundtrips]:
  assumes "encode_schedule_receipt ext s = Inr v"
    and "\<And>j. ext_from_slice ext (ss_input s) = Some j \<Longrightarrow> ext_to_vec ext j = ss_input s"
  shows "decode_schedule_receipt ext (ss_tenant_id s) v = Inr s"
  using assms
  by (cases "ss_status s"; cases "ss_misfire_policy s"; cases "ss_concurrency_policy s")
     (auto simp: encode_schedule_receipt_def decode_schedule_receipt_def json_value_def
        bindR_Inr_iff ok_or_Inr_iff misfire_policy_value_def parse_misfire_policy_def
        concurrency_policy_value_def parse_concurrency_policy_def)

lemma schedule_receipt_normalises:
  "case ext_from_slice ext (ss_input s) of
      None \<Rightarrow> \<exists>e. encode_schedule_receipt ext s = Inl e
    | Some j \<Rightarrow> \<exists>v. encode_schedule_receipt ext s = Inr v
        \<and> decode_schedule_receipt ext (ss_tenant_id s) v = Inr (s\<lparr>ss_input := ext_to_vec ext j\<rparr>)"
  by (cases "ss_status s"; cases "ss_misfire_policy s"; cases "ss_concurrency_policy s")
     (auto simp: encode_schedule_receipt_def decode_schedule_receipt_def json_value_def ok_or_def
        misfire_policy_value_def parse_misfire_policy_def concurrency_policy_value_def parse_concurrency_policy_def
        split: option.splits)

lemma claim_receipt_normalises:
  "case ext_from_slice ext (ts_input (ct_task k)) of
      None \<Rightarrow> \<exists>e. encode_claim_receipt ext (Some k) = Inl e
    | Some j \<Rightarrow> \<exists>v. encode_claim_receipt ext (Some k) = Inr v
        \<and> (case parse_logical_key (ts_logical_key (ct_task k)) of
             Inl _ \<Rightarrow> \<exists>e. decode_claim_receipt ext (ts_tenant_id (ct_task k)) v = Inl e
           | Inr _ \<Rightarrow> decode_claim_receipt ext (ts_tenant_id (ct_task k)) v
               = Inr (Some (k\<lparr>ct_task := (ct_task k)\<lparr>ts_status := TaskLeased, ts_input := ext_to_vec ext j\<rparr>\<rparr>)))"
proof -
  have key: "n = s" if "parse_logical_key s = Inr n" for s n
    using that by (simp add: parse_logical_key_def key_parse_Inr_iff)
  show ?thesis
    by (cases k; cases "ct_task k")
       (auto simp: encode_claim_receipt_def decode_claim_receipt_def json_value_def ok_or_def
          split: option.splits sum.splits dest!: key)
qed

text \<open>
  C40: the outcome a receipt stores is read back by the command that is replayed. For runs, tool and
  agent executions, lease reclamations (also the empty one), due work, agent event batches and an empty
  claim it is read back unchanged. The receipts of a schedule and of a claimed task hold a JSON input:
  it is stored as a value and read back as the text of that value, everything else of a schedule is
  unchanged, a claimed task is leased, and an input that is not JSON, or a claimed task whose logical
  key is not valid, is an error.
\<close>

theorem stored_outcome_roundtrip:
  "decode_run_receipt (rs_tenant_id run) (encode_run_receipt run) = Inr run
   \<and> decode_tool_receipt (tes_tenant_id tool) (encode_tool_receipt tool) = Inr tool
   \<and> decode_agent_receipt (aes_tenant_id agent) (encode_agent_receipt agent) = Inr agent
   \<and> decode_lease_reclaim_receipt tenant (encode_lease_reclaim_receipt None) = Inr None
   \<and> decode_lease_reclaim_receipt (lro_tenant_id lease)
       (encode_lease_reclaim_receipt (Some lease)) = Inr (Some lease)
   \<and> decode_due_work_receipt (dwo_tenant_id due) (encode_due_work_receipt due) = Inr due
   \<and> decode_agent_batch_receipt (abo_tenant_id batch) (encode_agent_batch_receipt batch events)
       = Inr (batch, events)
   \<and> (\<exists>v. encode_claim_receipt ext None = Inr v \<and> decode_claim_receipt ext tenant v = Inr None)
   \<and> (case ext_from_slice ext (ss_input schedule) of
        None \<Rightarrow> \<exists>e. encode_schedule_receipt ext schedule = Inl e
      | Some j \<Rightarrow> \<exists>v. encode_schedule_receipt ext schedule = Inr v
          \<and> decode_schedule_receipt ext (ss_tenant_id schedule) v = Inr (schedule\<lparr>ss_input := ext_to_vec ext j\<rparr>))
   \<and> (case ext_from_slice ext (ts_input (ct_task claim)) of
        None \<Rightarrow> \<exists>e. encode_claim_receipt ext (Some claim) = Inl e
      | Some j \<Rightarrow> \<exists>v. encode_claim_receipt ext (Some claim) = Inr v
          \<and> (case parse_logical_key (ts_logical_key (ct_task claim)) of
               Inl _ \<Rightarrow> \<exists>e. decode_claim_receipt ext (ts_tenant_id (ct_task claim)) v = Inl e
             | Inr _ \<Rightarrow> decode_claim_receipt ext (ts_tenant_id (ct_task claim)) v
                 = Inr (Some (claim\<lparr>ct_task := (ct_task claim)\<lparr>ts_status := TaskLeased, ts_input := ext_to_vec ext j\<rparr>\<rparr>))))"
  using schedule_receipt_normalises [of ext schedule] claim_receipt_normalises [of ext claim]
  by (simp add: receipt_roundtrips)

end
