(* ===== verification/StoreTables.thy ===== *)
theory StoreTables
  imports ExecutionPlan ReceiptCodec
begin

text \<open>
  The tables of the PostgreSQL store (\<open>crates/store-postgres/migrations\<close>) that the transaction
  executor reads and writes, as records of rows, and a database transaction as a function of the
  database: it either returns a value and the new database, or an error, and then nothing is
  committed. The SQL statements of \<open>transaction_executor.rs\<close> are updates, counts and queries on
  the lists of rows; an \<open>INSERT\<close> is rejected when a key it must not repeat is already there,
  when a row it refers to is missing, or when a check on the inserted row fails.
\<close>

section \<open>Rows\<close>

record run_row =
  r_id :: uuid
  r_tenant :: uuid
  r_workflow_version :: "uuid option"
  r_coordinator :: "uuid option"
  r_parent_run :: "uuid option"
  r_parent_task :: "uuid option"
  r_schedule :: "uuid option"
  r_scheduled_fire_at :: "micros option"
  r_replay_of :: "uuid option"
  r_status :: run_status
  r_suspended_from :: "run_status option"
  r_version :: int
  r_generation :: int
  r_next_seq :: int
  r_checkpoint :: "uuid option"
  r_terminal_event :: "uuid option"
  r_input :: json
  r_state_summary :: json
  r_deadline :: "micros option"
  r_resume_blocked :: "string option"
  r_plan_revision :: "uuid option \<times> int"
  r_context_revision :: "uuid option \<times> int"
  r_created_by :: string
  r_created_at :: micros
  r_updated_at :: micros
  r_terminal_at :: "micros option"

record event_row =
  e_id :: uuid
  e_tenant :: uuid
  e_run :: uuid
  e_seq :: int
  e_type :: string
  e_payload :: json
  e_schema_version :: int
  e_producer :: string
  e_actor :: string
  e_correlation :: uuid
  e_idempotency_key :: string
  e_occurred_at :: "micros option"
  e_recorded_at :: micros

datatype outbox_status = OutPending | OutPublishing | OutPublished

record outbox_row =
  o_id :: uuid
  o_tenant :: uuid
  o_event :: uuid
  o_run :: uuid
  o_topic :: string
  o_partition_key :: string
  o_payload :: json
  o_status :: outbox_status
  o_attempt :: int
  o_available_at :: micros
  o_lease_owner :: "uuid option"
  o_lease_token :: "lease_token option"
  o_lease_expires_at :: "micros option"
  o_last_error :: "string option"
  o_created_at :: micros
  o_published_at :: "micros option"

record task_row =
  t_id :: uuid
  t_tenant :: uuid
  t_run :: uuid
  t_stage :: "uuid option"
  t_key :: string
  t_kind :: task_kind
  t_status :: task_status
  t_join_policy :: join_policy
  t_generation :: int
  t_checkpoint_seq :: "int option"
  t_priority :: int
  t_available_at :: micros
  t_attempt :: int
  t_max_attempts :: int
  t_lease_owner :: "uuid option"
  t_lease_token :: "lease_token option"
  t_lease_expires_at :: "micros option"
  t_input :: json
  t_result :: "json option"
  t_error_code :: "string option"
  t_error :: "json option"
  t_deadline :: "micros option"
  t_created_event :: uuid
  t_created_at :: micros
  t_updated_at :: micros
  t_completed_at :: "micros option"

datatype attempt_outcome =
    AttemptSucceeded | AttemptFailed | AttemptLeaseExpired | AttemptCancelled

record attempt_row =
  a_id :: uuid
  a_tenant :: uuid
  a_task :: uuid
  a_run :: uuid
  a_attempt :: int
  a_worker :: uuid
  a_token_digest :: digest
  a_claimed_at :: micros
  a_lease_expires_at :: micros
  a_finished_at :: "micros option"
  a_outcome :: "attempt_outcome option"
  a_error_code :: "string option"

record stage_row =
  s_id :: uuid
  s_tenant :: uuid
  s_run :: uuid
  s_key :: string
  s_definition_key :: "string option"
  s_status :: stage_status
  s_version :: int
  s_attempt :: int
  s_assignee_kind :: "string option"
  s_assignee_ref :: "string option"
  s_input_contract :: json
  s_output_contract :: json
  s_policy :: json
  s_generated_by :: "uuid option"
  s_started_at :: "micros option"
  s_completed_at :: "micros option"
  s_created_at :: micros
  s_updated_at :: micros

record checkpoint_row =
  c_id :: uuid
  c_tenant :: uuid
  c_run :: uuid
  c_seq :: int
  c_schema_version :: int
  c_workflow_version :: "uuid option"
  c_coordinator :: "uuid option"
  c_generation :: int
  c_state :: json
  c_digest :: digest
  c_event :: uuid
  c_created_at :: micros

record wait_row =
  w_id :: uuid
  w_tenant :: uuid
  w_run :: uuid
  w_stage :: "uuid option"
  w_type :: string
  w_event_type :: string
  w_match_hash :: digest
  w_contract :: json
  w_status :: wait_status
  w_active_slot :: "int option"
  w_expires_at :: "micros option"
  w_consumed_by :: "uuid option"
  w_created_event :: uuid
  w_created_at :: micros
  w_consumed_at :: "micros option"
  w_updated_at :: micros
  w_resume_task :: uuid
  w_resume_key :: string
  w_resume_kind :: task_kind
  w_resume_priority :: int
  w_resume_max_attempts :: int
  w_resume_input :: json
  w_resume_deadline :: "micros option"

record dependency_row =
  d_tenant :: uuid
  d_run :: uuid
  d_task :: uuid
  d_prerequisite :: uuid
  d_condition :: json
  d_event :: uuid
  d_created_at :: micros

record artifact_row =
  f_id :: uuid
  f_tenant :: uuid
  f_run :: uuid
  f_stage :: "uuid option"
  f_task :: "uuid option"
  f_key :: string
  f_kind :: string
  f_contract_version :: int
  f_version :: int
  f_uri :: string
  f_digest :: digest
  f_media_type :: string
  f_size :: int
  f_sources :: json
  f_metadata :: json
  f_produced_by :: string
  f_event :: uuid
  f_created_at :: micros

record tool_row =
  x_id :: uuid
  x_tenant :: uuid
  x_run :: uuid
  x_stage :: "uuid option"
  x_task :: uuid
  x_call_id :: string
  x_name :: string
  x_scope :: string
  x_key :: string
  x_hash :: digest
  x_status :: tool_status
  x_attempts :: int
  x_request :: json
  x_result :: "json option"
  x_error_code :: "string option"
  x_recovery_action :: "string option"
  x_external_ref :: "string option"
  x_started_at :: micros
  x_created_at :: micros
  x_updated_at :: micros
  x_completed_at :: "micros option"
  x_retry_at :: "micros option"

record tool_attempt_row =
  y_id :: uuid
  y_tenant :: uuid
  y_tool :: uuid
  y_run :: uuid
  y_attempt :: int
  y_started_at :: micros
  y_finished_at :: "micros option"
  y_error_code :: "string option"
  y_retry_class :: "string option"
  y_remote_request :: "string option"
  y_external_ref :: "string option"
  y_response_digest :: "digest option"
  y_outcome :: "string option"
  y_metrics :: json

record agent_row =
  g_id :: uuid
  g_tenant :: uuid
  g_run :: uuid
  g_stage :: "uuid option"
  g_task :: uuid
  g_endpoint :: uuid
  g_agent_version :: uuid
  g_key :: string
  g_hash :: digest
  g_remote_run :: "string option"
  g_remote_session :: "string option"
  g_status :: agent_status
  g_version :: int
  g_capabilities :: json
  g_event_cursor :: "string option"
  g_cursor_version :: int
  g_stop_requested_at :: "micros option"
  g_stop_outcome :: "string option"
  g_result :: "json option"
  g_error_code :: "string option"
  g_last_synced_at :: "micros option"
  g_created_at :: micros
  g_updated_at :: micros
  g_completed_at :: "micros option"
  g_retry_at :: "micros option"
  g_request :: json
  g_remote_protocol :: "string option"
  g_status_poll_at :: "micros option"

record plan_row =
  v_id :: uuid
  v_tenant :: uuid
  v_run :: uuid
  v_revision :: int
  v_parent :: "uuid option"
  v_schema_version :: int
  v_key :: string
  v_plan :: json
  v_digest :: digest
  v_summary :: json
  v_event :: uuid
  v_created_by :: string
  v_created_at :: micros

record context_row =
  k_id :: uuid
  k_tenant :: uuid
  k_run :: uuid
  k_revision :: int
  k_parent :: "uuid option"
  k_schema_version :: int
  k_value :: json
  k_digest :: digest
  k_event :: uuid
  k_created_by :: string
  k_created_at :: micros

record context_patch_row =
  h_id :: uuid
  h_tenant :: uuid
  h_run :: uuid
  h_base :: uuid
  h_result :: uuid
  h_schema_version :: int
  h_strategy :: string
  h_patch :: json
  h_event :: uuid
  h_created_by :: string
  h_created_at :: micros

record context_ref_row =
  j_tenant :: uuid
  j_run :: uuid
  j_task :: uuid
  j_context :: uuid
  j_projection :: json
  j_event :: uuid
  j_created_at :: micros

record schedule_row =
  z_id :: uuid
  z_tenant :: uuid
  z_workflow_version :: uuid
  z_cron :: string
  z_timezone :: string
  z_input :: json
  z_status :: schedule_status
  z_misfire :: schedule_misfire_policy
  z_concurrency :: schedule_concurrency_policy
  z_catch_up_limit :: int
  z_next_fire_at :: micros
  z_last_fire_at :: "micros option"
  z_version :: int
  z_created_by :: string
  z_created_at :: micros
  z_updated_at :: micros

text \<open>The events of a remote agent that were recorded, for their deduplication.\<close>

record agent_receipt_row =
  q_id :: uuid
  q_tenant :: uuid
  q_agent :: uuid
  q_run :: uuid
  q_dedupe_key :: digest
  q_source_event :: "string option"
  q_source_sequence :: "int option"
  q_source_cursor :: "string option"
  q_kind :: string
  q_raw_digest :: digest
  q_local_event :: "uuid option"
  q_recorded_at :: micros

datatype receipt_kind = ReceiptUnknown | ReceiptApplied | ReceiptNoOp

record receipt_row =
  p_id :: uuid
  p_tenant :: uuid
  p_scope :: string
  p_key :: string
  p_hash :: digest
  p_kind :: receipt_kind
  p_outcome :: stored_outcome
  p_event :: "uuid option"
  p_resource :: "(string \<times> uuid \<times> int) option"
  p_created_at :: micros
  p_expires_at :: int

text \<open>The database: one list of rows per table.\<close>

record db =
  db_runs :: "run_row list"
  db_events :: "event_row list"
  db_outbox :: "outbox_row list"
  db_receipts :: "receipt_row list"
  db_tasks :: "task_row list"
  db_attempts :: "attempt_row list"
  db_stages :: "stage_row list"
  db_checkpoints :: "checkpoint_row list"
  db_waits :: "wait_row list"
  db_deps :: "dependency_row list"
  db_artifacts :: "artifact_row list"
  db_tools :: "tool_row list"
  db_agents :: "agent_row list"
  db_tool_attempts :: "tool_attempt_row list"
  db_plans :: "plan_row list"
  db_contexts :: "context_row list"
  db_context_patches :: "context_patch_row list"
  db_context_refs :: "context_ref_row list"
  db_schedules :: "schedule_row list"
  db_agent_receipts :: "agent_receipt_row list"

definition empty_db :: db where
  "empty_db = \<lparr> db_runs = [], db_events = [], db_outbox = [], db_receipts = [], db_tasks = [],
     db_attempts = [], db_stages = [], db_checkpoints = [], db_waits = [], db_deps = [],
     db_artifacts = [], db_tools = [], db_agents = [], db_tool_attempts = [],
     db_plans = [], db_contexts = [], db_context_patches = [], db_context_refs = [],
     db_schedules = [], db_agent_receipts = [] \<rparr>"

section \<open>Transactions\<close>

text \<open>
  The body of a transaction: a function of the database that fails, and is rolled back, or
  returns a value and the database to commit. \<open>bindT\<close> sequences statements the way \<open>?\<close> and
  \<open>await\<close> do.
\<close>

type_synonym 'a txn = "db \<Rightarrow> store_error + ('a \<times> db)"

definition returnT :: "'a \<Rightarrow> 'a txn" where
  "returnT x db = Inr (x, db)"

definition failT :: "store_error \<Rightarrow> 'a txn" where
  "failT e db = Inl e"

definition bindT :: "'a txn \<Rightarrow> ('a \<Rightarrow> 'b txn) \<Rightarrow> 'b txn" where
  "bindT m f db = (case m db of Inl e \<Rightarrow> Inl e | Inr (x, db') \<Rightarrow> f x db')"

definition thenT :: "unit txn \<Rightarrow> 'b txn \<Rightarrow> 'b txn" where
  "thenT m k = bindT m (\<lambda>_. k)"

definition liftT :: "store_error + 'a \<Rightarrow> 'a txn" where
  "liftT r db = (case r of Inl e \<Rightarrow> Inl e | Inr x \<Rightarrow> Inr (x, db))"

definition guardT :: "bool \<Rightarrow> store_error \<Rightarrow> unit txn" where
  "guardT b e db = (if b then Inr ((), db) else Inl e)"

definition queryT :: "(db \<Rightarrow> 'a) \<Rightarrow> 'a txn" where
  "queryT f db = Inr (f db, db)"

definition modifyT :: "(db \<Rightarrow> db) \<Rightarrow> unit txn" where
  "modifyT f db = Inr ((), f db)"

text \<open>What is left of a transaction: its answer, and the committed or the untouched database.\<close>

definition run_txn :: "'a txn \<Rightarrow> db \<Rightarrow> (store_error + 'a) \<times> db" where
  "run_txn m db = (case m db of Inl e \<Rightarrow> (Inl e, db) | Inr (x, db') \<Rightarrow> (Inr x, db'))"

named_theorems txn_iffs \<open>when a step of a transaction returns, and with what\<close>

lemma returnT_iff [txn_iffs]: "returnT x db = Inr (y, db') \<longleftrightarrow> y = x \<and> db' = db"
  by (auto simp: returnT_def)

lemma failT_iff [txn_iffs]: "failT e db = Inr r \<longleftrightarrow> False"
  by (simp add: failT_def)

lemma bindT_iff [txn_iffs]:
  "bindT m f db = Inr r \<longleftrightarrow> (\<exists>x db1. m db = Inr (x, db1) \<and> f x db1 = Inr r)"
  by (auto simp: bindT_def split: sum.splits prod.splits)

lemma thenT_iff [txn_iffs]:
  "thenT m k db = Inr r \<longleftrightarrow> (\<exists>db1. m db = Inr ((), db1) \<and> k db1 = Inr r)"
  by (simp add: thenT_def bindT_iff)

lemma liftT_iff [txn_iffs]: "liftT q db = Inr (x, db') \<longleftrightarrow> q = Inr x \<and> db' = db"
  by (auto simp: liftT_def split: sum.splits)

lemma guardT_iff [txn_iffs]: "guardT b e db = Inr (u, db') \<longleftrightarrow> b \<and> db' = db"
  by (auto simp: guardT_def)

lemma queryT_iff [txn_iffs]: "queryT f db = Inr (x, db') \<longleftrightarrow> x = f db \<and> db' = db"
  by (auto simp: queryT_def)

lemma modifyT_iff [txn_iffs]: "modifyT f db = Inr (x, db') \<longleftrightarrow> db' = f db"
  by (auto simp: modifyT_def)

lemma bindT_run:
  "m db = Inr (x, db1) \<Longrightarrow> bindT m f db = f x db1"
  "m db = Inl e \<Longrightarrow> bindT m f db = Inl e"
  by (simp_all add: bindT_def)

text \<open>A loop over a list, in a transaction.\<close>

fun foldT :: "('a \<Rightarrow> unit txn) \<Rightarrow> 'a list \<Rightarrow> unit txn" where
  "foldT f [] = returnT ()"
| "foldT f (x # xs) = thenT (f x) (foldT f xs)"

lemma foldT_invariant:
  assumes "foldT f xs db = Inr (u, db')" and "I db"
    and "\<And>x db u db'. x \<in> set xs \<Longrightarrow> f x db = Inr (u, db') \<Longrightarrow> I db \<Longrightarrow> I db'"
  shows "I db'"
  using assms
proof (induction xs arbitrary: db)
  case (Cons x xs)
  from Cons.prems(1) obtain db1 where "f x db = Inr ((), db1)" "foldT f xs db1 = Inr (u, db')"
    by (auto simp: txn_iffs)
  with Cons.prems Cons.IH [of db1] show ?case by auto
qed (simp add: txn_iffs)

section \<open>Database errors\<close>

text \<open>\<open>map_database_error\<close> on the SQLSTATE of the server's error.\<close>

definition map_database_error :: "string option \<Rightarrow> store_error" where
  "map_database_error code =
    (if code = Some ''40001'' \<or> code = Some ''40P01''
     then StoreError SerializationConflict RetryBackoff ''database transaction must be retried''
     else if (case code of None \<Rightarrow> False | Some v \<Rightarrow> take 2 v = ''23'')
     then StoreError ConstraintViolation RetryNever ''database constraint rejected the command''
     else if code = Some ''55P03'' \<or> code = Some ''57014''
     then StoreError StoreUnavailable RetryBackoff ''database lock or statement timeout''
     else StoreError StoreUnavailable RetryBackoff ''PostgreSQL operation failed'')"

abbreviation unique_violation :: store_error where
  "unique_violation \<equiv> map_database_error (Some ''23505'')"
abbreviation foreign_key_violation :: store_error where
  "foreign_key_violation \<equiv> map_database_error (Some ''23503'')"
abbreviation check_violation :: store_error where
  "check_violation \<equiv> map_database_error (Some ''23514'')"
abbreviation bigint_out_of_range :: store_error where
  "bigint_out_of_range \<equiv> map_database_error (Some ''22003'')"

section \<open>Statements\<close>

text \<open>
  The \<open>CHECK\<close> constraints on the columns that updates change; those that compare times with the
  creation time of the row are left out.
\<close>

definition revision_checks :: "uuid option \<times> int \<Rightarrow> bool" where
  "revision_checks r \<longleftrightarrow> (fst r = None \<and> snd r = 0) \<or> (fst r \<noteq> None \<and> 1 \<le> snd r)"

definition run_checks :: "run_row \<Rightarrow> bool" where
  "run_checks r \<longleftrightarrow>
     (if r_status r = RunPaused
      then r_suspended_from r \<in> Some ` {RunQueued, RunRunning, RunWaiting, RunApprovalRequired, RunRetrying}
      else r_suspended_from r = None)
     \<and> 0 \<le> r_version r \<and> 0 \<le> r_generation r \<and> 1 \<le> r_next_seq r
     \<and> (if run_terminal (r_status r) then r_terminal_event r \<noteq> None \<and> r_terminal_at r \<noteq> None
        else r_terminal_event r = None \<and> r_terminal_at r = None)
     \<and> revision_checks (r_plan_revision r) \<and> revision_checks (r_context_revision r)"

definition task_checks :: "task_row \<Rightarrow> bool" where
  "task_checks t \<longleftrightarrow> 0 \<le> t_generation t
     \<and> 0 \<le> t_attempt t \<and> 1 \<le> t_max_attempts t \<and> t_attempt t \<le> t_max_attempts t
     \<and> (if t_status t = TaskLeased
        then t_lease_owner t \<noteq> None \<and> t_lease_token t \<noteq> None \<and> t_lease_expires_at t \<noteq> None
        else t_lease_owner t = None \<and> t_lease_token t = None \<and> t_lease_expires_at t = None)
     \<and> (task_terminal (t_status t) \<longleftrightarrow> t_completed_at t \<noteq> None)
     \<and> t_error_code t \<noteq> Some []"

definition attempt_checks :: "attempt_row \<Rightarrow> bool" where
  "attempt_checks a \<longleftrightarrow> 1 \<le> a_attempt a
     \<and> (if a_finished_at a = None then a_outcome a = None \<and> a_error_code a = None
        else a_outcome a \<noteq> None)
     \<and> a_error_code a \<noteq> Some [] \<and> a_claimed_at a \<le> a_lease_expires_at a"

definition stage_checks :: "stage_row \<Rightarrow> bool" where
  "stage_checks s \<longleftrightarrow> 0 \<le> s_version s \<and> 1 \<le> s_attempt s
     \<and> (stage_terminal (s_status s) \<longleftrightarrow> s_completed_at s \<noteq> None)"

definition wait_checks :: "wait_row \<Rightarrow> bool" where
  "wait_checks w \<longleftrightarrow> (case w_status w of
       WaitOpen \<Rightarrow> w_active_slot w = Some 1 \<and> w_consumed_by w = None \<and> w_consumed_at w = None
     | WaitConsumed \<Rightarrow> w_active_slot w = None \<and> w_consumed_by w \<noteq> None \<and> w_consumed_at w \<noteq> None
     | _ \<Rightarrow> w_active_slot w = None \<and> w_consumed_by w = None \<and> w_consumed_at w = None)"

definition agent_checks :: "agent_row \<Rightarrow> bool" where
  "agent_checks g \<longleftrightarrow> 0 \<le> g_version g \<and> g_error_code g \<noteq> Some []
     \<and> (agent_terminal (g_status g) \<longleftrightarrow> g_completed_at g \<noteq> None)
     \<and> (g_retry_at g = None \<or> g_status g = AgentReconciling)
     \<and> 0 \<le> g_cursor_version g \<and> g_remote_run g \<noteq> Some [] \<and> g_remote_session g \<noteq> Some []
     \<and> g_remote_protocol g \<noteq> Some []
     \<and> (case g_stop_outcome g of None \<Rightarrow> True | Some s \<Rightarrow> g_stop_requested_at g \<noteq> None \<and> s \<noteq> [])"

definition tool_checks :: "tool_row \<Rightarrow> bool" where
  "tool_checks x \<longleftrightarrow> x_error_code x \<noteq> Some []
     \<and> (x_status x = ToolOutcomeUnknown \<longrightarrow> x_recovery_action x \<noteq> None \<and> x_recovery_action x \<noteq> Some [])
     \<and> (tool_terminal (x_status x) \<longleftrightarrow> x_completed_at x \<noteq> None)
     \<and> (x_status x = ToolRetryScheduled \<longleftrightarrow> x_retry_at x \<noteq> None)
     \<and> 0 \<le> x_attempts x \<and> x_external_ref x \<noteq> Some []"

definition outbox_checks :: "outbox_row \<Rightarrow> bool" where
  "outbox_checks m \<longleftrightarrow> 0 \<le> o_attempt m
     \<and> (if o_status m = OutPublishing
        then o_lease_owner m \<noteq> None \<and> o_lease_token m \<noteq> None \<and> o_lease_expires_at m \<noteq> None
        else o_lease_owner m = None \<and> o_lease_token m = None \<and> o_lease_expires_at m = None)
     \<and> (o_status m = OutPublished \<longleftrightarrow> o_published_at m \<noteq> None)"

lemmas check_defs = run_checks_def revision_checks_def task_checks_def attempt_checks_def stage_checks_def
  wait_checks_def agent_checks_def tool_checks_def outbox_checks_def

text \<open>
  \<open>UPDATE .. WHERE ..\<close> returns the number of rows it touched, and fails when a row it wrote
  violates a check.
\<close>

definition updates_pass :: "('r \<Rightarrow> bool) \<Rightarrow> ('r \<Rightarrow> bool) \<Rightarrow> ('r \<Rightarrow> 'r) \<Rightarrow> 'r list \<Rightarrow> bool" where
  "updates_pass ok P f rows = list_all (\<lambda>r. P r \<longrightarrow> ok (f r)) rows"

lemma updates_pass_iff: "updates_pass ok P f rows \<longleftrightarrow> (\<forall>r \<in> set rows. P r \<longrightarrow> ok (f r))"
  by (auto simp: updates_pass_def list_all_iff)

lemma updates_passD: "updates_pass ok P f rows \<Longrightarrow> r \<in> set rows \<Longrightarrow> P r \<Longrightarrow> ok (f r)"
  by (simp add: updates_pass_iff)

definition update_runs :: "(run_row \<Rightarrow> bool) \<Rightarrow> (run_row \<Rightarrow> run_row) \<Rightarrow> nat txn" where
  "update_runs P f db =
    (if updates_pass run_checks P f (db_runs db)
     then Inr (sql_count P (db_runs db), db\<lparr>db_runs := sql_update P f (db_runs db)\<rparr>)
     else Inl check_violation)"

definition update_tasks :: "(task_row \<Rightarrow> bool) \<Rightarrow> (task_row \<Rightarrow> task_row) \<Rightarrow> nat txn" where
  "update_tasks P f db =
    (if updates_pass task_checks P f (db_tasks db)
     then Inr (sql_count P (db_tasks db), db\<lparr>db_tasks := sql_update P f (db_tasks db)\<rparr>)
     else Inl check_violation)"

definition update_attempts :: "(attempt_row \<Rightarrow> bool) \<Rightarrow> (attempt_row \<Rightarrow> attempt_row) \<Rightarrow> nat txn" where
  "update_attempts P f db =
    (if updates_pass attempt_checks P f (db_attempts db)
     then Inr (sql_count P (db_attempts db), db\<lparr>db_attempts := sql_update P f (db_attempts db)\<rparr>)
     else Inl check_violation)"

definition update_stages :: "(stage_row \<Rightarrow> bool) \<Rightarrow> (stage_row \<Rightarrow> stage_row) \<Rightarrow> nat txn" where
  "update_stages P f db =
    (if updates_pass stage_checks P f (db_stages db)
     then Inr (sql_count P (db_stages db), db\<lparr>db_stages := sql_update P f (db_stages db)\<rparr>)
     else Inl check_violation)"

definition update_waits :: "(wait_row \<Rightarrow> bool) \<Rightarrow> (wait_row \<Rightarrow> wait_row) \<Rightarrow> nat txn" where
  "update_waits P f db =
    (if updates_pass wait_checks P f (db_waits db)
     then Inr (sql_count P (db_waits db), db\<lparr>db_waits := sql_update P f (db_waits db)\<rparr>)
     else Inl check_violation)"

definition update_agents :: "(agent_row \<Rightarrow> bool) \<Rightarrow> (agent_row \<Rightarrow> agent_row) \<Rightarrow> nat txn" where
  "update_agents P f db =
    (if updates_pass agent_checks P f (db_agents db)
     then Inr (sql_count P (db_agents db), db\<lparr>db_agents := sql_update P f (db_agents db)\<rparr>)
     else Inl check_violation)"

definition update_tools :: "(tool_row \<Rightarrow> bool) \<Rightarrow> (tool_row \<Rightarrow> tool_row) \<Rightarrow> nat txn" where
  "update_tools P f db =
    (if updates_pass tool_checks P f (db_tools db)
     then Inr (sql_count P (db_tools db), db\<lparr>db_tools := sql_update P f (db_tools db)\<rparr>)
     else Inl check_violation)"

definition update_outbox :: "(outbox_row \<Rightarrow> bool) \<Rightarrow> (outbox_row \<Rightarrow> outbox_row) \<Rightarrow> nat txn" where
  "update_outbox P f db =
    (if updates_pass outbox_checks P f (db_outbox db)
     then Inr (sql_count P (db_outbox db), db\<lparr>db_outbox := sql_update P f (db_outbox db)\<rparr>)
     else Inl check_violation)"

definition update_receipts :: "(receipt_row \<Rightarrow> bool) \<Rightarrow> (receipt_row \<Rightarrow> receipt_row) \<Rightarrow> nat txn" where
  "update_receipts P f db =
     Inr (sql_count P (db_receipts db), db\<lparr>db_receipts := sql_update P f (db_receipts db)\<rparr>)"

lemmas update_defs =
  update_runs_def update_tasks_def update_attempts_def update_stages_def update_waits_def
  update_agents_def update_tools_def update_outbox_def update_receipts_def

lemma update_iffs [txn_iffs]:
  "update_runs P1 f1 db = Inr (n, db') \<longleftrightarrow> updates_pass run_checks P1 f1 (db_runs db) \<and>
     n = sql_count P1 (db_runs db) \<and> db' = db\<lparr>db_runs := sql_update P1 f1 (db_runs db)\<rparr>"
  "update_tasks P2 f2 db = Inr (n, db') \<longleftrightarrow> updates_pass task_checks P2 f2 (db_tasks db) \<and>
     n = sql_count P2 (db_tasks db) \<and> db' = db\<lparr>db_tasks := sql_update P2 f2 (db_tasks db)\<rparr>"
  "update_attempts P3 f3 db = Inr (n, db') \<longleftrightarrow> updates_pass attempt_checks P3 f3 (db_attempts db) \<and>
     n = sql_count P3 (db_attempts db) \<and> db' = db\<lparr>db_attempts := sql_update P3 f3 (db_attempts db)\<rparr>"
  "update_stages P4 f4 db = Inr (n, db') \<longleftrightarrow> updates_pass stage_checks P4 f4 (db_stages db) \<and>
     n = sql_count P4 (db_stages db) \<and> db' = db\<lparr>db_stages := sql_update P4 f4 (db_stages db)\<rparr>"
  "update_waits P5 f5 db = Inr (n, db') \<longleftrightarrow> updates_pass wait_checks P5 f5 (db_waits db) \<and>
     n = sql_count P5 (db_waits db) \<and> db' = db\<lparr>db_waits := sql_update P5 f5 (db_waits db)\<rparr>"
  "update_agents P6 f6 db = Inr (n, db') \<longleftrightarrow> updates_pass agent_checks P6 f6 (db_agents db) \<and>
     n = sql_count P6 (db_agents db) \<and> db' = db\<lparr>db_agents := sql_update P6 f6 (db_agents db)\<rparr>"
  "update_tools P7 f7 db = Inr (n, db') \<longleftrightarrow> updates_pass tool_checks P7 f7 (db_tools db) \<and>
     n = sql_count P7 (db_tools db) \<and> db' = db\<lparr>db_tools := sql_update P7 f7 (db_tools db)\<rparr>"
  "update_outbox P8 f8 db = Inr (n, db') \<longleftrightarrow> updates_pass outbox_checks P8 f8 (db_outbox db) \<and>
     n = sql_count P8 (db_outbox db) \<and> db' = db\<lparr>db_outbox := sql_update P8 f8 (db_outbox db)\<rparr>"
  "update_receipts P9 f9 db = Inr (n, db') \<longleftrightarrow> 
     n = sql_count P9 (db_receipts db) \<and> db' = db\<lparr>db_receipts := sql_update P9 f9 (db_receipts db)\<rparr>"
  by (auto simp: update_defs)

text \<open>An increment \<open>c = c + 1\<close> of a \<open>bigint\<close> column in the rows of \<open>P\<close> must stay in range.\<close>

definition increments_in_range :: "('r \<Rightarrow> bool) \<Rightarrow> ('r \<Rightarrow> int) \<Rightarrow> 'r list \<Rightarrow> bool" where
  "increments_in_range P c rows = list_all (\<lambda>r. P r \<longrightarrow> c r < i64_max) rows"

definition find_run :: "uuid \<Rightarrow> uuid \<Rightarrow> db \<Rightarrow> run_row option" where
  "find_run tenant run db = find (\<lambda>r. r_tenant r = tenant \<and> r_id r = run) (db_runs db)"

definition find_task :: "uuid \<Rightarrow> uuid \<Rightarrow> db \<Rightarrow> task_row option" where
  "find_task tenant task db = find (\<lambda>t. t_tenant t = tenant \<and> t_id t = task) (db_tasks db)"

lemma find_run_Some: "find_run tenant run db = Some r \<Longrightarrow>
    r \<in> set (db_runs db) \<and> r_tenant r = tenant \<and> r_id r = run"
  unfolding find_run_def by (auto dest: find_Some_in)

lemma find_task_Some: "find_task tenant task db = Some t \<Longrightarrow>
    t \<in> set (db_tasks db) \<and> t_tenant t = tenant \<and> t_id t = task"
  unfolding find_task_def by (auto dest: find_Some_in)

section \<open>Evaluation\<close>

text \<open>
  Equations that run a transaction statement by statement on a concrete database: sequences are
  nested to the right, and the first statement of a sequence is replaced by its effect.
\<close>

named_theorems txn_eval \<open>equations that run a transaction on a concrete database\<close>

lemma thenT_eval [txn_eval]: "thenT m k = bindT m (\<lambda>_. k)"
  by (simp add: thenT_def)

lemma bindT_eval [txn_eval]:
  "bindT (bindT m f) k db = bindT m (\<lambda>x. bindT (f x) k) db"
  "bindT (returnT x) k db = k x db"
  "bindT (failT e) k db = Inl e"
  "bindT (liftT q) k db = (case q of Inl e \<Rightarrow> Inl e | Inr x \<Rightarrow> k x db)"
  "bindT (\<lambda>d. liftT (g d) d) k db = (case g db of Inl e \<Rightarrow> Inl e | Inr x \<Rightarrow> k x db)"
  "bindT (guardT b e) k' db = (if b then k' () db else Inl e)"
  "bindT (\<lambda>d. guardT (p d) e d) k' db = (if p db then k' () db else Inl e)"
  "bindT (queryT f') k db = k (f' db) db"
  "bindT (modifyT h) k' db = k' () (h db)"
  "bindT (if c then m1 else m2) k db = (if c then bindT m1 k db else bindT m2 k db)"
  by (auto simp: bindT_def liftT_def guardT_def queryT_def modifyT_def returnT_def failT_def
      split: sum.splits prod.splits)

lemma raw_eval [txn_eval]:
  "bindT (\<lambda>d. Inr (g d, h d)) k db = k (g db) (h db)"
  "bindT (\<lambda>d. Inl (e d)) k db = Inl (e db)"
  "bindT (\<lambda>d. if p d then m d else n d) k db = (if p db then bindT m k db else bindT n k db)"
  "bindT (\<lambda>d. case q d of None \<Rightarrow> m d | Some x \<Rightarrow> w x d) k db =
     (case q db of None \<Rightarrow> bindT m k db | Some x \<Rightarrow> bindT (w x) k db)"
  "bindT (\<lambda>d. case z d of Inl y \<Rightarrow> u y d | Inr x \<Rightarrow> w x d) k db =
     (case z db of Inl y \<Rightarrow> bindT (u y) k db | Inr x \<Rightarrow> bindT (w x) k db)"
  by (simp_all add: bindT_def split: option.split sum.split)

lemma update_eval [txn_eval]:
  "bindT (update_runs P1 f1) k db =
     (if updates_pass run_checks P1 f1 (db_runs db)
      then k (sql_count P1 (db_runs db)) (db\<lparr>db_runs := sql_update P1 f1 (db_runs db)\<rparr>)
      else Inl check_violation)"
  "bindT (update_tasks P2 f2) k db =
     (if updates_pass task_checks P2 f2 (db_tasks db)
      then k (sql_count P2 (db_tasks db)) (db\<lparr>db_tasks := sql_update P2 f2 (db_tasks db)\<rparr>)
      else Inl check_violation)"
  "bindT (update_attempts P3 f3) k db =
     (if updates_pass attempt_checks P3 f3 (db_attempts db)
      then k (sql_count P3 (db_attempts db)) (db\<lparr>db_attempts := sql_update P3 f3 (db_attempts db)\<rparr>)
      else Inl check_violation)"
  "bindT (update_stages P4 f4) k db =
     (if updates_pass stage_checks P4 f4 (db_stages db)
      then k (sql_count P4 (db_stages db)) (db\<lparr>db_stages := sql_update P4 f4 (db_stages db)\<rparr>)
      else Inl check_violation)"
  "bindT (update_waits P5 f5) k db =
     (if updates_pass wait_checks P5 f5 (db_waits db)
      then k (sql_count P5 (db_waits db)) (db\<lparr>db_waits := sql_update P5 f5 (db_waits db)\<rparr>)
      else Inl check_violation)"
  "bindT (update_agents P6 f6) k db =
     (if updates_pass agent_checks P6 f6 (db_agents db)
      then k (sql_count P6 (db_agents db)) (db\<lparr>db_agents := sql_update P6 f6 (db_agents db)\<rparr>)
      else Inl check_violation)"
  "bindT (update_tools P7 f7) k db =
     (if updates_pass tool_checks P7 f7 (db_tools db)
      then k (sql_count P7 (db_tools db)) (db\<lparr>db_tools := sql_update P7 f7 (db_tools db)\<rparr>)
      else Inl check_violation)"
  "bindT (update_outbox P8 f8) k db =
     (if updates_pass outbox_checks P8 f8 (db_outbox db)
      then k (sql_count P8 (db_outbox db)) (db\<lparr>db_outbox := sql_update P8 f8 (db_outbox db)\<rparr>)
      else Inl check_violation)"
  "bindT (update_receipts P9 f9) k db =
     k (sql_count P9 (db_receipts db)) (db\<lparr>db_receipts := sql_update P9 f9 (db_receipts db)\<rparr>)"
  by (simp_all add: bindT_def update_defs)

lemma run_eval [txn_eval]:
  "returnT x db = Inr (x, db)" "failT e db = Inl e"
  "liftT q db = (case q of Inl e \<Rightarrow> Inl e | Inr x \<Rightarrow> Inr (x, db))"
  "guardT b e db = (if b then Inr ((), db) else Inl e)"
  "queryT f db = Inr (f db, db)" "modifyT h db = Inr ((), h db)"
  by (simp_all add: returnT_def failT_def liftT_def guardT_def queryT_def modifyT_def)

lemmas query_eval [txn_eval] = find_run_def find_task_def increments_in_range_def sql_update_def
  sql_count_def sql_exists_def updates_pass_def check_defs i64_try_from_def u64_try_from_def checked_add_i64_def

lemma guard_step: "thenT (guardT True e) k db = k db"
  by (simp add: thenT_def bindT_def guardT_def)

lemmas txn_steps = bindT_def thenT_def guardT_def returnT_def liftT_def

end
