(* ===== verification/Receipts.thy ===== *)
theory Receipts
  imports StoreTables
begin

text \<open>
  What every command of the store shares: its context, the conversions of integers to and from
  \<open>bigint\<close>, the idempotency receipt that is acquired before the work and finished after it, and
  the insertion of an event with its outbox message. The receipt protocol is stated as a locale;
  the executor's functions interpret it.
\<close>

section \<open>Command context\<close>

record command_context =
  cc_tenant_id :: uuid
  cc_command_id :: uuid
  cc_correlation_id :: uuid
  cc_actor_ref :: string
  cc_scope :: scope_key
  cc_idempotency_key :: idempotency_key
  cc_request_hash :: digest

record query_context =
  qc_tenant_id :: uuid
  qc_actor_ref :: string
  qc_authoritative :: bool

record expected_run =
  er_run_id :: uuid
  er_version :: "nat option"
  er_execution_generation :: "nat option"

record lease_proof =
  lp_task_id :: uuid
  lp_worker_id :: uuid
  lp_token :: lease_token
  lp_execution_generation :: nat

section \<open>Conversions\<close>

definition to_i64 :: "nat \<Rightarrow> string \<Rightarrow> int store_result" where
  "to_i64 value field =
     ok_or (i64_try_from value) (invalid_command (field @ '' exceeds database range''))"

definition nonnegative_u64 :: "int \<Rightarrow> string \<Rightarrow> nat store_result" where
  "nonnegative_u64 value field =
     ok_or (u64_try_from value) (inconsistent (''database '' @ field @ '' is negative''))"

definition positive_u32 :: "int \<Rightarrow> string \<Rightarrow> nat store_result" where
  "positive_u32 value field =
    (if value < 0 \<or> int u32_max < value
     then Inl (inconsistent (''database '' @ field @ '' is outside u32 range''))
     else if value = 0 then Inl (inconsistent (''database '' @ field @ '' is zero''))
     else Inr (nat value))"

lemma to_i64_Inr [simp]: "to_i64 v f = Inr i \<longleftrightarrow> i = int v \<and> int v \<le> i64_max"
  by (auto simp: to_i64_def ok_or_Inr_iff)

lemma nonnegative_u64_Inr [simp]: "nonnegative_u64 v f = Inr n \<longleftrightarrow> 0 \<le> v \<and> v = int n"
  by (auto simp: nonnegative_u64_def ok_or_Inr_iff)

lemma positive_u32_Inr [simp]:
  "positive_u32 v f = Inr n \<longleftrightarrow> 0 < n \<and> v = int n \<and> n \<le> u32_max"
  by (auto simp: positive_u32_def)

definition checked_add_i64_or :: "int \<Rightarrow> int \<Rightarrow> store_error \<Rightarrow> int store_result" where
  "checked_add_i64_or a b e = ok_or (checked_add_i64 a b) e"

lemma checked_add_i64_or_Inr [simp]:
  "checked_add_i64_or a b e = Inr c \<longleftrightarrow> c = a + b \<and> i64_min \<le> c \<and> c \<le> i64_max"
  by (auto simp: checked_add_i64_or_def ok_or_Inr_iff)

section \<open>Frames\<close>

text \<open>A transaction keeps \<open>g\<close> when the database it commits has the same \<open>g\<close>.\<close>

definition keeps :: "(db \<Rightarrow> 'g) \<Rightarrow> 'a txn \<Rightarrow> bool" where
  "keeps g m \<longleftrightarrow> (\<forall>db x db'. m db = Inr (x, db') \<longrightarrow> g db' = g db)"

named_theorems keeps_intros \<open>rules that show a transaction keeps a table\<close>

lemma keepsI: "(\<And>db x db'. m db = Inr (x, db') \<Longrightarrow> g db' = g db) \<Longrightarrow> keeps g m"
  by (simp add: keeps_def)

lemma keepsD: "keeps g m \<Longrightarrow> m db = Inr (x, db') \<Longrightarrow> g db' = g db"
  by (simp add: keeps_def)

lemma keeps_basic [keeps_intros]:
  "keeps g (returnT x)" "keeps g (failT e)" "keeps g (liftT q)" "keeps g (guardT b e)"
  "keeps g (queryT f)"
  by (simp_all add: keeps_def txn_iffs)

lemma keeps_bindT [keeps_intros]:
  "keeps g m \<Longrightarrow> (\<And>x. keeps g (f x)) \<Longrightarrow> keeps g (bindT m f)"
  by (auto simp: keeps_def bindT_iff)

lemma keeps_thenT [keeps_intros]: "keeps g m \<Longrightarrow> keeps g k \<Longrightarrow> keeps g (thenT m k)"
  by (auto simp: thenT_def intro: keeps_intros)

lemma keeps_foldT [keeps_intros]: "(\<And>x. x \<in> set xs \<Longrightarrow> keeps g (f x)) \<Longrightarrow> keeps g (foldT f xs)"
  by (induction xs) (auto intro: keeps_intros)

lemma keeps_if [keeps_intros]:
  "(b \<Longrightarrow> keeps g m) \<Longrightarrow> (\<not> b \<Longrightarrow> keeps g k) \<Longrightarrow> keeps g (if b then m else k)"
  by simp

lemma keeps_case_option [keeps_intros]:
  "(x = None \<Longrightarrow> keeps g m) \<Longrightarrow> (\<And>y. x = Some y \<Longrightarrow> keeps g (f y))
   \<Longrightarrow> keeps g (case x of None \<Rightarrow> m | Some y \<Rightarrow> f y)"
  by (cases x) auto

lemma keeps_case_prod [keeps_intros]:
  "(\<And>a b. x = (a, b) \<Longrightarrow> keeps g (f a b)) \<Longrightarrow> keeps g (case x of (a, b) \<Rightarrow> f a b)"
  by (cases x) auto

lemma keeps_update [keeps_intros]:
  "(\<And>db v. g (db\<lparr>db_runs := v\<rparr>) = g db) \<Longrightarrow> keeps g (update_runs P1 f1)"
  "(\<And>db v. g (db\<lparr>db_tasks := v\<rparr>) = g db) \<Longrightarrow> keeps g (update_tasks P2 f2)"
  "(\<And>db v. g (db\<lparr>db_attempts := v\<rparr>) = g db) \<Longrightarrow> keeps g (update_attempts P3 f3)"
  "(\<And>db v. g (db\<lparr>db_stages := v\<rparr>) = g db) \<Longrightarrow> keeps g (update_stages P4 f4)"
  "(\<And>db v. g (db\<lparr>db_waits := v\<rparr>) = g db) \<Longrightarrow> keeps g (update_waits P5 f5)"
  "(\<And>db v. g (db\<lparr>db_agents := v\<rparr>) = g db) \<Longrightarrow> keeps g (update_agents P6 f6)"
  "(\<And>db v. g (db\<lparr>db_tools := v\<rparr>) = g db) \<Longrightarrow> keeps g (update_tools P7 f7)"
  "(\<And>db v. g (db\<lparr>db_outbox := v\<rparr>) = g db) \<Longrightarrow> keeps g (update_outbox P8 f8)"
  "(\<And>db v. g (db\<lparr>db_receipts := v\<rparr>) = g db) \<Longrightarrow> keeps g (update_receipts P9 f9)"
  by (auto simp: keeps_def txn_iffs)

section \<open>Receipts\<close>

definition DEFAULT_RECEIPT_TTL_MICROS :: nat where
  "DEFAULT_RECEIPT_TTL_MICROS = 30 * 24 * 60 * 60 * 1000000"

datatype receipt_guard = Acquired | Existing stored_outcome "uuid option"

definition receipt_of :: "command_context \<Rightarrow> receipt_row \<Rightarrow> bool" where
  "receipt_of ctx r \<longleftrightarrow> p_tenant r = cc_tenant_id ctx \<and> p_scope r = cc_scope ctx
                      \<and> p_key r = cc_idempotency_key ctx"

definition new_receipt :: "command_context \<Rightarrow> micros \<Rightarrow> int \<Rightarrow> receipt_row" where
  "new_receipt ctx now ttl = \<lparr> p_id = cc_command_id ctx, p_tenant = cc_tenant_id ctx,
     p_scope = cc_scope ctx, p_key = cc_idempotency_key ctx, p_hash = cc_request_hash ctx,
     p_kind = ReceiptUnknown, p_outcome = StoredEmpty, p_event = None, p_resource = None,
     p_created_at = now, p_expires_at = now + ttl \<rparr>"

definition acquire_receipt :: "command_context \<Rightarrow> micros \<Rightarrow> nat \<Rightarrow> receipt_guard txn" where
  "acquire_receipt ctx now ttl_micros =
    bindT (liftT (to_i64 ttl_micros ''receipt TTL'')) (\<lambda>ttl.
    thenT (guardT (now + ttl \<le> i64_max) bigint_out_of_range)
    (\<lambda>db. case find (receipt_of ctx) (db_receipts db) of
        None \<Rightarrow>
          (if sql_exists (\<lambda>r. p_id r = cc_command_id ctx) (db_receipts db)
           then Inl unique_violation
           else Inr (Acquired, db\<lparr>db_receipts := db_receipts db @ [new_receipt ctx now ttl]\<rparr>))
      | Some r \<Rightarrow>
          (if p_hash r \<noteq> cc_request_hash ctx
           then Inl (store_error_of IdempotencyKeyReused
                       ''idempotency key was reused with a different request'')
           else if p_kind r = ReceiptUnknown
           then Inl (StoreError OutcomeUnknown RetryReconcile
                       ''the first command outcome requires reconciliation'')
           else Inr (Existing (p_outcome r) (p_event r), db))))"

definition finish_receipt ::
  "command_context \<Rightarrow> receipt_kind \<Rightarrow> stored_outcome \<Rightarrow> uuid option
   \<Rightarrow> (string \<times> uuid \<times> int) option \<Rightarrow> unit txn" where
  "finish_receipt ctx kind outcome event resource =
    bindT (update_receipts (\<lambda>r. receipt_of ctx r \<and> p_kind r = ReceiptUnknown)
             (\<lambda>r. r\<lparr>p_kind := kind, p_outcome := outcome, p_event := event,
                    p_resource := resource\<rparr>))
      (\<lambda>updated. guardT (updated = 1) (inconsistent ''command receipt guard was lost''))"

text \<open>The match on the guard that opens every command: a receipt that exists is answered.\<close>

definition with_receipt ::
  "command_context \<Rightarrow> micros \<Rightarrow> nat \<Rightarrow> (stored_outcome \<Rightarrow> uuid option \<Rightarrow> 'a store_result)
   \<Rightarrow> 'a txn \<Rightarrow> 'a txn" where
  "with_receipt ctx now ttl on_existing body =
    bindT (acquire_receipt ctx now ttl) (\<lambda>guard. case guard of
        Existing outcome event \<Rightarrow> liftT (on_existing outcome event)
      | Acquired \<Rightarrow> body)"

lemma keeps_receipt_ops [keeps_intros]:
  assumes "\<And>db v. g (db\<lparr>db_receipts := v\<rparr>) = g db"
  shows "keeps g (acquire_receipt ctx now ttl)"
    and "keeps g (finish_receipt ctx kind outcome event resource)"
  using assms
  by (auto simp: acquire_receipt_def finish_receipt_def keeps_def txn_iffs
      split: option.splits if_splits)

lemma keeps_with_receipt [keeps_intros]:
  "(\<And>db v. g (db\<lparr>db_receipts := v\<rparr>) = g db) \<Longrightarrow> keeps g body
   \<Longrightarrow> keeps g (with_receipt ctx now ttl on_existing body)"
  unfolding with_receipt_def
  by (intro keeps_intros) (auto split: receipt_guard.split intro: keeps_intros)

lemma acquire_AcquiredE:
  assumes "acquire_receipt ctx now ttl db = Inr (Acquired, db')"
  obtains "db' = db\<lparr>db_receipts := db_receipts db @ [new_receipt ctx now (int ttl)]\<rparr>"
    and "\<forall>r \<in> set (db_receipts db). \<not> receipt_of ctx r"
  using assms
  by (auto simp: acquire_receipt_def txn_iffs find_None_ball split: option.splits if_splits)

lemma acquire_ExistingE:
  assumes "acquire_receipt ctx now ttl db = Inr (Existing v e, db')"
  obtains r where "db' = db" and "r \<in> set (db_receipts db)" and "receipt_of ctx r"
    and "p_hash r = cc_request_hash ctx" and "p_kind r \<noteq> ReceiptUnknown"
    and "p_outcome r = v" and "p_event r = e"
  using assms
  by (auto simp: acquire_receipt_def txn_iffs dest!: find_Some_in split: option.splits if_splits)

lemma receipt_of_new [simp]: "receipt_of ctx (new_receipt ctx now ttl)"
  by (simp add: receipt_of_def new_receipt_def)

lemma with_receipt_cases:
  assumes "with_receipt ctx now ttl on_existing body db = Inr (x, db')"
  obtains (replayed) r where "db' = db" and "r \<in> set (db_receipts db)" and "receipt_of ctx r"
      and "p_hash r = cc_request_hash ctx" and "p_kind r \<noteq> ReceiptUnknown"
      and "on_existing (p_outcome r) (p_event r) = Inr x"
    | (fresh) "\<forall>r \<in> set (db_receipts db). \<not> receipt_of ctx r"
      and "body (db\<lparr>db_receipts := db_receipts db @ [new_receipt ctx now (int ttl)]\<rparr>)
           = Inr (x, db')"
proof -
  from assms obtain guard db1 where acq: "acquire_receipt ctx now ttl db = Inr (guard, db1)"
    and rest: "(case guard of Existing outcome event \<Rightarrow> liftT (on_existing outcome event)
                | Acquired \<Rightarrow> body) db1 = Inr (x, db')"
    by (auto simp: with_receipt_def txn_iffs)
  show thesis
  proof (cases guard)
    case Acquired
    with acq rest show ?thesis by (auto elim!: acquire_AcquiredE intro: fresh)
  next
    case (Existing v e)
    with acq rest show ?thesis by (auto elim!: acquire_ExistingE simp: txn_iffs intro: replayed)
  qed
qed

lemma finish_receipt_frame:
  assumes "finish_receipt ctx kind outcome event resource db = Inr (u, db')"
  obtains rs where "db' = db\<lparr>db_receipts := rs\<rparr>"
  using assms by (auto simp: finish_receipt_def txn_iffs)

text \<open>A body that leaves the receipts alone until its last step finishes the new receipt.\<close>

lemma finish_new_receipt:
  assumes "db_receipts db = rs @ [new_receipt ctx now ttl]"
    and "\<forall>r \<in> set rs. \<not> receipt_of ctx r"
    and "finish_receipt ctx kind outcome event resource db = Inr (u, db')"
  shows "db' = db\<lparr>db_receipts := rs @ [(new_receipt ctx now ttl)
           \<lparr>p_kind := kind, p_outcome := outcome, p_event := event, p_resource := resource\<rparr>]\<rparr>"
proof -
  let ?P = "\<lambda>r. receipt_of ctx r \<and> p_kind r = ReceiptUnknown"
  have "sql_update ?P f rs = rs" for f
    by (rule sql_update_id) (use assms(2) in blast)
  moreover have "?P (new_receipt ctx now ttl)"
    by simp (simp add: new_receipt_def)
  ultimately show ?thesis
    using assms(1,3) by (auto simp: finish_receipt_def txn_iffs sql_update_def)
qed

section \<open>The receipt protocol\<close>

text \<open>The finished answer recorded for the key of a command.\<close>

definition recorded ::
  "command_context \<Rightarrow> db \<Rightarrow> (digest \<times> stored_outcome \<times> uuid option) option" where
  "recorded ctx db = (case find (receipt_of ctx) (db_receipts db) of
      None \<Rightarrow> None
    | Some r \<Rightarrow> if p_kind r = ReceiptUnknown then None
                else Some (p_hash r, p_outcome r, p_event r))"

text \<open>
  What a command needs of its receipts: a recorded key is answered without a change when the
  request is the same and refused when it is not, and what is finished after an acquisition is
  what is recorded.
\<close>

locale receipt_protocol =
  fixes acquire :: "command_context \<Rightarrow> micros \<Rightarrow> nat \<Rightarrow> receipt_guard txn"
    and finish :: "command_context \<Rightarrow> receipt_kind \<Rightarrow> stored_outcome \<Rightarrow> uuid option
        \<Rightarrow> (string \<times> uuid \<times> int) option \<Rightarrow> unit txn"
    and answer :: "command_context \<Rightarrow> db \<Rightarrow> (digest \<times> stored_outcome \<times> uuid option) option"
    and in_range :: "micros \<Rightarrow> nat \<Rightarrow> bool"
  assumes acquire_same: "answer ctx db = Some (cc_request_hash ctx, v, e) \<Longrightarrow> in_range now ttl
      \<Longrightarrow> acquire ctx now ttl db = Inr (Existing v e, db)"
    and acquire_other: "answer ctx db = Some (h, v, e) \<Longrightarrow> h \<noteq> cc_request_hash ctx
      \<Longrightarrow> in_range now ttl \<Longrightarrow> acquire ctx now ttl db = Inl (store_error_of IdempotencyKeyReused
            ''idempotency key was reused with a different request'')"
    and acquire_once: "acquire ctx now ttl db = Inr (Existing v e, db')
      \<Longrightarrow> db' = db \<and> answer ctx db = Some (cc_request_hash ctx, v, e)"
    and finish_answers: "acquire ctx now ttl db = Inr (Acquired, db1)
      \<Longrightarrow> db_receipts db2 = db_receipts db1 \<Longrightarrow> kind \<noteq> ReceiptUnknown
      \<Longrightarrow> finish ctx kind v e res db2 = Inr (u, db3)
      \<Longrightarrow> answer ctx db3 = Some (cc_request_hash ctx, v, e)"
begin

text \<open>The match that opens a command, over the interface.\<close>

lemma replay_same:
  assumes "answer ctx db = Some (cc_request_hash ctx, v, e)" and "in_range now ttl"
  shows "bindT (acquire ctx now ttl)
           (\<lambda>g. case g of Existing v e \<Rightarrow> liftT (on_existing v e) | Acquired \<Rightarrow> body) db
         = liftT (on_existing v e) db"
  using acquire_same [OF assms] by (simp add: bindT_run)

lemma replay_other:
  assumes "answer ctx db = Some (h, v, e)" and "h \<noteq> cc_request_hash ctx" and "in_range now ttl"
  shows "bindT (acquire ctx now ttl)
           (\<lambda>g. case g of Existing v e \<Rightarrow> liftT (on_existing v e) | Acquired \<Rightarrow> body) db
         = Inl (store_error_of IdempotencyKeyReused
             ''idempotency key was reused with a different request'')"
  using acquire_other [OF assms] by (simp add: bindT_run)

text \<open>
  Work that keeps the receipts and is finished with an outcome is answered with that outcome
  ever after, while the answer of its key stays recorded.
\<close>

lemma finished_then_replayed:
  assumes "acquire ctx now ttl db = Inr (Acquired, db1)"
    and "keeps db_receipts work" and "work db1 = Inr (w, db2)" and "kind \<noteq> ReceiptUnknown"
    and "finish ctx kind v e res db2 = Inr (u, db3)"
    and "answer ctx db4 = answer ctx db3" and "in_range later ttl"
  shows "bindT (acquire ctx later ttl)
           (\<lambda>g. case g of Existing v e \<Rightarrow> liftT (on_existing v e) | Acquired \<Rightarrow> body) db4
         = liftT (on_existing v e) db4"
proof -
  have "db_receipts db2 = db_receipts db1" using assms(2,3) by (rule keepsD)
  then have "answer ctx db4 = Some (cc_request_hash ctx, v, e)"
    using finish_answers [OF assms(1) _ assms(4,5)] assms(6) by simp
  then show ?thesis using replay_same assms(7) by blast
qed

end

definition receipt_in_range :: "micros \<Rightarrow> nat \<Rightarrow> bool" where
  "receipt_in_range now ttl \<longleftrightarrow> int ttl \<le> i64_max \<and> now + int ttl \<le> i64_max"

lemma acquire_in_range:
  assumes "receipt_in_range now ttl"
  shows "acquire_receipt ctx now ttl db =
    (case find (receipt_of ctx) (db_receipts db) of
        None \<Rightarrow>
          (if sql_exists (\<lambda>r. p_id r = cc_command_id ctx) (db_receipts db)
           then Inl unique_violation
           else Inr (Acquired, db\<lparr>db_receipts := db_receipts db @ [new_receipt ctx now (int ttl)]\<rparr>))
      | Some r \<Rightarrow>
          (if p_hash r \<noteq> cc_request_hash ctx
           then Inl (store_error_of IdempotencyKeyReused
                       ''idempotency key was reused with a different request'')
           else if p_kind r = ReceiptUnknown
           then Inl (StoreError OutcomeUnknown RetryReconcile
                       ''the first command outcome requires reconciliation'')
           else Inr (Existing (p_outcome r) (p_event r), db)))"
  using assms
  by (simp add: acquire_receipt_def receipt_in_range_def to_i64_def i64_try_from_def bindT_def
      thenT_def liftT_def guardT_def)

lemma find_append_new:
  assumes "\<forall>r \<in> set rs. \<not> P r" and "P x"
  shows "find P (rs @ [x]) = Some x"
  using assms by (induction rs) auto

interpretation rp: receipt_protocol acquire_receipt finish_receipt recorded receipt_in_range
proof
  fix ctx db v e now ttl
  assume "recorded ctx db = Some (cc_request_hash ctx, v, e)" and "receipt_in_range now ttl"
  then show "acquire_receipt ctx now ttl db = Inr (Existing v e, db)"
    by (auto simp: acquire_in_range recorded_def split: option.splits if_splits)
next
  fix ctx db h v e now ttl
  assume "recorded ctx db = Some (h, v, e)" and "h \<noteq> cc_request_hash ctx"
    and "receipt_in_range now ttl"
  then show "acquire_receipt ctx now ttl db = Inl (store_error_of IdempotencyKeyReused
      ''idempotency key was reused with a different request'')"
    by (auto simp: acquire_in_range recorded_def split: option.splits if_splits)
next
  fix ctx now ttl db v e db'
  assume "acquire_receipt ctx now ttl db = Inr (Existing v e, db')"
  then show "db' = db \<and> recorded ctx db = Some (cc_request_hash ctx, v, e)"
    by (auto simp: acquire_receipt_def txn_iffs recorded_def split: option.splits if_splits)
next
  fix ctx now ttl db db1 db2 db3 kind v e res u
  assume acq: "acquire_receipt ctx now ttl db = Inr (Acquired, db1)"
    and same: "db_receipts db2 = db_receipts db1" and kind: "kind \<noteq> ReceiptUnknown"
    and fin: "finish_receipt ctx kind v e res db2 = Inr (u, db3)"
  from acq obtain db1: "db_receipts db1 = db_receipts db @ [new_receipt ctx now (int ttl)]"
    and fresh: "\<forall>r \<in> set (db_receipts db). \<not> receipt_of ctx r"
    by (auto elim!: acquire_AcquiredE)
  let ?new = "(new_receipt ctx now (int ttl))
      \<lparr>p_kind := kind, p_outcome := v, p_event := e, p_resource := res\<rparr>"
  have "db_receipts db3 = db_receipts db @ [?new]"
    using finish_new_receipt [OF _ fresh fin] same db1 by simp
  moreover have "receipt_of ctx ?new" by (simp add: receipt_of_def new_receipt_def)
  ultimately show "recorded ctx db3 = Some (cc_request_hash ctx, v, e)"
    using kind fresh by (simp add: recorded_def find_append_new) (simp add: new_receipt_def)
qed

section \<open>Events and their outbox messages\<close>

record event_insert =
  ei_event_id :: uuid
  ei_tenant_id :: uuid
  ei_run_id :: uuid
  ei_sequence :: int
  ei_event_type :: string
  ei_payload :: json
  ei_payload_schema_version :: int
  ei_producer :: string
  ei_context :: command_context
  ei_correlation_id :: uuid
  ei_occurred_at :: "micros option"
  ei_recorded_at :: micros

definition event_row_of :: "event_insert \<Rightarrow> event_row" where
  "event_row_of e = \<lparr> e_id = ei_event_id e, e_tenant = ei_tenant_id e, e_run = ei_run_id e,
     e_seq = ei_sequence e, e_type = ei_event_type e, e_payload = ei_payload e,
     e_schema_version = ei_payload_schema_version e, e_producer = ei_producer e,
     e_actor = cc_actor_ref (ei_context e), e_correlation = ei_correlation_id e,
     e_idempotency_key = cc_idempotency_key (ei_context e),
     e_occurred_at = ei_occurred_at e, e_recorded_at = ei_recorded_at e \<rparr>"

definition outbox_row_of :: "event_insert \<Rightarrow> outbox_row" where
  "outbox_row_of e = \<lparr> o_id = ei_event_id e, o_tenant = ei_tenant_id e, o_event = ei_event_id e,
     o_run = ei_run_id e, o_topic = ''run.events'', o_partition_key = uuid_text (ei_run_id e),
     o_payload = JObject [
        (''event_id'', json_uuid (ei_event_id e)), (''run_id'', json_uuid (ei_run_id e)),
        (''sequence'', JInt (ei_sequence e)), (''event_type'', JString (ei_event_type e)),
        (''payload_schema_version'', JInt (ei_payload_schema_version e)),
        (''payload'', ei_payload e), (''producer'', JString (ei_producer e)),
        (''correlation_id'', json_uuid (ei_correlation_id e)),
        (''recorded_at_micros'', JInt (ei_recorded_at e))],
     o_status = OutPending, o_attempt = 0, o_available_at = ei_recorded_at e,
     o_lease_owner = None, o_lease_token = None, o_lease_expires_at = None,
     o_last_error = None, o_created_at = ei_recorded_at e, o_published_at = None \<rparr>"

text \<open>
  The two inserts, with the constraints of \<open>events\<close> and \<open>outbox_messages\<close>: keys, the reference
  to the run, and the checks on the row.
\<close>

definition insert_event :: "event_insert \<Rightarrow> unit txn" where
  "insert_event e =
    thenT (\<lambda>db. guardT (ei_sequence e \<ge> 1 \<and> ei_event_type e \<noteq> [] \<and> ei_payload_schema_version e \<ge> 1
             \<and> ei_producer e \<noteq> [] \<and> cc_actor_ref (ei_context e) \<noteq> []
             \<and> cc_idempotency_key (ei_context e) \<noteq> []) check_violation db)
    (thenT (\<lambda>db. guardT (\<not> sql_exists (\<lambda>r. e_id r = ei_event_id e
                \<or> (e_tenant r = ei_tenant_id e \<and> e_run r = ei_run_id e \<and> e_seq r = ei_sequence e))
              (db_events db)) unique_violation db)
    (thenT (\<lambda>db. guardT (find_run (ei_tenant_id e) (ei_run_id e) db \<noteq> None)
              foreign_key_violation db)
    (thenT (modifyT (\<lambda>db. db\<lparr>db_events := db_events db @ [event_row_of e]\<rparr>))
    (thenT (\<lambda>db. guardT (\<not> sql_exists (\<lambda>m. o_id m = ei_event_id e) (db_outbox db))
              unique_violation db)
    (modifyT (\<lambda>db. db\<lparr>db_outbox := db_outbox db @ [outbox_row_of e]\<rparr>))))))"

lemma insert_event_iff [txn_iffs]:
  "insert_event e db = Inr (u, db') \<longleftrightarrow>
     ei_sequence e \<ge> 1 \<and> ei_event_type e \<noteq> [] \<and> ei_payload_schema_version e \<ge> 1
     \<and> ei_producer e \<noteq> [] \<and> cc_actor_ref (ei_context e) \<noteq> []
     \<and> cc_idempotency_key (ei_context e) \<noteq> []
     \<and> (\<forall>r \<in> set (db_events db). e_id r \<noteq> ei_event_id e
          \<and> \<not> (e_tenant r = ei_tenant_id e \<and> e_run r = ei_run_id e \<and> e_seq r = ei_sequence e))
     \<and> find_run (ei_tenant_id e) (ei_run_id e) db \<noteq> None
     \<and> (\<forall>m \<in> set (db_outbox db). o_id m \<noteq> ei_event_id e)
     \<and> db' = db\<lparr>db_events := db_events db @ [event_row_of e],
              db_outbox := db_outbox db @ [outbox_row_of e]\<rparr>"
  by (auto simp: insert_event_def txn_iffs sql_exists_iff)

lemma keeps_insert_event [keeps_intros]:
  "(\<And>db v w. g (db\<lparr>db_events := v, db_outbox := w\<rparr>) = g db) \<Longrightarrow> keeps g (insert_event e)"
  by (auto simp: keeps_def txn_iffs)

lemma acquire_eval [txn_eval]:
  "int ttl \<le> i64_max \<Longrightarrow> now + int ttl \<le> i64_max \<Longrightarrow>
   bindT (acquire_receipt ctx now ttl) k db =
     (case find (receipt_of ctx) (db_receipts db) of
        None \<Rightarrow>
          (if list_ex (\<lambda>r. p_id r = cc_command_id ctx) (db_receipts db)
           then Inl unique_violation
           else k Acquired (db\<lparr>db_receipts := db_receipts db @ [new_receipt ctx now (int ttl)]\<rparr>))
      | Some r \<Rightarrow>
          (if p_hash r \<noteq> cc_request_hash ctx
           then Inl (store_error_of IdempotencyKeyReused
                       ''idempotency key was reused with a different request'')
           else if p_kind r = ReceiptUnknown
           then Inl (StoreError OutcomeUnknown RetryReconcile
                       ''the first command outcome requires reconciliation'')
           else k (Existing (p_outcome r) (p_event r)) db))"
  by (auto simp: bindT_def acquire_in_range receipt_in_range_def sql_exists_def
      split: option.splits)

lemmas receipt_eval [txn_eval] = with_receipt_def finish_receipt_def
  insert_event_def to_i64_def checked_add_i64_or_def nonnegative_u64_def positive_u32_def
  receipt_of_def new_receipt_def event_row_of_def outbox_row_of_def

end
