(* ===== verification/Samples.thy ===== *)
theory Samples
  imports Receipts
begin

text \<open>
  Small concrete values on which the properties that have hypotheses are applied: one tenant, one
  run with its first event, one stage-less task, and the third-party functions instantiated by
  concrete ones.
\<close>

text \<open>The empty object is the only JSON text of the samples.\<close>

definition sample_ext :: externals where
  "sample_ext = \<lparr> ext_sha256 = (\<lambda>bytes. 0),
     ext_from_slice = (\<lambda>s. if s = ''{}'' then Some (JObject []) else None),
     ext_to_vec = (\<lambda>_. ''{}''), ext_pointer = (\<lambda>_ _. None) \<rparr>"

definition sample_run :: run_row where
  "sample_run = \<lparr> r_id = 1, r_tenant = 7, r_workflow_version = None, r_coordinator = None,
     r_parent_run = None, r_parent_task = None, r_schedule = None, r_scheduled_fire_at = None,
     r_replay_of = None, r_status = RunQueued, r_suspended_from = None, r_version = 0,
     r_generation = 0, r_next_seq = 2, r_checkpoint = Some 50, r_terminal_event = None,
     r_input = JObject [], r_state_summary = JObject [], r_deadline = None, r_resume_blocked = None,
     r_plan_revision = (Some 60, 1), r_context_revision = (Some 61, 1),
     r_created_by = ''u'', r_created_at = 10, r_updated_at = 10, r_terminal_at = None \<rparr>"

definition sample_event :: event_row where
  "sample_event = \<lparr> e_id = 40, e_tenant = 7, e_run = 1, e_seq = 1, e_type = ''run.created'',
     e_payload = JObject [], e_schema_version = 1, e_producer = ''runtime'', e_actor = ''u'',
     e_correlation = 41, e_idempotency_key = ''k0'', e_occurred_at = None, e_recorded_at = 10 \<rparr>"

definition sample_outbox :: outbox_row where
  "sample_outbox = \<lparr> o_id = 40, o_tenant = 7, o_event = 40, o_run = 1, o_topic = ''run.events'',
     o_partition_key = ''p'', o_payload = JObject [], o_status = OutPending, o_attempt = 0,
     o_available_at = 10, o_lease_owner = None, o_lease_token = None, o_lease_expires_at = None,
     o_last_error = None, o_created_at = 10, o_published_at = None \<rparr>"

definition sample_checkpoint :: checkpoint_row where
  "sample_checkpoint = \<lparr> c_id = 50, c_tenant = 7, c_run = 1, c_seq = 1, c_schema_version = 1,
     c_workflow_version = None, c_coordinator = None, c_generation = 0, c_state = JObject [],
     c_digest = 0, c_event = 40, c_created_at = 10 \<rparr>"

text \<open>A queued task, and the task that is scheduled until it is done.\<close>

definition sample_task :: "uuid \<Rightarrow> task_status \<Rightarrow> task_row" where
  "sample_task i status = \<lparr> t_id = i, t_tenant = 7, t_run = 1, t_stage = None,
     t_key = (if i = 2 then ''a'' else ''b''), t_kind = KModel, t_status = status,
     t_join_policy = JoinAll, t_generation = 0, t_checkpoint_seq = Some 1, t_priority = 0,
     t_available_at = 10, t_attempt = 0, t_max_attempts = 2, t_lease_owner = None,
     t_lease_token = None, t_lease_expires_at = None, t_input = JObject [], t_result = None,
     t_error_code = None, t_error = None, t_deadline = None, t_created_event = 40,
     t_created_at = 10, t_updated_at = 10, t_completed_at = None \<rparr>"

definition sample_dependency :: dependency_row where
  "sample_dependency = \<lparr> d_tenant = 7, d_run = 1, d_task = 3, d_prerequisite = 2,
     d_condition = JObject [], d_event = 40, d_created_at = 10 \<rparr>"

definition sample_db :: db where
  "sample_db = empty_db\<lparr> db_runs := [sample_run], db_events := [sample_event],
     db_outbox := [sample_outbox], db_checkpoints := [sample_checkpoint],
     db_tasks := [sample_task 2 TaskQueued, sample_task 3 TaskScheduled],
     db_deps := [sample_dependency] \<rparr>"

definition sample_context :: "uuid \<Rightarrow> string \<Rightarrow> command_context" where
  "sample_context command key = \<lparr> cc_tenant_id = 7, cc_command_id = command,
     cc_correlation_id = 41, cc_actor_ref = ''worker'', cc_scope = ''tasks'',
     cc_idempotency_key = key, cc_request_hash = 5 \<rparr>"

text \<open>The same run with its first task leased to a worker.\<close>

definition sample_leased_task :: task_row where
  "sample_leased_task = (sample_task 2 TaskLeased)\<lparr>t_attempt := 1, t_lease_owner := Some 20,
     t_lease_token := Some 99, t_lease_expires_at := Some 130\<rparr>"

definition sample_attempt :: attempt_row where
  "sample_attempt = \<lparr> a_id = 90, a_tenant = 7, a_task = 2, a_run = 1, a_attempt = 1, a_worker = 20,
     a_token_digest = 0, a_claimed_at = 100, a_lease_expires_at = 130, a_finished_at = None,
     a_outcome = None, a_error_code = None \<rparr>"

definition sample_leased_db :: db where
  "sample_leased_db = sample_db\<lparr> db_runs := [sample_run\<lparr>r_status := RunRunning\<rparr>],
     db_tasks := [sample_leased_task, sample_task 3 TaskScheduled], db_attempts := [sample_attempt] \<rparr>"

definition sample_proof :: lease_proof where
  "sample_proof = \<lparr> lp_task_id = 2, lp_worker_id = 20, lp_token = 99, lp_execution_generation = 0 \<rparr>"

definition sample_expected :: expected_run where
  "sample_expected = \<lparr> er_run_id = 1, er_version = Some 0, er_execution_generation = Some 0 \<rparr>"

lemmas sample_defs = sample_leased_task_def sample_attempt_def sample_leased_db_def sample_proof_def
  sample_expected_def
  sample_ext_def sample_run_def sample_event_def sample_outbox_def sample_checkpoint_def
  sample_task_def sample_dependency_def sample_db_def sample_context_def empty_db_def

end
