(* ===== verification/RunEffects.thy ===== *)
theory RunEffects
  imports Samples
begin

text \<open>
  The contract every command on a run keeps: it either leaves runs and events alone, or it
  advances one live run, appending one event at that run's next sequence number and raising its
  version and next sequence number by one. The consequences (a gapless event log, versions that
  only grow, terminal runs that never change) are proved once, in a locale.
\<close>

section \<open>The contract\<close>

definition same_run :: "run_row \<Rightarrow> run_row \<Rightarrow> bool" where
  "same_run r q \<longleftrightarrow> r_tenant q = r_tenant r \<and> r_id q = r_id r"

definition event_of_run :: "run_row \<Rightarrow> event_row \<Rightarrow> bool" where
  "event_of_run r e \<longleftrightarrow> e_tenant e = r_tenant r \<and> e_run e = r_id r"

definition run_log :: "run_row \<Rightarrow> db \<Rightarrow> event_row list" where
  "run_log r db = filter (event_of_run r) (db_events db)"

definition run_keys_ok :: "db \<Rightarrow> bool" where
  "run_keys_ok db \<longleftrightarrow> distinct (map r_id (db_runs db))"

text \<open>Run ids are distinct and every run passes the checks of its table.\<close>

definition runs_ok :: "db \<Rightarrow> bool" where
  "runs_ok db \<longleftrightarrow> run_keys_ok db \<and> (\<forall>r \<in> set (db_runs db). run_checks r)"

definition task_keys_ok :: "db \<Rightarrow> bool" where
  "task_keys_ok db \<longleftrightarrow> distinct (map t_id (db_tasks db))"

definition store_ok :: "db \<Rightarrow> bool" where
  "store_ok db \<longleftrightarrow> runs_ok db \<and> task_keys_ok db"

lemma store_okD: "store_ok db \<Longrightarrow> runs_ok db" "store_ok db \<Longrightarrow> task_keys_ok db"
  by (simp_all add: store_ok_def)

lemma runs_ok_keys [simp]: "runs_ok db \<Longrightarrow> run_keys_ok db"
  by (simp add: runs_ok_def)

text \<open>The event log of every run is its sequence numbers from 1, without a gap, in order.\<close>

definition log_ok :: "db \<Rightarrow> bool" where
  "log_ok db \<longleftrightarrow> (\<forall>r \<in> set (db_runs db).
      1 \<le> r_next_seq r \<and> map e_seq (run_log r db) = [1..r_next_seq r - 1])"

definition quiet :: "db \<Rightarrow> db \<Rightarrow> bool" where
  "quiet db db' \<longleftrightarrow> db_runs db' = db_runs db \<and> db_events db' = db_events db
                  \<and> db_outbox db' = db_outbox db"

definition advances :: "db \<Rightarrow> db \<Rightarrow> bool" where
  "advances db db' \<longleftrightarrow> (\<exists>r r' e.
      r \<in> set (db_runs db) \<and> \<not> run_terminal (r_status r)
      \<and> same_run r r' \<and> r_version r' = r_version r + 1 \<and> r_next_seq r' = r_next_seq r + 1
      \<and> r_generation r \<le> r_generation r' \<and> run_checks r'
      \<and> db_runs db' = sql_update (same_run r) (\<lambda>_. r') (db_runs db)
      \<and> ei_tenant_id e = r_tenant r \<and> ei_run_id e = r_id r \<and> ei_sequence e = r_next_seq r
      \<and> db_events db' = db_events db @ [event_row_of e]
      \<and> db_outbox db' = db_outbox db @ [outbox_row_of e])"

lemma same_run_refl [simp]: "same_run r r"
  by (simp add: same_run_def)

lemma quiet_refl [simp]: "quiet db db"
  by (simp add: quiet_def)

text \<open>With run keys distinct, an update guarded by more than the key touches one row.\<close>

lemma sql_update_one_run:
  assumes "run_keys_ok db" and "r \<in> set (db_runs db)" and "P r"
    and "\<And>q. P q \<Longrightarrow> same_run r q"
  shows "sql_update P f (db_runs db) = sql_update (same_run r) (\<lambda>_. f r) (db_runs db)"
proof -
  have "(if P q then f q else q) = (if same_run r q then f r else q)"
    if "q \<in> set (db_runs db)" for q
  proof (cases "q = r")
    case True
    then show ?thesis using assms(3) by simp
  next
    case False
    then have "\<not> same_run r q"
      using assms(1,2) that by (auto simp: run_keys_ok_def same_run_def dest: distinct_map_inj)
    then show ?thesis using assms(4) by auto
  qed
  then show ?thesis by (simp add: sql_update_def)
qed

lemma find_run_same: "find_run tenant run db = Some r \<Longrightarrow>
    r \<in> set (db_runs db) \<and> (\<forall>q. r_tenant q = tenant \<and> r_id q = run \<longleftrightarrow> same_run r q)"
  by (auto dest!: find_run_Some simp: same_run_def)

section \<open>Consequences\<close>

lemma map_r_id_update:
  "same_run r r' \<Longrightarrow> map r_id (sql_update (same_run r) (\<lambda>_. r') rows) = map r_id rows"
  by (induction rows) (auto simp: same_run_def)

lemma in_updated_runs:
  assumes "q' \<in> set (sql_update (same_run r) (\<lambda>_. r') rows)"
  obtains (other) "q' \<in> set rows" and "\<not> same_run r q'" | (changed) "q' = r'"
  using assms by (auto elim!: in_sql_updateE split: if_splits)

lemma advances_keys: "run_keys_ok db \<Longrightarrow> advances db db' \<Longrightarrow> run_keys_ok db'"
  by (auto simp: advances_def run_keys_ok_def map_r_id_update)

lemma advances_runs_ok:
  assumes "runs_ok db" and "advances db db'"
  shows "runs_ok db'"
  using assms advances_keys [of db db']
  by (auto simp: runs_ok_def advances_def elim!: in_updated_runs)

lemma event_of_run_row [simp]:
  "event_of_run q (event_row_of e) \<longleftrightarrow> ei_tenant_id e = r_tenant q \<and> ei_run_id e = r_id q"
  by (simp add: event_of_run_def event_row_of_def)

lemma advances_log:
  assumes "run_keys_ok db" and "log_ok db" and "advances db db'"
  shows "log_ok db'"
  unfolding log_ok_def
proof
  from assms(3) obtain r r' e where adv: "r \<in> set (db_runs db)" "same_run r r'"
      "r_next_seq r' = r_next_seq r + 1"
      "db_runs db' = sql_update (same_run r) (\<lambda>_. r') (db_runs db)"
      "ei_tenant_id e = r_tenant r" "ei_run_id e = r_id r" "ei_sequence e = r_next_seq r"
      "db_events db' = db_events db @ [event_row_of e]"
    by (auto simp: advances_def)
  fix q assume "q \<in> set (db_runs db')"
  then have "q \<in> set (sql_update (same_run r) (\<lambda>_. r') (db_runs db))" using adv(4) by simp
  then show "1 \<le> r_next_seq q \<and> map e_seq (run_log q db') = [1..r_next_seq q - 1]"
  proof (cases rule: in_updated_runs)
    case other
    then have "\<not> event_of_run q (event_row_of e)" using adv(5,6) by (auto simp: same_run_def)
    then have "run_log q db' = run_log q db" using adv(8) by (simp add: run_log_def)
    then show ?thesis using other assms(2) by (simp add: log_ok_def)
  next
    case changed
    have "event_of_run q = event_of_run r"
      using changed adv(2) by (simp add: event_of_run_def same_run_def fun_eq_iff)
    then have "run_log q db' = run_log r db @ [event_row_of e]"
      using adv(5,6,8) by (simp add: run_log_def)
    moreover have "1 \<le> r_next_seq r" and "map e_seq (run_log r db) = [1..r_next_seq r - 1]"
      using assms(2) adv(1) by (auto simp: log_ok_def)
    moreover have "e_seq (event_row_of e) = r_next_seq r"
      using adv(7) by (simp add: event_row_of_def)
    moreover have "[1..r_next_seq r] = [1..r_next_seq r - 1] @ [r_next_seq r]"
      using \<open>1 \<le> r_next_seq r\<close> by (rule upto_rec2)
    ultimately show ?thesis using changed adv(3) by simp
  qed
qed

lemma advances_terminal:
  assumes "run_keys_ok db" and "advances db db'"
    and "q \<in> set (db_runs db)" and "run_terminal (r_status q)"
  shows "q \<in> set (db_runs db')"
proof -
  from assms(2) obtain r r' where r: "r \<in> set (db_runs db)" "\<not> run_terminal (r_status r)"
      and runs: "db_runs db' = sql_update (same_run r) (\<lambda>_. r') (db_runs db)"
    by (auto simp: advances_def)
  have "\<not> same_run r q"
    using assms(1,3,4) r by (auto simp: run_keys_ok_def same_run_def dest: distinct_map_inj)
  then show ?thesis using assms(3) runs by (auto simp: set_sql_update image_iff intro!: bexI)
qed

text \<open>A run keeps its identity, and its version and generation never fall.\<close>

definition runs_grow :: "db \<Rightarrow> db \<Rightarrow> bool" where
  "runs_grow db db' \<longleftrightarrow> (\<forall>r \<in> set (db_runs db). \<exists>r' \<in> set (db_runs db').
      same_run r r' \<and> r_version r \<le> r_version r' \<and> r_generation r \<le> r_generation r'
      \<and> r_next_seq r \<le> r_next_seq r')"

lemma runs_grow_refl: "runs_grow db db"
  unfolding runs_grow_def by (intro ballI bexI) auto

lemma runs_grow_trans: "runs_grow a b \<Longrightarrow> runs_grow b c \<Longrightarrow> runs_grow a c"
  unfolding runs_grow_def same_run_def by (fastforce intro: order_trans)

lemma advances_grow:
  assumes "run_keys_ok db" and "advances db db'"
  shows "runs_grow db db'"
  unfolding runs_grow_def
proof
  from assms(2) obtain r r' where r: "r \<in> set (db_runs db)" "same_run r r'"
      "r_version r' = r_version r + 1" "r_next_seq r' = r_next_seq r + 1"
      "r_generation r \<le> r_generation r'"
      and runs: "db_runs db' = sql_update (same_run r) (\<lambda>_. r') (db_runs db)"
    by (auto simp: advances_def)
  fix q assume q: "q \<in> set (db_runs db)"
  show "\<exists>q' \<in> set (db_runs db'). same_run q q' \<and> r_version q \<le> r_version q'
          \<and> r_generation q \<le> r_generation q' \<and> r_next_seq q \<le> r_next_seq q'"
  proof (cases "same_run r q")
    case True
    then have "q = r"
      using assms(1) r(1) q by (auto simp: run_keys_ok_def same_run_def dest: distinct_map_inj)
    moreover have "r' \<in> set (db_runs db')"
      using r(1) runs by (auto simp: set_sql_update image_iff intro!: bexI [of _ r])
    ultimately show ?thesis using r by (intro bexI [of _ r']) auto
  next
    case False
    then have "q \<in> set (db_runs db')"
      using q runs by (auto simp: set_sql_update image_iff intro!: bexI [of _ q])
    then show ?thesis by (intro bexI [of _ q]) auto
  qed
qed

section \<open>The interface of a run command\<close>

locale run_command =
  fixes txn :: "'c \<Rightarrow> 'a txn"
  assumes effect: "store_ok db \<Longrightarrow> txn c db = Inr (x, db') \<Longrightarrow> quiet db db' \<or> advances db db'"
    and keeps_task_keys: "store_ok db \<Longrightarrow> txn c db = Inr (x, db') \<Longrightarrow> task_keys_ok db'"
begin

lemma effectE:
  assumes "store_ok db" and "txn c db = Inr (x, db')"
  obtains (quiet) "quiet db db'" | (advances) "advances db db'"
  using effect [OF assms] by blast

lemma keeps_store_ok:
  assumes "store_ok db" and "txn c db = Inr (x, db')"
  shows "store_ok db'"
proof -
  have "runs_ok db'"
    using assms
  proof (cases rule: effectE)
    case quiet
    then show ?thesis using assms(1) by (simp add: quiet_def store_ok_def runs_ok_def run_keys_ok_def)
  next
    case advances
    then show ?thesis by (rule advances_runs_ok [OF store_okD(1) [OF assms(1)]])
  qed
  then show ?thesis using keeps_task_keys [OF assms] by (simp add: store_ok_def)
qed

lemma keeps_log:
  assumes "store_ok db" and "log_ok db" and "txn c db = Inr (x, db')"
  shows "log_ok db'"
  using assms(1,3)
proof (cases rule: effectE)
  case quiet
  then show ?thesis using assms(2) by (simp add: quiet_def log_ok_def run_log_def)
next
  case advances
  then show ?thesis by (rule advances_log [OF runs_ok_keys [OF store_okD(1) [OF assms(1)]] assms(2)])
qed

lemma grows:
  assumes "store_ok db" and "txn c db = Inr (x, db')"
  shows "runs_grow db db'"
  using assms
proof (cases rule: effectE)
  case quiet
  then show ?thesis using runs_grow_refl [of db] by (simp add: quiet_def runs_grow_def)
next
  case advances
  then show ?thesis by (rule advances_grow [OF runs_ok_keys [OF store_okD(1) [OF assms(1)]]])
qed

lemma terminal_frozen:
  assumes "store_ok db" and "txn c db = Inr (x, db')"
    and "q \<in> set (db_runs db)" and "run_terminal (r_status q)"
  shows "q \<in> set (db_runs db')"
  using assms(1,2)
proof (cases rule: effectE)
  case quiet
  then show ?thesis using assms(3) by (simp add: quiet_def)
next
  case advances
  from advances_terminal [OF runs_ok_keys [OF store_okD(1) [OF assms(1)]] this assms(3,4)]
  show ?thesis .
qed

lemma appends:
  assumes "store_ok db" and "txn c db = Inr (x, db')"
  shows "\<exists>es. length es \<le> 1 \<and> db_events db' = db_events db @ es"
  using assms
proof (cases rule: effectE)
  case quiet
  then show ?thesis by (intro exI [of _ "[]"]) (simp add: quiet_def)
next
  case advances
  then obtain e where "db_events db' = db_events db @ [e]" by (auto simp: advances_def)
  then show ?thesis by (intro exI [of _ "[e]"]) simp
qed

end

end
