(* ===== verification/StoreSteps.thy ===== *)
theory StoreSteps
  imports RunEffects
begin

text \<open>
  What any command may do to the runs, the event log and the outbox of the store: a command that is
  not about one run may create runs, advance several, or only move outbox messages. The relation
  \<open>evolves\<close> closes the elementary changes under composition; the ledger of the store (distinct run
  ids, a gapless event log of every run, no event without a run, one outbox message per event) is
  kept by it, and by every command that meets the contract \<open>store_command\<close>.
\<close>

section \<open>The ledger\<close>

definition events_owned :: "db \<Rightarrow> bool" where
  "events_owned db \<longleftrightarrow> (\<forall>e \<in> set (db_events db). \<exists>r \<in> set (db_runs db). event_of_run r e)"

text \<open>The identity of a message, and of the event it publishes.\<close>

definition outbox_key :: "outbox_row \<Rightarrow> uuid \<times> uuid \<times> uuid \<times> uuid" where
  "outbox_key m = (o_id m, o_event m, o_tenant m, o_run m)"

definition event_key :: "event_row \<Rightarrow> uuid \<times> uuid \<times> uuid \<times> uuid" where
  "event_key e = (e_id e, e_id e, e_tenant e, e_run e)"

definition outbox_matches :: "db \<Rightarrow> bool" where
  "outbox_matches db \<longleftrightarrow> map outbox_key (db_outbox db) = map event_key (db_events db)"

definition ledger_ok :: "db \<Rightarrow> bool" where
  "ledger_ok db \<longleftrightarrow> runs_ok db \<and> log_ok db \<and> events_owned db \<and> outbox_matches db"

lemma ledger_okD:
  "ledger_ok db \<Longrightarrow> runs_ok db" "ledger_ok db \<Longrightarrow> log_ok db"
  "ledger_ok db \<Longrightarrow> events_owned db" "ledger_ok db \<Longrightarrow> outbox_matches db"
  by (simp_all add: ledger_ok_def)

lemma outbox_key_row [simp]: "outbox_key (outbox_row_of e) = event_key (event_row_of e)"
  by (simp add: outbox_key_def event_key_def outbox_row_of_def event_row_of_def)

section \<open>Elementary changes\<close>

text \<open>Runs and events stay, and no message appears or disappears.\<close>

definition still :: "db \<Rightarrow> db \<Rightarrow> bool" where
  "still db db' \<longleftrightarrow> db_runs db' = db_runs db \<and> db_events db' = db_events db
     \<and> map outbox_key (db_outbox db') = map outbox_key (db_outbox db)"

text \<open>
  A run advances by the events appended to its log. An ended run may still record what an external
  execution reports late, but its status and its terminal event stay.
\<close>

definition records :: "db \<Rightarrow> db \<Rightarrow> bool" where
  "records db db' \<longleftrightarrow> (\<exists>r r' es.
      r \<in> set (db_runs db) \<and> same_run r r' \<and> run_checks r'
      \<and> r_version r \<le> r_version r' \<and> r_generation r \<le> r_generation r' \<and> r_next_seq r \<le> r_next_seq r'
      \<and> (run_terminal (r_status r)
           \<longrightarrow> r_status r' = r_status r \<and> r_terminal_event r' = r_terminal_event r)
      \<and> db_runs db' = sql_update (same_run r) (\<lambda>_. r') (db_runs db)
      \<and> (\<forall>e \<in> set es. ei_tenant_id e = r_tenant r \<and> ei_run_id e = r_id r)
      \<and> map ei_sequence es = [r_next_seq r..r_next_seq r' - 1]
      \<and> db_events db' = db_events db @ map event_row_of es
      \<and> db_outbox db' = db_outbox db @ map outbox_row_of es)"

text \<open>A run appears with its first event.\<close>

definition spawns :: "db \<Rightarrow> db \<Rightarrow> bool" where
  "spawns db db' \<longleftrightarrow> (\<exists>r e.
      (\<forall>q \<in> set (db_runs db). r_id q \<noteq> r_id r) \<and> run_checks r \<and> r_next_seq r = 2
      \<and> db_runs db' = db_runs db @ [r]
      \<and> ei_tenant_id e = r_tenant r \<and> ei_run_id e = r_id r \<and> ei_sequence e = 1
      \<and> db_events db' = db_events db @ [event_row_of e]
      \<and> db_outbox db' = db_outbox db @ [outbox_row_of e])"

inductive evolves :: "db \<Rightarrow> db \<Rightarrow> bool" where
  evolves_still: "still db db' \<Longrightarrow> evolves db db'"
| evolves_record: "records db db' \<Longrightarrow> evolves db db'"
| evolves_spawn: "spawns db db' \<Longrightarrow> evolves db db'"
| evolves_trans: "evolves a b \<Longrightarrow> evolves b c \<Longrightarrow> evolves a c"

lemma advances_records: "advances db db' \<Longrightarrow> records db db'"
proof -
  assume "advances db db'"
  then obtain r r' e where "r \<in> set (db_runs db)" "\<not> run_terminal (r_status r)" "same_run r r'"
      "r_version r' = r_version r + 1" "r_next_seq r' = r_next_seq r + 1"
      "r_generation r \<le> r_generation r'" "run_checks r'"
      "db_runs db' = sql_update (same_run r) (\<lambda>_. r') (db_runs db)"
      "ei_tenant_id e = r_tenant r" "ei_run_id e = r_id r" "ei_sequence e = r_next_seq r"
      "db_events db' = db_events db @ [event_row_of e]" "db_outbox db' = db_outbox db @ [outbox_row_of e]"
    by (auto simp: advances_def)
  then show ?thesis
    unfolding records_def
    by (intro exI [of _ r] exI [of _ r'] exI [of _ "[e]"]) simp
qed

lemma evolves_advance: "advances db db' \<Longrightarrow> evolves db db'"
  by (intro evolves_record advances_records)

lemma quiet_still: "quiet db db' \<Longrightarrow> still db db'"
  by (simp add: quiet_def still_def)

lemma evolves_same:
  "db_runs db' = db_runs db \<Longrightarrow> db_events db' = db_events db \<Longrightarrow> db_outbox db' = db_outbox db
   \<Longrightarrow> evolves db db'"
  by (intro evolves_still) (simp add: still_def)

section \<open>The ledger is kept\<close>

lemma still_ledger: "ledger_ok db \<Longrightarrow> still db db' \<Longrightarrow> ledger_ok db'"
  by (simp add: ledger_ok_def still_def runs_ok_def run_keys_ok_def log_ok_def run_log_def
      events_owned_def outbox_matches_def)

lemma same_run_event_of: "same_run r r' \<Longrightarrow> event_of_run r' = event_of_run r"
  by (simp add: same_run_def event_of_run_def fun_eq_iff)

lemma recorded_run_in:
  "r \<in> set (db_runs db) \<Longrightarrow> db_runs db' = sql_update (same_run r) (\<lambda>_. r') (db_runs db)
   \<Longrightarrow> r' \<in> set (db_runs db')"
  by (auto simp: set_sql_update image_iff)

lemma records_runs_ok:
  assumes "runs_ok db" and "records db db'"
  shows "runs_ok db'"
  using assms
  by (auto simp: runs_ok_def run_keys_ok_def records_def map_r_id_update elim!: in_updated_runs)

lemma records_log:
  assumes "run_keys_ok db" and "log_ok db" and "records db db'"
  shows "log_ok db'"
  unfolding log_ok_def
proof
  from assms(3) obtain r r' es where rec: "r \<in> set (db_runs db)" "same_run r r'"
      "r_next_seq r \<le> r_next_seq r'" "db_runs db' = sql_update (same_run r) (\<lambda>_. r') (db_runs db)"
      "\<forall>e \<in> set es. ei_tenant_id e = r_tenant r \<and> ei_run_id e = r_id r"
      "map ei_sequence es = [r_next_seq r..r_next_seq r' - 1]"
      "db_events db' = db_events db @ map event_row_of es"
    by (auto simp: records_def)
  fix q assume "q \<in> set (db_runs db')"
  then have "q \<in> set (sql_update (same_run r) (\<lambda>_. r') (db_runs db))" using rec(4) by simp
  then show "1 \<le> r_next_seq q \<and> map e_seq (run_log q db') = [1..r_next_seq q - 1]"
  proof (cases rule: in_updated_runs)
    case other
    then have "filter (event_of_run q) (map event_row_of es) = []"
      using rec(5) by (auto simp: filter_empty_conv same_run_def)
    then have "run_log q db' = run_log q db" using rec(7) by (simp add: run_log_def)
    then show ?thesis using other assms(2) by (simp add: log_ok_def)
  next
    case changed
    have "event_of_run q = event_of_run r"
      using changed rec(2) by (simp add: same_run_event_of)
    moreover have "filter (event_of_run r) (map event_row_of es) = map event_row_of es"
      using rec(5) by (auto simp: filter_id_conv)
    ultimately have "run_log q db' = run_log r db @ map event_row_of es"
      using rec(7) by (simp add: run_log_def)
    moreover have low: "1 \<le> r_next_seq r" and "map e_seq (run_log r db) = [1..r_next_seq r - 1]"
      using assms(2) rec(1) by (auto simp: log_ok_def)
    moreover have "map e_seq (map event_row_of es) = [r_next_seq r..r_next_seq r' - 1]"
      using rec(6) by (simp add: event_row_of_def comp_def)
    moreover have "[1..r_next_seq r' - 1] = [1..r_next_seq r - 1] @ [r_next_seq r..r_next_seq r' - 1]"
    proof (cases "r_next_seq r = r_next_seq r'")
      case False
      then show ?thesis using low rec(3) by (intro upto_split1) auto
    qed simp
    ultimately show ?thesis using changed rec(3) by simp
  qed
qed

lemma records_events_owned:
  assumes "events_owned db" and "records db db'"
  shows "events_owned db'"
  unfolding events_owned_def
proof
  from assms(2) obtain r r' es where rec: "r \<in> set (db_runs db)" "same_run r r'"
      "db_runs db' = sql_update (same_run r) (\<lambda>_. r') (db_runs db)"
      "\<forall>e \<in> set es. ei_tenant_id e = r_tenant r \<and> ei_run_id e = r_id r"
      "db_events db' = db_events db @ map event_row_of es"
    by (auto simp: records_def)
  note r' = recorded_run_in [OF rec(1,3)]
  fix d assume "d \<in> set (db_events db')"
  then consider "d \<in> set (db_events db)" | e where "e \<in> set es" "d = event_row_of e" using rec(5) by auto
  then show "\<exists>q \<in> set (db_runs db'). event_of_run q d"
  proof cases
    case 1
    then obtain q where q: "q \<in> set (db_runs db)" "event_of_run q d"
      using assms(1) by (auto simp: events_owned_def)
    show ?thesis
    proof (cases "same_run r q")
      case True
      then have "event_of_run r' d"
        using q(2) rec(2) by (auto simp: same_run_def event_of_run_def)
      with r' show ?thesis by blast
    next
      case False
      then have "q \<in> set (db_runs db')" using q(1) rec(3) by (force simp: set_sql_update)
      with q(2) show ?thesis by blast
    qed
  next
    case 2
    then have "event_of_run r' d" using rec(2,4) by (simp add: same_run_def)
    with r' show ?thesis by blast
  qed
qed

lemma records_outbox: "outbox_matches db \<Longrightarrow> records db db' \<Longrightarrow> outbox_matches db'"
  by (auto simp: records_def outbox_matches_def)

lemma records_ledger: "ledger_ok db \<Longrightarrow> records db db' \<Longrightarrow> ledger_ok db'"
  using records_runs_ok [of db db'] records_log [of db db'] records_events_owned [of db db']
    records_outbox [of db db']
  by (simp add: ledger_ok_def)

lemma recorded_run_other:
  assumes "run_keys_ok db" and "r \<in> set (db_runs db)" and "q \<in> set (db_runs db)" and "same_run r q"
  shows "q = r"
  using assms by (auto simp: run_keys_ok_def same_run_def dest: distinct_map_inj)

text \<open>The end of a run is final.\<close>

definition ended_same :: "run_row \<Rightarrow> run_row \<Rightarrow> bool" where
  "ended_same q q' \<longleftrightarrow> same_run q q' \<and> r_status q' = r_status q \<and> r_terminal_event q' = r_terminal_event q"

lemma ended_same_refl [simp]: "ended_same q q"
  by (simp add: ended_same_def)

lemma records_terminal:
  assumes "run_keys_ok db" and "records db db'" and "q \<in> set (db_runs db)" and "run_terminal (r_status q)"
  shows "\<exists>q' \<in> set (db_runs db'). ended_same q q'"
proof -
  from assms(2) obtain r r' where rec: "r \<in> set (db_runs db)" "same_run r r'"
      "run_terminal (r_status r) \<longrightarrow> r_status r' = r_status r \<and> r_terminal_event r' = r_terminal_event r"
      "db_runs db' = sql_update (same_run r) (\<lambda>_. r') (db_runs db)"
    by (auto simp: records_def)
  show ?thesis
  proof (cases "same_run r q")
    case True
    from recorded_run_other [OF assms(1) rec(1) assms(3) True] rec(2,3) assms(4)
    show ?thesis by (intro bexI [OF _ recorded_run_in [OF rec(1,4)]]) (simp add: ended_same_def)
  next
    case False
    then have "q \<in> set (db_runs db')" using assms(3) rec(4) by (force simp: set_sql_update)
    then show ?thesis by (intro bexI [of _ q]) simp
  qed
qed

lemma records_grow:
  assumes "run_keys_ok db" and "records db db'"
  shows "runs_grow db db'"
  unfolding runs_grow_def
proof
  from assms(2) obtain r r' where r: "r \<in> set (db_runs db)" "same_run r r'"
      "r_version r \<le> r_version r'" "r_next_seq r \<le> r_next_seq r'" "r_generation r \<le> r_generation r'"
      and runs: "db_runs db' = sql_update (same_run r) (\<lambda>_. r') (db_runs db)"
    by (auto simp: records_def)
  fix q assume q: "q \<in> set (db_runs db)"
  show "\<exists>q' \<in> set (db_runs db'). same_run q q' \<and> r_version q \<le> r_version q'
          \<and> r_generation q \<le> r_generation q' \<and> r_next_seq q \<le> r_next_seq q'"
  proof (cases "same_run r q")
    case True
    with recorded_run_other [OF assms(1) r(1) q] r show ?thesis
      by (intro bexI [OF _ recorded_run_in [OF r(1) runs]]) auto
  next
    case False
    then have "q \<in> set (db_runs db')" using q runs by (force simp: set_sql_update)
    then show ?thesis by (intro bexI [of _ q]) auto
  qed
qed

lemma spawns_ledger:
  assumes "ledger_ok db" and "spawns db db'"
  shows "ledger_ok db'"
proof -
  from assms(2) obtain r e where sp: "\<forall>q \<in> set (db_runs db). r_id q \<noteq> r_id r" "run_checks r"
      "r_next_seq r = 2" "db_runs db' = db_runs db @ [r]"
      "ei_tenant_id e = r_tenant r" "ei_run_id e = r_id r" "ei_sequence e = 1"
      "db_events db' = db_events db @ [event_row_of e]"
      "db_outbox db' = db_outbox db @ [outbox_row_of e]"
    by (auto simp: spawns_def)
  have fresh: "\<not> event_of_run r d" if "d \<in> set (db_events db)" for d
    using that assms(1) sp(1) by (force simp: ledger_ok_def events_owned_def event_of_run_def)
  have old: "run_log q db' = run_log q db" if "q \<in> set (db_runs db)" for q
    using that sp by (auto simp: run_log_def)
  have new: "map e_seq (run_log r db') = [1]"
    using fresh sp(5-8) by (simp add: run_log_def filter_empty_conv) (simp add: event_row_of_def)
  have "runs_ok db'" using assms(1) sp(1,2,4) by (auto simp: ledger_ok_def runs_ok_def run_keys_ok_def)
  moreover have "log_ok db'"
    using assms(1) sp(3,4) old new by (auto simp: ledger_ok_def log_ok_def)
  moreover have "events_owned db'"
    using assms(1) sp(4-6,8) by (auto simp: ledger_ok_def events_owned_def)
  moreover have "outbox_matches db'"
    using assms(1) sp(8,9) by (simp add: ledger_ok_def outbox_matches_def)
  ultimately show ?thesis by (simp add: ledger_ok_def)
qed

lemma evolves_ledger: "evolves db db' \<Longrightarrow> ledger_ok db \<Longrightarrow> ledger_ok db'"
  by (induction rule: evolves.induct) (auto intro: still_ledger records_ledger spawns_ledger)

lemma evolves_runs_ok: "evolves db db' \<Longrightarrow> runs_ok db \<Longrightarrow> runs_ok db'"
proof (induction rule: evolves.induct)
  case (evolves_spawn db db')
  then show ?case by (fastforce simp: spawns_def runs_ok_def run_keys_ok_def)
next
  case (evolves_record db db')
  then show ?case using records_runs_ok by blast
next
  case (evolves_still db db')
  then show ?case by (simp add: still_def runs_ok_def run_keys_ok_def)
qed blast

lemma ended_same_trans: "ended_same p q \<Longrightarrow> ended_same q r \<Longrightarrow> ended_same p r"
  by (simp add: ended_same_def same_run_def)

lemma evolves_terminal:
  assumes "evolves db db'" and "runs_ok db" and "q \<in> set (db_runs db)" and "run_terminal (r_status q)"
  shows "\<exists>q' \<in> set (db_runs db'). ended_same q q'"
  using assms
proof (induction arbitrary: q rule: evolves.induct)
  case (evolves_record db db')
  then show ?case using records_terminal [of db db' q] by simp
next
  case (evolves_trans a b c)
  from evolves_trans.IH(1) [OF evolves_trans.prems] obtain p where p: "p \<in> set (db_runs b)" "ended_same q p"
    by blast
  have "run_terminal (r_status p)" using p(2) evolves_trans.prems(3) by (simp add: ended_same_def)
  from evolves_trans.IH(2) [OF evolves_runs_ok [OF evolves_trans.hyps(1) evolves_trans.prems(1)] p(1) this]
    ended_same_trans [OF p(2)] show ?case by blast
next
  case (evolves_still db db')
  then show ?case by (intro bexI [of _ q]) (simp_all add: still_def)
next
  case (evolves_spawn db db')
  then show ?case by (intro bexI [of _ q]) (auto simp: spawns_def)
qed

lemma evolves_grow: "evolves db db' \<Longrightarrow> runs_ok db \<Longrightarrow> runs_grow db db'"
proof (induction rule: evolves.induct)
  case (evolves_still db db')
  then show ?case using runs_grow_refl [of db] by (simp add: still_def runs_grow_def)
next
  case (evolves_record db db')
  then show ?case by (simp add: records_grow)
next
  case (evolves_spawn db db')
  then have "set (db_runs db) \<subseteq> set (db_runs db')" by (auto simp: spawns_def)
  then show ?case using runs_grow_refl [of db] unfolding runs_grow_def by blast
next
  case (evolves_trans a b c)
  then show ?case using evolves_runs_ok runs_grow_trans by blast
qed

text \<open>Events are only appended.\<close>

lemma evolves_events: "evolves db db' \<Longrightarrow> \<exists>es. db_events db' = db_events db @ es"
proof (induction rule: evolves.induct)
  case (evolves_trans a b c)
  then show ?case by auto
qed (auto simp: still_def records_def spawns_def)

section \<open>The contract of a command\<close>

locale store_command =
  fixes txn :: "'c \<Rightarrow> 'a txn"
  assumes evolves: "store_ok db \<Longrightarrow> txn c db = Inr (x, db') \<Longrightarrow> evolves db db'"
    and task_keys: "store_ok db \<Longrightarrow> txn c db = Inr (x, db') \<Longrightarrow> task_keys_ok db'"
begin

lemma store_kept:
  assumes "store_ok db" and "txn c db = Inr (x, db')"
  shows "store_ok db'"
  using evolves_runs_ok [OF evolves [OF assms] store_okD(1) [OF assms(1)]] task_keys [OF assms]
  by (simp add: store_ok_def)

lemma ledger_kept:
  assumes "task_keys_ok db" and "ledger_ok db" and "txn c db = Inr (x, db')"
  shows "ledger_ok db'"
proof (rule evolves_ledger)
  show "evolves db db'"
    using assms by (intro evolves [OF _ assms(3)]) (simp add: store_ok_def ledger_ok_def)
qed (rule assms(2))

lemma terminal_final:
  assumes "store_ok db" and "txn c db = Inr (x, db')"
    and "q \<in> set (db_runs db)" and "run_terminal (r_status q)"
  shows "\<exists>q' \<in> set (db_runs db'). ended_same q q'"
  using evolves_terminal [OF evolves [OF assms(1,2)] store_okD(1) [OF assms(1)] assms(3,4)] .

lemma growth:
  assumes "store_ok db" and "txn c db = Inr (x, db')"
  shows "runs_grow db db'"
  using evolves_grow [OF evolves [OF assms] store_okD(1) [OF assms(1)]] .

lemma events_appended:
  assumes "store_ok db" and "txn c db = Inr (x, db')"
  shows "\<exists>es. db_events db' = db_events db @ es"
  using evolves_events [OF evolves [OF assms]] .

end

text \<open>A command on one run is a command on the store.\<close>

sublocale run_command \<subseteq> store_command txn
proof unfold_locales
  fix db c x db'
  assume "store_ok db" and "txn c db = Inr (x, db')"
  then show "evolves db db'"
    by (cases rule: effectE) (auto intro: evolves_still evolves_advance quiet_still)
qed (rule keeps_task_keys)

end
