(* ===== verification/Outbox.thy ===== *)
theory Outbox
  imports StoreSteps
begin

text \<open>
  The transactional outbox: \<open>claim_outbox\<close> and \<open>record_outbox_delivery\<close> of \<open>transaction_executor.rs\<close>
  with their commands (\<open>durable-store/src/outbox.rs\<close>), and the worker that publishes one message at
  a time (\<open>runtime/src/outbox.rs\<close>). The two operations the worker calls are the interface
  \<open>outbox_store\<close>; proved: a lease is exclusive, only its holder settles the message, and a message
  is marked published only after the broker accepted it.
\<close>

section \<open>Commands and messages\<close>

record claim_outbox_command =
  coc_publisher_id :: uuid
  coc_lease_token :: lease_token
  coc_lease_duration :: nat

definition claim_outbox_shape_is_valid :: "claim_outbox_command \<Rightarrow> bool" where
  "claim_outbox_shape_is_valid cmd \<longleftrightarrow> coc_publisher_id cmd \<noteq> 0 \<and> 0 < coc_lease_duration cmd"

datatype outbox_delivery_outcome =
    DeliveryPublished
  | DeliveryRetry micros string

record record_outbox_delivery_command =
  rod_outbox_id :: uuid
  rod_expected_attempt :: nat
  rod_publisher_id :: uuid
  rod_lease_token :: lease_token
  rod_outcome :: outbox_delivery_outcome

definition delivery_shape_is_valid :: "record_outbox_delivery_command \<Rightarrow> bool" where
  "delivery_shape_is_valid cmd \<longleftrightarrow> 0 < rod_expected_attempt cmd \<and> rod_publisher_id cmd \<noteq> 0
     \<and> (case rod_outcome cmd of DeliveryPublished \<Rightarrow> True | DeliveryRetry _ code \<Rightarrow> code \<noteq> [])"

record outbox_message =
  om_tenant_id :: uuid
  om_outbox_id :: uuid
  om_event_id :: uuid
  om_run_id :: uuid
  om_topic :: string
  om_partition_key :: string
  om_payload :: json_payload
  om_attempt :: nat
  om_lease_expires_at :: micros
  om_created_at :: micros

section \<open>Claiming a message\<close>

definition due_message :: "uuid \<Rightarrow> micros \<Rightarrow> outbox_row \<Rightarrow> bool" where
  "due_message tenant now m \<longleftrightarrow> o_tenant m = tenant
     \<and> (o_status m = OutPending \<and> o_available_at m \<le> now
        \<or> o_status m = OutPublishing
          \<and> (case o_lease_expires_at m of None \<Rightarrow> False | Some expires \<Rightarrow> expires \<le> now))"

text \<open>
  The first due message, by \<open>ORDER BY available_at, outbox_id\<close>, that no other transaction has
  locked.
\<close>

definition outbox_candidate :: "(uuid \<Rightarrow> bool) \<Rightarrow> uuid \<Rightarrow> micros \<Rightarrow> db \<Rightarrow> outbox_row option" where
  "outbox_candidate locked tenant now db =
    (case sort_key (\<lambda>m. (o_available_at m, o_id m))
            (filter (\<lambda>m. due_message tenant now m \<and> \<not> locked (o_id m)) (db_outbox db)) of
       [] \<Rightarrow> None
     | m # _ \<Rightarrow> Some m)"

definition claimed_message :: "claim_outbox_command \<Rightarrow> int \<Rightarrow> micros \<Rightarrow> outbox_row \<Rightarrow> outbox_row" where
  "claimed_message cmd attempt expires m = m\<lparr>o_status := OutPublishing, o_attempt := attempt,
     o_lease_owner := Some (coc_publisher_id cmd), o_lease_token := Some (coc_lease_token cmd),
     o_lease_expires_at := Some expires, o_last_error := None\<rparr>"

definition message_of :: "externals \<Rightarrow> uuid \<Rightarrow> outbox_row \<Rightarrow> nat \<Rightarrow> micros \<Rightarrow> outbox_message" where
  "message_of ext tenant m attempt expires =
    \<lparr> om_tenant_id = tenant, om_outbox_id = o_id m, om_event_id = o_event m, om_run_id = o_run m,
      om_topic = o_topic m, om_partition_key = o_partition_key m,
      om_payload = ext_to_vec ext (o_payload m), om_attempt = attempt,
      om_lease_expires_at = expires, om_created_at = o_created_at m \<rparr>"

definition claim_outbox ::
  "externals \<Rightarrow> (uuid \<Rightarrow> bool) \<Rightarrow> micros \<Rightarrow> query_context \<Rightarrow> claim_outbox_command
   \<Rightarrow> outbox_message option txn" where
  "claim_outbox ext locked now ctx cmd =
    (let tenant = qc_tenant_id ctx in
    thenT (guardT (claim_outbox_shape_is_valid cmd) (invalid_command ''invalid Outbox claim shape''))
    (bindT (liftT (ok_or (i64_try_from (coc_lease_duration cmd))
             (invalid_command ''Outbox lease duration exceeds timestamp range''))) (\<lambda>duration.
    bindT (liftT (checked_add_i64_or now duration (invalid_command ''Outbox lease expiry overflow'')))
      (\<lambda>expires.
    bindT (queryT (outbox_candidate locked tenant now)) (\<lambda>candidate.
    case candidate of
        None \<Rightarrow> returnT None
      | Some m \<Rightarrow>
          bindT (liftT (checked_add_i64_or (o_attempt m) 1 (inconsistent ''Outbox attempt overflow'')))
            (\<lambda>next_attempt.
          bindT (update_outbox (\<lambda>r. o_tenant r = tenant \<and> o_id r = o_id m \<and> o_attempt r = o_attempt m)
                   (claimed_message cmd next_attempt expires)) (\<lambda>updated.
          thenT (guardT (updated = 1)
                   (store_error_of VersionConflict ''Outbox message changed while claiming''))
          (thenT (guardT (0 \<le> next_attempt \<and> next_attempt \<le> int u32_max)
                   (inconsistent ''Outbox attempt exceeds u32 range''))
          (returnT (Some (message_of ext tenant m (nat next_attempt) expires)))))))))))"

section \<open>Recording a delivery\<close>

definition settled_message :: "outbox_delivery_outcome \<Rightarrow> micros \<Rightarrow> outbox_row \<Rightarrow> outbox_row" where
  "settled_message outcome now m = (case outcome of
      DeliveryPublished \<Rightarrow> m\<lparr>o_status := OutPublished, o_lease_owner := None, o_lease_token := None,
        o_lease_expires_at := None, o_last_error := None, o_published_at := Some now\<rparr>
    | DeliveryRetry available_at code \<Rightarrow> m\<lparr>o_status := OutPending, o_available_at := available_at,
        o_lease_owner := None, o_lease_token := None, o_lease_expires_at := None,
        o_last_error := Some code, o_published_at := None\<rparr>)"

definition leased_message ::
  "uuid \<Rightarrow> micros \<Rightarrow> record_outbox_delivery_command \<Rightarrow> outbox_row \<Rightarrow> bool" where
  "leased_message tenant now cmd m \<longleftrightarrow> o_tenant m = tenant \<and> o_id m = rod_outbox_id cmd
     \<and> o_status m = OutPublishing \<and> o_attempt m = int (rod_expected_attempt cmd)
     \<and> o_lease_owner m = Some (rod_publisher_id cmd) \<and> o_lease_token m = Some (rod_lease_token cmd)
     \<and> (case o_lease_expires_at m of None \<Rightarrow> False | Some expires \<Rightarrow> now < expires)"

definition record_outbox_delivery ::
  "micros \<Rightarrow> query_context \<Rightarrow> record_outbox_delivery_command \<Rightarrow> unit txn" where
  "record_outbox_delivery now ctx cmd =
    thenT (guardT (delivery_shape_is_valid cmd) (invalid_command ''invalid Outbox delivery shape''))
    (bindT (update_outbox (leased_message (qc_tenant_id ctx) now cmd)
              (settled_message (rod_outcome cmd) now)) (\<lambda>updated.
    guardT (updated = 1) (store_error_of LeaseLost ''Outbox delivery lease or attempt changed'')))"

section \<open>The worker\<close>

record outbox_publish_error =
  ope_code :: string
  ope_safe_message :: string

datatype outbox_poll_outcome =
    PollIdle
  | PollPublished outbox_message
  | PollRetryScheduled outbox_message outbox_publish_error

datatype outbox_worker_error = WorkerStore store_error | WorkerInvalidConfig

record outbox_worker =
  ow_context :: query_context
  ow_publisher_id :: uuid
  ow_lease_token :: lease_token
  ow_lease_duration :: nat

definition new_outbox_worker ::
  "uuid \<Rightarrow> uuid \<Rightarrow> lease_token \<Rightarrow> nat \<Rightarrow> outbox_worker_error + outbox_worker" where
  "new_outbox_worker tenant publisher token duration =
    (if publisher = 0 \<or> duration = 0 then Inl WorkerInvalidConfig
     else Inr \<lparr> ow_context = \<lparr> qc_tenant_id = tenant,
                  qc_actor_ref = ''agent-loom-outbox-publisher'', qc_authoritative = True \<rparr>,
                ow_publisher_id = publisher, ow_lease_token = token, ow_lease_duration = duration \<rparr>)"

definition worker_claim :: "outbox_worker \<Rightarrow> claim_outbox_command" where
  "worker_claim w = \<lparr> coc_publisher_id = ow_publisher_id w, coc_lease_token = ow_lease_token w,
     coc_lease_duration = ow_lease_duration w \<rparr>"

definition worker_delivery ::
  "outbox_worker \<Rightarrow> outbox_message \<Rightarrow> outbox_publish_error + unit \<Rightarrow> record_outbox_delivery_command" where
  "worker_delivery w m publish =
    \<lparr> rod_outbox_id = om_outbox_id m, rod_expected_attempt = om_attempt m,
      rod_publisher_id = ow_publisher_id w, rod_lease_token = ow_lease_token w,
      rod_outcome = (case publish of Inr _ \<Rightarrow> DeliveryPublished
                     | Inl e \<Rightarrow> DeliveryRetry (om_lease_expires_at m) (ope_code e)) \<rparr>"

text \<open>
  \<open>poll_once\<close> over the two operations of the \<open>OutboxStore\<close> trait and the publisher. Between the
  claim and the record the store is changed by others, by the function \<open>others\<close>.
\<close>

definition poll_once ::
  "(query_context \<Rightarrow> claim_outbox_command \<Rightarrow> 's \<Rightarrow> store_error + (outbox_message option \<times> 's))
   \<Rightarrow> (query_context \<Rightarrow> record_outbox_delivery_command \<Rightarrow> 's \<Rightarrow> store_error + (unit \<times> 's))
   \<Rightarrow> (outbox_message \<Rightarrow> outbox_publish_error + unit) \<Rightarrow> ('s \<Rightarrow> 's) \<Rightarrow> outbox_worker \<Rightarrow> 's
   \<Rightarrow> (outbox_worker_error + outbox_poll_outcome) \<times> 's" where
  "poll_once claim settle publish others w s =
    (case claim (ow_context w) (worker_claim w) s of
       Inl e \<Rightarrow> (Inl (WorkerStore e), s)
     | Inr (None, s1) \<Rightarrow> (Inr PollIdle, s1)
     | Inr (Some m, s1) \<Rightarrow>
         (let result = publish m in
          case settle (ow_context w) (worker_delivery w m result) (others s1) of
            Inl e \<Rightarrow> (Inl (WorkerStore e), others s1)
          | Inr (_, s2) \<Rightarrow> (Inr (case result of Inr _ \<Rightarrow> PollPublished m
                                  | Inl e \<Rightarrow> PollRetryScheduled m e), s2)))"

section \<open>Effects\<close>

definition outbox_ids_ok :: "db \<Rightarrow> bool" where
  "outbox_ids_ok db \<longleftrightarrow> distinct (map o_id (db_outbox db))"

text \<open>The messages whose event has still to be published.\<close>

definition owed_messages :: "db \<Rightarrow> uuid set" where
  "owed_messages db = o_id ` {m \<in> set (db_outbox db). o_status m \<noteq> OutPublished}"

lemma outbox_row_unique:
  "outbox_ids_ok db \<Longrightarrow> m \<in> set (db_outbox db) \<Longrightarrow> u \<in> set (db_outbox db) \<Longrightarrow> o_id u = o_id m \<Longrightarrow> u = m"
  unfolding outbox_ids_ok_def by (erule distinct_map_inj)

lemma sql_update_one_message:
  assumes "outbox_ids_ok db" and "m \<in> set (db_outbox db)" and "P m" and "\<And>u. P u \<Longrightarrow> o_id u = o_id m"
  shows "sql_update P f (db_outbox db) = map (\<lambda>u. if u = m then f m else u) (db_outbox db)"
proof -
  have "(if P u then f u else u) = (if u = m then f m else u)" if "u \<in> set (db_outbox db)" for u
  proof (cases "P u")
    case True
    with outbox_row_unique [OF assms(1,2) that assms(4)] show ?thesis by simp
  next
    case False
    with assms(3) show ?thesis by auto
  qed
  then show ?thesis by (simp add: sql_update_def)
qed

lemma claimed_message_sel [simp]:
  "o_id (claimed_message cmd n e m) = o_id m" "o_tenant (claimed_message cmd n e m) = o_tenant m"
  "o_status (claimed_message cmd n e m) = OutPublishing" "o_attempt (claimed_message cmd n e m) = n"
  "o_lease_owner (claimed_message cmd n e m) = Some (coc_publisher_id cmd)"
  "o_lease_token (claimed_message cmd n e m) = Some (coc_lease_token cmd)"
  "o_lease_expires_at (claimed_message cmd n e m) = Some e"
  "outbox_key (claimed_message cmd n e m) = outbox_key m"
  by (simp_all add: claimed_message_def outbox_key_def)

lemma settled_message_sel [simp]:
  "o_id (settled_message outcome now m) = o_id m"
  "outbox_key (settled_message outcome now m) = outbox_key m"
  "o_status (settled_message outcome now m)
     = (case outcome of DeliveryPublished \<Rightarrow> OutPublished | DeliveryRetry _ _ \<Rightarrow> OutPending)"
  by (simp_all add: settled_message_def outbox_key_def split: outbox_delivery_outcome.split)

lemma outbox_candidate_Some:
  assumes "outbox_candidate locked tenant now db = Some m"
  shows "m \<in> set (db_outbox db)" and "due_message tenant now m" and "\<not> locked (o_id m)"
    and "\<forall>u \<in> set (db_outbox db). due_message tenant now u \<longrightarrow> \<not> locked (o_id u)
           \<longrightarrow> (o_available_at m, o_id m) \<le> (o_available_at u, o_id u)"
proof -
  let ?rows = "filter (\<lambda>m. due_message tenant now m \<and> \<not> locked (o_id m)) (db_outbox db)"
  let ?key = "\<lambda>m. (o_available_at m, o_id m)"
  from assms obtain ms where sorted: "sort_key ?key ?rows = m # ms"
    by (auto simp: outbox_candidate_def split: list.splits)
  have set: "set (m # ms) = set ?rows" using arg_cong [OF sorted, of set] by simp
  then have "m \<in> set ?rows" by auto
  then show "m \<in> set (db_outbox db)" and "due_message tenant now m" and "\<not> locked (o_id m)" by auto
  have "sorted (map ?key (sort_key ?key ?rows))" by (rule sorted_sort_key)
  then have "sorted (map ?key (m # ms))" by (simp only: sorted)
  then have "\<forall>u \<in> set (m # ms). ?key m \<le> ?key u" by auto
  then show "\<forall>u \<in> set (db_outbox db). due_message tenant now u \<longrightarrow> \<not> locked (o_id u)
           \<longrightarrow> ?key m \<le> ?key u"
    unfolding set by simp
qed

lemma claim_outbox_effect:
  assumes "claim_outbox ext locked now ctx cmd db = Inr (answer, db')" and "outbox_ids_ok db"
  obtains (idle) "answer = None" and "db' = db" and "outbox_candidate locked (qc_tenant_id ctx) now db = None"
    | (claimed) m expires where "outbox_candidate locked (qc_tenant_id ctx) now db = Some m"
      and "expires = now + int (coc_lease_duration cmd)" and "now < expires" and "0 \<le> o_attempt m + 1"
      and "answer = Some (message_of ext (qc_tenant_id ctx) m (nat (o_attempt m + 1)) expires)"
      and "db' = db\<lparr>db_outbox := map (\<lambda>u. if u = m then claimed_message cmd (o_attempt m + 1) expires m else u)
             (db_outbox db)\<rparr>"
proof (cases "outbox_candidate locked (qc_tenant_id ctx) now db")
  case None
  with assms(1) show ?thesis
    by (intro idle) (auto simp: claim_outbox_def Let_def txn_iffs)
next
  case (Some m)
  note cand = outbox_candidate_Some [OF Some]
  let ?P = "\<lambda>r. o_tenant r = qc_tenant_id ctx \<and> o_id r = o_id m \<and> o_attempt r = o_attempt m"
  have "?P m" using cand(2) by (simp add: due_message_def)
  from sql_update_one_message [OF assms(2) cand(1), of ?P, OF this]
  have one: "sql_update ?P f (db_outbox db) = map (\<lambda>u. if u = m then f m else u) (db_outbox db)" for f
    by simp
  from assms(1) Some show ?thesis
    by (intro claimed [of m "now + int (coc_lease_duration cmd)"])
      (auto simp: claim_outbox_def Let_def txn_iffs ok_or_Inr_iff checked_add_i64_or_Inr one
        claim_outbox_shape_is_valid_def)
qed

lemma record_delivery_effect:
  assumes "record_outbox_delivery now ctx cmd db = Inr (u, db')" and "outbox_ids_ok db"
  obtains m where "m \<in> set (db_outbox db)" and "leased_message (qc_tenant_id ctx) now cmd m"
    and "db' = db\<lparr>db_outbox := map (\<lambda>r. if r = m then settled_message (rod_outcome cmd) now m else r)
           (db_outbox db)\<rparr>"
proof -
  let ?P = "leased_message (qc_tenant_id ctx) now cmd"
  from assms(1) have count: "sql_count ?P (db_outbox db) = 1"
    and db': "db' = db\<lparr>db_outbox := sql_update ?P (settled_message (rod_outcome cmd) now) (db_outbox db)\<rparr>"
    by (auto simp: record_outbox_delivery_def txn_iffs)
  from count obtain m where m: "m \<in> set (db_outbox db)" "?P m" by (rule sql_count_1E)
  have same: "o_id r = o_id m" if "?P r" for r using that m(2) by (simp add: leased_message_def)
  from sql_update_one_message [where P = ?P, OF assms(2) m same] show ?thesis
    using m by (intro that [of m]) (simp_all add: db')
qed

lemma outbox_ids_update:
  "(\<And>u. o_id (f u) = o_id u) \<Longrightarrow> outbox_ids_ok db \<Longrightarrow> outbox_ids_ok (db\<lparr>db_outbox := map f (db_outbox db)\<rparr>)"
  by (simp add: outbox_ids_ok_def comp_def)

lemma owed_update:
  assumes "outbox_ids_ok db" and "m \<in> set (db_outbox db)" and "o_status m \<noteq> OutPublished"
    and "o_id m' = o_id m"
  shows "owed_messages (db\<lparr>db_outbox := map (\<lambda>u. if u = m then m' else u) (db_outbox db)\<rparr>)
    = (if o_status m' = OutPublished then owed_messages db - {o_id m} else owed_messages db)"
  using assms(2-4) outbox_row_unique [OF assms(1,2)]
  by (auto simp: owed_messages_def image_iff split: if_splits) metis+

section \<open>The interface of the worker\<close>

text \<open>
  What the worker relies on: a claim hands out an owed message and owes no less, and a record
  under the lease of a message stops owing that message, or none when the publishing failed.
\<close>

locale outbox_store =
  fixes claim :: "query_context \<Rightarrow> claim_outbox_command \<Rightarrow> 's
      \<Rightarrow> store_error + (outbox_message option \<times> 's)"
    and settle :: "query_context \<Rightarrow> record_outbox_delivery_command \<Rightarrow> 's \<Rightarrow> store_error + (unit \<times> 's)"
    and ok :: "'s \<Rightarrow> bool"
    and owed :: "'s \<Rightarrow> uuid set"
  assumes claim_ok: "ok s \<Longrightarrow> claim ctx ccmd s = Inr (answer, s') \<Longrightarrow> ok s' \<and> owed s' = owed s"
    and claim_owed: "ok s \<Longrightarrow> claim ctx ccmd s = Inr (Some m, s') \<Longrightarrow> om_outbox_id m \<in> owed s"
    and settle_ok: "ok s \<Longrightarrow> settle ctx rcmd s = Inr (u, s') \<Longrightarrow> ok s' \<and> rod_outbox_id rcmd \<in> owed s"
    and settle_owed: "ok s \<Longrightarrow> settle ctx rcmd s = Inr (u, s')
      \<Longrightarrow> owed s' = (if rod_outcome rcmd = DeliveryPublished then owed s - {rod_outbox_id rcmd} else owed s)"
begin

lemma poll_ok:
  assumes "ok s" and "\<And>t. ok t \<Longrightarrow> ok (others t)"
    and "poll_once claim settle publish others w s = (r, s')"
  shows "ok s'"
  using assms claim_ok [OF assms(1)] settle_ok
  by (auto simp: poll_once_def Let_def split: sum.splits option.splits prod.splits) blast+

text \<open>A message stops being owed only when the publisher accepted it, or others settled it.\<close>

lemma poll_owed:
  assumes "ok s" and "\<And>t. ok t \<Longrightarrow> ok (others t)"
    and "poll_once claim settle publish others w s = (r, s')" and "x \<in> owed s" and "x \<notin> owed s'"
  shows "(\<exists>m. r = Inr (PollPublished m) \<and> om_outbox_id m = x \<and> publish m = Inr ())
     \<or> (\<exists>t. x \<in> owed t \<and> x \<notin> owed (others t))"
proof (cases "claim (ow_context w) (worker_claim w) s")
  case (Inl e)
  with assms(3-5) show ?thesis by (simp add: poll_once_def)
next
  case (Inr answer)
  obtain m s1 where answer: "answer = (m, s1)" by (cases answer)
  note claimed = claim_ok [OF assms(1) Inr [unfolded answer]]
  show ?thesis
  proof (cases m)
    case None
    with assms(3-5) Inr answer claimed show ?thesis by (simp add: poll_once_def)
  next
    case (Some msg)
    show ?thesis
    proof (cases "x \<in> owed (others s1)")
      case False
      with assms(4) claimed show ?thesis by blast
    next
      case True
      have ok: "ok (others s1)" using assms(2) claimed by blast
      show ?thesis
      proof (cases "settle (ow_context w) (worker_delivery w msg (publish msg)) (others s1)")
        case (Inl e)
        with assms(3,5) Inr answer Some True show ?thesis by (simp add: poll_once_def)
      next
        case settled: (Inr reply)
        obtain u s2 where reply: "reply = (u, s2)" by (cases reply)
        have "s' = s2" using assms(3) Inr answer Some settled reply by (simp add: poll_once_def Let_def)
        with settle_owed [OF ok settled [unfolded reply]] True assms(5)
        have "rod_outcome (worker_delivery w msg (publish msg)) = DeliveryPublished" "om_outbox_id msg = x"
          by (auto simp: worker_delivery_def split: if_splits)
        then have "publish msg = Inr ()" "om_outbox_id msg = x"
          by (auto simp: worker_delivery_def split: sum.splits)
        then show ?thesis
          using assms(3) Inr answer Some settled reply by (auto simp: poll_once_def Let_def)
      qed
    qed
  qed
qed

text \<open>A poll that says a message is published had it accepted, and no longer owes it.\<close>

lemma poll_published:
  assumes "ok s" and "\<And>t. ok t \<Longrightarrow> ok (others t)"
    and "poll_once claim settle publish others w s = (Inr (PollPublished m), s')"
  shows "publish m = Inr () \<and> om_outbox_id m \<in> owed s \<and> om_outbox_id m \<notin> owed s'"
proof -
  from assms(3) obtain s1 u where claimed: "claim (ow_context w) (worker_claim w) s = Inr (Some m, s1)"
    and accepted: "publish m = Inr ()"
    and settled: "settle (ow_context w) (worker_delivery w m (Inr ())) (others s1) = Inr (u, s')"
    by (auto simp: poll_once_def Let_def split: sum.splits option.splits prod.splits)
  have "ok (others s1)" using assms(2) claim_ok [OF assms(1) claimed] by blast
  from settle_owed [OF this settled] show ?thesis
    using accepted claim_owed [OF assms(1) claimed] by (simp add: worker_delivery_def)
qed

end

text \<open>The store of the model provides the interface.\<close>

interpretation pg_outbox: outbox_store "claim_outbox ext locked now" "record_outbox_delivery now'"
  outbox_ids_ok owed_messages for ext locked now now'
proof unfold_locales
  fix s ctx ccmd answer s'
  assume ok: "outbox_ids_ok s" and claim: "claim_outbox ext locked now ctx ccmd s = Inr (answer, s')"
  from claim ok show "outbox_ids_ok s' \<and> owed_messages s' = owed_messages s"
  proof (cases rule: claim_outbox_effect)
    case (claimed m expires)
    note cand = outbox_candidate_Some [OF claimed(1)]
    have "o_status m \<noteq> OutPublished" using cand(2) by (auto simp: due_message_def)
    from owed_update [OF ok cand(1) this, of "claimed_message ccmd (o_attempt m + 1) expires m"]
    show ?thesis using ok by (simp add: claimed(6)) (rule outbox_ids_update, simp_all)
  qed (use ok in simp)
next
  fix s ctx ccmd m s'
  assume ok: "outbox_ids_ok s" and claim: "claim_outbox ext locked now ctx ccmd s = Inr (Some m, s')"
  from claim ok show "om_outbox_id m \<in> owed_messages s"
  proof (cases rule: claim_outbox_effect)
    case (claimed row expires)
    then show ?thesis
      using outbox_candidate_Some(1,2) [OF claimed(1)]
      by (auto simp: message_of_def owed_messages_def due_message_def)
  qed simp
next
  fix s ctx rcmd u s'
  assume ok: "outbox_ids_ok s" and settle: "record_outbox_delivery now' ctx rcmd s = Inr (u, s')"
  from settle ok show "outbox_ids_ok s' \<and> rod_outbox_id rcmd \<in> owed_messages s"
    by (rule record_delivery_effect)
      (use ok in \<open>auto simp: leased_message_def owed_messages_def image_iff intro!: outbox_ids_update\<close>)
  from settle ok show "owed_messages s'
      = (if rod_outcome rcmd = DeliveryPublished then owed_messages s - {rod_outbox_id rcmd} else owed_messages s)"
  proof (rule record_delivery_effect)
    fix m
    assume m: "m \<in> set (db_outbox s)" "leased_message (qc_tenant_id ctx) now' rcmd m"
      and s': "s' = s\<lparr>db_outbox := map (\<lambda>r. if r = m then settled_message (rod_outcome rcmd) now' m else r)
           (db_outbox s)\<rparr>"
    from m(2) have "o_status m \<noteq> OutPublished" "o_id m = rod_outbox_id rcmd"
      by (auto simp: leased_message_def)
    with owed_update [OF ok m(1), of "settled_message (rod_outcome rcmd) now' m"] show ?thesis
      by (auto simp: s' split: outbox_delivery_outcome.splits)
  qed
qed

section \<open>What a claim and a record do\<close>

text \<open>
  C30: a claim leases the earliest message that is due and not locked by another transaction, for
  the duration it asks, with a new attempt number; the message is not due again before the lease
  expires, whoever asks, and no other message, run or event changes.
\<close>

theorem claim_outbox_leases_due_message:
  assumes "outbox_ids_ok db" and "claim_outbox ext locked now ctx cmd db = Inr (Some msg, db')"
  shows "\<exists>m m'. m \<in> set (db_outbox db) \<and> m' \<in> set (db_outbox db') \<and> due_message (qc_tenant_id ctx) now m
     \<and> \<not> locked (o_id m)
     \<and> (\<forall>u \<in> set (db_outbox db). due_message (qc_tenant_id ctx) now u \<longrightarrow> \<not> locked (o_id u)
           \<longrightarrow> (o_available_at m, o_id m) \<le> (o_available_at u, o_id u))
     \<and> outbox_key m' = outbox_key m \<and> o_status m' = OutPublishing \<and> o_attempt m' = o_attempt m + 1
     \<and> o_lease_owner m' = Some (coc_publisher_id cmd) \<and> o_lease_token m' = Some (coc_lease_token cmd)
     \<and> om_outbox_id msg = o_id m \<and> om_event_id msg = o_event m \<and> om_lease_expires_at msg = now + int (coc_lease_duration cmd)
     \<and> (\<forall>tenant later. later < om_lease_expires_at msg \<longrightarrow> \<not> due_message tenant later m')
     \<and> (\<forall>u \<in> set (db_outbox db). u \<noteq> m \<longrightarrow> u \<in> set (db_outbox db')) \<and> still db db'"
  using assms(2,1)
proof (cases rule: claim_outbox_effect)
  case (claimed m expires)
  let ?m' = "claimed_message cmd (o_attempt m + 1) expires m"
  note cand = outbox_candidate_Some [OF claimed(1)]
  have "map (outbox_key \<circ> (\<lambda>u. if u = m then ?m' else u)) (db_outbox db) = map outbox_key (db_outbox db)"
    by simp
  then have "still db db'" by (simp add: still_def claimed(6))
  moreover have "?m' \<in> set (db_outbox db')" using cand(1) by (auto simp: claimed(6) image_iff)
  moreover have "\<forall>u \<in> set (db_outbox db). u \<noteq> m \<longrightarrow> u \<in> set (db_outbox db')"
    by (auto simp: claimed(6) image_iff)
  moreover have "\<not> due_message tenant later ?m'" if "later < om_lease_expires_at msg" for tenant later
    using that claimed(5) by (simp add: due_message_def message_of_def)
  ultimately show ?thesis
    using cand claimed(2,5) by (intro exI [of _ m] exI [of _ ?m']) (simp add: message_of_def)
qed simp

text \<open>
  C29: a delivery is recorded only by the publisher whose lease of that attempt is still live; the
  message becomes published for good, or due again at the time the retry names, and no other
  message, run or event changes.
\<close>

theorem record_outbox_delivery_needs_live_lease:
  assumes "outbox_ids_ok db" and "record_outbox_delivery now ctx cmd db = Inr (u, db')"
  shows "\<exists>m m'. m \<in> set (db_outbox db) \<and> m' \<in> set (db_outbox db') \<and> outbox_key m' = outbox_key m
     \<and> o_id m = rod_outbox_id cmd \<and> o_status m = OutPublishing
     \<and> o_attempt m = int (rod_expected_attempt cmd)
     \<and> o_lease_owner m = Some (rod_publisher_id cmd) \<and> o_lease_token m = Some (rod_lease_token cmd)
     \<and> (\<exists>expires. o_lease_expires_at m = Some expires \<and> now < expires)
     \<and> (case rod_outcome cmd of
          DeliveryPublished \<Rightarrow> o_status m' = OutPublished \<and> (\<forall>tenant later. \<not> due_message tenant later m')
        | DeliveryRetry available_at code \<Rightarrow> o_status m' = OutPending \<and> o_last_error m' = Some code
            \<and> (\<forall>later. due_message (qc_tenant_id ctx) later m' \<longleftrightarrow> available_at \<le> later))
     \<and> (\<forall>r \<in> set (db_outbox db). r \<noteq> m \<longrightarrow> r \<in> set (db_outbox db')) \<and> still db db'"
  using assms(2,1)
proof (rule record_delivery_effect)
  fix m
  let ?m' = "settled_message (rod_outcome cmd) now m"
  assume m: "m \<in> set (db_outbox db)" "leased_message (qc_tenant_id ctx) now cmd m"
    and db': "db' = db\<lparr>db_outbox := map (\<lambda>r. if r = m then ?m' else r) (db_outbox db)\<rparr>"
  have "map (outbox_key \<circ> (\<lambda>r. if r = m then ?m' else r)) (db_outbox db) = map outbox_key (db_outbox db)"
    by simp
  then have "still db db'" by (simp add: still_def db')
  moreover have "?m' \<in> set (db_outbox db')" using m(1) by (auto simp: db' image_iff)
  moreover have "\<forall>r \<in> set (db_outbox db). r \<noteq> m \<longrightarrow> r \<in> set (db_outbox db')"
    by (auto simp: db' image_iff)
  moreover have "case rod_outcome cmd of
          DeliveryPublished \<Rightarrow> o_status ?m' = OutPublished \<and> (\<forall>tenant later. \<not> due_message tenant later ?m')
        | DeliveryRetry available_at code \<Rightarrow> o_status ?m' = OutPending \<and> o_last_error ?m' = Some code
            \<and> (\<forall>later. due_message (qc_tenant_id ctx) later ?m' \<longleftrightarrow> available_at \<le> later)"
    using m(2)
    by (auto simp: settled_message_def due_message_def leased_message_def split: outbox_delivery_outcome.split)
  ultimately show ?thesis
    using m by (intro exI [of _ m] exI [of _ ?m'] conjI)
      (auto simp: leased_message_def split: option.splits)
qed

text \<open>
  C31: delivery is at least once: whatever other transactions do between the claim and the record,
  a message that the store owes before a poll and no longer owes after it was accepted by the
  publisher in that poll, or was settled by one of the others; and a poll that reports a message
  as published had it accepted and settled.
\<close>

theorem poll_once_at_least_once:
  assumes "outbox_ids_ok db" and "\<And>d. outbox_ids_ok d \<Longrightarrow> outbox_ids_ok (others d)"
    and "poll_once (claim_outbox ext locked now) (record_outbox_delivery now') publish others w db = (r, db')"
  shows "(\<forall>x \<in> owed_messages db - owed_messages db'.
        (\<exists>m. r = Inr (PollPublished m) \<and> om_outbox_id m = x \<and> publish m = Inr ())
        \<or> (\<exists>d. x \<in> owed_messages d \<and> x \<notin> owed_messages (others d)))
     \<and> (\<forall>m. r = Inr (PollPublished m) \<longrightarrow> publish m = Inr () \<and> om_outbox_id m \<in> owed_messages db
        \<and> om_outbox_id m \<notin> owed_messages db')"
proof (intro conjI ballI allI impI)
  fix x assume "x \<in> owed_messages db - owed_messages db'"
  then show "(\<exists>m. r = Inr (PollPublished m) \<and> om_outbox_id m = x \<and> publish m = Inr ())
        \<or> (\<exists>d. x \<in> owed_messages d \<and> x \<notin> owed_messages (others d))"
    using pg_outbox.poll_owed [OF assms] by blast
next
  fix m assume "r = Inr (PollPublished m)"
  with assms(3) have "poll_once (claim_outbox ext locked now) (record_outbox_delivery now') publish others w db
      = (Inr (PollPublished m), db')" by simp
  from pg_outbox.poll_published [OF assms(1) assms(2) this]
  show "publish m = Inr ()" "om_outbox_id m \<in> owed_messages db" "om_outbox_id m \<notin> owed_messages db'"
    by simp_all
qed

section \<open>A concrete message\<close>

definition sample_worker :: outbox_worker where
  "sample_worker = \<lparr> ow_context = \<lparr> qc_tenant_id = 7, qc_actor_ref = ''p'', qc_authoritative = True \<rparr>,
     ow_publisher_id = 30, ow_lease_token = 31, ow_lease_duration = 50 \<rparr>"

definition sample_publishing_db :: db where
  "sample_publishing_db = sample_db\<lparr>db_outbox := [sample_outbox\<lparr>o_status := OutPublishing,
     o_attempt := 1, o_lease_owner := Some 30, o_lease_token := Some 31,
     o_lease_expires_at := Some 150\<rparr>]\<rparr>"

lemmas outbox_eval = claim_outbox_def claim_outbox_shape_is_valid_def outbox_candidate_def due_message_def
  claimed_message_def message_of_def record_outbox_delivery_def delivery_shape_is_valid_def
  leased_message_def settled_message_def worker_claim_def worker_delivery_def poll_once_def

lemma sample_outbox_ids: "outbox_ids_ok sample_db" "outbox_ids_ok sample_publishing_db"
  by (simp_all add: outbox_ids_ok_def sample_publishing_db_def sample_defs)

lemma claim_outbox_leases_due_message_witness:
  "\<exists>msg db'. claim_outbox sample_ext (\<lambda>_. False) 100 (ow_context sample_worker) (worker_claim sample_worker)
       sample_db = Inr (Some msg, db')
     \<and> om_outbox_id msg = 40 \<and> om_lease_expires_at msg = 150 \<and> still sample_db db'"
proof -
  have "\<exists>msg db'. claim_outbox sample_ext (\<lambda>_. False) 100 (ow_context sample_worker)
      (worker_claim sample_worker) sample_db = Inr (Some msg, db')"
    by (simp add: sample_worker_def sample_defs outbox_eval txn_eval)
  then obtain msg db' where run: "claim_outbox sample_ext (\<lambda>_. False) 100 (ow_context sample_worker)
      (worker_claim sample_worker) sample_db = Inr (Some msg, db')" by blast
  from claim_outbox_leases_due_message [OF sample_outbox_ids(1) run] obtain m where
      "m \<in> set (db_outbox sample_db)" "om_outbox_id msg = o_id m"
      "om_lease_expires_at msg = 100 + int (coc_lease_duration (worker_claim sample_worker))"
      "still sample_db db'"
    by (elim exE conjE) (rule that)
  then show ?thesis
    using run by (intro exI [of _ msg] exI [of _ db'])
      (simp add: sample_defs sample_worker_def worker_claim_def)
qed

lemma record_outbox_delivery_needs_live_lease_witness:
  "\<exists>db'. record_outbox_delivery 110 (ow_context sample_worker)
       \<lparr> rod_outbox_id = 40, rod_expected_attempt = 1, rod_publisher_id = 30, rod_lease_token = 31,
         rod_outcome = DeliveryPublished \<rparr> sample_publishing_db = Inr ((), db')
     \<and> still sample_publishing_db db' \<and> (\<exists>m \<in> set (db_outbox db'). o_status m = OutPublished)"
proof -
  let ?cmd = "\<lparr> rod_outbox_id = 40, rod_expected_attempt = 1, rod_publisher_id = 30, rod_lease_token = 31,
         rod_outcome = DeliveryPublished \<rparr>"
  have "\<exists>db'. record_outbox_delivery 110 (ow_context sample_worker) ?cmd sample_publishing_db = Inr ((), db')"
    by (simp add: sample_publishing_db_def sample_worker_def sample_defs outbox_eval txn_eval)
  then obtain db' where run: "record_outbox_delivery 110 (ow_context sample_worker) ?cmd
      sample_publishing_db = Inr ((), db')" by blast
  from record_outbox_delivery_needs_live_lease [OF sample_outbox_ids(2) run] show ?thesis
    using run by auto
qed

lemma poll_once_at_least_once_witness:
  "\<exists>m db'. poll_once (claim_outbox sample_ext (\<lambda>_. False) 100) (record_outbox_delivery 110)
       (\<lambda>_. Inr ()) (\<lambda>d. d) sample_worker sample_db = (Inr (PollPublished m), db')
     \<and> om_outbox_id m \<in> owed_messages sample_db \<and> om_outbox_id m \<notin> owed_messages db'"
proof -
  have "\<exists>m db'. poll_once (claim_outbox sample_ext (\<lambda>_. False) 100) (record_outbox_delivery 110)
       (\<lambda>_. Inr ()) (\<lambda>d. d) sample_worker sample_db = (Inr (PollPublished m), db')"
    by (simp add: sample_worker_def sample_defs outbox_eval txn_eval)
  then obtain m db' where run: "poll_once (claim_outbox sample_ext (\<lambda>_. False) 100)
      (record_outbox_delivery 110) (\<lambda>_. Inr ()) (\<lambda>d. d) sample_worker sample_db
      = (Inr (PollPublished m), db')" by blast
  from poll_once_at_least_once [OF sample_outbox_ids(1) _ run] show ?thesis using run by blast
qed

section \<open>The outbox operations are store commands\<close>

lemma map_key_update:
  "(\<And>m. outbox_key (f m) = outbox_key m) \<Longrightarrow> map outbox_key (sql_update P f ms) = map outbox_key ms"
  by (induction ms) auto

lemma claim_outbox_still:
  assumes "claim_outbox ext locked now ctx cmd db = Inr (answer, db')"
  shows "still db db' \<and> db_tasks db' = db_tasks db"
  using assms
  by (auto simp: claim_outbox_def Let_def txn_iffs still_def map_key_update split: option.splits)

lemma record_delivery_still:
  assumes "record_outbox_delivery now ctx cmd db = Inr (u, db')"
  shows "still db db' \<and> db_tasks db' = db_tasks db"
  using assms by (auto simp: record_outbox_delivery_def txn_iffs still_def map_key_update)

interpretation claim_outbox_cmd: store_command
  "\<lambda>(ext, locked, ctx, cmd, now). claim_outbox ext locked now ctx cmd"
  by unfold_locales (auto dest!: claim_outbox_still intro: evolves_still simp: store_ok_def task_keys_ok_def)

interpretation record_delivery_cmd: store_command
  "\<lambda>(ctx, cmd, now). record_outbox_delivery now ctx cmd"
  by unfold_locales (auto dest!: record_delivery_still intro: evolves_still simp: store_ok_def task_keys_ok_def)

end
