(* ===== verification/Dependencies.thy ===== *)
theory Dependencies
  imports StoreSteps
begin

text \<open>
  Task dependencies: the condition language, and the worklist that settles the tasks waiting on
  a task that just became terminal (\<open>dependency_condition_satisfied\<close>,
  \<open>dependency_condition_shape_is_valid\<close> and \<open>resolve_dependent_tasks\<close> of
  \<open>transaction_executor.rs\<close>). Proved: a condition of valid shape always has a value; the
  worklist ends; it queues a task only when its join policy is satisfied; and when it ends no
  scheduled task is left waiting on prerequisites that already decide it.
\<close>

section \<open>Conditions\<close>

definition starts_with_slash :: "string \<Rightarrow> bool" where
  "starts_with_slash p \<longleftrightarrow> p \<noteq> [] \<and> hd p = CHR ''/''"

definition get_str :: "(string \<times> json) list \<Rightarrow> string \<Rightarrow> string option" where
  "get_str ms k = Option.bind (json_get ms k) as_str"

definition get_object :: "(string \<times> json) list \<Rightarrow> string \<Rightarrow> (string \<times> json) list option" where
  "get_object ms k = Option.bind (json_get ms k) as_object"

definition dependency_condition_shape_is_valid :: "json \<Rightarrow> bool" where
  "dependency_condition_shape_is_valid condition = (case as_object condition of
      None \<Rightarrow> False
    | Some ob \<Rightarrow>
        if ob = [] then True
        else if length ob = 1 \<and> json_get ob ''status'' \<noteq> None then
          (case get_str ob ''status'' of
             None \<Rightarrow> False
           | Some status \<Rightarrow> status \<in> {''succeeded'', ''failed'', ''dead_lettered'', ''skipped'',
                                       ''cancelled''})
        else length ob = 1
          \<and> (case get_object ob ''result_equals'' of
               None \<Rightarrow> False
             | Some equals \<Rightarrow> length equals = 2
                 \<and> (case get_str equals ''pointer'' of
                      None \<Rightarrow> False | Some pointer \<Rightarrow> starts_with_slash pointer)
                 \<and> json_get equals ''value'' \<noteq> None))"

definition dependency_condition_satisfied ::
  "externals \<Rightarrow> task_status \<Rightarrow> json option \<Rightarrow> json \<Rightarrow> bool store_result" where
  "dependency_condition_satisfied ext status result condition =
    (if \<not> dependency_condition_shape_is_valid condition
     then Inl (inconsistent ''Task dependency Condition is invalid'')
     else
      bindR (ok_or (as_object condition)
              (inconsistent ''Task dependency Condition is not an object'')) (\<lambda>ob.
      if ob = [] then Inr (status = TaskSucceeded)
      else case get_str ob ''status'' of
          Some expected_status \<Rightarrow> Inr (task_status_text status = expected_status)
        | None \<Rightarrow> (case get_object ob ''result_equals'' of
              Some equals \<Rightarrow>
                bindR (ok_or (get_str equals ''pointer'')
                        (inconsistent ''result_equals Condition has no JSON pointer'')) (\<lambda>pointer.
                bindR (ok_or (json_get equals ''value'')
                        (inconsistent ''result_equals Condition has no expected value'')) (\<lambda>expected.
                Inr (status = TaskSucceeded
                     \<and> Option.bind result (\<lambda>value. ext_pointer ext value pointer)
                         = Some expected)))
            | None \<Rightarrow> Inl (inconsistent ''Task dependency Condition kind is unsupported''))))"

lemma condition_defined:
  "dependency_condition_shape_is_valid c \<Longrightarrow> \<exists>b. dependency_condition_satisfied ext st res c = Inr b"
  by (auto simp: dependency_condition_shape_is_valid_def dependency_condition_satisfied_def
      split: option.splits if_splits)

text \<open>A satisfied condition is about a terminal prerequisite.\<close>

lemma satisfied_terminal:
  "dependency_condition_satisfied ext st res c = Inr True \<Longrightarrow> task_terminal st"
  by (cases st)
     (auto simp: dependency_condition_satisfied_def dependency_condition_shape_is_valid_def
        task_terminal_def task_status_text_def result_iffs get_str_def split: option.splits if_splits)

section \<open>The worklist\<close>

definition dependency_on :: "uuid \<Rightarrow> uuid \<Rightarrow> uuid \<Rightarrow> uuid \<Rightarrow> dependency_row \<Rightarrow> bool" where
  "dependency_on tenant run task prerequisite d \<longleftrightarrow>
     d_tenant d = tenant \<and> d_run d = run \<and> d_task d = task \<and> d_prerequisite d = prerequisite"

text \<open>The scheduled tasks waiting on \<open>done\<close>, with their join policy, by task id.\<close>

definition waiting_on :: "uuid \<Rightarrow> uuid \<Rightarrow> uuid \<Rightarrow> db \<Rightarrow> (uuid \<times> join_policy) list" where
  "waiting_on tenant run completed db =
     map (\<lambda>t. (t_id t, t_join_policy t))
       (sort_key t_id
         (filter (\<lambda>t. t_tenant t = tenant \<and> t_run t = run \<and> t_status t = TaskScheduled
                    \<and> list_ex (dependency_on tenant run (t_id t) completed) (db_deps db))
            (db_tasks db)))"

text \<open>The state of the prerequisites of a task, with the condition on each, by prerequisite.\<close>

definition prerequisite_pairs ::
  "uuid \<Rightarrow> uuid \<Rightarrow> uuid \<Rightarrow> dependency_row list \<Rightarrow> task_row list \<Rightarrow> (dependency_row \<times> task_row) list" where
  "prerequisite_pairs tenant run task deps tasks =
     [(d, p). d \<leftarrow> sort_key d_prerequisite
                  (filter (\<lambda>d. d_tenant d = tenant \<and> d_run d = run \<and> d_task d = task) deps),
              p \<leftarrow> filter (\<lambda>p. t_tenant p = tenant \<and> t_run p = run \<and> t_id p = d_prerequisite d)
                     tasks]"

definition prerequisites ::
  "uuid \<Rightarrow> uuid \<Rightarrow> uuid \<Rightarrow> db \<Rightarrow> (task_status \<times> json option \<times> json) list" where
  "prerequisites tenant run task db =
     map (\<lambda>(d, p). (t_status p, t_result p, d_condition d))
       (prerequisite_pairs tenant run task (db_deps db) (db_tasks db))"

fun traverseR :: "('a \<Rightarrow> 'e + 'b) \<Rightarrow> 'a list \<Rightarrow> 'e + 'b list" where
  "traverseR f [] = Inr []"
| "traverseR f (x # xs) = bindR (f x) (\<lambda>y. bindR (traverseR f xs) (\<lambda>ys. Inr (y # ys)))"

definition join_ready :: "join_policy \<Rightarrow> bool list \<Rightarrow> bool" where
  "join_ready policy satisfied = (case policy of
      JoinAll \<Rightarrow> satisfied \<noteq> [] \<and> list_all id satisfied
    | JoinAny \<Rightarrow> list_ex id satisfied)"

definition satisfied_prerequisites ::
  "externals \<Rightarrow> (task_status \<times> json option \<times> json) list \<Rightarrow> bool list store_result" where
  "satisfied_prerequisites ext deps =
     traverseR (\<lambda>(status, result, condition).
       dependency_condition_satisfied ext status result condition) deps"

definition all_settled :: "(task_status \<times> json option \<times> json) list \<Rightarrow> bool" where
  "all_settled deps = list_all (\<lambda>(status, _). task_terminal status) deps"

definition scheduled_task :: "uuid \<Rightarrow> uuid \<Rightarrow> uuid \<Rightarrow> task_row \<Rightarrow> bool" where
  "scheduled_task tenant run task t \<longleftrightarrow>
     t_tenant t = tenant \<and> t_run t = run \<and> t_id t = task \<and> t_status t = TaskScheduled"

definition settle_task :: "bool \<Rightarrow> micros \<Rightarrow> task_row \<Rightarrow> task_row" where
  "settle_task ready now t = t\<lparr>t_status := (if ready then TaskQueued else TaskSkipped),
     t_available_at := (if ready then now else t_available_at t),
     t_completed_at := (if ready then None else Some now), t_updated_at := now\<rparr>"

text \<open>One row of the inner loop. \<open>stack\<close> has the top of \<open>terminal_tasks\<close> first.\<close>

definition resolve_row ::
  "externals \<Rightarrow> uuid \<Rightarrow> uuid \<Rightarrow> micros \<Rightarrow> uuid \<times> join_policy \<Rightarrow> uuid list \<times> uuid list \<times> db
   \<Rightarrow> store_error + (uuid list \<times> uuid list \<times> db)" where
  "resolve_row ext tenant run now = (\<lambda>(task, policy) (activated, stack, db).
     let deps = prerequisites tenant run task db in
     bindR (satisfied_prerequisites ext deps) (\<lambda>satisfied.
       let ready = join_ready policy satisfied in
       if \<not> ready \<and> \<not> all_settled deps then Inr (activated, stack, db)
       else
         let updated = sql_count (scheduled_task tenant run task) (db_tasks db);
             db' = db\<lparr>db_tasks := sql_update (scheduled_task tenant run task)
                                  (settle_task ready now) (db_tasks db)\<rparr>
         in if updated = 1 \<and> ready then Inr (activated @ [task], stack, db')
            else if updated = 1 then Inr (activated, task # stack, db')
            else Inr (activated, stack, db')))"

definition resolve_rows ::
  "externals \<Rightarrow> uuid \<Rightarrow> uuid \<Rightarrow> micros \<Rightarrow> (uuid \<times> join_policy) list
   \<Rightarrow> uuid list \<times> uuid list \<times> db \<Rightarrow> store_error + (uuid list \<times> uuid list \<times> db)" where
  "resolve_rows ext tenant run now rows = foldR (resolve_row ext tenant run now) rows"

definition scheduled_count :: "db \<Rightarrow> nat" where
  "scheduled_count db = length (filter (\<lambda>t. t_status t = TaskScheduled) (db_tasks db))"

lemma scheduled_count_update:
  "scheduled_count (db\<lparr>db_tasks := sql_update (scheduled_task tenant run task)
      (settle_task ready now) (db_tasks db)\<rparr>)
    = scheduled_count db - sql_count (scheduled_task tenant run task) (db_tasks db)"
  "sql_count (scheduled_task tenant run task) (db_tasks db) \<le> scheduled_count db"
proof -
  have "length (filter (\<lambda>t. t_status t = TaskScheduled)
          (sql_update (scheduled_task tenant run task) (settle_task ready now) ts))
        + sql_count (scheduled_task tenant run task) ts
        = length (filter (\<lambda>t. t_status t = TaskScheduled) ts)" for ts
    by (induction ts) (auto simp: sql_count_def settle_task_def scheduled_task_def)
  from this [of "db_tasks db"]
  show "scheduled_count (db\<lparr>db_tasks := sql_update (scheduled_task tenant run task)
      (settle_task ready now) (db_tasks db)\<rparr>)
    = scheduled_count db - sql_count (scheduled_task tenant run task) (db_tasks db)"
    and "sql_count (scheduled_task tenant run task) (db_tasks db) \<le> scheduled_count db"
    by (simp_all add: scheduled_count_def)
qed

lemma resolve_row_size:
  assumes "resolve_row ext tenant run now row (activated, stack, db) = Inr (activated', stack', db')"
  shows "scheduled_count db' + length stack' \<le> scheduled_count db + length stack"
  using assms scheduled_count_update(2) [of tenant run "fst row" db]
  by (cases row)
     (auto simp: resolve_row_def Let_def result_iffs scheduled_count_update(1) split: if_splits)

lemma resolve_rows_size:
  assumes "resolve_rows ext tenant run now rows (activated, stack, db)
           = Inr (activated', stack', db')"
  shows "scheduled_count db' + length stack' \<le> scheduled_count db + length stack"
proof -
  let ?I = "\<lambda>(a :: uuid list, st :: uuid list, d).
      scheduled_count d + length st \<le> scheduled_count db + length stack"
  have "?I (activated', stack', db')"
  proof (rule foldR_invariant [OF assms [unfolded resolve_rows_def], where I = ?I])
    show "?I (activated, stack, db)" by simp
  next
    fix row s s'
    assume "resolve_row ext tenant run now row s = Inr s'" and "?I s"
    then show "?I s'"
      by (cases s; cases s') (auto dest!: resolve_row_size)
  qed
  then show ?thesis by simp
qed

text \<open>Each round pops one task; a task it pushes has just stopped being scheduled.\<close>

function resolve_loop ::
  "externals \<Rightarrow> uuid \<Rightarrow> uuid \<Rightarrow> micros \<Rightarrow> uuid list \<Rightarrow> uuid list \<Rightarrow> db
   \<Rightarrow> store_error + (uuid list \<times> db)" where
  "resolve_loop ext tenant run now [] activated db = Inr (activated, db)"
| "resolve_loop ext tenant run now (completed # stack) activated db =
     (case resolve_rows ext tenant run now (waiting_on tenant run completed db)
             (activated, stack, db) of
        Inl e \<Rightarrow> Inl e
      | Inr (activated', stack', db') \<Rightarrow> resolve_loop ext tenant run now stack' activated' db')"
  by pat_completeness auto
termination
  by (relation "measure (\<lambda>(ext, tenant, run, now, stack, activated, db).
        scheduled_count db + length stack)")
     (auto dest: resolve_rows_size)

definition resolve_dependent_tasks ::
  "externals \<Rightarrow> uuid \<Rightarrow> uuid \<Rightarrow> uuid \<Rightarrow> micros \<Rightarrow> uuid list txn" where
  "resolve_dependent_tasks ext tenant run terminal_task now db =
     resolve_loop ext tenant run now [terminal_task] [] db"

section \<open>What one settled task changes\<close>

text \<open>
  \<open>settles tenant run task ready now db db'\<close>: the scheduled task is queued or skipped and
  nothing else changes.
\<close>

definition settles :: "uuid \<Rightarrow> uuid \<Rightarrow> uuid \<Rightarrow> bool \<Rightarrow> micros \<Rightarrow> db \<Rightarrow> db \<Rightarrow> bool" where
  "settles tenant run task ready now db db' \<longleftrightarrow>
     (\<exists>t \<in> set (db_tasks db). scheduled_task tenant run task t)
     \<and> db' = db\<lparr>db_tasks := sql_update (scheduled_task tenant run task) (settle_task ready now)
                              (db_tasks db)\<rparr>"

text \<open>What a join policy asks of the verdicts on the prerequisites.\<close>

definition policy_holds :: "join_policy \<Rightarrow> bool list \<Rightarrow> bool" where
  "policy_holds policy verdicts \<longleftrightarrow> (case policy of
      JoinAll \<Rightarrow> verdicts \<noteq> [] \<and> False \<notin> set verdicts
    | JoinAny \<Rightarrow> True \<in> set verdicts)"

lemma join_ready_policy: "join_ready policy verdicts \<longleftrightarrow> policy_holds policy verdicts"
proof -
  have "list_all id verdicts \<longleftrightarrow> False \<notin> set verdicts" "list_ex id verdicts \<longleftrightarrow> True \<in> set verdicts"
    by (induction verdicts) auto
  then show ?thesis by (simp add: join_ready_def policy_holds_def split: join_policy.splits)
qed

definition readiness :: "externals \<Rightarrow> db \<Rightarrow> task_row \<Rightarrow> bool" where
  "readiness ext db t \<longleftrightarrow> (\<exists>sat.
     satisfied_prerequisites ext (prerequisites (t_tenant t) (t_run t) (t_id t) db) = Inr sat
     \<and> policy_holds (t_join_policy t) sat)"

text \<open>A task is refused when all its prerequisites are terminal and its join policy is not satisfied.\<close>

definition refused :: "externals \<Rightarrow> db \<Rightarrow> task_row \<Rightarrow> bool" where
  "refused ext db t \<longleftrightarrow> (\<exists>sat.
     satisfied_prerequisites ext (prerequisites (t_tenant t) (t_run t) (t_id t) db) = Inr sat
     \<and> \<not> policy_holds (t_join_policy t) sat
     \<and> all_settled (prerequisites (t_tenant t) (t_run t) (t_id t) db))"

text \<open>A scheduled task is undecided when it is neither ready nor settled.\<close>

definition undecided :: "externals \<Rightarrow> db \<Rightarrow> task_row \<Rightarrow> bool" where
  "undecided ext db t \<longleftrightarrow> (\<exists>sat.
     satisfied_prerequisites ext (prerequisites (t_tenant t) (t_run t) (t_id t) db) = Inr sat
     \<and> \<not> policy_holds (t_join_policy t) sat
     \<and> \<not> all_settled (prerequisites (t_tenant t) (t_run t) (t_id t) db))"

definition waits_on :: "db \<Rightarrow> task_row \<Rightarrow> uuid \<Rightarrow> bool" where
  "waits_on db t c \<longleftrightarrow> list_ex (dependency_on (t_tenant t) (t_run t) (t_id t) c) (db_deps db)"

lemmas verdict_defs = readiness_def undecided_def refused_def join_ready_policy [symmetric]

lemma settle_task_keys [simp]:
  "t_tenant (settle_task b now t) = t_tenant t" "t_run (settle_task b now t) = t_run t"
  "t_id (settle_task b now t) = t_id t" "t_result (settle_task b now t) = t_result t"
  "t_join_policy (settle_task b now t) = t_join_policy t"
  "t_status (settle_task b now t) = (if b then TaskQueued else TaskSkipped)"
  by (simp_all add: settle_task_def)

lemma prerequisite_pairs_update:
  assumes "\<And>p. P p \<Longrightarrow> t_tenant (f p) = t_tenant p \<and> t_run (f p) = t_run p \<and> t_id (f p) = t_id p"
  shows "prerequisite_pairs tenant run task deps (sql_update P f tasks) =
    map (\<lambda>(d, p). (d, if P p then f p else p)) (prerequisite_pairs tenant run task deps tasks)"
proof -
  have "filter (\<lambda>p. t_tenant p = tenant \<and> t_run p = run \<and> t_id p = i) (sql_update P f tasks)
        = sql_update P f (filter (\<lambda>p. t_tenant p = tenant \<and> t_run p = run \<and> t_id p = i) tasks)"
    for i by (rule filter_sql_update) (use assms in simp)
  then show ?thesis
    by (simp add: prerequisite_pairs_def map_concat sql_update_def comp_def)
qed

lemma in_prerequisite_pairs:
  "(d, p) \<in> set (prerequisite_pairs tenant run task deps tasks) \<Longrightarrow>
     d \<in> set deps \<and> p \<in> set tasks \<and> t_tenant p = tenant \<and> t_run p = run
     \<and> dependency_on tenant run task (t_id p) d"
  by (auto simp: prerequisite_pairs_def dependency_on_def)

lemma traverseR_iff: "traverseR f xs = Inr ys \<longleftrightarrow> list_all2 (\<lambda>x y. f x = Inr y) xs ys"
proof (induction xs arbitrary: ys)
  case (Cons x xs)
  then show ?case by (cases ys) (auto simp: result_iffs)
qed (auto simp: list_all2_Nil)

lemma traverseR_defined: "traverseR f xs = Inr ys \<Longrightarrow> x \<in> set xs \<Longrightarrow> \<exists>y. f x = Inr y"
  by (auto simp: traverseR_iff list_all2_conv_all_nth in_set_conv_nth)

lemma traverseR_cong: "(\<And>x. x \<in> set xs \<Longrightarrow> f x = g x) \<Longrightarrow> traverseR f xs = traverseR g xs"
  by (induction xs) auto

lemma traverseR_map: "traverseR f (map h xs) = traverseR (\<lambda>x. f (h x)) xs"
  by (induction xs) auto

lemma traverseR_mono:
  assumes "traverseR f xs = Inr ys"
    and "\<And>x b. x \<in> set xs \<Longrightarrow> f x = Inr b \<Longrightarrow> \<exists>c. g x = Inr c \<and> (b \<longrightarrow> c)"
  shows "\<exists>zs. traverseR g xs = Inr zs \<and> list_all2 (\<longrightarrow>) ys zs"
  using assms
proof (induction xs arbitrary: ys)
  case (Cons x xs)
  from Cons.prems(1) obtain b bs where b: "f x = Inr b" and bs: "traverseR f xs = Inr bs"
    and ys: "ys = b # bs" by (auto simp: result_iffs)
  obtain c where c: "g x = Inr c" "b \<longrightarrow> c" using Cons.prems(2) [OF _ b] by auto
  obtain cs where cs: "traverseR g xs = Inr cs" "list_all2 (\<longrightarrow>) bs cs"
    using Cons.IH [OF bs] Cons.prems(2) by auto
  then show ?case using c ys by auto
qed simp

lemma join_ready_mono:
  assumes "list_all2 (\<longrightarrow>) sat sat'" and "join_ready policy sat"
  shows "join_ready policy sat'"
proof -
  have "list_all id sat \<Longrightarrow> list_all id sat'" and "list_ex id sat \<Longrightarrow> list_ex id sat'"
    using assms(1) by (induction rule: list_all2_induct) auto
  moreover have "sat \<noteq> [] \<Longrightarrow> sat' \<noteq> []" using assms(1) by auto
  ultimately show ?thesis using assms(2) by (auto simp: join_ready_def split: join_policy.splits)
qed

text \<open>A condition on a prerequisite that is not terminal is false, whatever the status.\<close>

lemma condition_nonterminal:
  assumes "\<not> task_terminal st" and "dependency_condition_satisfied ext st res c = Inr b"
  shows "\<not> b \<and> (\<not> task_terminal st' \<longrightarrow> dependency_condition_satisfied ext st' res c = Inr b)
         \<and> (\<exists>b'. dependency_condition_satisfied ext st' res c = Inr b')"
proof -
  have b: "\<not> b" using assms satisfied_terminal by (cases b) auto
  have "dependency_condition_shape_is_valid c"
    using assms(2) by (auto simp: dependency_condition_satisfied_def split: if_splits)
  then obtain b' where b': "dependency_condition_satisfied ext st' res c = Inr b'"
    using condition_defined by blast
  then show ?thesis using b satisfied_terminal [of ext st' res c] by (cases b') auto
qed

lemma scheduled_nonterminal: "scheduled_task tenant run task p \<Longrightarrow> \<not> task_terminal (t_status p)"
  by (simp add: scheduled_task_def task_terminal_def)

lemma prerequisites_settled:
  assumes "settles tenant run task ready now db db'"
  shows "prerequisites tenant run i db' =
    map (\<lambda>(d, p). (if scheduled_task tenant run task p then (if ready then TaskQueued else TaskSkipped)
                    else t_status p, t_result p, d_condition d))
      (prerequisite_pairs tenant run i (db_deps db) (db_tasks db))"
  using assms
  by (auto simp: settles_def prerequisites_def prerequisite_pairs_update)

text \<open>The verdict of a condition before and after one task is settled.\<close>

definition verdict :: "externals \<Rightarrow> dependency_row \<times> task_row \<Rightarrow> bool store_result" where
  "verdict ext = (\<lambda>(d, p). dependency_condition_satisfied ext (t_status p) (t_result p) (d_condition d))"

definition verdict_after ::
  "externals \<Rightarrow> uuid \<Rightarrow> uuid \<Rightarrow> uuid \<Rightarrow> bool \<Rightarrow> dependency_row \<times> task_row \<Rightarrow> bool store_result" where
  "verdict_after ext tenant run task ready = (\<lambda>(d, p). dependency_condition_satisfied ext
     (if scheduled_task tenant run task p then (if ready then TaskQueued else TaskSkipped)
      else t_status p) (t_result p) (d_condition d))"

lemma satisfied_prerequisites_verdict:
  "satisfied_prerequisites ext (prerequisites tenant run i db)
   = traverseR (verdict ext) (prerequisite_pairs tenant run i (db_deps db) (db_tasks db))"
  unfolding satisfied_prerequisites_def prerequisites_def traverseR_map
  by (rule traverseR_cong) (auto simp: verdict_def)

lemma satisfied_prerequisites_after:
  assumes "settles tenant run task ready now db db'"
  shows "satisfied_prerequisites ext (prerequisites tenant run i db')
   = traverseR (verdict_after ext tenant run task ready)
       (prerequisite_pairs tenant run i (db_deps db) (db_tasks db))"
  unfolding satisfied_prerequisites_def prerequisites_settled [OF assms] traverseR_map
  by (rule traverseR_cong) (auto simp: verdict_after_def)

lemma verdict_after_other:
  "\<not> scheduled_task tenant run task p \<Longrightarrow>
     verdict_after ext tenant run task ready (d, p) = verdict ext (d, p)"
  by (simp add: verdict_def verdict_after_def)

lemma verdict_scheduled:
  assumes "scheduled_task tenant run task p" and "verdict ext (d, p) = Inr b"
  shows "\<not> b" and "\<exists>c. verdict_after ext tenant run task ready (d, p) = Inr c"
    and "ready \<Longrightarrow> verdict_after ext tenant run task ready (d, p) = Inr b"
  using condition_nonterminal [OF scheduled_nonterminal [OF assms(1)], of ext "t_result p"
      "d_condition d" b] assms
  by (auto simp: verdict_def verdict_after_def task_terminal_def)

lemma readiness_settles:
  assumes "settles (t_tenant t) (t_run t) task ready now db db'" and "readiness ext db t"
  shows "readiness ext db' t"
proof -
  let ?xs = "prerequisite_pairs (t_tenant t) (t_run t) (t_id t) (db_deps db) (db_tasks db)"
  from assms(2) obtain sat where sat: "traverseR (verdict ext) ?xs = Inr sat"
      and ready: "join_ready (t_join_policy t) sat"
    by (auto simp: verdict_defs satisfied_prerequisites_verdict)
  have mono: "\<exists>c. verdict_after ext (t_tenant t) (t_run t) task ready x = Inr c \<and> (b \<longrightarrow> c)"
    if "verdict ext x = Inr b" for x b
  proof (cases x)
    case (Pair d p)
    show ?thesis
    proof (cases "scheduled_task (t_tenant t) (t_run t) task p")
      case True
      then show ?thesis
        using verdict_scheduled(1,2) [OF True, where ext = ext and d = d and b = b] that Pair
        by auto
    next
      case False
      with that Pair show ?thesis by (simp add: verdict_after_other)
    qed
  qed
  obtain sat' where
      "traverseR (verdict_after ext (t_tenant t) (t_run t) task ready) ?xs = Inr sat'"
      and "list_all2 (\<longrightarrow>) sat sat'"
    using traverseR_mono [OF sat, of "verdict_after ext (t_tenant t) (t_run t) task ready"] mono
    by blast
  then show ?thesis
    using ready join_ready_mono by (auto simp: verdict_defs satisfied_prerequisites_after [OF assms(1)])
qed

text \<open>An undecided task stays so, unless the task just skipped is one of its prerequisites.\<close>

lemma undecided_settles:
  assumes "settles (t_tenant t) (t_run t) task ready now db db'" and "undecided ext db t"
    and "ready \<or> \<not> waits_on db t task"
  shows "undecided ext db' t"
proof -
  let ?xs = "prerequisite_pairs (t_tenant t) (t_run t) (t_id t) (db_deps db) (db_tasks db)"
  let ?sched = "scheduled_task (t_tenant t) (t_run t) task"
  from assms(2) obtain sat where sat: "traverseR (verdict ext) ?xs = Inr sat"
      and unready: "\<not> join_ready (t_join_policy t) sat"
      and open': "\<not> all_settled (prerequisites (t_tenant t) (t_run t) (t_id t) db)"
    by (auto simp: verdict_defs satisfied_prerequisites_verdict)
  have ready if "(d, p) \<in> set ?xs" and "?sched p" for d p
  proof -
    have "t_id p = task" using that(2) by (simp add: scheduled_task_def)
    then have "waits_on db t task"
      using in_prerequisite_pairs [OF that(1)] by (auto simp: waits_on_def list_ex_iff)
    then show ?thesis using assms(3) by blast
  qed
  note queued = this
  have "verdict_after ext (t_tenant t) (t_run t) task ready x = verdict ext x" if x: "x \<in> set ?xs" for x
  proof (cases x)
    case (Pair d p)
    obtain b where b: "verdict ext (d, p) = Inr b"
      using traverseR_defined [OF sat x] Pair by auto
    show ?thesis
    proof (cases "?sched p")
      case True
      then show ?thesis using verdict_scheduled(3) [OF True b] queued x Pair b by auto
    qed (simp add: Pair verdict_after_other)
  qed
  then have "satisfied_prerequisites ext (prerequisites (t_tenant t) (t_run t) (t_id t) db') = Inr sat"
    using sat traverseR_cong by (metis satisfied_prerequisites_after [OF assms(1)])
  moreover have "\<not> all_settled (prerequisites (t_tenant t) (t_run t) (t_id t) db')"
  proof -
    from open' obtain d p where dp: "(d, p) \<in> set ?xs" and "\<not> task_terminal (t_status p)"
      by (auto simp: all_settled_def prerequisites_def list_all_iff)
    then have "\<not> task_terminal (if ?sched p then (if ready then TaskQueued else TaskSkipped)
        else t_status p)"
      using queued by (auto simp: task_terminal_def)
    then show ?thesis
      using dp by (force simp: all_settled_def prerequisites_settled [OF assms(1)] list_all_iff)
  qed
  ultimately show ?thesis using unready by (auto simp: verdict_defs)
qed

text \<open>A refused task stays so: its prerequisites are terminal and no longer change.\<close>

lemma refused_settles:
  assumes "settles (t_tenant t) (t_run t) task ready now db db'" and "refused ext db t"
  shows "refused ext db' t"
proof -
  let ?xs = "prerequisite_pairs (t_tenant t) (t_run t) (t_id t) (db_deps db) (db_tasks db)"
  have "all_settled (prerequisites (t_tenant t) (t_run t) (t_id t) db)"
    using assms(2) by (auto simp: refused_def)
  then have "\<not> scheduled_task (t_tenant t) (t_run t) task p" if "(d, p) \<in> set ?xs" for d p
    using that scheduled_nonterminal by (fastforce simp: all_settled_def prerequisites_def list_all_iff)
  then have "prerequisites (t_tenant t) (t_run t) (t_id t) db'
      = prerequisites (t_tenant t) (t_run t) (t_id t) db"
    unfolding prerequisites_settled [OF assms(1)] by (auto simp: prerequisites_def)
  then show ?thesis using assms(2) by (simp add: refused_def)
qed

section \<open>The worklist, step by step\<close>

text \<open>One row of the loop: the task is undecided, or it is settled, or it was settled before.\<close>

lemma resolve_row_cases:
  assumes "resolve_row ext tenant run now (task, policy) (activated, stack, db)
           = Inr (activated', stack', db')"
    and "task_keys_ok db"
  obtains (undecided) sat where "activated' = activated" and "stack' = stack" and "db' = db"
      and "satisfied_prerequisites ext (prerequisites tenant run task db) = Inr sat"
      and "\<not> join_ready policy sat" and "\<not> all_settled (prerequisites tenant run task db)"
    | (queued) sat where "activated' = activated @ [task]" and "stack' = stack"
      and "settles tenant run task True now db db'"
      and "satisfied_prerequisites ext (prerequisites tenant run task db) = Inr sat"
      and "join_ready policy sat"
    | (skipped) sat where "activated' = activated" and "stack' = task # stack"
      and "settles tenant run task False now db db'"
      and "satisfied_prerequisites ext (prerequisites tenant run task db) = Inr sat"
      and "\<not> join_ready policy sat" and "all_settled (prerequisites tenant run task db)"
    | (gone) "activated' = activated" and "stack' = stack" and "db' = db"
      and "\<forall>t \<in> set (db_tasks db). \<not> scheduled_task tenant run task t"
proof -
  let ?P = "scheduled_task tenant run task"
  have count: "sql_count ?P (db_tasks db) = 0 \<or> sql_count ?P (db_tasks db) = 1"
  proof -
    have "sql_count ?P ts \<le> 1" if "distinct (map t_id ts)" for ts
      using that
    proof (induction ts)
      case (Cons t ts)
      have "sql_count ?P ts = 0" if "?P t"
        using Cons.prems that by (auto simp: sql_count_0_iff scheduled_task_def image_iff)
      then show ?case using Cons by (auto simp: sql_count_def)
    qed (simp add: sql_count_def)
    then show ?thesis using assms(2) by (auto simp: task_keys_ok_def le_Suc_eq)
  qed
  have none: "sql_update ?P f (db_tasks db) = db_tasks db" if "sql_count ?P (db_tasks db) = 0" for f
    using that by (intro sql_update_id) (auto simp: sql_count_0_iff)
  have one: "\<exists>t \<in> set (db_tasks db). ?P t" if "sql_count ?P (db_tasks db) = 1"
    using that sql_count_pos [of ?P "db_tasks db"] by simp
  from assms(1) obtain sat where sat:
      "satisfied_prerequisites ext (prerequisites tenant run task db) = Inr sat"
    by (auto simp: resolve_row_def Let_def result_iffs)
  show thesis
  proof (cases "\<not> join_ready policy sat \<and> \<not> all_settled (prerequisites tenant run task db)")
    case True
    then show ?thesis using assms(1) sat by (intro undecided) (auto simp: resolve_row_def Let_def)
  next
    case decided: False
    show ?thesis
    proof (cases "sql_count ?P (db_tasks db) = 1")
      case True
      show ?thesis
      proof (cases "join_ready policy sat")
        case ready: True
        show ?thesis
          by (rule queued [OF _ _ _ sat ready])
             (use assms(1) sat True ready one [OF True] in
               \<open>auto simp: resolve_row_def Let_def settles_def\<close>)
      next
        case False
        then show ?thesis using decided assms(1) sat True one [OF True]
          by (intro skipped) (auto simp: resolve_row_def Let_def settles_def)
      qed
    next
      case False
      then have zero: "sql_count ?P (db_tasks db) = 0" using count by simp
      then have "\<forall>t \<in> set (db_tasks db). \<not> ?P t" by (simp add: sql_count_0_iff)
      then show ?thesis
        using decided assms(1) sat none [OF zero] zero
        by (intro gone) (simp_all add: resolve_row_def Let_def split: if_splits)
    qed
  qed
qed

text \<open>
  What one step, and then the whole loop, does to the tasks: each one stays as it is or is
  settled, and the newly queued ones are exactly the activated ones.
\<close>

definition task_settled :: "uuid \<Rightarrow> uuid \<Rightarrow> micros \<Rightarrow> task_row \<Rightarrow> task_row \<Rightarrow> bool" where
  "task_settled tenant run now t t' \<longleftrightarrow> t' = t
     \<or> (t_tenant t = tenant \<and> t_run t = run \<and> t_status t = TaskScheduled
        \<and> (t' = settle_task True now t \<or> t' = settle_task False now t))"

definition tasks_settled :: "uuid \<Rightarrow> uuid \<Rightarrow> micros \<Rightarrow> db \<Rightarrow> db \<Rightarrow> bool" where
  "tasks_settled tenant run now db db' \<longleftrightarrow>
     (\<exists>ts. db' = db\<lparr>db_tasks := ts\<rparr> \<and> list_all2 (task_settled tenant run now) (db_tasks db) ts)"

lemma tasks_settled_refl: "tasks_settled tenant run now db db"
  unfolding tasks_settled_def
  by (intro exI [of _ "db_tasks db"]) (simp add: list_all2_refl task_settled_def)

lemma task_settled_trans:
  "task_settled tenant run now a b \<Longrightarrow> task_settled tenant run now b c
   \<Longrightarrow> task_settled tenant run now a c"
  by (auto simp: task_settled_def)

lemma tasks_settled_trans:
  assumes "tasks_settled tenant run now a b" and "tasks_settled tenant run now b c"
  shows "tasks_settled tenant run now a c"
proof -
  from assms obtain ts us where b: "b = a\<lparr>db_tasks := ts\<rparr>" and c: "c = b\<lparr>db_tasks := us\<rparr>"
    and ts: "list_all2 (task_settled tenant run now) (db_tasks a) ts"
    and us: "list_all2 (task_settled tenant run now) ts us"
    by (auto simp: tasks_settled_def)
  have "list_all2 (task_settled tenant run now) (db_tasks a) us"
    by (rule list_all2_trans [OF task_settled_trans ts us])
  then show ?thesis using b c by (auto simp: tasks_settled_def)
qed

lemma settles_tasks_settled:
  assumes "settles tenant run task ready now db db'"
  shows "tasks_settled tenant run now db db'"
proof -
  have "list_all2 (task_settled tenant run now) ts
          (sql_update (scheduled_task tenant run task) (settle_task ready now) ts)" for ts
    by (induction ts; cases ready) (auto simp: task_settled_def scheduled_task_def)
  then show ?thesis using assms by (auto simp: settles_def tasks_settled_def)
qed

lemma tasks_settled_keys:
  assumes "tasks_settled tenant run now db db'"
  shows "map t_id (db_tasks db') = map t_id (db_tasks db)" and "db_deps db' = db_deps db"
    and "task_keys_ok db' = task_keys_ok db"
proof -
  from assms obtain ts where ts: "db' = db\<lparr>db_tasks := ts\<rparr>"
    "list_all2 (task_settled tenant run now) (db_tasks db) ts" by (auto simp: tasks_settled_def)
  from ts(2) have "map t_id ts = map t_id (db_tasks db)"
    by (induction rule: list_all2_induct) (auto simp: task_settled_def)
  then show "map t_id (db_tasks db') = map t_id (db_tasks db)" and "db_deps db' = db_deps db"
    and "task_keys_ok db' = task_keys_ok db"
    using ts(1) by (simp_all add: task_keys_ok_def)
qed

section \<open>The loop invariant\<close>

definition task_of_run :: "uuid \<Rightarrow> uuid \<Rightarrow> task_row \<Rightarrow> bool" where
  "task_of_run tenant run t \<longleftrightarrow> t_tenant t = tenant \<and> t_run t = run"

definition activated_ok ::
  "externals \<Rightarrow> uuid \<Rightarrow> uuid \<Rightarrow> uuid list \<Rightarrow> db \<Rightarrow> bool" where
  "activated_ok ext tenant run activated db \<longleftrightarrow> (\<forall>i \<in> set activated. \<exists>t \<in> set (db_tasks db).
     t_id t = i \<and> task_of_run tenant run t \<and> t_status t = TaskQueued \<and> readiness ext db t)"

text \<open>Every scheduled task is undecided, waits on a task of the stack, or is still to be seen.\<close>

definition covered ::
  "externals \<Rightarrow> uuid \<Rightarrow> uuid \<Rightarrow> (uuid \<times> join_policy) list \<Rightarrow> uuid list \<Rightarrow> db \<Rightarrow> bool" where
  "covered ext tenant run rows stack db \<longleftrightarrow> (\<forall>t \<in> set (db_tasks db).
     task_of_run tenant run t \<and> t_status t = TaskScheduled \<longrightarrow>
       undecided ext db t \<or> (\<exists>c \<in> set stack. waits_on db t c)
       \<or> (t_id t, t_join_policy t) \<in> set rows)"

text \<open>The policy read with a row is that of its task.\<close>

definition rows_ok :: "(uuid \<times> join_policy) list \<Rightarrow> db \<Rightarrow> bool" where
  "rows_ok rows db \<longleftrightarrow> (\<forall>(i, policy) \<in> set rows. \<forall>t \<in> set (db_tasks db).
     t_id t = i \<longrightarrow> t_join_policy t = policy)"

definition loop_ok ::
  "externals \<Rightarrow> uuid \<Rightarrow> uuid \<Rightarrow> (uuid \<times> join_policy) list \<Rightarrow> uuid list \<times> uuid list \<times> db \<Rightarrow> bool" where
  "loop_ok ext tenant run rows = (\<lambda>(activated, stack, db).
     task_keys_ok db \<and> rows_ok rows db \<and> activated_ok ext tenant run activated db
     \<and> covered ext tenant run rows stack db)"

lemma settles_in:
  assumes "settles tenant run task ready now db db'" and "t \<in> set (db_tasks db')"
  obtains (same) "t \<in> set (db_tasks db)" and "\<not> scheduled_task tenant run task t"
    | (changed) u where "u \<in> set (db_tasks db)" and "scheduled_task tenant run task u"
        and "t = settle_task ready now u"
  using assms by (auto simp: settles_def elim!: in_sql_updateE split: if_splits)

lemma settles_kept:
  "settles tenant run task ready now db db' \<Longrightarrow> t \<in> set (db_tasks db)
   \<Longrightarrow> \<not> scheduled_task tenant run task t \<Longrightarrow> t \<in> set (db_tasks db')"
  by (auto simp: settles_def set_sql_update image_iff intro!: bexI [of _ t])

lemma settles_keys:
  "settles tenant run task ready now db db' \<Longrightarrow> task_keys_ok db \<Longrightarrow> task_keys_ok db'"
  using settles_tasks_settled tasks_settled_keys(3) by blast

lemma settles_deps: "settles tenant run task ready now db db' \<Longrightarrow> db_deps db' = db_deps db"
  by (auto simp: settles_def)

lemma readiness_settle_task [simp]:
  "readiness ext db (settle_task b now t) = readiness ext db t"
  "refused ext db (settle_task b now t) = refused ext db t"
  by (simp_all add: readiness_def refused_def)

lemma rows_ok_settles:
  assumes "settles tenant run task ready now db db'" and "rows_ok rows db"
  shows "rows_ok rows db'"
proof -
  have "t_join_policy t = policy" if row: "(i, policy) \<in> set rows"
    and t: "t \<in> set (db_tasks db')" "t_id t = i" for i policy t
    using assms(1) t(1)
  proof (cases rule: settles_in)
    case same
    then show ?thesis using assms(2) row t(2) by (auto simp: rows_ok_def)
  next
    case (changed u)
    then show ?thesis using assms(2) row t(2) by (auto simp: rows_ok_def)
  qed
  then show ?thesis by (auto simp: rows_ok_def)
qed

lemma activated_ok_settles:
  assumes "settles tenant run task ready now db db'" and "activated_ok ext tenant run activated db"
  shows "activated_ok ext tenant run activated db'"
  unfolding activated_ok_def
proof
  fix i assume "i \<in> set activated"
  with assms(2) obtain t where t: "t \<in> set (db_tasks db)" "t_id t = i" "task_of_run tenant run t"
      "t_status t = TaskQueued" "readiness ext db t"
    by (auto simp: activated_ok_def)
  then have "t \<in> set (db_tasks db')"
    using settles_kept [OF assms(1)] by (auto simp: scheduled_task_def)
  moreover have "readiness ext db' t"
    using readiness_settles assms(1) t(3,5) by (auto simp: task_of_run_def)
  ultimately show "\<exists>t \<in> set (db_tasks db'). t_id t = i \<and> task_of_run tenant run t
      \<and> t_status t = TaskQueued \<and> readiness ext db' t"
    using t by blast
qed

lemma covered_settles:
  assumes "settles tenant run task ready now db db'"
    and "covered ext tenant run ((task, policy) # rows) stack db"
    and "stack' = (if ready then stack else task # stack)"
  shows "covered ext tenant run rows stack' db'"
  unfolding covered_def
proof (intro ballI impI)
  fix t assume t: "t \<in> set (db_tasks db')"
    and run: "task_of_run tenant run t \<and> t_status t = TaskScheduled"
  have old: "t \<in> set (db_tasks db) \<and> \<not> scheduled_task tenant run task t"
    using assms(1) t by (rule settles_in) (use run in \<open>auto split: if_splits\<close>)
  then have "t_id t \<noteq> task" using run by (auto simp: scheduled_task_def task_of_run_def)
  then have before: "undecided ext db t \<or> (\<exists>c \<in> set stack. waits_on db t c)
      \<or> (t_id t, t_join_policy t) \<in> set rows"
    using assms(2) old run by (auto simp: covered_def)
  have deps: "waits_on db' t c = waits_on db t c" for c
    using settles_deps [OF assms(1)] by (simp add: waits_on_def)
  show "undecided ext db' t \<or> (\<exists>c \<in> set stack'. waits_on db' t c)
      \<or> (t_id t, t_join_policy t) \<in> set rows"
  proof (cases "undecided ext db t \<and> (ready \<or> \<not> waits_on db t task)")
    case True
    then show ?thesis
      using undecided_settles assms(1) run by (auto simp: task_of_run_def)
  next
    case False
    then show ?thesis using before assms(3) deps by (auto split: if_splits)
  qed
qed

lemma resolve_row_ok:
  assumes "resolve_row ext tenant run now (task, policy) s = Inr s'"
    and "loop_ok ext tenant run ((task, policy) # rows) s"
  shows "loop_ok ext tenant run rows s'"
proof -
  obtain activated stack db where s: "s = (activated, stack, db)" by (cases s)
  obtain activated' stack' db' where s': "s' = (activated', stack', db')" by (cases s')
  have keys: "task_keys_ok db" and rows: "rows_ok ((task, policy) # rows) db" "rows_ok rows db"
    and act: "activated_ok ext tenant run activated db"
    and cov: "covered ext tenant run ((task, policy) # rows) stack db"
    using assms(2) s by (auto simp: loop_ok_def rows_ok_def)
  from assms(1) [unfolded s s'] keys show ?thesis
  proof (cases rule: resolve_row_cases)
    case (undecided sat)
    have "undecided ext db t" if "task_of_run tenant run t" "t_id t = task" "t_join_policy t = policy" for t
      using undecided that by (auto simp: verdict_defs task_of_run_def)
    then have "covered ext tenant run rows stack db"
      using cov by (auto simp: covered_def)
    then show ?thesis using undecided keys rows act s' by (simp add: loop_ok_def)
  next
    case (queued sat)
    then obtain t where t: "t \<in> set (db_tasks db)" "scheduled_task tenant run task t"
      and db': "db' = db\<lparr>db_tasks := sql_update (scheduled_task tenant run task)
        (settle_task True now) (db_tasks db)\<rparr>"
      by (auto simp: settles_def)
    have "t_join_policy t = policy"
      using rows(1) t by (auto simp: rows_ok_def scheduled_task_def)
    then have "readiness ext db t"
      using queued(4,5) t(2) by (auto simp: verdict_defs scheduled_task_def)
    then have ready: "readiness ext db' (settle_task True now t)"
      using readiness_settles [of t task True now db db' ext] queued(3) t(2)
      by (auto simp: scheduled_task_def)
    moreover have "settle_task True now t \<in> set (db_tasks db')"
      using t db' by (auto simp: set_sql_update image_iff intro!: bexI [of _ t])
    ultimately have "activated_ok ext tenant run (activated @ [task]) db'"
      using activated_ok_settles [OF queued(3) act] t(2)
      by (auto simp: activated_ok_def task_of_run_def scheduled_task_def
          intro!: bexI [of _ "settle_task True now t"])
    then show ?thesis
      using queued(1,2) settles_keys [OF queued(3) keys] rows_ok_settles [OF queued(3) rows(2)]
        covered_settles [OF queued(3) cov, of stack] s'
      by (simp add: loop_ok_def)
  next
    case (skipped sat)
    then show ?thesis
      using settles_keys [OF skipped(3) keys] rows_ok_settles [OF skipped(3) rows(2)]
        activated_ok_settles [OF skipped(3) act]
        covered_settles [OF skipped(3) cov, of "task # stack"] s'
      by (simp add: loop_ok_def)
  next
    case gone
    have "covered ext tenant run rows stack db"
      using cov gone(4) by (auto simp: covered_def scheduled_task_def task_of_run_def)
    then show ?thesis using gone keys rows act s' by (simp add: loop_ok_def)
  qed
qed

lemma resolve_rows_ok:
  assumes "resolve_rows ext tenant run now rows s = Inr s'" and "loop_ok ext tenant run rows s"
  shows "loop_ok ext tenant run [] s'"
  using assms
proof (induction rows arbitrary: s)
  case (Cons row rows)
  obtain task policy where row: "row = (task, policy)" by (cases row)
  from Cons.prems(1) obtain s1 where "resolve_row ext tenant run now row s = Inr s1"
      and rest: "resolve_rows ext tenant run now rows s1 = Inr s'"
    by (auto simp: resolve_rows_def result_iffs)
  then have "loop_ok ext tenant run rows s1"
    using resolve_row_ok Cons.prems(2) row by blast
  with rest show ?case by (rule Cons.IH)
qed (simp add: resolve_rows_def)

lemma resolve_row_settled:
  assumes "resolve_row ext tenant run now row (activated, stack, db) = Inr (activated', stack', db')"
    and "task_keys_ok db"
  shows "tasks_settled tenant run now db db'"
proof (cases row)
  case (Pair task policy)
  from assms(1) [unfolded Pair] assms(2) show ?thesis
    by (cases rule: resolve_row_cases) (auto intro: tasks_settled_refl settles_tasks_settled)
qed

lemma resolve_rows_settled:
  assumes "resolve_rows ext tenant run now rows (activated, stack, db) = Inr (activated', stack', db')"
    and "task_keys_ok db"
  shows "tasks_settled tenant run now db db'"
  using assms
proof (induction rows arbitrary: activated stack db)
  case Nil
  then show ?case by (simp add: resolve_rows_def tasks_settled_refl)
next
  case (Cons row rows)
  from Cons.prems(1) obtain a1 st1 db1 where
      one: "resolve_row ext tenant run now row (activated, stack, db) = Inr (a1, st1, db1)"
      and rest: "resolve_rows ext tenant run now rows (a1, st1, db1) = Inr (activated', stack', db')"
    by (auto simp: resolve_rows_def result_iffs)
  have first: "tasks_settled tenant run now db db1"
    by (rule resolve_row_settled [OF one Cons.prems(2)])
  then have "task_keys_ok db1" using Cons.prems(2) tasks_settled_keys(3) by blast
  from tasks_settled_trans [OF first Cons.IH [OF rest this]] show ?case .
qed

lemma covered_start:
  "covered ext tenant run [] (c # stack) db \<Longrightarrow> covered ext tenant run (waiting_on tenant run c db) stack db"
  unfolding covered_def
  by (auto simp: waiting_on_def task_of_run_def waits_on_def image_iff)

lemma rows_ok_waiting_on: "task_keys_ok db \<Longrightarrow> rows_ok (waiting_on tenant run c db) db"
  by (auto simp: rows_ok_def waiting_on_def task_keys_ok_def dest: distinct_map_inj)

lemma resolve_loop_ok:
  assumes "resolve_loop ext tenant run now stack activated db = Inr (activated', db')"
    and "loop_ok ext tenant run [] (activated, stack, db)"
  shows "loop_ok ext tenant run [] (activated', [], db')"
  using assms
proof (induction ext tenant run now stack activated db rule: resolve_loop.induct)
  case (2 ext tenant run now c stack activated db)
  from "2.prems"(1) obtain a1 st1 db1 where
      rows: "resolve_rows ext tenant run now (waiting_on tenant run c db) (activated, stack, db)
             = Inr (a1, st1, db1)"
      and rest: "resolve_loop ext tenant run now st1 a1 db1 = Inr (activated', db')"
    by (auto split: sum.splits prod.splits)
  have "loop_ok ext tenant run (waiting_on tenant run c db) (activated, stack, db)"
    using "2.prems"(2) covered_start rows_ok_waiting_on by (auto simp: loop_ok_def)
  then have "loop_ok ext tenant run [] (a1, st1, db1)"
    by (rule resolve_rows_ok [OF rows])
  with "2.IH" [OF rows refl refl rest] show ?case by blast
qed simp

lemma resolve_loop_settled:
  assumes "resolve_loop ext tenant run now stack activated db = Inr (activated', db')"
    and "task_keys_ok db"
  shows "tasks_settled tenant run now db db'"
  using assms
proof (induction ext tenant run now stack activated db rule: resolve_loop.induct)
  case (1 ext tenant run now activated db)
  then show ?case by (simp add: tasks_settled_refl)
next
  case (2 ext tenant run now c stack activated db)
  from "2.prems"(1) obtain a1 st1 db1 where
      rows: "resolve_rows ext tenant run now (waiting_on tenant run c db) (activated, stack, db)
             = Inr (a1, st1, db1)"
      and rest: "resolve_loop ext tenant run now st1 a1 db1 = Inr (activated', db')"
    by (auto split: sum.splits prod.splits)
  have one: "tasks_settled tenant run now db db1"
    by (rule resolve_rows_settled [OF rows "2.prems"(2)])
  then have "task_keys_ok db1" using "2.prems"(2) tasks_settled_keys(3) by blast
  with "2.IH" [OF rows refl refl rest] one show ?case using tasks_settled_trans by blast
qed

lemma resolve_dependent_tasks_settled:
  "resolve_dependent_tasks ext tenant run task now db = Inr (activated, db') \<Longrightarrow> task_keys_ok db
   \<Longrightarrow> tasks_settled tenant run now db db'"
  unfolding resolve_dependent_tasks_def by (rule resolve_loop_settled)

lemma resolve_dependent_tasks_frame:
  assumes "resolve_dependent_tasks ext tenant run task now db = Inr (activated, db')"
    and "task_keys_ok db"
  obtains ts where "db' = db\<lparr>db_tasks := ts\<rparr>"
    and "list_all2 (task_settled tenant run now) (db_tasks db) ts"
  using resolve_dependent_tasks_settled [OF assms] by (auto simp: tasks_settled_def)

section \<open>Why a task was settled\<close>

text \<open>
  What became of a task since the loop began: nothing, or it was queued and counted as activated,
  or it was skipped and is refused.
\<close>

definition task_decided ::
  "externals \<Rightarrow> uuid \<Rightarrow> uuid \<Rightarrow> micros \<Rightarrow> uuid list \<Rightarrow> db \<Rightarrow> task_row \<Rightarrow> task_row \<Rightarrow> bool" where
  "task_decided ext tenant run now activated db t t' \<longleftrightarrow> t' = t
     \<or> (task_of_run tenant run t \<and> t_status t = TaskScheduled
        \<and> (t' = settle_task True now t \<and> t_id t \<in> set activated
           \<or> t' = settle_task False now t \<and> refused ext db t))"

definition tasks_decided ::
  "externals \<Rightarrow> uuid \<Rightarrow> uuid \<Rightarrow> micros \<Rightarrow> uuid list \<Rightarrow> db \<Rightarrow> db \<Rightarrow> bool" where
  "tasks_decided ext tenant run now activated db0 db \<longleftrightarrow>
     list_all2 (task_decided ext tenant run now activated db) (db_tasks db0) (db_tasks db)"

lemma tasks_decided_refl: "tasks_decided ext tenant run now activated db db"
  by (simp add: tasks_decided_def list_all2_refl task_decided_def)

lemma tasks_decided_settles:
  assumes "tasks_decided ext tenant run now activated db0 db"
    and "settles tenant run task ready now db db'" and "set activated \<subseteq> set activated'"
    and "ready \<Longrightarrow> task \<in> set activated'"
    and "\<And>t. t \<in> set (db_tasks db) \<Longrightarrow> scheduled_task tenant run task t \<Longrightarrow> \<not> ready \<Longrightarrow> refused ext db t"
  shows "tasks_decided ext tenant run now activated' db0 db'"
proof -
  let ?u = "\<lambda>t. if scheduled_task tenant run task t then settle_task ready now t else t"
  have tasks: "db_tasks db' = map ?u (db_tasks db)"
    using assms(2) by (auto simp: settles_def sql_update_def)
  have keep: "refused ext db' t" if "refused ext db t" "task_of_run tenant run t" for t
    using that assms(2) by (auto simp: task_of_run_def intro: refused_settles)
  have "task_decided ext tenant run now activated' db' t (?u t')"
    if t': "t' \<in> set (db_tasks db)" and before: "task_decided ext tenant run now activated db t t'" for t t'
  proof (cases "scheduled_task tenant run task t'")
    case True
    then have "t' = t" using before by (auto simp: task_decided_def scheduled_task_def)
    then show ?thesis
      using True assms(4) assms(5) [OF t' True] keep
      by (cases ready) (auto simp: task_decided_def scheduled_task_def task_of_run_def)
  next
    case False
    then show ?thesis using before assms(3) keep by (auto simp: task_decided_def)
  qed
  with assms(1) [unfolded tasks_decided_def] show ?thesis
    unfolding tasks_decided_def tasks list_all2_map2 by (rule list_all2_mono_on)
qed

lemma resolve_row_decided:
  assumes "resolve_row ext tenant run now (task, policy) (activated, stack, db) = Inr (activated', stack', db')"
    and "task_keys_ok db" and "rows_ok ((task, policy) # rows) db"
    and "tasks_decided ext tenant run now activated db0 db"
  shows "tasks_decided ext tenant run now activated' db0 db'"
  using assms(1,2)
proof (cases rule: resolve_row_cases)
  case (queued sat)
  show ?thesis
    by (rule tasks_decided_settles [OF assms(4) queued(3)]) (auto simp: queued(1))
next
  case (skipped sat)
  have "refused ext db t" if "t \<in> set (db_tasks db)" "scheduled_task tenant run task t" for t
  proof -
    have "t_join_policy t = policy" using assms(3) that by (auto simp: rows_ok_def scheduled_task_def)
    then show ?thesis using skipped(4-6) that(2) by (auto simp: verdict_defs scheduled_task_def)
  qed
  then show ?thesis
    by (intro tasks_decided_settles [OF assms(4) skipped(3)]) (simp_all add: skipped(1))
qed (use assms(4) in simp_all)

lemma resolve_rows_decided:
  assumes "resolve_rows ext tenant run now rows (activated, stack, db) = Inr (activated', stack', db')"
    and "loop_ok ext tenant run rows (activated, stack, db)"
    and "tasks_decided ext tenant run now activated db0 db"
  shows "tasks_decided ext tenant run now activated' db0 db'"
  using assms
proof (induction rows arbitrary: activated stack db)
  case (Cons row rows)
  obtain task policy where row: "row = (task, policy)" by (cases row)
  from Cons.prems(1) obtain a1 st1 db1 where
      one: "resolve_row ext tenant run now row (activated, stack, db) = Inr (a1, st1, db1)"
      and rest: "resolve_rows ext tenant run now rows (a1, st1, db1) = Inr (activated', stack', db')"
    by (auto simp: resolve_rows_def result_iffs)
  have "loop_ok ext tenant run rows (a1, st1, db1)"
    using resolve_row_ok one Cons.prems(2) row by blast
  moreover have "tasks_decided ext tenant run now a1 db0 db1"
    using resolve_row_decided [OF one [unfolded row] _ _ Cons.prems(3)] Cons.prems(2)
    by (auto simp: row loop_ok_def)
  ultimately show ?case by (rule Cons.IH [OF rest])
qed (simp add: resolve_rows_def)

lemma resolve_loop_decided:
  assumes "resolve_loop ext tenant run now stack activated db = Inr (activated', db')"
    and "loop_ok ext tenant run [] (activated, stack, db)"
    and "tasks_decided ext tenant run now activated db0 db"
  shows "tasks_decided ext tenant run now activated' db0 db'"
  using assms
proof (induction ext tenant run now stack activated db rule: resolve_loop.induct)
  case (2 ext tenant run now c stack activated db)
  from "2.prems"(1) obtain a1 st1 db1 where
      rows: "resolve_rows ext tenant run now (waiting_on tenant run c db) (activated, stack, db)
             = Inr (a1, st1, db1)"
      and rest: "resolve_loop ext tenant run now st1 a1 db1 = Inr (activated', db')"
    by (auto split: sum.splits prod.splits)
  have start: "loop_ok ext tenant run (waiting_on tenant run c db) (activated, stack, db)"
    using "2.prems"(2) covered_start rows_ok_waiting_on by (auto simp: loop_ok_def)
  show ?case
    by (rule "2.IH" [OF rows refl refl rest resolve_rows_ok [OF rows start]
          resolve_rows_decided [OF rows start "2.prems"(3)]])
qed simp

text \<open>
  C34: when a task becomes terminal, settling the tasks that depend on it leaves every task as it is
  except scheduled tasks of the run, and settles each of those by what its prerequisites are
  afterwards: it is queued, available now and named in the answer exactly when its join policy is
  satisfied, and skipped, with its end time, when all its prerequisites are terminal and the policy is
  not satisfied. Nothing that is decided is left scheduled: if that held for every task not waiting on
  the terminal one, it holds for all of them afterwards.
\<close>

theorem resolve_dependent_tasks_correct:
  assumes "resolve_dependent_tasks ext tenant run terminal now db = Inr (activated, db')"
    and "task_keys_ok db"
    and "\<forall>t \<in> set (db_tasks db). task_of_run tenant run t \<and> t_status t = TaskScheduled
           \<longrightarrow> undecided ext db t \<or> waits_on db t terminal"
  shows "list_all2 (\<lambda>t t'. t' = t \<or> task_of_run tenant run t \<and> t_status t = TaskScheduled
            \<and> (t' = t\<lparr>t_status := TaskQueued, t_available_at := now, t_completed_at := None, t_updated_at := now\<rparr>
                 \<and> readiness ext db' t' \<and> t_id t \<in> set activated
             \<or> t' = t\<lparr>t_status := TaskSkipped, t_completed_at := Some now, t_updated_at := now\<rparr>
                 \<and> refused ext db' t'))
         (db_tasks db) (db_tasks db')
    \<and> (\<forall>i \<in> set activated. \<exists>t \<in> set (db_tasks db').
           t_id t = i \<and> task_of_run tenant run t \<and> t_status t = TaskQueued \<and> readiness ext db' t)
    \<and> (\<forall>t \<in> set (db_tasks db'). task_of_run tenant run t \<and> t_status t = TaskScheduled
           \<longrightarrow> undecided ext db' t)"
proof -
  have "loop_ok ext tenant run [] ([], [terminal], db)"
    using assms(2,3) by (auto simp: loop_ok_def rows_ok_def activated_ok_def covered_def)
  note loop = assms(1) [unfolded resolve_dependent_tasks_def] this
  have act: "activated_ok ext tenant run activated db'" and cov: "covered ext tenant run [] [] db'"
    and keys: "task_keys_ok db'"
    using resolve_loop_ok [OF loop] by (simp_all add: loop_ok_def)
  have decided: "tasks_decided ext tenant run now activated db db'"
    by (rule resolve_loop_decided [OF loop tasks_decided_refl])
  have ready: "readiness ext db' t'" if "t' \<in> set (db_tasks db')" "t_id t' \<in> set activated" for t'
  proof -
    from act that(2) obtain t where "t \<in> set (db_tasks db')" "t_id t = t_id t'" "readiness ext db' t"
      by (auto simp: activated_ok_def)
    then show ?thesis using keys that(1) by (auto simp: task_keys_ok_def dest: distinct_map_inj)
  qed
  have "list_all2 (\<lambda>t t'. t' = t \<or> task_of_run tenant run t \<and> t_status t = TaskScheduled
            \<and> (t' = t\<lparr>t_status := TaskQueued, t_available_at := now, t_completed_at := None, t_updated_at := now\<rparr>
                 \<and> readiness ext db' t' \<and> t_id t \<in> set activated
             \<or> t' = t\<lparr>t_status := TaskSkipped, t_completed_at := Some now, t_updated_at := now\<rparr>
                 \<and> refused ext db' t'))
         (db_tasks db) (db_tasks db')"
    using decided unfolding tasks_decided_def
  proof (rule list_all2_mono_on)
    fix t t' assume t': "t' \<in> set (db_tasks db')" and d: "task_decided ext tenant run now activated db' t t'"
    have settled: "t\<lparr>t_status := TaskQueued, t_available_at := now, t_completed_at := None, t_updated_at := now\<rparr>
          = settle_task True now t"
        "t\<lparr>t_status := TaskSkipped, t_completed_at := Some now, t_updated_at := now\<rparr> = settle_task False now t"
      by (simp_all add: settle_task_def)
    show "t' = t \<or> task_of_run tenant run t \<and> t_status t = TaskScheduled
            \<and> (t' = t\<lparr>t_status := TaskQueued, t_available_at := now, t_completed_at := None, t_updated_at := now\<rparr>
                 \<and> readiness ext db' t' \<and> t_id t \<in> set activated
             \<or> t' = t\<lparr>t_status := TaskSkipped, t_completed_at := Some now, t_updated_at := now\<rparr>
                 \<and> refused ext db' t')"
      using d ready [OF t'] unfolding task_decided_def settled by auto
  qed
  then show ?thesis using act cov by (simp add: activated_ok_def covered_def)
qed

text \<open>A database in which the prerequisite has succeeded.\<close>

definition settled_example :: db where
  "settled_example = sample_db\<lparr>db_tasks :=
     [(sample_task 2 TaskSucceeded)\<lparr>t_completed_at := Some 20\<rparr>, sample_task 3 TaskScheduled]\<rparr>"

theorem resolve_dependent_tasks_correct_witness:
  "\<exists>db'. resolve_dependent_tasks sample_ext 7 1 2 30 settled_example = Inr ([3], db')
     \<and> (\<forall>i \<in> set [3]. \<exists>t \<in> set (db_tasks db').
           t_id t = i \<and> task_of_run 7 1 t \<and> t_status t = TaskQueued \<and> readiness sample_ext db' t)"
proof -
  let ?db' = "settled_example\<lparr>db_tasks :=
     [(sample_task 2 TaskSucceeded)\<lparr>t_completed_at := Some 20\<rparr>,
      (sample_task 3 TaskQueued)\<lparr>t_available_at := 30, t_updated_at := 30\<rparr>]\<rparr>"
  have run: "resolve_dependent_tasks sample_ext 7 1 2 30 settled_example = Inr ([3], ?db')"
    by code_simp
  moreover have "task_keys_ok settled_example" by code_simp
  moreover have "\<forall>t \<in> set (db_tasks settled_example). task_of_run 7 1 t \<and> t_status t = TaskScheduled
      \<longrightarrow> undecided sample_ext settled_example t \<or> waits_on settled_example t 2"
    by (simp add: settled_example_def sample_defs waits_on_def dependency_on_def)
  ultimately show ?thesis using resolve_dependent_tasks_correct [OF run] by blast
qed

end
