(* ===== verification/TaskLease.thy ===== *)
theory TaskLease
  imports Dependencies
begin

text \<open>
  Task leases: \<open>claim_task\<close>, \<open>renew_task_lease\<close> and \<open>reclaim_expired_lease\<close> of
  \<open>transaction_executor.rs\<close>, with the candidate scan, the locked worker task and the worker
  fences. The scan of candidates may see an older database than the statements that lock a
  candidate, and rows locked by others are skipped: both are arguments of the model, and the
  theorems hold for all of them.
\<close>

section \<open>Order of candidates\<close>

text \<open>\<open>ORDER BY priority DESC, available_at, task_id\<close>.\<close>

datatype claim_rank = ClaimRank (cr_priority: int) (cr_available_at: int) (cr_task: uuid)

instantiation claim_rank :: linorder
begin

definition less_eq_claim_rank :: "claim_rank \<Rightarrow> claim_rank \<Rightarrow> bool" where
  "a \<le> b \<longleftrightarrow> (- cr_priority a, cr_available_at a, cr_task a)
             \<le> (- cr_priority b, cr_available_at b, cr_task b)"

definition less_claim_rank :: "claim_rank \<Rightarrow> claim_rank \<Rightarrow> bool" where
  "a < b \<longleftrightarrow> (- cr_priority a, cr_available_at a, cr_task a)
             < (- cr_priority b, cr_available_at b, cr_task b)"

instance
  by standard
     (auto simp: less_eq_claim_rank_def less_claim_rank_def less_le_not_le
        intro: claim_rank.expand)

end

definition claim_rank_of :: "task_row \<Rightarrow> claim_rank" where
  "claim_rank_of t = ClaimRank (t_priority t) (t_available_at t) (t_id t)"

section \<open>Commands\<close>

record claim_task_command =
  ctc_worker_id :: uuid
  ctc_lease_token :: lease_token
  ctc_lease_duration :: nat
  ctc_candidate_window :: nat
  ctc_kind :: "task_kind option"

record renew_task_lease_command =
  rtl_expected_run :: expected_run
  rtl_lease :: lease_proof
  rtl_extension :: nat

text \<open>
  What a transaction sees of the others: the database its first scan reads, and the rows others
  hold locked (\<open>SKIP LOCKED\<close>).
\<close>

record concurrent_view =
  cv_scan :: db
  cv_run_locked :: "uuid \<Rightarrow> bool"
  cv_task_locked :: "uuid \<Rightarrow> bool"

section \<open>Claiming\<close>

definition claimable_status :: "task_status \<Rightarrow> bool" where
  "claimable_status s \<longleftrightarrow> s = TaskQueued \<or> s = TaskRetryScheduled"

definition claimable_task :: "micros \<Rightarrow> task_kind option \<Rightarrow> task_row \<Rightarrow> bool" where
  "claimable_task now kind t \<longleftrightarrow>
     claimable_status (t_status t) \<and> t_available_at t \<le> now
     \<and> (case t_deadline t of None \<Rightarrow> True | Some d \<Rightarrow> now \<le> d)
     \<and> t_attempt t < t_max_attempts t
     \<and> (case kind of None \<Rightarrow> True | Some k \<Rightarrow> t_kind t = k)"

definition claim_candidates ::
  "uuid \<Rightarrow> micros \<Rightarrow> nat \<Rightarrow> task_kind option \<Rightarrow> db \<Rightarrow> (uuid \<times> uuid) list" where
  "claim_candidates tenant now window kind db =
     map (\<lambda>t. (t_id t, t_run t))
       (take window (sort_key claim_rank_of
         (filter (\<lambda>t. t_tenant t = tenant \<and> claimable_task now kind t
              \<and> (case find_run tenant (t_run t) db of
                   None \<Rightarrow> False
                 | Some r \<Rightarrow> accepts_task_claim (r_status r) \<and> t_generation t = r_generation r))
            (db_tasks db))))"

text \<open>The two \<open>FOR UPDATE SKIP LOCKED\<close> statements on one candidate.\<close>

definition lock_candidate ::
  "concurrent_view \<Rightarrow> uuid \<Rightarrow> micros \<Rightarrow> task_kind option \<Rightarrow> uuid \<times> uuid \<Rightarrow> db
   \<Rightarrow> (run_row \<times> task_row) option" where
  "lock_candidate view tenant now kind = (\<lambda>(task_id, run_id) db.
     (case find (\<lambda>r. r_tenant r = tenant \<and> r_id r = run_id \<and> accepts_task_claim (r_status r)
                  \<and> \<not> cv_run_locked view (r_id r)) (db_runs db) of
        None \<Rightarrow> None
      | Some run \<Rightarrow>
          (case find (\<lambda>t. t_tenant t = tenant \<and> t_run t = run_id \<and> t_id t = task_id
                        \<and> claimable_task now kind t \<and> t_generation t = r_generation run
                        \<and> \<not> cv_task_locked view (t_id t)) (db_tasks db) of
             None \<Rightarrow> None
           | Some task \<Rightarrow> Some (run, task))))"

fun first_lockable ::
  "concurrent_view \<Rightarrow> uuid \<Rightarrow> micros \<Rightarrow> task_kind option \<Rightarrow> (uuid \<times> uuid) list \<Rightarrow> db
   \<Rightarrow> (run_row \<times> task_row) option" where
  "first_lockable view tenant now kind [] db = None"
| "first_lockable view tenant now kind (c # cs) db =
     (case lock_candidate view tenant now kind c db of
        None \<Rightarrow> first_lockable view tenant now kind cs db
      | Some found \<Rightarrow> Some found)"

definition lock_claim_candidate ::
  "concurrent_view \<Rightarrow> uuid \<Rightarrow> micros \<Rightarrow> nat \<Rightarrow> task_kind option \<Rightarrow> (run_row \<times> task_row) option txn" where
  "lock_claim_candidate view tenant now window kind =
     queryT (first_lockable view tenant now kind
               (claim_candidates tenant now window kind (cv_scan view)))"

definition be_bytes :: "nat \<Rightarrow> 'a::len word \<Rightarrow> byte list" where
  "be_bytes n w = map (\<lambda>i. ucast (drop_bit (8 * (n - 1 - i)) w)) [0..<n]"

definition deterministic_attempt_id :: "externals \<Rightarrow> uuid \<Rightarrow> int \<Rightarrow> lease_token \<Rightarrow> uuid" where
  "deterministic_attempt_id ext task_id attempt token =
     ucast (drop_bit 128 (ext_sha256 ext
       (be_bytes 16 task_id @ be_bytes 8 (word_of_int attempt :: 64 word) @ be_bytes 32 token)))"

definition insert_task_attempt :: "attempt_row \<Rightarrow> unit txn" where
  "insert_task_attempt a =
    thenT (\<lambda>db. guardT (a_attempt a \<ge> 1 \<and> a_claimed_at a \<le> a_lease_expires_at a) check_violation db)
    (thenT (\<lambda>db. guardT (\<not> sql_exists (\<lambda>b. a_id b = a_id a
               \<or> (a_tenant b = a_tenant a \<and> a_task b = a_task a \<and> a_attempt b = a_attempt a))
             (db_attempts db)) unique_violation db)
    (modifyT (\<lambda>db. db\<lparr>db_attempts := db_attempts db @ [a]\<rparr>)))"

text \<open>A stage that is only planned starts with the first claim in it.\<close>

definition activate_planned_stage :: "uuid \<Rightarrow> uuid \<Rightarrow> uuid option \<Rightarrow> micros \<Rightarrow> unit txn" where
  "activate_planned_stage tenant run stage now = (case stage of
      None \<Rightarrow> returnT ()
    | Some stage_id \<Rightarrow>
        let P = (\<lambda>s. s_tenant s = tenant \<and> s_run s = run \<and> s_id s = stage_id
                   \<and> s_status s = StagePlanned)
        in thenT (\<lambda>db. guardT (increments_in_range P s_version (db_stages db))
                    bigint_out_of_range db)
           (bindT (update_stages P (\<lambda>s. s\<lparr>s_status := StageActive, s_version := s_version s + 1,
                      s_started_at := Some now, s_updated_at := now\<rparr>)) (\<lambda>_. returnT ())))"

definition claimed_task_value ::
  "externals \<Rightarrow> uuid \<Rightarrow> run_row \<Rightarrow> task_row \<Rightarrow> nat \<Rightarrow> int \<Rightarrow> nat \<Rightarrow> micros \<Rightarrow> claimed_task store_result" where
  "claimed_task_value ext tenant run task generation attempt max_attempts expires =
    bindR (case parse_logical_key (t_key task) of
             Inl _ \<Rightarrow> Inl (inconsistent ''database contains an invalid task logical key'')
           | Inr k \<Rightarrow> Inr k) (\<lambda>key.
    bindR (positive_u32 attempt ''task attempt'') (\<lambda>attempt.
    bindR (checked_add_i64_or (r_version run) 1 (inconsistent ''Run version overflow'')) (\<lambda>version.
    bindR (nonnegative_u64 version ''Run version'') (\<lambda>run_version.
    Inr \<lparr> ct_task = \<lparr> ts_tenant_id = tenant, ts_task_id = t_id task, ts_run_id = r_id run,
            ts_stage_execution_id = t_stage task, ts_logical_key = key, ts_kind = t_kind task,
            ts_status = TaskLeased, ts_generation = generation, ts_attempt = attempt,
            ts_max_attempts = max_attempts, ts_available_at = t_available_at task,
            ts_input = ext_to_vec ext (t_input task) \<rparr>,
          ct_run_version = run_version, ct_lease_expires_at = expires \<rparr>))))"

definition task_claimed_event ::
  "command_context \<Rightarrow> claim_task_command \<Rightarrow> run_row \<Rightarrow> task_row \<Rightarrow> int \<Rightarrow> micros \<Rightarrow> micros \<Rightarrow> event_insert" where
  "task_claimed_event ctx cmd run task attempt expires now =
    \<lparr> ei_event_id = cc_command_id ctx, ei_tenant_id = cc_tenant_id ctx, ei_run_id = r_id run,
      ei_sequence = r_next_seq run, ei_event_type = ''task.claimed'',
      ei_payload = JObject [(''task_id'', json_uuid (t_id task)),
        (''worker_id'', json_uuid (ctc_worker_id cmd)), (''attempt'', JInt attempt),
        (''lease_expires_at_micros'', JInt expires)],
      ei_payload_schema_version = 1, ei_producer = ''worker'', ei_context = ctx,
      ei_correlation_id = cc_correlation_id ctx, ei_occurred_at = None, ei_recorded_at = now \<rparr>"

lemma task_claimed_event_sel [simp]:
  "ei_tenant_id (task_claimed_event ctx cmd run task attempt expires now) = cc_tenant_id ctx"
  "ei_run_id (task_claimed_event ctx cmd run task attempt expires now) = r_id run"
  "ei_sequence (task_claimed_event ctx cmd run task attempt expires now) = r_next_seq run"
  "ei_event_id (task_claimed_event ctx cmd run task attempt expires now) = cc_command_id ctx"
  by (simp_all add: task_claimed_event_def)

definition lease_task :: "claim_task_command \<Rightarrow> int \<Rightarrow> micros \<Rightarrow> micros \<Rightarrow> task_row \<Rightarrow> task_row" where
  "lease_task cmd attempt expires now t = t\<lparr>t_status := TaskLeased, t_attempt := attempt,
     t_lease_owner := Some (ctc_worker_id cmd), t_lease_token := Some (ctc_lease_token cmd),
     t_lease_expires_at := Some expires, t_updated_at := now\<rparr>"

definition run_claimed :: "micros \<Rightarrow> run_row \<Rightarrow> run_row" where
  "run_claimed now r = r\<lparr>r_status := RunRunning, r_version := r_version r + 1,
     r_next_seq := r_next_seq r + 1, r_updated_at := now\<rparr>"

definition claim_locked_task ::
  "externals \<Rightarrow> command_context \<Rightarrow> claim_task_command \<Rightarrow> micros \<Rightarrow> run_row \<Rightarrow> task_row
   \<Rightarrow> claimed_task committed option txn" where
  "claim_locked_task ext ctx cmd now run task =
    (let tenant = cc_tenant_id ctx; is_run = (\<lambda>r. r_tenant r = tenant \<and> r_id r = r_id run) in
    bindT (liftT (nonnegative_u64 (t_generation task) ''task generation'')) (\<lambda>generation.
    bindT (liftT (positive_u32 (t_max_attempts task) ''task max attempts'')) (\<lambda>max_attempts.
    bindT (liftT (checked_add_i64_or (t_attempt task) 1 (invalid_command ''task attempt overflow'')))
      (\<lambda>attempt.
    bindT (liftT (to_i64 (ctc_lease_duration cmd) ''lease duration'')) (\<lambda>lease_duration.
    bindT (liftT (checked_add_i64_or now lease_duration (invalid_command ''lease expiry overflow'')))
      (\<lambda>expires.
    bindT (update_tasks (\<lambda>t. t_tenant t = tenant \<and> t_id t = t_id task)
             (lease_task cmd attempt expires now)) (\<lambda>_.
    thenT (activate_planned_stage tenant (r_id run) (t_stage task) now)
    (thenT (insert_task_attempt
       \<lparr> a_id = deterministic_attempt_id ext (t_id task) attempt (ctc_lease_token cmd),
         a_tenant = tenant, a_task = t_id task, a_run = r_id run, a_attempt = attempt,
         a_worker = ctc_worker_id cmd,
         a_token_digest = ext_sha256 ext (be_bytes 32 (ctc_lease_token cmd)),
         a_claimed_at = now, a_lease_expires_at = expires, a_finished_at = None,
         a_outcome = None, a_error_code = None \<rparr>)
    (thenT (\<lambda>db. guardT (increments_in_range is_run r_version (db_runs db)
                \<and> increments_in_range is_run r_next_seq (db_runs db)) bigint_out_of_range db)
    (bindT (update_runs is_run (run_claimed now)) (\<lambda>_.
    thenT (insert_event (task_claimed_event ctx cmd run task attempt expires now))
    (bindT (liftT (claimed_task_value ext tenant run task generation attempt max_attempts expires))
      (\<lambda>value.
    bindT (liftT (encode_claim_receipt ext (Some value))) (\<lambda>outcome.
    thenT (finish_receipt ctx ReceiptApplied outcome (Some (cc_command_id ctx))
             (Some (''task'', t_id task, attempt)))
    (returnT (Some \<lparr> disposition = Applied, committed_value = value,
       event_ids = [cc_command_id ctx], durable_follow_ups = [],
       post_commit_hints = [RunEventsAvailable (r_id run), InvalidateRunCache (r_id run)] \<rparr>))))))))))))))))"

definition duplicate_claim ::
  "externals \<Rightarrow> command_context \<Rightarrow> stored_outcome \<Rightarrow> uuid option
   \<Rightarrow> claimed_task committed option store_result" where
  "duplicate_claim ext ctx outcome event =
    bindR (decode_claim_receipt ext (cc_tenant_id ctx) outcome) (\<lambda>result.
    Inr (map_option (\<lambda>value. \<lparr> disposition = Duplicate, committed_value = value,
       event_ids = (case event of None \<Rightarrow> [] | Some e \<Rightarrow> [e]), durable_follow_ups = [],
       post_commit_hints = [] \<rparr>) result))"

definition claim_task ::
  "externals \<Rightarrow> nat \<Rightarrow> concurrent_view \<Rightarrow> command_context \<Rightarrow> claim_task_command \<Rightarrow> micros
   \<Rightarrow> claimed_task committed option txn" where
  "claim_task ext ttl view ctx cmd now =
    thenT (guardT (ctc_lease_duration cmd \<noteq> 0 \<and> ctc_candidate_window cmd \<noteq> 0)
             (invalid_command ''claim lease and candidate window must be positive''))
    (with_receipt ctx now ttl (duplicate_claim ext ctx)
      (bindT (lock_claim_candidate view (cc_tenant_id ctx) now (ctc_candidate_window cmd)
                (ctc_kind cmd)) (\<lambda>candidate. case candidate of
          None \<Rightarrow> thenT (finish_receipt ctx ReceiptNoOp StoredClaimNone None None) (returnT None)
        | Some (run, task) \<Rightarrow> claim_locked_task ext ctx cmd now run task)))"

section \<open>The locked worker task and its fences\<close>

record locked_worker_task =
  lw_run :: run_row
  lw_task :: task_row

definition lock_worker_task :: "uuid \<Rightarrow> uuid \<Rightarrow> uuid \<Rightarrow> locked_worker_task txn" where
  "lock_worker_task tenant run_id task_id =
    bindT (\<lambda>db. liftT (ok_or (find_run tenant run_id db)
              (store_error_of NotFound ''run was not found'')) db) (\<lambda>run.
    bindT (\<lambda>db. liftT (ok_or (find_task tenant task_id db)
              (store_error_of NotFound ''task was not found'')) db) (\<lambda>task.
    returnT \<lparr> lw_run = run, lw_task = task \<rparr>))"

text \<open>\<open>i64::try_from(expected).ok() != Some(actual)\<close> on an optional expectation.\<close>

definition expectation_changed :: "nat option \<Rightarrow> int \<Rightarrow> bool" where
  "expectation_changed expected actual \<longleftrightarrow>
     (case expected of None \<Rightarrow> False | Some e \<Rightarrow> i64_try_from e \<noteq> Some actual)"

definition validate_worker_fences ::
  "expected_run \<Rightarrow> lease_proof \<Rightarrow> locked_worker_task \<Rightarrow> micros \<Rightarrow> string \<Rightarrow> unit store_result" where
  "validate_worker_fences expected lease locked now operation =
    (let run = lw_run locked; task = lw_task locked in
     if t_run task \<noteq> er_run_id expected
       then Inl (store_error_of NotFound ''task belongs to another run'')
     else if t_status task \<noteq> TaskLeased
       then Inl (store_error_of LeaseLost ''task is not leased'')
     else if r_status run = RunPaused
       then Inl (store_error_of InvalidTransition (''paused run rejects task '' @ operation))
     else if run_terminal (r_status run)
       then Inl (store_error_of TerminalRun ''run is terminal'')
     else if expectation_changed (er_version expected) (r_version run)
       then Inl (store_error_of VersionConflict ''run version changed'')
     else if expectation_changed (er_execution_generation expected) (r_generation run)
       then Inl (store_error_of VersionConflict ''run execution generation changed'')
     else bindR (to_i64 (lp_execution_generation lease) ''lease generation'') (\<lambda>lease_generation.
       if lease_generation \<noteq> r_generation run \<or> lease_generation \<noteq> t_generation task
         then Inl (store_error_of VersionConflict ''execution generation changed'')
       else if t_lease_owner task \<noteq> Some (lp_worker_id lease)
               \<or> t_lease_token task \<noteq> Some (lp_token lease)
         then Inl (store_error_of LeaseLost ''task lease proof does not match'')
       else if (case t_lease_expires_at task of None \<Rightarrow> True | Some expires \<Rightarrow> expires \<le> now)
         then Inl (store_error_of LeaseExpired ''task lease expired'')
       else Inr ()))"

text \<open>What the fences establish.\<close>

lemma validate_worker_fences_Inr:
  "validate_worker_fences expected lease locked now op = Inr () \<longleftrightarrow>
     t_run (lw_task locked) = er_run_id expected \<and> t_status (lw_task locked) = TaskLeased
     \<and> r_status (lw_run locked) \<noteq> RunPaused \<and> \<not> run_terminal (r_status (lw_run locked))
     \<and> \<not> expectation_changed (er_version expected) (r_version (lw_run locked))
     \<and> \<not> expectation_changed (er_execution_generation expected) (r_generation (lw_run locked))
     \<and> int (lp_execution_generation lease) \<le> i64_max
     \<and> r_generation (lw_run locked) = int (lp_execution_generation lease)
     \<and> t_generation (lw_task locked) = int (lp_execution_generation lease)
     \<and> t_lease_owner (lw_task locked) = Some (lp_worker_id lease)
     \<and> t_lease_token (lw_task locked) = Some (lp_token lease)
     \<and> (\<exists>expires. t_lease_expires_at (lw_task locked) = Some expires \<and> now < expires)"
  by (auto simp: validate_worker_fences_def Let_def result_iffs not_le
      split: if_splits option.splits)

lemma lock_worker_task_iff [txn_iffs]:
  "lock_worker_task tenant run_id task_id db = Inr (l, db') \<longleftrightarrow>
     db' = db \<and> find_run tenant run_id db = Some (lw_run l)
     \<and> find_task tenant task_id db = Some (lw_task l)"
  by (cases l) (auto simp: lock_worker_task_def txn_iffs ok_or_Inr_iff)

section \<open>Renewing\<close>

definition claimed_task_of ::
  "externals \<Rightarrow> uuid \<Rightarrow> locked_worker_task \<Rightarrow> micros \<Rightarrow> claimed_task store_result" where
  "claimed_task_of ext tenant locked expires =
    (let task = lw_task locked in
    bindR (case parse_logical_key (t_key task) of
             Inl _ \<Rightarrow> Inl (inconsistent ''database contains an invalid task logical key'')
           | Inr k \<Rightarrow> Inr k) (\<lambda>key.
    bindR (nonnegative_u64 (t_generation task) ''task generation'') (\<lambda>generation.
    bindR (positive_u32 (t_attempt task) ''task attempt'') (\<lambda>attempt.
    bindR (positive_u32 (t_max_attempts task) ''task max attempts'') (\<lambda>max_attempts.
    bindR (nonnegative_u64 (r_version (lw_run locked)) ''Run version'') (\<lambda>run_version.
    Inr \<lparr> ct_task = \<lparr> ts_tenant_id = tenant, ts_task_id = t_id task, ts_run_id = t_run task,
            ts_stage_execution_id = t_stage task, ts_logical_key = key, ts_kind = t_kind task,
            ts_status = TaskLeased, ts_generation = generation, ts_attempt = attempt,
            ts_max_attempts = max_attempts, ts_available_at = t_available_at task,
            ts_input = ext_to_vec ext (t_input task) \<rparr>,
          ct_run_version = run_version, ct_lease_expires_at = expires \<rparr>))))))"

definition duplicate_renewal ::
  "externals \<Rightarrow> command_context \<Rightarrow> stored_outcome \<Rightarrow> uuid option
   \<Rightarrow> claimed_task committed store_result" where
  "duplicate_renewal ext ctx outcome event =
    bindR (decode_claim_receipt ext (cc_tenant_id ctx) outcome) (\<lambda>result.
    bindR (ok_or result (inconsistent ''renewal receipt has no claimed task'')) (\<lambda>value.
    Inr \<lparr> disposition = Duplicate, committed_value = value,
       event_ids = (case event of None \<Rightarrow> [] | Some e \<Rightarrow> [e]), durable_follow_ups = [],
       post_commit_hints = [] \<rparr>))"

text \<open>The task that \<open>locked\<close> holds, still leased to the same owner with the token of the command.\<close>

definition still_leased :: "uuid \<Rightarrow> locked_worker_task \<Rightarrow> lease_token \<Rightarrow> task_row \<Rightarrow> bool" where
  "still_leased tenant locked token t \<longleftrightarrow>
     t_tenant t = tenant \<and> t_run t = t_run (lw_task locked) \<and> t_id t = t_id (lw_task locked)
     \<and> t_status t = TaskLeased
     \<and> t_lease_owner t \<noteq> None \<and> t_lease_owner t = t_lease_owner (lw_task locked)
     \<and> t_lease_token t = Some token"

definition open_attempt :: "uuid \<Rightarrow> uuid \<Rightarrow> int \<Rightarrow> attempt_row \<Rightarrow> bool" where
  "open_attempt tenant task attempt a \<longleftrightarrow>
     a_tenant a = tenant \<and> a_task a = task \<and> a_attempt a = attempt \<and> a_finished_at a = None"

definition renew_locked_task ::
  "externals \<Rightarrow> command_context \<Rightarrow> renew_task_lease_command \<Rightarrow> micros \<Rightarrow> claimed_task committed txn" where
  "renew_locked_task ext ctx cmd now =
    (let tenant = cc_tenant_id ctx; lease = rtl_lease cmd in
    bindT (lock_worker_task tenant (er_run_id (rtl_expected_run cmd)) (lp_task_id lease)) (\<lambda>locked.
    thenT (liftT (validate_worker_fences (rtl_expected_run cmd) lease locked now ''renewal''))
    (bindT (liftT (to_i64 (rtl_extension cmd) ''lease extension'')) (\<lambda>extension.
    bindT (liftT (ok_or (Option.bind (t_lease_expires_at (lw_task locked))
                           (\<lambda>expires. checked_add_i64 expires extension))
                    (invalid_command ''lease expiry overflow''))) (\<lambda>expires.
    bindT (update_tasks (still_leased tenant locked (lp_token lease))
             (\<lambda>t. t\<lparr>t_lease_expires_at := Some expires, t_updated_at := now\<rparr>)) (\<lambda>task_updated.
    thenT (guardT (task_updated = 1)
             (store_error_of LeaseLost ''task lease changed during renewal''))
    (bindT (update_attempts (open_attempt tenant (t_id (lw_task locked)) (t_attempt (lw_task locked)))
             (\<lambda>a. a\<lparr>a_lease_expires_at := expires\<rparr>)) (\<lambda>attempt_updated.
    thenT (guardT (attempt_updated = 1)
             (inconsistent ''leased task has no open matching attempt''))
    (bindT (liftT (claimed_task_of ext tenant locked expires)) (\<lambda>value.
    bindT (liftT (encode_claim_receipt ext (Some value))) (\<lambda>outcome.
    thenT (finish_receipt ctx ReceiptApplied outcome None
             (Some (''task'', t_id (lw_task locked), t_attempt (lw_task locked))))
    (returnT \<lparr> disposition = Applied, committed_value = value, event_ids = [],
       durable_follow_ups = [], post_commit_hints = [] \<rparr>))))))))))))"

definition renew_task_lease ::
  "externals \<Rightarrow> nat \<Rightarrow> command_context \<Rightarrow> renew_task_lease_command \<Rightarrow> micros
   \<Rightarrow> claimed_task committed txn" where
  "renew_task_lease ext ttl ctx cmd now =
    thenT (guardT (rtl_extension cmd \<noteq> 0) (invalid_command ''lease extension must be positive''))
    (with_receipt ctx now ttl (duplicate_renewal ext ctx) (renew_locked_task ext ctx cmd now))"

section \<open>Reclaiming an expired lease\<close>

text \<open>The run locked by an event, with the sequence of its current checkpoint.\<close>

record locked_event_run =
  le_run :: run_row
  le_checkpoint_sequence :: "int option"

definition lock_event_run :: "uuid \<Rightarrow> uuid \<Rightarrow> locked_event_run txn" where
  "lock_event_run tenant run_id db =
    (case find_run tenant run_id db of
       None \<Rightarrow> Inl (store_error_of NotFound ''run was not found'')
     | Some run \<Rightarrow> Inr (\<lparr> le_run = run,
         le_checkpoint_sequence = map_option c_seq
           (find (\<lambda>c. c_tenant c = tenant \<and> c_run c = run_id \<and> Some (c_id c) = r_checkpoint run)
             (db_checkpoints db)) \<rparr>, db))"

lemma lock_event_run_iff [txn_iffs]:
  "lock_event_run tenant run_id db = Inr (l, db') \<longleftrightarrow>
     db' = db \<and> find_run tenant run_id db = Some (le_run l)
     \<and> le_checkpoint_sequence l = map_option c_seq
         (find (\<lambda>c. c_tenant c = tenant \<and> c_run c = run_id \<and> Some (c_id c) = r_checkpoint (le_run l))
           (db_checkpoints db))"
  by (cases l) (auto simp: lock_event_run_def split: option.splits)

lemma lock_event_run_eval [txn_eval]:
  "bindT (lock_event_run tenant run_id) k db =
    (case find_run tenant run_id db of
       None \<Rightarrow> Inl (store_error_of NotFound ''run was not found'')
     | Some run \<Rightarrow> k \<lparr> le_run = run,
         le_checkpoint_sequence = map_option c_seq
           (find (\<lambda>c. c_tenant c = tenant \<and> c_run c = run_id \<and> Some (c_id c) = r_checkpoint run)
             (db_checkpoints db)) \<rparr> db)"
  by (simp add: bindT_def lock_event_run_def split: option.split)

definition run_at :: "uuid \<Rightarrow> uuid \<Rightarrow> int \<Rightarrow> int \<Rightarrow> run_row \<Rightarrow> bool" where
  "run_at tenant run version generation r \<longleftrightarrow>
     r_tenant r = tenant \<and> r_id r = run \<and> r_version r = version \<and> r_generation r = generation"

definition advance_run_event_batch ::
  "uuid \<Rightarrow> uuid \<Rightarrow> int \<Rightarrow> int \<Rightarrow> int \<Rightarrow> run_status \<Rightarrow> micros \<Rightarrow> unit txn" where
  "advance_run_event_batch tenant run version generation next_seq status now =
    thenT (\<lambda>db. guardT (increments_in_range (run_at tenant run version generation) r_version
                         (db_runs db)) bigint_out_of_range db)
    (bindT (update_runs (run_at tenant run version generation)
             (\<lambda>r. r\<lparr>r_version := r_version r + 1, r_next_seq := next_seq, r_status := status,
                    r_updated_at := now\<rparr>)) (\<lambda>updated.
     guardT (updated = 1)
       (store_error_of VersionConflict ''run changed while appending an Agent event batch'')))"

text \<open>The first expired lease of a live run, \<open>ORDER BY lease_expires_at, task_id\<close>.\<close>

definition expired_lease :: "micros \<Rightarrow> task_row \<Rightarrow> bool" where
  "expired_lease now t \<longleftrightarrow> t_status t = TaskLeased
     \<and> (case t_lease_expires_at t of None \<Rightarrow> False | Some expires \<Rightarrow> expires \<le> now)"

definition expired_lease_candidate :: "uuid \<Rightarrow> micros \<Rightarrow> db \<Rightarrow> (uuid \<times> uuid) option" where
  "expired_lease_candidate tenant now db =
    (case sort_key (\<lambda>t. (case t_lease_expires_at t of None \<Rightarrow> 0 | Some expires \<Rightarrow> expires, t_id t))
            (filter (\<lambda>t. t_tenant t = tenant \<and> expired_lease now t
                 \<and> (case find_run tenant (t_run t) db of
                      None \<Rightarrow> False | Some r \<Rightarrow> r_terminal_event r = None)) (db_tasks db)) of
       [] \<Rightarrow> None
     | t # _ \<Rightarrow> Some (t_run t, t_id t))"

definition lease_expiry_action_of :: "task_row \<Rightarrow> lease_expiry_action" where
  "lease_expiry_action_of t =
     (if t_attempt t < t_max_attempts t then LeaseRetryScheduled else LeaseDeadLettered)"

definition reclaimed_task_status :: "lease_expiry_action \<Rightarrow> task_status" where
  "reclaimed_task_status action = (case action of
     LeaseRetryScheduled \<Rightarrow> TaskRetryScheduled | LeaseDeadLettered \<Rightarrow> TaskDeadLettered)"

definition reclaimed_event_type :: "lease_expiry_action \<Rightarrow> string" where
  "reclaimed_event_type action = (case action of
     LeaseRetryScheduled \<Rightarrow> ''task.lease_expired'' | LeaseDeadLettered \<Rightarrow> ''task.dead_lettered'')"

definition reclaimed_run_status :: "lease_expiry_action \<Rightarrow> run_status" where
  "reclaimed_run_status action = (case action of
     LeaseRetryScheduled \<Rightarrow> RunRetrying | LeaseDeadLettered \<Rightarrow> RunWaiting)"

definition reclaim_task :: "lease_expiry_action \<Rightarrow> int \<Rightarrow> micros \<Rightarrow> task_row \<Rightarrow> task_row" where
  "reclaim_task action generation now t = t\<lparr>t_status := reclaimed_task_status action,
     t_generation := generation, t_available_at := now, t_lease_owner := None,
     t_lease_token := None, t_lease_expires_at := None, t_error_code := Some ''lease_expired'',
     t_completed_at := (if action = LeaseDeadLettered then Some now else None),
     t_updated_at := now\<rparr>"

text \<open>Setting a generation must not repeat a \<open>(run, logical_key, generation)\<close>.\<close>

definition task_slots_ok :: "db \<Rightarrow> bool" where
  "task_slots_ok db \<longleftrightarrow>
     distinct (map (\<lambda>t. (t_tenant t, t_run t, t_key t, t_generation t)) (db_tasks db))"

definition reclaim_event ::
  "command_context \<Rightarrow> uuid \<Rightarrow> locked_event_run \<Rightarrow> task_row \<Rightarrow> lease_expiry_action \<Rightarrow> micros
   \<Rightarrow> event_insert" where
  "reclaim_event ctx event_id run task action now =
    \<lparr> ei_event_id = event_id, ei_tenant_id = cc_tenant_id ctx, ei_run_id = r_id (le_run run),
      ei_sequence = r_next_seq (le_run run), ei_event_type = reclaimed_event_type action,
      ei_payload = JObject [(''task_id'', json_uuid (t_id task)),
        (''attempt'', JInt (t_attempt task)), (''max_attempts'', JInt (t_max_attempts task)),
        (''action'', JString (case action of LeaseRetryScheduled \<Rightarrow> ''retry_scheduled''
                                | LeaseDeadLettered \<Rightarrow> ''dead_lettered''))],
      ei_payload_schema_version = 1, ei_producer = ''scheduler'', ei_context = ctx,
      ei_correlation_id = cc_correlation_id ctx, ei_occurred_at = None, ei_recorded_at = now \<rparr>"

definition reclaim_none :: "command_context \<Rightarrow> lease_reclaim_outcome committed option txn" where
  "reclaim_none ctx =
    thenT (finish_receipt ctx ReceiptNoOp (encode_lease_reclaim_receipt None) None None) (returnT None)"

definition reclaim_locked_lease ::
  "command_context \<Rightarrow> uuid \<Rightarrow> micros \<Rightarrow> locked_event_run \<Rightarrow> task_row
   \<Rightarrow> lease_reclaim_outcome committed option txn" where
  "reclaim_locked_lease ctx event_id now run task =
    (let tenant = cc_tenant_id ctx; action = lease_expiry_action_of task in
    thenT (guardT (\<not> (t_attempt task \<le> 0 \<or> t_max_attempts task \<le> 0
                     \<or> t_attempt task > t_max_attempts task))
             (inconsistent ''expired Task Lease has invalid attempt metadata''))
    (bindT (update_tasks (\<lambda>t. t_tenant t = tenant \<and> t_id t = t_id task
                             \<and> t_attempt t = t_attempt task \<and> expired_lease now t)
             (reclaim_task action (r_generation (le_run run)) now)) (\<lambda>task_updated.
    thenT (\<lambda>db. guardT (task_slots_ok db) unique_violation db)
    (thenT (guardT (task_updated = 1)
             (store_error_of VersionConflict ''Task Lease changed during expiry reclamation''))
    (bindT (update_attempts (open_attempt tenant (t_id task) (t_attempt task))
             (\<lambda>a. a\<lparr>a_finished_at := Some now, a_outcome := Some AttemptLeaseExpired,
                    a_error_code := Some ''lease_expired''\<rparr>)) (\<lambda>attempt_updated.
    thenT (guardT (attempt_updated = 1)
             (inconsistent ''expired Task Lease has no open matching attempt''))
    (thenT (insert_event (reclaim_event ctx event_id run task action now))
    (bindT (liftT (checked_add_i64_or (r_next_seq (le_run run)) 1
             (inconsistent ''run event sequence overflow''))) (\<lambda>next_seq.
    thenT (advance_run_event_batch tenant (r_id (le_run run)) (r_version (le_run run))
             (r_generation (le_run run)) next_seq (reclaimed_run_status action) now)
    (bindT (liftT (positive_u32 (t_attempt task) ''Task attempt'')) (\<lambda>attempt.
    let value = \<lparr> lro_tenant_id = tenant, lro_run_id = r_id (le_run run), lro_task_id = t_id task,
                  lro_attempt = attempt, lro_action = action, lro_reclaimed_at = now \<rparr> in
    thenT (finish_receipt ctx ReceiptApplied (encode_lease_reclaim_receipt (Some value))
             (Some event_id) (Some (''task'', t_id task, t_attempt task)))
    (returnT (Some \<lparr> disposition = Applied, committed_value = value, event_ids = [event_id],
       durable_follow_ups = [],
       post_commit_hints = (if action = LeaseRetryScheduled then [WakeWorkers] else []) \<rparr>)))))))))))))"

definition duplicate_reclaim ::
  "command_context \<Rightarrow> stored_outcome \<Rightarrow> uuid option
   \<Rightarrow> lease_reclaim_outcome committed option store_result" where
  "duplicate_reclaim ctx outcome event =
    bindR (decode_lease_reclaim_receipt (cc_tenant_id ctx) outcome) (\<lambda>result.
    Inr (map_option (\<lambda>value. \<lparr> disposition = Duplicate, committed_value = value,
       event_ids = (case event of None \<Rightarrow> [] | Some e \<Rightarrow> [e]), durable_follow_ups = [],
       post_commit_hints = [] \<rparr>) result))"

definition reclaim_expired_lease ::
  "nat \<Rightarrow> concurrent_view \<Rightarrow> command_context \<Rightarrow> uuid \<Rightarrow> micros
   \<Rightarrow> lease_reclaim_outcome committed option txn" where
  "reclaim_expired_lease ttl view ctx reclaimed_event_id now =
    with_receipt ctx now ttl (duplicate_reclaim ctx)
     (case expired_lease_candidate (cc_tenant_id ctx) now (cv_scan view) of
        None \<Rightarrow> reclaim_none ctx
      | Some (run_id, task_id) \<Rightarrow>
          bindT (lock_event_run (cc_tenant_id ctx) run_id) (\<lambda>run.
          bindT (\<lambda>db. liftT (ok_or (find (\<lambda>t. t_tenant t = cc_tenant_id ctx \<and> t_run t = run_id
                                             \<and> t_id t = task_id) (db_tasks db))
                    (inconsistent ''expired Lease candidate disappeared'')) db) (\<lambda>task.
          if \<not> expired_lease now task then reclaim_none ctx
          else reclaim_locked_lease ctx reclaimed_event_id now run task)))"

section \<open>Effects\<close>

lemma activate_planned_stage_frame:
  assumes "activate_planned_stage tenant run stage now db = Inr (u, db')"
  obtains ss where "db' = db\<lparr>db_stages := ss\<rparr>"
proof (cases stage)
  case None
  then show ?thesis
    using assms that [of "db_stages db"] by (simp add: activate_planned_stage_def txn_iffs)
next
  case (Some s)
  then show ?thesis
    using assms that by (auto simp: activate_planned_stage_def txn_iffs Let_def)
qed

lemma claim_locked_task_effect:
  assumes "claim_locked_task ext ctx cmd now run task db = Inr (c, db')"
  defines "tenant \<equiv> cc_tenant_id ctx"
  obtains v generation max_attempts a where
    "generation = nat (t_generation task)" and "0 \<le> t_generation task"
    and "t_max_attempts task = int max_attempts" and "0 < max_attempts"
    and "int (ctc_lease_duration cmd) \<le> i64_max"
    and "db_tasks db' = sql_update (\<lambda>t. t_tenant t = tenant \<and> t_id t = t_id task)
           (lease_task cmd (t_attempt task + 1) (now + int (ctc_lease_duration cmd)) now) (db_tasks db)"
    and "db_runs db' = sql_update (\<lambda>r. r_tenant r = tenant \<and> r_id r = r_id run) (run_claimed now)
           (db_runs db)"
    and "updates_pass run_checks (\<lambda>r. r_tenant r = tenant \<and> r_id r = r_id run) (run_claimed now)
           (db_runs db)"
    and "db_events db' = db_events db @ [event_row_of (task_claimed_event ctx cmd run task
           (t_attempt task + 1) (now + int (ctc_lease_duration cmd)) now)]"
    and "db_outbox db' = db_outbox db @ [outbox_row_of (task_claimed_event ctx cmd run task
           (t_attempt task + 1) (now + int (ctc_lease_duration cmd)) now)]"
    and "db_attempts db' = db_attempts db @ [a]"
    and "a_tenant a = tenant" and "a_task a = t_id task" and "a_run a = r_id run"
    and "a_attempt a = t_attempt task + 1" and "a_worker a = ctc_worker_id cmd"
    and "a_token_digest a = ext_sha256 ext (be_bytes 32 (ctc_lease_token cmd))"
    and "a_lease_expires_at a = now + int (ctc_lease_duration cmd)"
    and "a_finished_at a = None" and "a_outcome a = None" and "a_error_code a = None"
    and "\<forall>b \<in> set (db_attempts db). a_id b \<noteq> a_id a
           \<and> \<not> (a_tenant b = tenant \<and> a_task b = t_id task \<and> a_attempt b = t_attempt task + 1)"
    and "1 \<le> t_attempt task + 1"
    and "claimed_task_value ext tenant run task generation (t_attempt task + 1) max_attempts
           (now + int (ctc_lease_duration cmd)) = Inr v"
    and "c = Some \<lparr> disposition = Applied, committed_value = v,
           event_ids = [cc_command_id ctx], durable_follow_ups = [],
           post_commit_hints = [RunEventsAvailable (r_id run), InvalidateRunCache (r_id run)] \<rparr>"
    and "db_waits db' = db_waits db" and "db_deps db' = db_deps db"
    and "db_checkpoints db' = db_checkpoints db" and "db_tools db' = db_tools db"
    and "db_agents db' = db_agents db"
  using assms(1)
  by (auto simp: claim_locked_task_def txn_iffs Let_def insert_task_attempt_def
      sql_exists_iff tenant_def nat_eq_iff
      elim!: finish_receipt_frame activate_planned_stage_frame intro: that)

text \<open>What locking a candidate finds.\<close>

definition lockable ::
  "concurrent_view \<Rightarrow> uuid \<Rightarrow> micros \<Rightarrow> task_kind option \<Rightarrow> db \<Rightarrow> run_row \<Rightarrow> task_row \<Rightarrow> bool" where
  "lockable view tenant now kind db run task \<longleftrightarrow>
     run \<in> set (db_runs db) \<and> r_tenant run = tenant \<and> accepts_task_claim (r_status run)
     \<and> \<not> cv_run_locked view (r_id run)
     \<and> task \<in> set (db_tasks db) \<and> t_tenant task = tenant \<and> t_run task = r_id run
     \<and> claimable_task now kind task \<and> t_generation task = r_generation run
     \<and> \<not> cv_task_locked view (t_id task)"

lemma lock_candidate_lockable:
  "lock_candidate view tenant now kind c db = Some (run, task)
   \<Longrightarrow> lockable view tenant now kind db run task \<and> t_id task = fst c \<and> r_id run = snd c"
  by (cases c) (auto simp: lock_candidate_def lockable_def dest!: find_Some_in split: option.splits)

lemma first_lockable_lockable:
  "first_lockable view tenant now kind cs db = Some (run, task)
   \<Longrightarrow> lockable view tenant now kind db run task \<and> (t_id task, r_id run) \<in> set cs"
proof (induction cs)
  case (Cons c cs)
  then show ?case by (cases c) (auto dest: lock_candidate_lockable split: option.splits)
qed simp

lemma lock_candidate_receipts [simp]:
  "lock_candidate view tenant now kind c (db\<lparr>db_receipts := rs\<rparr>) = lock_candidate view tenant now kind c db"
  by (cases c) (simp add: lock_candidate_def cong: option.case_cong)

lemma first_lockable_receipts [simp]:
  "first_lockable view tenant now kind cs (db\<lparr>db_receipts := rs\<rparr>) = first_lockable view tenant now kind cs db"
  by (induction cs) (simp_all cong: option.case_cong)

lemma claim_task_cases:
  assumes "claim_task ext ttl view ctx cmd now db = Inr (c, db')"
  obtains (replayed) outcome event where "db' = db" and "duplicate_claim ext ctx outcome event = Inr c"
    | (nothing) rs where "c = None" and "db' = db\<lparr>db_receipts := rs\<rparr>"
        and "first_lockable view (cc_tenant_id ctx) now (ctc_kind cmd)
               (claim_candidates (cc_tenant_id ctx) now (ctc_candidate_window cmd) (ctc_kind cmd)
                 (cv_scan view)) db = None"
        and "ctc_candidate_window cmd \<noteq> 0"
    | (claimed) run task rs where "first_lockable view (cc_tenant_id ctx) now (ctc_kind cmd)
               (claim_candidates (cc_tenant_id ctx) now (ctc_candidate_window cmd) (ctc_kind cmd)
                 (cv_scan view)) db = Some (run, task)"
        and "claim_locked_task ext ctx cmd now run task (db\<lparr>db_receipts := rs\<rparr>) = Inr (c, db')"
        and "ctc_candidate_window cmd \<noteq> 0" and "ctc_lease_duration cmd \<noteq> 0"
proof -
  from assms have pos: "ctc_lease_duration cmd \<noteq> 0 \<and> ctc_candidate_window cmd \<noteq> 0"
    and wr: "with_receipt ctx now ttl (duplicate_claim ext ctx)
      (bindT (lock_claim_candidate view (cc_tenant_id ctx) now (ctc_candidate_window cmd)
                (ctc_kind cmd)) (\<lambda>candidate. case candidate of
          None \<Rightarrow> thenT (finish_receipt ctx ReceiptNoOp StoredClaimNone None None) (returnT None)
        | Some (run, task) \<Rightarrow> claim_locked_task ext ctx cmd now run task)) db = Inr (c, db')"
    by (auto simp: claim_task_def txn_iffs)
  from wr show thesis
  proof (cases rule: with_receipt_cases)
    case replayed
    then show ?thesis using that(1) by blast
  next
    case fresh
    then show ?thesis
      using pos
      by (auto simp: txn_iffs lock_claim_candidate_def split: option.splits
          elim!: finish_receipt_frame intro: that(2,3))
  qed
qed

text \<open>A claim advances the run of the task.\<close>

lemma claim_locked_task_advances:
  assumes "claim_locked_task ext ctx cmd now run task db1 = Inr (c, db')"
    and "lockable view (cc_tenant_id ctx) now kind db run task" and "run_keys_ok db"
    and "db_runs db1 = db_runs db" and "db_events db1 = db_events db" and "db_outbox db1 = db_outbox db"
  shows "advances db db'"
proof -
  let ?P = "\<lambda>r. r_tenant r = cc_tenant_id ctx \<and> r_id r = r_id run"
  from assms(2) have run: "run \<in> set (db_runs db)" "r_tenant run = cc_tenant_id ctx"
      "\<not> run_terminal (r_status run)"
    by (auto simp: lockable_def dest: claim_not_terminal)
  have "sql_update ?P (run_claimed now) (db_runs db)
        = sql_update (same_run run) (\<lambda>_. run_claimed now run) (db_runs db)"
    by (rule sql_update_one_run [OF assms(3) run(1)]) (use run in \<open>auto simp: same_run_def\<close>)
  moreover obtain e where "db_runs db' = sql_update ?P (run_claimed now) (db_runs db1)"
      and pass: "updates_pass run_checks ?P (run_claimed now) (db_runs db1)"
      and "db_events db' = db_events db1 @ [event_row_of e]"
      and "db_outbox db' = db_outbox db1 @ [outbox_row_of e]"
      and "ei_tenant_id e = cc_tenant_id ctx" "ei_run_id e = r_id run" "ei_sequence e = r_next_seq run"
    using assms(1) by (rule claim_locked_task_effect) (rule that, assumption+, simp_all)
  moreover have "run_checks (run_claimed now run)"
    using updates_passD [OF pass, of run] run assms(4) by simp
  ultimately show ?thesis
    unfolding advances_def using run assms(4,5,6)
    by (intro exI [of _ run] exI [of _ "run_claimed now run"] exI [of _ e])
       (simp add: same_run_def run_claimed_def)
qed

lemma claim_task_effect:
  assumes "run_keys_ok db" and "claim_task ext ttl view ctx cmd now db = Inr (c, db')"
  shows "quiet db db' \<or> advances db db'"
  using assms(2)
proof (cases rule: claim_task_cases)
  case (claimed run task rs)
  from claimed(2) first_lockable_lockable [OF claimed(1)] assms(1)
  show ?thesis by (auto dest!: claim_locked_task_advances)
qed (auto simp: quiet_def)

text \<open>With distinct task ids, the update of a claim touches the claimed task only.\<close>

lemma sql_update_one_task:
  assumes "task_keys_ok db" and "t \<in> set (db_tasks db)" and "P t" and "\<And>u. P u \<Longrightarrow> t_id u = t_id t"
  shows "sql_update P f (db_tasks db) = map (\<lambda>u. if u = t then f t else u) (db_tasks db)"
proof -
  have same: "u = t" if "u \<in> set (db_tasks db)" and "P u" for u
    using assms(1) that(1) assms(2) assms(4) [OF that(2)]
    unfolding task_keys_ok_def by (rule distinct_map_inj)
  have "(if P u then f u else u) = (if u = t then f t else u)" if "u \<in> set (db_tasks db)" for u
    using same [OF that] assms(3) by (cases "P u") auto
  then show ?thesis by (simp add: sql_update_def)
qed

text \<open>
  C5: a claim that is applied leases one task of the tenant that was queued or due for retry,
  available, before its deadline, with attempts left, of the wanted kind, of a run that accepts
  claims and of that run's generation, whatever the scan saw. The task goes to the worker of the
  command until the lease duration has passed, its attempt number grows by one, an open attempt is
  recorded for it, every other task is unchanged and the run advances by one event.
\<close>

theorem claim_task_leases_one_claimable_task:
  assumes "run_keys_ok db" and "task_keys_ok db"
    and "claim_task ext ttl view ctx cmd now db = Inr (Some c, db')" and "disposition c = Applied"
  shows "\<exists>run task a. lockable view (cc_tenant_id ctx) now (ctc_kind cmd) db run task
     \<and> db_tasks db' = map (\<lambda>u. if u = task
          then lease_task cmd (t_attempt task + 1) (now + int (ctc_lease_duration cmd)) now task
          else u) (db_tasks db)
     \<and> 0 < ctc_lease_duration cmd
     \<and> ts_task_id (ct_task (committed_value c)) = t_id task
     \<and> int (ts_attempt (ct_task (committed_value c))) = t_attempt task + 1
     \<and> ct_lease_expires_at (committed_value c) = now + int (ctc_lease_duration cmd)
     \<and> db_attempts db' = db_attempts db @ [a]
     \<and> open_attempt (cc_tenant_id ctx) (t_id task) (t_attempt task + 1) a
     \<and> a_worker a = ctc_worker_id cmd
     \<and> advances db db'"
  using assms(3)
proof (cases rule: claim_task_cases)
  case (replayed outcome event)
  then have "disposition c = Duplicate" by (auto simp: duplicate_claim_def result_iffs)
  then show ?thesis using assms(4) by simp
next
  case nothing
  then show ?thesis by simp
next
  case (claimed run task rs)
  note lock = first_lockable_lockable [OF claimed(1), THEN conjunct1]
  then have task: "task \<in> set (db_tasks db)" "t_tenant task = cc_tenant_id ctx"
    by (auto simp: lockable_def)
  have adv: "advances db db'"
    using claim_locked_task_advances [OF claimed(2) lock assms(1)] by simp
  have upd: "sql_update (\<lambda>t. t_tenant t = cc_tenant_id ctx \<and> t_id t = t_id task) f (db_tasks db)
      = map (\<lambda>u. if u = task then f task else u) (db_tasks db)" for f
    by (rule sql_update_one_task [OF assms(2)]) (use task in auto)
  from claimed(2) show ?thesis
  proof (rule claim_locked_task_effect)
    fix v generation max_attempts a
    assume eff: "db_tasks db' = sql_update (\<lambda>t. t_tenant t = cc_tenant_id ctx \<and> t_id t = t_id task)
           (lease_task cmd (t_attempt task + 1) (now + int (ctc_lease_duration cmd)) now)
           (db_tasks (db\<lparr>db_receipts := rs\<rparr>))"
      and att: "db_attempts db' = db_attempts (db\<lparr>db_receipts := rs\<rparr>) @ [a]"
        "a_tenant a = cc_tenant_id ctx" "a_task a = t_id task" "a_attempt a = t_attempt task + 1"
        "a_worker a = ctc_worker_id cmd" "a_finished_at a = None"
      and v: "claimed_task_value ext (cc_tenant_id ctx) run task generation (t_attempt task + 1)
           max_attempts (now + int (ctc_lease_duration cmd)) = Inr v"
      and c: "Some c = Some \<lparr> disposition = Applied, committed_value = v,
           event_ids = [cc_command_id ctx], durable_follow_ups = [],
           post_commit_hints = [RunEventsAvailable (r_id run), InvalidateRunCache (r_id run)] \<rparr>"
    have "ts_task_id (ct_task v) = t_id task" and "int (ts_attempt (ct_task v)) = t_attempt task + 1"
      and "ct_lease_expires_at v = now + int (ctc_lease_duration cmd)"
      using v by (auto simp: claimed_task_value_def result_iffs)
    then show ?thesis
      using lock adv eff att c upd claimed(4)
      by (intro exI [of _ run] exI [of _ task] exI [of _ a]) (auto simp: open_attempt_def)
  qed
qed

definition sample_view :: concurrent_view where
  "sample_view = \<lparr> cv_scan = sample_db, cv_run_locked = (\<lambda>_. False), cv_task_locked = (\<lambda>_. False) \<rparr>"

definition sample_claim :: claim_task_command where
  "sample_claim = \<lparr> ctc_worker_id = 20, ctc_lease_token = 99, ctc_lease_duration = 30,
     ctc_candidate_window = 5, ctc_kind = None \<rparr>"

lemma sample_keys: "run_keys_ok sample_db" "task_keys_ok sample_db"
  by (simp_all add: run_keys_ok_def task_keys_ok_def sample_defs)

lemmas claim_eval = claim_task_def lock_claim_candidate_def claim_candidates_def claimable_task_def
  claimable_status_def accepts_task_claim_def lock_candidate_def claim_locked_task_def lease_task_def
  activate_planned_stage_def insert_task_attempt_def run_claimed_def claimed_task_value_def
  task_claimed_event_def parse_logical_key_def key_parse_def encode_claim_receipt_def
  json_value_def Let_def status_sets

lemma sample_claim_applies:
  "\<exists>c db'. claim_task sample_ext 1000 sample_view (sample_context 70 ''c1'') sample_claim 100 sample_db
     = Inr (Some c, db') \<and> disposition c = Applied"
  by (simp add: sample_view_def sample_claim_def sample_defs claim_eval txn_eval)

theorem claim_task_leases_one_claimable_task_witness:
  "\<exists>c db'. claim_task sample_ext 1000 sample_view (sample_context 70 ''c1'') sample_claim 100 sample_db
       = Inr (Some c, db')
     \<and> (\<exists>run task a. lockable sample_view 7 100 None sample_db run task
          \<and> db_attempts db' = db_attempts sample_db @ [a])"
proof -
  obtain c db' where run: "claim_task sample_ext 1000 sample_view (sample_context 70 ''c1'')
        sample_claim 100 sample_db = Inr (Some c, db')" and "disposition c = Applied"
    using sample_claim_applies by blast
  from claim_task_leases_one_claimable_task [OF sample_keys this] run
  show ?thesis by (auto simp: sample_context_def sample_claim_def)
qed

section \<open>Which task is claimed\<close>

definition eligible :: "uuid \<Rightarrow> micros \<Rightarrow> task_kind option \<Rightarrow> db \<Rightarrow> task_row \<Rightarrow> bool" where
  "eligible tenant now kind db t \<longleftrightarrow> t \<in> set (db_tasks db) \<and> t_tenant t = tenant
     \<and> claimable_task now kind t
     \<and> (\<exists>r \<in> set (db_runs db). r_tenant r = tenant \<and> r_id r = t_run t
          \<and> accepts_task_claim (r_status r) \<and> t_generation t = r_generation r)"

definition undisturbed :: "concurrent_view \<Rightarrow> db \<Rightarrow> bool" where
  "undisturbed view db \<longleftrightarrow> cv_scan view = db
     \<and> (\<forall>i. \<not> cv_run_locked view i) \<and> (\<forall>i. \<not> cv_task_locked view i)"

lemma find_run_unique:
  assumes "run_keys_ok db" and "r \<in> set (db_runs db)" and "r_tenant r = tenant" and "r_id r = i"
  shows "find_run tenant i db = Some r"
proof -
  have "find (\<lambda>q. r_tenant q = tenant \<and> r_id q = i) rows = Some r"
    if "distinct (map r_id rows)" "r \<in> set rows" for rows
    using that assms(3,4) by (induction rows) (auto simp: image_iff)
  then show ?thesis using assms(1,2) by (simp add: find_run_def run_keys_ok_def)
qed

lemma find_task_unique:
  assumes "task_keys_ok db" and "t \<in> set (db_tasks db)" and "P t" and "\<And>u. P u \<Longrightarrow> t_id u = t_id t"
  shows "find P (db_tasks db) = Some t"
proof (cases "find P (db_tasks db)")
  case None
  then show ?thesis using assms(2,3) by (auto simp: find_None_ball)
next
  case (Some u)
  then have u: "u \<in> set (db_tasks db)" "P u" by (auto dest: find_Some_in)
  have "u = t"
    using assms(1) u(1) assms(2) assms(4) [OF u(2)]
    unfolding task_keys_ok_def by (rule distinct_map_inj)
  then show ?thesis using Some by simp
qed

lemma eligible_lockable:
  assumes "eligible tenant now kind db t" and "run_keys_ok db" and "task_keys_ok db"
    and "undisturbed view db"
  shows "\<exists>run. lock_candidate view tenant now kind (t_id t, t_run t) db = Some (run, t)"
proof -
  from assms(1) obtain r where r: "r \<in> set (db_runs db)" "r_tenant r = tenant" "r_id r = t_run t"
      "accepts_task_claim (r_status r)" "t_generation t = r_generation r"
      and t: "t \<in> set (db_tasks db)" "t_tenant t = tenant" "claimable_task now kind t"
    by (auto simp: eligible_def)
  have "find (\<lambda>q. r_tenant q = tenant \<and> r_id q = t_run t \<and> accepts_task_claim (r_status q)
          \<and> \<not> cv_run_locked view (r_id q)) rows = Some r"
    if "distinct (map r_id rows)" "r \<in> set rows" for rows
    using that r assms(4) by (induction rows) (auto simp: image_iff undisturbed_def)
  then have "find (\<lambda>q. r_tenant q = tenant \<and> r_id q = t_run t \<and> accepts_task_claim (r_status q)
          \<and> \<not> cv_run_locked view (r_id q)) (db_runs db) = Some r"
    using assms(2) r(1) by (simp add: run_keys_ok_def)
  moreover have "find (\<lambda>u. t_tenant u = tenant \<and> t_run u = t_run t \<and> t_id u = t_id t
          \<and> claimable_task now kind u \<and> t_generation u = r_generation r
          \<and> \<not> cv_task_locked view (t_id u)) (db_tasks db) = Some t"
    by (rule find_task_unique [OF assms(3) t(1)]) (use t r assms(4) in \<open>auto simp: undisturbed_def\<close>)
  ultimately show ?thesis by (simp add: lock_candidate_def)
qed

lemma claim_candidates_eligible:
  assumes "run_keys_ok db"
  shows "claim_candidates tenant now window kind db =
    map (\<lambda>t. (t_id t, t_run t)) (take window (sort_key claim_rank_of
      (filter (eligible tenant now kind db) (db_tasks db))))"
proof -
  have "filter (\<lambda>t. t_tenant t = tenant \<and> claimable_task now kind t
              \<and> (case find_run tenant (t_run t) db of
                   None \<Rightarrow> False
                 | Some r \<Rightarrow> accepts_task_claim (r_status r) \<and> t_generation t = r_generation r))
            (db_tasks db) = filter (eligible tenant now kind db) (db_tasks db)"
  proof (rule filter_cong [OF refl])
    fix t assume "t \<in> set (db_tasks db)"
    then show "(t_tenant t = tenant \<and> claimable_task now kind t
              \<and> (case find_run tenant (t_run t) db of
                   None \<Rightarrow> False
                 | Some r \<Rightarrow> accepts_task_claim (r_status r) \<and> t_generation t = r_generation r))
           = eligible tenant now kind db t"
      using find_run_unique [OF assms] find_run_Some [of tenant "t_run t" db]
      by (fastforce simp: eligible_def split: option.splits)
  qed
  then show ?thesis by (simp add: claim_candidates_def)
qed

lemma first_lockable_first:
  assumes "run_keys_ok db" and "task_keys_ok db" and "undisturbed view db" and "window \<noteq> 0"
  shows "(case first_lockable view tenant now kind
            (claim_candidates tenant now window kind (cv_scan view)) db of
        None \<Rightarrow> \<forall>t. \<not> eligible tenant now kind db t
      | Some (run, t) \<Rightarrow> eligible tenant now kind db t
          \<and> (\<forall>u. eligible tenant now kind db u \<longrightarrow> claim_rank_of t \<le> claim_rank_of u))"
proof -
  let ?E = "filter (eligible tenant now kind db) (db_tasks db)"
  have scan: "claim_candidates tenant now window kind (cv_scan view)
      = map (\<lambda>t. (t_id t, t_run t)) (take window (sort_key claim_rank_of ?E))"
    using assms(1,3) by (simp add: undisturbed_def claim_candidates_eligible)
  show ?thesis
  proof (cases "sort_key claim_rank_of ?E")
    case Nil
    then have "set ?E = {}" by (metis set_empty set_sort)
    then show ?thesis
      using scan Nil by (auto simp: eligible_def filter_empty_conv)
  next
    case (Cons t ts)
    then have "t \<in> set (sort_key claim_rank_of ?E)" by simp
    then have t: "eligible tenant now kind db t" by simp
    obtain w where w: "window = Suc w" using assms(4) by (cases window) auto
    obtain run where "lock_candidate view tenant now kind (t_id t, t_run t) db = Some (run, t)"
      using eligible_lockable [OF t assms(1,2,3)] by blast
    then have first: "first_lockable view tenant now kind
            (claim_candidates tenant now window kind (cv_scan view)) db = Some (run, t)"
      using scan Cons w by simp
    have "sorted (map claim_rank_of (t # ts))"
      using sorted_sort_key [of claim_rank_of ?E] Cons by simp
    then have "claim_rank_of t \<le> claim_rank_of u" if "u \<in> set (t # ts)" for u
      using that by auto
    moreover have "u \<in> set (t # ts)" if "eligible tenant now kind db u" for u
    proof -
      have "u \<in> set ?E" using that by (simp add: eligible_def)
      then have "u \<in> set (sort_key claim_rank_of ?E)" by simp
      then show ?thesis using Cons by simp
    qed
    ultimately show ?thesis using first t by simp
  qed
qed

text \<open>
  C36: when its scan is current and no row is locked by others, a claim that is not a replay takes
  an eligible task of the best rank (highest priority, then earliest availability, then smallest
  id), and answers with no task only when no task of the tenant is eligible.
\<close>

theorem claim_task_takes_best_eligible:
  assumes "run_keys_ok db" and "task_keys_ok db" and "undisturbed view db"
    and "\<forall>r \<in> set (db_receipts db). \<not> receipt_of ctx r"
    and "claim_task ext ttl view ctx cmd now db = Inr (c, db')"
  shows "case c of
      None \<Rightarrow> \<forall>t. \<not> eligible (cc_tenant_id ctx) now (ctc_kind cmd) db t
    | Some claimed \<Rightarrow> \<exists>t. eligible (cc_tenant_id ctx) now (ctc_kind cmd) db t
        \<and> ts_task_id (ct_task (committed_value claimed)) = t_id t
        \<and> (\<forall>u. eligible (cc_tenant_id ctx) now (ctc_kind cmd) db u
              \<longrightarrow> claim_rank_of t \<le> claim_rank_of u)"
proof -
  note first = first_lockable_first [OF assms(1-3), of "ctc_candidate_window cmd" "cc_tenant_id ctx"
      now "ctc_kind cmd"]
  from assms(5) have wr: "with_receipt ctx now ttl (duplicate_claim ext ctx)
      (bindT (lock_claim_candidate view (cc_tenant_id ctx) now (ctc_candidate_window cmd)
                (ctc_kind cmd)) (\<lambda>candidate. case candidate of
          None \<Rightarrow> thenT (finish_receipt ctx ReceiptNoOp StoredClaimNone None None) (returnT None)
        | Some (run, task) \<Rightarrow> claim_locked_task ext ctx cmd now run task)) db = Inr (c, db')"
    and window: "ctc_candidate_window cmd \<noteq> 0"
    by (auto simp: claim_task_def txn_iffs)
  show ?thesis
    using wr
  proof (cases rule: with_receipt_cases)
    case (replayed r)
    then show ?thesis using assms(4) by blast
  next
    case fresh
    let ?pick = "first_lockable view (cc_tenant_id ctx) now (ctc_kind cmd)
        (claim_candidates (cc_tenant_id ctx) now (ctc_candidate_window cmd) (ctc_kind cmd)
          (cv_scan view)) db"
    show ?thesis
    proof (cases ?pick)
      case None
      then have "c = None" using fresh(2) by (auto simp: txn_iffs lock_claim_candidate_def)
      then show ?thesis using first [OF window] None by simp
    next
      case (Some rt)
      obtain run t where rt: "rt = (run, t)" by (cases rt)
      then have "claim_locked_task ext ctx cmd now run t
          (db\<lparr>db_receipts := db_receipts db @ [new_receipt ctx now (int ttl)]\<rparr>) = Inr (c, db')"
        using fresh(2) Some by (auto simp: txn_iffs lock_claim_candidate_def)
      then obtain v where "c = Some \<lparr> disposition = Applied, committed_value = v,
           event_ids = [cc_command_id ctx], durable_follow_ups = [],
           post_commit_hints = [RunEventsAvailable (r_id run), InvalidateRunCache (r_id run)] \<rparr>"
          and "ts_task_id (ct_task v) = t_id t"
        by (rule claim_locked_task_effect) (rule that, assumption, auto simp: claimed_task_value_def result_iffs)
      then show ?thesis using first [OF window] Some rt by auto
    qed
  qed
qed

theorem claim_task_takes_best_eligible_witness:
  "\<exists>c db'. claim_task sample_ext 1000 sample_view (sample_context 70 ''c1'') sample_claim 100 sample_db
       = Inr (Some c, db')
     \<and> (\<exists>t. eligible 7 100 None sample_db t
          \<and> ts_task_id (ct_task (committed_value c)) = t_id t
          \<and> (\<forall>u. eligible 7 100 None sample_db u \<longrightarrow> claim_rank_of t \<le> claim_rank_of u))"
proof -
  obtain c db' where run: "claim_task sample_ext 1000 sample_view (sample_context 70 ''c1'')
        sample_claim 100 sample_db = Inr (Some c, db')"
    using sample_claim_applies by blast
  have "undisturbed sample_view sample_db" by (simp add: undisturbed_def sample_view_def)
  moreover have "\<forall>r \<in> set (db_receipts sample_db). \<not> receipt_of (sample_context 70 ''c1'') r"
    by (simp add: sample_defs)
  ultimately show ?thesis
    using claim_task_takes_best_eligible [OF sample_keys _ _ run] run
    by (auto simp: sample_context_def sample_claim_def)
qed

section \<open>What a renewal changes\<close>

lemma renew_task_lease_cases:
  assumes "renew_task_lease ext ttl ctx cmd now db = Inr (c, db')"
  obtains (replayed) outcome event where "db' = db" and "duplicate_renewal ext ctx outcome event = Inr c"
    | (renewed) rs where "rtl_extension cmd \<noteq> 0"
        and "renew_locked_task ext ctx cmd now (db\<lparr>db_receipts := rs\<rparr>) = Inr (c, db')"
proof -
  from assms have "rtl_extension cmd \<noteq> 0"
    and "with_receipt ctx now ttl (duplicate_renewal ext ctx) (renew_locked_task ext ctx cmd now) db
         = Inr (c, db')"
    by (auto simp: renew_task_lease_def txn_iffs)
  from this(2) show thesis
    by (cases rule: with_receipt_cases) (use \<open>rtl_extension cmd \<noteq> 0\<close> that in auto)
qed

lemma renew_locked_task_effect:
  assumes "renew_locked_task ext ctx cmd now db = Inr (c, db')"
  obtains locked expires rs where
    "find_run (cc_tenant_id ctx) (er_run_id (rtl_expected_run cmd)) db = Some (lw_run locked)"
    and "find_task (cc_tenant_id ctx) (lp_task_id (rtl_lease cmd)) db = Some (lw_task locked)"
    and "validate_worker_fences (rtl_expected_run cmd) (rtl_lease cmd) locked now ''renewal'' = Inr ()"
    and "t_lease_expires_at (lw_task locked) = Some expires"
    and "sql_count (open_attempt (cc_tenant_id ctx) (t_id (lw_task locked)) (t_attempt (lw_task locked)))
           (db_attempts db) = 1"
    and "db' = db\<lparr>db_tasks := sql_update (still_leased (cc_tenant_id ctx) locked (lp_token (rtl_lease cmd)))
             (\<lambda>t. t\<lparr>t_lease_expires_at := Some (expires + int (rtl_extension cmd)), t_updated_at := now\<rparr>)
             (db_tasks db),
           db_attempts := sql_update
             (open_attempt (cc_tenant_id ctx) (t_id (lw_task locked)) (t_attempt (lw_task locked)))
             (\<lambda>a. a\<lparr>a_lease_expires_at := expires + int (rtl_extension cmd)\<rparr>) (db_attempts db),
           db_receipts := rs\<rparr>"
    and "event_ids c = []" and "ct_lease_expires_at (committed_value c) = expires + int (rtl_extension cmd)"
    and "ts_task_id (ct_task (committed_value c)) = t_id (lw_task locked)"
  using assms
  by (auto simp: renew_locked_task_def txn_iffs Let_def ok_or_Inr_iff bind_eq_Some_conv
      claimed_task_of_def result_iffs find_run_def find_task_def
      elim!: finish_receipt_frame intro: that)

text \<open>
  C7: a renewal that is applied presents the worker and token of a lease that has not expired, of
  a task of the current generation of a live run that is not paused. It moves the expiry of that
  task and of its one open attempt by the extension and records its receipt; nothing else of the
  database changes, no event is written and no version moves.
\<close>

theorem renew_task_lease_extends_live_lease:
  assumes "task_keys_ok db" and "renew_task_lease ext ttl ctx cmd now db = Inr (c, db')"
    and "disposition c = Applied"
  shows "\<exists>run task expires rs. run \<in> set (db_runs db) \<and> task \<in> set (db_tasks db)
     \<and> r_id run = er_run_id (rtl_expected_run cmd) \<and> t_run task = r_id run
     \<and> t_id task = lp_task_id (rtl_lease cmd)
     \<and> r_status run \<noteq> RunPaused \<and> \<not> run_terminal (r_status run)
     \<and> t_status task = TaskLeased \<and> t_generation task = r_generation run
     \<and> t_lease_owner task = Some (lp_worker_id (rtl_lease cmd))
     \<and> t_lease_token task = Some (lp_token (rtl_lease cmd))
     \<and> t_lease_expires_at task = Some expires \<and> now < expires
     \<and> expires < ct_lease_expires_at (committed_value c)
     \<and> ct_lease_expires_at (committed_value c) = expires + int (rtl_extension cmd)
     \<and> db' = db\<lparr>db_tasks := map (\<lambda>u. if u = task
            then task\<lparr>t_lease_expires_at := Some (expires + int (rtl_extension cmd)), t_updated_at := now\<rparr>
            else u) (db_tasks db),
          db_attempts := sql_update (open_attempt (cc_tenant_id ctx) (t_id task) (t_attempt task))
            (\<lambda>a. a\<lparr>a_lease_expires_at := expires + int (rtl_extension cmd)\<rparr>) (db_attempts db),
          db_receipts := rs\<rparr>"
  using assms(2)
proof (cases rule: renew_task_lease_cases)
  case (replayed outcome event)
  then have "disposition c = Duplicate" by (auto simp: duplicate_renewal_def result_iffs)
  then show ?thesis using assms(3) by simp
next
  case (renewed rs0)
  from renewed(2) show ?thesis
  proof (rule renew_locked_task_effect)
    fix locked :: locked_worker_task and expires rs
    let ?task = "lw_task locked"
    assume found: "find_run (cc_tenant_id ctx) (er_run_id (rtl_expected_run cmd))
          (db\<lparr>db_receipts := rs0\<rparr>) = Some (lw_run locked)"
        "find_task (cc_tenant_id ctx) (lp_task_id (rtl_lease cmd)) (db\<lparr>db_receipts := rs0\<rparr>) = Some ?task"
      and fences: "validate_worker_fences (rtl_expected_run cmd) (rtl_lease cmd) locked now ''renewal''
          = Inr ()"
      and expires: "t_lease_expires_at ?task = Some expires"
      and db': "db' = (db\<lparr>db_receipts := rs0\<rparr>)\<lparr>db_tasks := sql_update (still_leased (cc_tenant_id ctx) locked (lp_token (rtl_lease cmd)))
             (\<lambda>t. t\<lparr>t_lease_expires_at := Some (expires + int (rtl_extension cmd)), t_updated_at := now\<rparr>)
             (db_tasks (db\<lparr>db_receipts := rs0\<rparr>)),
           db_attempts := sql_update
             (open_attempt (cc_tenant_id ctx) (t_id ?task) (t_attempt ?task))
             (\<lambda>a. a\<lparr>a_lease_expires_at := expires + int (rtl_extension cmd)\<rparr>)
             (db_attempts (db\<lparr>db_receipts := rs0\<rparr>)), db_receipts := rs\<rparr>"
      and renewal: "ct_lease_expires_at (committed_value c) = expires + int (rtl_extension cmd)"
    have task: "?task \<in> set (db_tasks db)" "t_tenant ?task = cc_tenant_id ctx"
        "t_id ?task = lp_task_id (rtl_lease cmd)"
      using find_task_Some [OF found(2)] by simp_all
    have run: "lw_run locked \<in> set (db_runs db)" "r_id (lw_run locked) = er_run_id (rtl_expected_run cmd)"
      using find_run_Some [OF found(1)] by simp_all
    have "sql_update (still_leased (cc_tenant_id ctx) locked (lp_token (rtl_lease cmd))) f (db_tasks db)
        = map (\<lambda>u. if u = ?task then f ?task else u) (db_tasks db)" for f
      by (rule sql_update_one_task [OF assms(1) task(1)])
         (use fences task in \<open>auto simp: still_leased_def validate_worker_fences_Inr\<close>)
    then show ?thesis
      using fences expires db' renewal task run renewed(1)
      by (intro exI [of _ "lw_run locked"] exI [of _ ?task] exI [of _ expires] exI [of _ rs])
         (auto simp: validate_worker_fences_Inr)
  qed
qed


section \<open>What a reclamation changes\<close>

lemma advance_run_event_batch_iff [txn_iffs]:
  "advance_run_event_batch tenant run version generation next_seq status now db = Inr (u, db') \<longleftrightarrow>
     (let P = run_at tenant run version generation;
          f = (\<lambda>r. r\<lparr>r_version := r_version r + 1, r_next_seq := next_seq, r_status := status,
                    r_updated_at := now\<rparr>) in
      increments_in_range P r_version (db_runs db) \<and> updates_pass run_checks P f (db_runs db)
      \<and> sql_count P (db_runs db) = 1 \<and> db' = db\<lparr>db_runs := sql_update P f (db_runs db)\<rparr>)"
  by (auto simp: advance_run_event_batch_def txn_iffs Let_def)

lemma find_task_of_run: "find (\<lambda>t. t_tenant t = tenant \<and> t_run t = run \<and> t_id t = i) ts = Some t
  \<Longrightarrow> t \<in> set ts \<and> t_tenant t = tenant \<and> t_run t = run \<and> t_id t = i"
  by (auto dest: find_Some_in)

definition reclaimed_run :: "lease_expiry_action \<Rightarrow> micros \<Rightarrow> run_row \<Rightarrow> run_row" where
  "reclaimed_run action now r = r\<lparr>r_version := r_version r + 1, r_next_seq := r_next_seq r + 1,
     r_status := reclaimed_run_status action, r_updated_at := now\<rparr>"

lemma reclaim_expired_lease_cases:
  assumes "reclaim_expired_lease ttl view ctx event_id now db = Inr (c, db')"
  obtains (replayed) outcome event where "db' = db" and "duplicate_reclaim ctx outcome event = Inr c"
    | (nothing) rs where "c = None" and "db' = db\<lparr>db_receipts := rs\<rparr>"
    | (reclaimed) run task rs where "find_run (cc_tenant_id ctx) (t_run task) db = Some (le_run run)"
        and "task \<in> set (db_tasks db)" and "t_tenant task = cc_tenant_id ctx" and "expired_lease now task"
        and "reclaim_locked_lease ctx event_id now run task (db\<lparr>db_receipts := rs\<rparr>) = Inr (c, db')"
  using assms unfolding reclaim_expired_lease_def
proof (cases rule: with_receipt_cases)
  case replayed
  then show ?thesis using that(1) by blast
next
  case fresh
  then show ?thesis
    by (auto simp: txn_iffs reclaim_none_def ok_or_Inr_iff find_run_def
        dest!: find_task_of_run elim!: finish_receipt_frame
        split: option.splits prod.splits if_splits intro: that(2,3))
qed

lemma reclaim_event_sel [simp]:
  "ei_tenant_id (reclaim_event ctx i run task action now) = cc_tenant_id ctx"
  "ei_run_id (reclaim_event ctx i run task action now) = r_id (le_run run)"
  "ei_sequence (reclaim_event ctx i run task action now) = r_next_seq (le_run run)"
  "ei_event_id (reclaim_event ctx i run task action now) = i"
  by (simp_all add: reclaim_event_def)

lemma reclaim_locked_lease_effect:
  assumes "reclaim_locked_lease ctx event_id now run task db = Inr (c, db')"
  defines "tenant \<equiv> cc_tenant_id ctx" and "action \<equiv> lease_expiry_action_of task"
  obtains v rs where
    "1 \<le> t_attempt task" and "t_attempt task \<le> t_max_attempts task"
    and "sql_count (open_attempt tenant (t_id task) (t_attempt task)) (db_attempts db) = 1"
    and "updates_pass run_checks
           (run_at tenant (r_id (le_run run)) (r_version (le_run run)) (r_generation (le_run run)))
           (\<lambda>r. r\<lparr>r_version := r_version r + 1, r_next_seq := r_next_seq (le_run run) + 1,
                  r_status := reclaimed_run_status action, r_updated_at := now\<rparr>) (db_runs db)"
    and "db' = db\<lparr>db_tasks := sql_update (\<lambda>t. t_tenant t = tenant \<and> t_id t = t_id task
             \<and> t_attempt t = t_attempt task \<and> expired_lease now t)
           (reclaim_task action (r_generation (le_run run)) now) (db_tasks db),
         db_attempts := sql_update (open_attempt tenant (t_id task) (t_attempt task))
             (\<lambda>a. a\<lparr>a_finished_at := Some now, a_outcome := Some AttemptLeaseExpired,
                    a_error_code := Some ''lease_expired''\<rparr>) (db_attempts db),
         db_events := db_events db @ [event_row_of (reclaim_event ctx event_id run task action now)],
         db_outbox := db_outbox db @ [outbox_row_of (reclaim_event ctx event_id run task action now)],
         db_runs := sql_update
           (run_at tenant (r_id (le_run run)) (r_version (le_run run)) (r_generation (le_run run)))
           (\<lambda>r. r\<lparr>r_version := r_version r + 1, r_next_seq := r_next_seq (le_run run) + 1,
                  r_status := reclaimed_run_status action, r_updated_at := now\<rparr>) (db_runs db),
         db_receipts := rs\<rparr>"
    and "c = Some \<lparr> disposition = Applied, committed_value = v, event_ids = [event_id],
           durable_follow_ups = [],
           post_commit_hints = (if action = LeaseRetryScheduled then [WakeWorkers] else []) \<rparr>"
    and "v = \<lparr> lro_tenant_id = tenant, lro_run_id = r_id (le_run run), lro_task_id = t_id task,
           lro_attempt = nat (t_attempt task), lro_action = action, lro_reclaimed_at = now \<rparr>"
  using assms(1) unfolding tenant_def action_def
  unfolding reclaim_locked_lease_def Let_def
  apply (clarsimp simp: txn_iffs Let_def not_le)
  apply (erule finish_receipt_frame)
  apply (rule that [unfolded tenant_def action_def])
  apply simp_all
  done

text \<open>A reclamation advances the run of the task.\<close>

lemma reclaim_locked_lease_advances:
  assumes "reclaim_locked_lease ctx event_id now run task db1 = Inr (c, db')"
    and "find_run (cc_tenant_id ctx) i db = Some (le_run run)" and "runs_ok db"
    and "db_runs db1 = db_runs db" and "db_events db1 = db_events db" and "db_outbox db1 = db_outbox db"
  shows "advances db db' \<and> \<not> run_terminal (r_status (le_run run))
    \<and> db_runs db' = sql_update (same_run (le_run run))
         (\<lambda>_. reclaimed_run (lease_expiry_action_of task) now (le_run run)) (db_runs db)"
  using assms(1)
proof (rule reclaim_locked_lease_effect)
  let ?r = "le_run run" and ?action = "lease_expiry_action_of task"
  let ?P = "run_at (cc_tenant_id ctx) (r_id ?r) (r_version ?r) (r_generation ?r)"
  let ?f = "\<lambda>r. r\<lparr>r_version := r_version r + 1, r_next_seq := r_next_seq ?r + 1,
                  r_status := reclaimed_run_status ?action, r_updated_at := now\<rparr>"
  fix v rs
  assume pass: "updates_pass run_checks ?P ?f (db_runs db1)"
    and db': "db' = db1\<lparr>db_tasks := sql_update (\<lambda>t. t_tenant t = cc_tenant_id ctx \<and> t_id t = t_id task
             \<and> t_attempt t = t_attempt task \<and> expired_lease now t)
           (reclaim_task ?action (r_generation ?r) now) (db_tasks db1),
         db_attempts := sql_update (open_attempt (cc_tenant_id ctx) (t_id task) (t_attempt task))
             (\<lambda>a. a\<lparr>a_finished_at := Some now, a_outcome := Some AttemptLeaseExpired,
                    a_error_code := Some ''lease_expired''\<rparr>) (db_attempts db1),
         db_events := db_events db1 @ [event_row_of (reclaim_event ctx event_id run task ?action now)],
         db_outbox := db_outbox db1 @ [outbox_row_of (reclaim_event ctx event_id run task ?action now)],
         db_runs := sql_update ?P ?f (db_runs db1), db_receipts := rs\<rparr>"
  have r: "?r \<in> set (db_runs db)" "r_tenant ?r = cc_tenant_id ctx"
    using assms(2) by (auto dest: find_run_Some)
  have new: "?f ?r = reclaimed_run ?action now ?r" by (simp add: reclaimed_run_def)
  have "sql_update ?P ?f (db_runs db) = sql_update (same_run ?r) (\<lambda>_. ?f ?r) (db_runs db)"
    by (rule sql_update_one_run [OF _ r(1)]) (use assms(3) r in \<open>auto simp: run_at_def same_run_def\<close>)
  then have runs: "db_runs db' = sql_update (same_run ?r) (\<lambda>_. reclaimed_run ?action now ?r) (db_runs db)"
    unfolding new db' using assms(4) by simp
  have "run_checks (?f ?r)"
    using updates_passD [OF pass, of ?r] r assms(4) by (simp add: run_at_def)
  then have checks: "run_checks (reclaimed_run ?action now ?r)" unfolding new .
  have "run_checks ?r" using r assms(3) by (simp add: runs_ok_def)
  then have live: "\<not> run_terminal (r_status ?r)"
    using checks by (cases ?action)
      (auto simp: run_checks_def reclaimed_run_def reclaimed_run_status_def status_sets split: if_splits)
  let ?e = "reclaim_event ctx event_id run task ?action now"
  have "db_events db' = db_events db @ [event_row_of ?e]" "db_outbox db' = db_outbox db @ [outbox_row_of ?e]"
    unfolding db' using assms(5,6) by simp_all
  moreover have "same_run ?r (reclaimed_run ?action now ?r)"
      "r_version (reclaimed_run ?action now ?r) = r_version ?r + 1"
      "r_next_seq (reclaimed_run ?action now ?r) = r_next_seq ?r + 1"
      "r_generation (reclaimed_run ?action now ?r) = r_generation ?r"
    by (simp_all add: same_run_def reclaimed_run_def)
  ultimately have "advances db db'"
    unfolding advances_def using r live checks runs
    by (intro exI [of _ ?r] exI [of _ "reclaimed_run ?action now ?r"] exI [of _ ?e]) simp
  then show ?thesis using live runs by simp
qed

lemma reclaim_expired_lease_effect:
  assumes "runs_ok db" and "reclaim_expired_lease ttl view ctx event_id now db = Inr (c, db')"
  shows "quiet db db' \<or> advances db db'"
  using assms(2)
proof (cases rule: reclaim_expired_lease_cases)
  case (reclaimed run task rs)
  from reclaim_locked_lease_advances [OF reclaimed(5,1) assms(1)] show ?thesis by simp
qed (auto simp: quiet_def)

lemma renew_task_lease_effect:
  assumes "renew_task_lease ext ttl ctx cmd now db = Inr (c, db')"
  shows "quiet db db'"
  using assms
proof (cases rule: renew_task_lease_cases)
  case (renewed rs)
  from renewed(2) show ?thesis by (rule renew_locked_task_effect) (simp add: quiet_def)
qed (simp add: quiet_def)


section \<open>Concrete lease commands\<close>

lemmas renew_eval = renew_task_lease_def renew_locked_task_def lock_worker_task_def
  validate_worker_fences_def expectation_changed_def still_leased_def open_attempt_def
  claimed_task_of_def parse_logical_key_def key_parse_def encode_claim_receipt_def
  json_value_def Let_def status_sets

lemma sample_leased_keys: "runs_ok sample_leased_db" "task_keys_ok sample_leased_db"
  by (simp_all add: runs_ok_def run_keys_ok_def task_keys_ok_def run_checks_def revision_checks_def status_sets sample_defs)

definition sample_renewal :: renew_task_lease_command where
  "sample_renewal = \<lparr> rtl_expected_run = sample_expected, rtl_lease = sample_proof, rtl_extension = 50 \<rparr>"

theorem renew_task_lease_extends_live_lease_witness:
  "\<exists>c db'. renew_task_lease sample_ext 1000 (sample_context 71 ''r1'') sample_renewal 110 sample_leased_db
       = Inr (c, db')
     \<and> ct_lease_expires_at (committed_value c) = 180
     \<and> (\<exists>rs task. db' = sample_leased_db\<lparr>db_tasks := [task, sample_task 3 TaskScheduled],
          db_attempts := [sample_attempt\<lparr>a_lease_expires_at := 180\<rparr>], db_receipts := rs\<rparr>)"
proof -
  have "\<exists>c db'. renew_task_lease sample_ext 1000 (sample_context 71 ''r1'') sample_renewal 110
      sample_leased_db = Inr (c, db') \<and> disposition c = Applied"
    by (simp add: sample_renewal_def sample_defs renew_eval txn_eval)
  then obtain c db' where run: "renew_task_lease sample_ext 1000 (sample_context 71 ''r1'')
      sample_renewal 110 sample_leased_db = Inr (c, db')" and "disposition c = Applied" by blast
  from renew_task_lease_extends_live_lease [OF sample_leased_keys(2) this]
  show ?thesis
    using run by (auto simp: sample_defs sample_renewal_def open_attempt_def)
qed


section \<open>The lease commands are run commands\<close>

lemma claim_task_keys:
  assumes "task_keys_ok db" and "claim_task ext ttl view ctx cmd now db = Inr (c, db')"
  shows "task_keys_ok db'"
  using assms(2)
proof (cases rule: claim_task_cases)
  case (claimed run task rs)
  from claimed(2) show ?thesis
    by (rule claim_locked_task_effect)
       (use assms(1) in \<open>simp add: task_keys_ok_def map_sql_update_same lease_task_def\<close>)
qed (use assms(1) in \<open>auto simp: task_keys_ok_def\<close>)

lemma renew_task_lease_keys:
  assumes "task_keys_ok db" and "renew_task_lease ext ttl ctx cmd now db = Inr (c, db')"
  shows "task_keys_ok db'"
  using assms(2)
proof (cases rule: renew_task_lease_cases)
  case (renewed rs)
  from renewed(2) show ?thesis
    by (rule renew_locked_task_effect)
       (use assms(1) in \<open>simp add: task_keys_ok_def map_sql_update_same\<close>)
qed (use assms(1) in simp)

lemma reclaim_expired_lease_keys:
  assumes "task_keys_ok db" and "reclaim_expired_lease ttl view ctx event_id now db = Inr (c, db')"
  shows "task_keys_ok db'"
  using assms(2)
proof (cases rule: reclaim_expired_lease_cases)
  case (reclaimed run task rs)
  from reclaimed(5) show ?thesis
    by (rule reclaim_locked_lease_effect)
       (use assms(1) in \<open>simp add: task_keys_ok_def map_sql_update_same reclaim_task_def\<close>)
qed (use assms(1) in \<open>auto simp: task_keys_ok_def\<close>)

interpretation claim_cmd: run_command
  "\<lambda>(ext, ttl, view, ctx, cmd, now). claim_task ext ttl view ctx cmd now"
  by unfold_locales
     (auto dest: claim_task_effect [OF runs_ok_keys [OF store_okD(1)]] claim_task_keys [OF store_okD(2)])

interpretation renew_cmd: run_command
  "\<lambda>(ext, ttl, ctx, cmd, now). renew_task_lease ext ttl ctx cmd now"
  by unfold_locales (auto dest: renew_task_lease_effect renew_task_lease_keys [OF store_okD(2)])

interpretation reclaim_cmd: run_command
  "\<lambda>(ttl, view, ctx, event_id, now). reclaim_expired_lease ttl view ctx event_id now"
  by unfold_locales
     (auto dest: reclaim_expired_lease_effect [OF store_okD(1)] reclaim_expired_lease_keys [OF store_okD(2)])

end
