(* ===== verification/RunWork.thy ===== *)
theory RunWork
  imports TaskLease
begin

text \<open>
  Operations on all the work of a run that several commands share: closing or freezing its tasks,
  attempts, waits and external executions (\<open>close_work_after_fatal_failure\<close>,
  \<open>finalize_open_task_attempts\<close>, \<open>freeze_leased_tasks\<close>, \<open>cancel_run_children\<close>,
  \<open>request_external_stops\<close>, \<open>mark_executing_tools_uncertain\<close> of \<open>transaction_executor.rs\<close>), and
  the answers of a command on a run. The lease invariant ties every leased task to its one open
  attempt; the lemmas say how each kind of update keeps it.
\<close>

section \<open>Statements over a run\<close>

text \<open>A statement whose row count is ignored.\<close>

definition exec_update :: "nat txn \<Rightarrow> unit txn" where
  "exec_update m = bindT m (\<lambda>_. returnT ())"

lemma exec_update_iff [txn_iffs]:
  "exec_update m db = Inr (u, db') \<longleftrightarrow> (\<exists>n. m db = Inr (n, db'))"
  by (auto simp: exec_update_def txn_iffs)

lemma exec_update_eval [txn_eval]: "bindT (exec_update m) k db = bindT m (\<lambda>_. k ()) db"
  by (simp add: exec_update_def bindT_def returnT_def split: sum.splits prod.splits)

lemma keeps_exec_update [keeps_intros]: "keeps g m \<Longrightarrow> keeps g (exec_update m)"
  unfolding exec_update_def by (intro keeps_intros)

definition closable_task :: "task_status \<Rightarrow> bool" where
  "closable_task s \<longleftrightarrow> s \<in> {TaskScheduled, TaskQueued, TaskLeased, TaskRetryScheduled}"

lemma not_closable: "closable_task s \<or> task_terminal s"
  by (cases s) (simp_all add: closable_task_def status_sets)

definition cancel_task :: "string option \<Rightarrow> micros \<Rightarrow> task_row \<Rightarrow> task_row" where
  "cancel_task error now t = t\<lparr>t_status := TaskCancelled, t_lease_owner := None,
     t_lease_token := None, t_lease_expires_at := None,
     t_error_code := (case error of None \<Rightarrow> t_error_code t | Some e \<Rightarrow> Some e),
     t_completed_at := Some now, t_updated_at := now\<rparr>"

definition close_attempt :: "attempt_outcome \<Rightarrow> string option \<Rightarrow> micros \<Rightarrow> attempt_row \<Rightarrow> attempt_row" where
  "close_attempt outcome error now a =
     a\<lparr>a_finished_at := Some now, a_outcome := Some outcome, a_error_code := error\<rparr>"

definition cancel_open_waits :: "uuid \<Rightarrow> uuid \<Rightarrow> micros \<Rightarrow> unit txn" where
  "cancel_open_waits tenant run now =
     exec_update (update_waits (\<lambda>w. w_tenant w = tenant \<and> w_run w = run \<and> w_status w = WaitOpen)
       (\<lambda>w. w\<lparr>w_status := WaitCancelled, w_active_slot := None, w_updated_at := now\<rparr>))"

text \<open>External executions that never started are closed with \<open>reason\<close>.\<close>

definition cancel_planned_executions :: "uuid \<Rightarrow> uuid \<Rightarrow> string \<Rightarrow> micros \<Rightarrow> unit txn" where
  "cancel_planned_executions tenant run reason now =
    (let P = (\<lambda>g. g_tenant g = tenant \<and> g_run g = run \<and> g_status g = AgentPlanned) in
    thenT (\<lambda>db. guardT (increments_in_range P g_version (db_agents db)) bigint_out_of_range db)
    (thenT (exec_update (update_agents P
       (\<lambda>g. g\<lparr>g_status := AgentCancelled, g_version := g_version g + 1, g_error_code := Some reason,
              g_completed_at := Some now, g_updated_at := now\<rparr>)))
    (exec_update (update_tools (\<lambda>x. x_tenant x = tenant \<and> x_run x = run
                                  \<and> x_status x \<in> {ToolPlanned, ToolRetryScheduled})
       (\<lambda>x. x\<lparr>x_status := ToolFailed, x_error_code := Some reason, x_completed_at := Some now,
              x_updated_at := now\<rparr>)))))"

definition close_work_after_fatal_failure :: "uuid \<Rightarrow> uuid \<Rightarrow> uuid \<Rightarrow> micros \<Rightarrow> unit txn" where
  "close_work_after_fatal_failure tenant run failed_task now =
    thenT (exec_update (update_tasks (\<lambda>t. t_tenant t = tenant \<and> t_run t = run \<and> t_id t \<noteq> failed_task
                                        \<and> closable_task (t_status t))
             (cancel_task (Some ''run_failed'') now)))
    (thenT (exec_update (update_attempts (\<lambda>a. a_tenant a = tenant \<and> a_run a = run
                                            \<and> a_task a \<noteq> failed_task \<and> a_finished_at a = None)
             (close_attempt AttemptCancelled (Some ''run_failed'') now)))
    (thenT (cancel_open_waits tenant run now)
    (cancel_planned_executions tenant run ''run_failed'' now)))"

definition finalize_open_task_attempts :: "uuid \<Rightarrow> uuid \<Rightarrow> micros \<Rightarrow> unit txn" where
  "finalize_open_task_attempts tenant run now =
     exec_update (update_attempts (\<lambda>a. a_tenant a = tenant \<and> a_run a = run \<and> a_finished_at a = None)
       (close_attempt AttemptCancelled None now))"

definition freeze_leased_tasks :: "uuid \<Rightarrow> uuid \<Rightarrow> micros \<Rightarrow> unit txn" where
  "freeze_leased_tasks tenant run now =
    thenT (\<lambda>db. exec_update (update_attempts
             (\<lambda>a. a_tenant a = tenant \<and> a_run a = run \<and> a_finished_at a = None
                \<and> list_ex (\<lambda>t. t_tenant t = a_tenant a \<and> t_id t = a_task a
                              \<and> t_status t = TaskLeased) (db_tasks db))
             (close_attempt AttemptCancelled (Some ''run_paused'') now)) db)
    (exec_update (update_tasks (\<lambda>t. t_tenant t = tenant \<and> t_run t = run \<and> t_status t = TaskLeased)
       (\<lambda>t. t\<lparr>t_status := TaskRetryScheduled, t_available_at := now, t_lease_owner := None,
              t_lease_token := None, t_lease_expires_at := None, t_updated_at := now\<rparr>)))"

definition cancel_run_children :: "uuid \<Rightarrow> uuid \<Rightarrow> micros \<Rightarrow> unit txn" where
  "cancel_run_children tenant run now =
    (let S = (\<lambda>s. s_tenant s = tenant \<and> s_run s = run
                \<and> s_status s \<in> {StagePlanned, StageActive, StageWaitingApproval, StageReworkRequired}) in
    thenT (\<lambda>db. guardT (increments_in_range S s_version (db_stages db)) bigint_out_of_range db)
    (thenT (exec_update (update_stages S
       (\<lambda>s. s\<lparr>s_status := StageCancelled, s_version := s_version s + 1, s_completed_at := Some now,
              s_updated_at := now\<rparr>)))
    (thenT (exec_update (update_tasks (\<lambda>t. t_tenant t = tenant \<and> t_run t = run
                                        \<and> closable_task (t_status t))
             (cancel_task None now)))
    (thenT (cancel_open_waits tenant run now)
    (cancel_planned_executions tenant run ''run_cancelled'' now)))))"

text \<open>What \<open>RETURNING\<close> gives: the keys of the rows an update touches.\<close>

definition returning :: "('r \<Rightarrow> bool) \<Rightarrow> ('r \<Rightarrow> 'k) \<Rightarrow> 'r list \<Rightarrow> 'k list" where
  "returning P key rows = map key (filter P rows)"

definition tool_blocks_stop :: "tool_status \<Rightarrow> bool" where
  "tool_blocks_stop s \<longleftrightarrow> s \<in> {ToolExecuting, ToolOutcomeUnknown, ToolReconciling, ToolManualReview}"

definition agent_blocks_stop :: "agent_status \<Rightarrow> bool" where
  "agent_blocks_stop s \<longleftrightarrow> s \<in> {AgentSubmitting, AgentRunning, AgentStopping, AgentOutcomeUnknown,
                              AgentReconciling, AgentManualReview}"

definition request_external_stops ::
  "uuid \<Rightarrow> uuid \<Rightarrow> micros \<Rightarrow> (bool \<times> durable_follow_up list) txn" where
  "request_external_stops tenant run now =
    (let P = (\<lambda>g. g_tenant g = tenant \<and> g_run g = run \<and> g_status g \<in> {AgentSubmitting, AgentRunning}) in
    thenT (\<lambda>db. guardT (increments_in_range P g_version (db_agents db)) bigint_out_of_range db)
    (bindT (queryT (\<lambda>db. returning P g_id (db_agents db))) (\<lambda>stopped.
    thenT (exec_update (update_agents P
       (\<lambda>g. g\<lparr>g_status := AgentStopping, g_version := g_version g + 1,
              g_stop_requested_at := Some now, g_updated_at := now\<rparr>)))
    (queryT (\<lambda>db.
      (sql_exists (\<lambda>x. x_tenant x = tenant \<and> x_run x = run \<and> tool_blocks_stop (x_status x)) (db_tools db)
       \<or> sql_exists (\<lambda>g. g_tenant g = tenant \<and> g_run g = run \<and> agent_blocks_stop (g_status g))
           (db_agents db),
       map FollowStopAgent stopped))))))"

definition mark_executing_tools_uncertain ::
  "uuid \<Rightarrow> uuid \<Rightarrow> micros \<Rightarrow> durable_follow_up list txn" where
  "mark_executing_tools_uncertain tenant run now =
    (let P = (\<lambda>x. x_tenant x = tenant \<and> x_run x = run \<and> x_status x = ToolExecuting) in
    bindT (queryT (\<lambda>db. returning P x_id (db_tools db))) (\<lambda>ids.
    thenT (exec_update (update_tools P
       (\<lambda>x. x\<lparr>x_status := ToolOutcomeUnknown, x_recovery_action := Some ''query_outcome'',
              x_updated_at := now\<rparr>)))
    (returnT (map FollowReconcileTool ids))))"

section \<open>Answers\<close>

definition committed_run ::
  "command_disposition \<Rightarrow> run_snapshot \<Rightarrow> uuid option \<Rightarrow> durable_follow_up list
   \<Rightarrow> run_snapshot committed" where
  "committed_run d snapshot event follow_ups =
     \<lparr> disposition = d, committed_value = snapshot,
       event_ids = (case event of None \<Rightarrow> [] | Some e \<Rightarrow> [e]), durable_follow_ups = follow_ups,
       post_commit_hints = [RunEventsAvailable (rs_run_id snapshot),
         InvalidateRunCache (rs_run_id snapshot), WakeWorkers] \<rparr>"

definition failure_committed ::
  "command_disposition \<Rightarrow> run_snapshot \<Rightarrow> uuid option \<Rightarrow> durable_follow_up list \<Rightarrow> bool
   \<Rightarrow> run_snapshot committed" where
  "failure_committed d snapshot event follow_ups wake_scheduler =
     \<lparr> disposition = d, committed_value = snapshot,
       event_ids = (case event of None \<Rightarrow> [] | Some e \<Rightarrow> [e]), durable_follow_ups = follow_ups,
       post_commit_hints = [RunEventsAvailable (rs_run_id snapshot),
         InvalidateRunCache (rs_run_id snapshot)] @ (if wake_scheduler then [WakeScheduler] else []) \<rparr>"

definition event_committed ::
  "command_disposition \<Rightarrow> run_snapshot \<Rightarrow> uuid option \<Rightarrow> uuid option \<Rightarrow> run_snapshot committed" where
  "event_committed d snapshot event resume_task =
     \<lparr> disposition = d, committed_value = snapshot,
       event_ids = (case event of None \<Rightarrow> [] | Some e \<Rightarrow> [e]),
       durable_follow_ups = (case resume_task of None \<Rightarrow> [] | Some t \<Rightarrow> [FollowTask t]),
       post_commit_hints = [RunEventsAvailable (rs_run_id snapshot),
         InvalidateRunCache (rs_run_id snapshot)]
         @ (case resume_task of None \<Rightarrow> [] | Some _ \<Rightarrow> [WakeWorkers]) \<rparr>"

lemma committed_sel [simp]:
  "disposition (committed_run d s e fs) = d" "committed_value (committed_run d s e fs) = s"
  "disposition (failure_committed d s e fs b) = d" "committed_value (failure_committed d s e fs b) = s"
  "disposition (event_committed d s e r) = d" "committed_value (event_committed d s e r) = s"
  by (simp_all add: committed_run_def failure_committed_def event_committed_def)

text \<open>The snapshot of a run row, after the integers are converted.\<close>

definition run_snapshot_of :: "run_row \<Rightarrow> run_snapshot" where
  "run_snapshot_of r = \<lparr> rs_tenant_id = r_tenant r, rs_run_id = r_id r,
     rs_workflow_version_id = r_workflow_version r, rs_status = r_status r,
     rs_suspended_from_status = r_suspended_from r, rs_version = nat (r_version r),
     rs_execution_generation = nat (r_generation r), rs_next_event_sequence = nat (r_next_seq r),
     rs_current_checkpoint_id = r_checkpoint r, rs_terminal_event_id = r_terminal_event r,
     rs_deadline = r_deadline r, rs_updated_at = r_updated_at r \<rparr>"

section \<open>Frames and effects\<close>

lemma keeps_dependent [keeps_intros]:
  "keeps g (\<lambda>db. guardT (p db) e db)"
  "(\<And>d. keeps g (m d)) \<Longrightarrow> keeps g (\<lambda>db. exec_update (m db) db)"
  by (auto simp: keeps_def txn_iffs)

lemma keeps_closing [keeps_intros]:
  assumes "\<And>db v. g (db\<lparr>db_waits := v\<rparr>) = g db" "\<And>db v. g (db\<lparr>db_agents := v\<rparr>) = g db"
    "\<And>db v. g (db\<lparr>db_tools := v\<rparr>) = g db"
  shows "keeps g (cancel_open_waits tenant run now)"
    and "keeps g (cancel_planned_executions tenant run reason now)"
  unfolding cancel_open_waits_def cancel_planned_executions_def Let_def
  by (intro keeps_intros assms)+

lemma keeps_work [keeps_intros]:
  assumes "\<And>db v. g (db\<lparr>db_tasks := v\<rparr>) = g db" "\<And>db v. g (db\<lparr>db_attempts := v\<rparr>) = g db"
    "\<And>db v. g (db\<lparr>db_waits := v\<rparr>) = g db" "\<And>db v. g (db\<lparr>db_agents := v\<rparr>) = g db"
    "\<And>db v. g (db\<lparr>db_tools := v\<rparr>) = g db" "\<And>db v. g (db\<lparr>db_stages := v\<rparr>) = g db"
  shows "keeps g (close_work_after_fatal_failure tenant run task now)"
    and "keeps g (finalize_open_task_attempts tenant run now)"
    and "keeps g (freeze_leased_tasks tenant run now)"
    and "keeps g (cancel_run_children tenant run now)"
  unfolding close_work_after_fatal_failure_def finalize_open_task_attempts_def
    freeze_leased_tasks_def cancel_run_children_def Let_def
  by (intro keeps_intros assms)+

lemma keeps_external [keeps_intros]:
  assumes "\<And>db v. g (db\<lparr>db_agents := v\<rparr>) = g db" "\<And>db v. g (db\<lparr>db_tools := v\<rparr>) = g db"
  shows "keeps g (request_external_stops tenant run now)"
    and "keeps g (mark_executing_tools_uncertain tenant run now)"
  unfolding request_external_stops_def mark_executing_tools_uncertain_def Let_def
  by (intro keeps_intros assms)+

text \<open>What happens to tasks and attempts.\<close>

lemma close_work_effect:
  assumes "close_work_after_fatal_failure tenant run task now db = Inr (u, db')"
  shows "db_tasks db' = sql_update (\<lambda>t. t_tenant t = tenant \<and> t_run t = run \<and> t_id t \<noteq> task
             \<and> closable_task (t_status t)) (cancel_task (Some ''run_failed'') now) (db_tasks db)
    \<and> db_attempts db' = sql_update (\<lambda>a. a_tenant a = tenant \<and> a_run a = run
             \<and> a_task a \<noteq> task \<and> a_finished_at a = None)
             (close_attempt AttemptCancelled (Some ''run_failed'') now) (db_attempts db)
    \<and> db_waits db' = sql_update (\<lambda>w. w_tenant w = tenant \<and> w_run w = run \<and> w_status w = WaitOpen)
       (\<lambda>w. w\<lparr>w_status := WaitCancelled, w_active_slot := None, w_updated_at := now\<rparr>) (db_waits db)"
  using assms
  by (auto simp: txn_iffs Let_def close_work_after_fatal_failure_def cancel_open_waits_def
      cancel_planned_executions_def)

lemma cancel_children_effect:
  assumes "cancel_run_children tenant run now db = Inr (u, db')"
  shows "db_tasks db' = sql_update (\<lambda>t. t_tenant t = tenant \<and> t_run t = run
             \<and> closable_task (t_status t)) (cancel_task None now) (db_tasks db)
    \<and> db_attempts db' = db_attempts db
    \<and> db_waits db' = sql_update (\<lambda>w. w_tenant w = tenant \<and> w_run w = run \<and> w_status w = WaitOpen)
       (\<lambda>w. w\<lparr>w_status := WaitCancelled, w_active_slot := None, w_updated_at := now\<rparr>) (db_waits db)"
  using assms
  by (auto simp: txn_iffs Let_def cancel_run_children_def cancel_open_waits_def
      cancel_planned_executions_def)

text \<open>No open task of the run is left by a cancellation.\<close>

lemma cancel_children_closed:
  assumes "cancel_run_children tenant run now db = Inr (u, db')"
    and "t \<in> set (db_tasks db')" and "t_tenant t = tenant" and "t_run t = run"
  shows "task_terminal (t_status t)"
proof -
  have "t \<in> set (sql_update (\<lambda>t. t_tenant t = tenant \<and> t_run t = run \<and> closable_task (t_status t))
          (cancel_task None now) (db_tasks db))"
    using cancel_children_effect [OF assms(1)] assms(2) by simp
  then obtain t0 where "t = (if t_tenant t0 = tenant \<and> t_run t0 = run \<and> closable_task (t_status t0)
      then cancel_task None now t0 else t0)"
    by (rule in_sql_updateE)
  then show ?thesis
    using assms(3,4) not_closable [of "t_status t0"]
    by (auto simp: cancel_task_def status_sets split: if_splits)
qed

text \<open>What the closing updates leave of the rows they are for.\<close>

lemma cancel_children_stages:
  assumes "cancel_run_children tenant run now db = Inr (u, db')"
  shows "db_stages db' = sql_update (\<lambda>s. s_tenant s = tenant \<and> s_run s = run
             \<and> s_status s \<in> {StagePlanned, StageActive, StageWaitingApproval, StageReworkRequired})
       (\<lambda>s. s\<lparr>s_status := StageCancelled, s_version := s_version s + 1, s_completed_at := Some now,
              s_updated_at := now\<rparr>) (db_stages db)"
  using assms
  by (auto simp: txn_iffs Let_def cancel_run_children_def cancel_open_waits_def cancel_planned_executions_def)

lemma cancel_children_external:
  assumes "cancel_run_children tenant run now db = Inr (u, db')"
  shows "\<forall>g \<in> set (db_agents db'). g_tenant g = tenant \<and> g_run g = run \<longrightarrow> g_status g \<noteq> AgentPlanned"
    and "\<forall>x \<in> set (db_tools db'). x_tenant x = tenant \<and> x_run x = run
      \<longrightarrow> x_status x \<notin> {ToolPlanned, ToolRetryScheduled}"
  using assms
  by (auto simp: txn_iffs Let_def cancel_run_children_def cancel_open_waits_def
      cancel_planned_executions_def elim!: in_sql_updateE split: if_splits)

lemma external_stops_requested:
  assumes "request_external_stops tenant run now db = Inr (r, db')"
  shows "db_tools db' = db_tools db"
    and "\<forall>g \<in> set (db_agents db'). g_tenant g = tenant \<and> g_run g = run
      \<longrightarrow> g_status g \<notin> {AgentSubmitting, AgentRunning} \<and> (g_status g = AgentPlanned \<longrightarrow> g \<in> set (db_agents db))"
  using assms
  by (auto simp: txn_iffs Let_def request_external_stops_def elim!: in_sql_updateE split: if_splits)

lemma executing_tools_uncertain:
  assumes "mark_executing_tools_uncertain tenant run now db = Inr (r, db')"
  shows "db_agents db' = db_agents db"
    and "\<forall>x \<in> set (db_tools db'). x_tenant x = tenant \<and> x_run x = run
      \<longrightarrow> x_status x \<noteq> ToolExecuting \<and> (x_status x \<in> {ToolPlanned, ToolRetryScheduled} \<longrightarrow> x \<in> set (db_tools db))"
  using assms
  by (auto simp: txn_iffs Let_def mark_executing_tools_uncertain_def elim!: in_sql_updateE split: if_splits)

end
