(* ===== verification/TaskFailure.thy ===== *)
theory TaskFailure
  imports RunWork
begin

text \<open>
  A worker reports that its task failed: \<open>fail_task\<close> of \<open>transaction_executor.rs\<close> with the
  classification of the failure (\<open>FailureTransition\<close>) and \<open>finalize_failed_task\<close>.
\<close>

section \<open>Classification\<close>

record failure_transition =
  ft_task_status :: task_status
  ft_run_status :: run_status
  ft_event_type :: string
  ft_retry_at :: "micros option"
  ft_terminal :: bool

definition classify :: "int \<Rightarrow> int \<Rightarrow> micros option \<Rightarrow> failure_transition" where
  "classify attempt max_attempts retry_at =
    (if retry_at \<noteq> None \<and> attempt < max_attempts
     then \<lparr> ft_task_status = TaskRetryScheduled, ft_run_status = RunRetrying,
            ft_event_type = ''task.retry_scheduled'', ft_retry_at = retry_at, ft_terminal = False \<rparr>
     else if attempt \<ge> max_attempts
     then \<lparr> ft_task_status = TaskDeadLettered, ft_run_status = RunWaiting,
            ft_event_type = ''task.dead_lettered'', ft_retry_at = None, ft_terminal = False \<rparr>
     else \<lparr> ft_task_status = TaskFailed, ft_run_status = RunFailed,
            ft_event_type = ''task.failed'', ft_retry_at = None, ft_terminal = True \<rparr>)"

record fail_task_command =
  ftc_expected_run :: expected_run
  ftc_lease :: lease_proof
  ftc_failure_event_id :: uuid
  ftc_error_code :: string
  ftc_retry_at :: "micros option"

section \<open>The handler\<close>

definition fail_leased_task ::
  "failure_transition \<Rightarrow> string \<Rightarrow> json \<Rightarrow> micros \<Rightarrow> task_row \<Rightarrow> task_row" where
  "fail_leased_task transition error_code error now t = t\<lparr>t_status := ft_task_status transition,
     t_available_at := (case ft_retry_at transition of None \<Rightarrow> t_available_at t | Some r \<Rightarrow> r),
     t_lease_owner := None, t_lease_token := None, t_lease_expires_at := None,
     t_error_code := Some error_code, t_error := Some error,
     t_completed_at := (if ft_task_status transition \<noteq> TaskRetryScheduled then Some now else None),
     t_updated_at := now\<rparr>"

definition leased_attempt_of :: "uuid \<Rightarrow> task_row \<Rightarrow> task_row \<Rightarrow> bool" where
  "leased_attempt_of tenant task t \<longleftrightarrow> t_tenant t = tenant \<and> t_id t = t_id task
     \<and> t_attempt t = t_attempt task \<and> t_status t = TaskLeased"

definition finalize_failed_task ::
  "uuid \<Rightarrow> task_row \<Rightarrow> micros \<Rightarrow> string \<Rightarrow> json \<Rightarrow> failure_transition \<Rightarrow> unit txn" where
  "finalize_failed_task tenant task now error_code error transition =
    bindT (update_tasks (leased_attempt_of tenant task)
             (fail_leased_task transition error_code error now)) (\<lambda>updated.
    thenT (guardT (updated = 1)
             (store_error_of LeaseLost ''task lease changed while recording failure''))
    (bindT (update_attempts (open_attempt tenant (t_id task) (t_attempt task))
             (close_attempt AttemptFailed (Some error_code) now)) (\<lambda>attempt_updated.
     guardT (attempt_updated = 1) (inconsistent ''leased task has no open matching attempt''))))"

definition failure_payload :: "fail_task_command \<Rightarrow> task_row \<Rightarrow> failure_transition \<Rightarrow> json" where
  "failure_payload cmd task transition = JObject [
     (''task_id'', json_uuid (t_id task)), (''attempt'', JInt (t_attempt task)),
     (''max_attempts'', JInt (t_max_attempts task)), (''error_code'', JString (ftc_error_code cmd)),
     (''task_status'', JString (task_status_text (ft_task_status transition))),
     (''run_status'', JString (run_status_text (ft_run_status transition))),
     (''retry_at_micros'', (case ft_retry_at transition of None \<Rightarrow> JNull | Some r \<Rightarrow> JInt r))]"

definition failure_event ::
  "command_context \<Rightarrow> fail_task_command \<Rightarrow> locked_worker_task \<Rightarrow> failure_transition \<Rightarrow> micros
   \<Rightarrow> event_insert" where
  "failure_event ctx cmd locked transition now =
    \<lparr> ei_event_id = ftc_failure_event_id cmd, ei_tenant_id = cc_tenant_id ctx,
      ei_run_id = r_id (lw_run locked), ei_sequence = r_next_seq (lw_run locked),
      ei_event_type = ft_event_type transition,
      ei_payload = failure_payload cmd (lw_task locked) transition,
      ei_payload_schema_version = 1, ei_producer = ''worker'', ei_context = ctx,
      ei_correlation_id = cc_correlation_id ctx, ei_occurred_at = None, ei_recorded_at = now \<rparr>"

lemma failure_event_sel [simp]:
  "ei_tenant_id (failure_event ctx cmd locked transition now) = cc_tenant_id ctx"
  "ei_run_id (failure_event ctx cmd locked transition now) = r_id (lw_run locked)"
  "ei_sequence (failure_event ctx cmd locked transition now) = r_next_seq (lw_run locked)"
  "ei_event_id (failure_event ctx cmd locked transition now) = ftc_failure_event_id cmd"
  by (simp_all add: failure_event_def)

text \<open>Settling the dependents of a task that will not run again; the new queue keeps the run alive.\<close>

definition settle_failure ::
  "externals \<Rightarrow> uuid \<Rightarrow> locked_worker_task \<Rightarrow> failure_transition \<Rightarrow> micros
   \<Rightarrow> (failure_transition \<times> durable_follow_up list) txn" where
  "settle_failure ext tenant locked transition now =
    (if ft_task_status transition = TaskRetryScheduled then returnT (transition, [])
     else bindT (resolve_dependent_tasks ext tenant (r_id (lw_run locked)) (t_id (lw_task locked)) now)
       (\<lambda>activated.
       if activated = [] then returnT (transition, [])
       else returnT (transition\<lparr>ft_run_status := RunQueued, ft_terminal := False\<rparr>,
                     map FollowTask activated)))"

definition close_failed_run ::
  "uuid \<Rightarrow> locked_worker_task \<Rightarrow> failure_transition \<Rightarrow> micros \<Rightarrow> durable_follow_up list txn" where
  "close_failed_run tenant locked transition now =
    (if \<not> ft_terminal transition then returnT []
     else thenT (close_work_after_fatal_failure tenant (r_id (lw_run locked)) (t_id (lw_task locked)) now)
       (bindT (request_external_stops tenant (r_id (lw_run locked)) now) (\<lambda>(_, stops).
        bindT (mark_executing_tools_uncertain tenant (r_id (lw_run locked)) now) (\<lambda>reconciles.
        returnT (stops @ reconciles)))))"

definition run_failing :: "run_row \<Rightarrow> run_row \<Rightarrow> bool" where
  "run_failing run r \<longleftrightarrow> run_at (r_tenant run) (r_id run) (r_version run) (r_generation run) r
     \<and> r_status r \<in> {RunQueued, RunRunning, RunRetrying}"

definition failed_run ::
  "failure_transition \<Rightarrow> uuid \<Rightarrow> int \<Rightarrow> int \<Rightarrow> micros \<Rightarrow> run_row \<Rightarrow> run_row" where
  "failed_run transition event_id next_version next_seq now r = r\<lparr>
     r_status := ft_run_status transition, r_suspended_from := None, r_version := next_version,
     r_next_seq := next_seq,
     r_terminal_event := (if ft_terminal transition then Some event_id else None),
     r_terminal_at := (if ft_terminal transition then Some now else None), r_updated_at := now\<rparr>"

definition fail_locked_task ::
  "externals \<Rightarrow> command_context \<Rightarrow> fail_task_command \<Rightarrow> micros \<Rightarrow> run_snapshot committed txn" where
  "fail_locked_task ext ctx cmd now =
    (let tenant = cc_tenant_id ctx; event_id = ftc_failure_event_id cmd in
    bindT (lock_worker_task tenant (er_run_id (ftc_expected_run cmd)) (lp_task_id (ftc_lease cmd)))
      (\<lambda>locked.
    let run = lw_run locked; task = lw_task locked;
        planned = classify (t_attempt task) (t_max_attempts task) (ftc_retry_at cmd) in
    thenT (liftT (validate_worker_fences (ftc_expected_run cmd) (ftc_lease cmd) locked now ''failure''))
    (thenT (insert_event (failure_event ctx cmd locked planned now))
    (thenT (finalize_failed_task tenant task now (ftc_error_code cmd)
              (failure_payload cmd task planned) planned)
    (bindT (settle_failure ext tenant locked planned now) (\<lambda>(transition, activated).
    bindT (close_failed_run tenant locked transition now) (\<lambda>stops.
    bindT (liftT (checked_add_i64_or (r_version run) 1 (inconsistent ''run version overflow'')))
      (\<lambda>next_version.
    bindT (liftT (checked_add_i64_or (r_next_seq run) 1 (inconsistent ''run event sequence overflow'')))
      (\<lambda>next_seq.
    bindT (update_runs (run_failing run) (failed_run transition event_id next_version next_seq now))
      (\<lambda>updated.
    thenT (guardT (updated = 1)
             (store_error_of VersionConflict ''run changed while failing the task''))
    (bindT (liftT (nonnegative_u64 next_version ''run version'')) (\<lambda>version.
    bindT (liftT (nonnegative_u64 (r_generation run) ''execution generation'')) (\<lambda>generation.
    bindT (liftT (nonnegative_u64 next_seq ''event sequence'')) (\<lambda>sequence.
    let snapshot = \<lparr> rs_tenant_id = tenant, rs_run_id = r_id run,
          rs_workflow_version_id = r_workflow_version run, rs_status = ft_run_status transition,
          rs_suspended_from_status = None, rs_version = version,
          rs_execution_generation = generation, rs_next_event_sequence = sequence,
          rs_current_checkpoint_id = r_checkpoint run,
          rs_terminal_event_id = (if ft_terminal transition then Some event_id else None),
          rs_deadline = r_deadline run, rs_updated_at = now \<rparr>;
        follow_ups = activated @ stops @ (case ft_retry_at transition of
            None \<Rightarrow> [] | Some not_before \<Rightarrow> [FollowScanDueWork not_before]) in
    thenT (finish_receipt ctx ReceiptApplied (encode_run_receipt snapshot) (Some event_id)
             (Some (''run'', r_id run, next_version)))
    (returnT (failure_committed Applied snapshot (Some event_id) follow_ups
       (ft_retry_at transition \<noteq> None)))))))))))))))))"

definition duplicate_failure ::
  "command_context \<Rightarrow> stored_outcome \<Rightarrow> uuid option \<Rightarrow> run_snapshot committed store_result" where
  "duplicate_failure ctx outcome event =
    bindR (decode_run_receipt (cc_tenant_id ctx) outcome) (\<lambda>snapshot.
    Inr (failure_committed Duplicate snapshot event [] False))"

definition fail_task ::
  "externals \<Rightarrow> nat \<Rightarrow> command_context \<Rightarrow> fail_task_command \<Rightarrow> micros
   \<Rightarrow> run_snapshot committed txn" where
  "fail_task ext ttl ctx cmd now =
    thenT (guardT (ftc_error_code cmd \<noteq> [])
             (invalid_command ''task failure error code must not be empty''))
    (with_receipt ctx now ttl (duplicate_failure ctx) (fail_locked_task ext ctx cmd now))"

section \<open>Effects\<close>

text \<open>The database after the event is appended and the task is finalized.\<close>

definition after_failure ::
  "command_context \<Rightarrow> fail_task_command \<Rightarrow> micros \<Rightarrow> locked_worker_task \<Rightarrow> db \<Rightarrow> db" where
  "after_failure ctx cmd now locked db =
    (let task = lw_task locked;
         planned = classify (t_attempt task) (t_max_attempts task) (ftc_retry_at cmd);
         e = failure_event ctx cmd locked planned now in
     db\<lparr>db_events := db_events db @ [event_row_of e], db_outbox := db_outbox db @ [outbox_row_of e],
        db_tasks := sql_update (leased_attempt_of (cc_tenant_id ctx) task)
          (fail_leased_task planned (ftc_error_code cmd) (failure_payload cmd task planned) now) (db_tasks db),
        db_attempts := sql_update (open_attempt (cc_tenant_id ctx) (t_id task) (t_attempt task))
          (close_attempt AttemptFailed (Some (ftc_error_code cmd)) now) (db_attempts db)\<rparr>)"

lemma after_failure_sel [simp]:
  "db_runs (after_failure ctx cmd now locked db) = db_runs db"
  "db_deps (after_failure ctx cmd now locked db) = db_deps db"
  "db_waits (after_failure ctx cmd now locked db) = db_waits db"
  by (simp_all add: after_failure_def Let_def)

lemma fail_leased_task_keys [simp]:
  "t_id (fail_leased_task transition code err now t) = t_id t"
  "t_tenant (fail_leased_task transition code err now t) = t_tenant t"
  "t_run (fail_leased_task transition code err now t) = t_run t"
  by (simp_all add: fail_leased_task_def)

lemma task_keys_after_failure: "task_keys_ok db \<Longrightarrow> task_keys_ok (after_failure ctx cmd now locked db)"
  by (simp add: task_keys_ok_def after_failure_def Let_def map_sql_update_same)

lemma fail_locked_task_cases:
  assumes "fail_locked_task ext ctx cmd now db = Inr (c, db')"
  obtains locked transition activated stops rs db2 db3 where
    "find_run (cc_tenant_id ctx) (er_run_id (ftc_expected_run cmd)) db = Some (lw_run locked)"
    and "find_task (cc_tenant_id ctx) (lp_task_id (ftc_lease cmd)) db = Some (lw_task locked)"
    and "validate_worker_fences (ftc_expected_run cmd) (ftc_lease cmd) locked now ''failure'' = Inr ()"
    and "sql_count (open_attempt (cc_tenant_id ctx) (t_id (lw_task locked)) (t_attempt (lw_task locked)))
           (db_attempts db) = 1"
    and "settle_failure ext (cc_tenant_id ctx) locked
           (classify (t_attempt (lw_task locked)) (t_max_attempts (lw_task locked)) (ftc_retry_at cmd)) now
           (after_failure ctx cmd now locked db) = Inr ((transition, activated), db2)"
    and "close_failed_run (cc_tenant_id ctx) locked transition now db2 = Inr (stops, db3)"
    and "updates_pass run_checks (run_failing (lw_run locked))
           (failed_run transition (ftc_failure_event_id cmd) (r_version (lw_run locked) + 1)
             (r_next_seq (lw_run locked) + 1) now) (db_runs db3)"
    and "sql_count (run_failing (lw_run locked)) (db_runs db3) = 1"
    and "db' = db3\<lparr>db_runs := sql_update (run_failing (lw_run locked))
           (failed_run transition (ftc_failure_event_id cmd) (r_version (lw_run locked) + 1)
             (r_next_seq (lw_run locked) + 1) now) (db_runs db3), db_receipts := rs\<rparr>"
    and "disposition c = Applied" and "rs_run_id (committed_value c) = r_id (lw_run locked)"
    and "rs_status (committed_value c) = ft_run_status transition"
    and "int (rs_version (committed_value c)) = r_version (lw_run locked) + 1"
    and "event_ids c = [ftc_failure_event_id cmd]"
    and "durable_follow_ups c = activated @ stops @ (case ft_retry_at transition of
            None \<Rightarrow> [] | Some not_before \<Rightarrow> [FollowScanDueWork not_before])"
  using assms unfolding fail_locked_task_def Let_def
  apply (clarsimp simp: txn_iffs finalize_failed_task_def)
  apply (erule finish_receipt_frame)
  apply (rule that)
  apply (assumption | simp add: after_failure_def failure_committed_def Let_def)+
  done

lemma settle_failure_cases:
  assumes "settle_failure ext tenant locked planned now db = Inr ((transition, follow_ups), db')"
  obtains (retry) "ft_task_status planned = TaskRetryScheduled" and "transition = planned"
      and "follow_ups = []" and "db' = db"
    | (stuck) "ft_task_status planned \<noteq> TaskRetryScheduled" and "transition = planned"
      and "follow_ups = []"
      and "resolve_dependent_tasks ext tenant (r_id (lw_run locked)) (t_id (lw_task locked)) now db
           = Inr ([], db')"
    | (activated) ids where "ft_task_status planned \<noteq> TaskRetryScheduled"
      and "transition = planned\<lparr>ft_run_status := RunQueued, ft_terminal := False\<rparr>"
      and "follow_ups = map FollowTask ids" and "ids \<noteq> []"
      and "resolve_dependent_tasks ext tenant (r_id (lw_run locked)) (t_id (lw_task locked)) now db
           = Inr (ids, db')"
  using assms by (auto simp: settle_failure_def txn_iffs split: if_splits intro: that)

lemma settle_failure_settled:
  assumes "settle_failure ext tenant locked planned now db = Inr ((transition, follow_ups), db')"
    and "task_keys_ok db"
  shows "tasks_settled tenant (r_id (lw_run locked)) now db db'"
  using assms(1)
  by (cases rule: settle_failure_cases)
     (auto simp: tasks_settled_refl dest: resolve_dependent_tasks_settled [OF _ assms(2)])

lemma keeps_close_failed_run [keeps_intros]:
  assumes "\<And>db v. g (db\<lparr>db_tasks := v\<rparr>) = g db" "\<And>db v. g (db\<lparr>db_attempts := v\<rparr>) = g db"
    "\<And>db v. g (db\<lparr>db_waits := v\<rparr>) = g db" "\<And>db v. g (db\<lparr>db_agents := v\<rparr>) = g db"
    "\<And>db v. g (db\<lparr>db_tools := v\<rparr>) = g db" "\<And>db v. g (db\<lparr>db_stages := v\<rparr>) = g db"
  shows "keeps g (close_failed_run tenant locked transition now)"
  unfolding close_failed_run_def by (intro keeps_intros assms)+

lemma fail_task_cases:
  assumes "fail_task ext ttl ctx cmd now db = Inr (c, db')"
  obtains (replayed) outcome event where "db' = db" and "duplicate_failure ctx outcome event = Inr c"
    | (failed) rs where "ftc_error_code cmd \<noteq> []"
        and "fail_locked_task ext ctx cmd now (db\<lparr>db_receipts := rs\<rparr>) = Inr (c, db')"
proof -
  from assms have "ftc_error_code cmd \<noteq> []"
    and "with_receipt ctx now ttl (duplicate_failure ctx) (fail_locked_task ext ctx cmd now) db = Inr (c, db')"
    by (auto simp: fail_task_def txn_iffs)
  from this(2) show thesis
    by (cases rule: with_receipt_cases) (use \<open>ftc_error_code cmd \<noteq> []\<close> that in auto)
qed

section \<open>What a failure changes\<close>

lemma tasks_settled_kept:
  assumes "tasks_settled tenant run now db db'" and "t \<in> set (db_tasks db)" and "t_status t \<noteq> TaskScheduled"
  shows "t \<in> set (db_tasks db')"
proof -
  from assms(1) obtain ts where ts: "db' = db\<lparr>db_tasks := ts\<rparr>"
      "list_all2 (task_settled tenant run now) (db_tasks db) ts"
    by (auto simp: tasks_settled_def)
  from assms(2) obtain n where n: "n < length (db_tasks db)" "db_tasks db ! n = t"
    by (auto simp: in_set_conv_nth)
  then have "task_settled tenant run now t (ts ! n)" and "n < length ts"
    using list_all2_nthD [OF ts(2) n(1)] list_all2_lengthD [OF ts(2)] by simp_all
  then show ?thesis using assms(3) ts(1) by (auto simp: task_settled_def)
qed

lemma failed_task_present:
  assumes "task \<in> set (db_tasks db)" and "t_tenant task = cc_tenant_id ctx" and "t_status task = TaskLeased"
    and "lw_task locked = task"
  shows "fail_leased_task (classify (t_attempt task) (t_max_attempts task) (ftc_retry_at cmd))
      (ftc_error_code cmd) (failure_payload cmd task
        (classify (t_attempt task) (t_max_attempts task) (ftc_retry_at cmd))) now task
    \<in> set (db_tasks (after_failure ctx cmd now locked db))"
  using assms
  by (auto simp: after_failure_def Let_def set_sql_update leased_attempt_of_def image_iff intro!: bexI [of _ task])

lemma close_failed_run_cases:
  assumes "close_failed_run tenant locked transition now db = Inr (stops, db')"
  obtains (alive) "\<not> ft_terminal transition" and "db' = db"
    | (fatal) db1 where "ft_terminal transition"
      and "close_work_after_fatal_failure tenant (r_id (lw_run locked)) (t_id (lw_task locked)) now db
           = Inr ((), db1)"
      and "db_tasks db' = db_tasks db1" and "db_attempts db' = db_attempts db1"
      and "db_waits db' = db_waits db1"
proof (cases "ft_terminal transition")
  case True
  let ?rest = "bindT (request_external_stops tenant (r_id (lw_run locked)) now) (\<lambda>(_, stops).
        bindT (mark_executing_tools_uncertain tenant (r_id (lw_run locked)) now) (\<lambda>reconciles.
        returnT (stops @ reconciles)))"
  have "keeps (\<lambda>d. (db_tasks d, db_attempts d, db_waits d)) ?rest"
    by (intro keeps_intros) simp_all
  moreover obtain db1 where cw: "close_work_after_fatal_failure tenant (r_id (lw_run locked))
      (t_id (lw_task locked)) now db = Inr ((), db1)" and "?rest db1 = Inr (stops, db')"
    using assms True by (simp add: close_failed_run_def thenT_iff) blast
  ultimately show ?thesis by (intro fatal [OF True cw]) (auto dest: keepsD)
qed (use assms in \<open>simp add: close_failed_run_def txn_iffs alive\<close>)

lemma close_failed_run_attempts:
  assumes "close_failed_run tenant locked transition now db = Inr (stops, db')"
    and "a \<in> set (db_attempts db')" and "a_finished_at a = None"
  shows "a \<in> set (db_attempts db)"
  using assms(1)
proof (cases rule: close_failed_run_cases)
  case (fatal db1)
  then have "a \<in> set (sql_update (\<lambda>a. a_tenant a = tenant \<and> a_run a = r_id (lw_run locked)
        \<and> a_task a \<noteq> t_id (lw_task locked) \<and> a_finished_at a = None)
      (close_attempt AttemptCancelled (Some ''run_failed'') now) (db_attempts db))"
    using assms(2) close_work_effect [OF fatal(2)] by simp
  then show ?thesis
    by (rule in_sql_updateE) (use assms(3) in \<open>auto simp: close_attempt_def split: if_splits\<close>)
qed (use assms in simp)

lemma close_failed_run_kept:
  assumes "close_failed_run tenant locked transition now db = Inr (stops, db')"
    and "t \<in> set (db_tasks db)" and "t_id t = t_id (lw_task locked)"
  shows "t \<in> set (db_tasks db')"
  using assms(1)
proof (cases rule: close_failed_run_cases)
  case (fatal db1)
  then have "db_tasks db' = sql_update (\<lambda>t. t_tenant t = tenant \<and> t_run t = r_id (lw_run locked)
        \<and> t_id t \<noteq> t_id (lw_task locked) \<and> closable_task (t_status t))
      (cancel_task (Some ''run_failed'') now) (db_tasks db)"
    using close_work_effect [OF fatal(2)] by simp
  then show ?thesis
    using assms(2,3) by (auto simp: set_sql_update image_iff intro!: bexI [of _ t])
qed (use assms in simp)

text \<open>A fatal failure leaves no open task and no open wait in the run.\<close>

lemma close_failed_run_closes:
  assumes "close_failed_run tenant locked transition now db = Inr (stops, db')" and "ft_terminal transition"
  shows "(\<forall>u \<in> set (db_tasks db'). t_tenant u = tenant \<and> t_run u = r_id (lw_run locked)
           \<longrightarrow> task_terminal (t_status u) \<or> u \<in> set (db_tasks db) \<and> t_id u = t_id (lw_task locked))
    \<and> (\<forall>w \<in> set (db_waits db'). w_tenant w = tenant \<and> w_run w = r_id (lw_run locked)
           \<longrightarrow> w_status w \<noteq> WaitOpen)"
  using assms(1)
proof (cases rule: close_failed_run_cases)
  case (fatal db1)
  note same = fatal(3,5)
  note eff = close_work_effect [OF fatal(2)]
  have "task_terminal (t_status u) \<or> u \<in> set (db_tasks db) \<and> t_id u = t_id (lw_task locked)"
    if "u \<in> set (db_tasks db')" and "t_tenant u = tenant \<and> t_run u = r_id (lw_run locked)" for u
  proof -
    from that(1) eff same(1) have "u \<in> set (sql_update (\<lambda>t. t_tenant t = tenant
        \<and> t_run t = r_id (lw_run locked) \<and> t_id t \<noteq> t_id (lw_task locked) \<and> closable_task (t_status t))
        (cancel_task (Some ''run_failed'') now) (db_tasks db))" by simp
    then obtain v where "v \<in> set (db_tasks db)" and "u = (if t_tenant v = tenant
        \<and> t_run v = r_id (lw_run locked) \<and> t_id v \<noteq> t_id (lw_task locked) \<and> closable_task (t_status v)
        then cancel_task (Some ''run_failed'') now v else v)" by (rule in_sql_updateE)
    then show ?thesis
      using that(2) not_closable [of "t_status v"]
      by (auto simp: cancel_task_def status_sets split: if_splits)
  qed
  moreover have "w_status w \<noteq> WaitOpen"
    if "w \<in> set (db_waits db')" and "w_tenant w = tenant \<and> w_run w = r_id (lw_run locked)" for w
  proof -
    have "w \<in> set (sql_update (\<lambda>w. w_tenant w = tenant \<and> w_run w = r_id (lw_run locked)
          \<and> w_status w = WaitOpen)
       (\<lambda>w. w\<lparr>w_status := WaitCancelled, w_active_slot := None, w_updated_at := now\<rparr>) (db_waits db))"
      using that(1) eff same(2) by simp
    then show ?thesis by (rule in_sql_updateE) (use that(2) in \<open>auto split: if_splits\<close>)
  qed
  ultimately show ?thesis by blast
qed (use assms(2) in simp)

lemma classify_cases:
  "ft_task_status (classify a m r) = (if r \<noteq> None \<and> a < m then TaskRetryScheduled
      else if a \<ge> m then TaskDeadLettered else TaskFailed)"
  "ft_terminal (classify a m r) \<longleftrightarrow> r = None \<and> a < m"
  "run_terminal (ft_run_status (classify a m r)) \<longleftrightarrow> r = None \<and> a < m"
  "ft_terminal (classify a m r) \<Longrightarrow> ft_run_status (classify a m r) = RunFailed"
  by (auto simp: classify_def status_sets split: if_splits)

lemma settle_failure_transition:
  assumes "settle_failure ext tenant locked planned now db = Inr ((transition, follow_ups), db')"
  shows "transition = planned \<or> ft_run_status transition = RunQueued \<and> \<not> ft_terminal transition"
  using assms by (cases rule: settle_failure_cases) auto

text \<open>The run of the task advances.\<close>

lemma fail_locked_task_advances:
  assumes "fail_locked_task ext ctx cmd now db1 = Inr (c, db')" and "runs_ok db" and "task_keys_ok db1"
    and "db_runs db1 = db_runs db" and "db_events db1 = db_events db" and "db_outbox db1 = db_outbox db"
  shows "advances db db'"
  using assms(1)
proof (cases rule: fail_locked_task_cases)
  case (1 locked transition activated stops rs db2 db3)
  let ?r = "lw_run locked"
  let ?f = "failed_run transition (ftc_failure_event_id cmd) (r_version ?r + 1) (r_next_seq ?r + 1) now"
  let ?e = "failure_event ctx cmd locked
      (classify (t_attempt (lw_task locked)) (t_max_attempts (lw_task locked)) (ftc_retry_at cmd)) now"
  have r: "?r \<in> set (db_runs db)" "r_tenant ?r = cc_tenant_id ctx"
    using find_run_Some [OF 1(1)] assms(4) by simp_all
  have live: "\<not> run_terminal (r_status ?r)" using 1(3) by (simp add: validate_worker_fences_Inr)
  have settled: "tasks_settled (cc_tenant_id ctx) (r_id ?r) now (after_failure ctx cmd now locked db1) db2"
    using settle_failure_settled [OF 1(5)] task_keys_after_failure [OF assms(3)] by simp
  have "keeps (\<lambda>d. (db_runs d, db_events d, db_outbox d)) (close_failed_run (cc_tenant_id ctx) locked transition now)"
    by (intro keeps_intros) simp_all
  from keepsD [OF this 1(6)] settled
  have same: "db_runs db3 = db_runs db" "db_events db3 = db_events db @ [event_row_of ?e]"
      "db_outbox db3 = db_outbox db @ [outbox_row_of ?e]"
    using assms(4-6) by (auto simp: tasks_settled_def after_failure_def Let_def)
  have fits: "run_failing ?r ?r"
  proof -
    obtain q where "q \<in> set (db_runs db)" "run_failing ?r q"
      using sql_count_1E [OF 1(8)] same(1) by metis
    moreover from this have "q = ?r"
      using r(1) runs_ok_keys [OF assms(2)]
      by (auto simp: run_failing_def run_at_def run_keys_ok_def dest: distinct_map_inj)
    ultimately show ?thesis by simp
  qed
  have upd: "sql_update (run_failing ?r) ?f (db_runs db) = sql_update (same_run ?r) (\<lambda>_. ?f ?r) (db_runs db)"
    by (rule sql_update_one_run [OF runs_ok_keys [OF assms(2)] r(1)])
       (use fits in \<open>auto simp: run_failing_def run_at_def same_run_def\<close>)
  have "run_checks (?f ?r)" using updates_passD [OF 1(7)] r(1) fits same(1) by simp
  moreover have "same_run ?r (?f ?r)" "r_version (?f ?r) = r_version ?r + 1"
      "r_next_seq (?f ?r) = r_next_seq ?r + 1" "r_generation (?f ?r) = r_generation ?r"
    by (simp_all add: failed_run_def same_run_def)
  ultimately show ?thesis
    unfolding advances_def using r live same upd 1(9)
    by (intro exI [of _ ?r] exI [of _ "?f ?r"] exI [of _ ?e]) simp
qed

lemma fail_task_effect:
  assumes "runs_ok db" and "task_keys_ok db" and "fail_task ext ttl ctx cmd now db = Inr (c, db')"
  shows "quiet db db' \<or> advances db db'"
  using assms(3)
proof (cases rule: fail_task_cases)
  case (failed rs)
  have "task_keys_ok (db\<lparr>db_receipts := rs\<rparr>)" using assms(2) by (simp add: task_keys_ok_def)
  from fail_locked_task_advances [OF failed(2) assms(1) this] show ?thesis by simp
qed simp

text \<open>
  C8: a failure that is applied presents a live lease. The task gives the lease up and is
  scheduled again when a retry time was given and it has an attempt left, dead-lettered when it
  has none, and failed otherwise; its attempt is closed, and the run advances by one event. The
  run ends only as failed, only when the task failed with attempts left and no retry, and then
  no task of the run is left open and no wait of it is left to be consumed.
\<close>

theorem fail_task_closes_lease:
  assumes "runs_ok db" and "task_keys_ok db" and "fail_task ext ttl ctx cmd now db = Inr (c, db')"
    and "disposition c = Applied"
  shows "\<exists>run task t'. run \<in> set (db_runs db) \<and> task \<in> set (db_tasks db)
     \<and> r_id run = er_run_id (ftc_expected_run cmd) \<and> t_run task = r_id run
     \<and> r_tenant run = cc_tenant_id ctx \<and> t_id task = lp_task_id (ftc_lease cmd)
     \<and> r_status run \<noteq> RunPaused \<and> \<not> run_terminal (r_status run)
     \<and> t_status task = TaskLeased \<and> t_lease_owner task = Some (lp_worker_id (ftc_lease cmd))
     \<and> t_lease_token task = Some (lp_token (ftc_lease cmd))
     \<and> (\<exists>expires. t_lease_expires_at task = Some expires \<and> now < expires)
     \<and> t' \<in> set (db_tasks db') \<and> t_id t' = t_id task \<and> t_lease_owner t' = None
     \<and> t_status t' = (if ftc_retry_at cmd \<noteq> None \<and> t_attempt task < t_max_attempts task
          then TaskRetryScheduled
          else if t_attempt task \<ge> t_max_attempts task then TaskDeadLettered else TaskFailed)
     \<and> (\<forall>a \<in> set (db_attempts db').
          \<not> open_attempt (cc_tenant_id ctx) (t_id task) (t_attempt task) a)
     \<and> advances db db'
     \<and> (run_terminal (rs_status (committed_value c)) \<longrightarrow>
          rs_status (committed_value c) = RunFailed \<and> t_status t' = TaskFailed
          \<and> (\<forall>u \<in> set (db_tasks db'). t_tenant u = cc_tenant_id ctx \<and> t_run u = r_id run
               \<longrightarrow> task_terminal (t_status u))
          \<and> (\<forall>w \<in> set (db_waits db'). w_tenant w = cc_tenant_id ctx \<and> w_run w = r_id run
               \<longrightarrow> w_status w \<noteq> WaitOpen))"
proof -
  from assms(3) show ?thesis
  proof (cases rule: fail_task_cases)
    case (replayed outcome event)
    then have "disposition c = Duplicate" by (auto simp: duplicate_failure_def result_iffs)
    then show ?thesis using assms(4) by simp
  next
    case (failed rs0)
    let ?db1 = "db\<lparr>db_receipts := rs0\<rparr>"
    have keys: "task_keys_ok ?db1" using assms(2) by (simp add: task_keys_ok_def)
    have adv: "advances db db'"
      using fail_locked_task_advances [OF failed(2) assms(1) keys] by simp
    from failed(2) show ?thesis
    proof (cases rule: fail_locked_task_cases)
      case (1 locked transition activated stops rs db2 db3)
      let ?t = "lw_task locked" and ?r = "lw_run locked"
      let ?planned = "classify (t_attempt ?t) (t_max_attempts ?t) (ftc_retry_at cmd)"
      let ?t' = "fail_leased_task ?planned (ftc_error_code cmd) (failure_payload cmd ?t ?planned) now ?t"
      let ?after = "after_failure ctx cmd now locked ?db1"
      note fences = 1(3) [unfolded validate_worker_fences_Inr]
      have r: "?r \<in> set (db_runs db)" "r_tenant ?r = cc_tenant_id ctx" "r_id ?r = er_run_id (ftc_expected_run cmd)"
        using find_run_Some [OF 1(1)] by simp_all
      have t: "?t \<in> set (db_tasks db)" "t_tenant ?t = cc_tenant_id ctx" "t_id ?t = lp_task_id (ftc_lease cmd)"
        using find_task_Some [OF 1(2)] by simp_all
      have settled: "tasks_settled (cc_tenant_id ctx) (r_id ?r) now ?after db2"
        using settle_failure_settled [OF 1(5)] task_keys_after_failure [OF keys] by simp
      have keys2: "task_keys_ok db2"
        using tasks_settled_keys [OF settled] task_keys_after_failure [OF keys] by simp
      have "?t' \<in> set (db_tasks ?after)"
        by (rule failed_task_present) (use t fences in auto)
      then have t2: "?t' \<in> set (db_tasks db2)"
        by (rule tasks_settled_kept [OF settled]) (auto simp: fail_leased_task_def classify_cases)
      then have t3: "?t' \<in> set (db_tasks db')"
        using close_failed_run_kept [OF 1(6) t2] 1(9) by simp
      have closed: "\<not> open_attempt (cc_tenant_id ctx) (t_id ?t) (t_attempt ?t) a"
        if "a \<in> set (db_attempts db')" for a
      proof
        assume op: "open_attempt (cc_tenant_id ctx) (t_id ?t) (t_attempt ?t) a"
        then have "a \<in> set (db_attempts db2)"
          using close_failed_run_attempts [OF 1(6)] that 1(9) by (simp add: open_attempt_def)
        then have "a \<in> set (db_attempts ?after)" using settled by (auto simp: tasks_settled_def)
        then show False
          using op by (auto simp: after_failure_def Let_def open_attempt_def close_attempt_def
              elim!: in_sql_updateE split: if_splits)
      qed
      have final: "ft_terminal transition" if "run_terminal (ft_run_status transition)"
        using settle_failure_transition [OF 1(5)]
      proof
        assume "transition = ?planned"
        then show ?thesis using that by (simp add: classify_cases)
      qed (use that in \<open>simp add: status_sets\<close>)
      have ended: "transition = ?planned" if "ft_terminal transition"
        using that settle_failure_transition [OF 1(5)] by auto
      have shut: "(\<forall>u \<in> set (db_tasks db'). t_tenant u = cc_tenant_id ctx \<and> t_run u = r_id ?r
               \<longrightarrow> task_terminal (t_status u))
          \<and> (\<forall>w \<in> set (db_waits db'). w_tenant w = cc_tenant_id ctx \<and> w_run w = r_id ?r
               \<longrightarrow> w_status w \<noteq> WaitOpen) \<and> ft_run_status transition = RunFailed
          \<and> t_status ?t' = TaskFailed" if "run_terminal (ft_run_status transition)"
      proof -
        note fin = final [OF that]
        have st: "t_status ?t' = TaskFailed"
          using fin ended [OF fin] by (simp add: fail_leased_task_def classify_cases)
        have "task_terminal (t_status u)"
          if "u \<in> set (db_tasks db2)" "t_id u = t_id ?t" for u
        proof -
          have "u = ?t'"
            using keys2 that t2 unfolding task_keys_ok_def by (auto dest: distinct_map_inj)
          then show ?thesis using st by (simp add: status_sets)
        qed
        then show ?thesis
          using close_failed_run_closes [OF 1(6) fin] st fin ended [OF fin] 1(9)
          by (auto simp: classify_cases)
      qed
      have "t_status ?t' = ft_task_status ?planned" "t_lease_owner ?t' = None" "t_id ?t' = t_id ?t"
        by (simp_all add: fail_leased_task_def)
      then show ?thesis
        using r t fences t3 closed adv shut 1(12)
        by (intro exI [of _ ?r] exI [of _ ?t] exI [of _ ?t']) (auto simp: classify_cases)
    qed
  qed
qed

section \<open>A concrete failure\<close>

definition sample_failure :: fail_task_command where
  "sample_failure = \<lparr> ftc_expected_run = sample_expected, ftc_lease = sample_proof,
     ftc_failure_event_id = 77, ftc_error_code = ''boom'', ftc_retry_at = Some 500 \<rparr>"

lemmas fail_eval = fail_task_def fail_locked_task_def lock_worker_task_def validate_worker_fences_def
  expectation_changed_def classify_def finalize_failed_task_def leased_attempt_of_def
  fail_leased_task_def open_attempt_def close_attempt_def failure_payload_def failure_event_def
  settle_failure_def close_failed_run_def run_failing_def failed_run_def failure_committed_def
  run_at_def Let_def status_sets

theorem fail_task_closes_lease_witness:
  "\<exists>c db'. fail_task sample_ext 1000 (sample_context 73 ''f1'') sample_failure 110 sample_leased_db
       = Inr (c, db')
     \<and> advances sample_leased_db db'
     \<and> (\<exists>t' \<in> set (db_tasks db'). t_id t' = 2 \<and> t_status t' = TaskRetryScheduled)"
proof -
  have "\<exists>c db'. fail_task sample_ext 1000 (sample_context 73 ''f1'') sample_failure 110 sample_leased_db
      = Inr (c, db') \<and> disposition c = Applied"
    by (simp add: sample_failure_def sample_defs fail_eval txn_eval)
  then obtain c db' where run: "fail_task sample_ext 1000 (sample_context 73 ''f1'') sample_failure 110
      sample_leased_db = Inr (c, db')" and "disposition c = Applied" by blast
  from fail_task_closes_lease [OF sample_leased_keys this]
  show ?thesis
    using run by (auto simp: sample_defs sample_failure_def)
qed

section \<open>A failure is a run command\<close>

lemma fail_task_keys:
  assumes "task_keys_ok db" and "fail_task ext ttl ctx cmd now db = Inr (c, db')"
  shows "task_keys_ok db'"
  using assms(2)
proof (cases rule: fail_task_cases)
  case (failed rs0)
  have keys: "task_keys_ok (db\<lparr>db_receipts := rs0\<rparr>)" using assms(1) by (simp add: task_keys_ok_def)
  from failed(2) show ?thesis
  proof (cases rule: fail_locked_task_cases)
    case (1 locked transition activated stops rs db2 db3)
    have "task_keys_ok db2"
      using tasks_settled_keys [OF settle_failure_settled [OF 1(5) task_keys_after_failure [OF keys]]]
        task_keys_after_failure [OF keys] by simp
    moreover have "map t_id (db_tasks db3) = map t_id (db_tasks db2)"
      using 1(6)
    proof (cases rule: close_failed_run_cases)
      case (fatal db1)
      then show ?thesis
        using close_work_effect [OF fatal(2)] by (simp add: map_sql_update_same cancel_task_def)
    qed simp
    ultimately show ?thesis using 1(9) by (simp add: task_keys_ok_def)
  qed
qed (use assms(1) in simp)

interpretation fail_cmd: run_command
  "\<lambda>(ext, ttl, ctx, cmd, now). fail_task ext ttl ctx cmd now"
  by unfold_locales (auto dest: fail_task_effect [OF store_okD] fail_task_keys [OF store_okD(2)])

end
