(* ===== verification/Waits.thy ===== *)
theory Waits
  imports TaskFailure
begin

text \<open>
  External events: \<open>apply_event\<close> of \<open>transaction_executor.rs\<close> matches an event against the open
  waits of a run, consumes exactly one, queues the task the wait resumes and advances the run. The
  scan for the candidate wait runs before the run is locked, so the database it reads is an
  argument.
\<close>

section \<open>Inserting a task\<close>

text \<open>\<open>INSERT INTO tasks\<close> with its keys, references and checks.\<close>

definition insert_task :: "task_row \<Rightarrow> unit txn" where
  "insert_task t =
    thenT (guardT (task_checks t \<and> t_key t \<noteq> []
             \<and> (case t_checkpoint_seq t of None \<Rightarrow> True | Some s \<Rightarrow> 1 \<le> s)
             \<and> (case t_deadline t of None \<Rightarrow> True | Some d \<Rightarrow> t_created_at t \<le> d)) check_violation)
    (thenT (\<lambda>db. guardT (\<not> sql_exists (\<lambda>u. t_id u = t_id t
               \<or> (t_tenant u = t_tenant t \<and> t_run u = t_run t \<and> t_key u = t_key t
                  \<and> t_generation u = t_generation t)) (db_tasks db)) unique_violation db)
    (thenT (\<lambda>db. guardT (find_run (t_tenant t) (t_run t) db \<noteq> None
              \<and> (case t_stage t of None \<Rightarrow> True
                 | Some s \<Rightarrow> sql_exists (\<lambda>r. s_tenant r = t_tenant t \<and> s_run r = t_run t \<and> s_id r = s)
                              (db_stages db))
              \<and> sql_exists (\<lambda>e. e_tenant e = t_tenant t \<and> e_run e = t_run t \<and> e_id e = t_created_event t)
                  (db_events db)) foreign_key_violation db)
    (modifyT (\<lambda>db. db\<lparr>db_tasks := db_tasks db @ [t]\<rparr>))))"

lemma insert_task_effect:
  assumes "insert_task t db = Inr (u, db')"
  obtains "db' = db\<lparr>db_tasks := db_tasks db @ [t]\<rparr>" and "task_checks t"
    and "\<forall>v \<in> set (db_tasks db). t_id v \<noteq> t_id t"
    and "\<forall>v \<in> set (db_tasks db). \<not> (t_tenant v = t_tenant t \<and> t_run v = t_run t \<and> t_key v = t_key t
           \<and> t_generation v = t_generation t)"
  using assms by (auto simp: insert_task_def txn_iffs sql_exists_iff)

lemma insert_task_keys:
  "insert_task t db = Inr (u, db') \<Longrightarrow> task_keys_ok db \<Longrightarrow> task_keys_ok db'"
  by (erule insert_task_effect) (fastforce simp: task_keys_ok_def)

lemma keeps_insert_task [keeps_intros]:
  "(\<And>db v. g (db\<lparr>db_tasks := v\<rparr>) = g db) \<Longrightarrow> keeps g (insert_task t)"
  by (auto simp: keeps_def elim!: insert_task_effect)

section \<open>The command and its waits\<close>

datatype signature_verification = SigVerified | SigNotRequired | SigFailed

record apply_event_command =
  aec_expected_run :: expected_run
  aec_event_id :: uuid
  aec_event_type :: string
  aec_match_key_hash :: digest
  aec_payload_schema_version :: nat
  aec_payload :: json_payload
  aec_signature_verification :: signature_verification
  aec_occurred_at :: "micros option"

definition validate_apply_event :: "apply_event_command \<Rightarrow> unit store_result" where
  "validate_apply_event cmd =
    (if aec_event_type cmd = [] \<or> aec_payload_schema_version cmd = 0
     then Inl (invalid_command ''external event type and payload schema version must be present'')
     else if aec_signature_verification cmd = SigFailed
     then Inl (invalid_command ''external event signature verification failed'')
     else Inr ())"

definition wait_matches :: "uuid \<Rightarrow> uuid \<Rightarrow> string \<Rightarrow> digest \<Rightarrow> wait_row \<Rightarrow> bool" where
  "wait_matches tenant run event_type match_hash w \<longleftrightarrow> w_tenant w = tenant \<and> w_run w = run
     \<and> w_event_type w = event_type \<and> w_match_hash w = match_hash"

text \<open>The first two open matches by id; two of them are refused.\<close>

definition find_wait_candidate ::
  "uuid \<Rightarrow> uuid \<Rightarrow> string \<Rightarrow> digest \<Rightarrow> db \<Rightarrow> (uuid \<times> uuid option) option store_result" where
  "find_wait_candidate tenant run event_type match_hash db =
    (case sort_key w_id (filter (\<lambda>w. wait_matches tenant run event_type match_hash w
            \<and> w_status w = WaitOpen) (db_waits db)) of
       [] \<Rightarrow> Inr None
     | [w] \<Rightarrow> Inr (Some (w_id w, w_stage w))
     | _ \<Rightarrow> Inl (store_error_of WaitMismatch ''external event matches more than one open wait''))"

definition validate_event_run :: "expected_run \<Rightarrow> locked_event_run \<Rightarrow> micros \<Rightarrow> unit store_result" where
  "validate_event_run expected locked now =
    (let run = le_run locked in
     if run_terminal (r_status run) then Inl (store_error_of TerminalRun ''run is terminal'')
     else if expectation_changed (er_version expected) (r_version run)
             \<or> expectation_changed (er_execution_generation expected) (r_generation run)
     then Inl (store_error_of VersionConflict ''run expectation changed'')
     else if (case r_deadline run of None \<Rightarrow> False | Some deadline \<Rightarrow> deadline \<le> now)
     then Inl (store_error_of DeadlineExceeded ''run deadline has elapsed'')
     else Inr ())"

text \<open>Why no open wait matched, from the latest wait of that kind.\<close>

definition classify_wait_miss ::
  "uuid \<Rightarrow> uuid \<Rightarrow> string \<Rightarrow> digest \<Rightarrow> micros \<Rightarrow> db \<Rightarrow> store_error" where
  "classify_wait_miss tenant run event_type match_hash now db =
    (case sort_key (\<lambda>w. (- w_updated_at w, w_id w))
            (filter (wait_matches tenant run event_type match_hash) (db_waits db)) of
       [] \<Rightarrow> store_error_of WaitMismatch ''external event does not match an open wait''
     | w # _ \<Rightarrow> (case w_status w of
           WaitConsumed \<Rightarrow> store_error_of WaitAlreadyConsumed ''matching wait was already consumed''
         | WaitExpired \<Rightarrow> store_error_of WaitExpiredError ''matching wait expired''
         | WaitOpen \<Rightarrow>
             (if (case w_expires_at w of None \<Rightarrow> False | Some expires \<Rightarrow> expires \<le> now)
              then store_error_of WaitExpiredError ''matching wait expired''
              else inconsistent ''open wait candidate scan disagrees with wait history'')
         | WaitCancelled \<Rightarrow> store_error_of WaitMismatch ''matching wait was cancelled''))"

definition lock_event_stage :: "uuid \<Rightarrow> uuid \<Rightarrow> uuid option \<Rightarrow> unit txn" where
  "lock_event_stage tenant run stage = (case stage of
      None \<Rightarrow> returnT ()
    | Some s \<Rightarrow> (\<lambda>db. guardT (sql_exists (\<lambda>r. s_tenant r = tenant \<and> s_run r = run \<and> s_id r = s)
                   (db_stages db)) (inconsistent ''wait references a missing stage'') db))"

definition lock_wait :: "uuid \<Rightarrow> uuid \<Rightarrow> uuid \<Rightarrow> wait_row txn" where
  "lock_wait tenant run wait_id = (\<lambda>db. liftT
     (ok_or (find (\<lambda>w. w_tenant w = tenant \<and> w_run w = run \<and> w_id w = wait_id) (db_waits db))
        (inconsistent ''wait candidate disappeared'')) db)"

section \<open>The contract of a wait\<close>

fun check_required :: "(string \<times> json) list \<Rightarrow> json list \<Rightarrow> unit store_result" where
  "check_required payload [] = Inr ()"
| "check_required payload (field # others) =
     bindR (ok_or (as_str field) (inconsistent ''wait required contract contains a non-string'')) (\<lambda>key.
     if json_get payload key = None
     then Inl (store_error_of WaitMismatch ''event payload does not satisfy the wait contract'')
     else check_required payload others)"

definition contract_mismatch :: store_error where
  "contract_mismatch = store_error_of WaitMismatch ''event payload does not satisfy the wait contract''"

definition validate_match_contract :: "json \<Rightarrow> json \<Rightarrow> unit store_result" where
  "validate_match_contract contract payload =
    bindR (ok_or (as_object contract) (inconsistent ''wait match contract is not a JSON object''))
      (\<lambda>contract.
    bindR (case json_get contract ''required'' of
        None \<Rightarrow> Inr ()
      | Some required \<Rightarrow>
          bindR (ok_or (as_array required) (inconsistent ''wait required contract is not an array''))
            (\<lambda>required.
          bindR (ok_or (as_object payload) contract_mismatch) (\<lambda>payload.
          check_required payload required))) (\<lambda>_.
    (case json_get contract ''equals'' of
        None \<Rightarrow> Inr ()
      | Some equals \<Rightarrow>
          bindR (ok_or (as_object equals) (inconsistent ''wait equals contract is not an object''))
            (\<lambda>equals.
          bindR (ok_or (as_object payload) contract_mismatch) (\<lambda>payload.
          if list_ex (\<lambda>(key, expected). json_get payload key \<noteq> Some expected) equals
          then Inl contract_mismatch else Inr ())))))"

definition validate_locked_wait ::
  "externals \<Rightarrow> apply_event_command \<Rightarrow> wait_row \<Rightarrow> micros \<Rightarrow> unit store_result" where
  "validate_locked_wait ext cmd wait now =
    (if w_status wait \<noteq> WaitOpen
     then Inl (case w_status wait of
         WaitConsumed \<Rightarrow> store_error_of WaitAlreadyConsumed ''matching wait was already consumed''
       | WaitExpired \<Rightarrow> store_error_of WaitExpiredError ''matching wait expired''
       | _ \<Rightarrow> store_error_of WaitMismatch ''matching wait is not open'')
     else if w_event_type wait \<noteq> aec_event_type cmd \<or> w_match_hash wait \<noteq> aec_match_key_hash cmd
     then Inl (store_error_of WaitMismatch ''external event no longer matches the locked wait'')
     else if (case w_expires_at wait of None \<Rightarrow> False | Some expires \<Rightarrow> expires \<le> now)
     then Inl (store_error_of WaitExpiredError ''matching wait expired'')
     else if (case w_resume_deadline wait of None \<Rightarrow> False | Some deadline \<Rightarrow> deadline \<le> now)
     then Inl (store_error_of DeadlineExceeded ''wait resume task deadline has elapsed'')
     else bindR (positive_u32 (w_resume_max_attempts wait) ''wait resume max attempts'') (\<lambda>_.
       bindR (case parse_logical_key (w_resume_key wait) of
                Inl _ \<Rightarrow> Inl (inconsistent ''wait contains an invalid resume task logical key'')
              | Inr k \<Rightarrow> Inr k) (\<lambda>_.
       bindR (json_value ext (aec_payload cmd)) (\<lambda>payload.
       validate_match_contract (w_contract wait) payload))))"

section \<open>The handler\<close>

definition consumed_wait :: "uuid \<Rightarrow> micros \<Rightarrow> wait_row \<Rightarrow> wait_row" where
  "consumed_wait event_id now w = w\<lparr>w_status := WaitConsumed, w_active_slot := None,
     w_consumed_by := Some event_id, w_consumed_at := Some now, w_updated_at := now\<rparr>"

definition consume_wait :: "uuid \<Rightarrow> uuid \<Rightarrow> uuid \<Rightarrow> micros \<Rightarrow> unit txn" where
  "consume_wait tenant wait_id event_id now =
    bindT (update_waits (\<lambda>w. w_tenant w = tenant \<and> w_id w = wait_id \<and> w_status w = WaitOpen)
       (consumed_wait event_id now)) (\<lambda>updated.
    guardT (updated = 1)
      (store_error_of WaitAlreadyConsumed ''matching wait was consumed concurrently''))"

definition reactivate_waiting_stage ::
  "uuid \<Rightarrow> uuid \<Rightarrow> uuid option \<Rightarrow> string \<Rightarrow> micros \<Rightarrow> unit txn" where
  "reactivate_waiting_stage tenant run stage wait_type now = (case stage of
      None \<Rightarrow> returnT ()
    | Some stage_id \<Rightarrow>
        (if wait_type \<noteq> ''approval'' then returnT ()
         else let P = (\<lambda>s. s_tenant s = tenant \<and> s_run s = run \<and> s_id s = stage_id
                         \<and> s_status s = StageWaitingApproval) in
           thenT (\<lambda>db. guardT (increments_in_range P s_version (db_stages db)) bigint_out_of_range db)
           (bindT (update_stages P (\<lambda>s. s\<lparr>s_status := StageActive, s_version := s_version s + 1,
                      s_updated_at := now\<rparr>)) (\<lambda>updated.
            guardT (updated = 1)
              (store_error_of InvalidTransition ''approval wait stage is not waiting for approval'')))))"

definition resume_task_row ::
  "uuid \<Rightarrow> uuid \<Rightarrow> uuid \<Rightarrow> micros \<Rightarrow> int \<Rightarrow> int \<Rightarrow> wait_row \<Rightarrow> string \<Rightarrow> json \<Rightarrow> bool \<Rightarrow> task_row" where
  "resume_task_row tenant run event_id now generation checkpoint_seq wait event_type payload paused =
    \<lparr> t_id = w_resume_task wait, t_tenant = tenant, t_run = run, t_stage = w_stage wait,
      t_key = w_resume_key wait, t_kind = w_resume_kind wait,
      t_status = (if paused then TaskScheduled else TaskQueued), t_join_policy = JoinAll,
      t_generation = generation, t_checkpoint_seq = Some checkpoint_seq,
      t_priority = w_resume_priority wait, t_available_at = now, t_attempt = 0,
      t_max_attempts = w_resume_max_attempts wait, t_lease_owner = None, t_lease_token = None,
      t_lease_expires_at = None,
      t_input = JObject [(''wait_id'', json_uuid (w_id wait)), (''event_id'', json_uuid event_id),
        (''event_type'', JString event_type), (''event_payload'', payload),
        (''resume_input'', w_resume_input wait)],
      t_result = None, t_error_code = None, t_error = None, t_deadline = w_resume_deadline wait,
      t_created_event = event_id, t_created_at = now, t_updated_at = now, t_completed_at = None \<rparr>"

lemma resume_task_sel [simp]:
  "t_id (resume_task_row tenant run e now g cs w et p paused) = w_resume_task w"
  "t_status (resume_task_row tenant run e now g cs w et p paused)
     = (if paused then TaskScheduled else TaskQueued)"
  "t_run (resume_task_row tenant run e now g cs w et p paused) = run"
  "t_tenant (resume_task_row tenant run e now g cs w et p paused) = tenant"
  "t_attempt (resume_task_row tenant run e now g cs w et p paused) = 0"
  by (simp_all add: resume_task_row_def)

definition run_has_leased_task :: "uuid \<Rightarrow> uuid \<Rightarrow> db \<Rightarrow> bool" where
  "run_has_leased_task tenant run db =
     sql_exists (\<lambda>t. t_tenant t = tenant \<and> t_run t = run \<and> t_status t = TaskLeased) (db_tasks db)"

definition external_event ::
  "command_context \<Rightarrow> apply_event_command \<Rightarrow> run_row \<Rightarrow> json \<Rightarrow> micros \<Rightarrow> event_insert" where
  "external_event ctx cmd run payload now =
    \<lparr> ei_event_id = aec_event_id cmd, ei_tenant_id = cc_tenant_id ctx,
      ei_run_id = er_run_id (aec_expected_run cmd), ei_sequence = r_next_seq run,
      ei_event_type = aec_event_type cmd, ei_payload = payload,
      ei_payload_schema_version = int (aec_payload_schema_version cmd),
      ei_producer = (if aec_signature_verification cmd = SigVerified
                     then ''external-verified'' else ''external-trusted''),
      ei_context = ctx, ei_correlation_id = cc_correlation_id ctx,
      ei_occurred_at = aec_occurred_at cmd, ei_recorded_at = now \<rparr>"

lemma external_event_sel [simp]:
  "ei_tenant_id (external_event ctx cmd run payload now) = cc_tenant_id ctx"
  "ei_run_id (external_event ctx cmd run payload now) = er_run_id (aec_expected_run cmd)"
  "ei_sequence (external_event ctx cmd run payload now) = r_next_seq run"
  "ei_event_id (external_event ctx cmd run payload now) = aec_event_id cmd"
  by (simp_all add: external_event_def)

definition run_resumed :: "run_status \<Rightarrow> int \<Rightarrow> int \<Rightarrow> micros \<Rightarrow> run_row \<Rightarrow> run_row" where
  "run_resumed status next_version next_seq now r = r\<lparr>r_status := status,
     r_suspended_from := (if status = RunPaused then r_suspended_from r else None),
     r_version := next_version, r_next_seq := next_seq, r_updated_at := now\<rparr>"

definition apply_locked_event ::
  "externals \<Rightarrow> command_context \<Rightarrow> apply_event_command \<Rightarrow> micros \<Rightarrow> locked_event_run \<Rightarrow> wait_row
   \<Rightarrow> run_snapshot committed txn" where
  "apply_locked_event ext ctx cmd now locked wait =
    (let tenant = cc_tenant_id ctx; run = le_run locked; run_id = er_run_id (aec_expected_run cmd);
         event_id = aec_event_id cmd; paused = (r_status run = RunPaused) in
    bindT (liftT (json_value ext (aec_payload cmd))) (\<lambda>payload.
    thenT (insert_event (external_event ctx cmd run payload now))
    (thenT (consume_wait tenant (w_id wait) event_id now)
    (thenT (reactivate_waiting_stage tenant run_id (w_stage wait) (w_type wait) now)
    (bindT (liftT (ok_or (le_checkpoint_sequence locked)
              (inconsistent ''waiting run has no current checkpoint''))) (\<lambda>checkpoint_seq.
    thenT (insert_task (resume_task_row tenant run_id event_id now (r_generation run) checkpoint_seq
              wait (aec_event_type cmd) payload paused))
    (bindT (queryT (\<lambda>db. if paused then RunPaused
                        else if run_has_leased_task tenant run_id db then RunRunning else RunQueued))
      (\<lambda>target.
    bindT (liftT (checked_add_i64_or (r_version run) 1 (inconsistent ''run version overflow'')))
      (\<lambda>next_version.
    bindT (liftT (checked_add_i64_or (r_next_seq run) 1 (inconsistent ''run event sequence overflow'')))
      (\<lambda>next_seq.
    bindT (update_runs (\<lambda>r. run_at tenant run_id (r_version run) (r_generation run) r
                            \<and> \<not> run_terminal (r_status r))
             (run_resumed target next_version next_seq now)) (\<lambda>updated.
    thenT (guardT (updated = 1)
             (store_error_of VersionConflict ''run changed while applying the event''))
    (bindT (liftT (nonnegative_u64 next_version ''run version'')) (\<lambda>version.
    bindT (liftT (nonnegative_u64 (r_generation run) ''execution generation'')) (\<lambda>generation.
    bindT (liftT (nonnegative_u64 next_seq ''event sequence'')) (\<lambda>sequence.
    let snapshot = \<lparr> rs_tenant_id = tenant, rs_run_id = run_id,
          rs_workflow_version_id = r_workflow_version run, rs_status = target,
          rs_suspended_from_status = (if paused then r_suspended_from run else None),
          rs_version = version, rs_execution_generation = generation,
          rs_next_event_sequence = sequence, rs_current_checkpoint_id = r_checkpoint run,
          rs_terminal_event_id = None, rs_deadline = r_deadline run, rs_updated_at = now \<rparr> in
    thenT (finish_receipt ctx ReceiptApplied (encode_run_receipt snapshot) (Some event_id)
             (Some (''run'', run_id, next_version)))
    (returnT (event_committed Applied snapshot (Some event_id)
       (if paused then None else Some (w_resume_task wait)))))))))))))))))))"

definition duplicate_event ::
  "command_context \<Rightarrow> stored_outcome \<Rightarrow> uuid option \<Rightarrow> run_snapshot committed store_result" where
  "duplicate_event ctx outcome event =
    bindR (decode_run_receipt (cc_tenant_id ctx) outcome) (\<lambda>snapshot.
    Inr (event_committed Duplicate snapshot event None))"

definition apply_event ::
  "externals \<Rightarrow> nat \<Rightarrow> db \<Rightarrow> command_context \<Rightarrow> apply_event_command \<Rightarrow> micros
   \<Rightarrow> run_snapshot committed txn" where
  "apply_event ext ttl scan ctx cmd now =
    (let tenant = cc_tenant_id ctx; run_id = er_run_id (aec_expected_run cmd) in
    thenT (liftT (validate_apply_event cmd))
    (with_receipt ctx now ttl (duplicate_event ctx)
      (bindT (liftT (find_wait_candidate tenant run_id (aec_event_type cmd) (aec_match_key_hash cmd) scan))
        (\<lambda>candidate.
      bindT (lock_event_run tenant run_id) (\<lambda>locked.
      thenT (liftT (validate_event_run (aec_expected_run cmd) locked now))
      (case candidate of
          None \<Rightarrow> (\<lambda>db. Inl (classify_wait_miss tenant run_id (aec_event_type cmd)
                             (aec_match_key_hash cmd) now db))
        | Some (wait_id, stage) \<Rightarrow>
            thenT (lock_event_stage tenant run_id stage)
            (bindT (lock_wait tenant run_id wait_id) (\<lambda>wait.
            thenT (liftT (validate_locked_wait ext cmd wait now))
            (apply_locked_event ext ctx cmd now locked wait)))))))))"

section \<open>Effects\<close>

lemma reactivate_frame:
  assumes "reactivate_waiting_stage tenant run stage wait_type now db = Inr (u, db')"
  obtains ss where "db' = db\<lparr>db_stages := ss\<rparr>"
proof -
  have "\<exists>ss. db' = db\<lparr>db_stages := ss\<rparr>"
  proof (cases "stage = None \<or> wait_type \<noteq> ''approval''")
    case True
    then have "db' = db\<lparr>db_stages := db_stages db\<rparr>"
      using assms by (auto simp: reactivate_waiting_stage_def txn_iffs split: option.splits)
    then show ?thesis by blast
  next
    case False
    then show ?thesis
      using assms by (auto simp: reactivate_waiting_stage_def txn_iffs Let_def)
  qed
  then show ?thesis using that by blast
qed

definition resumed_status :: "run_row \<Rightarrow> db \<Rightarrow> run_status" where
  "resumed_status run db = (if r_status run = RunPaused then RunPaused
     else if run_has_leased_task (r_tenant run) (r_id run) db then RunRunning else RunQueued)"

lemma apply_locked_event_effect:
  assumes "apply_locked_event ext ctx cmd now locked wait db = Inr (c, db')"
    and "r_tenant (le_run locked) = cc_tenant_id ctx"
    and "r_id (le_run locked) = er_run_id (aec_expected_run cmd)"
  obtains payload checkpoint_seq task ss rs where
    "ext_from_slice ext (aec_payload cmd) = Some payload"
    and "le_checkpoint_sequence locked = Some checkpoint_seq"
    and "task = resume_task_row (cc_tenant_id ctx) (r_id (le_run locked)) (aec_event_id cmd) now
           (r_generation (le_run locked)) checkpoint_seq wait (aec_event_type cmd) payload
           (r_status (le_run locked) = RunPaused)"
    and "\<forall>u \<in> set (db_tasks db). t_id u \<noteq> t_id task"
    and "sql_count (\<lambda>w. w_tenant w = cc_tenant_id ctx \<and> w_id w = w_id wait \<and> w_status w = WaitOpen)
           (db_waits db) = 1"
    and "updates_pass run_checks (\<lambda>r. run_at (cc_tenant_id ctx) (r_id (le_run locked))
             (r_version (le_run locked)) (r_generation (le_run locked)) r \<and> \<not> run_terminal (r_status r))
           (run_resumed (rs_status (committed_value c)) (r_version (le_run locked) + 1)
             (r_next_seq (le_run locked) + 1) now) (db_runs db)"
    and "db_waits db' = sql_update (\<lambda>w. w_tenant w = cc_tenant_id ctx \<and> w_id w = w_id wait
           \<and> w_status w = WaitOpen) (consumed_wait (aec_event_id cmd) now) (db_waits db)"
    and "db_tasks db' = db_tasks db @ [task]" and "db_attempts db' = db_attempts db"
    and "db_events db' = db_events db @ [event_row_of (external_event ctx cmd (le_run locked) payload now)]"
    and "db_outbox db' = db_outbox db @ [outbox_row_of (external_event ctx cmd (le_run locked) payload now)]"
    and "db_runs db' = sql_update (\<lambda>r. run_at (cc_tenant_id ctx) (r_id (le_run locked))
             (r_version (le_run locked)) (r_generation (le_run locked)) r \<and> \<not> run_terminal (r_status r))
           (run_resumed (rs_status (committed_value c)) (r_version (le_run locked) + 1)
             (r_next_seq (le_run locked) + 1) now) (db_runs db)"
    and "rs_status (committed_value c) = resumed_status (le_run locked) db"
    and "durable_follow_ups c = (if r_status (le_run locked) = RunPaused then []
           else [FollowTask (w_resume_task wait)])"
    and "task_checks task" and "disposition c = Applied"
  using assms(1) unfolding apply_locked_event_def Let_def assms(3) [symmetric]
  apply (clarsimp simp: txn_iffs consume_wait_def json_value_def ok_or_Inr_iff
      simp del: split_paired_Ex)
  apply (erule finish_receipt_frame)
  apply (erule insert_task_effect)
  apply (erule reactivate_frame)
  apply (rule that)
  apply (simp_all add: resumed_status_def run_has_leased_task_def assms(2) sql_exists_def event_committed_def)
  done

lemma find_wait_candidate_Some:
  assumes "find_wait_candidate tenant run event_type match_hash db = Inr (Some (i, stage))"
  shows "\<exists>w. filter (\<lambda>w. wait_matches tenant run event_type match_hash w \<and> w_status w = WaitOpen)
             (db_waits db) = [w] \<and> w_id w = i \<and> w_stage w = stage"
proof -
  let ?ws = "filter (\<lambda>w. wait_matches tenant run event_type match_hash w \<and> w_status w = WaitOpen)
             (db_waits db)"
  obtain w where w: "sort_key w_id ?ws = [w]" "w_id w = i" "w_stage w = stage"
    using assms by (auto simp: find_wait_candidate_def split: list.splits)
  then have "length ?ws = 1" by (metis length_sort length_Cons list.size(3) One_nat_def)
  then obtain v where v: "?ws = [v]" by (auto simp: length_Suc_conv)
  then have "sort_key w_id ?ws = [v]" by (simp only: v) simp
  then show ?thesis using v w by simp
qed

lemma apply_event_cases:
  assumes "apply_event ext ttl scan ctx cmd now db = Inr (c, db')"
  obtains (replayed) outcome event where "db' = db" and "duplicate_event ctx outcome event = Inr c"
    | (applied) locked wait rs where
        "find_run (cc_tenant_id ctx) (er_run_id (aec_expected_run cmd)) db = Some (le_run locked)"
        and "validate_event_run (aec_expected_run cmd) locked now = Inr ()"
        and "wait \<in> set (db_waits db)" and "w_tenant wait = cc_tenant_id ctx"
        and "w_run wait = er_run_id (aec_expected_run cmd)"
        and "validate_locked_wait ext cmd wait now = Inr ()"
        and "apply_locked_event ext ctx cmd now locked wait (db\<lparr>db_receipts := rs\<rparr>) = Inr (c, db')"
proof -
  let ?body = "bindT (liftT (find_wait_candidate (cc_tenant_id ctx) (er_run_id (aec_expected_run cmd))
        (aec_event_type cmd) (aec_match_key_hash cmd) scan)) (\<lambda>candidate.
      bindT (lock_event_run (cc_tenant_id ctx) (er_run_id (aec_expected_run cmd))) (\<lambda>locked.
      thenT (liftT (validate_event_run (aec_expected_run cmd) locked now))
      (case candidate of
          None \<Rightarrow> (\<lambda>db. Inl (classify_wait_miss (cc_tenant_id ctx) (er_run_id (aec_expected_run cmd))
                             (aec_event_type cmd) (aec_match_key_hash cmd) now db))
        | Some (wait_id, stage) \<Rightarrow>
            thenT (lock_event_stage (cc_tenant_id ctx) (er_run_id (aec_expected_run cmd)) stage)
            (bindT (lock_wait (cc_tenant_id ctx) (er_run_id (aec_expected_run cmd)) wait_id) (\<lambda>wait.
            thenT (liftT (validate_locked_wait ext cmd wait now))
            (apply_locked_event ext ctx cmd now locked wait))))))"
  from assms have "with_receipt ctx now ttl (duplicate_event ctx) ?body db = Inr (c, db')"
    by (auto simp: apply_event_def txn_iffs Let_def)
  then show thesis
  proof (cases rule: with_receipt_cases)
    case replayed
    then show ?thesis using that(1) by blast
  next
    case fresh
    then obtain locked candidate where
        run: "find_run (cc_tenant_id ctx) (er_run_id (aec_expected_run cmd)) db = Some (le_run locked)"
        and val: "validate_event_run (aec_expected_run cmd) locked now = Inr ()"
        and rest: "(case candidate of
          None \<Rightarrow> (\<lambda>db. Inl (classify_wait_miss (cc_tenant_id ctx) (er_run_id (aec_expected_run cmd))
                             (aec_event_type cmd) (aec_match_key_hash cmd) now db))
        | Some (wait_id, stage) \<Rightarrow>
            thenT (lock_event_stage (cc_tenant_id ctx) (er_run_id (aec_expected_run cmd)) stage)
            (bindT (lock_wait (cc_tenant_id ctx) (er_run_id (aec_expected_run cmd)) wait_id) (\<lambda>wait.
            thenT (liftT (validate_locked_wait ext cmd wait now))
            (apply_locked_event ext ctx cmd now locked wait))))
          (db\<lparr>db_receipts := db_receipts db @ [new_receipt ctx now (int ttl)]\<rparr>) = Inr (c, db')"
      by (auto simp: txn_iffs find_run_def)
    have stage: "lock_event_stage tenant run s d = Inr (u, d') \<Longrightarrow> d' = d" for tenant run s d u d'
      by (auto simp: lock_event_stage_def txn_iffs split: option.splits)
    show ?thesis
    proof (cases candidate)
      case None
      then show ?thesis using rest by simp
    next
      case (Some ws)
      obtain wait_id s where "ws = (wait_id, s)" by (cases ws)
      with rest Some obtain wait where
          w: "find (\<lambda>w. w_tenant w = cc_tenant_id ctx \<and> w_run w = er_run_id (aec_expected_run cmd)
                \<and> w_id w = wait_id) (db_waits db) = Some wait"
          "validate_locked_wait ext cmd wait now = Inr ()"
          "apply_locked_event ext ctx cmd now locked wait
             (db\<lparr>db_receipts := db_receipts db @ [new_receipt ctx now (int ttl)]\<rparr>) = Inr (c, db')"
        by (auto simp: txn_iffs lock_wait_def ok_or_Inr_iff dest!: stage)
      from find_Some_in [OF w(1)] show ?thesis
        by (intro that(2) [OF run val _ _ _ w(2,3)]) simp_all
    qed
  qed
qed

definition wait_keys_ok :: "db \<Rightarrow> bool" where
  "wait_keys_ok db \<longleftrightarrow> distinct (map w_id (db_waits db))"

lemma apply_locked_event_advances:
  assumes "apply_locked_event ext ctx cmd now locked wait db1 = Inr (c, db')" and "runs_ok db"
    and "find_run (cc_tenant_id ctx) (er_run_id (aec_expected_run cmd)) db = Some (le_run locked)"
    and "validate_event_run (aec_expected_run cmd) locked now = Inr ()"
    and "db_runs db1 = db_runs db" and "db_events db1 = db_events db" and "db_outbox db1 = db_outbox db"
  shows "advances db db'"
proof -
  let ?r = "le_run locked"
  let ?f = "run_resumed (rs_status (committed_value c)) (r_version ?r + 1) (r_next_seq ?r + 1) now"
  let ?P = "\<lambda>r. run_at (cc_tenant_id ctx) (r_id ?r) (r_version ?r) (r_generation ?r) r
      \<and> \<not> run_terminal (r_status r)"
  have r: "?r \<in> set (db_runs db)" "r_tenant ?r = cc_tenant_id ctx" "r_id ?r = er_run_id (aec_expected_run cmd)"
    using find_run_Some [OF assms(3)] by simp_all
  have live: "\<not> run_terminal (r_status ?r)"
    using assms(4) by (auto simp: validate_event_run_def Let_def split: if_splits)
  have upd: "sql_update ?P ?f (db_runs db) = sql_update (same_run ?r) (\<lambda>_. ?f ?r) (db_runs db)"
    by (rule sql_update_one_run [OF runs_ok_keys [OF assms(2)] r(1)])
       (use r live in \<open>auto simp: run_at_def same_run_def\<close>)
  have "same_run ?r (?f ?r)" "r_version (?f ?r) = r_version ?r + 1"
      "r_next_seq (?f ?r) = r_next_seq ?r + 1" "r_generation (?f ?r) = r_generation ?r"
    by (simp_all add: run_resumed_def same_run_def)
  note new = this
  from assms(1) r(2,3) show ?thesis
  proof (rule apply_locked_event_effect)
    fix payload
    let ?e = "external_event ctx cmd ?r payload now"
    assume pass: "updates_pass run_checks ?P ?f (db_runs db1)"
      and runs: "db_runs db' = sql_update ?P ?f (db_runs db1)"
      and ev: "db_events db' = db_events db1 @ [event_row_of ?e]"
        "db_outbox db' = db_outbox db1 @ [outbox_row_of ?e]"
    have "run_checks (?f ?r)"
      using updates_passD [OF pass, of ?r] r live assms(5) by (simp add: run_at_def)
    then show ?thesis
      unfolding advances_def using r live new upd runs ev assms(5-7)
      by (intro exI [of _ ?r] exI [of _ "?f ?r"] exI [of _ ?e]) simp
  qed
qed

section \<open>What an event changes\<close>

lemma as_object_Some [simp]: "as_object v = Some ms \<longleftrightarrow> v = JObject ms"
  by (cases v) auto

lemma as_array_Some [simp]: "as_array v = Some xs \<longleftrightarrow> v = JArray xs"
  by (cases v) auto

lemma as_str_Some [simp]: "as_str v = Some s \<longleftrightarrow> v = JString s"
  by (cases v) auto

lemma check_required_iff:
  "check_required ps xs = Inr () \<longleftrightarrow> (\<forall>x \<in> set xs. \<exists>k. x = JString k \<and> json_get ps k \<noteq> None)"
  by (induction xs) (auto simp: result_iffs)

text \<open>
  An event satisfies the contract of a wait exactly when the contract is an object, its
  required field, if it has one, is a list of names the payload has, and its equals field, if it
  has one, is an object each member of which the payload has with that value.
\<close>

theorem validate_match_contract_iff:
  "validate_match_contract contract payload = Inr () \<longleftrightarrow>
     (\<exists>ms. contract = JObject ms
       \<and> (json_get ms ''required'' = None
          \<or> (\<exists>names ps. json_get ms ''required'' = Some (JArray names) \<and> payload = JObject ps
               \<and> (\<forall>x \<in> set names. \<exists>k. x = JString k \<and> json_get ps k \<noteq> None)))
       \<and> (json_get ms ''equals'' = None
          \<or> (\<exists>es ps. json_get ms ''equals'' = Some (JObject es) \<and> payload = JObject ps
               \<and> (\<forall>(k, v) \<in> set es. json_get ps k = Some v))))"
proof -
  have "(case json_get ms ''equals'' of
        None \<Rightarrow> Inr ()
      | Some equals \<Rightarrow>
          bindR (ok_or (as_object equals) (inconsistent ''wait equals contract is not an object''))
            (\<lambda>equals.
          bindR (ok_or (as_object payload) contract_mismatch) (\<lambda>payload.
          if list_ex (\<lambda>(key, expected). json_get payload key \<noteq> Some expected) equals
          then Inl contract_mismatch else Inr ()))) = Inr ()
     \<longleftrightarrow> json_get ms ''equals'' = None
          \<or> (\<exists>es ps. json_get ms ''equals'' = Some (JObject es) \<and> payload = JObject ps
               \<and> (\<forall>(k, v) \<in> set es. json_get ps k = Some v))" for ms
    by (cases "json_get ms ''equals''") (auto simp: result_iffs list_ex_iff case_prod_unfold split: if_splits)
  moreover have "(case json_get ms ''required'' of
        None \<Rightarrow> Inr ()
      | Some required \<Rightarrow>
          bindR (ok_or (as_array required) (inconsistent ''wait required contract is not an array''))
            (\<lambda>required.
          bindR (ok_or (as_object payload) contract_mismatch) (\<lambda>payload.
          check_required payload required))) = Inr ()
     \<longleftrightarrow> json_get ms ''required'' = None
          \<or> (\<exists>names ps. json_get ms ''required'' = Some (JArray names) \<and> payload = JObject ps
               \<and> (\<forall>x \<in> set names. \<exists>k. x = JString k \<and> json_get ps k \<noteq> None))" for ms
    by (cases "json_get ms ''required''") (auto simp: result_iffs check_required_iff)
  ultimately show ?thesis
    by (simp add: validate_match_contract_def bindR_Inr_iff ok_or_Inr_iff)
qed

lemma validate_match_contract_iff_witness:
  "validate_match_contract
      (JObject [(''required'', JArray [JString ''a'']), (''equals'', JObject [(''b'', JInt 1)])])
      (JObject [(''a'', JNull), (''b'', JInt 1)]) = Inr ()
   \<and> validate_match_contract (JObject [(''equals'', JObject [(''b'', JInt 1)])])
      (JObject [(''b'', JInt 2)]) \<noteq> Inr ()"
  by (simp add: validate_match_contract_iff json_get_def)

lemma sql_update_one_wait:
  assumes "wait_keys_ok db" and "w \<in> set (db_waits db)" and "P w" and "\<And>u. P u \<Longrightarrow> w_id u = w_id w"
  shows "sql_update P f (db_waits db) = map (\<lambda>u. if u = w then f w else u) (db_waits db)"
proof -
  have same: "u = w" if "u \<in> set (db_waits db)" and "P u" for u
    using assms(1) that(1) assms(2) assms(4) [OF that(2)]
    unfolding wait_keys_ok_def by (rule distinct_map_inj)
  have "(if P u then f u else u) = (if u = w then f w else u)" if "u \<in> set (db_waits db)" for u
    using same [OF that] assms(3) by (cases "P u") auto
  then show ?thesis by (simp add: sql_update_def)
qed

text \<open>
  C9: an event that is applied consumes exactly one wait of its run, that was open, not expired
  and for that event, and whose contract its payload meets; every other wait, and every task and
  attempt, is unchanged. The task the wait resumes is added, not yet leased, at the generation of
  the run. A paused run stays paused, and then the task is only scheduled; otherwise the task is
  queued and the run runs when it has a leased task and is queued when it has none. The run
  advances by the event.
\<close>

theorem apply_event_consumes_one_wait:
  assumes "runs_ok db" and "wait_keys_ok db"
    and "apply_event ext ttl scan ctx cmd now db = Inr (c, db')" and "disposition c = Applied"
  shows "\<exists>run wait payload task. run \<in> set (db_runs db) \<and> r_id run = er_run_id (aec_expected_run cmd)
     \<and> \<not> run_terminal (r_status run) \<and> wait \<in> set (db_waits db) \<and> w_run wait = r_id run
     \<and> w_status wait = WaitOpen \<and> w_event_type wait = aec_event_type cmd
     \<and> w_match_hash wait = aec_match_key_hash cmd
     \<and> (\<forall>expires. w_expires_at wait = Some expires \<longrightarrow> now < expires)
     \<and> ext_from_slice ext (aec_payload cmd) = Some payload
     \<and> validate_match_contract (w_contract wait) payload = Inr ()
     \<and> db_waits db' = map (\<lambda>w. if w = wait then consumed_wait (aec_event_id cmd) now wait else w)
          (db_waits db)
     \<and> db_tasks db' = db_tasks db @ [task] \<and> db_attempts db' = db_attempts db
     \<and> t_id task = w_resume_task wait \<and> t_run task = r_id run \<and> t_generation task = r_generation run
     \<and> t_status task = (if r_status run = RunPaused then TaskScheduled else TaskQueued)
     \<and> rs_status (committed_value c) = resumed_status run db
     \<and> advances db db'"
  using assms(3)
proof (cases rule: apply_event_cases)
  case (replayed outcome event)
  then have "disposition c = Duplicate" by (auto simp: duplicate_event_def result_iffs)
  then show ?thesis using assms(4) by simp
next
  case (applied locked wait rs)
  let ?r = "le_run locked" and ?db1 = "db\<lparr>db_receipts := rs\<rparr>"
  have r: "?r \<in> set (db_runs db)" "r_tenant ?r = cc_tenant_id ctx" "r_id ?r = er_run_id (aec_expected_run cmd)"
    using find_run_Some [OF applied(1)] by simp_all
  have live: "\<not> run_terminal (r_status ?r)"
    using applied(2) by (auto simp: validate_event_run_def Let_def split: if_splits)
  have adv: "advances db db'"
    by (rule apply_locked_event_advances [OF applied(7) assms(1) applied(1,2)]) simp_all
  have wait: "w_status wait = WaitOpen" "w_event_type wait = aec_event_type cmd"
      "w_match_hash wait = aec_match_key_hash cmd"
      "\<forall>expires. w_expires_at wait = Some expires \<longrightarrow> now < expires"
    using applied(6) by (auto simp: validate_locked_wait_def not_le split: if_splits option.splits)
  have contract: "\<exists>payload. ext_from_slice ext (aec_payload cmd) = Some payload
      \<and> validate_match_contract (w_contract wait) payload = Inr ()"
    using applied(6) by (auto simp: validate_locked_wait_def result_iffs json_value_def split: if_splits)
  have upd: "sql_update (\<lambda>w. w_tenant w = cc_tenant_id ctx \<and> w_id w = w_id wait \<and> w_status w = WaitOpen)
      f (db_waits db) = map (\<lambda>w. if w = wait then f wait else w) (db_waits db)" for f
    by (rule sql_update_one_wait [OF assms(2) applied(3)]) (use applied(4) wait(1) in auto)
  have same: "resumed_status ?r ?db1 = resumed_status ?r db"
    by (simp add: resumed_status_def run_has_leased_task_def)
  have tg: "t_generation (resume_task_row tenant i e n g cs w et p b) = g" for tenant i e n g cs w et p b
    by (simp add: resume_task_row_def)
  from applied(7) r(2,3) show ?thesis
    by (rule apply_locked_event_effect)
       (use r live wait contract adv upd same applied(3,5) tg in
         \<open>intro exI [of _ ?r] exI [of _ wait] exI, auto\<close>)
qed

section \<open>A concrete event\<close>

definition sample_wait :: wait_row where
  "sample_wait = \<lparr> w_id = 80, w_tenant = 7, w_run = 1, w_stage = None, w_type = ''timer'',
     w_event_type = ''ping'', w_match_hash = 9, w_contract = JObject [], w_status = WaitOpen,
     w_active_slot = Some 1, w_expires_at = Some 900, w_consumed_by = None, w_created_event = 40,
     w_created_at = 10, w_consumed_at = None, w_updated_at = 10, w_resume_task = 81,
     w_resume_key = ''resume'', w_resume_kind = KModel, w_resume_priority = 0,
     w_resume_max_attempts = 3, w_resume_input = JObject [], w_resume_deadline = None \<rparr>"

definition sample_waiting_db :: db where
  "sample_waiting_db = sample_db\<lparr> db_runs := [sample_run\<lparr>r_status := RunWaiting\<rparr>],
     db_waits := [sample_wait] \<rparr>"

definition sample_apply :: apply_event_command where
  "sample_apply = \<lparr> aec_expected_run = sample_expected, aec_event_id = 82, aec_event_type = ''ping'',
     aec_match_key_hash = 9, aec_payload_schema_version = 1, aec_payload = ''{}'',
     aec_signature_verification = SigVerified, aec_occurred_at = None \<rparr>"

lemmas apply_eval = apply_event_def validate_apply_event_def find_wait_candidate_def wait_matches_def
  validate_event_run_def expectation_changed_def lock_event_stage_def lock_wait_def
  validate_locked_wait_def validate_match_contract_def apply_locked_event_def consume_wait_def
  consumed_wait_def reactivate_waiting_stage_def insert_task_def resume_task_row_def
  run_has_leased_task_def external_event_def run_resumed_def event_committed_def run_at_def
  parse_logical_key_def key_parse_def json_value_def json_get_def Let_def status_sets

theorem apply_event_consumes_one_wait_witness:
  "\<exists>c db'. apply_event sample_ext 1000 sample_waiting_db (sample_context 74 ''e1'') sample_apply 110
         sample_waiting_db = Inr (c, db')
     \<and> advances sample_waiting_db db' \<and> rs_status (committed_value c) = RunQueued
     \<and> db_waits db' = [consumed_wait 82 110 sample_wait]"
proof -
  have ok: "runs_ok sample_waiting_db" "wait_keys_ok sample_waiting_db"
    by (simp_all add: runs_ok_def run_keys_ok_def wait_keys_ok_def run_checks_def revision_checks_def status_sets
        sample_waiting_db_def sample_wait_def sample_defs)
  have "\<exists>c db'. apply_event sample_ext 1000 sample_waiting_db (sample_context 74 ''e1'') sample_apply 110
         sample_waiting_db = Inr (c, db') \<and> disposition c = Applied"
    by (simp add: sample_waiting_db_def sample_wait_def sample_apply_def sample_defs apply_eval txn_eval)
  then obtain c db' where run: "apply_event sample_ext 1000 sample_waiting_db (sample_context 74 ''e1'')
         sample_apply 110 sample_waiting_db = Inr (c, db')" and "disposition c = Applied" by blast
  from apply_event_consumes_one_wait [OF ok this]
  show ?thesis
    using run by (auto simp: sample_waiting_db_def sample_defs sample_apply_def resumed_status_def
        run_has_leased_task_def sql_exists_def)
qed

section \<open>An event is a run command\<close>

lemma apply_event_effect:
  assumes "runs_ok db" and "apply_event ext ttl scan ctx cmd now db = Inr (c, db')"
  shows "quiet db db' \<or> advances db db'"
  using assms(2)
proof (cases rule: apply_event_cases)
  case (applied locked wait rs)
  from apply_locked_event_advances [OF applied(7) assms(1) applied(1,2)] show ?thesis by simp
qed simp

lemma apply_event_keys:
  assumes "task_keys_ok db" and "apply_event ext ttl scan ctx cmd now db = Inr (c, db')"
  shows "task_keys_ok db'"
  using assms(2)
proof (cases rule: apply_event_cases)
  case (applied locked wait rs)
  have r: "r_tenant (le_run locked) = cc_tenant_id ctx" "r_id (le_run locked) = er_run_id (aec_expected_run cmd)"
    using find_run_Some [OF applied(1)] by simp_all
  from applied(7) r show ?thesis
    by (rule apply_locked_event_effect) (use assms(1) in \<open>fastforce simp: task_keys_ok_def\<close>)
qed (use assms(1) in simp)

interpretation event_cmd: run_command
  "\<lambda>(ext, ttl, scan, ctx, cmd, now). apply_event ext ttl scan ctx cmd now"
  by unfold_locales (auto dest: apply_event_effect [OF store_okD(1)] apply_event_keys [OF store_okD(2)])

end
