(* ===== verification/RunControl.thy ===== *)
theory RunControl
  imports Waits
begin

text \<open>
  Pausing, resuming and cancelling a run: \<open>execute_control\<close> of \<open>transaction_executor.rs\<close> with the
  helpers of each kind. Proved: what each kind does to the run, its tasks and its attempts; a
  paused or cancelled run has no leased task and no open attempt; a cancelled run has no open work
  at all; and how a resumed run's status follows from its preserved work.
\<close>

section \<open>Commands\<close>

datatype control_kind = ControlPause | ControlResume | ControlCancel

definition control_event_type :: "control_kind \<Rightarrow> string" where
  "control_event_type kind = (case kind of
     ControlPause \<Rightarrow> ''run.paused'' | ControlResume \<Rightarrow> ''run.resumed'' | ControlCancel \<Rightarrow> ''run.cancelled'')"

definition is_no_op :: "control_kind \<Rightarrow> run_status \<Rightarrow> bool" where
  "is_no_op kind status = (case kind of
     ControlPause \<Rightarrow> status = RunPaused \<or> run_terminal status
   | ControlCancel \<Rightarrow> run_terminal status
   | ControlResume \<Rightarrow> False)"

record control_run_command =
  crc_expected_run :: expected_run
  crc_event_id :: uuid
  crc_reason :: string

section \<open>The steps of each kind\<close>

definition decode_control_run :: "run_row \<Rightarrow> run_snapshot store_result" where
  "decode_control_run run =
    bindR (nonnegative_u64 (r_version run) ''run version'') (\<lambda>version.
    bindR (nonnegative_u64 (r_generation run) ''execution generation'') (\<lambda>generation.
    bindR (nonnegative_u64 (r_next_seq run) ''event sequence'') (\<lambda>sequence.
    Inr \<lparr> rs_tenant_id = r_tenant run, rs_run_id = r_id run,
          rs_workflow_version_id = r_workflow_version run, rs_status = r_status run,
          rs_suspended_from_status = r_suspended_from run, rs_version = version,
          rs_execution_generation = generation, rs_next_event_sequence = sequence,
          rs_current_checkpoint_id = r_checkpoint run, rs_terminal_event_id = r_terminal_event run,
          rs_deadline = r_deadline run, rs_updated_at = r_updated_at run \<rparr>)))"

definition validate_control_expectations :: "expected_run \<Rightarrow> run_snapshot \<Rightarrow> unit store_result" where
  "validate_control_expectations expected snapshot =
    (if (case er_version expected of None \<Rightarrow> False | Some v \<Rightarrow> v \<noteq> rs_version snapshot)
        \<or> (case er_execution_generation expected of
             None \<Rightarrow> False | Some g \<Rightarrow> g \<noteq> rs_execution_generation snapshot)
     then Inl (store_error_of VersionConflict ''run expectation changed'') else Inr ())"

definition ensure_resume_is_safe :: "uuid \<Rightarrow> uuid \<Rightarrow> unit txn" where
  "ensure_resume_is_safe tenant run = (\<lambda>db. guardT
    (\<not> (sql_exists (\<lambda>x. x_tenant x = tenant \<and> x_run x = run \<and> tool_blocks_stop (x_status x)) (db_tools db)
       \<or> sql_exists (\<lambda>g. g_tenant g = tenant \<and> g_run g = run \<and> agent_blocks_stop (g_status g))
           (db_agents db)))
    (store_error_of PauseRecoveryRequired ''external execution recovery blocks resume'') db)"

definition due_scheduled :: "micros \<Rightarrow> task_row \<Rightarrow> bool" where
  "due_scheduled now t \<longleftrightarrow> t_status t = TaskScheduled \<and> t_available_at t \<le> now"

definition rebase_task :: "int \<Rightarrow> micros \<Rightarrow> task_row \<Rightarrow> task_row" where
  "rebase_task generation now t = t\<lparr>t_generation := generation,
     t_status := (if due_scheduled now t then TaskQueued else t_status t), t_updated_at := now\<rparr>"

definition preserved_task :: "uuid \<Rightarrow> uuid \<Rightarrow> int \<Rightarrow> micros \<Rightarrow> task_row \<Rightarrow> bool" where
  "preserved_task tenant run generation now t \<longleftrightarrow> t_tenant t = tenant \<and> t_run t = run
     \<and> t_status t \<in> {TaskScheduled, TaskQueued, TaskRetryScheduled}
     \<and> (t_generation t \<noteq> generation \<or> due_scheduled now t)"

text \<open>The new generation must not repeat a \<open>(run, logical_key, generation)\<close>.\<close>

definition rebase_preserved_tasks :: "uuid \<Rightarrow> uuid \<Rightarrow> int \<Rightarrow> micros \<Rightarrow> unit txn" where
  "rebase_preserved_tasks tenant run generation now =
    thenT (exec_update (update_tasks (preserved_task tenant run generation now)
             (rebase_task generation now)))
    (\<lambda>db. guardT (task_slots_ok db) unique_violation db)"

definition resumed_run_status :: "uuid \<Rightarrow> uuid \<Rightarrow> micros \<Rightarrow> db \<Rightarrow> run_status store_result" where
  "resumed_run_status tenant run now db =
    (let task = (\<lambda>P. sql_exists (\<lambda>t. t_tenant t = tenant \<and> t_run t = run \<and> P t) (db_tasks db));
         wait = (\<lambda>P. sql_exists (\<lambda>w. w_tenant w = tenant \<and> w_run w = run \<and> w_status w = WaitOpen
                                  \<and> P w) (db_waits db)) in
     if task (\<lambda>t. t_status t = TaskLeased) then Inr RunRunning
     else if task (\<lambda>t. t_status t \<in> {TaskQueued, TaskRetryScheduled} \<and> t_available_at t \<le> now)
     then Inr RunQueued
     else if wait (\<lambda>w. w_type w = ''approval'') then Inr RunApprovalRequired
     else if wait (\<lambda>w. w_type w \<noteq> ''approval'') then Inr RunWaiting
     else if task (\<lambda>t. t_status t \<in> {TaskScheduled, TaskRetryScheduled} \<and> now < t_available_at t)
     then Inr RunRetrying
     else Inl (store_error_of PauseRecoveryRequired ''paused run has no resumable task or wait''))"

definition project_resumed_status :: "uuid \<Rightarrow> uuid \<Rightarrow> micros \<Rightarrow> run_status txn" where
  "project_resumed_status tenant run now = (\<lambda>db. liftT (resumed_run_status tenant run now db) db)"

record control_transition =
  ctl_status :: run_status
  ctl_suspended_from :: "run_status option"
  ctl_generation :: nat
  ctl_terminal :: bool
  ctl_follow_ups :: "durable_follow_up list"
  ctl_blocked_reason :: "string option"

definition next_generation :: "run_snapshot \<Rightarrow> nat store_result" where
  "next_generation snapshot = ok_or (u64_checked_add (rs_execution_generation snapshot) 1)
     (inconsistent ''run generation overflow'')"

definition pause_work :: "uuid \<Rightarrow> run_snapshot \<Rightarrow> micros \<Rightarrow> control_transition txn" where
  "pause_work tenant snapshot now =
    thenT (freeze_leased_tasks tenant (rs_run_id snapshot) now)
    (thenT (finalize_open_task_attempts tenant (rs_run_id snapshot) now)
    (bindT (request_external_stops tenant (rs_run_id snapshot) now) (\<lambda>(blocked, follow_ups).
    bindT (liftT (next_generation snapshot)) (\<lambda>generation.
    returnT \<lparr> ctl_status = RunPaused, ctl_suspended_from = Some (rs_status snapshot),
       ctl_generation = generation, ctl_terminal = False, ctl_follow_ups = follow_ups,
       ctl_blocked_reason =
         (if blocked then Some ''external_execution_recovery_required'' else None) \<rparr>))))"

definition resume_work :: "uuid \<Rightarrow> run_snapshot \<Rightarrow> int \<Rightarrow> micros \<Rightarrow> control_transition txn" where
  "resume_work tenant snapshot generation now =
    thenT (ensure_resume_is_safe tenant (rs_run_id snapshot))
    (thenT (rebase_preserved_tasks tenant (rs_run_id snapshot) generation now)
    (bindT (project_resumed_status tenant (rs_run_id snapshot) now) (\<lambda>status.
    returnT \<lparr> ctl_status = status, ctl_suspended_from = None,
       ctl_generation = rs_execution_generation snapshot, ctl_terminal = False,
       ctl_follow_ups = [], ctl_blocked_reason = None \<rparr>)))"

definition cancel_work :: "uuid \<Rightarrow> run_snapshot \<Rightarrow> micros \<Rightarrow> control_transition txn" where
  "cancel_work tenant snapshot now =
    thenT (cancel_run_children tenant (rs_run_id snapshot) now)
    (thenT (finalize_open_task_attempts tenant (rs_run_id snapshot) now)
    (bindT (request_external_stops tenant (rs_run_id snapshot) now) (\<lambda>(_, follow_ups).
    bindT (mark_executing_tools_uncertain tenant (rs_run_id snapshot) now) (\<lambda>reconciles.
    bindT (liftT (next_generation snapshot)) (\<lambda>generation.
    returnT \<lparr> ctl_status = RunCancelled, ctl_suspended_from = None, ctl_generation = generation,
       ctl_terminal = True, ctl_follow_ups = follow_ups @ reconciles,
       ctl_blocked_reason = None \<rparr>)))))"

definition control_work ::
  "control_kind \<Rightarrow> uuid \<Rightarrow> run_snapshot \<Rightarrow> int \<Rightarrow> micros \<Rightarrow> control_transition txn" where
  "control_work kind tenant snapshot generation now = (case kind of
      ControlPause \<Rightarrow> pause_work tenant snapshot now
    | ControlResume \<Rightarrow> resume_work tenant snapshot generation now
    | ControlCancel \<Rightarrow> cancel_work tenant snapshot now)"

section \<open>The handler\<close>

definition control_committed ::
  "command_disposition \<Rightarrow> run_snapshot \<Rightarrow> uuid option \<Rightarrow> durable_follow_up list
   \<Rightarrow> run_snapshot committed" where
  "control_committed d snapshot event follow_ups =
     \<lparr> disposition = d, committed_value = snapshot,
       event_ids = (case event of None \<Rightarrow> [] | Some e \<Rightarrow> [e]), durable_follow_ups = follow_ups,
       post_commit_hints = [InvalidateRunCache (rs_run_id snapshot)]
         @ (case event of None \<Rightarrow> [] | Some _ \<Rightarrow> [RunEventsAvailable (rs_run_id snapshot)])
         @ (if rs_status snapshot \<noteq> RunPaused \<and> \<not> run_terminal (rs_status snapshot)
            then [WakeWorkers] else []) \<rparr>"

lemma control_committed_sel [simp]:
  "disposition (control_committed d s e fs) = d" "committed_value (control_committed d s e fs) = s"
  by (simp_all add: control_committed_def)

definition control_event ::
  "command_context \<Rightarrow> control_run_command \<Rightarrow> control_kind \<Rightarrow> run_snapshot \<Rightarrow> int \<Rightarrow> micros
   \<Rightarrow> event_insert" where
  "control_event ctx cmd kind snapshot next_seq now =
    \<lparr> ei_event_id = crc_event_id cmd, ei_tenant_id = cc_tenant_id ctx,
      ei_run_id = rs_run_id snapshot, ei_sequence = next_seq,
      ei_event_type = control_event_type kind,
      ei_payload = JObject [(''reason'', JString (crc_reason cmd)),
        (''previous_status'', JString (run_status_text (rs_status snapshot))),
        (''previous_version'', JInt (int (rs_version snapshot))),
        (''previous_generation'', JInt (int (rs_execution_generation snapshot)))],
      ei_payload_schema_version = 1, ei_producer = ''control-plane'', ei_context = ctx,
      ei_correlation_id = cc_correlation_id ctx, ei_occurred_at = None, ei_recorded_at = now \<rparr>"

lemma control_event_sel [simp]:
  "ei_tenant_id (control_event ctx cmd kind snapshot n now) = cc_tenant_id ctx"
  "ei_run_id (control_event ctx cmd kind snapshot n now) = rs_run_id snapshot"
  "ei_sequence (control_event ctx cmd kind snapshot n now) = n"
  "ei_event_id (control_event ctx cmd kind snapshot n now) = crc_event_id cmd"
  by (simp_all add: control_event_def)

definition run_controlled ::
  "control_transition \<Rightarrow> uuid \<Rightarrow> int \<Rightarrow> int \<Rightarrow> int \<Rightarrow> micros \<Rightarrow> run_row \<Rightarrow> run_row" where
  "run_controlled tr event_id next_version generation next_seq now r = r\<lparr>r_status := ctl_status tr,
     r_suspended_from := ctl_suspended_from tr, r_version := next_version,
     r_generation := generation, r_next_seq := next_seq,
     r_resume_blocked := ctl_blocked_reason tr,
     r_terminal_event := (if ctl_terminal tr then Some event_id else r_terminal_event r),
     r_terminal_at := (if ctl_terminal tr then Some now else r_terminal_at r), r_updated_at := now\<rparr>"

definition control_locked_run ::
  "command_context \<Rightarrow> control_run_command \<Rightarrow> control_kind \<Rightarrow> micros \<Rightarrow> run_row \<Rightarrow> run_snapshot
   \<Rightarrow> run_snapshot committed txn" where
  "control_locked_run ctx cmd kind now run snapshot =
    (let tenant = cc_tenant_id ctx; run_id = rs_run_id snapshot; event_id = crc_event_id cmd in
    bindT (control_work kind tenant snapshot (r_generation run) now) (\<lambda>tr.
    thenT (insert_event (control_event ctx cmd kind snapshot (r_next_seq run) now))
    (bindT (liftT (ok_or (u64_checked_add (rs_next_event_sequence snapshot) 1)
              (inconsistent ''run event sequence overflow''))) (\<lambda>next_seq.
    bindT (liftT (to_i64 next_seq ''event sequence'')) (\<lambda>next_seq_i64.
    bindT (liftT (to_i64 (ctl_generation tr) ''execution generation'')) (\<lambda>generation.
    bindT (liftT (checked_add_i64_or (r_version run) 1 (inconsistent ''run version overflow'')))
      (\<lambda>next_version.
    bindT (update_runs (run_at tenant run_id (r_version run) (r_generation run))
             (run_controlled tr event_id next_version generation next_seq_i64 now)) (\<lambda>updated.
    thenT (guardT (updated = 1)
             (store_error_of VersionConflict ''run changed while applying control command''))
    (bindT (liftT (nonnegative_u64 next_version ''run version'')) (\<lambda>version.
    let after = snapshot\<lparr>rs_status := ctl_status tr,
          rs_suspended_from_status := ctl_suspended_from tr, rs_version := version,
          rs_execution_generation := ctl_generation tr, rs_next_event_sequence := next_seq,
          rs_terminal_event_id := (if ctl_terminal tr then Some event_id else None),
          rs_updated_at := now\<rparr> in
    thenT (finish_receipt ctx ReceiptApplied (encode_run_receipt after) (Some event_id)
             (Some (''run'', run_id, next_version)))
    (returnT (control_committed Applied after (Some event_id) (ctl_follow_ups tr)))))))))))))"

definition duplicate_control ::
  "command_context \<Rightarrow> stored_outcome \<Rightarrow> uuid option \<Rightarrow> run_snapshot committed store_result" where
  "duplicate_control ctx outcome event =
    bindR (decode_run_receipt (cc_tenant_id ctx) outcome) (\<lambda>snapshot.
    Inr (control_committed Duplicate snapshot event []))"

definition control_found_run ::
  "command_context \<Rightarrow> control_run_command \<Rightarrow> control_kind \<Rightarrow> micros \<Rightarrow> run_row \<Rightarrow> run_snapshot
   \<Rightarrow> run_snapshot committed txn" where
  "control_found_run ctx cmd kind now run snapshot =
    (if is_no_op kind (rs_status snapshot)
     then thenT (finish_receipt ctx ReceiptNoOp (encode_run_receipt snapshot) None
                   (Some (''run'', r_id run, r_version run)))
          (returnT (control_committed NoOp snapshot None []))
     else thenT (liftT (validate_control_expectations (crc_expected_run cmd) snapshot))
          (thenT (guardT (kind = ControlResume \<longrightarrow> rs_status snapshot = RunPaused)
                    (store_error_of InvalidTransition ''only a paused run can be resumed''))
          (thenT (guardT (kind = ControlResume \<longrightarrow>
                      (case rs_deadline snapshot of None \<Rightarrow> True | Some deadline \<Rightarrow> now < deadline))
                    (store_error_of DeadlineExceeded ''run deadline has expired''))
          (control_locked_run ctx cmd kind now run snapshot))))"

definition execute_control ::
  "nat \<Rightarrow> command_context \<Rightarrow> control_run_command \<Rightarrow> control_kind \<Rightarrow> micros
   \<Rightarrow> run_snapshot committed txn" where
  "execute_control ttl ctx cmd kind now =
    thenT (guardT (\<not> blank_text (crc_reason cmd)) (invalid_command ''control reason must not be empty''))
    (with_receipt ctx now ttl (duplicate_control ctx)
      (bindT (\<lambda>db. liftT (ok_or (find_run (cc_tenant_id ctx) (er_run_id (crc_expected_run cmd)) db)
                (store_error_of NotFound ''run was not found'')) db) (\<lambda>run.
      bindT (liftT (decode_control_run run)) (\<lambda>snapshot.
      control_found_run ctx cmd kind now run snapshot))))"

definition pause_run where "pause_run ttl ctx cmd = execute_control ttl ctx cmd ControlPause"
definition resume_run where "resume_run ttl ctx cmd = execute_control ttl ctx cmd ControlResume"
definition cancel_run where "cancel_run ttl ctx cmd = execute_control ttl ctx cmd ControlCancel"

section \<open>Effects\<close>

lemma keeps_control_steps [keeps_intros]:
  assumes "\<And>db v. g (db\<lparr>db_tasks := v\<rparr>) = g db"
  shows "keeps g (ensure_resume_is_safe tenant run)"
    and "keeps g (rebase_preserved_tasks tenant run generation now)"
    and "keeps g (project_resumed_status tenant run now)"
  using assms
  by (auto simp: keeps_def txn_iffs ensure_resume_is_safe_def rebase_preserved_tasks_def
      project_resumed_status_def)

lemma keeps_control_work [keeps_intros]:
  assumes "\<And>db v. g (db\<lparr>db_tasks := v\<rparr>) = g db" "\<And>db v. g (db\<lparr>db_attempts := v\<rparr>) = g db"
    "\<And>db v. g (db\<lparr>db_waits := v\<rparr>) = g db" "\<And>db v. g (db\<lparr>db_agents := v\<rparr>) = g db"
    "\<And>db v. g (db\<lparr>db_tools := v\<rparr>) = g db" "\<And>db v. g (db\<lparr>db_stages := v\<rparr>) = g db"
  shows "keeps g (control_work kind tenant snapshot generation now)"
  unfolding control_work_def pause_work_def resume_work_def cancel_work_def
  by (cases kind; simp; intro keeps_intros assms)

lemma decode_control_run_Inr:
  "decode_control_run run = Inr s \<longleftrightarrow> 0 \<le> r_version run \<and> 0 \<le> r_generation run \<and> 0 \<le> r_next_seq run
     \<and> s = run_snapshot_of run"
  by (auto simp: decode_control_run_def result_iffs run_snapshot_of_def nat_eq_iff)

lemma run_snapshot_sel [simp]:
  "rs_run_id (run_snapshot_of r) = r_id r" "rs_status (run_snapshot_of r) = r_status r"
  "rs_version (run_snapshot_of r) = nat (r_version r)"
  "rs_execution_generation (run_snapshot_of r) = nat (r_generation r)"
  "rs_next_event_sequence (run_snapshot_of r) = nat (r_next_seq r)"
  "rs_deadline (run_snapshot_of r) = r_deadline r"
  by (simp_all add: run_snapshot_of_def)

lemma u64_checked_add_Some: "u64_checked_add a b = Some c \<longleftrightarrow> c = a + b \<and> a + b \<le> u64_max"
  by (auto simp: u64_checked_add_def)

lemma control_locked_run_effect:
  assumes "control_locked_run ctx cmd kind now run (run_snapshot_of run) db = Inr (c, db')"
    and "0 \<le> r_next_seq run"
  obtains tr db1 where
    "control_work kind (cc_tenant_id ctx) (run_snapshot_of run) (r_generation run) now db = Inr (tr, db1)"
    and "updates_pass run_checks
           (run_at (cc_tenant_id ctx) (r_id run) (r_version run) (r_generation run))
           (run_controlled tr (crc_event_id cmd) (r_version run + 1) (int (ctl_generation tr))
              (r_next_seq run + 1) now) (db_runs db1)"
    and "db_runs db' = sql_update
           (run_at (cc_tenant_id ctx) (r_id run) (r_version run) (r_generation run))
           (run_controlled tr (crc_event_id cmd) (r_version run + 1) (int (ctl_generation tr))
              (r_next_seq run + 1) now) (db_runs db1)"
    and "db_events db' = db_events db1 @ [event_row_of (control_event ctx cmd kind (run_snapshot_of run) (r_next_seq run) now)]"
    and "db_outbox db' = db_outbox db1 @ [outbox_row_of (control_event ctx cmd kind (run_snapshot_of run) (r_next_seq run) now)]"
    and "db_tasks db' = db_tasks db1" and "db_attempts db' = db_attempts db1"
    and "db_waits db' = db_waits db1" and "db_deps db' = db_deps db1"
    and "db_stages db' = db_stages db1"
    and "db_tools db' = db_tools db1" and "db_agents db' = db_agents db1"
    and "rs_status (committed_value c) = ctl_status tr" and "disposition c = Applied"
    and "durable_follow_ups c = ctl_follow_ups tr"
  using assms unfolding control_locked_run_def Let_def
  apply (clarsimp simp: txn_iffs ok_or_Inr_iff u64_checked_add_Some)
  apply (erule finish_receipt_frame)
  apply (rule that)
  apply (simp_all add: add.commute control_committed_def)
  done

lemma execute_control_cases:
  assumes "execute_control ttl ctx cmd kind now db = Inr (c, db')"
  obtains (replayed) outcome event where "db' = db" and "duplicate_control ctx outcome event = Inr c"
    | (no_op) run rs where "db' = db\<lparr>db_receipts := rs\<rparr>" and "disposition c = NoOp"
        and "find_run (cc_tenant_id ctx) (er_run_id (crc_expected_run cmd)) db = Some run"
        and "is_no_op kind (r_status run)" and "committed_value c = run_snapshot_of run"
    | (controlled) run rs where
        "find_run (cc_tenant_id ctx) (er_run_id (crc_expected_run cmd)) db = Some run"
        and "\<not> is_no_op kind (r_status run)" and "\<not> blank_text (crc_reason cmd)"
        and "validate_control_expectations (crc_expected_run cmd) (run_snapshot_of run) = Inr ()"
        and "kind = ControlResume \<Longrightarrow> r_status run = RunPaused"
        and "kind = ControlResume \<Longrightarrow> (case r_deadline run of None \<Rightarrow> True | Some deadline \<Rightarrow> now < deadline)"
        and "0 \<le> r_version run" and "0 \<le> r_generation run" and "0 \<le> r_next_seq run"
        and "control_locked_run ctx cmd kind now run (run_snapshot_of run) (db\<lparr>db_receipts := rs\<rparr>)
             = Inr (c, db')"
proof -
  from assms have reason: "\<not> blank_text (crc_reason cmd)"
    and "with_receipt ctx now ttl (duplicate_control ctx)
      (bindT (\<lambda>db. liftT (ok_or (find_run (cc_tenant_id ctx) (er_run_id (crc_expected_run cmd)) db)
                (store_error_of NotFound ''run was not found'')) db) (\<lambda>run.
      bindT (liftT (decode_control_run run)) (\<lambda>snapshot.
      control_found_run ctx cmd kind now run snapshot))) db = Inr (c, db')"
    by (auto simp: execute_control_def txn_iffs)
  from this(2) show thesis
  proof (cases rule: with_receipt_cases)
    case replayed
    then show ?thesis using that(1) by blast
  next
    case fresh
    let ?db1 = "db\<lparr>db_receipts := db_receipts db @ [new_receipt ctx now (int ttl)]\<rparr>"
    from fresh(2) obtain run where run: "find_run (cc_tenant_id ctx) (er_run_id (crc_expected_run cmd)) db = Some run"
      and ge: "0 \<le> r_version run" "0 \<le> r_generation run" "0 \<le> r_next_seq run"
      and rest: "control_found_run ctx cmd kind now run (run_snapshot_of run) ?db1 = Inr (c, db')"
      by (auto simp: txn_iffs ok_or_Inr_iff decode_control_run_Inr find_run_def)
    show ?thesis
    proof (cases "is_no_op kind (r_status run)")
      case True
      then show ?thesis
        using rest run
        by (auto simp: control_found_run_def txn_iffs elim!: finish_receipt_frame intro: that(2))
    next
      case False
      then show ?thesis
        using rest by (intro that(3) [OF run False reason _ _ _ ge]) (auto simp: control_found_run_def txn_iffs)
    qed
  qed
qed

text \<open>The run that is controlled advances.\<close>

lemma pause_work_effect:
  assumes "pause_work tenant snapshot now db = Inr (tr, db')"
  obtains db1 db2 blocked follow_ups where "freeze_leased_tasks tenant (rs_run_id snapshot) now db = Inr ((), db1)"
    and "finalize_open_task_attempts tenant (rs_run_id snapshot) now db1 = Inr ((), db2)"
    and "request_external_stops tenant (rs_run_id snapshot) now db2 = Inr ((blocked, follow_ups), db')"
    and "tr = \<lparr> ctl_status = RunPaused, ctl_suspended_from = Some (rs_status snapshot),
       ctl_generation = rs_execution_generation snapshot + 1, ctl_terminal = False,
       ctl_follow_ups = follow_ups, ctl_blocked_reason =
         (if blocked then Some ''external_execution_recovery_required'' else None) \<rparr>"
  using assms
  by (auto simp: pause_work_def txn_iffs next_generation_def ok_or_Inr_iff u64_checked_add_Some
      simp del: split_paired_Ex split: prod.splits)

lemma resume_work_effect:
  assumes "resume_work tenant snapshot generation now db = Inr (tr, db')"
  obtains status where "ensure_resume_is_safe tenant (rs_run_id snapshot) db = Inr ((), db)"
    and "rebase_preserved_tasks tenant (rs_run_id snapshot) generation now db = Inr ((), db')"
    and "resumed_run_status tenant (rs_run_id snapshot) now db' = Inr status"
    and "tr = \<lparr> ctl_status = status, ctl_suspended_from = None,
       ctl_generation = rs_execution_generation snapshot, ctl_terminal = False,
       ctl_follow_ups = [], ctl_blocked_reason = None \<rparr>"
  using assms
  by (auto simp: resume_work_def txn_iffs ensure_resume_is_safe_def project_resumed_status_def)

lemma cancel_work_effect:
  assumes "cancel_work tenant snapshot now db = Inr (tr, db')"
  obtains db1 db2 db3 b follow_ups reconciles where
    "cancel_run_children tenant (rs_run_id snapshot) now db = Inr ((), db1)"
    and "finalize_open_task_attempts tenant (rs_run_id snapshot) now db1 = Inr ((), db2)"
    and "request_external_stops tenant (rs_run_id snapshot) now db2 = Inr ((b, follow_ups), db3)"
    and "mark_executing_tools_uncertain tenant (rs_run_id snapshot) now db3 = Inr (reconciles, db')"
    and "tr = \<lparr> ctl_status = RunCancelled, ctl_suspended_from = None,
       ctl_generation = rs_execution_generation snapshot + 1, ctl_terminal = True,
       ctl_follow_ups = follow_ups @ reconciles, ctl_blocked_reason = None \<rparr>"
  using assms
  by (auto simp: cancel_work_def txn_iffs next_generation_def ok_or_Inr_iff u64_checked_add_Some
      simp del: split_paired_Ex split: prod.splits)

lemma control_work_generation:
  assumes "control_work kind tenant (run_snapshot_of run) generation now db = Inr (tr, db')"
    and "0 \<le> r_generation run"
  shows "int (ctl_generation tr) = (if kind = ControlResume then r_generation run else r_generation run + 1)"
  using assms
  by (cases kind)
     (auto simp: control_work_def elim!: pause_work_effect resume_work_effect cancel_work_effect)

lemma control_locked_run_advances:
  assumes "control_locked_run ctx cmd kind now run (run_snapshot_of run) db1 = Inr (c, db')" and "runs_ok db"
    and "find_run (cc_tenant_id ctx) i db = Some run" and "\<not> run_terminal (r_status run)"
    and "db_runs db1 = db_runs db" and "db_events db1 = db_events db" and "db_outbox db1 = db_outbox db"
  shows "advances db db'"
proof -
  have run: "run \<in> set (db_runs db)" "r_tenant run = cc_tenant_id ctx"
    using find_run_Some [OF assms(3)] by simp_all
  have ge: "0 \<le> r_next_seq run" "0 \<le> r_generation run"
  proof -
    have "run_checks run" using assms(2) run(1) by (simp add: runs_ok_def)
    then show "0 \<le> r_next_seq run" "0 \<le> r_generation run" unfolding run_checks_def by linarith+
  qed
  from assms(1) ge(1) show ?thesis
  proof (rule control_locked_run_effect)
    fix tr db2
    let ?f = "run_controlled tr (crc_event_id cmd) (r_version run + 1) (int (ctl_generation tr))
              (r_next_seq run + 1) now"
    let ?P = "run_at (cc_tenant_id ctx) (r_id run) (r_version run) (r_generation run)"
    let ?e = "control_event ctx cmd kind (run_snapshot_of run) (r_next_seq run) now"
    assume work: "control_work kind (cc_tenant_id ctx) (run_snapshot_of run) (r_generation run) now db1
        = Inr (tr, db2)"
      and pass: "updates_pass run_checks ?P ?f (db_runs db2)"
      and eff: "db_runs db' = sql_update ?P ?f (db_runs db2)"
        "db_events db' = db_events db2 @ [event_row_of ?e]"
        "db_outbox db' = db_outbox db2 @ [outbox_row_of ?e]"
    have "keeps (\<lambda>d. (db_runs d, db_events d, db_outbox d))
        (control_work kind (cc_tenant_id ctx) (run_snapshot_of run) (r_generation run) now)"
      by (intro keeps_intros) simp_all
    from keepsD [OF this work]
    have same: "db_runs db2 = db_runs db" "db_events db2 = db_events db" "db_outbox db2 = db_outbox db"
      using assms(5-7) by simp_all
    have upd: "sql_update ?P ?f (db_runs db) = sql_update (same_run run) (\<lambda>_. ?f run) (db_runs db)"
      by (rule sql_update_one_run [OF runs_ok_keys [OF assms(2)] run(1)])
         (use run in \<open>auto simp: run_at_def same_run_def\<close>)
    have "run_checks (?f run)"
      using updates_passD [OF pass, of run] run same(1) by (simp add: run_at_def)
    moreover have "same_run run (?f run)" "r_version (?f run) = r_version run + 1"
        "r_next_seq (?f run) = r_next_seq run + 1" "r_generation run \<le> r_generation (?f run)"
      using control_work_generation [OF work ge(2)] by (simp_all add: run_controlled_def same_run_def)
    ultimately show ?thesis
      unfolding advances_def using run assms(4) upd eff same
      by (intro exI [of _ run] exI [of _ "?f run"] exI [of _ ?e]) simp
  qed
qed

section \<open>What each kind does to the work of the run\<close>

lemma finalize_attempts_effect:
  assumes "finalize_open_task_attempts tenant run now db = Inr (u, db')"
  shows "db' = db\<lparr>db_attempts := sql_update
      (\<lambda>a. a_tenant a = tenant \<and> a_run a = run \<and> a_finished_at a = None)
      (close_attempt AttemptCancelled None now) (db_attempts db)\<rparr>"
  using assms by (simp add: finalize_open_task_attempts_def txn_iffs)

lemma finalized_attempts_closed:
  assumes "a \<in> set (sql_update (\<lambda>a. a_tenant a = tenant \<and> a_run a = run \<and> a_finished_at a = None)
      (close_attempt AttemptCancelled None now) as)"
    and "a_tenant a = tenant" and "a_run a = run"
  shows "a_finished_at a \<noteq> None"
  using assms(1)
  by (rule in_sql_updateE) (use assms(2,3) in \<open>auto simp: close_attempt_def split: if_splits\<close>)

lemma external_frame:
  assumes "request_external_stops tenant run now db = Inr (r, db')"
  shows "db_tasks db' = db_tasks db \<and> db_attempts db' = db_attempts db \<and> db_waits db' = db_waits db
    \<and> db_stages db' = db_stages db"
proof -
  have "keeps (\<lambda>d. (db_tasks d, db_attempts d, db_waits d, db_stages d)) (request_external_stops tenant run now)"
    by (intro keeps_intros) simp_all
  from keepsD [OF this assms] show ?thesis by simp
qed

lemma mark_tools_frame:
  assumes "mark_executing_tools_uncertain tenant run now db = Inr (r, db')"
  shows "db_tasks db' = db_tasks db \<and> db_attempts db' = db_attempts db \<and> db_waits db' = db_waits db
    \<and> db_stages db' = db_stages db"
proof -
  have "keeps (\<lambda>d. (db_tasks d, db_attempts d, db_waits d, db_stages d))
      (mark_executing_tools_uncertain tenant run now)"
    by (intro keeps_intros) simp_all
  from keepsD [OF this assms] show ?thesis by simp
qed

definition leased_task_of :: "uuid \<Rightarrow> uuid \<Rightarrow> task_row \<Rightarrow> bool" where
  "leased_task_of tenant run t \<longleftrightarrow> t_tenant t = tenant \<and> t_run t = run \<and> t_status t = TaskLeased"

definition freeze_task :: "micros \<Rightarrow> task_row \<Rightarrow> task_row" where
  "freeze_task now t = t\<lparr>t_status := TaskRetryScheduled, t_available_at := now, t_lease_owner := None,
     t_lease_token := None, t_lease_expires_at := None, t_updated_at := now\<rparr>"

lemma freeze_effect:
  assumes "freeze_leased_tasks tenant run now db = Inr (u, db')"
  shows "db_tasks db' = sql_update (leased_task_of tenant run) (freeze_task now) (db_tasks db)
    \<and> db_waits db' = db_waits db \<and> db_stages db' = db_stages db"
proof -
  have eq: "leased_task_of tenant run = (\<lambda>t. t_tenant t = tenant \<and> t_run t = run \<and> t_status t = TaskLeased)"
      "freeze_task now = (\<lambda>t. t\<lparr>t_status := TaskRetryScheduled, t_available_at := now,
         t_lease_owner := None, t_lease_token := None, t_lease_expires_at := None, t_updated_at := now\<rparr>)"
    by (simp_all add: leased_task_of_def freeze_task_def fun_eq_iff)
  show ?thesis using assms unfolding eq by (auto simp: freeze_leased_tasks_def txn_iffs)
qed

lemma pause_work_tasks:
  assumes "pause_work tenant (run_snapshot_of run) now db = Inr (tr, db')"
  shows "db_tasks db' = sql_update (leased_task_of tenant (r_id run)) (freeze_task now) (db_tasks db)
    \<and> (\<forall>a \<in> set (db_attempts db'). a_tenant a = tenant \<and> a_run a = r_id run \<longrightarrow> a_finished_at a \<noteq> None)
    \<and> db_waits db' = db_waits db
    \<and> ctl_status tr = RunPaused \<and> ctl_suspended_from tr = Some (r_status run) \<and> \<not> ctl_terminal tr"
  using assms
proof (rule pause_work_effect)
  fix db1 db2 blocked follow_ups
  assume fr: "freeze_leased_tasks tenant (rs_run_id (run_snapshot_of run)) now db = Inr ((), db1)"
    and fin: "finalize_open_task_attempts tenant (rs_run_id (run_snapshot_of run)) now db1 = Inr ((), db2)"
    and st: "request_external_stops tenant (rs_run_id (run_snapshot_of run)) now db2
          = Inr ((blocked, follow_ups), db')"
    and tr: "tr = \<lparr> ctl_status = RunPaused, ctl_suspended_from = Some (rs_status (run_snapshot_of run)),
       ctl_generation = rs_execution_generation (run_snapshot_of run) + 1, ctl_terminal = False,
       ctl_follow_ups = follow_ups, ctl_blocked_reason =
         (if blocked then Some ''external_execution_recovery_required'' else None) \<rparr>"
  note f = finalize_attempts_effect [OF fin]
  have "\<forall>a \<in> set (db_attempts db'). a_tenant a = tenant \<and> a_run a = r_id run \<longrightarrow> a_finished_at a \<noteq> None"
    using external_frame [OF st] f by (auto dest: finalized_attempts_closed)
  then show ?thesis using freeze_effect [OF fr] f external_frame [OF st] tr by simp
qed

lemma cancel_work_closes:
  assumes "cancel_work tenant (run_snapshot_of run) now db = Inr (tr, db')"
  shows "(\<forall>t \<in> set (db_tasks db'). t_tenant t = tenant \<and> t_run t = r_id run \<longrightarrow> task_terminal (t_status t))
    \<and> (\<forall>a \<in> set (db_attempts db'). a_tenant a = tenant \<and> a_run a = r_id run \<longrightarrow> a_finished_at a \<noteq> None)
    \<and> (\<forall>w \<in> set (db_waits db'). w_tenant w = tenant \<and> w_run w = r_id run \<longrightarrow> w_status w \<noteq> WaitOpen)
    \<and> db_stages db' = sql_update (\<lambda>s. s_tenant s = tenant \<and> s_run s = r_id run
             \<and> s_status s \<in> {StagePlanned, StageActive, StageWaitingApproval, StageReworkRequired})
         (\<lambda>s. s\<lparr>s_status := StageCancelled, s_version := s_version s + 1, s_completed_at := Some now,
                s_updated_at := now\<rparr>) (db_stages db)
    \<and> (\<forall>g \<in> set (db_agents db'). g_tenant g = tenant \<and> g_run g = r_id run
         \<longrightarrow> g_status g \<notin> {AgentPlanned, AgentSubmitting, AgentRunning})
    \<and> (\<forall>x \<in> set (db_tools db'). x_tenant x = tenant \<and> x_run x = r_id run
         \<longrightarrow> x_status x \<notin> {ToolPlanned, ToolRetryScheduled, ToolExecuting})
    \<and> ctl_status tr = RunCancelled \<and> ctl_terminal tr"
  using assms
proof (rule cancel_work_effect)
  fix db1 db2 db3 b follow_ups reconciles
  assume ch: "cancel_run_children tenant (rs_run_id (run_snapshot_of run)) now db = Inr ((), db1)"
    and fin: "finalize_open_task_attempts tenant (rs_run_id (run_snapshot_of run)) now db1 = Inr ((), db2)"
    and st: "request_external_stops tenant (rs_run_id (run_snapshot_of run)) now db2
          = Inr ((b, follow_ups), db3)"
    and mk: "mark_executing_tools_uncertain tenant (rs_run_id (run_snapshot_of run)) now db3
          = Inr (reconciles, db')"
    and tr: "tr = \<lparr> ctl_status = RunCancelled, ctl_suspended_from = None,
       ctl_generation = rs_execution_generation (run_snapshot_of run) + 1, ctl_terminal = True,
       ctl_follow_ups = follow_ups @ reconciles, ctl_blocked_reason = None \<rparr>"
  note f = finalize_attempts_effect [OF fin]
  have same: "db_tasks db' = db_tasks db1" "db_waits db' = db_waits db1" "db_attempts db' = db_attempts db2"
      "db_stages db' = db_stages db1"
    using f external_frame [OF st] mark_tools_frame [OF mk] by simp_all
  have "task_terminal (t_status t)"
    if "t \<in> set (db_tasks db')" "t_tenant t = tenant" "t_run t = r_id run" for t
    using cancel_children_closed [OF ch, of t] that same(1) by simp
  moreover have "\<forall>a \<in> set (db_attempts db'). a_tenant a = tenant \<and> a_run a = r_id run \<longrightarrow> a_finished_at a \<noteq> None"
    unfolding same(3) f by (auto dest: finalized_attempts_closed)
  moreover have "w_status w \<noteq> WaitOpen"
    if "w \<in> set (db_waits db')" "w_tenant w = tenant" "w_run w = r_id run" for w
  proof -
    have "w \<in> set (sql_update (\<lambda>w. w_tenant w = tenant \<and> w_run w = r_id run \<and> w_status w = WaitOpen)
       (\<lambda>w. w\<lparr>w_status := WaitCancelled, w_active_slot := None, w_updated_at := now\<rparr>) (db_waits db))"
      using cancel_children_effect [OF ch] that(1) same(2) by simp
    then show ?thesis by (rule in_sql_updateE) (use that in \<open>auto split: if_splits\<close>)
  qed
  moreover have "g_status g \<notin> {AgentPlanned, AgentSubmitting, AgentRunning}"
    if "g \<in> set (db_agents db')" "g_tenant g = tenant" "g_run g = r_id run" for g
  proof -
    have mem: "g \<in> set (db_agents db3)" using that(1) executing_tools_uncertain(1) [OF mk] by simp
    have g: "g_status g \<notin> {AgentSubmitting, AgentRunning} \<and> (g_status g = AgentPlanned \<longrightarrow> g \<in> set (db_agents db2))"
      using external_stops_requested(2) [OF st] mem that(2,3) by simp
    have "g_status g \<noteq> AgentPlanned"
    proof
      assume "g_status g = AgentPlanned"
      with g have "g \<in> set (db_agents db1)" by (simp add: f)
      with cancel_children_external(1) [OF ch] that(2,3) \<open>g_status g = AgentPlanned\<close> show False by simp
    qed
    with g show ?thesis by simp
  qed
  moreover have "x_status x \<notin> {ToolPlanned, ToolRetryScheduled, ToolExecuting}"
    if "x \<in> set (db_tools db')" "x_tenant x = tenant" "x_run x = r_id run" for x
  proof -
    have x: "x_status x \<noteq> ToolExecuting \<and> (x_status x \<in> {ToolPlanned, ToolRetryScheduled} \<longrightarrow> x \<in> set (db_tools db3))"
      using executing_tools_uncertain(2) [OF mk] that by simp
    have "x_status x \<notin> {ToolPlanned, ToolRetryScheduled}"
    proof
      assume planned: "x_status x \<in> {ToolPlanned, ToolRetryScheduled}"
      with x have "x \<in> set (db_tools db1)" by (auto simp: external_stops_requested(1) [OF st] f)
      with cancel_children_external(2) [OF ch] that(2,3) planned show False by simp
    qed
    with x show ?thesis by simp
  qed
  ultimately show ?thesis using tr same(4) cancel_children_stages [OF ch] by simp
qed

lemma frozen_not_leased:
  assumes "t \<in> set (sql_update (leased_task_of tenant run) (freeze_task now) ts)"
    and "t_tenant t = tenant" and "t_run t = run"
  shows "t_status t \<noteq> TaskLeased"
  using assms(1)
  by (rule in_sql_updateE) (use assms(2,3) in \<open>auto simp: leased_task_of_def freeze_task_def split: if_splits\<close>)

text \<open>What every applied control command does, whatever its kind.\<close>

lemma control_applied_effect:
  assumes "execute_control ttl ctx cmd kind now db = Inr (c, db')" and "runs_ok db"
    and "disposition c = Applied"
  obtains run tr rs db1 where
    "run \<in> set (db_runs db)" and "r_tenant run = cc_tenant_id ctx"
    and "r_id run = er_run_id (crc_expected_run cmd)"
    and "\<not> run_terminal (r_status run)" and "kind = ControlPause \<Longrightarrow> r_status run \<noteq> RunPaused"
    and "kind = ControlResume \<Longrightarrow> r_status run = RunPaused"
    and "kind = ControlResume \<Longrightarrow> (case r_deadline run of None \<Rightarrow> True | Some deadline \<Rightarrow> now < deadline)"
    and "control_work kind (cc_tenant_id ctx) (run_snapshot_of run) (r_generation run) now
           (db\<lparr>db_receipts := rs\<rparr>) = Inr (tr, db1)"
    and "db_runs db' = sql_update (same_run run) (\<lambda>_. run_controlled tr (crc_event_id cmd)
           (r_version run + 1) (int (ctl_generation tr)) (r_next_seq run + 1) now run) (db_runs db)"
    and "int (ctl_generation tr)
           = (if kind = ControlResume then r_generation run else r_generation run + 1)"
    and "db_tasks db' = db_tasks db1" and "db_attempts db' = db_attempts db1"
    and "db_waits db' = db_waits db1" and "durable_follow_ups c = ctl_follow_ups tr"
    and "db_stages db' = db_stages db1" and "db_agents db' = db_agents db1" and "db_tools db' = db_tools db1"
    and "advances db db'"
  using assms(1)
proof (cases rule: execute_control_cases)
  case (replayed outcome event)
  then have "disposition c = Duplicate" by (auto simp: duplicate_control_def result_iffs)
  then show ?thesis using assms(3) by simp
next
  case no_op
  then show ?thesis using assms(3) by simp
next
  case (controlled run rs)
  let ?tenant = "cc_tenant_id ctx"
  have run: "run \<in> set (db_runs db)" "r_tenant run = ?tenant" "r_id run = er_run_id (crc_expected_run cmd)"
    using find_run_Some [OF controlled(1)] by simp_all
  have live: "\<not> run_terminal (r_status run)"
  proof (cases kind)
    case ControlResume
    then show ?thesis using controlled(5) by (simp add: status_sets)
  qed (use controlled(2) in \<open>simp_all add: is_no_op_def\<close>)
  have not_paused: "kind = ControlPause \<Longrightarrow> r_status run \<noteq> RunPaused"
    using controlled(2) by (simp add: is_no_op_def)
  have adv: "advances db db'"
    by (rule control_locked_run_advances [OF controlled(10) assms(2) controlled(1) live(1)]) simp_all
  from controlled(10,9) show ?thesis
  proof (rule control_locked_run_effect)
    fix tr db2
    let ?f = "run_controlled tr (crc_event_id cmd) (r_version run + 1) (int (ctl_generation tr))
              (r_next_seq run + 1) now"
    let ?P = "run_at ?tenant (r_id run) (r_version run) (r_generation run)"
    assume work: "control_work kind ?tenant (run_snapshot_of run) (r_generation run) now
        (db\<lparr>db_receipts := rs\<rparr>) = Inr (tr, db2)"
      and eff: "db_runs db' = sql_update ?P ?f (db_runs db2)" "db_tasks db' = db_tasks db2"
        "db_attempts db' = db_attempts db2" "db_waits db' = db_waits db2"
        "durable_follow_ups c = ctl_follow_ups tr" "db_stages db' = db_stages db2"
        "db_agents db' = db_agents db2" "db_tools db' = db_tools db2"
    have "keeps db_runs (control_work kind ?tenant (run_snapshot_of run) (r_generation run) now)"
      by (intro keeps_intros) simp_all
    from keepsD [OF this work] have same: "db_runs db2 = db_runs db" by simp
    have upd: "sql_update ?P ?f (db_runs db) = sql_update (same_run run) (\<lambda>_. ?f run) (db_runs db)"
      by (rule sql_update_one_run [OF runs_ok_keys [OF assms(2)] run(1)])
         (use run in \<open>auto simp: run_at_def same_run_def\<close>)
    show ?thesis
      by (rule that [OF run live not_paused controlled(5,6) work _ control_work_generation [OF work controlled(8)]
            eff(2-8) adv]) (simp_all add: eff(1) same upd)
  qed
qed

text \<open>
  C10: a pause that is applied suspends a live run that was not paused: the run becomes paused and
  remembers the status it had, its generation grows by one so that every lease proof made before
  is stale, each of its leased tasks is scheduled for a retry at once, no attempt of it is left
  open, every task of another run is unchanged, and the run advances by one event.
\<close>

theorem pause_run_freezes:
  assumes "runs_ok db" and "pause_run ttl ctx cmd now db = Inr (c, db')" and "disposition c = Applied"
  shows "\<exists>run run'. run \<in> set (db_runs db) \<and> r_id run = er_run_id (crc_expected_run cmd)
     \<and> \<not> run_terminal (r_status run) \<and> r_status run \<noteq> RunPaused
     \<and> db_runs db' = sql_update (same_run run) (\<lambda>_. run') (db_runs db)
     \<and> r_status run' = RunPaused \<and> r_suspended_from run' = Some (r_status run)
     \<and> r_generation run' = r_generation run + 1
     \<and> db_tasks db' = sql_update (leased_task_of (cc_tenant_id ctx) (r_id run)) (freeze_task now) (db_tasks db)
     \<and> (\<forall>t \<in> set (db_tasks db'). t_tenant t = cc_tenant_id ctx \<and> t_run t = r_id run
          \<longrightarrow> t_status t \<noteq> TaskLeased)
     \<and> (\<forall>a \<in> set (db_attempts db'). a_tenant a = cc_tenant_id ctx \<and> a_run a = r_id run
          \<longrightarrow> a_finished_at a \<noteq> None)
     \<and> advances db db'"
  using assms(2,1,3) unfolding pause_run_def
proof (rule control_applied_effect)
  fix run tr rs db1
  let ?tenant = "cc_tenant_id ctx"
  let ?run' = "run_controlled tr (crc_event_id cmd) (r_version run + 1) (int (ctl_generation tr))
              (r_next_seq run + 1) now run"
  assume run: "run \<in> set (db_runs db)" "r_id run = er_run_id (crc_expected_run cmd)"
      "\<not> run_terminal (r_status run)" "ControlPause = ControlPause \<Longrightarrow> r_status run \<noteq> RunPaused"
    and work: "control_work ControlPause ?tenant (run_snapshot_of run) (r_generation run) now
        (db\<lparr>db_receipts := rs\<rparr>) = Inr (tr, db1)"
    and eff: "db_runs db' = sql_update (same_run run) (\<lambda>_. ?run') (db_runs db)"
      "int (ctl_generation tr)
         = (if ControlPause = ControlResume then r_generation run else r_generation run + 1)"
      "db_tasks db' = db_tasks db1" "db_attempts db' = db_attempts db1" "advances db db'"
  have "pause_work ?tenant (run_snapshot_of run) now (db\<lparr>db_receipts := rs\<rparr>) = Inr (tr, db1)"
    using work by (simp add: control_work_def)
  note paused = pause_work_tasks [OF this]
  have "t_status t \<noteq> TaskLeased"
    if "t \<in> set (db_tasks db')" "t_tenant t = ?tenant" "t_run t = r_id run" for t
    by (rule frozen_not_leased) (use paused that eff in auto)
  then show ?thesis
    using run eff paused
    by (intro exI [of _ run] exI [of _ ?run']) (simp add: run_controlled_def)
qed

definition sample_control :: control_run_command where
  "sample_control = \<lparr> crc_expected_run = sample_expected, crc_event_id = 46, crc_reason = ''r'' \<rparr>"

lemma exec_update_read_eval: "bindT (\<lambda>d. exec_update (m d) d) k db = bindT (m db) (\<lambda>_. k ()) db"
  by (simp add: exec_update_def bindT_def returnT_def split: sum.splits prod.splits)

lemmas control_eval = exec_update_read_eval execute_control_def pause_run_def resume_run_def cancel_run_def
  sample_control_def blank_text_def decode_control_run_def control_found_run_def is_no_op_def
  validate_control_expectations_def control_locked_run_def control_work_def pause_work_def
  resume_work_def cancel_work_def next_generation_def u64_checked_add_def run_controlled_def
  control_event_def control_event_type_def run_at_def freeze_leased_tasks_def
  finalize_open_task_attempts_def request_external_stops_def mark_executing_tools_uncertain_def
  cancel_run_children_def cancel_open_waits_def cancel_planned_executions_def cancel_task_def
  close_attempt_def closable_task_def returning_def sql_exists_def status_sets Let_def

lemmas resume_eval = ensure_resume_is_safe_def rebase_preserved_tasks_def preserved_task_def
  due_scheduled_def rebase_task_def project_resumed_status_def resumed_run_status_def
  task_slots_ok_def

lemma pause_run_freezes_witness:
  "\<exists>c db'. pause_run 60 (sample_context 37 ''k7'') sample_control 120 sample_leased_db = Inr (c, db')
     \<and> (\<forall>t \<in> set (db_tasks db'). t_tenant t = 7 \<and> t_run t = 1 \<longrightarrow> t_status t \<noteq> TaskLeased)
     \<and> advances sample_leased_db db'"
proof -
  have ok: "runs_ok sample_leased_db"
    by (simp add: sample_defs runs_ok_def run_keys_ok_def run_checks_def revision_checks_def status_sets)
  have "\<exists>c db'. pause_run 60 (sample_context 37 ''k7'') sample_control 120 sample_leased_db = Inr (c, db')
      \<and> disposition c = Applied"
    by (simp add: sample_defs control_eval txn_eval)
  then obtain c db' where run: "pause_run 60 (sample_context 37 ''k7'') sample_control 120 sample_leased_db
      = Inr (c, db')" and d: "disposition c = Applied"
    by blast
  have "db_runs sample_leased_db = [sample_run\<lparr>r_status := RunRunning\<rparr>]" "r_id sample_run = 1"
      "cc_tenant_id (sample_context 37 ''k7'') = 7"
    by (simp_all add: sample_defs)
  with pause_run_freezes [OF ok run d] show ?thesis
    using run by auto
qed

section \<open>Cancelling\<close>

lemma closed_stage_left:
  assumes "s \<in> set (sql_update (\<lambda>s. s_tenant s = tenant \<and> s_run s = run
             \<and> s_status s \<in> {StagePlanned, StageActive, StageWaitingApproval, StageReworkRequired})
         (\<lambda>s. s\<lparr>s_status := StageCancelled, s_version := s_version s + 1, s_completed_at := Some now,
                s_updated_at := now\<rparr>) ss)"
    and "s_tenant s = tenant" and "s_run s = run"
  shows "s_status s \<in> {StageSucceeded, StageFailed, StageSkipped, StageCancelled}"
  using assms(1)
  by (rule in_sql_updateE) (use assms(2,3) in \<open>cases "s_status s"; auto split: if_splits\<close>)



section \<open>A scheduled tool retry blocks the cancellation\<close>

text \<open>
  \<open>cancel_run_children\<close> fails the tools of the run that wait for a retry but leaves their retry
  time, which the check of the table allows only for a tool that waits for one.
\<close>

lemma cancelled_tool_violates:
  assumes "cancel_planned_executions tenant run reason now db = Inr (u, db')"
    and "x \<in> set (db_tools db)" and "x_tenant x = tenant" and "x_run x = run"
    and "x_status x = ToolRetryScheduled"
  shows "\<not> tool_checks x"
proof -
  from assms(1) have "updates_pass tool_checks (\<lambda>x. x_tenant x = tenant \<and> x_run x = run
        \<and> x_status x \<in> {ToolPlanned, ToolRetryScheduled})
      (\<lambda>x. x\<lparr>x_status := ToolFailed, x_error_code := Some reason, x_completed_at := Some now,
              x_updated_at := now\<rparr>) (db_tools db)"
    by (auto simp: cancel_planned_executions_def Let_def txn_iffs)
  from updates_passD [OF this assms(2)] show ?thesis
    using assms(3-5) by (auto simp: tool_checks_def)
qed

lemma cancel_children_tools:
  assumes "cancel_run_children tenant run now db = Inr (u, db')"
    and "x \<in> set (db_tools db)" and "x_tenant x = tenant" and "x_run x = run"
    and "x_status x = ToolRetryScheduled"
  shows "\<not> tool_checks x"
proof -
  from assms(1) obtain db1 where "cancel_planned_executions tenant run ''run_cancelled'' now db1 = Inr ((), db')"
      and "db_tools db1 = db_tools db"
    unfolding cancel_run_children_def Let_def
    by (clarsimp simp: txn_iffs cancel_open_waits_def)
  with assms(2-) cancelled_tool_violates show ?thesis by metis
qed

text \<open>
  No cancellation of a run is ever applied while a tool execution of the run is scheduled for
  a retry: the update that fails the tool leaves its retry time set, which the check of its table on retry
  schedules forbids, and the whole transaction is rejected.
\<close>

theorem cancel_run_blocked_by_tool_retry:
  assumes "runs_ok db" and "x \<in> set (db_tools db)" and "tool_checks x"
    and "x_tenant x = cc_tenant_id ctx" and "x_run x = er_run_id (crc_expected_run cmd)"
    and "x_status x = ToolRetryScheduled"
  shows "\<not> (\<exists>c db'. cancel_run ttl ctx cmd now db = Inr (c, db') \<and> disposition c = Applied)"
proof
  assume "\<exists>c db'. cancel_run ttl ctx cmd now db = Inr (c, db') \<and> disposition c = Applied"
  then obtain c db' where "execute_control ttl ctx cmd ControlCancel now db = Inr (c, db')"
      and "disposition c = Applied"
    by (auto simp: cancel_run_def)
  from this(1) assms(1) this(2) show False
  proof (rule control_applied_effect)
    fix run tr rs db1
    assume run: "r_id run = er_run_id (crc_expected_run cmd)"
      and work: "control_work ControlCancel (cc_tenant_id ctx) (run_snapshot_of run) (r_generation run) now
        (db\<lparr>db_receipts := rs\<rparr>) = Inr (tr, db1)"
    have "cancel_work (cc_tenant_id ctx) (run_snapshot_of run) now (db\<lparr>db_receipts := rs\<rparr>) = Inr (tr, db1)"
      using work by (simp add: control_work_def)
    then show False
      by (rule cancel_work_effect) (drule cancel_children_tools [of _ _ _ _ _ _ x], use assms run in simp_all)
  qed
qed

definition sample_tool :: tool_row where
  "sample_tool = \<lparr> x_id = 80, x_tenant = 7, x_run = 1, x_stage = None, x_task = 2, x_call_id = ''c'',
     x_name = ''n'', x_scope = ''s'', x_key = ''k'', x_hash = 0, x_status = ToolRetryScheduled,
     x_attempts = 1, x_request = JObject [], x_result = None, x_error_code = None,
     x_recovery_action = None, x_external_ref = None, x_started_at = 20, x_created_at = 20,
     x_updated_at = 20, x_completed_at = None, x_retry_at = Some 500 \<rparr>"

lemma cancel_run_blocked_by_tool_retry_witness:
  "\<not> (\<exists>c db'. cancel_run 60 (sample_context 37 ''k7'') sample_control 120
         (sample_leased_db\<lparr>db_tools := [sample_tool]\<rparr>) = Inr (c, db') \<and> disposition c = Applied)"
proof (rule cancel_run_blocked_by_tool_retry [where x = sample_tool])
  show "runs_ok (sample_leased_db\<lparr>db_tools := [sample_tool]\<rparr>)"
    by (simp add: sample_defs runs_ok_def run_keys_ok_def run_checks_def revision_checks_def status_sets)
qed (simp_all add: sample_tool_def tool_checks_def sample_defs sample_control_def status_sets)

section \<open>Resuming\<close>

lemma resumed_run_status_cong:
  assumes "db_tasks db1 = db_tasks db2" and "db_waits db1 = db_waits db2"
  shows "resumed_run_status tenant run now db1 = resumed_run_status tenant run now db2"
  using assms by (simp add: resumed_run_status_def)

lemma resumed_status_live:
  "resumed_run_status tenant run now db = Inr s \<Longrightarrow> \<not> run_terminal s \<and> s \<noteq> RunPaused"
  by (auto simp: resumed_run_status_def status_sets Let_def split: if_splits)

lemma rebased_generation:
  assumes "t \<in> set (sql_update (preserved_task tenant run generation now) (rebase_task generation now) ts)"
    and "t_tenant t = tenant" and "t_run t = run"
    and "t_status t \<in> {TaskScheduled, TaskQueued, TaskRetryScheduled}"
  shows "t_generation t = generation"
  using assms(1)
  by (rule in_sql_updateE)
     (use assms(2-4) in \<open>auto simp: preserved_task_def rebase_task_def split: if_splits\<close>)

lemma rebase_effect:
  assumes "rebase_preserved_tasks tenant run generation now db = Inr (u, db')"
  shows "db_tasks db' = sql_update (preserved_task tenant run generation now)
      (rebase_task generation now) (db_tasks db) \<and> db_waits db' = db_waits db"
  using assms by (auto simp: rebase_preserved_tasks_def txn_iffs)

lemma rebase_attempts:
  "rebase_preserved_tasks tenant run generation now db = Inr (u, db') \<Longrightarrow> db_attempts db' = db_attempts db"
  by (auto simp: rebase_preserved_tasks_def txn_iffs)

text \<open>
  The status a run has to have for the work that is left to it: running while a task of it is
  leased, else queued when a task of it could be claimed now, else waiting for an approval, else
  waiting for any other answer, else waiting for the time of a task that comes later.
\<close>

definition work_decides_status ::
  "uuid \<Rightarrow> uuid \<Rightarrow> micros \<Rightarrow> task_row list \<Rightarrow> wait_row list \<Rightarrow> run_status \<Rightarrow> bool" where
  "work_decides_status tenant run now tasks waits s \<longleftrightarrow>
    (let own = {t \<in> set tasks. t_tenant t = tenant \<and> t_run t = run};
         open_types = w_type ` {w \<in> set waits. w_tenant w = tenant \<and> w_run w = run \<and> w_status w = WaitOpen};
         leased = (\<exists>t \<in> own. t_status t = TaskLeased);
         due = (\<exists>t \<in> own. t_status t \<in> {TaskQueued, TaskRetryScheduled} \<and> t_available_at t \<le> now) in
       (s = RunRunning \<longleftrightarrow> leased)
     \<and> (s = RunQueued \<longleftrightarrow> \<not> leased \<and> due)
     \<and> (s = RunApprovalRequired \<longleftrightarrow> \<not> leased \<and> \<not> due \<and> ''approval'' \<in> open_types)
     \<and> (s = RunWaiting \<longleftrightarrow> \<not> leased \<and> \<not> due \<and> ''approval'' \<notin> open_types \<and> open_types \<noteq> {})
     \<and> (s = RunRetrying \<longleftrightarrow> \<not> leased \<and> \<not> due \<and> open_types = {})
     \<and> (s = RunRetrying \<longrightarrow>
          (\<exists>t \<in> own. t_status t \<in> {TaskScheduled, TaskRetryScheduled} \<and> now < t_available_at t)))"

lemma one_of:
  "(\<exists>k \<in> K. k = a) \<longleftrightarrow> a \<in> K"
  "a \<notin> K \<and> (\<exists>k \<in> K. k \<noteq> a) \<longleftrightarrow> a \<notin> K \<and> K \<noteq> {}"
  "a \<notin> K \<and> \<not> (\<exists>k \<in> K. k \<noteq> a) \<longleftrightarrow> K = {}"
  by auto

lemma decided_in_order:
  assumes "(if a then Inr RunRunning else if b then Inr RunQueued else if c then Inr RunApprovalRequired
      else if d then Inr RunWaiting else if r then Inr RunRetrying else Inl e) = Inr s"
  shows "(s = RunRunning \<longleftrightarrow> a) \<and> (s = RunQueued \<longleftrightarrow> \<not> a \<and> b)
     \<and> (s = RunApprovalRequired \<longleftrightarrow> \<not> a \<and> \<not> b \<and> c) \<and> (s = RunWaiting \<longleftrightarrow> \<not> a \<and> \<not> b \<and> \<not> c \<and> d)
     \<and> (s = RunRetrying \<longleftrightarrow> \<not> a \<and> \<not> b \<and> \<not> c \<and> \<not> d) \<and> (s = RunRetrying \<longrightarrow> r)"
  using assms by (auto split: if_splits)

lemma resumed_status_follows_work:
  assumes "resumed_run_status tenant run now db = Inr s"
  shows "work_decides_status tenant run now (db_tasks db) (db_waits db) s"
proof -
  define own where "own = {t \<in> set (db_tasks db). t_tenant t = tenant \<and> t_run t = run}"
  define types where
    "types = w_type ` {w \<in> set (db_waits db). w_tenant w = tenant \<and> w_run w = run \<and> w_status w = WaitOpen}"
  have task: "sql_exists (\<lambda>t. t_tenant t = tenant \<and> t_run t = run \<and> P t) (db_tasks db) \<longleftrightarrow> (\<exists>t \<in> own. P t)" for P
    by (auto simp: sql_exists_def list_ex_iff own_def)
  have wait: "sql_exists (\<lambda>w. w_tenant w = tenant \<and> w_run w = run \<and> w_status w = WaitOpen \<and> P (w_type w))
      (db_waits db) \<longleftrightarrow> (\<exists>k \<in> types. P k)" for P
    by (auto simp: sql_exists_def list_ex_iff types_def)
  note types = one_of [where K = types and a = "''approval''"]
  note order = decided_in_order [OF assms [unfolded resumed_run_status_def Let_def task
      wait [of "\<lambda>k. k = ''approval''"] wait [of "\<lambda>k. k \<noteq> ''approval''"] types(1)]]
  show ?thesis
    unfolding work_decides_status_def Let_def own_def [symmetric] types_def [symmetric]
    using order unfolding types(2,3) .
qed

text \<open>
  C12: a resume that is applied finds the run paused, before its deadline, and with no external
  execution whose outcome is unknown; it brings every preserved task to the run's generation and
  queues those that are due. The status of the run follows from the work that is left: running while
  a task is leased, else queued when a task can be claimed now, else waiting for an approval, else
  waiting for another answer, else retrying, and then a task comes later. The generation stays, no
  attempt and no wait changes, and the run advances by one event.
\<close>

theorem resume_run_follows_preserved_work:
  assumes "runs_ok db" and "resume_run ttl ctx cmd now db = Inr (c, db')" and "disposition c = Applied"
  shows "\<exists>run run'. run \<in> set (db_runs db) \<and> r_id run = er_run_id (crc_expected_run cmd)
     \<and> r_status run = RunPaused
     \<and> (case r_deadline run of None \<Rightarrow> True | Some deadline \<Rightarrow> now < deadline)
     \<and> (\<forall>x \<in> set (db_tools db). x_tenant x = cc_tenant_id ctx \<and> x_run x = r_id run
          \<longrightarrow> \<not> tool_blocks_stop (x_status x))
     \<and> (\<forall>g \<in> set (db_agents db). g_tenant g = cc_tenant_id ctx \<and> g_run g = r_id run
          \<longrightarrow> \<not> agent_blocks_stop (g_status g))
     \<and> db_runs db' = sql_update (same_run run) (\<lambda>_. run') (db_runs db)
     \<and> r_suspended_from run' = None \<and> r_generation run' = r_generation run
     \<and> \<not> run_terminal (r_status run') \<and> r_status run' \<noteq> RunPaused
     \<and> db_tasks db' = sql_update (preserved_task (cc_tenant_id ctx) (r_id run) (r_generation run) now)
          (rebase_task (r_generation run) now) (db_tasks db)
     \<and> (\<forall>t \<in> set (db_tasks db'). t_tenant t = cc_tenant_id ctx \<and> t_run t = r_id run
          \<and> t_status t \<in> {TaskScheduled, TaskQueued, TaskRetryScheduled}
          \<longrightarrow> t_generation t = r_generation run')
     \<and> db_attempts db' = db_attempts db \<and> db_waits db' = db_waits db
     \<and> work_decides_status (cc_tenant_id ctx) (r_id run) now (db_tasks db') (db_waits db') (r_status run')
     \<and> advances db db'"
  using assms(2,1,3) unfolding resume_run_def
proof (rule control_applied_effect)
  fix run tr rs db1
  let ?tenant = "cc_tenant_id ctx"
  let ?run' = "run_controlled tr (crc_event_id cmd) (r_version run + 1) (int (ctl_generation tr))
              (r_next_seq run + 1) now run"
  assume run: "run \<in> set (db_runs db)" "r_id run = er_run_id (crc_expected_run cmd)"
      "ControlResume = ControlResume \<Longrightarrow> r_status run = RunPaused"
      "ControlResume = ControlResume \<Longrightarrow> (case r_deadline run of None \<Rightarrow> True | Some deadline \<Rightarrow> now < deadline)"
    and work: "control_work ControlResume ?tenant (run_snapshot_of run) (r_generation run) now
        (db\<lparr>db_receipts := rs\<rparr>) = Inr (tr, db1)"
    and eff: "db_runs db' = sql_update (same_run run) (\<lambda>_. ?run') (db_runs db)"
      "int (ctl_generation tr)
         = (if ControlResume = ControlResume then r_generation run else r_generation run + 1)"
      "db_tasks db' = db_tasks db1" "db_waits db' = db_waits db1" "advances db db'"
      "db_attempts db' = db_attempts db1"
  have "resume_work ?tenant (run_snapshot_of run) (r_generation run) now (db\<lparr>db_receipts := rs\<rparr>)
      = Inr (tr, db1)"
    using work by (simp add: control_work_def)
  then show ?thesis
  proof (rule resume_work_effect)
    fix status
    assume safe: "ensure_resume_is_safe ?tenant (rs_run_id (run_snapshot_of run)) (db\<lparr>db_receipts := rs\<rparr>)
        = Inr ((), db\<lparr>db_receipts := rs\<rparr>)"
      and reb: "rebase_preserved_tasks ?tenant (rs_run_id (run_snapshot_of run)) (r_generation run) now
        (db\<lparr>db_receipts := rs\<rparr>) = Inr ((), db1)"
      and st: "resumed_run_status ?tenant (rs_run_id (run_snapshot_of run)) now db1 = Inr status"
      and tr: "tr = \<lparr> ctl_status = status, ctl_suspended_from = None,
       ctl_generation = rs_execution_generation (run_snapshot_of run), ctl_terminal = False,
       ctl_follow_ups = [], ctl_blocked_reason = None \<rparr>"
    note tasks = rebase_effect [OF reb]
    have unblocked: "\<forall>x \<in> set (db_tools db). x_tenant x = ?tenant \<and> x_run x = r_id run
          \<longrightarrow> \<not> tool_blocks_stop (x_status x)"
      "\<forall>g \<in> set (db_agents db). g_tenant g = ?tenant \<and> g_run g = r_id run
          \<longrightarrow> \<not> agent_blocks_stop (g_status g)"
      using safe by (auto simp: ensure_resume_is_safe_def txn_iffs sql_exists_def list_ex_iff)
    have "t_generation t = r_generation run"
      if "t \<in> set (db_tasks db')" "t_tenant t = ?tenant" "t_run t = r_id run"
        "t_status t \<in> {TaskScheduled, TaskQueued, TaskRetryScheduled}" for t
      by (rule rebased_generation) (use tasks that eff in auto)
    moreover have st': "resumed_run_status ?tenant (r_id run) now db' = Inr status"
      using st resumed_run_status_cong [OF eff(3,4)] by simp
    ultimately show ?thesis
      using run eff tasks tr unblocked resumed_status_live [OF st] rebase_attempts [OF reb]
        resumed_status_follows_work [OF st']
      by (intro exI [of _ run] exI [of _ ?run']) (simp add: run_controlled_def)
  qed
qed

text \<open>The sample run paused while its first task is queued for a retry.\<close>

definition sample_paused_db :: db where
  "sample_paused_db = sample_db\<lparr> db_runs := [sample_run\<lparr>r_status := RunPaused,
       r_suspended_from := Some RunQueued\<rparr>] \<rparr>"

lemma resume_run_follows_preserved_work_witness:
  "\<exists>c db'. resume_run 60 (sample_context 37 ''k7'') sample_control 120 sample_paused_db = Inr (c, db')
     \<and> (\<forall>t \<in> set (db_tasks db'). t_tenant t = 7 \<and> t_run t = 1 \<and> t_status t = TaskQueued
          \<longrightarrow> t_generation t = 0) \<and> advances sample_paused_db db'"
proof -
  have ok: "runs_ok sample_paused_db"
    by (simp add: sample_paused_db_def sample_defs runs_ok_def run_keys_ok_def run_checks_def revision_checks_def status_sets)
  have "\<exists>c db'. resume_run 60 (sample_context 37 ''k7'') sample_control 120 sample_paused_db = Inr (c, db')
      \<and> disposition c = Applied"
    by (simp add: sample_paused_db_def sample_defs control_eval resume_eval txn_eval)
  then obtain c db' where run: "resume_run 60 (sample_context 37 ''k7'') sample_control 120 sample_paused_db
      = Inr (c, db')" and d: "disposition c = Applied"
    by blast
  from resume_run_follows_preserved_work [OF ok run d] show ?thesis
    using run by (auto simp: sample_paused_db_def sample_defs)
qed

text \<open>
  The resume queues a task whose prerequisite is not done: in the paused sample run task 3 is
  scheduled because it depends on task 2, and task 2 has not run yet.
\<close>

theorem resume_queues_blocked_task:
  "\<exists>c db'. resume_run 60 (sample_context 37 ''k7'') sample_control 120 sample_paused_db = Inr (c, db')
     \<and> (\<exists>t \<in> set (db_tasks db'). t_id t = 3 \<and> t_status t = TaskQueued)
     \<and> sample_dependency \<in> set (db_deps db') \<and> d_task sample_dependency = 3
     \<and> (\<exists>p \<in> set (db_tasks db'). t_id p = d_prerequisite sample_dependency \<and> \<not> task_terminal (t_status p))"
  by (simp add: sample_paused_db_def sample_defs control_eval resume_eval txn_eval)

section \<open>The control commands are run commands\<close>

lemma control_work_task_ids:
  assumes "control_work kind tenant (run_snapshot_of run) generation now db = Inr (tr, db')"
  shows "map t_id (db_tasks db') = map t_id (db_tasks db)"
proof (cases kind)
  case ControlPause
  with assms have "pause_work tenant (run_snapshot_of run) now db = Inr (tr, db')"
    by (simp add: control_work_def)
  from pause_work_tasks [OF this] show ?thesis by (simp add: map_sql_update_same freeze_task_def)
next
  case ControlResume
  with assms have "resume_work tenant (run_snapshot_of run) generation now db = Inr (tr, db')"
    by (simp add: control_work_def)
  then show ?thesis
    by (rule resume_work_effect)
       (auto dest!: rebase_effect simp: map_sql_update_same rebase_task_def)
next
  case ControlCancel
  with assms have "cancel_work tenant (run_snapshot_of run) now db = Inr (tr, db')"
    by (simp add: control_work_def)
  then show ?thesis
  proof (rule cancel_work_effect)
    fix db1 db2 db3 b follow_ups reconciles
    assume ch: "cancel_run_children tenant (rs_run_id (run_snapshot_of run)) now db = Inr ((), db1)"
      and fin: "finalize_open_task_attempts tenant (rs_run_id (run_snapshot_of run)) now db1 = Inr ((), db2)"
      and st: "request_external_stops tenant (rs_run_id (run_snapshot_of run)) now db2
            = Inr ((b, follow_ups), db3)"
      and mk: "mark_executing_tools_uncertain tenant (rs_run_id (run_snapshot_of run)) now db3
            = Inr (reconciles, db')"
    show ?thesis
      using finalize_attempts_effect [OF fin] external_frame [OF st] mark_tools_frame [OF mk]
        cancel_children_effect [OF ch]
      by (simp add: map_sql_update_same cancel_task_def)
  qed
qed

lemma execute_control_effect:
  assumes "runs_ok db" and "execute_control ttl ctx cmd kind now db = Inr (c, db')"
  shows "quiet db db' \<or> advances db db'"
  using assms(2)
proof (cases rule: execute_control_cases)
  case (controlled run rs)
  have "\<not> run_terminal (r_status run)"
  proof (cases kind)
    case ControlResume
    then show ?thesis using controlled(5) by (simp add: status_sets)
  qed (use controlled(2) in \<open>simp_all add: is_no_op_def\<close>)
  from control_locked_run_advances [OF controlled(10) assms(1) controlled(1) this] show ?thesis by simp
qed (simp_all add: quiet_def)

lemma execute_control_keys:
  assumes "task_keys_ok db" and "execute_control ttl ctx cmd kind now db = Inr (c, db')"
  shows "task_keys_ok db'"
  using assms(2)
proof (cases rule: execute_control_cases)
  case (controlled run rs)
  from controlled(10,9) show ?thesis
  proof (rule control_locked_run_effect)
    fix tr db1
    assume "control_work kind (cc_tenant_id ctx) (run_snapshot_of run) (r_generation run) now
        (db\<lparr>db_receipts := rs\<rparr>) = Inr (tr, db1)" and "db_tasks db' = db_tasks db1"
    then show ?thesis using assms(1) by (auto dest: control_work_task_ids simp: task_keys_ok_def)
  qed
qed (use assms(1) in \<open>simp_all add: task_keys_ok_def\<close>)

interpretation control_cmd: run_command
  "\<lambda>(ttl, ctx, cmd, kind, now). execute_control ttl ctx cmd kind now"
  by unfold_locales (auto dest: execute_control_effect [OF store_okD(1)] execute_control_keys [OF store_okD(2)])

end
