(* ===== verification/Inserts.thy ===== *)
theory Inserts
  imports RunControl
begin

text \<open>
  The records a command carries for the rows it creates (\<open>NewTask\<close>, \<open>NewCheckpoint\<close>,
  \<open>NewWaitSubscription\<close>, \<open>NewArtifactRef\<close>, \<open>InitialStage\<close> and their parts in
  \<open>durable-store/src/command.rs\<close>) and the \<open>INSERT\<close> statements of \<open>transaction_executor.rs\<close> that
  several commands share, each with the keys, references and checks of its table. Foreign keys to
  tenants and to the definition tables are not modelled.
\<close>

section \<open>Command records\<close>

record new_checkpoint =
  nc_checkpoint_id :: uuid
  nc_sequence :: nat
  nc_schema_version :: nat
  nc_workflow_version_id :: "uuid option"
  nc_coordinator_agent_version_id :: "uuid option"
  nc_execution_generation :: nat
  nc_state :: json_payload
  nc_state_digest :: digest
  nc_created_event_id :: uuid

record stage_mutation =
  sm_stage_execution_id :: uuid
  sm_expected_version :: nat
  sm_target_status :: stage_status

record new_task =
  nt_task_id :: uuid
  nt_stage_execution_id :: "uuid option"
  nt_logical_key :: logical_key
  nt_kind :: task_kind
  nt_generation :: nat
  nt_based_on_checkpoint_sequence :: nat
  nt_priority :: int
  nt_available_at :: micros
  nt_max_attempts :: nat
  nt_input :: json_payload
  nt_deadline :: "micros option"
  nt_created_event_id :: uuid

record wait_resume_task =
  wr_task_id :: uuid
  wr_logical_key :: logical_key
  wr_kind :: task_kind
  wr_priority :: int
  wr_max_attempts :: nat
  wr_input :: json_payload
  wr_deadline :: "micros option"

record new_wait_subscription =
  nw_wait_id :: uuid
  nw_stage_execution_id :: "uuid option"
  nw_wait_type :: string
  nw_expected_event_type :: string
  nw_match_key_hash :: digest
  nw_match_contract :: json_payload
  nw_expires_at :: "micros option"
  nw_resume_task :: wait_resume_task
  nw_created_event_id :: uuid

record artifact_version_ref =
  av_artifact_id :: uuid
  av_version :: nat

record new_artifact_ref =
  na_artifact_id :: uuid
  na_stage_execution_id :: "uuid option"
  na_logical_key :: logical_key
  na_kind :: string
  na_contract_version :: nat
  na_version :: nat
  na_uri :: string
  na_digest :: digest
  na_media_type :: string
  na_size_bytes :: nat
  na_sources :: "artifact_version_ref list"
  na_metadata :: json_payload
  na_produced_by :: string
  na_created_event_id :: uuid

record initial_stage =
  is_stage_execution_id :: uuid
  is_stage_key :: logical_key
  is_definition_stage_key :: logical_key
  is_status :: stage_status
  is_attempt :: nat
  is_assignee_kind :: "string option"
  is_assignee_ref :: "string option"
  is_input_contract :: json_payload
  is_output_contract :: json_payload
  is_policy :: json_payload

section \<open>Inserting a row\<close>

text \<open>
  An \<open>INSERT\<close> of a row \<open>r\<close> with its checks, the rows it may not repeat and the rows it refers to;
  every violation is the same \<open>ConstraintViolation\<close>.
\<close>

definition insert_row ::
  "bool \<Rightarrow> (db \<Rightarrow> bool) \<Rightarrow> (db \<Rightarrow> bool) \<Rightarrow> (db \<Rightarrow> db) \<Rightarrow> unit txn" where
  "insert_row checks fresh refs write =
    thenT (guardT checks check_violation)
    (thenT (\<lambda>db. guardT (fresh db) unique_violation db)
    (thenT (\<lambda>db. guardT (refs db) foreign_key_violation db)
    (modifyT write)))"

lemma insert_row_iff [txn_iffs]:
  "insert_row checks fresh refs write db = Inr (u, db') \<longleftrightarrow>
     checks \<and> fresh db \<and> refs db \<and> db' = write db"
  by (auto simp: insert_row_def txn_iffs)

lemma keeps_insert_row [keeps_intros]:
  "(\<And>db. g (write db) = g db) \<Longrightarrow> keeps g (insert_row checks fresh refs write)"
  by (auto simp: keeps_def txn_iffs)

definition run_exists :: "uuid \<Rightarrow> uuid \<Rightarrow> db \<Rightarrow> bool" where
  "run_exists tenant run db \<longleftrightarrow> find_run tenant run db \<noteq> None"

definition event_exists :: "uuid \<Rightarrow> uuid \<Rightarrow> uuid \<Rightarrow> db \<Rightarrow> bool" where
  "event_exists tenant run event db \<longleftrightarrow>
     sql_exists (\<lambda>e. e_tenant e = tenant \<and> e_run e = run \<and> e_id e = event) (db_events db)"

definition stage_exists :: "uuid \<Rightarrow> uuid \<Rightarrow> uuid option \<Rightarrow> db \<Rightarrow> bool" where
  "stage_exists tenant run stage db \<longleftrightarrow> (case stage of None \<Rightarrow> True
     | Some s \<Rightarrow> sql_exists (\<lambda>r. s_tenant r = tenant \<and> s_run r = run \<and> s_id r = s) (db_stages db))"

definition task_exists :: "uuid \<Rightarrow> uuid \<Rightarrow> uuid option \<Rightarrow> db \<Rightarrow> bool" where
  "task_exists tenant run task db \<longleftrightarrow> (case task of None \<Rightarrow> True
     | Some i \<Rightarrow> sql_exists (\<lambda>t. t_tenant t = tenant \<and> t_run t = run \<and> t_id t = i) (db_tasks db))"

definition insert_checkpoint :: "checkpoint_row \<Rightarrow> unit txn" where
  "insert_checkpoint c = insert_row
     (1 \<le> c_seq c \<and> 1 \<le> c_schema_version c \<and> 0 \<le> c_generation c)
     (\<lambda>db. \<not> sql_exists (\<lambda>d. c_id d = c_id c
        \<or> (c_tenant d = c_tenant c \<and> c_run d = c_run c \<and> c_seq d = c_seq c)) (db_checkpoints db))
     (\<lambda>db. run_exists (c_tenant c) (c_run c) db \<and> event_exists (c_tenant c) (c_run c) (c_event c) db)
     (\<lambda>db. db\<lparr>db_checkpoints := db_checkpoints db @ [c]\<rparr>)"

definition insert_stage :: "stage_row \<Rightarrow> unit txn" where
  "insert_stage s = insert_row
     (stage_checks s \<and> s_key s \<noteq> [] \<and> s_definition_key s \<noteq> Some []
      \<and> (s_definition_key s \<noteq> None \<or> s_generated_by s \<noteq> None)
      \<and> (case (s_assignee_kind s, s_assignee_ref s) of
            (None, None) \<Rightarrow> True | (Some k, Some r) \<Rightarrow> k \<noteq> [] \<and> r \<noteq> [] | _ \<Rightarrow> False))
     (\<lambda>db. \<not> sql_exists (\<lambda>r. s_id r = s_id s
        \<or> (s_tenant r = s_tenant s \<and> s_run r = s_run s \<and> s_key r = s_key s \<and> s_attempt r = s_attempt s))
        (db_stages db))
     (\<lambda>db. run_exists (s_tenant s) (s_run s) db
        \<and> (case s_generated_by s of None \<Rightarrow> True | Some e \<Rightarrow> event_exists (s_tenant s) (s_run s) e db))
     (\<lambda>db. db\<lparr>db_stages := db_stages db @ [s]\<rparr>)"

definition insert_wait :: "wait_row \<Rightarrow> unit txn" where
  "insert_wait w = insert_row
     (wait_checks w \<and> w_type w \<noteq> [] \<and> w_event_type w \<noteq> [] \<and> w_resume_key w \<noteq> []
      \<and> 1 \<le> w_resume_max_attempts w
      \<and> (case w_resume_deadline w of None \<Rightarrow> True | Some d \<Rightarrow> w_created_at w \<le> d)
      \<and> (case w_expires_at w of None \<Rightarrow> True | Some d \<Rightarrow> w_created_at w \<le> d))
     (\<lambda>db. \<not> sql_exists (\<lambda>v. w_id v = w_id w
        \<or> (w_tenant v = w_tenant w \<and> w_resume_task v = w_resume_task w)
        \<or> (w_tenant v = w_tenant w \<and> w_run v = w_run w \<and> w_type v = w_type w
           \<and> w_event_type v = w_event_type w \<and> w_match_hash v = w_match_hash w
           \<and> w_active_slot v \<noteq> None \<and> w_active_slot v = w_active_slot w)) (db_waits db))
     (\<lambda>db. run_exists (w_tenant w) (w_run w) db \<and> stage_exists (w_tenant w) (w_run w) (w_stage w) db
        \<and> event_exists (w_tenant w) (w_run w) (w_created_event w) db)
     (\<lambda>db. db\<lparr>db_waits := db_waits db @ [w]\<rparr>)"

definition insert_artifact :: "artifact_row \<Rightarrow> unit txn" where
  "insert_artifact f = insert_row
     (f_key f \<noteq> [] \<and> f_kind f \<noteq> [] \<and> 1 \<le> f_contract_version f \<and> 1 \<le> f_version f \<and> f_uri f \<noteq> []
      \<and> f_media_type f \<noteq> [] \<and> 0 \<le> f_size f \<and> f_produced_by f \<noteq> [])
     (\<lambda>db. \<not> sql_exists (\<lambda>a. f_id a = f_id f
        \<or> (f_tenant a = f_tenant f \<and> f_run a = f_run f \<and> f_key a = f_key f \<and> f_version a = f_version f))
        (db_artifacts db))
     (\<lambda>db. run_exists (f_tenant f) (f_run f) db \<and> stage_exists (f_tenant f) (f_run f) (f_stage f) db
        \<and> task_exists (f_tenant f) (f_run f) (f_task f) db
        \<and> event_exists (f_tenant f) (f_run f) (f_event f) db)
     (\<lambda>db. db\<lparr>db_artifacts := db_artifacts db @ [f]\<rparr>)"

lemmas insert_row_defs = insert_checkpoint_def insert_stage_def insert_wait_def insert_artifact_def

lemma keeps_inserts [keeps_intros]:
  "(\<And>db v. g (db\<lparr>db_checkpoints := v\<rparr>) = g db) \<Longrightarrow> keeps g (insert_checkpoint c)"
  "(\<And>db v. g (db\<lparr>db_stages := v\<rparr>) = g db) \<Longrightarrow> keeps g (insert_stage s)"
  "(\<And>db v. g (db\<lparr>db_waits := v\<rparr>) = g db) \<Longrightarrow> keeps g (insert_wait w)"
  "(\<And>db v. g (db\<lparr>db_artifacts := v\<rparr>) = g db) \<Longrightarrow> keeps g (insert_artifact f)"
  by (auto simp: insert_row_defs intro: keeps_intros)

section \<open>The rows a command creates\<close>

definition checkpoint_row_of ::
  "uuid \<Rightarrow> uuid \<Rightarrow> uuid \<Rightarrow> micros \<Rightarrow> new_checkpoint \<Rightarrow> int \<Rightarrow> int \<Rightarrow> json \<Rightarrow> checkpoint_row" where
  "checkpoint_row_of tenant run event now cp sequence generation state =
    \<lparr> c_id = nc_checkpoint_id cp, c_tenant = tenant, c_run = run, c_seq = sequence,
      c_schema_version = int (nc_schema_version cp), c_workflow_version = nc_workflow_version_id cp,
      c_coordinator = nc_coordinator_agent_version_id cp, c_generation = generation,
      c_state = state, c_digest = nc_state_digest cp, c_event = event, c_created_at = now \<rparr>"

text \<open>\<open>insert_completion_checkpoint\<close>.\<close>

definition insert_new_checkpoint ::
  "externals \<Rightarrow> uuid \<Rightarrow> uuid \<Rightarrow> uuid \<Rightarrow> micros \<Rightarrow> new_checkpoint \<Rightarrow> unit txn" where
  "insert_new_checkpoint ext tenant run event now cp =
    bindT (liftT (to_i64 (nc_sequence cp) ''checkpoint sequence'')) (\<lambda>sequence.
    bindT (liftT (to_i64 (nc_execution_generation cp) ''checkpoint generation'')) (\<lambda>generation.
    bindT (liftT (json_value ext (nc_state cp))) (\<lambda>state.
    insert_checkpoint (checkpoint_row_of tenant run event now cp sequence generation state))))"

definition initial_stage_row ::
  "uuid \<Rightarrow> uuid \<Rightarrow> micros \<Rightarrow> initial_stage \<Rightarrow> json \<Rightarrow> json \<Rightarrow> json \<Rightarrow> stage_row" where
  "initial_stage_row tenant run now st input_contract output_contract policy =
    \<lparr> s_id = is_stage_execution_id st, s_tenant = tenant, s_run = run, s_key = is_stage_key st,
      s_definition_key = Some (is_definition_stage_key st), s_status = is_status st, s_version = 0,
      s_attempt = int (is_attempt st), s_assignee_kind = is_assignee_kind st,
      s_assignee_ref = is_assignee_ref st, s_input_contract = input_contract,
      s_output_contract = output_contract, s_policy = policy, s_generated_by = None,
      s_started_at = (if is_status st = StageActive then Some now else None), s_completed_at = None,
      s_created_at = now, s_updated_at = now \<rparr>"

definition insert_initial_stage ::
  "externals \<Rightarrow> uuid \<Rightarrow> uuid \<Rightarrow> micros \<Rightarrow> initial_stage \<Rightarrow> unit txn" where
  "insert_initial_stage ext tenant run now st =
    bindT (liftT (json_value ext (is_input_contract st))) (\<lambda>input_contract.
    bindT (liftT (json_value ext (is_output_contract st))) (\<lambda>output_contract.
    bindT (liftT (json_value ext (is_policy st))) (\<lambda>policy.
    insert_stage (initial_stage_row tenant run now st input_contract output_contract policy))))"

definition new_wait_row ::
  "uuid \<Rightarrow> uuid \<Rightarrow> uuid \<Rightarrow> micros \<Rightarrow> new_wait_subscription \<Rightarrow> json \<Rightarrow> json \<Rightarrow> wait_row" where
  "new_wait_row tenant run event now w contract resume_input =
    \<lparr> w_id = nw_wait_id w, w_tenant = tenant, w_run = run, w_stage = nw_stage_execution_id w,
      w_type = nw_wait_type w, w_event_type = nw_expected_event_type w,
      w_match_hash = nw_match_key_hash w, w_contract = contract, w_status = WaitOpen,
      w_active_slot = Some 1, w_expires_at = nw_expires_at w, w_consumed_by = None,
      w_created_event = event, w_created_at = now, w_consumed_at = None, w_updated_at = now,
      w_resume_task = wr_task_id (nw_resume_task w), w_resume_key = wr_logical_key (nw_resume_task w),
      w_resume_kind = wr_kind (nw_resume_task w), w_resume_priority = wr_priority (nw_resume_task w),
      w_resume_max_attempts = int (wr_max_attempts (nw_resume_task w)),
      w_resume_input = resume_input, w_resume_deadline = wr_deadline (nw_resume_task w) \<rparr>"

definition insert_new_wait ::
  "externals \<Rightarrow> uuid \<Rightarrow> uuid \<Rightarrow> uuid \<Rightarrow> micros \<Rightarrow> new_wait_subscription \<Rightarrow> unit txn" where
  "insert_new_wait ext tenant run event now w =
    bindT (liftT (json_value ext (nw_match_contract w))) (\<lambda>contract.
    bindT (liftT (json_value ext (wr_input (nw_resume_task w)))) (\<lambda>resume_input.
    insert_wait (new_wait_row tenant run event now w contract resume_input)))"

definition new_task_row ::
  "uuid \<Rightarrow> uuid \<Rightarrow> uuid \<Rightarrow> micros \<Rightarrow> new_task \<Rightarrow> task_status \<Rightarrow> int \<Rightarrow> int \<Rightarrow> json \<Rightarrow> task_row" where
  "new_task_row tenant run event now t status generation checkpoint_sequence input =
    \<lparr> t_id = nt_task_id t, t_tenant = tenant, t_run = run, t_stage = nt_stage_execution_id t,
      t_key = nt_logical_key t, t_kind = nt_kind t, t_status = status, t_join_policy = JoinAll,
      t_generation = generation, t_checkpoint_seq = Some checkpoint_sequence,
      t_priority = nt_priority t, t_available_at = nt_available_at t, t_attempt = 0,
      t_max_attempts = int (nt_max_attempts t), t_lease_owner = None, t_lease_token = None,
      t_lease_expires_at = None, t_input = input, t_result = None, t_error_code = None,
      t_error = None, t_deadline = nt_deadline t, t_created_event = event, t_created_at = now,
      t_updated_at = now, t_completed_at = None \<rparr>"

lemma new_task_row_sel [simp]:
  "t_id (new_task_row tenant run event now t status g cs input) = nt_task_id t"
  "t_tenant (new_task_row tenant run event now t status g cs input) = tenant"
  "t_run (new_task_row tenant run event now t status g cs input) = run"
  "t_status (new_task_row tenant run event now t status g cs input) = status"
  "t_generation (new_task_row tenant run event now t status g cs input) = g"
  "t_attempt (new_task_row tenant run event now t status g cs input) = 0"
  by (simp_all add: new_task_row_def)

definition insert_new_task ::
  "externals \<Rightarrow> uuid \<Rightarrow> uuid \<Rightarrow> uuid \<Rightarrow> micros \<Rightarrow> task_status \<Rightarrow> new_task \<Rightarrow> unit txn" where
  "insert_new_task ext tenant run event now status t =
    bindT (liftT (to_i64 (nt_generation t) ''task generation'')) (\<lambda>generation.
    bindT (liftT (to_i64 (nt_based_on_checkpoint_sequence t) ''checkpoint sequence''))
      (\<lambda>checkpoint_sequence.
    bindT (liftT (json_value ext (nt_input t))) (\<lambda>input.
    insert_task (new_task_row tenant run event now t status generation checkpoint_sequence input))))"

definition artifact_row_of ::
  "uuid \<Rightarrow> uuid \<Rightarrow> uuid \<Rightarrow> micros \<Rightarrow> new_artifact_ref \<Rightarrow> int \<Rightarrow> int \<Rightarrow> json \<Rightarrow> artifact_row" where
  "artifact_row_of tenant run task now a version size_bytes metadata =
    \<lparr> f_id = na_artifact_id a, f_tenant = tenant, f_run = run, f_stage = na_stage_execution_id a,
      f_task = Some task, f_key = na_logical_key a, f_kind = na_kind a,
      f_contract_version = int (na_contract_version a), f_version = version, f_uri = na_uri a,
      f_digest = na_digest a, f_media_type = na_media_type a, f_size = size_bytes,
      f_sources = JArray (map (\<lambda>s. JObject [(''artifact_id'', json_uuid (av_artifact_id s)),
        (''version'', JInt (int (av_version s)))]) (na_sources a)),
      f_metadata = metadata, f_produced_by = na_produced_by a, f_event = na_created_event_id a,
      f_created_at = now \<rparr>"

definition insert_artifact_ref ::
  "externals \<Rightarrow> uuid \<Rightarrow> uuid \<Rightarrow> uuid \<Rightarrow> micros \<Rightarrow> new_artifact_ref \<Rightarrow> unit txn" where
  "insert_artifact_ref ext tenant run task now a =
    bindT (liftT (to_i64 (na_version a) ''artifact version'')) (\<lambda>version.
    bindT (liftT (to_i64 (na_size_bytes a) ''artifact size'')) (\<lambda>size_bytes.
    bindT (liftT (json_value ext (na_metadata a))) (\<lambda>metadata.
    insert_artifact (artifact_row_of tenant run task now a version size_bytes metadata))))"

definition insert_artifact_refs ::
  "externals \<Rightarrow> uuid \<Rightarrow> uuid \<Rightarrow> uuid \<Rightarrow> micros \<Rightarrow> new_artifact_ref list \<Rightarrow> unit txn" where
  "insert_artifact_refs ext tenant run task now = foldT (insert_artifact_ref ext tenant run task now)"

lemmas insert_new_defs = insert_new_checkpoint_def insert_initial_stage_def insert_new_wait_def
  insert_new_task_def insert_artifact_ref_def insert_artifact_refs_def

lemma keeps_new_rows [keeps_intros]:
  "(\<And>db v. g (db\<lparr>db_checkpoints := v\<rparr>) = g db) \<Longrightarrow> keeps g (insert_new_checkpoint ext tenant run event now cp)"
  "(\<And>db v. g (db\<lparr>db_stages := v\<rparr>) = g db) \<Longrightarrow> keeps g (insert_initial_stage ext tenant run now st)"
  "(\<And>db v. g (db\<lparr>db_waits := v\<rparr>) = g db) \<Longrightarrow> keeps g (insert_new_wait ext tenant run event now w)"
  "(\<And>db v. g (db\<lparr>db_tasks := v\<rparr>) = g db) \<Longrightarrow> keeps g (insert_new_task ext tenant run event now status t)"
  "(\<And>db v. g (db\<lparr>db_artifacts := v\<rparr>) = g db) \<Longrightarrow> keeps g (insert_artifact_refs ext tenant run task now as)"
  unfolding insert_new_defs by (intro keeps_intros; assumption)+

section \<open>Tasks a command creates\<close>

lemma insert_new_task_effect:
  assumes "insert_new_task ext tenant run event now status t db = Inr (u, db')"
  obtains input where
    "db' = db\<lparr>db_tasks := db_tasks db @ [new_task_row tenant run event now t status
        (int (nt_generation t)) (int (nt_based_on_checkpoint_sequence t)) input]\<rparr>"
    and "json_value ext (nt_input t) = Inr input"
    and "\<forall>v \<in> set (db_tasks db). t_id v \<noteq> nt_task_id t"
    and "task_checks (new_task_row tenant run event now t status
        (int (nt_generation t)) (int (nt_based_on_checkpoint_sequence t)) input)"
  using assms
  by (auto simp: insert_new_task_def txn_iffs elim!: insert_task_effect)

text \<open>A command that inserts tasks only appends rows with fresh ids.\<close>

definition tasks_appended :: "(task_row \<Rightarrow> bool) \<Rightarrow> db \<Rightarrow> db \<Rightarrow> bool" where
  "tasks_appended P db db' \<longleftrightarrow> (\<exists>ts. db_tasks db' = db_tasks db @ ts \<and> (\<forall>t \<in> set ts. P t))
     \<and> (task_keys_ok db \<longrightarrow> task_keys_ok db')"

lemma tasks_appended_refl: "db_tasks db' = db_tasks db \<Longrightarrow> tasks_appended P db db'"
  by (simp add: tasks_appended_def task_keys_ok_def)

lemma tasks_appended_trans:
  assumes "tasks_appended P db1 db2" and "tasks_appended P db2 db3"
  shows "tasks_appended P db1 db3"
  using assms unfolding tasks_appended_def by (metis append_assoc Un_iff set_append)

lemma insert_new_task_appends:
  assumes "insert_new_task ext tenant run event now status t db = Inr (u, db')"
    and "\<And>input. P (new_task_row tenant run event now t status
        (int (nt_generation t)) (int (nt_based_on_checkpoint_sequence t)) input)"
  shows "tasks_appended P db db'"
  using assms(1)
proof (rule insert_new_task_effect)
  fix input
  assume "db' = db\<lparr>db_tasks := db_tasks db @ [new_task_row tenant run event now t status
        (int (nt_generation t)) (int (nt_based_on_checkpoint_sequence t)) input]\<rparr>"
    and "\<forall>v \<in> set (db_tasks db). t_id v \<noteq> nt_task_id t"
  then show ?thesis using assms(2) by (fastforce simp: tasks_appended_def task_keys_ok_def)
qed

lemma foldT_appends:
  assumes "foldT f xs db = Inr (u, db')"
    and "\<And>x db u db'. x \<in> set xs \<Longrightarrow> f x db = Inr (u, db') \<Longrightarrow> tasks_appended P db db'"
  shows "tasks_appended P db db'"
  using assms(1)
proof (rule foldT_invariant)
  show "tasks_appended P db db" by (simp add: tasks_appended_refl)
  fix x d u d'
  assume "x \<in> set xs" "f x d = Inr (u, d')" "tasks_appended P db d"
  then show "tasks_appended P db d'" using assms(2) tasks_appended_trans by blast
qed

end
