(* ===== verification/Completion.thy ===== *)
theory Completion
  imports Inserts
begin

text \<open>
  Completing a task: \<open>CompleteTask\<close> and its \<open>validate_shape\<close> (\<open>durable-store/src/command.rs\<close>) and
  \<open>complete_task\<close> of \<open>transaction_executor.rs\<close>, which checks the lease proof, appends the
  completion event and a checkpoint, finalizes the task and its attempt, settles the dependent
  tasks, changes stages and artifacts, schedules what comes next and advances the run.
\<close>

section \<open>The command\<close>

record new_retry_schedule =
  nr_task :: new_task
  nr_reason_code :: string

record final_run_result =
  fr_status :: run_status
  fr_output :: json_payload

datatype next_actions =
    NextTasks "new_task list"
  | NextWait new_wait_subscription
  | NextRetry new_retry_schedule
  | NextFinishRun final_run_result
  | NextNoFurtherWork

record complete_task_command =
  ctc_expected_run :: expected_run
  ctc_lease :: lease_proof
  ctc_completion_event_id :: uuid
  ctc_checkpoint :: new_checkpoint
  ctc_output :: json_payload
  ctc_stage_mutation :: "stage_mutation option"
  ctc_additional_stage_mutations :: "stage_mutation list"
  ctc_new_stages :: "initial_stage list"
  ctc_artifacts :: "new_artifact_ref list"
  ctc_next :: next_actions

datatype completion_shape_error =
    CreatedEventMismatch
  | InvalidCheckpointMetadata
  | InvalidTaskMetadata
  | InvalidWaitMetadata
  | InvalidStageMetadata
  | InvalidArtifactMetadata
  | GenerationMismatch
  | FinishRunRequiresTerminalStatus

definition created_event_mismatch :: "uuid \<Rightarrow> next_actions \<Rightarrow> bool" where
  "created_event_mismatch expected next = (case next of
      NextTasks tasks \<Rightarrow> list_ex (\<lambda>t. nt_created_event_id t \<noteq> expected) tasks
    | NextWait wait \<Rightarrow> nw_created_event_id wait \<noteq> expected
    | NextRetry retry \<Rightarrow> nt_created_event_id (nr_task retry) \<noteq> expected
    | _ \<Rightarrow> False)"

definition generation_mismatch :: "nat \<Rightarrow> next_actions \<Rightarrow> bool" where
  "generation_mismatch expected next = (case next of
      NextTasks tasks \<Rightarrow> list_ex (\<lambda>t. nt_generation t \<noteq> expected) tasks
    | NextRetry retry \<Rightarrow> nt_generation (nr_task retry) \<noteq> expected
    | _ \<Rightarrow> False)"

definition final_status :: "next_actions \<Rightarrow> run_status option" where
  "final_status next = (case next of NextFinishRun result \<Rightarrow> Some (fr_status result) | _ \<Rightarrow> None)"

definition invalid_task :: "new_task \<Rightarrow> bool" where
  "invalid_task t \<longleftrightarrow> nt_based_on_checkpoint_sequence t = 0 \<or> nt_max_attempts t = 0"

definition metadata_error :: "next_actions \<Rightarrow> completion_shape_error option" where
  "metadata_error next = (case next of
      NextTasks tasks \<Rightarrow> (if list_ex invalid_task tasks then Some InvalidTaskMetadata else None)
    | NextWait wait \<Rightarrow>
        (if nw_wait_type wait = [] \<or> nw_expected_event_type wait = []
            \<or> wr_max_attempts (nw_resume_task wait) = 0
         then Some InvalidWaitMetadata else None)
    | NextRetry retry \<Rightarrow>
        (if nr_reason_code retry = [] \<or> invalid_task (nr_task retry)
         then Some InvalidTaskMetadata else None)
    | _ \<Rightarrow> None)"

definition invalid_artifact :: "new_artifact_ref \<Rightarrow> bool" where
  "invalid_artifact a \<longleftrightarrow> na_contract_version a = 0 \<or> na_version a = 0 \<or> na_kind a = [] \<or> na_uri a = []
     \<or> na_media_type a = [] \<or> na_produced_by a = [] \<or> list_ex (\<lambda>s. av_version s = 0) (na_sources a)"

definition invalid_stage :: "initial_stage \<Rightarrow> bool" where
  "invalid_stage s \<longleftrightarrow> is_attempt s = 0
     \<or> (is_assignee_kind s \<noteq> None) \<noteq> (is_assignee_ref s \<noteq> None)
     \<or> is_assignee_kind s = Some [] \<or> is_assignee_ref s = Some []"

definition validate_completion_shape :: "complete_task_command \<Rightarrow> completion_shape_error + unit" where
  "validate_completion_shape cmd =
    (let checkpoint = ctc_checkpoint cmd; event = ctc_completion_event_id cmd;
         generation = lp_execution_generation (ctc_lease cmd) in
     if nc_created_event_id checkpoint \<noteq> event
        \<or> list_ex (\<lambda>a. na_created_event_id a \<noteq> event) (ctc_artifacts cmd)
        \<or> created_event_mismatch event (ctc_next cmd)
     then Inl CreatedEventMismatch
     else if nc_sequence checkpoint = 0 \<or> nc_schema_version checkpoint = 0
     then Inl InvalidCheckpointMetadata
     else if list_ex invalid_artifact (ctc_artifacts cmd) then Inl InvalidArtifactMetadata
     else if list_ex invalid_stage (ctc_new_stages cmd) then Inl InvalidStageMetadata
     else case metadata_error (ctc_next cmd) of
       Some error \<Rightarrow> Inl error
     | None \<Rightarrow>
         (if nc_execution_generation checkpoint \<noteq> generation
             \<or> (case er_execution_generation (ctc_expected_run cmd) of
                  None \<Rightarrow> False | Some expected \<Rightarrow> expected \<noteq> generation)
             \<or> generation_mismatch generation (ctc_next cmd)
          then Inl GenerationMismatch
          else if (case final_status (ctc_next cmd) of
                     None \<Rightarrow> False | Some status \<Rightarrow> \<not> run_terminal status)
          then Inl FinishRunRequiresTerminalStatus
          else Inr ()))"

text \<open>\<open>map_completion_shape\<close> prints the error with its derived \<open>Debug\<close> name.\<close>

definition shape_error_name :: "completion_shape_error \<Rightarrow> string" where
  "shape_error_name e = (case e of
      CreatedEventMismatch \<Rightarrow> ''CreatedEventMismatch''
    | InvalidCheckpointMetadata \<Rightarrow> ''InvalidCheckpointMetadata''
    | InvalidTaskMetadata \<Rightarrow> ''InvalidTaskMetadata''
    | InvalidWaitMetadata \<Rightarrow> ''InvalidWaitMetadata''
    | InvalidStageMetadata \<Rightarrow> ''InvalidStageMetadata''
    | InvalidArtifactMetadata \<Rightarrow> ''InvalidArtifactMetadata''
    | GenerationMismatch \<Rightarrow> ''GenerationMismatch''
    | FinishRunRequiresTerminalStatus \<Rightarrow> ''FinishRunRequiresTerminalStatus'')"

definition map_completion_shape :: "completion_shape_error \<Rightarrow> store_error" where
  "map_completion_shape e =
     invalid_command (''invalid complete_task shape: '' @ shape_error_name e)"

section \<open>The steps\<close>

record locked_completion =
  lc_run :: run_row
  lc_task :: task_row
  lc_checkpoint_sequence :: "int option"

definition validate_completion_fences ::
  "complete_task_command \<Rightarrow> locked_completion \<Rightarrow> micros \<Rightarrow> unit store_result" where
  "validate_completion_fences cmd locked now =
    (let run = lc_run locked; task = lc_task locked; lease = ctc_lease cmd;
         checkpoint = ctc_checkpoint cmd in
     if t_run task \<noteq> er_run_id (ctc_expected_run cmd)
       then Inl (store_error_of NotFound ''task belongs to another run'')
     else if t_status task \<noteq> TaskLeased
       then Inl (store_error_of LeaseLost ''task is not leased'')
     else if r_status run = RunPaused
       then Inl (store_error_of InvalidTransition ''paused run rejects task completion'')
     else if run_terminal (r_status run)
       then Inl (store_error_of TerminalRun ''run is terminal'')
     else if expectation_changed (er_version (ctc_expected_run cmd)) (r_version run)
       then Inl (store_error_of VersionConflict ''run version changed'')
     else bindR (to_i64 (lp_execution_generation lease) ''lease generation'') (\<lambda>expected_generation.
       if r_generation run \<noteq> expected_generation \<or> t_generation task \<noteq> expected_generation
         then Inl (store_error_of VersionConflict ''execution generation changed'')
       else if t_lease_owner task \<noteq> Some (lp_worker_id lease)
               \<or> t_lease_token task \<noteq> Some (lp_token lease)
         then Inl (store_error_of LeaseLost ''task lease proof does not match'')
       else if (case t_lease_expires_at task of None \<Rightarrow> True | Some expires \<Rightarrow> expires \<le> now)
         then Inl (store_error_of LeaseExpired ''task lease expired'')
       else if nc_workflow_version_id checkpoint \<noteq> r_workflow_version run
               \<or> nc_coordinator_agent_version_id checkpoint \<noteq> r_coordinator run
         then Inl (store_error_of VersionConflict ''checkpoint definition versions do not match the run'')
       else if i64_try_from (nc_sequence checkpoint)
               \<noteq> Some ((case lc_checkpoint_sequence locked of None \<Rightarrow> 0 | Some s \<Rightarrow> s) + 1)
         then Inl (store_error_of VersionConflict ''checkpoint sequence is not the next sequence'')
       else Inr ()))"

lemma validate_completion_fences_Inr:
  "validate_completion_fences cmd locked now = Inr () \<longleftrightarrow>
     t_run (lc_task locked) = er_run_id (ctc_expected_run cmd) \<and> t_status (lc_task locked) = TaskLeased
     \<and> r_status (lc_run locked) \<noteq> RunPaused \<and> \<not> run_terminal (r_status (lc_run locked))
     \<and> \<not> expectation_changed (er_version (ctc_expected_run cmd)) (r_version (lc_run locked))
     \<and> int (lp_execution_generation (ctc_lease cmd)) \<le> i64_max
     \<and> r_generation (lc_run locked) = int (lp_execution_generation (ctc_lease cmd))
     \<and> t_generation (lc_task locked) = int (lp_execution_generation (ctc_lease cmd))
     \<and> t_lease_owner (lc_task locked) = Some (lp_worker_id (ctc_lease cmd))
     \<and> t_lease_token (lc_task locked) = Some (lp_token (ctc_lease cmd))
     \<and> (\<exists>expires. t_lease_expires_at (lc_task locked) = Some expires \<and> now < expires)
     \<and> nc_workflow_version_id (ctc_checkpoint cmd) = r_workflow_version (lc_run locked)
     \<and> nc_coordinator_agent_version_id (ctc_checkpoint cmd) = r_coordinator (lc_run locked)
     \<and> i64_try_from (nc_sequence (ctc_checkpoint cmd))
         = Some ((case lc_checkpoint_sequence locked of None \<Rightarrow> 0 | Some s \<Rightarrow> s) + 1)"
  by (auto simp: validate_completion_fences_def Let_def result_iffs not_le simp del: i64_try_from_Some
      split: if_splits option.splits)

definition lock_completion :: "uuid \<Rightarrow> uuid \<Rightarrow> uuid \<Rightarrow> locked_completion txn" where
  "lock_completion tenant run_id task_id =
    bindT (lock_event_run tenant run_id) (\<lambda>run.
    bindT (\<lambda>db. liftT (ok_or (find_task tenant task_id db)
              (store_error_of NotFound ''task was not found'')) db) (\<lambda>task.
    returnT \<lparr> lc_run = le_run run, lc_task = task,
              lc_checkpoint_sequence = le_checkpoint_sequence run \<rparr>))"

lemma lock_completion_iff [txn_iffs]:
  "lock_completion tenant run_id task_id db = Inr (l, db') \<longleftrightarrow>
     db' = db \<and> find_run tenant run_id db = Some (lc_run l) \<and> find_task tenant task_id db = Some (lc_task l)
     \<and> lc_checkpoint_sequence l = map_option c_seq
         (find (\<lambda>c. c_tenant c = tenant \<and> c_run c = run_id \<and> Some (c_id c) = r_checkpoint (lc_run l))
           (db_checkpoints db))"
proof -
  have "\<exists>x. lock_event_run tenant run_id db = Inr (x, db) \<and> le_run x = lc_run l
      \<and> le_checkpoint_sequence x = lc_checkpoint_sequence l" if
    "find_run tenant run_id db = Some (lc_run l)"
    "lc_checkpoint_sequence l = map_option c_seq
         (find (\<lambda>c. c_tenant c = tenant \<and> c_run c = run_id \<and> Some (c_id c) = r_checkpoint (lc_run l))
           (db_checkpoints db))"
    using that by (intro exI [of _ "\<lparr> le_run = lc_run l, le_checkpoint_sequence = lc_checkpoint_sequence l \<rparr>"])
      (simp add: lock_event_run_iff)
  then show ?thesis
    by (cases l) (fastforce simp: lock_completion_def bindT_iff liftT_iff returnT_iff ok_or_Inr_iff lock_event_run_iff)
qed

definition completed_task :: "json \<Rightarrow> micros \<Rightarrow> task_row \<Rightarrow> task_row" where
  "completed_task result now t = t\<lparr>t_status := TaskSucceeded, t_result := Some result,
     t_lease_owner := None, t_lease_token := None, t_lease_expires_at := None,
     t_updated_at := now, t_completed_at := Some now\<rparr>"

definition leased_task :: "uuid \<Rightarrow> uuid \<Rightarrow> task_row \<Rightarrow> bool" where
  "leased_task tenant task t \<longleftrightarrow> t_tenant t = tenant \<and> t_id t = task \<and> t_status t = TaskLeased"

definition finalize_task ::
  "externals \<Rightarrow> uuid \<Rightarrow> uuid \<Rightarrow> int \<Rightarrow> micros \<Rightarrow> complete_task_command \<Rightarrow> unit txn" where
  "finalize_task ext tenant task attempt now cmd =
    bindT (liftT (json_value ext (ctc_output cmd))) (\<lambda>result.
    bindT (update_tasks (leased_task tenant task) (completed_task result now)) (\<lambda>updated.
    thenT (guardT (updated = 1) (store_error_of LeaseLost ''task lease was lost''))
    (bindT (update_attempts (open_attempt tenant task attempt)
             (close_attempt AttemptSucceeded None now)) (\<lambda>attempts_updated.
     guardT (attempts_updated = 1) (inconsistent ''leased task has no open matching attempt'')))))"

text \<open>The status changes a stage mutation may make.\<close>

definition stage_transition :: "stage_status \<Rightarrow> stage_status \<Rightarrow> bool" where
  "stage_transition from target \<longleftrightarrow> (case from of
      StagePlanned \<Rightarrow> target \<in> {StageActive, StageWaitingApproval, StageCancelled}
    | StageActive \<Rightarrow> target \<in> {StageWaitingApproval, StageReworkRequired, StageSucceeded,
                             StageFailed, StageSkipped, StageCancelled}
    | StageWaitingApproval \<Rightarrow> target \<in> {StageActive, StageSucceeded, StageReworkRequired,
                                      StageFailed, StageCancelled}
    | StageReworkRequired \<Rightarrow> target \<in> {StageActive, StageFailed, StageCancelled}
    | _ \<Rightarrow> False)"

definition mutated_stage :: "stage_status \<Rightarrow> micros \<Rightarrow> stage_row \<Rightarrow> stage_row" where
  "mutated_stage target now s = s\<lparr>s_status := target, s_version := s_version s + 1,
     s_completed_at := (if stage_terminal target then Some now else None), s_updated_at := now\<rparr>"

definition mutable_stage :: "uuid \<Rightarrow> uuid \<Rightarrow> stage_mutation \<Rightarrow> int \<Rightarrow> stage_row \<Rightarrow> bool" where
  "mutable_stage tenant run m expected s \<longleftrightarrow> s_tenant s = tenant \<and> s_run s = run
     \<and> s_id s = sm_stage_execution_id m \<and> s_version s = expected
     \<and> stage_transition (s_status s) (sm_target_status m)"

definition apply_stage_mutation :: "uuid \<Rightarrow> uuid \<Rightarrow> micros \<Rightarrow> stage_mutation option \<Rightarrow> unit txn" where
  "apply_stage_mutation tenant run now mutation = (case mutation of
      None \<Rightarrow> returnT ()
    | Some m \<Rightarrow>
        bindT (liftT (to_i64 (sm_expected_version m) ''stage version'')) (\<lambda>expected.
        thenT (\<lambda>db. guardT (increments_in_range (mutable_stage tenant run m expected) s_version (db_stages db))
                  bigint_out_of_range db)
        (bindT (update_stages (mutable_stage tenant run m expected) (mutated_stage (sm_target_status m) now))
          (\<lambda>updated. guardT (updated = 1) (store_error_of VersionConflict ''stage version changed'')))))"

record next_transition =
  nx_status :: run_status
  nx_terminal :: bool
  nx_follow_ups :: "durable_follow_up list"

definition apply_next_actions ::
  "externals \<Rightarrow> uuid \<Rightarrow> uuid \<Rightarrow> uuid \<Rightarrow> micros \<Rightarrow> next_actions \<Rightarrow> next_transition txn" where
  "apply_next_actions ext tenant run event now next = (case next of
      NextTasks tasks \<Rightarrow>
        thenT (foldT (insert_new_task ext tenant run event now TaskQueued) tasks)
        (returnT \<lparr> nx_status = RunQueued, nx_terminal = False,
                   nx_follow_ups = map (FollowTask \<circ> nt_task_id) tasks \<rparr>)
    | NextRetry retry \<Rightarrow>
        thenT (insert_new_task ext tenant run event now TaskRetryScheduled (nr_task retry))
        (returnT \<lparr> nx_status = RunRetrying, nx_terminal = False,
                   nx_follow_ups = [FollowTask (nt_task_id (nr_task retry))] \<rparr>)
    | NextWait wait \<Rightarrow>
        thenT (insert_new_wait ext tenant run event now wait)
        (returnT \<lparr> nx_status = (if nw_wait_type wait = ''approval'' then RunApprovalRequired else RunWaiting),
                   nx_terminal = False, nx_follow_ups = [] \<rparr>)
    | NextFinishRun result \<Rightarrow>
        returnT \<lparr> nx_status = fr_status result, nx_terminal = True, nx_follow_ups = [] \<rparr>
    | NextNoFurtherWork \<Rightarrow>
        returnT \<lparr> nx_status = RunRunning, nx_terminal = False, nx_follow_ups = [] \<rparr>)"

section \<open>The handler\<close>

definition completion_event ::
  "command_context \<Rightarrow> complete_task_command \<Rightarrow> locked_completion \<Rightarrow> json \<Rightarrow> micros \<Rightarrow> event_insert" where
  "completion_event ctx cmd locked payload now =
    \<lparr> ei_event_id = ctc_completion_event_id cmd, ei_tenant_id = cc_tenant_id ctx,
      ei_run_id = t_run (lc_task locked), ei_sequence = r_next_seq (lc_run locked),
      ei_event_type = ''task.completed'', ei_payload = payload, ei_payload_schema_version = 1,
      ei_producer = ''worker'', ei_context = ctx, ei_correlation_id = cc_correlation_id ctx,
      ei_occurred_at = None, ei_recorded_at = now \<rparr>"

lemma completion_event_sel [simp]:
  "ei_tenant_id (completion_event ctx cmd locked p now) = cc_tenant_id ctx"
  "ei_run_id (completion_event ctx cmd locked p now) = t_run (lc_task locked)"
  "ei_sequence (completion_event ctx cmd locked p now) = r_next_seq (lc_run locked)"
  "ei_event_id (completion_event ctx cmd locked p now) = ctc_completion_event_id cmd"
  by (simp_all add: completion_event_def)

definition completing_run :: "uuid \<Rightarrow> uuid \<Rightarrow> run_row \<Rightarrow> run_row \<Rightarrow> bool" where
  "completing_run tenant run_id run r \<longleftrightarrow> run_at tenant run_id (r_version run) (r_generation run) r
     \<and> r_status r \<in> {RunQueued, RunRunning, RunWaiting, RunApprovalRequired, RunRetrying}"

definition completed_run ::
  "next_transition \<Rightarrow> complete_task_command \<Rightarrow> int \<Rightarrow> json \<Rightarrow> micros \<Rightarrow> run_row \<Rightarrow> run_row" where
  "completed_run tr cmd next_seq summary now r = r\<lparr>r_status := nx_status tr, r_suspended_from := None,
     r_version := r_version r + 1, r_next_seq := next_seq,
     r_checkpoint := Some (nc_checkpoint_id (ctc_checkpoint cmd)), r_state_summary := summary,
     r_terminal_event := (if nx_terminal tr then Some (ctc_completion_event_id cmd) else None),
     r_terminal_at := (if nx_terminal tr then Some now else None), r_updated_at := now\<rparr>"

text \<open>The stages the command changes and creates, and its artifacts.\<close>

definition apply_stage_changes ::
  "externals \<Rightarrow> uuid \<Rightarrow> uuid \<Rightarrow> uuid \<Rightarrow> complete_task_command \<Rightarrow> micros \<Rightarrow> unit txn" where
  "apply_stage_changes ext tenant run_id task_id cmd now =
    thenT (apply_stage_mutation tenant run_id now (ctc_stage_mutation cmd))
    (thenT (foldT (\<lambda>m. apply_stage_mutation tenant run_id now (Some m)) (ctc_additional_stage_mutations cmd))
    (thenT (foldT (insert_initial_stage ext tenant run_id now) (ctc_new_stages cmd))
    (insert_artifact_refs ext tenant run_id task_id now (ctc_artifacts cmd))))"

text \<open>What follows the completion event: everything the command creates or changes beside the run.\<close>

definition complete_work ::
  "externals \<Rightarrow> uuid \<Rightarrow> uuid \<Rightarrow> complete_task_command \<Rightarrow> int \<Rightarrow> micros \<Rightarrow> next_transition txn" where
  "complete_work ext tenant run_id cmd attempt now =
    (let event_id = ctc_completion_event_id cmd; task_id = lp_task_id (ctc_lease cmd) in
    thenT (insert_new_checkpoint ext tenant run_id event_id now (ctc_checkpoint cmd))
    (thenT (finalize_task ext tenant task_id attempt now cmd)
    (bindT (resolve_dependent_tasks ext tenant run_id task_id now) (\<lambda>activated.
    thenT (apply_stage_changes ext tenant run_id task_id cmd now)
    (bindT (apply_next_actions ext tenant run_id event_id now (ctc_next cmd)) (\<lambda>tr.
    returnT (tr\<lparr>nx_follow_ups := nx_follow_ups tr @ map FollowTask activated\<rparr>)))))))"

definition complete_locked_task ::
  "externals \<Rightarrow> command_context \<Rightarrow> complete_task_command \<Rightarrow> micros \<Rightarrow> run_snapshot committed txn" where
  "complete_locked_task ext ctx cmd now =
    (let tenant = cc_tenant_id ctx; event_id = ctc_completion_event_id cmd in
    bindT (lock_completion tenant (er_run_id (ctc_expected_run cmd)) (lp_task_id (ctc_lease cmd)))
      (\<lambda>locked.
    let run = lc_run locked; run_id = t_run (lc_task locked) in
    thenT (liftT (validate_completion_fences cmd locked now))
    (bindT (liftT (json_value ext (ctc_output cmd))) (\<lambda>payload.
    thenT (insert_event (completion_event ctx cmd locked payload now))
    (bindT (complete_work ext tenant run_id cmd (t_attempt (lc_task locked)) now) (\<lambda>tr.
    bindT (liftT (checked_add_i64_or (r_next_seq run) 1 (inconsistent ''run event sequence overflow'')))
      (\<lambda>next_seq.
    bindT (liftT (json_value ext (case ctc_next cmd of
               NextFinishRun result \<Rightarrow> fr_output result | _ \<Rightarrow> nc_state (ctc_checkpoint cmd))))
      (\<lambda>summary.
    thenT (\<lambda>db. guardT (increments_in_range (completing_run tenant run_id run) r_version (db_runs db))
              bigint_out_of_range db)
    (bindT (update_runs (completing_run tenant run_id run) (completed_run tr cmd next_seq summary now))
      (\<lambda>updated.
    thenT (guardT (updated = 1)
             (store_error_of VersionConflict ''run changed while completing the task''))
    (bindT (liftT (nonnegative_u64 (r_version run + 1) ''run version'')) (\<lambda>version.
    bindT (liftT (nonnegative_u64 (r_generation run) ''execution generation'')) (\<lambda>generation.
    bindT (liftT (nonnegative_u64 next_seq ''event sequence'')) (\<lambda>sequence.
    let snapshot = \<lparr> rs_tenant_id = tenant, rs_run_id = run_id,
          rs_workflow_version_id = r_workflow_version run, rs_status = nx_status tr,
          rs_suspended_from_status = None, rs_version = version,
          rs_execution_generation = generation, rs_next_event_sequence = sequence,
          rs_current_checkpoint_id = Some (nc_checkpoint_id (ctc_checkpoint cmd)),
          rs_terminal_event_id = (if nx_terminal tr then Some event_id else None),
          rs_deadline = r_deadline run, rs_updated_at = now \<rparr> in
    thenT (finish_receipt ctx ReceiptApplied (encode_run_receipt snapshot) (Some event_id)
             (Some (''run'', run_id, r_version run + 1)))
    (returnT (committed_run Applied snapshot (Some event_id) (nx_follow_ups tr)))))))))))))))))"

definition duplicate_run ::
  "command_context \<Rightarrow> stored_outcome \<Rightarrow> uuid option \<Rightarrow> run_snapshot committed store_result" where
  "duplicate_run ctx outcome event =
    bindR (decode_run_receipt (cc_tenant_id ctx) outcome) (\<lambda>snapshot.
    Inr (committed_run Duplicate snapshot event []))"

definition complete_task ::
  "externals \<Rightarrow> nat \<Rightarrow> command_context \<Rightarrow> complete_task_command \<Rightarrow> micros
   \<Rightarrow> run_snapshot committed txn" where
  "complete_task ext ttl ctx cmd now =
    (case validate_completion_shape cmd of
       Inl e \<Rightarrow> failT (map_completion_shape e)
     | Inr _ \<Rightarrow> with_receipt ctx now ttl (duplicate_run ctx) (complete_locked_task ext ctx cmd now))"

section \<open>Effects\<close>

definition next_run_status :: "next_actions \<Rightarrow> run_status" where
  "next_run_status next = (case next of
      NextTasks _ \<Rightarrow> RunQueued
    | NextRetry _ \<Rightarrow> RunRetrying
    | NextWait wait \<Rightarrow> (if nw_wait_type wait = ''approval'' then RunApprovalRequired else RunWaiting)
    | NextFinishRun result \<Rightarrow> fr_status result
    | NextNoFurtherWork \<Rightarrow> RunRunning)"

text \<open>A task that the next action creates, ready at once or after its retry delay.\<close>

definition created_next :: "uuid \<Rightarrow> uuid \<Rightarrow> task_row \<Rightarrow> bool" where
  "created_next tenant run t \<longleftrightarrow> t_tenant t = tenant \<and> t_run t = run
     \<and> t_status t \<in> {TaskQueued, TaskRetryScheduled} \<and> t_attempt t = 0"

lemma apply_next_actions_effect:
  assumes "apply_next_actions ext tenant run event now next db = Inr (tr, db')"
  shows "nx_status tr = next_run_status next \<and> (nx_terminal tr \<longleftrightarrow> final_status next \<noteq> None)
    \<and> tasks_appended (created_next tenant run) db db'"
proof (cases "next")
  case (NextTasks tasks)
  with assms obtain u where ins: "foldT (insert_new_task ext tenant run event now TaskQueued) tasks db = Inr (u, db')"
    and tr: "nx_status tr = RunQueued" "\<not> nx_terminal tr"
    by (auto simp: apply_next_actions_def txn_iffs)
  from ins have "tasks_appended (created_next tenant run) db db'"
    by (rule foldT_appends) (erule insert_new_task_appends, simp add: created_next_def)
  then show ?thesis using tr NextTasks by (simp add: next_run_status_def final_status_def)
next
  case (NextRetry retry)
  with assms have ins: "insert_new_task ext tenant run event now TaskRetryScheduled (nr_task retry) db = Inr ((), db')"
    and tr: "nx_status tr = RunRetrying" "\<not> nx_terminal tr"
    by (auto simp: apply_next_actions_def txn_iffs)
  from ins have "tasks_appended (created_next tenant run) db db'"
    by (rule insert_new_task_appends) (simp add: created_next_def)
  then show ?thesis using tr NextRetry by (simp add: next_run_status_def final_status_def)
next
  case (NextWait wait)
  have "keeps db_tasks (insert_new_wait ext tenant run event now wait)"
    by (intro keeps_intros) simp
  with assms NextWait have "db_tasks db' = db_tasks db"
    by (auto simp: apply_next_actions_def txn_iffs dest: keepsD)
  then show ?thesis using assms NextWait
    by (auto simp: apply_next_actions_def txn_iffs next_run_status_def final_status_def
        intro: tasks_appended_refl)
qed (use assms in \<open>auto simp: apply_next_actions_def txn_iffs next_run_status_def final_status_def
      intro: tasks_appended_refl\<close>)

lemma keeps_apply_next_actions [keeps_intros]:
  assumes "\<And>db v. g (db\<lparr>db_tasks := v\<rparr>) = g db" "\<And>db v. g (db\<lparr>db_waits := v\<rparr>) = g db"
  shows "keeps g (apply_next_actions ext tenant run event now next)"
  unfolding apply_next_actions_def by (auto split: next_actions.split intro!: keeps_intros assms)

lemma keeps_stage_mutation [keeps_intros]:
  assumes "\<And>db v. g (db\<lparr>db_stages := v\<rparr>) = g db"
  shows "keeps g (apply_stage_mutation tenant run now m)"
  using assms by (auto simp: keeps_def apply_stage_mutation_def txn_iffs split: option.splits)

text \<open>The database after the checkpoint and the task's own rows are written.\<close>

definition after_completion ::
  "uuid \<Rightarrow> uuid \<Rightarrow> complete_task_command \<Rightarrow> int \<Rightarrow> micros \<Rightarrow> json \<Rightarrow> json \<Rightarrow> db \<Rightarrow> db" where
  "after_completion tenant run cmd attempt now state result db =
     db\<lparr>db_checkpoints := db_checkpoints db
          @ [checkpoint_row_of tenant run (ctc_completion_event_id cmd) now (ctc_checkpoint cmd)
               (int (nc_sequence (ctc_checkpoint cmd)))
               (int (nc_execution_generation (ctc_checkpoint cmd))) state],
        db_tasks := sql_update (leased_task tenant (lp_task_id (ctc_lease cmd)))
          (completed_task result now) (db_tasks db),
        db_attempts := sql_update (open_attempt tenant (lp_task_id (ctc_lease cmd)) attempt)
          (close_attempt AttemptSucceeded None now) (db_attempts db)\<rparr>"

lemma after_completion_sel [simp]:
  "db_runs (after_completion tenant run cmd attempt now state result db) = db_runs db"
  "db_events (after_completion tenant run cmd attempt now state result db) = db_events db"
  "db_outbox (after_completion tenant run cmd attempt now state result db) = db_outbox db"
  "task_keys_ok (after_completion tenant run cmd attempt now state result db) = task_keys_ok db"
  by (simp_all add: after_completion_def task_keys_ok_def map_sql_update_same completed_task_def)

lemma completion_rows_effect:
  assumes "insert_new_checkpoint ext tenant run (ctc_completion_event_id cmd) now (ctc_checkpoint cmd) db
      = Inr (u, db1)"
    and "finalize_task ext tenant (lp_task_id (ctc_lease cmd)) attempt now cmd db1 = Inr (v, db')"
  obtains state result where "json_value ext (ctc_output cmd) = Inr result"
    and "sql_count (leased_task tenant (lp_task_id (ctc_lease cmd))) (db_tasks db) = 1"
    and "sql_count (open_attempt tenant (lp_task_id (ctc_lease cmd)) attempt) (db_attempts db) = 1"
    and "db' = after_completion tenant run cmd attempt now state result db"
proof -
  from assms(1) obtain state where db1: "db1 = db\<lparr>db_checkpoints := db_checkpoints db
      @ [checkpoint_row_of tenant run (ctc_completion_event_id cmd) now (ctc_checkpoint cmd)
           (int (nc_sequence (ctc_checkpoint cmd)))
           (int (nc_execution_generation (ctc_checkpoint cmd))) state]\<rparr>"
    unfolding insert_new_checkpoint_def insert_checkpoint_def by (clarsimp simp: txn_iffs)
  from assms(2) show ?thesis
    unfolding finalize_task_def by (clarsimp simp: txn_iffs db1) (rule that, simp_all add: after_completion_def)
qed

lemma complete_work_effect:
  assumes "complete_work ext tenant run cmd attempt now db = Inr (tr, db')"
  obtains state result activated db2 where
    "json_value ext (ctc_output cmd) = Inr result"
    and "sql_count (leased_task tenant (lp_task_id (ctc_lease cmd))) (db_tasks db) = 1"
    and "sql_count (open_attempt tenant (lp_task_id (ctc_lease cmd)) attempt) (db_attempts db) = 1"
    and "resolve_dependent_tasks ext tenant run (lp_task_id (ctc_lease cmd)) now
           (after_completion tenant run cmd attempt now state result db) = Inr (activated, db2)"
    and "tasks_appended (created_next tenant run) db2 db'"
    and "db_attempts db' = db_attempts db2" and "db_checkpoints db' = db_checkpoints db2"
    and "db_deps db' = db_deps db2" and "db_runs db' = db_runs db2"
    and "db_events db' = db_events db2" and "db_outbox db' = db_outbox db2"
    and "nx_status tr = next_run_status (ctc_next cmd)"
    and "nx_terminal tr \<longleftrightarrow> final_status (ctc_next cmd) \<noteq> None"
proof -
  let ?task = "lp_task_id (ctc_lease cmd)"
  from assms obtain db0 db1 activated db2 db3 nx where
      rows: "insert_new_checkpoint ext tenant run (ctc_completion_event_id cmd) now (ctc_checkpoint cmd) db
        = Inr ((), db0)" "finalize_task ext tenant ?task attempt now cmd db0 = Inr ((), db1)"
    and res: "resolve_dependent_tasks ext tenant run ?task now db1 = Inr (activated, db2)"
    and mid: "apply_stage_changes ext tenant run ?task cmd now db2 = Inr ((), db3)"
    and nx: "apply_next_actions ext tenant run (ctc_completion_event_id cmd) now (ctc_next cmd) db3
           = Inr (nx, db')"
    and tr: "tr = nx\<lparr>nx_follow_ups := nx_follow_ups nx @ map FollowTask activated\<rparr>"
    by (auto simp: complete_work_def Let_def txn_iffs)
  from rows show ?thesis
  proof (rule completion_rows_effect)
    fix state result
    assume fin: "json_value ext (ctc_output cmd) = Inr result"
        "sql_count (leased_task tenant ?task) (db_tasks db) = 1"
        "sql_count (open_attempt tenant ?task attempt) (db_attempts db) = 1"
      and db1: "db1 = after_completion tenant run cmd attempt now state result db"
  have "keeps (\<lambda>d. (db_tasks d, db_attempts d, db_checkpoints d, db_deps d, db_runs d, db_events d, db_outbox d))
      (apply_stage_changes ext tenant run ?task cmd now)"
    unfolding apply_stage_changes_def by (intro keeps_intros) simp_all
  from keepsD [OF this mid] have same: "db_tasks db3 = db_tasks db2" "db_attempts db3 = db_attempts db2"
      "db_checkpoints db3 = db_checkpoints db2" "db_deps db3 = db_deps db2" "db_runs db3 = db_runs db2"
      "db_events db3 = db_events db2" "db_outbox db3 = db_outbox db2"
    by simp_all
  have "keeps (\<lambda>d. (db_attempts d, db_checkpoints d, db_deps d, db_runs d, db_events d, db_outbox d))
      (apply_next_actions ext tenant run (ctc_completion_event_id cmd) now (ctc_next cmd))"
    by (intro keeps_intros) simp_all
  from keepsD [OF this nx] have same': "db_attempts db' = db_attempts db3"
      "db_checkpoints db' = db_checkpoints db3" "db_deps db' = db_deps db3" "db_runs db' = db_runs db3"
      "db_events db' = db_events db3" "db_outbox db' = db_outbox db3"
    by simp_all
  have "tasks_appended (created_next tenant run) db2 db'"
    using apply_next_actions_effect [OF nx] same(1) by (simp add: tasks_appended_def task_keys_ok_def)
  then show ?thesis
    by (intro that [OF fin res [unfolded db1]])
       (use apply_next_actions_effect [OF nx] same same' tr in simp_all)
  qed
qed

lemma complete_locked_task_cases:
  assumes "complete_locked_task ext ctx cmd now db = Inr (c, db')"
  obtains locked payload tr summary db2 rs next_seq where
    "find_run (cc_tenant_id ctx) (er_run_id (ctc_expected_run cmd)) db = Some (lc_run locked)"
    and "find_task (cc_tenant_id ctx) (lp_task_id (ctc_lease cmd)) db = Some (lc_task locked)"
    and "validate_completion_fences cmd locked now = Inr ()"
    and "complete_work ext (cc_tenant_id ctx) (t_run (lc_task locked)) cmd (t_attempt (lc_task locked)) now
           (db\<lparr>db_events := db_events db @ [event_row_of (completion_event ctx cmd locked payload now)],
               db_outbox := db_outbox db @ [outbox_row_of (completion_event ctx cmd locked payload now)]\<rparr>)
         = Inr (tr, db2)"
    and "updates_pass run_checks
           (completing_run (cc_tenant_id ctx) (t_run (lc_task locked)) (lc_run locked))
           (completed_run tr cmd next_seq summary now) (db_runs db2)"
    and "sql_count (completing_run (cc_tenant_id ctx) (t_run (lc_task locked)) (lc_run locked)) (db_runs db2) = 1"
    and "db' = db2\<lparr>db_runs := sql_update
           (completing_run (cc_tenant_id ctx) (t_run (lc_task locked)) (lc_run locked))
           (completed_run tr cmd next_seq summary now) (db_runs db2),
         db_receipts := rs\<rparr>"
    and "disposition c = Applied" and "rs_status (committed_value c) = nx_status tr"
    and "durable_follow_ups c = nx_follow_ups tr" and "next_seq = r_next_seq (lc_run locked) + 1"
  using assms unfolding complete_locked_task_def Let_def
  apply (clarsimp simp: txn_iffs)
  apply (erule finish_receipt_frame)
  apply (rule that)
  apply (assumption | simp add: committed_run_def)+
  done

lemma complete_task_cases:
  assumes "complete_task ext ttl ctx cmd now db = Inr (c, db')"
  obtains (replayed) outcome event where "db' = db" and "duplicate_run ctx outcome event = Inr c"
    | (completed) rs where "validate_completion_shape cmd = Inr ()"
        and "complete_locked_task ext ctx cmd now (db\<lparr>db_receipts := rs\<rparr>) = Inr (c, db')"
proof -
  from assms have shape: "validate_completion_shape cmd = Inr ()"
    and "with_receipt ctx now ttl (duplicate_run ctx) (complete_locked_task ext ctx cmd now) db = Inr (c, db')"
    by (auto simp: complete_task_def txn_iffs split: sum.splits)
  from this(2) show thesis
    by (cases rule: with_receipt_cases) (use shape that in auto)
qed

text \<open>What an applied completion does to the run and its rows.\<close>

lemma complete_locked_task_effect:
  assumes "complete_locked_task ext ctx cmd now db1 = Inr (c, db')" and "runs_ok db"
    and "db1 = db\<lparr>db_receipts := rs0\<rparr>" and "task_keys_ok db"
  obtains locked run' state result base activated db2 where
    "lc_run locked \<in> set (db_runs db)" and "r_id (lc_run locked) = er_run_id (ctc_expected_run cmd)"
    and "r_tenant (lc_run locked) = cc_tenant_id ctx"
    and "find_task (cc_tenant_id ctx) (lp_task_id (ctc_lease cmd)) db = Some (lc_task locked)"
    and "validate_completion_fences cmd locked now = Inr ()"
    and "db_runs db' = sql_update (same_run (lc_run locked)) (\<lambda>_. run') (db_runs db)"
    and "r_status run' = next_run_status (ctc_next cmd)"
    and "r_checkpoint run' = Some (nc_checkpoint_id (ctc_checkpoint cmd))"
    and "json_value ext (ctc_output cmd) = Inr result"
    and "resolve_dependent_tasks ext (cc_tenant_id ctx) (r_id (lc_run locked)) (lp_task_id (ctc_lease cmd)) now
           (after_completion (cc_tenant_id ctx) (r_id (lc_run locked)) cmd (t_attempt (lc_task locked))
              now state result base) = Inr (activated, db2)"
    and "db_tasks base = db_tasks db" and "db_attempts base = db_attempts db"
    and "db_checkpoints base = db_checkpoints db"
    and "tasks_appended (created_next (cc_tenant_id ctx) (r_id (lc_run locked))) db2 db'"
    and "db_attempts db' = db_attempts db2" and "db_checkpoints db' = db_checkpoints db2"
    and "rs_status (committed_value c) = next_run_status (ctc_next cmd)"
    and "advances db db'"
  using assms(1)
proof (cases rule: complete_locked_task_cases)
  case (1 locked payload tr summary db3 rs next_seq)
  let ?r = "lc_run locked" and ?t = "lc_task locked" and ?tenant = "cc_tenant_id ctx"
  let ?e = "completion_event ctx cmd locked payload now"
  let ?f = "completed_run tr cmd next_seq summary now" and ?P = "completing_run ?tenant (t_run ?t) ?r"
  let ?base = "db1\<lparr>db_events := db_events db1 @ [event_row_of ?e], db_outbox := db_outbox db1 @ [outbox_row_of ?e]\<rparr>"
  have r: "?r \<in> set (db_runs db)" "r_tenant ?r = ?tenant" "r_id ?r = er_run_id (ctc_expected_run cmd)"
    using find_run_Some [OF 1(1)] assms(3) by simp_all
  note fences = 1(3) [unfolded validate_completion_fences_Inr]
  have t: "find_task ?tenant (lp_task_id (ctc_lease cmd)) db = Some ?t" "t_run ?t = r_id ?r"
    using 1(2) assms(3) fences r(3) by (simp_all add: find_task_def)
  from 1(4) show ?thesis
  proof (rule complete_work_effect)
    fix state result activated db2
    assume res: "resolve_dependent_tasks ext ?tenant (t_run ?t) (lp_task_id (ctc_lease cmd)) now
           (after_completion ?tenant (t_run ?t) cmd (t_attempt ?t) now state result ?base) = Inr (activated, db2)"
      and out: "json_value ext (ctc_output cmd) = Inr result"
      and app: "tasks_appended (created_next ?tenant (t_run ?t)) db2 db3"
      and same: "db_attempts db3 = db_attempts db2" "db_checkpoints db3 = db_checkpoints db2"
        "db_runs db3 = db_runs db2" "db_events db3 = db_events db2" "db_outbox db3 = db_outbox db2"
      and tr: "nx_status tr = next_run_status (ctc_next cmd)"
    have "task_keys_ok ?base" using assms(3,4) by (simp add: task_keys_ok_def)
    then obtain ts where "db2 = (after_completion ?tenant (t_run ?t) cmd (t_attempt ?t) now state result ?base)
        \<lparr>db_tasks := ts\<rparr>"
      using resolve_dependent_tasks_frame [OF res] by auto
    then have logs: "db_runs db3 = db_runs db" "db_events db3 = db_events db @ [event_row_of ?e]"
        "db_outbox db3 = db_outbox db @ [outbox_row_of ?e]"
      using assms(3) same(3-5) by simp_all
    have fits: "?P ?r"
    proof -
      obtain q where "q \<in> set (db_runs db)" "?P q" using sql_count_1E [OF 1(6)] logs(1) by metis
      moreover from this have "q = ?r"
        using r runs_ok_keys [OF assms(2)] t(2)
        by (auto simp: completing_run_def run_at_def run_keys_ok_def dest: distinct_map_inj)
      ultimately show ?thesis by simp
    qed
    have upd: "sql_update ?P ?f (db_runs db) = sql_update (same_run ?r) (\<lambda>_. ?f ?r) (db_runs db)"
      by (rule sql_update_one_run [OF runs_ok_keys [OF assms(2)] r(1)])
         (use fits r t(2) in \<open>auto simp: completing_run_def run_at_def same_run_def\<close>)
    have "run_checks (?f ?r)" using updates_passD [OF 1(5)] r(1) fits logs(1) by simp
    moreover have "same_run ?r (?f ?r)" "r_version (?f ?r) = r_version ?r + 1"
        "r_next_seq (?f ?r) = r_next_seq ?r + 1" "r_generation (?f ?r) = r_generation ?r"
      using 1(11) by (simp_all add: completed_run_def same_run_def)
    ultimately have adv: "advances db db'"
      unfolding advances_def using r fences upd 1(7) logs t(2)
      by (intro exI [of _ ?r] exI [of _ "?f ?r"] exI [of _ ?e]) simp
    have runs: "db_runs db' = sql_update (same_run ?r) (\<lambda>_. ?f ?r) (db_runs db)"
      using 1(7) logs(1) upd by simp
    have app': "tasks_appended (created_next ?tenant (r_id ?r)) db2 db'"
      using app t(2) 1(7) by (simp add: tasks_appended_def task_keys_ok_def)
    show ?thesis
      by (rule that [OF r(1,3,2) t(1) 1(3) runs _ _ out res [unfolded t(2)] _ _ _ app'])
         (use 1 assms(3) same tr adv in \<open>simp_all add: completed_run_def\<close>)
  qed
qed

lemma settled_member:
  assumes "list_all2 (task_settled tenant run now) rows ts" and "t \<in> set rows"
    and "t_status t \<noteq> TaskScheduled"
  shows "t \<in> set ts"
  using assms(1,2)
  by (induction rule: list_all2_induct) (use assms(3) in \<open>auto simp: task_settled_def\<close>)

lemma after_completion_attempts:
  assumes "a \<in> set (db_attempts (after_completion tenant run cmd attempt now state result db))"
  shows "\<not> open_attempt tenant (lp_task_id (ctc_lease cmd)) attempt a"
  using assms
  by (auto simp: after_completion_def open_attempt_def close_attempt_def elim!: in_sql_updateE split: if_splits)

text \<open>All the tasks after a completion.\<close>

lemma completion_tasks:
  assumes "resolve_dependent_tasks ext tenant run task now
      (after_completion tenant run cmd attempt now state result base) = Inr (activated, db2)"
    and "task_keys_ok db" and "db_tasks base = db_tasks db"
    and "tasks_appended (created_next tenant run) db2 db'"
  obtains ts new where "db_tasks db' = ts @ new" and "\<forall>t \<in> set new. created_next tenant run t"
    and "list_all2 (task_settled tenant run now)
           (sql_update (leased_task tenant (lp_task_id (ctc_lease cmd))) (completed_task result now) (db_tasks db)) ts"
    and "db_attempts db2 = db_attempts (after_completion tenant run cmd attempt now state result base)"
    and "db_checkpoints db2 = db_checkpoints (after_completion tenant run cmd attempt now state result base)"
    and "task_keys_ok db'"
proof -
  have keys: "task_keys_ok (after_completion tenant run cmd attempt now state result base)"
    using assms(2,3) by (simp add: task_keys_ok_def after_completion_def map_sql_update_same completed_task_def)
  note settled = resolve_dependent_tasks_settled [OF assms(1) keys]
  then obtain ts where ts: "db2 = (after_completion tenant run cmd attempt now state result base)\<lparr>db_tasks := ts\<rparr>"
      "list_all2 (task_settled tenant run now)
         (db_tasks (after_completion tenant run cmd attempt now state result base)) ts"
    by (auto simp: tasks_settled_def)
  obtain new where new: "db_tasks db' = ts @ new" "\<forall>t \<in> set new. created_next tenant run t"
    using assms(4) ts(1) by (auto simp: tasks_appended_def)
  have keys': "task_keys_ok db'"
    using assms(4) tasks_settled_keys(3) [OF settled] keys by (simp add: tasks_appended_def)
  show ?thesis
    by (rule that [OF new _ _ _ keys']) (use ts assms(3) in \<open>simp_all add: after_completion_def\<close>)
qed


section \<open>A concrete completion\<close>

definition sample_new_checkpoint :: new_checkpoint where
  "sample_new_checkpoint = \<lparr> nc_checkpoint_id = 51, nc_sequence = 2, nc_schema_version = 1,
     nc_workflow_version_id = None, nc_coordinator_agent_version_id = None,
     nc_execution_generation = 0, nc_state = ''{}'', nc_state_digest = 0, nc_created_event_id = 44 \<rparr>"

definition sample_completion :: complete_task_command where
  "sample_completion = \<lparr> ctc_expected_run = sample_expected, ctc_lease = sample_proof,
     ctc_completion_event_id = 44, ctc_checkpoint = sample_new_checkpoint, ctc_output = ''{}'',
     ctc_stage_mutation = None, ctc_additional_stage_mutations = [], ctc_new_stages = [],
     ctc_artifacts = [], ctc_next = NextNoFurtherWork \<rparr>"

lemmas complete_eval = complete_task_def validate_completion_shape_def created_event_mismatch_def
  generation_mismatch_def final_status_def metadata_error_def complete_locked_task_def
  lock_completion_def validate_completion_fences_def expectation_changed_def complete_work_def
  insert_new_checkpoint_def insert_checkpoint_def insert_row_def run_exists_def event_exists_def
  checkpoint_row_of_def finalize_task_def leased_task_def completed_task_def open_attempt_def
  close_attempt_def apply_stage_changes_def apply_stage_mutation_def insert_artifact_refs_def
  apply_next_actions_def completion_event_def completing_run_def completed_run_def
  committed_run_def run_at_def json_value_def Let_def status_sets

lemma resolve_bind_eval: "bindT (resolve_dependent_tasks ext tenant run task now) k db =
    (case resolve_dependent_tasks ext tenant run task now db of Inl e \<Rightarrow> Inl e | Inr (x, db') \<Rightarrow> k x db')"
  by (simp add: bindT_def)

lemmas resolve_eval = resolve_bind_eval resolve_dependent_tasks_def waiting_on_def dependency_on_def
  resolve_rows_def resolve_row_def prerequisites_def prerequisite_pairs_def satisfied_prerequisites_def
  dependency_condition_satisfied_def dependency_condition_shape_is_valid_def join_ready_def
  all_settled_def scheduled_task_def settle_task_def


section \<open>A completion is a run command\<close>

lemma complete_task_effect:
  assumes "runs_ok db" and "task_keys_ok db" and "complete_task ext ttl ctx cmd now db = Inr (c, db')"
  shows "quiet db db' \<or> advances db db'"
  using assms(3)
proof (cases rule: complete_task_cases)
  case (completed rs)
  from completed(2) assms(1) refl assms(2) show ?thesis
    by (rule complete_locked_task_effect) simp
qed simp

lemma complete_task_keys:
  assumes "runs_ok db" and "task_keys_ok db" and "complete_task ext ttl ctx cmd now db = Inr (c, db')"
  shows "task_keys_ok db'"
  using assms(3)
proof (cases rule: complete_task_cases)
  case (completed rs)
  from completed(2) assms(1) refl assms(2) show ?thesis
    by (rule complete_locked_task_effect) (erule completion_tasks [OF _ assms(2)], assumption+)
qed (use assms(2) in simp)

interpretation complete_cmd: run_command
  "\<lambda>(ext, ttl, ctx, cmd, now). complete_task ext ttl ctx cmd now"
  by unfold_locales
     (auto dest: complete_task_effect [OF store_okD(1) store_okD(2)]
        complete_task_keys [OF store_okD(1) store_okD(2)])

end
