(* ===== verification/TaskGraph.thy ===== *)
theory TaskGraph
  imports Inserts
begin

text \<open>
  The graph of the initial tasks of a run: \<open>InitialTask\<close> and \<open>InitialTaskDependency\<close>
  (\<open>durable-store/src/command.rs\<close>) and \<open>initial_task_dependencies_have_cycle\<close> of
  \<open>transaction_executor.rs\<close>. Proved: the depth-first search decides whether a task depends on
  itself through its prerequisites; without such a cycle some task can start.
\<close>

section \<open>Initial tasks\<close>

record initial_task_dependency =
  id_prerequisite_task_id :: uuid
  id_condition :: json_payload

record initial_task =
  it_task_id :: uuid
  it_stage_execution_id :: "uuid option"
  it_logical_key :: logical_key
  it_kind :: task_kind
  it_priority :: int
  it_available_at :: micros
  it_max_attempts :: nat
  it_input :: json_payload
  it_dependencies :: "initial_task_dependency list"
  it_join_policy :: join_policy
  it_context_projection :: json_payload

definition prerequisite_ids :: "initial_task \<Rightarrow> uuid list" where
  "prerequisite_ids t = map id_prerequisite_task_id (it_dependencies t)"

definition find_initial_task :: "initial_task list \<Rightarrow> uuid \<Rightarrow> initial_task option" where
  "find_initial_task tasks i = find (\<lambda>t. it_task_id t = i) tasks"

lemma find_initial_task_Some:
  "find_initial_task tasks i = Some t \<Longrightarrow> t \<in> set tasks \<and> it_task_id t = i"
  unfolding find_initial_task_def by (auto dest: find_Some_in)

section \<open>The search\<close>

text \<open>
  \<open>reaches\<close> on each of \<open>stack\<close> in turn: the tasks whose recursive call is still to be made, in
  the order in which \<open>any\<close> makes the calls, since a call pushes the prerequisites of its task and
  a call that returns false leaves the set of visited tasks to the next one. Every call either marks
  one more task as visited or takes one entry off the stack.
\<close>

function reaches :: "initial_task list \<Rightarrow> uuid \<Rightarrow> uuid list \<Rightarrow> uuid list \<Rightarrow> bool" where
  "reaches tasks target [] visited \<longleftrightarrow> False"
| "reaches tasks target (current # stack) visited \<longleftrightarrow>
     (if current = target then True
      else if current \<in> set visited then reaches tasks target stack visited
      else case find_initial_task tasks current of
          None \<Rightarrow> reaches tasks target stack (current # visited)
        | Some task \<Rightarrow> reaches tasks target (prerequisite_ids task @ stack) (current # visited))"
  by pat_completeness auto

termination
proof (relation "measures [\<lambda>(tasks, target, stack, visited).
    card (set (map it_task_id tasks) - set visited), \<lambda>(tasks, target, stack, visited). length stack]")
  fix tasks :: "initial_task list" and target current :: uuid and stack visited task
  assume "current \<notin> set visited" and "find_initial_task tasks current = Some task"
  then have "set (map it_task_id tasks) - set (current # visited) \<subset> set (map it_task_id tasks) - set visited"
    by (auto dest!: find_initial_task_Some)
  then have "card (set (map it_task_id tasks) - set (current # visited))
      < card (set (map it_task_id tasks) - set visited)"
    by (rule psubset_card_mono [rotated]) simp
  then show "((tasks, target, prerequisite_ids task @ stack, current # visited),
      tasks, target, current # stack, visited) \<in> measures [\<lambda>(tasks, target, stack, visited).
    card (set (map it_task_id tasks) - set visited), \<lambda>(tasks, target, stack, visited). length stack]"
    by simp
next
  fix tasks :: "initial_task list" and target current :: uuid and stack visited
  have "card (set (map it_task_id tasks) - set (current # visited))
      \<le> card (set (map it_task_id tasks) - set visited)"
    by (rule card_mono) auto
  then show "((tasks, target, stack, current # visited), tasks, target, current # stack, visited)
      \<in> measures [\<lambda>(tasks, target, stack, visited).
    card (set (map it_task_id tasks) - set visited), \<lambda>(tasks, target, stack, visited). length stack]"
    by (auto simp: le_eq_less_or_eq)
qed simp_all

definition initial_task_dependencies_have_cycle :: "initial_task list \<Rightarrow> bool" where
  "initial_task_dependencies_have_cycle tasks \<longleftrightarrow>
     list_ex (\<lambda>t. list_ex (\<lambda>p. reaches tasks (it_task_id t) [p] []) (prerequisite_ids t)) tasks"

section \<open>What the search decides\<close>

text \<open>\<open>(i, p) \<in> depends tasks\<close>: the first task with id \<open>i\<close> names \<open>p\<close> as a prerequisite.\<close>

definition depends :: "initial_task list \<Rightarrow> (uuid \<times> uuid) set" where
  "depends tasks = {(i, p). \<exists>t. find_initial_task tasks i = Some t \<and> p \<in> set (prerequisite_ids t)}"

definition unvisited_depends :: "initial_task list \<Rightarrow> uuid list \<Rightarrow> (uuid \<times> uuid) set" where
  "unvisited_depends tasks visited = {(i, p) \<in> depends tasks. i \<notin> set visited}"

text \<open>A path through unvisited tasks either avoids one of them or restarts after it.\<close>

lemma path_avoids:
  assumes "(s, target) \<in> (unvisited_depends tasks visited)\<^sup>*"
  shows "(s, target) \<in> (unvisited_depends tasks (c # visited))\<^sup>*
     \<or> (\<exists>p. (c, p) \<in> depends tasks \<and> (p, target) \<in> (unvisited_depends tasks (c # visited))\<^sup>*)"
  using assms
proof (induction rule: converse_rtrancl_induct)
  case (step s u)
  show ?case
  proof (cases "s = c")
    case True
    then show ?thesis using step by (auto simp: unvisited_depends_def)
  next
    case False
    then have "(s, u) \<in> unvisited_depends tasks (c # visited)"
      using step.hyps(1) by (simp add: unvisited_depends_def)
    then show ?thesis using step.IH by (auto intro: converse_rtrancl_into_rtrancl)
  qed
qed simp

lemma path_mono:
  "(s, target) \<in> (unvisited_depends tasks (c # visited))\<^sup>* \<Longrightarrow> (s, target) \<in> (unvisited_depends tasks visited)\<^sup>*"
  by (erule rtrancl_mono [THEN subsetD, rotated]) (auto simp: unvisited_depends_def)

text \<open>Expanding a task: its prerequisites join the stack and it is not entered again.\<close>

lemma expand_task:
  assumes "c \<noteq> target" and "c \<notin> set visited"
  shows "(\<exists>s \<in> set (c # stack). (s, target) \<in> (unvisited_depends tasks visited)\<^sup>*)
     \<longleftrightarrow> (\<exists>s \<in> {p. (c, p) \<in> depends tasks} \<union> set stack. (s, target) \<in> (unvisited_depends tasks (c # visited))\<^sup>*)"
    (is "?lhs \<longleftrightarrow> ?rhs")
proof
  assume ?lhs
  then obtain s where s: "s \<in> set (c # stack)" "(s, target) \<in> (unvisited_depends tasks visited)\<^sup>*" by blast
  have "(c, target) \<notin> (unvisited_depends tasks (c # visited))\<^sup>*"
    using assms(1) by (auto simp: unvisited_depends_def elim: converse_rtranclE)
  then show ?rhs using path_avoids [OF s(2), of c] s(1) by auto
next
  assume ?rhs
  then obtain s where s: "(c, s) \<in> depends tasks \<or> s \<in> set stack"
      "(s, target) \<in> (unvisited_depends tasks visited)\<^sup>*"
    by (auto dest: path_mono)
  then show ?lhs
    using assms(2) by (auto simp: unvisited_depends_def intro: converse_rtrancl_into_rtrancl)
qed

lemma reaches_iff:
  "reaches tasks target stack visited \<longleftrightarrow>
     (\<exists>s \<in> set stack. (s, target) \<in> (unvisited_depends tasks visited)\<^sup>*)"
proof (induction tasks target stack visited rule: reaches.induct)
  case (2 tasks target c stack visited)
  show ?case
  proof (cases "c = target")
    case False
    note fresh = this
    show ?thesis
    proof (cases "c \<in> set visited")
      case True
      then have "(c, target) \<notin> (unvisited_depends tasks visited)\<^sup>*"
        using fresh by (auto simp: unvisited_depends_def elim: converse_rtranclE)
      then show ?thesis using 2(1) [OF fresh True] fresh True by simp
    next
      case False
      note expand = expand_task [OF fresh False]
      show ?thesis
      proof (cases "find_initial_task tasks c")
        case None
        then have "{p. (c, p) \<in> depends tasks} = {}" by (simp add: depends_def)
        then show ?thesis using 2(2) [OF fresh False None] fresh False None expand by simp
      next
        case (Some task)
        then have "{p. (c, p) \<in> depends tasks} = set (prerequisite_ids task)" by (simp add: depends_def)
        then show ?thesis using 2(3) [OF fresh False Some] fresh False Some expand by simp
      qed
    qed
  qed auto
qed simp

lemma cycle_check_iff:
  assumes "distinct (map it_task_id tasks)"
  shows "initial_task_dependencies_have_cycle tasks \<longleftrightarrow> (\<exists>i. (i, i) \<in> (depends tasks)\<^sup>+)"
proof -
  have all: "unvisited_depends tasks [] = depends tasks" by (auto simp: unvisited_depends_def)
  have found: "find_initial_task tasks (it_task_id t) = Some t" if "t \<in> set tasks" for t
    using assms that unfolding find_initial_task_def by (induction tasks) auto
  have "initial_task_dependencies_have_cycle tasks
      \<longleftrightarrow> (\<exists>t \<in> set tasks. \<exists>p \<in> set (prerequisite_ids t). (p, it_task_id t) \<in> (depends tasks)\<^sup>*)"
    by (simp add: initial_task_dependencies_have_cycle_def list_ex_iff reaches_iff all)
  also have "\<dots> \<longleftrightarrow> (\<exists>i p. (i, p) \<in> depends tasks \<and> (p, i) \<in> (depends tasks)\<^sup>*)"
    using found by (fastforce simp: depends_def dest: find_initial_task_Some)
  also have "\<dots> \<longleftrightarrow> (\<exists>i. (i, i) \<in> (depends tasks)\<^sup>+)"
    by (blast intro: rtrancl_into_trancl2 dest: tranclD)
  finally show ?thesis .
qed

text \<open>
  With distinct task ids the check answers exactly whether some task depends on itself,
  directly or through other tasks.
\<close>

theorem cycle_check_correct:
  assumes "distinct (map it_task_id tasks)"
  shows "initial_task_dependencies_have_cycle tasks \<longleftrightarrow> (\<exists>i. (i, i) \<in> (depends tasks)\<^sup>+)"
  using assms by (rule cycle_check_iff)

definition sample_initial_task :: "uuid \<Rightarrow> uuid list \<Rightarrow> initial_task" where
  "sample_initial_task i ps = \<lparr> it_task_id = i, it_stage_execution_id = None, it_logical_key = ''a'',
     it_kind = KModel, it_priority = 0, it_available_at = 10, it_max_attempts = 2, it_input = ''{}'',
     it_dependencies = map (\<lambda>p. \<lparr> id_prerequisite_task_id = p, id_condition = ''{}'' \<rparr>) ps,
     it_join_policy = JoinAll, it_context_projection = ''[]'' \<rparr>"

lemma cycle_check_correct_witness:
  "\<exists>i. (i, i) \<in> (depends [sample_initial_task 2 [3], sample_initial_task 3 [2]])\<^sup>+"
proof -
  have d: "distinct (map it_task_id [sample_initial_task 2 [3], sample_initial_task 3 [2]])"
    by (simp add: sample_initial_task_def)
  moreover have "initial_task_dependencies_have_cycle [sample_initial_task 2 [3], sample_initial_task 3 [2]]"
    by (simp add: initial_task_dependencies_have_cycle_def sample_initial_task_def prerequisite_ids_def
        find_initial_task_def)
  ultimately show ?thesis using cycle_check_correct [OF d] by simp
qed

section \<open>A graph without a cycle can start\<close>

text \<open>
  When no task depends on itself and every prerequisite is one of the tasks, the tasks that are not
  done always include one whose prerequisites are all done.
\<close>

lemma acyclic_tasks_can_progress:
  assumes "distinct (map it_task_id tasks)" and "\<not> initial_task_dependencies_have_cycle tasks"
    and "\<forall>t \<in> set tasks. \<forall>p \<in> set (prerequisite_ids t). p \<in> it_task_id ` set tasks"
    and "open_ids \<subseteq> it_task_id ` set tasks" and "open_ids \<noteq> {}"
  shows "\<exists>t \<in> set tasks. it_task_id t \<in> open_ids \<and> (\<forall>p \<in> set (prerequisite_ids t). p \<notin> open_ids)"
proof -
  have fin: "finite (depends tasks)"
  proof (rule finite_subset)
    show "depends tasks \<subseteq> (it_task_id ` set tasks) \<times> (\<Union>t \<in> set tasks. set (prerequisite_ids t))"
      by (auto simp: depends_def dest!: find_initial_task_Some)
  qed simp
  have "acyclic (depends tasks)"
    using assms(2) cycle_check_iff [OF assms(1)] by (auto simp: acyclic_def)
  then have "wf ((depends tasks)\<inverse>)" by (rule finite_acyclic_wf_converse [OF fin])
  then obtain i where i: "i \<in> open_ids" "\<And>p. (p, i) \<in> (depends tasks)\<inverse> \<Longrightarrow> p \<notin> open_ids"
    by (rule wfE_min' [OF _ assms(5)]) blast
  then obtain t where t: "t \<in> set tasks" "it_task_id t = i" using assms(4) by auto
  then have "find_initial_task tasks i = Some t"
    using assms(1) unfolding find_initial_task_def by (induction tasks) auto
  with i t show ?thesis by (auto simp: depends_def intro!: bexI [of _ t])
qed

end
