(* ===== verification/CreateRun.thy ===== *)
theory CreateRun
  imports Completion TaskGraph
begin

text \<open>
  Creating a run: \<open>CreateRun\<close> (\<open>durable-store/src/command.rs\<close>), \<open>validate_create_run\<close> and \<open>create_run\<close>
  of \<open>transaction_executor.rs\<close>, which checks the replay source, the schedule and the parent of the
  run, and inserts the run, its first event, plan revision, context snapshot and checkpoint, its
  stages, and its tasks with their dependencies and context references.
\<close>

section \<open>The command\<close>

record new_plan_revision =
  np_plan_revision_id :: uuid
  np_schema_version :: nat
  np_plan_key :: logical_key
  np_plan :: json_payload
  np_plan_digest :: digest
  np_change_summary :: json_payload
  np_created_event_id :: uuid

record new_context_snapshot =
  ns_context_snapshot_id :: uuid
  ns_schema_version :: nat
  ns_value :: json_payload
  ns_digest :: digest
  ns_created_event_id :: uuid

record create_run_command =
  crn_run_id :: uuid
  crn_replay_of_run_id :: "uuid option"
  crn_parent_run_id :: "uuid option"
  crn_parent_task_id :: "uuid option"
  crn_parent_event_id :: "uuid option"
  crn_schedule_id :: "uuid option"
  crn_scheduled_fire_at :: "micros option"
  crn_workflow_version_id :: "uuid option"
  crn_coordinator_agent_version_id :: "uuid option"
  crn_input :: json_payload
  crn_deadline :: "micros option"
  crn_initial_event_id :: uuid
  crn_initial_plan_revision :: new_plan_revision
  crn_initial_context :: new_context_snapshot
  crn_initial_checkpoint :: new_checkpoint
  crn_initial_stages :: "initial_stage list"
  crn_initial_tasks :: "initial_task list"

text \<open>The text of an id of the program: its 32 hexadecimal digits.\<close>

definition id_text :: "uuid \<Rightarrow> string" where
  "id_text u = map (\<lambda>i. hex_digit (unat (drop_bit (4 * (31 - i)) u) mod 16)) [0..<32]"

section \<open>Validation\<close>

definition payload_bytes :: "json_payload \<Rightarrow> byte list" where
  "payload_bytes payload = map of_char payload"

text \<open>\<open>enumerate().any(|(i, x)| xs[i + 1..].iter().any(|y| clash(x, y)))\<close>.\<close>

fun any_clash :: "('a \<Rightarrow> 'a \<Rightarrow> bool) \<Rightarrow> 'a list \<Rightarrow> bool" where
  "any_clash clash [] \<longleftrightarrow> False"
| "any_clash clash (x # xs) \<longleftrightarrow> list_ex (clash x) xs \<or> any_clash clash xs"

lemma any_clash_distinct: "any_clash (\<lambda>x y. f y = f x) xs \<longleftrightarrow> \<not> distinct (map f xs)"
  by (induction xs) (simp_all add: list_ex_iff image_iff, metis)

text \<open>The conditions of the dependencies are read one by one, before anything else is checked.\<close>

fun check_conditions :: "externals \<Rightarrow> initial_task_dependency list \<Rightarrow> unit store_result" where
  "check_conditions ext [] = Inr ()"
| "check_conditions ext (d # ds) =
     bindR (json_value ext (id_condition d)) (\<lambda>condition.
     if \<not> dependency_condition_shape_is_valid condition
     then Inl (invalid_command ''Task dependency Condition is invalid'')
     else check_conditions ext ds)"

definition invalid_initial_stage :: "initial_stage \<Rightarrow> bool" where
  "invalid_initial_stage s \<longleftrightarrow> is_attempt s = 0 \<or> is_status s \<notin> {StagePlanned, StageActive}
     \<or> (is_assignee_kind s \<noteq> None) \<noteq> (is_assignee_ref s \<noteq> None)"

definition stages_clash :: "initial_stage \<Rightarrow> initial_stage \<Rightarrow> bool" where
  "stages_clash s other \<longleftrightarrow> is_stage_execution_id other = is_stage_execution_id s
     \<or> (is_stage_key other = is_stage_key s \<and> is_attempt other = is_attempt s)"

definition invalid_initial_task :: "initial_stage list \<Rightarrow> initial_task list \<Rightarrow> initial_task \<Rightarrow> bool" where
  "invalid_initial_task stages tasks t \<longleftrightarrow>
     (case it_stage_execution_id t of None \<Rightarrow> False
      | Some s \<Rightarrow> \<not> list_ex (\<lambda>st. is_stage_execution_id st = s) stages)
     \<or> list_ex (\<lambda>d. id_prerequisite_task_id d = it_task_id t
          \<or> \<not> list_ex (\<lambda>c. it_task_id c = id_prerequisite_task_id d) tasks) (it_dependencies t)
     \<or> any_clash (\<lambda>d other. id_prerequisite_task_id other = id_prerequisite_task_id d) (it_dependencies t)"

definition validate_create_run :: "externals \<Rightarrow> create_run_command \<Rightarrow> unit store_result" where
  "validate_create_run ext cmd =
    (let checkpoint = crn_initial_checkpoint cmd; plan = crn_initial_plan_revision cmd;
         context = crn_initial_context cmd; event = crn_initial_event_id cmd;
         tasks = crn_initial_tasks cmd; stages = crn_initial_stages cmd in
     bindR (check_conditions ext (concat (map it_dependencies tasks))) (\<lambda>_.
     if np_created_event_id plan \<noteq> event
        \<or> crn_parent_run_id cmd = Some (crn_run_id cmd)
        \<or> crn_replay_of_run_id cmd = Some (crn_run_id cmd)
        \<or> (crn_parent_task_id cmd \<noteq> None \<and> crn_parent_run_id cmd = None)
        \<or> (crn_parent_event_id cmd \<noteq> None) \<noteq> (crn_parent_run_id cmd \<noteq> None)
        \<or> (crn_schedule_id cmd \<noteq> None) \<noteq> (crn_scheduled_fire_at cmd \<noteq> None)
        \<or> (crn_schedule_id cmd \<noteq> None \<and> crn_parent_run_id cmd \<noteq> None)
        \<or> (crn_replay_of_run_id cmd \<noteq> None
           \<and> (crn_schedule_id cmd \<noteq> None \<or> crn_parent_run_id cmd \<noteq> None))
        \<or> np_plan_revision_id plan = 0
        \<or> np_schema_version plan = 0
        \<or> ext_sha256 ext (payload_bytes (np_plan plan)) \<noteq> np_plan_digest plan
        \<or> ns_created_event_id context \<noteq> event
        \<or> ns_context_snapshot_id context = 0
        \<or> ns_schema_version context = 0
        \<or> ext_sha256 ext (payload_bytes (ns_value context)) \<noteq> ns_digest context
        \<or> nc_created_event_id checkpoint \<noteq> event
        \<or> nc_sequence checkpoint \<noteq> 1
        \<or> nc_schema_version checkpoint = 0
        \<or> nc_execution_generation checkpoint \<noteq> 0
        \<or> nc_workflow_version_id checkpoint \<noteq> crn_workflow_version_id cmd
        \<or> nc_coordinator_agent_version_id checkpoint \<noteq> crn_coordinator_agent_version_id cmd
        \<or> list_ex (\<lambda>t. it_max_attempts t = 0) tasks
        \<or> list_ex invalid_initial_stage stages
        \<or> any_clash stages_clash stages
        \<or> list_ex (invalid_initial_task stages tasks) tasks
        \<or> initial_task_dependencies_have_cycle tasks
     then Inl (invalid_command ''create_run initial event/checkpoint/stage/task shape is invalid'')
     else Inr ()))"

section \<open>Rows\<close>

definition insert_run :: "run_row \<Rightarrow> unit txn" where
  "insert_run r = insert_row
     (run_checks r \<and> r_created_by r \<noteq> [] \<and> r_parent_run r \<noteq> Some (r_id r)
      \<and> r_replay_of r \<noteq> Some (r_id r)
      \<and> (r_schedule r = None \<longleftrightarrow> r_scheduled_fire_at r = None)
      \<and> (case r_deadline r of None \<Rightarrow> True | Some d \<Rightarrow> r_created_at r \<le> d))
     (\<lambda>db. \<not> sql_exists (\<lambda>q. r_id q = r_id r
        \<or> (r_tenant q = r_tenant r \<and> r_schedule q \<noteq> None \<and> r_schedule q = r_schedule r
           \<and> r_scheduled_fire_at q = r_scheduled_fire_at r)) (db_runs db))
     (\<lambda>db. (case r_parent_run r of None \<Rightarrow> True | Some p \<Rightarrow> run_exists (r_tenant r) p db)
        \<and> (case r_replay_of r of None \<Rightarrow> True | Some s \<Rightarrow> run_exists (r_tenant r) s db)
        \<and> (case r_schedule r of None \<Rightarrow> True
           | Some z \<Rightarrow> sql_exists (\<lambda>s. z_tenant s = r_tenant r \<and> z_id s = z) (db_schedules db)))
     (\<lambda>db. db\<lparr>db_runs := db_runs db @ [r]\<rparr>)"

definition plan_exists :: "uuid \<Rightarrow> uuid \<Rightarrow> uuid option \<Rightarrow> db \<Rightarrow> bool" where
  "plan_exists tenant run plan db \<longleftrightarrow> (case plan of None \<Rightarrow> True
     | Some p \<Rightarrow> sql_exists (\<lambda>v. v_tenant v = tenant \<and> v_run v = run \<and> v_id v = p) (db_plans db))"

definition context_exists :: "uuid \<Rightarrow> uuid \<Rightarrow> uuid option \<Rightarrow> db \<Rightarrow> bool" where
  "context_exists tenant run context db \<longleftrightarrow> (case context of None \<Rightarrow> True
     | Some c \<Rightarrow> sql_exists (\<lambda>k. k_tenant k = tenant \<and> k_run k = run \<and> k_id k = c) (db_contexts db))"

definition insert_plan :: "plan_row \<Rightarrow> unit txn" where
  "insert_plan v = insert_row
     (1 \<le> v_revision v \<and> 1 \<le> v_schema_version v \<and> v_key v \<noteq> [] \<and> v_created_by v \<noteq> []
      \<and> (v_revision v = 1 \<longleftrightarrow> v_parent v = None))
     (\<lambda>db. \<not> sql_exists (\<lambda>p. v_id p = v_id v
        \<or> (v_tenant p = v_tenant v \<and> v_run p = v_run v \<and> v_revision p = v_revision v)) (db_plans db))
     (\<lambda>db. run_exists (v_tenant v) (v_run v) db \<and> plan_exists (v_tenant v) (v_run v) (v_parent v) db
        \<and> event_exists (v_tenant v) (v_run v) (v_event v) db)
     (\<lambda>db. db\<lparr>db_plans := db_plans db @ [v]\<rparr>)"

definition insert_context :: "context_row \<Rightarrow> unit txn" where
  "insert_context k = insert_row
     (1 \<le> k_revision k \<and> 1 \<le> k_schema_version k \<and> k_created_by k \<noteq> []
      \<and> (k_revision k = 1 \<longleftrightarrow> k_parent k = None))
     (\<lambda>db. \<not> sql_exists (\<lambda>c. k_id c = k_id k
        \<or> (k_tenant c = k_tenant k \<and> k_run c = k_run k \<and> k_revision c = k_revision k)) (db_contexts db))
     (\<lambda>db. run_exists (k_tenant k) (k_run k) db
        \<and> context_exists (k_tenant k) (k_run k) (k_parent k) db
        \<and> event_exists (k_tenant k) (k_run k) (k_event k) db)
     (\<lambda>db. db\<lparr>db_contexts := db_contexts db @ [k]\<rparr>)"

definition insert_dependency :: "dependency_row \<Rightarrow> unit txn" where
  "insert_dependency d = insert_row
     (d_task d \<noteq> d_prerequisite d)
     (\<lambda>db. \<not> sql_exists (\<lambda>e. d_tenant e = d_tenant d \<and> d_run e = d_run d \<and> d_task e = d_task d
        \<and> d_prerequisite e = d_prerequisite d) (db_deps db))
     (\<lambda>db. task_exists (d_tenant d) (d_run d) (Some (d_task d)) db
        \<and> task_exists (d_tenant d) (d_run d) (Some (d_prerequisite d)) db
        \<and> event_exists (d_tenant d) (d_run d) (d_event d) db)
     (\<lambda>db. db\<lparr>db_deps := db_deps db @ [d]\<rparr>)"

definition insert_context_ref :: "context_ref_row \<Rightarrow> unit txn" where
  "insert_context_ref j = insert_row
     (as_array (j_projection j) \<noteq> None)
     (\<lambda>db. \<not> sql_exists (\<lambda>e. j_task e = j_task j) (db_context_refs db))
     (\<lambda>db. task_exists (j_tenant j) (j_run j) (Some (j_task j)) db
        \<and> context_exists (j_tenant j) (j_run j) (Some (j_context j)) db
        \<and> event_exists (j_tenant j) (j_run j) (j_event j) db)
     (\<lambda>db. db\<lparr>db_context_refs := db_context_refs db @ [j]\<rparr>)"

lemmas create_row_defs = insert_run_def insert_plan_def insert_context_def insert_dependency_def
  insert_context_ref_def

lemma keeps_create_rows [keeps_intros]:
  "(\<And>db v. g (db\<lparr>db_plans := v\<rparr>) = g db) \<Longrightarrow> keeps g (insert_plan p)"
  "(\<And>db v. g (db\<lparr>db_contexts := v\<rparr>) = g db) \<Longrightarrow> keeps g (insert_context k)"
  "(\<And>db v. g (db\<lparr>db_deps := v\<rparr>) = g db) \<Longrightarrow> keeps g (insert_dependency d)"
  "(\<And>db v. g (db\<lparr>db_context_refs := v\<rparr>) = g db) \<Longrightarrow> keeps g (insert_context_ref j)"
  by (auto simp: create_row_defs intro: keeps_intros)

section \<open>The rows of a new run\<close>

definition plan_row_of ::
  "uuid \<Rightarrow> uuid \<Rightarrow> int \<Rightarrow> uuid option \<Rightarrow> micros \<Rightarrow> command_context \<Rightarrow> new_plan_revision \<Rightarrow> json \<Rightarrow> json
   \<Rightarrow> plan_row" where
  "plan_row_of tenant run revision parent now ctx p plan summary =
    \<lparr> v_id = np_plan_revision_id p, v_tenant = tenant, v_run = run, v_revision = revision,
      v_parent = parent, v_schema_version = int (np_schema_version p), v_key = np_plan_key p,
      v_plan = plan, v_digest = np_plan_digest p, v_summary = summary,
      v_event = np_created_event_id p, v_created_by = cc_actor_ref ctx, v_created_at = now \<rparr>"

definition insert_plan_revision ::
  "externals \<Rightarrow> uuid \<Rightarrow> uuid \<Rightarrow> int \<Rightarrow> uuid option \<Rightarrow> micros \<Rightarrow> command_context \<Rightarrow> new_plan_revision
   \<Rightarrow> unit txn" where
  "insert_plan_revision ext tenant run revision parent now ctx p =
    bindT (liftT (json_value ext (np_plan p))) (\<lambda>plan.
    bindT (liftT (json_value ext (np_change_summary p))) (\<lambda>summary.
    insert_plan (plan_row_of tenant run revision parent now ctx p plan summary)))"

definition context_row_of ::
  "uuid \<Rightarrow> uuid \<Rightarrow> int \<Rightarrow> uuid option \<Rightarrow> micros \<Rightarrow> command_context \<Rightarrow> new_context_snapshot \<Rightarrow> json
   \<Rightarrow> context_row" where
  "context_row_of tenant run revision parent now ctx s v =
    \<lparr> k_id = ns_context_snapshot_id s, k_tenant = tenant, k_run = run, k_revision = revision,
      k_parent = parent, k_schema_version = int (ns_schema_version s), k_value = v,
      k_digest = ns_digest s, k_event = ns_created_event_id s, k_created_by = cc_actor_ref ctx,
      k_created_at = now \<rparr>"

definition insert_context_snapshot ::
  "externals \<Rightarrow> uuid \<Rightarrow> uuid \<Rightarrow> int \<Rightarrow> uuid option \<Rightarrow> micros \<Rightarrow> command_context \<Rightarrow> new_context_snapshot
   \<Rightarrow> unit txn" where
  "insert_context_snapshot ext tenant run revision parent now ctx s =
    thenT (guardT (ns_schema_version s \<le> 2147483647)
             (invalid_command ''Context schema version exceeds i32 range''))
    (bindT (liftT (json_value ext (ns_value s))) (\<lambda>v.
    insert_context (context_row_of tenant run revision parent now ctx s v)))"

definition initial_task_row ::
  "uuid \<Rightarrow> uuid \<Rightarrow> uuid \<Rightarrow> int \<Rightarrow> int \<Rightarrow> micros \<Rightarrow> initial_task \<Rightarrow> json \<Rightarrow> task_row" where
  "initial_task_row tenant run event checkpoint_sequence generation now t input =
    \<lparr> t_id = it_task_id t, t_tenant = tenant, t_run = run, t_stage = it_stage_execution_id t,
      t_key = it_logical_key t, t_kind = it_kind t,
      t_status = (if it_dependencies t = [] then TaskQueued else TaskScheduled),
      t_join_policy = it_join_policy t, t_generation = generation,
      t_checkpoint_seq = Some checkpoint_sequence, t_priority = it_priority t,
      t_available_at = it_available_at t, t_attempt = 0, t_max_attempts = int (it_max_attempts t),
      t_lease_owner = None, t_lease_token = None, t_lease_expires_at = None, t_input = input,
      t_result = None, t_error_code = None, t_error = None, t_deadline = None,
      t_created_event = event, t_created_at = now, t_updated_at = now, t_completed_at = None \<rparr>"

lemma initial_task_row_sel [simp]:
  "t_id (initial_task_row tenant run event cs g now t input) = it_task_id t"
  "t_tenant (initial_task_row tenant run event cs g now t input) = tenant"
  "t_run (initial_task_row tenant run event cs g now t input) = run"
  "t_status (initial_task_row tenant run event cs g now t input)
     = (if it_dependencies t = [] then TaskQueued else TaskScheduled)"
  "t_attempt (initial_task_row tenant run event cs g now t input) = 0"
  "t_generation (initial_task_row tenant run event cs g now t input) = g"
  "t_available_at (initial_task_row tenant run event cs g now t input) = it_available_at t"
  by (simp_all add: initial_task_row_def)

definition insert_initial_task ::
  "externals \<Rightarrow> uuid \<Rightarrow> uuid \<Rightarrow> uuid \<Rightarrow> int \<Rightarrow> int \<Rightarrow> micros \<Rightarrow> initial_task \<Rightarrow> unit txn" where
  "insert_initial_task ext tenant run event checkpoint_sequence generation now t =
    thenT (guardT (it_max_attempts t \<noteq> 0) (invalid_command ''initial task max attempts must be positive''))
    (bindT (liftT (json_value ext (it_input t))) (\<lambda>input.
    insert_task (initial_task_row tenant run event checkpoint_sequence generation now t input)))"

definition dependency_row_of ::
  "uuid \<Rightarrow> uuid \<Rightarrow> uuid \<Rightarrow> micros \<Rightarrow> initial_task \<Rightarrow> uuid \<Rightarrow> json \<Rightarrow> dependency_row" where
  "dependency_row_of tenant run event now t prerequisite condition =
    \<lparr> d_tenant = tenant, d_run = run, d_task = it_task_id t, d_prerequisite = prerequisite,
      d_condition = condition, d_event = event, d_created_at = now \<rparr>"

definition insert_initial_task_dependencies ::
  "externals \<Rightarrow> uuid \<Rightarrow> uuid \<Rightarrow> uuid \<Rightarrow> micros \<Rightarrow> initial_task \<Rightarrow> unit txn" where
  "insert_initial_task_dependencies ext tenant run event now t =
    foldT (\<lambda>d. bindT (liftT (json_value ext (id_condition d))) (\<lambda>condition.
      insert_dependency (dependency_row_of tenant run event now t (id_prerequisite_task_id d) condition)))
      (it_dependencies t)"

text \<open>A context projection is an array of distinct JSON pointers.\<close>

fun check_pointers :: "json list \<Rightarrow> unit store_result" where
  "check_pointers [] = Inr ()"
| "check_pointers (p # ps) = (case as_str p of
      None \<Rightarrow> Inl (invalid_command ''Task ContextProjection entries must be JSON pointers'')
    | Some pointer \<Rightarrow>
        (if take 1 pointer \<noteq> ''/'' \<or> list_ex (\<lambda>other. as_str other = Some pointer) ps
         then Inl (invalid_command ''Task ContextProjection is invalid'')
         else check_pointers ps))"

definition insert_task_context_reference ::
  "externals \<Rightarrow> uuid \<Rightarrow> uuid \<Rightarrow> uuid \<Rightarrow> uuid \<Rightarrow> micros \<Rightarrow> initial_task \<Rightarrow> unit txn" where
  "insert_task_context_reference ext tenant run event context_id now t =
    bindT (liftT (json_value ext (it_context_projection t))) (\<lambda>projection.
    bindT (liftT (ok_or (as_array projection)
             (invalid_command ''Task ContextProjection must be an array''))) (\<lambda>pointers.
    thenT (liftT (check_pointers pointers))
    (insert_context_ref \<lparr> j_tenant = tenant, j_run = run, j_task = it_task_id t,
       j_context = context_id, j_projection = projection, j_event = event, j_created_at = now \<rparr>)))"

lemmas create_work_defs = insert_plan_revision_def insert_context_snapshot_def
  insert_initial_task_def insert_initial_task_dependencies_def insert_task_context_reference_def

lemma keeps_create_work [keeps_intros]:
  "(\<And>db v. g (db\<lparr>db_plans := v\<rparr>) = g db)
     \<Longrightarrow> keeps g (insert_plan_revision ext tenant run revision parent now ctx p)"
  "(\<And>db v. g (db\<lparr>db_contexts := v\<rparr>) = g db)
     \<Longrightarrow> keeps g (insert_context_snapshot ext tenant run revision parent now ctx s)"
  "(\<And>db v. g (db\<lparr>db_tasks := v\<rparr>) = g db)
     \<Longrightarrow> keeps g (insert_initial_task ext tenant run event cs generation now t)"
  "(\<And>db v. g (db\<lparr>db_deps := v\<rparr>) = g db)
     \<Longrightarrow> keeps g (insert_initial_task_dependencies ext tenant run event now t)"
  "(\<And>db v. g (db\<lparr>db_context_refs := v\<rparr>) = g db)
     \<Longrightarrow> keeps g (insert_task_context_reference ext tenant run event context_id now t)"
  unfolding create_work_defs by (intro keeps_intros; assumption)+

section \<open>The handler\<close>

definition check_replay_source :: "uuid \<Rightarrow> uuid \<Rightarrow> uuid option \<Rightarrow> unit txn" where
  "check_replay_source tenant run source = (case source of
      None \<Rightarrow> returnT ()
    | Some s \<Rightarrow>
        thenT (guardT (s \<noteq> run) (invalid_command ''Run cannot replay itself''))
        (\<lambda>db. guardT (run_exists tenant s db)
                (store_error_of NotFound ''Replay source Run was not found'') db))"

definition fired_run :: "uuid \<Rightarrow> uuid \<Rightarrow> micros \<Rightarrow> run_row \<Rightarrow> bool" where
  "fired_run tenant schedule fire_at r \<longleftrightarrow> r_tenant r = tenant \<and> r_schedule r = Some schedule
     \<and> r_scheduled_fire_at r = Some fire_at"

definition active_scheduled_run :: "uuid \<Rightarrow> uuid \<Rightarrow> run_row \<Rightarrow> bool" where
  "active_scheduled_run tenant schedule r \<longleftrightarrow> r_tenant r = tenant \<and> r_schedule r = Some schedule
     \<and> r_status r \<in> {RunQueued, RunRunning, RunWaiting, RunApprovalRequired, RunRetrying, RunPaused}"

text \<open>The run that the schedule has already fired for this time, if there is one.\<close>

definition check_schedule :: "uuid \<Rightarrow> create_run_command \<Rightarrow> run_row option txn" where
  "check_schedule tenant cmd = (case crn_schedule_id cmd of
      None \<Rightarrow> returnT None
    | Some schedule_id \<Rightarrow>
        bindT (\<lambda>db. liftT (ok_or
                 (find (\<lambda>s. z_tenant s = tenant \<and> z_id s = schedule_id) (db_schedules db))
                 (store_error_of NotFound ''Schedule was not found'')) db) (\<lambda>schedule.
        thenT (guardT (Some (z_workflow_version schedule) = crn_workflow_version_id cmd)
                 (invalid_command ''Schedule Workflow version does not match the Run''))
        (thenT (guardT (z_status schedule = ScheduleActive)
                 (store_error_of InvalidTransition ''Schedule is not active''))
        (bindT (liftT (ok_or (crn_scheduled_fire_at cmd)
                 (invalid_command ''Scheduled Run has no fire timestamp''))) (\<lambda>fire_at.
        bindT (queryT (\<lambda>db. find (fired_run tenant schedule_id fire_at) (db_runs db))) (\<lambda>existing.
        case existing of
            Some run \<Rightarrow> returnT (Some run)
          | None \<Rightarrow>
              thenT (\<lambda>db. guardT (z_concurrency schedule = ConcurrencyForbid
                         \<longrightarrow> \<not> sql_exists (active_scheduled_run tenant schedule_id) (db_runs db))
                       (store_error_of InvalidTransition
                          ''Schedule concurrency policy forbids overlapping Runs'') db)
              (returnT None)))))))"

definition already_fired :: "command_context \<Rightarrow> run_row \<Rightarrow> run_snapshot committed txn" where
  "already_fired ctx run =
    bindT (liftT (decode_control_run run)) (\<lambda>snapshot.
    bindT (liftT (to_i64 (rs_version snapshot) ''Run version'')) (\<lambda>version.
    thenT (finish_receipt ctx ReceiptNoOp (encode_run_receipt snapshot) None
             (Some (''run'', rs_run_id snapshot, version)))
    (returnT (committed_run Duplicate snapshot None []))))"

definition task_in_run :: "uuid \<Rightarrow> uuid \<Rightarrow> uuid \<Rightarrow> task_row \<Rightarrow> bool" where
  "task_in_run tenant run task t \<longleftrightarrow> t_tenant t = tenant \<and> t_run t = run \<and> t_id t = task"

definition suspended_task :: "micros \<Rightarrow> task_row \<Rightarrow> task_row" where
  "suspended_task now t = t\<lparr>t_status := TaskScheduled, t_lease_owner := None, t_lease_token := None,
     t_lease_expires_at := None, t_updated_at := now\<rparr>"

text \<open>The task of the parent that waits for the children is taken off the queue.\<close>

definition suspend_parent_task :: "uuid \<Rightarrow> uuid \<Rightarrow> micros \<Rightarrow> uuid option \<Rightarrow> unit txn" where
  "suspend_parent_task tenant parent now parent_task = (case parent_task of
      None \<Rightarrow> returnT ()
    | Some task_id \<Rightarrow>
        bindT (\<lambda>db. liftT (ok_or (find (task_in_run tenant parent task_id) (db_tasks db))
                 (store_error_of NotFound ''parent Task was not found in parent Run'')) db) (\<lambda>task.
        thenT (guardT (t_status task \<in> {TaskQueued, TaskRetryScheduled, TaskScheduled})
                 (store_error_of InvalidTransition ''parent fan-in Task is not schedulable''))
        (exec_update (update_tasks (task_in_run tenant parent task_id) (suspended_task now)))))"

definition child_created_event ::
  "command_context \<Rightarrow> create_run_command \<Rightarrow> uuid \<Rightarrow> uuid \<Rightarrow> int \<Rightarrow> micros \<Rightarrow> event_insert" where
  "child_created_event ctx cmd parent event_id sequence now =
    \<lparr> ei_event_id = event_id, ei_tenant_id = cc_tenant_id ctx, ei_run_id = parent,
      ei_sequence = sequence, ei_event_type = ''run.child_created'',
      ei_payload = JObject [(''child_run_id'', JString (id_text (crn_run_id cmd))),
        (''parent_task_id'', (case crn_parent_task_id cmd of
            None \<Rightarrow> JNull | Some t \<Rightarrow> JString (id_text t)))],
      ei_payload_schema_version = 1, ei_producer = ''control-plane'', ei_context = ctx,
      ei_correlation_id = cc_correlation_id ctx, ei_occurred_at = None, ei_recorded_at = now \<rparr>"

lemma child_created_event_sel [simp]:
  "ei_tenant_id (child_created_event ctx cmd parent e n now) = cc_tenant_id ctx"
  "ei_run_id (child_created_event ctx cmd parent e n now) = parent"
  "ei_sequence (child_created_event ctx cmd parent e n now) = n"
  by (simp_all add: child_created_event_def)

definition run_of :: "uuid \<Rightarrow> uuid \<Rightarrow> run_row \<Rightarrow> bool" where
  "run_of tenant run r \<longleftrightarrow> r_tenant r = tenant \<and> r_id r = run"

definition parent_advanced :: "micros \<Rightarrow> run_row \<Rightarrow> run_row" where
  "parent_advanced now r = r\<lparr>r_version := r_version r + 1, r_next_seq := r_next_seq r + 1,
     r_updated_at := now\<rparr>"

definition link_parent :: "command_context \<Rightarrow> create_run_command \<Rightarrow> micros \<Rightarrow> unit txn" where
  "link_parent ctx cmd now = (let tenant = cc_tenant_id ctx in case crn_parent_run_id cmd of
      None \<Rightarrow> returnT ()
    | Some parent_id \<Rightarrow>
        bindT (\<lambda>db. liftT (ok_or (find_run tenant parent_id db)
                 (store_error_of NotFound ''parent Run was not found'')) db) (\<lambda>parent.
        thenT (guardT (\<not> run_terminal (r_status parent))
                 (store_error_of TerminalRun ''parent Run is terminal''))
        (thenT (suspend_parent_task tenant parent_id now (crn_parent_task_id cmd))
        (bindT (liftT (ok_or (crn_parent_event_id cmd)
                 (invalid_command ''Child Run has no parent Event''))) (\<lambda>event_id.
        thenT (insert_event (child_created_event ctx cmd parent_id event_id (r_next_seq parent) now))
        (thenT (\<lambda>db. guardT (increments_in_range (run_of tenant parent_id) r_version (db_runs db)
                   \<and> increments_in_range (run_of tenant parent_id) r_next_seq (db_runs db))
                 bigint_out_of_range db)
        (exec_update (update_runs (run_of tenant parent_id) (parent_advanced now)))))))))"

definition new_run_row :: "command_context \<Rightarrow> create_run_command \<Rightarrow> micros \<Rightarrow> json \<Rightarrow> run_row" where
  "new_run_row ctx cmd now input =
    \<lparr> r_id = crn_run_id cmd, r_tenant = cc_tenant_id ctx,
      r_workflow_version = crn_workflow_version_id cmd,
      r_coordinator = crn_coordinator_agent_version_id cmd, r_parent_run = crn_parent_run_id cmd,
      r_parent_task = crn_parent_task_id cmd, r_schedule = crn_schedule_id cmd,
      r_scheduled_fire_at = crn_scheduled_fire_at cmd, r_replay_of = crn_replay_of_run_id cmd,
      r_status = RunQueued, r_suspended_from = None, r_version = 0, r_generation = 0,
      r_next_seq = 2, r_checkpoint = None, r_terminal_event = None, r_input = input,
      r_state_summary = JObject [], r_deadline = crn_deadline cmd, r_resume_blocked = None,
      r_plan_revision = (None, 0), r_context_revision = (None, 0),
      r_created_by = cc_actor_ref ctx, r_created_at = now, r_updated_at = now,
      r_terminal_at = None \<rparr>"

definition run_created_event ::
  "command_context \<Rightarrow> create_run_command \<Rightarrow> json \<Rightarrow> micros \<Rightarrow> event_insert" where
  "run_created_event ctx cmd input now =
    \<lparr> ei_event_id = crn_initial_event_id cmd, ei_tenant_id = cc_tenant_id ctx,
      ei_run_id = crn_run_id cmd, ei_sequence = 1, ei_event_type = ''run.created'',
      ei_payload = input, ei_payload_schema_version = 1, ei_producer = ''runtime'',
      ei_context = ctx, ei_correlation_id = cc_correlation_id ctx, ei_occurred_at = None,
      ei_recorded_at = now \<rparr>"

lemma run_created_event_sel [simp]:
  "ei_tenant_id (run_created_event ctx cmd input now) = cc_tenant_id ctx"
  "ei_run_id (run_created_event ctx cmd input now) = crn_run_id cmd"
  "ei_sequence (run_created_event ctx cmd input now) = 1"
  by (simp_all add: run_created_event_def)

definition run_initialized :: "create_run_command \<Rightarrow> run_row \<Rightarrow> run_row" where
  "run_initialized cmd r = r
     \<lparr>r_checkpoint := Some (nc_checkpoint_id (crn_initial_checkpoint cmd)),
      r_plan_revision := (Some (np_plan_revision_id (crn_initial_plan_revision cmd)), 1),
      r_context_revision := (Some (ns_context_snapshot_id (crn_initial_context cmd)), 1)\<rparr>"

definition created_snapshot :: "command_context \<Rightarrow> create_run_command \<Rightarrow> micros \<Rightarrow> run_snapshot" where
  "created_snapshot ctx cmd now =
    \<lparr> rs_tenant_id = cc_tenant_id ctx, rs_run_id = crn_run_id cmd,
      rs_workflow_version_id = crn_workflow_version_id cmd, rs_status = RunQueued,
      rs_suspended_from_status = None, rs_version = 0, rs_execution_generation = 0,
      rs_next_event_sequence = 2,
      rs_current_checkpoint_id = Some (nc_checkpoint_id (crn_initial_checkpoint cmd)),
      rs_terminal_event_id = None, rs_deadline = crn_deadline cmd, rs_updated_at = now \<rparr>"

text \<open>The run, its first event, and its first plan revision, context snapshot and checkpoint.\<close>

definition insert_created_run ::
  "externals \<Rightarrow> command_context \<Rightarrow> create_run_command \<Rightarrow> micros \<Rightarrow> json \<Rightarrow> checkpoint_row \<Rightarrow> unit txn" where
  "insert_created_run ext ctx cmd now input checkpoint =
    (let tenant = cc_tenant_id ctx; run = crn_run_id cmd in
    thenT (insert_run (new_run_row ctx cmd now input))
    (thenT (insert_event (run_created_event ctx cmd input now))
    (thenT (insert_plan_revision ext tenant run 1 None now ctx (crn_initial_plan_revision cmd))
    (thenT (insert_context_snapshot ext tenant run 1 None now ctx (crn_initial_context cmd))
    (thenT (insert_checkpoint checkpoint)
    (exec_update (update_runs (run_of tenant run) (run_initialized cmd))))))))"

text \<open>Its stages, then all its tasks, then the dependencies and context reference of each task.\<close>

definition insert_created_work ::
  "externals \<Rightarrow> command_context \<Rightarrow> create_run_command \<Rightarrow> micros \<Rightarrow> int \<Rightarrow> unit txn" where
  "insert_created_work ext ctx cmd now checkpoint_sequence =
    (let tenant = cc_tenant_id ctx; run = crn_run_id cmd; event = crn_initial_event_id cmd in
    thenT (foldT (insert_initial_stage ext tenant run now) (crn_initial_stages cmd))
    (thenT (foldT (insert_initial_task ext tenant run event checkpoint_sequence 0 now)
             (crn_initial_tasks cmd))
    (foldT (\<lambda>t. thenT (insert_initial_task_dependencies ext tenant run event now t)
                (insert_task_context_reference ext tenant run event
                   (ns_context_snapshot_id (crn_initial_context cmd)) now t))
       (crn_initial_tasks cmd))))"

definition insert_new_run ::
  "externals \<Rightarrow> command_context \<Rightarrow> create_run_command \<Rightarrow> micros \<Rightarrow> json \<Rightarrow> checkpoint_row
   \<Rightarrow> run_snapshot committed txn" where
  "insert_new_run ext ctx cmd now input checkpoint =
    thenT (link_parent ctx cmd now)
    (thenT (insert_created_run ext ctx cmd now input checkpoint)
    (thenT (insert_created_work ext ctx cmd now (c_seq checkpoint))
    (thenT (finish_receipt ctx ReceiptApplied (encode_run_receipt (created_snapshot ctx cmd now))
             (Some (crn_initial_event_id cmd)) (Some (''run'', crn_run_id cmd, 0)))
    (returnT (committed_run Applied (created_snapshot ctx cmd now) (Some (crn_initial_event_id cmd))
       (map (\<lambda>t. FollowTask (it_task_id t))
          (filter (\<lambda>t. it_dependencies t = []) (crn_initial_tasks cmd))))))))"

definition create_run ::
  "externals \<Rightarrow> nat \<Rightarrow> command_context \<Rightarrow> create_run_command \<Rightarrow> micros
   \<Rightarrow> run_snapshot committed txn" where
  "create_run ext ttl ctx cmd now =
    (let cp = crn_initial_checkpoint cmd; tenant = cc_tenant_id ctx; run = crn_run_id cmd in
    thenT (liftT (validate_create_run ext cmd))
    (with_receipt ctx now ttl (duplicate_run ctx)
      (bindT (liftT (json_value ext (crn_input cmd))) (\<lambda>input.
      bindT (liftT (json_value ext (nc_state cp))) (\<lambda>state.
      bindT (liftT (to_i64 (nc_sequence cp) ''checkpoint sequence'')) (\<lambda>sequence.
      bindT (liftT (to_i64 (nc_execution_generation cp) ''execution generation'')) (\<lambda>generation.
      thenT (check_replay_source tenant run (crn_replay_of_run_id cmd))
      (bindT (check_schedule tenant cmd) (\<lambda>existing.
      case existing of
          Some fired \<Rightarrow> already_fired ctx fired
        | None \<Rightarrow> insert_new_run ext ctx cmd now input
            (checkpoint_row_of tenant run (crn_initial_event_id cmd) now cp sequence generation state))))))))))"

section \<open>Effects\<close>

lemma keeps_created_work [keeps_intros]:
  assumes "\<And>db v. g (db\<lparr>db_stages := v\<rparr>) = g db" "\<And>db v. g (db\<lparr>db_tasks := v\<rparr>) = g db"
    "\<And>db v. g (db\<lparr>db_deps := v\<rparr>) = g db" "\<And>db v. g (db\<lparr>db_context_refs := v\<rparr>) = g db"
  shows "keeps g (insert_created_work ext ctx cmd now cs)"
  unfolding insert_created_work_def Let_def by (intro keeps_intros assms)

lemma suspend_parent_frame:
  assumes "suspend_parent_task tenant parent now parent_task db = Inr (u, db')"
  obtains P where "db' = db\<lparr>db_tasks := sql_update P (suspended_task now) (db_tasks db)\<rparr>"
    and "\<forall>t. P t \<longrightarrow> t_run t = parent \<and> parent_task = Some (t_id t)"
proof (cases parent_task)
  case None
  with assms have "db' = db\<lparr>db_tasks := sql_update (\<lambda>_. False) (suspended_task now) (db_tasks db)\<rparr>"
    by (simp add: suspend_parent_task_def txn_iffs sql_update_def)
  then show ?thesis by (rule that) simp
next
  case (Some i)
  with assms have "db' = db\<lparr>db_tasks := sql_update (task_in_run tenant parent i) (suspended_task now)
      (db_tasks db)\<rparr>"
    by (auto simp: suspend_parent_task_def txn_iffs)
  then show ?thesis by (rule that) (simp add: Some task_in_run_def)
qed

lemma link_parent_effect:
  assumes "link_parent ctx cmd now db = Inr (u, db')" and "run_keys_ok db"
  obtains (root) "crn_parent_run_id cmd = None" and "db' = db"
    | (child) parent P where "crn_parent_run_id cmd = Some (r_id parent)"
      and "advances db db'" and "parent \<in> set (db_runs db)" and "\<not> run_terminal (r_status parent)"
      and "db_tasks db' = sql_update P (suspended_task now) (db_tasks db)"
      and "\<forall>t. P t \<longrightarrow> t_run t = r_id parent \<and> crn_parent_task_id cmd = Some (t_id t)"
      and "db_deps db' = db_deps db"
proof (cases "crn_parent_run_id cmd")
  case None
  then show ?thesis using assms(1) by (intro root) (simp_all add: link_parent_def txn_iffs)
next
  case (Some parent_id)
  with assms(1) obtain parent db1 event_id where
      parent: "find_run (cc_tenant_id ctx) parent_id db = Some parent" "\<not> run_terminal (r_status parent)"
    and suspend: "suspend_parent_task (cc_tenant_id ctx) parent_id now (crn_parent_task_id cmd) db
        = Inr ((), db1)"
    and pass: "updates_pass run_checks (run_of (cc_tenant_id ctx) parent_id) (parent_advanced now)
        (db_runs db1)"
    and db': "db' = db1\<lparr>db_events := db_events db1
          @ [event_row_of (child_created_event ctx cmd parent_id event_id (r_next_seq parent) now)],
        db_outbox := db_outbox db1
          @ [outbox_row_of (child_created_event ctx cmd parent_id event_id (r_next_seq parent) now)],
        db_runs := sql_update (run_of (cc_tenant_id ctx) parent_id) (parent_advanced now)
          (db_runs db1)\<rparr>"
    by (auto simp: link_parent_def Let_def txn_iffs ok_or_Inr_iff)
  from suspend obtain P where
      db1: "db1 = db\<lparr>db_tasks := sql_update P (suspended_task now) (db_tasks db)\<rparr>"
    and of_parent: "\<forall>t. P t \<longrightarrow> t_run t = parent_id \<and> crn_parent_task_id cmd = Some (t_id t)"
    by (rule suspend_parent_frame)
  note same = find_run_same [OF parent(1)]
  have id: "r_id parent = parent_id" using find_run_Some [OF parent(1)] by simp
  have P: "run_of (cc_tenant_id ctx) parent_id = same_run parent"
    using same by (simp add: run_of_def fun_eq_iff)
  have "db_runs db' = sql_update (same_run parent) (\<lambda>_. parent_advanced now parent) (db_runs db)"
    using sql_update_one_run [OF assms(2), of parent "same_run parent" "parent_advanced now"] same
    by (simp add: db' db1 P)
  moreover have "run_checks (parent_advanced now parent)"
    using updates_passD [OF pass] same by (simp add: db1 P)
  ultimately have "advances db db'"
    unfolding advances_def using parent same find_run_Some [OF parent(1)]
    by (intro exI [of _ parent] exI [of _ "parent_advanced now parent"]
        exI [of _ "child_created_event ctx cmd parent_id event_id (r_next_seq parent) now"])
      (simp add: db' db1 parent_advanced_def same_run_def)
  then show ?thesis
    using Some parent(2) same id of_parent by (intro child [of parent P]) (simp_all add: db' db1)
qed

text \<open>The row of a new run, and what its insertion leaves.\<close>

definition created_row :: "command_context \<Rightarrow> create_run_command \<Rightarrow> micros \<Rightarrow> json \<Rightarrow> run_row" where
  "created_row ctx cmd now input = run_initialized cmd (new_run_row ctx cmd now input)"

lemma created_row_sel [simp]:
  "r_id (created_row ctx cmd now input) = crn_run_id cmd"
  "r_tenant (created_row ctx cmd now input) = cc_tenant_id ctx"
  "r_status (created_row ctx cmd now input) = RunQueued"
  "r_version (created_row ctx cmd now input) = 0"
  "r_generation (created_row ctx cmd now input) = 0"
  "r_next_seq (created_row ctx cmd now input) = 2"
  "r_schedule (created_row ctx cmd now input) = crn_schedule_id cmd"
  "r_scheduled_fire_at (created_row ctx cmd now input) = crn_scheduled_fire_at cmd"
  "r_parent_run (created_row ctx cmd now input) = crn_parent_run_id cmd"
  "r_checkpoint (created_row ctx cmd now input)
     = Some (nc_checkpoint_id (crn_initial_checkpoint cmd))"
  "r_plan_revision (created_row ctx cmd now input)
     = (Some (np_plan_revision_id (crn_initial_plan_revision cmd)), 1)"
  "r_context_revision (created_row ctx cmd now input)
     = (Some (ns_context_snapshot_id (crn_initial_context cmd)), 1)"
  by (simp_all add: created_row_def run_initialized_def new_run_row_def)

lemma insert_created_run_effect:
  assumes "insert_created_run ext ctx cmd now input checkpoint db = Inr (u, db')"
  obtains "\<forall>q \<in> set (db_runs db). r_id q \<noteq> crn_run_id cmd"
    and "db_runs db' = db_runs db @ [created_row ctx cmd now input]"
    and "run_checks (created_row ctx cmd now input)"
    and "db_events db' = db_events db @ [event_row_of (run_created_event ctx cmd input now)]"
    and "db_outbox db' = db_outbox db @ [outbox_row_of (run_created_event ctx cmd input now)]"
    and "db_tasks db' = db_tasks db" and "db_receipts db' = db_receipts db"
    and "db_deps db' = db_deps db"
proof -
  let ?run = "new_run_row ctx cmd now input"
  let ?P = "run_of (cc_tenant_id ctx) (crn_run_id cmd)"
  let ?db2 = "db\<lparr>db_runs := db_runs db @ [?run],
      db_events := db_events db @ [event_row_of (run_created_event ctx cmd input now)],
      db_outbox := db_outbox db @ [outbox_row_of (run_created_event ctx cmd input now)]\<rparr>"
  let ?rest = "thenT (insert_plan_revision ext (cc_tenant_id ctx) (crn_run_id cmd) 1 None now ctx
        (crn_initial_plan_revision cmd))
    (thenT (insert_context_snapshot ext (cc_tenant_id ctx) (crn_run_id cmd) 1 None now ctx
        (crn_initial_context cmd)) (insert_checkpoint checkpoint))"
  from assms obtain db3 where fresh: "\<forall>q \<in> set (db_runs db). r_id q \<noteq> crn_run_id cmd"
    and rest: "?rest ?db2 = Inr ((), db3)"
    and pass: "updates_pass run_checks ?P (run_initialized cmd) (db_runs db3)"
    and db': "db' = db3\<lparr>db_runs := sql_update ?P (run_initialized cmd) (db_runs db3)\<rparr>"
    by (auto simp: insert_created_run_def Let_def txn_iffs insert_run_def sql_exists_iff new_run_row_def)
  have "keeps (\<lambda>d. (db_runs d, db_events d, db_outbox d, db_tasks d, db_receipts d, db_deps d)) ?rest"
    by (intro keeps_intros) simp_all
  from keepsD [OF this rest] have db3: "db_runs db3 = db_runs db @ [?run]"
      "db_events db3 = db_events db @ [event_row_of (run_created_event ctx cmd input now)]"
      "db_outbox db3 = db_outbox db @ [outbox_row_of (run_created_event ctx cmd input now)]"
      "db_tasks db3 = db_tasks db" "db_receipts db3 = db_receipts db" "db_deps db3 = db_deps db"
    by simp_all
  have new: "?P ?run" by (simp add: run_of_def new_run_row_def)
  have "sql_update ?P (run_initialized cmd) (db_runs db) = db_runs db"
    using fresh by (intro sql_update_id) (auto simp: run_of_def)
  then have "db_runs db' = db_runs db @ [created_row ctx cmd now input]"
    using new by (simp add: db' db3 created_row_def sql_update_def)
  moreover have "run_checks (created_row ctx cmd now input)"
    using updates_passD [OF pass, of ?run] new by (simp add: db3 created_row_def)
  ultimately show ?thesis
    using fresh by (intro that) (simp_all add: db' db3)
qed

lemma insert_created_run_spawns:
  assumes "insert_created_run ext ctx cmd now input checkpoint db = Inr (u, db')"
  shows "spawns db db'"
  using assms
proof (rule insert_created_run_effect)
  assume "\<forall>q \<in> set (db_runs db). r_id q \<noteq> crn_run_id cmd"
    "db_runs db' = db_runs db @ [created_row ctx cmd now input]"
    "run_checks (created_row ctx cmd now input)"
    "db_events db' = db_events db @ [event_row_of (run_created_event ctx cmd input now)]"
    "db_outbox db' = db_outbox db @ [outbox_row_of (run_created_event ctx cmd input now)]"
  then show ?thesis
    unfolding spawns_def
    by (intro exI [of _ "created_row ctx cmd now input"] exI [of _ "run_created_event ctx cmd input now"])
      simp
qed

lemma keeps_schedule_checks [keeps_intros]:
  "keeps g (check_replay_source tenant run source)" "keeps g (check_schedule tenant cmd)"
  by (auto simp: keeps_def check_replay_source_def check_schedule_def txn_iffs split: option.splits)

lemma check_schedule_kept: "check_schedule tenant cmd db = Inr (x, db') \<Longrightarrow> db' = db"
  using keepsD [OF keeps_schedule_checks(2) [where g = "\<lambda>d. d"]] by blast

lemma check_replay_kept: "check_replay_source tenant run source db = Inr (u, db') \<Longrightarrow> db' = db"
  using keepsD [OF keeps_schedule_checks(1) [where g = "\<lambda>d. d"]] by blast

lemma create_run_cases:
  assumes "create_run ext ttl ctx cmd now db = Inr (c, db')"
  obtains (replayed) "db' = db" and "disposition c = Duplicate"
    | (fired) rs where "db' = db\<lparr>db_receipts := rs\<rparr>" and "disposition c = Duplicate"
    | (created) rs input state where "validate_create_run ext cmd = Inr ()"
      and "check_schedule (cc_tenant_id ctx) cmd (db\<lparr>db_receipts := rs\<rparr>)
         = Inr (None, db\<lparr>db_receipts := rs\<rparr>)"
      and "insert_new_run ext ctx cmd now input (checkpoint_row_of (cc_tenant_id ctx) (crn_run_id cmd)
         (crn_initial_event_id cmd) now (crn_initial_checkpoint cmd)
         (int (nc_sequence (crn_initial_checkpoint cmd)))
         (int (nc_execution_generation (crn_initial_checkpoint cmd))) state)
         (db\<lparr>db_receipts := rs\<rparr>) = Inr (c, db')"
proof -
  from assms have valid: "validate_create_run ext cmd = Inr ()"
    by (auto simp: create_run_def Let_def txn_iffs)
  from assms show thesis
    unfolding create_run_def Let_def
    apply (clarsimp simp: txn_iffs)
    apply (erule with_receipt_cases)
     apply (rule replayed; clarsimp simp: duplicate_run_def bindR_Inr_iff)
    apply (clarsimp simp: txn_iffs dest!: check_replay_kept)
    subgoal for input state existing db1
      apply (frule check_schedule_kept)
      apply (cases existing; clarsimp)
       apply (rule created; simp add: valid)
      apply (clarsimp simp: already_fired_def txn_iffs)
      apply (erule finish_receipt_frame)
      apply (rule fired; simp)
      done
    done
qed

lemma insert_new_run_effect:
  assumes "insert_new_run ext ctx cmd now input checkpoint db = Inr (c, db')"
  obtains db1 db2 db3 rs where "link_parent ctx cmd now db = Inr ((), db1)"
    and "insert_created_run ext ctx cmd now input checkpoint db1 = Inr ((), db2)"
    and "insert_created_work ext ctx cmd now (c_seq checkpoint) db2 = Inr ((), db3)"
    and "db' = db3\<lparr>db_receipts := rs\<rparr>"
    and "c = committed_run Applied (created_snapshot ctx cmd now) (Some (crn_initial_event_id cmd))
       (map (\<lambda>t. FollowTask (it_task_id t))
          (filter (\<lambda>t. it_dependencies t = []) (crn_initial_tasks cmd)))"
  using assms unfolding insert_new_run_def
  by (auto simp: txn_iffs elim!: finish_receipt_frame intro: that)

text \<open>The tasks of the command become rows with distinct, fresh ids.\<close>

lemma insert_initial_tasks_effect:
  assumes "foldT (insert_initial_task ext tenant run event cs generation now) ts db = Inr (u, db')"
  shows "\<exists>inputs. length inputs = length ts
     \<and> db' = db\<lparr>db_tasks := db_tasks db @ map2 (initial_task_row tenant run event cs generation now) ts inputs\<rparr>
     \<and> distinct (map it_task_id ts) \<and> (\<forall>t \<in> set ts. \<forall>v \<in> set (db_tasks db). t_id v \<noteq> it_task_id t)"
  using assms
proof (induction ts arbitrary: db)
  case Nil
  then show ?case by (simp add: txn_iffs)
next
  case (Cons t ts)
  from Cons.prems obtain db1 where first: "insert_initial_task ext tenant run event cs generation now t db
      = Inr ((), db1)"
    and rest: "foldT (insert_initial_task ext tenant run event cs generation now) ts db1 = Inr (u, db')"
    by (auto simp: txn_iffs)
  from first obtain input where ins: "insert_task (initial_task_row tenant run event cs generation now t input)
      db = Inr ((), db1)"
    by (auto simp: insert_initial_task_def txn_iffs)
  from ins have db1: "db1 = db\<lparr>db_tasks := db_tasks db @ [initial_task_row tenant run event cs generation now t input]\<rparr>"
    and fresh: "\<forall>v \<in> set (db_tasks db). t_id v \<noteq> it_task_id t"
    by (auto elim!: insert_task_effect)
  from Cons.IH [OF rest] obtain inputs where "length inputs = length ts"
      "db' = db1\<lparr>db_tasks := db_tasks db1 @ map2 (initial_task_row tenant run event cs generation now) ts inputs\<rparr>"
      "distinct (map it_task_id ts)" "\<forall>t \<in> set ts. \<forall>v \<in> set (db_tasks db1). t_id v \<noteq> it_task_id t"
    by blast
  with fresh show ?case
    by (intro exI [of _ "input # inputs"]) (auto simp: db1)
qed

text \<open>The dependencies of the command become rows, in order.\<close>

definition dependency_key :: "dependency_row \<Rightarrow> uuid \<times> uuid \<times> uuid \<times> uuid" where
  "dependency_key d = (d_tenant d, d_run d, d_task d, d_prerequisite d)"

definition dependency_keys :: "uuid \<Rightarrow> uuid \<Rightarrow> initial_task \<Rightarrow> (uuid \<times> uuid \<times> uuid \<times> uuid) list" where
  "dependency_keys tenant run t = map (\<lambda>p. (tenant, run, it_task_id t, p)) (prerequisite_ids t)"

lemma insert_dependencies_effect:
  assumes "insert_initial_task_dependencies ext tenant run event now t db = Inr (u, db')"
  shows "map dependency_key (db_deps db') = map dependency_key (db_deps db) @ dependency_keys tenant run t"
proof -
  have "map dependency_key (db_deps db') = map dependency_key (db_deps db)
      @ map (\<lambda>d. (tenant, run, it_task_id t, id_prerequisite_task_id d)) ds"
    if "foldT (\<lambda>d. bindT (liftT (json_value ext (id_condition d))) (\<lambda>condition.
        insert_dependency (dependency_row_of tenant run event now t (id_prerequisite_task_id d) condition)))
      ds db = Inr (u, db')" for ds db
    using that
    by (induction ds arbitrary: db)
      (fastforce simp: txn_iffs insert_dependency_def dependency_row_of_def dependency_key_def)+
  from this [OF assms [unfolded insert_initial_task_dependencies_def]]
  show ?thesis by (simp add: dependency_keys_def prerequisite_ids_def comp_def)
qed

lemma insert_context_ref_deps:
  "insert_task_context_reference ext tenant run event context_id now t db = Inr (u, db')
     \<Longrightarrow> db_deps db' = db_deps db"
  using keepsD [OF keeps_create_work(5) [where g = db_deps]] by auto

lemma insert_created_work_deps:
  assumes "foldT (\<lambda>t. thenT (insert_initial_task_dependencies ext tenant run event now t)
      (insert_task_context_reference ext tenant run event context_id now t)) ts db = Inr (u, db')"
  shows "map dependency_key (db_deps db')
    = map dependency_key (db_deps db) @ concat (map (dependency_keys tenant run) ts)"
  using assms
proof (induction ts arbitrary: db)
  case (Cons t ts)
  then obtain db1 db2 where steps: "insert_initial_task_dependencies ext tenant run event now t db = Inr ((), db1)"
      "insert_task_context_reference ext tenant run event context_id now t db1 = Inr ((), db2)"
    and rest: "foldT (\<lambda>t. thenT (insert_initial_task_dependencies ext tenant run event now t)
      (insert_task_context_reference ext tenant run event context_id now t)) ts db2 = Inr (u, db')"
    by (auto simp: txn_iffs)
  show ?case
    using Cons.IH [OF rest] insert_dependencies_effect [OF steps(1)] insert_context_ref_deps [OF steps(2)]
    by simp
qed (simp add: txn_iffs)

lemma insert_created_work_effect:
  assumes "insert_created_work ext ctx cmd now cs db = Inr (u, db')"
  obtains inputs where "length inputs = length (crn_initial_tasks cmd)"
    and "db_tasks db' = db_tasks db @ map2 (initial_task_row (cc_tenant_id ctx) (crn_run_id cmd)
        (crn_initial_event_id cmd) cs 0 now) (crn_initial_tasks cmd) inputs"
    and "distinct (map it_task_id (crn_initial_tasks cmd))"
    and "\<forall>t \<in> set (crn_initial_tasks cmd). \<forall>v \<in> set (db_tasks db). t_id v \<noteq> it_task_id t"
    and "map dependency_key (db_deps db') = map dependency_key (db_deps db)
        @ concat (map (dependency_keys (cc_tenant_id ctx) (crn_run_id cmd)) (crn_initial_tasks cmd))"
    and "db_runs db' = db_runs db" and "db_events db' = db_events db" and "db_outbox db' = db_outbox db"
proof -
  let ?refs = "foldT (\<lambda>t. thenT (insert_initial_task_dependencies ext (cc_tenant_id ctx) (crn_run_id cmd)
        (crn_initial_event_id cmd) now t)
      (insert_task_context_reference ext (cc_tenant_id ctx) (crn_run_id cmd) (crn_initial_event_id cmd)
        (ns_context_snapshot_id (crn_initial_context cmd)) now t)) (crn_initial_tasks cmd)"
  let ?stages = "foldT (insert_initial_stage ext (cc_tenant_id ctx) (crn_run_id cmd) now)
      (crn_initial_stages cmd)"
  from assms obtain db1 db2 where stages: "?stages db = Inr ((), db1)"
    and tasks: "foldT (insert_initial_task ext (cc_tenant_id ctx) (crn_run_id cmd)
        (crn_initial_event_id cmd) cs 0 now) (crn_initial_tasks cmd) db1 = Inr ((), db2)"
    and refs: "?refs db2 = Inr (u, db')"
    by (auto simp: insert_created_work_def Let_def txn_iffs)
  have "keeps (\<lambda>d. (db_tasks d, db_deps d, db_runs d, db_events d, db_outbox d)) ?stages"
    by (intro keeps_intros) simp_all
  from keepsD [OF this stages] have s: "db_tasks db1 = db_tasks db" "db_deps db1 = db_deps db"
      "db_runs db1 = db_runs db" "db_events db1 = db_events db" "db_outbox db1 = db_outbox db" by simp_all
  have "keeps (\<lambda>d. (db_tasks d, db_runs d, db_events d, db_outbox d)) ?refs"
    by (intro keeps_intros) simp_all
  from keepsD [OF this refs] have r: "db_tasks db' = db_tasks db2" "db_runs db' = db_runs db2"
      "db_events db' = db_events db2" "db_outbox db' = db_outbox db2" by simp_all
  from insert_initial_tasks_effect [OF tasks] obtain inputs where
      "length inputs = length (crn_initial_tasks cmd)"
      "db2 = db1\<lparr>db_tasks := db_tasks db1 @ map2 (initial_task_row (cc_tenant_id ctx) (crn_run_id cmd)
        (crn_initial_event_id cmd) cs 0 now) (crn_initial_tasks cmd) inputs\<rparr>"
      "distinct (map it_task_id (crn_initial_tasks cmd))"
      "\<forall>t \<in> set (crn_initial_tasks cmd). \<forall>v \<in> set (db_tasks db1). t_id v \<noteq> it_task_id t"
    by blast
  then show ?thesis
    using insert_created_work_deps [OF refs] by (intro that [of inputs]) (simp_all add: s r)
qed

lemma insert_new_run_evolves:
  assumes "insert_new_run ext ctx cmd now input checkpoint db = Inr (c, db')" and "run_keys_ok db"
  shows "evolves db db'"
  using assms(1)
proof (rule insert_new_run_effect)
  fix db1 db2 db3 rs
  assume link: "link_parent ctx cmd now db = Inr ((), db1)"
    and new: "insert_created_run ext ctx cmd now input checkpoint db1 = Inr ((), db2)"
    and work: "insert_created_work ext ctx cmd now (c_seq checkpoint) db2 = Inr ((), db3)"
    and db': "db' = db3\<lparr>db_receipts := rs\<rparr>"
  have "evolves db db1"
    using link assms(2) by (cases rule: link_parent_effect) (auto intro: evolves_advance evolves_same)
  moreover have "evolves db1 db2" using insert_created_run_spawns [OF new] by (rule evolves_spawn)
  moreover have "evolves db2 db'"
    using work by (rule insert_created_work_effect) (simp add: db' evolves_same)
  ultimately show ?thesis by (blast intro: evolves_trans)
qed

lemma map_t_id_initial:
  "length inputs = length ts
   \<Longrightarrow> map t_id (map2 (initial_task_row tenant run event cs g now) ts inputs) = map it_task_id ts"
  by (induction ts inputs rule: list_induct2') auto

lemma insert_new_run_keys:
  assumes "insert_new_run ext ctx cmd now input checkpoint db = Inr (c, db')" and "run_keys_ok db"
    and "task_keys_ok db"
  shows "task_keys_ok db'"
  using assms(1)
proof (rule insert_new_run_effect)
  fix db1 db2 db3 rs
  assume link: "link_parent ctx cmd now db = Inr ((), db1)"
    and new: "insert_created_run ext ctx cmd now input checkpoint db1 = Inr ((), db2)"
    and work: "insert_created_work ext ctx cmd now (c_seq checkpoint) db2 = Inr ((), db3)"
    and db': "db' = db3\<lparr>db_receipts := rs\<rparr>"
  have same: "map t_id (sql_update P (suspended_task now) ts) = map t_id ts" for P ts
    by (induction ts) (auto simp: suspended_task_def)
  have "task_keys_ok db1"
    using link assms(2)
    by (cases rule: link_parent_effect) (use assms(3) in \<open>simp_all add: task_keys_ok_def same\<close>)
  moreover have "db_tasks db2 = db_tasks db1" using new by (rule insert_created_run_effect)
  ultimately show ?thesis
    using work
    by (elim insert_created_work_effect)
      (auto simp: db' task_keys_ok_def map_t_id_initial simp del: map_map)
qed

lemma create_run_evolves:
  assumes "run_keys_ok db" and "create_run ext ttl ctx cmd now db = Inr (c, db')"
  shows "evolves db db'"
  using assms(2)
proof (cases rule: create_run_cases)
  case (created rs input state)
  have "evolves db (db\<lparr>db_receipts := rs\<rparr>)" by (rule evolves_same) simp_all
  moreover have "evolves (db\<lparr>db_receipts := rs\<rparr>) db'"
    using assms(1) by (intro insert_new_run_evolves [OF created(3)]) (simp add: run_keys_ok_def)
  ultimately show ?thesis by (rule evolves_trans)
qed (simp_all add: evolves_same)

lemma create_run_keys:
  assumes "run_keys_ok db" and "task_keys_ok db" and "create_run ext ttl ctx cmd now db = Inr (c, db')"
  shows "task_keys_ok db'"
  using assms(3)
proof (cases rule: create_run_cases)
  case (created rs input state)
  show ?thesis
    by (rule insert_new_run_keys [OF created(3)]) (use assms in \<open>simp_all add: run_keys_ok_def task_keys_ok_def\<close>)
qed (use assms in \<open>simp_all add: task_keys_ok_def\<close>)

interpretation create_cmd: store_command
  "\<lambda>(ext, ttl, ctx, cmd, now). create_run ext ttl ctx cmd now"
  by unfold_locales
     (auto dest: create_run_evolves [OF runs_ok_keys [OF store_okD(1)]]
        create_run_keys [OF runs_ok_keys [OF store_okD(1)] store_okD(2)])

section \<open>What creation does\<close>

text \<open>The tasks of the command as they are inserted.\<close>

definition created_tasks ::
  "command_context \<Rightarrow> create_run_command \<Rightarrow> micros \<Rightarrow> json list \<Rightarrow> task_row list" where
  "created_tasks ctx cmd now inputs =
     map2 (initial_task_row (cc_tenant_id ctx) (crn_run_id cmd) (crn_initial_event_id cmd)
        (int (nc_sequence (crn_initial_checkpoint cmd))) 0 now) (crn_initial_tasks cmd) inputs"

text \<open>A task of the parent run that the command names as its fan-in task.\<close>

definition fan_in_task :: "create_run_command \<Rightarrow> task_row \<Rightarrow> bool" where
  "fan_in_task cmd t \<longleftrightarrow> crn_parent_run_id cmd = Some (t_run t) \<and> crn_parent_task_id cmd = Some (t_id t)"

lemma create_run_applied:
  assumes "ledger_ok db" and "create_run ext ttl ctx cmd now db = Inr (c, db')"
    and "disposition c = Applied"
  obtains input inputs P where "validate_create_run ext cmd = Inr ()"
    and "\<forall>q \<in> set (db_runs db). r_id q \<noteq> crn_run_id cmd"
    and "created_row ctx cmd now input \<in> set (db_runs db')"
    and "run_log (created_row ctx cmd now input) db' = [event_row_of (run_created_event ctx cmd input now)]"
    and "length inputs = length (crn_initial_tasks cmd)"
    and "distinct (map it_task_id (crn_initial_tasks cmd))"
    and "db_tasks db' = sql_update P (suspended_task now) (db_tasks db) @ created_tasks ctx cmd now inputs"
    and "\<forall>t. P t \<longrightarrow> fan_in_task cmd t"
    and "map dependency_key (db_deps db') = map dependency_key (db_deps db)
        @ concat (map (dependency_keys (cc_tenant_id ctx) (crn_run_id cmd)) (crn_initial_tasks cmd))"
    and "committed_value c = created_snapshot ctx cmd now"
    and "durable_follow_ups c = map (\<lambda>t. FollowTask (it_task_id t))
        (filter (\<lambda>t. it_dependencies t = []) (crn_initial_tasks cmd))"
  using assms(2)
proof (cases rule: create_run_cases)
  case (created rs input state)
  let ?row = "created_row ctx cmd now input"
  let ?db0 = "db\<lparr>db_receipts := rs\<rparr>"
  have ledger: "ledger_ok ?db0" by (rule still_ledger [OF assms(1)]) (simp add: still_def)
  then have keys: "run_keys_ok ?db0" by (simp add: ledger_ok_def)
  from created(3) show ?thesis
  proof (rule insert_new_run_effect)
    fix db1 db2 db3 rs'
    assume link: "link_parent ctx cmd now ?db0 = Inr ((), db1)"
      and new: "insert_created_run ext ctx cmd now input (checkpoint_row_of (cc_tenant_id ctx)
         (crn_run_id cmd) (crn_initial_event_id cmd) now (crn_initial_checkpoint cmd)
         (int (nc_sequence (crn_initial_checkpoint cmd)))
         (int (nc_execution_generation (crn_initial_checkpoint cmd))) state) db1 = Inr ((), db2)"
      and work: "insert_created_work ext ctx cmd now (c_seq (checkpoint_row_of (cc_tenant_id ctx)
         (crn_run_id cmd) (crn_initial_event_id cmd) now (crn_initial_checkpoint cmd)
         (int (nc_sequence (crn_initial_checkpoint cmd)))
         (int (nc_execution_generation (crn_initial_checkpoint cmd))) state)) db2 = Inr ((), db3)"
      and db': "db' = db3\<lparr>db_receipts := rs'\<rparr>"
      and c: "c = committed_run Applied (created_snapshot ctx cmd now) (Some (crn_initial_event_id cmd))
       (map (\<lambda>t. FollowTask (it_task_id t))
          (filter (\<lambda>t. it_dependencies t = []) (crn_initial_tasks cmd)))"
    have "\<exists>P. evolves ?db0 db1 \<and> db_deps db1 = db_deps db \<and> map r_id (db_runs db1) = map r_id (db_runs db)
        \<and> db_tasks db1 = sql_update P (suspended_task now) (db_tasks db) \<and> (\<forall>t. P t \<longrightarrow> fan_in_task cmd t)"
      using link keys
    proof (cases rule: link_parent_effect)
      case root
      then show ?thesis
        by (intro exI [of _ "\<lambda>_. False"]) (simp add: evolves_same sql_update_def)
    next
      case (child parent P)
      then have "map r_id (db_runs db1) = map r_id (db_runs db)"
        by (auto simp: advances_def map_r_id_update)
      with child show ?thesis
        by (intro exI [of _ P]) (auto simp: fan_in_task_def intro: evolves_advance)
    qed
    then obtain P where linked: "evolves ?db0 db1" "db_deps db1 = db_deps db"
        "map r_id (db_runs db1) = map r_id (db_runs db)"
        "db_tasks db1 = sql_update P (suspended_task now) (db_tasks db)" "\<forall>t. P t \<longrightarrow> fan_in_task cmd t"
      by blast
    have ledger1: "ledger_ok db1" by (rule evolves_ledger [OF linked(1) ledger])
    from new show ?thesis
    proof (rule insert_created_run_effect)
      assume row: "\<forall>q \<in> set (db_runs db1). r_id q \<noteq> crn_run_id cmd"
          "db_runs db2 = db_runs db1 @ [?row]"
          "db_events db2 = db_events db1 @ [event_row_of (run_created_event ctx cmd input now)]"
          "db_tasks db2 = db_tasks db1" "db_deps db2 = db_deps db1"
      have "\<not> event_of_run ?row d" if "d \<in> set (db_events db1)" for d
        using ledger1 row(1) that by (force simp: ledger_ok_def events_owned_def event_of_run_def)
      then have log: "run_log ?row db2 = [event_row_of (run_created_event ctx cmd input now)]"
        by (simp add: run_log_def row(3) filter_empty_conv)
      have fresh: "\<forall>q \<in> set (db_runs db). r_id q \<noteq> crn_run_id cmd"
        using row(1) linked(3) by (metis (no_types, lifting) imageE imageI set_map)
      from work show ?thesis
        by (rule insert_created_work_effect)
          (rule that [of input _ P],
           use created(1) fresh row log linked in
             \<open>simp_all add: db' c created_tasks_def run_log_def checkpoint_row_of_def committed_run_def\<close>)
    qed
  qed
qed (use assms(3) in simp_all)

lemma validate_create_run_graph:
  assumes "validate_create_run ext cmd = Inr ()"
  shows "\<not> initial_task_dependencies_have_cycle (crn_initial_tasks cmd)"
    and "\<forall>t \<in> set (crn_initial_tasks cmd). \<forall>p \<in> set (prerequisite_ids t).
           p \<in> it_task_id ` set (crn_initial_tasks cmd)"
proof -
  from assms have "\<not> initial_task_dependencies_have_cycle (crn_initial_tasks cmd)
     \<and> \<not> list_ex (invalid_initial_task (crn_initial_stages cmd) (crn_initial_tasks cmd)) (crn_initial_tasks cmd)"
    unfolding validate_create_run_def Let_def by (simp add: bindR_Inr_iff split: if_splits)
  then show "\<not> initial_task_dependencies_have_cycle (crn_initial_tasks cmd)"
    and "\<forall>t \<in> set (crn_initial_tasks cmd). \<forall>p \<in> set (prerequisite_ids t).
           p \<in> it_task_id ` set (crn_initial_tasks cmd)"
    by (auto simp: list_ex_iff invalid_initial_task_def prerequisite_ids_def) (metis imageI)
qed

text \<open>
  C13: a run that is created is new; it is queued at version 0 and generation 0 with its first
  checkpoint, plan revision and context revision, its log is the one event that created it, its
  tasks are the tasks of the command with a row for each of their dependencies, and of the rows
  that were there only the fan-in task of the parent changes. The ledger of the store is kept.
\<close>

theorem create_run_creates_run:
  assumes "ledger_ok db" and "create_run ext ttl ctx cmd now db = Inr (c, db')"
    and "disposition c = Applied"
  shows "\<exists>r input inputs P. r \<in> set (db_runs db') \<and> (\<forall>q \<in> set (db_runs db). r_id q \<noteq> r_id r)
     \<and> r_id r = crn_run_id cmd \<and> r_status r = RunQueued \<and> r_version r = 0 \<and> r_generation r = 0
     \<and> r_checkpoint r = Some (nc_checkpoint_id (crn_initial_checkpoint cmd))
     \<and> snd (r_plan_revision r) = 1 \<and> snd (r_context_revision r) = 1
     \<and> run_log r db' = [event_row_of (run_created_event ctx cmd input now)]
     \<and> length inputs = length (crn_initial_tasks cmd)
     \<and> db_tasks db' = sql_update P (suspended_task now) (db_tasks db) @ created_tasks ctx cmd now inputs
     \<and> (\<forall>t. P t \<longrightarrow> fan_in_task cmd t)
     \<and> map dependency_key (db_deps db') = map dependency_key (db_deps db)
        @ concat (map (dependency_keys (cc_tenant_id ctx) (crn_run_id cmd)) (crn_initial_tasks cmd))
     \<and> ledger_ok db'"
proof -
  have "ledger_ok db'"
    by (rule evolves_ledger [OF create_run_evolves [OF _ assms(2)] assms(1)])
      (use assms(1) in \<open>simp add: ledger_ok_def\<close>)
  show ?thesis
    by (rule create_run_applied [OF assms], rule exI, intro exI conjI, assumption)
      (use \<open>ledger_ok db'\<close> in simp_all)
qed

text \<open>
  A run that is created with tasks can start: one of its tasks is queued, and it is among the
  follow-ups of the answer, so no accepted graph of initial tasks waits on itself.
\<close>

theorem created_run_can_start:
  assumes "ledger_ok db" and "create_run ext ttl ctx cmd now db = Inr (c, db')"
    and "disposition c = Applied" and "crn_initial_tasks cmd \<noteq> []"
  shows "\<exists>t \<in> set (db_tasks db'). t_run t = crn_run_id cmd \<and> t_status t = TaskQueued
     \<and> FollowTask (t_id t) \<in> set (durable_follow_ups c)"
  using assms(1-3)
proof (rule create_run_applied)
  fix inputs P
  assume valid: "validate_create_run ext cmd = Inr ()"
    and len: "length inputs = length (crn_initial_tasks cmd)"
    and dist: "distinct (map it_task_id (crn_initial_tasks cmd))"
    and tasks: "db_tasks db' = sql_update P (suspended_task now) (db_tasks db) @ created_tasks ctx cmd now inputs"
    and follow: "durable_follow_ups c = map (\<lambda>t. FollowTask (it_task_id t))
        (filter (\<lambda>t. it_dependencies t = []) (crn_initial_tasks cmd))"
  note graph = validate_create_run_graph [OF valid]
  obtain t where t: "t \<in> set (crn_initial_tasks cmd)"
      "\<forall>p \<in> set (prerequisite_ids t). p \<notin> it_task_id ` set (crn_initial_tasks cmd)"
    using acyclic_tasks_can_progress [OF dist graph subset_refl] assms(4) by auto
  then have start: "it_dependencies t = []"
    using graph(2) by (force simp: prerequisite_ids_def)
  from t(1) len obtain input where "(t, input) \<in> set (zip (crn_initial_tasks cmd) inputs)"
    by (metis in_set_impl_in_set_zip1)
  then have "initial_task_row (cc_tenant_id ctx) (crn_run_id cmd) (crn_initial_event_id cmd)
      (int (nc_sequence (crn_initial_checkpoint cmd))) 0 now t input \<in> set (created_tasks ctx cmd now inputs)"
    by (force simp: created_tasks_def)
  then show ?thesis
    using t(1) start by (intro bexI) (auto simp: tasks follow)
qed

text \<open>
  C14: a schedule fires a run once for each of its times: a run that is created for a schedule
  finds it active and with the workflow version of the run, no run was created for that time
  before, and when the schedule forbids overlapping runs none of its runs was still active.
\<close>

theorem scheduled_run_fires_once:
  assumes "ledger_ok db" and "create_run ext ttl ctx cmd now db = Inr (c, db')"
    and "disposition c = Applied" and "crn_schedule_id cmd = Some z"
  shows "\<exists>s fire_at. s \<in> set (db_schedules db) \<and> z_id s = z \<and> z_status s = ScheduleActive
     \<and> Some (z_workflow_version s) = crn_workflow_version_id cmd
     \<and> crn_scheduled_fire_at cmd = Some fire_at
     \<and> (\<forall>r \<in> set (db_runs db). \<not> fired_run (cc_tenant_id ctx) z fire_at r)
     \<and> (\<exists>r \<in> set (db_runs db'). fired_run (cc_tenant_id ctx) z fire_at r \<and> r_id r = crn_run_id cmd)
     \<and> (z_concurrency s = ConcurrencyForbid
          \<longrightarrow> (\<forall>r \<in> set (db_runs db). \<not> active_scheduled_run (cc_tenant_id ctx) z r))"
proof -
  from assms(1-3) obtain input where row: "created_row ctx cmd now input \<in> set (db_runs db')"
    by (rule create_run_applied)
  from assms(2) show ?thesis
  proof (cases rule: create_run_cases)
    case (created rs input' state)
    then show ?thesis
      using assms(4) row
      by (auto simp: check_schedule_def txn_iffs ok_or_Inr_iff find_None_ball sql_exists_iff fired_run_def
          dest!: find_Some_in split: option.splits intro!: bexI [OF _ row] exI)
  qed (use assms(3) in simp_all)
qed

definition sample_schedule :: schedule_row where
  "sample_schedule = \<lparr> z_id = 80, z_tenant = 7, z_workflow_version = 81, z_cron = ''* * * * *'',
     z_timezone = ''UTC'', z_input = JObject [], z_status = ScheduleActive, z_misfire = MisfireFireOnce,
     z_concurrency = ConcurrencyForbid, z_catch_up_limit = 1, z_next_fire_at = 100,
     z_last_fire_at = None, z_version = 0, z_created_by = ''u'', z_created_at = 10,
     z_updated_at = 10 \<rparr>"

text \<open>Third-party functions that also parse the empty array.\<close>

definition sample_create_ext :: externals where
  "sample_create_ext = sample_ext\<lparr>ext_from_slice := (\<lambda>s. if s = ''{}'' then Some (JObject [])
     else if s = ''[]'' then Some (JArray []) else None)\<rparr>"

definition sample_create :: create_run_command where
  "sample_create = \<lparr> crn_run_id = 90, crn_replay_of_run_id = None, crn_parent_run_id = None,
     crn_parent_task_id = None, crn_parent_event_id = None, crn_schedule_id = Some 80,
     crn_scheduled_fire_at = Some 100, crn_workflow_version_id = Some 81,
     crn_coordinator_agent_version_id = None, crn_input = ''{}'', crn_deadline = None,
     crn_initial_event_id = 91,
     crn_initial_plan_revision = \<lparr> np_plan_revision_id = 92, np_schema_version = 1,
       np_plan_key = ''p'', np_plan = ''{}'', np_plan_digest = 0, np_change_summary = ''{}'',
       np_created_event_id = 91 \<rparr>,
     crn_initial_context = \<lparr> ns_context_snapshot_id = 93, ns_schema_version = 1, ns_value = ''{}'',
       ns_digest = 0, ns_created_event_id = 91 \<rparr>,
     crn_initial_checkpoint = \<lparr> nc_checkpoint_id = 94, nc_sequence = 1, nc_schema_version = 1,
       nc_workflow_version_id = Some 81, nc_coordinator_agent_version_id = None,
       nc_execution_generation = 0, nc_state = ''{}'', nc_state_digest = 0,
       nc_created_event_id = 91 \<rparr>,
     crn_initial_stages = [],
     crn_initial_tasks = [(sample_initial_task 95 [96])\<lparr>it_logical_key := ''c''\<rparr>,
       sample_initial_task 96 []] \<rparr>"

definition sample_schedule_db :: db where
  "sample_schedule_db = sample_db\<lparr>db_schedules := [sample_schedule]\<rparr>"

lemmas create_eval = create_run_def validate_create_run_def check_replay_source_def check_schedule_def
  link_parent_def insert_new_run_def insert_created_run_def insert_created_work_def
  create_row_defs create_work_defs insert_checkpoint_def insert_task_def insert_row_def
  run_exists_def event_exists_def task_exists_def plan_exists_def context_exists_def stage_exists_def
  new_run_row_def run_created_event_def plan_row_of_def context_row_of_def checkpoint_row_of_def
  initial_task_row_def dependency_row_of_def run_initialized_def run_of_def fired_run_def
  active_scheduled_run_def dependency_condition_shape_is_valid_def initial_task_dependencies_have_cycle_def
  prerequisite_ids_def find_initial_task_def invalid_initial_task_def json_value_def payload_bytes_def
  created_snapshot_def exec_update_eval json_get_def get_str_def get_object_def

lemma sample_create_applies:
  "\<exists>c db'. create_run sample_create_ext 1000 (sample_context 73 ''f1'') sample_create 110
     sample_schedule_db = Inr (c, db') \<and> disposition c = Applied"
  by (simp add: sample_create_def sample_schedule_db_def sample_schedule_def sample_create_ext_def
      sample_initial_task_def sample_defs status_sets create_eval txn_eval)

lemma sample_schedule_ledger: "ledger_ok sample_schedule_db"
proof -
  have "runs_ok sample_schedule_db"
    by (simp add: sample_schedule_db_def sample_defs runs_ok_def run_keys_ok_def run_checks_def
        revision_checks_def status_sets)
  moreover have "log_ok sample_schedule_db"
    by (simp add: sample_schedule_db_def sample_defs log_ok_def run_log_def event_of_run_def)
  moreover have "events_owned sample_schedule_db"
    by (simp add: sample_schedule_db_def sample_defs events_owned_def event_of_run_def)
  moreover have "outbox_matches sample_schedule_db"
    by (simp add: sample_schedule_db_def sample_defs outbox_matches_def outbox_key_def event_key_def)
  ultimately show ?thesis by (simp add: ledger_ok_def)
qed

lemma create_run_creates_run_witness:
  "\<exists>c db'. create_run sample_create_ext 1000 (sample_context 73 ''f1'') sample_create 110
       sample_schedule_db = Inr (c, db')
     \<and> (\<exists>r \<in> set (db_runs db'). r_id r = 90 \<and> r_version r = 0 \<and> length (run_log r db') = 1)
     \<and> ledger_ok db'"
proof -
  from sample_create_applies obtain c db' where run: "create_run sample_create_ext 1000
      (sample_context 73 ''f1'') sample_create 110 sample_schedule_db = Inr (c, db')"
    and d: "disposition c = Applied" by blast
  from create_run_creates_run [OF sample_schedule_ledger run d] obtain r input where
      "r \<in> set (db_runs db')" "r_id r = crn_run_id sample_create" "r_version r = 0"
      "run_log r db' = [event_row_of (run_created_event (sample_context 73 ''f1'') sample_create input 110)]"
      "ledger_ok db'"
    by (elim exE conjE) (rule that)
  then show ?thesis
    using run by (intro exI [of _ c] exI [of _ db'] conjI bexI [of _ r]) (simp_all add: sample_create_def)
qed

lemma created_run_can_start_witness:
  "\<exists>c db'. create_run sample_create_ext 1000 (sample_context 73 ''f1'') sample_create 110
       sample_schedule_db = Inr (c, db')
     \<and> (\<exists>t \<in> set (db_tasks db'). t_run t = 90 \<and> t_status t = TaskQueued)"
proof -
  from sample_create_applies obtain c db' where run: "create_run sample_create_ext 1000
      (sample_context 73 ''f1'') sample_create 110 sample_schedule_db = Inr (c, db')"
    and d: "disposition c = Applied" by blast
  have "crn_initial_tasks sample_create \<noteq> []" by (simp add: sample_create_def)
  from created_run_can_start [OF sample_schedule_ledger run d this] show ?thesis
    using run by (auto simp: sample_create_def)
qed

lemma scheduled_run_fires_once_witness:
  "\<exists>c db'. create_run sample_create_ext 1000 (sample_context 73 ''f1'') sample_create 110
       sample_schedule_db = Inr (c, db')
     \<and> (\<exists>r \<in> set (db_runs db'). fired_run 7 80 100 r)"
proof -
  from sample_create_applies obtain c db' where run: "create_run sample_create_ext 1000
      (sample_context 73 ''f1'') sample_create 110 sample_schedule_db = Inr (c, db')"
    and d: "disposition c = Applied" by blast
  have z: "crn_schedule_id sample_create = Some 80" and f: "crn_scheduled_fire_at sample_create = Some 100"
    by (simp_all add: sample_create_def)
  from scheduled_run_fires_once [OF sample_schedule_ledger run d z] f obtain r where
      "r \<in> set (db_runs db')" "fired_run (cc_tenant_id (sample_context 73 ''f1'')) 80 100 r"
    by auto
  then show ?thesis
    using run by (intro exI [of _ c] exI [of _ db'] conjI bexI [of _ r]) (simp_all add: sample_context_def)
qed

end
