(* ===== verification/ChildJoin.thy ===== *)
theory ChildJoin
  imports CreateRun
begin

text \<open>
  The fan-in of child runs: \<open>EvaluateChildRunJoin\<close> (\<open>durable-store/src/command.rs\<close>) and
  \<open>evaluate_child_run_join\<close> of \<open>transaction_executor.rs\<close>. Proved: the fan-in task is queued exactly
  when its join policy is met by the terminal child runs, and nothing else of the work changes.
  The first section has the lemma that shows a command advances the run it updates; the commands
  on plans and contexts use it too.
\<close>

section \<open>Advancing the locked run\<close>

definition locked_run_of :: "uuid \<Rightarrow> uuid \<Rightarrow> string \<Rightarrow> run_row txn" where
  "locked_run_of tenant run message = (\<lambda>db. liftT (ok_or (find_run tenant run db)
     (store_error_of NotFound message)) db)"

lemma locked_run_of_iff [txn_iffs]:
  "locked_run_of tenant run message db = Inr (r, db') \<longleftrightarrow> find_run tenant run db = Some r \<and> db' = db"
  by (simp add: locked_run_of_def txn_iffs ok_or_Inr_iff)

lemma keeps_locked_run [keeps_intros]: "keeps g (locked_run_of tenant run message)"
  by (auto simp: keeps_def txn_iffs)

lemma advances_by_update:
  assumes "runs_ok db" and "run \<in> set (db_runs db)" and "\<not> run_terminal (r_status run)"
    and "P run" and "\<And>q. P q \<Longrightarrow> same_run run q"
    and "updates_pass run_checks P f (db_runs db)"
    and "same_run run (f run)" and "r_version (f run) = r_version run + 1"
    and "r_next_seq (f run) = r_next_seq run + 1" and "r_generation run \<le> r_generation (f run)"
    and "db_runs db' = sql_update P f (db_runs db)"
    and "db_events db' = db_events db @ [event_row_of e]"
    and "db_outbox db' = db_outbox db @ [outbox_row_of e]"
    and "ei_tenant_id e = r_tenant run" and "ei_run_id e = r_id run" and "ei_sequence e = r_next_seq run"
  shows "advances db db'"
proof -
  have "sql_update P f (db_runs db) = sql_update (same_run run) (\<lambda>_. f run) (db_runs db)"
    by (rule sql_update_one_run [where P = P, OF runs_ok_keys [OF assms(1)] assms(2,4,5)])
  moreover have "run_checks (f run)" using updates_passD [OF assms(6,2,4)] .
  ultimately show ?thesis
    unfolding advances_def using assms
    by (intro exI [of _ run] exI [of _ "f run"] exI [of _ e]) simp
qed

section \<open>The command\<close>

record evaluate_child_run_join_command =
  ecj_expected_run :: expected_run
  ecj_task_id :: uuid
  ecj_join_policy :: join_policy
  ecj_event_id :: uuid

definition child_run :: "uuid \<Rightarrow> uuid \<Rightarrow> uuid \<Rightarrow> run_row \<Rightarrow> bool" where
  "child_run tenant run task r \<longleftrightarrow>
     r_tenant r = tenant \<and> r_parent_run r = Some run \<and> r_parent_task r = Some task"

text \<open>\<open>count(*)\<close> and \<open>count(*) FILTER\<close> of the child runs.\<close>

definition child_counts :: "uuid \<Rightarrow> uuid \<Rightarrow> uuid \<Rightarrow> db \<Rightarrow> nat \<times> nat" where
  "child_counts tenant run task db =
     (sql_count (child_run tenant run task) (db_runs db),
      sql_count (\<lambda>r. child_run tenant run task r \<and> run_terminal (r_status r)) (db_runs db))"

definition join_satisfied :: "join_policy \<Rightarrow> nat \<Rightarrow> nat \<Rightarrow> bool" where
  "join_satisfied policy children ended = (case policy of
      JoinAll \<Rightarrow> ended = children
    | JoinAny \<Rightarrow> ended > 0)"

definition expectation_broken :: "expected_run \<Rightarrow> run_snapshot \<Rightarrow> bool" where
  "expectation_broken expected snapshot \<longleftrightarrow>
     (case er_version expected of None \<Rightarrow> False | Some v \<Rightarrow> v \<noteq> rs_version snapshot)
     \<or> (case er_execution_generation expected of
          None \<Rightarrow> False | Some g \<Rightarrow> g \<noteq> rs_execution_generation snapshot)"

definition join_event ::
  "command_context \<Rightarrow> evaluate_child_run_join_command \<Rightarrow> int \<Rightarrow> nat \<Rightarrow> nat \<Rightarrow> micros \<Rightarrow> event_insert" where
  "join_event ctx cmd sequence children ended now =
    \<lparr> ei_event_id = ecj_event_id cmd, ei_tenant_id = cc_tenant_id ctx,
      ei_run_id = er_run_id (ecj_expected_run cmd), ei_sequence = sequence,
      ei_event_type = ''run.child_join_satisfied'',
      ei_payload = JObject [(''task_id'', JString (id_text (ecj_task_id cmd))),
        (''join_policy'', JString (case ecj_join_policy cmd of JoinAll \<Rightarrow> ''all'' | JoinAny \<Rightarrow> ''any'')),
        (''child_count'', JInt (int children)), (''terminal_child_count'', JInt (int ended))],
      ei_payload_schema_version = 1, ei_producer = ''control-plane'', ei_context = ctx,
      ei_correlation_id = cc_correlation_id ctx, ei_occurred_at = None, ei_recorded_at = now \<rparr>"

lemma join_event_sel [simp]:
  "ei_tenant_id (join_event ctx cmd n a b now) = cc_tenant_id ctx"
  "ei_run_id (join_event ctx cmd n a b now) = er_run_id (ecj_expected_run cmd)"
  "ei_sequence (join_event ctx cmd n a b now) = n"
  "ei_event_id (join_event ctx cmd n a b now) = ecj_event_id cmd"
  by (simp_all add: join_event_def)

definition fan_in_queued :: "micros \<Rightarrow> task_row \<Rightarrow> task_row" where
  "fan_in_queued now t = t\<lparr>t_status := TaskQueued, t_available_at := now, t_updated_at := now\<rparr>"

definition run_advanced :: "int \<Rightarrow> int \<Rightarrow> micros \<Rightarrow> run_row \<Rightarrow> run_row" where
  "run_advanced version next_seq now r =
     r\<lparr>r_version := version, r_next_seq := next_seq, r_updated_at := now\<rparr>"

definition advanced_snapshot :: "run_snapshot \<Rightarrow> nat \<Rightarrow> nat \<Rightarrow> micros \<Rightarrow> run_snapshot" where
  "advanced_snapshot snapshot version sequence now = snapshot\<lparr>rs_version := version,
     rs_next_event_sequence := sequence, rs_updated_at := now\<rparr>"

definition queue_fan_in_task ::
  "command_context \<Rightarrow> evaluate_child_run_join_command \<Rightarrow> micros \<Rightarrow> run_row \<Rightarrow> run_snapshot \<Rightarrow> nat \<times> nat
   \<Rightarrow> run_snapshot committed txn" where
  "queue_fan_in_task ctx cmd now run snapshot counts =
    (let tenant = cc_tenant_id ctx; run_id = er_run_id (ecj_expected_run cmd);
         task_id = ecj_task_id cmd in
    thenT (exec_update (update_tasks
             (\<lambda>t. task_in_run tenant run_id task_id t \<and> t_status t = TaskScheduled) (fan_in_queued now)))
    (thenT (insert_event (join_event ctx cmd (r_next_seq run) (fst counts) (snd counts) now))
    (bindT (liftT (checked_add_i64_or (r_version run) 1 (inconsistent ''run version overflow'')))
      (\<lambda>next_version.
    bindT (liftT (checked_add_i64_or (r_next_seq run) 1 (inconsistent ''run event sequence overflow'')))
      (\<lambda>next_seq.
    thenT (exec_update (update_runs (run_of tenant run_id) (run_advanced next_version next_seq now)))
    (bindT (liftT (nonnegative_u64 next_version ''run version'')) (\<lambda>version.
    bindT (liftT (nonnegative_u64 next_seq ''event sequence'')) (\<lambda>sequence.
    let after = advanced_snapshot snapshot version sequence now in
    thenT (finish_receipt ctx ReceiptApplied (encode_run_receipt after) (Some (ecj_event_id cmd))
             (Some (''task'', task_id, next_version)))
    (returnT (committed_run Applied after (Some (ecj_event_id cmd)) [FollowTask task_id]))))))))))"

definition join_locked_run ::
  "command_context \<Rightarrow> evaluate_child_run_join_command \<Rightarrow> micros \<Rightarrow> run_row \<Rightarrow> run_snapshot
   \<Rightarrow> run_snapshot committed txn" where
  "join_locked_run ctx cmd now run snapshot =
    (let tenant = cc_tenant_id ctx; run_id = er_run_id (ecj_expected_run cmd);
         task_id = ecj_task_id cmd in
    bindT (\<lambda>db. liftT (ok_or (find (task_in_run tenant run_id task_id) (db_tasks db))
             (store_error_of NotFound ''fan-in Task was not found'')) db) (\<lambda>task.
    thenT (guardT (t_generation task = r_generation run)
             (store_error_of VersionConflict ''fan-in Task generation changed''))
    (bindT (queryT (child_counts tenant run_id task_id)) (\<lambda>counts.
    thenT (guardT (fst counts \<noteq> 0)
             (store_error_of InvalidTransition ''fan-in Task has no Child Runs''))
    (if \<not> join_satisfied (ecj_join_policy cmd) (fst counts) (snd counts) \<or> t_status task = TaskQueued
     then thenT (finish_receipt ctx ReceiptNoOp (encode_run_receipt snapshot) None None)
            (returnT (committed_run NoOp snapshot None []))
     else thenT (guardT (t_status task = TaskScheduled)
                  (store_error_of InvalidTransition ''fan-in Task is not waiting for Child Runs''))
            (queue_fan_in_task ctx cmd now run snapshot counts))))))"

definition evaluate_child_run_join ::
  "nat \<Rightarrow> command_context \<Rightarrow> evaluate_child_run_join_command \<Rightarrow> micros \<Rightarrow> run_snapshot committed txn" where
  "evaluate_child_run_join ttl ctx cmd now =
    thenT (guardT (ecj_task_id cmd \<noteq> 0 \<and> ecj_event_id cmd \<noteq> 0)
             (invalid_command ''Child Run join shape is invalid''))
    (with_receipt ctx now ttl (duplicate_run ctx)
      (bindT (locked_run_of (cc_tenant_id ctx) (er_run_id (ecj_expected_run cmd))
                ''parent Run was not found'') (\<lambda>run.
      bindT (liftT (decode_control_run run)) (\<lambda>snapshot.
      thenT (guardT (\<not> run_terminal (rs_status snapshot))
               (store_error_of TerminalRun ''parent Run is terminal''))
      (thenT (guardT (\<not> expectation_broken (ecj_expected_run cmd) snapshot)
               (store_error_of VersionConflict ''parent Run expectation changed''))
      (join_locked_run ctx cmd now run snapshot))))))"

abbreviation fan_in_counts ::
  "command_context \<Rightarrow> evaluate_child_run_join_command \<Rightarrow> db \<Rightarrow> nat \<times> nat" where
  "fan_in_counts ctx cmd db \<equiv>
     child_counts (cc_tenant_id ctx) (er_run_id (ecj_expected_run cmd)) (ecj_task_id cmd) db"

lemma child_counts_receipts [simp]:
  "child_counts tenant run task (db\<lparr>db_receipts := rs\<rparr>) = child_counts tenant run task db"
  by (simp add: child_counts_def)

section \<open>Effects\<close>

lemma queue_fan_in_effect:
  assumes "queue_fan_in_task ctx cmd now run (run_snapshot_of run) counts db = Inr (c, db')"
  obtains rs where
    "db_runs db' = sql_update (run_of (cc_tenant_id ctx) (er_run_id (ecj_expected_run cmd)))
       (run_advanced (r_version run + 1) (r_next_seq run + 1) now) (db_runs db)"
    and "updates_pass run_checks (run_of (cc_tenant_id ctx) (er_run_id (ecj_expected_run cmd)))
       (run_advanced (r_version run + 1) (r_next_seq run + 1) now) (db_runs db)"
    and "db_events db' = db_events db
       @ [event_row_of (join_event ctx cmd (r_next_seq run) (fst counts) (snd counts) now)]"
    and "db_outbox db' = db_outbox db
       @ [outbox_row_of (join_event ctx cmd (r_next_seq run) (fst counts) (snd counts) now)]"
    and "db_tasks db' = sql_update
       (\<lambda>t. task_in_run (cc_tenant_id ctx) (er_run_id (ecj_expected_run cmd)) (ecj_task_id cmd) t
          \<and> t_status t = TaskScheduled) (fan_in_queued now) (db_tasks db)"
    and "disposition c = Applied"
    and "committed_value c = advanced_snapshot (run_snapshot_of run)
       (nat (r_version run + 1)) (nat (r_next_seq run + 1)) now"
    and "durable_follow_ups c = [FollowTask (ecj_task_id cmd)]"
  using assms unfolding queue_fan_in_task_def Let_def
  apply (clarsimp simp: txn_iffs)
  apply (erule finish_receipt_frame)
  apply (rule that)
  apply (simp_all add: add.commute committed_run_def nat_eq_iff)
  done

lemma evaluate_child_run_join_cases:
  assumes "evaluate_child_run_join ttl ctx cmd now db = Inr (c, db')"
  obtains (replayed) outcome event where "db' = db" and "duplicate_run ctx outcome event = Inr c"
    | (no_op) run task rs where "db' = db\<lparr>db_receipts := rs\<rparr>" and "disposition c = NoOp"
        and "find_run (cc_tenant_id ctx) (er_run_id (ecj_expected_run cmd)) db = Some run"
        and "find (task_in_run (cc_tenant_id ctx) (er_run_id (ecj_expected_run cmd)) (ecj_task_id cmd))
             (db_tasks db) = Some task"
        and "committed_value c = run_snapshot_of run"
        and "fst (fan_in_counts ctx cmd db) \<noteq> 0"
        and "t_status task = TaskQueued \<or> \<not> join_satisfied (ecj_join_policy cmd)
          (fst (fan_in_counts ctx cmd db))
          (snd (fan_in_counts ctx cmd db))"
    | (queued) run task rs where
        "find_run (cc_tenant_id ctx) (er_run_id (ecj_expected_run cmd)) db = Some run"
        and "\<not> run_terminal (r_status run)"
        and "find (task_in_run (cc_tenant_id ctx) (er_run_id (ecj_expected_run cmd)) (ecj_task_id cmd))
             (db_tasks db) = Some task"
        and "t_generation task = r_generation run" and "t_status task = TaskScheduled"
        and "fst (fan_in_counts ctx cmd db) \<noteq> 0"
        and "join_satisfied (ecj_join_policy cmd)
          (fst (fan_in_counts ctx cmd db))
          (snd (fan_in_counts ctx cmd db))"
        and "queue_fan_in_task ctx cmd now run (run_snapshot_of run)
          (fan_in_counts ctx cmd db)
          (db\<lparr>db_receipts := rs\<rparr>) = Inr (c, db')"
proof -
  from assms have "with_receipt ctx now ttl (duplicate_run ctx)
      (bindT (locked_run_of (cc_tenant_id ctx) (er_run_id (ecj_expected_run cmd))
                ''parent Run was not found'') (\<lambda>run.
      bindT (liftT (decode_control_run run)) (\<lambda>snapshot.
      thenT (guardT (\<not> run_terminal (rs_status snapshot))
               (store_error_of TerminalRun ''parent Run is terminal''))
      (thenT (guardT (\<not> expectation_broken (ecj_expected_run cmd) snapshot)
               (store_error_of VersionConflict ''parent Run expectation changed''))
      (join_locked_run ctx cmd now run snapshot))))) db = Inr (c, db')"
    by (auto simp: evaluate_child_run_join_def txn_iffs)
  then show thesis
  proof (cases rule: with_receipt_cases)
    case replayed
    then show ?thesis using that(1) by blast
  next
    case fresh
    let ?db1 = "db\<lparr>db_receipts := db_receipts db @ [new_receipt ctx now (int ttl)]\<rparr>"
    from fresh(2) obtain run where run: "find_run (cc_tenant_id ctx) (er_run_id (ecj_expected_run cmd)) db = Some run"
      and live: "\<not> run_terminal (r_status run)"
      and rest: "join_locked_run ctx cmd now run (run_snapshot_of run) ?db1 = Inr (c, db')"
      by (auto simp: txn_iffs decode_control_run_Inr find_run_def)
    from rest obtain task where task: "find (task_in_run (cc_tenant_id ctx)
          (er_run_id (ecj_expected_run cmd)) (ecj_task_id cmd)) (db_tasks db) = Some task"
      and generation: "t_generation task = r_generation run"
      and children: "fst (fan_in_counts ctx cmd ?db1) \<noteq> 0"
      and step1: "(if \<not> join_satisfied (ecj_join_policy cmd) (fst (fan_in_counts ctx cmd ?db1))
              (snd (fan_in_counts ctx cmd ?db1)) \<or> t_status task = TaskQueued
         then thenT (finish_receipt ctx ReceiptNoOp (encode_run_receipt (run_snapshot_of run)) None None)
            (returnT (committed_run NoOp (run_snapshot_of run) None []))
         else thenT (guardT (t_status task = TaskScheduled)
                  (store_error_of InvalidTransition ''fan-in Task is not waiting for Child Runs''))
            (queue_fan_in_task ctx cmd now run (run_snapshot_of run) (fan_in_counts ctx cmd ?db1))) ?db1
         = Inr (c, db')"
      by (auto simp: join_locked_run_def Let_def txn_iffs ok_or_Inr_iff)
    note step = step1 [unfolded child_counts_receipts]
    show ?thesis
    proof (cases "\<not> join_satisfied (ecj_join_policy cmd) (fst (fan_in_counts ctx cmd db))
        (snd (fan_in_counts ctx cmd db)) \<or> t_status task = TaskQueued")
      case True
      have "thenT (finish_receipt ctx ReceiptNoOp (encode_run_receipt (run_snapshot_of run))
          None None) (returnT (committed_run NoOp (run_snapshot_of run) None [])) ?db1 = Inr (c, db')"
        using step by (subst (asm) if_P [OF True])
      then show ?thesis
        using run task True children [unfolded child_counts_receipts]
        by (auto simp: txn_iffs elim!: finish_receipt_frame intro: that(2))
    next
      case False
      then show ?thesis
        using step by (intro that(3) [OF run live task generation _ children [unfolded child_counts_receipts]]) (auto simp: txn_iffs)
    qed
  qed
qed

lemma evaluate_child_run_join_effect:
  assumes "runs_ok db" and "evaluate_child_run_join ttl ctx cmd now db = Inr (c, db')"
  shows "quiet db db' \<or> advances db db'"
  using assms(2)
proof (cases rule: evaluate_child_run_join_cases)
  case (queued run task rs)
  from find_run_Some [OF queued(1)]
  have run: "run \<in> set (db_runs db)" "r_tenant run = cc_tenant_id ctx"
      "r_id run = er_run_id (ecj_expected_run cmd)"
    by simp_all
  from queued(8) have "advances db db'"
  proof (rule queue_fan_in_effect)
    let ?f = "run_advanced (r_version run + 1) (r_next_seq run + 1) now"
    let ?P = "run_of (cc_tenant_id ctx) (er_run_id (ecj_expected_run cmd))"
    let ?e = "join_event ctx cmd (r_next_seq run) (fst (fan_in_counts ctx cmd db))
        (snd (fan_in_counts ctx cmd db)) now"
    assume "db_runs db' = sql_update ?P ?f (db_runs (db\<lparr>db_receipts := rs\<rparr>))"
      and "updates_pass run_checks ?P ?f (db_runs (db\<lparr>db_receipts := rs\<rparr>))"
      and "db_events db' = db_events (db\<lparr>db_receipts := rs\<rparr>)
       @ [event_row_of ?e]"
      and "db_outbox db' = db_outbox (db\<lparr>db_receipts := rs\<rparr>)
       @ [outbox_row_of ?e]"
    then show "advances db db'"
      using run by (intro advances_by_update [where P = ?P and f = ?f and e = ?e, OF assms(1) run(1) queued(2)])
        (simp_all add: run_of_def same_run_def run_advanced_def)
  qed
  then show ?thesis ..
qed (simp_all add: quiet_def)

lemma evaluate_child_run_join_keys:
  assumes "task_keys_ok db" and "evaluate_child_run_join ttl ctx cmd now db = Inr (c, db')"
  shows "task_keys_ok db'"
  using assms(2)
proof (cases rule: evaluate_child_run_join_cases)
  case (queued run task rs)
  from queued(8) show ?thesis
    by (rule queue_fan_in_effect)
       (use assms(1) in \<open>simp add: task_keys_ok_def map_sql_update_same fan_in_queued_def\<close>)
qed (use assms(1) in \<open>simp_all add: task_keys_ok_def\<close>)

interpretation join_cmd: run_command
  "\<lambda>(ttl, ctx, cmd, now). evaluate_child_run_join ttl ctx cmd now"
  by unfold_locales
     (auto dest: evaluate_child_run_join_effect [OF store_okD(1)] evaluate_child_run_join_keys [OF store_okD(2)])


section \<open>The fan-in task is queued when its children have ended\<close>

lemma sql_count_all_iff:
  "sql_count (\<lambda>r. P r \<and> Q r) rows = sql_count P rows \<longleftrightarrow> (\<forall>r \<in> set rows. P r \<longrightarrow> Q r)"
proof (induction rows)
  case (Cons r rows)
  have "sql_count (\<lambda>r. P r \<and> Q r) rows \<le> sql_count P rows"
    by (induction rows) (auto simp: sql_count_def)
  then show ?case using Cons by (auto simp: sql_count_def)
qed (simp add: sql_count_def)

definition children_ended :: "join_policy \<Rightarrow> (run_row \<Rightarrow> bool) \<Rightarrow> db \<Rightarrow> bool" where
  "children_ended policy child db \<longleftrightarrow> (\<exists>r \<in> set (db_runs db). child r) \<and> (case policy of
      JoinAll \<Rightarrow> \<forall>r \<in> set (db_runs db). child r \<longrightarrow> run_terminal (r_status r)
    | JoinAny \<Rightarrow> \<exists>r \<in> set (db_runs db). child r \<and> run_terminal (r_status r))"

lemma join_satisfied_iff:
  "fst (child_counts tenant run task db) \<noteq> 0 \<Longrightarrow>
   join_satisfied policy (fst (child_counts tenant run task db)) (snd (child_counts tenant run task db))
   \<longleftrightarrow> children_ended policy (child_run tenant run task) db"
  unfolding join_satisfied_def children_ended_def child_counts_def fst_conv snd_conv
  using sql_count_pos [of "child_run tenant run task" "db_runs db"]
  by (cases policy)
     (simp_all add: sql_count_all_iff sql_count_pos [symmetric, where P = "\<lambda>r. _ r \<and> _ r", simplified])

text \<open>
  C18: when the join of the child runs of a fan-in task is evaluated and applied, the parent run is
  not terminal, the task was scheduled under its current generation, and its children have ended
  as the join policy asks: all of them, or one of them. The task is queued, due now, and no other
  task, wait, stage or attempt changes. When it is answered as a no-op, the task is already queued
  or its children have not ended, and only the receipts change.
\<close>

theorem evaluate_child_run_join_queues_fan_in:
  assumes "store_ok db" and "evaluate_child_run_join ttl ctx cmd now db = Inr (c, db')"
    and "child = child_run (cc_tenant_id ctx) (er_run_id (ecj_expected_run cmd)) (ecj_task_id cmd)"
  shows "(disposition c = Applied \<longrightarrow> (\<exists>run \<in> set (db_runs db). \<exists>task \<in> set (db_tasks db).
      r_id run = er_run_id (ecj_expected_run cmd) \<and> \<not> run_terminal (r_status run)
      \<and> t_id task = ecj_task_id cmd \<and> t_run task = r_id run \<and> t_status task = TaskScheduled
      \<and> t_generation task = r_generation run \<and> children_ended (ecj_join_policy cmd) child db
      \<and> db_tasks db' = map (\<lambda>t. if t = task then fan_in_queued now task else t) (db_tasks db)
      \<and> (db_waits db', db_stages db', db_attempts db', db_deps db')
          = (db_waits db, db_stages db, db_attempts db, db_deps db)
      \<and> durable_follow_ups c = [FollowTask (t_id task)]))
   \<and> (disposition c = NoOp \<longrightarrow> (\<exists>rs. db' = db\<lparr>db_receipts := rs\<rparr>)
      \<and> (\<exists>task \<in> set (db_tasks db). t_id task = ecj_task_id cmd
           \<and> (t_status task = TaskQueued \<or> \<not> children_ended (ecj_join_policy cmd) child db)))"
  using assms(2)
proof (cases rule: evaluate_child_run_join_cases)
  case (replayed outcome event)
  then have "disposition c = Duplicate" by (auto simp: duplicate_run_def result_iffs)
  then show ?thesis by simp
next
  case (no_op run task rs)
  have "t_status task = TaskQueued \<or> \<not> children_ended (ecj_join_policy cmd) child db"
    using join_satisfied_iff [OF no_op(6)] no_op(7) assms(3) by blast
  with no_op(1,2) find_Some_in [OF no_op(4)] show ?thesis
    by (auto simp: task_in_run_def intro!: bexI [of _ task])
next
  case (queued run task rs)
  from find_Some_in [OF queued(3)]
  have task: "task \<in> set (db_tasks db)" "task_in_run (cc_tenant_id ctx) (er_run_id (ecj_expected_run cmd))
      (ecj_task_id cmd) task" by auto
  let ?P = "\<lambda>t. task_in_run (cc_tenant_id ctx) (er_run_id (ecj_expected_run cmd)) (ecj_task_id cmd) t
      \<and> t_status t = TaskScheduled"
  have "sql_update ?P (fan_in_queued now) (db_tasks db)
      = map (\<lambda>t. if t = task then fan_in_queued now task else t) (db_tasks db)"
    by (rule sql_update_one_task [where P = ?P])
       (use assms(1) task queued(5) in \<open>auto simp: store_ok_def task_in_run_def\<close>)
  with queued(8) have applied: "disposition c = Applied"
      "durable_follow_ups c = [FollowTask (ecj_task_id cmd)]"
      "db_tasks db' = map (\<lambda>t. if t = task then fan_in_queued now task else t) (db_tasks db)"
    by (auto elim!: queue_fan_in_effect)
  have "keeps (\<lambda>d. (db_waits d, db_stages d, db_attempts d, db_deps d))
      (queue_fan_in_task ctx cmd now run (run_snapshot_of run) (fan_in_counts ctx cmd db))"
    unfolding queue_fan_in_task_def Let_def by (intro keeps_intros) simp_all
  from keepsD [OF this queued(8)]
  have frame: "(db_waits db', db_stages db', db_attempts db', db_deps db')
      = (db_waits db, db_stages db, db_attempts db, db_deps db)" by simp
  have "children_ended (ecj_join_policy cmd) child db"
    using join_satisfied_iff [OF queued(6)] queued(7) assms(3) by blast
  moreover have "run \<in> set (db_runs db)" "r_id run = er_run_id (ecj_expected_run cmd)"
    using find_run_Some [OF queued(1)] by simp_all
  ultimately show ?thesis
    unfolding applied frame using task queued(2,4,5)
    by (intro conjI impI bexI [of _ run] bexI [of _ task]) (simp_all add: task_in_run_def)
qed

text \<open>A run with one child that has ended, and its fan-in task.\<close>

definition sample_join :: evaluate_child_run_join_command where
  "sample_join = \<lparr> ecj_expected_run = sample_expected, ecj_task_id = 3, ecj_join_policy = JoinAll,
     ecj_event_id = 45 \<rparr>"

definition sample_join_db :: db where
  "sample_join_db = sample_db\<lparr>db_runs := [sample_run, sample_run\<lparr>r_id := 5, r_parent_run := Some 1,
     r_parent_task := Some 3, r_status := RunCompleted, r_terminal_event := Some 48,
     r_terminal_at := Some 20\<rparr>]\<rparr>"

theorem evaluate_child_run_join_queues_fan_in_witness:
  "\<exists>c db'. evaluate_child_run_join 1000 (sample_context 74 ''j1'') sample_join 110 sample_join_db = Inr (c, db')
     \<and> (\<exists>run \<in> set (db_runs sample_join_db). r_id run = 1
          \<and> children_ended JoinAll (child_run 7 1 3) sample_join_db)"
proof -
  have "\<exists>c db'. evaluate_child_run_join 1000 (sample_context 74 ''j1'') sample_join 110 sample_join_db
      = Inr (c, db') \<and> disposition c = Applied"
    by (simp add: sample_join_def sample_join_db_def sample_defs status_sets evaluate_child_run_join_def
        locked_run_of_def decode_control_run_def expectation_broken_def join_locked_run_def child_counts_def
        child_run_def join_satisfied_def sql_count_def queue_fan_in_task_def fan_in_queued_def
        task_in_run_def run_of_def run_advanced_def join_event_def advanced_snapshot_def Let_def exec_update_eval txn_eval)
  then obtain c db' where run: "evaluate_child_run_join 1000 (sample_context 74 ''j1'') sample_join 110
      sample_join_db = Inr (c, db')" and "disposition c = Applied" by blast
  moreover have "store_ok sample_join_db"
    by (simp add: sample_join_db_def sample_defs store_ok_def runs_ok_def run_keys_ok_def run_checks_def
        revision_checks_def task_keys_ok_def status_sets)
  ultimately have "\<exists>run \<in> set (db_runs sample_join_db). r_id run = 1
      \<and> children_ended JoinAll (child_run 7 1 3) sample_join_db"
    using evaluate_child_run_join_queues_fan_in [OF _ run refl]
    by (auto simp: sample_join_def sample_context_def sample_expected_def)
  with run show ?thesis by blast
qed

end
