(* ===== verification/PlanRevision.thy ===== *)
theory PlanRevision
  imports ChildJoin
begin

text \<open>
  Revising the plan of a run: \<open>RevisePlan\<close> (\<open>durable-store/src/command.rs\<close>), \<open>validate_plan_revision\<close>,
  \<open>validate_plan_expectations\<close> and \<open>revise_plan\<close> of \<open>transaction_executor.rs\<close>. Proved: a revision
  follows the current one, is appended under its parent with its tasks and their dependencies, and
  leaves the tasks the run had as they were but for scheduled ones it settles.
\<close>

section \<open>The command\<close>

record revise_plan_command =
  rpc_expected_run :: expected_run
  rpc_expected_plan_revision :: nat
  rpc_event_id :: uuid
  rpc_revision :: new_plan_revision
  rpc_new_tasks :: "initial_task list"

text \<open>The checks of a new task and of its dependencies, in the order they are made.\<close>

fun check_revised_dependencies ::
  "externals \<Rightarrow> uuid \<Rightarrow> initial_task_dependency list \<Rightarrow> unit store_result" where
  "check_revised_dependencies ext task [] = Inr ()"
| "check_revised_dependencies ext task (d # ds) =
     bindR (json_value ext (id_condition d)) (\<lambda>condition.
     if id_prerequisite_task_id d = task \<or> \<not> dependency_condition_shape_is_valid condition
     then Inl (invalid_command ''revised Task dependency is invalid'')
     else check_revised_dependencies ext task ds)"

fun check_revised_tasks :: "externals \<Rightarrow> initial_task list \<Rightarrow> unit store_result" where
  "check_revised_tasks ext [] = Inr ()"
| "check_revised_tasks ext (t # ts) =
     (if it_task_id t = 0 \<or> it_max_attempts t = 0
      then Inl (invalid_command ''revised Task shape is invalid'')
      else bindR (check_revised_dependencies ext (it_task_id t) (it_dependencies t)) (\<lambda>_.
        check_revised_tasks ext ts))"

definition revised_tasks_clash :: "initial_task \<Rightarrow> initial_task \<Rightarrow> bool" where
  "revised_tasks_clash t other \<longleftrightarrow>
     it_task_id other = it_task_id t \<or> it_logical_key other = it_logical_key t"

definition validate_plan_revision :: "externals \<Rightarrow> revise_plan_command \<Rightarrow> unit store_result" where
  "validate_plan_revision ext cmd =
    (let revision = rpc_revision cmd; tasks = rpc_new_tasks cmd in
     if rpc_expected_plan_revision cmd = 0
        \<or> rpc_event_id cmd = 0
        \<or> np_plan_revision_id revision = 0
        \<or> np_created_event_id revision \<noteq> rpc_event_id cmd
        \<or> np_schema_version revision = 0
        \<or> ext_sha256 ext (payload_bytes (np_plan revision)) \<noteq> np_plan_digest revision
     then Inl (invalid_command ''Plan revision shape is invalid'')
     else bindR (json_value ext (np_plan revision)) (\<lambda>_.
       bindR (json_value ext (np_change_summary revision)) (\<lambda>_.
       bindR (check_revised_tasks ext tasks) (\<lambda>_.
       if any_clash revised_tasks_clash tasks
          \<or> list_ex (\<lambda>t. any_clash (\<lambda>d other. id_prerequisite_task_id other = id_prerequisite_task_id d)
              (it_dependencies t)) tasks
          \<or> initial_task_dependencies_have_cycle tasks
       then Inl (invalid_command ''revised Task graph is invalid'')
       else Inr ()))))"

definition validate_plan_expectations ::
  "revise_plan_command \<Rightarrow> run_snapshot \<Rightarrow> int \<Rightarrow> unit store_result" where
  "validate_plan_expectations cmd snapshot current_plan_revision =
    bindR (to_i64 (rpc_expected_plan_revision cmd) ''expected Plan revision'') (\<lambda>expected.
    if expectation_broken (rpc_expected_run cmd) snapshot \<or> expected \<noteq> current_plan_revision
    then Inl (store_error_of VersionConflict ''run or Plan revision expectation changed'')
    else Inr ())"

section \<open>The event\<close>

text \<open>\<open>Value::get\<close> of a member.\<close>

definition value_get :: "json \<Rightarrow> string \<Rightarrow> json option" where
  "value_get v k = Option.bind (as_object v) (\<lambda>ms. json_get ms k)"

definition revision_kind :: "json \<Rightarrow> string option" where
  "revision_kind summary = (case Option.bind (value_get summary ''kind'') as_str of
      Some k \<Rightarrow> Some k
    | None \<Rightarrow> Option.bind (value_get summary ''requested'') (\<lambda>requested.
        Option.bind (value_get requested ''kind'') as_str))"

definition revision_event_type :: "json \<Rightarrow> string" where
  "revision_event_type summary =
    (if revision_kind summary = Some ''handoff'' then ''run.handoff_requested''
     else if revision_kind summary = Some ''compensation'' then ''run.compensation_requested''
     else ''run.plan_revised'')"

definition plan_revised_event ::
  "command_context \<Rightarrow> revise_plan_command \<Rightarrow> uuid \<Rightarrow> json \<Rightarrow> int \<Rightarrow> micros \<Rightarrow> event_insert" where
  "plan_revised_event ctx cmd parent summary sequence now =
    \<lparr> ei_event_id = rpc_event_id cmd, ei_tenant_id = cc_tenant_id ctx,
      ei_run_id = er_run_id (rpc_expected_run cmd), ei_sequence = sequence,
      ei_event_type = revision_event_type summary,
      ei_payload = JObject
       [(''plan_revision_id'', JString (id_text (np_plan_revision_id (rpc_revision cmd)))),
        (''parent_plan_revision_id'', JString (id_text parent)),
        (''base_revision'', JInt (int (rpc_expected_plan_revision cmd))),
        (''revision'', JInt (int (rpc_expected_plan_revision cmd) + 1)),
        (''schema_version'', JInt (int (np_schema_version (rpc_revision cmd)))),
        (''plan_key'', JString (np_plan_key (rpc_revision cmd))),
        (''change_summary'', summary),
        (''added_tasks'', JArray (map (\<lambda>t. JString (it_logical_key t)) (rpc_new_tasks cmd)))],
      ei_payload_schema_version = 1, ei_producer = ''control-plane'', ei_context = ctx,
      ei_correlation_id = cc_correlation_id ctx, ei_occurred_at = None, ei_recorded_at = now \<rparr>"

lemma plan_revised_event_sel [simp]:
  "ei_tenant_id (plan_revised_event ctx cmd p s n now) = cc_tenant_id ctx"
  "ei_run_id (plan_revised_event ctx cmd p s n now) = er_run_id (rpc_expected_run cmd)"
  "ei_sequence (plan_revised_event ctx cmd p s n now) = n"
  "ei_event_id (plan_revised_event ctx cmd p s n now) = rpc_event_id cmd"
  by (simp_all add: plan_revised_event_def)

section \<open>The new tasks\<close>

text \<open>
  The tasks are inserted first, then their dependencies and context references. Reading the current
  context of a run that has none panics; the transaction is then dropped as an error drops it.
\<close>

definition null_context_panic :: store_error where
  "null_context_panic = inconsistent ''panic: current_context_snapshot_id is NULL''"

definition insert_revised_tasks ::
  "externals \<Rightarrow> uuid \<Rightarrow> uuid \<Rightarrow> uuid \<Rightarrow> int \<Rightarrow> run_row \<Rightarrow> micros \<Rightarrow> initial_task list \<Rightarrow> unit txn" where
  "insert_revised_tasks ext tenant run_id event checkpoint_sequence run now tasks =
    thenT (foldT (insert_initial_task ext tenant run_id event checkpoint_sequence (r_generation run) now) tasks)
    (foldT (\<lambda>t. thenT (insert_initial_task_dependencies ext tenant run_id event now t)
       (bindT (liftT (ok_or (fst (r_context_revision run)) null_context_panic)) (\<lambda>context_id.
        insert_task_context_reference ext tenant run_id event context_id now t))) tasks)"

text \<open>
  The prerequisites of the new tasks are settled one after the other. They are collected in a hash
  set, so their order, like that of the follow-ups, is the argument \<open>order\<close>.
\<close>

fun resolve_each :: "externals \<Rightarrow> uuid \<Rightarrow> uuid \<Rightarrow> micros \<Rightarrow> uuid list \<Rightarrow> uuid list \<Rightarrow> uuid list txn" where
  "resolve_each ext tenant run now [] activated = returnT activated"
| "resolve_each ext tenant run now (p # ps) activated =
     bindT (resolve_dependent_tasks ext tenant run p now) (\<lambda>more.
     resolve_each ext tenant run now ps (activated @ more))"

definition revised_prerequisites :: "initial_task list \<Rightarrow> uuid list" where
  "revised_prerequisites tasks =
     remdups (map id_prerequisite_task_id (concat (map it_dependencies tasks)))"

definition settle_revised_tasks ::
  "externals \<Rightarrow> (uuid list \<Rightarrow> uuid list) \<Rightarrow> uuid \<Rightarrow> uuid \<Rightarrow> micros \<Rightarrow> initial_task list \<Rightarrow> uuid list txn" where
  "settle_revised_tasks ext order tenant run now tasks =
    bindT (resolve_each ext tenant run now (order (revised_prerequisites tasks))
             (map it_task_id (filter (\<lambda>t. it_dependencies t = []) tasks))) (\<lambda>ids.
    returnT (order (remdups ids)))"

section \<open>The handler\<close>

definition run_revised :: "uuid \<Rightarrow> int \<Rightarrow> int \<Rightarrow> int \<Rightarrow> micros \<Rightarrow> run_row \<Rightarrow> run_row" where
  "run_revised plan revision version next_seq now r = r\<lparr>r_plan_revision := (Some plan, revision),
     r_version := version, r_next_seq := next_seq, r_updated_at := now\<rparr>"

definition revise_locked_plan ::
  "externals \<Rightarrow> (uuid list \<Rightarrow> uuid list) \<Rightarrow> command_context \<Rightarrow> revise_plan_command \<Rightarrow> micros \<Rightarrow> run_row
   \<Rightarrow> run_snapshot \<Rightarrow> run_snapshot committed txn" where
  "revise_locked_plan ext order ctx cmd now run snapshot =
    (let tenant = cc_tenant_id ctx; run_id = er_run_id (rpc_expected_run cmd);
         event_id = rpc_event_id cmd; plan_id = np_plan_revision_id (rpc_revision cmd) in
    bindT (liftT (ok_or (fst (r_plan_revision run)) (inconsistent ''run has no current Plan revision'')))
      (\<lambda>parent.
    bindT (liftT (ok_or (u64_checked_add (rpc_expected_plan_revision cmd) 1)
             (inconsistent ''Plan revision overflow''))) (\<lambda>next_revision.
    bindT (liftT (to_i64 next_revision ''Plan revision'')) (\<lambda>revision.
    bindT (liftT (json_value ext (np_change_summary (rpc_revision cmd)))) (\<lambda>summary.
    thenT (insert_event (plan_revised_event ctx cmd parent summary (r_next_seq run) now))
    (bindT (\<lambda>db. liftT (ok_or (Option.bind (r_checkpoint run) (\<lambda>c.
               map_option c_seq (find (\<lambda>k. c_tenant k = tenant \<and> c_run k = run_id \<and> c_id k = c)
                 (db_checkpoints db)))) (inconsistent ''run has no current Checkpoint'')) db)
      (\<lambda>checkpoint_sequence.
    thenT (insert_revised_tasks ext tenant run_id event_id checkpoint_sequence run now (rpc_new_tasks cmd))
    (bindT (settle_revised_tasks ext order tenant run_id now (rpc_new_tasks cmd)) (\<lambda>follow_ups.
    thenT (insert_plan_revision ext tenant run_id revision (Some parent) now ctx (rpc_revision cmd))
    (bindT (liftT (checked_add_i64_or (r_version run) 1 (inconsistent ''run version overflow'')))
      (\<lambda>next_version.
    bindT (liftT (checked_add_i64_or (r_next_seq run) 1 (inconsistent ''run event sequence overflow'')))
      (\<lambda>next_seq.
    bindT (liftT (to_i64 (rpc_expected_plan_revision cmd) ''expected Plan revision'')) (\<lambda>expected.
    bindT (update_runs (\<lambda>r. run_at tenant run_id (r_version run) (r_generation run) r
               \<and> r_plan_revision r = (Some parent, expected))
             (run_revised plan_id revision next_version next_seq now)) (\<lambda>updated.
    thenT (guardT (updated = 1) (store_error_of VersionConflict ''run or Plan revision changed''))
    (bindT (liftT (nonnegative_u64 next_version ''run version'')) (\<lambda>version.
    bindT (liftT (nonnegative_u64 next_seq ''event sequence'')) (\<lambda>sequence.
    let after = advanced_snapshot snapshot version sequence now in
    thenT (finish_receipt ctx ReceiptApplied (encode_run_receipt after) (Some event_id)
             (Some (''plan_revision'', plan_id, revision)))
    (returnT (committed_run Applied after (Some event_id) (map FollowTask follow_ups))))))))))))))))))))"

definition revise_plan ::
  "externals \<Rightarrow> (uuid list \<Rightarrow> uuid list) \<Rightarrow> nat \<Rightarrow> command_context \<Rightarrow> revise_plan_command \<Rightarrow> micros
   \<Rightarrow> run_snapshot committed txn" where
  "revise_plan ext order ttl ctx cmd now =
    thenT (liftT (validate_plan_revision ext cmd))
    (with_receipt ctx now ttl (duplicate_run ctx)
      (bindT (locked_run_of (cc_tenant_id ctx) (er_run_id (rpc_expected_run cmd)) ''run was not found'') (\<lambda>run.
      bindT (liftT (decode_control_run run)) (\<lambda>snapshot.
      thenT (guardT (\<not> run_terminal (rs_status snapshot)) (store_error_of TerminalRun ''run is terminal''))
      (thenT (liftT (validate_plan_expectations cmd snapshot (snd (r_plan_revision run))))
      (thenT (guardT (case rs_deadline snapshot of None \<Rightarrow> True | Some deadline \<Rightarrow> now < deadline)
               (store_error_of DeadlineExceeded ''run deadline has elapsed''))
      (revise_locked_plan ext order ctx cmd now run snapshot)))))))"


section \<open>Effects\<close>

lemma keeps_insert_revised [keeps_intros]:
  assumes "\<And>db v. g (db\<lparr>db_tasks := v\<rparr>) = g db" "\<And>db v. g (db\<lparr>db_deps := v\<rparr>) = g db"
    "\<And>db v. g (db\<lparr>db_context_refs := v\<rparr>) = g db"
  shows "keeps g (insert_revised_tasks ext tenant run_id event cs run now tasks)"
  unfolding insert_revised_tasks_def by (intro keeps_intros assms)

lemma resolve_each_settled:
  assumes "resolve_each ext tenant run now ps activated db = Inr (ids, db')" and "task_keys_ok db"
  shows "tasks_settled tenant run now db db'"
  using assms
proof (induction ps arbitrary: activated db)
  case Nil
  then show ?case by (simp add: txn_iffs tasks_settled_refl)
next
  case (Cons p ps)
  then obtain more db1 where first: "resolve_dependent_tasks ext tenant run p now db = Inr (more, db1)"
    and rest: "resolve_each ext tenant run now ps (activated @ more) db1 = Inr (ids, db')"
    by (auto simp: txn_iffs)
  from resolve_dependent_tasks_settled [OF first Cons.prems(2)]
  have one: "tasks_settled tenant run now db db1" .
  then have "task_keys_ok db1" using Cons.prems(2) tasks_settled_keys(3) by blast
  with Cons.IH [OF rest] one show ?case using tasks_settled_trans by blast
qed

lemma settle_revised_settled:
  "settle_revised_tasks ext order tenant run now tasks db = Inr (ids, db') \<Longrightarrow> task_keys_ok db
   \<Longrightarrow> tasks_settled tenant run now db db'"
  by (auto simp: settle_revised_tasks_def txn_iffs dest: resolve_each_settled)

lemma insert_revised_effect:
  assumes "insert_revised_tasks ext tenant run_id event cs run now tasks db = Inr (u, db')"
  obtains inputs where "length inputs = length tasks"
    and "db_tasks db' = db_tasks db
        @ map2 (initial_task_row tenant run_id event cs (r_generation run) now) tasks inputs"
    and "distinct (map it_task_id tasks)"
    and "\<forall>t \<in> set tasks. \<forall>v \<in> set (db_tasks db). t_id v \<noteq> it_task_id t"
    and "map dependency_key (db_deps db') = map dependency_key (db_deps db)
        @ concat (map (dependency_keys tenant run_id) tasks)"
proof -
  let ?refs = "\<lambda>t. thenT (insert_initial_task_dependencies ext tenant run_id event now t)
       (bindT (liftT (ok_or (fst (r_context_revision run)) null_context_panic)) (\<lambda>context_id.
        insert_task_context_reference ext tenant run_id event context_id now t))"
  from assms obtain db1 where
      tasks: "foldT (insert_initial_task ext tenant run_id event cs (r_generation run) now) tasks db = Inr ((), db1)"
    and refs: "foldT ?refs tasks db1 = Inr (u, db')"
    by (auto simp: insert_revised_tasks_def txn_iffs)
  from insert_initial_tasks_effect [OF tasks] obtain inputs where ins: "length inputs = length tasks"
      "db1 = db\<lparr>db_tasks := db_tasks db
        @ map2 (initial_task_row tenant run_id event cs (r_generation run) now) tasks inputs\<rparr>"
      "distinct (map it_task_id tasks)" "\<forall>t \<in> set tasks. \<forall>v \<in> set (db_tasks db). t_id v \<noteq> it_task_id t"
    by blast
  have "keeps db_tasks (foldT ?refs tasks)" by (intro keeps_intros) simp_all
  from keepsD [OF this refs] have same: "db_tasks db' = db_tasks db1" .
  have "map dependency_key (db_deps d') = map dependency_key (db_deps d)
      @ concat (map (dependency_keys tenant run_id) ts)" if "foldT ?refs ts d = Inr (u, d')" for ts d d'
    using that
  proof (induction ts arbitrary: d)
    case (Cons t ts)
    then obtain d1 d2 context_id where
        steps: "insert_initial_task_dependencies ext tenant run_id event now t d = Inr ((), d1)"
        "insert_task_context_reference ext tenant run_id event context_id now t d1 = Inr ((), d2)"
      and rest: "foldT ?refs ts d2 = Inr (u, d')"
      by (auto simp: txn_iffs)
    show ?case
      using Cons.IH [OF rest] insert_dependencies_effect [OF steps(1)] insert_context_ref_deps [OF steps(2)]
      by simp
  qed (simp add: txn_iffs)
  from this [OF refs] show thesis using that ins same by simp
qed

lemma insert_plan_revision_effect:
  assumes "insert_plan_revision ext tenant run revision parent now ctx p db = Inr (u, db')"
  obtains plan summary where
    "db' = db\<lparr>db_plans := db_plans db @ [plan_row_of tenant run revision parent now ctx p plan summary]\<rparr>"
  using assms by (auto simp: insert_plan_revision_def insert_plan_def txn_iffs)

lemma plan_row_sel [simp]:
  "v_id (plan_row_of tenant run revision parent now ctx p plan summary) = np_plan_revision_id p"
  "v_tenant (plan_row_of tenant run revision parent now ctx p plan summary) = tenant"
  "v_run (plan_row_of tenant run revision parent now ctx p plan summary) = run"
  "v_revision (plan_row_of tenant run revision parent now ctx p plan summary) = revision"
  "v_parent (plan_row_of tenant run revision parent now ctx p plan summary) = parent"
  by (simp_all add: plan_row_of_def)

definition run_plan_at :: "uuid \<Rightarrow> run_row \<Rightarrow> uuid \<Rightarrow> int \<Rightarrow> run_row \<Rightarrow> bool" where
  "run_plan_at tenant run parent expected r \<longleftrightarrow>
     run_at tenant (r_id run) (r_version run) (r_generation run) r
     \<and> r_plan_revision r = (Some parent, expected)"

lemma revise_locked_plan_effect:
  assumes "revise_locked_plan ext order ctx cmd now run (run_snapshot_of run) db = Inr (c, db')"
    and "r_id run = er_run_id (rpc_expected_run cmd)"
  obtains parent summary cs db1 db2 plan follow_ups where
    "fst (r_plan_revision run) = Some parent"
    and "insert_revised_tasks ext (cc_tenant_id ctx) (r_id run) (rpc_event_id cmd) cs run now
        (rpc_new_tasks cmd) (db\<lparr>db_events := db_events db @ [event_row_of
            (plan_revised_event ctx cmd parent summary (r_next_seq run) now)],
          db_outbox := db_outbox db @ [outbox_row_of
            (plan_revised_event ctx cmd parent summary (r_next_seq run) now)]\<rparr>) = Inr ((), db1)"
    and "settle_revised_tasks ext order (cc_tenant_id ctx) (r_id run) now (rpc_new_tasks cmd) db1
        = Inr (follow_ups, db2)"
    and "db_plans db' = db_plans db2 @ [plan_row_of (cc_tenant_id ctx) (r_id run)
        (int (rpc_expected_plan_revision cmd) + 1) (Some parent) now ctx (rpc_revision cmd) plan summary]"
    and "updates_pass run_checks (run_plan_at (cc_tenant_id ctx) run parent (int (rpc_expected_plan_revision cmd)))
        (run_revised (np_plan_revision_id (rpc_revision cmd)) (int (rpc_expected_plan_revision cmd) + 1)
          (r_version run + 1) (r_next_seq run + 1) now) (db_runs db2)"
    and "db_runs db' = sql_update
        (run_plan_at (cc_tenant_id ctx) run parent (int (rpc_expected_plan_revision cmd)))
        (run_revised (np_plan_revision_id (rpc_revision cmd)) (int (rpc_expected_plan_revision cmd) + 1)
          (r_version run + 1) (r_next_seq run + 1) now) (db_runs db2)"
    and "db_events db' = db_events db2" and "db_outbox db' = db_outbox db2"
    and "db_tasks db' = db_tasks db2" and "db_deps db' = db_deps db2"
    and "disposition c = Applied" and "durable_follow_ups c = map FollowTask follow_ups"
  using assms(1) unfolding revise_locked_plan_def Let_def assms(2) [symmetric] run_plan_at_def [symmetric]
  apply (clarsimp simp: txn_iffs ok_or_Inr_iff u64_checked_add_Some insert_plan_revision_def insert_plan_def)
  apply (erule finish_receipt_frame)
  apply (rule that, assumption, assumption, assumption)
  apply (simp_all add: add.commute committed_run_def)
  done

lemma revise_plan_cases:
  assumes "revise_plan ext order ttl ctx cmd now db = Inr (c, db')"
  obtains (replayed) outcome event where "db' = db" and "duplicate_run ctx outcome event = Inr c"
    | (revised) run rs where "find_run (cc_tenant_id ctx) (er_run_id (rpc_expected_run cmd)) db = Some run"
        and "\<not> run_terminal (r_status run)" and "validate_plan_revision ext cmd = Inr ()"
        and "\<not> expectation_broken (rpc_expected_run cmd) (run_snapshot_of run)"
        and "snd (r_plan_revision run) = int (rpc_expected_plan_revision cmd)"
        and "case r_deadline run of None \<Rightarrow> True | Some deadline \<Rightarrow> now < deadline"
        and "revise_locked_plan ext order ctx cmd now run (run_snapshot_of run) (db\<lparr>db_receipts := rs\<rparr>)
             = Inr (c, db')"
proof -
  let ?body = "bindT (locked_run_of (cc_tenant_id ctx) (er_run_id (rpc_expected_run cmd)) ''run was not found'') (\<lambda>run.
      bindT (liftT (decode_control_run run)) (\<lambda>snapshot.
      thenT (guardT (\<not> run_terminal (rs_status snapshot)) (store_error_of TerminalRun ''run is terminal''))
      (thenT (liftT (validate_plan_expectations cmd snapshot (snd (r_plan_revision run))))
      (thenT (guardT (case rs_deadline snapshot of None \<Rightarrow> True | Some deadline \<Rightarrow> now < deadline)
               (store_error_of DeadlineExceeded ''run deadline has elapsed''))
      (revise_locked_plan ext order ctx cmd now run snapshot)))))"
  from assms have valid: "validate_plan_revision ext cmd = Inr ()"
    and "with_receipt ctx now ttl (duplicate_run ctx) ?body db = Inr (c, db')"
    by (auto simp: revise_plan_def txn_iffs)
  from this(2) show thesis
  proof (cases rule: with_receipt_cases)
    case replayed
    then show ?thesis using that(1) by blast
  next
    case fresh
    then show ?thesis
      using valid that(2) [where rs = "db_receipts db @ [new_receipt ctx now (int ttl)]"]
      by (auto simp: txn_iffs decode_control_run_Inr find_run_def validate_plan_expectations_def
          bindR_Inr_iff split: if_splits)
  qed
qed

text \<open>What a revision leaves of the store: the frame of its steps.\<close>

lemma revise_locked_plan_tasks:
  assumes "revise_locked_plan ext order ctx cmd now run (run_snapshot_of run) db = Inr (c, db')"
    and "r_id run = er_run_id (rpc_expected_run cmd)" and "task_keys_ok db"
  obtains parent plan summary inputs cs ts where "fst (r_plan_revision run) = Some parent"
    and "length inputs = length (rpc_new_tasks cmd)"
    and "db_tasks db' = ts"
    and "list_all2 (task_settled (cc_tenant_id ctx) (r_id run) now) (db_tasks db
        @ map2 (initial_task_row (cc_tenant_id ctx) (r_id run) (rpc_event_id cmd) cs (r_generation run) now)
            (rpc_new_tasks cmd) inputs) ts"
    and "distinct (map t_id ts)"
    and "map dependency_key (db_deps db') = map dependency_key (db_deps db)
        @ concat (map (dependency_keys (cc_tenant_id ctx) (r_id run)) (rpc_new_tasks cmd))"
    and "db_plans db' = db_plans db @ [plan_row_of (cc_tenant_id ctx) (r_id run)
        (int (rpc_expected_plan_revision cmd) + 1) (Some parent) now ctx (rpc_revision cmd) plan summary]"
    and "updates_pass run_checks (run_plan_at (cc_tenant_id ctx) run parent (int (rpc_expected_plan_revision cmd)))
        (run_revised (np_plan_revision_id (rpc_revision cmd)) (int (rpc_expected_plan_revision cmd) + 1)
          (r_version run + 1) (r_next_seq run + 1) now) (db_runs db)"
    and "db_runs db' = sql_update
        (run_plan_at (cc_tenant_id ctx) run parent (int (rpc_expected_plan_revision cmd)))
        (run_revised (np_plan_revision_id (rpc_revision cmd)) (int (rpc_expected_plan_revision cmd) + 1)
          (r_version run + 1) (r_next_seq run + 1) now) (db_runs db)"
    and "\<exists>e. ei_tenant_id e = cc_tenant_id ctx \<and> ei_run_id e = r_id run \<and> ei_sequence e = r_next_seq run
        \<and> db_events db' = db_events db @ [event_row_of e] \<and> db_outbox db' = db_outbox db @ [outbox_row_of e]"
    and "disposition c = Applied"
  using assms(1,2)
proof (rule revise_locked_plan_effect)
  fix parent summary cs db1 db2 plan follow_ups
  let ?e = "plan_revised_event ctx cmd parent summary (r_next_seq run) now"
  let ?db0 = "db\<lparr>db_events := db_events db @ [event_row_of ?e], db_outbox := db_outbox db @ [outbox_row_of ?e]\<rparr>"
  assume ins: "insert_revised_tasks ext (cc_tenant_id ctx) (r_id run) (rpc_event_id cmd) cs run now
        (rpc_new_tasks cmd) ?db0 = Inr ((), db1)"
    and settle: "settle_revised_tasks ext order (cc_tenant_id ctx) (r_id run) now (rpc_new_tasks cmd) db1
        = Inr (follow_ups, db2)"
    and parent: "fst (r_plan_revision run) = Some parent"
    and eff: "db_tasks db' = db_tasks db2" "db_deps db' = db_deps db2" "db_events db' = db_events db2"
      "db_outbox db' = db_outbox db2" "disposition c = Applied"
      "db_plans db' = db_plans db2 @ [plan_row_of (cc_tenant_id ctx) (r_id run)
        (int (rpc_expected_plan_revision cmd) + 1) (Some parent) now ctx (rpc_revision cmd) plan summary]"
      "updates_pass run_checks (run_plan_at (cc_tenant_id ctx) run parent (int (rpc_expected_plan_revision cmd)))
        (run_revised (np_plan_revision_id (rpc_revision cmd)) (int (rpc_expected_plan_revision cmd) + 1)
          (r_version run + 1) (r_next_seq run + 1) now) (db_runs db2)"
      "db_runs db' = sql_update
        (run_plan_at (cc_tenant_id ctx) run parent (int (rpc_expected_plan_revision cmd)))
        (run_revised (np_plan_revision_id (rpc_revision cmd)) (int (rpc_expected_plan_revision cmd) + 1)
          (r_version run + 1) (r_next_seq run + 1) now) (db_runs db2)"
  have "keeps (\<lambda>d. (db_runs d, db_events d, db_outbox d, db_plans d))
      (insert_revised_tasks ext (cc_tenant_id ctx) (r_id run) (rpc_event_id cmd) cs run now (rpc_new_tasks cmd))"
    by (intro keeps_intros) simp_all
  from keepsD [OF this ins] have same: "db_runs db1 = db_runs db" "db_events db1 = db_events ?db0"
      "db_outbox db1 = db_outbox ?db0" "db_plans db1 = db_plans db" by simp_all
  from ins obtain inputs where new: "length inputs = length (rpc_new_tasks cmd)"
      "db_tasks db1 = db_tasks db @ map2 (initial_task_row (cc_tenant_id ctx) (r_id run) (rpc_event_id cmd) cs
          (r_generation run) now) (rpc_new_tasks cmd) inputs"
      "distinct (map it_task_id (rpc_new_tasks cmd))"
      "\<forall>t \<in> set (rpc_new_tasks cmd). \<forall>v \<in> set (db_tasks db). t_id v \<noteq> it_task_id t"
      "map dependency_key (db_deps db1) = map dependency_key (db_deps db)
        @ concat (map (dependency_keys (cc_tenant_id ctx) (r_id run)) (rpc_new_tasks cmd))"
    by (rule insert_revised_effect) simp
  have "map t_id (map2 (initial_task_row tenant rid ev cs g now) ts is) = map it_task_id ts"
    if "length is = length ts" for tenant rid ev g ts "is"
    using that by (induction ts "is" rule: list_induct2') simp_all
  then have "task_keys_ok db1"
    using new assms(3) by (auto simp: task_keys_ok_def)
  from settle_revised_settled [OF settle this] tasks_settled_keys(3) [OF settle_revised_settled [OF settle this]]
  obtain ts where ts: "db2 = db1\<lparr>db_tasks := ts\<rparr>"
      "list_all2 (task_settled (cc_tenant_id ctx) (r_id run) now) (db_tasks db1) ts" "task_keys_ok db2"
    using \<open>task_keys_ok db1\<close> by (auto simp: tasks_settled_def)
  show thesis
    by (rule that [of parent inputs ts cs plan summary])
       (use parent new ts eff same assms(2) in \<open>auto simp: task_keys_ok_def intro!: exI [of _ ?e]\<close>)
qed

lemma revise_plan_effect:
  assumes "store_ok db" and "revise_plan ext order ttl ctx cmd now db = Inr (c, db')"
  shows "quiet db db' \<or> advances db db'"
  using assms(2)
proof (cases rule: revise_plan_cases)
  case (revised run rs)
  from find_run_Some [OF revised(1)]
  have run: "run \<in> set (db_runs db)" "r_tenant run = cc_tenant_id ctx"
      "r_id run = er_run_id (rpc_expected_run cmd)" by simp_all
  have "task_keys_ok (db\<lparr>db_receipts := rs\<rparr>)" using assms(1) by (simp add: store_ok_def task_keys_ok_def)
  from revised(7) run(3) this have "advances db db'"
  proof (rule revise_locked_plan_tasks)
    fix parent
    let ?P = "run_plan_at (cc_tenant_id ctx) run parent (int (rpc_expected_plan_revision cmd))"
    let ?f = "run_revised (np_plan_revision_id (rpc_revision cmd)) (int (rpc_expected_plan_revision cmd) + 1)
          (r_version run + 1) (r_next_seq run + 1) now"
    assume "fst (r_plan_revision run) = Some parent"
      and "updates_pass run_checks ?P ?f (db_runs (db\<lparr>db_receipts := rs\<rparr>))"
      and "db_runs db' = sql_update ?P ?f (db_runs (db\<lparr>db_receipts := rs\<rparr>))"
      and "\<exists>e. ei_tenant_id e = cc_tenant_id ctx \<and> ei_run_id e = r_id run \<and> ei_sequence e = r_next_seq run
        \<and> db_events db' = db_events (db\<lparr>db_receipts := rs\<rparr>) @ [event_row_of e]
        \<and> db_outbox db' = db_outbox (db\<lparr>db_receipts := rs\<rparr>) @ [outbox_row_of e]"
    then show "advances db db'"
      using run revised(5)
      by (elim exE) (rule advances_by_update [where P = ?P and f = ?f,
          OF store_okD(1) [OF assms(1)] run(1) revised(2)],
        auto simp: run_plan_at_def run_at_def same_run_def run_revised_def prod_eq_iff)
  qed
  then show ?thesis ..
qed (simp add: quiet_def)

lemma revise_plan_keys:
  assumes "task_keys_ok db" and "revise_plan ext order ttl ctx cmd now db = Inr (c, db')"
  shows "task_keys_ok db'"
  using assms(2)
proof (cases rule: revise_plan_cases)
  case (revised run rs)
  from revised(7) find_run_Some [OF revised(1)] assms(1) show ?thesis
    by (elim revise_locked_plan_tasks) (simp_all add: task_keys_ok_def)
qed (use assms(1) in simp)

interpretation revise_cmd: run_command
  "\<lambda>(ext, order, ttl, ctx, cmd, now). revise_plan ext order ttl ctx cmd now"
  by unfold_locales (auto dest: revise_plan_effect revise_plan_keys [OF store_okD(2)])


section \<open>A revision extends the history of the plan\<close>

definition plan_log :: "run_row \<Rightarrow> db \<Rightarrow> plan_row list" where
  "plan_log r db = filter (\<lambda>v. v_tenant v = r_tenant r \<and> v_run v = r_id r) (db_plans db)"

text \<open>The revisions of the plan of a run are numbered from 1, and the last is the current one.\<close>

definition plan_history_ok :: "run_row \<Rightarrow> db \<Rightarrow> bool" where
  "plan_history_ok r db \<longleftrightarrow> plan_log r db \<noteq> []
     \<and> map v_revision (plan_log r db) = [1..snd (r_plan_revision r)]
     \<and> fst (r_plan_revision r) = Some (v_id (last (plan_log r db)))"

lemma settled_row:
  "list_all2 (task_settled tenant run now) rows ts \<Longrightarrow> t \<in> set rows
   \<Longrightarrow> \<exists>u \<in> set ts. task_settled tenant run now t u"
  by (induction rule: list_all2_induct) auto

lemma initial_row_member:
  assumes "length inputs = length ts" and "t \<in> set ts"
  obtains input where "initial_task_row tenant run event cs g now t input
      \<in> set (map2 (initial_task_row tenant run event cs g now) ts inputs)"
proof -
  from assms obtain n where "n < length ts" "ts ! n = t" by (auto simp: in_set_conv_nth)
  with assms(1) have "initial_task_row tenant run event cs g now t (inputs ! n)
      \<in> set (map2 (initial_task_row tenant run event cs g now) ts inputs)"
    by (force simp: set_conv_nth)
  then show thesis by (rule that)
qed

lemma validate_plan_revision_graph:
  "validate_plan_revision ext cmd = Inr () \<Longrightarrow> \<not> initial_task_dependencies_have_cycle (rpc_new_tasks cmd)"
  by (auto simp: validate_plan_revision_def Let_def result_iffs split: if_splits)

lemma plan_history_extended:
  assumes "plan_history_ok run db" and "same_run run run'" and "0 \<le> snd (r_plan_revision run)"
    and "db_plans db' = db_plans db @ [v]" and "v_tenant v = r_tenant run" and "v_run v = r_id run"
    and "v_revision v = snd (r_plan_revision run) + 1"
    and "r_plan_revision run' = (Some (v_id v), snd (r_plan_revision run) + 1)"
  shows "plan_history_ok run' db'"
proof -
  have "plan_log run' db' = plan_log run db @ [v]"
    using assms(2,4-6) by (simp add: plan_log_def same_run_def)
  then show ?thesis
    using assms(1,3,7,8) by (simp add: plan_history_ok_def upto_rec2 [of 1 "snd (r_plan_revision run) + 1"])
qed

text \<open>
  C16: an applied revision of the plan of a live run was made on its current revision, and becomes
  the new one: if the revisions of the run were numbered from 1 with the current one last, they
  are after it. The status of the run does not change. The new tasks are tasks of the run under
  its current generation, queued if they depend on nothing; they never wait on each other in a
  cycle, and their dependencies are recorded. The tasks the run had stay as they were, but for
  scheduled ones, which may be settled.
\<close>

theorem revise_plan_appends_revision:
  assumes "store_ok db" and "revise_plan ext order ttl ctx cmd now db = Inr (c, db')"
    and "disposition c = Applied"
  shows "\<exists>run \<in> set (db_runs db). \<exists>run' \<in> set (db_runs db'). r_id run = er_run_id (rpc_expected_run cmd)
    \<and> \<not> run_terminal (r_status run) \<and> same_run run run' \<and> r_status run' = r_status run
    \<and> snd (r_plan_revision run) = int (rpc_expected_plan_revision cmd)
    \<and> r_plan_revision run' = (Some (np_plan_revision_id (rpc_revision cmd)), snd (r_plan_revision run) + 1)
    \<and> (plan_history_ok run db \<longrightarrow> plan_history_ok run' db')
    \<and> (\<forall>t \<in> set (rpc_new_tasks cmd). \<exists>u \<in> set (db_tasks db'). t_id u = it_task_id t \<and> t_run u = r_id run
         \<and> t_generation u = r_generation run \<and> (it_dependencies t = [] \<longrightarrow> t_status u = TaskQueued))
    \<and> \<not> initial_task_dependencies_have_cycle (rpc_new_tasks cmd)
    \<and> map dependency_key (db_deps db') = map dependency_key (db_deps db)
        @ concat (map (dependency_keys (cc_tenant_id ctx) (r_id run)) (rpc_new_tasks cmd))
    \<and> (\<forall>t \<in> set (db_tasks db). \<exists>u \<in> set (db_tasks db'). task_settled (cc_tenant_id ctx) (r_id run) now t u)"
  using assms(2)
proof (cases rule: revise_plan_cases)
  case (replayed outcome event)
  then have "disposition c = Duplicate" by (auto simp: duplicate_run_def result_iffs)
  then show ?thesis using assms(3) by simp
next
  case (revised run rs)
  let ?tenant = "cc_tenant_id ctx"
  from find_run_Some [OF revised(1)]
  have run: "run \<in> set (db_runs db)" "r_tenant run = ?tenant"
      "r_id run = er_run_id (rpc_expected_run cmd)" by simp_all
  have "task_keys_ok (db\<lparr>db_receipts := rs\<rparr>)" using assms(1) by (simp add: store_ok_def task_keys_ok_def)
  with revised(7) run(3) show ?thesis
  proof (rule revise_locked_plan_tasks)
    fix parent plan summary inputs cs ts
    let ?P = "run_plan_at ?tenant run parent (int (rpc_expected_plan_revision cmd))"
    let ?f = "run_revised (np_plan_revision_id (rpc_revision cmd)) (int (rpc_expected_plan_revision cmd) + 1)
          (r_version run + 1) (r_next_seq run + 1) now"
    let ?rows = "db_tasks db @ map2 (initial_task_row ?tenant (r_id run) (rpc_event_id cmd) cs
        (r_generation run) now) (rpc_new_tasks cmd) inputs"
    assume eff: "fst (r_plan_revision run) = Some parent" "length inputs = length (rpc_new_tasks cmd)"
        "db_tasks db' = ts" "map dependency_key (db_deps db') = map dependency_key (db_deps (db\<lparr>db_receipts := rs\<rparr>))
          @ concat (map (dependency_keys ?tenant (r_id run)) (rpc_new_tasks cmd))"
        "db_plans db' = db_plans (db\<lparr>db_receipts := rs\<rparr>) @ [plan_row_of ?tenant (r_id run)
          (int (rpc_expected_plan_revision cmd) + 1) (Some parent) now ctx (rpc_revision cmd) plan summary]"
        "db_runs db' = sql_update ?P ?f (db_runs (db\<lparr>db_receipts := rs\<rparr>))"
      and "list_all2 (task_settled ?tenant (r_id run) now) (db_tasks (db\<lparr>db_receipts := rs\<rparr>)
        @ map2 (initial_task_row ?tenant (r_id run) (rpc_event_id cmd) cs (r_generation run) now)
            (rpc_new_tasks cmd) inputs) ts"
    then have settled: "list_all2 (task_settled ?tenant (r_id run) now) ?rows (db_tasks db')" by simp
    have "?P run" using run eff(1) revised(5) by (simp add: run_plan_at_def run_at_def prod_eq_iff)
    then have run': "?f run \<in> set (db_runs db')" 
      unfolding eff(6) set_sql_update using run(1) by (intro image_eqI [of _ _ run]) simp_all
    have "\<exists>u \<in> set (db_tasks db'). t_id u = it_task_id t \<and> t_run u = r_id run
        \<and> t_generation u = r_generation run \<and> (it_dependencies t = [] \<longrightarrow> t_status u = TaskQueued)"
      if t: "t \<in> set (rpc_new_tasks cmd)" for t
    proof -
      from initial_row_member [OF eff(2) t] obtain input where
        "initial_task_row ?tenant (r_id run) (rpc_event_id cmd) cs (r_generation run) now t input \<in> set ?rows"
        by (metis Un_iff set_append)
      from settled_row [OF settled this] obtain u where u: "u \<in> set (db_tasks db')" and
        "task_settled ?tenant (r_id run) now
           (initial_task_row ?tenant (r_id run) (rpc_event_id cmd) cs (r_generation run) now t input) u"
        by blast
      then show ?thesis
        by (intro bexI [OF _ u]) (auto simp: task_settled_def settle_task_def split: if_splits)
    qed
    moreover have "\<exists>u \<in> set (db_tasks db'). task_settled ?tenant (r_id run) now t u"
      if "t \<in> set (db_tasks db)" for t
      using that settled_row [OF settled, of t] by auto
    moreover have "plan_history_ok (?f run) db'" if "plan_history_ok run db"
      by (rule plan_history_extended [OF that _ _ eff(5) [simplified]])
         (use run revised(5) in \<open>simp_all add: same_run_def run_revised_def\<close>)
    ultimately show ?thesis
      using run revised(2,5) run' eff(4) validate_plan_revision_graph [OF revised(3)]
      by (intro bexI [of _ run] bexI [of _ "?f run"]) (simp_all add: same_run_def run_revised_def)
  qed
qed

text \<open>A run that has a plan, and a revision with two tasks.\<close>

definition sample_revision :: revise_plan_command where
  "sample_revision = \<lparr> rpc_expected_run = sample_expected, rpc_expected_plan_revision = 1,
     rpc_event_id = 46,
     rpc_revision = \<lparr> np_plan_revision_id = 62, np_schema_version = 1, np_plan_key = ''p'',
       np_plan = ''{}'', np_plan_digest = 0, np_change_summary = ''{}'', np_created_event_id = 46 \<rparr>,
     rpc_new_tasks = [(sample_initial_task 95 [96])\<lparr>it_logical_key := ''c''\<rparr>,
       (sample_initial_task 96 [])\<lparr>it_logical_key := ''d''\<rparr>] \<rparr>"

definition sample_plan :: plan_row where
  "sample_plan = \<lparr> v_id = 60, v_tenant = 7, v_run = 1, v_revision = 1, v_parent = None,
     v_schema_version = 1, v_key = ''p'', v_plan = JObject [], v_digest = 0, v_summary = JObject [],
     v_event = 40, v_created_by = ''u'', v_created_at = 10 \<rparr>"

definition sample_context_row :: context_row where
  "sample_context_row = \<lparr> k_id = 61, k_tenant = 7, k_run = 1, k_revision = 1, k_parent = None,
     k_schema_version = 1, k_value = JObject [], k_digest = 0, k_event = 40, k_created_by = ''u'',
     k_created_at = 10 \<rparr>"

definition sample_planned_db :: db where
  "sample_planned_db = sample_db\<lparr>db_plans := [sample_plan], db_contexts := [sample_context_row]\<rparr>"

lemmas revise_eval = revise_plan_def validate_plan_revision_def revised_tasks_clash_def locked_run_of_def
  decode_control_run_def validate_plan_expectations_def expectation_broken_def revise_locked_plan_def
  plan_revised_event_def revision_event_type_def revision_kind_def value_get_def insert_revised_tasks_def
  settle_revised_tasks_def revised_prerequisites_def run_revised_def run_at_def u64_checked_add_def
  advanced_snapshot_def Let_def

lemma sample_planned_ok: "store_ok sample_planned_db"
  by (simp add: sample_planned_db_def sample_defs store_ok_def runs_ok_def run_keys_ok_def run_checks_def
      revision_checks_def task_keys_ok_def status_sets)

theorem revise_plan_appends_revision_witness:
  "\<exists>c db'. revise_plan sample_create_ext id 1000 (sample_context 75 ''r1'') sample_revision 110
      sample_planned_db = Inr (c, db')
    \<and> (\<exists>run' \<in> set (db_runs db'). r_plan_revision run' = (Some 62, 2))
    \<and> (\<exists>u \<in> set (db_tasks db'). t_id u = 96 \<and> t_status u = TaskQueued)"
proof -
  have "\<exists>c db'. revise_plan sample_create_ext id 1000 (sample_context 75 ''r1'') sample_revision 110
      sample_planned_db = Inr (c, db') \<and> disposition c = Applied"
    by (simp add: sample_revision_def sample_plan_def sample_context_row_def sample_planned_db_def
        sample_create_ext_def sample_initial_task_def sample_defs status_sets revise_eval create_eval
        resolve_eval txn_eval)
  then obtain c db' where run: "revise_plan sample_create_ext id 1000 (sample_context 75 ''r1'')
      sample_revision 110 sample_planned_db = Inr (c, db')" and d: "disposition c = Applied" by blast
  from revise_plan_appends_revision [OF sample_planned_ok run d] show ?thesis
    using run by (auto simp: sample_revision_def sample_planned_db_def sample_defs sample_initial_task_def)
qed

end
