(* ===== verification/JsonPatch.thy ===== *)
theory JsonPatch
  imports Domain "HOL-Library.List_Lexorder"
begin

text \<open>
  \<open>merge_json_patch\<close> of \<open>transaction_executor.rs\<close>: the merge patch (RFC 7396) of one JSON value by
  another. Objects are kept in the order of their keys, as the map of \<open>serde_json\<close> keeps them.
  Proved: member by member the result is what the RFC asks for, the result is again well formed,
  and applying a patch twice is applying it once.
\<close>

section \<open>Members of an object\<close>

text \<open>\<open>Map::remove\<close> and \<open>Map::insert\<close> on the ordered members.\<close>

definition json_remove :: "string \<Rightarrow> (string \<times> json) list \<Rightarrow> (string \<times> json) list" where
  "json_remove k ms = filter (\<lambda>m. fst m \<noteq> k) ms"

fun json_insert :: "string \<Rightarrow> json \<Rightarrow> (string \<times> json) list \<Rightarrow> (string \<times> json) list" where
  "json_insert k v [] = [(k, v)]"
| "json_insert k v ((k', v') # ms) =
     (if k = k' then (k, v) # ms
      else if k < k' then (k, v) # (k', v') # ms
      else (k', v') # json_insert k v ms)"

lemma json_get_remove [simp]:
  "json_get (json_remove k ms) k' = (if k' = k then None else json_get ms k')"
  unfolding json_get_def json_remove_def by (induction ms) auto

lemma json_get_insert [simp]:
  "json_get (json_insert k v ms) k' = (if k' = k then Some v else json_get ms k')"
  unfolding json_get_def by (induction ms) auto

lemma json_get_Nil [simp]: "json_get [] k = None"
  by (simp add: json_get_def)

lemma json_get_Cons: "json_get ((k, v) # ms) k' = (if k' = k then Some v else json_get ms k')"
  by (simp add: json_get_def)

section \<open>The patch\<close>

fun merge_json_patch :: "json \<Rightarrow> json \<Rightarrow> json"
  and merge_members :: "(string \<times> json) list \<Rightarrow> (string \<times> json) list \<Rightarrow> (string \<times> json) list" where
  "merge_json_patch target patch = (case patch of
      JObject ps \<Rightarrow> JObject (merge_members (case target of JObject ms \<Rightarrow> ms | _ \<Rightarrow> []) ps)
    | _ \<Rightarrow> patch)"
| "merge_members ms [] = ms"
| "merge_members ms ((k, v) # ps) =
     merge_members
       (if v = JNull then json_remove k ms
        else json_insert k (merge_json_patch (case json_get ms k of None \<Rightarrow> JNull | Some t \<Rightarrow> t) v) ms) ps"

lemma merge_json_patch_value: "as_object patch = None \<Longrightarrow> merge_json_patch target patch = patch"
  by (cases patch) simp_all

definition members :: "json \<Rightarrow> (string \<times> json) list" where
  "members j = (case j of JObject ms \<Rightarrow> ms | _ \<Rightarrow> [])"

definition or_null :: "json option \<Rightarrow> json" where
  "or_null x = (case x of None \<Rightarrow> JNull | Some j \<Rightarrow> j)"

lemma members_simps [simp]: "members (JObject ms) = ms" "members JNull = []"
  by (simp_all add: members_def)

lemma merge_json_patch_object [simp]:
  "merge_json_patch target (JObject ps) = JObject (merge_members (members target) ps)"
  by (simp add: members_def)

declare merge_json_patch.simps [simp del]

lemma merge_json_patch_scalar [simp]:
  "merge_json_patch target JNull = JNull" "merge_json_patch target (JBool b) = JBool b"
  "merge_json_patch target (JInt i) = JInt i" "merge_json_patch target (JFloat f) = JFloat f"
  "merge_json_patch target (JString s) = JString s" "merge_json_patch target (JArray js) = JArray js"
  by (simp_all add: merge_json_patch_value)

lemma merge_members_get:
  "distinct (map fst ps) \<Longrightarrow> json_get (merge_members ms ps) k = (case json_get ps k of
      None \<Rightarrow> json_get ms k
    | Some v \<Rightarrow> if v = JNull then None else Some (merge_json_patch (or_null (json_get ms k)) v))"
proof (induction ps arbitrary: ms)
  case (Cons p ps)
  obtain k' v where p: "p = (k', v)" by (cases p)
  have "json_get ps k' = None" using Cons.prems by (simp add: p json_get_def map_of_eq_None_iff)
  then show ?case using Cons
    by (auto simp: p json_get_Cons or_null_def split: option.splits)
qed simp

section \<open>Well-formed values\<close>

text \<open>A value \<open>serde_json\<close> holds: the keys of every object are in strictly ascending order.\<close>

fun json_wf :: "json \<Rightarrow> bool" where
  "json_wf (JObject ms) = (sorted_wrt (<) (map fst ms) \<and> (\<forall>m\<in>set ms. json_wf (snd m)))"
| "json_wf (JArray js) = (\<forall>j\<in>set js. json_wf j)"
| "json_wf _ = True"

definition members_wf :: "(string \<times> json) list \<Rightarrow> bool" where
  "members_wf ms = (sorted_wrt (<) (map fst ms) \<and> (\<forall>m\<in>set ms. json_wf (snd m)))"

lemma json_wf_object [simp]: "json_wf (JObject ms) = members_wf ms"
  by (simp add: members_wf_def)

declare json_wf.simps(1) [simp del]

lemma members_wf_Nil [simp]: "members_wf []"
  by (simp add: members_wf_def)

lemma members_wf_Cons:
  "members_wf ((k, v) # ms) \<longleftrightarrow> json_wf v \<and> (\<forall>m\<in>set ms. k < fst m) \<and> members_wf ms"
  by (auto simp: members_wf_def)

lemma members_wf_members [intro]: "json_wf j \<Longrightarrow> members_wf (members j)"
  by (cases j) (simp_all add: members_def)

lemma members_wf_distinct: "members_wf ms \<Longrightarrow> distinct (map fst ms)"
  unfolding members_wf_def by (simp add: strict_sorted_iff)

lemma json_get_wf: "members_wf ms \<Longrightarrow> json_get ms k = Some v \<Longrightarrow> json_wf v"
  unfolding members_wf_def json_get_def by (metis map_of_SomeD snd_conv)

lemma json_remove_wf: "members_wf ms \<Longrightarrow> members_wf (json_remove k ms)"
  unfolding members_wf_def json_remove_def by (auto simp: sorted_wrt_map sorted_wrt_filter)

lemma set_json_insert: "set (json_insert k v ms) \<subseteq> insert (k, v) (set ms)"
  by (induction ms) (auto split: if_splits)

lemma json_insert_wf: "members_wf ms \<Longrightarrow> json_wf v \<Longrightarrow> members_wf (json_insert k v ms)"
proof (induction ms)
  case (Cons m ms)
  obtain k' v' where m: "m = (k', v')" by (cases m)
  have "k' < fst x" if "x \<in> set (json_insert k v ms)" "k' < k" for x
    using that subsetD [OF set_json_insert] Cons.prems by (fastforce simp: m members_wf_Cons)
  then show ?case using Cons by (force simp: m members_wf_Cons)
qed (simp add: members_wf_Cons)

lemma merge_wf:
  "json_wf target \<Longrightarrow> json_wf patch \<Longrightarrow> json_wf (merge_json_patch target patch)"
  "members_wf ms \<Longrightarrow> members_wf ps \<Longrightarrow> members_wf (merge_members ms ps)"
proof (induction target patch and ms ps rule: merge_json_patch_merge_members.induct)
  case (1 target patch)
  then show ?case
    by (cases patch) (auto simp: members_def split: json.splits)
next
  case (3 ms k v ps)
  then show ?case
    by (auto simp: members_wf_Cons json_remove_wf json_insert_wf json_get_wf
         split: option.splits)
qed simp_all

text \<open>Well-formed members are determined by what they hold.\<close>

lemma members_ext:
  assumes "members_wf ms" "members_wf ms'" "\<And>k. json_get ms k = json_get ms' k"
  shows "ms = ms'"
proof (rule map_sorted_distinct_set_unique)
  have sorted: "sorted (map fst xs) \<and> distinct (map fst xs)" if "members_wf xs" for xs
    using that by (simp add: members_wf_def strict_sorted_iff)
  show "sorted (map fst ms)" "sorted (map fst ms')" "distinct (map fst ms)" "distinct (map fst ms')"
    using assms(1,2) sorted by auto
  have "map_of ms = map_of ms'" using assms(3) by (auto simp: json_get_def)
  then show same: "set ms = set ms'"
    using assms(1,2) by (simp add: map_of_inject_set members_wf_distinct)
  show "inj_on fst (set ms \<union> set ms')"
    using assms(1) members_wf_distinct by (auto simp: same [symmetric] distinct_map)
qed

lemma merge_idem:
  "json_wf target \<Longrightarrow> json_wf patch \<Longrightarrow>
   merge_json_patch (merge_json_patch target patch) patch = merge_json_patch target patch"
proof (induction patch arbitrary: target)
  case (JObject ps)
  let ?ms = "members target"
  have wf: "members_wf ps" "members_wf ?ms" using JObject.prems by auto
  have "merge_members (merge_members ?ms ps) ps = merge_members ?ms ps"
  proof (rule members_ext)
    fix k
    have "merge_json_patch (merge_json_patch (or_null (json_get ?ms k)) v) v
        = merge_json_patch (or_null (json_get ?ms k)) v"
      if "json_get ps k = Some v" for v
    proof (rule JObject.IH)
      show "(k, v) \<in> set ps" using that by (simp add: json_get_def map_of_SomeD)
      show "v \<in> Basic_BNFs.snds (k, v)" by simp
      show "json_wf v" "json_wf (or_null (json_get ?ms k))"
        using that wf json_get_wf by (auto simp: or_null_def split: option.splits)
    qed
    then show "json_get (merge_members (merge_members ?ms ps) ps) k
        = json_get (merge_members ?ms ps) k"
      using wf by (auto simp: merge_members_get members_wf_distinct or_null_def
          simp del: merge_members.simps split: option.splits)
  qed (use wf in \<open>simp_all add: merge_wf(2)\<close>)
  then show ?case by simp
qed simp_all

section \<open>What a merge patch does\<close>

text \<open>
  C37: the patching of a JSON value is the merge patch of RFC 7396. A patch that is not an object replaces
  the target. A patch that is an object yields an object whose members are, key by key: the
  member of the target where the patch has none (a target that is not an object has no members);
  none where the patch has null; and otherwise the member of the target, or null where it has
  none, patched by the member of the patch. Nothing else is in the result, and applying the
  same patch again changes nothing.
\<close>

theorem merge_json_patch_is_rfc7396:
  assumes "json_wf target" "json_wf patch"
  shows "(as_object patch = None \<longrightarrow> merge_json_patch target patch = patch)
    \<and> (\<forall>ps. as_object patch = Some ps \<longrightarrow> (\<exists>ms'. merge_json_patch target patch = JObject ms' \<and>
        (\<forall>k. json_get ms' k = (case json_get ps k of
            None \<Rightarrow> json_get (members target) k
          | Some JNull \<Rightarrow> None
          | Some v \<Rightarrow> Some (merge_json_patch (or_null (json_get (members target) k)) v)))))
    \<and> merge_json_patch (merge_json_patch target patch) patch = merge_json_patch target patch"
proof (intro conjI)
  show "\<forall>ps. as_object patch = Some ps \<longrightarrow> (\<exists>ms'. merge_json_patch target patch = JObject ms' \<and>
      (\<forall>k. json_get ms' k = (case json_get ps k of
          None \<Rightarrow> json_get (members target) k
        | Some JNull \<Rightarrow> None
        | Some v \<Rightarrow> Some (merge_json_patch (or_null (json_get (members target) k)) v))))"
    using assms(2) by (cases patch)
      (auto simp: merge_members_get members_wf_distinct simp del: merge_members.simps
        split: option.splits json.splits)
qed (use assms in \<open>auto simp: merge_json_patch_value merge_idem\<close>)

theorem merge_json_patch_is_rfc7396_witness:
  "\<exists>ms'. merge_json_patch (JObject [(''facts'', JObject [(''old'', JInt 1)]), (''goal'', JNull)])
     (JObject [(''facts'', JObject [(''new'', JBool True), (''old'', JNull)]), (''goal'', JNull)])
     = JObject ms' \<and> json_get ms' ''goal'' = None"
proof -
  let ?t = "JObject [(''facts'', JObject [(''old'', JInt 1)]), (''goal'', JNull)]"
  let ?ps = "[(''facts'', JObject [(''new'', JBool True), (''old'', JNull)]), (''goal'', JNull)]"
  have wf: "json_wf ?t" "json_wf (JObject ?ps)" by code_simp+
  show ?thesis
    using merge_json_patch_is_rfc7396 [OF wf]
    by (auto simp: json_get_def simp del: merge_json_patch_object)
qed

end
