(* ===== verification/ContextPatch.thy ===== *)
theory ContextPatch
  imports PlanRevision JsonPatch
begin

text \<open>
  Patching the context of a run: \<open>ApplyContextPatch\<close> (\<open>durable-store/src/command.rs\<close>),
  \<open>validate_context_patch\<close> and \<open>apply_context_patch\<close> of \<open>transaction_executor.rs\<close>. Proved: a patch is
  applied to the current snapshot only, and appends the patched value, with the digest of its text,
  as the next revision under the snapshot it was made on.
\<close>

section \<open>The command\<close>

datatype context_merge_strategy = MergeReplace | MergePatch

definition merge_strategy_text :: "context_merge_strategy \<Rightarrow> string" where
  "merge_strategy_text s = (case s of MergeReplace \<Rightarrow> ''replace'' | MergePatch \<Rightarrow> ''merge_patch'')"

record apply_context_patch_command =
  acp_expected_run :: expected_run
  acp_expected_context_revision :: nat
  acp_event_id :: uuid
  acp_patch_id :: uuid
  acp_context_snapshot_id :: uuid
  acp_schema_version :: nat
  acp_patch :: json_payload
  acp_merge_strategy :: context_merge_strategy

definition validate_context_patch :: "externals \<Rightarrow> apply_context_patch_command \<Rightarrow> unit store_result" where
  "validate_context_patch ext cmd =
    (if acp_expected_context_revision cmd = 0 \<or> acp_event_id cmd = 0 \<or> acp_patch_id cmd = 0
        \<or> acp_context_snapshot_id cmd = 0 \<or> acp_schema_version cmd = 0
     then Inl (invalid_command ''Context patch shape is invalid'')
     else bindR (json_value ext (acp_patch cmd)) (\<lambda>_. Inr ()))"

definition validate_context_expectations ::
  "apply_context_patch_command \<Rightarrow> run_snapshot \<Rightarrow> int \<Rightarrow> unit store_result" where
  "validate_context_expectations cmd snapshot current_revision =
    (if expectation_broken (acp_expected_run cmd) snapshot
     then Inl (store_error_of VersionConflict ''run or Context revision expectation changed'')
     else bindR (to_i64 (acp_expected_context_revision cmd) ''expected Context revision'') (\<lambda>expected.
       if expected \<noteq> current_revision
       then Inl (store_error_of VersionConflict ''run or Context revision expectation changed'')
       else Inr ()))"

section \<open>The patched value\<close>

definition patched_context :: "context_merge_strategy \<Rightarrow> json \<Rightarrow> json \<Rightarrow> json" where
  "patched_context strategy value patch = (case strategy of
      MergeReplace \<Rightarrow> patch
    | MergePatch \<Rightarrow> merge_json_patch value patch)"

definition patched_snapshot ::
  "externals \<Rightarrow> apply_context_patch_command \<Rightarrow> json \<Rightarrow> new_context_snapshot" where
  "patched_snapshot ext cmd value = (let payload = ext_to_vec ext value in
    \<lparr> ns_context_snapshot_id = acp_context_snapshot_id cmd, ns_schema_version = acp_schema_version cmd,
      ns_value = payload, ns_digest = ext_sha256 ext (payload_bytes payload),
      ns_created_event_id = acp_event_id cmd \<rparr>)"

text \<open>The bytes of a digest, as a JSON array.\<close>

definition digest_json :: "digest \<Rightarrow> json" where
  "digest_json d = JArray (map (\<lambda>i. JInt (uint (drop_bit (8 * (31 - i)) d) mod 256)) [0..<32])"

definition context_patched_event ::
  "externals \<Rightarrow> command_context \<Rightarrow> apply_context_patch_command \<Rightarrow> uuid \<Rightarrow> json \<Rightarrow> int \<Rightarrow> micros
   \<Rightarrow> event_insert" where
  "context_patched_event ext ctx cmd parent value sequence now =
    \<lparr> ei_event_id = acp_event_id cmd, ei_tenant_id = cc_tenant_id ctx,
      ei_run_id = er_run_id (acp_expected_run cmd), ei_sequence = sequence,
      ei_event_type = ''run.context_patched'',
      ei_payload = JObject
       [(''context_snapshot_id'', JString (id_text (acp_context_snapshot_id cmd))),
        (''parent_context_snapshot_id'', JString (id_text parent)),
        (''base_revision'', JInt (int (acp_expected_context_revision cmd))),
        (''revision'', JInt (int (acp_expected_context_revision cmd) + 1)),
        (''schema_version'', JInt (int (acp_schema_version cmd))),
        (''merge_strategy'', JString (merge_strategy_text (acp_merge_strategy cmd))),
        (''context_digest'', digest_json (ns_digest (patched_snapshot ext cmd value)))],
      ei_payload_schema_version = 1, ei_producer = ''control-plane'', ei_context = ctx,
      ei_correlation_id = cc_correlation_id ctx, ei_occurred_at = None, ei_recorded_at = now \<rparr>"

lemma context_patched_event_sel [simp]:
  "ei_tenant_id (context_patched_event ext ctx cmd p v n now) = cc_tenant_id ctx"
  "ei_run_id (context_patched_event ext ctx cmd p v n now) = er_run_id (acp_expected_run cmd)"
  "ei_sequence (context_patched_event ext ctx cmd p v n now) = n"
  "ei_event_id (context_patched_event ext ctx cmd p v n now) = acp_event_id cmd"
  by (simp_all add: context_patched_event_def)

section \<open>The row of the patch\<close>

definition context_patch_row_of ::
  "command_context \<Rightarrow> apply_context_patch_command \<Rightarrow> uuid \<Rightarrow> json \<Rightarrow> micros \<Rightarrow> context_patch_row" where
  "context_patch_row_of ctx cmd parent patch now =
    \<lparr> h_id = acp_patch_id cmd, h_tenant = cc_tenant_id ctx, h_run = er_run_id (acp_expected_run cmd),
      h_base = parent, h_result = acp_context_snapshot_id cmd,
      h_schema_version = int (acp_schema_version cmd),
      h_strategy = merge_strategy_text (acp_merge_strategy cmd), h_patch = patch,
      h_event = acp_event_id cmd, h_created_by = cc_actor_ref ctx, h_created_at = now \<rparr>"

definition insert_context_patch :: "context_patch_row \<Rightarrow> unit txn" where
  "insert_context_patch h = insert_row
     (1 \<le> h_schema_version h \<and> h_strategy h \<in> {''replace'', ''merge_patch''} \<and> h_created_by h \<noteq> [])
     (\<lambda>db. \<not> sql_exists (\<lambda>p. h_id p = h_id h
        \<or> (h_tenant p = h_tenant h \<and> h_run p = h_run h \<and> h_result p = h_result h)) (db_context_patches db))
     (\<lambda>db. run_exists (h_tenant h) (h_run h) db
        \<and> context_exists (h_tenant h) (h_run h) (Some (h_base h)) db
        \<and> context_exists (h_tenant h) (h_run h) (Some (h_result h)) db
        \<and> event_exists (h_tenant h) (h_run h) (h_event h) db)
     (\<lambda>db. db\<lparr>db_context_patches := db_context_patches db @ [h]\<rparr>)"

section \<open>The handler\<close>

text \<open>The run joined with its current snapshot.\<close>

definition current_context :: "run_row \<Rightarrow> db \<Rightarrow> context_row option" where
  "current_context r db = find (\<lambda>k. k_tenant k = r_tenant r \<and> k_run k = r_id r
     \<and> Some (k_id k) = fst (r_context_revision r)) (db_contexts db)"

definition run_patched :: "uuid \<Rightarrow> int \<Rightarrow> int \<Rightarrow> int \<Rightarrow> micros \<Rightarrow> run_row \<Rightarrow> run_row" where
  "run_patched context revision version next_seq now r = r\<lparr>r_context_revision := (Some context, revision),
     r_version := version, r_next_seq := next_seq, r_updated_at := now\<rparr>"

definition run_context_at :: "uuid \<Rightarrow> uuid \<Rightarrow> run_row \<Rightarrow> uuid \<Rightarrow> int \<Rightarrow> run_row \<Rightarrow> bool" where
  "run_context_at tenant run_id run parent expected r \<longleftrightarrow>
     run_at tenant run_id (r_version run) (r_generation run) r
     \<and> r_context_revision r = (Some parent, expected)"

definition patch_locked_context ::
  "externals \<Rightarrow> command_context \<Rightarrow> apply_context_patch_command \<Rightarrow> micros \<Rightarrow> run_row \<Rightarrow> json
   \<Rightarrow> run_snapshot \<Rightarrow> run_snapshot committed txn" where
  "patch_locked_context ext ctx cmd now run current snapshot =
    (let tenant = cc_tenant_id ctx; run_id = er_run_id (acp_expected_run cmd);
         event_id = acp_event_id cmd; context_id = acp_context_snapshot_id cmd in
    bindT (liftT (ok_or (fst (r_context_revision run))
             (inconsistent ''run has no current Context snapshot''))) (\<lambda>parent.
    bindT (liftT (json_value ext (acp_patch cmd))) (\<lambda>patch.
    let after_patch = patched_snapshot ext cmd (patched_context (acp_merge_strategy cmd) current patch) in
    bindT (liftT (ok_or (u64_checked_add (acp_expected_context_revision cmd) 1)
             (inconsistent ''Context revision overflow''))) (\<lambda>next_revision.
    bindT (liftT (to_i64 next_revision ''Context revision'')) (\<lambda>revision.
    thenT (insert_event (context_patched_event ext ctx cmd parent
             (patched_context (acp_merge_strategy cmd) current patch) (r_next_seq run) now))
    (thenT (insert_context_snapshot ext tenant run_id revision (Some parent) now ctx after_patch)
    (thenT (guardT (acp_schema_version cmd \<le> 2147483647)
             (invalid_command ''Context schema version exceeds i32 range''))
    (thenT (insert_context_patch (context_patch_row_of ctx cmd parent patch now))
    (bindT (liftT (checked_add_i64_or (r_version run) 1 (inconsistent ''run version overflow'')))
      (\<lambda>next_version.
    bindT (liftT (checked_add_i64_or (r_next_seq run) 1 (inconsistent ''run event sequence overflow'')))
      (\<lambda>next_seq.
    bindT (liftT (to_i64 (acp_expected_context_revision cmd) ''expected Context revision'')) (\<lambda>expected.
    bindT (update_runs (run_context_at tenant run_id run parent expected)
             (run_patched context_id revision next_version next_seq now)) (\<lambda>updated.
    thenT (guardT (updated = 1) (store_error_of VersionConflict ''run or Context revision changed''))
    (bindT (liftT (nonnegative_u64 next_version ''run version'')) (\<lambda>version.
    bindT (liftT (nonnegative_u64 next_seq ''event sequence'')) (\<lambda>sequence.
    let after = advanced_snapshot snapshot version sequence now in
    thenT (finish_receipt ctx ReceiptApplied (encode_run_receipt after) (Some event_id)
             (Some (''context_snapshot'', context_id, revision)))
    (returnT (committed_run Applied after (Some event_id) []))))))))))))))))))"

definition apply_context_patch ::
  "externals \<Rightarrow> nat \<Rightarrow> command_context \<Rightarrow> apply_context_patch_command \<Rightarrow> micros
   \<Rightarrow> run_snapshot committed txn" where
  "apply_context_patch ext ttl ctx cmd now =
    thenT (liftT (validate_context_patch ext cmd))
    (with_receipt ctx now ttl (duplicate_run ctx)
      (bindT (locked_run_of (cc_tenant_id ctx) (er_run_id (acp_expected_run cmd)) ''run was not found'') (\<lambda>run.
      bindT (\<lambda>db. liftT (ok_or (current_context run db)
               (store_error_of NotFound ''run was not found'')) db) (\<lambda>context_row.
      bindT (liftT (decode_control_run run)) (\<lambda>snapshot.
      thenT (guardT (\<not> run_terminal (rs_status snapshot)) (store_error_of TerminalRun ''run is terminal''))
      (thenT (liftT (validate_context_expectations cmd snapshot (snd (r_context_revision run))))
      (thenT (guardT (case rs_deadline snapshot of None \<Rightarrow> True | Some deadline \<Rightarrow> now < deadline)
               (store_error_of DeadlineExceeded ''run deadline has elapsed''))
      (patch_locked_context ext ctx cmd now run (k_value context_row) snapshot))))))))"


section \<open>Effects\<close>

lemma patch_locked_context_effect:
  assumes "patch_locked_context ext ctx cmd now run current (run_snapshot_of run) db = Inr (c, db')"
  obtains parent patch v where "fst (r_context_revision run) = Some parent"
    and "ext_from_slice ext (acp_patch cmd) = Some patch"
    and "ext_from_slice ext (ext_to_vec ext (patched_context (acp_merge_strategy cmd) current patch)) = Some v"
    and "db_contexts db' = db_contexts db @ [context_row_of (cc_tenant_id ctx) (er_run_id (acp_expected_run cmd))
        (int (acp_expected_context_revision cmd) + 1) (Some parent) now ctx
        (patched_snapshot ext cmd (patched_context (acp_merge_strategy cmd) current patch)) v]"
    and "db_context_patches db' = db_context_patches db @ [context_patch_row_of ctx cmd parent patch now]"
    and "updates_pass run_checks (run_context_at (cc_tenant_id ctx) (er_run_id (acp_expected_run cmd)) run parent
          (int (acp_expected_context_revision cmd)))
        (run_patched (acp_context_snapshot_id cmd) (int (acp_expected_context_revision cmd) + 1)
          (r_version run + 1) (r_next_seq run + 1) now) (db_runs db)"
    and "db_runs db' = sql_update (run_context_at (cc_tenant_id ctx) (er_run_id (acp_expected_run cmd)) run parent
          (int (acp_expected_context_revision cmd)))
        (run_patched (acp_context_snapshot_id cmd) (int (acp_expected_context_revision cmd) + 1)
          (r_version run + 1) (r_next_seq run + 1) now) (db_runs db)"
    and "db_events db' = db_events db @ [event_row_of (context_patched_event ext ctx cmd parent
        (patched_context (acp_merge_strategy cmd) current patch) (r_next_seq run) now)]"
    and "db_outbox db' = db_outbox db @ [outbox_row_of (context_patched_event ext ctx cmd parent
        (patched_context (acp_merge_strategy cmd) current patch) (r_next_seq run) now)]"
    and "db_tasks db' = db_tasks db" and "disposition c = Applied"
  using assms unfolding patch_locked_context_def Let_def
  apply (clarsimp simp: txn_iffs ok_or_Inr_iff u64_checked_add_Some json_value_def
      insert_context_snapshot_def insert_context_def insert_context_patch_def)
  apply (erule finish_receipt_frame)
  apply (rule that, assumption, assumption)
  apply (simp_all add: add.commute committed_run_def patched_snapshot_def Let_def)
  done

lemma apply_context_patch_cases:
  assumes "apply_context_patch ext ttl ctx cmd now db = Inr (c, db')"
  obtains (replayed) outcome event where "db' = db" and "duplicate_run ctx outcome event = Inr c"
    | (patched) run k rs where "find_run (cc_tenant_id ctx) (er_run_id (acp_expected_run cmd)) db = Some run"
        and "current_context run db = Some k" and "\<not> run_terminal (r_status run)"
        and "snd (r_context_revision run) = int (acp_expected_context_revision cmd)"
        and "\<not> expectation_broken (acp_expected_run cmd) (run_snapshot_of run)"
        and "patch_locked_context ext ctx cmd now run (k_value k) (run_snapshot_of run) (db\<lparr>db_receipts := rs\<rparr>)
             = Inr (c, db')"
proof -
  let ?body = "bindT (locked_run_of (cc_tenant_id ctx) (er_run_id (acp_expected_run cmd)) ''run was not found'') (\<lambda>run.
      bindT (\<lambda>db. liftT (ok_or (current_context run db)
               (store_error_of NotFound ''run was not found'')) db) (\<lambda>context_row.
      bindT (liftT (decode_control_run run)) (\<lambda>snapshot.
      thenT (guardT (\<not> run_terminal (rs_status snapshot)) (store_error_of TerminalRun ''run is terminal''))
      (thenT (liftT (validate_context_expectations cmd snapshot (snd (r_context_revision run))))
      (thenT (guardT (case rs_deadline snapshot of None \<Rightarrow> True | Some deadline \<Rightarrow> now < deadline)
               (store_error_of DeadlineExceeded ''run deadline has elapsed''))
      (patch_locked_context ext ctx cmd now run (k_value context_row) snapshot))))))"
  from assms have "with_receipt ctx now ttl (duplicate_run ctx) ?body db = Inr (c, db')"
    by (auto simp: apply_context_patch_def txn_iffs)
  then show thesis
  proof (cases rule: with_receipt_cases)
    case replayed
    then show ?thesis using that(1) by blast
  next
    case fresh
    then show ?thesis
      using that(2) [where rs = "db_receipts db @ [new_receipt ctx now (int ttl)]"]
      by (auto simp: txn_iffs decode_control_run_Inr find_run_def current_context_def
          validate_context_expectations_def ok_or_Inr_iff bindR_Inr_iff split: if_splits)
  qed
qed

lemma apply_context_patch_effect:
  assumes "runs_ok db" and "apply_context_patch ext ttl ctx cmd now db = Inr (c, db')"
  shows "quiet db db' \<or> advances db db'"
  using assms(2)
proof (cases rule: apply_context_patch_cases)
  case (patched run k rs)
  from find_run_Some [OF patched(1)]
  have run: "run \<in> set (db_runs db)" "r_tenant run = cc_tenant_id ctx"
      "r_id run = er_run_id (acp_expected_run cmd)" by simp_all
  from patched(6) have "advances db db'"
  proof (rule patch_locked_context_effect)
    fix parent patch
    let ?P = "run_context_at (cc_tenant_id ctx) (er_run_id (acp_expected_run cmd)) run parent
          (int (acp_expected_context_revision cmd))"
    let ?f = "run_patched (acp_context_snapshot_id cmd) (int (acp_expected_context_revision cmd) + 1)
          (r_version run + 1) (r_next_seq run + 1) now"
    let ?e = "context_patched_event ext ctx cmd parent
        (patched_context (acp_merge_strategy cmd) (k_value k) patch) (r_next_seq run) now"
    assume "fst (r_context_revision run) = Some parent"
      and "updates_pass run_checks ?P ?f (db_runs (db\<lparr>db_receipts := rs\<rparr>))"
      and "db_runs db' = sql_update ?P ?f (db_runs (db\<lparr>db_receipts := rs\<rparr>))"
      and "db_events db' = db_events (db\<lparr>db_receipts := rs\<rparr>) @ [event_row_of ?e]"
      and "db_outbox db' = db_outbox (db\<lparr>db_receipts := rs\<rparr>) @ [outbox_row_of ?e]"
    then show "advances db db'"
      using run patched(4)
      by (intro advances_by_update [where P = ?P and f = ?f and e = ?e, OF assms(1) run(1) patched(3)])
         (auto simp: run_context_at_def run_at_def same_run_def run_patched_def prod_eq_iff)
  qed
  then show ?thesis ..
qed (simp add: quiet_def)

lemma apply_context_patch_keys:
  assumes "task_keys_ok db" and "apply_context_patch ext ttl ctx cmd now db = Inr (c, db')"
  shows "task_keys_ok db'"
  using assms(2)
proof (cases rule: apply_context_patch_cases)
  case (patched run k rs)
  from patched(6) assms(1) show ?thesis
    by (elim patch_locked_context_effect) (simp add: task_keys_ok_def)
qed (use assms(1) in simp)

interpretation patch_cmd: run_command
  "\<lambda>(ext, ttl, ctx, cmd, now). apply_context_patch ext ttl ctx cmd now"
  by unfold_locales
     (auto dest: apply_context_patch_effect [OF store_okD(1)] apply_context_patch_keys [OF store_okD(2)])

section \<open>A patch is applied to the current context\<close>

lemma context_row_sel [simp]:
  "k_id (context_row_of tenant run revision parent now ctx s v) = ns_context_snapshot_id s"
  "k_tenant (context_row_of tenant run revision parent now ctx s v) = tenant"
  "k_run (context_row_of tenant run revision parent now ctx s v) = run"
  "k_revision (context_row_of tenant run revision parent now ctx s v) = revision"
  "k_parent (context_row_of tenant run revision parent now ctx s v) = parent"
  "k_value (context_row_of tenant run revision parent now ctx s v) = v"
  "k_digest (context_row_of tenant run revision parent now ctx s v) = ns_digest s"
  by (simp_all add: context_row_of_def)

lemma patched_snapshot_sel [simp]:
  "ns_context_snapshot_id (patched_snapshot ext cmd v) = acp_context_snapshot_id cmd"
  "ns_digest (patched_snapshot ext cmd v) = ext_sha256 ext (payload_bytes (ext_to_vec ext v))"
  by (simp_all add: patched_snapshot_def Let_def)

text \<open>
  C17: an applied patch was made on the current context revision of a live run. The row it appends
  follows the current snapshot: its parent is that snapshot, its revision the next one, its value
  what reading back the text of the patched value gives, and its digest the digest of that text.
  The patched value is the patch itself when the strategy is to replace, and the merge patch of the
  current value by it when the strategy is to merge. The new row is the current context of the run
  afterwards, the patch is recorded with both, and neither the status of the run nor its tasks change.
\<close>

theorem apply_context_patch_appends_snapshot:
  assumes "runs_ok db" and "apply_context_patch ext ttl ctx cmd now db = Inr (c, db')"
    and "disposition c = Applied"
  shows "\<exists>run \<in> set (db_runs db). \<exists>run' \<in> set (db_runs db'). \<exists>base \<in> set (db_contexts db). \<exists>row patch value.
      r_id run = er_run_id (acp_expected_run cmd) \<and> \<not> run_terminal (r_status run)
    \<and> same_run run run' \<and> r_status run' = r_status run
    \<and> r_context_revision run = (Some (k_id base), int (acp_expected_context_revision cmd))
    \<and> ext_from_slice ext (acp_patch cmd) = Some patch
    \<and> db_contexts db' = db_contexts db @ [row] \<and> k_id row = acp_context_snapshot_id cmd
    \<and> k_parent row = Some (k_id base) \<and> k_revision row = snd (r_context_revision run) + 1
    \<and> k_tenant row = cc_tenant_id ctx \<and> k_run row = r_id run
    \<and> (acp_merge_strategy cmd = MergeReplace \<longrightarrow> value = patch)
    \<and> (acp_merge_strategy cmd = MergePatch \<longrightarrow> value = merge_json_patch (k_value base) patch)
    \<and> (let text = ext_to_vec ext value in
         ext_from_slice ext text = Some (k_value row) \<and> k_digest row = ext_sha256 ext (payload_bytes text))
    \<and> r_context_revision run' = (Some (k_id row), k_revision row)
    \<and> (\<exists>h. db_context_patches db' = db_context_patches db @ [h]
         \<and> h_base h = k_id base \<and> h_result h = k_id row \<and> h_patch h = patch)
    \<and> db_tasks db' = db_tasks db"
  using assms(2)
proof (cases rule: apply_context_patch_cases)
  case (replayed outcome event)
  then have "disposition c = Duplicate" by (auto simp: duplicate_run_def result_iffs)
  then show ?thesis using assms(3) by simp
next
  case (patched run k rs)
  from find_run_Some [OF patched(1)]
  have run: "run \<in> set (db_runs db)" "r_tenant run = cc_tenant_id ctx"
      "r_id run = er_run_id (acp_expected_run cmd)" by simp_all
  have base: "k \<in> set (db_contexts db)" "fst (r_context_revision run) = Some (k_id k)"
    using patched(2) by (auto simp: current_context_def dest!: find_Some_in)
  from patched(6) show ?thesis
  proof (rule patch_locked_context_effect)
    fix parent patch v
    let ?P = "run_context_at (cc_tenant_id ctx) (er_run_id (acp_expected_run cmd)) run parent
          (int (acp_expected_context_revision cmd))"
    let ?f = "run_patched (acp_context_snapshot_id cmd) (int (acp_expected_context_revision cmd) + 1)
          (r_version run + 1) (r_next_seq run + 1) now"
    let ?row = "context_row_of (cc_tenant_id ctx) (er_run_id (acp_expected_run cmd))
        (int (acp_expected_context_revision cmd) + 1) (Some parent) now ctx
        (patched_snapshot ext cmd (patched_context (acp_merge_strategy cmd) (k_value k) patch)) v"
    assume eff: "fst (r_context_revision run) = Some parent" "ext_from_slice ext (acp_patch cmd) = Some patch"
      "ext_from_slice ext (ext_to_vec ext (patched_context (acp_merge_strategy cmd) (k_value k) patch)) = Some v"
      "db_contexts db' = db_contexts (db\<lparr>db_receipts := rs\<rparr>) @ [?row]"
      "db_context_patches db' = db_context_patches (db\<lparr>db_receipts := rs\<rparr>)
        @ [context_patch_row_of ctx cmd parent patch now]"
      "db_runs db' = sql_update ?P ?f (db_runs (db\<lparr>db_receipts := rs\<rparr>))"
      "db_tasks db' = db_tasks (db\<lparr>db_receipts := rs\<rparr>)"
    have "?P run" using run eff(1) patched(4) by (simp add: run_context_at_def run_at_def prod_eq_iff)
    then have "?f run \<in> set (db_runs db')"
      unfolding eff(6) set_sql_update using run(1) by (intro image_eqI [of _ _ run]) simp_all
    then show ?thesis
      using eff base run patched(3,4)
      by (intro bexI [of _ run] bexI [of _ "?f run"] bexI [of _ k] exI [of _ ?row] exI [of _ patch]
             exI [of _ "patched_context (acp_merge_strategy cmd) (k_value k) patch"])
         (simp_all add: same_run_def run_patched_def prod_eq_iff Let_def context_patch_row_of_def
            patched_context_def)
  qed
qed

definition sample_patch :: apply_context_patch_command where
  "sample_patch = \<lparr> acp_expected_run = sample_expected, acp_expected_context_revision = 1,
     acp_event_id = 46, acp_patch_id = 63, acp_context_snapshot_id = 64, acp_schema_version = 1,
     acp_patch = ''{}'', acp_merge_strategy = MergePatch \<rparr>"

theorem apply_context_patch_appends_snapshot_witness:
  "\<exists>c db'. apply_context_patch sample_create_ext 1000 (sample_context 76 ''p1'') sample_patch 110
      sample_planned_db = Inr (c, db')
    \<and> (\<exists>run' \<in> set (db_runs db'). r_context_revision run' = (Some 64, 2))"
proof -
  have "\<exists>c db'. apply_context_patch sample_create_ext 1000 (sample_context 76 ''p1'') sample_patch 110
      sample_planned_db = Inr (c, db') \<and> disposition c = Applied"
    by (simp add: sample_patch_def sample_plan_def sample_context_row_def sample_planned_db_def
        sample_create_ext_def sample_defs status_sets apply_context_patch_def validate_context_patch_def
        current_context_def validate_context_expectations_def patch_locked_context_def patched_context_def
        patched_snapshot_def context_patched_event_def digest_json_def insert_context_patch_def
        context_patch_row_of_def merge_strategy_text_def run_patched_def run_context_at_def revise_eval
        create_eval txn_eval)
  then obtain c db' where run: "apply_context_patch sample_create_ext 1000 (sample_context 76 ''p1'')
      sample_patch 110 sample_planned_db = Inr (c, db')" and d: "disposition c = Applied" by blast
  from apply_context_patch_appends_snapshot [OF store_okD(1) [OF sample_planned_ok] run d] show ?thesis
    using run by (auto simp: Let_def sample_patch_def sample_planned_db_def sample_defs)
qed

end
