(* ===== verification/ExternalRows.thy ===== *)
theory ExternalRows
  imports ChildJoin
begin

text \<open>
  What the commands on external executions share: the rows they lock by id, and the lemma that a
  command which appends one event and advances its run by \<open>advance_run_event_batch\<close> advances the run.
\<close>

section \<open>Locked executions\<close>

definition tool_of :: "uuid \<Rightarrow> uuid \<Rightarrow> tool_row \<Rightarrow> bool" where
  "tool_of tenant i x \<longleftrightarrow> x_tenant x = tenant \<and> x_id x = i"

definition agent_of :: "uuid \<Rightarrow> uuid \<Rightarrow> agent_row \<Rightarrow> bool" where
  "agent_of tenant i g \<longleftrightarrow> g_tenant g = tenant \<and> g_id g = i"

definition lock_tool_by_id :: "uuid \<Rightarrow> uuid \<Rightarrow> tool_row txn" where
  "lock_tool_by_id tenant i = (\<lambda>db. liftT (ok_or (find (tool_of tenant i) (db_tools db))
     (store_error_of NotFound ''tool execution was not found'')) db)"

definition lock_agent_by_id :: "uuid \<Rightarrow> uuid \<Rightarrow> agent_row txn" where
  "lock_agent_by_id tenant i = (\<lambda>db. liftT (ok_or (find (agent_of tenant i) (db_agents db))
     (store_error_of NotFound ''Agent execution was not found'')) db)"

lemma lock_external_iff [txn_iffs]:
  "lock_tool_by_id tenant i db = Inr (x, db') \<longleftrightarrow> find (tool_of tenant i) (db_tools db) = Some x \<and> db' = db"
  "lock_agent_by_id tenant i db = Inr (g, db') \<longleftrightarrow> find (agent_of tenant i) (db_agents db) = Some g \<and> db' = db"
  by (simp_all add: lock_tool_by_id_def lock_agent_by_id_def txn_iffs ok_or_Inr_iff)

lemma keeps_lock_external [keeps_intros]:
  "keeps g (lock_tool_by_id tenant i)" "keeps g (lock_agent_by_id tenant i)"
  by (auto simp: keeps_def txn_iffs)

section \<open>One event, one step of the run\<close>

definition run_projected :: "int \<Rightarrow> run_status \<Rightarrow> micros \<Rightarrow> run_row \<Rightarrow> run_row" where
  "run_projected next_seq status now r = r\<lparr>r_version := r_version r + 1, r_next_seq := next_seq,
     r_status := status, r_updated_at := now\<rparr>"

lemma run_projected_fields [simp]:
  "r_status (run_projected n status now run) = status" "r_next_seq (run_projected n status now run) = n"
  by (simp_all add: run_projected_def)

lemma advance_batch_effect:
  assumes "advance_run_event_batch tenant run version generation next_seq status now db = Inr (u, db')"
  obtains "updates_pass run_checks (run_at tenant run version generation) (run_projected next_seq status now) (db_runs db)"
    and "db' = db\<lparr>db_runs := sql_update (run_at tenant run version generation)
          (run_projected next_seq status now) (db_runs db)\<rparr>"
proof -
  have "(\<lambda>r. r\<lparr>r_version := r_version r + 1, r_next_seq := next_seq, r_status := status,
      r_updated_at := now\<rparr>) = run_projected next_seq status now"
    by (simp add: run_projected_def fun_eq_iff)
  with assms show thesis by (intro that) (simp_all add: advance_run_event_batch_iff Let_def)
qed

lemma keeps_advance_batch [keeps_intros]:
  "(\<And>db v. g (db\<lparr>db_runs := v\<rparr>) = g db)
   \<Longrightarrow> keeps g (advance_run_event_batch tenant run version generation next_seq status now)"
  by (auto simp: keeps_def elim: advance_batch_effect)

lemma advances_by_batch:
  assumes "runs_ok db" and "find_run tenant i db = Some run" and "\<not> run_terminal (r_status run)"
    and "updates_pass run_checks (run_at tenant i (r_version run) (r_generation run))
          (run_projected (r_next_seq run + 1) status now) (db_runs db)"
    and "db_runs db' = sql_update (run_at tenant i (r_version run) (r_generation run))
          (run_projected (r_next_seq run + 1) status now) (db_runs db)"
    and "db_events db' = db_events db @ [event_row_of e]"
    and "db_outbox db' = db_outbox db @ [outbox_row_of e]"
    and "ei_tenant_id e = tenant" and "ei_run_id e = i" and "ei_sequence e = r_next_seq run"
  shows "advances db db'"
  using assms(4-) find_run_Some [OF assms(2)]
  by (intro advances_by_update [where e = e, OF assms(1) _ assms(3), rotated 3, OF assms(4) _ _ _ _ assms(5)])
     (auto simp: run_at_def same_run_def run_projected_def)

end
