(* ===== verification/DueWork.thy ===== *)
theory DueWork
  imports ExternalRows
begin

text \<open>
  Due retries of external executions: \<open>durable-store/src/due_work.rs\<close> and \<open>apply_due_work\<close> of
  \<open>transaction_executor.rs\<close>. Proved: a due retry is consumed once, by the revision that was
  scanned, and exactly one recovery task of the run is created for it.
\<close>

section \<open>The command\<close>

datatype due_work_kind = DueToolRetry | DueAgentRetry

record due_work_cursor =
  dwc_due_at :: micros
  dwc_kind :: due_work_kind
  dwc_execution_id :: uuid

record due_work_candidate =
  dwk_tenant_id :: uuid
  dwk_run_id :: uuid
  dwk_stage_execution_id :: "uuid option"
  dwk_target :: due_work_target
  dwk_due_at :: micros
  dwk_expected_revision :: nat
  dwk_run_version :: nat
  dwk_execution_generation :: nat
  dwk_checkpoint_sequence :: nat

definition candidate_kind :: "due_work_candidate \<Rightarrow> due_work_kind" where
  "candidate_kind c = (case dwk_target c of DueTool _ \<Rightarrow> DueToolRetry | DueAgent _ \<Rightarrow> DueAgentRetry)"

definition execution_id_bytes :: "due_work_candidate \<Rightarrow> uuid" where
  "execution_id_bytes c = (case dwk_target c of DueTool i \<Rightarrow> i | DueAgent i \<Rightarrow> i)"

definition candidate_cursor :: "due_work_candidate \<Rightarrow> due_work_cursor" where
  "candidate_cursor c = \<lparr> dwc_due_at = dwk_due_at c, dwc_kind = candidate_kind c,
     dwc_execution_id = execution_id_bytes c \<rparr>"

record apply_due_work_command =
  adw_candidate :: due_work_candidate
  adw_expected_run :: expected_run
  adw_recovery_task :: new_task
  adw_applied_event_id :: uuid

definition due_work_shape_is_valid :: "apply_due_work_command \<Rightarrow> bool" where
  "due_work_shape_is_valid cmd \<longleftrightarrow>
    (let candidate = adw_candidate cmd; task = adw_recovery_task cmd; run = adw_expected_run cmd in
     er_run_id run = dwk_run_id candidate
     \<and> er_version run = Some (dwk_run_version candidate)
     \<and> er_execution_generation run = Some (dwk_execution_generation candidate)
     \<and> nt_stage_execution_id task = dwk_stage_execution_id candidate
     \<and> nt_kind task = KReconcile
     \<and> nt_generation task = dwk_execution_generation candidate
     \<and> nt_based_on_checkpoint_sequence task = dwk_checkpoint_sequence candidate
     \<and> dwk_checkpoint_sequence candidate > 0
     \<and> nt_max_attempts task > 0
     \<and> nt_created_event_id task = adw_applied_event_id cmd)"

section \<open>The run and the execution\<close>

definition validate_due_work_run ::
  "apply_due_work_command \<Rightarrow> locked_event_run \<Rightarrow> micros \<Rightarrow> unit store_result" where
  "validate_due_work_run cmd run now =
    (let candidate = adw_candidate cmd; task = adw_recovery_task cmd; r = le_run run in
     if r_status r \<notin> {RunQueued, RunRunning, RunWaiting, RunApprovalRequired, RunRetrying, RunPaused}
       then Inl (store_error_of TerminalRun ''run is terminal'')
     else if i64_try_from (dwk_run_version candidate) \<noteq> Some (r_version r)
          \<or> i64_try_from (dwk_execution_generation candidate) \<noteq> Some (r_generation r)
       then Inl (store_error_of VersionConflict ''Run changed after the due-work scan'')
     else if i64_try_from (dwk_checkpoint_sequence candidate) \<noteq> le_checkpoint_sequence run
       then Inl (store_error_of VersionConflict ''Run checkpoint changed after the due-work scan'')
     else if dwk_due_at candidate > now
       then Inl (store_error_of InvalidTransition ''external retry is not due'')
     else if (case r_deadline r of None \<Rightarrow> False | Some deadline \<Rightarrow> deadline \<le> now)
          \<or> (case nt_deadline task of None \<Rightarrow> False | Some deadline \<Rightarrow> deadline \<le> now)
       then Inl (store_error_of DeadlineExceeded ''due-work Run or recovery Task deadline elapsed'')
     else if nt_available_at task > now
       then Inl (invalid_command ''due-work recovery Task must be immediately available'')
     else Inr ())"

record consumed_due_work =
  cdw_kind :: string
  cdw_event_type :: string
  cdw_resource_kind :: string
  cdw_execution_id :: uuid
  cdw_stage_execution_id :: "uuid option"
  cdw_next_revision :: nat
  cdw_next_revision_i64 :: int

definition due_tool :: "uuid \<Rightarrow> uuid \<Rightarrow> int \<Rightarrow> micros \<Rightarrow> micros \<Rightarrow> tool_row \<Rightarrow> bool" where
  "due_tool tenant i revision due_at now x \<longleftrightarrow> tool_of tenant i x \<and> x_status x = ToolRetryScheduled
     \<and> x_attempts x = revision \<and> x_retry_at x = Some due_at \<and> due_at \<le> now"

definition tool_retry_consumed :: "micros \<Rightarrow> tool_row \<Rightarrow> tool_row" where
  "tool_retry_consumed now x = x\<lparr>x_status := ToolReconciling,
     x_recovery_action := Some ''retry_same_request'', x_retry_at := None, x_updated_at := now\<rparr>"

definition due_agent :: "uuid \<Rightarrow> uuid \<Rightarrow> int \<Rightarrow> micros \<Rightarrow> micros \<Rightarrow> agent_row \<Rightarrow> bool" where
  "due_agent tenant i revision due_at now g \<longleftrightarrow> agent_of tenant i g \<and> g_status g = AgentReconciling
     \<and> g_version g = revision \<and> g_retry_at g = Some due_at \<and> due_at \<le> now"

definition agent_retry_consumed :: "int \<Rightarrow> micros \<Rightarrow> agent_row \<Rightarrow> agent_row" where
  "agent_retry_consumed version now g =
     g\<lparr>g_version := version, g_retry_at := None, g_updated_at := now\<rparr>"

definition consume_due_tool ::
  "uuid \<Rightarrow> uuid \<Rightarrow> uuid \<Rightarrow> int \<Rightarrow> apply_due_work_command \<Rightarrow> micros \<Rightarrow> consumed_due_work txn" where
  "consume_due_tool tenant run_id i revision cmd now =
    (let candidate = adw_candidate cmd; due_at = dwk_due_at candidate in
    bindT (lock_tool_by_id tenant i) (\<lambda>x.
    thenT (guardT (x_run x = run_id)
             (store_error_of NotFound ''Tool due-work belongs to another run''))
    (thenT (guardT (x_status x = ToolRetryScheduled \<and> x_attempts x = revision \<and> x_retry_at x = Some due_at)
             (store_error_of VersionConflict ''Tool retry changed after the due-work scan''))
    (bindT (update_tools (due_tool tenant i revision due_at now) (tool_retry_consumed now)) (\<lambda>updated.
    thenT (guardT (updated = 1)
             (store_error_of VersionConflict ''Tool retry was consumed concurrently''))
    (returnT \<lparr> cdw_kind = ''tool_retry'', cdw_event_type = ''tool.retry_due'',
       cdw_resource_kind = ''tool_execution'', cdw_execution_id = i,
       cdw_stage_execution_id = x_stage x, cdw_next_revision = dwk_expected_revision candidate,
       cdw_next_revision_i64 = revision \<rparr>))))))"

definition consume_due_agent ::
  "uuid \<Rightarrow> uuid \<Rightarrow> uuid \<Rightarrow> int \<Rightarrow> apply_due_work_command \<Rightarrow> micros \<Rightarrow> consumed_due_work txn" where
  "consume_due_agent tenant run_id i revision cmd now =
    (let due_at = dwk_due_at (adw_candidate cmd) in
    bindT (lock_agent_by_id tenant i) (\<lambda>g.
    thenT (guardT (g_run g = run_id)
             (store_error_of NotFound ''Agent due-work belongs to another run''))
    (thenT (guardT (g_status g = AgentReconciling \<and> g_version g = revision \<and> g_retry_at g = Some due_at)
             (store_error_of VersionConflict ''Agent retry changed after the due-work scan''))
    (bindT (liftT (checked_add_i64_or (g_version g) 1 (inconsistent ''Agent execution version overflow'')))
      (\<lambda>next_revision.
    bindT (update_agents (due_agent tenant i revision due_at now)
             (agent_retry_consumed next_revision now)) (\<lambda>updated.
    thenT (guardT (updated = 1)
             (store_error_of VersionConflict ''Agent retry was consumed concurrently''))
    (bindT (liftT (nonnegative_u64 next_revision ''Agent execution version'')) (\<lambda>version.
    returnT \<lparr> cdw_kind = ''agent_retry'', cdw_event_type = ''agent.retry_due'',
       cdw_resource_kind = ''agent_execution'', cdw_execution_id = i,
       cdw_stage_execution_id = g_stage g, cdw_next_revision = version,
       cdw_next_revision_i64 = next_revision \<rparr>))))))))"

definition consume_external_due_work ::
  "uuid \<Rightarrow> uuid \<Rightarrow> micros \<Rightarrow> apply_due_work_command \<Rightarrow> consumed_due_work txn" where
  "consume_external_due_work tenant run_id now cmd =
    bindT (liftT (to_i64 (dwk_expected_revision (adw_candidate cmd)) ''due-work revision'')) (\<lambda>revision.
    case dwk_target (adw_candidate cmd) of
        DueTool i \<Rightarrow> consume_due_tool tenant run_id i revision cmd now
      | DueAgent i \<Rightarrow> consume_due_agent tenant run_id i revision cmd now)"

section \<open>The handler\<close>

definition due_work_committed ::
  "command_disposition \<Rightarrow> due_work_outcome \<Rightarrow> uuid option \<Rightarrow> bool \<Rightarrow> due_work_outcome committed" where
  "due_work_committed d value event wake_workers =
    \<lparr> disposition = d, committed_value = value,
      event_ids = (case event of None \<Rightarrow> [] | Some e \<Rightarrow> [e]),
      durable_follow_ups = (if d = Applied then [FollowTask (dwo_recovery_task_id value)] else []),
      post_commit_hints = [RunEventsAvailable (dwo_run_id value), InvalidateRunCache (dwo_run_id value)]
        @ (if wake_workers then [WakeWorkers] else []) \<rparr>"

lemma due_work_committed_sel [simp]:
  "disposition (due_work_committed d v e w) = d" "committed_value (due_work_committed d v e w) = v"
  by (simp_all add: due_work_committed_def)

definition due_work_event ::
  "command_context \<Rightarrow> apply_due_work_command \<Rightarrow> consumed_due_work \<Rightarrow> int \<Rightarrow> micros \<Rightarrow> event_insert" where
  "due_work_event ctx cmd consumed sequence now = (let candidate = adw_candidate cmd in
    \<lparr> ei_event_id = adw_applied_event_id cmd, ei_tenant_id = cc_tenant_id ctx,
      ei_run_id = dwk_run_id candidate, ei_sequence = sequence,
      ei_event_type = cdw_event_type consumed,
      ei_payload = JObject [(''due_work_kind'', JString (cdw_kind consumed)),
        (''execution_id'', json_uuid (execution_id_bytes candidate)),
        (''expected_revision'', JInt (int (dwk_expected_revision candidate))),
        (''next_revision'', JInt (int (cdw_next_revision consumed))),
        (''retry_at_micros'', JInt (dwk_due_at candidate)),
        (''recovery_task_id'', json_uuid (nt_task_id (adw_recovery_task cmd)))],
      ei_payload_schema_version = 1, ei_producer = ''scheduler'', ei_context = ctx,
      ei_correlation_id = cc_correlation_id ctx, ei_occurred_at = None, ei_recorded_at = now \<rparr>)"

lemma due_work_event_sel [simp]:
  "ei_tenant_id (due_work_event ctx cmd w n now) = cc_tenant_id ctx"
  "ei_run_id (due_work_event ctx cmd w n now) = dwk_run_id (adw_candidate cmd)"
  "ei_sequence (due_work_event ctx cmd w n now) = n"
  by (simp_all add: due_work_event_def Let_def)

definition due_work_outcome_of ::
  "command_context \<Rightarrow> apply_due_work_command \<Rightarrow> consumed_due_work \<Rightarrow> run_status \<Rightarrow> micros
   \<Rightarrow> due_work_outcome" where
  "due_work_outcome_of ctx cmd consumed status now =
    \<lparr> dwo_tenant_id = cc_tenant_id ctx, dwo_run_id = dwk_run_id (adw_candidate cmd),
      dwo_target = dwk_target (adw_candidate cmd),
      dwo_recovery_task_id = nt_task_id (adw_recovery_task cmd), dwo_run_status = status,
      dwo_execution_revision = cdw_next_revision consumed, dwo_applied_at = now \<rparr>"

definition apply_locked_due_work ::
  "externals \<Rightarrow> command_context \<Rightarrow> apply_due_work_command \<Rightarrow> micros \<Rightarrow> locked_event_run
   \<Rightarrow> due_work_outcome committed txn" where
  "apply_locked_due_work ext ctx cmd now run =
    (let tenant = cc_tenant_id ctx; run_id = dwk_run_id (adw_candidate cmd);
         event_id = adw_applied_event_id cmd; paused = (r_status (le_run run) = RunPaused);
         status = (if paused then RunPaused else RunQueued) in
    bindT (consume_external_due_work tenant run_id now cmd) (\<lambda>consumed.
    thenT (guardT (nt_stage_execution_id (adw_recovery_task cmd) = cdw_stage_execution_id consumed)
             (invalid_command ''due-work recovery Task stage does not match the Execution''))
    (thenT (insert_event (due_work_event ctx cmd consumed (r_next_seq (le_run run)) now))
    (thenT (insert_new_task ext tenant run_id event_id now
             (if paused then TaskScheduled else TaskQueued) (adw_recovery_task cmd))
    (bindT (liftT (checked_add_i64_or (r_next_seq (le_run run)) 1
             (inconsistent ''run event sequence overflow''))) (\<lambda>next_seq.
    thenT (advance_run_event_batch tenant run_id (r_version (le_run run)) (r_generation (le_run run))
             next_seq status now)
    (let value = due_work_outcome_of ctx cmd consumed status now in
    thenT (finish_receipt ctx ReceiptApplied (encode_due_work_receipt value) (Some event_id)
             (Some (cdw_resource_kind consumed, cdw_execution_id consumed, cdw_next_revision_i64 consumed)))
    (returnT (due_work_committed Applied value (Some event_id) (\<not> paused))))))))))"

definition duplicate_due_work ::
  "command_context \<Rightarrow> stored_outcome \<Rightarrow> uuid option \<Rightarrow> due_work_outcome committed store_result" where
  "duplicate_due_work ctx outcome event =
    bindR (decode_due_work_receipt (cc_tenant_id ctx) outcome) (\<lambda>value.
    Inr (due_work_committed Duplicate value event False))"

definition apply_due_work ::
  "externals \<Rightarrow> nat \<Rightarrow> command_context \<Rightarrow> apply_due_work_command \<Rightarrow> micros
   \<Rightarrow> due_work_outcome committed txn" where
  "apply_due_work ext ttl ctx cmd now =
    thenT (guardT (due_work_shape_is_valid cmd \<and> dwk_tenant_id (adw_candidate cmd) = cc_tenant_id ctx)
             (invalid_command ''invalid external due-work command shape''))
    (with_receipt ctx now ttl (duplicate_due_work ctx)
      (bindT (lock_event_run (cc_tenant_id ctx) (dwk_run_id (adw_candidate cmd))) (\<lambda>run.
      thenT (liftT (validate_due_work_run cmd run now))
      (apply_locked_due_work ext ctx cmd now run))))"


section \<open>Effects\<close>

definition consumed_tools :: "command_context \<Rightarrow> apply_due_work_command \<Rightarrow> micros \<Rightarrow> db \<Rightarrow> tool_row list" where
  "consumed_tools ctx cmd now db = (case dwk_target (adw_candidate cmd) of
      DueTool i \<Rightarrow> sql_update (due_tool (cc_tenant_id ctx) i (int (dwk_expected_revision (adw_candidate cmd)))
        (dwk_due_at (adw_candidate cmd)) now) (tool_retry_consumed now) (db_tools db)
    | DueAgent _ \<Rightarrow> db_tools db)"

definition consumed_agents :: "command_context \<Rightarrow> apply_due_work_command \<Rightarrow> micros \<Rightarrow> db \<Rightarrow> agent_row list" where
  "consumed_agents ctx cmd now db = (case dwk_target (adw_candidate cmd) of
      DueTool _ \<Rightarrow> db_agents db
    | DueAgent i \<Rightarrow> sql_update (due_agent (cc_tenant_id ctx) i (int (dwk_expected_revision (adw_candidate cmd)))
        (dwk_due_at (adw_candidate cmd)) now)
        (agent_retry_consumed (int (dwk_expected_revision (adw_candidate cmd)) + 1) now) (db_agents db))"

text \<open>The execution that is due: found, of the run, and as it was scanned.\<close>

definition due_execution :: "uuid \<Rightarrow> apply_due_work_command \<Rightarrow> micros \<Rightarrow> db \<Rightarrow> bool" where
  "due_execution tenant cmd now db \<longleftrightarrow> (let candidate = adw_candidate cmd in case dwk_target candidate of
      DueTool i \<Rightarrow> (\<exists>x \<in> set (db_tools db). x_run x = dwk_run_id candidate
        \<and> due_tool tenant i (int (dwk_expected_revision candidate)) (dwk_due_at candidate) now x)
    | DueAgent i \<Rightarrow> (\<exists>g \<in> set (db_agents db). g_run g = dwk_run_id candidate
        \<and> due_agent tenant i (int (dwk_expected_revision candidate)) (dwk_due_at candidate) now g))"

lemma consume_due_work_effect:
  assumes "consume_external_due_work tenant run_id now cmd db = Inr (consumed, db')"
    and "tenant = cc_tenant_id ctx" and "run_id = dwk_run_id (adw_candidate cmd)"
    and "dwk_due_at (adw_candidate cmd) \<le> now"
  shows "db' = db\<lparr>db_tools := consumed_tools ctx cmd now db, db_agents := consumed_agents ctx cmd now db\<rparr>
    \<and> due_execution tenant cmd now db"
proof (cases "dwk_target (adw_candidate cmd)")
  case (DueTool i)
  then show ?thesis
    using assms by (auto simp: consume_external_due_work_def consume_due_tool_def txn_iffs Let_def
        consumed_tools_def consumed_agents_def due_execution_def due_tool_def dest!: find_Some_in)
next
  case (DueAgent i)
  then show ?thesis
    using assms by (auto simp: consume_external_due_work_def consume_due_agent_def txn_iffs Let_def
        consumed_tools_def consumed_agents_def due_execution_def due_agent_def add.commute
        dest!: find_Some_in)
qed

lemma validate_due_work_run_Inr:
  "validate_due_work_run cmd run now = Inr () \<Longrightarrow> \<not> run_terminal (r_status (le_run run))
     \<and> int (dwk_run_version (adw_candidate cmd)) = r_version (le_run run)
     \<and> int (dwk_execution_generation (adw_candidate cmd)) = r_generation (le_run run)
     \<and> dwk_due_at (adw_candidate cmd) \<le> now"
  by (auto simp: validate_due_work_run_def Let_def status_sets i64_try_from_def split: if_splits)

definition recovery_status :: "run_row \<Rightarrow> task_status" where
  "recovery_status r = (if r_status r = RunPaused then TaskScheduled else TaskQueued)"

definition recovered_run_status :: "run_row \<Rightarrow> run_status" where
  "recovered_run_status r = (if r_status r = RunPaused then RunPaused else RunQueued)"

lemma apply_locked_due_work_effect:
  assumes "apply_locked_due_work ext ctx cmd now run db = Inr (c, db')"
    and "dwk_due_at (adw_candidate cmd) \<le> now"
  obtains consumed input where "due_execution (cc_tenant_id ctx) cmd now db"
    and "db_tools db' = consumed_tools ctx cmd now db" and "db_agents db' = consumed_agents ctx cmd now db"
    and "db_tasks db' = db_tasks db @ [new_task_row (cc_tenant_id ctx) (dwk_run_id (adw_candidate cmd))
        (adw_applied_event_id cmd) now (adw_recovery_task cmd) (recovery_status (le_run run))
        (int (nt_generation (adw_recovery_task cmd)))
        (int (nt_based_on_checkpoint_sequence (adw_recovery_task cmd))) input]"
    and "\<forall>v \<in> set (db_tasks db). t_id v \<noteq> nt_task_id (adw_recovery_task cmd)"
    and "updates_pass run_checks (run_at (cc_tenant_id ctx) (dwk_run_id (adw_candidate cmd))
          (r_version (le_run run)) (r_generation (le_run run)))
        (run_projected (r_next_seq (le_run run) + 1) (recovered_run_status (le_run run)) now) (db_runs db)"
    and "db_runs db' = sql_update (run_at (cc_tenant_id ctx) (dwk_run_id (adw_candidate cmd))
          (r_version (le_run run)) (r_generation (le_run run)))
        (run_projected (r_next_seq (le_run run) + 1) (recovered_run_status (le_run run)) now) (db_runs db)"
    and "db_events db' = db_events db
        @ [event_row_of (due_work_event ctx cmd consumed (r_next_seq (le_run run)) now)]"
    and "db_outbox db' = db_outbox db
        @ [outbox_row_of (due_work_event ctx cmd consumed (r_next_seq (le_run run)) now)]"
    and "disposition c = Applied"
    and "dwo_run_status (committed_value c) = recovered_run_status (le_run run)"
proof -
  obtain consumed db1 db2 db3 where
      consume: "consume_external_due_work (cc_tenant_id ctx) (dwk_run_id (adw_candidate cmd)) now cmd db
        = Inr (consumed, db1)"
    and ins: "insert_new_task ext (cc_tenant_id ctx) (dwk_run_id (adw_candidate cmd)) (adw_applied_event_id cmd)
        now (recovery_status (le_run run)) (adw_recovery_task cmd)
        (db1\<lparr>db_events := db_events db1
            @ [event_row_of (due_work_event ctx cmd consumed (r_next_seq (le_run run)) now)],
          db_outbox := db_outbox db1
            @ [outbox_row_of (due_work_event ctx cmd consumed (r_next_seq (le_run run)) now)]\<rparr>) = Inr ((), db2)"
    and adv: "advance_run_event_batch (cc_tenant_id ctx) (dwk_run_id (adw_candidate cmd))
        (r_version (le_run run)) (r_generation (le_run run)) (r_next_seq (le_run run) + 1)
        (recovered_run_status (le_run run)) now db2 = Inr ((), db3)"
    and rest: "\<exists>rs. db' = db3\<lparr>db_receipts := rs\<rparr>"
    and c: "c = due_work_committed Applied (due_work_outcome_of ctx cmd consumed
        (recovered_run_status (le_run run)) now) (Some (adw_applied_event_id cmd))
        (r_status (le_run run) \<noteq> RunPaused)"
    using assms(1) unfolding apply_locked_due_work_def Let_def recovery_status_def [symmetric]
      recovered_run_status_def [symmetric]
    apply (clarsimp simp: txn_iffs simp del: advance_run_event_batch_iff)
    apply (erule finish_receipt_frame)
    apply (rule that, assumption, assumption, assumption)
     apply auto
    done
  from consume_due_work_effect [OF consume refl refl assms(2)]
  have db1: "db1 = db\<lparr>db_tools := consumed_tools ctx cmd now db, db_agents := consumed_agents ctx cmd now db\<rparr>"
    and due: "due_execution (cc_tenant_id ctx) cmd now db" by simp_all
  from ins obtain input where db2: "db2 = db1\<lparr>db_events := db_events db1
            @ [event_row_of (due_work_event ctx cmd consumed (r_next_seq (le_run run)) now)],
          db_outbox := db_outbox db1
            @ [outbox_row_of (due_work_event ctx cmd consumed (r_next_seq (le_run run)) now)],
          db_tasks := db_tasks db1 @ [new_task_row (cc_tenant_id ctx) (dwk_run_id (adw_candidate cmd))
        (adw_applied_event_id cmd) now (adw_recovery_task cmd) (recovery_status (le_run run))
        (int (nt_generation (adw_recovery_task cmd)))
        (int (nt_based_on_checkpoint_sequence (adw_recovery_task cmd))) input]\<rparr>"
    and fresh: "\<forall>v \<in> set (db_tasks db1). t_id v \<noteq> nt_task_id (adw_recovery_task cmd)"
    by (rule insert_new_task_effect) simp
  from adv obtain pass: "updates_pass run_checks (run_at (cc_tenant_id ctx) (dwk_run_id (adw_candidate cmd))
        (r_version (le_run run)) (r_generation (le_run run)))
        (run_projected (r_next_seq (le_run run) + 1) (recovered_run_status (le_run run)) now) (db_runs db2)"
    and db3: "db3 = db2\<lparr>db_runs := sql_update (run_at (cc_tenant_id ctx) (dwk_run_id (adw_candidate cmd))
        (r_version (le_run run)) (r_generation (le_run run)))
        (run_projected (r_next_seq (le_run run) + 1) (recovered_run_status (le_run run)) now) (db_runs db2)\<rparr>"
    by (rule advance_batch_effect)
  from rest obtain rs where rs: "db' = db3\<lparr>db_receipts := rs\<rparr>" by blast
  show thesis
    by (rule that [of input consumed])
       (use due fresh pass in \<open>simp_all add: rs db3 db2 db1 c due_work_outcome_of_def\<close>)
qed

lemma due_work_receipts [simp]:
  "due_execution tenant cmd now (db\<lparr>db_receipts := rs\<rparr>) = due_execution tenant cmd now db"
  "consumed_tools ctx cmd now (db\<lparr>db_receipts := rs\<rparr>) = consumed_tools ctx cmd now db"
  "consumed_agents ctx cmd now (db\<lparr>db_receipts := rs\<rparr>) = consumed_agents ctx cmd now db"
  by (simp_all add: due_execution_def consumed_tools_def consumed_agents_def Let_def split: due_work_target.splits)

lemmas due_work_effect = apply_locked_due_work_effect [where db = "db\<lparr>db_receipts := rs\<rparr>" for db rs, simplified]

lemma apply_due_work_cases:
  assumes "apply_due_work ext ttl ctx cmd now db = Inr (c, db')"
  obtains (replayed) outcome event where "db' = db" and "duplicate_due_work ctx outcome event = Inr c"
    | (applied) run rs where "due_work_shape_is_valid cmd"
        and "find_run (cc_tenant_id ctx) (dwk_run_id (adw_candidate cmd)) db = Some (le_run run)"
        and "validate_due_work_run cmd run now = Inr ()"
        and "apply_locked_due_work ext ctx cmd now run (db\<lparr>db_receipts := rs\<rparr>) = Inr (c, db')"
proof -
  from assms have valid: "due_work_shape_is_valid cmd" and "with_receipt ctx now ttl (duplicate_due_work ctx)
      (bindT (lock_event_run (cc_tenant_id ctx) (dwk_run_id (adw_candidate cmd))) (\<lambda>run.
      thenT (liftT (validate_due_work_run cmd run now))
      (apply_locked_due_work ext ctx cmd now run))) db = Inr (c, db')"
    by (auto simp: apply_due_work_def txn_iffs)
  from this(2) show thesis
  proof (cases rule: with_receipt_cases)
    case replayed
    then show ?thesis using that(1) by blast
  next
    case fresh
    then show ?thesis
      using valid that(2) [where rs = "db_receipts db @ [new_receipt ctx now (int ttl)]"]
      by (auto simp: txn_iffs find_run_def)
  qed
qed

lemma due_work_advances:
  assumes "runs_ok db" and "find_run (cc_tenant_id ctx) (dwk_run_id (adw_candidate cmd)) db = Some run"
    and "\<not> run_terminal (r_status run)"
    and "updates_pass run_checks (run_at (cc_tenant_id ctx) (dwk_run_id (adw_candidate cmd))
          (r_version run) (r_generation run)) (run_projected (r_next_seq run + 1) status now) (db_runs db)"
    and "db_runs db' = sql_update (run_at (cc_tenant_id ctx) (dwk_run_id (adw_candidate cmd))
          (r_version run) (r_generation run)) (run_projected (r_next_seq run + 1) status now) (db_runs db)"
    and "db_events db' = db_events db @ [event_row_of (due_work_event ctx cmd consumed (r_next_seq run) now)]"
    and "db_outbox db' = db_outbox db @ [outbox_row_of (due_work_event ctx cmd consumed (r_next_seq run) now)]"
  shows "advances db db'"
  by (rule advances_by_batch [OF assms]) simp_all

lemma apply_due_work_effect:
  assumes "runs_ok db" and "apply_due_work ext ttl ctx cmd now db = Inr (c, db')"
  shows "quiet db db' \<or> advances db db'"
  using assms(2)
proof (cases rule: apply_due_work_cases)
  case (applied run rs)
  from validate_due_work_run_Inr [OF applied(3)] have live: "\<not> run_terminal (r_status (le_run run))" and due: "dwk_due_at (adw_candidate cmd) \<le> now"
    by blast+
  from applied(4) due have "advances db db'"
    by (rule due_work_effect) (rule due_work_advances [OF assms(1) applied(2) live])
  then show ?thesis ..
qed (simp add: quiet_def)

lemma apply_due_work_keys:
  assumes "task_keys_ok db" and "apply_due_work ext ttl ctx cmd now db = Inr (c, db')"
  shows "task_keys_ok db'"
  using assms(2)
proof (cases rule: apply_due_work_cases)
  case (applied run rs)
  from validate_due_work_run_Inr [OF applied(3)] have due: "dwk_due_at (adw_candidate cmd) \<le> now" by blast
  from applied(4) due show ?thesis
    by (rule due_work_effect) (use assms(1) in \<open>auto simp: task_keys_ok_def\<close>)
qed (use assms(1) in simp)

interpretation due_work_cmd: run_command
  "\<lambda>(ext, ttl, ctx, cmd, now). apply_due_work ext ttl ctx cmd now"
  by unfold_locales
     (auto dest: apply_due_work_effect [OF store_okD(1)] apply_due_work_keys [OF store_okD(2)])

section \<open>A due retry is consumed once\<close>

lemma consumed_not_due:
  assumes "db_tools db' = consumed_tools ctx cmd now db" and "db_agents db' = consumed_agents ctx cmd now db"
  shows "\<not> due_execution (cc_tenant_id ctx) cmd now db'"
proof (cases "dwk_target (adw_candidate cmd)")
  case (DueTool i)
  let ?P = "due_tool (cc_tenant_id ctx) i (int (dwk_expected_revision (adw_candidate cmd)))
      (dwk_due_at (adw_candidate cmd)) now"
  have "\<not> ?P x" if "x \<in> set (db_tools db')" for x
    using that DueTool assms(1)
    by (auto simp: consumed_tools_def due_tool_def tool_retry_consumed_def elim!: in_sql_updateE split: if_splits)
  then show ?thesis using DueTool by (auto simp: due_execution_def Let_def)
next
  case (DueAgent i)
  let ?P = "due_agent (cc_tenant_id ctx) i (int (dwk_expected_revision (adw_candidate cmd)))
      (dwk_due_at (adw_candidate cmd)) now"
  have "\<not> ?P x" if "x \<in> set (db_agents db')" for x
    using that DueAgent assms(2)
    by (auto simp: consumed_agents_def due_agent_def agent_retry_consumed_def elim!: in_sql_updateE split: if_splits)
  then show ?thesis using DueAgent by (auto simp: due_execution_def Let_def)
qed

text \<open>
  C19: due work is applied only for a live run that has not changed since the scan, and for a retry
  that is still scheduled as it was scanned and is due. The retry is consumed, so no later
  application of the same candidate finds it. Exactly one task is added, a reconciliation of the
  run under its current generation; it is queued and the run is queued with it, unless the run is
  paused, when the task is scheduled and the run stays paused.
\<close>

theorem apply_due_work_consumes_due_retry:
  assumes "store_ok db" and "apply_due_work ext ttl ctx cmd now db = Inr (c, db')"
    and "disposition c = Applied"
  shows "due_execution (cc_tenant_id ctx) cmd now db \<and> \<not> due_execution (cc_tenant_id ctx) cmd now db'
    \<and> advances db db'
    \<and> (\<exists>run \<in> set (db_runs db). \<exists>task. r_id run = dwk_run_id (adw_candidate cmd)
         \<and> \<not> run_terminal (r_status run) \<and> r_version run = int (dwk_run_version (adw_candidate cmd))
         \<and> dwo_run_status (committed_value c) = recovered_run_status run
         \<and> db_tasks db' = db_tasks db @ [task] \<and> t_id task = nt_task_id (adw_recovery_task cmd)
         \<and> t_run task = r_id run \<and> t_kind task = KReconcile \<and> t_generation task = r_generation run
         \<and> t_status task = recovery_status run)"
  using assms(2)
proof (cases rule: apply_due_work_cases)
  case (replayed outcome event)
  then have "disposition c = Duplicate" by (auto simp: duplicate_due_work_def result_iffs)
  then show ?thesis using assms(3) by simp
next
  case (applied run rs)
  have shape: "nt_kind (adw_recovery_task cmd) = KReconcile"
      "nt_generation (adw_recovery_task cmd) = dwk_execution_generation (adw_candidate cmd)"
    using applied(1) by (simp_all add: due_work_shape_is_valid_def Let_def)
  note valid = validate_due_work_run_Inr [OF applied(3)]
  then have due: "dwk_due_at (adw_candidate cmd) \<le> now" by blast
  from applied(4) due obtain consumed input where eff: "due_execution (cc_tenant_id ctx) cmd now db"
    and rows: "db_tools db' = consumed_tools ctx cmd now db" "db_agents db' = consumed_agents ctx cmd now db"
    and tasks: "db_tasks db' = db_tasks db @ [new_task_row (cc_tenant_id ctx) (dwk_run_id (adw_candidate cmd))
        (adw_applied_event_id cmd) now (adw_recovery_task cmd) (recovery_status (le_run run))
        (int (nt_generation (adw_recovery_task cmd)))
        (int (nt_based_on_checkpoint_sequence (adw_recovery_task cmd))) input]"
    and status: "dwo_run_status (committed_value c) = recovered_run_status (le_run run)"
    by (rule due_work_effect)
  from valid have live: "\<not> run_terminal (r_status (le_run run))" by blast
  from applied(4) due have "advances db db'"
    by (rule due_work_effect) (rule due_work_advances [OF store_okD(1) [OF assms(1)] applied(2) live])
  then show ?thesis
    using eff consumed_not_due [OF rows] find_run_Some [OF applied(2)] tasks status valid shape
    by (intro conjI bexI [of _ "le_run run"] exI) (auto simp: new_task_row_def)
qed


text \<open>A tool execution whose retry is due.\<close>

definition sample_retry_tool :: tool_row where
  "sample_retry_tool = sample_tool\<lparr>x_status := ToolRetryScheduled, x_attempts := 1, x_retry_at := Some 100\<rparr>"

definition sample_due_work :: apply_due_work_command where
  "sample_due_work = \<lparr> adw_candidate = \<lparr> dwk_tenant_id = 7, dwk_run_id = 1, dwk_stage_execution_id = None,
       dwk_target = DueTool (x_id sample_tool), dwk_due_at = 100, dwk_expected_revision = 1,
       dwk_run_version = 0, dwk_execution_generation = 0, dwk_checkpoint_sequence = 1 \<rparr>,
     adw_expected_run = sample_expected,
     adw_recovery_task = \<lparr> nt_task_id = 97, nt_stage_execution_id = None, nt_logical_key = ''r'',
       nt_kind = KReconcile, nt_generation = 0, nt_based_on_checkpoint_sequence = 1, nt_priority = 0,
       nt_available_at = 100, nt_max_attempts = 1, nt_input = ''{}'', nt_deadline = None,
       nt_created_event_id = 46 \<rparr>,
     adw_applied_event_id = 46 \<rparr>"

definition sample_retry_db :: db where
  "sample_retry_db = sample_db\<lparr>db_tools := [sample_retry_tool]\<rparr>"

lemmas due_work_eval = apply_due_work_def due_work_shape_is_valid_def validate_due_work_run_def
  apply_locked_due_work_def consume_external_due_work_def consume_due_tool_def consume_due_agent_def
  lock_tool_by_id_def lock_agent_by_id_def tool_of_def agent_of_def due_tool_def due_agent_def
  tool_retry_consumed_def agent_retry_consumed_def due_work_event_def insert_new_task_def
  insert_task_def new_task_row_def advance_run_event_batch_def run_at_def i64_try_from_def Let_def

theorem apply_due_work_consumes_due_retry_witness:
  "\<exists>c db'. apply_due_work sample_ext 1000 (sample_context 77 ''d1'') sample_due_work 110 sample_retry_db
      = Inr (c, db')
    \<and> due_execution 7 sample_due_work 110 sample_retry_db \<and> \<not> due_execution 7 sample_due_work 110 db'"
proof -
  have "\<exists>c db'. apply_due_work sample_ext 1000 (sample_context 77 ''d1'') sample_due_work 110
      sample_retry_db = Inr (c, db') \<and> disposition c = Applied"
    by (simp add: sample_due_work_def sample_retry_db_def sample_retry_tool_def sample_tool_def sample_defs
        status_sets due_work_eval create_eval txn_eval)
  then obtain c db' where run: "apply_due_work sample_ext 1000 (sample_context 77 ''d1'') sample_due_work 110
      sample_retry_db = Inr (c, db')" and d: "disposition c = Applied" by blast
  have "store_ok sample_retry_db"
    by (simp add: sample_retry_db_def sample_defs store_ok_def runs_ok_def run_keys_ok_def run_checks_def
        revision_checks_def task_keys_ok_def status_sets)
  from apply_due_work_consumes_due_retry [OF this run d] show ?thesis
    using run by (auto simp: sample_context_def)
qed

end
