(* ===== verification/ExecutionSteps.thy ===== *)
theory ExecutionSteps
  imports DueWork PlanRevision
begin

text \<open>
  Steps the commands on tool and agent executions share (\<open>transaction_executor.rs\<close>): the event of an
  execution, the cursor of its run, the origin of a recovery task and its completion. The lemmas
  say how a command made of these steps advances its run, or records on a run that may have ended.
\<close>

section \<open>Events of an execution\<close>

definition run_cursor_advanced :: "micros \<Rightarrow> run_row \<Rightarrow> run_row" where
  "run_cursor_advanced now r = r\<lparr>r_version := r_version r + 1, r_next_seq := r_next_seq r + 1,
     r_updated_at := now\<rparr>"

definition advance_run_event_cursor :: "uuid \<Rightarrow> uuid \<Rightarrow> int \<Rightarrow> int \<Rightarrow> micros \<Rightarrow> unit txn" where
  "advance_run_event_cursor tenant run version generation now =
    thenT (\<lambda>db. guardT (increments_in_range (run_at tenant run version generation) r_version (db_runs db)
               \<and> increments_in_range (run_at tenant run version generation) r_next_seq (db_runs db))
             bigint_out_of_range db)
    (bindT (update_runs (run_at tenant run version generation) (run_cursor_advanced now)) (\<lambda>updated.
     guardT (updated = 1)
       (store_error_of VersionConflict ''run changed while appending an execution event'')))"

definition execution_event ::
  "command_context \<Rightarrow> uuid \<Rightarrow> uuid \<Rightarrow> int \<Rightarrow> string \<Rightarrow> json \<Rightarrow> string \<Rightarrow> micros \<Rightarrow> event_insert" where
  "execution_event ctx event_id run_id sequence event_type payload producer now =
    \<lparr> ei_event_id = event_id, ei_tenant_id = cc_tenant_id ctx, ei_run_id = run_id,
      ei_sequence = sequence, ei_event_type = event_type, ei_payload = payload,
      ei_payload_schema_version = 1, ei_producer = producer, ei_context = ctx,
      ei_correlation_id = cc_correlation_id ctx, ei_occurred_at = None, ei_recorded_at = now \<rparr>"

lemma execution_event_sel [simp]:
  "ei_tenant_id (execution_event ctx i run n ty p pr now) = cc_tenant_id ctx"
  "ei_run_id (execution_event ctx i run n ty p pr now) = run"
  "ei_sequence (execution_event ctx i run n ty p pr now) = n"
  by (simp_all add: execution_event_def)

text \<open>
  The origin of a recovery task. \<open>Uuid::parse_str\<close> is an argument.
\<close>

definition validate_retry_task_origin ::
  "(string \<Rightarrow> uuid option) \<Rightarrow> uuid \<Rightarrow> uuid \<Rightarrow> uuid \<Rightarrow> string \<Rightarrow> uuid \<Rightarrow> unit txn" where
  "validate_retry_task_origin parse_uuid tenant run task expected_type execution db =
    (case find (task_in_run tenant run task) (db_tasks db) of
       None \<Rightarrow> Inl (store_error_of NotFound ''retry Task origin was not found'')
     | Some t \<Rightarrow>
         (case find (\<lambda>e. e_tenant e = tenant \<and> e_run e = run \<and> e_id e = t_created_event t) (db_events db) of
            None \<Rightarrow> Inl (store_error_of NotFound ''retry Task origin was not found'')
          | Some e \<Rightarrow>
              guardT (t_kind t = KReconcile \<and> e_type e = expected_type
                \<and> Option.bind (Option.bind (value_get (e_payload e) ''execution_id'') as_str) parse_uuid
                    = Some execution)
                (store_error_of InvalidTransition
                  ''recovery Task was not authorized by the matching retry due Event'') db))"

definition recovered_task :: "json \<Rightarrow> micros \<Rightarrow> task_row \<Rightarrow> task_row" where
  "recovered_task result now t = t\<lparr>t_status := TaskSucceeded, t_result := Some result,
     t_lease_owner := None, t_lease_token := None, t_lease_expires_at := None,
     t_updated_at := now, t_completed_at := Some now\<rparr>"

definition complete_recovery_task :: "uuid \<Rightarrow> locked_worker_task \<Rightarrow> micros \<Rightarrow> json \<Rightarrow> unit txn" where
  "complete_recovery_task tenant locked now result =
    (let task = lw_task locked in
    bindT (update_tasks (\<lambda>t. t_tenant t = tenant \<and> t_id t = t_id task \<and> t_attempt t = t_attempt task
             \<and> t_status t = TaskLeased) (recovered_task result now)) (\<lambda>updated.
    thenT (guardT (updated = 1)
             (store_error_of LeaseLost ''recovery Task Lease changed while starting external execution''))
    (bindT (update_attempts (open_attempt tenant (t_id task) (t_attempt task))
             (\<lambda>a. a\<lparr>a_finished_at := Some now, a_outcome := Some AttemptSucceeded\<rparr>)) (\<lambda>attempt_updated.
     guardT (attempt_updated = 1)
       (inconsistent ''leased recovery Task has no open matching attempt'')))))"


section \<open>How the run moves\<close>

lemma cursor_effect:
  assumes "advance_run_event_cursor tenant run version generation now db = Inr (u, db')"
  obtains "updates_pass run_checks (run_at tenant run version generation) (run_cursor_advanced now) (db_runs db)"
    and "db' = db\<lparr>db_runs := sql_update (run_at tenant run version generation)
          (run_cursor_advanced now) (db_runs db)\<rparr>"
  using assms by (auto simp: advance_run_event_cursor_def txn_iffs)

lemma keeps_cursor [keeps_intros]:
  "(\<And>db v. g (db\<lparr>db_runs := v\<rparr>) = g db) \<Longrightarrow> keeps g (advance_run_event_cursor tenant run version generation now)"
  by (auto simp: keeps_def elim: cursor_effect)

lemma run_cursor_advanced_sel [simp]:
  "same_run r (run_cursor_advanced now r)" "r_version (run_cursor_advanced now r) = r_version r + 1"
  "r_next_seq (run_cursor_advanced now r) = r_next_seq r + 1"
  "r_generation (run_cursor_advanced now r) = r_generation r"
  "r_status (run_cursor_advanced now r) = r_status r"
  "r_terminal_event (run_cursor_advanced now r) = r_terminal_event r"
  by (simp_all add: run_cursor_advanced_def same_run_def)

lemma records_by_update:
  assumes "runs_ok db" and "run \<in> set (db_runs db)"
    and "run_terminal (r_status run) \<Longrightarrow> r_status (f run) = r_status run \<and> r_terminal_event (f run) = r_terminal_event run"
    and "P run" and "\<And>q. P q \<Longrightarrow> same_run run q"
    and "updates_pass run_checks P f (db_runs db)"
    and "same_run run (f run)" and "r_version run \<le> r_version (f run)"
    and "r_next_seq run \<le> r_next_seq (f run)" and "r_generation run \<le> r_generation (f run)"
    and "db_runs db' = sql_update P f (db_runs db)"
    and "db_events db' = db_events db @ map event_row_of es"
    and "db_outbox db' = db_outbox db @ map outbox_row_of es"
    and "\<forall>e \<in> set es. ei_tenant_id e = r_tenant run \<and> ei_run_id e = r_id run"
    and "map ei_sequence es = [r_next_seq run..r_next_seq (f run) - 1]"
  shows "records db db'"
proof -
  have "sql_update P f (db_runs db) = sql_update (same_run run) (\<lambda>_. f run) (db_runs db)"
    by (rule sql_update_one_run [where P = P, OF runs_ok_keys [OF assms(1)] assms(2,4,5)])
  moreover have "run_checks (f run)" using updates_passD [OF assms(6,2,4)] .
  ultimately show ?thesis
    unfolding records_def using assms
    by (intro exI [of _ run] exI [of _ "f run"] exI [of _ es]) simp
qed

lemma advances_by_cursor:
  assumes "runs_ok db" and "find_run tenant i db = Some run" and "\<not> run_terminal (r_status run)"
    and "updates_pass run_checks (run_at tenant i (r_version run) (r_generation run))
          (run_cursor_advanced now) (db_runs db)"
    and "db_runs db' = sql_update (run_at tenant i (r_version run) (r_generation run))
          (run_cursor_advanced now) (db_runs db)"
    and "db_events db' = db_events db @ [event_row_of e]"
    and "db_outbox db' = db_outbox db @ [outbox_row_of e]"
    and "ei_tenant_id e = tenant" and "ei_run_id e = i" and "ei_sequence e = r_next_seq run"
  shows "advances db db'"
  using assms(4-) find_run_Some [OF assms(2)]
  by (intro advances_by_update [where e = e, OF assms(1) _ assms(3), rotated 3, OF assms(4) _ _ _ _ assms(5)])
     (auto simp: run_at_def same_run_def run_cursor_advanced_def)

lemma records_by_cursor:
  assumes "runs_ok db" and "find_run tenant i db = Some run"
    and "updates_pass run_checks (run_at tenant i (r_version run) (r_generation run))
          (run_cursor_advanced now) (db_runs db)"
    and "db_runs db' = sql_update (run_at tenant i (r_version run) (r_generation run))
          (run_cursor_advanced now) (db_runs db)"
    and "db_events db' = db_events db @ [event_row_of e]"
    and "db_outbox db' = db_outbox db @ [outbox_row_of e]"
    and "ei_tenant_id e = tenant" and "ei_run_id e = i" and "ei_sequence e = r_next_seq run"
  shows "records db db'"
  using assms(3-) find_run_Some [OF assms(2)]
  by (intro records_by_update [where es = "[e]" and f = "run_cursor_advanced now" and run = run
        and P = "run_at tenant i (r_version run) (r_generation run)", OF assms(1)])
     (auto simp: run_at_def same_run_def run_cursor_advanced_def)

lemma find_run_updated:
  assumes "find_run tenant i db = Some run" and "P run" and "db_runs db' = sql_update P f (db_runs db)"
    and "\<And>v. r_tenant (f v) = r_tenant v \<and> r_id (f v) = r_id v"
  shows "find_run tenant i db' = Some (f run)"
  using assms by (simp add: find_run_def find_sql_update)

section \<open>The recovery task\<close>

lemma validate_retry_task_origin_iff [txn_iffs]:
  "validate_retry_task_origin parse_uuid tenant run task expected_type execution db = Inr (u, db') \<longleftrightarrow>
     db' = db \<and> (\<exists>t e. find (task_in_run tenant run task) (db_tasks db) = Some t
       \<and> find (\<lambda>e. e_tenant e = tenant \<and> e_run e = run \<and> e_id e = t_created_event t) (db_events db) = Some e
       \<and> t_kind t = KReconcile \<and> e_type e = expected_type
       \<and> Option.bind (Option.bind (value_get (e_payload e) ''execution_id'') as_str) parse_uuid
           = Some execution)"
  by (auto simp: validate_retry_task_origin_def txn_iffs split: option.splits)

lemma keeps_retry_task_origin [keeps_intros]:
  "keeps g (validate_retry_task_origin parse_uuid tenant run task expected_type execution)"
  by (auto simp: keeps_def txn_iffs)

definition leased_try :: "uuid \<Rightarrow> task_row \<Rightarrow> task_row \<Rightarrow> bool" where
  "leased_try tenant task t \<longleftrightarrow> t_tenant t = tenant \<and> t_id t = t_id task \<and> t_attempt t = t_attempt task
     \<and> t_status t = TaskLeased"

definition recovery_attempt_closed :: "micros \<Rightarrow> attempt_row \<Rightarrow> attempt_row" where
  "recovery_attempt_closed now a = a\<lparr>a_finished_at := Some now, a_outcome := Some AttemptSucceeded\<rparr>"

lemma complete_recovery_effect:
  assumes "complete_recovery_task tenant locked now result db = Inr (u, db')"
  obtains "sql_count (leased_try tenant (lw_task locked)) (db_tasks db) = 1"
    and "sql_count (open_attempt tenant (t_id (lw_task locked)) (t_attempt (lw_task locked))) (db_attempts db) = 1"
    and "db' = db\<lparr>db_tasks := sql_update (leased_try tenant (lw_task locked)) (recovered_task result now) (db_tasks db),
        db_attempts := sql_update (open_attempt tenant (t_id (lw_task locked)) (t_attempt (lw_task locked)))
          (recovery_attempt_closed now) (db_attempts db)\<rparr>"
  using assms
  by (auto simp: complete_recovery_task_def Let_def txn_iffs recovery_attempt_closed_def [abs_def]
      leased_try_def [abs_def])

lemma keeps_complete_recovery [keeps_intros]:
  "(\<And>db v. g (db\<lparr>db_tasks := v\<rparr>) = g db) \<Longrightarrow> (\<And>db v. g (db\<lparr>db_attempts := v\<rparr>) = g db)
   \<Longrightarrow> keeps g (complete_recovery_task tenant locked now result)"
  unfolding complete_recovery_task_def Let_def by (intro keeps_intros)

lemma recovered_task_id [simp]: "t_id (recovered_task result now t) = t_id t"
  by (simp add: recovered_task_def)

end
