(* ===== verification/ToolExecution.thy ===== *)
theory ToolExecution
  imports ExecutionSteps
begin

text \<open>
  Tool executions: the commands of \<open>durable-store/src/external_command.rs\<close> and
  \<open>prepare_tool_execution\<close>, \<open>begin_tool_retry_attempt\<close> and \<open>record_tool_outcome\<close> of
  \<open>transaction_executor.rs\<close>. Proved: an execution has exactly one open attempt while its outcome is
  awaited; an outcome closes it and is projected on the execution; a retry opens the next one.
\<close>

section \<open>Commands\<close>

record prepare_tool_command =
  ptc_expected_run :: expected_run
  ptc_lease :: lease_proof
  ptc_tool_execution_id :: uuid
  ptc_tool_attempt_id :: uuid
  ptc_stage_execution_id :: "uuid option"
  ptc_tool_call_id :: string
  ptc_tool_name :: string
  ptc_idempotency_scope :: string
  ptc_idempotency_key :: string
  ptc_request_hash :: digest
  ptc_request :: json_payload
  ptc_prepared_event_id :: uuid

record begin_tool_retry_command =
  btr_expected_run :: expected_run
  btr_lease :: lease_proof
  btr_tool_execution_id :: uuid
  btr_expected_attempt :: nat
  btr_tool_attempt_id :: uuid
  btr_started_event_id :: uuid

definition begin_tool_retry_shape_is_valid :: "begin_tool_retry_command \<Rightarrow> bool" where
  "begin_tool_retry_shape_is_valid cmd \<longleftrightarrow> btr_expected_attempt cmd > 0
     \<and> er_version (btr_expected_run cmd) \<noteq> None
     \<and> er_execution_generation (btr_expected_run cmd) = Some (lp_execution_generation (btr_lease cmd))"

datatype execution_retry_class =
  RetryNever | RetrySameRequestBackoff | RetryReconnectAndResume | RetryQueryOutcome | RetryManualReview

datatype tool_recorded_outcome =
    ToolCompletedOutcome json_payload
  | ToolAcceptedOutcome string
  | ToolFailedOutcome string execution_retry_class "micros option"
  | ToolUncertainOutcome "string option" string
  | ToolCompensatedOutcome json_payload

definition projected_status :: "tool_recorded_outcome \<Rightarrow> tool_status" where
  "projected_status outcome = (case outcome of
      ToolCompletedOutcome _ \<Rightarrow> ToolSucceeded
    | ToolAcceptedOutcome _ \<Rightarrow> ToolExecuting
    | ToolFailedOutcome _ retry _ \<Rightarrow> (case retry of
          RetrySameRequestBackoff \<Rightarrow> ToolRetryScheduled
        | RetryQueryOutcome \<Rightarrow> ToolReconciling
        | RetryReconnectAndResume \<Rightarrow> ToolReconciling
        | RetryNever \<Rightarrow> ToolFailed
        | RetryManualReview \<Rightarrow> ToolManualReview)
    | ToolUncertainOutcome _ _ \<Rightarrow> ToolOutcomeUnknown
    | ToolCompensatedOutcome _ \<Rightarrow> ToolCompensated)"

record record_tool_command =
  rto_expected_run :: expected_run
  rto_task_id :: uuid
  rto_execution_generation :: nat
  rto_tool_execution_id :: uuid
  rto_expected_attempt :: nat
  rto_outcome :: tool_recorded_outcome
  rto_outcome_event_id :: uuid
  rto_response_digest :: "digest option"
  rto_remote_request_id :: "string option"

section \<open>The projection of an outcome\<close>

record projected_tool_outcome =
  pto_status :: tool_status
  pto_result :: "json option"
  pto_error_code :: "string option"
  pto_retry_class :: "string option"
  pto_recovery_action :: "string option"
  pto_external_ref :: "string option"
  pto_retry_at :: "micros option"
  pto_attempt_outcome :: string
  pto_event_type :: string

definition failed_tool_status :: "execution_retry_class \<Rightarrow> tool_status" where
  "failed_tool_status retry = (case retry of
      RetryNever \<Rightarrow> ToolFailed
    | RetrySameRequestBackoff \<Rightarrow> ToolRetryScheduled
    | RetryReconnectAndResume \<Rightarrow> ToolReconciling
    | RetryQueryOutcome \<Rightarrow> ToolReconciling
    | RetryManualReview \<Rightarrow> ToolManualReview)"

definition retry_class_text :: "execution_retry_class \<Rightarrow> string" where
  "retry_class_text retry = (case retry of
      RetryNever \<Rightarrow> ''never''
    | RetrySameRequestBackoff \<Rightarrow> ''same_request_backoff''
    | RetryReconnectAndResume \<Rightarrow> ''reconnect_and_resume''
    | RetryQueryOutcome \<Rightarrow> ''query_outcome''
    | RetryManualReview \<Rightarrow> ''manual_review'')"

definition failure_recovery_action :: "execution_retry_class \<Rightarrow> string option" where
  "failure_recovery_action retry = (case retry of
      RetryNever \<Rightarrow> None
    | RetrySameRequestBackoff \<Rightarrow> Some ''retry_same_request''
    | RetryReconnectAndResume \<Rightarrow> Some ''reconnect_and_resume''
    | RetryQueryOutcome \<Rightarrow> Some ''query_outcome''
    | RetryManualReview \<Rightarrow> Some ''manual_review'')"

definition project_failed_tool ::
  "string \<Rightarrow> execution_retry_class \<Rightarrow> micros option \<Rightarrow> projected_tool_outcome store_result" where
  "project_failed_tool error_code retry retry_at =
    (if error_code = [] then Inl (invalid_command ''failed Tool outcome has no error code'')
     else if (failed_tool_status retry = ToolRetryScheduled) \<noteq> (retry_at \<noteq> None)
     then Inl (invalid_command ''Tool retry time must be present only for scheduled backoff'')
     else Inr \<lparr> pto_status = failed_tool_status retry, pto_result = None,
       pto_error_code = Some error_code, pto_retry_class = Some (retry_class_text retry),
       pto_recovery_action = failure_recovery_action retry, pto_external_ref = None,
       pto_retry_at = retry_at, pto_attempt_outcome = ''failed'',
       pto_event_type = ''tool.execution_failed'' \<rparr>)"

definition project_tool_outcome ::
  "externals \<Rightarrow> tool_recorded_outcome \<Rightarrow> projected_tool_outcome store_result" where
  "project_tool_outcome ext outcome = (case outcome of
      ToolCompletedOutcome result \<Rightarrow> bindR (json_value ext result) (\<lambda>v. Inr
        \<lparr> pto_status = ToolSucceeded, pto_result = Some v, pto_error_code = None,
          pto_retry_class = None, pto_recovery_action = None, pto_external_ref = None,
          pto_retry_at = None, pto_attempt_outcome = ''completed'',
          pto_event_type = ''tool.execution_succeeded'' \<rparr>)
    | ToolAcceptedOutcome external_ref \<Rightarrow>
        (if external_ref = [] then Inl (invalid_command ''accepted Tool outcome has no external ref'')
         else Inr \<lparr> pto_status = ToolExecuting, pto_result = None, pto_error_code = None,
           pto_retry_class = None, pto_recovery_action = None, pto_external_ref = Some external_ref,
           pto_retry_at = None, pto_attempt_outcome = ''accepted'',
           pto_event_type = ''tool.execution_accepted'' \<rparr>)
    | ToolFailedOutcome error_code retry retry_at \<Rightarrow> project_failed_tool error_code retry retry_at
    | ToolUncertainOutcome external_ref recovery_action \<Rightarrow>
        (if external_ref = Some [] \<or> recovery_action = []
         then Inl (invalid_command ''uncertain Tool outcome has invalid recovery metadata'')
         else Inr \<lparr> pto_status = ToolOutcomeUnknown, pto_result = None, pto_error_code = None,
           pto_retry_class = Some ''query_outcome'', pto_recovery_action = Some recovery_action,
           pto_external_ref = external_ref, pto_retry_at = None,
           pto_attempt_outcome = ''uncertain'', pto_event_type = ''tool.execution_outcome_unknown'' \<rparr>)
    | ToolCompensatedOutcome result \<Rightarrow> bindR (json_value ext result) (\<lambda>v. Inr
        \<lparr> pto_status = ToolCompensated, pto_result = Some v, pto_error_code = None,
          pto_retry_class = None, pto_recovery_action = None, pto_external_ref = None,
          pto_retry_at = None, pto_attempt_outcome = ''completed'',
          pto_event_type = ''tool.execution_compensated'' \<rparr>))"

section \<open>Rows\<close>

definition tool_attempt_checks :: "tool_attempt_row \<Rightarrow> bool" where
  "tool_attempt_checks y \<longleftrightarrow> 1 \<le> y_attempt y
     \<and> (y_retry_class y = None \<or> y_retry_class y \<in> Some ` retry_class_text `
          {RetryNever, RetrySameRequestBackoff, RetryReconnectAndResume, RetryQueryOutcome, RetryManualReview})
     \<and> (y_outcome y = None
        \<or> y_outcome y \<in> {Some ''completed'', Some ''accepted'', Some ''uncertain'', Some ''failed''})
     \<and> (if y_finished_at y = None
        then y_outcome y = None \<and> y_error_code y = None \<and> y_retry_class y = None \<and> y_response_digest y = None
        else y_outcome y \<noteq> None)
     \<and> y_error_code y \<noteq> Some [] \<and> y_remote_request y \<noteq> Some [] \<and> y_external_ref y \<noteq> Some []"

definition update_tool_attempts ::
  "(tool_attempt_row \<Rightarrow> bool) \<Rightarrow> (tool_attempt_row \<Rightarrow> tool_attempt_row) \<Rightarrow> nat txn" where
  "update_tool_attempts P f db =
    (if updates_pass tool_attempt_checks P f (db_tool_attempts db)
     then Inr (sql_count P (db_tool_attempts db),
               db\<lparr>db_tool_attempts := sql_update P f (db_tool_attempts db)\<rparr>)
     else Inl check_violation)"

lemma update_tool_attempts_iff [txn_iffs]:
  "update_tool_attempts P f db = Inr (n, db') \<longleftrightarrow> updates_pass tool_attempt_checks P f (db_tool_attempts db)
     \<and> n = sql_count P (db_tool_attempts db)
     \<and> db' = db\<lparr>db_tool_attempts := sql_update P f (db_tool_attempts db)\<rparr>"
  by (auto simp: update_tool_attempts_def)

lemma update_tool_attempts_eval [txn_eval]:
  "bindT (update_tool_attempts P f) k db =
     (if updates_pass tool_attempt_checks P f (db_tool_attempts db)
      then k (sql_count P (db_tool_attempts db)) (db\<lparr>db_tool_attempts := sql_update P f (db_tool_attempts db)\<rparr>)
      else Inl check_violation)"
  by (simp add: update_tool_attempts_def bindT_def)

lemma keeps_update_tool_attempts [keeps_intros]:
  "(\<And>db v. g (db\<lparr>db_tool_attempts := v\<rparr>) = g db) \<Longrightarrow> keeps g (update_tool_attempts P f)"
  by (auto simp: keeps_def txn_iffs)

definition insert_tool :: "tool_row \<Rightarrow> unit txn" where
  "insert_tool x = insert_row
     (tool_checks x \<and> x_call_id x \<noteq> [] \<and> x_name x \<noteq> [] \<and> x_scope x \<noteq> [] \<and> x_key x \<noteq> [])
     (\<lambda>db. \<not> sql_exists (\<lambda>v. x_id v = x_id x
        \<or> (x_tenant v = x_tenant x \<and> (x_call_id v = x_call_id x
             \<or> x_scope v = x_scope x \<and> x_key v = x_key x))) (db_tools db))
     (\<lambda>db. run_exists (x_tenant x) (x_run x) db \<and> stage_exists (x_tenant x) (x_run x) (x_stage x) db
        \<and> task_exists (x_tenant x) (x_run x) (Some (x_task x)) db)
     (\<lambda>db. db\<lparr>db_tools := db_tools db @ [x]\<rparr>)"

definition insert_tool_attempt :: "tool_attempt_row \<Rightarrow> unit txn" where
  "insert_tool_attempt y = insert_row
     (tool_attempt_checks y)
     (\<lambda>db. \<not> sql_exists (\<lambda>v. y_id v = y_id y
        \<or> (y_tenant v = y_tenant y \<and> y_tool v = y_tool y \<and> y_attempt v = y_attempt y))
        (db_tool_attempts db))
     (\<lambda>db. run_exists (y_tenant y) (y_run y) db
        \<and> sql_exists (\<lambda>x. x_tenant x = y_tenant y \<and> x_run x = y_run y \<and> x_id x = y_tool y) (db_tools db))
     (\<lambda>db. db\<lparr>db_tool_attempts := db_tool_attempts db @ [y]\<rparr>)"

lemma keeps_insert_tool [keeps_intros]:
  "(\<And>db v. g (db\<lparr>db_tools := v\<rparr>) = g db) \<Longrightarrow> keeps g (insert_tool x)"
  "(\<And>db v. g (db\<lparr>db_tool_attempts := v\<rparr>) = g db) \<Longrightarrow> keeps g (insert_tool_attempt y)"
  by (auto simp: insert_tool_def insert_tool_attempt_def intro: keeps_intros)

definition open_tool_attempt :: "uuid \<Rightarrow> uuid \<Rightarrow> uuid \<Rightarrow> uuid \<Rightarrow> int \<Rightarrow> micros \<Rightarrow> tool_attempt_row" where
  "open_tool_attempt i tenant tool run attempt now =
    \<lparr> y_id = i, y_tenant = tenant, y_tool = tool, y_run = run, y_attempt = attempt,
      y_started_at = now, y_finished_at = None, y_error_code = None, y_retry_class = None,
      y_remote_request = None, y_external_ref = None, y_response_digest = None, y_outcome = None,
      y_metrics = JObject [] \<rparr>"

definition tool_snapshot :: "tool_row \<Rightarrow> tool_execution_snapshot store_result" where
  "tool_snapshot x =
    bindR (positive_u32 (x_attempts x) ''tool attempt count'') (\<lambda>attempts.
    Inr \<lparr> tes_tenant_id = x_tenant x, tes_tool_execution_id = x_id x, tes_run_id = x_run x,
      tes_stage_execution_id = x_stage x, tes_task_id = x_task x, tes_tool_call_id = x_call_id x,
      tes_tool_name = x_name x, tes_status = x_status x, tes_attempt_count = attempts,
      tes_external_ref = x_external_ref x, tes_recovery_action = x_recovery_action x,
      tes_retry_at = x_retry_at x, tes_updated_at = x_updated_at x \<rparr>)"

definition tool_committed ::
  "command_disposition \<Rightarrow> tool_execution_snapshot \<Rightarrow> uuid option \<Rightarrow> durable_follow_up list
   \<Rightarrow> tool_execution_snapshot committed" where
  "tool_committed d snapshot event follow_ups =
    \<lparr> disposition = d, committed_value = snapshot,
      event_ids = (case event of None \<Rightarrow> [] | Some e \<Rightarrow> [e]), durable_follow_ups = follow_ups,
      post_commit_hints = [RunEventsAvailable (tes_run_id snapshot), InvalidateRunCache (tes_run_id snapshot)] \<rparr>"

lemma tool_committed_sel [simp]:
  "disposition (tool_committed d s e fs) = d" "committed_value (tool_committed d s e fs) = s"
  "durable_follow_ups (tool_committed d s e fs) = fs"
  by (simp_all add: tool_committed_def)

definition duplicate_tool ::
  "command_context \<Rightarrow> stored_outcome \<Rightarrow> uuid option \<Rightarrow> tool_execution_snapshot committed store_result" where
  "duplicate_tool ctx outcome event =
    bindR (decode_tool_receipt (cc_tenant_id ctx) outcome) (\<lambda>snapshot.
    Inr (tool_committed Duplicate snapshot event []))"

section \<open>Preparing an execution\<close>

definition validate_prepare_tool :: "prepare_tool_command \<Rightarrow> unit store_result" where
  "validate_prepare_tool cmd =
    (if ptc_tool_call_id cmd = [] \<or> ptc_tool_name cmd = []
     then Inl (invalid_command ''tool call identity and tool name must not be empty'') else Inr ())"

definition validate_existing_tool ::
  "prepare_tool_command \<Rightarrow> locked_worker_task \<Rightarrow> tool_row \<Rightarrow> unit store_result" where
  "validate_existing_tool cmd locked existing =
    (if x_run existing \<noteq> r_id (lw_run locked) \<or> x_task existing \<noteq> t_id (lw_task locked)
        \<or> x_stage existing \<noteq> t_stage (lw_task locked) \<or> x_call_id existing \<noteq> ptc_tool_call_id cmd
        \<or> x_name existing \<noteq> ptc_tool_name cmd \<or> x_hash existing \<noteq> ptc_request_hash cmd
     then Inl (store_error_of IdempotencyKeyReused ''tool idempotency key was reused for a different request'')
     else Inr ())"

definition lock_tool_by_idempotency :: "uuid \<Rightarrow> string \<Rightarrow> string \<Rightarrow> tool_row option txn" where
  "lock_tool_by_idempotency tenant scope key = queryT (\<lambda>db.
     find (\<lambda>x. x_tenant x = tenant \<and> x_scope x = scope \<and> x_key x = key) (db_tools db))"

definition prepared_tool :: "uuid \<Rightarrow> prepare_tool_command \<Rightarrow> locked_worker_task \<Rightarrow> json \<Rightarrow> micros \<Rightarrow> tool_row" where
  "prepared_tool tenant cmd locked request now =
    \<lparr> x_id = ptc_tool_execution_id cmd, x_tenant = tenant, x_run = r_id (lw_run locked),
      x_stage = ptc_stage_execution_id cmd, x_task = t_id (lw_task locked),
      x_call_id = ptc_tool_call_id cmd, x_name = ptc_tool_name cmd,
      x_scope = ptc_idempotency_scope cmd, x_key = ptc_idempotency_key cmd,
      x_hash = ptc_request_hash cmd, x_status = ToolExecuting, x_attempts = 1, x_request = request,
      x_result = None, x_error_code = None, x_recovery_action = None, x_external_ref = None,
      x_started_at = now, x_created_at = now, x_updated_at = now, x_completed_at = None,
      x_retry_at = None \<rparr>"

lemma prepared_tool_sel [simp]:
  "x_id (prepared_tool tenant cmd locked request now) = ptc_tool_execution_id cmd"
  "x_tenant (prepared_tool tenant cmd locked request now) = tenant"
  "x_run (prepared_tool tenant cmd locked request now) = r_id (lw_run locked)"
  "x_task (prepared_tool tenant cmd locked request now) = t_id (lw_task locked)"
  "x_status (prepared_tool tenant cmd locked request now) = ToolExecuting"
  "x_attempts (prepared_tool tenant cmd locked request now) = 1"
  by (simp_all add: prepared_tool_def)

definition tool_prepared_payload :: "prepare_tool_command \<Rightarrow> locked_worker_task \<Rightarrow> json" where
  "tool_prepared_payload cmd locked = JObject
    [(''tool_execution_id'', json_uuid (ptc_tool_execution_id cmd)),
     (''task_id'', json_uuid (t_id (lw_task locked))),
     (''tool_call_id'', JString (ptc_tool_call_id cmd)), (''tool_name'', JString (ptc_tool_name cmd)),
     (''attempt'', JInt 1)]"

definition prepared_tool_snapshot ::
  "command_context \<Rightarrow> prepare_tool_command \<Rightarrow> uuid \<Rightarrow> micros \<Rightarrow> tool_execution_snapshot" where
  "prepared_tool_snapshot ctx cmd run_id now =
    \<lparr> tes_tenant_id = cc_tenant_id ctx, tes_tool_execution_id = ptc_tool_execution_id cmd,
      tes_run_id = run_id, tes_stage_execution_id = ptc_stage_execution_id cmd,
      tes_task_id = lp_task_id (ptc_lease cmd), tes_tool_call_id = ptc_tool_call_id cmd,
      tes_tool_name = ptc_tool_name cmd, tes_status = ToolExecuting, tes_attempt_count = 1,
      tes_external_ref = None, tes_recovery_action = None, tes_retry_at = None, tes_updated_at = now \<rparr>"

definition prepare_new_tool ::
  "externals \<Rightarrow> command_context \<Rightarrow> prepare_tool_command \<Rightarrow> micros \<Rightarrow> locked_worker_task
   \<Rightarrow> tool_execution_snapshot committed txn" where
  "prepare_new_tool ext ctx cmd now locked =
    (let tenant = cc_tenant_id ctx; run = lw_run locked; event_id = ptc_prepared_event_id cmd in
    bindT (liftT (json_value ext (ptc_request cmd))) (\<lambda>request.
    thenT (insert_tool (prepared_tool tenant cmd locked request now))
    (thenT (insert_tool_attempt (open_tool_attempt (ptc_tool_attempt_id cmd) tenant
             (ptc_tool_execution_id cmd) (r_id run) 1 now))
    (thenT (insert_event (execution_event ctx event_id (r_id run) (r_next_seq run)
             ''tool.execution_prepared'' (tool_prepared_payload cmd locked) ''worker'' now))
    (thenT (advance_run_event_cursor tenant (r_id run) (r_version run) (r_generation run) now)
    (let snapshot = prepared_tool_snapshot ctx cmd (r_id run) now in
    thenT (finish_receipt ctx ReceiptApplied (encode_tool_receipt snapshot) (Some event_id)
             (Some (''tool_execution'', ptc_tool_execution_id cmd, 1)))
    (returnT (tool_committed Applied snapshot (Some event_id) []))))))))"

definition prepare_tool_execution ::
  "externals \<Rightarrow> nat \<Rightarrow> command_context \<Rightarrow> prepare_tool_command \<Rightarrow> micros
   \<Rightarrow> tool_execution_snapshot committed txn" where
  "prepare_tool_execution ext ttl ctx cmd now =
    thenT (liftT (validate_prepare_tool cmd))
    (with_receipt ctx now ttl (duplicate_tool ctx)
      (bindT (lock_worker_task (cc_tenant_id ctx) (er_run_id (ptc_expected_run cmd)) (lp_task_id (ptc_lease cmd)))
        (\<lambda>locked.
      thenT (liftT (validate_worker_fences (ptc_expected_run cmd) (ptc_lease cmd) locked now ''tool preparation''))
      (thenT (guardT (t_stage (lw_task locked) = ptc_stage_execution_id cmd)
               (invalid_command ''tool execution stage does not match the leased task''))
      (bindT (lock_tool_by_idempotency (cc_tenant_id ctx) (ptc_idempotency_scope cmd)
                (ptc_idempotency_key cmd)) (\<lambda>existing.
      case existing of
          Some x \<Rightarrow>
            thenT (liftT (validate_existing_tool cmd locked x))
            (bindT (liftT (tool_snapshot x)) (\<lambda>snapshot.
            thenT (finish_receipt ctx ReceiptNoOp (encode_tool_receipt snapshot) None
                     (Some (''tool_execution'', x_id x, x_attempts x)))
            (returnT (tool_committed NoOp snapshot None []))))
        | None \<Rightarrow> prepare_new_tool ext ctx cmd now locked))))))"

section \<open>Starting a retry\<close>

definition retried_tool :: "int \<Rightarrow> micros \<Rightarrow> tool_row \<Rightarrow> tool_row" where
  "retried_tool attempt now x = x\<lparr>x_status := ToolExecuting, x_attempts := attempt, x_error_code := None,
     x_recovery_action := None, x_result := None, x_completed_at := None, x_updated_at := now\<rparr>"

definition awaiting_retry :: "int \<Rightarrow> tool_row \<Rightarrow> bool" where
  "awaiting_retry attempt x \<longleftrightarrow> x_status x = ToolReconciling \<and> x_attempts x = attempt
     \<and> x_recovery_action x = Some ''retry_same_request'' \<and> x_retry_at x = None"

definition retry_target :: "uuid \<Rightarrow> begin_tool_retry_command \<Rightarrow> tool_row \<Rightarrow> tool_row \<Rightarrow> bool" where
  "retry_target tenant cmd x v \<longleftrightarrow> tool_of tenant (btr_tool_execution_id cmd) v \<and> awaiting_retry (x_attempts x) v"

definition retry_result :: "uuid \<Rightarrow> int \<Rightarrow> json" where
  "retry_result execution attempt = JObject [(''tool_execution_id'', json_uuid execution),
     (''attempt'', JInt attempt), (''outcome'', JString ''retry_attempt_started'')]"

definition retry_started_payload :: "uuid \<Rightarrow> uuid \<Rightarrow> int \<Rightarrow> json" where
  "retry_started_payload execution task attempt = JObject [(''tool_execution_id'', json_uuid execution),
     (''recovery_task_id'', json_uuid task), (''attempt'', JInt attempt)]"

definition start_tool_retry ::
  "command_context \<Rightarrow> begin_tool_retry_command \<Rightarrow> micros \<Rightarrow> locked_worker_task \<Rightarrow> tool_row
   \<Rightarrow> tool_execution_snapshot committed txn" where
  "start_tool_retry ctx cmd now locked x =
    (let tenant = cc_tenant_id ctx; run_id = er_run_id (btr_expected_run cmd);
         task_id = lp_task_id (btr_lease cmd); execution_id = btr_tool_execution_id cmd;
         event_id = btr_started_event_id cmd; run = lw_run locked in
    bindT (liftT (checked_add_i64_or (x_attempts x) 1 (inconsistent ''Tool attempt count overflow'')))
      (\<lambda>attempt.
    bindT (update_tools (retry_target tenant cmd x) (retried_tool attempt now)) (\<lambda>updated.
    thenT (guardT (updated = 1)
             (store_error_of VersionConflict ''Tool retry attempt was started concurrently''))
    (thenT (insert_tool_attempt (open_tool_attempt (btr_tool_attempt_id cmd) tenant execution_id run_id attempt now))
    (thenT (complete_recovery_task tenant locked now (retry_result execution_id attempt))
    (thenT (insert_event (execution_event ctx event_id run_id (r_next_seq run)
             ''tool.retry_attempt_started'' (retry_started_payload execution_id task_id attempt) ''worker'' now))
    (thenT (advance_run_event_cursor tenant run_id (r_version run) (r_generation run) now)
    (bindT (liftT (positive_u32 attempt ''Tool attempt count'')) (\<lambda>count.
    let snapshot = \<lparr> tes_tenant_id = tenant, tes_tool_execution_id = execution_id, tes_run_id = run_id,
          tes_stage_execution_id = x_stage x, tes_task_id = x_task x, tes_tool_call_id = x_call_id x,
          tes_tool_name = x_name x, tes_status = ToolExecuting, tes_attempt_count = count,
          tes_external_ref = x_external_ref x, tes_recovery_action = None, tes_retry_at = None,
          tes_updated_at = now \<rparr> in
    thenT (finish_receipt ctx ReceiptApplied (encode_tool_receipt snapshot) (Some event_id)
             (Some (''tool_execution'', execution_id, attempt)))
    (returnT (tool_committed Applied snapshot (Some event_id) [])))))))))))"

definition begin_tool_retry_attempt ::
  "(string \<Rightarrow> uuid option) \<Rightarrow> nat \<Rightarrow> command_context \<Rightarrow> begin_tool_retry_command \<Rightarrow> micros
   \<Rightarrow> tool_execution_snapshot committed txn" where
  "begin_tool_retry_attempt parse_uuid ttl ctx cmd now =
    thenT (guardT (begin_tool_retry_shape_is_valid cmd)
             (invalid_command ''invalid Tool retry attempt command shape''))
    (with_receipt ctx now ttl (duplicate_tool ctx)
      (let tenant = cc_tenant_id ctx; run_id = er_run_id (btr_expected_run cmd);
           task_id = lp_task_id (btr_lease cmd); execution_id = btr_tool_execution_id cmd in
      bindT (lock_worker_task tenant run_id task_id) (\<lambda>locked.
      thenT (liftT (validate_worker_fences (btr_expected_run cmd) (btr_lease cmd) locked now
               ''Tool retry attempt start''))
      (thenT (validate_retry_task_origin parse_uuid tenant run_id task_id ''tool.retry_due'' execution_id)
      (bindT (lock_tool_by_id tenant execution_id) (\<lambda>x.
      thenT (guardT (x_run x = run_id \<and> x_stage x = t_stage (lw_task locked))
               (store_error_of NotFound ''Tool retry Task belongs to another Execution scope''))
      (thenT (guardT (awaiting_retry (int (btr_expected_attempt cmd)) x)
               (store_error_of VersionConflict ''Tool retry state or attempt changed''))
      (start_tool_retry ctx cmd now locked x))))))))"

section \<open>Recording an outcome\<close>

definition finished_tool_attempt ::
  "projected_tool_outcome \<Rightarrow> record_tool_command \<Rightarrow> string option \<Rightarrow> micros \<Rightarrow> tool_attempt_row
   \<Rightarrow> tool_attempt_row" where
  "finished_tool_attempt p cmd external_ref now y = y\<lparr>y_finished_at := Some now,
     y_error_code := pto_error_code p, y_retry_class := pto_retry_class p,
     y_remote_request := rto_remote_request_id cmd, y_external_ref := external_ref,
     y_response_digest := rto_response_digest cmd, y_outcome := Some (pto_attempt_outcome p)\<rparr>"

definition unfinished_tool_attempt :: "uuid \<Rightarrow> uuid \<Rightarrow> int \<Rightarrow> tool_attempt_row \<Rightarrow> bool" where
  "unfinished_tool_attempt tenant tool attempt y \<longleftrightarrow> y_tenant y = tenant \<and> y_tool y = tool
     \<and> y_attempt y = attempt \<and> y_finished_at y = None"

definition projected_tool ::
  "projected_tool_outcome \<Rightarrow> string option \<Rightarrow> micros \<Rightarrow> tool_row \<Rightarrow> tool_row" where
  "projected_tool p external_ref now x = x\<lparr>x_status := pto_status p, x_result := pto_result p,
     x_error_code := pto_error_code p, x_recovery_action := pto_recovery_action p,
     x_external_ref := external_ref, x_retry_at := pto_retry_at p,
     x_completed_at := (if tool_terminal (pto_status p) then Some now else None), x_updated_at := now\<rparr>"

definition json_opt_string :: "string option \<Rightarrow> json" where
  "json_opt_string s = (case s of None \<Rightarrow> JNull | Some v \<Rightarrow> JString v)"

definition tool_outcome_payload ::
  "projected_tool_outcome \<Rightarrow> record_tool_command \<Rightarrow> int \<Rightarrow> bool \<Rightarrow> string option \<Rightarrow> json" where
  "tool_outcome_payload p cmd attempt fenced external_ref = JObject
    [(''tool_execution_id'', json_uuid (rto_tool_execution_id cmd)),
     (''task_id'', json_uuid (rto_task_id cmd)),
     (''status'', JString (tool_status_text (pto_status p))), (''attempt'', JInt attempt),
     (''fenced'', JBool fenced), (''error_code'', json_opt_string (pto_error_code p)),
     (''external_ref'', json_opt_string external_ref)]"

definition tool_follow_ups :: "uuid \<Rightarrow> projected_tool_outcome \<Rightarrow> durable_follow_up list" where
  "tool_follow_ups execution p =
     (if tool_requires_reconciliation (pto_status p) then [FollowReconcileTool execution] else [])
     @ (case pto_retry_at p of None \<Rightarrow> [] | Some not_before \<Rightarrow> [FollowScanDueWork not_before])"

definition persisted_ref :: "projected_tool_outcome \<Rightarrow> tool_row \<Rightarrow> string option" where
  "persisted_ref p x = (case pto_external_ref p of None \<Rightarrow> x_external_ref x | Some e \<Rightarrow> Some e)"

definition tool_fenced :: "record_tool_command \<Rightarrow> run_row \<Rightarrow> task_row \<Rightarrow> bool" where
  "tool_fenced cmd run task \<longleftrightarrow> i64_try_from (rto_execution_generation cmd) \<noteq> Some (r_generation run)
     \<or> i64_try_from (rto_execution_generation cmd) \<noteq> Some (t_generation task)"

definition tool_outcome_event ::
  "command_context \<Rightarrow> record_tool_command \<Rightarrow> projected_tool_outcome \<Rightarrow> micros \<Rightarrow> run_row \<Rightarrow> task_row
   \<Rightarrow> tool_row \<Rightarrow> event_insert" where
  "tool_outcome_event ctx cmd p now run task x =
     execution_event ctx (rto_outcome_event_id cmd) (er_run_id (rto_expected_run cmd)) (r_next_seq run)
       (pto_event_type p) (tool_outcome_payload p cmd (x_attempts x) (tool_fenced cmd run task) (persisted_ref p x))
       ''tool-adapter'' now"

definition awaits_outcome :: "uuid \<Rightarrow> uuid \<Rightarrow> tool_row \<Rightarrow> bool" where
  "awaits_outcome tenant i x \<longleftrightarrow> tool_of tenant i x \<and> x_status x \<in> {ToolExecuting, ToolReconciling}"

definition record_locked_tool ::
  "command_context \<Rightarrow> record_tool_command \<Rightarrow> projected_tool_outcome \<Rightarrow> micros \<Rightarrow> run_row \<Rightarrow> task_row
   \<Rightarrow> tool_row \<Rightarrow> tool_execution_snapshot committed txn" where
  "record_locked_tool ctx cmd p now run task x =
    (let tenant = cc_tenant_id ctx; run_id = er_run_id (rto_expected_run cmd);
         execution_id = rto_tool_execution_id cmd; event_id = rto_outcome_event_id cmd;
         external_ref = persisted_ref p x in
    bindT (update_tool_attempts (unfinished_tool_attempt tenant execution_id (x_attempts x))
             (finished_tool_attempt p cmd external_ref now)) (\<lambda>attempt_updated.
    thenT (guardT (attempt_updated = 1)
             (store_error_of VersionConflict ''tool attempt was already finalized''))
    (bindT (update_tools (awaits_outcome tenant execution_id)
             (projected_tool p external_ref now)) (\<lambda>updated.
    thenT (guardT (updated = 1)
             (store_error_of VersionConflict ''tool execution changed while recording outcome''))
    (thenT (insert_event (tool_outcome_event ctx cmd p now run task x))
    (thenT (advance_run_event_cursor tenant run_id (r_version run) (r_generation run) now)
    (let snapshot = \<lparr> tes_tenant_id = tenant, tes_tool_execution_id = execution_id, tes_run_id = run_id,
          tes_stage_execution_id = x_stage x, tes_task_id = rto_task_id cmd,
          tes_tool_call_id = x_call_id x, tes_tool_name = x_name x, tes_status = pto_status p,
          tes_attempt_count = rto_expected_attempt cmd, tes_external_ref = external_ref,
          tes_recovery_action = pto_recovery_action p, tes_retry_at = pto_retry_at p,
          tes_updated_at = now \<rparr> in
    thenT (finish_receipt ctx ReceiptApplied (encode_tool_receipt snapshot) (Some event_id)
             (Some (''tool_execution'', execution_id, x_attempts x)))
    (returnT (tool_committed Applied snapshot (Some event_id) (tool_follow_ups execution_id p))))))))))"

definition record_tool_outcome ::
  "externals \<Rightarrow> nat \<Rightarrow> command_context \<Rightarrow> record_tool_command \<Rightarrow> micros
   \<Rightarrow> tool_execution_snapshot committed txn" where
  "record_tool_outcome ext ttl ctx cmd now =
    bindT (liftT (project_tool_outcome ext (rto_outcome cmd))) (\<lambda>p.
    thenT (guardT (rto_remote_request_id cmd \<noteq> Some [])
             (invalid_command ''remote request ID must not be empty''))
    (with_receipt ctx now ttl (duplicate_tool ctx)
      (let tenant = cc_tenant_id ctx; run_id = er_run_id (rto_expected_run cmd) in
      bindT (lock_event_run tenant run_id) (\<lambda>run.
      bindT (\<lambda>db. liftT (ok_or (find_task tenant (rto_task_id cmd) db)
               (store_error_of NotFound ''task was not found'')) db) (\<lambda>task.
      thenT (guardT (t_run task = run_id) (store_error_of NotFound ''tool task belongs to another run''))
      (bindT (lock_tool_by_id tenant (rto_tool_execution_id cmd)) (\<lambda>x.
      thenT (guardT (x_run x = run_id \<and> x_task x = rto_task_id cmd)
               (store_error_of NotFound ''tool execution belongs to another task or run''))
      (thenT (guardT (int (rto_expected_attempt cmd) = x_attempts x)
               (store_error_of VersionConflict ''tool execution attempt changed''))
      (thenT (guardT (x_status x \<in> {ToolExecuting, ToolReconciling})
               (store_error_of InvalidTransition ''tool execution does not accept an adapter outcome''))
      (record_locked_tool ctx cmd p now (le_run run) task x))))))))))"


section \<open>Effects\<close>

definition tool_event :: "command_context \<Rightarrow> prepare_tool_command \<Rightarrow> micros \<Rightarrow> locked_worker_task \<Rightarrow> event_insert" where
  "tool_event ctx cmd now locked = execution_event ctx (ptc_prepared_event_id cmd) (r_id (lw_run locked))
     (r_next_seq (lw_run locked)) ''tool.execution_prepared'' (tool_prepared_payload cmd locked) ''worker'' now"

lemma prepare_new_tool_effect:
  assumes "prepare_new_tool ext ctx cmd now locked db = Inr (c, db')"
  obtains request rs where "\<forall>x \<in> set (db_tools db). x_id x \<noteq> ptc_tool_execution_id cmd"
    and "updates_pass run_checks (run_at (cc_tenant_id ctx) (r_id (lw_run locked)) (r_version (lw_run locked))
        (r_generation (lw_run locked))) (run_cursor_advanced now) (db_runs db)"
    and "db' = db\<lparr>db_tools := db_tools db @ [prepared_tool (cc_tenant_id ctx) cmd locked request now],
        db_tool_attempts := db_tool_attempts db @ [open_tool_attempt (ptc_tool_attempt_id cmd) (cc_tenant_id ctx)
             (ptc_tool_execution_id cmd) (r_id (lw_run locked)) 1 now],
        db_events := db_events db @ [event_row_of (tool_event ctx cmd now locked)],
        db_outbox := db_outbox db @ [outbox_row_of (tool_event ctx cmd now locked)],
        db_runs := sql_update (run_at (cc_tenant_id ctx) (r_id (lw_run locked)) (r_version (lw_run locked))
          (r_generation (lw_run locked))) (run_cursor_advanced now) (db_runs db),
        db_receipts := rs\<rparr>"
    and "c = tool_committed Applied (prepared_tool_snapshot ctx cmd (r_id (lw_run locked)) now)
        (Some (ptc_prepared_event_id cmd)) []"
proof -
  from assms obtain request db1 db2 where
      ins: "insert_tool (prepared_tool (cc_tenant_id ctx) cmd locked request now) db = Inr ((), db1)"
    and att: "insert_tool_attempt (open_tool_attempt (ptc_tool_attempt_id cmd) (cc_tenant_id ctx)
             (ptc_tool_execution_id cmd) (r_id (lw_run locked)) 1 now) db1 = Inr ((), db2)"
    and adv: "\<exists>db3. advance_run_event_cursor (cc_tenant_id ctx) (r_id (lw_run locked)) (r_version (lw_run locked))
        (r_generation (lw_run locked)) now (db2\<lparr>
          db_events := db_events db2 @ [event_row_of (tool_event ctx cmd now locked)],
          db_outbox := db_outbox db2 @ [outbox_row_of (tool_event ctx cmd now locked)]\<rparr>) = Inr ((), db3)
        \<and> (\<exists>rs. db' = db3\<lparr>db_receipts := rs\<rparr>)"
    and c: "c = tool_committed Applied (prepared_tool_snapshot ctx cmd (r_id (lw_run locked)) now)
        (Some (ptc_prepared_event_id cmd)) []"
    unfolding prepare_new_tool_def Let_def tool_event_def [symmetric]
    apply (clarsimp simp: txn_iffs)
    apply (erule finish_receipt_frame)
    apply (rule that, assumption, assumption)
     apply auto
    done
  from ins have db1: "db1 = db\<lparr>db_tools := db_tools db @ [prepared_tool (cc_tenant_id ctx) cmd locked request now]\<rparr>"
    and fresh: "\<forall>x \<in> set (db_tools db). x_id x \<noteq> ptc_tool_execution_id cmd"
    by (auto simp: insert_tool_def txn_iffs row_simps)
  from att have db2: "db2 = db1\<lparr>db_tool_attempts := db_tool_attempts db1 @
       [open_tool_attempt (ptc_tool_attempt_id cmd) (cc_tenant_id ctx)
             (ptc_tool_execution_id cmd) (r_id (lw_run locked)) 1 now]\<rparr>"
    by (auto simp: insert_tool_attempt_def txn_iffs)
  from adv obtain db3 rs where adv3: "advance_run_event_cursor (cc_tenant_id ctx) (r_id (lw_run locked))
        (r_version (lw_run locked)) (r_generation (lw_run locked)) now (db2\<lparr>
          db_events := db_events db2 @ [event_row_of (tool_event ctx cmd now locked)],
          db_outbox := db_outbox db2 @ [outbox_row_of (tool_event ctx cmd now locked)]\<rparr>) = Inr ((), db3)"
      and db': "db' = db3\<lparr>db_receipts := rs\<rparr>" by blast
  from adv3 show thesis
    by (rule cursor_effect) (rule that [of rs request], use fresh c in \<open>simp_all add: db' db1 db2\<close>)
qed

lemmas prepare_tool_effect =
  prepare_new_tool_effect [where db = "db\<lparr>db_receipts := rs\<rparr>" for db rs, simplified]

lemma lock_tool_by_idempotency_iff [txn_iffs]:
  "lock_tool_by_idempotency tenant scope key db = Inr (x, db') \<longleftrightarrow> db' = db
     \<and> x = find (\<lambda>x. x_tenant x = tenant \<and> x_scope x = scope \<and> x_key x = key) (db_tools db)"
  by (auto simp: lock_tool_by_idempotency_def txn_iffs)

lemma prepare_tool_execution_cases:
  assumes "prepare_tool_execution ext ttl ctx cmd now db = Inr (c, db')"
  obtains (replayed) outcome event where "db' = db" and "duplicate_tool ctx outcome event = Inr c"
    | (existing) locked x rs where "x \<in> set (db_tools db)" and "x_scope x = ptc_idempotency_scope cmd"
        and "x_key x = ptc_idempotency_key cmd" and "validate_existing_tool cmd locked x = Inr ()"
        and "db' = db\<lparr>db_receipts := rs\<rparr>" and "disposition c = NoOp"
        and "tes_tool_execution_id (committed_value c) = x_id x"
    | (prepared) locked rs where
        "find_run (cc_tenant_id ctx) (er_run_id (ptc_expected_run cmd)) db = Some (lw_run locked)"
        and "find_task (cc_tenant_id ctx) (lp_task_id (ptc_lease cmd)) db = Some (lw_task locked)"
        and "validate_worker_fences (ptc_expected_run cmd) (ptc_lease cmd) locked now ''tool preparation'' = Inr ()"
        and "\<forall>x \<in> set (db_tools db). \<not> (x_tenant x = cc_tenant_id ctx
               \<and> x_scope x = ptc_idempotency_scope cmd \<and> x_key x = ptc_idempotency_key cmd)"
        and "prepare_new_tool ext ctx cmd now locked (db\<lparr>db_receipts := rs\<rparr>) = Inr (c, db')"
proof -
  from assms have "with_receipt ctx now ttl (duplicate_tool ctx)
      (bindT (lock_worker_task (cc_tenant_id ctx) (er_run_id (ptc_expected_run cmd)) (lp_task_id (ptc_lease cmd)))
        (\<lambda>locked.
      thenT (liftT (validate_worker_fences (ptc_expected_run cmd) (ptc_lease cmd) locked now ''tool preparation''))
      (thenT (guardT (t_stage (lw_task locked) = ptc_stage_execution_id cmd)
               (invalid_command ''tool execution stage does not match the leased task''))
      (bindT (lock_tool_by_idempotency (cc_tenant_id ctx) (ptc_idempotency_scope cmd)
                (ptc_idempotency_key cmd)) (\<lambda>existing.
      case existing of
          Some x \<Rightarrow>
            thenT (liftT (validate_existing_tool cmd locked x))
            (bindT (liftT (tool_snapshot x)) (\<lambda>snapshot.
            thenT (finish_receipt ctx ReceiptNoOp (encode_tool_receipt snapshot) None
                     (Some (''tool_execution'', x_id x, x_attempts x)))
            (returnT (tool_committed NoOp snapshot None []))))
        | None \<Rightarrow> prepare_new_tool ext ctx cmd now locked))))) db = Inr (c, db')"
    by (auto simp: prepare_tool_execution_def txn_iffs)
  then show thesis
  proof (cases rule: with_receipt_cases)
    case replayed
    then show ?thesis using that(1) by blast
  next
    case fresh
    let ?find = "find (\<lambda>x. x_tenant x = cc_tenant_id ctx \<and> x_scope x = ptc_idempotency_scope cmd
        \<and> x_key x = ptc_idempotency_key cmd) (db_tools db)"
    show ?thesis
    proof (cases ?find)
      case None
      note that(3) [where rs = "db_receipts db @ [new_receipt ctx now (int ttl)]"]
      then show ?thesis
        using fresh(2) None [unfolded find_None_ball] by (auto simp: txn_iffs find_run_def find_task_def None)
    next
      case (Some x)
      then show ?thesis
        using fresh(2) find_Some_in [OF Some]
        by (auto simp: txn_iffs tool_snapshot_def result_iffs elim!: finish_receipt_frame intro: that(2))
    qed
  qed
qed

lemma prepare_tool_execution_effect:
  assumes "runs_ok db" and "prepare_tool_execution ext ttl ctx cmd now db = Inr (c, db')"
  shows "quiet db db' \<or> advances db db'"
  using assms(2)
proof (cases rule: prepare_tool_execution_cases)
  case (prepared locked rs)
  have live: "\<not> run_terminal (r_status (lw_run locked))"
    using prepared(3) by (simp add: validate_worker_fences_Inr)
  from find_run_Some [OF prepared(1)] have run: "r_id (lw_run locked) = er_run_id (ptc_expected_run cmd)" by simp
  from prepared(5) have "advances db db'"
    by (rule prepare_tool_effect)
       (rule advances_by_cursor [OF assms(1) prepared(1) live, where e = "tool_event ctx cmd now locked" and now = now],
        simp_all add: run tool_event_def)
  then show ?thesis ..
qed (simp_all add: quiet_def)

lemma prepare_tool_execution_keys:
  assumes "task_keys_ok db" and "prepare_tool_execution ext ttl ctx cmd now db = Inr (c, db')"
  shows "task_keys_ok db'"
  using assms(2)
proof (cases rule: prepare_tool_execution_cases)
  case (prepared locked rs)
  from prepared(5) show ?thesis
    by (rule prepare_tool_effect) (use assms(1) in \<open>simp add: task_keys_ok_def\<close>)
qed (use assms(1) in \<open>simp_all add: task_keys_ok_def\<close>)

interpretation prepare_tool_cmd: run_command
  "\<lambda>(ext, ttl, ctx, cmd, now). prepare_tool_execution ext ttl ctx cmd now"
  by unfold_locales
     (auto dest: prepare_tool_execution_effect [OF store_okD(1)] prepare_tool_execution_keys [OF store_okD(2)])


section \<open>The effect of a retry\<close>

definition retry_event :: "command_context \<Rightarrow> begin_tool_retry_command \<Rightarrow> micros \<Rightarrow> run_row \<Rightarrow> int \<Rightarrow> event_insert" where
  "retry_event ctx cmd now run attempt = execution_event ctx (btr_started_event_id cmd)
     (er_run_id (btr_expected_run cmd)) (r_next_seq run) ''tool.retry_attempt_started''
     (retry_started_payload (btr_tool_execution_id cmd) (lp_task_id (btr_lease cmd)) attempt) ''worker'' now"

definition next_tool_attempt :: "uuid \<Rightarrow> begin_tool_retry_command \<Rightarrow> tool_row \<Rightarrow> micros \<Rightarrow> tool_attempt_row" where
  "next_tool_attempt tenant cmd x now = open_tool_attempt (btr_tool_attempt_id cmd) tenant
     (btr_tool_execution_id cmd) (er_run_id (btr_expected_run cmd)) (x_attempts x + 1) now"

lemma start_tool_retry_effect:
  assumes "start_tool_retry ctx cmd now locked x db = Inr (c, db')"
  obtains rs result where "sql_count (retry_target (cc_tenant_id ctx) cmd x) (db_tools db) = 1"
    and "sql_count (leased_try (cc_tenant_id ctx) (lw_task locked)) (db_tasks db) = 1"
    and "updates_pass run_checks (run_at (cc_tenant_id ctx) (er_run_id (btr_expected_run cmd))
        (r_version (lw_run locked)) (r_generation (lw_run locked))) (run_cursor_advanced now) (db_runs db)"
    and "db' = db\<lparr>db_tools := sql_update (retry_target (cc_tenant_id ctx) cmd x)
            (retried_tool (x_attempts x + 1) now) (db_tools db),
        db_tool_attempts := db_tool_attempts db @ [next_tool_attempt (cc_tenant_id ctx) cmd x now],
        db_tasks := sql_update (leased_try (cc_tenant_id ctx) (lw_task locked)) (recovered_task result now) (db_tasks db),
        db_attempts := sql_update (open_attempt (cc_tenant_id ctx) (t_id (lw_task locked)) (t_attempt (lw_task locked)))
          (recovery_attempt_closed now) (db_attempts db),
        db_events := db_events db @ [event_row_of (retry_event ctx cmd now (lw_run locked) (x_attempts x + 1))],
        db_outbox := db_outbox db @ [outbox_row_of (retry_event ctx cmd now (lw_run locked) (x_attempts x + 1))],
        db_runs := sql_update (run_at (cc_tenant_id ctx) (er_run_id (btr_expected_run cmd))
          (r_version (lw_run locked)) (r_generation (lw_run locked))) (run_cursor_advanced now) (db_runs db),
        db_receipts := rs\<rparr>"
    and "disposition c = Applied" and "tes_tool_execution_id (committed_value c) = btr_tool_execution_id cmd"
    and "int (tes_attempt_count (committed_value c)) = x_attempts x + 1"
proof -
  let ?attempt = "x_attempts x + 1" let ?t = "cc_tenant_id ctx" let ?run = "er_run_id (btr_expected_run cmd)"
  let ?e = "retry_event ctx cmd now (lw_run locked) ?attempt"
  from assms obtain db1 db2 db3 result where
      count: "sql_count (retry_target ?t cmd x) (db_tools db) = 1"
    and att: "insert_tool_attempt (next_tool_attempt ?t cmd x now) (db\<lparr>db_tools :=
          sql_update (retry_target ?t cmd x) (retried_tool ?attempt now) (db_tools db)\<rparr>) = Inr ((), db1)"
    and task: "complete_recovery_task ?t locked now result db1 = Inr ((), db2)"
    and adv: "advance_run_event_cursor ?t ?run (r_version (lw_run locked)) (r_generation (lw_run locked)) now
        (db2\<lparr>db_events := db_events db2 @ [event_row_of ?e],
              db_outbox := db_outbox db2 @ [outbox_row_of ?e]\<rparr>) = Inr ((), db3)"
    and rest: "\<exists>rs. db' = db3\<lparr>db_receipts := rs\<rparr>"
    and c: "disposition c = Applied" "tes_tool_execution_id (committed_value c) = btr_tool_execution_id cmd"
    unfolding start_tool_retry_def Let_def
    apply (clarsimp simp: txn_iffs retry_event_def [symmetric] next_tool_attempt_def [symmetric]
        simp del: positive_u32_Inr)
    apply (erule finish_receipt_frame)
    apply (rule that [rotated 2], assumption, assumption)
         apply (rule exI, assumption)
        apply (simp_all del: positive_u32_Inr)
    done
  have attempt: "int (tes_attempt_count (committed_value c)) = ?attempt"
    using assms by (auto simp: start_tool_retry_def Let_def txn_iffs)
  from att have db1: "db1 = db\<lparr>db_tools :=
          sql_update (retry_target ?t cmd x) (retried_tool ?attempt now) (db_tools db),
        db_tool_attempts := db_tool_attempts db @ [next_tool_attempt ?t cmd x now]\<rparr>"
    by (auto simp: insert_tool_attempt_def txn_iffs)
  from task obtain tasks: "sql_count (leased_try ?t (lw_task locked)) (db_tasks db1) = 1"
    and db2: "db2 = db1\<lparr>db_tasks := sql_update (leased_try ?t (lw_task locked)) (recovered_task result now) (db_tasks db1),
        db_attempts := sql_update (open_attempt ?t (t_id (lw_task locked)) (t_attempt (lw_task locked)))
          (recovery_attempt_closed now) (db_attempts db1)\<rparr>"
    by (rule complete_recovery_effect)
  from rest obtain rs where db': "db' = db3\<lparr>db_receipts := rs\<rparr>" by blast
  from adv show thesis
    by (rule cursor_effect) (rule that [of rs result], use count tasks c attempt in \<open>simp_all add: db' db1 db2\<close>)
qed

lemmas tool_retry_effect =
  start_tool_retry_effect [where db = "db\<lparr>db_receipts := rs\<rparr>" for db rs, simplified]


lemma begin_tool_retry_attempt_cases:
  assumes "begin_tool_retry_attempt parse_uuid ttl ctx cmd now db = Inr (c, db')"
  obtains (replayed) outcome event where "db' = db" and "duplicate_tool ctx outcome event = Inr c"
    | (started) locked x rs where "begin_tool_retry_shape_is_valid cmd"
        and "find_run (cc_tenant_id ctx) (er_run_id (btr_expected_run cmd)) db = Some (lw_run locked)"
        and "find_task (cc_tenant_id ctx) (lp_task_id (btr_lease cmd)) db = Some (lw_task locked)"
        and "validate_worker_fences (btr_expected_run cmd) (btr_lease cmd) locked now
               ''Tool retry attempt start'' = Inr ()"
        and "validate_retry_task_origin parse_uuid (cc_tenant_id ctx) (er_run_id (btr_expected_run cmd))
               (lp_task_id (btr_lease cmd)) ''tool.retry_due'' (btr_tool_execution_id cmd) db = Inr ((), db)"
        and "find (tool_of (cc_tenant_id ctx) (btr_tool_execution_id cmd)) (db_tools db) = Some x"
        and "x_run x = er_run_id (btr_expected_run cmd)"
        and "awaiting_retry (int (btr_expected_attempt cmd)) x"
        and "start_tool_retry ctx cmd now locked x (db\<lparr>db_receipts := rs\<rparr>) = Inr (c, db')"
proof -
  from assms have shape: "begin_tool_retry_shape_is_valid cmd" and "with_receipt ctx now ttl (duplicate_tool ctx)
      (bindT (lock_worker_task (cc_tenant_id ctx) (er_run_id (btr_expected_run cmd)) (lp_task_id (btr_lease cmd)))
        (\<lambda>locked.
      thenT (liftT (validate_worker_fences (btr_expected_run cmd) (btr_lease cmd) locked now
               ''Tool retry attempt start''))
      (thenT (validate_retry_task_origin parse_uuid (cc_tenant_id ctx) (er_run_id (btr_expected_run cmd))
               (lp_task_id (btr_lease cmd)) ''tool.retry_due'' (btr_tool_execution_id cmd))
      (bindT (lock_tool_by_id (cc_tenant_id ctx) (btr_tool_execution_id cmd)) (\<lambda>x.
      thenT (guardT (x_run x = er_run_id (btr_expected_run cmd) \<and> x_stage x = t_stage (lw_task locked))
               (store_error_of NotFound ''Tool retry Task belongs to another Execution scope''))
      (thenT (guardT (awaiting_retry (int (btr_expected_attempt cmd)) x)
               (store_error_of VersionConflict ''Tool retry state or attempt changed''))
      (start_tool_retry ctx cmd now locked x))))))) db = Inr (c, db')"
    by (auto simp: begin_tool_retry_attempt_def Let_def txn_iffs)
  from this(2) show thesis
  proof (cases rule: with_receipt_cases)
    case replayed
    then show ?thesis using that(1) by blast
  next
    case fresh
    from fresh(2) show ?thesis
      by (auto simp: txn_iffs find_run_def find_task_def
          intro!: that(2) [where rs = "db_receipts db @ [new_receipt ctx now (int ttl)]", OF shape])
  qed
qed

lemma begin_tool_retry_attempt_effect:
  assumes "runs_ok db" and "begin_tool_retry_attempt parse_uuid ttl ctx cmd now db = Inr (c, db')"
  shows "quiet db db' \<or> advances db db'"
  using assms(2)
proof (cases rule: begin_tool_retry_attempt_cases)
  case (started locked x rs)
  have live: "\<not> run_terminal (r_status (lw_run locked))"
    using started(4) by (simp add: validate_worker_fences_Inr)
  from started(9) have "advances db db'"
    by (rule tool_retry_effect)
       (rule advances_by_cursor [OF assms(1) started(2) live, where now = now
          and e = "retry_event ctx cmd now (lw_run locked) (x_attempts x + 1)"],
        simp_all add: retry_event_def)
  then show ?thesis ..
qed (simp add: quiet_def)

lemma begin_tool_retry_attempt_keys:
  assumes "task_keys_ok db" and "begin_tool_retry_attempt parse_uuid ttl ctx cmd now db = Inr (c, db')"
  shows "task_keys_ok db'"
  using assms(2)
proof (cases rule: begin_tool_retry_attempt_cases)
  case (started locked x rs)
  from started(9) show ?thesis
    by (rule tool_retry_effect) (use assms(1) in \<open>simp add: task_keys_ok_def map_sql_update_same\<close>)
qed (use assms(1) in simp)

interpretation tool_retry_cmd: run_command
  "\<lambda>(parse_uuid, ttl, ctx, cmd, now). begin_tool_retry_attempt parse_uuid ttl ctx cmd now"
  by unfold_locales
     (auto dest: begin_tool_retry_attempt_effect [OF store_okD(1)] begin_tool_retry_attempt_keys [OF store_okD(2)])

section \<open>The effect of an outcome\<close>

lemma record_locked_tool_effect:
  assumes "record_locked_tool ctx cmd p now run task x db = Inr (c, db')"
  obtains rs where
      "sql_count (unfinished_tool_attempt (cc_tenant_id ctx) (rto_tool_execution_id cmd) (x_attempts x))
         (db_tool_attempts db) = 1"
    and "sql_count (awaits_outcome (cc_tenant_id ctx) (rto_tool_execution_id cmd)) (db_tools db) = 1"
    and "updates_pass tool_checks (awaits_outcome (cc_tenant_id ctx) (rto_tool_execution_id cmd))
          (projected_tool p (persisted_ref p x) now) (db_tools db)"
    and "updates_pass run_checks (run_at (cc_tenant_id ctx) (er_run_id (rto_expected_run cmd))
        (r_version run) (r_generation run)) (run_cursor_advanced now) (db_runs db)"
    and "db' = db\<lparr>db_tool_attempts := sql_update
          (unfinished_tool_attempt (cc_tenant_id ctx) (rto_tool_execution_id cmd) (x_attempts x))
          (finished_tool_attempt p cmd (persisted_ref p x) now) (db_tool_attempts db),
        db_tools := sql_update (awaits_outcome (cc_tenant_id ctx) (rto_tool_execution_id cmd))
            (projected_tool p (persisted_ref p x) now) (db_tools db),
        db_events := db_events db @ [event_row_of (tool_outcome_event ctx cmd p now run task x)],
        db_outbox := db_outbox db @ [outbox_row_of (tool_outcome_event ctx cmd p now run task x)],
        db_runs := sql_update (run_at (cc_tenant_id ctx) (er_run_id (rto_expected_run cmd))
          (r_version run) (r_generation run)) (run_cursor_advanced now) (db_runs db),
        db_receipts := rs\<rparr>"
    and "disposition c = Applied" and "tes_status (committed_value c) = pto_status p"
    and "durable_follow_ups c = tool_follow_ups (rto_tool_execution_id cmd) p"
proof -
  let ?t = "cc_tenant_id ctx" let ?i = "rto_tool_execution_id cmd"
  let ?e = "tool_outcome_event ctx cmd p now run task x"
  let ?P = "unfinished_tool_attempt ?t ?i (x_attempts x)"
  from assms obtain db3 where
      counts: "sql_count ?P (db_tool_attempts db) = 1" "sql_count (awaits_outcome ?t ?i) (db_tools db) = 1"
    and pass: "updates_pass tool_checks (awaits_outcome ?t ?i) (projected_tool p (persisted_ref p x) now) (db_tools db)"
    and adv: "advance_run_event_cursor ?t (er_run_id (rto_expected_run cmd)) (r_version run) (r_generation run) now
        (db\<lparr>db_tool_attempts := sql_update ?P (finished_tool_attempt p cmd (persisted_ref p x) now) (db_tool_attempts db),
            db_tools := sql_update (awaits_outcome ?t ?i) (projected_tool p (persisted_ref p x) now) (db_tools db),
            db_events := db_events db @ [event_row_of ?e], db_outbox := db_outbox db @ [outbox_row_of ?e]\<rparr>) = Inr ((), db3)"
    and rest: "\<exists>rs. db' = db3\<lparr>db_receipts := rs\<rparr>"
    and c: "disposition c = Applied" "tes_status (committed_value c) = pto_status p"
      "durable_follow_ups c = tool_follow_ups ?i p"
    unfolding record_locked_tool_def Let_def
    apply (clarsimp simp: txn_iffs)
    apply (erule finish_receipt_frame)
    apply (rule that [rotated 3], assumption)
         apply (rule exI, assumption)
        apply simp_all
    done
  from rest obtain rs where db': "db' = db3\<lparr>db_receipts := rs\<rparr>" by blast
  from adv show thesis
    by (rule cursor_effect) (rule that [of rs], use counts pass c in \<open>simp_all add: db'\<close>)
qed

lemmas tool_outcome_effect =
  record_locked_tool_effect [where db = "db\<lparr>db_receipts := rs\<rparr>" for db rs, simplified]

lemma record_tool_outcome_cases:
  assumes "record_tool_outcome ext ttl ctx cmd now db = Inr (c, db')"
  obtains (replayed) outcome event where "db' = db" and "duplicate_tool ctx outcome event = Inr c"
    | (recorded) p and run :: locked_event_run and task x rs where "project_tool_outcome ext (rto_outcome cmd) = Inr p"
        and "find_run (cc_tenant_id ctx) (er_run_id (rto_expected_run cmd)) db = Some (le_run run)"
        and "find_task (cc_tenant_id ctx) (rto_task_id cmd) db = Some task" and "t_run task = er_run_id (rto_expected_run cmd)"
        and "find (tool_of (cc_tenant_id ctx) (rto_tool_execution_id cmd)) (db_tools db) = Some x"
        and "x_run x = er_run_id (rto_expected_run cmd)" and "x_task x = rto_task_id cmd"
        and "int (rto_expected_attempt cmd) = x_attempts x"
        and "x_status x = ToolExecuting \<or> x_status x = ToolReconciling"
        and "record_locked_tool ctx cmd p now (le_run run) task x (db\<lparr>db_receipts := rs\<rparr>) = Inr (c, db')"
proof -
  from assms obtain p where p: "project_tool_outcome ext (rto_outcome cmd) = Inr p" and
      "with_receipt ctx now ttl (duplicate_tool ctx)
      (bindT (lock_event_run (cc_tenant_id ctx) (er_run_id (rto_expected_run cmd))) (\<lambda>run.
      bindT (\<lambda>db. liftT (ok_or (find_task (cc_tenant_id ctx) (rto_task_id cmd) db)
               (store_error_of NotFound ''task was not found'')) db) (\<lambda>task.
      thenT (guardT (t_run task = er_run_id (rto_expected_run cmd))
               (store_error_of NotFound ''tool task belongs to another run''))
      (bindT (lock_tool_by_id (cc_tenant_id ctx) (rto_tool_execution_id cmd)) (\<lambda>x.
      thenT (guardT (x_run x = er_run_id (rto_expected_run cmd) \<and> x_task x = rto_task_id cmd)
               (store_error_of NotFound ''tool execution belongs to another task or run''))
      (thenT (guardT (int (rto_expected_attempt cmd) = x_attempts x)
               (store_error_of VersionConflict ''tool execution attempt changed''))
      (thenT (guardT (x_status x \<in> {ToolExecuting, ToolReconciling})
               (store_error_of InvalidTransition ''tool execution does not accept an adapter outcome''))
      (record_locked_tool ctx cmd p now (le_run run) task x)))))))) db = Inr (c, db')"
    by (auto simp: record_tool_outcome_def Let_def txn_iffs)
  from this(2) show thesis
  proof (cases rule: with_receipt_cases)
    case replayed
    then show ?thesis using that(1) by blast
  next
    case fresh
    then show ?thesis
      using that(2) [where rs = "db_receipts db @ [new_receipt ctx now (int ttl)]", OF p]
      by (auto simp: txn_iffs ok_or_Inr_iff find_run_def find_task_def)
  qed
qed

lemma record_tool_outcome_effect:
  assumes "runs_ok db" and "record_tool_outcome ext ttl ctx cmd now db = Inr (c, db')"
  shows "evolves db db'"
  using assms(2)
proof (cases rule: record_tool_outcome_cases)
  case (recorded p run task x rs)
  from recorded(10) have "records db db'"
    by (rule tool_outcome_effect)
       (rule records_by_cursor [OF assms(1) recorded(2), where now = now
          and e = "tool_outcome_event ctx cmd p now (le_run run) task x"], simp_all add: tool_outcome_event_def)
  then show ?thesis by (rule evolves_record)
qed (simp add: evolves_same)

lemma record_tool_outcome_keys:
  assumes "task_keys_ok db" and "record_tool_outcome ext ttl ctx cmd now db = Inr (c, db')"
  shows "task_keys_ok db'"
  using assms(2)
proof (cases rule: record_tool_outcome_cases)
  case (recorded p run task x rs)
  from recorded(10) show ?thesis
    by (rule tool_outcome_effect) (use assms(1) in \<open>simp add: task_keys_ok_def\<close>)
qed (use assms(1) in simp)

interpretation tool_outcome_cmd: store_command
  "\<lambda>(ext, ttl, ctx, cmd, now). record_tool_outcome ext ttl ctx cmd now"
  by unfold_locales
     (auto dest: record_tool_outcome_effect [OF store_okD(1)] record_tool_outcome_keys [OF store_okD(2)])

end
