(* ===== verification/AgentExecution.thy ===== *)
theory AgentExecution
  imports ToolExecution
begin

text \<open>
  Agent executions: the commands of \<open>durable-store/src/external_command.rs\<close> and
  \<open>prepare_agent_execution\<close>, \<open>begin_agent_resubmission\<close>, \<open>record_agent_submission\<close> and
  \<open>record_agent_outcome\<close> of \<open>transaction_executor.rs\<close>. An execution has a version that every
  command on it raises by one; a command names the version it was decided on.
\<close>

section \<open>Commands\<close>

record prepare_agent_command =
  pac_expected_run :: expected_run
  pac_lease :: lease_proof
  pac_agent_execution_id :: uuid
  pac_stage_execution_id :: "uuid option"
  pac_endpoint_id :: uuid
  pac_agent_version_id :: uuid
  pac_idempotency_key :: string
  pac_request_hash :: digest
  pac_request :: json_payload
  pac_capabilities_snapshot :: json_payload
  pac_prepared_event_id :: uuid

record begin_agent_resubmission_command =
  bar_expected_run :: expected_run
  bar_lease :: lease_proof
  bar_agent_execution_id :: uuid
  bar_expected_version :: nat
  bar_started_event_id :: uuid

definition resubmission_shape_is_valid :: "begin_agent_resubmission_command \<Rightarrow> bool" where
  "resubmission_shape_is_valid cmd \<longleftrightarrow> bar_expected_version cmd > 0
     \<and> er_version (bar_expected_run cmd) \<noteq> None
     \<and> er_execution_generation (bar_expected_run cmd) = Some (lp_execution_generation (bar_lease cmd))"

datatype agent_submission_outcome =
    SubmissionAccepted string "string option" string
  | SubmissionUncertain
  | SubmissionRejected string execution_retry_class "micros option"

record record_agent_submission_command =
  ras_expected_run :: expected_run
  ras_agent_execution_id :: uuid
  ras_expected_version :: nat
  ras_outcome :: agent_submission_outcome
  ras_submission_event_id :: uuid

record record_agent_outcome_command =
  rao_expected_run :: expected_run
  rao_agent_execution_id :: uuid
  rao_expected_version :: nat
  rao_status :: agent_status
  rao_result :: "json_payload option"
  rao_error_code :: "string option"
  rao_next_status_poll_at :: "micros option"
  rao_outcome_event_id :: uuid

definition agent_outcome_shape_is_valid :: "agent_status \<Rightarrow> bool" where
  "agent_outcome_shape_is_valid status \<longleftrightarrow>
     agent_terminal status \<or> agent_requires_reconciliation status \<or> status = AgentManualReview"

section \<open>Rows and answers\<close>

definition insert_agent :: "agent_row \<Rightarrow> unit txn" where
  "insert_agent g = insert_row
     (agent_checks g \<and> g_key g \<noteq> [])
     (\<lambda>db. \<not> sql_exists (\<lambda>v. g_id v = g_id g
        \<or> (g_tenant v = g_tenant g \<and> g_endpoint v = g_endpoint g
             \<and> (g_key v = g_key g \<or> g_remote_run g \<noteq> None \<and> g_remote_run v = g_remote_run g)))
        (db_agents db))
     (\<lambda>db. run_exists (g_tenant g) (g_run g) db \<and> stage_exists (g_tenant g) (g_run g) (g_stage g) db
        \<and> task_exists (g_tenant g) (g_run g) (Some (g_task g)) db)
     (\<lambda>db. db\<lparr>db_agents := db_agents db @ [g]\<rparr>)"

lemma keeps_insert_agent [keeps_intros]:
  "(\<And>db v. g (db\<lparr>db_agents := v\<rparr>) = g db) \<Longrightarrow> keeps g (insert_agent x)"
  by (auto simp: insert_agent_def intro: keeps_intros)

definition agent_snapshot :: "agent_row \<Rightarrow> agent_execution_snapshot store_result" where
  "agent_snapshot g =
    bindR (nonnegative_u64 (g_version g) ''Agent execution version'') (\<lambda>version.
    bindR (nonnegative_u64 (g_cursor_version g) ''Agent cursor version'') (\<lambda>cursor_version.
    Inr \<lparr> aes_tenant_id = g_tenant g, aes_agent_execution_id = g_id g, aes_run_id = g_run g,
      aes_stage_execution_id = g_stage g, aes_task_id = g_task g, aes_endpoint_id = g_endpoint g,
      aes_agent_version_id = g_agent_version g, aes_status = g_status g, aes_version = version,
      aes_remote_run_ref = g_remote_run g, aes_remote_session_ref = g_remote_session g,
      aes_remote_protocol_version = g_remote_protocol g, aes_status_poll_at = g_status_poll_at g,
      aes_event_cursor = g_event_cursor g, aes_cursor_version = cursor_version,
      aes_retry_at = g_retry_at g, aes_updated_at = g_updated_at g \<rparr>))"

definition agent_committed ::
  "command_disposition \<Rightarrow> agent_execution_snapshot \<Rightarrow> uuid option \<Rightarrow> durable_follow_up list
   \<Rightarrow> agent_execution_snapshot committed" where
  "agent_committed d snapshot event follow_ups =
    \<lparr> disposition = d, committed_value = snapshot,
      event_ids = (case event of None \<Rightarrow> [] | Some e \<Rightarrow> [e]), durable_follow_ups = follow_ups,
      post_commit_hints = [RunEventsAvailable (aes_run_id snapshot), InvalidateRunCache (aes_run_id snapshot)] \<rparr>"

lemma agent_committed_sel [simp]:
  "disposition (agent_committed d s e fs) = d" "committed_value (agent_committed d s e fs) = s"
  "durable_follow_ups (agent_committed d s e fs) = fs"
  by (simp_all add: agent_committed_def)

definition duplicate_agent ::
  "command_context \<Rightarrow> stored_outcome \<Rightarrow> uuid option \<Rightarrow> agent_execution_snapshot committed store_result" where
  "duplicate_agent ctx outcome event =
    bindR (decode_agent_receipt (cc_tenant_id ctx) outcome) (\<lambda>snapshot.
    Inr (agent_committed Duplicate snapshot event []))"

text \<open>
  \<open>uq_agent_execs__remote_run\<close>: a remote run belongs to one execution of its endpoint.
\<close>

definition remote_run_free :: "agent_row \<Rightarrow> string option \<Rightarrow> db \<Rightarrow> bool" where
  "remote_run_free g remote db \<longleftrightarrow> remote = None
     \<or> \<not> sql_exists (\<lambda>v. g_id v \<noteq> g_id g \<and> g_tenant v = g_tenant g \<and> g_endpoint v = g_endpoint g
           \<and> g_remote_run v = remote) (db_agents db)"

section \<open>Preparing a submission\<close>

definition validate_prepare_agent :: "externals \<Rightarrow> prepare_agent_command \<Rightarrow> unit store_result" where
  "validate_prepare_agent ext cmd =
    bindR (json_value ext (pac_request cmd)) (\<lambda>_.
    bindR (json_value ext (pac_capabilities_snapshot cmd)) (\<lambda>_. Inr ()))"

definition validate_existing_agent ::
  "prepare_agent_command \<Rightarrow> locked_worker_task \<Rightarrow> agent_row \<Rightarrow> unit store_result" where
  "validate_existing_agent cmd locked existing =
    (if g_run existing \<noteq> r_id (lw_run locked) \<or> g_task existing \<noteq> t_id (lw_task locked)
        \<or> g_stage existing \<noteq> t_stage (lw_task locked) \<or> g_endpoint existing \<noteq> pac_endpoint_id cmd
        \<or> g_agent_version existing \<noteq> pac_agent_version_id cmd \<or> g_hash existing \<noteq> pac_request_hash cmd
     then Inl (store_error_of IdempotencyKeyReused ''Agent idempotency key was reused for a different request'')
     else Inr ())"

definition lock_agent_by_idempotency :: "uuid \<Rightarrow> uuid \<Rightarrow> string \<Rightarrow> agent_row option txn" where
  "lock_agent_by_idempotency tenant endpoint key = queryT (\<lambda>db.
     find (\<lambda>g. g_tenant g = tenant \<and> g_endpoint g = endpoint \<and> g_key g = key) (db_agents db))"

definition prepared_agent ::
  "uuid \<Rightarrow> prepare_agent_command \<Rightarrow> locked_worker_task \<Rightarrow> json \<Rightarrow> json \<Rightarrow> micros \<Rightarrow> agent_row" where
  "prepared_agent tenant cmd locked request capabilities now =
    \<lparr> g_id = pac_agent_execution_id cmd, g_tenant = tenant, g_run = r_id (lw_run locked),
      g_stage = pac_stage_execution_id cmd, g_task = t_id (lw_task locked),
      g_endpoint = pac_endpoint_id cmd, g_agent_version = pac_agent_version_id cmd,
      g_key = pac_idempotency_key cmd, g_hash = pac_request_hash cmd, g_remote_run = None,
      g_remote_session = None, g_status = AgentSubmitting, g_version = 0, g_capabilities = capabilities,
      g_event_cursor = None, g_cursor_version = 0, g_stop_requested_at = None, g_stop_outcome = None,
      g_result = None, g_error_code = None, g_last_synced_at = None, g_created_at = now,
      g_updated_at = now, g_completed_at = None, g_retry_at = None, g_request = request,
      g_remote_protocol = None, g_status_poll_at = None \<rparr>"

definition agent_prepared_event ::
  "command_context \<Rightarrow> prepare_agent_command \<Rightarrow> micros \<Rightarrow> locked_worker_task \<Rightarrow> event_insert" where
  "agent_prepared_event ctx cmd now locked = execution_event ctx (pac_prepared_event_id cmd)
     (r_id (lw_run locked)) (r_next_seq (lw_run locked)) ''agent.execution_prepared''
     (JObject [(''agent_execution_id'', json_uuid (pac_agent_execution_id cmd)),
       (''task_id'', json_uuid (t_id (lw_task locked))), (''endpoint_id'', json_uuid (pac_endpoint_id cmd)),
       (''agent_version_id'', json_uuid (pac_agent_version_id cmd))]) ''worker'' now"

definition prepared_agent_snapshot ::
  "command_context \<Rightarrow> prepare_agent_command \<Rightarrow> micros \<Rightarrow> agent_execution_snapshot" where
  "prepared_agent_snapshot ctx cmd now =
    \<lparr> aes_tenant_id = cc_tenant_id ctx, aes_agent_execution_id = pac_agent_execution_id cmd,
      aes_run_id = er_run_id (pac_expected_run cmd), aes_stage_execution_id = pac_stage_execution_id cmd,
      aes_task_id = lp_task_id (pac_lease cmd), aes_endpoint_id = pac_endpoint_id cmd,
      aes_agent_version_id = pac_agent_version_id cmd, aes_status = AgentSubmitting, aes_version = 0,
      aes_remote_run_ref = None, aes_remote_session_ref = None, aes_remote_protocol_version = None,
      aes_status_poll_at = None, aes_event_cursor = None, aes_cursor_version = 0, aes_retry_at = None,
      aes_updated_at = now \<rparr>"

definition prepare_new_agent ::
  "externals \<Rightarrow> command_context \<Rightarrow> prepare_agent_command \<Rightarrow> micros \<Rightarrow> locked_worker_task
   \<Rightarrow> agent_execution_snapshot committed txn" where
  "prepare_new_agent ext ctx cmd now locked =
    (let tenant = cc_tenant_id ctx; run = lw_run locked; event_id = pac_prepared_event_id cmd in
    bindT (liftT (json_value ext (pac_request cmd))) (\<lambda>request.
    bindT (liftT (json_value ext (pac_capabilities_snapshot cmd))) (\<lambda>capabilities.
    thenT (insert_agent (prepared_agent tenant cmd locked request capabilities now))
    (thenT (insert_event (agent_prepared_event ctx cmd now locked))
    (thenT (advance_run_event_cursor tenant (r_id run) (r_version run) (r_generation run) now)
    (let snapshot = prepared_agent_snapshot ctx cmd now in
    thenT (finish_receipt ctx ReceiptApplied (encode_agent_receipt snapshot) (Some event_id)
             (Some (''agent_execution'', pac_agent_execution_id cmd, 0)))
    (returnT (agent_committed Applied snapshot (Some event_id) []))))))))"

definition prepare_agent_execution ::
  "externals \<Rightarrow> nat \<Rightarrow> command_context \<Rightarrow> prepare_agent_command \<Rightarrow> micros
   \<Rightarrow> agent_execution_snapshot committed txn" where
  "prepare_agent_execution ext ttl ctx cmd now =
    thenT (liftT (validate_prepare_agent ext cmd))
    (with_receipt ctx now ttl (duplicate_agent ctx)
      (bindT (lock_worker_task (cc_tenant_id ctx) (er_run_id (pac_expected_run cmd)) (lp_task_id (pac_lease cmd)))
        (\<lambda>locked.
      thenT (liftT (validate_worker_fences (pac_expected_run cmd) (pac_lease cmd) locked now
               ''Agent submission preparation''))
      (thenT (guardT (t_stage (lw_task locked) = pac_stage_execution_id cmd)
               (invalid_command ''Agent execution stage does not match the leased task''))
      (bindT (lock_agent_by_idempotency (cc_tenant_id ctx) (pac_endpoint_id cmd) (pac_idempotency_key cmd))
        (\<lambda>existing.
      case existing of
          Some g \<Rightarrow>
            thenT (liftT (validate_existing_agent cmd locked g))
            (bindT (liftT (agent_snapshot g)) (\<lambda>snapshot.
            thenT (finish_receipt ctx ReceiptNoOp (encode_agent_receipt snapshot) None
                     (Some (''agent_execution'', g_id g, g_version g)))
            (returnT (agent_committed NoOp snapshot None []))))
        | None \<Rightarrow> prepare_new_agent ext ctx cmd now locked))))))"

section \<open>Starting a resubmission\<close>

definition awaiting_resubmission :: "int \<Rightarrow> agent_row \<Rightarrow> bool" where
  "awaiting_resubmission version g \<longleftrightarrow> g_status g = AgentReconciling \<and> g_version g = version
     \<and> g_retry_at g = None \<and> g_remote_run g = None"

definition resubmission_target :: "uuid \<Rightarrow> begin_agent_resubmission_command \<Rightarrow> agent_row \<Rightarrow> agent_row \<Rightarrow> bool" where
  "resubmission_target tenant cmd g v \<longleftrightarrow> agent_of tenant (bar_agent_execution_id cmd) v
     \<and> awaiting_resubmission (g_version g) v"

definition resubmitted_agent :: "int \<Rightarrow> micros \<Rightarrow> agent_row \<Rightarrow> agent_row" where
  "resubmitted_agent version now g = g\<lparr>g_status := AgentOutcomeUnknown, g_version := version,
     g_error_code := None, g_result := None, g_completed_at := None, g_status_poll_at := None,
     g_updated_at := now\<rparr>"

definition resubmission_result :: "uuid \<Rightarrow> int \<Rightarrow> json" where
  "resubmission_result execution version = JObject [(''agent_execution_id'', json_uuid execution),
     (''version'', JInt version), (''outcome'', JString ''submission_reconciliation_started'')]"

definition resubmission_event ::
  "command_context \<Rightarrow> begin_agent_resubmission_command \<Rightarrow> micros \<Rightarrow> run_row \<Rightarrow> int \<Rightarrow> event_insert" where
  "resubmission_event ctx cmd now run version = execution_event ctx (bar_started_event_id cmd)
     (er_run_id (bar_expected_run cmd)) (r_next_seq run) ''agent.submission_reconciliation_started''
     (JObject [(''agent_execution_id'', json_uuid (bar_agent_execution_id cmd)),
       (''recovery_task_id'', json_uuid (lp_task_id (bar_lease cmd))), (''version'', JInt version)])
     ''worker'' now"

definition resubmission_snapshot ::
  "command_context \<Rightarrow> begin_agent_resubmission_command \<Rightarrow> agent_row \<Rightarrow> micros \<Rightarrow> nat \<Rightarrow> nat
   \<Rightarrow> agent_execution_snapshot" where
  "resubmission_snapshot ctx cmd g now version cursor_version =
    \<lparr> aes_tenant_id = cc_tenant_id ctx, aes_agent_execution_id = bar_agent_execution_id cmd,
      aes_run_id = er_run_id (bar_expected_run cmd), aes_stage_execution_id = g_stage g,
      aes_task_id = g_task g, aes_endpoint_id = g_endpoint g, aes_agent_version_id = g_agent_version g,
      aes_status = AgentOutcomeUnknown, aes_version = version, aes_remote_run_ref = None,
      aes_remote_session_ref = g_remote_session g, aes_remote_protocol_version = g_remote_protocol g,
      aes_status_poll_at = None, aes_event_cursor = g_event_cursor g, aes_cursor_version = cursor_version,
      aes_retry_at = None, aes_updated_at = now \<rparr>"

definition start_agent_resubmission ::
  "command_context \<Rightarrow> begin_agent_resubmission_command \<Rightarrow> micros \<Rightarrow> locked_worker_task \<Rightarrow> agent_row
   \<Rightarrow> agent_execution_snapshot committed txn" where
  "start_agent_resubmission ctx cmd now locked g =
    (let tenant = cc_tenant_id ctx; run_id = er_run_id (bar_expected_run cmd);
         execution_id = bar_agent_execution_id cmd; event_id = bar_started_event_id cmd;
         run = lw_run locked in
    bindT (liftT (checked_add_i64_or (g_version g) 1 (inconsistent ''Agent execution version overflow'')))
      (\<lambda>next_version.
    bindT (update_agents (resubmission_target tenant cmd g) (resubmitted_agent next_version now)) (\<lambda>updated.
    thenT (guardT (updated = 1)
             (store_error_of VersionConflict ''Agent resubmission was started concurrently''))
    (thenT (complete_recovery_task tenant locked now (resubmission_result execution_id next_version))
    (thenT (insert_event (resubmission_event ctx cmd now run next_version))
    (thenT (advance_run_event_cursor tenant run_id (r_version run) (r_generation run) now)
    (bindT (liftT (nonnegative_u64 next_version ''Agent execution version'')) (\<lambda>version.
    bindT (liftT (nonnegative_u64 (g_cursor_version g) ''Agent cursor version'')) (\<lambda>cursor_version.
    let snapshot = resubmission_snapshot ctx cmd g now version cursor_version in
    thenT (finish_receipt ctx ReceiptApplied (encode_agent_receipt snapshot) (Some event_id)
             (Some (''agent_execution'', execution_id, next_version)))
    (returnT (agent_committed Applied snapshot (Some event_id) [])))))))))))"

definition begin_agent_resubmission ::
  "(string \<Rightarrow> uuid option) \<Rightarrow> nat \<Rightarrow> command_context \<Rightarrow> begin_agent_resubmission_command \<Rightarrow> micros
   \<Rightarrow> agent_execution_snapshot committed txn" where
  "begin_agent_resubmission parse_uuid ttl ctx cmd now =
    thenT (guardT (resubmission_shape_is_valid cmd)
             (invalid_command ''invalid Agent resubmission command shape''))
    (with_receipt ctx now ttl (duplicate_agent ctx)
      (let tenant = cc_tenant_id ctx; run_id = er_run_id (bar_expected_run cmd);
           task_id = lp_task_id (bar_lease cmd); execution_id = bar_agent_execution_id cmd in
      bindT (lock_worker_task tenant run_id task_id) (\<lambda>locked.
      thenT (liftT (validate_worker_fences (bar_expected_run cmd) (bar_lease cmd) locked now
               ''Agent resubmission start''))
      (thenT (validate_retry_task_origin parse_uuid tenant run_id task_id ''agent.retry_due'' execution_id)
      (bindT (lock_agent_by_id tenant execution_id) (\<lambda>g.
      bindT (liftT (to_i64 (bar_expected_version cmd) ''Agent execution version'')) (\<lambda>expected_version.
      thenT (guardT (g_run g = run_id \<and> g_stage g = t_stage (lw_task locked))
               (store_error_of NotFound ''Agent retry Task belongs to another Execution scope''))
      (thenT (guardT (awaiting_resubmission expected_version g)
               (store_error_of VersionConflict ''Agent resubmission state or version changed''))
      (start_agent_resubmission ctx cmd now locked g)))))))))"

section \<open>Recording a submission\<close>

record projected_agent_submission =
  pas_status :: agent_status
  pas_remote_run_ref :: "string option"
  pas_remote_session_ref :: "string option"
  pas_remote_protocol_version :: "string option"
  pas_error_code :: "string option"
  pas_retry_at :: "micros option"
  pas_event_type :: string

definition rejected_agent_status :: "execution_retry_class \<Rightarrow> agent_status" where
  "rejected_agent_status retry = (case retry of
      RetryNever \<Rightarrow> AgentFailed
    | RetryManualReview \<Rightarrow> AgentManualReview
    | RetrySameRequestBackoff \<Rightarrow> AgentReconciling
    | RetryReconnectAndResume \<Rightarrow> AgentReconciling
    | RetryQueryOutcome \<Rightarrow> AgentReconciling)"

definition project_agent_submission ::
  "agent_submission_outcome \<Rightarrow> projected_agent_submission store_result" where
  "project_agent_submission outcome = (case outcome of
      SubmissionAccepted remote session protocol \<Rightarrow>
        (if remote = [] \<or> session = Some [] \<or> protocol = []
         then Inl (invalid_command ''accepted Agent submission has invalid remote identity'')
         else Inr \<lparr> pas_status = AgentRunning, pas_remote_run_ref = Some remote,
           pas_remote_session_ref = session, pas_remote_protocol_version = Some protocol,
           pas_error_code = None, pas_retry_at = None, pas_event_type = ''agent.submission_accepted'' \<rparr>)
    | SubmissionUncertain \<Rightarrow> Inr
        \<lparr> pas_status = AgentOutcomeUnknown, pas_remote_run_ref = None, pas_remote_session_ref = None,
          pas_remote_protocol_version = None, pas_error_code = None, pas_retry_at = None,
          pas_event_type = ''agent.submission_outcome_unknown'' \<rparr>
    | SubmissionRejected error_code retry retry_at \<Rightarrow>
        (if error_code = [] then Inl (invalid_command ''rejected Agent submission has no error code'')
         else if (retry = RetrySameRequestBackoff) \<noteq> (retry_at \<noteq> None)
         then Inl (invalid_command ''Agent retry time must be present only for scheduled backoff'')
         else Inr \<lparr> pas_status = rejected_agent_status retry, pas_remote_run_ref = None,
           pas_remote_session_ref = None, pas_remote_protocol_version = None,
           pas_error_code = Some error_code, pas_retry_at = retry_at,
           pas_event_type = ''agent.submission_rejected'' \<rparr>))"

text \<open>A submission that was under way when a stop was requested.\<close>

definition late_after_stop :: "int \<Rightarrow> agent_row \<Rightarrow> bool" where
  "late_after_stop expected g \<longleftrightarrow> g_status g = AgentStopping \<and> checked_add_i64 (g_version g) (- 1) = Some expected"

definition effective_status ::
  "record_agent_submission_command \<Rightarrow> projected_agent_submission \<Rightarrow> int \<Rightarrow> agent_row \<Rightarrow> agent_status" where
  "effective_status cmd p expected g =
    (case ras_outcome cmd of
        SubmissionAccepted _ _ _ \<Rightarrow> if late_after_stop expected g then AgentStopping else pas_status p
      | _ \<Rightarrow> pas_status p)"

definition submitted_agent ::
  "projected_agent_submission \<Rightarrow> agent_status \<Rightarrow> int \<Rightarrow> micros \<Rightarrow> agent_row \<Rightarrow> agent_row" where
  "submitted_agent p status version now g = g\<lparr>g_status := status, g_version := version,
     g_remote_run := pas_remote_run_ref p, g_remote_session := pas_remote_session_ref p,
     g_remote_protocol := pas_remote_protocol_version p, g_error_code := pas_error_code p,
     g_retry_at := pas_retry_at p, g_status_poll_at := (if status = AgentRunning then Some now else None),
     g_completed_at := (if agent_terminal status then Some now else None), g_updated_at := now\<rparr>"

definition submission_target :: "uuid \<Rightarrow> uuid \<Rightarrow> agent_row \<Rightarrow> agent_row \<Rightarrow> bool" where
  "submission_target tenant i g v \<longleftrightarrow> agent_of tenant i v \<and> g_version v = g_version g \<and> g_status v = g_status g"

definition agent_fenced :: "expected_run \<Rightarrow> run_row \<Rightarrow> bool" where
  "agent_fenced expected run \<longleftrightarrow> expectation_changed (er_version expected) (r_version run)
     \<or> expectation_changed (er_execution_generation expected) (r_generation run)"

definition submission_event ::
  "command_context \<Rightarrow> record_agent_submission_command \<Rightarrow> projected_agent_submission \<Rightarrow> agent_status \<Rightarrow> int
   \<Rightarrow> micros \<Rightarrow> run_row \<Rightarrow> event_insert" where
  "submission_event ctx cmd p status version now run =
     execution_event ctx (ras_submission_event_id cmd) (er_run_id (ras_expected_run cmd)) (r_next_seq run)
       (pas_event_type p)
       (JObject [(''agent_execution_id'', json_uuid (ras_agent_execution_id cmd)),
         (''status'', JString (agent_status_text status)), (''version'', JInt version),
         (''remote_run_ref'', json_opt_string (pas_remote_run_ref p)),
         (''error_code'', json_opt_string (pas_error_code p)),
         (''fenced'', JBool (agent_fenced (ras_expected_run cmd) run))]) ''agent-adapter'' now"

definition submission_snapshot ::
  "command_context \<Rightarrow> record_agent_submission_command \<Rightarrow> projected_agent_submission \<Rightarrow> agent_status
   \<Rightarrow> agent_row \<Rightarrow> micros \<Rightarrow> nat \<Rightarrow> nat \<Rightarrow> agent_execution_snapshot" where
  "submission_snapshot ctx cmd p status g now version cursor_version =
    \<lparr> aes_tenant_id = cc_tenant_id ctx, aes_agent_execution_id = ras_agent_execution_id cmd,
      aes_run_id = er_run_id (ras_expected_run cmd), aes_stage_execution_id = g_stage g,
      aes_task_id = g_task g, aes_endpoint_id = g_endpoint g, aes_agent_version_id = g_agent_version g,
      aes_status = status, aes_version = version, aes_remote_run_ref = pas_remote_run_ref p,
      aes_remote_session_ref = pas_remote_session_ref p,
      aes_remote_protocol_version = pas_remote_protocol_version p,
      aes_status_poll_at = (if status = AgentRunning then Some now else None),
      aes_event_cursor = g_event_cursor g, aes_cursor_version = cursor_version,
      aes_retry_at = pas_retry_at p, aes_updated_at = now \<rparr>"

definition submission_follow_ups :: "uuid \<Rightarrow> projected_agent_submission \<Rightarrow> agent_status \<Rightarrow> durable_follow_up list" where
  "submission_follow_ups execution p status =
     (if agent_requires_reconciliation status then [FollowReconcileAgent execution] else [])
     @ (if status = AgentStopping then [FollowStopAgent execution] else [])
     @ (case pas_retry_at p of None \<Rightarrow> [] | Some not_before \<Rightarrow> [FollowScanDueWork not_before])"

definition record_locked_submission ::
  "command_context \<Rightarrow> record_agent_submission_command \<Rightarrow> projected_agent_submission \<Rightarrow> micros \<Rightarrow> run_row
   \<Rightarrow> int \<Rightarrow> agent_row \<Rightarrow> agent_execution_snapshot committed txn" where
  "record_locked_submission ctx cmd p now run expected g =
    (let tenant = cc_tenant_id ctx; run_id = er_run_id (ras_expected_run cmd);
         execution_id = ras_agent_execution_id cmd; event_id = ras_submission_event_id cmd;
         status = effective_status cmd p expected g in
    bindT (liftT (checked_add_i64_or (g_version g) 1 (inconsistent ''Agent execution version overflow'')))
      (\<lambda>next_version.
    thenT (\<lambda>db. guardT (remote_run_free g (pas_remote_run_ref p) db) unique_violation db)
    (bindT (update_agents (submission_target tenant execution_id g)
             (submitted_agent p status next_version now)) (\<lambda>updated.
    thenT (guardT (updated = 1)
             (store_error_of VersionConflict ''Agent execution changed while recording submission''))
    (thenT (insert_event (submission_event ctx cmd p status next_version now run))
    (thenT (advance_run_event_cursor tenant run_id (r_version run) (r_generation run) now)
    (bindT (liftT (nonnegative_u64 next_version ''Agent execution version'')) (\<lambda>version.
    bindT (liftT (nonnegative_u64 (g_cursor_version g) ''Agent cursor version'')) (\<lambda>cursor_version.
    let snapshot = submission_snapshot ctx cmd p status g now version cursor_version in
    thenT (finish_receipt ctx ReceiptApplied (encode_agent_receipt snapshot) (Some event_id)
             (Some (''agent_execution'', execution_id, next_version)))
    (returnT (agent_committed Applied snapshot (Some event_id)
       (submission_follow_ups execution_id p status))))))))))))"

definition record_agent_submission ::
  "nat \<Rightarrow> command_context \<Rightarrow> record_agent_submission_command \<Rightarrow> micros
   \<Rightarrow> agent_execution_snapshot committed txn" where
  "record_agent_submission ttl ctx cmd now =
    bindT (liftT (project_agent_submission (ras_outcome cmd))) (\<lambda>p.
    with_receipt ctx now ttl (duplicate_agent ctx)
      (let tenant = cc_tenant_id ctx; run_id = er_run_id (ras_expected_run cmd) in
      bindT (lock_event_run tenant run_id) (\<lambda>run.
      bindT (lock_agent_by_id tenant (ras_agent_execution_id cmd)) (\<lambda>g.
      thenT (guardT (g_run g = run_id) (store_error_of NotFound ''Agent execution belongs to another run''))
      (bindT (liftT (to_i64 (ras_expected_version cmd) ''Agent execution version'')) (\<lambda>expected.
      thenT (guardT (g_version g = expected \<or> late_after_stop expected g)
               (store_error_of VersionConflict ''Agent execution version changed''))
      (thenT (guardT (g_status g \<in> {AgentSubmitting, AgentOutcomeUnknown} \<or> late_after_stop expected g)
               (store_error_of InvalidTransition ''Agent execution is not awaiting submission outcome''))
      (record_locked_submission ctx cmd p now (le_run run) expected g))))))))"

section \<open>Recording an outcome\<close>

definition agent_result_shape :: "agent_status \<Rightarrow> json_payload option \<Rightarrow> string option \<Rightarrow> bool" where
  "agent_result_shape status result error_code = (case status of
      AgentSucceeded \<Rightarrow> result \<noteq> None \<and> error_code = None
    | AgentFailed \<Rightarrow> result = None \<and> error_code \<noteq> None
    | AgentCancelled \<Rightarrow> result = None
    | AgentOutcomeUnknown \<Rightarrow> result = None
    | AgentReconciling \<Rightarrow> result = None
    | AgentManualReview \<Rightarrow> result = None
    | AgentPlanned \<Rightarrow> False
    | AgentSubmitting \<Rightarrow> False
    | AgentRunning \<Rightarrow> False
    | AgentStopping \<Rightarrow> False)"

definition validate_agent_outcome :: "externals \<Rightarrow> record_agent_outcome_command \<Rightarrow> unit store_result" where
  "validate_agent_outcome ext cmd =
    (if \<not> agent_outcome_shape_is_valid (rao_status cmd)
       then Inl (invalid_command ''Agent outcome status is not terminal or recoverable'')
     else if rao_error_code cmd = Some []
       then Inl (invalid_command ''Agent outcome has an empty error code'')
     else if rao_status cmd \<noteq> AgentReconciling \<and> rao_next_status_poll_at cmd \<noteq> None
       then Inl (invalid_command ''Agent status polling is only valid while reconciling'')
     else if \<not> agent_result_shape (rao_status cmd) (rao_result cmd) (rao_error_code cmd)
       then Inl (invalid_command ''Agent outcome result and error do not match its status'')
     else (case rao_result cmd of
         None \<Rightarrow> Inr ()
       | Some result \<Rightarrow> bindR (json_value ext result) (\<lambda>_. Inr ())))"

definition optional_json :: "externals \<Rightarrow> json_payload option \<Rightarrow> json option store_result" where
  "optional_json ext payload = (case payload of
      None \<Rightarrow> Inr None
    | Some p \<Rightarrow> bindR (json_value ext p) (\<lambda>v. Inr (Some v)))"

definition find_agent_task :: "uuid \<Rightarrow> uuid \<Rightarrow> uuid txn" where
  "find_agent_task tenant i = (\<lambda>db. liftT (ok_or (map_option g_task (find (agent_of tenant i) (db_agents db)))
     (store_error_of NotFound ''Agent execution was not found'')) db)"

definition lock_agent_task :: "uuid \<Rightarrow> uuid \<Rightarrow> uuid \<Rightarrow> task_row txn" where
  "lock_agent_task tenant run task =
    bindT (\<lambda>db. liftT (ok_or (find_task tenant task db)
             (store_error_of NotFound ''Agent task was not found'')) db) (\<lambda>t.
    thenT (guardT (t_run t = run) (store_error_of NotFound ''Agent task belongs to another run''))
    (returnT t))"

definition accepts_outcome :: "uuid \<Rightarrow> uuid \<Rightarrow> int \<Rightarrow> agent_row \<Rightarrow> bool" where
  "accepts_outcome tenant i version g \<longleftrightarrow> agent_of tenant i g \<and> g_version g = version
     \<and> g_status g \<in> {AgentRunning, AgentStopping, AgentOutcomeUnknown, AgentReconciling, AgentManualReview}"

definition finished_agent ::
  "record_agent_outcome_command \<Rightarrow> json option \<Rightarrow> int \<Rightarrow> micros \<Rightarrow> agent_row \<Rightarrow> agent_row" where
  "finished_agent cmd result version now g = g\<lparr>g_status := rao_status cmd, g_version := version,
     g_result := result, g_error_code := rao_error_code cmd, g_retry_at := None,
     g_status_poll_at := rao_next_status_poll_at cmd,
     g_completed_at := (if agent_terminal (rao_status cmd) then Some now else None), g_updated_at := now\<rparr>"

definition agent_outcome_fenced :: "expected_run \<Rightarrow> run_row \<Rightarrow> task_row \<Rightarrow> bool" where
  "agent_outcome_fenced expected run task \<longleftrightarrow> agent_fenced expected run
     \<or> expectation_changed (er_execution_generation expected) (t_generation task)"

definition agent_outcome_event ::
  "command_context \<Rightarrow> record_agent_outcome_command \<Rightarrow> int \<Rightarrow> micros \<Rightarrow> run_row \<Rightarrow> task_row \<Rightarrow> event_insert" where
  "agent_outcome_event ctx cmd version now run task =
     execution_event ctx (rao_outcome_event_id cmd) (er_run_id (rao_expected_run cmd)) (r_next_seq run)
       ''agent.execution_outcome_recorded''
       (JObject [(''agent_execution_id'', json_uuid (rao_agent_execution_id cmd)),
         (''status'', JString (agent_status_text (rao_status cmd))), (''version'', JInt version),
         (''error_code'', json_opt_string (rao_error_code cmd)),
         (''next_status_poll_at_micros'', json_opt_int (rao_next_status_poll_at cmd)),
         (''fenced'', JBool (agent_outcome_fenced (rao_expected_run cmd) run task))]) ''agent-adapter'' now"

definition agent_outcome_snapshot ::
  "command_context \<Rightarrow> record_agent_outcome_command \<Rightarrow> agent_row \<Rightarrow> micros \<Rightarrow> nat \<Rightarrow> nat
   \<Rightarrow> agent_execution_snapshot" where
  "agent_outcome_snapshot ctx cmd g now version cursor_version =
    \<lparr> aes_tenant_id = cc_tenant_id ctx, aes_agent_execution_id = rao_agent_execution_id cmd,
      aes_run_id = er_run_id (rao_expected_run cmd), aes_stage_execution_id = g_stage g,
      aes_task_id = g_task g, aes_endpoint_id = g_endpoint g, aes_agent_version_id = g_agent_version g,
      aes_status = rao_status cmd, aes_version = version, aes_remote_run_ref = g_remote_run g,
      aes_remote_session_ref = g_remote_session g, aes_remote_protocol_version = g_remote_protocol g,
      aes_status_poll_at = rao_next_status_poll_at cmd, aes_event_cursor = g_event_cursor g,
      aes_cursor_version = cursor_version, aes_retry_at = None, aes_updated_at = now \<rparr>"

definition record_locked_agent_outcome ::
  "externals \<Rightarrow> command_context \<Rightarrow> record_agent_outcome_command \<Rightarrow> micros \<Rightarrow> run_row \<Rightarrow> task_row
   \<Rightarrow> agent_row \<Rightarrow> agent_execution_snapshot committed txn" where
  "record_locked_agent_outcome ext ctx cmd now run task g =
    (let tenant = cc_tenant_id ctx; run_id = er_run_id (rao_expected_run cmd);
         execution_id = rao_agent_execution_id cmd; event_id = rao_outcome_event_id cmd in
    bindT (liftT (checked_add_i64_or (g_version g) 1 (inconsistent ''Agent execution version overflow'')))
      (\<lambda>next_version.
    bindT (liftT (optional_json ext (rao_result cmd))) (\<lambda>result.
    bindT (update_agents (accepts_outcome tenant execution_id (g_version g))
             (finished_agent cmd result next_version now)) (\<lambda>updated.
    thenT (guardT (updated = 1)
             (store_error_of InvalidTransition ''Agent execution does not accept the requested outcome''))
    (thenT (insert_event (agent_outcome_event ctx cmd next_version now run task))
    (thenT (advance_run_event_cursor tenant run_id (r_version run) (r_generation run) now)
    (bindT (liftT (nonnegative_u64 next_version ''Agent execution version'')) (\<lambda>version.
    bindT (liftT (nonnegative_u64 (g_cursor_version g) ''Agent cursor version'')) (\<lambda>cursor_version.
    let snapshot = agent_outcome_snapshot ctx cmd g now version cursor_version in
    thenT (finish_receipt ctx ReceiptApplied (encode_agent_receipt snapshot) (Some event_id)
             (Some (''agent_execution'', execution_id, next_version)))
    (returnT (agent_committed Applied snapshot (Some event_id)
       (if agent_requires_reconciliation (rao_status cmd) then [FollowReconcileAgent execution_id]
        else []))))))))))))"

definition record_agent_outcome ::
  "externals \<Rightarrow> nat \<Rightarrow> command_context \<Rightarrow> record_agent_outcome_command \<Rightarrow> micros
   \<Rightarrow> agent_execution_snapshot committed txn" where
  "record_agent_outcome ext ttl ctx cmd now =
    thenT (liftT (validate_agent_outcome ext cmd))
    (with_receipt ctx now ttl (duplicate_agent ctx)
      (let tenant = cc_tenant_id ctx; run_id = er_run_id (rao_expected_run cmd);
           execution_id = rao_agent_execution_id cmd in
      bindT (find_agent_task tenant execution_id) (\<lambda>candidate.
      bindT (lock_event_run tenant run_id) (\<lambda>run.
      bindT (lock_agent_task tenant run_id candidate) (\<lambda>task.
      bindT (lock_agent_by_id tenant execution_id) (\<lambda>g.
      thenT (guardT (g_run g = run_id \<and> g_task g = candidate)
               (store_error_of NotFound ''Agent execution belongs to another task or run''))
      (bindT (liftT (to_i64 (rao_expected_version cmd) ''Agent execution version'')) (\<lambda>expected.
      thenT (guardT (g_version g = expected)
               (store_error_of VersionConflict ''Agent execution version changed''))
      (record_locked_agent_outcome ext ctx cmd now (le_run run) task g)))))))))"

section \<open>Effects\<close>

lemma prepare_new_agent_effect:
  assumes "prepare_new_agent ext ctx cmd now locked db = Inr (c, db')"
  obtains request capabilities rs where "\<forall>g \<in> set (db_agents db). g_id g \<noteq> pac_agent_execution_id cmd"
    and "updates_pass run_checks (run_at (cc_tenant_id ctx) (r_id (lw_run locked)) (r_version (lw_run locked))
        (r_generation (lw_run locked))) (run_cursor_advanced now) (db_runs db)"
    and "db' = db\<lparr>db_agents := db_agents db @ [prepared_agent (cc_tenant_id ctx) cmd locked request capabilities now],
        db_events := db_events db @ [event_row_of (agent_prepared_event ctx cmd now locked)],
        db_outbox := db_outbox db @ [outbox_row_of (agent_prepared_event ctx cmd now locked)],
        db_runs := sql_update (run_at (cc_tenant_id ctx) (r_id (lw_run locked)) (r_version (lw_run locked))
          (r_generation (lw_run locked))) (run_cursor_advanced now) (db_runs db),
        db_receipts := rs\<rparr>"
    and "c = agent_committed Applied (prepared_agent_snapshot ctx cmd now) (Some (pac_prepared_event_id cmd)) []"
proof -
  from assms obtain request capabilities db1 where
      ins: "insert_agent (prepared_agent (cc_tenant_id ctx) cmd locked request capabilities now) db = Inr ((), db1)"
    and adv: "\<exists>db3. advance_run_event_cursor (cc_tenant_id ctx) (r_id (lw_run locked)) (r_version (lw_run locked))
        (r_generation (lw_run locked)) now (db1\<lparr>
          db_events := db_events db1 @ [event_row_of (agent_prepared_event ctx cmd now locked)],
          db_outbox := db_outbox db1 @ [outbox_row_of (agent_prepared_event ctx cmd now locked)]\<rparr>) = Inr ((), db3)
        \<and> (\<exists>rs. db' = db3\<lparr>db_receipts := rs\<rparr>)"
    and c: "c = agent_committed Applied (prepared_agent_snapshot ctx cmd now) (Some (pac_prepared_event_id cmd)) []"
    unfolding prepare_new_agent_def Let_def
    apply (clarsimp simp: txn_iffs)
    apply (erule finish_receipt_frame)
    apply (rule that, assumption)
     apply auto
    done
  from ins have db1: "db1 = db\<lparr>db_agents := db_agents db
        @ [prepared_agent (cc_tenant_id ctx) cmd locked request capabilities now]\<rparr>"
    and fresh: "\<forall>g \<in> set (db_agents db). g_id g \<noteq> pac_agent_execution_id cmd"
    by (auto simp: insert_agent_def txn_iffs row_simps prepared_agent_def)
  from adv obtain db3 rs where adv3: "advance_run_event_cursor (cc_tenant_id ctx) (r_id (lw_run locked))
        (r_version (lw_run locked)) (r_generation (lw_run locked)) now (db1\<lparr>
          db_events := db_events db1 @ [event_row_of (agent_prepared_event ctx cmd now locked)],
          db_outbox := db_outbox db1 @ [outbox_row_of (agent_prepared_event ctx cmd now locked)]\<rparr>) = Inr ((), db3)"
      and db': "db' = db3\<lparr>db_receipts := rs\<rparr>" by blast
  from adv3 show thesis
    by (rule cursor_effect) (rule that [of rs request capabilities], use fresh c in \<open>simp_all add: db' db1\<close>)
qed

lemmas prepare_agent_effect =
  prepare_new_agent_effect [where db = "db\<lparr>db_receipts := rs\<rparr>" for db rs, simplified]

lemma lock_agent_by_idempotency_iff [txn_iffs]:
  "lock_agent_by_idempotency tenant endpoint key db = Inr (x, db') \<longleftrightarrow> db' = db
     \<and> x = find (\<lambda>g. g_tenant g = tenant \<and> g_endpoint g = endpoint \<and> g_key g = key) (db_agents db)"
  by (auto simp: lock_agent_by_idempotency_def txn_iffs)

lemma prepare_agent_execution_cases:
  assumes "prepare_agent_execution ext ttl ctx cmd now db = Inr (c, db')"
  obtains (replayed) outcome event where "db' = db" and "duplicate_agent ctx outcome event = Inr c"
    | (existing) locked g rs where "g \<in> set (db_agents db)" and "g_endpoint g = pac_endpoint_id cmd"
        and "g_key g = pac_idempotency_key cmd" and "validate_existing_agent cmd locked g = Inr ()"
        and "db' = db\<lparr>db_receipts := rs\<rparr>" and "disposition c = NoOp"
        and "aes_agent_execution_id (committed_value c) = g_id g"
    | (prepared) locked rs where
        "find_run (cc_tenant_id ctx) (er_run_id (pac_expected_run cmd)) db = Some (lw_run locked)"
        and "find_task (cc_tenant_id ctx) (lp_task_id (pac_lease cmd)) db = Some (lw_task locked)"
        and "validate_worker_fences (pac_expected_run cmd) (pac_lease cmd) locked now
               ''Agent submission preparation'' = Inr ()"
        and "\<forall>g \<in> set (db_agents db). \<not> (g_tenant g = cc_tenant_id ctx
               \<and> g_endpoint g = pac_endpoint_id cmd \<and> g_key g = pac_idempotency_key cmd)"
        and "prepare_new_agent ext ctx cmd now locked (db\<lparr>db_receipts := rs\<rparr>) = Inr (c, db')"
proof -
  from assms have "with_receipt ctx now ttl (duplicate_agent ctx)
      (bindT (lock_worker_task (cc_tenant_id ctx) (er_run_id (pac_expected_run cmd)) (lp_task_id (pac_lease cmd)))
        (\<lambda>locked.
      thenT (liftT (validate_worker_fences (pac_expected_run cmd) (pac_lease cmd) locked now
               ''Agent submission preparation''))
      (thenT (guardT (t_stage (lw_task locked) = pac_stage_execution_id cmd)
               (invalid_command ''Agent execution stage does not match the leased task''))
      (bindT (lock_agent_by_idempotency (cc_tenant_id ctx) (pac_endpoint_id cmd) (pac_idempotency_key cmd))
        (\<lambda>existing.
      case existing of
          Some g \<Rightarrow>
            thenT (liftT (validate_existing_agent cmd locked g))
            (bindT (liftT (agent_snapshot g)) (\<lambda>snapshot.
            thenT (finish_receipt ctx ReceiptNoOp (encode_agent_receipt snapshot) None
                     (Some (''agent_execution'', g_id g, g_version g)))
            (returnT (agent_committed NoOp snapshot None []))))
        | None \<Rightarrow> prepare_new_agent ext ctx cmd now locked))))) db = Inr (c, db')"
    by (auto simp: prepare_agent_execution_def txn_iffs)
  then show thesis
  proof (cases rule: with_receipt_cases)
    case replayed
    then show ?thesis using that(1) by blast
  next
    case fresh
    let ?find = "find (\<lambda>g. g_tenant g = cc_tenant_id ctx \<and> g_endpoint g = pac_endpoint_id cmd
        \<and> g_key g = pac_idempotency_key cmd) (db_agents db)"
    show ?thesis
    proof (cases ?find)
      case None
      note that(3) [where rs = "db_receipts db @ [new_receipt ctx now (int ttl)]"]
      then show ?thesis
        using fresh(2) None [unfolded find_None_ball] by (auto simp: txn_iffs find_run_def find_task_def None)
    next
      case (Some g)
      then show ?thesis
        using fresh(2) find_Some_in [OF Some]
        by (auto simp: txn_iffs agent_snapshot_def result_iffs elim!: finish_receipt_frame intro: that(2))
    qed
  qed
qed

lemma prepare_agent_execution_effect:
  assumes "runs_ok db" and "prepare_agent_execution ext ttl ctx cmd now db = Inr (c, db')"
  shows "quiet db db' \<or> advances db db'"
  using assms(2)
proof (cases rule: prepare_agent_execution_cases)
  case (prepared locked rs)
  have live: "\<not> run_terminal (r_status (lw_run locked))"
    using prepared(3) by (simp add: validate_worker_fences_Inr)
  from find_run_Some [OF prepared(1)] have run: "r_id (lw_run locked) = er_run_id (pac_expected_run cmd)" by simp
  from prepared(5) have "advances db db'"
    by (rule prepare_agent_effect)
       (rule advances_by_cursor [OF assms(1) prepared(1) live, where e = "agent_prepared_event ctx cmd now locked"
          and now = now], simp_all add: run agent_prepared_event_def)
  then show ?thesis ..
qed (simp_all add: quiet_def)

lemma prepare_agent_execution_keys:
  assumes "task_keys_ok db" and "prepare_agent_execution ext ttl ctx cmd now db = Inr (c, db')"
  shows "task_keys_ok db'"
  using assms(2)
proof (cases rule: prepare_agent_execution_cases)
  case (prepared locked rs)
  from prepared(5) show ?thesis
    by (rule prepare_agent_effect) (use assms(1) in \<open>simp add: task_keys_ok_def\<close>)
qed (use assms(1) in \<open>simp_all add: task_keys_ok_def\<close>)

interpretation prepare_agent_cmd: run_command
  "\<lambda>(ext, ttl, ctx, cmd, now). prepare_agent_execution ext ttl ctx cmd now"
  by unfold_locales
     (auto dest: prepare_agent_execution_effect [OF store_okD(1)] prepare_agent_execution_keys [OF store_okD(2)])

section \<open>The effect of a resubmission\<close>

lemma start_agent_resubmission_effect:
  assumes "start_agent_resubmission ctx cmd now locked g db = Inr (c, db')"
  obtains rs result where "sql_count (resubmission_target (cc_tenant_id ctx) cmd g) (db_agents db) = 1"
    and "sql_count (leased_try (cc_tenant_id ctx) (lw_task locked)) (db_tasks db) = 1"
    and "updates_pass run_checks (run_at (cc_tenant_id ctx) (er_run_id (bar_expected_run cmd))
        (r_version (lw_run locked)) (r_generation (lw_run locked))) (run_cursor_advanced now) (db_runs db)"
    and "db' = db\<lparr>db_agents := sql_update (resubmission_target (cc_tenant_id ctx) cmd g)
            (resubmitted_agent (g_version g + 1) now) (db_agents db),
        db_tasks := sql_update (leased_try (cc_tenant_id ctx) (lw_task locked)) (recovered_task result now) (db_tasks db),
        db_attempts := sql_update (open_attempt (cc_tenant_id ctx) (t_id (lw_task locked)) (t_attempt (lw_task locked)))
          (recovery_attempt_closed now) (db_attempts db),
        db_events := db_events db @ [event_row_of (resubmission_event ctx cmd now (lw_run locked) (g_version g + 1))],
        db_outbox := db_outbox db @ [outbox_row_of (resubmission_event ctx cmd now (lw_run locked) (g_version g + 1))],
        db_runs := sql_update (run_at (cc_tenant_id ctx) (er_run_id (bar_expected_run cmd))
          (r_version (lw_run locked)) (r_generation (lw_run locked))) (run_cursor_advanced now) (db_runs db),
        db_receipts := rs\<rparr>"
    and "disposition c = Applied"
proof -
  let ?version = "g_version g + 1" let ?t = "cc_tenant_id ctx" let ?run = "er_run_id (bar_expected_run cmd)"
  let ?e = "resubmission_event ctx cmd now (lw_run locked) ?version"
  from assms obtain db2 db3 result where
      count: "sql_count (resubmission_target ?t cmd g) (db_agents db) = 1"
    and task: "complete_recovery_task ?t locked now result (db\<lparr>db_agents :=
          sql_update (resubmission_target ?t cmd g) (resubmitted_agent ?version now) (db_agents db)\<rparr>) = Inr ((), db2)"
    and adv: "advance_run_event_cursor ?t ?run (r_version (lw_run locked)) (r_generation (lw_run locked)) now
        (db2\<lparr>db_events := db_events db2 @ [event_row_of ?e],
              db_outbox := db_outbox db2 @ [outbox_row_of ?e]\<rparr>) = Inr ((), db3)"
    and rest: "\<exists>rs. db' = db3\<lparr>db_receipts := rs\<rparr>"
    and c: "disposition c = Applied"
    unfolding start_agent_resubmission_def Let_def
    apply (clarsimp simp: txn_iffs simp del: nonnegative_u64_Inr)
    apply (erule finish_receipt_frame)
    apply (rule that [rotated 1], assumption, assumption)
       apply (rule exI, assumption)
      apply (simp_all del: nonnegative_u64_Inr)
    done
  from task obtain tasks: "sql_count (leased_try ?t (lw_task locked)) (db_tasks db) = 1"
    and db2: "db2 = db\<lparr>db_agents :=
          sql_update (resubmission_target ?t cmd g) (resubmitted_agent ?version now) (db_agents db),
        db_tasks := sql_update (leased_try ?t (lw_task locked)) (recovered_task result now) (db_tasks db),
        db_attempts := sql_update (open_attempt ?t (t_id (lw_task locked)) (t_attempt (lw_task locked)))
          (recovery_attempt_closed now) (db_attempts db)\<rparr>"
    by (rule complete_recovery_effect) simp
  from rest obtain rs where db': "db' = db3\<lparr>db_receipts := rs\<rparr>" by blast
  from adv show thesis
    by (rule cursor_effect) (rule that [of rs result], use count tasks c in \<open>simp_all add: db' db2\<close>)
qed

lemmas resubmission_effect =
  start_agent_resubmission_effect [where db = "db\<lparr>db_receipts := rs\<rparr>" for db rs, simplified]

lemma begin_agent_resubmission_cases:
  assumes "begin_agent_resubmission parse_uuid ttl ctx cmd now db = Inr (c, db')"
  obtains (replayed) outcome event where "db' = db" and "duplicate_agent ctx outcome event = Inr c"
    | (started) locked g rs where "resubmission_shape_is_valid cmd"
        and "find_run (cc_tenant_id ctx) (er_run_id (bar_expected_run cmd)) db = Some (lw_run locked)"
        and "find_task (cc_tenant_id ctx) (lp_task_id (bar_lease cmd)) db = Some (lw_task locked)"
        and "validate_worker_fences (bar_expected_run cmd) (bar_lease cmd) locked now
               ''Agent resubmission start'' = Inr ()"
        and "validate_retry_task_origin parse_uuid (cc_tenant_id ctx) (er_run_id (bar_expected_run cmd))
               (lp_task_id (bar_lease cmd)) ''agent.retry_due'' (bar_agent_execution_id cmd) db = Inr ((), db)"
        and "find (agent_of (cc_tenant_id ctx) (bar_agent_execution_id cmd)) (db_agents db) = Some g"
        and "g_run g = er_run_id (bar_expected_run cmd)"
        and "awaiting_resubmission (int (bar_expected_version cmd)) g"
        and "start_agent_resubmission ctx cmd now locked g (db\<lparr>db_receipts := rs\<rparr>) = Inr (c, db')"
proof -
  from assms have shape: "resubmission_shape_is_valid cmd" and "with_receipt ctx now ttl (duplicate_agent ctx)
      (bindT (lock_worker_task (cc_tenant_id ctx) (er_run_id (bar_expected_run cmd)) (lp_task_id (bar_lease cmd)))
        (\<lambda>locked.
      thenT (liftT (validate_worker_fences (bar_expected_run cmd) (bar_lease cmd) locked now
               ''Agent resubmission start''))
      (thenT (validate_retry_task_origin parse_uuid (cc_tenant_id ctx) (er_run_id (bar_expected_run cmd))
               (lp_task_id (bar_lease cmd)) ''agent.retry_due'' (bar_agent_execution_id cmd))
      (bindT (lock_agent_by_id (cc_tenant_id ctx) (bar_agent_execution_id cmd)) (\<lambda>g.
      bindT (liftT (to_i64 (bar_expected_version cmd) ''Agent execution version'')) (\<lambda>expected_version.
      thenT (guardT (g_run g = er_run_id (bar_expected_run cmd) \<and> g_stage g = t_stage (lw_task locked))
               (store_error_of NotFound ''Agent retry Task belongs to another Execution scope''))
      (thenT (guardT (awaiting_resubmission expected_version g)
               (store_error_of VersionConflict ''Agent resubmission state or version changed''))
      (start_agent_resubmission ctx cmd now locked g)))))))) db = Inr (c, db')"
    by (auto simp: begin_agent_resubmission_def Let_def txn_iffs)
  from this(2) show thesis
  proof (cases rule: with_receipt_cases)
    case replayed
    then show ?thesis using that(1) by blast
  next
    case fresh
    from fresh(2) show ?thesis
      by (auto simp: txn_iffs find_run_def find_task_def
          intro!: that(2) [where rs = "db_receipts db @ [new_receipt ctx now (int ttl)]", OF shape])
  qed
qed

lemma begin_agent_resubmission_effect:
  assumes "runs_ok db" and "begin_agent_resubmission parse_uuid ttl ctx cmd now db = Inr (c, db')"
  shows "quiet db db' \<or> advances db db'"
  using assms(2)
proof (cases rule: begin_agent_resubmission_cases)
  case (started locked g rs)
  have live: "\<not> run_terminal (r_status (lw_run locked))"
    using started(4) by (simp add: validate_worker_fences_Inr)
  from started(9) have "advances db db'"
    by (rule resubmission_effect)
       (rule advances_by_cursor [OF assms(1) started(2) live, where now = now
          and e = "resubmission_event ctx cmd now (lw_run locked) (g_version g + 1)"],
        simp_all add: resubmission_event_def)
  then show ?thesis ..
qed (simp add: quiet_def)

lemma begin_agent_resubmission_keys:
  assumes "task_keys_ok db" and "begin_agent_resubmission parse_uuid ttl ctx cmd now db = Inr (c, db')"
  shows "task_keys_ok db'"
  using assms(2)
proof (cases rule: begin_agent_resubmission_cases)
  case (started locked g rs)
  from started(9) show ?thesis
    by (rule resubmission_effect) (use assms(1) in \<open>simp add: task_keys_ok_def map_sql_update_same\<close>)
qed (use assms(1) in simp)

interpretation resubmission_cmd: run_command
  "\<lambda>(parse_uuid, ttl, ctx, cmd, now). begin_agent_resubmission parse_uuid ttl ctx cmd now"
  by unfold_locales
     (auto dest: begin_agent_resubmission_effect [OF store_okD(1)] begin_agent_resubmission_keys [OF store_okD(2)])

section \<open>The effect of a submission\<close>

lemma record_locked_submission_effect:
  assumes "record_locked_submission ctx cmd p now run expected g db = Inr (c, db')"
  obtains rs where
      "sql_count (submission_target (cc_tenant_id ctx) (ras_agent_execution_id cmd) g) (db_agents db) = 1"
    and "remote_run_free g (pas_remote_run_ref p) db" and "0 \<le> g_version g + 1"
    and "updates_pass run_checks (run_at (cc_tenant_id ctx) (er_run_id (ras_expected_run cmd))
        (r_version run) (r_generation run)) (run_cursor_advanced now) (db_runs db)"
    and "db' = db\<lparr>db_agents := sql_update (submission_target (cc_tenant_id ctx) (ras_agent_execution_id cmd) g)
            (submitted_agent p (effective_status cmd p expected g) (g_version g + 1) now) (db_agents db),
        db_events := db_events db @ [event_row_of (submission_event ctx cmd p (effective_status cmd p expected g)
          (g_version g + 1) now run)],
        db_outbox := db_outbox db @ [outbox_row_of (submission_event ctx cmd p (effective_status cmd p expected g)
          (g_version g + 1) now run)],
        db_runs := sql_update (run_at (cc_tenant_id ctx) (er_run_id (ras_expected_run cmd))
          (r_version run) (r_generation run)) (run_cursor_advanced now) (db_runs db),
        db_receipts := rs\<rparr>"
    and "disposition c = Applied" and "aes_status (committed_value c) = effective_status cmd p expected g"
    and "durable_follow_ups c
      = submission_follow_ups (ras_agent_execution_id cmd) p (effective_status cmd p expected g)"
proof -
  let ?t = "cc_tenant_id ctx" let ?i = "ras_agent_execution_id cmd" let ?status = "effective_status cmd p expected g"
  let ?e = "submission_event ctx cmd p ?status (g_version g + 1) now run"
  from assms obtain db3 where
      facts: "sql_count (submission_target ?t ?i g) (db_agents db) = 1" "remote_run_free g (pas_remote_run_ref p) db"
    and adv: "advance_run_event_cursor ?t (er_run_id (ras_expected_run cmd)) (r_version run) (r_generation run) now
        (db\<lparr>db_agents := sql_update (submission_target ?t ?i g)
              (submitted_agent p ?status (g_version g + 1) now) (db_agents db),
            db_events := db_events db @ [event_row_of ?e], db_outbox := db_outbox db @ [outbox_row_of ?e]\<rparr>) = Inr ((), db3)"
    and rest: "\<exists>rs. db' = db3\<lparr>db_receipts := rs\<rparr>"
    and c: "disposition c = Applied" "aes_status (committed_value c) = ?status"
      "durable_follow_ups c = submission_follow_ups ?i p ?status"
    unfolding record_locked_submission_def Let_def
    apply (clarsimp simp: txn_iffs simp del: nonnegative_u64_Inr)
    apply (erule finish_receipt_frame)
    apply (rule that [rotated 2], assumption)
         apply (rule exI, assumption)
        apply (simp_all add: submission_snapshot_def del: nonnegative_u64_Inr)
    done
  have version: "0 \<le> g_version g + 1"
    using assms by (auto simp: record_locked_submission_def Let_def txn_iffs)
  from rest obtain rs where db': "db' = db3\<lparr>db_receipts := rs\<rparr>" by blast
  from adv show thesis
    by (rule cursor_effect) (rule that [of rs], use facts version c in \<open>simp_all add: db'\<close>)
qed

lemma remote_run_free_receipts [simp]: "remote_run_free g r (db\<lparr>db_receipts := rs\<rparr>) = remote_run_free g r db"
  by (simp add: remote_run_free_def)

lemmas submission_effect =
  record_locked_submission_effect [where db = "db\<lparr>db_receipts := rs\<rparr>" for db rs, simplified]

lemma record_agent_submission_cases:
  assumes "record_agent_submission ttl ctx cmd now db = Inr (c, db')"
  obtains (replayed) outcome event where "db' = db" and "duplicate_agent ctx outcome event = Inr c"
    | (recorded) p and run :: locked_event_run and g rs where "project_agent_submission (ras_outcome cmd) = Inr p"
        and "find_run (cc_tenant_id ctx) (er_run_id (ras_expected_run cmd)) db = Some (le_run run)"
        and "find (agent_of (cc_tenant_id ctx) (ras_agent_execution_id cmd)) (db_agents db) = Some g"
        and "g_run g = er_run_id (ras_expected_run cmd)"
        and "g_version g = int (ras_expected_version cmd) \<or> late_after_stop (int (ras_expected_version cmd)) g"
        and "g_status g = AgentSubmitting \<or> g_status g = AgentOutcomeUnknown
               \<or> late_after_stop (int (ras_expected_version cmd)) g"
        and "record_locked_submission ctx cmd p now (le_run run) (int (ras_expected_version cmd)) g
               (db\<lparr>db_receipts := rs\<rparr>) = Inr (c, db')"
proof -
  from assms obtain p where p: "project_agent_submission (ras_outcome cmd) = Inr p" and
      "with_receipt ctx now ttl (duplicate_agent ctx)
      (bindT (lock_event_run (cc_tenant_id ctx) (er_run_id (ras_expected_run cmd))) (\<lambda>run.
      bindT (lock_agent_by_id (cc_tenant_id ctx) (ras_agent_execution_id cmd)) (\<lambda>g.
      thenT (guardT (g_run g = er_run_id (ras_expected_run cmd))
               (store_error_of NotFound ''Agent execution belongs to another run''))
      (bindT (liftT (to_i64 (ras_expected_version cmd) ''Agent execution version'')) (\<lambda>expected.
      thenT (guardT (g_version g = expected \<or> late_after_stop expected g)
               (store_error_of VersionConflict ''Agent execution version changed''))
      (thenT (guardT (g_status g \<in> {AgentSubmitting, AgentOutcomeUnknown} \<or> late_after_stop expected g)
               (store_error_of InvalidTransition ''Agent execution is not awaiting submission outcome''))
      (record_locked_submission ctx cmd p now (le_run run) expected g))))))) db = Inr (c, db')"
    by (auto simp: record_agent_submission_def Let_def txn_iffs)
  from this(2) show thesis
  proof (cases rule: with_receipt_cases)
    case replayed
    then show ?thesis using that(1) by blast
  next
    case fresh
    then show ?thesis
      using that(2) [where rs = "db_receipts db @ [new_receipt ctx now (int ttl)]", OF p]
      by (auto simp: txn_iffs find_run_def)
  qed
qed

lemma record_agent_submission_effect:
  assumes "runs_ok db" and "record_agent_submission ttl ctx cmd now db = Inr (c, db')"
  shows "evolves db db'"
  using assms(2)
proof (cases rule: record_agent_submission_cases)
  case (recorded p run g rs)
  from recorded(7) have "records db db'"
    by (rule submission_effect)
       (rule records_by_cursor [OF assms(1) recorded(2), where now = now and e = "submission_event ctx cmd p
          (effective_status cmd p (int (ras_expected_version cmd)) g) (g_version g + 1) now (le_run run)"],
        simp_all add: submission_event_def)
  then show ?thesis by (rule evolves_record)
qed (simp add: evolves_same)

lemma record_agent_submission_keys:
  assumes "task_keys_ok db" and "record_agent_submission ttl ctx cmd now db = Inr (c, db')"
  shows "task_keys_ok db'"
  using assms(2)
proof (cases rule: record_agent_submission_cases)
  case (recorded p run g rs)
  from recorded(7) show ?thesis
    by (rule submission_effect) (use assms(1) in \<open>simp add: task_keys_ok_def\<close>)
qed (use assms(1) in simp)

interpretation submission_cmd: store_command
  "\<lambda>(ttl, ctx, cmd, now). record_agent_submission ttl ctx cmd now"
  by unfold_locales
     (auto dest: record_agent_submission_effect [OF store_okD(1)] record_agent_submission_keys [OF store_okD(2)])

section \<open>The effect of an outcome\<close>

lemma record_locked_agent_outcome_effect:
  assumes "record_locked_agent_outcome ext ctx cmd now run task g db = Inr (c, db')"
  obtains rs result where
      "sql_count (accepts_outcome (cc_tenant_id ctx) (rao_agent_execution_id cmd) (g_version g)) (db_agents db) = 1"
    and "optional_json ext (rao_result cmd) = Inr result"
    and "updates_pass run_checks (run_at (cc_tenant_id ctx) (er_run_id (rao_expected_run cmd))
        (r_version run) (r_generation run)) (run_cursor_advanced now) (db_runs db)"
    and "db' = db\<lparr>db_agents := sql_update
            (accepts_outcome (cc_tenant_id ctx) (rao_agent_execution_id cmd) (g_version g))
            (finished_agent cmd result (g_version g + 1) now) (db_agents db),
        db_events := db_events db @ [event_row_of (agent_outcome_event ctx cmd (g_version g + 1) now run task)],
        db_outbox := db_outbox db @ [outbox_row_of (agent_outcome_event ctx cmd (g_version g + 1) now run task)],
        db_runs := sql_update (run_at (cc_tenant_id ctx) (er_run_id (rao_expected_run cmd))
          (r_version run) (r_generation run)) (run_cursor_advanced now) (db_runs db),
        db_receipts := rs\<rparr>"
    and "disposition c = Applied" and "aes_status (committed_value c) = rao_status cmd"
proof -
  let ?t = "cc_tenant_id ctx" let ?i = "rao_agent_execution_id cmd"
  let ?e = "agent_outcome_event ctx cmd (g_version g + 1) now run task"
  from assms obtain db3 result where
      facts: "sql_count (accepts_outcome ?t ?i (g_version g)) (db_agents db) = 1"
      "optional_json ext (rao_result cmd) = Inr result"
    and adv: "advance_run_event_cursor ?t (er_run_id (rao_expected_run cmd)) (r_version run) (r_generation run) now
        (db\<lparr>db_agents := sql_update (accepts_outcome ?t ?i (g_version g))
              (finished_agent cmd result (g_version g + 1) now) (db_agents db),
            db_events := db_events db @ [event_row_of ?e], db_outbox := db_outbox db @ [outbox_row_of ?e]\<rparr>) = Inr ((), db3)"
    and rest: "\<exists>rs. db' = db3\<lparr>db_receipts := rs\<rparr>"
    and c: "disposition c = Applied" "aes_status (committed_value c) = rao_status cmd"
    unfolding record_locked_agent_outcome_def Let_def
    apply (clarsimp simp: txn_iffs simp del: nonnegative_u64_Inr)
    apply (erule finish_receipt_frame)
    apply (rule that [rotated 2], assumption)
         apply (rule exI, assumption)
        apply (simp_all add: agent_outcome_snapshot_def del: nonnegative_u64_Inr)
    done
  from rest obtain rs where db': "db' = db3\<lparr>db_receipts := rs\<rparr>" by blast
  from adv show thesis
    by (rule cursor_effect) (rule that [of result rs], use facts c in \<open>simp_all add: db'\<close>)
qed

lemmas agent_outcome_effect =
  record_locked_agent_outcome_effect [where db = "db\<lparr>db_receipts := rs\<rparr>" for db rs, simplified]

lemma find_agent_task_iff [txn_iffs]:
  "find_agent_task tenant i db = Inr (t, db') \<longleftrightarrow>
     db' = db \<and> map_option g_task (find (agent_of tenant i) (db_agents db)) = Some t"
  by (auto simp: find_agent_task_def txn_iffs ok_or_Inr_iff)

lemma lock_agent_task_iff [txn_iffs]:
  "lock_agent_task tenant run task db = Inr (t, db') \<longleftrightarrow>
     db' = db \<and> find_task tenant task db = Some t \<and> t_run t = run"
  by (auto simp: lock_agent_task_def txn_iffs ok_or_Inr_iff)

lemma record_agent_outcome_cases:
  assumes "record_agent_outcome ext ttl ctx cmd now db = Inr (c, db')"
  obtains (replayed) outcome event where "db' = db" and "duplicate_agent ctx outcome event = Inr c"
    | (recorded) run :: locked_event_run and task g rs where "validate_agent_outcome ext cmd = Inr ()"
        and "find_run (cc_tenant_id ctx) (er_run_id (rao_expected_run cmd)) db = Some (le_run run)"
        and "find_task (cc_tenant_id ctx) (g_task g) db = Some task"
        and "t_run task = er_run_id (rao_expected_run cmd)"
        and "find (agent_of (cc_tenant_id ctx) (rao_agent_execution_id cmd)) (db_agents db) = Some g"
        and "g_run g = er_run_id (rao_expected_run cmd)"
        and "g_version g = int (rao_expected_version cmd)"
        and "record_locked_agent_outcome ext ctx cmd now (le_run run) task g
               (db\<lparr>db_receipts := rs\<rparr>) = Inr (c, db')"
proof -
  from assms have p: "validate_agent_outcome ext cmd = Inr ()" and
      "with_receipt ctx now ttl (duplicate_agent ctx)
      (bindT (find_agent_task (cc_tenant_id ctx) (rao_agent_execution_id cmd)) (\<lambda>candidate.
      bindT (lock_event_run (cc_tenant_id ctx) (er_run_id (rao_expected_run cmd))) (\<lambda>run.
      bindT (lock_agent_task (cc_tenant_id ctx) (er_run_id (rao_expected_run cmd)) candidate) (\<lambda>task.
      bindT (lock_agent_by_id (cc_tenant_id ctx) (rao_agent_execution_id cmd)) (\<lambda>g.
      thenT (guardT (g_run g = er_run_id (rao_expected_run cmd) \<and> g_task g = candidate)
               (store_error_of NotFound ''Agent execution belongs to another task or run''))
      (bindT (liftT (to_i64 (rao_expected_version cmd) ''Agent execution version'')) (\<lambda>expected.
      thenT (guardT (g_version g = expected)
               (store_error_of VersionConflict ''Agent execution version changed''))
      (record_locked_agent_outcome ext ctx cmd now (le_run run) task g)))))))) db = Inr (c, db')"
    by (auto simp: record_agent_outcome_def Let_def txn_iffs)
  from this(2) show thesis
  proof (cases rule: with_receipt_cases)
    case replayed
    then show ?thesis using that(1) by blast
  next
    case fresh
    then show ?thesis
      using that(2) [where rs = "db_receipts db @ [new_receipt ctx now (int ttl)]", OF p]
      by (auto simp: txn_iffs find_run_def find_task_def)
  qed
qed

lemma record_agent_outcome_effect:
  assumes "runs_ok db" and "record_agent_outcome ext ttl ctx cmd now db = Inr (c, db')"
  shows "evolves db db'"
  using assms(2)
proof (cases rule: record_agent_outcome_cases)
  case (recorded run task g rs)
  from recorded(8) have "records db db'"
    by (rule agent_outcome_effect)
       (rule records_by_cursor [OF assms(1) recorded(2), where now = now
          and e = "agent_outcome_event ctx cmd (g_version g + 1) now (le_run run) task"],
        simp_all add: agent_outcome_event_def)
  then show ?thesis by (rule evolves_record)
qed (simp add: evolves_same)

lemma record_agent_outcome_keys:
  assumes "task_keys_ok db" and "record_agent_outcome ext ttl ctx cmd now db = Inr (c, db')"
  shows "task_keys_ok db'"
  using assms(2)
proof (cases rule: record_agent_outcome_cases)
  case (recorded run task g rs)
  from recorded(8) show ?thesis
    by (rule agent_outcome_effect) (use assms(1) in \<open>simp add: task_keys_ok_def\<close>)
qed (use assms(1) in simp)

interpretation agent_outcome_cmd: store_command
  "\<lambda>(ext, ttl, ctx, cmd, now). record_agent_outcome ext ttl ctx cmd now"
  by unfold_locales
     (auto dest: record_agent_outcome_effect [OF store_okD(1)] record_agent_outcome_keys [OF store_okD(2)])

end
