(* ===== verification/AgentEvents.thy ===== *)
theory AgentEvents
  imports AgentExecution
begin

text \<open>
  The event batches of a remote agent: \<open>AppendAgentEvents\<close> of \<open>durable-store/src/external_command.rs\<close> with
  its shape check, and \<open>append_agent_events\<close> of \<open>transaction_executor.rs\<close>. Proved: the shape check
  accepts exactly the batches its errors do not describe; a batch is appended against one cursor
  version, each remote event at most once, and its authoritative events become the next events of
  the run.
\<close>

section \<open>The command\<close>

datatype agent_workflow_action =
    AgentActionNone
  | AgentActionTasks "new_task list"
  | AgentActionWait new_wait_subscription

record agent_event_outcome =
  aeo_status :: agent_status
  aeo_result :: "json_payload option"
  aeo_error_code :: "string option"

record agent_event_projection =
  aep_workflow_action :: agent_workflow_action
  aep_artifacts :: "new_artifact_ref list"
  aep_execution_outcome :: "agent_event_outcome option"

definition projection_is_empty :: "agent_event_projection \<Rightarrow> bool" where
  "projection_is_empty p \<longleftrightarrow> aep_workflow_action p = AgentActionNone \<and> aep_artifacts p = []
     \<and> aep_execution_outcome p = None"

record agent_event_input =
  aei_receipt_id :: uuid
  aei_dedupe_key :: digest
  aei_source_event_id :: "string option"
  aei_source_sequence :: "nat option"
  aei_source_cursor :: "string option"
  aei_event_kind :: string
  aei_authoritative :: bool
  aei_raw_digest :: digest
  aei_local_event_id :: "uuid option"
  aei_payload_schema_version :: nat
  aei_payload :: json_payload
  aei_projection :: agent_event_projection

record append_agent_events_command =
  aae_expected_run :: expected_run
  aae_agent_execution_id :: uuid
  aae_expected_cursor_version :: nat
  aae_next_cursor :: "string option"
  aae_next_status_poll_at :: "micros option"
  aae_remote_terminal :: bool
  aae_events :: "agent_event_input list"

section \<open>The shape of a batch\<close>

datatype agent_event_batch_shape_error =
    InvalidCursor
  | MissingPollSchedule
  | InvalidEvent nat
  | AuthorityMismatch nat
  | DuplicateReceipt nat
  | DuplicateDedupeKey nat
  | DuplicateLocalEvent nat
  | ProjectionMismatch nat
  | ConflictingProjection

definition agent_event_outcome_shape_is_valid :: "agent_event_outcome \<Rightarrow> bool" where
  "agent_event_outcome_shape_is_valid p \<longleftrightarrow> aeo_error_code p \<noteq> Some []
     \<and> agent_result_shape (aeo_status p) (aeo_result p) (aeo_error_code p)"

definition projected_action_is_valid :: "uuid \<Rightarrow> agent_workflow_action \<Rightarrow> bool" where
  "projected_action_is_valid event action = (case action of
      AgentActionNone \<Rightarrow> True
    | AgentActionTasks tasks \<Rightarrow> tasks \<noteq> [] \<and> (\<forall>t \<in> set tasks. nt_created_event_id t = event
        \<and> nt_based_on_checkpoint_sequence t > 0 \<and> nt_max_attempts t > 0)
    | AgentActionWait w \<Rightarrow> nw_created_event_id w = event \<and> nw_wait_type w \<noteq> []
        \<and> nw_expected_event_type w \<noteq> [] \<and> wr_max_attempts (nw_resume_task w) > 0)"

definition projected_artifact_is_valid :: "uuid \<Rightarrow> new_artifact_ref \<Rightarrow> bool" where
  "projected_artifact_is_valid event a \<longleftrightarrow> na_created_event_id a = event \<and> na_contract_version a > 0
     \<and> na_version a > 0 \<and> na_kind a \<noteq> [] \<and> na_uri a \<noteq> [] \<and> na_media_type a \<noteq> [] \<and> na_produced_by a \<noteq> []"

definition projection_matches_event :: "agent_event_input \<Rightarrow> bool" where
  "projection_matches_event e = (case aei_local_event_id e of
      None \<Rightarrow> projection_is_empty (aei_projection e)
    | Some event \<Rightarrow> projected_action_is_valid event (aep_workflow_action (aei_projection e))
        \<and> (\<forall>a \<in> set (aep_artifacts (aei_projection e)). projected_artifact_is_valid event a)
        \<and> (case aep_execution_outcome (aei_projection e) of
             None \<Rightarrow> True | Some p \<Rightarrow> agent_event_outcome_shape_is_valid p))"

text \<open>The checks of one event, after those before it.\<close>

definition event_shape_error ::
  "agent_event_input list \<Rightarrow> agent_event_input \<Rightarrow> agent_event_batch_shape_error option" where
  "event_shape_error previous e = (let index = length previous in
    if aei_event_kind e = [] \<or> aei_payload_schema_version e = 0 \<or> aei_source_event_id e = Some []
       \<or> aei_source_cursor e = Some [] then Some (InvalidEvent index)
    else if aei_authoritative e \<noteq> (aei_local_event_id e \<noteq> None) then Some (AuthorityMismatch index)
    else if \<not> aei_authoritative e \<and> \<not> projection_is_empty (aei_projection e) then Some (ProjectionMismatch index)
    else if aei_authoritative e \<and> \<not> projection_matches_event e then Some (ProjectionMismatch index)
    else if list_ex (\<lambda>p. aei_receipt_id p = aei_receipt_id e) previous then Some (DuplicateReceipt index)
    else if list_ex (\<lambda>p. aei_dedupe_key p = aei_dedupe_key e) previous then Some (DuplicateDedupeKey index)
    else if aei_local_event_id e \<noteq> None
         \<and> list_ex (\<lambda>p. aei_local_event_id p = aei_local_event_id e) previous
      then Some (DuplicateLocalEvent index)
    else None)"

fun events_shape_error ::
  "agent_event_input list \<Rightarrow> agent_event_input list \<Rightarrow> agent_event_batch_shape_error option" where
  "events_shape_error previous [] = None"
| "events_shape_error previous (e # events) = (case event_shape_error previous e of
      Some err \<Rightarrow> Some err
    | None \<Rightarrow> events_shape_error (previous @ [e]) events)"

definition has_action :: "agent_event_input \<Rightarrow> bool" where
  "has_action e \<longleftrightarrow> aep_workflow_action (aei_projection e) \<noteq> AgentActionNone"

definition has_outcome :: "agent_event_input \<Rightarrow> bool" where
  "has_outcome e \<longleftrightarrow> aep_execution_outcome (aei_projection e) \<noteq> None"

definition validate_batch_shape ::
  "append_agent_events_command \<Rightarrow> agent_event_batch_shape_error + unit" where
  "validate_batch_shape cmd =
    (if aae_next_cursor cmd = Some [] then Inl InvalidCursor
     else if aae_next_status_poll_at cmd = None then Inl MissingPollSchedule
     else case events_shape_error [] (aae_events cmd) of
         Some err \<Rightarrow> Inl err
       | None \<Rightarrow>
           if length (filter has_action (aae_events cmd)) > 1
              \<or> length (filter has_outcome (aae_events cmd)) > 1
           then Inl ConflictingProjection else Inr ())"

section \<open>Recorded remote events\<close>

definition insert_agent_receipt :: "agent_receipt_row \<Rightarrow> unit txn" where
  "insert_agent_receipt q = insert_row
     (q_source_event q \<noteq> Some [] \<and> (case q_source_sequence q of None \<Rightarrow> True | Some n \<Rightarrow> 0 \<le> n) \<and> q_kind q \<noteq> [])
     (\<lambda>db. \<not> sql_exists (\<lambda>v. q_id v = q_id q
        \<or> (q_tenant v = q_tenant q \<and> (q_agent v = q_agent q \<and> q_dedupe_key v = q_dedupe_key q
             \<or> q_local_event q \<noteq> None \<and> q_local_event v = q_local_event q))) (db_agent_receipts db))
     (\<lambda>db. run_exists (q_tenant q) (q_run q) db
        \<and> sql_exists (\<lambda>g. g_tenant g = q_tenant q \<and> g_run g = q_run q \<and> g_id g = q_agent q) (db_agents db)
        \<and> (case q_local_event q of None \<Rightarrow> True | Some e \<Rightarrow> event_exists (q_tenant q) (q_run q) e db))
     (\<lambda>db. db\<lparr>db_agent_receipts := db_agent_receipts db @ [q]\<rparr>)"

definition agent_receipt_row_of ::
  "uuid \<Rightarrow> uuid \<Rightarrow> uuid \<Rightarrow> agent_event_input \<Rightarrow> int option \<Rightarrow> micros \<Rightarrow> agent_receipt_row" where
  "agent_receipt_row_of tenant execution run input sequence now =
    \<lparr> q_id = aei_receipt_id input, q_tenant = tenant, q_agent = execution, q_run = run,
      q_dedupe_key = aei_dedupe_key input, q_source_event = aei_source_event_id input,
      q_source_sequence = sequence, q_source_cursor = aei_source_cursor input,
      q_kind = aei_event_kind input, q_raw_digest = aei_raw_digest input,
      q_local_event = aei_local_event_id input, q_recorded_at = now \<rparr>"

definition optional_i64 :: "nat option \<Rightarrow> string \<Rightarrow> int option store_result" where
  "optional_i64 v field = (case v of
      None \<Rightarrow> Inr None
    | Some n \<Rightarrow> bindR (to_i64 n field) (\<lambda>i. Inr (Some i)))"

definition insert_agent_event_receipt ::
  "uuid \<Rightarrow> uuid \<Rightarrow> uuid \<Rightarrow> agent_event_input \<Rightarrow> micros \<Rightarrow> unit txn" where
  "insert_agent_event_receipt tenant execution run input now =
    bindT (liftT (optional_i64 (aei_source_sequence input) ''Agent event source sequence'')) (\<lambda>sequence.
    insert_agent_receipt (agent_receipt_row_of tenant execution run input sequence now))"

definition names_remote_event :: "uuid \<Rightarrow> uuid \<Rightarrow> agent_event_input \<Rightarrow> agent_receipt_row \<Rightarrow> bool" where
  "names_remote_event tenant execution input q \<longleftrightarrow> q_tenant q = tenant
     \<and> (q_id q = aei_receipt_id input \<or> q_agent q = execution \<and> q_dedupe_key q = aei_dedupe_key input)"

definition lock_agent_event_receipt ::
  "uuid \<Rightarrow> uuid \<Rightarrow> agent_event_input \<Rightarrow> agent_receipt_row option txn" where
  "lock_agent_event_receipt tenant execution input =
    bindT (queryT (\<lambda>db. filter (names_remote_event tenant execution input) (db_agent_receipts db))) (\<lambda>rows.
    thenT (guardT (length rows \<le> 1) (store_error_of IdempotencyKeyReused
             ''Agent event receipt and dedupe key resolve to different events''))
    (returnT (case rows of [] \<Rightarrow> None | q # _ \<Rightarrow> Some q)))"

definition same_remote_event :: "uuid \<Rightarrow> agent_event_input \<Rightarrow> agent_receipt_row \<Rightarrow> bool" where
  "same_remote_event execution input q \<longleftrightarrow> q_id q = aei_receipt_id input \<and> q_agent q = execution
     \<and> q_dedupe_key q = aei_dedupe_key input \<and> q_raw_digest q = aei_raw_digest input"

section \<open>The projection of an event\<close>

definition agent_workflow_projection_allowed :: "expected_run \<Rightarrow> run_row \<Rightarrow> micros \<Rightarrow> bool" where
  "agent_workflow_projection_allowed expected run now \<longleftrightarrow>
     \<not> expectation_changed (er_version expected) (r_version run)
     \<and> \<not> expectation_changed (er_execution_generation expected) (r_generation run)
     \<and> r_status run \<in> {RunQueued, RunRunning, RunWaiting, RunApprovalRequired, RunRetrying}
     \<and> (case r_deadline run of None \<Rightarrow> True | Some deadline \<Rightarrow> deadline > now)"

text \<open>What the loop over the events has gathered.\<close>

record batch_state =
  bs_accepted :: "uuid list"
  bs_duplicates :: "uuid list"
  bs_local_events :: "uuid list"
  bs_follow_ups :: "durable_follow_up list"
  bs_run_status :: run_status
  bs_outcome :: "agent_event_outcome option"
  bs_next_seq :: int

definition insert_projected_task ::
  "externals \<Rightarrow> uuid \<Rightarrow> uuid \<Rightarrow> uuid \<Rightarrow> micros \<Rightarrow> run_row \<Rightarrow> int \<Rightarrow> new_task \<Rightarrow> unit txn" where
  "insert_projected_task ext tenant run_id event now run checkpoint_sequence t =
    thenT (guardT (i64_try_from (nt_generation t) = Some (r_generation run)
             \<and> i64_try_from (nt_based_on_checkpoint_sequence t) = Some checkpoint_sequence)
             (invalid_command ''Agent event Task projection has a stale generation or checkpoint''))
    (insert_new_task ext tenant run_id event now TaskQueued t)"

definition project_workflow_action ::
  "externals \<Rightarrow> uuid \<Rightarrow> uuid \<Rightarrow> uuid \<Rightarrow> micros \<Rightarrow> locked_event_run \<Rightarrow> agent_workflow_action \<Rightarrow> batch_state
   \<Rightarrow> batch_state txn" where
  "project_workflow_action ext tenant run_id event now run action s = (case action of
      AgentActionNone \<Rightarrow> returnT s
    | AgentActionTasks tasks \<Rightarrow>
        bindT (liftT (ok_or (le_checkpoint_sequence run)
                 (inconsistent ''Agent event projection Run has no checkpoint''))) (\<lambda>checkpoint_sequence.
        thenT (foldT (insert_projected_task ext tenant run_id event now (le_run run) checkpoint_sequence) tasks)
        (returnT (s\<lparr>bs_follow_ups := bs_follow_ups s @ map (FollowTask \<circ> nt_task_id) tasks,
                    bs_run_status := RunQueued\<rparr>)))
    | AgentActionWait w \<Rightarrow>
        thenT (insert_new_wait ext tenant run_id event now w)
        (returnT (s\<lparr>bs_run_status := (if nw_wait_type w = ''approval'' then RunApprovalRequired else RunWaiting)\<rparr>)))"

definition remember_outcome ::
  "externals \<Rightarrow> agent_event_outcome option \<Rightarrow> batch_state \<Rightarrow> batch_state txn" where
  "remember_outcome ext outcome s = (case outcome of
      None \<Rightarrow> returnT s
    | Some p \<Rightarrow> bindT (liftT (optional_json ext (aeo_result p))) (\<lambda>_. returnT (s\<lparr>bs_outcome := Some p\<rparr>)))"

definition apply_agent_event_projection ::
  "externals \<Rightarrow> uuid \<Rightarrow> uuid \<Rightarrow> uuid \<Rightarrow> uuid \<Rightarrow> micros \<Rightarrow> locked_event_run \<Rightarrow> agent_event_input \<Rightarrow> bool
   \<Rightarrow> batch_state \<Rightarrow> batch_state txn" where
  "apply_agent_event_projection ext tenant run_id task event now run input allowed s =
    (let projection = aei_projection input in
    bindT (remember_outcome ext (aep_execution_outcome projection) s) (\<lambda>s.
    if \<not> allowed then returnT s
    else
      thenT (insert_artifact_refs ext tenant run_id task now (aep_artifacts projection))
      (project_workflow_action ext tenant run_id event now run (aep_workflow_action projection) s)))"

section \<open>One event of the batch\<close>

definition agent_server_event ::
  "command_context \<Rightarrow> uuid \<Rightarrow> uuid \<Rightarrow> int \<Rightarrow> agent_event_input \<Rightarrow> json \<Rightarrow> micros \<Rightarrow> event_insert" where
  "agent_server_event ctx event run_id sequence input payload now =
    \<lparr> ei_event_id = event, ei_tenant_id = cc_tenant_id ctx, ei_run_id = run_id, ei_sequence = sequence,
      ei_event_type = aei_event_kind input, ei_payload = payload,
      ei_payload_schema_version = int (aei_payload_schema_version input), ei_producer = ''agent-server'',
      ei_context = ctx, ei_correlation_id = cc_correlation_id ctx, ei_occurred_at = None,
      ei_recorded_at = now \<rparr>"

lemma agent_server_event_sel [simp]:
  "ei_event_id (agent_server_event ctx e run n i p now) = e"
  "ei_tenant_id (agent_server_event ctx e run n i p now) = cc_tenant_id ctx"
  "ei_run_id (agent_server_event ctx e run n i p now) = run"
  "ei_sequence (agent_server_event ctx e run n i p now) = n"
  by (simp_all add: agent_server_event_def)

definition append_local_event ::
  "externals \<Rightarrow> command_context \<Rightarrow> uuid \<Rightarrow> uuid \<Rightarrow> micros \<Rightarrow> locked_event_run \<Rightarrow> bool \<Rightarrow> agent_event_input
   \<Rightarrow> uuid \<Rightarrow> batch_state \<Rightarrow> batch_state txn" where
  "append_local_event ext ctx run_id task now run allowed input event s =
    bindT (liftT (json_value ext (aei_payload input))) (\<lambda>payload.
    thenT (insert_event (agent_server_event ctx event run_id (bs_next_seq s) input payload now))
    (bindT (liftT (checked_add_i64_or (bs_next_seq s) 1 (inconsistent ''run event sequence overflow'')))
      (\<lambda>next_seq.
    apply_agent_event_projection ext (cc_tenant_id ctx) run_id task event now run input allowed
      (s\<lparr>bs_next_seq := next_seq, bs_local_events := bs_local_events s @ [event]\<rparr>))))"

definition append_agent_event ::
  "externals \<Rightarrow> command_context \<Rightarrow> uuid \<Rightarrow> agent_row \<Rightarrow> micros \<Rightarrow> locked_event_run \<Rightarrow> bool
   \<Rightarrow> agent_event_input \<Rightarrow> batch_state \<Rightarrow> batch_state txn" where
  "append_agent_event ext ctx run_id g now run allowed input s =
    bindT (lock_agent_event_receipt (cc_tenant_id ctx) (g_id g) input) (\<lambda>existing.
    case existing of
        Some q \<Rightarrow>
          thenT (guardT (same_remote_event (g_id g) input q) (store_error_of IdempotencyKeyReused
                   ''Agent event dedupe identity was reused with different content''))
          (returnT (s\<lparr>bs_duplicates := bs_duplicates s @ [aei_receipt_id input]\<rparr>))
      | None \<Rightarrow>
          bindT (case aei_local_event_id input of
              None \<Rightarrow> returnT s
            | Some event \<Rightarrow> append_local_event ext ctx run_id (g_task g) now run allowed input event s) (\<lambda>s.
          thenT (insert_agent_event_receipt (cc_tenant_id ctx) (g_id g) run_id input now)
          (returnT (s\<lparr>bs_accepted := bs_accepted s @ [aei_receipt_id input]\<rparr>))))"

fun append_events ::
  "(agent_event_input \<Rightarrow> batch_state \<Rightarrow> batch_state txn) \<Rightarrow> agent_event_input list \<Rightarrow> batch_state \<Rightarrow> batch_state txn" where
  "append_events step [] s = returnT s"
| "append_events step (e # events) s = bindT (step e s) (\<lambda>s. append_events step events s)"

section \<open>The execution after the batch\<close>

definition batch_target :: "uuid \<Rightarrow> agent_row \<Rightarrow> bool \<Rightarrow> agent_row \<Rightarrow> bool" where
  "batch_target tenant g only_running v \<longleftrightarrow> agent_of tenant (g_id g) v \<and> g_cursor_version v = g_cursor_version g
     \<and> g_version v = g_version g \<and> (only_running \<longrightarrow> g_status v = AgentRunning)"

definition agent_read_on ::
  "append_agent_events_command \<Rightarrow> int \<Rightarrow> int \<Rightarrow> micros \<Rightarrow> agent_row \<Rightarrow> agent_row" where
  "agent_read_on cmd cursor_version version now v = v\<lparr>g_event_cursor := aae_next_cursor cmd,
     g_cursor_version := cursor_version, g_version := version,
     g_status_poll_at := aae_next_status_poll_at cmd, g_last_synced_at := Some now, g_updated_at := now\<rparr>"

definition agent_ended_remotely ::
  "append_agent_events_command \<Rightarrow> int \<Rightarrow> int \<Rightarrow> micros \<Rightarrow> agent_row \<Rightarrow> agent_row" where
  "agent_ended_remotely cmd cursor_version version now v =
     (agent_read_on cmd cursor_version version now v)\<lparr>g_status := AgentReconciling\<rparr>"

definition agent_projected ::
  "append_agent_events_command \<Rightarrow> agent_event_outcome \<Rightarrow> json option \<Rightarrow> int \<Rightarrow> int \<Rightarrow> micros \<Rightarrow> agent_row
   \<Rightarrow> agent_row" where
  "agent_projected cmd p result cursor_version version now v =
     (agent_read_on cmd cursor_version version now v)\<lparr>g_status := aeo_status p, g_result := result,
       g_error_code := aeo_error_code p, g_retry_at := None,
       g_status_poll_at := (if aeo_status p = AgentReconciling then aae_next_status_poll_at cmd else None),
       g_completed_at := (if agent_terminal (aeo_status p) then Some now else None)\<rparr>"

definition update_agent_after_event_batch ::
  "externals \<Rightarrow> uuid \<Rightarrow> append_agent_events_command \<Rightarrow> agent_row \<Rightarrow> int \<Rightarrow> int \<Rightarrow> agent_event_outcome option
   \<Rightarrow> micros \<Rightarrow> unit txn" where
  "update_agent_after_event_batch ext tenant cmd g cursor_version version outcome now =
    bindT (case outcome of
        Some p \<Rightarrow>
          thenT (guardT (g_status g \<in> {AgentRunning, AgentStopping, AgentOutcomeUnknown, AgentReconciling, AgentManualReview})
                   (store_error_of InvalidTransition ''Agent execution does not accept the projected event outcome''))
          (bindT (liftT (optional_json ext (aeo_result p))) (\<lambda>result.
          update_agents (batch_target tenant g False) (agent_projected cmd p result cursor_version version now)))
      | None \<Rightarrow>
          (if aae_remote_terminal cmd
           then thenT (guardT (g_status g = AgentRunning)
                  (store_error_of InvalidTransition ''only a running Agent execution accepts a terminal event hint''))
                (update_agents (batch_target tenant g True) (agent_ended_remotely cmd cursor_version version now))
           else thenT (guardT (g_status g = AgentRunning)
                  (store_error_of InvalidTransition ''only a running Agent execution accepts a nonterminal event batch''))
                (update_agents (batch_target tenant g True) (agent_read_on cmd cursor_version version now)))) (\<lambda>updated.
    guardT (updated = 1) (store_error_of VersionConflict
      ''Agent event cursor or execution version changed while applying batch''))"

section \<open>The handler\<close>

definition agent_batch_committed ::
  "command_disposition \<Rightarrow> agent_event_batch_outcome \<Rightarrow> uuid list \<Rightarrow> durable_follow_up list
   \<Rightarrow> agent_event_batch_outcome committed" where
  "agent_batch_committed d outcome events follow_ups =
    \<lparr> disposition = d, committed_value = outcome, event_ids = events, durable_follow_ups = follow_ups,
      post_commit_hints = (if events \<noteq> [] then [RunEventsAvailable (abo_run_id outcome)] else [])
        @ [InvalidateRunCache (abo_run_id outcome)]
        @ (if list_ex (\<lambda>f. case f of FollowTask _ \<Rightarrow> True | _ \<Rightarrow> False) follow_ups then [WakeWorkers] else []) \<rparr>"

lemma agent_batch_committed_sel [simp]:
  "disposition (agent_batch_committed d s es fs) = d" "committed_value (agent_batch_committed d s es fs) = s"
  "event_ids (agent_batch_committed d s es fs) = es" "durable_follow_ups (agent_batch_committed d s es fs) = fs"
  by (simp_all add: agent_batch_committed_def)

definition duplicate_agent_batch ::
  "command_context \<Rightarrow> stored_outcome \<Rightarrow> uuid option \<Rightarrow> agent_event_batch_outcome committed store_result" where
  "duplicate_agent_batch ctx outcome event =
    bindR (decode_agent_batch_receipt (cc_tenant_id ctx) outcome) (\<lambda>(value, events).
    Inr (agent_batch_committed Duplicate value events []))"

definition initial_batch_state :: "run_row \<Rightarrow> batch_state" where
  "initial_batch_state run = \<lparr> bs_accepted = [], bs_duplicates = [], bs_local_events = [],
     bs_follow_ups = [], bs_run_status = r_status run, bs_outcome = None, bs_next_seq = r_next_seq run \<rparr>"

definition batch_follow_ups :: "append_agent_events_command \<Rightarrow> batch_state \<Rightarrow> durable_follow_up list" where
  "batch_follow_ups cmd s = bs_follow_ups s
     @ (case bs_outcome s of
          Some p \<Rightarrow> if agent_requires_reconciliation (aeo_status p)
                    then [FollowReconcileAgent (aae_agent_execution_id cmd)] else []
        | None \<Rightarrow> if aae_remote_terminal cmd then [FollowReconcileAgent (aae_agent_execution_id cmd)] else [])"

definition finish_agent_batch ::
  "externals \<Rightarrow> command_context \<Rightarrow> append_agent_events_command \<Rightarrow> micros \<Rightarrow> locked_event_run \<Rightarrow> agent_row
   \<Rightarrow> batch_state \<Rightarrow> agent_event_batch_outcome committed txn" where
  "finish_agent_batch ext ctx cmd now run g s =
    (let tenant = cc_tenant_id ctx; run_id = er_run_id (aae_expected_run cmd) in
    bindT (liftT (checked_add_i64_or (g_cursor_version g) 1 (inconsistent ''Agent cursor version overflow'')))
      (\<lambda>next_cursor_version.
    bindT (liftT (checked_add_i64_or (g_version g) 1 (inconsistent ''Agent execution version overflow'')))
      (\<lambda>next_version.
    thenT (update_agent_after_event_batch ext tenant cmd g next_cursor_version next_version (bs_outcome s) now)
    (thenT (advance_run_event_batch tenant run_id (r_version (le_run run)) (r_generation (le_run run))
             (bs_next_seq s) (bs_run_status s) now)
    (bindT (liftT (nonnegative_u64 next_cursor_version ''Agent cursor version'')) (\<lambda>cursor_version.
    let outcome = \<lparr> abo_tenant_id = tenant, abo_agent_execution_id = aae_agent_execution_id cmd,
          abo_run_id = run_id, abo_accepted_receipts = bs_accepted s,
          abo_duplicate_receipts = bs_duplicates s, abo_cursor_version = cursor_version,
          abo_run_status = bs_run_status s \<rparr> in
    thenT (finish_receipt ctx ReceiptApplied (encode_agent_batch_receipt outcome (bs_local_events s))
             (case bs_local_events s of [] \<Rightarrow> None | e # _ \<Rightarrow> Some e)
             (Some (''agent_execution'', aae_agent_execution_id cmd, next_version)))
    (returnT (agent_batch_committed Applied outcome (bs_local_events s) (batch_follow_ups cmd s)))))))))"

definition append_agent_events ::
  "externals \<Rightarrow> nat \<Rightarrow> command_context \<Rightarrow> append_agent_events_command \<Rightarrow> micros
   \<Rightarrow> agent_event_batch_outcome committed txn" where
  "append_agent_events ext ttl ctx cmd now =
    thenT (guardT (validate_batch_shape cmd = Inr ()) (invalid_command ''invalid Agent event batch''))
    (with_receipt ctx now ttl (duplicate_agent_batch ctx)
      (let tenant = cc_tenant_id ctx; run_id = er_run_id (aae_expected_run cmd) in
      bindT (lock_event_run tenant run_id) (\<lambda>run.
      bindT (lock_agent_by_id tenant (aae_agent_execution_id cmd)) (\<lambda>g.
      thenT (guardT (g_run g = run_id) (store_error_of NotFound ''Agent execution belongs to another run''))
      (bindT (liftT (to_i64 (aae_expected_cursor_version cmd) ''Agent cursor version'')) (\<lambda>expected.
      thenT (guardT (g_cursor_version g = expected)
               (store_error_of VersionConflict ''Agent event cursor version changed''))
      (bindT (append_events (append_agent_event ext ctx run_id g now run
                 (agent_workflow_projection_allowed (aae_expected_run cmd) (le_run run) now))
               (aae_events cmd) (initial_batch_state (le_run run))) (\<lambda>s.
      finish_agent_batch ext ctx cmd now run g s))))))))"

section \<open>The shape check accepts exactly the well-formed batches\<close>

definition event_ok :: "agent_event_input \<Rightarrow> bool" where
  "event_ok e \<longleftrightarrow> aei_event_kind e \<noteq> [] \<and> aei_payload_schema_version e \<noteq> 0
     \<and> aei_source_event_id e \<noteq> Some [] \<and> aei_source_cursor e \<noteq> Some []
     \<and> (aei_authoritative e \<longleftrightarrow> aei_local_event_id e \<noteq> None) \<and> projection_matches_event e"

definition is_local :: "agent_event_input \<Rightarrow> bool" where
  "is_local e \<longleftrightarrow> aei_local_event_id e \<noteq> None"

definition batch_ok :: "append_agent_events_command \<Rightarrow> bool" where
  "batch_ok cmd \<longleftrightarrow> aae_next_cursor cmd \<noteq> Some [] \<and> aae_next_status_poll_at cmd \<noteq> None
     \<and> (\<forall>e \<in> set (aae_events cmd). event_ok e)
     \<and> distinct (map aei_receipt_id (aae_events cmd)) \<and> distinct (map aei_dedupe_key (aae_events cmd))
     \<and> distinct (map aei_local_event_id (filter is_local (aae_events cmd)))
     \<and> length (filter has_action (aae_events cmd)) \<le> 1 \<and> length (filter has_outcome (aae_events cmd)) \<le> 1"

lemma guard_is_None: "(if b then Some x else y) = None \<longleftrightarrow> \<not> b \<and> y = None"
  by simp

lemma unprojected_event:
  "aei_local_event_id e = None \<Longrightarrow> projection_matches_event e = projection_is_empty (aei_projection e)"
  by (simp add: projection_matches_event_def)

lemma event_shape_None:
  "event_shape_error previous e = None \<longleftrightarrow> event_ok e
     \<and> aei_receipt_id e \<notin> aei_receipt_id ` set previous \<and> aei_dedupe_key e \<notin> aei_dedupe_key ` set previous
     \<and> (is_local e \<longrightarrow> aei_local_event_id e \<notin> aei_local_event_id ` set previous)"
proof -
  have ex: "list_ex (\<lambda>p. f p = f e) previous \<longleftrightarrow> f e \<in> f ` set previous" for f :: "agent_event_input \<Rightarrow> 'v"
    by (auto simp: list_ex_iff image_iff eq_commute)
  show ?thesis
    unfolding event_shape_error_def Let_def guard_is_None ex event_ok_def is_local_def
    using unprojected_event [of e]
    by (cases "aei_authoritative e"; cases "aei_local_event_id e = None") simp_all
qed

lemma events_shape_None:
  "events_shape_error previous es = None \<longleftrightarrow> (\<forall>e \<in> set es. event_ok e)
     \<and> distinct (map aei_receipt_id es) \<and> aei_receipt_id ` set es \<inter> aei_receipt_id ` set previous = {}
     \<and> distinct (map aei_dedupe_key es) \<and> aei_dedupe_key ` set es \<inter> aei_dedupe_key ` set previous = {}
     \<and> distinct (map aei_local_event_id (filter is_local es))
     \<and> aei_local_event_id ` set (filter is_local es) \<inter> aei_local_event_id ` set previous = {}"
proof (induction es arbitrary: previous)
  case (Cons e es)
  have fresh: "f ` A \<inter> f ` set (previous @ [e]) = {} \<longleftrightarrow> f e \<notin> f ` A \<and> f ` A \<inter> f ` set previous = {}"
    for f :: "agent_event_input \<Rightarrow> 'v" and A by auto
  have both: "f ` set (e # xs) \<inter> A = {} \<longleftrightarrow> f e \<notin> A \<and> f ` set xs \<inter> A = {}"
    for f :: "agent_event_input \<Rightarrow> 'v" and A xs by simp
  have locals: "aei_local_event_id e \<notin> aei_local_event_id ` set (filter is_local es)" if "\<not> is_local e"
    using that by (auto simp: is_local_def)
  have "events_shape_error previous (e # es) = None
      \<longleftrightarrow> event_shape_error previous e = None \<and> events_shape_error (previous @ [e]) es = None"
    by (simp split: option.split)
  also have "\<dots> \<longleftrightarrow> event_shape_error previous e = None \<and> (\<forall>e \<in> set es. event_ok e)
     \<and> (distinct (map aei_receipt_id es) \<and> aei_receipt_id e \<notin> aei_receipt_id ` set es
          \<and> aei_receipt_id ` set es \<inter> aei_receipt_id ` set previous = {})
     \<and> (distinct (map aei_dedupe_key es) \<and> aei_dedupe_key e \<notin> aei_dedupe_key ` set es
          \<and> aei_dedupe_key ` set es \<inter> aei_dedupe_key ` set previous = {})
     \<and> (distinct (map aei_local_event_id (filter is_local es))
          \<and> aei_local_event_id e \<notin> aei_local_event_id ` set (filter is_local es)
          \<and> aei_local_event_id ` set (filter is_local es) \<inter> aei_local_event_id ` set previous = {})"
    unfolding Cons.IH fresh by simp
  finally show ?case
    using locals by (cases "is_local e") (simp_all add: event_shape_None both conj_ac)
qed simp

lemma validate_batch_shape_iff: "validate_batch_shape cmd = Inr () \<longleftrightarrow> batch_ok cmd"
  using events_shape_None [of "[]" "aae_events cmd"]
  by (auto simp: validate_batch_shape_def batch_ok_def split: option.splits)

section \<open>The loop over the events\<close>

definition known_event :: "uuid \<Rightarrow> uuid \<Rightarrow> db \<Rightarrow> agent_event_input \<Rightarrow> bool" where
  "known_event tenant execution db input \<longleftrightarrow>
     (\<exists>q \<in> set (db_agent_receipts db). names_remote_event tenant execution input q)"

lemma insert_agent_receipt_row:
  "insert_agent_receipt q db = Inr (u, db') \<Longrightarrow> db' = db\<lparr>db_agent_receipts := db_agent_receipts db @ [q]\<rparr>"
  by (simp add: insert_agent_receipt_def txn_iffs)

lemma keeps_agent_receipt [keeps_intros]:
  "(\<And>db v. g (db\<lparr>db_agent_receipts := v\<rparr>) = g db) \<Longrightarrow> keeps g (insert_agent_receipt q)"
  "(\<And>db v. g (db\<lparr>db_agent_receipts := v\<rparr>) = g db)
   \<Longrightarrow> keeps g (insert_agent_event_receipt tenant execution run input now)"
  by (auto simp: insert_agent_receipt_def insert_agent_event_receipt_def intro: keeps_intros)

lemma keeps_projected_task [keeps_intros]:
  "(\<And>db v. g (db\<lparr>db_tasks := v\<rparr>) = g db) \<Longrightarrow> keeps g (insert_projected_task ext tenant run_id event now run cs t)"
  unfolding insert_projected_task_def by (intro keeps_intros)

lemma keeps_workflow_action [keeps_intros]:
  assumes "\<And>db v. g (db\<lparr>db_tasks := v\<rparr>) = g db" and "\<And>db v. g (db\<lparr>db_waits := v\<rparr>) = g db"
  shows "keeps g (project_workflow_action ext tenant run_id event now run action s)"
  using assms by (cases action) (auto simp: project_workflow_action_def intro!: keeps_intros)

lemma keeps_remember_outcome [keeps_intros]: "keeps g (remember_outcome ext outcome s)"
  by (cases outcome) (auto simp: remember_outcome_def intro!: keeps_intros)

lemma keeps_agent_projection [keeps_intros]:
  assumes "\<And>db v. g (db\<lparr>db_tasks := v\<rparr>) = g db" and "\<And>db v. g (db\<lparr>db_waits := v\<rparr>) = g db"
    and "\<And>db v. g (db\<lparr>db_artifacts := v\<rparr>) = g db"
  shows "keeps g (apply_agent_event_projection ext tenant run_id task event now run input allowed s)"
  using assms
  by (auto simp: apply_agent_event_projection_def Let_def split: option.splits intro!: keeps_intros)

text \<open>What the loop gathers about receipts and events; the projection does not touch it.\<close>

definition batch_log :: "batch_state \<Rightarrow> uuid list \<times> uuid list \<times> uuid list \<times> int" where
  "batch_log s = (bs_accepted s, bs_duplicates s, bs_local_events s, bs_next_seq s)"

lemma remember_outcome_state:
  "remember_outcome ext outcome s db = Inr (s', db')
   \<Longrightarrow> db' = db \<and> batch_log s' = batch_log s \<and> bs_run_status s' = bs_run_status s"
  by (cases outcome) (auto simp: remember_outcome_def txn_iffs batch_log_def)

lemma project_workflow_action_state:
  "project_workflow_action ext tenant run_id event now run action s db = Inr (s', db') \<Longrightarrow> batch_log s' = batch_log s"
  by (cases action) (auto simp: project_workflow_action_def txn_iffs batch_log_def)

lemma agent_projection_state:
  assumes "apply_agent_event_projection ext tenant run_id task event now run input allowed s db = Inr (s', db')"
  shows "batch_log s' = batch_log s"
    and "\<not> allowed \<Longrightarrow> bs_run_status s' = bs_run_status s \<and> db' = db"
proof -
  from assms obtain s1 where "remember_outcome ext (aep_execution_outcome (aei_projection input)) s db = Inr (s1, db)"
    and rest: "(if \<not> allowed then returnT s1
      else thenT (insert_artifact_refs ext tenant run_id task now (aep_artifacts (aei_projection input)))
        (project_workflow_action ext tenant run_id event now run (aep_workflow_action (aei_projection input)) s1)) db
      = Inr (s', db')"
    unfolding apply_agent_event_projection_def Let_def bindT_iff by (metis remember_outcome_state)
  then have s1: "batch_log s1 = batch_log s" "bs_run_status s1 = bs_run_status s"
    using remember_outcome_state by blast+
  show "batch_log s' = batch_log s"
    using rest s1 by (cases allowed) (auto simp: txn_iffs dest: project_workflow_action_state)
  show "bs_run_status s' = bs_run_status s \<and> db' = db" if "\<not> allowed"
    using rest s1 that by (simp add: txn_iffs)
qed

lemma agent_projection_tasks:
  assumes "apply_agent_event_projection ext tenant run_id task event now run input allowed s db = Inr (s', db')"
  shows "tasks_appended (\<lambda>_. True) db db'"
proof -
  have art: "tasks_appended (\<lambda>_. True) db db1"
    if "insert_artifact_refs ext tenant run_id task now as db = Inr (u, db1)" for as u db1
  proof -
    have "keeps db_tasks (insert_artifact_refs ext tenant run_id task now as)" by (intro keeps_intros) simp
    from keepsD [OF this that] show ?thesis by (simp add: tasks_appended_refl)
  qed
  have act: "tasks_appended (\<lambda>_. True) db1 db2"
    if "project_workflow_action ext tenant run_id event now run action s1 db1 = Inr (s2, db2)" for action s1 db1 s2 db2
  proof (cases action)
    case (AgentActionTasks ts)
    with that obtain u cs where "foldT (insert_projected_task ext tenant run_id event now (le_run run) cs) ts db1 = Inr (u, db2)"
      by (auto simp: project_workflow_action_def txn_iffs)
    then show ?thesis
      by (rule foldT_appends) (auto simp: insert_projected_task_def txn_iffs intro: insert_new_task_appends)
  next
    case (AgentActionWait w)
    have "keeps db_tasks (insert_new_wait ext tenant run_id event now w)" by (intro keeps_intros) simp
    with AgentActionWait that show ?thesis
      by (auto simp: project_workflow_action_def txn_iffs dest!: keepsD intro: tasks_appended_refl)
  qed (use that in \<open>simp add: project_workflow_action_def txn_iffs tasks_appended_refl\<close>)
  show ?thesis
  proof (cases allowed)
    case False
    then show ?thesis using agent_projection_state(2) [OF assms] by (simp add: tasks_appended_refl)
  next
    case True
    with assms obtain u db1 s1 where "insert_artifact_refs ext tenant run_id task now (aep_artifacts (aei_projection input)) db = Inr (u, db1)"
      "project_workflow_action ext tenant run_id event now run (aep_workflow_action (aei_projection input)) s1 db1 = Inr (s', db')"
      by (auto simp: apply_agent_event_projection_def Let_def txn_iffs dest!: remember_outcome_state)
    with art act tasks_appended_trans show ?thesis by blast
  qed
qed

text \<open>What a stretch of the loop adds for the events \<open>news\<close> it recorded and \<open>olds\<close> it knew already.\<close>

definition receipt_of_input :: "uuid \<Rightarrow> uuid \<Rightarrow> uuid \<Rightarrow> micros \<Rightarrow> agent_event_input \<Rightarrow> agent_receipt_row" where
  "receipt_of_input tenant execution run now e =
     agent_receipt_row_of tenant execution run e (map_option int (aei_source_sequence e)) now"

definition local_ids :: "agent_event_input list \<Rightarrow> uuid list" where
  "local_ids events = map (\<lambda>e. the (aei_local_event_id e)) (filter is_local events)"

lemma local_ids_simps [simp]:
  "local_ids [] = []" "local_ids (xs @ ys) = local_ids xs @ local_ids ys"
  "local_ids [e] = (case aei_local_event_id e of None \<Rightarrow> [] | Some i \<Rightarrow> [i])"
  by (auto simp: local_ids_def is_local_def split: option.split)

definition batch_events :: "uuid \<Rightarrow> uuid \<Rightarrow> uuid list \<Rightarrow> int \<Rightarrow> int \<Rightarrow> db \<Rightarrow> db \<Rightarrow> bool" where
  "batch_events tenant run ids first stop db db' \<longleftrightarrow> first \<le> stop \<and> (\<exists>es.
       db_events db' = db_events db @ map event_row_of es \<and> db_outbox db' = db_outbox db @ map outbox_row_of es
     \<and> (\<forall>e \<in> set es. ei_tenant_id e = tenant \<and> ei_run_id e = run)
     \<and> map ei_sequence es = [first..stop - 1] \<and> map ei_event_id es = ids)"

definition batch_grew ::
  "uuid \<Rightarrow> uuid \<Rightarrow> uuid \<Rightarrow> micros \<Rightarrow> bool \<Rightarrow> agent_event_input list \<Rightarrow> agent_event_input list
   \<Rightarrow> batch_state \<Rightarrow> db \<Rightarrow> batch_state \<Rightarrow> db \<Rightarrow> bool" where
  "batch_grew tenant execution run now allowed news olds s db s' db' \<longleftrightarrow>
       db_runs db' = db_runs db \<and> db_agents db' = db_agents db
     \<and> db_agent_receipts db' = db_agent_receipts db @ map (receipt_of_input tenant execution run now) news
     \<and> bs_accepted s' = bs_accepted s @ map aei_receipt_id news
     \<and> bs_duplicates s' = bs_duplicates s @ map aei_receipt_id olds
     \<and> bs_local_events s' = bs_local_events s @ local_ids news
     \<and> batch_events tenant run (local_ids news) (bs_next_seq s) (bs_next_seq s') db db'
     \<and> tasks_appended (\<lambda>_. True) db db' \<and> (\<not> allowed \<longrightarrow> bs_run_status s' = bs_run_status s)"

lemma batch_events_refl: "batch_events tenant run [] n n db db"
  by (simp add: batch_events_def)

lemma batch_events_trans:
  assumes "batch_events tenant run ids1 a b db0 db1" and "batch_events tenant run ids2 b c db1 db2"
  shows "batch_events tenant run (ids1 @ ids2) a c db0 db2"
proof -
  from assms(1) obtain es1 where 1: "a \<le> b" "db_events db1 = db_events db0 @ map event_row_of es1"
    "db_outbox db1 = db_outbox db0 @ map outbox_row_of es1" "map ei_sequence es1 = [a..b - 1]"
    "\<forall>e \<in> set es1. ei_tenant_id e = tenant \<and> ei_run_id e = run" "map ei_event_id es1 = ids1"
    by (auto simp: batch_events_def)
  from assms(2) obtain es2 where 2: "b \<le> c" "db_events db2 = db_events db1 @ map event_row_of es2"
    "db_outbox db2 = db_outbox db1 @ map outbox_row_of es2" "map ei_sequence es2 = [b..c - 1]"
    "\<forall>e \<in> set es2. ei_tenant_id e = tenant \<and> ei_run_id e = run" "map ei_event_id es2 = ids2"
    by (auto simp: batch_events_def)
  have "map ei_sequence (es1 @ es2) = [a..c - 1]"
    using 1(1,4) 2(1,4) upto_split1 [of a b "c - 1"] by (cases "b \<le> c - 1") auto
  with 1 2 show ?thesis
    unfolding batch_events_def by (intro conjI exI [of _ "es1 @ es2"]) auto
qed

lemma batch_grew_refl: "batch_grew tenant execution run now allowed [] [] s db s db"
  by (simp add: batch_grew_def batch_events_refl tasks_appended_refl)

lemma batch_grew_trans:
  "batch_grew tenant execution run now allowed n1 o1 s0 db0 s1 db1
   \<Longrightarrow> batch_grew tenant execution run now allowed n2 o2 s1 db1 s2 db2
   \<Longrightarrow> batch_grew tenant execution run now allowed (n1 @ n2) (o1 @ o2) s0 db0 s2 db2"
  by (auto simp: batch_grew_def intro: batch_events_trans tasks_appended_trans)

lemma lock_agent_event_receipt_iff [txn_iffs]:
  "lock_agent_event_receipt tenant execution input db = Inr (found, db') \<longleftrightarrow> db' = db
     \<and> length (filter (names_remote_event tenant execution input) (db_agent_receipts db)) \<le> 1
     \<and> found = (case filter (names_remote_event tenant execution input) (db_agent_receipts db) of
          [] \<Rightarrow> None | q # _ \<Rightarrow> Some q)"
  by (auto simp: lock_agent_event_receipt_def txn_iffs)

lemma known_event_filter:
  "known_event tenant execution db input \<longleftrightarrow>
     filter (names_remote_event tenant execution input) (db_agent_receipts db) \<noteq> []"
  by (simp add: known_event_def filter_empty_conv)

lemma insert_agent_event_receipt_row:
  assumes "insert_agent_event_receipt tenant execution run input now db = Inr (u, db')"
  shows "db' = db\<lparr>db_agent_receipts := db_agent_receipts db @ [receipt_of_input tenant execution run now input]\<rparr>"
proof -
  have "i = map_option int v" if "optional_i64 v field = Inr i" for v field i
    using that by (auto simp: optional_i64_def result_iffs split: option.splits)
  with assms show ?thesis
    by (auto simp: insert_agent_event_receipt_def txn_iffs receipt_of_input_def dest!: insert_agent_receipt_row)
qed

lemma append_local_event_effect:
  assumes "append_local_event ext ctx run task now locked allowed input event s db = Inr (s', db')"
  shows "db_runs db' = db_runs db \<and> db_agents db' = db_agents db \<and> db_agent_receipts db' = db_agent_receipts db"
    and "bs_accepted s' = bs_accepted s \<and> bs_duplicates s' = bs_duplicates s
      \<and> bs_local_events s' = bs_local_events s @ [event]"
    and "batch_events (cc_tenant_id ctx) run [event] (bs_next_seq s) (bs_next_seq s') db db'"
    and "tasks_appended (\<lambda>_. True) db db'" and "\<not> allowed \<Longrightarrow> bs_run_status s' = bs_run_status s"
proof -
  let ?t = "cc_tenant_id ctx"
  from assms obtain payload db1 where
      db1: "db1 = db\<lparr>db_events := db_events db @ [event_row_of (agent_server_event ctx event run (bs_next_seq s) input payload now)],
        db_outbox := db_outbox db @ [outbox_row_of (agent_server_event ctx event run (bs_next_seq s) input payload now)]\<rparr>"
    and projected: "apply_agent_event_projection ext ?t run task event now locked input allowed
        (s\<lparr>bs_next_seq := bs_next_seq s + 1, bs_local_events := bs_local_events s @ [event]\<rparr>) db1 = Inr (s', db')"
    by (auto simp: append_local_event_def txn_iffs result_iffs)
  have same: "g db' = g db1" if "keeps g (apply_agent_event_projection ext ?t run task event now locked input allowed
        (s\<lparr>bs_next_seq := bs_next_seq s + 1, bs_local_events := bs_local_events s @ [event]\<rparr>))" for g :: "db \<Rightarrow> 'v"
    using keepsD [OF that projected] .
  have kept: "db_runs db' = db_runs db1" "db_agents db' = db_agents db1" "db_agent_receipts db' = db_agent_receipts db1"
    "db_events db' = db_events db1" "db_outbox db' = db_outbox db1"
    by (rule same, intro keeps_intros, simp_all)+
  then show "db_runs db' = db_runs db \<and> db_agents db' = db_agents db \<and> db_agent_receipts db' = db_agent_receipts db"
    by (simp add: db1)
  have state: "batch_log s' = batch_log (s\<lparr>bs_next_seq := bs_next_seq s + 1, bs_local_events := bs_local_events s @ [event]\<rparr>)"
    by (rule agent_projection_state(1) [OF projected])
  then show "bs_accepted s' = bs_accepted s \<and> bs_duplicates s' = bs_duplicates s
      \<and> bs_local_events s' = bs_local_events s @ [event]"
    by (simp add: batch_log_def)
  from state have "bs_next_seq s' = bs_next_seq s + 1" by (simp add: batch_log_def)
  then show "batch_events ?t run [event] (bs_next_seq s) (bs_next_seq s') db db'"
    unfolding batch_events_def using kept
    by (intro conjI exI [of _ "[agent_server_event ctx event run (bs_next_seq s) input payload now]"])
      (simp_all add: db1 agent_server_event_def)
  show "tasks_appended (\<lambda>_. True) db db'"
    using agent_projection_tasks [OF projected] by (simp add: tasks_appended_def task_keys_ok_def db1)
  show "bs_run_status s' = bs_run_status s" if "\<not> allowed"
    using agent_projection_state(2) [OF projected that] by simp
qed

lemma append_agent_event_known:
  assumes "append_agent_event ext ctx run g now locked allowed input s db = Inr (s', db')"
    and "known_event (cc_tenant_id ctx) (g_id g) db input"
  shows "db' = db \<and> batch_grew (cc_tenant_id ctx) (g_id g) run now allowed [] [input] s db s' db'"
  using assms
  by (auto simp: append_agent_event_def known_event_filter txn_iffs batch_grew_def batch_events_refl
      tasks_appended_refl neq_Nil_conv)

lemma append_agent_event_fresh:
  assumes "append_agent_event ext ctx run g now locked allowed input s db = Inr (s', db')"
    and "\<not> known_event (cc_tenant_id ctx) (g_id g) db input"
  shows "batch_grew (cc_tenant_id ctx) (g_id g) run now allowed [input] [] s db s' db'"
proof -
  let ?t = "cc_tenant_id ctx"
  from assms obtain s1 db1 db2 where
      event: "(case aei_local_event_id input of None \<Rightarrow> returnT s
        | Some event \<Rightarrow> append_local_event ext ctx run (g_task g) now locked allowed input event s) db = Inr (s1, db1)"
    and receipt: "insert_agent_event_receipt ?t (g_id g) run input now db1 = Inr ((), db2)"
    and rest: "db' = db2" "s' = s1\<lparr>bs_accepted := bs_accepted s1 @ [aei_receipt_id input]\<rparr>"
    by (auto simp: append_agent_event_def known_event_filter txn_iffs)
  note db2 = insert_agent_event_receipt_row [OF receipt]
  show ?thesis
  proof (cases "aei_local_event_id input")
    case None
    with event rest show ?thesis
      by (simp add: batch_grew_def batch_events_def db2 txn_iffs tasks_appended_def task_keys_ok_def)
  next
    case (Some e)
    with event have "append_local_event ext ctx run (g_task g) now locked allowed input e s db = Inr (s1, db1)" by simp
    from append_local_event_effect [OF this] rest Some show ?thesis
      by (simp add: batch_grew_def batch_events_def db2 tasks_appended_def task_keys_ok_def)
  qed
qed

lemma known_after_fresh:
  assumes "batch_grew tenant execution run now allowed [input] [] s db s1 db1"
    and "aei_receipt_id e \<noteq> aei_receipt_id input" and "aei_dedupe_key e \<noteq> aei_dedupe_key input"
  shows "known_event tenant execution db1 e \<longleftrightarrow> known_event tenant execution db e"
  using assms
  by (auto simp: batch_grew_def known_event_def names_remote_event_def receipt_of_input_def agent_receipt_row_of_def)

lemma append_events_grew:
  assumes "append_events (append_agent_event ext ctx run g now locked allowed) events s db = Inr (s', db')"
    and "distinct (map aei_receipt_id events)" and "distinct (map aei_dedupe_key events)"
  shows "batch_grew (cc_tenant_id ctx) (g_id g) run now allowed
    (filter (\<lambda>e. \<not> known_event (cc_tenant_id ctx) (g_id g) db e) events)
    (filter (known_event (cc_tenant_id ctx) (g_id g) db) events) s db s' db'"
  using assms
proof (induction events arbitrary: s db)
  case Nil
  then show ?case by (simp add: txn_iffs batch_grew_refl)
next
  case (Cons e events)
  let ?known = "known_event (cc_tenant_id ctx) (g_id g)"
  from Cons.prems(1) obtain s1 db1 where
      step: "append_agent_event ext ctx run g now locked allowed e s db = Inr (s1, db1)"
    and rest: "append_events (append_agent_event ext ctx run g now locked allowed) events s1 db1 = Inr (s', db')"
    by (auto simp: txn_iffs)
  have tail: "batch_grew (cc_tenant_id ctx) (g_id g) run now allowed
      (filter (\<lambda>e. \<not> ?known db1 e) events) (filter (?known db1) events) s1 db1 s' db'"
    using Cons.prems(2,3) by (intro Cons.IH [OF rest]) simp_all
  show ?case
  proof (cases "?known db e")
    case True
    from append_agent_event_known [OF step True]
    have same: "db1 = db" and grew: "batch_grew (cc_tenant_id ctx) (g_id g) run now allowed [] [e] s db s1 db1" by blast+
    from batch_grew_trans [OF grew tail] True same show ?thesis by simp
  next
    case False
    note grew = append_agent_event_fresh [OF step False]
    have "?known db1 e' = ?known db e'" if "e' \<in> set events" for e'
    proof (rule known_after_fresh [OF grew])
      show "aei_receipt_id e' \<noteq> aei_receipt_id e" "aei_dedupe_key e' \<noteq> aei_dedupe_key e"
        using Cons.prems(2,3) that by (auto simp: image_iff)
    qed
    then have "filter (?known db1) events = filter (?known db) events"
      and "filter (\<lambda>e. \<not> ?known db1 e) events = filter (\<lambda>e. \<not> ?known db e) events"
      by (auto intro: filter_cong)
    with batch_grew_trans [OF grew tail] False show ?thesis by simp
  qed
qed

section \<open>The effect of a batch\<close>

definition batch_agent ::
  "append_agent_events_command \<Rightarrow> agent_event_outcome option \<Rightarrow> json option \<Rightarrow> micros \<Rightarrow> agent_row \<Rightarrow> agent_row
   \<Rightarrow> agent_row" where
  "batch_agent cmd outcome result now g = (case outcome of
      Some p \<Rightarrow> agent_projected cmd p result (g_cursor_version g + 1) (g_version g + 1) now
    | None \<Rightarrow> if aae_remote_terminal cmd
        then agent_ended_remotely cmd (g_cursor_version g + 1) (g_version g + 1) now
        else agent_read_on cmd (g_cursor_version g + 1) (g_version g + 1) now)"

text \<open>The states in which the execution takes a batch: any that has not ended, if the batch ends it.\<close>

definition batch_accepts :: "bool \<Rightarrow> agent_row \<Rightarrow> bool" where
  "batch_accepts only_running g \<longleftrightarrow> (if only_running then g_status g = AgentRunning
     else g_status g \<in> {AgentRunning, AgentStopping, AgentOutcomeUnknown, AgentReconciling, AgentManualReview})"

lemma update_agent_after_batch_effect:
  assumes "update_agent_after_event_batch ext tenant cmd g cursor_version version outcome now db = Inr (u, db')"
    and "cursor_version = g_cursor_version g + 1" and "version = g_version g + 1"
  obtains result where "batch_accepts (outcome = None) g"
    and "sql_count (batch_target tenant g (outcome = None)) (db_agents db) = 1"
    and "db' = db\<lparr>db_agents := sql_update (batch_target tenant g (outcome = None))
          (batch_agent cmd outcome result now g) (db_agents db)\<rparr>"
proof (cases outcome)
  case (Some p)
  have "\<exists>result. g_status g \<in> {AgentRunning, AgentStopping, AgentOutcomeUnknown, AgentReconciling, AgentManualReview}
      \<and> sql_count (batch_target tenant g False) (db_agents db) = 1
      \<and> db' = db\<lparr>db_agents := sql_update (batch_target tenant g False)
        (agent_projected cmd p result (g_cursor_version g + 1) (g_version g + 1) now) (db_agents db)\<rparr>"
    using assms(1) unfolding assms(2,3) Some
    by (clarsimp simp: update_agent_after_event_batch_def txn_iffs simp del: insert_iff) blast
  then obtain result where "g_status g \<in> {AgentRunning, AgentStopping, AgentOutcomeUnknown, AgentReconciling, AgentManualReview}"
      "sql_count (batch_target tenant g False) (db_agents db) = 1"
      "db' = db\<lparr>db_agents := sql_update (batch_target tenant g False)
        (agent_projected cmd p result (g_cursor_version g + 1) (g_version g + 1) now) (db_agents db)\<rparr>"
    by blast
  then show thesis by (intro that [of result]) (simp_all add: Some batch_agent_def batch_accepts_def)
next
  case None
  show thesis
  proof (cases "aae_remote_terminal cmd")
    case True
    with assms None have "g_status g = AgentRunning \<and> sql_count (batch_target tenant g True) (db_agents db) = 1
      \<and> db' = db\<lparr>db_agents := sql_update (batch_target tenant g True)
        (agent_ended_remotely cmd (g_cursor_version g + 1) (g_version g + 1) now) (db_agents db)\<rparr>"
      by (simp add: update_agent_after_event_batch_def txn_iffs)
    then show thesis by (intro that [of None]) (simp_all add: None True batch_agent_def batch_accepts_def)
  next
    case False
    with assms None have "g_status g = AgentRunning \<and> sql_count (batch_target tenant g True) (db_agents db) = 1
      \<and> db' = db\<lparr>db_agents := sql_update (batch_target tenant g True)
        (agent_read_on cmd (g_cursor_version g + 1) (g_version g + 1) now) (db_agents db)\<rparr>"
      by (simp add: update_agent_after_event_batch_def txn_iffs)
    then show thesis by (intro that [of None]) (simp_all add: None False batch_agent_def batch_accepts_def)
  qed
qed

lemma finish_agent_batch_effect:
  assumes "finish_agent_batch ext ctx cmd now run g s db = Inr (c, db')"
  obtains rs result where
      "batch_accepts (bs_outcome s = None) g"
    and "sql_count (batch_target (cc_tenant_id ctx) g (bs_outcome s = None)) (db_agents db) = 1"
    and "updates_pass run_checks (run_at (cc_tenant_id ctx) (er_run_id (aae_expected_run cmd))
        (r_version (le_run run)) (r_generation (le_run run)))
        (run_projected (bs_next_seq s) (bs_run_status s) now) (db_runs db)"
    and "db' = db\<lparr>db_agents := sql_update (batch_target (cc_tenant_id ctx) g (bs_outcome s = None))
          (batch_agent cmd (bs_outcome s) result now g) (db_agents db),
        db_runs := sql_update (run_at (cc_tenant_id ctx) (er_run_id (aae_expected_run cmd))
          (r_version (le_run run)) (r_generation (le_run run)))
          (run_projected (bs_next_seq s) (bs_run_status s) now) (db_runs db),
        db_receipts := rs\<rparr>"
    and "disposition c = Applied" and "event_ids c = bs_local_events s"
    and "abo_accepted_receipts (committed_value c) = bs_accepted s"
    and "abo_duplicate_receipts (committed_value c) = bs_duplicates s"
    and "abo_run_status (committed_value c) = bs_run_status s"
proof -
  let ?t = "cc_tenant_id ctx" let ?run = "er_run_id (aae_expected_run cmd)"
  from assms obtain db2 db3 where
      agent: "update_agent_after_event_batch ext ?t cmd g (g_cursor_version g + 1) (g_version g + 1)
        (bs_outcome s) now db = Inr ((), db2)"
    and adv: "advance_run_event_batch ?t ?run (r_version (le_run run)) (r_generation (le_run run))
        (bs_next_seq s) (bs_run_status s) now db2 = Inr ((), db3)"
    and rest: "\<exists>rs. db' = db3\<lparr>db_receipts := rs\<rparr>"
    and c: "disposition c = Applied" "event_ids c = bs_local_events s"
      "abo_accepted_receipts (committed_value c) = bs_accepted s"
      "abo_duplicate_receipts (committed_value c) = bs_duplicates s"
      "abo_run_status (committed_value c) = bs_run_status s"
    unfolding finish_agent_batch_def Let_def
    apply (clarsimp simp: txn_iffs result_iffs simp del: nonnegative_u64_Inr advance_run_event_batch_iff)
    apply (erule finish_receipt_frame)
    apply (rule that, assumption, assumption)
         apply (rule exI, assumption)
        apply (simp_all del: nonnegative_u64_Inr)
    done
  from agent obtain result where
      count: "batch_accepts (bs_outcome s = None) g"
      "sql_count (batch_target ?t g (bs_outcome s = None)) (db_agents db) = 1"
    and db2: "db2 = db\<lparr>db_agents := sql_update (batch_target ?t g (bs_outcome s = None))
          (batch_agent cmd (bs_outcome s) result now g) (db_agents db)\<rparr>"
    by (rule update_agent_after_batch_effect [OF _ refl refl])
  from rest obtain rs where db': "db' = db3\<lparr>db_receipts := rs\<rparr>" by blast
  from adv show thesis
    by (rule advance_batch_effect) (rule that [of rs result], use count c in \<open>simp_all add: db' db2\<close>)
qed

lemma append_agent_events_cases:
  assumes "append_agent_events ext ttl ctx cmd now db = Inr (c, db')"
  obtains (replayed) outcome event where "db' = db" and "duplicate_agent_batch ctx outcome event = Inr c"
    | (appended) run :: locked_event_run and g s rs db1 where "batch_ok cmd"
        and "find_run (cc_tenant_id ctx) (er_run_id (aae_expected_run cmd)) db = Some (le_run run)"
        and "find (agent_of (cc_tenant_id ctx) (aae_agent_execution_id cmd)) (db_agents db) = Some g"
        and "g_run g = er_run_id (aae_expected_run cmd)"
        and "g_cursor_version g = int (aae_expected_cursor_version cmd)"
        and "append_events (append_agent_event ext ctx (er_run_id (aae_expected_run cmd)) g now run
               (agent_workflow_projection_allowed (aae_expected_run cmd) (le_run run) now))
               (aae_events cmd) (initial_batch_state (le_run run)) (db\<lparr>db_receipts := rs\<rparr>) = Inr (s, db1)"
        and "finish_agent_batch ext ctx cmd now run g s db1 = Inr (c, db')"
proof -
  from assms have shape: "validate_batch_shape cmd = Inr ()" and
      "with_receipt ctx now ttl (duplicate_agent_batch ctx)
      (bindT (lock_event_run (cc_tenant_id ctx) (er_run_id (aae_expected_run cmd))) (\<lambda>run.
      bindT (lock_agent_by_id (cc_tenant_id ctx) (aae_agent_execution_id cmd)) (\<lambda>g.
      thenT (guardT (g_run g = er_run_id (aae_expected_run cmd)) (store_error_of NotFound ''Agent execution belongs to another run''))
      (bindT (liftT (to_i64 (aae_expected_cursor_version cmd) ''Agent cursor version'')) (\<lambda>expected.
      thenT (guardT (g_cursor_version g = expected)
               (store_error_of VersionConflict ''Agent event cursor version changed''))
      (bindT (append_events (append_agent_event ext ctx (er_run_id (aae_expected_run cmd)) g now run
                 (agent_workflow_projection_allowed (aae_expected_run cmd) (le_run run) now))
               (aae_events cmd) (initial_batch_state (le_run run))) (\<lambda>s.
      finish_agent_batch ext ctx cmd now run g s))))))) db = Inr (c, db')"
    by (auto simp: append_agent_events_def Let_def txn_iffs)
  from shape have ok: "batch_ok cmd" by (simp add: validate_batch_shape_iff)
  from \<open>with_receipt ctx now ttl (duplicate_agent_batch ctx) _ db = _\<close> show thesis
  proof (cases rule: with_receipt_cases)
    case replayed
    then show ?thesis using that(1) by blast
  next
    case fresh
    then show ?thesis
      using that(2) [where rs = "db_receipts db @ [new_receipt ctx now (int ttl)]", OF ok]
      by (auto simp: txn_iffs find_run_def)
  qed
qed

lemma append_batch_grew:
  assumes "batch_ok cmd"
    and "append_events (append_agent_event ext ctx (er_run_id (aae_expected_run cmd)) g now run allowed)
      (aae_events cmd) s0 (db\<lparr>db_receipts := rs\<rparr>) = Inr (s, db1)"
  shows "batch_grew (cc_tenant_id ctx) (g_id g) (er_run_id (aae_expected_run cmd)) now allowed
    (filter (\<lambda>e. \<not> known_event (cc_tenant_id ctx) (g_id g) db e) (aae_events cmd))
    (filter (known_event (cc_tenant_id ctx) (g_id g) db) (aae_events cmd)) s0 (db\<lparr>db_receipts := rs\<rparr>) s db1"
proof -
  have "known_event (cc_tenant_id ctx) (g_id g) (db\<lparr>db_receipts := rs\<rparr>) = known_event (cc_tenant_id ctx) (g_id g) db"
    by (simp add: known_event_def fun_eq_iff)
  with append_events_grew [OF assms(2)] assms(1) show ?thesis by (simp add: batch_ok_def)
qed

lemma ended_run_takes_no_projection:
  "run_terminal (r_status run) \<Longrightarrow> \<not> agent_workflow_projection_allowed expected run now"
  by (auto simp: agent_workflow_projection_allowed_def run_terminal_def)

lemma append_agent_events_effect:
  assumes "runs_ok db" and "append_agent_events ext ttl ctx cmd now db = Inr (c, db')"
  shows "evolves db db'"
  using assms(2)
proof (cases rule: append_agent_events_cases)
  case (appended run g s rs db1)
  let ?run = "le_run run" let ?new = "run_projected (bs_next_seq s) (bs_run_status s) now"
  note grew = append_batch_grew [OF appended(1,6), unfolded batch_grew_def]
  from grew obtain es where es: "db_events db1 = db_events db @ map event_row_of es"
      "db_outbox db1 = db_outbox db @ map outbox_row_of es"
      "\<forall>e \<in> set es. ei_tenant_id e = cc_tenant_id ctx \<and> ei_run_id e = er_run_id (aae_expected_run cmd)"
      "map ei_sequence es = [r_next_seq ?run..bs_next_seq s - 1]" and le: "r_next_seq ?run \<le> bs_next_seq s"
    by (auto simp: batch_events_def initial_batch_state_def)
  from grew have runs: "db_runs db1 = db_runs db" by simp
  have status: "bs_run_status s = r_status ?run" if "run_terminal (r_status ?run)"
    using grew ended_run_takes_no_projection [OF that] by (simp add: initial_batch_state_def)
  from appended(7) have "records db db'"
  proof (rule finish_agent_batch_effect)
    fix rs' result assume
      pass: "updates_pass run_checks (run_at (cc_tenant_id ctx) (er_run_id (aae_expected_run cmd))
        (r_version ?run) (r_generation ?run)) ?new (db_runs db1)"
      and db': "db' = db1\<lparr>db_agents := sql_update (batch_target (cc_tenant_id ctx) g (bs_outcome s = None))
          (batch_agent cmd (bs_outcome s) result now g) (db_agents db1),
        db_runs := sql_update (run_at (cc_tenant_id ctx) (er_run_id (aae_expected_run cmd))
          (r_version ?run) (r_generation ?run)) ?new (db_runs db1),
        db_receipts := rs'\<rparr>"
    show "records db db'"
      by (rule records_by_update [where run = ?run and es = es and f = ?new
            and P = "run_at (cc_tenant_id ctx) (er_run_id (aae_expected_run cmd)) (r_version ?run) (r_generation ?run)",
            OF assms(1)])
        (use find_run_Some [OF appended(2)] es le status pass runs in
          \<open>auto simp: db' run_at_def same_run_def run_projected_def\<close>)
  qed
  then show ?thesis by (rule evolves_record)
qed (simp add: evolves_same)

lemma append_agent_events_keys:
  assumes "task_keys_ok db" and "append_agent_events ext ttl ctx cmd now db = Inr (c, db')"
  shows "task_keys_ok db'"
  using assms(2)
proof (cases rule: append_agent_events_cases)
  case (appended run g s rs db1)
  note grew = append_batch_grew [OF appended(1,6), unfolded batch_grew_def]
  then have "task_keys_ok db1"
    using assms(1) by (simp add: tasks_appended_def task_keys_ok_def)
  with appended(7) show ?thesis
    by (elim finish_agent_batch_effect) (simp add: task_keys_ok_def)
qed (use assms(1) in simp)

interpretation agent_batch_cmd: store_command
  "\<lambda>(ext, ttl, ctx, cmd, now). append_agent_events ext ttl ctx cmd now"
  by unfold_locales
     (auto dest: append_agent_events_effect [OF store_okD(1)] append_agent_events_keys [OF store_okD(2)])

section \<open>A batch that may not project leaves the work of the run alone\<close>

lemma keeps_append_events [keeps_intros]:
  "(\<And>e s. keeps g (step e s)) \<Longrightarrow> keeps g (append_events step events s)"
  by (induction events arbitrary: s) (auto intro!: keeps_intros)

lemma keeps_without_projection:
  assumes "\<And>db v. g (db\<lparr>db_events := v\<rparr>) = g db" and "\<And>db v. g (db\<lparr>db_outbox := v\<rparr>) = g db"
    and "\<And>db v. g (db\<lparr>db_agent_receipts := v\<rparr>) = g db"
  shows "keeps g (append_agent_event ext ctx run h now locked False input s)"
proof -
  have projection: "keeps g (apply_agent_event_projection ext t run task event now locked input False s)"
    for t task event s by (auto simp: keeps_def dest: agent_projection_state(2))
  have lock: "keeps g (lock_agent_event_receipt t e i)" for t e i
    by (auto simp: keeps_def txn_iffs)
  have local: "keeps g (append_local_event ext ctx run task now locked False input event s)" for task event s
    unfolding append_local_event_def
    by (intro keeps_bindT keeps_thenT projection; intro keeps_intros; simp add: assms)
  show ?thesis
    unfolding append_agent_event_def
    by (intro keeps_bindT keeps_thenT keeps_case_option local lock; intro keeps_intros; simp add: assms)
qed
end
