(* ===== verification/ToolAttempts.thy ===== *)
theory ToolAttempts
  imports ToolExecution
begin

text \<open>
  What the commands of \<open>ToolExecution\<close> promise: the attempts of an execution are numbered without a
  gap, a preparation opens the first and a retry the next, an outcome closes the open one and is
  recorded once.
\<close>

section \<open>The attempts of an execution\<close>

text \<open>The executions with their attempt counts, and the attempts they name.\<close>

definition tool_counts :: "db \<Rightarrow> (uuid \<times> uuid \<times> int) list" where
  "tool_counts db = map (\<lambda>x. (x_tenant x, x_id x, x_attempts x)) (db_tools db)"

definition tool_tries :: "db \<Rightarrow> (uuid \<times> uuid \<times> int) list" where
  "tool_tries db = map (\<lambda>y. (y_tenant y, y_tool y, y_attempt y)) (db_tool_attempts db)"

definition tries_of :: "uuid \<Rightarrow> uuid \<Rightarrow> (uuid \<times> uuid \<times> int) list \<Rightarrow> int list" where
  "tries_of tenant i tries = map (snd \<circ> snd) (filter (\<lambda>y. fst y = tenant \<and> fst (snd y) = i) tries)"

definition counts_match :: "(uuid \<times> uuid \<times> int) list \<Rightarrow> (uuid \<times> uuid \<times> int) list \<Rightarrow> bool" where
  "counts_match counts tries \<longleftrightarrow> distinct (map (fst \<circ> snd) counts)
     \<and> (\<forall>(tenant, i, n) \<in> set counts. 1 \<le> n \<and> tries_of tenant i tries = [1..n])
     \<and> (\<forall>(tenant, i, a) \<in> set tries. i \<in> fst ` snd ` set counts)"

text \<open>The attempts of every tool execution are numbered from 1 to its attempt count, in order.\<close>

definition tool_log_ok :: "db \<Rightarrow> bool" where
  "tool_log_ok db \<longleftrightarrow> counts_match (tool_counts db) (tool_tries db)"

lemma tool_log_same:
  "tool_log_ok db \<Longrightarrow> tool_counts db' = tool_counts db \<Longrightarrow> tool_tries db' = tool_tries db \<Longrightarrow> tool_log_ok db'"
  by (simp add: tool_log_ok_def)

lemma counts_match_new:
  assumes "counts_match counts tries" and "i \<notin> fst ` snd ` set counts"
  shows "counts_match (counts @ [(tenant, i, 1)]) (tries @ [(tenant, i, 1)])"
proof -
  have none: "tries_of t i tries = []" for t
    using assms by (fastforce simp: counts_match_def tries_of_def filter_empty_conv)
  have old: "tries_of t j (tries @ [(tenant, i, 1)]) = tries_of t j tries" if "(t, j, n) \<in> set counts" for t j n
  proof -
    have "j \<noteq> i" using that assms(2) by force
    then show ?thesis by (simp add: tries_of_def)
  qed
  have new: "tries_of tenant i (tries @ [(tenant, i, 1)]) = [1]"
    using none [of tenant] by (simp add: tries_of_def)
  from assms(1) have c: "distinct (map (fst \<circ> snd) counts)"
      "\<And>t j n. (t, j, n) \<in> set counts \<Longrightarrow> 1 \<le> n \<and> tries_of t j tries = [1..n]"
      "\<And>t j a. (t, j, a) \<in> set tries \<Longrightarrow> j \<in> fst ` snd ` set counts"
    by (auto simp: counts_match_def)
  show ?thesis
    unfolding counts_match_def using assms(2) c(1,3) old new c(2)
    by (auto simp: image_image comp_def)
qed

lemma counts_match_next:
  assumes "counts_match counts tries" and "(tenant, i, n) \<in> set counts"
    and "counts' = map (\<lambda>(t, j, m). if t = tenant \<and> j = i then (t, j, m + 1) else (t, j, m)) counts"
  shows "counts_match counts' (tries @ [(tenant, i, n + 1)])"
proof -
  have ids: "map (fst \<circ> snd) counts' = map (fst \<circ> snd) counts"
    using assms(3) by (induction counts arbitrary: counts') auto
  have images: "fst ` snd ` set counts' = fst ` snd ` set counts"
    using arg_cong [OF ids, of set] by (simp add: image_comp)
  have inj: "(t, m) = (tenant, n)" if "(t, i, m) \<in> set counts" for t m
  proof -
    have "distinct (map (fst \<circ> snd) counts)" using assms(1) by (simp add: counts_match_def)
    from distinct_map_inj [OF this that assms(2)] show ?thesis by simp
  qed
  have known: "1 \<le> m \<and> tries_of t j (tries @ [(tenant, i, n + 1)]) = [1..m]" if "(t, j, m) \<in> set counts'" for t j m
  proof -
    from that assms(3) obtain q where "q \<in> set counts"
      and "(t, j, m) = (\<lambda>(t, j, m). if t = tenant \<and> j = i then (t, j, m + 1) else (t, j, m)) q" by auto
    moreover obtain t' j' k where "q = (t', j', k)" by (rule prod_cases3)
    ultimately have q: "(t, j, k) \<in> set counts" "m = (if t = tenant \<and> j = i then k + 1 else k)"
      by (simp_all split: if_splits)
    show ?thesis
  proof (cases "j = i")
    case True
    with q(1) have "(t, i, k) \<in> set counts" by simp
    from inj [OF this] q(2) True have "t = tenant" "m = n + 1" by auto
    moreover have "1 \<le> n" "tries_of tenant i tries = [1..n]"
      using assms(1,2) by (auto simp: counts_match_def)
    moreover have "[1..n + 1] = [1..n] @ [n + 1]" using \<open>1 \<le> n\<close> upto_rec2 [of 1 "n + 1"] by simp
    ultimately show ?thesis using True by (simp add: tries_of_def)
  next
    case False
    with q have "(t, j, m) \<in> set counts" by simp
    then have "1 \<le> m \<and> tries_of t j tries = [1..m]" using assms(1) by (auto simp: counts_match_def)
    moreover have "tries_of t j (tries @ [(tenant, i, n + 1)]) = tries_of t j tries"
      using False by (simp add: tries_of_def)
    ultimately show ?thesis by simp
  qed
  qed
  have "i \<in> fst ` snd ` set counts" using assms(2) by force
  moreover have "j \<in> fst ` snd ` set counts" if "(t, j, a) \<in> set tries" for t j a
    using assms(1) that by (auto simp: counts_match_def)
  moreover have "distinct (map (fst \<circ> snd) counts')"
    using assms(1) unfolding ids by (simp add: counts_match_def)
  ultimately show ?thesis
    unfolding counts_match_def images using known by auto
qed

lemma prepared_tool_counts:
  assumes "prepare_new_tool ext ctx cmd now locked db = Inr (c, db')"
  shows "tool_counts db' = tool_counts db @ [(cc_tenant_id ctx, ptc_tool_execution_id cmd, 1)]
    \<and> tool_tries db' = tool_tries db @ [(cc_tenant_id ctx, ptc_tool_execution_id cmd, 1)]
    \<and> ptc_tool_execution_id cmd \<notin> fst ` snd ` set (tool_counts db)"
  by (rule prepare_new_tool_effect [OF assms])
     (auto simp: tool_counts_def tool_tries_def open_tool_attempt_def)

lemma tool_log_receipts [simp]:
  "tool_counts (db\<lparr>db_receipts := rs\<rparr>) = tool_counts db" "tool_tries (db\<lparr>db_receipts := rs\<rparr>) = tool_tries db"
  "tool_log_ok (db\<lparr>db_receipts := rs\<rparr>) = tool_log_ok db"
  by (simp_all add: tool_log_ok_def tool_counts_def tool_tries_def)

lemma prepare_tool_log:
  assumes "tool_log_ok db" and "prepare_tool_execution ext ttl ctx cmd now db = Inr (c, db')"
  shows "tool_log_ok db'"
  using assms(2)
proof (cases rule: prepare_tool_execution_cases)
  case (prepared locked rs)
  from prepared_tool_counts [OF prepared(5)] show ?thesis
    using counts_match_new [OF assms(1) [unfolded tool_log_ok_def]] by (simp add: tool_log_ok_def)
qed (use assms(1) in simp_all)

lemma retried_tool_counts:
  assumes "tool_log_ok db" and "tool_of tenant (btr_tool_execution_id cmd) x" and "awaiting_retry n x"
    and "x \<in> set (db_tools db)"
  shows "map (\<lambda>x. (x_tenant x, x_id x, x_attempts x))
      (sql_update (retry_target tenant cmd x) (retried_tool (x_attempts x + 1) now) (db_tools db))
    = map (\<lambda>(t, j, m). if t = tenant \<and> j = btr_tool_execution_id cmd then (t, j, m + 1) else (t, j, m))
        (tool_counts db)"
proof -
  have "distinct (map x_id (db_tools db))"
    using assms(1) by (simp add: tool_log_ok_def counts_match_def tool_counts_def comp_def)
  then have same: "v = x" if "v \<in> set (db_tools db)" "tool_of tenant (btr_tool_execution_id cmd) v" for v
    using that assms(2,4) by (auto simp: tool_of_def dest: distinct_map_inj)
  have "retry_target tenant cmd x v \<longleftrightarrow> tool_of tenant (btr_tool_execution_id cmd) v" if "v \<in> set (db_tools db)" for v
    using same [OF that] assms(3) by (auto simp: retry_target_def awaiting_retry_def)
  then show ?thesis
    using same by (auto simp: tool_counts_def sql_update_def retried_tool_def tool_of_def)
qed

lemma retry_tool_counts:
  assumes "start_tool_retry ctx cmd now locked x db = Inr (c, db')"
    and "tool_log_ok db" and "tool_of (cc_tenant_id ctx) (btr_tool_execution_id cmd) x" and "awaiting_retry n x"
    and "x \<in> set (db_tools db)"
  shows "tool_counts db' = map (\<lambda>(t, j, m). if t = cc_tenant_id ctx \<and> j = btr_tool_execution_id cmd
        then (t, j, m + 1) else (t, j, m)) (tool_counts db)"
    and "tool_tries db' = tool_tries db @ [(cc_tenant_id ctx, btr_tool_execution_id cmd, x_attempts x + 1)]"
proof -
  from assms(1) obtain rs result where "db_tools db' = sql_update (retry_target (cc_tenant_id ctx) cmd x)
        (retried_tool (x_attempts x + 1) now) (db_tools db)"
      "db_tool_attempts db' = db_tool_attempts db @ [next_tool_attempt (cc_tenant_id ctx) cmd x now]"
    by (rule start_tool_retry_effect) simp
  with retried_tool_counts [OF assms(2-5)]
  show "tool_counts db' = map (\<lambda>(t, j, m). if t = cc_tenant_id ctx \<and> j = btr_tool_execution_id cmd
        then (t, j, m + 1) else (t, j, m)) (tool_counts db)"
    and "tool_tries db' = tool_tries db @ [(cc_tenant_id ctx, btr_tool_execution_id cmd, x_attempts x + 1)]"
    by (simp_all add: tool_counts_def [of db'] tool_tries_def next_tool_attempt_def open_tool_attempt_def)
qed

lemma tool_retry_log:
  assumes "tool_log_ok db" and "begin_tool_retry_attempt parse_uuid ttl ctx cmd now db = Inr (c, db')"
  shows "tool_log_ok db'"
  using assms(2)
proof (cases rule: begin_tool_retry_attempt_cases)
  case (started locked x rs)
  from find_Some_in [OF started(6)] have x: "x \<in> set (db_tools (db\<lparr>db_receipts := rs\<rparr>))"
      "tool_of (cc_tenant_id ctx) (btr_tool_execution_id cmd) x" by simp_all
  then have known: "(cc_tenant_id ctx, btr_tool_execution_id cmd, x_attempts x) \<in> set (tool_counts db)"
    by (force simp: tool_counts_def tool_of_def)
  have ok: "tool_log_ok (db\<lparr>db_receipts := rs\<rparr>)" using assms(1) by simp
  note counts = retry_tool_counts [OF started(9) ok x(2) started(8) x(1)]
  from counts_match_next [OF assms(1) [unfolded tool_log_ok_def] known refl] counts
  show ?thesis by (simp add: tool_log_ok_def)
qed (use assms(1) in simp)

lemma tool_outcome_log:
  assumes "tool_log_ok db" and "record_tool_outcome ext ttl ctx cmd now db = Inr (c, db')"
  shows "tool_log_ok db'"
  using assms(2)
proof (cases rule: record_tool_outcome_cases)
  case (recorded p run task x rs)
  from recorded(10) show ?thesis
    by (rule tool_outcome_effect) (rule tool_log_same [OF assms(1)],
      simp_all add: tool_counts_def tool_tries_def map_sql_update_same projected_tool_def finished_tool_attempt_def)
qed (use assms(1) in simp)


section \<open>A preparation opens the first attempt\<close>

text \<open>
  A tool execution is prepared only by the worker that holds the live lease of a task of a run
  that is not over, and only if no execution has its idempotency key. Then exactly one execution is
  added, executing, with exactly one attempt, open and numbered 1; tasks and leases do not change.
  A key that is in use answers with the execution that has it, which asks for the same request, and
  nothing but the receipt is written.
\<close>

theorem prepare_tool_execution_opens_attempt:
  assumes "prepare_tool_execution ext ttl ctx cmd now db = Inr (c, db')"
    and "same_key = (\<lambda>x. x_tenant x = cc_tenant_id ctx \<and> x_scope x = ptc_idempotency_scope cmd
           \<and> x_key x = ptc_idempotency_key cmd)"
  shows "(disposition c = Applied \<longrightarrow> (\<exists>run \<in> set (db_runs db). \<exists>task \<in> set (db_tasks db). \<exists>x y.
      r_id run = er_run_id (ptc_expected_run cmd) \<and> \<not> run_terminal (r_status run)
      \<and> t_id task = lp_task_id (ptc_lease cmd) \<and> t_run task = r_id run \<and> t_status task = TaskLeased
      \<and> t_lease_token task = Some (lp_token (ptc_lease cmd)) \<and> t_generation task = r_generation run
      \<and> (\<forall>v \<in> set (db_tools db). \<not> same_key v \<and> x_id v \<noteq> x_id x)
      \<and> db_tools db' = db_tools db @ [x] \<and> same_key x \<and> x_run x = r_id run \<and> x_task x = t_id task
      \<and> x_status x = ToolExecuting \<and> x_attempts x = 1 \<and> x_hash x = ptc_request_hash cmd
      \<and> db_tool_attempts db' = db_tool_attempts db @ [y] \<and> y_tool y = x_id x \<and> y_attempt y = 1
      \<and> y_finished_at y = None
      \<and> (db_tasks db', db_attempts db') = (db_tasks db, db_attempts db)))
   \<and> (disposition c = NoOp \<longrightarrow> (\<exists>rs. db' = db\<lparr>db_receipts := rs\<rparr>)
      \<and> (\<exists>x \<in> set (db_tools db). x_scope x = ptc_idempotency_scope cmd \<and> x_key x = ptc_idempotency_key cmd
           \<and> x_hash x = ptc_request_hash cmd \<and> x_id x = tes_tool_execution_id (committed_value c)))"
  using assms(1)
proof (cases rule: prepare_tool_execution_cases)
  case (replayed outcome event)
  then have "disposition c = Duplicate" by (auto simp: duplicate_tool_def result_iffs)
  then show ?thesis by simp
next
  case (existing locked x rs)
  then show ?thesis by (auto simp: validate_existing_tool_def result_iffs split: if_splits)
next
  case (prepared locked rs)
  note fences = prepared(3) [unfolded validate_worker_fences_Inr]
  from prepared(5) obtain request where "disposition c = Applied"
      "\<forall>x \<in> set (db_tools db). x_id x \<noteq> ptc_tool_execution_id cmd"
      "db_tools db' = db_tools db @ [prepared_tool (cc_tenant_id ctx) cmd locked request now]"
      "db_tool_attempts db' = db_tool_attempts db @ [open_tool_attempt (ptc_tool_attempt_id cmd) (cc_tenant_id ctx)
             (ptc_tool_execution_id cmd) (r_id (lw_run locked)) 1 now]"
      "(db_tasks db', db_attempts db') = (db_tasks db, db_attempts db)"
    by (rule prepare_tool_effect) simp
  with prepared(4) fences find_run_Some [OF prepared(1)] find_Some_in [OF prepared(2) [unfolded find_task_def]]
  show ?thesis unfolding assms(2)
    by (intro conjI impI bexI [of _ "lw_run locked"] bexI [of _ "lw_task locked"] exI)
       (auto simp: prepared_tool_def open_tool_attempt_def)
qed

definition sample_prepare_tool :: prepare_tool_command where
  "sample_prepare_tool = \<lparr> ptc_expected_run = sample_expected, ptc_lease = sample_proof,
     ptc_tool_execution_id = 30, ptc_tool_attempt_id = 31, ptc_stage_execution_id = None,
     ptc_tool_call_id = ''call'', ptc_tool_name = ''tool'', ptc_idempotency_scope = ''s'',
     ptc_idempotency_key = ''k'', ptc_request_hash = 5, ptc_request = ''{}'', ptc_prepared_event_id = 47 \<rparr>"

lemmas prepare_tool_eval = prepare_tool_execution_def validate_prepare_tool_def prepare_new_tool_def
  lock_worker_task_def validate_worker_fences_def expectation_changed_def lock_tool_by_idempotency_def
  insert_tool_def insert_tool_attempt_def tool_attempt_checks_def prepared_tool_def open_tool_attempt_def
  advance_run_event_cursor_def run_cursor_advanced_def execution_event_def run_at_def i64_try_from_def Let_def

theorem prepare_tool_execution_opens_attempt_witness:
  "\<exists>c db'. prepare_tool_execution sample_ext 1000 (sample_context 78 ''p1'') sample_prepare_tool 110
      sample_leased_db = Inr (c, db')
    \<and> (\<exists>x y. db_tools db' = db_tools sample_leased_db @ [x] \<and> db_tool_attempts db' = [y] \<and> y_tool y = x_id x)"
proof -
  have "\<exists>c db'. prepare_tool_execution sample_ext 1000 (sample_context 78 ''p1'') sample_prepare_tool 110
      sample_leased_db = Inr (c, db') \<and> disposition c = Applied"
    by (simp add: sample_prepare_tool_def sample_defs status_sets prepare_tool_eval create_eval txn_eval)
  then obtain c db' where run: "prepare_tool_execution sample_ext 1000 (sample_context 78 ''p1'')
      sample_prepare_tool 110 sample_leased_db = Inr (c, db')" and d: "disposition c = Applied" by blast
  have "db_tool_attempts sample_leased_db = []" by (simp add: sample_defs)
  with prepare_tool_execution_opens_attempt [OF run refl] d run show ?thesis by auto
qed


section \<open>A retry opens the next attempt\<close>

text \<open>
  C23: a retry of a tool execution is started only from a leased reconciliation task that the event of
  this execution's due retry created, while the execution still awaits the retry after the expected
  attempt. It opens the attempt with the next number, the execution is executing with that attempt
  count, and the recovery task is done, in the same step; no other task changes.
\<close>

theorem begin_tool_retry_starts_next_attempt:
  assumes "store_ok db" and "begin_tool_retry_attempt parse_uuid ttl ctx cmd now db = Inr (c, db')"
    and "disposition c = Applied"
  shows "\<exists>run \<in> set (db_runs db). \<exists>task \<in> set (db_tasks db). \<exists>x \<in> set (db_tools db). \<exists>e \<in> set (db_events db).
      \<exists>x' \<in> set (db_tools db'). \<exists>y result.
      r_id run = er_run_id (btr_expected_run cmd) \<and> \<not> run_terminal (r_status run)
      \<and> t_id task = lp_task_id (btr_lease cmd) \<and> t_run task = r_id run \<and> t_status task = TaskLeased
      \<and> t_lease_token task = Some (lp_token (btr_lease cmd)) \<and> t_generation task = r_generation run
      \<and> t_kind task = KReconcile \<and> e_id e = t_created_event task \<and> e_type e = ''tool.retry_due''
      \<and> x_id x = btr_tool_execution_id cmd \<and> x_run x = r_id run
      \<and> awaiting_retry (int (btr_expected_attempt cmd)) x
      \<and> x_id x' = x_id x \<and> x_status x' = ToolExecuting \<and> x_attempts x' = x_attempts x + 1
      \<and> db_tool_attempts db' = db_tool_attempts db @ [y] \<and> y_tool y = x_id x
      \<and> y_attempt y = x_attempts x + 1 \<and> y_finished_at y = None
      \<and> db_tasks db' = map (\<lambda>t. if t = task then recovered_task result now task else t) (db_tasks db)"
  using assms(2)
proof (cases rule: begin_tool_retry_attempt_cases)
  case (replayed outcome event)
  then have "disposition c = Duplicate" by (auto simp: duplicate_tool_def result_iffs)
  then show ?thesis using assms(3) by simp
next
  case (started locked x rs)
  let ?task = "lw_task locked"
  note fences = started(4) [unfolded validate_worker_fences_Inr]
  note run = find_run_Some [OF started(2)]
  from find_Some_in [OF started(3) [unfolded find_task_def]]
  have task: "?task \<in> set (db_tasks db)" "t_tenant ?task = cc_tenant_id ctx" "t_id ?task = lp_task_id (btr_lease cmd)"
    by simp_all
  from find_Some_in [OF started(6)]
  have x: "x \<in> set (db_tools db)" "tool_of (cc_tenant_id ctx) (btr_tool_execution_id cmd) x" by simp_all
  from started(5) obtain t e where t: "find (task_in_run (cc_tenant_id ctx) (er_run_id (btr_expected_run cmd))
        (lp_task_id (btr_lease cmd))) (db_tasks db) = Some t" and kind: "t_kind t = KReconcile"
      and e: "e \<in> set (db_events db)" "e_id e = t_created_event t" "e_type e = ''tool.retry_due''"
    by (auto simp: txn_iffs dest!: find_Some_in [where xs = "db_events db"])
  from find_Some_in [OF t] task have "t = ?task"
    using store_okD(2) [OF assms(1)] by (auto simp: task_keys_ok_def task_in_run_def dest: distinct_map_inj)
  note origin = kind [unfolded this] e(2) [unfolded this]
  from started(9) obtain result where eff:
      "db_tools db' = sql_update (retry_target (cc_tenant_id ctx) cmd x) (retried_tool (x_attempts x + 1) now) (db_tools db)"
      "db_tool_attempts db' = db_tool_attempts db @ [next_tool_attempt (cc_tenant_id ctx) cmd x now]"
      "db_tasks db' = sql_update (leased_try (cc_tenant_id ctx) ?task) (recovered_task result now) (db_tasks db)"
    by (rule tool_retry_effect) simp
  have tasks: "db_tasks db' = map (\<lambda>t. if t = ?task then recovered_task result now ?task else t) (db_tasks db)"
    unfolding eff(3)
    by (rule sql_update_one_task [OF store_okD(2) [OF assms(1)] task(1)])
       (use task fences in \<open>simp_all add: leased_try_def\<close>)
  have "retried_tool (x_attempts x + 1) now x \<in> set (db_tools db')"
    unfolding eff(1) set_sql_update using x started(8)
    by (intro image_eqI [of _ _ x]) (simp_all add: retry_target_def awaiting_retry_def)
  with run task x fences origin e(1,3) started(7,8) tasks eff(2) show ?thesis
    by (intro bexI [of _ "lw_run locked"] bexI [of _ ?task] bexI [of _ x] bexI [of _ e]
          bexI [of _ "retried_tool (x_attempts x + 1) now x"] exI [of _ "next_tool_attempt (cc_tenant_id ctx) cmd x now"]
          exI [of _ result])
       (simp_all add: retried_tool_def next_tool_attempt_def open_tool_attempt_def tool_of_def)
qed

lemma retry_origin_eval [txn_eval]:
  "bindT (validate_retry_task_origin parse_uuid tenant run task expected execution) k db =
     (case validate_retry_task_origin parse_uuid tenant run task expected execution db of
        Inl e \<Rightarrow> Inl e | Inr (u, db1) \<Rightarrow> k u db1)"
  by (simp add: bindT_def)

text \<open>A leased recovery task of a due retry.\<close>

definition sample_retry_lease_db :: db where
  "sample_retry_lease_db = sample_leased_db\<lparr>
     db_events := [sample_event\<lparr>e_type := ''tool.retry_due'', e_payload := JObject [(''execution_id'', JString ''x'')]\<rparr>],
     db_tasks := [sample_leased_task\<lparr>t_kind := KReconcile\<rparr>],
     db_tools := [sample_tool\<lparr>x_status := ToolReconciling, x_retry_at := None,
       x_recovery_action := Some ''retry_same_request''\<rparr>]\<rparr>"

definition sample_begin_retry :: begin_tool_retry_command where
  "sample_begin_retry = \<lparr> btr_expected_run = sample_expected, btr_lease = sample_proof,
     btr_tool_execution_id = 80, btr_expected_attempt = 1, btr_tool_attempt_id = 32, btr_started_event_id = 48 \<rparr>"

lemmas tool_retry_eval = begin_tool_retry_attempt_def begin_tool_retry_shape_is_valid_def start_tool_retry_def
  lock_worker_task_def validate_worker_fences_def expectation_changed_def validate_retry_task_origin_def
  task_in_run_def value_get_def lock_tool_by_id_def tool_of_def awaiting_retry_def retry_target_def
  retried_tool_def insert_tool_attempt_def tool_attempt_checks_def open_tool_attempt_def
  complete_recovery_task_def recovered_task_def open_attempt_def
  advance_run_event_cursor_def run_cursor_advanced_def execution_event_def run_at_def i64_try_from_def Let_def

theorem begin_tool_retry_starts_next_attempt_witness:
  "\<exists>c db'. begin_tool_retry_attempt (\<lambda>_. Some 80) 1000 (sample_context 79 ''q1'') sample_begin_retry 110
      sample_retry_lease_db = Inr (c, db') \<and> (\<exists>x' \<in> set (db_tools db'). x_attempts x' = 2)"
proof -
  have "\<exists>c db'. begin_tool_retry_attempt (\<lambda>_. Some 80) 1000 (sample_context 79 ''q1'') sample_begin_retry 110
      sample_retry_lease_db = Inr (c, db') \<and> disposition c = Applied"
    by (simp add: sample_begin_retry_def sample_retry_lease_db_def sample_tool_def sample_defs status_sets
        tool_retry_eval create_eval txn_eval)
  then obtain c db' where run: "begin_tool_retry_attempt (\<lambda>_. Some 80) 1000 (sample_context 79 ''q1'')
      sample_begin_retry 110 sample_retry_lease_db = Inr (c, db')" and d: "disposition c = Applied" by blast
  have ok: "store_ok sample_retry_lease_db"
    by (simp add: sample_retry_lease_db_def sample_defs store_ok_def runs_ok_def run_keys_ok_def run_checks_def
        revision_checks_def task_keys_ok_def status_sets)
  have "\<forall>x \<in> set (db_tools sample_retry_lease_db). x_attempts x = 1"
    by (simp add: sample_retry_lease_db_def sample_tool_def)
  with begin_tool_retry_starts_next_attempt [OF ok run d] have "\<exists>x' \<in> set (db_tools db'). x_attempts x' = 2"
    by fastforce
  with run show ?thesis by blast
qed


section \<open>An outcome closes the open attempt\<close>

lemma project_tool_status: "project_tool_outcome ext outcome = Inr p \<Longrightarrow> pto_status p = projected_status outcome"
  by (cases outcome)
     (auto simp: project_tool_outcome_def project_failed_tool_def projected_status_def failed_tool_status_def
        result_iffs split: execution_retry_class.splits simp del: not_None_eq not_Some_eq split: if_split_asm)

lemma sql_count_updated_0: "(\<And>r. \<not> P (f r)) \<Longrightarrow> sql_count P (sql_update P f rows) = 0"
  by (auto simp: sql_count_0_iff set_sql_update)

lemma closed_attempts:
  "sql_count (unfinished_tool_attempt tenant tool n)
     (sql_update (unfinished_tool_attempt tenant tool n) (finished_tool_attempt p cmd ref now) ys) = 0"
  by (rule sql_count_updated_0) (simp add: unfinished_tool_attempt_def finished_tool_attempt_def)

text \<open>The attempt that a preparation opened, and its outcome.\<close>

definition sample_executing_db :: db where
  "sample_executing_db = sample_leased_db\<lparr>db_tools := [sample_tool\<lparr>x_status := ToolExecuting, x_retry_at := None\<rparr>],
     db_tool_attempts := [open_tool_attempt 31 7 80 1 1 20]\<rparr>"

definition sample_outcome :: "tool_recorded_outcome \<Rightarrow> record_tool_command" where
  "sample_outcome outcome = \<lparr> rto_expected_run = sample_expected, rto_task_id = 2,
     rto_execution_generation = 0, rto_tool_execution_id = 80, rto_expected_attempt = 1,
     rto_outcome = outcome, rto_outcome_event_id = 49, rto_response_digest = None,
     rto_remote_request_id = None \<rparr>"

lemmas tool_outcome_eval = record_tool_outcome_def project_tool_outcome_def lock_tool_by_id_def tool_of_def
  record_locked_tool_def persisted_ref_def unfinished_tool_attempt_def finished_tool_attempt_def
  open_tool_attempt_def tool_attempt_checks_def awaits_outcome_def projected_tool_def tool_outcome_event_def
  advance_run_event_cursor_def run_cursor_advanced_def execution_event_def run_at_def i64_try_from_def Let_def

lemma sample_accepted_recorded:
  "\<exists>c db'. record_tool_outcome sample_ext 1000 (sample_context 83 ''o1'') (sample_outcome (ToolAcceptedOutcome ''ref''))
      110 sample_executing_db = Inr (c, db') \<and> disposition c = Applied"
  by (simp add: sample_outcome_def sample_executing_db_def sample_tool_def sample_defs status_sets
      tool_outcome_eval create_eval txn_eval)

text \<open>
  After an outcome of a tool execution was recorded, the next command with an outcome for the same
  execution is not applied when nothing else happened in between, whatever the first outcome was;
  also after one that leaves the execution executing, as an accepted call does.
\<close>

theorem tool_outcome_recorded_once:
  assumes "record_tool_outcome ext ttl ctx cmd now db = Inr (c, db')" and "disposition c = Applied"
    and "record_tool_outcome ext2 ttl2 ctx2 cmd2 now2 db' = Inr (c2, db2)"
    and "cc_tenant_id ctx2 = cc_tenant_id ctx"
    and "rto_tool_execution_id cmd2 = rto_tool_execution_id cmd"
  shows "disposition c2 = Duplicate \<and> db2 = db'"
  using assms(3)
proof (cases rule: record_tool_outcome_cases)
  case (replayed outcome event)
  then show ?thesis by (auto simp: duplicate_tool_def result_iffs)
next
  case again: (recorded p2 run2 task2 x2 rs2)
  from assms(1) show ?thesis
  proof (cases rule: record_tool_outcome_cases)
    case (replayed outcome event)
    then have "disposition c = Duplicate" by (auto simp: duplicate_tool_def result_iffs)
    then show ?thesis using assms(2) by simp
  next
    case (recorded p run task x rs)
    let ?tenant = "cc_tenant_id ctx" let ?tool = "rto_tool_execution_id cmd"
    from recorded(10) have eff: "db_tool_attempts db' = sql_update (unfinished_tool_attempt ?tenant ?tool (x_attempts x))
          (finished_tool_attempt p cmd (persisted_ref p x) now) (db_tool_attempts db)"
        "db_tools db' = sql_update (awaits_outcome ?tenant ?tool)
            (projected_tool p (persisted_ref p x) now) (db_tools db)"
      by (rule tool_outcome_effect, simp)+
    have "find (tool_of ?tenant ?tool) (db_tools db') = map_option (\<lambda>x1. if awaits_outcome ?tenant ?tool x1
        then projected_tool p (persisted_ref p x) now x1 else x1) (find (tool_of ?tenant ?tool) (db_tools db))"
      unfolding eff(2) by (rule find_sql_update) (simp add: tool_of_def projected_tool_def)
    then have "x_attempts x2 = x_attempts x"
      using recorded(5) again(5) assms(4,5) by (auto simp: projected_tool_def)
    with again(10) assms(4,5) have "sql_count (unfinished_tool_attempt ?tenant ?tool (x_attempts x))
        (db_tool_attempts db') = 1"
      by (auto elim!: tool_outcome_effect)
    then show ?thesis by (simp add: eff(1) closed_attempts)
  qed
qed

section \<open>The projection fits the tables\<close>

definition retry_class_known :: "string option \<Rightarrow> bool" where
  "retry_class_known c \<longleftrightarrow> c = None \<or> c \<in> Some ` retry_class_text `
      {RetryNever, RetrySameRequestBackoff, RetryReconnectAndResume, RetryQueryOutcome, RetryManualReview}"

lemma project_failed_fits:
  assumes "project_failed_tool error_code retry retry_at = Inr p"
  shows "(pto_status p = ToolRetryScheduled \<longleftrightarrow> pto_retry_at p \<noteq> None) \<and> pto_error_code p \<noteq> Some []
    \<and> pto_status p \<noteq> ToolOutcomeUnknown \<and> pto_external_ref p = None
    \<and> pto_attempt_outcome p = ''failed'' \<and> retry_class_known (pto_retry_class p)"
proof -
  from assms have p: "error_code \<noteq> []" "failed_tool_status retry = ToolRetryScheduled \<longleftrightarrow> retry_at \<noteq> None"
      "p = \<lparr> pto_status = failed_tool_status retry, pto_result = None,
       pto_error_code = Some error_code, pto_retry_class = Some (retry_class_text retry),
       pto_recovery_action = failure_recovery_action retry, pto_external_ref = None,
       pto_retry_at = retry_at, pto_attempt_outcome = ''failed'',
       pto_event_type = ''tool.execution_failed'' \<rparr>"
    by (simp_all only: project_failed_tool_def split: if_split_asm) simp_all
  moreover have "failed_tool_status retry \<noteq> ToolOutcomeUnknown" by (cases retry) (simp_all add: failed_tool_status_def)
  moreover have "retry_class_known (Some (retry_class_text retry))" by (cases retry) (simp_all add: retry_class_known_def)
  ultimately show ?thesis by simp
qed

lemma project_tool_fits:
  assumes "project_tool_outcome ext outcome = Inr p"
  shows "(pto_status p = ToolRetryScheduled \<longleftrightarrow> pto_retry_at p \<noteq> None) \<and> pto_error_code p \<noteq> Some []
    \<and> (pto_status p = ToolOutcomeUnknown \<longrightarrow> pto_recovery_action p \<noteq> None \<and> pto_recovery_action p \<noteq> Some [])
    \<and> pto_external_ref p \<noteq> Some [] \<and> retry_class_known (pto_retry_class p)
    \<and> pto_attempt_outcome p \<in> {''completed'', ''accepted'', ''uncertain'', ''failed''}"
proof (cases outcome)
  case (ToolFailedOutcome error_code retry retry_at)
  with assms have "project_failed_tool error_code retry retry_at = Inr p" by (simp add: project_tool_outcome_def)
  from project_failed_fits [OF this] show ?thesis by simp
qed (use assms in \<open>auto simp: project_tool_outcome_def result_iffs retry_class_known_def retry_class_text_def
       split: if_split_asm\<close>)

text \<open>
  The status the store projects an outcome to is the one the command itself computes from it, and
  what is written passes the checks of the tables: from an execution row that passes them, and an
  attempt row with a positive number, no recorded outcome is refused by a constraint.
\<close>

theorem projected_outcome_fits_tables:
  assumes "project_tool_outcome ext outcome = Inr p" and "tool_checks x" and "1 \<le> y_attempt y"
    and "rto_remote_request_id cmd \<noteq> Some []"
  shows "pto_status p = projected_status outcome
    \<and> tool_checks (projected_tool p (persisted_ref p x) now x)
    \<and> tool_attempt_checks (finished_tool_attempt p cmd (persisted_ref p x) now y)"
proof -
  have status: "pto_status p = projected_status outcome" by (rule project_tool_status [OF assms(1)])
  note fits = project_tool_fits [OF assms(1)]
  have ref: "persisted_ref p x \<noteq> Some []"
    using fits assms(2) by (cases "pto_external_ref p") (simp_all add: persisted_ref_def tool_checks_def)
  have "tool_checks (projected_tool p (persisted_ref p x) now x)"
    using fits ref assms(2) unfolding tool_checks_def projected_tool_def by simp
  moreover have "tool_attempt_checks (finished_tool_attempt p cmd (persisted_ref p x) now y)"
    using fits ref assms(3,4) unfolding tool_attempt_checks_def finished_tool_attempt_def retry_class_known_def
    by simp
  ultimately show ?thesis using status by simp
qed

theorem projected_outcome_fits_tables_witness:
  "\<exists>p. project_tool_outcome sample_ext (ToolFailedOutcome ''timeout'' RetrySameRequestBackoff (Some 500)) = Inr p
    \<and> tool_checks (projected_tool p (persisted_ref p sample_tool) 110 sample_tool)"
proof -
  obtain p where p: "project_tool_outcome sample_ext (ToolFailedOutcome ''timeout'' RetrySameRequestBackoff (Some 500))
      = Inr p"
    by (simp add: project_tool_outcome_def project_failed_tool_def failed_tool_status_def)
  have "tool_checks sample_tool" by (simp add: tool_checks_def sample_tool_def status_sets)
  from projected_outcome_fits_tables [OF p this, where y = "open_tool_attempt 31 7 80 1 1 20" and now = 110
      and cmd = "sample_outcome (ToolCompletedOutcome ''{}'')"] p
  show ?thesis by (auto simp: open_tool_attempt_def sample_outcome_def)
qed

section \<open>The outcome that is awaited\<close>

text \<open>The call whose outcome is awaited: its run, its task, the execution and its one open attempt.\<close>

definition outcome_awaited ::
  "command_context \<Rightarrow> record_tool_command \<Rightarrow> run_row \<Rightarrow> tool_row \<Rightarrow> db \<Rightarrow> bool" where
  "outcome_awaited ctx cmd run x db \<longleftrightarrow>
     run \<in> set (db_runs db) \<and> r_tenant run = cc_tenant_id ctx \<and> r_id run = er_run_id (rto_expected_run cmd)
     \<and> (\<exists>task \<in> set (db_tasks db). t_tenant task = cc_tenant_id ctx \<and> t_id task = rto_task_id cmd
          \<and> t_run task = r_id run)
     \<and> x \<in> set (db_tools db) \<and> x_tenant x = cc_tenant_id ctx \<and> x_id x = rto_tool_execution_id cmd
     \<and> x_run x = r_id run \<and> x_task x = rto_task_id cmd
     \<and> x_attempts x = int (rto_expected_attempt cmd) \<and> x_status x \<in> {ToolExecuting, ToolReconciling}
     \<and> sql_count (unfinished_tool_attempt (cc_tenant_id ctx) (rto_tool_execution_id cmd)
          (int (rto_expected_attempt cmd))) (db_tool_attempts db) = 1"

text \<open>
  The tables hold what their keys and checks keep, no counter of a run is at the end of its range, and
  the next sequence number of a run is not taken.
\<close>

definition tables_sound :: "db \<Rightarrow> bool" where
  "tables_sound db \<longleftrightarrow> store_ok db \<and> distinct (map x_id (db_tools db))
     \<and> (\<forall>x \<in> set (db_tools db). tool_checks x) \<and> (\<forall>y \<in> set (db_tool_attempts db). 1 \<le> y_attempt y)
     \<and> (\<forall>r \<in> set (db_runs db). r_version r < i64_max \<and> r_next_seq r < i64_max
          \<and> (\<forall>e \<in> set (db_events db). e_tenant e = r_tenant r \<and> e_run e = r_id r \<longrightarrow> e_seq e < r_next_seq r))"

text \<open>The command is new: neither its key nor its ids are known, and its receipt can be dated.\<close>

definition command_new :: "command_context \<Rightarrow> uuid \<Rightarrow> nat \<Rightarrow> micros \<Rightarrow> db \<Rightarrow> bool" where
  "command_new ctx event ttl now db \<longleftrightarrow> int ttl \<le> i64_max \<and> now + int ttl \<le> i64_max
     \<and> cc_actor_ref ctx \<noteq> [] \<and> cc_idempotency_key ctx \<noteq> []
     \<and> (\<forall>r \<in> set (db_receipts db). \<not> receipt_of ctx r \<and> p_id r \<noteq> cc_command_id ctx)
     \<and> (\<forall>e \<in> set (db_events db). e_id e \<noteq> event) \<and> (\<forall>m \<in> set (db_outbox db). o_id m \<noteq> event)"

lemma with_receipt_new:
  assumes "command_new ctx event ttl now db"
  shows "with_receipt ctx now ttl f body db
     = body (db\<lparr>db_receipts := db_receipts db @ [new_receipt ctx now (int ttl)]\<rparr>)"
proof -
  have none: "find (receipt_of ctx) (db_receipts db) = None"
      "\<not> list_ex (\<lambda>r. p_id r = cc_command_id ctx) (db_receipts db)"
    using assms by (auto simp: command_new_def find_None_iff list_ex_iff)
  have range: "int ttl \<le> i64_max" "now + int ttl \<le> i64_max" using assms by (simp_all add: command_new_def)
  show ?thesis unfolding with_receipt_def acquire_eval [OF range] by (simp add: none)
qed

lemma finish_receipt_new:
  assumes "command_new ctx event ttl now db"
    and "db_receipts d = db_receipts db @ [new_receipt ctx now (int ttl)]"
  shows "finish_receipt ctx kind outcome ev resource d = Inr ((), d\<lparr>db_receipts :=
     sql_update (\<lambda>r. receipt_of ctx r \<and> p_kind r = ReceiptUnknown)
       (\<lambda>r. r\<lparr>p_kind := kind, p_outcome := outcome, p_event := ev, p_resource := resource\<rparr>) (db_receipts d)\<rparr>)"
proof -
  have "filter (\<lambda>r. receipt_of ctx r \<and> p_kind r = ReceiptUnknown) (db_receipts db) = []"
    using assms(1) by (auto simp: command_new_def filter_empty_conv)
  then have "sql_count (\<lambda>r. receipt_of ctx r \<and> p_kind r = ReceiptUnknown) (db_receipts d) = 1"
    unfolding assms(2) by (simp add: sql_count_def new_receipt_def receipt_of_def)
  then show ?thesis by (simp add: finish_receipt_def txn_steps update_receipts_def)
qed

lemma outcome_rows_pass:
  assumes "project_tool_outcome ext outcome = Inr p" and "tables_sound db" and "x \<in> set (db_tools db)"
    and "rto_remote_request_id cmd \<noteq> Some []"
  shows "updates_pass tool_attempt_checks P (finished_tool_attempt p cmd (persisted_ref p x) now) (db_tool_attempts db)"
    and "awaits_outcome tenant i x \<Longrightarrow>
      updates_pass tool_checks (awaits_outcome tenant i) (projected_tool p (persisted_ref p x) now) (db_tools db)"
proof -
  note fits = projected_outcome_fits_tables [OF assms(1)]
  show "updates_pass tool_attempt_checks P (finished_tool_attempt p cmd (persisted_ref p x) now) (db_tool_attempts db)"
    using fits [of x _ cmd now] assms(2-4) by (auto simp: updates_pass_iff tables_sound_def)
  assume x: "awaits_outcome tenant i x"
  have "y = x" if "y \<in> set (db_tools db)" "awaits_outcome tenant i y" for y
    using that x assms(2,3) by (auto simp: tables_sound_def awaits_outcome_def tool_of_def dest: distinct_map_inj)
  moreover have "tool_checks x" using assms(2,3) by (simp add: tables_sound_def)
  ultimately show "updates_pass tool_checks (awaits_outcome tenant i) (projected_tool p (persisted_ref p x) now) (db_tools db)"
    using fits [of x "open_tool_attempt 0 0 0 0 1 0" cmd now] assms(4)
    by (auto simp: updates_pass_iff open_tool_attempt_def)
qed

lemma outcome_rows_unique:
  assumes "outcome_awaited ctx cmd run x db" and "tables_sound db"
  shows "find (tool_of (cc_tenant_id ctx) (rto_tool_execution_id cmd)) (db_tools db) = Some x"
    and "find_run (cc_tenant_id ctx) (er_run_id (rto_expected_run cmd)) db = Some run"
    and "sql_count (awaits_outcome (cc_tenant_id ctx) (rto_tool_execution_id cmd)) (db_tools db) = 1"
    and "sql_count (run_at (cc_tenant_id ctx) (er_run_id (rto_expected_run cmd)) (r_version run) (r_generation run))
           (db_runs db) = 1"
proof -
  let ?tool = "tool_of (cc_tenant_id ctx) (rto_tool_execution_id cmd)"
  have x: "x \<in> set (db_tools db)" "?tool x" "x_status x \<in> {ToolExecuting, ToolReconciling}"
    and run: "run \<in> set (db_runs db)" "r_tenant run = cc_tenant_id ctx" "r_id run = er_run_id (rto_expected_run cmd)"
    using assms(1) by (simp_all add: outcome_awaited_def tool_of_def)
  have keys: "distinct (map x_id (db_tools db))" "distinct (map r_id (db_runs db))"
    using assms(2) by (simp_all add: tables_sound_def store_ok_def runs_ok_def run_keys_ok_def)
  show "find ?tool (db_tools db) = Some x"
    by (rule find_by_id [where P = ?tool, OF x(1,2) keys(1)]) (use x(2) in \<open>simp add: tool_of_def\<close>)
  show "find_run (cc_tenant_id ctx) (er_run_id (rto_expected_run cmd)) db = Some run"
    unfolding find_run_def by (rule find_by_id [where k = r_id, OF run(1) _ keys(2)]) (use run in simp_all)
  show "sql_count (awaits_outcome (cc_tenant_id ctx) (rto_tool_execution_id cmd)) (db_tools db) = 1"
    by (rule one_row_by_id [where k = x_id, OF x(1) _ keys(1)]) (use x in \<open>simp_all add: awaits_outcome_def tool_of_def\<close>)
  show "sql_count (run_at (cc_tenant_id ctx) (er_run_id (rto_expected_run cmd)) (r_version run) (r_generation run))
      (db_runs db) = 1"
    by (rule one_row_by_id [where k = r_id, OF run(1) _ keys(2)]) (use run in \<open>simp_all add: run_at_def\<close>)
qed

lemma project_tool_event_type: "project_tool_outcome ext outcome = Inr p \<Longrightarrow> pto_event_type p \<noteq> []"
  by (cases outcome) (auto simp: project_tool_outcome_def project_failed_tool_def result_iffs split: if_split_asm)

lemma awaited_outcome_recorded:
  assumes awaited: "outcome_awaited ctx cmd run x db" and sound: "tables_sound db"
    and new: "command_new ctx (rto_outcome_event_id cmd) ttl now db"
    and p: "project_tool_outcome ext (rto_outcome cmd) = Inr p" and request: "rto_remote_request_id cmd \<noteq> Some []"
  shows "\<exists>c db'. record_tool_outcome ext ttl ctx cmd now db = Inr (c, db') \<and> disposition c = Applied"
proof -
  let ?tenant = "cc_tenant_id ctx" let ?tool = "rto_tool_execution_id cmd"
  let ?run_id = "er_run_id (rto_expected_run cmd)"
  let ?db1 = "db\<lparr>db_receipts := db_receipts db @ [new_receipt ctx now (int ttl)]\<rparr>"
  let ?tries = "unfinished_tool_attempt ?tenant ?tool (x_attempts x)"
  let ?target = "awaits_outcome ?tenant ?tool"
  let ?at = "run_at ?tenant ?run_id (r_version run) (r_generation run)"
  note rows = outcome_rows_unique [OF awaited sound]
  from awaited obtain task where task: "find_task ?tenant (rto_task_id cmd) db = Some task" "t_run task = ?run_id"
  proof -
    from awaited obtain t where t: "t \<in> set (db_tasks db)" "t_tenant t = ?tenant" "t_id t = rto_task_id cmd"
        "t_run t = ?run_id"
      by (auto simp: outcome_awaited_def)
    have "find_task ?tenant (rto_task_id cmd) db = Some t"
      unfolding find_task_def
      by (rule find_by_id [where k = t_id, OF t(1)])
         (use t sound in \<open>simp_all add: tables_sound_def store_ok_def task_keys_ok_def\<close>)
    then show thesis using t(4) by (rule that)
  qed
  have run: "run \<in> set (db_runs db)" "r_tenant run = ?tenant" "r_id run = ?run_id"
    and x: "x \<in> set (db_tools db)" "?target x" "x_run x = ?run_id" "x_task x = rto_task_id cmd"
      "x_attempts x = int (rto_expected_attempt cmd)" "x_status x = ToolExecuting \<or> x_status x = ToolReconciling"
    and one: "sql_count ?tries (db_tool_attempts db) = 1"
    using awaited by (simp_all add: outcome_awaited_def awaits_outcome_def tool_of_def)
  have ok: "runs_ok db" and below: "r_version q < i64_max \<and> r_next_seq q < i64_max" if "q \<in> set (db_runs db)" for q
    using sound that by (simp_all add: tables_sound_def store_ok_def)
  have checks: "run_checks q" if "q \<in> set (db_runs db)" for q
    using ok [OF that] that by (simp add: runs_ok_def)
  have next_seq: "1 \<le> r_next_seq run" using checks [OF run(1)] by (simp add: run_checks_def)
  have "run_checks (run_cursor_advanced now q)" if "run_checks q" for q
    using that by (auto simp: run_checks_def run_cursor_advanced_def split: if_splits)
  then have pass_run: "updates_pass run_checks ?at (run_cursor_advanced now) (db_runs db)"
      "increments_in_range ?at r_version (db_runs db)" "increments_in_range ?at r_next_seq (db_runs db)"
    using checks below by (simp_all add: updates_pass_iff increments_in_range_def list_all_iff)
  note pass = outcome_rows_pass(1) [OF p sound x(1) request] outcome_rows_pass(2) [OF p sound x(1) request x(2)]
  let ?e = "tool_outcome_event ctx cmd p now run task x"
  let ?db3 = "?db1\<lparr>db_tool_attempts := sql_update ?tries (finished_tool_attempt p cmd (persisted_ref p x) now) (db_tool_attempts db),
      db_tools := sql_update ?target (projected_tool p (persisted_ref p x) now) (db_tools db)\<rparr>"
  let ?db4 = "?db3\<lparr>db_events := db_events db @ [event_row_of ?e], db_outbox := db_outbox db @ [outbox_row_of ?e]\<rparr>"
  let ?db5 = "?db4\<lparr>db_runs := sql_update ?at (run_cursor_advanced now) (db_runs db)\<rparr>"
  have event: "insert_event ?e ?db3 = Inr ((), ?db4)"
  proof -
    have "e_seq e \<noteq> r_next_seq run" if "e \<in> set (db_events db)" "e_tenant e = ?tenant" "e_run e = ?run_id" for e
      using that run sound by (fastforce simp: tables_sound_def)
    moreover have "pto_event_type p \<noteq> []" by (rule project_tool_event_type [OF p])
    moreover have "find_run ?tenant ?run_id ?db3 \<noteq> None" using rows(2) by (simp add: find_run_def)
    ultimately show ?thesis
      unfolding insert_event_iff using next_seq new
      by (auto simp: tool_outcome_event_def execution_event_def command_new_def)
  qed
  have cursor: "advance_run_event_cursor ?tenant ?run_id (r_version run) (r_generation run) now ?db4 = Inr ((), ?db5)"
    using pass_run rows(4)
    by (simp add: advance_run_event_cursor_def txn_steps update_runs_def)
  have receipt: "db_receipts ?db5 = db_receipts db @ [new_receipt ctx now (int ttl)]" by simp
  let ?dbA = "?db1\<lparr>db_tool_attempts :=
          sql_update ?tries (finished_tool_attempt p cmd (persisted_ref p x) now) (db_tool_attempts db)\<rparr>"
  have attempt: "bindT (update_tool_attempts ?tries (finished_tool_attempt p cmd (persisted_ref p x) now)) k ?db1
      = k 1 ?dbA" for k :: "nat \<Rightarrow> tool_execution_snapshot committed txn"
    using pass(1) one by (simp add: update_tool_attempts_def bindT_def)
  have tool: "bindT (update_tools ?target (projected_tool p (persisted_ref p x) now)) k ?dbA = k 1 ?db3"
    for k :: "nat \<Rightarrow> tool_execution_snapshot committed txn"
    using pass(2) rows(3) by (simp add: update_tools_def bindT_def)
  have event': "thenT (insert_event ?e) k ?db3 = k ?db4" for k :: "tool_execution_snapshot committed txn"
    unfolding thenT_def bindT_def event by simp
  have cursor': "thenT (advance_run_event_cursor ?tenant ?run_id (r_version run) (r_generation run) now) k ?db4 = k ?db5"
    for k :: "tool_execution_snapshot committed txn"
    unfolding thenT_def bindT_def cursor by simp
  have finish: "\<exists>c d. thenT (finish_receipt ctx kind outcome ev resource) (returnT (tool_committed Applied v e fs)) ?db5
      = Inr (c, d) \<and> disposition c = Applied" for kind outcome ev resource v e fs
    unfolding thenT_def bindT_def finish_receipt_new [OF new receipt] returnT_def by simp
  have "\<exists>c db'. record_locked_tool ctx cmd p now run task x ?db1 = Inr (c, db') \<and> disposition c = Applied"
    unfolding record_locked_tool_def Let_def attempt tool refl [of "1 :: nat", THEN eqTrueI] guard_step event' cursor'
    by (rule finish)
  moreover have "lock_event_run ?tenant ?run_id ?db1 = Inr (\<lparr> le_run = run, le_checkpoint_sequence =
      map_option c_seq (find (\<lambda>c. c_tenant c = ?tenant \<and> c_run c = ?run_id \<and> Some (c_id c) = r_checkpoint run)
        (db_checkpoints db)) \<rparr>, ?db1)"
    using rows(2) by (simp add: lock_event_run_def find_run_def)
  moreover have "lock_tool_by_id ?tenant ?tool ?db1 = Inr (x, ?db1)" "find_task ?tenant (rto_task_id cmd) ?db1 = Some task"
    using rows(1) task(1) by (simp_all add: lock_external_iff find_task_def)
  ultimately show ?thesis
    using p request task(2) x(3-6)
    by (simp add: record_tool_outcome_def with_receipt_new [OF new] Let_def txn_steps ok_or_def)
qed

text \<open>What a recorded outcome changes, and that it was awaited.\<close>

definition same_call :: "tool_row \<Rightarrow> tool_row \<Rightarrow> bool" where
  "same_call x x' \<longleftrightarrow> x_tenant x' = x_tenant x \<and> x_id x' = x_id x \<and> x_run x' = x_run x \<and> x_stage x' = x_stage x
     \<and> x_task x' = x_task x \<and> x_call_id x' = x_call_id x \<and> x_name x' = x_name x \<and> x_scope x' = x_scope x
     \<and> x_key x' = x_key x \<and> x_hash x' = x_hash x \<and> x_attempts x' = x_attempts x \<and> x_request x' = x_request x
     \<and> x_started_at x' = x_started_at x \<and> x_created_at x' = x_created_at x"

definition outcome_recorded ::
  "command_context \<Rightarrow> record_tool_command \<Rightarrow> micros \<Rightarrow> db \<Rightarrow> db \<Rightarrow> bool" where
  "outcome_recorded ctx cmd now db db' \<longleftrightarrow>
    (let status = projected_status (rto_outcome cmd);
         its_tool = (\<lambda>x. x_tenant x = cc_tenant_id ctx \<and> x_id x = rto_tool_execution_id cmd);
         its_attempt = (\<lambda>y. y_tenant y = cc_tenant_id ctx \<and> y_tool y = rto_tool_execution_id cmd
            \<and> y_attempt y = int (rto_expected_attempt cmd) \<and> y_finished_at y = None) in
     (\<exists>run x. outcome_awaited ctx cmd run x db
        \<and> db_runs db' = sql_update (same_run run) (\<lambda>_. run\<lparr>r_version := r_version run + 1,
            r_next_seq := r_next_seq run + 1, r_updated_at := now\<rparr>) (db_runs db))
     \<and> list_all2 (\<lambda>x x'. if its_tool x then same_call x x' \<and> x_status x' = status else x' = x)
         (db_tools db) (db_tools db')
     \<and> list_all2 (\<lambda>y y'. if its_attempt y then y_attempt y' = y_attempt y \<and> y_tool y' = y_tool y
            \<and> y_finished_at y' = Some now \<and> y_outcome y' \<noteq> None else y' = y)
         (db_tool_attempts db) (db_tool_attempts db')
     \<and> (\<exists>events messages receipts. db' = db\<lparr>db_runs := db_runs db', db_tools := db_tools db',
          db_tool_attempts := db_tool_attempts db', db_events := db_events db @ events,
          db_outbox := db_outbox db @ messages, db_receipts := receipts\<rparr>
          \<and> length events = 1 \<and> length messages = 1))"

lemma recorded_outcome_effect:
  assumes "record_tool_outcome ext ttl ctx cmd now db = Inr (c, db')" and "disposition c = Applied"
    and sound: "tables_sound db"
  shows "outcome_recorded ctx cmd now db db' \<and> tes_status (committed_value c) = projected_status (rto_outcome cmd)
    \<and> (tool_requires_reconciliation (projected_status (rto_outcome cmd))
         \<longleftrightarrow> FollowReconcileTool (rto_tool_execution_id cmd) \<in> set (durable_follow_ups c))"
  using assms(1)
proof (cases rule: record_tool_outcome_cases)
  case (replayed outcome event)
  then have "disposition c = Duplicate" by (auto simp: duplicate_tool_def result_iffs)
  then show ?thesis using assms(2) by simp
next
  case (recorded p run task x rs)
  let ?tenant = "cc_tenant_id ctx" let ?tool = "rto_tool_execution_id cmd" let ?run = "le_run run"
  note run = find_run_Some [OF recorded(2)] and task = find_task_Some [OF recorded(3)]
  note status = project_tool_status [OF recorded(1)]
  have x: "x \<in> set (db_tools db)" "x_tenant x = ?tenant" "x_id x = ?tool"
    using find_Some_in [OF recorded(5)] by (simp_all add: tool_of_def)
  from recorded(10) obtain rs' where
      one: "sql_count (unfinished_tool_attempt ?tenant ?tool (x_attempts x)) (db_tool_attempts db) = 1"
    and db': "db' = db\<lparr>db_tool_attempts := sql_update (unfinished_tool_attempt ?tenant ?tool (x_attempts x))
          (finished_tool_attempt p cmd (persisted_ref p x) now) (db_tool_attempts db),
        db_tools := sql_update (awaits_outcome ?tenant ?tool) (projected_tool p (persisted_ref p x) now) (db_tools db),
        db_events := db_events db @ [event_row_of (tool_outcome_event ctx cmd p now ?run task x)],
        db_outbox := db_outbox db @ [outbox_row_of (tool_outcome_event ctx cmd p now ?run task x)],
        db_runs := sql_update (run_at ?tenant (er_run_id (rto_expected_run cmd)) (r_version ?run) (r_generation ?run))
          (run_cursor_advanced now) (db_runs db), db_receipts := rs'\<rparr>"
    and c: "tes_status (committed_value c) = pto_status p" "durable_follow_ups c = tool_follow_ups ?tool p"
    by (rule tool_outcome_effect) (rule that, simp_all)
  have awaited: "outcome_awaited ctx cmd ?run x db"
    unfolding outcome_awaited_def using run task x recorded(4,6-9) one by (auto intro!: bexI [of _ task])
  have runs: "db_runs db' = sql_update (same_run ?run) (\<lambda>_. run_cursor_advanced now ?run) (db_runs db)"
    unfolding db' using run sound
    by (auto simp: tables_sound_def store_ok_def runs_ok_def run_at_def same_run_def intro!: sql_update_one_run)
  let ?u = "\<lambda>y. if awaits_outcome ?tenant ?tool y then projected_tool p (persisted_ref p x) now y else y"
  have call: "same_call y (projected_tool p r now y)" for y r
    by (simp add: same_call_def projected_tool_def)
  have same: "y = x" if "y \<in> set (db_tools db)" "x_id y = ?tool" for y
    using that x sound by (auto simp: tables_sound_def dest: distinct_map_inj)
  have tool: "if x_tenant y = ?tenant \<and> x_id y = ?tool
        then same_call y (?u y) \<and> x_status (?u y) = projected_status (rto_outcome cmd) else ?u y = y"
    if "y \<in> set (db_tools db)" for y
  proof (cases "x_tenant y = ?tenant \<and> x_id y = ?tool")
    case True
    then have "awaits_outcome ?tenant ?tool y"
      using same [OF that] recorded(9) by (auto simp: awaits_outcome_def tool_of_def)
    then show ?thesis using True status call by (simp add: projected_tool_def)
  next
    case False
    then show ?thesis by (auto simp: awaits_outcome_def tool_of_def)
  qed
  have updated: "db_tools db' = map ?u (db_tools db)" by (simp add: db' sql_update_def)
  have tools: "list_all2 (\<lambda>x x'. if x_tenant x = ?tenant \<and> x_id x = ?tool
        then same_call x x' \<and> x_status x' = projected_status (rto_outcome cmd) else x' = x) (db_tools db) (db_tools db')"
    unfolding updated list_all2_map2 list_all2_same by (intro ballI tool)
  have attempts: "list_all2 (\<lambda>y y'. if y_tenant y = ?tenant \<and> y_tool y = ?tool
        \<and> y_attempt y = int (rto_expected_attempt cmd) \<and> y_finished_at y = None
      then y_attempt y' = y_attempt y \<and> y_tool y' = y_tool y \<and> y_finished_at y' = Some now \<and> y_outcome y' \<noteq> None
      else y' = y) (db_tool_attempts db) (db_tool_attempts db')"
    unfolding db' using recorded(8)
    by (auto simp: sql_update_def list_all2_map2 list_all2_same unfinished_tool_attempt_def finished_tool_attempt_def)
  have follow: "tool_requires_reconciliation (projected_status (rto_outcome cmd))
      \<longleftrightarrow> FollowReconcileTool ?tool \<in> set (durable_follow_ups c)"
    using c(2) status by (auto simp: tool_follow_ups_def split: option.splits)
  have rest: "\<exists>events messages receipts. db' = db\<lparr>db_runs := db_runs db', db_tools := db_tools db',
          db_tool_attempts := db_tool_attempts db', db_events := db_events db @ events,
          db_outbox := db_outbox db @ messages, db_receipts := receipts\<rparr>
          \<and> length events = 1 \<and> length messages = 1"
    by (intro exI [of _ "[event_row_of (tool_outcome_event ctx cmd p now ?run task x)]"]
          exI [of _ "[outbox_row_of (tool_outcome_event ctx cmd p now ?run task x)]"] exI [of _ rs']) (simp add: db')
  have first: "\<exists>run x. outcome_awaited ctx cmd run x db
        \<and> db_runs db' = sql_update (same_run run) (\<lambda>_. run\<lparr>r_version := r_version run + 1,
            r_next_seq := r_next_seq run + 1, r_updated_at := now\<rparr>) (db_runs db)"
    using awaited runs unfolding run_cursor_advanced_def by blast
  have "outcome_recorded ctx cmd now db db'"
    unfolding outcome_recorded_def Let_def by (intro conjI first tools attempts rest)
  then show ?thesis using follow c(1) status by simp
qed

text \<open>
  C22: a new command with the outcome of a tool call is applied exactly when that call is awaited: the
  run, the task and the execution belong together, the execution is at the expected attempt and is
  executing or being reconciled, and that attempt is open. Neither the status, version or generation of
  the run nor the lease or generation of the task is asked for, so an execution that still awaits its
  outcome takes it after the run was paused, fenced or ended as well. Then exactly that attempt is
  closed, exactly that execution takes the status the outcome projects to, the run takes one event and
  nothing else of it changes; the stages, tasks, waits, dependencies, agents and all other rows stay as
  they are. An outcome that needs a reconciliation, and no other, is followed up by one. Assumed: the
  tables hold what their keys and checks keep, no counter is at the end of its range, and the outcome
  can be projected.
\<close>

theorem record_tool_outcome_closes_attempt:
  assumes "tables_sound db" and "command_new ctx (rto_outcome_event_id cmd) ttl now db"
    and "project_tool_outcome ext (rto_outcome cmd) = Inr p" and "rto_remote_request_id cmd \<noteq> Some []"
  shows "((\<exists>c db'. record_tool_outcome ext ttl ctx cmd now db = Inr (c, db') \<and> disposition c = Applied)
      \<longleftrightarrow> (\<exists>run x. outcome_awaited ctx cmd run x db))
    \<and> (\<forall>c db'. record_tool_outcome ext ttl ctx cmd now db = Inr (c, db') \<and> disposition c = Applied
        \<longrightarrow> outcome_recorded ctx cmd now db db' \<and> tes_status (committed_value c) = projected_status (rto_outcome cmd)
          \<and> (tool_requires_reconciliation (projected_status (rto_outcome cmd))
              \<longleftrightarrow> FollowReconcileTool (rto_tool_execution_id cmd) \<in> set (durable_follow_ups c)))"
proof -
  have "\<exists>run x. outcome_awaited ctx cmd run x db" if "outcome_recorded ctx cmd now db db'" for db'
    using that unfolding outcome_recorded_def Let_def by blast
  then show ?thesis
    using awaited_outcome_recorded [OF _ assms] recorded_outcome_effect [OF _ _ assms(1)] by blast
qed

text \<open>The call of a run that was paused, and so fenced, while the adapter was working on it.\<close>

definition sample_fenced_call_db :: db where
  "sample_fenced_call_db = sample_executing_db\<lparr>db_runs := [sample_run\<lparr>r_status := RunPaused, r_generation := 1,
     r_suspended_from := Some RunRunning\<rparr>]\<rparr>"

lemmas sample_call_defs = sample_fenced_call_db_def sample_executing_db_def sample_tool_def sample_outcome_def
  open_tool_attempt_def sample_defs

theorem record_tool_outcome_closes_attempt_witness:
  "\<exists>c db'. record_tool_outcome sample_ext 1000 (sample_context 83 ''o1'') (sample_outcome (ToolAcceptedOutcome ''ref''))
      110 sample_fenced_call_db = Inr (c, db') \<and> disposition c = Applied \<and> tes_status (committed_value c) = ToolExecuting"
proof -
  let ?cmd = "sample_outcome (ToolAcceptedOutcome ''ref'')" let ?ctx = "sample_context 83 ''o1''"
  have sound: "tables_sound sample_fenced_call_db"
    by (simp add: tables_sound_def store_ok_def runs_ok_def run_keys_ok_def run_checks_def revision_checks_def
        task_keys_ok_def tool_checks_def status_sets sample_call_defs)
  have new: "command_new ?ctx (rto_outcome_event_id ?cmd) 1000 110 sample_fenced_call_db"
    by (simp add: command_new_def sample_call_defs)
  obtain p where p: "project_tool_outcome sample_ext (rto_outcome ?cmd) = Inr p"
    by (simp add: project_tool_outcome_def sample_outcome_def)
  have request: "rto_remote_request_id ?cmd \<noteq> Some []" by (simp add: sample_outcome_def)
  have "\<exists>run x. outcome_awaited ?ctx ?cmd run x sample_fenced_call_db"
    by (simp add: outcome_awaited_def unfinished_tool_attempt_def sql_count_def sample_call_defs)
  with record_tool_outcome_closes_attempt [OF sound new p request] obtain c db' where
      "record_tool_outcome sample_ext 1000 ?ctx ?cmd 110 sample_fenced_call_db = Inr (c, db')"
      "disposition c = Applied" "tes_status (committed_value c) = projected_status (rto_outcome ?cmd)"
    by metis
  then show ?thesis by (auto simp: sample_outcome_def projected_status_def)
qed

end
