(* ===== verification/AgentOutcomes.thy ===== *)
theory AgentOutcomes
  imports AgentEvents ToolAttempts
begin

text \<open>
  What the commands of a remote agent's execution promise (the definitions are in \<open>AgentExecution\<close> and
  \<open>AgentEvents\<close>): a remote event is recorded once however often it is delivered, a stop request is not
  lost by a submission that was under way, and an outcome is recorded against one version of an
  execution that has not ended.
\<close>

section \<open>The rows after a command\<close>

lemma find_agent_updated:
  assumes "find (agent_of tenant i) rows = Some g" and "P g"
    and "\<And>v. agent_of tenant i (f v) = agent_of tenant i v"
  shows "find (agent_of tenant i) (sql_update P f rows) = Some (f g)"
  using assms by (simp add: find_sql_update)

lemma run_log_grows:
  assumes "db_events db' = db_events db @ map event_row_of es"
    and "\<forall>e \<in> set es. ei_tenant_id e = r_tenant run \<and> ei_run_id e = r_id run"
    and "r_tenant run' = r_tenant run" and "r_id run' = r_id run"
  shows "run_log run' db' = run_log run db @ map event_row_of es"
proof -
  have "filter (event_of_run run') (map event_row_of es) = map event_row_of es"
    using assms(2-4) by (intro filter_True) (auto simp: event_row_of_def event_of_run_def)
  moreover have "event_of_run run' = event_of_run run"
    using assms(3,4) by (simp add: event_of_run_def fun_eq_iff)
  ultimately show ?thesis using assms(1) by (simp add: run_log_def)
qed

definition agent_keys_ok :: "db \<Rightarrow> bool" where
  "agent_keys_ok db \<longleftrightarrow> distinct (map (\<lambda>g. (g_tenant g, g_id g)) (db_agents db))"

lemma agent_unique:
  assumes "agent_keys_ok db" and "g \<in> set (db_agents db)" and "h \<in> set (db_agents db)"
    and "agent_of tenant i g" and "agent_of tenant i h"
  shows "g = h"
  using distinct_map_inj [OF assms(1) [unfolded agent_keys_ok_def] assms(2,3)] assms(4,5) by (simp add: agent_of_def)

section \<open>A remote event is recorded once\<close>

lemma batch_agent_fields [simp]:
  "g_tenant (batch_agent cmd outcome result now g v) = g_tenant v"
  "g_id (batch_agent cmd outcome result now g v) = g_id v"
  "g_cursor_version (batch_agent cmd outcome result now g v) = g_cursor_version g + 1"
  "g_version (batch_agent cmd outcome result now g v) = g_version g + 1"
  "g_event_cursor (batch_agent cmd outcome result now g v) = aae_next_cursor cmd"
  by (simp_all add: batch_agent_def agent_projected_def agent_ended_remotely_def agent_read_on_def split: option.split)

lemma agent_of_batch_agent [simp]:
  "agent_of tenant i (batch_agent cmd outcome result now g v) = agent_of tenant i v"
  by (simp add: agent_of_def)

text \<open>
  C24: an event batch of an agent is applied against one version of the cursor, which it moves by one.
  The events that are new are exactly those no recorded receipt names: they are accepted, each gets
  its receipt, and the events of the run are continued, without a gap, by the local events of the
  accepted ones in their order; events that were delivered before are answered as duplicates and
  leave no trace. If the run has ended, has moved on or is out of time, its status does not change.
\<close>

theorem append_agent_events_records_once:
  assumes "append_agent_events ext ttl ctx cmd now db = Inr (c, db')" and "disposition c = Applied"
    and "i = aae_agent_execution_id cmd" and "tenant = cc_tenant_id ctx" and "run_id = er_run_id (aae_expected_run cmd)"
    and "fresh = filter (\<lambda>e. \<not> known_event tenant i db e) (aae_events cmd)"
  shows "\<exists>g g' run run' es. find (agent_of tenant i) (db_agents db) = Some g
    \<and> find (agent_of tenant i) (db_agents db') = Some g'
    \<and> find_run tenant run_id db = Some run \<and> find_run tenant run_id db' = Some run'
    \<and> g_cursor_version g = int (aae_expected_cursor_version cmd) \<and> g_cursor_version g' = g_cursor_version g + 1
    \<and> g_event_cursor g' = aae_next_cursor cmd
    \<and> abo_accepted_receipts (committed_value c) = map aei_receipt_id fresh
    \<and> abo_duplicate_receipts (committed_value c)
        = map aei_receipt_id (filter (known_event tenant i db) (aae_events cmd))
    \<and> db_agent_receipts db' = db_agent_receipts db @ map (receipt_of_input tenant i run_id now) fresh
    \<and> event_ids c = local_ids fresh \<and> map e_id es = local_ids fresh
    \<and> run_log run' db' = run_log run db @ es \<and> map e_seq es = [r_next_seq run..r_next_seq run' - 1]
    \<and> (\<not> agent_workflow_projection_allowed (aae_expected_run cmd) run now \<longrightarrow> r_status run' = r_status run)"
  using assms(1)
proof (cases rule: append_agent_events_cases)
  case (replayed outcome event)
  then have "disposition c = Duplicate" by (auto simp: duplicate_agent_batch_def result_iffs)
  then show ?thesis using assms(2) by simp
next
  case (appended run g s rs db1)
  note names = assms(3-5)
  have gid: "g_id g = i" "agent_of tenant i g"
    using find_Some_in [OF appended(3)] by (simp_all add: agent_of_def names)
  note grew = append_batch_grew [OF appended(1,6), unfolded batch_grew_def, folded names, unfolded gid(1), folded assms(6)]
  let ?run = "le_run run" let ?f = "run_projected (bs_next_seq s) (bs_run_status s) now"
  from grew obtain es where es: "db_events db1 = db_events db @ map event_row_of es"
      "\<forall>e \<in> set es. ei_tenant_id e = tenant \<and> ei_run_id e = run_id" "map ei_event_id es = local_ids fresh"
      "map ei_sequence es = [r_next_seq ?run..bs_next_seq s - 1]"
    by (auto simp: batch_events_def initial_batch_state_def)
  from appended(7) obtain rs' result where accepts: "batch_accepts (bs_outcome s = None) g"
    and db': "db' = db1\<lparr>db_agents := sql_update (batch_target tenant g (bs_outcome s = None))
          (batch_agent cmd (bs_outcome s) result now g) (db_agents db1),
        db_runs := sql_update (run_at tenant run_id (r_version ?run) (r_generation ?run)) ?f (db_runs db1),
        db_receipts := rs'\<rparr>"
    and c: "event_ids c = bs_local_events s" "abo_accepted_receipts (committed_value c) = bs_accepted s"
        "abo_duplicate_receipts (committed_value c) = bs_duplicates s"
    unfolding names by (rule finish_agent_batch_effect)
  have g': "find (agent_of tenant i) (db_agents db') = Some (batch_agent cmd (bs_outcome s) result now g g)"
    using grew appended(3) accepts gid
    by (simp add: db' names find_agent_updated batch_target_def batch_accepts_def)
  have run: "find_run tenant run_id db = Some ?run" using appended(2) by (simp add: names)
  note ids = find_run_Some [OF run]
  have run': "find_run tenant run_id db' = Some (?f ?run)"
    by (rule find_run_updated [OF run, where f = ?f and P = "run_at tenant run_id (r_version ?run) (r_generation ?run)"])
      (use grew ids in \<open>simp_all add: db' run_at_def run_projected_def\<close>)
  have log: "run_log (?f ?run) db' = run_log ?run db @ map event_row_of es"
    using es(1,2) ids by (intro run_log_grows) (simp_all add: db' run_projected_def)
  have new: "g_cursor_version g' = g_cursor_version g + 1" "g_event_cursor g' = aae_next_cursor cmd"
      "db_agent_receipts db' = db_agent_receipts db1" "map e_id (map event_row_of es) = map ei_event_id es"
      "map e_seq (map event_row_of es) = map ei_sequence es"
    if "g' = batch_agent cmd (bs_outcome s) result now g g" for g'
    by (simp_all add: that db' o_def event_row_of_def)
  have g: "find (agent_of tenant i) (db_agents db) = Some g" using appended(3) by (simp add: names)
  show ?thesis
    by (rule exI [of _ g], rule exI [of _ "batch_agent cmd (bs_outcome s) result now g g"], rule exI [of _ ?run],
        rule exI [of _ "?f ?run"], rule exI [of _ "map event_row_of es"])
      (use appended(5) grew c es(3,4) g g' run run' log new [OF refl] in \<open>simp add: initial_batch_state_def\<close>)
qed

section \<open>The commands on a sample execution\<close>

definition sample_agent :: "agent_status \<Rightarrow> agent_row" where
  "sample_agent status = \<lparr> g_id = 70, g_tenant = 7, g_run = 1, g_stage = None, g_task = 2, g_endpoint = 71,
     g_agent_version = 72, g_key = ''k'', g_hash = 5, g_remote_run = None, g_remote_session = None,
     g_status = status, g_version = 3, g_capabilities = JObject [], g_event_cursor = None,
     g_cursor_version = 4, g_stop_requested_at = None, g_stop_outcome = None, g_result = None,
     g_error_code = None, g_last_synced_at = None, g_created_at = 100, g_updated_at = 100,
     g_completed_at = None, g_retry_at = None, g_request = JObject [], g_remote_protocol = None,
     g_status_poll_at = None \<rparr>"

definition sample_agent_db :: "agent_status \<Rightarrow> db" where
  "sample_agent_db status = sample_leased_db\<lparr>db_agents := [sample_agent status]\<rparr>"

lemma sample_agent_keys: "agent_keys_ok (sample_agent_db status)"
  by (simp add: agent_keys_ok_def sample_agent_db_def)

definition sample_remote_event :: "uuid \<Rightarrow> digest \<Rightarrow> uuid option \<Rightarrow> agent_event_input" where
  "sample_remote_event i key event = \<lparr> aei_receipt_id = i, aei_dedupe_key = key, aei_source_event_id = None,
     aei_source_sequence = Some 1, aei_source_cursor = None, aei_event_kind = ''agent.message'',
     aei_authoritative = (event \<noteq> None), aei_raw_digest = 0, aei_local_event_id = event,
     aei_payload_schema_version = 1, aei_payload = ''{}'',
     aei_projection = \<lparr> aep_workflow_action = AgentActionNone, aep_artifacts = [], aep_execution_outcome = None \<rparr> \<rparr>"

definition sample_batch :: append_agent_events_command where
  "sample_batch = \<lparr> aae_expected_run = sample_expected, aae_agent_execution_id = 70,
     aae_expected_cursor_version = 4, aae_next_cursor = Some ''c5'', aae_next_status_poll_at = Some 200,
     aae_remote_terminal = False, aae_events = [sample_remote_event 81 81 (Some 91), sample_remote_event 82 82 None] \<rparr>"

definition sample_submission :: record_agent_submission_command where
  "sample_submission = \<lparr> ras_expected_run = sample_expected, ras_agent_execution_id = 70,
     ras_expected_version = 2, ras_outcome = SubmissionAccepted ''r1'' None ''v1'', ras_submission_event_id = 92 \<rparr>"

definition sample_agent_outcome :: record_agent_outcome_command where
  "sample_agent_outcome = \<lparr> rao_expected_run = sample_expected, rao_agent_execution_id = 70,
     rao_expected_version = 3, rao_status = AgentSucceeded, rao_result = Some ''{}'', rao_error_code = None,
     rao_next_status_poll_at = None, rao_outcome_event_id = 93 \<rparr>"

lemmas sample_agent_defs = sample_agent_def sample_agent_db_def sample_remote_event_def sample_batch_def
  sample_submission_def sample_agent_outcome_def

lemmas agent_eval = lock_event_run_def lock_agent_by_id_def agent_of_def expectation_changed_def
  update_agents_def advance_run_event_cursor_def run_cursor_advanced_def run_at_def execution_event_def
  agent_fenced_def i64_try_from_def Let_def

lemmas batch_eval = append_agent_events_def validate_batch_shape_iff batch_ok_def event_ok_def is_local_def has_action_def has_outcome_def
  projection_matches_event_def projection_is_empty_def projected_action_is_valid_def
  append_agent_event_def append_local_event_def lock_agent_event_receipt_def names_remote_event_def
  insert_agent_event_receipt_def insert_agent_receipt_def optional_i64_def agent_receipt_row_of_def
  apply_agent_event_projection_def remember_outcome_def project_workflow_action_def insert_artifact_refs_def
  finish_agent_batch_def update_agent_after_event_batch_def batch_target_def agent_read_on_def
  advance_run_event_batch_def initial_batch_state_def agent_server_event_def agent_batch_committed_def

theorem append_agent_events_records_once_witness:
  "\<exists>c db'. append_agent_events sample_ext 1000 (sample_context 79 ''b1'') sample_batch 110 (sample_agent_db AgentRunning)
      = Inr (c, db') \<and> event_ids c = [91] \<and> length (db_agent_receipts db') = 2"
proof -
  have "\<exists>c db'. append_agent_events sample_ext 1000 (sample_context 79 ''b1'') sample_batch 110 (sample_agent_db AgentRunning)
      = Inr (c, db') \<and> disposition c = Applied"
    by (simp add: sample_agent_defs sample_defs status_sets batch_eval agent_eval create_eval txn_eval)
  then obtain c db' where run: "append_agent_events sample_ext 1000 (sample_context 79 ''b1'') sample_batch 110
      (sample_agent_db AgentRunning) = Inr (c, db')" and d: "disposition c = Applied" by blast
  have "db_agent_receipts (sample_agent_db AgentRunning) = []" by (simp add: sample_agent_defs sample_defs)
  with append_agent_events_records_once [OF run d refl refl refl refl] run show ?thesis
    by (auto simp: known_event_def sample_batch_def sample_remote_event_def local_ids_def is_local_def)
qed

section \<open>A stop request and the submission that was under way\<close>

lemma submitted_agent_fields [simp]:
  "agent_of tenant i (submitted_agent p status version now v) = agent_of tenant i v"
  "g_version (submitted_agent p status version now v) = version"
  "g_status (submitted_agent p status version now v) = status"
  "g_remote_run (submitted_agent p status version now v) = pas_remote_run_ref p"
  "g_retry_at (submitted_agent p status version now v) = pas_retry_at p"
  by (simp_all add: submitted_agent_def agent_of_def)

definition submission_settled ::
  "record_agent_submission_command \<Rightarrow> agent_row \<Rightarrow> agent_row \<Rightarrow> durable_follow_up list \<Rightarrow> bool" where
  "submission_settled cmd g g' follow_ups = (case ras_outcome cmd of
      SubmissionAccepted remote session protocol \<Rightarrow> g_remote_run g' = Some remote
        \<and> g_status g' = (if g_status g = AgentStopping then AgentStopping else AgentRunning)
        \<and> (FollowStopAgent (ras_agent_execution_id cmd) \<in> set follow_ups \<longleftrightarrow> g_status g = AgentStopping)
    | SubmissionUncertain \<Rightarrow> g_remote_run g' = None \<and> g_status g' = AgentOutcomeUnknown
        \<and> FollowReconcileAgent (ras_agent_execution_id cmd) \<in> set follow_ups
        \<and> FollowStopAgent (ras_agent_execution_id cmd) \<notin> set follow_ups
    | SubmissionRejected code retry retry_at \<Rightarrow> g_remote_run g' = None
        \<and> g_status g' = rejected_agent_status retry \<and> g_retry_at g' = retry_at
        \<and> FollowStopAgent (ras_agent_execution_id cmd) \<notin> set follow_ups)"

lemma submission_settled_effect:
  assumes "project_agent_submission (ras_outcome cmd) = Inr p"
    and "late_after_stop expected g \<longleftrightarrow> g_status g = AgentStopping"
    and "g_status g' = effective_status cmd p expected g" and "g_remote_run g' = pas_remote_run_ref p"
    and "g_retry_at g' = pas_retry_at p"
  shows "submission_settled cmd g g'
    (submission_follow_ups (ras_agent_execution_id cmd) p (effective_status cmd p expected g))"
  using assms
  by (cases "ras_outcome cmd")
    (auto simp: submission_settled_def project_agent_submission_def effective_status_def submission_follow_ups_def
      agent_requires_reconciliation_def rejected_agent_status_def
      split: if_splits option.splits execution_retry_class.splits)

text \<open>
  C25: the outcome of a submission is recorded against the version the submitter saw, or against the
  next one if all that happened since is that a stop was requested. An accepted submission keeps the
  remote identity, and then the stop is kept as well: the execution stays stopping and the stop is
  asked for again. Any other outcome drops it: an uncertain submission makes the status unknown and
  asks for a reconciliation, a rejected one takes the status of its retry class with its retry time, and
  in both the stopping status is replaced and no stop is asked for. The version moves by one; other
  executions, tasks and leases do not change.
\<close>

theorem record_agent_submission_settles:
  assumes "record_agent_submission ttl ctx cmd now db = Inr (c, db')" and "disposition c = Applied"
    and "i = ras_agent_execution_id cmd" and "tenant = cc_tenant_id ctx" and "expected = int (ras_expected_version cmd)"
  shows "\<exists>g g'. find (agent_of tenant i) (db_agents db) = Some g \<and> find (agent_of tenant i) (db_agents db') = Some g'
    \<and> (g_version g = expected \<and> (g_status g = AgentSubmitting \<or> g_status g = AgentOutcomeUnknown)
       \<or> g_version g = expected + 1 \<and> g_status g = AgentStopping)
    \<and> g_version g' = g_version g + 1 \<and> submission_settled cmd g g' (durable_follow_ups c)
    \<and> filter (\<lambda>v. \<not> agent_of tenant i v) (db_agents db') = filter (\<lambda>v. \<not> agent_of tenant i v) (db_agents db)
    \<and> (db_tasks db', db_attempts db') = (db_tasks db, db_attempts db)"
  using assms(1)
proof (cases rule: record_agent_submission_cases)
  case (replayed outcome event)
  then have "disposition c = Duplicate" by (auto simp: duplicate_agent_def result_iffs)
  then show ?thesis using assms(2) by simp
next
  case (recorded p run g rs)
  note names = assms(3-5)
  have of_g: "agent_of tenant i g" and found: "find (agent_of tenant i) (db_agents db) = Some g"
    using find_Some_in [OF recorded(3)] recorded(3) by (simp_all add: names)
  have state: "g_version g = expected \<and> (g_status g = AgentSubmitting \<or> g_status g = AgentOutcomeUnknown)
      \<or> g_version g = expected + 1 \<and> g_status g = AgentStopping"
    using recorded(5,6) by (auto simp: late_after_stop_def names checked_add_i64_Some)
  have late: "late_after_stop expected g \<longleftrightarrow> g_status g = AgentStopping"
    using recorded(5,6) by (auto simp: late_after_stop_def names)
  let ?g = "submitted_agent p (effective_status cmd p expected g) (g_version g + 1) now g"
  have others: "filter (\<lambda>v. \<not> agent_of tenant i v) (sql_update (submission_target tenant i g) (submitted_agent p st n now) rows)
      = filter (\<lambda>v. \<not> agent_of tenant i v) rows" for st n rows
    by (rule filter_sql_update_other) (simp add: submission_target_def)
  note settled = submission_settled_effect [OF recorded(1) late, of ?g]
  from recorded(7) show ?thesis
    by (rule submission_effect)
      (rule exI [of _ g], rule exI [of _ ?g], use settled state found of_g in
        \<open>simp add: names find_agent_updated submission_target_def others [unfolded names]\<close>)
qed

lemmas submission_eval = record_agent_submission_def project_agent_submission_def late_after_stop_def
  effective_status_def record_locked_submission_def submission_target_def submission_event_def
  remote_run_free_def submitted_agent_def submission_snapshot_def

theorem record_agent_submission_settles_witness:
  "\<exists>c db'. record_agent_submission 1000 (sample_context 79 ''b2'') sample_submission 110 (sample_agent_db AgentStopping)
      = Inr (c, db') \<and> FollowStopAgent 70 \<in> set (durable_follow_ups c)"
proof -
  have "\<exists>c db'. record_agent_submission 1000 (sample_context 79 ''b2'') sample_submission 110 (sample_agent_db AgentStopping)
      = Inr (c, db') \<and> disposition c = Applied"
    by (simp add: sample_agent_defs sample_defs status_sets submission_eval agent_eval create_eval txn_eval)
  then obtain c db' where run: "record_agent_submission 1000 (sample_context 79 ''b2'') sample_submission 110
      (sample_agent_db AgentStopping) = Inr (c, db')" and d: "disposition c = Applied" by blast
  from record_agent_submission_settles [OF run d refl refl refl] run show ?thesis
    by (auto simp: submission_settled_def sample_agent_defs agent_of_def sample_context_def)
qed

section \<open>An outcome ends an execution once\<close>

lemma finished_agent_fields [simp]:
  "agent_of tenant i (finished_agent cmd result version now v) = agent_of tenant i v"
  "g_version (finished_agent cmd result version now v) = version"
  "g_status (finished_agent cmd result version now v) = rao_status cmd"
  "g_result (finished_agent cmd result version now v) = result"
  "g_error_code (finished_agent cmd result version now v) = rao_error_code cmd"
  "g_completed_at (finished_agent cmd result version now v) = (if agent_terminal (rao_status cmd) then Some now else None)"
  by (simp_all add: finished_agent_def agent_of_def)

text \<open>
  C26: an outcome is recorded only for an execution at the expected version that has been submitted and
  has not ended; the version moves by one, so the same version takes no second outcome. The status
  becomes the one reported, which is terminal, uncertain or for manual review; exactly a success has a
  result and a failure an error code, and exactly a terminal status a completion time. Other
  executions, tasks and leases do not change.
\<close>

theorem record_agent_outcome_ends_once:
  assumes "agent_keys_ok db" and "record_agent_outcome ext ttl ctx cmd now db = Inr (c, db')" and "disposition c = Applied"
    and "i = rao_agent_execution_id cmd" and "tenant = cc_tenant_id ctx"
  shows "\<exists>g g'. find (agent_of tenant i) (db_agents db) = Some g \<and> find (agent_of tenant i) (db_agents db') = Some g'
    \<and> g_version g = int (rao_expected_version cmd) \<and> g_version g' = g_version g + 1
    \<and> g_status g \<notin> {AgentPlanned, AgentSubmitting} \<and> \<not> agent_terminal (g_status g)
    \<and> g_status g' = rao_status cmd \<and> agent_outcome_shape_is_valid (g_status g')
    \<and> (g_result g' \<noteq> None \<longleftrightarrow> g_status g' = AgentSucceeded) \<and> (g_status g' = AgentFailed \<longrightarrow> g_error_code g' \<noteq> None)
    \<and> (g_completed_at g' \<noteq> None \<longleftrightarrow> agent_terminal (g_status g'))
    \<and> filter (\<lambda>v. \<not> agent_of tenant i v) (db_agents db') = filter (\<lambda>v. \<not> agent_of tenant i v) (db_agents db)
    \<and> (db_tasks db', db_attempts db') = (db_tasks db, db_attempts db)"
  using assms(2)
proof (cases rule: record_agent_outcome_cases)
  case (replayed outcome event)
  then have "disposition c = Duplicate" by (auto simp: duplicate_agent_def result_iffs)
  then show ?thesis using assms(3) by simp
next
  case (recorded run task g rs)
  note names = assms(4-5)
  have of_g: "agent_of tenant i g" and found: "find (agent_of tenant i) (db_agents db) = Some g"
    using find_Some_in [OF recorded(5)] recorded(5) by (simp_all add: names)
  have valid: "agent_outcome_shape_is_valid (rao_status cmd)"
    and shape: "agent_result_shape (rao_status cmd) (rao_result cmd) (rao_error_code cmd)"
    using recorded(1) by (simp_all add: validate_agent_outcome_def split: if_splits)
  from recorded(8) obtain result where
      count: "sql_count (accepts_outcome tenant i (g_version g)) (db_agents db) = 1"
    and result: "optional_json ext (rao_result cmd) = Inr result"
    and agents: "db_agents db' = sql_update (accepts_outcome tenant i (g_version g))
          (finished_agent cmd result (g_version g + 1) now) (db_agents db)"
    and same: "(db_tasks db', db_attempts db') = (db_tasks db, db_attempts db)"
    unfolding names by (rule agent_outcome_effect) simp
  from count obtain v where v: "v \<in> set (db_agents db)" "accepts_outcome tenant i (g_version g) v"
    by (rule sql_count_1E)
  have "v = g"
    using agent_unique [OF assms(1) v(1) _ _ of_g] find_Some_in [OF found] v(2) by (simp add: accepts_outcome_def)
  with v have accepts: "accepts_outcome tenant i (g_version g) g" by simp
  have others: "filter (\<lambda>v. \<not> agent_of tenant i v) (db_agents db') = filter (\<lambda>v. \<not> agent_of tenant i v) (db_agents db)"
    unfolding agents by (rule filter_sql_update_other) (simp add: accepts_outcome_def)
  have found': "find (agent_of tenant i) (db_agents db') = Some (finished_agent cmd result (g_version g + 1) now g)"
    unfolding agents using found accepts by (rule find_agent_updated) simp
  have "result \<noteq> None \<longleftrightarrow> rao_status cmd = AgentSucceeded"
    using result shape
    by (cases "rao_status cmd"; cases "rao_result cmd") (auto simp: agent_result_shape_def optional_json_def result_iffs)
  moreover have "rao_status cmd = AgentFailed \<longrightarrow> rao_error_code cmd \<noteq> None"
    using shape by (auto simp: agent_result_shape_def)
  moreover have "g_status g \<notin> {AgentPlanned, AgentSubmitting} \<and> \<not> agent_terminal (g_status g)"
    using accepts by (auto simp: accepts_outcome_def agent_terminal_def)
  ultimately show ?thesis
    by (intro exI [of _ g] exI [of _ "finished_agent cmd result (g_version g + 1) now g"])
      (use found found' others same valid recorded(7) in simp)
qed


lemmas outcome_eval = record_agent_outcome_def optional_json_def validate_agent_outcome_def agent_outcome_shape_is_valid_def
  agent_result_shape_def find_agent_task_def lock_agent_task_def record_locked_agent_outcome_def
  accepts_outcome_def finished_agent_def agent_outcome_event_def agent_outcome_fenced_def agent_outcome_snapshot_def

theorem record_agent_outcome_ends_once_witness:
  "\<exists>c db'. record_agent_outcome sample_ext 1000 (sample_context 79 ''b3'') sample_agent_outcome 110 (sample_agent_db AgentRunning)
      = Inr (c, db') \<and> map g_status (db_agents db') = [AgentSucceeded]"
proof -
  have "\<exists>c db'. record_agent_outcome sample_ext 1000 (sample_context 79 ''b3'') sample_agent_outcome 110 (sample_agent_db AgentRunning)
      = Inr (c, db') \<and> disposition c = Applied \<and> map g_status (db_agents db') = [AgentSucceeded]"
    by (simp add: sample_agent_defs sample_defs status_sets outcome_eval agent_eval create_eval txn_eval)
  then obtain c and db' :: db where run: "record_agent_outcome sample_ext 1000 (sample_context 79 ''b3'') sample_agent_outcome 110
      (sample_agent_db AgentRunning) = Inr (c, db')" and d: "disposition c = Applied"
      and st: "map g_status (db_agents db') = [AgentSucceeded]" by (elim exE conjE) (rule that)
  from record_agent_outcome_ends_once [OF sample_agent_keys run d refl refl] run st show ?thesis by (intro exI conjI)
qed

end
