(* ===== verification/Maintenance.thy ===== *)
theory Maintenance
  imports ExecutionSteps
begin

text \<open>
  The maintenance of runs whose time has come: the commands of \<open>durable-store/src/maintenance.rs\<close>, and
  \<open>apply_maintenance\<close> and \<open>finalize_timed_out_run\<close> of \<open>transaction_executor.rs\<close>. Proved: a maintenance
  that applies does what its target asks, one that was overtaken writes nothing, a run that times
  out has no open task, attempt, stage or wait left, and the stale execution of a paused run can never
  be maintained.
\<close>

section \<open>The command\<close>

datatype maintenance_kind = RunDeadline | WaitTimeout | ToolStale | AgentStale

datatype maintenance_target =
    MaintainRun uuid
  | MaintainWait uuid
  | MaintainTool uuid
  | MaintainAgent uuid

record maintenance_cursor =
  mcu_due_at :: micros
  mcu_kind :: maintenance_kind
  mcu_target_id :: uuid

record maintenance_candidate =
  mc_tenant_id :: uuid
  mc_run_id :: uuid
  mc_target :: maintenance_target
  mc_due_at :: micros
  mc_expected_revision :: nat
  mc_run_version :: nat
  mc_execution_generation :: nat

definition maintenance_kind_of :: "maintenance_candidate \<Rightarrow> maintenance_kind" where
  "maintenance_kind_of c = (case mc_target c of
      MaintainRun _ \<Rightarrow> RunDeadline
    | MaintainWait _ \<Rightarrow> WaitTimeout
    | MaintainTool _ \<Rightarrow> ToolStale
    | MaintainAgent _ \<Rightarrow> AgentStale)"

definition maintenance_target_id :: "maintenance_candidate \<Rightarrow> uuid" where
  "maintenance_target_id c = (case mc_target c of
      MaintainRun i \<Rightarrow> i
    | MaintainWait i \<Rightarrow> i
    | MaintainTool i \<Rightarrow> i
    | MaintainAgent i \<Rightarrow> i)"

definition maintenance_cursor_of :: "maintenance_candidate \<Rightarrow> maintenance_cursor" where
  "maintenance_cursor_of c =
     \<lparr> mcu_due_at = mc_due_at c, mcu_kind = maintenance_kind_of c, mcu_target_id = maintenance_target_id c \<rparr>"

record apply_maintenance_command =
  amc_candidate :: maintenance_candidate
  amc_event_id :: uuid

record maintenance_outcome =
  mo_tenant_id :: uuid
  mo_run_id :: uuid
  mo_target :: maintenance_target
  mo_run_status :: run_status
  mo_applied_at :: micros

section \<open>What a target asks for\<close>

text \<open>The event, the status of the run after it, and whether the run ends.\<close>

record maintenance_effect =
  me_event_type :: string
  me_status :: run_status
  me_terminal :: bool

definition expired_wait :: "micros \<Rightarrow> wait_row \<Rightarrow> wait_row" where
  "expired_wait now w = w\<lparr>w_status := WaitExpired, w_active_slot := None, w_updated_at := now\<rparr>"

definition stale_tool :: "uuid \<Rightarrow> uuid \<Rightarrow> uuid \<Rightarrow> int \<Rightarrow> micros \<Rightarrow> tool_row \<Rightarrow> bool" where
  "stale_tool tenant i run revision due_at x \<longleftrightarrow> x_tenant x = tenant \<and> x_id x = i \<and> x_run x = run
     \<and> x_attempts x = revision \<and> x_status x \<in> {ToolExecuting, ToolOutcomeUnknown} \<and> x_updated_at x \<le> due_at"

definition tool_query_scheduled :: "micros \<Rightarrow> tool_row \<Rightarrow> tool_row" where
  "tool_query_scheduled now x = x\<lparr>x_status := ToolRetryScheduled,
     x_recovery_action := Some ''query_outcome'', x_retry_at := Some now, x_updated_at := now\<rparr>"

definition stale_agent :: "uuid \<Rightarrow> uuid \<Rightarrow> uuid \<Rightarrow> int \<Rightarrow> micros \<Rightarrow> agent_row \<Rightarrow> bool" where
  "stale_agent tenant i run revision due_at g \<longleftrightarrow> g_tenant g = tenant \<and> g_id g = i \<and> g_run g = run
     \<and> g_version g = revision \<and> g_status g \<in> {AgentSubmitting, AgentRunning, AgentOutcomeUnknown}
     \<and> g_updated_at g \<le> due_at"

definition agent_reconciled_now :: "micros \<Rightarrow> agent_row \<Rightarrow> agent_row" where
  "agent_reconciled_now now g = g\<lparr>g_status := AgentReconciling,
     g_retry_at := (if g_remote_run g = None then Some now else None),
     g_status_poll_at := (if g_remote_run g \<noteq> None then Some now else None),
     g_version := g_version g + 1, g_updated_at := now\<rparr>"

definition stale_effect :: "string \<Rightarrow> run_row \<Rightarrow> maintenance_effect" where
  "stale_effect event_type run = \<lparr> me_event_type = event_type,
     me_status = (if r_status run = RunPaused then RunPaused else RunRetrying), me_terminal = False \<rparr>"

definition maintain_wait :: "uuid \<Rightarrow> uuid \<Rightarrow> micros \<Rightarrow> maintenance_candidate \<Rightarrow> uuid \<Rightarrow> maintenance_effect option txn" where
  "maintain_wait tenant run_id now candidate i =
    bindT (queryT (\<lambda>db. find (\<lambda>w. w_tenant w = tenant \<and> w_id w = i) (db_waits db))) (\<lambda>row.
    case row of
        None \<Rightarrow> returnT None
      | Some w \<Rightarrow>
          if w_run w \<noteq> run_id \<or> w_status w \<noteq> WaitOpen \<or> w_expires_at w \<noteq> Some (mc_due_at candidate)
          then returnT None
          else thenT (exec_update (update_waits
                  (\<lambda>w. w_tenant w = tenant \<and> w_id w = i \<and> w_status w = WaitOpen) (expired_wait now)))
               (returnT (Some \<lparr> me_event_type = ''wait.expired'', me_status = RunTimedOut, me_terminal = True \<rparr>)))"

definition maintain_tool ::
  "uuid \<Rightarrow> uuid \<Rightarrow> micros \<Rightarrow> maintenance_candidate \<Rightarrow> run_row \<Rightarrow> uuid \<Rightarrow> maintenance_effect option txn" where
  "maintain_tool tenant run_id now candidate run i =
    bindT (liftT (to_i64 (mc_expected_revision candidate) ''maintenance Tool revision'')) (\<lambda>expected.
    bindT (update_tools (stale_tool tenant i run_id expected (mc_due_at candidate)) (tool_query_scheduled now)) (\<lambda>updated.
    returnT (if updated \<noteq> 1 then None else Some (stale_effect ''tool.execution_stale'' run))))"

definition maintain_agent ::
  "uuid \<Rightarrow> uuid \<Rightarrow> micros \<Rightarrow> maintenance_candidate \<Rightarrow> run_row \<Rightarrow> uuid \<Rightarrow> maintenance_effect option txn" where
  "maintain_agent tenant run_id now candidate run i =
    bindT (liftT (to_i64 (mc_expected_revision candidate) ''maintenance Agent revision'')) (\<lambda>expected.
    thenT (\<lambda>db. guardT (increments_in_range (stale_agent tenant i run_id expected (mc_due_at candidate))
             g_version (db_agents db)) bigint_out_of_range db)
    (bindT (update_agents (stale_agent tenant i run_id expected (mc_due_at candidate)) (agent_reconciled_now now))
      (\<lambda>updated.
    returnT (if updated \<noteq> 1 then None else Some (stale_effect ''agent.execution_stale'' run)))))"

definition maintain_target ::
  "uuid \<Rightarrow> micros \<Rightarrow> maintenance_candidate \<Rightarrow> run_row \<Rightarrow> maintenance_effect option txn" where
  "maintain_target tenant now candidate run = (case mc_target candidate of
      MaintainRun i \<Rightarrow> returnT
        (if i \<noteq> mc_run_id candidate \<or> r_deadline run \<noteq> Some (mc_due_at candidate)
            \<or> (case r_deadline run of None \<Rightarrow> True | Some deadline \<Rightarrow> deadline > now)
         then None
         else Some \<lparr> me_event_type = ''run.timed_out'', me_status = RunTimedOut, me_terminal = True \<rparr>)
    | MaintainWait i \<Rightarrow> maintain_wait tenant (mc_run_id candidate) now candidate i
    | MaintainTool i \<Rightarrow> maintain_tool tenant (mc_run_id candidate) now candidate run i
    | MaintainAgent i \<Rightarrow> maintain_agent tenant (mc_run_id candidate) now candidate run i)"

section \<open>The end of a run that timed out\<close>

definition open_stage_of :: "uuid \<Rightarrow> uuid \<Rightarrow> stage_row \<Rightarrow> bool" where
  "open_stage_of tenant run s \<longleftrightarrow> s_tenant s = tenant \<and> s_run s = run
     \<and> s_status s \<in> {StagePlanned, StageActive, StageWaitingApproval, StageReworkRequired}"

definition cancelled_stage :: "micros \<Rightarrow> stage_row \<Rightarrow> stage_row" where
  "cancelled_stage now s = s\<lparr>s_status := StageCancelled, s_completed_at := Some now, s_updated_at := now,
     s_version := s_version s + 1\<rparr>"

definition finalize_timed_out_run :: "uuid \<Rightarrow> uuid \<Rightarrow> micros \<Rightarrow> unit txn" where
  "finalize_timed_out_run tenant run now =
    thenT (exec_update (update_attempts (\<lambda>a. a_tenant a = tenant \<and> a_run a = run \<and> a_finished_at a = None)
             (close_attempt AttemptCancelled (Some ''run_timed_out'') now)))
    (thenT (exec_update (update_tasks (\<lambda>t. t_tenant t = tenant \<and> t_run t = run \<and> closable_task (t_status t))
             (cancel_task (Some ''run_timed_out'') now)))
    (thenT (\<lambda>db. guardT (increments_in_range (open_stage_of tenant run) s_version (db_stages db)) bigint_out_of_range db)
    (thenT (exec_update (update_stages (open_stage_of tenant run) (cancelled_stage now)))
    (cancel_open_waits tenant run now))))"

section \<open>The handler\<close>

definition maintenance_event ::
  "command_context \<Rightarrow> apply_maintenance_command \<Rightarrow> maintenance_effect \<Rightarrow> int \<Rightarrow> micros \<Rightarrow> event_insert" where
  "maintenance_event ctx cmd effect sequence now = (let candidate = amc_candidate cmd in
    \<lparr> ei_event_id = amc_event_id cmd, ei_tenant_id = cc_tenant_id ctx, ei_run_id = mc_run_id candidate,
      ei_sequence = sequence, ei_event_type = me_event_type effect,
      ei_payload = JObject [(''maintenance_kind'', JString (me_event_type effect)),
        (''target_id'', json_uuid (maintenance_target_id candidate)),
        (''due_at_micros'', JInt (mc_due_at candidate)),
        (''expected_revision'', JInt (int (mc_expected_revision candidate)))],
      ei_payload_schema_version = 1, ei_producer = ''maintenance'', ei_context = ctx,
      ei_correlation_id = cc_correlation_id ctx, ei_occurred_at = None, ei_recorded_at = now \<rparr>)"

definition run_maintained :: "apply_maintenance_command \<Rightarrow> maintenance_effect \<Rightarrow> int \<Rightarrow> micros \<Rightarrow> run_row \<Rightarrow> run_row" where
  "run_maintained cmd effect next_seq now r = r\<lparr>r_status := me_status effect, r_suspended_from := None,
     r_version := r_version r + 1, r_next_seq := next_seq,
     r_terminal_event := (if me_terminal effect then Some (amc_event_id cmd) else r_terminal_event r),
     r_terminal_at := (if me_terminal effect then Some now else r_terminal_at r), r_updated_at := now\<rparr>"

definition maintain_locked_run ::
  "command_context \<Rightarrow> apply_maintenance_command \<Rightarrow> micros \<Rightarrow> run_row \<Rightarrow> maintenance_effect
   \<Rightarrow> maintenance_outcome option txn" where
  "maintain_locked_run ctx cmd now run effect =
    (let tenant = cc_tenant_id ctx; run_id = mc_run_id (amc_candidate cmd);
         P = run_at tenant run_id (r_version run) (r_generation run) in
    thenT (insert_event (maintenance_event ctx cmd effect (r_next_seq run) now))
    (thenT (if me_terminal effect then finalize_timed_out_run tenant run_id now else returnT ())
    (bindT (liftT (checked_add_i64_or (r_next_seq run) 1 (inconsistent ''run event sequence overflow'')))
      (\<lambda>next_seq.
    thenT (\<lambda>db. guardT (increments_in_range P r_version (db_runs db)) bigint_out_of_range db)
    (bindT (update_runs P (run_maintained cmd effect next_seq now)) (\<lambda>updated.
    thenT (guardT (updated = 1)
             (store_error_of VersionConflict ''Run changed while applying maintenance''))
    (returnT (Some \<lparr> mo_tenant_id = tenant, mo_run_id = run_id, mo_target = mc_target (amc_candidate cmd),
       mo_run_status = me_status effect, mo_applied_at = now \<rparr>))))))))"

definition overtaken :: "maintenance_candidate \<Rightarrow> run_row \<Rightarrow> bool" where
  "overtaken candidate run \<longleftrightarrow> i64_try_from (mc_run_version candidate) \<noteq> Some (r_version run)
     \<or> i64_try_from (mc_execution_generation candidate) \<noteq> Some (r_generation run)
     \<or> run_terminal (r_status run)"

definition apply_maintenance ::
  "command_context \<Rightarrow> apply_maintenance_command \<Rightarrow> micros \<Rightarrow> maintenance_outcome option txn" where
  "apply_maintenance ctx cmd now =
    (let candidate = amc_candidate cmd; tenant = cc_tenant_id ctx in
    thenT (guardT (mc_tenant_id candidate = tenant)
             (invalid_command ''maintenance candidate belongs to another tenant''))
    (thenT (guardT (mc_due_at candidate \<le> now)
             (store_error_of InvalidTransition ''maintenance candidate is not due''))
    (bindT (lock_event_run tenant (mc_run_id candidate)) (\<lambda>run.
    if overtaken candidate (le_run run) then returnT None
    else bindT (maintain_target tenant now candidate (le_run run)) (\<lambda>effect.
      case effect of
          None \<Rightarrow> returnT None
        | Some effect \<Rightarrow> maintain_locked_run ctx cmd now (le_run run) effect)))))"

section \<open>Effects\<close>

lemma keeps_maintain_target [keeps_intros]:
  assumes "\<And>db v. g (db\<lparr>db_waits := v\<rparr>) = g db" and "\<And>db v. g (db\<lparr>db_tools := v\<rparr>) = g db"
    and "\<And>db v. g (db\<lparr>db_agents := v\<rparr>) = g db"
  shows "keeps g (maintain_target tenant now candidate run)"
proof (cases "mc_target candidate")
  case (MaintainWait i)
  then show ?thesis unfolding maintain_target_def maintain_wait_def
    by (simp, intro keeps_intros) (simp_all add: assms)
next
  case (MaintainTool i)
  then show ?thesis unfolding maintain_target_def maintain_tool_def
    by (simp, intro keeps_intros) (simp_all add: assms)
next
  case (MaintainAgent i)
  then show ?thesis unfolding maintain_target_def maintain_agent_def
    by (simp, intro keeps_intros) (simp_all add: assms)
qed (auto simp: maintain_target_def intro!: keeps_intros)

lemma finalize_timed_out_effect:
  assumes "finalize_timed_out_run tenant run now db = Inr (u, db')"
  shows "db' = db\<lparr>db_attempts := sql_update (\<lambda>a. a_tenant a = tenant \<and> a_run a = run \<and> a_finished_at a = None)
             (close_attempt AttemptCancelled (Some ''run_timed_out'') now) (db_attempts db),
      db_tasks := sql_update (\<lambda>t. t_tenant t = tenant \<and> t_run t = run \<and> closable_task (t_status t))
             (cancel_task (Some ''run_timed_out'') now) (db_tasks db),
      db_stages := sql_update (open_stage_of tenant run) (cancelled_stage now) (db_stages db),
      db_waits := sql_update (\<lambda>w. w_tenant w = tenant \<and> w_run w = run \<and> w_status w = WaitOpen)
       (\<lambda>w. w\<lparr>w_status := WaitCancelled, w_active_slot := None, w_updated_at := now\<rparr>) (db_waits db)\<rparr>"
  using assms by (auto simp: finalize_timed_out_run_def cancel_open_waits_def txn_iffs)

lemma maintenance_event_sel [simp]:
  "ei_tenant_id (maintenance_event ctx cmd effect n now) = cc_tenant_id ctx"
  "ei_run_id (maintenance_event ctx cmd effect n now) = mc_run_id (amc_candidate cmd)"
  "ei_sequence (maintenance_event ctx cmd effect n now) = n"
  "ei_event_id (maintenance_event ctx cmd effect n now) = amc_event_id cmd"
  by (simp_all add: maintenance_event_def Let_def)

lemma run_maintained_sel [simp]:
  "same_run r (run_maintained cmd effect n now r)" "r_version (run_maintained cmd effect n now r) = r_version r + 1"
  "r_next_seq (run_maintained cmd effect n now r) = n" "r_status (run_maintained cmd effect n now r) = me_status effect"
  "r_generation (run_maintained cmd effect n now r) = r_generation r"
  "r_suspended_from (run_maintained cmd effect n now r) = None"
  "r_tenant (run_maintained cmd effect n now r) = r_tenant r" "r_id (run_maintained cmd effect n now r) = r_id r"
  by (simp_all add: run_maintained_def same_run_def)

text \<open>The event is written and then the work of the run is closed, or is left, before the run moves.\<close>

definition maintained_work ::
  "command_context \<Rightarrow> apply_maintenance_command \<Rightarrow> micros \<Rightarrow> run_row \<Rightarrow> maintenance_effect \<Rightarrow> db \<Rightarrow> db \<Rightarrow> bool" where
  "maintained_work ctx cmd now run effect db db2 \<longleftrightarrow>
    (if me_terminal effect then finalize_timed_out_run (cc_tenant_id ctx) (mc_run_id (amc_candidate cmd)) now else returnT ())
      (db\<lparr>db_events := db_events db @ [event_row_of (maintenance_event ctx cmd effect (r_next_seq run) now)],
          db_outbox := db_outbox db @ [outbox_row_of (maintenance_event ctx cmd effect (r_next_seq run) now)]\<rparr>)
      = Inr ((), db2)"

lemma maintain_locked_run_effect:
  assumes "maintain_locked_run ctx cmd now run effect db = Inr (x, db')"
    and P: "P = run_at (cc_tenant_id ctx) (mc_run_id (amc_candidate cmd)) (r_version run) (r_generation run)"
  obtains db2 where "maintained_work ctx cmd now run effect db db2"
    and "updates_pass run_checks P (run_maintained cmd effect (r_next_seq run + 1) now) (db_runs db2)"
    and "db' = db2\<lparr>db_runs := sql_update P (run_maintained cmd effect (r_next_seq run + 1) now) (db_runs db2)\<rparr>"
    and "x = Some \<lparr> mo_tenant_id = cc_tenant_id ctx, mo_run_id = mc_run_id (amc_candidate cmd),
       mo_target = mc_target (amc_candidate cmd), mo_run_status = me_status effect, mo_applied_at = now \<rparr>"
  using assms(1) unfolding maintain_locked_run_def maintained_work_def Let_def P
  by (auto simp: txn_iffs result_iffs)

lemma maintained_work_effect:
  assumes "maintained_work ctx cmd now run effect db db2"
  shows "db_runs db2 = db_runs db \<and> db_events db2
        = db_events db @ [event_row_of (maintenance_event ctx cmd effect (r_next_seq run) now)]
    \<and> db_outbox db2 = db_outbox db @ [outbox_row_of (maintenance_event ctx cmd effect (r_next_seq run) now)]
    \<and> (task_keys_ok db \<longrightarrow> task_keys_ok db2)"
  using assms
  by (cases "me_terminal effect")
    (auto simp: maintained_work_def txn_iffs task_keys_ok_def map_sql_update_same cancel_task_def
      dest!: finalize_timed_out_effect)

lemma apply_maintenance_cases:
  assumes "apply_maintenance ctx cmd now db = Inr (x, db')"
  obtains (skipped) "x = None" and "db_runs db' = db_runs db" and "db_events db' = db_events db"
      and "db_outbox db' = db_outbox db" and "db_tasks db' = db_tasks db"
    | (applied) run effect db1 where "mc_due_at (amc_candidate cmd) \<le> now"
      and "find_run (cc_tenant_id ctx) (mc_run_id (amc_candidate cmd)) db = Some run"
      and "\<not> overtaken (amc_candidate cmd) run"
      and "maintain_target (cc_tenant_id ctx) now (amc_candidate cmd) run db = Inr (Some effect, db1)"
      and "maintain_locked_run ctx cmd now run effect db1 = Inr (x, db')"
proof -
  let ?c = "amc_candidate cmd" let ?t = "cc_tenant_id ctx"
  from assms obtain run where due: "mc_due_at ?c \<le> now" and run: "find_run ?t (mc_run_id ?c) db = Some run"
    and rest: "(if overtaken ?c run then returnT None
      else bindT (maintain_target ?t now ?c run) (\<lambda>effect. case effect of
          None \<Rightarrow> returnT None | Some effect \<Rightarrow> maintain_locked_run ctx cmd now run effect)) db = Inr (x, db')"
    by (auto simp: apply_maintenance_def Let_def txn_iffs find_run_def)
  show thesis
  proof (cases "overtaken ?c run")
    case True
    then show ?thesis using rest by (intro that(1)) (simp_all add: txn_iffs)
  next
    case False
    with rest obtain e db1 where target: "maintain_target ?t now ?c run db = Inr (e, db1)"
      and moved: "(case e of None \<Rightarrow> returnT None | Some effect \<Rightarrow> maintain_locked_run ctx cmd now run effect) db1 = Inr (x, db')"
      by (auto simp: txn_iffs)
    have same: "g db1 = g db" if "keeps g (maintain_target ?t now ?c run)" for g :: "db \<Rightarrow> 'v"
      using keepsD [OF that target] .
    have kept: "db_runs db1 = db_runs db" "db_events db1 = db_events db" "db_outbox db1 = db_outbox db" "db_tasks db1 = db_tasks db"
      by (rule same, intro keeps_intros, simp_all)+
    show ?thesis
    proof (cases e)
      case None
      then show ?thesis using moved kept
        by (intro that(1)) (simp_all add: txn_iffs)
    next
      case (Some effect)
      then show ?thesis using moved target by (intro that(2) [OF due run False]) simp_all
    qed
  qed
qed

lemma maintain_target_keeps:
  assumes "maintain_target tenant now candidate run db = Inr (e, db1)"
  shows "db_runs db1 = db_runs db" and "db_events db1 = db_events db" and "db_outbox db1 = db_outbox db"
    and "db_tasks db1 = db_tasks db" and "db_attempts db1 = db_attempts db" and "db_stages db1 = db_stages db"
proof -
  have same: "g db1 = g db" if "keeps g (maintain_target tenant now candidate run)" for g :: "db \<Rightarrow> 'v"
    using keepsD [OF that assms] .
  show "db_runs db1 = db_runs db" and "db_events db1 = db_events db" and "db_outbox db1 = db_outbox db"
    and "db_tasks db1 = db_tasks db" and "db_attempts db1 = db_attempts db" and "db_stages db1 = db_stages db"
    by (rule same, intro keeps_intros, simp_all)+
qed

lemma apply_maintenance_effect:
  assumes "runs_ok db" and "apply_maintenance ctx cmd now db = Inr (x, db')"
  shows "quiet db db' \<or> advances db db'"
  using assms(2)
proof (cases rule: apply_maintenance_cases)
  case (applied run effect db1)
  note same = maintain_target_keeps [OF applied(4)]
  note ids = find_run_Some [OF applied(2)]
  let ?P = "run_at (cc_tenant_id ctx) (mc_run_id (amc_candidate cmd)) (r_version run) (r_generation run)"
  let ?f = "run_maintained cmd effect (r_next_seq run + 1) now"
  from applied(5) obtain db2 where work: "maintained_work ctx cmd now run effect db1 db2"
    and pass: "updates_pass run_checks ?P ?f (db_runs db2)"
    and db': "db' = db2\<lparr>db_runs := sql_update ?P ?f (db_runs db2)\<rparr>"
    by (rule maintain_locked_run_effect [OF _ refl])
  have "advances db db'"
    by (rule advances_by_update [where run = run and P = ?P and f = ?f
          and e = "maintenance_event ctx cmd effect (r_next_seq run) now", OF assms(1)])
      (use ids applied(3) pass same maintained_work_effect [OF work] in
        \<open>auto simp: db' overtaken_def run_at_def same_run_def\<close>)
  then show ?thesis ..
qed (simp add: quiet_def)

lemma apply_maintenance_keys:
  assumes "task_keys_ok db" and "apply_maintenance ctx cmd now db = Inr (x, db')"
  shows "task_keys_ok db'"
  using assms(2)
proof (cases rule: apply_maintenance_cases)
  case (applied run effect db1)
  have "task_keys_ok db1"
    using assms(1) maintain_target_keeps(4) [OF applied(4)] by (simp add: task_keys_ok_def)
  with applied(5) show ?thesis
    by (elim maintain_locked_run_effect [OF _ refl]) (auto dest!: maintained_work_effect simp: task_keys_ok_def)
qed (use assms(1) in \<open>simp add: task_keys_ok_def\<close>)

interpretation maintenance_cmd: run_command "\<lambda>(ctx, cmd, now). apply_maintenance ctx cmd now"
  by unfold_locales
     (auto dest: apply_maintenance_effect [OF store_okD(1)] apply_maintenance_keys [OF store_okD(2)])

section \<open>A run that times out has no open work\<close>

text \<open>Why a run times out.\<close>

definition timeout_cause :: "uuid \<Rightarrow> maintenance_candidate \<Rightarrow> run_row \<Rightarrow> db \<Rightarrow> bool" where
  "timeout_cause tenant candidate run db \<longleftrightarrow> (case mc_target candidate of
      MaintainRun i \<Rightarrow> i = mc_run_id candidate \<and> r_deadline run = Some (mc_due_at candidate)
    | MaintainWait i \<Rightarrow> (\<exists>w \<in> set (db_waits db). w_tenant w = tenant \<and> w_id w = i \<and> w_run w = mc_run_id candidate
        \<and> w_status w = WaitOpen \<and> w_expires_at w = Some (mc_due_at candidate))
    | _ \<Rightarrow> False)"

lemma maintain_target_timeout:
  assumes "maintain_target tenant now candidate run db = Inr (Some effect, db1)"
  shows "me_terminal effect \<longleftrightarrow> me_status effect = RunTimedOut"
    and "me_terminal effect \<Longrightarrow> timeout_cause tenant candidate run db"
proof -
  have "(me_terminal effect \<longleftrightarrow> me_status effect = RunTimedOut)
    \<and> (me_terminal effect \<longrightarrow> timeout_cause tenant candidate run db)"
  proof (cases "mc_target candidate")
    case (MaintainRun i)
    with assms show ?thesis
      by (auto simp: maintain_target_def timeout_cause_def txn_iffs split: if_splits)
  next
    case (MaintainWait i)
    show ?thesis
    proof (cases "find (\<lambda>w. w_tenant w = tenant \<and> w_id w = i) (db_waits db)")
      case (Some w)
      with MaintainWait assms find_Some_in [OF Some] show ?thesis
        by (auto simp: maintain_target_def maintain_wait_def timeout_cause_def txn_iffs split: if_splits)
    qed (use MaintainWait assms in \<open>simp add: maintain_target_def maintain_wait_def txn_iffs\<close>)
  next
    case (MaintainTool i)
    with assms show ?thesis
      by (auto simp: maintain_target_def maintain_tool_def stale_effect_def txn_iffs split: if_splits)
  next
    case (MaintainAgent i)
    with assms show ?thesis
      by (auto simp: maintain_target_def maintain_agent_def stale_effect_def txn_iffs split: if_splits)
  qed
  then show "me_terminal effect \<longleftrightarrow> me_status effect = RunTimedOut"
    and "me_terminal effect \<Longrightarrow> timeout_cause tenant candidate run db" by simp_all
qed

definition run_work_closed :: "uuid \<Rightarrow> uuid \<Rightarrow> db \<Rightarrow> bool" where
  "run_work_closed tenant run db \<longleftrightarrow>
     (\<forall>t \<in> set (db_tasks db). t_tenant t = tenant \<and> t_run t = run \<longrightarrow> task_terminal (t_status t))
   \<and> (\<forall>a \<in> set (db_attempts db). a_tenant a = tenant \<and> a_run a = run \<longrightarrow> a_finished_at a \<noteq> None)
   \<and> (\<forall>s \<in> set (db_stages db). s_tenant s = tenant \<and> s_run s = run \<longrightarrow> stage_terminal (s_status s))
   \<and> (\<forall>w \<in> set (db_waits db). w_tenant w = tenant \<and> w_run w = run \<longrightarrow> w_status w \<noteq> WaitOpen)"

lemma unclosable_task: "\<not> closable_task s \<Longrightarrow> task_terminal s"
  by (cases s) (simp_all add: closable_task_def status_sets)

lemma unopen_stage:
  "s_tenant s = tenant \<Longrightarrow> s_run s = run \<Longrightarrow> \<not> open_stage_of tenant run s \<Longrightarrow> stage_terminal (s_status s)"
  by (cases "s_status s") (simp_all add: open_stage_of_def status_sets)

lemma finalize_timed_out_closes:
  assumes "finalize_timed_out_run tenant run now db = Inr (u, db')"
  shows "run_work_closed tenant run db'"
proof -
  note db' = finalize_timed_out_effect [OF assms]
  have tables: "db_tasks db' = sql_update (\<lambda>t. t_tenant t = tenant \<and> t_run t = run \<and> closable_task (t_status t))
      (cancel_task (Some ''run_timed_out'') now) (db_tasks db)"
    "db_attempts db' = sql_update (\<lambda>a. a_tenant a = tenant \<and> a_run a = run \<and> a_finished_at a = None)
      (close_attempt AttemptCancelled (Some ''run_timed_out'') now) (db_attempts db)"
    "db_stages db' = sql_update (open_stage_of tenant run) (cancelled_stage now) (db_stages db)"
    "db_waits db' = sql_update (\<lambda>w. w_tenant w = tenant \<and> w_run w = run \<and> w_status w = WaitOpen)
       (\<lambda>w. w\<lparr>w_status := WaitCancelled, w_active_slot := None, w_updated_at := now\<rparr>) (db_waits db)"
    by (simp_all add: db')
  show ?thesis
    unfolding run_work_closed_def tables all_sql_update
  proof (intro conjI ballI)
    fix t :: task_row
    show "t_tenant (if t_tenant t = tenant \<and> t_run t = run \<and> closable_task (t_status t)
          then cancel_task (Some ''run_timed_out'') now t else t) = tenant
      \<and> t_run (if t_tenant t = tenant \<and> t_run t = run \<and> closable_task (t_status t)
          then cancel_task (Some ''run_timed_out'') now t else t) = run
      \<longrightarrow> task_terminal (t_status (if t_tenant t = tenant \<and> t_run t = run \<and> closable_task (t_status t)
          then cancel_task (Some ''run_timed_out'') now t else t))"
      using unclosable_task [of "t_status t"] by (auto simp: cancel_task_def status_sets)
  next
    fix s :: stage_row
    show "s_tenant (if open_stage_of tenant run s then cancelled_stage now s else s) = tenant
      \<and> s_run (if open_stage_of tenant run s then cancelled_stage now s else s) = run
      \<longrightarrow> stage_terminal (s_status (if open_stage_of tenant run s then cancelled_stage now s else s))"
      by (simp add: cancelled_stage_def stage_terminal_def [of StageCancelled] unopen_stage)
  qed (simp_all add: close_attempt_def)
qed

text \<open>
  C27: if maintenance times a run out, the run was live and as it was scanned, and its deadline, or the
  expiry of one of its open waits, is the due time and has passed. Then the run has timed out with the
  maintenance event as its terminal event, every task of it is terminal, every attempt finished, every
  stage closed and no wait open, and the tasks of other runs are unchanged.
\<close>

theorem maintenance_timeout_closes_run:
  assumes "apply_maintenance ctx cmd now db = Inr (Some out, db')" and "mo_run_status out = RunTimedOut"
    and "candidate = amc_candidate cmd" and "tenant = cc_tenant_id ctx" and "i = mc_run_id candidate"
  shows "\<exists>run run'. find_run tenant i db = Some run \<and> \<not> run_terminal (r_status run)
    \<and> r_version run = int (mc_run_version candidate) \<and> mc_due_at candidate \<le> now
    \<and> timeout_cause tenant candidate run db
    \<and> find_run tenant i db' = Some run' \<and> r_status run' = RunTimedOut
    \<and> r_terminal_event run' = Some (amc_event_id cmd) \<and> run_work_closed tenant i db'
    \<and> filter (\<lambda>t. \<not> (t_tenant t = tenant \<and> t_run t = i)) (db_tasks db')
      = filter (\<lambda>t. \<not> (t_tenant t = tenant \<and> t_run t = i)) (db_tasks db)"
  using assms(1)
proof (cases rule: apply_maintenance_cases)
  case (applied run effect db1)
  note names = assms(3-5)
  let ?P = "run_at tenant i (r_version run) (r_generation run)"
  let ?f = "run_maintained cmd effect (r_next_seq run + 1) now"
  from applied(5) obtain db2 where work: "maintained_work ctx cmd now run effect db1 db2"
    and db': "db' = db2\<lparr>db_runs := sql_update ?P ?f (db_runs db2)\<rparr>"
    and out: "mo_run_status out = me_status effect"
    unfolding names by (rule maintain_locked_run_effect [OF _ refl]) simp
  have terminal: "me_terminal effect" using maintain_target_timeout(1) [OF applied(4)] assms(2) out by simp
  with work have closing: "finalize_timed_out_run tenant i now
      (db1\<lparr>db_events := db_events db1 @ [event_row_of (maintenance_event ctx cmd effect (r_next_seq run) now)],
           db_outbox := db_outbox db1 @ [outbox_row_of (maintenance_event ctx cmd effect (r_next_seq run) now)]\<rparr>)
      = Inr ((), db2)" by (simp add: maintained_work_def names)
  have closed: "run_work_closed tenant i db'"
    using finalize_timed_out_closes [OF closing] by (simp add: db' run_work_closed_def)
  note same = maintain_target_keeps [OF applied(4)]
  have others: "filter (\<lambda>t. \<not> (t_tenant t = tenant \<and> t_run t = i)) (db_tasks db')
      = filter (\<lambda>t. \<not> (t_tenant t = tenant \<and> t_run t = i)) (db_tasks db)"
  proof -
    have "db_tasks db' = sql_update (\<lambda>t. t_tenant t = tenant \<and> t_run t = i \<and> closable_task (t_status t))
        (cancel_task (Some ''run_timed_out'') now) (db_tasks db)"
      using finalize_timed_out_effect [OF closing] same(4) by (simp add: db')
    then show ?thesis
      by (simp only:) (rule filter_sql_update_other, simp add: cancel_task_def)
  qed
  have found: "find_run tenant i db = Some run" using applied(2) by (simp add: names)
  then have "find_run tenant i db' = Some (?f run)"
    using find_run_Some [OF found] same(1) maintained_work_effect [OF work]
    by (simp add: find_run_def db' find_sql_update run_at_def)
  moreover have "r_status (?f run) = RunTimedOut" "r_terminal_event (?f run) = Some (amc_event_id cmd)"
    using assms(2) out terminal by (simp_all add: run_maintained_def)
  ultimately show ?thesis
    using found applied(1,3) maintain_target_timeout(2) [OF applied(4) terminal] closed others
    by (auto simp: names overtaken_def i64_try_from_Some)
qed simp

section \<open>The stale execution of a paused run\<close>

text \<open>The executions a candidate names that are as stale as it was scanned.\<close>

definition stale_rows :: "uuid \<Rightarrow> maintenance_candidate \<Rightarrow> db \<Rightarrow> nat" where
  "stale_rows tenant candidate db = (case mc_target candidate of
      MaintainTool i \<Rightarrow> sql_count (stale_tool tenant i (mc_run_id candidate)
        (int (mc_expected_revision candidate)) (mc_due_at candidate)) (db_tools db)
    | MaintainAgent i \<Rightarrow> sql_count (stale_agent tenant i (mc_run_id candidate)
        (int (mc_expected_revision candidate)) (mc_due_at candidate)) (db_agents db)
    | _ \<Rightarrow> 0)"

lemma maintain_target_stale:
  assumes "maintain_target tenant now candidate run db = Inr (e, db1)" and "stale_rows tenant candidate db = 1"
  obtains event_type where "e = Some (stale_effect event_type run)"
  using assms
  by (cases "mc_target candidate")
    (auto simp: maintain_target_def maintain_tool_def maintain_agent_def stale_rows_def txn_iffs)

text \<open>
  C28: the maintenance of a stale tool or agent execution of a paused run fails, also when the
  candidate is exactly as the scan finds it, and the scan of due maintenance finds paused runs: the
  update of the run keeps it paused but clears the status it was suspended from, which the check of
  its table refuses.
\<close>

theorem stale_maintenance_of_paused_run_fails:
  assumes "find_run (cc_tenant_id ctx) (mc_run_id (amc_candidate cmd)) db = Some run"
    and "r_status run = RunPaused" and "\<not> overtaken (amc_candidate cmd) run"
    and "stale_rows (cc_tenant_id ctx) (amc_candidate cmd) db = 1"
  shows "\<exists>e. apply_maintenance ctx cmd now db = Inl e"
proof (rule ccontr)
  let ?c = "amc_candidate cmd" let ?t = "cc_tenant_id ctx"
  assume "\<not> ?thesis"
  then obtain x db' where "apply_maintenance ctx cmd now db = Inr (x, db')"
    by (cases "apply_maintenance ctx cmd now db") auto
  with assms(1,3) obtain e db1 where target: "maintain_target ?t now ?c run db = Inr (e, db1)"
    and moved: "(case e of None \<Rightarrow> returnT None | Some effect \<Rightarrow> maintain_locked_run ctx cmd now run effect) db1 = Inr (x, db')"
    by (auto simp: apply_maintenance_def Let_def txn_iffs find_run_def)
  from target assms(4) obtain event_type where e: "e = Some (stale_effect event_type run)"
    by (rule maintain_target_stale)
  let ?f = "run_maintained cmd (stale_effect event_type run) (r_next_seq run + 1) now"
  from moved e have "maintain_locked_run ctx cmd now run (stale_effect event_type run) db1 = Inr (x, db')" by simp
  then obtain db2 where work: "maintained_work ctx cmd now run (stale_effect event_type run) db1 db2"
    and pass: "updates_pass run_checks (run_at ?t (mc_run_id ?c) (r_version run) (r_generation run)) ?f (db_runs db2)"
    by (rule maintain_locked_run_effect [OF _ refl])
  from maintained_work_effect [OF work] maintain_target_keeps(1) [OF target]
  have "db_runs db2 = db_runs db" by simp
  with pass find_run_Some [OF assms(1)] have "run_checks (?f run)"
    by (auto intro: updates_passD simp: run_at_def)
  then show False using assms(2) by (simp add: run_checks_def stale_effect_def)
qed

section \<open>Maintenance of a sample run\<close>

definition sample_maintenance :: "maintenance_target \<Rightarrow> apply_maintenance_command" where
  "sample_maintenance target = \<lparr> amc_candidate = \<lparr> mc_tenant_id = 7, mc_run_id = 1, mc_target = target,
       mc_due_at = 100, mc_expected_revision = 1, mc_run_version = 0, mc_execution_generation = 0 \<rparr>,
     amc_event_id = 95 \<rparr>"

definition sample_deadline_db :: db where
  "sample_deadline_db = sample_leased_db\<lparr>db_runs := [sample_run\<lparr>r_status := RunRunning, r_deadline := Some 100\<rparr>]\<rparr>"

definition sample_stale_tool :: tool_row where
  "sample_stale_tool = \<lparr> x_id = 30, x_tenant = 7, x_run = 1, x_stage = None, x_task = 2, x_call_id = ''call'',
     x_name = ''tool'', x_scope = ''s'', x_key = ''k'', x_hash = 5, x_status = ToolExecuting, x_attempts = 1,
     x_request = JObject [], x_result = None, x_error_code = None, x_recovery_action = None,
     x_external_ref = None, x_started_at = 50, x_created_at = 50, x_updated_at = 50, x_completed_at = None,
     x_retry_at = None \<rparr>"

definition sample_paused_db :: db where
  "sample_paused_db = sample_db\<lparr>db_runs := [sample_run\<lparr>r_status := RunPaused, r_suspended_from := Some RunRunning\<rparr>],
     db_tools := [sample_stale_tool]\<rparr>"

lemmas sample_maintenance_defs = sample_maintenance_def sample_deadline_db_def sample_stale_tool_def sample_paused_db_def

lemmas maintenance_eval = apply_maintenance_def overtaken_def maintain_target_def maintain_locked_run_def
  maintenance_event_def maintenance_target_id_def run_maintained_def finalize_timed_out_run_def open_stage_of_def
  cancelled_stage_def close_attempt_def cancel_task_def cancel_open_waits_def closable_task_def
  lock_event_run_def run_at_def i64_try_from_def Let_def

theorem maintenance_timeout_closes_run_witness:
  "\<exists>out db'. apply_maintenance (sample_context 79 ''m1'') (sample_maintenance (MaintainRun 1)) 110 sample_deadline_db
      = Inr (Some out, db') \<and> run_work_closed 7 1 db'"
proof -
  have "\<exists>out db'. apply_maintenance (sample_context 79 ''m1'') (sample_maintenance (MaintainRun 1)) 110 sample_deadline_db
      = Inr (Some out, db') \<and> mo_run_status out = RunTimedOut"
    by (simp add: sample_maintenance_defs sample_defs status_sets maintenance_eval create_eval txn_eval)
  then obtain out db' where run: "apply_maintenance (sample_context 79 ''m1'') (sample_maintenance (MaintainRun 1))
      110 sample_deadline_db = Inr (Some out, db')" and st: "mo_run_status out = RunTimedOut" by blast
  from maintenance_timeout_closes_run [OF run st refl refl refl] run show ?thesis
    by (auto simp: sample_maintenance_def sample_context_def)
qed

theorem stale_maintenance_of_paused_run_fails_witness:
  "\<exists>e. apply_maintenance (sample_context 79 ''m2'') (sample_maintenance (MaintainTool 30)) 110 sample_paused_db = Inl e"
  by (rule stale_maintenance_of_paused_run_fails [where run = "sample_run\<lparr>r_status := RunPaused, r_suspended_from := Some RunRunning\<rparr>"])
    (simp_all add: sample_maintenance_defs sample_defs overtaken_def status_sets find_run_def i64_try_from_def
      stale_rows_def stale_tool_def sql_count_def)

end
