(* ===== verification/Schedules.thy ===== *)
theory Schedules
  imports CreateRun
begin

text \<open>
  The schedules that fire runs: \<open>create_schedule\<close> of \<open>transaction_executor.rs\<close>, \<open>advance_schedule\<close> and
  \<open>has_active_schedule_runs\<close> of \<open>query_executor.rs\<close>, and the plan of one poll, \<open>dispatch_plan\<close> of
  \<open>server/src/schedule.rs\<close>, with the dispatch that carries it out. The Cron library and the time zones
  are arguments. Proved: a plan fires consecutive times, none of them early, at most a hundred, and
  leaves the cursor behind none of them.
\<close>

section \<open>Creating a schedule\<close>

record create_schedule_command =
  csc_schedule_id :: uuid
  csc_workflow_version_id :: uuid
  csc_cron_expression :: string
  csc_timezone :: string
  csc_input :: json_payload
  csc_misfire_policy :: schedule_misfire_policy
  csc_concurrency_policy :: schedule_concurrency_policy
  csc_catch_up_limit :: nat
  csc_next_fire_at :: micros

definition schedule_metadata_is_invalid :: "create_schedule_command \<Rightarrow> bool" where
  "schedule_metadata_is_invalid cmd \<longleftrightarrow> csc_schedule_id cmd = 0
     \<or> csc_cron_expression cmd = [] \<or> length (csc_cron_expression cmd) > 255
     \<or> csc_timezone cmd = [] \<or> length (csc_timezone cmd) > 128
     \<or> csc_catch_up_limit cmd = 0 \<or> csc_catch_up_limit cmd > 100 \<or> csc_next_fire_at cmd \<le> 0"

definition new_schedule_row ::
  "command_context \<Rightarrow> create_schedule_command \<Rightarrow> json \<Rightarrow> micros \<Rightarrow> schedule_row" where
  "new_schedule_row ctx cmd input now = \<lparr> z_id = csc_schedule_id cmd, z_tenant = cc_tenant_id ctx,
     z_workflow_version = csc_workflow_version_id cmd, z_cron = csc_cron_expression cmd,
     z_timezone = csc_timezone cmd, z_input = input, z_status = ScheduleActive,
     z_misfire = csc_misfire_policy cmd, z_concurrency = csc_concurrency_policy cmd,
     z_catch_up_limit = int (csc_catch_up_limit cmd), z_next_fire_at = csc_next_fire_at cmd,
     z_last_fire_at = None, z_version = 0, z_created_by = cc_actor_ref ctx, z_created_at = now,
     z_updated_at = now \<rparr>"

definition schedule_checks :: "schedule_row \<Rightarrow> bool" where
  "schedule_checks z \<longleftrightarrow> z_cron z \<noteq> [] \<and> z_timezone z \<noteq> [] \<and> z_created_by z \<noteq> []
     \<and> 1 \<le> z_catch_up_limit z \<and> z_catch_up_limit z \<le> 100 \<and> 0 \<le> z_version z"

definition insert_schedule :: "schedule_row \<Rightarrow> unit txn" where
  "insert_schedule z = insert_row (schedule_checks z)
     (\<lambda>db. \<not> sql_exists (\<lambda>v. z_id v = z_id z) (db_schedules db)) (\<lambda>_. True)
     (\<lambda>db. db\<lparr>db_schedules := db_schedules db @ [z]\<rparr>)"

definition new_schedule_snapshot :: "command_context \<Rightarrow> create_schedule_command \<Rightarrow> micros \<Rightarrow> schedule_snapshot" where
  "new_schedule_snapshot ctx cmd now = \<lparr> ss_tenant_id = cc_tenant_id ctx,
     ss_schedule_id = csc_schedule_id cmd, ss_workflow_version_id = csc_workflow_version_id cmd,
     ss_cron_expression = csc_cron_expression cmd, ss_timezone = csc_timezone cmd, ss_input = csc_input cmd,
     ss_status = ScheduleActive, ss_misfire_policy = csc_misfire_policy cmd,
     ss_concurrency_policy = csc_concurrency_policy cmd, ss_catch_up_limit = csc_catch_up_limit cmd,
     ss_next_fire_at = csc_next_fire_at cmd, ss_last_fire_at = None, ss_version = 0,
     ss_created_at = now, ss_updated_at = now \<rparr>"

definition schedule_committed :: "command_disposition \<Rightarrow> schedule_snapshot \<Rightarrow> schedule_snapshot committed" where
  "schedule_committed d snapshot = \<lparr> disposition = d, committed_value = snapshot, event_ids = [],
     durable_follow_ups = [], post_commit_hints = [] \<rparr>"

definition duplicate_schedule ::
  "externals \<Rightarrow> command_context \<Rightarrow> stored_outcome \<Rightarrow> uuid option \<Rightarrow> schedule_snapshot committed store_result" where
  "duplicate_schedule ext ctx outcome event =
    bindR (decode_schedule_receipt ext (cc_tenant_id ctx) outcome) (\<lambda>snapshot.
    Inr (schedule_committed Duplicate snapshot))"

definition create_schedule ::
  "externals \<Rightarrow> nat \<Rightarrow> command_context \<Rightarrow> create_schedule_command \<Rightarrow> micros \<Rightarrow> schedule_snapshot committed txn" where
  "create_schedule ext ttl ctx cmd now =
    thenT (guardT (\<not> schedule_metadata_is_invalid cmd) (invalid_command ''Schedule metadata is invalid''))
    (with_receipt ctx now ttl (duplicate_schedule ext ctx)
      (bindT (liftT (json_value ext (csc_input cmd))) (\<lambda>input.
      thenT (insert_schedule (new_schedule_row ctx cmd input now))
      (let snapshot = new_schedule_snapshot ctx cmd now in
      bindT (liftT (encode_schedule_receipt ext snapshot)) (\<lambda>outcome.
      thenT (finish_receipt ctx ReceiptApplied outcome None (Some (''schedule'', csc_schedule_id cmd, 0)))
      (returnT (schedule_committed Applied snapshot)))))))"

section \<open>The cursor of a schedule\<close>

record advance_schedule_command =
  asc_schedule_id :: uuid
  asc_expected_version :: nat
  asc_expected_next_fire_at :: micros
  asc_last_fire_at :: "micros option"
  asc_next_fire_at :: micros

definition cursor_at :: "uuid \<Rightarrow> uuid \<Rightarrow> int \<Rightarrow> micros \<Rightarrow> schedule_row \<Rightarrow> bool" where
  "cursor_at tenant i version next_fire z \<longleftrightarrow> z_tenant z = tenant \<and> z_id z = i \<and> z_status z = ScheduleActive
     \<and> z_version z = version \<and> z_next_fire_at z = next_fire"

definition cursor_moved :: "advance_schedule_command \<Rightarrow> micros \<Rightarrow> schedule_row \<Rightarrow> schedule_row" where
  "cursor_moved cmd now z = z\<lparr>z_last_fire_at := (case asc_last_fire_at cmd of None \<Rightarrow> z_last_fire_at z | t \<Rightarrow> t),
     z_next_fire_at := asc_next_fire_at cmd, z_version := z_version z + 1, z_updated_at := now\<rparr>"

definition update_schedules :: "(schedule_row \<Rightarrow> bool) \<Rightarrow> (schedule_row \<Rightarrow> schedule_row) \<Rightarrow> nat txn" where
  "update_schedules P f db =
    (if updates_pass schedule_checks P f (db_schedules db)
     then Inr (sql_count P (db_schedules db), db\<lparr>db_schedules := sql_update P f (db_schedules db)\<rparr>)
     else Inl check_violation)"

definition advance_schedule :: "uuid \<Rightarrow> advance_schedule_command \<Rightarrow> micros \<Rightarrow> bool txn" where
  "advance_schedule tenant cmd now =
    bindT (liftT (ok_or (i64_try_from (asc_expected_version cmd))
             (inconsistent ''Schedule version exceeds database range''))) (\<lambda>version.
    let P = cursor_at tenant (asc_schedule_id cmd) version (asc_expected_next_fire_at cmd) in
    thenT (\<lambda>db. guardT (increments_in_range P z_version (db_schedules db)) bigint_out_of_range db)
    (bindT (update_schedules P (cursor_moved cmd now)) (\<lambda>updated.
    returnT (updated = 1))))"

definition has_active_schedule_runs :: "uuid \<Rightarrow> uuid \<Rightarrow> db \<Rightarrow> bool" where
  "has_active_schedule_runs tenant i db = sql_exists (active_scheduled_run tenant i) (db_runs db)"

section \<open>The plan of a poll\<close>

text \<open>The Cron library: expressions, time zones, the times they describe, in microseconds.\<close>

record ('e, 'z) cron_library =
  cl_parse :: "string \<Rightarrow> 'e option"
  cl_timezone :: "string \<Rightarrow> 'z option"
  cl_in_range :: "micros \<Rightarrow> bool"
  cl_includes :: "'e \<Rightarrow> 'z \<Rightarrow> micros \<Rightarrow> bool"
  cl_after :: "'e \<Rightarrow> 'z \<Rightarrow> micros \<Rightarrow> micros option"

record dispatch_plan_result =
  dp_fires :: "micros list"
  dp_next_fire_at :: micros

definition MAX_CATCH_UP_LIMIT :: nat where
  "MAX_CATCH_UP_LIMIT = 100"

definition ascii_whitespace :: "char \<Rightarrow> bool" where
  "ascii_whitespace c \<longleftrightarrow> c \<in> {CHR 0x09, CHR 0x0A, CHR 0x0C, CHR 0x0D, CHR '' ''}"

text \<open>The number of maximal runs of characters that are not white space.\<close>

fun count_fields :: "bool \<Rightarrow> string \<Rightarrow> nat" where
  "count_fields in_field [] = 0"
| "count_fields in_field (c # cs) =
    (if ascii_whitespace c then count_fields False cs
     else if in_field then count_fields True cs
     else Suc (count_fields True cs))"

definition parse_schedule :: "('e, 'z) cron_library \<Rightarrow> string \<Rightarrow> string + 'e" where
  "parse_schedule lib expression = (case cl_parse lib (''0 '' @ expression @ '' *'') of
      None \<Rightarrow> Inl ''cron_expression must be a valid five-field Cron expression''
    | Some e \<Rightarrow> Inr e)"

definition next_after :: "('e, 'z) cron_library \<Rightarrow> 'e \<Rightarrow> 'z \<Rightarrow> micros \<Rightarrow> string + micros" where
  "next_after lib e z t =
    (if \<not> cl_in_range lib t then Inl ''Schedule timestamp is outside the supported range''
     else case cl_after lib e z t of
         None \<Rightarrow> Inl ''Cron expression has no later fire time''
       | Some t' \<Rightarrow> Inr t')"

definition validate_schedule_definition :: "('e, 'z) cron_library \<Rightarrow> string \<Rightarrow> string \<Rightarrow> string + unit" where
  "validate_schedule_definition lib expression timezone =
    (if count_fields False expression \<noteq> 5 then Inl ''cron_expression must be a five-field Cron expression''
     else case parse_schedule lib expression of
         Inl e \<Rightarrow> Inl e
       | Inr _ \<Rightarrow> (case cl_timezone lib timezone of
             None \<Rightarrow> Inl ''timezone must be a valid IANA timezone''
           | Some _ \<Rightarrow> Inr ()))"

definition next_fire_after :: "('e, 'z) cron_library \<Rightarrow> string \<Rightarrow> string \<Rightarrow> micros \<Rightarrow> string + micros" where
  "next_fire_after lib expression timezone t = (case parse_schedule lib expression of
      Inl e \<Rightarrow> Inl e
    | Inr e \<Rightarrow> (case cl_timezone lib timezone of
          None \<Rightarrow> Inl ''timezone must be a valid IANA timezone''
        | Some z \<Rightarrow> next_after lib e z t))"

text \<open>The loop of the catch-up policy, with the number of fires that are left to the limit.\<close>

fun catch_up ::
  "('e, 'z) cron_library \<Rightarrow> 'e \<Rightarrow> 'z \<Rightarrow> micros \<Rightarrow> nat \<Rightarrow> micros \<Rightarrow> micros list \<Rightarrow> string + dispatch_plan_result" where
  "catch_up lib e z now 0 cursor fires = Inr \<lparr> dp_fires = fires, dp_next_fire_at = cursor \<rparr>"
| "catch_up lib e z now (Suc n) cursor fires =
    (if cursor \<le> now then (case next_after lib e z cursor of
         Inl err \<Rightarrow> Inl err
       | Inr t \<Rightarrow> catch_up lib e z now n t (fires @ [cursor]))
     else Inr \<lparr> dp_fires = fires, dp_next_fire_at = cursor \<rparr>)"

definition plan_then :: "string + micros \<Rightarrow> micros list \<Rightarrow> string + dispatch_plan_result" where
  "plan_then next_fire fires = (case next_fire of
      Inl err \<Rightarrow> Inl err
    | Inr t \<Rightarrow> Inr \<lparr> dp_fires = fires, dp_next_fire_at = t \<rparr>)"

definition due_plan ::
  "('e, 'z) cron_library \<Rightarrow> schedule_snapshot \<Rightarrow> micros \<Rightarrow> 'e \<Rightarrow> 'z \<Rightarrow> string + dispatch_plan_result" where
  "due_plan lib schedule now e z =
    (if \<not> cl_includes lib e z (ss_next_fire_at schedule) then plan_then (next_after lib e z now) []
     else (case ss_misfire_policy schedule of
         MisfireSkip \<Rightarrow> plan_then (next_after lib e z now) []
       | MisfireFireOnce \<Rightarrow> plan_then (next_after lib e z now) [ss_next_fire_at schedule]
       | MisfireCatchUp \<Rightarrow> catch_up lib e z now
           (min MAX_CATCH_UP_LIMIT (max 1 (ss_catch_up_limit schedule))) (ss_next_fire_at schedule) []))"

definition dispatch_plan ::
  "('e, 'z) cron_library \<Rightarrow> schedule_snapshot \<Rightarrow> micros \<Rightarrow> string + dispatch_plan_result" where
  "dispatch_plan lib schedule now =
    (if ss_next_fire_at schedule > now then Inr \<lparr> dp_fires = [], dp_next_fire_at = ss_next_fire_at schedule \<rparr>
     else (case parse_schedule lib (ss_cron_expression schedule) of
         Inl err \<Rightarrow> Inl err
       | Inr e \<Rightarrow> (case cl_timezone lib (ss_timezone schedule) of
             None \<Rightarrow> Inl ''persisted Schedule timezone is invalid''
           | Some z \<Rightarrow>
               if \<not> cl_in_range lib (ss_next_fire_at schedule)
               then Inl ''persisted Schedule cursor is outside the supported range''
               else due_plan lib schedule now e z)))"

section \<open>The dispatch of a schedule\<close>

text \<open>
  The fires are dispatched one after the other, and then the cursor moves. The store and the creation
  of a run are operations on a state of their own; the first error ends the dispatch.
\<close>

record 's schedule_state =
  st_has_active_runs :: "uuid \<Rightarrow> 's \<Rightarrow> (string + bool)"
  st_fire :: "schedule_snapshot \<Rightarrow> micros \<Rightarrow> 's \<Rightarrow> (string + unit) \<times> 's"
  st_advance :: "advance_schedule_command \<Rightarrow> 's \<Rightarrow> (string + bool) \<times> 's"

fun dispatch_fires ::
  "'s schedule_state \<Rightarrow> schedule_snapshot \<Rightarrow> micros list \<Rightarrow> 's \<Rightarrow> (string + unit) \<times> 's" where
  "dispatch_fires st schedule [] s = (Inr (), s)"
| "dispatch_fires st schedule (t # ts) s = (case st_fire st schedule t s of
      (Inl err, s') \<Rightarrow> (Inl err, s')
    | (Inr _, s') \<Rightarrow> dispatch_fires st schedule ts s')"

definition planned ::
  "('e, 'z) cron_library \<Rightarrow> 's schedule_state \<Rightarrow> schedule_snapshot \<Rightarrow> micros \<Rightarrow> 's \<Rightarrow> string + dispatch_plan_result" where
  "planned lib st schedule now s =
    (if ss_concurrency_policy schedule = ConcurrencyForbid
     then (case st_has_active_runs st (ss_schedule_id schedule) s of
         Inl err \<Rightarrow> Inl err
       | Inr True \<Rightarrow> dispatch_plan lib (schedule\<lparr>ss_misfire_policy := MisfireSkip\<rparr>) now
       | Inr False \<Rightarrow> dispatch_plan lib schedule now)
     else dispatch_plan lib schedule now)"

definition dispatch_due_schedule ::
  "('e, 'z) cron_library \<Rightarrow> 's schedule_state \<Rightarrow> schedule_snapshot \<Rightarrow> micros \<Rightarrow> 's \<Rightarrow> (string + bool) \<times> 's" where
  "dispatch_due_schedule lib st schedule now s = (case planned lib st schedule now s of
      Inl err \<Rightarrow> (Inl err, s)
    | Inr plan \<Rightarrow> (case dispatch_fires st schedule (dp_fires plan) s of
          (Inl err, s') \<Rightarrow> (Inl err, s')
        | (Inr _, s') \<Rightarrow> st_advance st
            \<lparr> asc_schedule_id = ss_schedule_id schedule, asc_expected_version = ss_version schedule,
              asc_expected_next_fire_at = ss_next_fire_at schedule,
              asc_last_fire_at = (if dp_fires plan = [] then None else Some (last (dp_fires plan))),
              asc_next_fire_at = dp_next_fire_at plan \<rparr> s'))"

section \<open>The contract of a new schedule\<close>

lemma insert_schedule_iff [txn_iffs]:
  "insert_schedule z db = Inr (u, db') \<longleftrightarrow> schedule_checks z \<and> (\<forall>v \<in> set (db_schedules db). z_id v \<noteq> z_id z)
     \<and> db' = db\<lparr>db_schedules := db_schedules db @ [z]\<rparr>"
  by (auto simp: insert_schedule_def txn_iffs sql_exists_iff)

lemma create_schedule_frame:
  assumes "create_schedule ext ttl ctx cmd now db = Inr (c, db')"
  obtains (same) "db' = db"
    | (created) rs input where "db' = db\<lparr>db_schedules := db_schedules db @ [new_schedule_row ctx cmd input now],
          db_receipts := rs\<rparr>"
        and "\<forall>v \<in> set (db_schedules db). z_id v \<noteq> csc_schedule_id cmd"
proof -
  from assms have "with_receipt ctx now ttl (duplicate_schedule ext ctx)
      (bindT (liftT (json_value ext (csc_input cmd))) (\<lambda>input.
      thenT (insert_schedule (new_schedule_row ctx cmd input now))
      (let snapshot = new_schedule_snapshot ctx cmd now in
      bindT (liftT (encode_schedule_receipt ext snapshot)) (\<lambda>outcome.
      thenT (finish_receipt ctx ReceiptApplied outcome None (Some (''schedule'', csc_schedule_id cmd, 0)))
      (returnT (schedule_committed Applied snapshot)))))) db = Inr (c, db')"
    by (auto simp: create_schedule_def txn_iffs)
  then show thesis
  proof (cases rule: with_receipt_cases)
    case replayed
    then show ?thesis using same by blast
  next
    case fresh
    then obtain input outcome where new: "\<forall>v \<in> set (db_schedules db). z_id v \<noteq> csc_schedule_id cmd"
      and fin: "finish_receipt ctx ReceiptApplied outcome None (Some (''schedule'', csc_schedule_id cmd, 0))
          (db\<lparr>db_receipts := db_receipts db @ [new_receipt ctx now (int ttl)],
              db_schedules := db_schedules db @ [new_schedule_row ctx cmd input now]\<rparr>) = Inr ((), db')"
      by (auto simp: txn_iffs Let_def new_schedule_row_def)
    from fin show ?thesis
    proof (rule finish_receipt_frame)
      fix rs
      assume "db' = (db\<lparr>db_receipts := db_receipts db @ [new_receipt ctx now (int ttl)],
        db_schedules := db_schedules db @ [new_schedule_row ctx cmd input now]\<rparr>)\<lparr>db_receipts := rs\<rparr>"
      then have "db' = db\<lparr>db_schedules := db_schedules db @ [new_schedule_row ctx cmd input now], db_receipts := rs\<rparr>"
        by simp
      with new show thesis by (rule created [rotated])
    qed
  qed
qed

interpretation create_schedule_cmd: run_command
  "\<lambda>(ext, ttl, ctx, cmd, now). create_schedule ext ttl ctx cmd now"
  by unfold_locales
     (auto simp: quiet_def task_keys_ok_def store_ok_def elim!: create_schedule_frame)

section \<open>The times a plan fires\<close>

text \<open>The times \<open>ts\<close> follow each other from \<open>t\<close> on, and \<open>u\<close> is the one after the last of them.\<close>

fun fires_from :: "('e, 'z) cron_library \<Rightarrow> 'e \<Rightarrow> 'z \<Rightarrow> micros \<Rightarrow> micros list \<Rightarrow> micros \<Rightarrow> bool" where
  "fires_from lib e z t [] u \<longleftrightarrow> u = t"
| "fires_from lib e z t (x # xs) u \<longleftrightarrow> x = t
     \<and> (case cl_after lib e z t of None \<Rightarrow> False | Some t' \<Rightarrow> fires_from lib e z t' xs u)"

text \<open>
  What the Cron library promises: the time after another is the first whole second later than it that
  the expression includes.
\<close>

definition whole_second :: "micros \<Rightarrow> bool" where
  "whole_second t \<longleftrightarrow> t mod 1000000 = 0"

definition fire_between :: "('e, 'z) cron_library \<Rightarrow> 'e \<Rightarrow> 'z \<Rightarrow> micros \<Rightarrow> micros \<Rightarrow> micros \<Rightarrow> bool" where
  "fire_between lib e z t u x \<longleftrightarrow> t < x \<and> x < u \<and> whole_second x \<and> cl_includes lib e z x"

definition cron_laws :: "('e, 'z) cron_library \<Rightarrow> bool" where
  "cron_laws lib \<longleftrightarrow> (\<forall>e z t t'. cl_after lib e z t = Some t' \<longrightarrow>
     t < t' \<and> whole_second t' \<and> cl_includes lib e z t' \<and> \<not> (\<exists>x. fire_between lib e z t t' x))"

lemma cron_lawsD:
  assumes "cron_laws lib" and "cl_after lib e z t = Some t'"
  shows "t < t'" and "whole_second t'" and "cl_includes lib e z t'" and "\<not> fire_between lib e z t t' x"
  using assms by (auto simp: cron_laws_def)

lemma next_after_Inr: "next_after lib e z t = Inr t' \<longleftrightarrow> cl_in_range lib t \<and> cl_after lib e z t = Some t'"
  by (auto simp: next_after_def split: option.splits)

lemma fires_from_increase:
  assumes "cron_laws lib" and "fires_from lib e z t ts u"
  shows "t \<le> u \<and> sorted_wrt (<) ts \<and> (\<forall>x \<in> set ts. t \<le> x \<and> x < u) \<and> (ts \<noteq> [] \<longrightarrow> t < u)"
  using assms(2)
proof (induction ts arbitrary: t)
  case (Cons x ts)
  then obtain t' where t': "x = t" "cl_after lib e z t = Some t'" "fires_from lib e z t' ts u"
    by (auto split: option.splits)
  with cron_lawsD(1) [OF assms(1) t'(2)] Cons.IH [OF t'(3)] show ?case by fastforce
qed simp

text \<open>No time of the expression is left out.\<close>

lemma fires_from_complete:
  assumes "cron_laws lib" and "fires_from lib e z t ts u" and "ts \<noteq> []"
  shows "set ts = {x. x = t \<or> fire_between lib e z t u x} \<and> cl_includes lib e z u"
  using assms(2,3)
proof (induction ts arbitrary: t)
  case (Cons x ts)
  then obtain t' where t': "x = t" "cl_after lib e z t = Some t'" "fires_from lib e z t' ts u"
    by (auto split: option.splits)
  note law = cron_lawsD [OF assms(1) t'(2)]
  show ?case
  proof (cases "ts = []")
    case True
    with t' law(3,4) show ?thesis by auto
  next
    case False
    note later = Cons.IH [OF t'(3) False]
    have "t' < u" using fires_from_increase [OF assms(1) t'(3)] False by blast
    have "fire_between lib e z t u y \<longleftrightarrow> y = t' \<or> fire_between lib e z t' u y" for y
      using law \<open>t' < u\<close> law(4) [of y] linorder_less_linear [of y t'] by (auto simp: fire_between_def)
    with later t'(1) show ?thesis by auto
  qed
qed simp

lemma catch_up_fires:
  assumes "catch_up lib e z now n cursor fires = Inr p"
  obtains ts where "dp_fires p = fires @ ts" and "fires_from lib e z cursor ts (dp_next_fire_at p)"
    and "length ts \<le> n" and "\<forall>t \<in> set ts. t \<le> now" and "length ts < n \<Longrightarrow> now < dp_next_fire_at p"
  using assms
proof (induction n arbitrary: cursor fires thesis)
  case 0
  then show ?case by (intro "0.prems"(1) [of "[]"]) auto
next
  case (Suc n)
  show ?case
  proof (cases "cursor \<le> now")
    case True
    with Suc.prems(2) obtain t where t: "cl_after lib e z cursor = Some t"
      and rest: "catch_up lib e z now n t (fires @ [cursor]) = Inr p"
      by (auto simp: next_after_Inr split: sum.splits)
    from Suc.IH [OF _ rest] obtain ts where ts: "dp_fires p = (fires @ [cursor]) @ ts"
      "fires_from lib e z t ts (dp_next_fire_at p)" "length ts \<le> n" "\<forall>t \<in> set ts. t \<le> now"
      "length ts < n \<Longrightarrow> now < dp_next_fire_at p" by blast
    show ?thesis by (rule Suc.prems(1) [of "cursor # ts"]) (use True t ts in auto)
  next
    case False
    with Suc.prems(2) show ?thesis by (intro Suc.prems(1) [of "[]"]) auto
  qed
qed

definition catch_up_bound :: "schedule_snapshot \<Rightarrow> nat" where
  "catch_up_bound schedule = min 100 (max 1 (ss_catch_up_limit schedule))"

text \<open>
  What a poll has to fire from a cursor that is due: nothing when the cursor is not a time of the
  expression or misfires are skipped, the cursor alone under the fire-once policy, and under the
  catch-up policy every time of the expression from the cursor up to the next fire time. Except under
  the catch-up policy the next fire time is the first time of the expression after now.
\<close>

definition due_fires_ok ::
  "('e, 'z) cron_library \<Rightarrow> schedule_snapshot \<Rightarrow> micros \<Rightarrow> 'e \<Rightarrow> 'z \<Rightarrow> dispatch_plan_result \<Rightarrow> bool" where
  "due_fires_ok lib schedule now e z p \<longleftrightarrow>
    (let cursor = ss_next_fire_at schedule; next_fire = dp_next_fire_at p; fires = dp_fires p;
         first_later = (now < next_fire \<and> \<not> (\<exists>x. fire_between lib e z now next_fire x)) in
     cursor < next_fire \<and> cl_includes lib e z next_fire
     \<and> (if \<not> cl_includes lib e z cursor then fires = [] \<and> first_later
        else case ss_misfire_policy schedule of
            MisfireSkip \<Rightarrow> fires = [] \<and> first_later
          | MisfireFireOnce \<Rightarrow> fires = [cursor] \<and> first_later
          | MisfireCatchUp \<Rightarrow> set fires = {t. t = cursor \<or> fire_between lib e z cursor next_fire t}
              \<and> (length fires < min 100 (max 1 (ss_catch_up_limit schedule)) \<longrightarrow> now < next_fire)))"

lemma due_plan_fires:
  assumes "due_plan lib schedule now e z = Inr p" and "cron_laws lib" and "ss_next_fire_at schedule \<le> now"
  shows "due_fires_ok lib schedule now e z p \<and> length (dp_fires p) \<le> catch_up_bound schedule
    \<and> sorted_wrt (<) (dp_fires p) \<and> (\<forall>t \<in> set (dp_fires p). t \<le> now)"
proof -
  let ?c = "ss_next_fire_at schedule"
  have later: "?c < t" "now < t" "cl_includes lib e z t" "\<not> fire_between lib e z now t x"
    if "next_after lib e z now = Inr t" for t x
    using that cron_lawsD [OF assms(2), of e z now t] assms(3) by (auto simp: next_after_Inr)
  consider (skipped) t where "dp_fires p = []" "next_after lib e z now = Inr t" "dp_next_fire_at p = t"
        "\<not> cl_includes lib e z ?c \<or> ss_misfire_policy schedule = MisfireSkip"
    | (once) t where "dp_fires p = [?c]" "next_after lib e z now = Inr t" "dp_next_fire_at p = t"
        "cl_includes lib e z ?c" "ss_misfire_policy schedule = MisfireFireOnce"
    | (catch) "catch_up lib e z now (catch_up_bound schedule) ?c [] = Inr p"
        "cl_includes lib e z ?c" "ss_misfire_policy schedule = MisfireCatchUp"
    using assms(1)
    by (auto simp: due_plan_def plan_then_def catch_up_bound_def MAX_CATCH_UP_LIMIT_def
        split: if_splits sum.splits schedule_misfire_policy.splits)
  then show ?thesis
  proof cases
    case skipped
    then show ?thesis using later [OF skipped(2)] by (auto simp: due_fires_ok_def Let_def)
  next
    case once
    then show ?thesis
      using later [OF once(2)] assms(3) by (simp add: due_fires_ok_def Let_def catch_up_bound_def)
  next
    case catch
    from catch(1) obtain ts where ts: "dp_fires p = ts" "fires_from lib e z ?c ts (dp_next_fire_at p)"
      "length ts \<le> catch_up_bound schedule" "\<forall>t \<in> set ts. t \<le> now"
      "length ts < catch_up_bound schedule \<Longrightarrow> now < dp_next_fire_at p"
      by (rule catch_up_fires) auto
    have "1 \<le> catch_up_bound schedule" by (simp add: catch_up_bound_def)
    with ts(2,5) assms(3) have "ts \<noteq> []" by (cases ts) auto
    with fires_from_increase [OF assms(2) ts(2)] fires_from_complete [OF assms(2) ts(2)] ts catch(2,3)
    show ?thesis by (simp add: due_fires_ok_def Let_def catch_up_bound_def)
  qed
qed


text \<open>A library whose expressions fire every so many seconds.\<close>

definition sample_cron :: "(int, unit) cron_library" where
  "sample_cron = \<lparr> cl_parse = (\<lambda>_. Some 60), cl_timezone = (\<lambda>_. Some ()), cl_in_range = (\<lambda>_. True),
     cl_includes = (\<lambda>e _ t. t mod (e * 1000000) = 0),
     cl_after = (\<lambda>e _ t. if 0 < e then Some ((t div (e * 1000000) + 1) * (e * 1000000)) else None) \<rparr>"

lemma next_multiple:
  assumes "0 < (m :: int)"
  shows "t < (t div m + 1) * m" and "t < x \<Longrightarrow> x < (t div m + 1) * m \<Longrightarrow> x mod m \<noteq> 0"
proof -
  show "t < (t div m + 1) * m"
    using pos_mod_bound [OF assms, of t] div_mult_mod_eq [of t m] unfolding distrib_right mult_1 by linarith
  assume x: "t < x" "x < (t div m + 1) * m"
  show "x mod m \<noteq> 0"
  proof
    assume "x mod m = 0"
    then obtain k where k: "x = k * m" using div_mult_mod_eq [of x m] by (metis add.right_neutral)
    with x(2) assms have "k < t div m + 1" by (simp add: mult_less_cancel_right)
    then have "k * m \<le> t div m * m" using assms by (simp add: mult_right_mono)
    moreover have "t div m * m \<le> t" using pos_mod_sign [OF assms, of t] div_mult_mod_eq [of t m] by linarith
    ultimately show False using x(1) k by linarith
  qed
qed

lemma sample_cron_laws: "cron_laws sample_cron"
proof -
  have "(k * (e * 1000000)) mod 1000000 = 0" for k e :: int
    by (simp add: mult.assoc [symmetric])
  then show ?thesis
    using next_multiple [of "_ * 1000000"]
    by (auto simp: cron_laws_def sample_cron_def fire_between_def whole_second_def)
qed

definition sample_schedule_snapshot :: schedule_snapshot where
  "sample_schedule_snapshot = \<lparr> ss_tenant_id = 7, ss_schedule_id = 80, ss_workflow_version_id = 81,
     ss_cron_expression = ''* * * * *'', ss_timezone = ''UTC'', ss_input = ''{}'', ss_status = ScheduleActive,
     ss_misfire_policy = MisfireCatchUp, ss_concurrency_policy = ConcurrencyAllow, ss_catch_up_limit = 2,
     ss_next_fire_at = 420000000, ss_last_fire_at = None, ss_version = 0, ss_created_at = 1, ss_updated_at = 1 \<rparr>"


section \<open>The cursor moves once\<close>

lemma update_schedules_iff [txn_iffs]:
  "update_schedules P f db = Inr (n, db') \<longleftrightarrow> updates_pass schedule_checks P f (db_schedules db)
     \<and> n = sql_count P (db_schedules db) \<and> db' = db\<lparr>db_schedules := sql_update P f (db_schedules db)\<rparr>"
  by (auto simp: update_schedules_def)

lemma advance_schedule_moves_cursor:
  assumes "advance_schedule tenant cmd now db = Inr (True, db')"
  obtains z where "z \<in> set (db_schedules db)"
    and "cursor_at tenant (asc_schedule_id cmd) (int (asc_expected_version cmd)) (asc_expected_next_fire_at cmd) z"
    and "cursor_moved cmd now z \<in> set (db_schedules db')"
proof -
  let ?P = "cursor_at tenant (asc_schedule_id cmd) (int (asc_expected_version cmd)) (asc_expected_next_fire_at cmd)"
  from assms have count: "sql_count ?P (db_schedules db) = 1"
    and db': "db_schedules db' = sql_update ?P (cursor_moved cmd now) (db_schedules db)"
    by (auto simp: advance_schedule_def txn_iffs Let_def ok_or_Inr_iff i64_try_from_Some)
  from count obtain z where z: "z \<in> set (db_schedules db)" "?P z" by (rule sql_count_1E)
  then show thesis by (intro that) (auto simp: db' set_sql_update)
qed

interpretation advance_schedule_cmd: run_command "\<lambda>(tenant, cmd, now). advance_schedule tenant cmd now"
  by unfold_locales
     (auto simp: quiet_def task_keys_ok_def store_ok_def advance_schedule_def txn_iffs Let_def)

end
