(* ===== verification/StoreHistory.thy ===== *)
theory StoreHistory
  imports Outbox ContextPatch AgentOutcomes Maintenance Schedules
begin

text \<open>
  The commands of the store together. A step of the store is one applied command, whichever it is; a
  reachable store is one that such steps make from a store without runs. Every command meets one
  contract (the interpretations of \<open>run_command\<close> and \<open>store_command\<close>), so every step keeps the ledger,
  and refines an abstract journal: each run has a list of events that is only appended to, and an
  end that is set once.
\<close>

section \<open>The steps of the store\<close>

inductive store_step :: "db \<Rightarrow> db \<Rightarrow> bool" where
  step_create_run: "create_run ext ttl ctx crn now db = Inr (created, db') \<Longrightarrow> store_step db db'"
| step_claim_task: "claim_task ext ttl view ctx clm now db = Inr (claimed, db') \<Longrightarrow> store_step db db'"
| step_renew_lease: "renew_task_lease ext ttl ctx rnw now db = Inr (renewed, db') \<Longrightarrow> store_step db db'"
| step_reclaim_lease: "reclaim_expired_lease ttl view ctx event now db = Inr (reclaimed, db') \<Longrightarrow> store_step db db'"
| step_complete_task: "complete_task ext ttl ctx cpl now db = Inr (snapshot, db') \<Longrightarrow> store_step db db'"
| step_fail_task: "fail_task ext ttl ctx fl now db = Inr (snapshot, db') \<Longrightarrow> store_step db db'"
| step_apply_event: "apply_event ext ttl scan ctx evt now db = Inr (snapshot, db') \<Longrightarrow> store_step db db'"
| step_control: "execute_control ttl ctx ctl kind now db = Inr (snapshot, db') \<Longrightarrow> store_step db db'"
| step_revise_plan: "revise_plan ext order ttl ctx rvs now db = Inr (snapshot, db') \<Longrightarrow> store_step db db'"
| step_patch_context: "apply_context_patch ext ttl ctx pat now db = Inr (snapshot, db') \<Longrightarrow> store_step db db'"
| step_join: "evaluate_child_run_join ttl ctx jn now db = Inr (snapshot, db') \<Longrightarrow> store_step db db'"
| step_prepare_tool: "prepare_tool_execution ext ttl ctx pt now db = Inr (tool, db') \<Longrightarrow> store_step db db'"
| step_tool_retry: "begin_tool_retry_attempt parse_uuid ttl ctx bt now db = Inr (tool, db') \<Longrightarrow> store_step db db'"
| step_tool_outcome: "record_tool_outcome ext ttl ctx rt now db = Inr (tool, db') \<Longrightarrow> store_step db db'"
| step_prepare_agent: "prepare_agent_execution ext ttl ctx pa now db = Inr (agent, db') \<Longrightarrow> store_step db db'"
| step_resubmission: "begin_agent_resubmission parse_uuid ttl ctx ba now db = Inr (agent, db') \<Longrightarrow> store_step db db'"
| step_submission: "record_agent_submission ttl ctx rs now db = Inr (agent, db') \<Longrightarrow> store_step db db'"
| step_agent_outcome: "record_agent_outcome ext ttl ctx ro now db = Inr (agent, db') \<Longrightarrow> store_step db db'"
| step_agent_events: "append_agent_events ext ttl ctx ae now db = Inr (batch, db') \<Longrightarrow> store_step db db'"
| step_due_work: "apply_due_work ext ttl ctx dw now db = Inr (due, db') \<Longrightarrow> store_step db db'"
| step_maintenance: "apply_maintenance ctx mt now db = Inr (maintained, db') \<Longrightarrow> store_step db db'"
| step_create_schedule: "create_schedule ext ttl ctx cs now db = Inr (schedule, db') \<Longrightarrow> store_step db db'"
| step_advance_schedule: "advance_schedule tenant adv now db = Inr (moved, db') \<Longrightarrow> store_step db db'"
| step_claim_outbox: "claim_outbox ext locked now q co db = Inr (message, db') \<Longrightarrow> store_step db db'"
| step_record_delivery: "record_outbox_delivery now q rd db = Inr (u, db') \<Longrightarrow> store_step db db'"

lemmas command_evolves =
  create_cmd.evolves [where c = "(a, b, c, d, e)" for a b c d e, unfolded split_conv]
  claim_cmd.evolves [where c = "(a, b, c, d, e, f)" for a b c d e f, unfolded split_conv]
  renew_cmd.evolves [where c = "(a, b, c, d, e)" for a b c d e, unfolded split_conv]
  reclaim_cmd.evolves [where c = "(a, b, c, d, e)" for a b c d e, unfolded split_conv]
  complete_cmd.evolves [where c = "(a, b, c, d, e)" for a b c d e, unfolded split_conv]
  fail_cmd.evolves [where c = "(a, b, c, d, e)" for a b c d e, unfolded split_conv]
  event_cmd.evolves [where c = "(a, b, c, d, e, f)" for a b c d e f, unfolded split_conv]
  control_cmd.evolves [where c = "(a, b, c, d, e)" for a b c d e, unfolded split_conv]
  revise_cmd.evolves [where c = "(a, b, c, d, e, f)" for a b c d e f, unfolded split_conv]
  patch_cmd.evolves [where c = "(a, b, c, d, e)" for a b c d e, unfolded split_conv]
  join_cmd.evolves [where c = "(a, b, c, d)" for a b c d, unfolded split_conv]
  prepare_tool_cmd.evolves [where c = "(a, b, c, d, e)" for a b c d e, unfolded split_conv]
  tool_retry_cmd.evolves [where c = "(a, b, c, d, e)" for a b c d e, unfolded split_conv]
  tool_outcome_cmd.evolves [where c = "(a, b, c, d, e)" for a b c d e, unfolded split_conv]
  prepare_agent_cmd.evolves [where c = "(a, b, c, d, e)" for a b c d e, unfolded split_conv]
  resubmission_cmd.evolves [where c = "(a, b, c, d, e)" for a b c d e, unfolded split_conv]
  submission_cmd.evolves [where c = "(a, b, c, d)" for a b c d, unfolded split_conv]
  agent_outcome_cmd.evolves [where c = "(a, b, c, d, e)" for a b c d e, unfolded split_conv]
  agent_batch_cmd.evolves [where c = "(a, b, c, d, e)" for a b c d e, unfolded split_conv]
  due_work_cmd.evolves [where c = "(a, b, c, d, e)" for a b c d e, unfolded split_conv]
  maintenance_cmd.evolves [where c = "(a, b, c)" for a b c, unfolded split_conv]
  create_schedule_cmd.evolves [where c = "(a, b, c, d, e)" for a b c d e, unfolded split_conv]
  advance_schedule_cmd.evolves [where c = "(a, b, c)" for a b c, unfolded split_conv]
  claim_outbox_cmd.evolves [where c = "(a, b, c, d, e)" for a b c d e, unfolded split_conv]
  record_delivery_cmd.evolves [where c = "(a, b, c)" for a b c, unfolded split_conv]
lemmas command_task_keys =
  create_cmd.task_keys [where c = "(a, b, c, d, e)" for a b c d e, unfolded split_conv]
  claim_cmd.task_keys [where c = "(a, b, c, d, e, f)" for a b c d e f, unfolded split_conv]
  renew_cmd.task_keys [where c = "(a, b, c, d, e)" for a b c d e, unfolded split_conv]
  reclaim_cmd.task_keys [where c = "(a, b, c, d, e)" for a b c d e, unfolded split_conv]
  complete_cmd.task_keys [where c = "(a, b, c, d, e)" for a b c d e, unfolded split_conv]
  fail_cmd.task_keys [where c = "(a, b, c, d, e)" for a b c d e, unfolded split_conv]
  event_cmd.task_keys [where c = "(a, b, c, d, e, f)" for a b c d e f, unfolded split_conv]
  control_cmd.task_keys [where c = "(a, b, c, d, e)" for a b c d e, unfolded split_conv]
  revise_cmd.task_keys [where c = "(a, b, c, d, e, f)" for a b c d e f, unfolded split_conv]
  patch_cmd.task_keys [where c = "(a, b, c, d, e)" for a b c d e, unfolded split_conv]
  join_cmd.task_keys [where c = "(a, b, c, d)" for a b c d, unfolded split_conv]
  prepare_tool_cmd.task_keys [where c = "(a, b, c, d, e)" for a b c d e, unfolded split_conv]
  tool_retry_cmd.task_keys [where c = "(a, b, c, d, e)" for a b c d e, unfolded split_conv]
  tool_outcome_cmd.task_keys [where c = "(a, b, c, d, e)" for a b c d e, unfolded split_conv]
  prepare_agent_cmd.task_keys [where c = "(a, b, c, d, e)" for a b c d e, unfolded split_conv]
  resubmission_cmd.task_keys [where c = "(a, b, c, d, e)" for a b c d e, unfolded split_conv]
  submission_cmd.task_keys [where c = "(a, b, c, d)" for a b c d, unfolded split_conv]
  agent_outcome_cmd.task_keys [where c = "(a, b, c, d, e)" for a b c d e, unfolded split_conv]
  agent_batch_cmd.task_keys [where c = "(a, b, c, d, e)" for a b c d e, unfolded split_conv]
  due_work_cmd.task_keys [where c = "(a, b, c, d, e)" for a b c d e, unfolded split_conv]
  maintenance_cmd.task_keys [where c = "(a, b, c)" for a b c, unfolded split_conv]
  create_schedule_cmd.task_keys [where c = "(a, b, c, d, e)" for a b c d e, unfolded split_conv]
  advance_schedule_cmd.task_keys [where c = "(a, b, c)" for a b c, unfolded split_conv]
  claim_outbox_cmd.task_keys [where c = "(a, b, c, d, e)" for a b c d e, unfolded split_conv]
  record_delivery_cmd.task_keys [where c = "(a, b, c)" for a b c, unfolded split_conv]

lemma store_step_evolves: "store_step db db' \<Longrightarrow> store_ok db \<Longrightarrow> evolves db db'"
  by (erule store_step.cases; hypsubst; erule (1) command_evolves [rotated])

lemma store_step_task_keys: "store_step db db' \<Longrightarrow> store_ok db \<Longrightarrow> task_keys_ok db'"
  by (erule store_step.cases; hypsubst; erule (1) command_task_keys [rotated])

lemma store_step_ok:
  assumes "store_step db db'" and "store_ok db"
  shows "store_ok db'"
  using evolves_runs_ok [OF store_step_evolves [OF assms] store_okD(1) [OF assms(2)]]
    store_step_task_keys [OF assms]
  by (simp add: store_ok_def)

section \<open>Reachable stores\<close>

definition blank :: "db \<Rightarrow> bool" where
  "blank db \<longleftrightarrow> db_runs db = [] \<and> db_tasks db = [] \<and> db_events db = [] \<and> db_outbox db = []"

inductive reachable :: "db \<Rightarrow> bool" where
  reachable_blank: "blank db \<Longrightarrow> reachable db"
| reachable_step: "reachable db \<Longrightarrow> store_step db db' \<Longrightarrow> reachable db'"

definition books_ok :: "db \<Rightarrow> bool" where
  "books_ok db \<longleftrightarrow> ledger_ok db \<and> task_keys_ok db"

lemma books_ok_store: "books_ok db \<Longrightarrow> store_ok db"
  by (simp add: books_ok_def ledger_ok_def store_ok_def)

lemma books_step:
  assumes "books_ok db" and "store_step db db'"
  shows "books_ok db'"
  using evolves_ledger [OF store_step_evolves [OF assms(2) books_ok_store [OF assms(1)]]]
    store_step_task_keys [OF assms(2) books_ok_store [OF assms(1)]] assms(1)
  by (simp add: books_ok_def)

lemma blank_books: "blank db \<Longrightarrow> books_ok db"
  by (simp add: blank_def books_ok_def ledger_ok_def runs_ok_def run_keys_ok_def log_ok_def events_owned_def
      outbox_matches_def task_keys_ok_def)

lemma reachable_books: "reachable db \<Longrightarrow> books_ok db"
  by (induction rule: reachable.induct) (auto intro: blank_books books_step)

text \<open>What the checks of a run say of its end and of its suspended status.\<close>

lemma run_checks_ends:
  assumes "run_checks r"
  shows "run_terminal (r_status r) \<longleftrightarrow> r_terminal_event r \<noteq> None"
    and "r_status r = RunPaused \<longleftrightarrow> r_suspended_from r \<noteq> None"
proof -
  have "if run_terminal (r_status r) then r_terminal_event r \<noteq> None else r_terminal_event r = None"
    using assms unfolding run_checks_def by (simp only: split: if_splits) simp_all
  then show "run_terminal (r_status r) \<longleftrightarrow> r_terminal_event r \<noteq> None" by argo
  have "if r_status r = RunPaused then r_suspended_from r \<in> range Some else r_suspended_from r = None"
    using assms unfolding run_checks_def by (simp only: split: if_splits) blast+
  then show "r_status r = RunPaused \<longleftrightarrow> r_suspended_from r \<noteq> None" by (auto split: if_splits)
qed

text \<open>What many steps keep.\<close>

definition history_kept :: "db \<Rightarrow> db \<Rightarrow> bool" where
  "history_kept db db' \<longleftrightarrow> runs_grow db db' \<and> (\<exists>es. db_events db' = db_events db @ es)
     \<and> (\<forall>r \<in> set (db_runs db). run_terminal (r_status r) \<longrightarrow> (\<exists>r' \<in> set (db_runs db'). ended_same r r'))"

lemma history_kept_step:
  assumes "store_ok db" and "store_step db db'"
  shows "history_kept db db'"
proof -
  note ev = store_step_evolves [OF assms(2,1)]
  show ?thesis
    using evolves_grow [OF ev store_okD(1) [OF assms(1)]] evolves_events [OF ev]
      evolves_terminal [OF ev store_okD(1) [OF assms(1)]]
    by (simp add: history_kept_def)
qed

lemma history_kept_refl: "history_kept db db"
  using runs_grow_refl [of db] ended_same_refl unfolding history_kept_def by (intro conjI) blast+

lemma history_kept_trans:
  assumes "history_kept a b" and "history_kept b c"
  shows "history_kept a c"
  unfolding history_kept_def
proof (intro conjI ballI impI)
  show "runs_grow a c" using assms runs_grow_trans unfolding history_kept_def by blast
  show "\<exists>es. db_events c = db_events a @ es" using assms unfolding history_kept_def by auto
  fix r assume r: "r \<in> set (db_runs a)" "run_terminal (r_status r)"
  with assms(1) obtain r' where r': "r' \<in> set (db_runs b)" "ended_same r r'"
    unfolding history_kept_def by blast
  then have "run_terminal (r_status r')" using r(2) by (simp add: ended_same_def)
  with assms(2) r'(1) obtain q where "q \<in> set (db_runs c)" "ended_same r' q"
    unfolding history_kept_def by blast
  with r'(2) show "\<exists>q \<in> set (db_runs c). ended_same r q" using ended_same_trans by blast
qed

lemma history_kept_steps:
  assumes "store_step\<^sup>*\<^sup>* db db'" and "store_ok db"
  shows "store_ok db' \<and> history_kept db db'"
  using assms
proof (induction rule: rtranclp_induct)
  case base
  then show ?case by (simp add: history_kept_refl)
next
  case (step b c)
  then show ?case using store_step_ok history_kept_step history_kept_trans by blast
qed

section \<open>The journal\<close>

text \<open>
  What the store promises its readers, without rows and versions: the events of every run in order,
  how the run ended, and the feed of all events that are published.
\<close>

record journal_entry =
  j_events :: "uuid list"
  j_end :: "(run_status \<times> uuid option) option"

record journal =
  j_runs :: "uuid \<Rightarrow> journal_entry option"
  j_feed :: "uuid list"

inductive journal_step :: "journal \<Rightarrow> journal \<Rightarrow> bool" where
  journal_opens: "j_runs j i = None
     \<Longrightarrow> journal_step j (j\<lparr>j_runs := (j_runs j)(i \<mapsto> \<lparr>j_events = [e], j_end = x\<rparr>), j_feed := j_feed j @ [e]\<rparr>)"
| journal_appends: "j_runs j i = Some y \<Longrightarrow> (j_end y \<noteq> None \<Longrightarrow> x = j_end y)
     \<Longrightarrow> journal_step j (j\<lparr>j_runs := (j_runs j)(i \<mapsto> \<lparr>j_events = j_events y @ es, j_end = x\<rparr>),
                            j_feed := j_feed j @ es\<rparr>)"

definition entry_of :: "db \<Rightarrow> run_row \<Rightarrow> journal_entry" where
  "entry_of db r = \<lparr> j_events = map e_id (run_log r db),
     j_end = (if run_terminal (r_status r) then Some (r_status r, r_terminal_event r) else None) \<rparr>"

definition journal_of :: "db \<Rightarrow> journal" where
  "journal_of db = \<lparr> j_runs = (\<lambda>i. map_option (entry_of db) (find (\<lambda>r. r_id r = i) (db_runs db))),
     j_feed = map o_event (db_outbox db) \<rparr>"

lemma journal_still:
  assumes "still db db'"
  shows "journal_of db' = journal_of db"
proof -
  have "map (fst \<circ> snd) (map outbox_key (db_outbox db')) = map (fst \<circ> snd) (map outbox_key (db_outbox db))"
    using assms by (simp only: still_def)
  then have "map o_event (db_outbox db') = map o_event (db_outbox db)" by (simp add: outbox_key_def comp_def)
  moreover have "entry_of db' = entry_of db"
    using assms by (simp add: fun_eq_iff entry_of_def run_log_def still_def)
  ultimately show ?thesis using assms by (simp add: journal_of_def still_def)
qed

lemma find_run_id:
  assumes "run_keys_ok db" and "r \<in> set (db_runs db)"
  shows "find (\<lambda>q. r_id q = r_id r) (db_runs db) = Some r"
  using assms by (intro find_unique) (auto simp: run_keys_ok_def dest: distinct_map_inj)

lemma run_log_appended:
  assumes "db_events db' = db_events db @ map event_row_of es"
    and "\<forall>e \<in> set es. ei_tenant_id e = r_tenant r \<and> ei_run_id e = r_id r"
  shows "run_log r db' = run_log r db @ map event_row_of es"
    and "r_id q \<noteq> r_id r \<Longrightarrow> run_log q db' = run_log q db"
proof -
  have "filter (event_of_run r) (map event_row_of es) = map event_row_of es"
    using assms(2) by (auto simp: filter_id_conv)
  then show "run_log r db' = run_log r db @ map event_row_of es" by (simp add: run_log_def assms(1))
  assume "r_id q \<noteq> r_id r"
  then have "filter (event_of_run q) (map event_row_of es) = []"
    using assms(2) by (auto simp: filter_empty_conv)
  then show "run_log q db' = run_log q db" by (simp add: run_log_def assms(1))
qed

lemma o_event_row [simp]: "o_event (outbox_row_of e) = e_id (event_row_of e)"
  by (simp add: outbox_row_of_def event_row_of_def)

lemma find_other_update: "(\<And>q. P q \<Longrightarrow> \<not> Q q \<and> \<not> Q (f q)) \<Longrightarrow> find Q (sql_update P f rows) = find Q rows"
  by (induction rows) (auto simp: sql_update_def)

lemma find_append: "find P (xs @ ys) = (case find P xs of None \<Rightarrow> find P ys | Some x \<Rightarrow> Some x)"
  by (induction xs) auto

lemma records_journal:
  assumes "ledger_ok db" and "records db db'"
  shows "journal_step (journal_of db) (journal_of db')"
proof -
  from assms(2) obtain r r' es where rec: "r \<in> set (db_runs db)" "same_run r r'"
      "run_terminal (r_status r) \<longrightarrow> r_status r' = r_status r \<and> r_terminal_event r' = r_terminal_event r"
      "db_runs db' = sql_update (same_run r) (\<lambda>_. r') (db_runs db)"
      "\<forall>e \<in> set es. ei_tenant_id e = r_tenant r \<and> ei_run_id e = r_id r"
      "db_events db' = db_events db @ map event_row_of es"
      "db_outbox db' = db_outbox db @ map outbox_row_of es"
    unfolding records_def by (elim exE conjE) (rule that)
  have keys: "run_keys_ok db" and keys': "run_keys_ok db'"
    using assms records_ledger [OF assms] by (simp_all add: ledger_ok_def)
  have id: "r_id r' = r_id r" using rec(2) by (simp add: same_run_def)
  have "j_runs (journal_of db') = (j_runs (journal_of db))(r_id r \<mapsto>
      \<lparr>j_events = j_events (entry_of db r) @ map (e_id \<circ> event_row_of) es, j_end = j_end (entry_of db' r')\<rparr>)"
  proof (intro ext)
    fix i
    show "j_runs (journal_of db') i = ((j_runs (journal_of db))(r_id r \<mapsto>
      \<lparr>j_events = j_events (entry_of db r) @ map (e_id \<circ> event_row_of) es, j_end = j_end (entry_of db' r')\<rparr>)) i"
    proof (cases "i = r_id r")
      case True
      have "event_of_run r' = event_of_run r" using rec(2) by (rule same_run_event_of)
      then have "run_log r' db' = run_log r db'" by (simp add: run_log_def)
      with True find_run_id [OF keys' recorded_run_in [OF rec(1,4)]] id run_log_appended(1) [OF rec(6,5)]
      show ?thesis by (simp add: journal_of_def entry_of_def)
    next
      case False
      then have "find (\<lambda>q. r_id q = i) (db_runs db') = find (\<lambda>q. r_id q = i) (db_runs db)"
        unfolding rec(4) using id by (intro find_other_update) (auto simp: same_run_def)
      moreover have "entry_of db' q = entry_of db q" if "find (\<lambda>q. r_id q = i) (db_runs db) = Some q" for q
        using False run_log_appended(2) [OF rec(6,5), of q] find_Some_in [OF that] by (simp add: entry_of_def)
      ultimately show ?thesis using False
        by (cases "find (\<lambda>q. r_id q = i) (db_runs db)") (simp_all add: journal_of_def)
    qed
  qed
  moreover have "j_feed (journal_of db') = j_feed (journal_of db) @ map (e_id \<circ> event_row_of) es"
    using rec(7) by (simp add: journal_of_def comp_def)
  ultimately have j': "journal_of db' = (journal_of db)\<lparr>j_runs := (j_runs (journal_of db))(r_id r \<mapsto>
      \<lparr>j_events = j_events (entry_of db r) @ map (e_id \<circ> event_row_of) es, j_end = j_end (entry_of db' r')\<rparr>),
      j_feed := j_feed (journal_of db) @ map (e_id \<circ> event_row_of) es\<rparr>"
    by simp
  show ?thesis
    unfolding j'
  proof (rule journal_appends)
    show "j_runs (journal_of db) (r_id r) = Some (entry_of db r)"
      using find_run_id [OF keys rec(1)] by (simp add: journal_of_def)
    show "j_end (entry_of db r) \<noteq> None \<Longrightarrow> j_end (entry_of db' r') = j_end (entry_of db r)"
      using rec(3) by (simp add: entry_of_def split: if_splits)
  qed
qed

lemma spawns_journal:
  assumes "ledger_ok db" and "spawns db db'"
  shows "journal_step (journal_of db) (journal_of db')"
proof -
  from assms(2) obtain r e where sp: "\<forall>q \<in> set (db_runs db). r_id q \<noteq> r_id r"
      "db_runs db' = db_runs db @ [r]" "ei_tenant_id e = r_tenant r" "ei_run_id e = r_id r"
      "db_events db' = db_events db @ map event_row_of [e]"
      "db_outbox db' = db_outbox db @ [outbox_row_of e]"
    unfolding spawns_def by (elim exE conjE) (rule that, simp_all)
  have owner: "\<forall>d \<in> set [e]. ei_tenant_id d = r_tenant r \<and> ei_run_id d = r_id r" using sp(3,4) by simp
  have absent: "find (\<lambda>q. r_id q = r_id r) (db_runs db) = None" using sp(1) by (simp add: find_None_ball)
  have "run_log r db = []"
    using assms(1) sp(1) by (force simp: run_log_def filter_empty_conv ledger_ok_def events_owned_def event_of_run_def)
  then have new: "entry_of db' r = \<lparr>j_events = [e_id (event_row_of e)], j_end = j_end (entry_of db' r)\<rparr>"
    using run_log_appended(1) [OF sp(5) owner] by (simp add: entry_of_def)
  have old: "entry_of db' q = entry_of db q" if "r_id q \<noteq> r_id r" for q
    using run_log_appended(2) [OF sp(5) owner that] by (simp add: entry_of_def)
  have "j_runs (journal_of db') i = ((j_runs (journal_of db))(r_id r \<mapsto> entry_of db' r)) i" for i
  proof (cases "find (\<lambda>q. r_id q = i) (db_runs db)")
    case None
    then show ?thesis by (simp add: journal_of_def sp(2) find_append)
  next
    case (Some q)
    with absent have "r_id q \<noteq> r_id r" using find_Some_in [OF Some] by auto
    with Some show ?thesis using find_Some_in [OF Some] by (simp add: journal_of_def sp(2) find_append old)
  qed
  then have "journal_of db' = (journal_of db)\<lparr>j_runs := (j_runs (journal_of db))(r_id r \<mapsto>
      \<lparr>j_events = [e_id (event_row_of e)], j_end = j_end (entry_of db' r)\<rparr>),
      j_feed := j_feed (journal_of db) @ [e_id (event_row_of e)]\<rparr>"
    unfolding new [symmetric] by (simp add: fun_eq_iff journal_of_def sp(6))
  then show ?thesis using absent by (simp only:) (rule journal_opens, simp add: journal_of_def)
qed

lemma evolves_journal:
  "evolves db db' \<Longrightarrow> ledger_ok db \<Longrightarrow> journal_step\<^sup>*\<^sup>* (journal_of db) (journal_of db')"
proof (induction rule: evolves.induct)
  case (evolves_still db db')
  then show ?case by (simp add: journal_still)
next
  case (evolves_record db db')
  then show ?case by (blast intro: records_journal)
next
  case (evolves_spawn db db')
  then show ?case by (blast intro: spawns_journal)
next
  case (evolves_trans a b c)
  then show ?case using evolves_ledger by (blast intro: rtranclp_trans)
qed

end
