(* ===== verification/RunRequest.thy ===== *)
theory RunRequest
  imports CreateRun
begin

text \<open>
  From a request to a run: \<open>parse_execution_plan\<close>, \<open>materialize_execution_plan\<close> and
  \<open>materialize_plan_task_additions\<close> (\<open>server/src/execution_plan.rs\<close>), the routed input of a task
  (\<open>server/src/task_handler.rs\<close>), derived ids and command contexts (\<open>server/src/identity.rs\<close>), and
  \<open>create_run_impl\<close> of \<open>server/src/api.rs\<close> up to the call of the store. What the server reads from the
  store, the ids and times it draws and the JSON profile of a plan that serde derives are arguments.
\<close>

section \<open>Identities\<close>

definition hash_bytes :: "externals \<Rightarrow> json_payload \<Rightarrow> digest" where
  "hash_bytes ext payload = ext_sha256 ext (payload_bytes payload)"

text \<open>The first 16 bytes of a digest, which is written with its first byte highest.\<close>

definition derived_id :: "externals \<Rightarrow> string \<Rightarrow> string \<Rightarrow> uuid" where
  "derived_id ext namespace v = ucast (drop_bit 128 (ext_sha256 ext (payload_bytes (namespace @ ''/'' @ v))))"

definition stage_execution_id :: "externals \<Rightarrow> uuid \<Rightarrow> logical_key \<Rightarrow> uuid" where
  "stage_execution_id ext run_id key = derived_id ext ''stage'' (id_text run_id @ ''/'' @ key)"

definition plan_task_id :: "externals \<Rightarrow> uuid \<Rightarrow> logical_key \<Rightarrow> uuid" where
  "plan_task_id ext run_id key = derived_id ext ''task'' (id_text run_id @ ''/'' @ key)"

definition server_context ::
  "externals \<Rightarrow> uuid \<Rightarrow> uuid \<Rightarrow> string \<Rightarrow> string \<Rightarrow> string \<Rightarrow> json_payload \<Rightarrow> string + command_context" where
  "server_context ext tenant run_id actor scope identity request =
    (case key_parse 64 scope of
       Inl _ \<Rightarrow> Inl ''invalid command scope''
     | Inr scope_key \<Rightarrow> (case key_parse 255 identity of
         Inl _ \<Rightarrow> Inl ''invalid idempotency key''
       | Inr key \<Rightarrow> Inr \<lparr> cc_tenant_id = tenant, cc_command_id = derived_id ext ''command'' identity,
           cc_correlation_id = derived_id ext ''correlation'' (id_text run_id), cc_actor_ref = actor,
           cc_scope = scope_key, cc_idempotency_key = key, cc_request_hash = hash_bytes ext request \<rparr>))"

section \<open>The input of a task\<close>

definition TASK_INPUT_SCHEMA_V1 :: string where
  "TASK_INPUT_SCHEMA_V1 = ''agent-loom.task-input/v1''"

record task_input_envelope =
  tie_schema :: string
  tie_handler :: string
  tie_payload :: json

record routed_task_input =
  rti_handler_key :: logical_key
  rti_payload :: json

datatype task_input_error = InvalidEnvelope | InputUnsupportedSchema | InvalidHandlerKey | InputInvalidPayload

definition envelope_json :: "task_input_envelope \<Rightarrow> json" where
  "envelope_json e = JObject [(''schema'', JString (tie_schema e)), (''handler'', JString (tie_handler e)),
     (''payload'', tie_payload e)]"

text \<open>
  The derived \<open>Deserialize\<close> of the envelope: an object with these members and no other, or an array
  of the three values in order.
\<close>

fun envelope_from_value :: "json \<Rightarrow> task_input_envelope option" where
  "envelope_from_value (JObject ms) =
     (if list_all (\<lambda>(k, _). k \<in> {''schema'', ''handler'', ''payload''}) ms
      then (case (get_str ms ''schema'', get_str ms ''handler'', json_get ms ''payload'') of
          (Some s, Some h, Some p) \<Rightarrow> Some \<lparr> tie_schema = s, tie_handler = h, tie_payload = p \<rparr>
        | _ \<Rightarrow> None)
      else None)"
| "envelope_from_value (JArray [JString s, JString h, p]) =
     Some \<lparr> tie_schema = s, tie_handler = h, tie_payload = p \<rparr>"
| "envelope_from_value _ = None"

definition encode_task_input :: "externals \<Rightarrow> logical_key \<Rightarrow> json \<Rightarrow> task_input_error + json_payload" where
  "encode_task_input ext handler_key payload = Inr (ext_to_vec ext (envelope_json
     \<lparr> tie_schema = TASK_INPUT_SCHEMA_V1, tie_handler = handler_key, tie_payload = payload \<rparr>))"

definition without_wait_metadata :: "json \<Rightarrow> json" where
  "without_wait_metadata v = (case as_object v of
      None \<Rightarrow> v
    | Some ms \<Rightarrow> (case json_get ms ''resume_input'' of None \<Rightarrow> v | Some resume \<Rightarrow> resume))"

definition decode_task_input :: "externals \<Rightarrow> json_payload \<Rightarrow> task_input_error + routed_task_input" where
  "decode_task_input ext input =
    bindR (ok_or (ext_from_slice ext input) InvalidEnvelope) (\<lambda>v.
    bindR (ok_or (envelope_from_value (without_wait_metadata v)) InvalidEnvelope) (\<lambda>envelope.
    if tie_schema envelope \<noteq> TASK_INPUT_SCHEMA_V1 then Inl InputUnsupportedSchema
    else (case parse_logical_key (tie_handler envelope) of
        Inl _ \<Rightarrow> Inl InvalidHandlerKey
      | Inr key \<Rightarrow> Inr \<lparr> rti_handler_key = key, rti_payload = tie_payload envelope \<rparr>)))"

section \<open>The profile of a plan\<close>

definition EXECUTION_PLAN_V1 :: string where
  "EXECUTION_PLAN_V1 = ''agent-loom.execution-plan/v1''"

datatype stage_activation = ActivationActive | ActivationPlanned

record assignee_profile =
  ap_kind :: string
  ap_reference :: string

record stage_profile =
  sp_key :: string
  sp_activation :: stage_activation
  sp_assignee :: "assignee_profile option"
  sp_input_contract :: json
  sp_output_contract :: json
  sp_policy :: json

record task_dependency_profile =
  tdp_task :: string
  tdp_condition :: json

datatype join_policy_profile = ProfileAll | ProfileAny

datatype task_kind_profile = ProfileModel | ProfileTool | ProfileAgentServer | ProfileArtifactCheck | ProfileTimerWakeup

record task_profile =
  tp_key :: string
  tp_stage_key :: "string option"
  tp_handler :: string
  tp_kind :: task_kind_profile
  tp_priority :: int
  tp_max_attempts :: nat
  tp_input :: json
  tp_depends_on :: "task_dependency_profile list"
  tp_join_policy :: join_policy_profile
  tp_context_projection :: "string list"

record execution_plan_profile =
  epp_schema :: string
  epp_plan_key :: string
  epp_stages :: "stage_profile list"
  epp_initial_tasks :: "task_profile list"
  epp_extension :: json

datatype plan_error =
    InvalidProfile | UnsupportedSchema | InvalidKey | InvalidPayload
  | InvalidShape execution_plan_shape_error | UnsupportedRevisionMutation

definition plan_logical_key :: "string \<Rightarrow> plan_error + logical_key" where
  "plan_logical_key v = (case parse_logical_key v of Inl _ \<Rightarrow> Inl InvalidKey | Inr key \<Rightarrow> Inr key)"

definition optional_key :: "string option \<Rightarrow> plan_error + logical_key option" where
  "optional_key v = (case v of None \<Rightarrow> Inr None | Some k \<Rightarrow> bindR (plan_logical_key k) (\<lambda>key. Inr (Some key)))"

definition kind_of_profile :: "task_kind_profile \<Rightarrow> task_kind" where
  "kind_of_profile k = (case k of ProfileModel \<Rightarrow> KModel | ProfileTool \<Rightarrow> KTool
     | ProfileAgentServer \<Rightarrow> KAgentServer | ProfileArtifactCheck \<Rightarrow> KArtifactCheck
     | ProfileTimerWakeup \<Rightarrow> KTimerWakeup)"

definition stage_spec_of :: "externals \<Rightarrow> stage_profile \<Rightarrow> plan_error + execution_stage_spec" where
  "stage_spec_of ext stage =
    bindR (plan_logical_key (sp_key stage)) (\<lambda>key.
    Inr \<lparr> ess_logical_key = key,
      ess_initial_status = (case sp_activation stage of ActivationActive \<Rightarrow> StageActive
                            | ActivationPlanned \<Rightarrow> StagePlanned),
      ess_assignee_kind = map_option ap_kind (sp_assignee stage),
      ess_assignee_ref = map_option ap_reference (sp_assignee stage),
      ess_input_contract = ext_to_vec ext (sp_input_contract stage),
      ess_output_contract = ext_to_vec ext (sp_output_contract stage),
      ess_policy = ext_to_vec ext (sp_policy stage) \<rparr>)"

definition dependency_spec_of :: "externals \<Rightarrow> task_dependency_profile \<Rightarrow> plan_error + task_dependency_spec" where
  "dependency_spec_of ext d =
    bindR (plan_logical_key (tdp_task d)) (\<lambda>key.
    Inr \<lparr> dep_task_key = key, dep_condition = ext_to_vec ext (tdp_condition d) \<rparr>)"

definition task_spec_of :: "externals \<Rightarrow> task_profile \<Rightarrow> plan_error + execution_task_spec" where
  "task_spec_of ext task =
    bindR (plan_logical_key (tp_key task)) (\<lambda>key.
    bindR (optional_key (tp_stage_key task)) (\<lambda>stage_key.
    bindR (plan_logical_key (tp_handler task)) (\<lambda>handler.
    bindR (traverseR (dependency_spec_of ext) (tp_depends_on task)) (\<lambda>dependencies.
    Inr \<lparr> ets_logical_key = key, ets_stage_key = stage_key, ets_handler_key = handler,
      ets_kind = kind_of_profile (tp_kind task), ets_priority = tp_priority task,
      ets_max_attempts = tp_max_attempts task, ets_input = ext_to_vec ext (tp_input task),
      ets_dependencies = dependencies,
      ets_join_policy = (case tp_join_policy task of ProfileAll \<Rightarrow> JoinAll | ProfileAny \<Rightarrow> JoinAny),
      ets_context_projection = tp_context_projection task \<rparr>))))"

definition shape_checked :: "execution_plan \<Rightarrow> plan_error + unit" where
  "shape_checked plan = (case validate_shape plan of Inl e \<Rightarrow> Inl (InvalidShape e) | Inr _ \<Rightarrow> Inr ())"

definition parse_execution_plan ::
  "externals \<Rightarrow> (json_payload \<Rightarrow> execution_plan_profile option) \<Rightarrow> json_payload \<Rightarrow> plan_error + execution_plan" where
  "parse_execution_plan ext read_profile spec =
    bindR (ok_or (read_profile spec) InvalidProfile) (\<lambda>profile.
    if epp_schema profile \<noteq> EXECUTION_PLAN_V1 then Inl UnsupportedSchema
    else
      bindR (traverseR (stage_spec_of ext) (epp_stages profile)) (\<lambda>stages.
      bindR (traverseR (task_spec_of ext) (epp_initial_tasks profile)) (\<lambda>tasks.
      bindR (plan_logical_key (epp_plan_key profile)) (\<lambda>key.
      let plan = \<lparr> plan_schema_version = EXECUTION_PLAN_SCHEMA_VERSION, plan_key = key, plan_stages = stages,
        plan_initial_tasks = tasks, plan_extension = ext_to_vec ext (epp_extension profile) \<rparr> in
      bindR (shape_checked plan) (\<lambda>_. Inr plan)))))"

section \<open>Materialisation\<close>

record materialized_execution_plan =
  mep_checkpoint_state :: json_payload
  mep_initial_stages :: "initial_stage list"
  mep_initial_tasks :: "initial_task list"

definition materialized_stage :: "externals \<Rightarrow> uuid \<Rightarrow> execution_stage_spec \<Rightarrow> initial_stage" where
  "materialized_stage ext run_id stage = \<lparr>
     is_stage_execution_id = stage_execution_id ext run_id (ess_logical_key stage),
     is_stage_key = ess_logical_key stage, is_definition_stage_key = ess_logical_key stage,
     is_status = ess_initial_status stage, is_attempt = 1, is_assignee_kind = ess_assignee_kind stage,
     is_assignee_ref = ess_assignee_ref stage, is_input_contract = ess_input_contract stage,
     is_output_contract = ess_output_contract stage, is_policy = ess_policy stage \<rparr>"

definition materialized_dependency :: "externals \<Rightarrow> uuid \<Rightarrow> task_dependency_spec \<Rightarrow> initial_task_dependency" where
  "materialized_dependency ext run_id d = \<lparr> id_prerequisite_task_id = plan_task_id ext run_id (dep_task_key d),
     id_condition = dep_condition d \<rparr>"

definition materialized_task ::
  "externals \<Rightarrow> uuid \<Rightarrow> json \<Rightarrow> micros \<Rightarrow> execution_task_spec \<Rightarrow> plan_error + initial_task" where
  "materialized_task ext run_id run_input available_at task =
    bindR (ok_or (ext_from_slice ext (ets_input task)) InvalidPayload) (\<lambda>task_spec.
    (case encode_task_input ext (ets_handler_key task)
            (JObject [(''run_input'', run_input), (''task_spec'', task_spec)]) of
       Inl _ \<Rightarrow> Inl InvalidPayload
     | Inr input \<Rightarrow> Inr \<lparr> it_task_id = plan_task_id ext run_id (ets_logical_key task),
         it_stage_execution_id = map_option (stage_execution_id ext run_id) (ets_stage_key task),
         it_logical_key = ets_logical_key task, it_kind = ets_kind task, it_priority = ets_priority task,
         it_available_at = available_at, it_max_attempts = ets_max_attempts task, it_input = input,
         it_dependencies = map (materialized_dependency ext run_id) (ets_dependencies task),
         it_join_policy = ets_join_policy task,
         it_context_projection = ext_to_vec ext (JArray (map JString (ets_context_projection task))) \<rparr>))"

definition materialize_execution_plan ::
  "externals \<Rightarrow> execution_plan \<Rightarrow> uuid \<Rightarrow> json \<Rightarrow> micros \<Rightarrow> plan_error + materialized_execution_plan" where
  "materialize_execution_plan ext plan run_id run_input available_at =
    bindR (shape_checked plan) (\<lambda>_.
    bindR (ok_or (ext_from_slice ext (plan_extension plan)) InvalidPayload) (\<lambda>extension.
    let checkpoint_state = ext_to_vec ext (JObject [
          (''completed_steps'', JInt 0),
          (''execution_plan'', JObject [(''extension'', extension), (''plan_key'', JString (plan_key plan)),
             (''schema_version'', JInt (int (plan_schema_version plan)))]),
          (''run_input'', run_input)]) in
    bindR (traverseR (materialized_task ext run_id run_input available_at) (plan_initial_tasks plan)) (\<lambda>tasks.
    Inr \<lparr> mep_checkpoint_state = checkpoint_state,
      mep_initial_stages = map (materialized_stage ext run_id) (plan_stages plan),
      mep_initial_tasks = tasks \<rparr>)))"

definition revision_only_appends :: "execution_plan \<Rightarrow> execution_plan \<Rightarrow> bool" where
  "revision_only_appends current revised \<longleftrightarrow>
     plan_schema_version current = plan_schema_version revised \<and> plan_key current = plan_key revised
     \<and> plan_stages current = plan_stages revised
     \<and> \<not> list_ex (\<lambda>task. find (\<lambda>candidate. ets_logical_key candidate = ets_logical_key task)
            (plan_initial_tasks revised) \<noteq> Some task) (plan_initial_tasks current)"

definition materialize_plan_task_additions ::
  "externals \<Rightarrow> execution_plan \<Rightarrow> execution_plan \<Rightarrow> uuid \<Rightarrow> json \<Rightarrow> micros \<Rightarrow> plan_error + initial_task list" where
  "materialize_plan_task_additions ext current revised run_id run_input available_at =
    bindR (shape_checked current) (\<lambda>_.
    bindR (shape_checked revised) (\<lambda>_.
    if \<not> revision_only_appends current revised then Inl UnsupportedRevisionMutation
    else
      bindR (materialize_execution_plan ext revised run_id run_input available_at) (\<lambda>m.
      Inr (filter (\<lambda>task. \<not> list_ex (\<lambda>prior. ets_logical_key prior = it_logical_key task)
             (plan_initial_tasks current)) (mep_initial_tasks m)))))"

section \<open>The texts of ids and numbers\<close>

text \<open>
  \<open>decode_id\<close> takes the text in pairs: a slice that cuts a character of several bytes panics, and
  \<open>u8::from_str_radix\<close> also takes a sign before one digit.
\<close>

datatype id_error = IdLength | IdDigits | IdSlicePanic

definition hex_value :: "char \<Rightarrow> nat option" where
  "hex_value c = (let n = of_char c in
     if 48 \<le> n \<and> n \<le> 57 then Some (n - 48)
     else if 97 \<le> n \<and> n \<le> 102 then Some (n - 87)
     else if 65 \<le> n \<and> n \<le> 70 then Some (n - 55)
     else None)"

definition pair_value :: "char \<Rightarrow> char \<Rightarrow> nat option" where
  "pair_value c d = (case hex_value d of
      None \<Rightarrow> None
    | Some low \<Rightarrow> if c = CHR ''+'' then Some low
        else map_option (\<lambda>high. 16 * high + low) (hex_value c))"

definition continues_character :: "char \<Rightarrow> bool" where
  "continues_character c \<longleftrightarrow> (let n = of_char c :: nat in 128 \<le> n \<and> n < 192)"

fun decode_pairs :: "string \<Rightarrow> id_error + nat list" where
  "decode_pairs (c # d # others) =
    (if continues_character c \<or> (others \<noteq> [] \<and> continues_character (hd others)) then Inl IdSlicePanic
     else case pair_value c d of
        None \<Rightarrow> Inl IdDigits
      | Some b \<Rightarrow> bindR (decode_pairs others) (\<lambda>bs. Inr (b # bs)))"
| "decode_pairs _ = Inr []"

definition id_of_bytes :: "nat list \<Rightarrow> uuid" where
  "id_of_bytes bs = fold (\<lambda>b u. 256 * u + of_nat b) bs 0"

definition decode_id :: "string \<Rightarrow> id_error + uuid" where
  "decode_id v = (if length v \<noteq> 32 then Inl IdLength else bindR (decode_pairs v) (\<lambda>bs. Inr (id_of_bytes bs)))"

fun nat_digits :: "nat \<Rightarrow> string" where
  "nat_digits n = (if n < 10 then [hex_digit n] else nat_digits (n div 10) @ [hex_digit (n mod 10)])"

declare nat_digits.simps [simp del]

definition decimal_text :: "int \<Rightarrow> string" where
  "decimal_text i = (if i < 0 then CHR ''-'' # nat_digits (nat (- i)) else nat_digits (nat i))"

lemma hex_digit_cases: "n < 16 \<Longrightarrow> hex_value (hex_digit n) = Some n \<and> hex_digit n \<noteq> CHR ''+''
    \<and> \<not> continues_character (hex_digit n)"
proof -
  have "\<forall>n \<in> set [0..<16]. hex_value (hex_digit n) = Some n \<and> hex_digit n \<noteq> CHR ''+''
      \<and> \<not> continues_character (hex_digit n)"
    by code_simp
  then show "n < 16 \<Longrightarrow> ?thesis" by simp
qed

fun hex_text :: "nat \<Rightarrow> nat \<Rightarrow> string" where
  "hex_text 0 n = []"
| "hex_text (Suc k) n = hex_digit (n div 16 ^ k mod 16) # hex_text k n"

lemma hex_text_map: "hex_text k n = map (\<lambda>i. hex_digit (n div 16 ^ (k - 1 - i) mod 16)) [0..<k]"
  by (induction k) (simp_all add: upt_conv_Cons map_Suc_upt [symmetric] comp_def del: upt_Suc)

lemma id_text_hex: "id_text u = hex_text 32 (unat u)"
proof -
  have "unat (drop_bit (4 * j) u) = unat u div 16 ^ j" for j
    unfolding unat_drop_bit_eq by (simp add: drop_bit_eq_div power_mult)
  then show ?thesis by (simp only: id_text_def hex_text_map) simp
qed

fun byte_list :: "nat \<Rightarrow> nat \<Rightarrow> nat list" where
  "byte_list 0 n = []"
| "byte_list (Suc k) n = (n div 256 ^ k mod 256) # byte_list k n"

lemma decode_hex_text: "decode_pairs (hex_text (2 * k) n) = Inr (byte_list k n)"
proof (induction k)
  case (Suc k)
  let ?h = "n div 16 ^ (2 * k + 1) mod 16" and ?l = "n div 16 ^ (2 * k) mod 16"
  have two: "16 * ?h + ?l = n div 256 ^ k mod 256"
  proof -
    have sixteen: "(16 :: nat) ^ (2 * k) = 256 ^ k" by (simp only: power_mult) simp
    have "n div 16 ^ (2 * k + 1) = n div 256 ^ k div 16"
      unfolding power_add sixteen by (simp add: div_mult2_eq)
    then show ?thesis unfolding sixteen using mod_mult2_eq [of "n div 256 ^ k" 16 16] by simp
  qed
  have "pair_value (hex_digit ?h) (hex_digit ?l) = Some (n div 256 ^ k mod 256)"
    using hex_digit_cases [of ?h] hex_digit_cases [of ?l] two by (simp add: pair_value_def)
  moreover have "hex_text (2 * k) n = [] \<or> \<not> continues_character (hd (hex_text (2 * k) n))"
    using hex_digit_cases by (cases "2 * k") simp_all
  ultimately show ?case using Suc hex_digit_cases [of ?h] by auto
qed simp

lemma fold_byte_list: "fold (\<lambda>b u. 256 * u + of_nat b) (byte_list k n) a = a * 256 ^ k + (of_nat (n mod 256 ^ k) :: uuid)"
proof (induction k arbitrary: a)
  case (Suc k)
  have "n mod 256 ^ Suc k = 256 ^ k * (n div 256 ^ k mod 256) + n mod 256 ^ k"
    unfolding power_Suc2 by (rule mod_mult2_eq)
  then have "(of_nat (n mod 256 ^ Suc k) :: uuid) = 256 ^ k * of_nat (n div 256 ^ k mod 256) + of_nat (n mod 256 ^ k)"
    by (simp only: of_nat_add of_nat_mult of_nat_power of_nat_numeral)
  then show ?case
    by (simp only: byte_list.simps fold.simps comp_def Suc) (simp add: algebra_simps)
qed simp

lemma id_text_decoded: "decode_id (id_text u) = Inr u"
proof -
  have "length (id_text u) = 32" by (simp add: id_text_def)
  moreover have "decode_pairs (id_text u) = Inr (byte_list 16 (unat u))"
    using decode_hex_text [of 16 "unat u"] by (simp add: id_text_hex)
  moreover have "id_of_bytes (byte_list 16 (unat u)) = u"
  proof -
    have "unat u < 256 ^ 16" using unsigned_less [of u] by simp
    then show ?thesis unfolding id_of_bytes_def fold_byte_list by simp
  qed
  ultimately show ?thesis by (simp add: decode_id_def)
qed

text \<open>
  An id is read back from its text: \<open>decode_id\<close> accepts the 32 hexadecimal digits the program
  writes for an id and returns that id, and different ids have different texts.
\<close>

theorem id_text_roundtrip: "decode_id (id_text u) = Inr u \<and> (id_text u = id_text v \<longleftrightarrow> u = v)"
proof
  show "decode_id (id_text u) = Inr u" by (rule id_text_decoded)
  show "id_text u = id_text v \<longleftrightarrow> u = v"
    by (metis id_text_decoded sum.inject(2))
qed

text \<open>A text of 32 bytes whose second character takes two of them is not refused: the slice panics.\<close>

lemma decode_id_slice_panics:
  "decode_id (CHR ''a'' # CHR 0xC3 # CHR 0xA9 # replicate 29 (CHR ''0'')) = Inl IdSlicePanic"
  by code_simp

section \<open>A request for a run\<close>

datatype api_error =
    ApiBadRequest string | ApiNotFound string | ApiConflict string | ApiInternal string
  | ApiIdPanic | ApiStore store_error

definition API_ACTOR :: string where
  "API_ACTOR = ''agent-loom-http-api''"

record create_run_request =
  crq_input :: json
  crq_deadline_micros :: "int option"
  crq_parent_run_id :: "string option"
  crq_parent_task_id :: "string option"

text \<open>What the server reads: the run that is replayed with its plan revisions, or the workflow.\<close>

record plan_revision_view =
  prv_revision :: nat
  prv_plan :: json_payload
  prv_plan_digest :: digest

record workflow_view =
  wfv_workflow_version_id :: uuid
  wfv_status :: string
  wfv_lifecycle :: string
  wfv_spec :: json_payload
  wfv_spec_digest :: digest

record run_reads =
  rr_source_version :: "api_error + uuid option"
  rr_source_revisions :: "store_error + plan_revision_view list"
  rr_workflow :: "store_error + workflow_view option"

text \<open>What the server draws: random ids, and the two times it looks at the clock.\<close>

record run_draws =
  rd_run_id :: uuid
  rd_initial_event_id :: uuid
  rd_plan_revision_id :: uuid
  rd_context_snapshot_id :: uuid
  rd_checkpoint_id :: uuid
  rd_checked_at :: micros
  rd_available_at :: micros

record server_config =
  svc_tenant_id :: uuid
  svc_coordinator_agent_version_id :: uuid

definition parse_id :: "string \<Rightarrow> api_error + uuid" where
  "parse_id v = (case decode_id v of
      Inl IdLength \<Rightarrow> Inl (ApiBadRequest ''identifier must contain 32 hexadecimal characters'')
    | Inl IdDigits \<Rightarrow> Inl (ApiBadRequest ''identifier contains non-hexadecimal characters'')
    | Inl IdSlicePanic \<Rightarrow> Inl ApiIdPanic
    | Inr u \<Rightarrow> Inr u)"

definition parse_optional_id :: "string option \<Rightarrow> api_error + uuid option" where
  "parse_optional_id v = (case v of None \<Rightarrow> Inr None | Some t \<Rightarrow> bindR (parse_id t) (\<lambda>u. Inr (Some u)))"

definition shape_error_name :: "execution_plan_shape_error \<Rightarrow> string" where
  "shape_error_name e = (case e of UnsupportedSchemaVersion \<Rightarrow> ''UnsupportedSchemaVersion''
     | NoInitialTasks \<Rightarrow> ''NoInitialTasks'' | InvalidInitialStageStatus \<Rightarrow> ''InvalidInitialStageStatus''
     | IncompleteStageAssignee \<Rightarrow> ''IncompleteStageAssignee'' | DuplicateStageKey \<Rightarrow> ''DuplicateStageKey''
     | ZeroTaskAttempts \<Rightarrow> ''ZeroTaskAttempts'' | DuplicateTaskKey \<Rightarrow> ''DuplicateTaskKey''
     | UnknownTaskStage \<Rightarrow> ''UnknownTaskStage'' | TaskStageNotActive \<Rightarrow> ''TaskStageNotActive''
     | UnknownDependency \<Rightarrow> ''UnknownDependency'' | SelfDependency \<Rightarrow> ''SelfDependency''
     | DuplicateDependency \<Rightarrow> ''DuplicateDependency'' | DependencyCycle \<Rightarrow> ''DependencyCycle''
     | InvalidContextProjection \<Rightarrow> ''InvalidContextProjection'')"

definition plan_error_text :: "plan_error \<Rightarrow> string" where
  "plan_error_text e = (case e of InvalidProfile \<Rightarrow> ''Workflow spec is not a valid plan profile''
     | UnsupportedSchema \<Rightarrow> ''Workflow spec uses an unsupported plan schema''
     | InvalidKey \<Rightarrow> ''Execution plan contains an invalid key''
     | InvalidPayload \<Rightarrow> ''Execution plan contains an invalid JSON payload''
     | InvalidShape shape \<Rightarrow> ''Execution plan shape is invalid: '' @ shape_error_name shape
     | UnsupportedRevisionMutation \<Rightarrow>
         ''Plan revision may only append Tasks; existing Stages and Tasks are immutable'')"

definition internal_plan :: "plan_error + 'a \<Rightarrow> api_error + 'a" where
  "internal_plan r = (case r of Inl e \<Rightarrow> Inl (ApiInternal (plan_error_text e)) | Inr x \<Rightarrow> Inr x)"

definition from_store :: "store_error + 'a \<Rightarrow> api_error + 'a" where
  "from_store r = (case r of Inl e \<Rightarrow> Inl (ApiStore e) | Inr x \<Rightarrow> Inr x)"

text \<open>\<open>Iterator::max_by_key\<close>: the last one of those with the greatest key.\<close>

definition max_by_key :: "('a \<Rightarrow> nat) \<Rightarrow> 'a list \<Rightarrow> 'a option" where
  "max_by_key k xs = fold (\<lambda>x best. case best of None \<Rightarrow> Some x
      | Some b \<Rightarrow> if k b \<le> k x then Some x else Some b) xs None"

definition option_json :: "('a \<Rightarrow> json) \<Rightarrow> 'a option \<Rightarrow> json" where
  "option_json f x = (case x of None \<Rightarrow> JNull | Some v \<Rightarrow> f v)"

definition request_json :: "create_run_request \<Rightarrow> json" where
  "request_json request = JObject [(''input'', crq_input request),
     (''deadline_micros'', option_json JInt (crq_deadline_micros request)),
     (''parent_run_id'', option_json JString (crq_parent_run_id request)),
     (''parent_task_id'', option_json JString (crq_parent_task_id request))]"

definition requested_run_id :: "externals \<Rightarrow> run_draws \<Rightarrow> (uuid \<times> micros) option \<Rightarrow> uuid" where
  "requested_run_id ext draws schedule_fire = (case schedule_fire of
      None \<Rightarrow> rd_run_id draws
    | Some (schedule, fire_at) \<Rightarrow>
        derived_id ext ''schedule-run'' (id_text schedule @ ''/'' @ decimal_text fire_at))"

definition request_idempotency ::
  "string option \<Rightarrow> uuid \<Rightarrow> (uuid \<times> micros) option \<Rightarrow> uuid option \<Rightarrow> string" where
  "request_idempotency header run_id schedule_fire replay = (case schedule_fire of
      Some (schedule, fire_at) \<Rightarrow> ''schedule/'' @ id_text schedule @ ''/'' @ decimal_text fire_at
    | None \<Rightarrow> (case replay of
          Some source \<Rightarrow> ''replay/'' @ id_text source @ ''/'' @ case_option ''missing'' id header
        | None \<Rightarrow> case_option (id_text run_id) id header))"

definition source_plan :: "run_reads \<Rightarrow> uuid option \<Rightarrow> api_error + uuid \<times> json_payload \<times> digest" where
  "source_plan reads replay = (case replay of
      Some _ \<Rightarrow>
        bindR (rr_source_version reads) (\<lambda>source_version.
        bindR (ok_or source_version (ApiConflict ''Replay source Run has no Workflow version'')) (\<lambda>version.
        bindR (from_store (rr_source_revisions reads)) (\<lambda>revisions.
        bindR (ok_or (max_by_key prv_revision revisions) (ApiInternal ''Replay source Run has no Plan revision''))
          (\<lambda>revision. Inr (version, prv_plan revision, prv_plan_digest revision)))))
    | None \<Rightarrow>
        bindR (from_store (rr_workflow reads)) (\<lambda>found.
        bindR (ok_or found (ApiInternal ''configured Workflow was not found'')) (\<lambda>workflow.
        if wfv_status workflow \<noteq> ''active'' \<or> wfv_lifecycle workflow \<noteq> ''published''
        then Inl (ApiInternal ''configured Workflow is not active and published'')
        else Inr (wfv_workflow_version_id workflow, wfv_spec workflow, wfv_spec_digest workflow))))"

definition requested_run ::
  "externals \<Rightarrow> server_config \<Rightarrow> run_draws \<Rightarrow> create_run_request \<Rightarrow> uuid \<Rightarrow> string \<Rightarrow> (uuid \<times> micros) option
   \<Rightarrow> uuid option \<Rightarrow> uuid option \<Rightarrow> uuid option \<Rightarrow> uuid \<times> json_payload \<times> digest \<Rightarrow> execution_plan
   \<Rightarrow> materialized_execution_plan \<Rightarrow> create_run_command" where
  "requested_run ext server draws request run_id identity schedule_fire replay parent_run parent_task source plan m =
    (let version = fst source; input = ext_to_vec ext (crq_input request); event = rd_initial_event_id draws in
     \<lparr> crn_run_id = run_id, crn_replay_of_run_id = replay, crn_parent_run_id = parent_run,
       crn_parent_task_id = parent_task,
       crn_parent_event_id = map_option (\<lambda>_. derived_id ext ''parent-event'' identity) parent_run,
       crn_schedule_id = map_option fst schedule_fire, crn_scheduled_fire_at = map_option snd schedule_fire,
       crn_workflow_version_id = Some version,
       crn_coordinator_agent_version_id = Some (svc_coordinator_agent_version_id server),
       crn_input = input, crn_deadline = crq_deadline_micros request, crn_initial_event_id = event,
       crn_initial_plan_revision = \<lparr> np_plan_revision_id = rd_plan_revision_id draws,
         np_schema_version = plan_schema_version plan, np_plan_key = plan_key plan,
         np_plan = fst (snd source), np_plan_digest = snd (snd source),
         np_change_summary = ext_to_vec ext (JObject [
           (''kind'', JString (if replay = None then ''initial'' else ''replay'')),
           (''replay_of_run_id'', option_json (\<lambda>r. JString (id_text r)) replay)]),
         np_created_event_id = event \<rparr>,
       crn_initial_context = \<lparr> ns_context_snapshot_id = rd_context_snapshot_id draws, ns_schema_version = 1,
         ns_value = input, ns_digest = hash_bytes ext input, ns_created_event_id = event \<rparr>,
       crn_initial_checkpoint = \<lparr> nc_checkpoint_id = rd_checkpoint_id draws, nc_sequence = 1,
         nc_schema_version = plan_schema_version plan, nc_workflow_version_id = Some version,
         nc_coordinator_agent_version_id = Some (svc_coordinator_agent_version_id server),
         nc_execution_generation = 0, nc_state = mep_checkpoint_state m,
         nc_state_digest = hash_bytes ext (mep_checkpoint_state m), nc_created_event_id = event \<rparr>,
       crn_initial_stages = mep_initial_stages m, crn_initial_tasks = mep_initial_tasks m \<rparr>)"

definition run_request ::
  "externals \<Rightarrow> (json_payload \<Rightarrow> execution_plan_profile option) \<Rightarrow> server_config \<Rightarrow> run_reads \<Rightarrow> run_draws
   \<Rightarrow> string option \<Rightarrow> create_run_request \<Rightarrow> (uuid \<times> micros) option \<Rightarrow> uuid option
   \<Rightarrow> api_error + command_context \<times> create_run_command" where
  "run_request ext read_profile server reads draws header request schedule_fire replay =
    (if (case crq_deadline_micros request of None \<Rightarrow> False | Some d \<Rightarrow> d \<le> rd_checked_at draws)
     then Inl (ApiBadRequest ''deadline_micros must be in the future'')
     else
       let run_id = requested_run_id ext draws schedule_fire in
       bindR (parse_optional_id (crq_parent_run_id request)) (\<lambda>parent_run.
       bindR (parse_optional_id (crq_parent_task_id request)) (\<lambda>parent_task.
       if parent_task \<noteq> None \<and> parent_run = None
       then Inl (ApiBadRequest ''parent_task_id requires parent_run_id'')
       else
         let identity = ''api-create/'' @ request_idempotency header run_id schedule_fire replay in
         bindR (case server_context ext (svc_tenant_id server) run_id API_ACTOR ''create_run'' identity
                       (ext_to_vec ext (request_json request)) of
                  Inl e \<Rightarrow> Inl (ApiBadRequest e) | Inr ctx \<Rightarrow> Inr ctx) (\<lambda>ctx.
         bindR (source_plan reads replay) (\<lambda>source.
         bindR (internal_plan (parse_execution_plan ext read_profile (fst (snd source)))) (\<lambda>plan.
         bindR (internal_plan (materialize_execution_plan ext plan run_id (crq_input request)
                  (rd_available_at draws))) (\<lambda>m.
         Inr (ctx, requested_run ext server draws request run_id identity schedule_fire replay parent_run
                parent_task source plan m)))))))) "

definition create_run_impl ::
  "externals \<Rightarrow> (json_payload \<Rightarrow> execution_plan_profile option) \<Rightarrow> server_config \<Rightarrow> run_reads \<Rightarrow> run_draws
   \<Rightarrow> string option \<Rightarrow> create_run_request \<Rightarrow> (uuid \<times> micros) option \<Rightarrow> uuid option \<Rightarrow> nat \<Rightarrow> micros \<Rightarrow> db
   \<Rightarrow> api_error + run_snapshot committed \<times> db" where
  "create_run_impl ext read_profile server reads draws header request schedule_fire replay ttl now db =
    bindR (run_request ext read_profile server reads draws header request schedule_fire replay) (\<lambda>(ctx, cmd).
    from_store (create_run ext ttl ctx cmd now db))"

definition api_message :: "api_error \<Rightarrow> string" where
  "api_message e = (case e of ApiBadRequest m \<Rightarrow> m | ApiNotFound m \<Rightarrow> m | ApiConflict m \<Rightarrow> m
     | ApiInternal m \<Rightarrow> m | ApiIdPanic \<Rightarrow> [] | ApiStore err \<Rightarrow> safe_message err)"

definition dispatch_schedule_fire ::
  "externals \<Rightarrow> (json_payload \<Rightarrow> execution_plan_profile option) \<Rightarrow> server_config \<Rightarrow> run_reads \<Rightarrow> run_draws
   \<Rightarrow> schedule_snapshot \<Rightarrow> micros \<Rightarrow> nat \<Rightarrow> micros \<Rightarrow> db \<Rightarrow> string + unit \<times> db" where
  "dispatch_schedule_fire ext read_profile server reads draws schedule fire_at ttl now db =
    bindR (ok_or (ext_from_slice ext (ss_input schedule)) ''persisted Schedule input is not valid JSON'') (\<lambda>input.
    (case create_run_impl ext read_profile server reads draws None
            \<lparr> crq_input = input, crq_deadline_micros = None, crq_parent_run_id = None, crq_parent_task_id = None \<rparr>
            (Some (ss_schedule_id schedule, fire_at)) None ttl now db of
       Inl e \<Rightarrow> Inl (api_message e)
     | Inr (_, db') \<Rightarrow> Inr ((), db')))"

section \<open>What is materialised is well formed\<close>

text \<open>The digests that make the ids of a plan's stages and tasks do not collide.\<close>

definition ids_apart :: "externals \<Rightarrow> uuid \<Rightarrow> execution_plan \<Rightarrow> bool" where
  "ids_apart ext run_id plan \<longleftrightarrow> inj_on (plan_task_id ext run_id) (plan_keys plan)
     \<and> inj_on (stage_execution_id ext run_id) (ess_logical_key ` set (plan_stages plan))"

lemma materialized_task_fields:
  assumes "materialized_task ext run_id run_input at task = Inr t"
  shows "it_task_id t = plan_task_id ext run_id (ets_logical_key task)"
    and "it_logical_key t = ets_logical_key task"
    and "it_stage_execution_id t = map_option (stage_execution_id ext run_id) (ets_stage_key task)"
    and "it_max_attempts t = ets_max_attempts task"
    and "it_dependencies t = map (materialized_dependency ext run_id) (ets_dependencies task)"
    and "prerequisite_ids t = map (plan_task_id ext run_id \<circ> dep_task_key) (ets_dependencies task)"
  using assms
  by (auto simp: materialized_task_def encode_task_input_def result_iffs prerequisite_ids_def
      materialized_dependency_def)

lemma shape_checked_Inr: "shape_checked plan = Inr u \<longleftrightarrow> plan_ok plan"
  using validate_shape_ok [of plan] by (auto simp: shape_checked_def split: sum.splits)

lemma materialize_Inr:
  assumes "materialize_execution_plan ext plan run_id run_input at = Inr m"
  shows "plan_ok plan" and "mep_initial_stages m = map (materialized_stage ext run_id) (plan_stages plan)"
    and "list_all2 (\<lambda>task t. materialized_task ext run_id run_input at task = Inr t)
           (plan_initial_tasks plan) (mep_initial_tasks m)"
  using assms by (auto simp: materialize_execution_plan_def result_iffs shape_checked_Inr Let_def traverseR_iff)

lemma list_all2_map_eq:
  "list_all2 R xs ys \<Longrightarrow> (\<And>x y. R x y \<Longrightarrow> g y = f x) \<Longrightarrow> map g ys = map f xs"
  by (induction rule: list_all2_induct) auto

lemma list_all2_origin: "list_all2 R xs ys \<Longrightarrow> y \<in> set ys \<Longrightarrow> \<exists>x \<in> set xs. R x y"
  by (induction rule: list_all2_induct) auto

lemma any_clash_weaken:
  assumes "\<And>x y. x \<in> set xs \<Longrightarrow> y \<in> set xs \<Longrightarrow> clash x y \<Longrightarrow> f y = f x" and "distinct (map f xs)"
  shows "\<not> any_clash clash xs"
  using assms
proof (induction xs)
  case (Cons a xs)
  then have "\<not> clash a x" if "x \<in> set xs" for x using that by (metis distinct.simps(2) image_eqI list.set_intros list.set_map list.simps(9))
  with Cons show ?case by (auto simp: list_ex_iff)
qed simp

lemma materialized_origin:
  assumes "materialize_execution_plan ext plan run_id run_input at = Inr m" and "t \<in> set (mep_initial_tasks m)"
  obtains task where "task \<in> set (plan_initial_tasks plan)" and "materialized_task ext run_id run_input at task = Inr t"
    and "task_ok plan task"
  using list_all2_origin [OF materialize_Inr(3) [OF assms(1)] assms(2)] materialize_Inr(1) [OF assms(1)]
  unfolding plan_ok_def by blast

lemma materialized_ids:
  assumes "materialize_execution_plan ext plan run_id run_input at = Inr m"
  shows "map it_task_id (mep_initial_tasks m) = map (plan_task_id ext run_id \<circ> ets_logical_key) (plan_initial_tasks plan)"
    and "map it_logical_key (mep_initial_tasks m) = map ets_logical_key (plan_initial_tasks plan)"
  by (rule list_all2_map_eq [OF materialize_Inr(3) [OF assms]], simp add: materialized_task_fields)+

lemma materialized_ids_distinct:
  assumes "materialize_execution_plan ext plan run_id run_input at = Inr m" and "ids_apart ext run_id plan"
  shows "distinct (map it_task_id (mep_initial_tasks m))"
proof -
  have "distinct (map (plan_task_id ext run_id) (map ets_logical_key (plan_initial_tasks plan)))"
    using materialize_Inr(1) [OF assms(1)] assms(2)
    by (simp add: plan_ok_def ids_apart_def plan_keys_def distinct_map del: map_map)
  then show ?thesis by (simp add: materialized_ids [OF assms(1)])
qed

lemma materialized_stages_fit:
  assumes "materialize_execution_plan ext plan run_id run_input at = Inr m" and "ids_apart ext run_id plan"
  shows "\<not> list_ex invalid_initial_stage (mep_initial_stages m)"
    and "\<not> any_clash stages_clash (mep_initial_stages m)"
proof -
  note stages = materialize_Inr(2) [OF assms(1)] and ok = materialize_Inr(1) [OF assms(1)]
  show "\<not> list_ex invalid_initial_stage (mep_initial_stages m)"
    using ok by (auto simp: stages list_ex_iff invalid_initial_stage_def materialized_stage_def plan_ok_def stage_ok_def)
  show "\<not> any_clash stages_clash (mep_initial_stages m)"
  proof (rule any_clash_weaken)
    show "distinct (map is_stage_key (mep_initial_stages m))"
      using ok by (simp add: stages plan_ok_def materialized_stage_def comp_def)
    show "is_stage_key y = is_stage_key x" if "x \<in> set (mep_initial_stages m)" "y \<in> set (mep_initial_stages m)"
      "stages_clash x y" for x y
    proof -
      from that(1,2) obtain a b where ab: "a \<in> set (plan_stages plan)" "b \<in> set (plan_stages plan)"
          "x = materialized_stage ext run_id a" "y = materialized_stage ext run_id b"
        by (auto simp: stages)
      have "stage_execution_id ext run_id (ess_logical_key b) = stage_execution_id ext run_id (ess_logical_key a)
          \<Longrightarrow> ess_logical_key b = ess_logical_key a"
        using assms(2) ab(1,2) unfolding ids_apart_def by (auto dest: inj_onD)
      with that(3) show ?thesis by (auto simp: ab(3,4) stages_clash_def materialized_stage_def)
    qed
  qed
qed

lemma materialized_tasks_fit:
  assumes made: "materialize_execution_plan ext plan run_id run_input at = Inr m"
    and apart: "ids_apart ext run_id plan"
    and t: "t \<in> set (mep_initial_tasks m)"
  shows "\<not> invalid_initial_task (mep_initial_stages m) (mep_initial_tasks m) t" and "it_max_attempts t \<noteq> 0"
proof -
  obtain task where task: "task \<in> set (plan_initial_tasks plan)"
      "materialized_task ext run_id run_input at task = Inr t" "task_ok plan task"
    by (rule materialized_origin [OF made t])
  note fields = materialized_task_fields [OF task(2)]
  show "it_max_attempts t \<noteq> 0" using task(3) by (simp add: fields task_ok_def)
  have key: "ets_logical_key task \<in> plan_keys plan" using task(1) by (simp add: plan_keys_def)
  have dep: "dep_task_key d \<in> plan_keys plan" "dep_task_key d \<noteq> ets_logical_key task"
    if "d \<in> set (ets_dependencies task)" for d
    using that task(3) by (auto simp: task_ok_def)
  have inj: "plan_task_id ext run_id a = plan_task_id ext run_id b \<longleftrightarrow> a = b"
    if "a \<in> plan_keys plan" "b \<in> plan_keys plan" for a b
    using apart that by (auto simp: ids_apart_def dest: inj_onD)
  have ids: "it_task_id ` set (mep_initial_tasks m) = plan_task_id ext run_id ` plan_keys plan"
    using arg_cong [OF materialized_ids(1) [OF made], of set] by (simp add: plan_keys_def image_comp)
  have "\<not> any_clash (\<lambda>d other. id_prerequisite_task_id other = id_prerequisite_task_id d) (it_dependencies t)"
  proof -
    have "distinct (map (plan_task_id ext run_id) (map dep_task_key (ets_dependencies task)))"
      using task(3) dep apart
      by (auto simp: task_ok_def distinct_map ids_apart_def intro: inj_on_subset simp del: map_map)
    then show ?thesis by (simp add: any_clash_distinct fields materialized_dependency_def comp_def)
  qed
  moreover have "\<not> list_ex (\<lambda>d. id_prerequisite_task_id d = it_task_id t
      \<or> \<not> list_ex (\<lambda>c. it_task_id c = id_prerequisite_task_id d) (mep_initial_tasks m)) (it_dependencies t)"
  proof -
    have "\<exists>c \<in> set (mep_initial_tasks m). it_task_id c = plan_task_id ext run_id k" if "k \<in> plan_keys plan" for k
      using ids that by (metis (no_types, lifting) imageE image_eqI)
    then show ?thesis
      using dep inj [OF _ key] by (auto simp: list_ex_iff fields materialized_dependency_def)
  qed
  moreover have "case it_stage_execution_id t of None \<Rightarrow> True
      | Some s \<Rightarrow> list_ex (\<lambda>st. is_stage_execution_id st = s) (mep_initial_stages m)"
    using task(3) materialize_Inr(2) [OF made]
    by (force simp: fields task_ok_def list_ex_iff materialized_stage_def split: option.split)
  ultimately show "\<not> invalid_initial_task (mep_initial_stages m) (mep_initial_tasks m) t"
    by (auto simp: invalid_initial_task_def split: option.splits)
qed

lemma materialized_depends:
  assumes made: "materialize_execution_plan ext plan run_id run_input at = Inr m"
    and "(i, p) \<in> depends (mep_initial_tasks m)"
  obtains a b where "i = plan_task_id ext run_id a" and "p = plan_task_id ext run_id b"
    and "(a, b) \<in> depends_on plan" and "a \<in> plan_keys plan" and "b \<in> plan_keys plan"
proof -
  from assms(2) obtain t where t: "t \<in> set (mep_initial_tasks m)" "it_task_id t = i" "p \<in> set (prerequisite_ids t)"
    by (auto simp: depends_def dest!: find_initial_task_Some)
  obtain task where task: "task \<in> set (plan_initial_tasks plan)"
      "materialized_task ext run_id run_input at task = Inr t" "task_ok plan task"
    by (rule materialized_origin [OF made t(1)])
  from t(3) obtain d where d: "d \<in> set (ets_dependencies task)" "p = plan_task_id ext run_id (dep_task_key d)"
    by (auto simp: materialized_task_fields [OF task(2)])
  have "plan_task plan (ets_logical_key task) = Some task"
    using materialize_Inr(1) [OF made] task(1) unfolding plan_task_def plan_ok_def by (intro find_unique) simp_all
  then have "(ets_logical_key task, dep_task_key d) \<in> depends_on plan" using d(1) by (auto simp: depends_on_def)
  then show thesis
    using that [of "ets_logical_key task" "dep_task_key d"] t(2) d task(1,3) materialized_task_fields(1) [OF task(2)]
    by (auto simp: plan_keys_def task_ok_def)
qed

lemma materialized_acyclic:
  assumes made: "materialize_execution_plan ext plan run_id run_input at = Inr m"
    and apart: "ids_apart ext run_id plan"
  shows "\<not> initial_task_dependencies_have_cycle (mep_initial_tasks m)"
proof
  have inj: "a = b" if "plan_task_id ext run_id a = plan_task_id ext run_id b" "a \<in> plan_keys plan" "b \<in> plan_keys plan" for a b
    using apart that by (auto simp: ids_apart_def dest: inj_onD)
  have path: "\<exists>a b. i = plan_task_id ext run_id a \<and> p = plan_task_id ext run_id b \<and> (a, b) \<in> (depends_on plan)\<^sup>+
      \<and> a \<in> plan_keys plan \<and> b \<in> plan_keys plan"
    if "(i, p) \<in> (depends (mep_initial_tasks m))\<^sup>+" for i p
    using that
  proof (induction rule: trancl_induct)
    case (base p)
    then show ?case using materialized_depends [OF made] by (metis r_into_trancl')
  next
    case (step q p)
    from step.hyps(2) obtain c b where "q = plan_task_id ext run_id c" "p = plan_task_id ext run_id b"
        "(c, b) \<in> depends_on plan" "c \<in> plan_keys plan" "b \<in> plan_keys plan"
      by (rule materialized_depends [OF made])
    with step.IH inj show ?case by (metis trancl_into_trancl)
  qed
  assume "initial_task_dependencies_have_cycle (mep_initial_tasks m)"
  then obtain i where "(i, i) \<in> (depends (mep_initial_tasks m))\<^sup>+"
    unfolding cycle_check_iff [OF materialized_ids_distinct [OF made apart]] by blast
  from path [OF this] inj have "\<exists>a. (a, a) \<in> (depends_on plan)\<^sup>+" by metis
  then show False using materialize_Inr(1) [OF made] by (auto simp: plan_ok_def acyclic_def)
qed

section \<open>Revisions and task inputs\<close>

text \<open>The tasks that a revision adds are those whose keys are new, and their ids are new.\<close>

lemma additions_are_new:
  assumes "materialize_plan_task_additions ext current revised run_id run_input at = Inr added"
    and "ids_apart ext run_id revised" and "t \<in> set added"
  shows "it_logical_key t \<in> plan_keys revised - plan_keys current"
    and "it_task_id t \<notin> plan_task_id ext run_id ` plan_keys current"
proof -
  from assms(1) obtain m where made: "materialize_execution_plan ext revised run_id run_input at = Inr m"
    and only: "revision_only_appends current revised"
    and new: "added = filter (\<lambda>task. \<not> list_ex (\<lambda>prior. ets_logical_key prior = it_logical_key task)
        (plan_initial_tasks current)) (mep_initial_tasks m)"
    by (auto simp: materialize_plan_task_additions_def result_iffs split: if_splits)
  have t: "t \<in> set (mep_initial_tasks m)" "it_logical_key t \<notin> plan_keys current"
    using assms(3) by (auto simp: new plan_keys_def list_ex_iff)
  obtain task where task: "task \<in> set (plan_initial_tasks revised)"
      "materialized_task ext run_id run_input at task = Inr t" "task_ok revised task"
    by (rule materialized_origin [OF made t(1)])
  show key: "it_logical_key t \<in> plan_keys revised - plan_keys current"
    using task(1) t(2) by (simp add: plan_keys_def materialized_task_fields [OF task(2)])
  have "plan_keys current \<subseteq> plan_keys revised"
    using only by (auto simp: revision_only_appends_def plan_keys_def list_ex_iff dest!: bspec find_Some_in)
  then show "it_task_id t \<notin> plan_task_id ext run_id ` plan_keys current"
    using key assms(2) materialized_task_fields(1,2) [OF task(2)] by (auto simp: ids_apart_def dest: inj_onD)
qed

text \<open>A routed input is read back, also inside the metadata of a wait that is resumed.\<close>

lemma task_input_decoded:
  assumes "parse_logical_key key = Inr key" and "encode_task_input ext key payload = Inr text"
    and "ext_from_slice ext text = Some (JObject ms)"
    and "set (map fst ms) = {''schema'', ''handler'', ''payload''}"
    and "map_of ms = map_of [(''schema'', JString TASK_INPUT_SCHEMA_V1), (''handler'', JString key), (''payload'', payload)]"
  shows "decode_task_input ext text = Inr \<lparr> rti_handler_key = key, rti_payload = payload \<rparr>"
proof -
  have "json_get ms ''resume_input'' = None" by (simp add: json_get_def assms(5))
  moreover have "list_all (\<lambda>(k, _). k \<in> {''schema'', ''handler'', ''payload''}) ms"
    using assms(4) by (force simp: list_all_iff)
  ultimately have "envelope_from_value (without_wait_metadata (JObject ms))
      = Some \<lparr> tie_schema = TASK_INPUT_SCHEMA_V1, tie_handler = key, tie_payload = payload \<rparr>"
    by (simp add: without_wait_metadata_def get_str_def json_get_def assms(5))
  then show ?thesis using assms(1,3) by (simp add: decode_task_input_def)
qed

lemma resumed_input_decoded:
  "json_get ms ''resume_input'' = Some v \<Longrightarrow> without_wait_metadata (JObject ms) = v"
  by (simp add: without_wait_metadata_def)

section \<open>What the server asks the store for\<close>

lemma internal_plan_Inr: "internal_plan r = Inr x \<longleftrightarrow> r = Inr x"
  by (auto simp: internal_plan_def split: sum.splits)

lemma run_request_cases:
  assumes "run_request ext read_profile server reads draws header request schedule_fire replay = Inr (ctx, cmd)"
  obtains identity parent_run parent_task version payload digest plan m
  where "parse_optional_id (crq_parent_run_id request) = Inr parent_run"
    and "parent_task \<noteq> None \<longrightarrow> parent_run \<noteq> None"
    and "parse_execution_plan ext read_profile payload = Inr plan"
    and "materialize_execution_plan ext plan (requested_run_id ext draws schedule_fire) (crq_input request)
           (rd_available_at draws) = Inr m"
    and "cmd = requested_run ext server draws request (requested_run_id ext draws schedule_fire) identity
           schedule_fire replay parent_run parent_task (version, payload, digest) plan m"
  using assms unfolding run_request_def Let_def
  by (auto simp: result_iffs internal_plan_Inr simp del: append.simps split: if_splits intro: that)

lemma requested_run_fields [simp]:
  "crn_run_id (requested_run ext server draws request i d f r pr pt src plan m) = i"
  "crn_replay_of_run_id (requested_run ext server draws request i d f r pr pt src plan m) = r"
  "crn_parent_run_id (requested_run ext server draws request i d f r pr pt src plan m) = pr"
  "crn_initial_plan_revision (requested_run ext server draws request i d f r pr pt src plan m)
     = \<lparr> np_plan_revision_id = rd_plan_revision_id draws, np_schema_version = plan_schema_version plan,
         np_plan_key = plan_key plan, np_plan = fst (snd src), np_plan_digest = snd (snd src),
         np_change_summary = ext_to_vec ext (JObject [
           (''kind'', JString (if r = None then ''initial'' else ''replay'')),
           (''replay_of_run_id'', option_json (\<lambda>u. JString (id_text u)) r)]),
         np_created_event_id = rd_initial_event_id draws \<rparr>"
  "crn_initial_tasks (requested_run ext server draws request i d f r pr pt src plan m) = mep_initial_tasks m"
  by (simp_all add: requested_run_def Let_def)

text \<open>
  C15: whatever the server asks the store to create from a request, a fire of a schedule or a replay
  passes every check of validate_create_run on its events, revisions, checkpoint, stages, tasks and
  their graph, so that only an invalid condition of a dependency, which the shape check of plans does
  not read, is refused. Assumed: the digests of the keys of the plan do not collide, the plan that was
  read has the digest that was stored with it, random ids are not nil and not those of the parent or
  the source, and only a plain request has a parent.
\<close>

theorem requested_run_passes_validation:
  assumes "run_request ext read_profile server reads draws header request schedule_fire replay = Inr (ctx, cmd)"
    and "parse_execution_plan ext read_profile (np_plan (crn_initial_plan_revision cmd)) = Inr plan"
    and "ids_apart ext (crn_run_id cmd) plan"
    and "hash_bytes ext (np_plan (crn_initial_plan_revision cmd)) = np_plan_digest (crn_initial_plan_revision cmd)"
    and "rd_plan_revision_id draws \<noteq> 0" and "rd_context_snapshot_id draws \<noteq> 0"
    and "crn_run_id cmd \<notin> set_option (crn_parent_run_id cmd) \<union> set_option replay"
    and "schedule_fire = None \<and> replay = None
      \<or> crq_parent_run_id request = None \<and> (schedule_fire = None \<or> replay = None)"
  shows "validate_create_run ext cmd = check_conditions ext (concat (map it_dependencies (crn_initial_tasks cmd)))"
proof -
  from assms(1) obtain identity parent_run parent_task version payload digest plan' m where req:
      "parse_optional_id (crq_parent_run_id request) = Inr parent_run"
      "parent_task \<noteq> None \<longrightarrow> parent_run \<noteq> None"
      "parse_execution_plan ext read_profile payload = Inr plan'"
      "materialize_execution_plan ext plan' (requested_run_id ext draws schedule_fire) (crq_input request)
         (rd_available_at draws) = Inr m"
      "cmd = requested_run ext server draws request (requested_run_id ext draws schedule_fire) identity
         schedule_fire replay parent_run parent_task (version, payload, digest) plan' m"
    by (rule run_request_cases)
  have same: "plan' = plan" using assms(2) req(3) by (simp add: req(5))
  have apart: "ids_apart ext (requested_run_id ext draws schedule_fire) plan'" using assms(3) by (simp add: req(5) same)
  have orphan: "crq_parent_run_id request = None \<Longrightarrow> parent_run = None"
    using req(1) by (simp add: parse_optional_id_def)
  have schema: "plan_schema_version plan' = 1" using materialize_Inr(1) [OF req(4)] by (simp add: plan_ok_def)
  note fit = materialized_stages_fit [OF req(4) apart] materialized_acyclic [OF req(4) apart]
  have tasks: "\<not> list_ex (\<lambda>t. it_max_attempts t = 0) (mep_initial_tasks m)"
      "\<not> list_ex (invalid_initial_task (mep_initial_stages m) (mep_initial_tasks m)) (mep_initial_tasks m)"
    using materialized_tasks_fit [OF req(4) apart] by (auto simp: list_ex_iff)
  have plan_digest: "ext_sha256 ext (payload_bytes payload) = digest"
    using assms(4) by (simp add: req(5) hash_bytes_def)
  have "validate_create_run ext cmd
      = bindR (check_conditions ext (concat (map it_dependencies (mep_initial_tasks m)))) (\<lambda>_. Inr ())"
    using fit tasks schema plan_digest assms(5-8) req(2) orphan
    unfolding validate_create_run_def req(5)
    by (auto simp: requested_run_def Let_def hash_bytes_def)
  also have "\<dots> = check_conditions ext (concat (map it_dependencies (mep_initial_tasks m)))"
    by (simp add: bindR_def split: sum.split)
  finally show ?thesis by (simp add: req(5))
qed

text \<open>A library whose digests tell texts of different lengths apart.\<close>

definition sample_digest_ext :: externals where
  "sample_digest_ext = sample_create_ext\<lparr>ext_sha256 := (\<lambda>bs. push_bit 128 (of_nat (length bs))),
     ext_to_vec := (\<lambda>_. ''{}'')\<rparr>"

definition sample_profile :: execution_plan_profile where
  "sample_profile = \<lparr> epp_schema = EXECUTION_PLAN_V1, epp_plan_key = ''p'',
     epp_stages = [\<lparr> sp_key = ''s'', sp_activation = ActivationActive, sp_assignee = None,
       sp_input_contract = JObject [], sp_output_contract = JObject [], sp_policy = JObject [] \<rparr>],
     epp_initial_tasks = [
       \<lparr> tp_key = ''a'', tp_stage_key = Some ''s'', tp_handler = ''h'', tp_kind = ProfileModel, tp_priority = 0,
         tp_max_attempts = 3, tp_input = JObject [], tp_depends_on = [], tp_join_policy = ProfileAll,
         tp_context_projection = [] \<rparr>,
       \<lparr> tp_key = ''bb'', tp_stage_key = None, tp_handler = ''h'', tp_kind = ProfileTool, tp_priority = 1,
         tp_max_attempts = 1, tp_input = JObject [],
         tp_depends_on = [\<lparr> tdp_task = ''a'', tdp_condition = JObject [] \<rparr>], tp_join_policy = ProfileAny,
         tp_context_projection = [''/x''] \<rparr>],
     epp_extension = JObject [] \<rparr>"

definition sample_server_config :: server_config where
  "sample_server_config = \<lparr> svc_tenant_id = 7, svc_coordinator_agent_version_id = 8 \<rparr>"

definition sample_reads :: run_reads where
  "sample_reads = \<lparr> rr_source_version = Inr None, rr_source_revisions = Inr [],
     rr_workflow = Inr (Some \<lparr> wfv_workflow_version_id = 81, wfv_status = ''active'',
       wfv_lifecycle = ''published'', wfv_spec = ''{}'', wfv_spec_digest = push_bit 128 2 \<rparr>) \<rparr>"

definition sample_draws :: run_draws where
  "sample_draws = \<lparr> rd_run_id = 90, rd_initial_event_id = 91, rd_plan_revision_id = 92,
     rd_context_snapshot_id = 93, rd_checkpoint_id = 94, rd_checked_at = 5, rd_available_at = 6 \<rparr>"

definition sample_run_request :: create_run_request where
  "sample_run_request = \<lparr> crq_input = JObject [], crq_deadline_micros = Some 9, crq_parent_run_id = None,
     crq_parent_task_id = None \<rparr>"

definition sample_task_spec :: "logical_key \<Rightarrow> execution_task_spec" where
  "sample_task_spec key = \<lparr> ets_logical_key = key, ets_stage_key = Some ''s'', ets_handler_key = ''h'',
     ets_kind = KModel, ets_priority = 0, ets_max_attempts = 3, ets_input = ''{}'', ets_dependencies = [],
     ets_join_policy = JoinAll, ets_context_projection = [] \<rparr>"

definition sample_request_plan :: execution_plan where
  "sample_request_plan = \<lparr> plan_schema_version = 1, plan_key = ''p'',
     plan_stages = [\<lparr> ess_logical_key = ''s'', ess_initial_status = StageActive, ess_assignee_kind = None,
       ess_assignee_ref = None, ess_input_contract = ''{}'', ess_output_contract = ''{}'', ess_policy = ''{}'' \<rparr>],
     plan_initial_tasks = [sample_task_spec ''a'',
       (sample_task_spec ''bb'')\<lparr>ets_stage_key := None, ets_kind := KTool, ets_priority := 1, ets_max_attempts := 1,
         ets_dependencies := [\<lparr> dep_task_key = ''a'', dep_condition = ''{}'' \<rparr>], ets_join_policy := JoinAny,
         ets_context_projection := [''/x''] \<rparr>],
     plan_extension = ''{}'' \<rparr>"

definition sample_requested :: "api_error + command_context \<times> create_run_command" where
  "sample_requested = run_request sample_digest_ext (\<lambda>_. Some sample_profile) sample_server_config sample_reads
     sample_draws (Some ''k'') sample_run_request None None"

lemma sample_plan_parsed:
  "parse_execution_plan sample_digest_ext (\<lambda>_. Some sample_profile) ''{}'' = Inr sample_request_plan"
  by code_simp

lemma sample_plan_checked: "shape_checked sample_request_plan = Inr ()"
  by code_simp

lemma sample_key_ok: "key_parse 64 ''create_run'' = Inr ''create_run''" "key_parse 255 ''api-create/k'' = Inr ''api-create/k''"
  by code_simp+

lemma sample_digest_eval:
  "ext_to_vec sample_digest_ext v = ''{}''" "ext_from_slice sample_digest_ext ''{}'' = Some (JObject [])"
  by (simp_all add: sample_digest_ext_def sample_create_ext_def)

lemma sample_plan_fields:
  "plan_extension sample_request_plan = ''{}''"
  "plan_initial_tasks sample_request_plan = [sample_task_spec ''a'',
     (sample_task_spec ''bb'')\<lparr>ets_stage_key := None, ets_kind := KTool, ets_priority := 1, ets_max_attempts := 1,
       ets_dependencies := [\<lparr> dep_task_key = ''a'', dep_condition = ''{}'' \<rparr>], ets_join_policy := JoinAny,
       ets_context_projection := [''/x''] \<rparr>]"
  by (simp_all add: sample_request_plan_def)

lemma sample_requested_fits:
  "\<exists>ctx cmd. sample_requested = Inr (ctx, cmd) \<and> np_plan (crn_initial_plan_revision cmd) = ''{}''
     \<and> np_plan_digest (crn_initial_plan_revision cmd) = push_bit 128 2 \<and> crn_parent_run_id cmd = None
     \<and> crn_run_id cmd = 90
     \<and> check_conditions sample_digest_ext (concat (map it_dependencies (crn_initial_tasks cmd))) = Inr ()"
  by (simp add: sample_requested_def run_request_def sample_run_request_def sample_draws_def parse_optional_id_def
      requested_run_id_def request_idempotency_def server_context_def sample_key_ok source_plan_def sample_reads_def
      from_store_def internal_plan_def sample_plan_parsed materialize_execution_plan_def sample_plan_checked
      sample_plan_fields sample_task_spec_def materialized_task_def encode_task_input_def
      materialized_dependency_def json_value_def dependency_condition_shape_is_valid_def sample_digest_eval Let_def)

lemma sample_ids: "plan_task_id sample_digest_ext 90 ''a'' \<noteq> plan_task_id sample_digest_ext 90 ''bb''"
  by code_simp

lemma requested_run_passes_validation_witness:
  "\<exists>ctx cmd. sample_requested = Inr (ctx, cmd) \<and> validate_create_run sample_digest_ext cmd = Inr ()"
proof -
  from sample_requested_fits obtain ctx cmd where req: "sample_requested = Inr (ctx, cmd)"
      "np_plan (crn_initial_plan_revision cmd) = ''{}''"
      "np_plan_digest (crn_initial_plan_revision cmd) = push_bit 128 2" "crn_parent_run_id cmd = None"
      "crn_run_id cmd = 90"
      "check_conditions sample_digest_ext (concat (map it_dependencies (crn_initial_tasks cmd))) = Inr ()"
    by blast
  have "ids_apart sample_digest_ext 90 sample_request_plan"
    using sample_ids
    by (simp add: ids_apart_def plan_keys_def sample_request_plan_def sample_task_spec_def inj_on_def)
  moreover have "hash_bytes sample_digest_ext ''{}'' = push_bit 128 2"
    by (simp add: hash_bytes_def sample_digest_ext_def payload_bytes_def)
  moreover have "rd_plan_revision_id sample_draws \<noteq> 0" "rd_context_snapshot_id sample_draws \<noteq> 0"
    by (simp_all add: sample_draws_def)
  ultimately have "validate_create_run sample_digest_ext cmd
      = check_conditions sample_digest_ext (concat (map it_dependencies (crn_initial_tasks cmd)))"
    using req(2-5)
    by (intro requested_run_passes_validation [OF req(1) [unfolded sample_requested_def], of sample_request_plan])
       (simp_all add: sample_plan_parsed sample_run_request_def)
  with req show ?thesis by auto
qed

end
