(* ===== verification/DuePolling.thy ===== *)
theory DuePolling
  imports StoreHistory RunRequest "HOL-Library.Product_Lexorder"
begin

text \<open>
  The scheduler of due work: \<open>scan_due_work\<close> of \<open>query_executor.rs\<close>, the planner and the tick of
  \<open>runtime/src/scheduler/mod.rs\<close>, and one run of the polling job of \<open>runtime/src/service/mod.rs\<close>. The
  store of a tick is an interface; its interpretation is \<open>apply_due_work\<close> on the rows of the store.
  Proved: following the cursor of the pages reaches every due retry once and ends; what was scanned
  and planned is accepted by the checks of \<open>apply_due_work\<close>; a tick accounts for every candidate.
\<close>

section \<open>The scan\<close>

record due_work_query =
  dwq_after :: "due_work_cursor option"
  dwq_limit :: nat

record due_work_page =
  dwp_candidates :: "due_work_candidate list"
  dwp_next_cursor :: "due_work_cursor option"

record due_row =
  du_kind :: due_work_kind
  du_execution :: uuid
  du_run :: uuid
  du_stage :: "uuid option"
  du_due :: micros
  du_revision :: int
  du_run_version :: int
  du_generation :: int
  du_checkpoint :: int

definition MAX_DUE_WORK_PAGE_SIZE :: nat where
  "MAX_DUE_WORK_PAGE_SIZE = 1000"

definition live_statuses :: "run_status set" where
  "live_statuses = {RunQueued, RunRunning, RunWaiting, RunApprovalRequired, RunRetrying, RunPaused}"

text \<open>The run of an execution joined with its current checkpoint.\<close>

definition run_at_checkpoint :: "uuid \<Rightarrow> uuid \<Rightarrow> db \<Rightarrow> (run_row \<times> checkpoint_row) list" where
  "run_at_checkpoint tenant run db = concat (map (\<lambda>r. map (Pair r)
      (filter (\<lambda>c. c_tenant c = r_tenant r \<and> c_run c = r_id r \<and> Some (c_id c) = r_checkpoint r) (db_checkpoints db)))
     (filter (\<lambda>r. r_tenant r = tenant \<and> r_id r = run \<and> r_status r \<in> live_statuses) (db_runs db)))"

definition retry_elapsed :: "micros option \<Rightarrow> micros \<Rightarrow> bool" where
  "retry_elapsed retry_at now \<longleftrightarrow> (case retry_at of None \<Rightarrow> False | Some t \<Rightarrow> t \<le> now)"

definition due_tool_row :: "tool_row \<Rightarrow> run_row \<times> checkpoint_row \<Rightarrow> due_row" where
  "due_tool_row x p = \<lparr> du_kind = DueToolRetry, du_execution = x_id x, du_run = x_run x, du_stage = x_stage x,
     du_due = the (x_retry_at x), du_revision = x_attempts x, du_run_version = r_version (fst p),
     du_generation = r_generation (fst p), du_checkpoint = c_seq (snd p) \<rparr>"

definition due_tool_rows :: "uuid \<Rightarrow> micros \<Rightarrow> db \<Rightarrow> due_row list" where
  "due_tool_rows tenant now db = concat (map (\<lambda>x. map (due_tool_row x) (run_at_checkpoint tenant (x_run x) db))
     (filter (\<lambda>x. x_tenant x = tenant \<and> x_status x = ToolRetryScheduled \<and> retry_elapsed (x_retry_at x) now)
        (db_tools db)))"

definition due_agent_row :: "agent_row \<Rightarrow> run_row \<times> checkpoint_row \<Rightarrow> due_row" where
  "due_agent_row g p = \<lparr> du_kind = DueAgentRetry, du_execution = g_id g, du_run = g_run g, du_stage = g_stage g,
     du_due = the (g_retry_at g), du_revision = g_version g, du_run_version = r_version (fst p),
     du_generation = r_generation (fst p), du_checkpoint = c_seq (snd p) \<rparr>"

definition due_agent_rows :: "uuid \<Rightarrow> micros \<Rightarrow> db \<Rightarrow> due_row list" where
  "due_agent_rows tenant now db = concat (map (\<lambda>g. map (due_agent_row g) (run_at_checkpoint tenant (g_run g) db))
     (filter (\<lambda>g. g_tenant g = tenant \<and> g_status g = AgentReconciling \<and> retry_elapsed (g_retry_at g) now)
        (db_agents db)))"

text \<open>\<open>(due_micros, kind, execution_id)\<close>; the kind is compared by its text.\<close>

type_synonym due_key = "int \<times> nat \<times> uuid"

definition kind_rank :: "due_work_kind \<Rightarrow> nat" where
  "kind_rank k = (case k of DueAgentRetry \<Rightarrow> 0 | DueToolRetry \<Rightarrow> 1)"

definition due_key :: "due_row \<Rightarrow> due_key" where
  "due_key r = (du_due r, kind_rank (du_kind r), du_execution r)"

definition cursor_key :: "due_work_cursor \<Rightarrow> due_key" where
  "cursor_key c = (dwc_due_at c, kind_rank (dwc_kind c), dwc_execution_id c)"

definition after_cursor :: "due_work_cursor option \<Rightarrow> due_row \<Rightarrow> bool" where
  "after_cursor after r \<longleftrightarrow> (case after of None \<Rightarrow> True | Some c \<Rightarrow> cursor_key c < due_key r)"

definition due_rows :: "uuid \<Rightarrow> micros \<Rightarrow> db \<Rightarrow> due_row list" where
  "due_rows tenant now db = sort_key due_key (due_tool_rows tenant now db @ due_agent_rows tenant now db)"

definition decode_due_work :: "uuid \<Rightarrow> due_row \<Rightarrow> due_work_candidate store_result" where
  "decode_due_work tenant r =
    bindR (nonnegative_u64 (du_checkpoint r) ''due-work checkpoint sequence'') (\<lambda>checkpoint_sequence.
    if checkpoint_sequence = 0 then Inl (inconsistent ''database due-work candidate has no checkpoint sequence'')
    else
      bindR (nonnegative_u64 (du_revision r) ''due-work revision'') (\<lambda>revision.
      bindR (nonnegative_u64 (du_run_version r) ''due-work Run version'') (\<lambda>run_version.
      bindR (nonnegative_u64 (du_generation r) ''due-work generation'') (\<lambda>generation.
      Inr \<lparr> dwk_tenant_id = tenant, dwk_run_id = du_run r, dwk_stage_execution_id = du_stage r,
        dwk_target = (case du_kind r of DueToolRetry \<Rightarrow> DueTool (du_execution r)
                      | DueAgentRetry \<Rightarrow> DueAgent (du_execution r)),
        dwk_due_at = du_due r, dwk_expected_revision = revision, dwk_run_version = run_version,
        dwk_execution_generation = generation, dwk_checkpoint_sequence = checkpoint_sequence \<rparr>))))"

definition scan_due_work :: "uuid \<Rightarrow> due_work_query \<Rightarrow> micros \<Rightarrow> db \<Rightarrow> due_work_page store_result" where
  "scan_due_work tenant query now db =
    (if dwq_limit query = 0
     then Inl (StoreError ConstraintViolation retry_class.RetryNever ''due-work page limit must be positive'')
     else
       let page_size = min (dwq_limit query) MAX_DUE_WORK_PAGE_SIZE;
           rows = take (page_size + 1) (filter (after_cursor (dwq_after query)) (due_rows tenant now db)) in
       bindR (traverseR (decode_due_work tenant) (take page_size rows)) (\<lambda>candidates.
       Inr \<lparr> dwp_candidates = candidates,
         dwp_next_cursor = (if length rows > page_size \<and> candidates \<noteq> []
                            then Some (candidate_cursor (last candidates)) else None) \<rparr>))"

section \<open>The planner\<close>

record due_work_planner =
  dpl_actor_ref :: string
  dpl_recovery_task_priority :: int
  dpl_recovery_task_max_attempts :: nat

definition new_due_work_planner :: "string \<Rightarrow> int \<Rightarrow> nat \<Rightarrow> string + due_work_planner" where
  "new_due_work_planner actor_ref priority max_attempts =
    (if actor_ref = [] then Inl ''Scheduler actor reference must not be empty''
     else if max_attempts = 0 then Inl ''recovery Task max attempts must be positive''
     else Inr \<lparr> dpl_actor_ref = actor_ref, dpl_recovery_task_priority = priority,
       dpl_recovery_task_max_attempts = max_attempts \<rparr>)"

definition due_work_kind_text :: "due_work_kind \<Rightarrow> string" where
  "due_work_kind_text k = (case k of DueToolRetry \<Rightarrow> ''tool-retry'' | DueAgentRetry \<Rightarrow> ''agent-retry'')"

definition parse_generated :: "nat \<Rightarrow> string \<Rightarrow> string \<Rightarrow> string + string" where
  "parse_generated max_len message v = (case key_parse max_len v of Inl _ \<Rightarrow> Inl message | Inr key \<Rightarrow> Inr key)"

definition due_work_identity :: "due_work_candidate \<Rightarrow> string" where
  "due_work_identity c = ''due-work/'' @ due_work_kind_text (candidate_kind c) @ ''/''
     @ id_text (execution_id_bytes c) @ ''/'' @ decimal_text (dwk_due_at c) @ ''/''
     @ decimal_text (int (dwk_expected_revision c))"

definition due_work_input :: "due_work_candidate \<Rightarrow> string" where
  "due_work_input c = ''{\"due_work_kind\":\"'' @ due_work_kind_text (candidate_kind c)
     @ ''\",\"execution_id\":\"'' @ id_text (execution_id_bytes c) @ ''\",\"expected_revision\":''
     @ decimal_text (int (dwk_expected_revision c)) @ ''}''"

definition plan_due_work ::
  "externals \<Rightarrow> due_work_planner \<Rightarrow> due_work_candidate \<Rightarrow> string + command_context \<times> apply_due_work_command" where
  "plan_due_work ext planner candidate =
    (let kind = due_work_kind_text (candidate_kind candidate);
         execution_id = id_text (execution_id_bytes candidate);
         identity = due_work_identity candidate;
         event_id = derived_id ext ''event'' identity in
    bindR (parse_generated 64 ''generated Scheduler scope is invalid'' ''scheduler.due_work'') (\<lambda>scope.
    bindR (parse_generated 255 ''generated due-work idempotency key is invalid'' identity) (\<lambda>idempotency_key.
    let ctx = \<lparr> cc_tenant_id = dwk_tenant_id candidate, cc_command_id = derived_id ext ''command'' identity,
      cc_correlation_id = derived_id ext ''correlation'' (id_text (dwk_run_id candidate)),
      cc_actor_ref = dpl_actor_ref planner, cc_scope = scope, cc_idempotency_key = idempotency_key,
      cc_request_hash = hash_bytes ext (''apply/'' @ identity) \<rparr> in
    bindR (parse_generated 255 ''generated recovery Task logical key is invalid''
             (''reconcile/'' @ kind @ ''/'' @ execution_id @ ''/''
                @ decimal_text (int (dwk_expected_revision candidate)))) (\<lambda>logical_key.
    Inr (ctx, \<lparr> adw_candidate = candidate,
      adw_expected_run = \<lparr> er_run_id = dwk_run_id candidate, er_version = Some (dwk_run_version candidate),
        er_execution_generation = Some (dwk_execution_generation candidate) \<rparr>,
      adw_recovery_task = \<lparr> nt_task_id = derived_id ext ''task'' identity,
        nt_stage_execution_id = dwk_stage_execution_id candidate, nt_logical_key = logical_key,
        nt_kind = KReconcile, nt_generation = dwk_execution_generation candidate,
        nt_based_on_checkpoint_sequence = dwk_checkpoint_sequence candidate,
        nt_priority = dpl_recovery_task_priority planner, nt_available_at = dwk_due_at candidate,
        nt_max_attempts = dpl_recovery_task_max_attempts planner, nt_input = due_work_input candidate,
        nt_deadline = None, nt_created_event_id = event_id \<rparr>,
      adw_applied_event_id = event_id \<rparr>)))))"

section \<open>The tick\<close>

datatype candidate_failure = PlanningFailed due_work_candidate string | StoreFailed due_work_candidate store_error

record due_work_tick_report =
  dtr_scanned :: nat
  dtr_applied :: nat
  dtr_duplicates :: nat
  dtr_no_ops :: nat
  dtr_failures :: "candidate_failure list"
  dtr_next_cursor :: "due_work_cursor option"

text \<open>The store a scheduler calls, on a state of its own.\<close>

record 's due_work_store =
  dws_scan :: "due_work_query \<Rightarrow> 's \<Rightarrow> due_work_page store_result"
  dws_apply :: "command_context \<Rightarrow> apply_due_work_command \<Rightarrow> 's \<Rightarrow> due_work_outcome committed store_result \<times> 's"

definition count_disposition :: "command_disposition \<Rightarrow> due_work_tick_report \<Rightarrow> due_work_tick_report" where
  "count_disposition d report = (case d of
      Applied \<Rightarrow> report\<lparr>dtr_applied := dtr_applied report + 1\<rparr>
    | Duplicate \<Rightarrow> report\<lparr>dtr_duplicates := dtr_duplicates report + 1\<rparr>
    | NoOp \<Rightarrow> report\<lparr>dtr_no_ops := dtr_no_ops report + 1\<rparr>)"

definition add_failure :: "candidate_failure \<Rightarrow> due_work_tick_report \<Rightarrow> due_work_tick_report" where
  "add_failure failure report = report\<lparr>dtr_failures := dtr_failures report @ [failure]\<rparr>"

fun tick_candidates ::
  "(due_work_candidate \<Rightarrow> string + command_context \<times> apply_due_work_command) \<Rightarrow> 's due_work_store
   \<Rightarrow> due_work_candidate list \<Rightarrow> due_work_tick_report \<Rightarrow> 's \<Rightarrow> due_work_tick_report \<times> 's" where
  "tick_candidates plan store [] report s = (report, s)"
| "tick_candidates plan store (c # cs) report s = (case plan c of
      Inl err \<Rightarrow> tick_candidates plan store cs (add_failure (PlanningFailed c err) report) s
    | Inr (ctx, cmd) \<Rightarrow> (case dws_apply store ctx cmd s of
          (Inl err, s') \<Rightarrow> tick_candidates plan store cs (add_failure (StoreFailed c err) report) s'
        | (Inr committed, s') \<Rightarrow>
            tick_candidates plan store cs (count_disposition (disposition committed) report) s'))"

definition tick ::
  "(due_work_candidate \<Rightarrow> string + command_context \<times> apply_due_work_command) \<Rightarrow> 's due_work_store
   \<Rightarrow> nat \<Rightarrow> due_work_cursor option \<Rightarrow> 's \<Rightarrow> due_work_tick_report store_result \<times> 's" where
  "tick plan store page_size after s =
    (if page_size = 0
     then (Inl (StoreError ConstraintViolation retry_class.RetryNever ''Scheduler due-work page size must be positive''), s)
     else (case dws_scan store \<lparr> dwq_after = after, dwq_limit = page_size \<rparr> s of
         Inl err \<Rightarrow> (Inl err, s)
       | Inr page \<Rightarrow> (case tick_candidates plan store (dwp_candidates page)
              \<lparr> dtr_scanned = length (dwp_candidates page), dtr_applied = 0, dtr_duplicates = 0, dtr_no_ops = 0,
                dtr_failures = [], dtr_next_cursor = dwp_next_cursor page \<rparr> s of
            (report, s') \<Rightarrow> (Inr report, s'))))"

datatype polling_activity = Idle | Progress (pa_completed: nat) (pa_failed: nat) (pa_last_failure: "candidate_failure option")

text \<open>One run of the polling job: the cursor it keeps is that of the page it has ticked.\<close>

definition poll_due_work ::
  "(due_work_candidate \<Rightarrow> string + command_context \<times> apply_due_work_command) \<Rightarrow> 's due_work_store
   \<Rightarrow> nat \<Rightarrow> due_work_cursor option \<Rightarrow> 's \<Rightarrow> polling_activity store_result \<times> due_work_cursor option \<times> 's" where
  "poll_due_work plan store page_size cursor s = (case tick plan store page_size cursor s of
      (Inl err, s') \<Rightarrow> (Inl err, cursor, s')
    | (Inr report, s') \<Rightarrow>
        (Inr (if dtr_scanned report = 0 then Idle
              else Progress (dtr_applied report + dtr_duplicates report + dtr_no_ops report)
                     (length (dtr_failures report))
                     (if dtr_failures report = [] then None else Some (last (dtr_failures report)))),
         dtr_next_cursor report, s'))"

text \<open>The store of the scheduler on the rows of the database: what fails changes nothing.\<close>

definition pg_due_work_store :: "externals \<Rightarrow> nat \<Rightarrow> uuid \<Rightarrow> micros \<Rightarrow> db due_work_store" where
  "pg_due_work_store ext ttl tenant now = \<lparr>
     dws_scan = (\<lambda>query db. scan_due_work tenant query now db),
     dws_apply = (\<lambda>ctx cmd db. case apply_due_work ext ttl ctx cmd now db of
        Inl err \<Rightarrow> (Inl err, db) | Inr (c, db') \<Rightarrow> (Inr c, db')) \<rparr>"

section \<open>What a tick keeps\<close>

lemma tick_candidates_split:
  "tick_candidates plan store (c # cs) report s =
     (let step = (case plan c of Inl err \<Rightarrow> (add_failure (PlanningFailed c err) report, s)
        | Inr p \<Rightarrow> (case dws_apply store (fst p) (snd p) s of
             (Inl err, s') \<Rightarrow> (add_failure (StoreFailed c err) report, s')
           | (Inr committed, s') \<Rightarrow> (count_disposition (disposition committed) report, s')))
      in tick_candidates plan store cs (fst step) (snd step))"
  by (auto split: sum.split prod.split)

definition accounted :: "due_work_tick_report \<Rightarrow> nat" where
  "accounted report = dtr_applied report + dtr_duplicates report + dtr_no_ops report + length (dtr_failures report)"

lemma accounted_step [simp]:
  "accounted (add_failure failure report) = Suc (accounted report)"
  "accounted (count_disposition d report) = Suc (accounted report)"
  by (simp_all add: accounted_def add_failure_def count_disposition_def split: command_disposition.split)

lemma tick_candidates_accounted:
  "accounted (fst (tick_candidates plan store cs report s)) = accounted report + length cs"
proof (induction cs arbitrary: report s)
  case (Cons c cs)
  then show ?case unfolding tick_candidates_split Let_def by (auto split: sum.split prod.split)
qed simp

lemma tick_candidates_scanned:
  "dtr_scanned (fst (tick_candidates plan store cs report s)) = dtr_scanned report
   \<and> dtr_next_cursor (fst (tick_candidates plan store cs report s)) = dtr_next_cursor report"
proof (induction cs arbitrary: report s)
  case (Cons c cs)
  then show ?case unfolding tick_candidates_split Let_def
    by (auto simp: add_failure_def count_disposition_def split: sum.split prod.split command_disposition.split)
qed simp

locale due_work_service =
  fixes store :: "'s due_work_store" and ok :: "'s \<Rightarrow> bool"
  assumes apply_ok: "ok s \<Longrightarrow> ok (snd (dws_apply store ctx cmd s))"
begin

lemma tick_candidates_ok: "ok s \<Longrightarrow> ok (snd (tick_candidates plan store cs report s))"
proof (induction cs arbitrary: report s)
  case (Cons c cs)
  have "ok s'" if "dws_apply store ctx cmd s = (r, s')" for ctx cmd r s'
    using apply_ok [OF Cons.prems, of ctx cmd] that by simp
  with Cons show ?case unfolding tick_candidates_split Let_def by (auto split: sum.split prod.split)
qed simp

lemma poll_ok:
  assumes "ok s"
  shows "ok (snd (snd (poll_due_work plan store n cursor s)))"
  using tick_candidates_ok [OF assms] assms
  by (auto simp: poll_due_work_def tick_def split: sum.split prod.split) (metis snd_conv)

end

lemma pg_due_work_apply:
  "snd (dws_apply (pg_due_work_store ext ttl tenant now) ctx cmd db)
   = (case apply_due_work ext ttl ctx cmd now db of Inl _ \<Rightarrow> db | Inr (_, db') \<Rightarrow> db')"
  by (auto simp: pg_due_work_store_def split: sum.split)

interpretation pg_due: due_work_service "pg_due_work_store ext ttl tenant now" reachable for ext ttl tenant now
  by unfold_locales
     (auto simp: pg_due_work_apply split: sum.split intro: reachable_step step_due_work)

section \<open>What is scanned\<close>

lemma run_at_checkpointD:
  "(r, c) \<in> set (run_at_checkpoint tenant run db) \<Longrightarrow> r \<in> set (db_runs db) \<and> c \<in> set (db_checkpoints db)
     \<and> r_tenant r = tenant \<and> r_id r = run \<and> r_status r \<in> live_statuses
     \<and> c_tenant c = tenant \<and> c_run c = run \<and> Some (c_id c) = r_checkpoint r"
  by (auto simp: run_at_checkpoint_def)

lemma set_due_rows: "set (due_rows tenant now db) = set (due_tool_rows tenant now db) \<union> set (due_agent_rows tenant now db)"
  by (simp add: due_rows_def)

lemma scan_due_work_Inr:
  assumes "scan_due_work tenant query now db = Inr page"
  shows "traverseR (decode_due_work tenant) (take (min (dwq_limit query) MAX_DUE_WORK_PAGE_SIZE)
           (filter (after_cursor (dwq_after query)) (due_rows tenant now db))) = Inr (dwp_candidates page)"
    and "dwq_limit query \<noteq> 0"
    and "dwp_next_cursor page = (if min (dwq_limit query) MAX_DUE_WORK_PAGE_SIZE
           < length (filter (after_cursor (dwq_after query)) (due_rows tenant now db)) \<and> dwp_candidates page \<noteq> []
         then Some (candidate_cursor (last (dwp_candidates page))) else None)"
  using assms by (auto simp: scan_due_work_def Let_def result_iffs min_def split: if_splits)

lemma decode_due_work_Inr:
  assumes "decode_due_work tenant r = Inr c"
  shows "dwk_tenant_id c = tenant" "dwk_run_id c = du_run r" "dwk_stage_execution_id c = du_stage r"
    "dwk_due_at c = du_due r" "int (dwk_expected_revision c) = du_revision r"
    "int (dwk_run_version c) = du_run_version r" "int (dwk_execution_generation c) = du_generation r"
    "int (dwk_checkpoint_sequence c) = du_checkpoint r" "dwk_checkpoint_sequence c > 0"
    "dwk_target c = (case du_kind r of DueToolRetry \<Rightarrow> DueTool (du_execution r) | DueAgentRetry \<Rightarrow> DueAgent (du_execution r))"
    "cursor_key (candidate_cursor c) = due_key r"
  using assms
  by (auto simp: decode_due_work_def result_iffs due_key_def cursor_key_def candidate_cursor_def candidate_kind_def
      execution_id_bytes_def split: if_splits due_work_kind.splits)

section \<open>The pages reach everything\<close>

lemma sorted_due_rows: "sorted (map due_key (due_rows tenant now db))"
  by (simp add: due_rows_def)

lemma page_last:
  assumes "scan_due_work tenant query now db = Inr page" and "dwp_next_cursor page = Some c"
  defines "rows \<equiv> filter (after_cursor (dwq_after query)) (due_rows tenant now db)"
    and "n \<equiv> min (dwq_limit query) MAX_DUE_WORK_PAGE_SIZE"
  shows "0 < n" and "n < length rows" and "cursor_key c = due_key (rows ! (n - 1))"
proof -
  note page = scan_due_work_Inr [OF assms(1), folded rows_def n_def]
  from page(3) assms(2) have long: "n < length rows" and c: "c = candidate_cursor (last (dwp_candidates page))"
    and some: "dwp_candidates page \<noteq> []"
    by (auto split: if_splits)
  show n: "0 < n" using page(2) by (simp add: n_def MAX_DUE_WORK_PAGE_SIZE_def)
  show "n < length rows" by (rule long)
  from page(1) have pairs: "list_all2 (\<lambda>r d. decode_due_work tenant r = Inr d) (take n rows) (dwp_candidates page)"
    by (simp add: traverseR_iff)
  then have "length (dwp_candidates page) = n" using long by (auto dest: list_all2_lengthD)
  then have "decode_due_work tenant (rows ! (n - 1)) = Inr (last (dwp_candidates page))"
    using list_all2_nthD2 [OF pairs, of "n - 1"] n some long by (simp add: last_conv_nth)
  then show "cursor_key c = due_key (rows ! (n - 1))" by (simp add: c decode_due_work_Inr(11))
qed

lemma page_advances:
  assumes "scan_due_work tenant query now db = Inr page" and "dwp_next_cursor page = Some c"
  shows "filter (after_cursor (Some c)) (due_rows tenant now db)
     = filter (\<lambda>r. cursor_key c < due_key r) (filter (after_cursor (dwq_after query)) (due_rows tenant now db))"
    and "length (filter (after_cursor (Some c)) (due_rows tenant now db))
       < length (filter (after_cursor (dwq_after query)) (due_rows tenant now db))"
proof -
  let ?rows = "filter (after_cursor (dwq_after query)) (due_rows tenant now db)"
  note last = page_last [OF assms]
  have row: "?rows ! (min (dwq_limit query) MAX_DUE_WORK_PAGE_SIZE - 1) \<in> set ?rows"
    using last(1,2) by (intro nth_mem) linarith
  then have "after_cursor (dwq_after query) (?rows ! (min (dwq_limit query) MAX_DUE_WORK_PAGE_SIZE - 1))"
    by simp
  then have "cursor_key c < due_key r \<Longrightarrow> after_cursor (dwq_after query) r" for r
    unfolding last(3) by (auto simp: after_cursor_def split: option.splits)
  then show eq: "filter (after_cursor (Some c)) (due_rows tenant now db) = filter (\<lambda>r. cursor_key c < due_key r) ?rows"
    by (auto simp: after_cursor_def intro: filter_cong)
  show "length (filter (after_cursor (Some c)) (due_rows tenant now db)) < length ?rows"
    unfolding eq by (rule length_filter_less [OF row]) (simp add: last(3))
qed

text \<open>The pages of an unchanged store, each asked for after the cursor of the one before.\<close>

function due_sweep ::
  "uuid \<Rightarrow> nat \<Rightarrow> micros \<Rightarrow> db \<Rightarrow> due_work_cursor option \<Rightarrow> due_work_candidate list store_result" where
  "due_sweep tenant limit now db after =
    (case scan_due_work tenant \<lparr> dwq_after = after, dwq_limit = limit \<rparr> now db of
       Inl err \<Rightarrow> Inl err
     | Inr page \<Rightarrow> (case dwp_next_cursor page of
           None \<Rightarrow> Inr (dwp_candidates page)
         | Some c \<Rightarrow> (case due_sweep tenant limit now db (Some c) of
               Inl err \<Rightarrow> Inl err
             | Inr cs \<Rightarrow> Inr (dwp_candidates page @ cs))))"
  by pat_completeness auto
termination
proof (relation "measure (\<lambda>(tenant, limit, now, db, after). length (filter (after_cursor after) (due_rows tenant now db)))")
  fix tenant now and limit :: nat and db and after :: "due_work_cursor option" and page c
  assume "scan_due_work tenant \<lparr> dwq_after = after, dwq_limit = limit \<rparr> now db = Inr page"
    and "dwp_next_cursor page = Some c"
  from page_advances(2) [OF this]
  show "((tenant, limit, now, db, Some c), tenant, limit, now, db, after)
      \<in> measure (\<lambda>(tenant, limit, now, db, after). length (filter (after_cursor after) (due_rows tenant now db)))"
    by simp
qed simp

declare due_sweep.simps [simp del]

lemma filter_above_nth:
  assumes "sorted_wrt (<) (map k xs)" and "i < length xs"
  shows "filter (\<lambda>x. k (xs ! i) < (k x :: 'k :: linorder)) xs = drop (Suc i) xs"
  using assms
proof (induction xs arbitrary: i)
  case (Cons a xs)
  show ?case
  proof (cases i)
    case 0
    then show ?thesis using Cons.prems by (auto simp: filter_id_conv)
  next
    case (Suc j)
    then have "\<not> k (xs ! j) < k a" using Cons.prems by (auto simp: not_less intro: less_imp_le)
    then show ?thesis using Cons Suc by simp
  qed
qed simp

lemma due_sweep_from:
  assumes "limit \<noteq> 0" and "sorted_wrt (<) (map due_key (due_rows tenant now db))"
    and "traverseR (decode_due_work tenant) (filter (after_cursor after) (due_rows tenant now db)) = Inr cs"
  shows "due_sweep tenant limit now db after = Inr cs"
  using assms(3)
proof (induction "length (filter (after_cursor after) (due_rows tenant now db))" arbitrary: after cs rule: less_induct)
  case less
  let ?rows = "filter (after_cursor after) (due_rows tenant now db)" and ?n = "min limit MAX_DUE_WORK_PAGE_SIZE"
  let ?query = "\<lparr> dwq_after = after, dwq_limit = limit \<rparr>"
  from less.prems have all: "list_all2 (\<lambda>r c. decode_due_work tenant r = Inr c) ?rows cs" by (simp add: traverseR_iff)
  then have first: "traverseR (decode_due_work tenant) (take ?n ?rows) = Inr (take ?n cs)"
    and rest: "traverseR (decode_due_work tenant) (drop ?n ?rows) = Inr (drop ?n cs)"
    by (simp_all add: traverseR_iff list_all2_takeI list_all2_dropI)
  have n: "0 < ?n" using assms(1) by (simp add: MAX_DUE_WORK_PAGE_SIZE_def)
  obtain page where page: "scan_due_work tenant ?query now db = Inr page" and cands: "dwp_candidates page = take ?n cs"
    using assms(1) first by (auto simp: scan_due_work_def Let_def min_def)
  show ?case
  proof (cases "dwp_next_cursor page")
    case None
    have "length ?rows \<le> ?n"
      using scan_due_work_Inr(3) [OF page] None n cands list_all2_lengthD [OF all]
      by (auto simp: min_def split: if_splits)
    then show ?thesis using page None cands list_all2_lengthD [OF all] by (simp add: due_sweep.simps)
  next
    case (Some c)
    note last = page_last [OF page Some, simplified] and next_rows = page_advances [OF page Some, simplified]
    have "sorted_wrt (<) (map due_key ?rows)" using assms(2) by (simp add: sorted_wrt_map sorted_wrt_filter)
    from filter_above_nth [OF this, of "?n - 1"] last n
    have "filter (\<lambda>r. cursor_key c < due_key r) ?rows = drop ?n ?rows" by simp
    then have "filter (after_cursor (Some c)) (due_rows tenant now db) = drop ?n ?rows"
      using next_rows(1) by simp
    then have "due_sweep tenant limit now db (Some c) = Inr (drop ?n cs)"
      using less.hyps [OF next_rows(2)] rest by simp
    then show ?thesis using page Some cands by (simp add: due_sweep.simps [of tenant limit now db after])
  qed
qed

section \<open>The keys are distinct\<close>

lemma concat_singletons_distinct:
  assumes "distinct (map k xs)" and "\<And>x. x \<in> set xs \<Longrightarrow> length (f x) \<le> 1"
    and "\<And>x y. x \<in> set xs \<Longrightarrow> y \<in> set (f x) \<Longrightarrow> h y = k x"
  shows "distinct (map h (concat (map f xs)))"
  using assms
proof (induction xs)
  case (Cons x xs)
  have "distinct (map h (f x))" using Cons.prems(2) [of x] by (cases "f x") auto
  moreover have "h y \<noteq> h z" if "y \<in> set (f x)" "z \<in> set (concat (map f xs))" for y z
  proof -
    from that(2) obtain w where "w \<in> set xs" "z \<in> set (f w)" by auto
    then show ?thesis using that(1) Cons.prems(1,3) by (auto simp: image_iff) metis
  qed
  ultimately show ?case using Cons by auto
qed simp

definition due_ids_ok :: "db \<Rightarrow> bool" where
  "due_ids_ok db \<longleftrightarrow> run_keys_ok db \<and> distinct (map c_id (db_checkpoints db))
     \<and> distinct (map x_id (db_tools db)) \<and> distinct (map g_id (db_agents db))"

lemma run_at_checkpoint_one:
  assumes "due_ids_ok db"
  shows "length (run_at_checkpoint tenant run db) \<le> 1"
proof -
  let ?runs = "filter (\<lambda>r. r_tenant r = tenant \<and> r_id r = run \<and> r_status r \<in> live_statuses) (db_runs db)"
  have one: "length ?runs \<le> 1"
    using assms by (intro filter_at_most_one [where k = r_id and v = run]) (auto simp: due_ids_ok_def run_keys_ok_def)
  have "length (filter (\<lambda>c. c_tenant c = r_tenant r \<and> c_run c = r_id r \<and> Some (c_id c) = r_checkpoint r)
      (db_checkpoints db)) \<le> 1" for r
    using assms by (intro filter_at_most_one [where k = c_id and v = "the (r_checkpoint r)"])
      (auto simp: due_ids_ok_def dest: sym)
  then show ?thesis using one by (cases ?runs) (auto simp: run_at_checkpoint_def)
qed

lemma due_rows_strict:
  assumes "due_ids_ok db"
  shows "sorted_wrt (<) (map due_key (due_rows tenant now db))"
proof -
  have "distinct (map du_execution (due_tool_rows tenant now db))"
    unfolding due_tool_rows_def
    by (rule concat_singletons_distinct [where k = x_id])
       (use assms run_at_checkpoint_one [OF assms] in \<open>auto simp: due_ids_ok_def due_tool_row_def due_agent_row_def intro: distinct_map_filter\<close>)
  moreover have "distinct (map du_execution (due_agent_rows tenant now db))"
    unfolding due_agent_rows_def
    by (rule concat_singletons_distinct [where k = g_id])
       (use assms run_at_checkpoint_one [OF assms] in \<open>auto simp: due_ids_ok_def due_tool_row_def due_agent_row_def intro: distinct_map_filter\<close>)
  moreover have "distinct (map due_key rows)" if "distinct (map du_execution rows)" for rows
  proof -
    have "distinct (map (\<lambda>k. snd (snd k)) (map due_key rows))"
      using that by (simp add: due_key_def comp_def)
    then show ?thesis unfolding distinct_map [of _ "map due_key rows"] by (rule conjunct1)
  qed
  moreover have "fst (snd k) = 1" if "k \<in> set (map due_key (due_tool_rows tenant now db))" for k
    using that by (auto simp: due_tool_rows_def due_tool_row_def due_key_def kind_rank_def)
  moreover have "fst (snd k) = 0" if "k \<in> set (map due_key (due_agent_rows tenant now db))" for k
    using that by (auto simp: due_agent_rows_def due_agent_row_def due_key_def kind_rank_def)
  ultimately have "distinct (map due_key (due_tool_rows tenant now db @ due_agent_rows tenant now db))"
    unfolding map_append distinct_append by (metis disjoint_iff zero_neq_one)
  then have "distinct (map due_key (due_rows tenant now db))"
    by (simp only: due_rows_def distinct_map set_sort distinct_sort)
  then show ?thesis using sorted_due_rows [of tenant now db] by (simp add: strict_sorted_iff)
qed

section \<open>Properties\<close>

lemma due_tool_row_in:
  assumes "x \<in> set (db_tools db)" and "x_tenant x = tenant" and "x_status x = ToolRetryScheduled"
    and "retry_elapsed (x_retry_at x) now" and "run_at_checkpoint tenant (x_run x) db \<noteq> []"
  shows "\<exists>r \<in> set (due_rows tenant now db). du_kind r = DueToolRetry \<and> du_execution r = x_id x"
proof -
  obtain p where "p \<in> set (run_at_checkpoint tenant (x_run x) db)"
    using assms(5) by (cases "run_at_checkpoint tenant (x_run x) db") auto
  with assms(1-4) have "due_tool_row x p \<in> set (due_rows tenant now db)"
    unfolding set_due_rows due_tool_rows_def by auto
  then show ?thesis by (rule bexI [rotated]) (simp add: due_tool_row_def)
qed

lemma due_agent_row_in:
  assumes "g \<in> set (db_agents db)" and "g_tenant g = tenant" and "g_status g = AgentReconciling"
    and "retry_elapsed (g_retry_at g) now" and "run_at_checkpoint tenant (g_run g) db \<noteq> []"
  shows "\<exists>r \<in> set (due_rows tenant now db). du_kind r = DueAgentRetry \<and> du_execution r = g_id g"
proof -
  obtain p where "p \<in> set (run_at_checkpoint tenant (g_run g) db)"
    using assms(5) by (cases "run_at_checkpoint tenant (g_run g) db") auto
  with assms(1-4) have "due_agent_row g p \<in> set (due_rows tenant now db)"
    unfolding set_due_rows due_agent_rows_def by auto
  then show ?thesis by (rule bexI [rotated]) (simp add: due_agent_row_def)
qed

lemma decoded_target:
  assumes "list_all2 (\<lambda>r c. decode_due_work tenant r = Inr c) rows cs" and "r \<in> set rows"
  shows "(case du_kind r of DueToolRetry \<Rightarrow> DueTool (du_execution r) | DueAgentRetry \<Rightarrow> DueAgent (du_execution r))
    \<in> dwk_target ` set cs"
  using assms by (induction rule: list_all2_induct) (auto simp: decode_due_work_Inr(10))

text \<open>
  C20: asking for page after page, each after the cursor of the one before, ends, and reaches all due
  work: on a store that does not change, the pages together are the due retries in the order of due
  time, kind and id, each of them once, whatever the limit of a page is; among them is every tool
  execution whose scheduled retry is due and every agent execution that waits for one, if its run is
  live and has a checkpoint. Assumed: ids are unique and the numbers of the rows are not negative.
\<close>

theorem due_sweep_visits_all:
  assumes "limit \<noteq> 0" and "due_ids_ok db"
    and "\<forall>r \<in> set (due_rows tenant now db). \<exists>c. decode_due_work tenant r = Inr c"
  shows "\<exists>cs. due_sweep tenant limit now db None = Inr cs
    \<and> list_all2 (\<lambda>r c. decode_due_work tenant r = Inr c) (due_rows tenant now db) cs
    \<and> sorted_wrt (<) (map (cursor_key \<circ> candidate_cursor) cs)
    \<and> (\<forall>x \<in> set (db_tools db). x_tenant x = tenant \<and> x_status x = ToolRetryScheduled
         \<and> retry_elapsed (x_retry_at x) now \<and> run_at_checkpoint tenant (x_run x) db \<noteq> []
         \<longrightarrow> DueTool (x_id x) \<in> dwk_target ` set cs)
    \<and> (\<forall>g \<in> set (db_agents db). g_tenant g = tenant \<and> g_status g = AgentReconciling
         \<and> retry_elapsed (g_retry_at g) now \<and> run_at_checkpoint tenant (g_run g) db \<noteq> []
         \<longrightarrow> DueAgent (g_id g) \<in> dwk_target ` set cs)"
proof -
  from assms(3) have "\<exists>cs. traverseR (decode_due_work tenant) rows = Inr cs" if "set rows \<subseteq> set (due_rows tenant now db)" for rows
    using that by (induction rows) auto
  then obtain cs where cs: "traverseR (decode_due_work tenant) (due_rows tenant now db) = Inr cs" by blast
  then have pairs: "list_all2 (\<lambda>r c. decode_due_work tenant r = Inr c) (due_rows tenant now db) cs"
    by (simp add: traverseR_iff)
  note strict = due_rows_strict [OF assms(2), of tenant now]
  have "due_sweep tenant limit now db None = Inr cs"
    using cs by (intro due_sweep_from assms(1) strict) (simp add: after_cursor_def)
  moreover have "map (cursor_key \<circ> candidate_cursor) cs = map due_key (due_rows tenant now db)"
    by (rule list_all2_map_eq [OF pairs]) (simp add: decode_due_work_Inr(11))
  ultimately show ?thesis
    using pairs strict due_tool_row_in [of _ db tenant now] due_agent_row_in [of _ db tenant now]
      decoded_target [OF pairs] by fastforce
qed

text \<open>The \<open>bigint\<close> columns that are compared with what was scanned.\<close>

definition bigints_ok :: "db \<Rightarrow> bool" where
  "bigints_ok db \<longleftrightarrow> (\<forall>r \<in> set (db_runs db). r_version r \<le> i64_max \<and> r_generation r \<le> i64_max)
     \<and> (\<forall>c \<in> set (db_checkpoints db). c_seq c \<le> i64_max)"

lemma find_only:
  assumes "x \<in> set xs" and "P x" and "\<And>y. y \<in> set xs \<Longrightarrow> P y \<Longrightarrow> y = x"
  shows "find P xs = Some x"
proof (cases "find P xs")
  case None
  then show ?thesis using assms(1,2) by (simp add: find_None_ball)
next
  case (Some y)
  then show ?thesis using find_Some_in [OF Some] assms(3) [of y] by simp
qed

lemma joined_run_found:
  assumes "due_ids_ok db" and "(r, c) \<in> set (run_at_checkpoint tenant run db)"
  shows "lock_event_run tenant run db = Inr (\<lparr> le_run = r, le_checkpoint_sequence = Some (c_seq c) \<rparr>, db)"
proof -
  note in_db = run_at_checkpointD [OF assms(2)]
  have "find_run tenant run db = Some r"
    unfolding find_run_def using assms(1) in_db
    by (intro find_only) (auto simp: due_ids_ok_def run_keys_ok_def dest: distinct_map_inj)
  moreover have "d = c" if "d \<in> set (db_checkpoints db)" "Some (c_id d) = r_checkpoint r" for d
    using that in_db assms(1) distinct_map_inj [of c_id "db_checkpoints db" d c] by (auto simp: due_ids_ok_def dest: sym)
  then have "find (\<lambda>c. c_tenant c = tenant \<and> c_run c = run \<and> Some (c_id c) = r_checkpoint r) (db_checkpoints db) = Some c"
    using in_db by (intro find_only) auto
  ultimately show ?thesis by (simp add: lock_event_run_def)
qed

lemma due_row_origin:
  assumes "d \<in> set (due_rows tenant now db)"
  obtains r c where "(r, c) \<in> set (run_at_checkpoint tenant (du_run d) db)" and "du_run_version d = r_version r"
    and "du_generation d = r_generation r" and "du_checkpoint d = c_seq c" and "du_due d \<le> now"
    and "case du_kind d of
        DueToolRetry \<Rightarrow> \<exists>x \<in> set (db_tools db). x_run x = du_run d \<and> x_stage x = du_stage d \<and> due_tool tenant (du_execution d) (du_revision d) (du_due d) now x
      | DueAgentRetry \<Rightarrow> \<exists>g \<in> set (db_agents db). g_run g = du_run d \<and> g_stage g = du_stage d \<and> due_agent tenant (du_execution d) (du_revision d) (du_due d) now g"
proof -
  from assms consider (tool) x r c where "x \<in> set (db_tools db)" "x_tenant x = tenant" "x_status x = ToolRetryScheduled"
      "retry_elapsed (x_retry_at x) now" "(r, c) \<in> set (run_at_checkpoint tenant (x_run x) db)" "d = due_tool_row x (r, c)"
    | (agent) g r c where "g \<in> set (db_agents db)" "g_tenant g = tenant" "g_status g = AgentReconciling"
      "retry_elapsed (g_retry_at g) now" "(r, c) \<in> set (run_at_checkpoint tenant (g_run g) db)" "d = due_agent_row g (r, c)"
    unfolding set_due_rows due_tool_rows_def due_agent_rows_def by auto
  then show thesis
  proof cases
    case tool
    then show ?thesis
      by (intro that [of r c]) (auto simp: due_tool_row_def retry_elapsed_def due_tool_def tool_of_def split: option.splits)
  next
    case agent
    then show ?thesis
      by (intro that [of r c]) (auto simp: due_agent_row_def retry_elapsed_def due_agent_def agent_of_def split: option.splits)
  qed
qed

lemma plan_due_work_Inr:
  assumes "plan_due_work ext planner candidate = Inr (ctx, cmd)"
  shows "cc_tenant_id ctx = dwk_tenant_id candidate" and "adw_candidate cmd = candidate"
    and "nt_stage_execution_id (adw_recovery_task cmd) = dwk_stage_execution_id candidate"
    and "nt_deadline (adw_recovery_task cmd) = None" and "nt_available_at (adw_recovery_task cmd) = dwk_due_at candidate"
    and "dwk_checkpoint_sequence candidate > 0 \<Longrightarrow> dpl_recovery_task_max_attempts planner > 0
      \<Longrightarrow> due_work_shape_is_valid cmd"
  using assms by (auto simp: plan_due_work_def Let_def result_iffs due_work_shape_is_valid_def)

text \<open>
  The rows of external executions satisfy the checks of their tables, and no version is at the end
  of its range.
\<close>

definition external_rows_ok :: "db \<Rightarrow> bool" where
  "external_rows_ok db \<longleftrightarrow> (\<forall>x \<in> set (db_tools db). tool_checks x \<and> x_attempts x \<le> i64_max)
     \<and> (\<forall>g \<in> set (db_agents db). agent_checks g \<and> g_version g < i64_max)"

lemma due_tool_consumed:
  assumes "x \<in> set (db_tools db)" and "due_tool tenant i revision (dwk_due_at (adw_candidate cmd)) now x"
    and "due_ids_ok db" and "external_rows_ok db"
  shows "\<exists>consumed db1. consume_due_tool tenant (x_run x) i revision cmd now db = Inr (consumed, db1)
    \<and> cdw_stage_execution_id consumed = x_stage x"
proof -
  let ?P = "due_tool tenant i revision (dwk_due_at (adw_candidate cmd)) now"
  have x: "tool_of tenant i x" "x_status x = ToolRetryScheduled" "x_attempts x = revision"
      "x_retry_at x = Some (dwk_due_at (adw_candidate cmd))"
    using assms(2) by (simp_all add: due_tool_def)
  have ids: "distinct (map x_id (db_tools db))" using assms(3) by (simp add: due_ids_ok_def)
  have locked: "find (tool_of tenant i) (db_tools db) = Some x"
    by (rule find_by_id [where k = x_id and P = "tool_of tenant i", OF assms(1) x(1) ids]) (use x(1) in \<open>simp add: tool_of_def\<close>)
  have one: "sql_count ?P (db_tools db) = 1"
    by (rule one_row_by_id [where k = x_id and P = ?P, OF assms(1,2) ids]) (use x(1) in \<open>simp add: due_tool_def tool_of_def\<close>)
  have "updates_pass tool_checks ?P (tool_retry_consumed now) (db_tools db)"
    using assms(4) by (auto simp: updates_pass_iff external_rows_ok_def tool_checks_def tool_retry_consumed_def
        due_tool_def status_sets)
  then show ?thesis
    using one x locked
    by (simp add: consume_due_tool_def Let_def txn_steps update_tools_def lock_tool_by_id_def ok_or_def)
qed

lemma due_agent_consumed:
  assumes "g \<in> set (db_agents db)" and "due_agent tenant i revision (dwk_due_at (adw_candidate cmd)) now g"
    and "due_ids_ok db" and "external_rows_ok db"
  shows "\<exists>consumed db1. consume_due_agent tenant (g_run g) i revision cmd now db = Inr (consumed, db1)
    \<and> cdw_stage_execution_id consumed = g_stage g"
proof -
  let ?P = "due_agent tenant i revision (dwk_due_at (adw_candidate cmd)) now"
  have g: "agent_of tenant i g" "g_status g = AgentReconciling" "g_version g = revision"
      "g_retry_at g = Some (dwk_due_at (adw_candidate cmd))"
    using assms(2) by (simp_all add: due_agent_def)
  have ids: "distinct (map g_id (db_agents db))" using assms(3) by (simp add: due_ids_ok_def)
  have locked: "find (agent_of tenant i) (db_agents db) = Some g"
    by (rule find_by_id [where k = g_id and P = "agent_of tenant i", OF assms(1) g(1) ids]) (use g(1) in \<open>simp add: agent_of_def\<close>)
  have one: "sql_count ?P (db_agents db) = 1"
    by (rule one_row_by_id [where k = g_id and P = ?P, OF assms(1,2) ids]) (use g(1) in \<open>simp add: due_agent_def agent_of_def\<close>)
  have range: "0 \<le> revision" "revision < i64_max" "agent_checks g"
    using assms(1,4) g(3) by (auto simp: external_rows_ok_def agent_checks_def)
  have next_version: "checked_add_i64_or revision 1 e = Inr (revision + 1)" for e
    using range(1,2) by simp
  have "updates_pass agent_checks ?P (agent_retry_consumed (revision + 1) now) (db_agents db)"
    using assms(4) range(1)
    by (auto simp: updates_pass_iff external_rows_ok_def agent_checks_def agent_retry_consumed_def due_agent_def
        split: option.splits)
  then show ?thesis
    using one g locked range
    by (simp add: consume_due_agent_def Let_def txn_steps update_agents_def lock_agent_by_id_def ok_or_def
        next_version nonnegative_u64_def u64_try_from_def add.commute)
qed

text \<open>What is due is consumed, and the stage that comes back is the one of the execution.\<close>

lemma due_work_consumed:
  assumes "case dwk_target (adw_candidate cmd) of
      DueTool i \<Rightarrow> \<exists>x \<in> set (db_tools db). x_run x = run \<and> x_stage x = stage
        \<and> due_tool tenant i (int (dwk_expected_revision (adw_candidate cmd))) (dwk_due_at (adw_candidate cmd)) now x
    | DueAgent i \<Rightarrow> \<exists>g \<in> set (db_agents db). g_run g = run \<and> g_stage g = stage
        \<and> due_agent tenant i (int (dwk_expected_revision (adw_candidate cmd))) (dwk_due_at (adw_candidate cmd)) now g"
    and "due_ids_ok db" and "external_rows_ok db"
  shows "\<exists>consumed db1. consume_external_due_work tenant run now cmd db = Inr (consumed, db1)
    \<and> cdw_stage_execution_id consumed = stage"
proof -
  let ?revision = "int (dwk_expected_revision (adw_candidate cmd))"
  have "?revision \<le> i64_max"
    using assms(1,3) by (auto simp: due_tool_def due_agent_def external_rows_ok_def split: due_work_target.splits)
  then have revision: "to_i64 (dwk_expected_revision (adw_candidate cmd)) ''due-work revision'' = Inr ?revision"
    by (simp add: to_i64_def i64_try_from_def ok_or_def)
  show ?thesis
  proof (cases "dwk_target (adw_candidate cmd)")
    case (DueTool i)
    with assms(1) obtain x where "x \<in> set (db_tools db)" "x_run x = run" "x_stage x = stage"
        "due_tool tenant i ?revision (dwk_due_at (adw_candidate cmd)) now x" by auto
    with due_tool_consumed [OF this(1,4) assms(2,3)] show ?thesis
      by (auto simp: consume_external_due_work_def revision DueTool txn_steps)
  next
    case (DueAgent i)
    with assms(1) obtain g where "g \<in> set (db_agents db)" "g_run g = run" "g_stage g = stage"
        "due_agent tenant i ?revision (dwk_due_at (adw_candidate cmd)) now g" by auto
    with due_agent_consumed [OF this(1,4) assms(2,3)] show ?thesis
      by (auto simp: consume_external_due_work_def revision DueAgent txn_steps)
  qed
qed

text \<open>
  C21: what the scan returned and the planner planned is what the store expects: on the database that
  was scanned, the command has the shape that apply_due_work asks for, its run is found and, unless
  the deadline of the run is over, passes every check made after the scan; the execution is due as it
  was scanned and its retry is consumed without an error; and the recovery task has the stage of the
  execution, which is the last check before the event and the task are written. Assumed: ids are
  unique, the rows of external executions satisfy the checks of their tables, and the bigint columns
  are in their range.
\<close>

theorem scanned_due_work_is_accepted:
  assumes "scan_due_work tenant query now db = Inr page" and "candidate \<in> set (dwp_candidates page)"
    and "plan_due_work ext planner candidate = Inr (ctx, cmd)" and "dpl_recovery_task_max_attempts planner > 0"
    and "due_ids_ok db" and "bigints_ok db" and "external_rows_ok db"
  shows "due_work_shape_is_valid cmd \<and> cc_tenant_id ctx = tenant \<and> dwk_tenant_id (adw_candidate cmd) = tenant
    \<and> due_execution tenant cmd now db
    \<and> (\<exists>run. lock_event_run tenant (dwk_run_id (adw_candidate cmd)) db = Inr (run, db)
        \<and> (validate_due_work_run cmd run now = Inr ()
           \<longleftrightarrow> (case r_deadline (le_run run) of None \<Rightarrow> True | Some deadline \<Rightarrow> now < deadline)))
    \<and> (\<exists>consumed db1. consume_external_due_work tenant (dwk_run_id (adw_candidate cmd)) now cmd db = Inr (consumed, db1)
        \<and> nt_stage_execution_id (adw_recovery_task cmd) = cdw_stage_execution_id consumed)"
proof -
  note page = scan_due_work_Inr(1) [OF assms(1)] and plan = plan_due_work_Inr [OF assms(3)]
  from page assms(2) obtain d where d: "d \<in> set (due_rows tenant now db)" "decode_due_work tenant d = Inr candidate"
    by (force simp: traverseR_iff dest: list_all2_origin dest!: in_set_takeD)
  note row = decode_due_work_Inr [OF d(2)]
  from d(1) obtain r c where join: "(r, c) \<in> set (run_at_checkpoint tenant (du_run d) db)"
      "du_run_version d = r_version r" "du_generation d = r_generation r" "du_checkpoint d = c_seq c" "du_due d \<le> now"
    and exec: "case du_kind d of
        DueToolRetry \<Rightarrow> \<exists>x \<in> set (db_tools db). x_run x = du_run d \<and> x_stage x = du_stage d \<and> due_tool tenant (du_execution d) (du_revision d) (du_due d) now x
      | DueAgentRetry \<Rightarrow> \<exists>g \<in> set (db_agents db). g_run g = du_run d \<and> g_stage g = du_stage d \<and> due_agent tenant (du_execution d) (du_revision d) (du_due d) now g"
    by (rule due_row_origin)
  note in_db = run_at_checkpointD [OF join(1)]
  have live: "r_status r \<in> {RunQueued, RunRunning, RunWaiting, RunApprovalRequired, RunRetrying, RunPaused}"
    using in_db by (simp add: live_statuses_def)
  have range: "i64_try_from (dwk_run_version candidate) = Some (r_version r)"
      "i64_try_from (dwk_execution_generation candidate) = Some (r_generation r)"
      "i64_try_from (dwk_checkpoint_sequence candidate) = Some (c_seq c)"
    using assms(6) in_db row(6-8) join(2-4) by (auto simp: i64_try_from_def bigints_ok_def)
  have "due_execution tenant cmd now db"
    using exec row(2,4,5,10) by (auto simp: due_execution_def plan(2) Let_def split: due_work_kind.splits)
  moreover have "lock_event_run tenant (dwk_run_id candidate) db
      = Inr (\<lparr> le_run = r, le_checkpoint_sequence = Some (c_seq c) \<rparr>, db)"
    using joined_run_found [OF assms(5) join(1)] by (simp add: row(2))
  moreover have "validate_due_work_run cmd \<lparr> le_run = r, le_checkpoint_sequence = Some (c_seq c) \<rparr> now = Inr ()
      \<longleftrightarrow> (case r_deadline r of None \<Rightarrow> True | Some deadline \<Rightarrow> now < deadline)"
    using live range join(5) row(4)
    by (auto simp: validate_due_work_run_def plan(2,4,5) Let_def split: option.splits)
  moreover have "\<exists>consumed db1. consume_external_due_work tenant (du_run d) now cmd db = Inr (consumed, db1)
      \<and> cdw_stage_execution_id consumed = du_stage d"
    using exec row(4,5,10) by (intro due_work_consumed assms(5,7)) (auto simp: plan(2) split: due_work_kind.splits)
  ultimately show ?thesis using plan row(1,2,3,9) assms(4) by auto
qed

definition sample_due_db :: db where
  "sample_due_db = sample_db\<lparr>db_tools := [sample_retry_tool, sample_retry_tool\<lparr>x_id := 81, x_retry_at := Some 90\<rparr>]\<rparr>"

definition sample_due_row :: "uuid \<Rightarrow> micros \<Rightarrow> due_row" where
  "sample_due_row i t = \<lparr> du_kind = DueToolRetry, du_execution = i, du_run = 1, du_stage = None, du_due = t,
     du_revision = 1, du_run_version = 0, du_generation = 0, du_checkpoint = 1 \<rparr>"

lemma sample_due_rows: "due_rows 7 110 sample_due_db = [sample_due_row 81 90, sample_due_row 80 100]"
  by (simp add: due_rows_def due_tool_rows_def due_agent_rows_def run_at_checkpoint_def live_statuses_def
      retry_elapsed_def due_tool_row_def sample_due_row_def sample_due_db_def sample_retry_tool_def sample_tool_def
      sample_defs due_key_def kind_rank_def)

lemma sample_due_ids: "due_ids_ok sample_due_db"
  by (simp add: due_ids_ok_def run_keys_ok_def sample_due_db_def sample_retry_tool_def sample_tool_def sample_defs)

definition sample_candidate :: "uuid \<Rightarrow> micros \<Rightarrow> due_work_candidate" where
  "sample_candidate i t = \<lparr> dwk_tenant_id = 7, dwk_run_id = 1, dwk_stage_execution_id = None, dwk_target = DueTool i,
     dwk_due_at = t, dwk_expected_revision = 1, dwk_run_version = 0, dwk_execution_generation = 0,
     dwk_checkpoint_sequence = 1 \<rparr>"

lemma sample_decoded: "decode_due_work 7 (sample_due_row i t) = Inr (sample_candidate i t)"
  by (simp add: decode_due_work_def sample_due_row_def sample_candidate_def nonnegative_u64_def u64_try_from_def
      ok_or_def)

lemma due_sweep_visits_all_witness:
  "due_sweep 7 1 110 sample_due_db None = Inr [sample_candidate 81 90, sample_candidate 80 100]"
proof -
  have "\<forall>r \<in> set (due_rows 7 110 sample_due_db). \<exists>c. decode_due_work 7 r = Inr c"
    by (simp add: sample_due_rows sample_decoded)
  from due_sweep_visits_all [OF _ sample_due_ids this, of 1] obtain cs
    where "due_sweep 7 1 110 sample_due_db None = Inr cs"
      "list_all2 (\<lambda>r c. decode_due_work 7 r = Inr c) [sample_due_row 81 90, sample_due_row 80 100] cs"
    by (auto simp: sample_due_rows)
  then show ?thesis by (auto simp: list_all2_Cons1 sample_decoded)
qed

definition sample_planner :: due_work_planner where
  "sample_planner = \<lparr> dpl_actor_ref = ''s'', dpl_recovery_task_priority = 0, dpl_recovery_task_max_attempts = 3 \<rparr>"

lemma sample_planned:
  "case plan_due_work sample_ext sample_planner (sample_candidate 81 90) of Inl _ \<Rightarrow> False | Inr _ \<Rightarrow> True"
  by code_simp

lemma scanned_due_work_is_accepted_witness:
  "\<exists>ctx cmd run. plan_due_work sample_ext sample_planner (sample_candidate 81 90) = Inr (ctx, cmd)
     \<and> due_execution 7 cmd 110 sample_due_db \<and> lock_event_run 7 1 sample_due_db = Inr (run, sample_due_db)
     \<and> validate_due_work_run cmd run 110 = Inr ()
     \<and> (\<exists>consumed db1. consume_external_due_work 7 1 110 cmd sample_due_db = Inr (consumed, db1)
         \<and> cdw_stage_execution_id consumed = None)"
proof -
  have page: "scan_due_work 7 \<lparr> dwq_after = None, dwq_limit = 1 \<rparr> 110 sample_due_db
      = Inr \<lparr> dwp_candidates = [sample_candidate 81 90], dwp_next_cursor = Some (candidate_cursor (sample_candidate 81 90)) \<rparr>"
    by (simp add: scan_due_work_def sample_due_rows after_cursor_def sample_decoded MAX_DUE_WORK_PAGE_SIZE_def)
  have range: "bigints_ok sample_due_db"
    by (simp add: bigints_ok_def sample_due_db_def sample_defs)
  have rows: "external_rows_ok sample_due_db"
    by (simp add: external_rows_ok_def tool_checks_def sample_due_db_def sample_retry_tool_def sample_tool_def
        sample_defs status_sets)
  from sample_planned obtain ctx cmd where plan: "plan_due_work sample_ext sample_planner (sample_candidate 81 90) = Inr (ctx, cmd)"
    by (auto split: sum.splits)
  have in_page: "sample_candidate 81 90 \<in> set (dwp_candidates \<lparr> dwp_candidates = [sample_candidate 81 90],
      dwp_next_cursor = Some (candidate_cursor (sample_candidate 81 90)) \<rparr>)" by simp
  have attempts: "dpl_recovery_task_max_attempts sample_planner > 0" by (simp add: sample_planner_def)
  from scanned_due_work_is_accepted [OF page in_page plan attempts sample_due_ids range rows] obtain run
    where "due_execution 7 cmd 110 sample_due_db" "lock_event_run 7 (dwk_run_id (adw_candidate cmd)) sample_due_db = Inr (run, sample_due_db)"
      "validate_due_work_run cmd run 110 = Inr () \<longleftrightarrow> (case r_deadline (le_run run) of None \<Rightarrow> True | Some d \<Rightarrow> 110 < d)"
      "\<exists>consumed db1. consume_external_due_work 7 (dwk_run_id (adw_candidate cmd)) 110 cmd sample_due_db
         = Inr (consumed, db1) \<and> nt_stage_execution_id (adw_recovery_task cmd) = cdw_stage_execution_id consumed"
    by blast
  moreover have "nt_stage_execution_id (adw_recovery_task cmd) = None"
    by (simp add: plan_due_work_Inr(3) [OF plan] sample_candidate_def)
  moreover have "dwk_run_id (adw_candidate cmd) = 1" by (simp add: plan_due_work_Inr(2) [OF plan] sample_candidate_def)
  moreover from this calculation have "r_deadline (le_run run) = None"
    by (auto simp: lock_event_run_def find_run_def sample_due_db_def sample_defs)
  ultimately show ?thesis using plan by auto
qed

text \<open>A tick on the store accounts for every candidate it scanned and leaves a store that commands can reach.\<close>

lemma due_work_tick_accounts:
  assumes "reachable db"
    and "tick (plan_due_work ext planner) (pg_due_work_store ext ttl tenant now) n after db = (Inr report, db')"
  shows "dtr_scanned report = dtr_applied report + dtr_duplicates report + dtr_no_ops report + length (dtr_failures report)"
    and "reachable db'"
proof -
  from assms(2) obtain page :: due_work_page where out: "tick_candidates (plan_due_work ext planner)
      (pg_due_work_store ext ttl tenant now) (dwp_candidates page)
      \<lparr> dtr_scanned = length (dwp_candidates page), dtr_applied = 0, dtr_duplicates = 0, dtr_no_ops = 0,
        dtr_failures = [], dtr_next_cursor = dwp_next_cursor page \<rparr> db = (report, db')"
    by (auto simp: tick_def split: if_splits sum.splits prod.splits)
  note fst_out = arg_cong [OF out, of fst, simplified, symmetric]
    and snd_out = arg_cong [OF out, of snd, simplified, symmetric]
  have "accounted report = dtr_scanned report"
    unfolding fst_out by (simp add: tick_candidates_accounted tick_candidates_scanned) (simp add: accounted_def)
  then show "dtr_scanned report = dtr_applied report + dtr_duplicates report + dtr_no_ops report + length (dtr_failures report)"
    by (simp add: accounted_def)
  show "reachable db'" unfolding snd_out by (rule pg_due.tick_candidates_ok [OF assms(1)])
qed

end
