(* ===== verification/Spec2Isabelle.thy ===== *)
theory Spec2Isabelle
  imports MigrationProgress DuePolling
begin

text \<open>
  A verification development for the durable store of agent-loom: the command handlers of
  \<open>crates/store-postgres/src/transaction_executor.rs\<close>, the domain types of \<open>crates/domain\<close>, and the
  commands and outcomes of \<open>crates/durable-store\<close>.

  \<^bold>\<open>The program.\<close> A run is a durable workflow instance. Its tasks are leased to workers, its waits
  are consumed by external events, and every change is one database transaction: it acquires an
  idempotency receipt, locks the run and what else it changes, checks the caller's expectations,
  appends one event at the run's next sequence number with its outbox message, updates the rows,
  advances the run's version and next sequence number, and finishes the receipt.

  \<^bold>\<open>How it is modelled.\<close> A row is a record, a table is a list of rows, and a transaction is a
  function of the database that returns an error, and then nothing is committed, or a value and
  the database to commit (\<open>StoreTables\<close>). Each SQL statement is an update, a count, a query or an
  insert on these lists. An insert fails when it would repeat a key, when a row it refers to is
  missing or when a check of its table fails; an update fails when a row it writes violates a
  check. Status columns are datatypes, ids are 128-bit words, digests and lease tokens 256-bit
  words, \<open>bigint\<close> columns are \<open>int\<close> with their overflow checks written out, \<open>u64\<close> values are \<open>nat\<close>
  with the conversions the code makes, and times are microseconds. JSON values are a datatype;
  JSON text, SHA-256 and the rows other transactions hold locked or have committed since a scan
  are arguments of the definitions that use them.

  \<^bold>\<open>The theories.\<close>
  \<^item> \<open>Prelude\<close>: results, lists as SQL tables, integer conversions.
  \<^item> \<open>Domain\<close>: statuses, ids, keys, snapshots and errors (\<open>domain/src\<close>, \<open>durable-store/src\<close>).
  \<^item> \<open>ExecutionPlan\<close>: the plan of a workflow and its shape check (\<open>domain/src/plan.rs\<close>).
  \<^item> \<open>ReceiptCodec\<close>: the receipts and their encoders and decoders.
  \<^item> \<open>StoreTables\<close>: the tables and transactions; \<open>Receipts\<close>: \<open>acquire_receipt\<close>, \<open>finish_receipt\<close>,
    \<open>insert_event\<close>; \<open>Samples\<close>: the concrete rows the witnesses use.
  \<^item> \<open>RunEffects\<close>: the locale \<open>run_command\<close>, the contract of a command on a run: it leaves runs and
    events alone, or advances one live run by one event. Its consequences are proved there once
    (a gapless event log, versions that only grow, ended runs that never change) and the
    interpretations \<open>claim_cmd\<close>, \<open>renew_cmd\<close>, \<open>reclaim_cmd\<close>, \<open>fail_cmd\<close>, \<open>event_cmd\<close>, \<open>control_cmd\<close> and
    \<open>complete_cmd\<close> give them to every handler. \<open>StoreSteps\<close> has the weaker contract \<open>store_command\<close>
    of a command that may also create runs, only move outbox messages, or record on an ended run
    what an external execution reports late (its status and terminal event stay), and the ledger
    of the store that every command keeps.
  \<^item> \<open>Dependencies\<close>: dependency conditions and \<open>resolve_dependent_tasks\<close>.
  \<^item> \<open>TaskLease\<close>: \<open>claim_task\<close>, \<open>renew_task_lease\<close>, \<open>reclaim_expired_lease\<close>.
  \<^item> \<open>RunWork\<close>: the updates that close or freeze the work of a run; \<open>TaskFailure\<close>: \<open>fail_task\<close>.
  \<^item> \<open>Waits\<close>: \<open>apply_event\<close>; \<open>RunControl\<close>: \<open>pause_run\<close>, \<open>resume_run\<close>, \<open>cancel_run\<close>.
  \<^item> \<open>Inserts\<close>: the rows a command creates; \<open>Completion\<close>: \<open>complete_task\<close>.
  \<^item> \<open>TaskGraph\<close>: the initial tasks of a run and their cycle check; \<open>CreateRun\<close>: \<open>create_run\<close>.
  \<^item> \<open>Outbox\<close>: \<open>claim_outbox\<close>, \<open>record_outbox_delivery\<close> and the worker of \<open>runtime/src/outbox.rs\<close> over the
    interface \<open>outbox_store\<close>.
  \<^item> \<open>ChildJoin\<close>: \<open>evaluate_child_run_join\<close>; \<open>PlanRevision\<close>: \<open>revise_plan\<close>; \<open>JsonPatch\<close>:
    \<open>merge_json_patch\<close>, the merge patch of a context; \<open>ContextPatch\<close>: \<open>apply_context_patch\<close>.
  \<^item> \<open>ExternalRows\<close>: what the commands on external executions share; \<open>DueWork\<close>: \<open>apply_due_work\<close>.
  \<^item> \<open>ExecutionSteps\<close>: the steps they share; \<open>ToolExecution\<close>: \<open>prepare_tool_execution\<close>,
    \<open>begin_tool_retry_attempt\<close>, \<open>record_tool_outcome\<close>; \<open>ToolAttempts\<close>: what they promise.
  \<^item> \<open>AgentExecution\<close>: \<open>prepare_agent_execution\<close>, \<open>begin_agent_resubmission\<close>,
    \<open>record_agent_submission\<close>, \<open>record_agent_outcome\<close>; \<open>AgentEvents\<close>: \<open>append_agent_events\<close>;
    \<open>AgentOutcomes\<close>: what these commands promise.
  \<^item> \<open>Maintenance\<close>: \<open>apply_maintenance\<close>, the runs and executions whose time has come.
  \<^item> \<open>Schedules\<close>: \<open>create_schedule\<close>, \<open>advance_schedule\<close> and the plan of a poll (\<open>server/src/schedule.rs\<close>).
  \<^item> \<open>RunRequest\<close>: from a request, a fire or a replay to \<open>create_run\<close>: plans are parsed and
    materialised (\<open>server/src/execution_plan.rs\<close>) and the command is built (\<open>server/src/api.rs\<close>).
  \<^item> \<open>DuePolling\<close>: \<open>scan_due_work\<close> and the scheduler of \<open>runtime/src/scheduler\<close> over the interface
    \<open>due_work_service\<close>: the pages of the scan, the planned commands, the tick and its report.
  \<^item> \<open>StoreHistory\<close>: all commands as the steps of one store, its reachable states and the journal it
    implements; the properties that span the components stand at the end of this file.
  \<^item> \<open>Migrations\<close>: the manifest of embedded migrations and the assessment of a journal
    (\<open>durable-store/src/migration.rs\<close>, \<open>migration_runner.rs\<close>, \<open>store-postgres/src/lib.rs\<close>);
    \<open>MigrationRun\<close>: the runner (\<open>durable-store/src/migration_executor.rs\<close>) and the PostgreSQL executor
    (\<open>store-postgres/src/migration_executor.rs\<close>), with a list of faults that says for each database
    call whether it fails, and then whether it took effect; \<open>MigrationHistory\<close>: the states that runs leave
    behind; \<open>MigrationSafety\<close> and \<open>MigrationProgress\<close>: what every run keeps and when a run succeeds.

  \<^bold>\<open>Not modelled.\<close> Connections, pools and SQL text; tenants and the definition tables as targets of
  foreign keys; lengths of \<open>varchar\<close> columns and checks that compare times; tracing and formatting;
  the MySQL executor of the migrations, the HTTP server, the worker loops and adapters, the recovery
  worker, the threads of the polling services, the read queries other than \<open>scan_due_work\<close> and the
  provider conformance suite. Parsers that \<open>serde\<close> derives, random ids, the clock, the Cron library and
  SHA-256 are arguments.
\<close>

section \<open>Properties of the whole store\<close>

text \<open>
  C1: whatever commands are applied, in whatever order and with whatever arguments, to a store that
  starts without runs: run and task ids stay unique; the event log of every run is the sequence
  1, 2, .. up to the number before its next one; a run has a terminal event exactly when its status is
  terminal and a suspended status exactly when it is paused; every event belongs to a run; and the
  outbox holds one message for each event, in the order of the events.
\<close>

theorem reachable_store_keeps_books:
  assumes "reachable db"
  shows "distinct (map r_id (db_runs db)) \<and> distinct (map t_id (db_tasks db))
    \<and> (\<forall>r \<in> set (db_runs db). map e_seq (run_log r db) = [1..r_next_seq r - 1]
         \<and> (run_terminal (r_status r) \<longleftrightarrow> r_terminal_event r \<noteq> None)
         \<and> (r_status r = RunPaused \<longleftrightarrow> r_suspended_from r \<noteq> None))
    \<and> (\<forall>e \<in> set (db_events db). \<exists>r \<in> set (db_runs db). event_of_run r e)
    \<and> map outbox_key (db_outbox db) = map event_key (db_events db)"
proof -
  have books: "ledger_ok db" "task_keys_ok db" using reachable_books [OF assms] by (simp_all add: books_ok_def)
  have "(run_terminal (r_status r) \<longleftrightarrow> r_terminal_event r \<noteq> None)
      \<and> (r_status r = RunPaused \<longleftrightarrow> r_suspended_from r \<noteq> None)" if "r \<in> set (db_runs db)" for r
    using that ledger_okD(1) [OF books(1)] by (simp add: runs_ok_def run_checks_ends)
  with books show ?thesis
    by (simp add: ledger_ok_def runs_ok_def run_keys_ok_def task_keys_ok_def log_ok_def events_owned_def
        outbox_matches_def)
qed

text \<open>
  C2: the store implements a journal. Every command, as it is applied to a reachable store, is a
  sequence of steps of the abstract journal: it opens a new run with one event, or appends events to
  the log of a run and to the published feed at once, and gives a run an end only if it has none.
\<close>

theorem store_refines_journal:
  assumes "reachable db" and "store_step db db'"
  shows "journal_step\<^sup>*\<^sup>* (journal_of db) (journal_of db')
    \<and> j_feed (journal_of db') = map e_id (db_events db')"
proof -
  have books: "books_ok db" by (rule reachable_books [OF assms(1)])
  have "outbox_matches db'" using books_step [OF books assms(2)] by (simp add: books_ok_def ledger_ok_def)
  then have "map (fst \<circ> snd) (map outbox_key (db_outbox db')) = map (fst \<circ> snd) (map event_key (db_events db'))"
    unfolding outbox_matches_def by (rule arg_cong)
  then have "j_feed (journal_of db') = map e_id (db_events db')"
    by (simp add: journal_of_def outbox_key_def event_key_def comp_def)
  moreover have "ledger_ok db" using books by (simp add: books_ok_def)
  ultimately show ?thesis
    using evolves_journal [OF store_step_evolves [OF assms(2) books_ok_store [OF books]]] by simp
qed

text \<open>
  C3: history is final. After any number of commands, every run is still there with a version, a
  generation and a next sequence number that are not lower; a run that had ended has the same status
  and the same terminal event; and the events recorded before are a prefix of the event log.
\<close>

theorem store_history_is_final:
  assumes "store_ok db" and "store_step\<^sup>*\<^sup>* db db'"
  shows "(\<exists>es. db_events db' = db_events db @ es)
    \<and> (\<forall>r \<in> set (db_runs db). \<exists>r' \<in> set (db_runs db'). same_run r r'
         \<and> r_version r \<le> r_version r' \<and> r_generation r \<le> r_generation r' \<and> r_next_seq r \<le> r_next_seq r'
         \<and> (run_terminal (r_status r)
              \<longrightarrow> r_status r' = r_status r \<and> r_terminal_event r' = r_terminal_event r))"
proof -
  have kept: "store_ok db'" "history_kept db db'" using history_kept_steps [OF assms(2,1)] by simp_all
  have one: "q = p" if "q \<in> set (db_runs db')" "p \<in> set (db_runs db')" "same_run r q" "same_run r p" for r p q
    using that recorded_run_other [of db' p q] kept(1) by (simp add: store_ok_def same_run_def)
  show ?thesis
  proof (intro conjI ballI)
    show "\<exists>es. db_events db' = db_events db @ es" using kept(2) by (simp add: history_kept_def)
    fix r assume r: "r \<in> set (db_runs db)"
    with kept(2) obtain r' where r': "r' \<in> set (db_runs db')" "same_run r r'" "r_version r \<le> r_version r'"
        "r_generation r \<le> r_generation r'" "r_next_seq r \<le> r_next_seq r'"
      unfolding history_kept_def runs_grow_def by blast
    have "r_status r' = r_status r \<and> r_terminal_event r' = r_terminal_event r" if "run_terminal (r_status r)"
      using kept(2) r that one [OF _ r'(1) _ r'(2)] unfolding history_kept_def ended_same_def by blast
    with r' show "\<exists>r' \<in> set (db_runs db'). same_run r r' \<and> r_version r \<le> r_version r'
        \<and> r_generation r \<le> r_generation r' \<and> r_next_seq r \<le> r_next_seq r'
        \<and> (run_terminal (r_status r) \<longrightarrow> r_status r' = r_status r \<and> r_terminal_event r' = r_terminal_event r)"
      by blast
  qed
qed

definition sample_blank_db :: db where
  "sample_blank_db = sample_schedule_db\<lparr>db_runs := [], db_tasks := [], db_events := [], db_outbox := []\<rparr>"

definition sample_ended_db :: db where
  "sample_ended_db = sample_schedule_db\<lparr>db_runs := [sample_run\<lparr>r_status := RunCompleted,
     r_terminal_event := Some 40, r_terminal_at := Some 5\<rparr>]\<rparr>"

lemma sample_blank_applies:
  "\<exists>c db'. create_run sample_create_ext 1000 (sample_context 73 ''f1'') sample_create 110
     sample_blank_db = Inr (c, db') \<and> db_runs db' \<noteq> []"
  by (simp add: sample_create_def sample_blank_db_def sample_schedule_db_def sample_schedule_def sample_create_ext_def
      sample_initial_task_def sample_defs status_sets create_eval txn_eval)

lemma sample_blank_step: "\<exists>db'. reachable sample_blank_db \<and> store_step sample_blank_db db' \<and> db_runs db' \<noteq> []"
proof -
  from sample_blank_applies obtain c db' where run: "create_run sample_create_ext 1000 (sample_context 73 ''f1'')
      sample_create 110 sample_blank_db = Inr (c, db')" and new: "db_runs db' \<noteq> []" by blast
  have "reachable sample_blank_db" by (rule reachable_blank) (simp add: blank_def sample_blank_db_def)
  with step_create_run [OF run] new show ?thesis by blast
qed

lemma reachable_store_keeps_books_witness:
  "\<exists>db. reachable db \<and> db_runs db \<noteq> []
     \<and> (\<forall>r \<in> set (db_runs db). map e_seq (run_log r db) = [1..r_next_seq r - 1])"
proof -
  from sample_blank_step obtain db' where "reachable db'" "db_runs db' \<noteq> []"
    using reachable_step by blast
  with reachable_store_keeps_books show ?thesis by blast
qed

lemma store_refines_journal_witness:
  "\<exists>db'. store_step sample_blank_db db' \<and> db_runs db' \<noteq> []
     \<and> journal_step\<^sup>*\<^sup>* (journal_of sample_blank_db) (journal_of db')"
  using sample_blank_step store_refines_journal by blast

lemma sample_ended_applies:
  "\<exists>c db'. create_run sample_create_ext 1000 (sample_context 73 ''f1'') sample_create 110
     sample_ended_db = Inr (c, db') \<and> length (db_runs db') = 2"
  by (simp add: sample_create_def sample_ended_db_def sample_schedule_db_def sample_schedule_def sample_create_ext_def
      sample_initial_task_def sample_defs status_sets create_eval txn_eval)

lemma store_history_is_final_witness:
  "\<exists>db'. store_step\<^sup>*\<^sup>* sample_ended_db db' \<and> length (db_runs db') = 2
     \<and> (\<exists>r \<in> set (db_runs db'). r_status r = RunCompleted \<and> r_terminal_event r = Some 40)"
proof -
  from sample_ended_applies obtain c db' where "create_run sample_create_ext 1000 (sample_context 73 ''f1'')
      sample_create 110 sample_ended_db = Inr (c, db')" and two: "length (db_runs db') = 2" by blast
  then have steps: "store_step\<^sup>*\<^sup>* sample_ended_db db'" by (blast intro: step_create_run)
  have ok: "store_ok sample_ended_db"
    by (simp add: sample_ended_db_def sample_schedule_db_def sample_defs store_ok_def runs_ok_def run_keys_ok_def
        task_keys_ok_def run_checks_def revision_checks_def status_sets)
  have "sample_run\<lparr>r_status := RunCompleted, r_terminal_event := Some 40, r_terminal_at := Some 5\<rparr>
      \<in> set (db_runs sample_ended_db)" by (simp add: sample_ended_db_def)
  with store_history_is_final [OF ok steps] obtain r' where "r' \<in> set (db_runs db')"
      "r_status r' = RunCompleted" "r_terminal_event r' = Some 40"
    by (auto simp: status_sets)
  with steps two show ?thesis by blast
qed

end
